(* ===== verification/Prelude.thy ===== *)
theory Prelude
  imports Main "HOL-Library.Char_ord" "HOL-Library.List_Lexorder" "HOL-Library.Sublist"
begin

text \<open>
  Shared vocabulary of the development: the lemma collections the components feed, the
  result type of fallible Go functions, the SQL fragments every table of the store uses
  (\<open>LIMIT\<close>, row update, row count) and the generic list facts about them.
\<close>

named_theorems store_defs \<open>unfoldings that evaluate the store on concrete tables\<close>

type_synonym ('e, 'a) result = "'e + 'a"
type_synonym rune = nat
type_synonym nanos = int

definition is_ok :: "('e, 'a) result \<Rightarrow> bool" where
  "is_ok r = (case r of Inl _ \<Rightarrow> False | Inr _ \<Rightarrow> True)"

lemma is_ok_simps [simp]: "is_ok (Inl e) = False" "is_ok (Inr v) = True"
  by (simp_all add: is_ok_def)

text \<open>\<open>LIMIT n\<close>: a negative limit means no limit.\<close>

definition sql_limit :: "int \<Rightarrow> 'a list \<Rightarrow> 'a list" where
  "sql_limit n xs = (if n < 0 then xs else take (nat n) xs)"

lemma set_sql_limit: "set (sql_limit n xs) \<subseteq> set xs"
  by (auto simp: sql_limit_def dest: in_set_takeD)

lemma length_sql_limit: "0 \<le> n \<Longrightarrow> int (length (sql_limit n xs)) \<le> n"
  by (simp add: sql_limit_def)

text \<open>\<open>UPDATE t SET ... WHERE p\<close> keeps the rows in place.\<close>

definition update_where :: "('a \<Rightarrow> bool) \<Rightarrow> ('a \<Rightarrow> 'a) \<Rightarrow> 'a list \<Rightarrow> 'a list" where
  "update_where p f xs = map (\<lambda>x. if p x then f x else x) xs"

definition delete_where :: "('a \<Rightarrow> bool) \<Rightarrow> 'a list \<Rightarrow> 'a list" where
  "delete_where p xs = filter (\<lambda>x. \<not> p x) xs"

definition count_where :: "('a \<Rightarrow> bool) \<Rightarrow> 'a list \<Rightarrow> nat" where
  "count_where p xs = length (filter p xs)"

definition exists_where :: "('a \<Rightarrow> bool) \<Rightarrow> 'a list \<Rightarrow> bool" where
  "exists_where p xs = list_ex p xs"

lemma exists_where_iff [simp]: "exists_where p xs \<longleftrightarrow> (\<exists>x \<in> set xs. p x)"
  by (simp add: exists_where_def list_ex_iff)

lemma update_where_Nil [simp]: "update_where p f [] = []"
  and update_where_Cons [simp]:
    "update_where p f (x # xs) = (if p x then f x else x) # update_where p f xs"
  and length_update_where [simp]: "length (update_where p f xs) = length xs"
  by (simp_all add: update_where_def)

lemma update_where_eq_Nil [simp]: "update_where p f xs = [] \<longleftrightarrow> xs = []"
  by (simp add: update_where_def)

lemma set_update_where: "set (update_where p f xs) = (\<lambda>x. if p x then f x else x) ` set xs"
  by (simp add: update_where_def)

lemma map_update_where:
  assumes "\<And>x. p x \<Longrightarrow> g (f x) = g x"
  shows "map g (update_where p f xs) = map g xs"
  using assms by (simp add: update_where_def)

lemma update_where_none: "\<not> (\<exists>x \<in> set xs. p x) \<Longrightarrow> update_where p f xs = xs"
  by (induction xs) auto

lemma set_delete_where [simp]: "set (delete_where p xs) = {x \<in> set xs. \<not> p x}"
  by (simp add: delete_where_def)

lemma delete_where_simps [simp]:
  "delete_where p [] = []"
  "delete_where p (x # xs) = (if p x then delete_where p xs else x # delete_where p xs)"
  by (simp_all add: delete_where_def)

lemma distinct_map_delete_where:
  "distinct (map f xs) \<Longrightarrow> distinct (map f (delete_where p xs))"
  by (simp add: delete_where_def distinct_map_filter)

lemma length_filter_delete_where:
  "length (filter q (delete_where p xs)) \<le> length (filter q xs)"
  by (induction xs) auto

lemma count_where_simps [simp]:
  "count_where p [] = 0"
  "count_where p (x # xs) = (if p x then Suc (count_where p xs) else count_where p xs)"
  "count_where p (xs @ ys) = count_where p xs + count_where p ys"
  by (simp_all add: count_where_def)

lemma count_where_0_iff: "count_where p xs = 0 \<longleftrightarrow> (\<forall>x \<in> set xs. \<not> p x)"
  by (induction xs) auto

lemma count_where_delete_le: "count_where q (delete_where p xs) \<le> count_where q xs"
  by (simp add: count_where_def length_filter_delete_where)

lemma count_where_update_le:
  assumes "\<And>x. p x \<Longrightarrow> q (f x) \<Longrightarrow> q x"
  shows "count_where q (update_where p f xs) \<le> count_where q xs"
  using assms by (induction xs) auto

text \<open>Rows found by a key that is unique in the table.\<close>

lemma find_Some_in: "find p xs = Some x \<Longrightarrow> x \<in> set xs \<and> p x"
  by (induction xs) (auto split: if_splits)

lemma find_unique:
  "distinct (map key xs) \<Longrightarrow> x \<in> set xs \<Longrightarrow> find (\<lambda>y. key y = key x) xs = Some x"
  by (induction xs) (auto simp: rev_image_eqI)

lemma filter_unique:
  "distinct (map key xs) \<Longrightarrow> find (\<lambda>y. key y = k) xs = Some x \<Longrightarrow> filter (\<lambda>y. key y = k) xs = [x]"
  by (induction xs) (auto simp: filter_empty_conv image_iff split: if_splits)

lemma filter_update_other:
  "(\<And>y. p y \<Longrightarrow> \<not> q y \<and> \<not> q (f y)) \<Longrightarrow> filter q (update_where p f xs) = filter q xs"
  by (induction xs) auto

lemma find_update_where_same:
  assumes "\<And>x. p x \<Longrightarrow> key (f x) = key x"
  shows "find (\<lambda>y. key y = k) (update_where p f xs) =
    map_option (\<lambda>x. if p x then f x else x) (find (\<lambda>y. key y = k) xs)"
  using assms by (induction xs) auto

lemma find_delete_where_other:
  "(\<And>x. p x \<Longrightarrow> key x \<noteq> k) \<Longrightarrow>
    find (\<lambda>y. key y = k) (delete_where p xs) = find (\<lambda>y. key y = k) xs"
  by (induction xs) auto

lemma find_append_None:
  "find p (xs @ ys) = (case find p xs of None \<Rightarrow> find p ys | Some x \<Rightarrow> Some x)"
  by (induction xs) auto

end
