(* ===== verification/Go_Text.thy ===== *)
theory Go_Text
  imports Prelude
begin

text \<open>
  The parts of Go's \<open>unicode/utf8\<close>, \<open>unicode\<close>, \<open>strings\<close> and \<open>strconv\<close> packages the
  sources use, over byte strings: a Go \<open>string\<close> or \<open>[]byte\<close> is a \<^typ>\<open>char list\<close> whose
  elements are bytes, a rune is its code point. Decoding follows \<open>utf8.DecodeRune\<close>: an
  invalid byte is U+FFFD of width one. The Unicode case tables beyond ASCII are not spelled
  out; the functions that need them take the table as an argument.
\<close>

section \<open>Runes and UTF-8\<close>

definition rune_error :: rune where "rune_error = 0xFFFD"

definition byte_val :: "char \<Rightarrow> nat" where "byte_val c = of_char c"

definition byte_of :: "nat \<Rightarrow> char" where "byte_of n = char_of n"

lemma byte_val_lt [simp]: "byte_val c < 256"
  using nat_of_char_less_256 [of c] by (simp add: byte_val_def)

lemma byte_val_byte_of: "n < 256 \<Longrightarrow> byte_val (byte_of n) = n"
  by (simp add: byte_val_def byte_of_def)

lemma byte_of_byte_val [simp]: "byte_of (byte_val c) = c"
  by (simp add: byte_val_def byte_of_def)

lemma byte_val_inj: "byte_val c = byte_val d \<longleftrightarrow> c = d"
  by (simp add: byte_val_def)

definition valid_rune :: "rune \<Rightarrow> bool" where
  "valid_rune r \<longleftrightarrow> r < 0xD800 \<or> (0xE000 \<le> r \<and> r \<le> 0x10FFFF)"

definition encode_valid :: "rune \<Rightarrow> string" where
  "encode_valid r =
     (if r < 0x80 then [byte_of r]
      else if r < 0x800 then [byte_of (0xC0 + r div 64), byte_of (0x80 + r mod 64)]
      else if r < 0x10000 then
        [byte_of (0xE0 + r div 4096), byte_of (0x80 + r div 64 mod 64), byte_of (0x80 + r mod 64)]
      else
        [byte_of (0xF0 + r div 262144), byte_of (0x80 + r div 4096 mod 64),
         byte_of (0x80 + r div 64 mod 64), byte_of (0x80 + r mod 64)])"

definition encode_rune :: "rune \<Rightarrow> string" where
  "encode_rune r = encode_valid (if valid_rune r then r else rune_error)"

definition is_cont :: "nat \<Rightarrow> bool" where
  "is_cont b \<longleftrightarrow> 0x80 \<le> b \<and> b \<le> 0xBF"

text \<open>The second byte's range depends on the first (no overlong forms, no surrogates).\<close>

definition second_ok :: "nat \<Rightarrow> nat \<Rightarrow> bool" where
  "second_ok b0 b1 \<longleftrightarrow>
     (if b0 = 0xE0 then 0xA0 \<le> b1 \<and> b1 \<le> 0xBF
      else if b0 = 0xED then 0x80 \<le> b1 \<and> b1 \<le> 0x9F
      else if b0 = 0xF0 then 0x90 \<le> b1 \<and> b1 \<le> 0xBF
      else if b0 = 0xF4 then 0x80 \<le> b1 \<and> b1 \<le> 0x8F
      else is_cont b1)"

fun decode_vals :: "nat list \<Rightarrow> rune \<times> nat" where
  "decode_vals [] = (rune_error, 0)"
| "decode_vals (b0 # bs) =
     (if b0 < 0x80 then (b0, 1)
      else if 0xC2 \<le> b0 \<and> b0 \<le> 0xDF then
        (case bs of
           b1 # _ \<Rightarrow> if second_ok b0 b1 then ((b0 - 0xC0) * 64 + (b1 - 0x80), 2) else (rune_error, 1)
         | [] \<Rightarrow> (rune_error, 1))
      else if 0xE0 \<le> b0 \<and> b0 \<le> 0xEF then
        (case bs of
           b1 # b2 # _ \<Rightarrow>
             if second_ok b0 b1 \<and> is_cont b2
             then ((b0 - 0xE0) * 4096 + (b1 - 0x80) * 64 + (b2 - 0x80), 3) else (rune_error, 1)
         | _ \<Rightarrow> (rune_error, 1))
      else if 0xF0 \<le> b0 \<and> b0 \<le> 0xF4 then
        (case bs of
           b1 # b2 # b3 # _ \<Rightarrow>
             if second_ok b0 b1 \<and> is_cont b2 \<and> is_cont b3
             then ((b0 - 0xF0) * 262144 + (b1 - 0x80) * 4096 + (b2 - 0x80) * 64 + (b3 - 0x80), 4)
             else (rune_error, 1)
         | _ \<Rightarrow> (rune_error, 1))
      else (rune_error, 1))"

text \<open>\<open>utf8.DecodeRune\<close> looks at four bytes at most.\<close>

definition decode_rune :: "string \<Rightarrow> rune \<times> nat" where
  "decode_rune s = decode_vals (map byte_val (take 4 s))"

lemma decode_vals_width:
  "snd (decode_vals bs) \<le> length bs" "bs \<noteq> [] \<Longrightarrow> 0 < snd (decode_vals bs)"
  by (cases bs rule: decode_vals.cases;
      simp split: list.splits)+

lemma decode_rune_width:
  "snd (decode_rune s) \<le> length s" "s \<noteq> [] \<Longrightarrow> 0 < snd (decode_rune s)"
  using decode_vals_width [of "map byte_val (take 4 s)"] by (auto simp: decode_rune_def)

text \<open>\<open>[]rune(s)\<close>, and the runes a \<open>range\<close> loop over \<open>s\<close> sees.\<close>

function runes :: "string \<Rightarrow> rune list" where
  "runes s = (if s = [] then []
     else let (r, n) = decode_rune s in r # runes (drop n s))"
  by pat_completeness auto
termination
proof (relation "measure length", goal_cases)
  case 1 show ?case by simp
next
  case (2 s rn r n)
  from 2(2,3) have "snd (decode_rune s) = n" by (metis snd_conv)
  with 2(1) decode_rune_width(2) [of s] show ?case by (cases s) auto
qed

declare runes.simps [simp del]

lemma runes_Nil [simp]: "runes [] = []"
  by (simp add: runes.simps)

definition of_runes :: "rune list \<Rightarrow> string" where
  "of_runes rs = concat (map encode_rune rs)"

lemma of_runes_simps [simp]:
  "of_runes [] = []"
  "of_runes (r # rs) = encode_rune r @ of_runes rs"
  "of_runes (rs @ qs) = of_runes rs @ of_runes qs"
  by (simp_all add: of_runes_def)

lemma valid_rune_error [simp]: "valid_rune rune_error"
  by (simp add: valid_rune_def rune_error_def)

lemma encode_rune_valid: "valid_rune r \<Longrightarrow> encode_rune r = encode_valid r"
  by (simp add: encode_rune_def)

lemma split_3x6: "(r::nat) = r div 4096 * 4096 + r div 64 mod 64 * 64 + r mod 64"
proof -
  have "r div 4096 = r div 64 div 64" by (simp add: div_mult2_eq [symmetric])
  then show ?thesis
    using div_mult_mod_eq [of r 64] div_mult_mod_eq [of "r div 64" 64] by linarith
qed

lemma split_4x6:
  "(r::nat) = r div 262144 * 262144 + r div 4096 mod 64 * 4096 + r div 64 mod 64 * 64 + r mod 64"
proof -
  have "r div 262144 = r div 4096 div 64" by (simp add: div_mult2_eq [symmetric])
  then show ?thesis
    using split_3x6 [of r] div_mult_mod_eq [of "r div 4096" 64] by linarith
qed

lemma encode_vals2:
  assumes "0x80 \<le> r" "r < 0x800"
  shows "decode_vals ((0xC0 + r div 64) # (0x80 + r mod 64) # bs) = (r, 2)"
proof -
  have "2 \<le> r div 64" "r div 64 < 32" "r mod 64 < 64" using assms by auto
  then show ?thesis by (auto simp: second_ok_def is_cont_def)
qed

lemma encode_vals3:
  assumes "0x800 \<le> r" "r < 0x10000" "valid_rune r"
  shows "decode_vals ((0xE0 + r div 4096) # (0x80 + r div 64 mod 64) # (0x80 + r mod 64) # bs) = (r, 3)"
proof -
  let ?a = "r div 4096" and ?b = "r div 64 mod 64" and ?c = "r mod 64"
  have bounds: "?a < 16" "?b < 64" "?c < 64" using assms by auto
  have r: "?a * 4096 + ?b * 64 + ?c = r" by (rule split_3x6 [symmetric])
  have lo: "?a = 0 \<Longrightarrow> 32 \<le> ?b" using assms(1) bounds r by linarith
  have hi: "?a = 13 \<Longrightarrow> ?b < 32" using assms(2,3) bounds r unfolding valid_rune_def by linarith
  have "second_ok (0xE0 + ?a) (0x80 + ?b)" "is_cont (0x80 + ?c)"
    using bounds lo hi by (auto simp: second_ok_def is_cont_def)
  then show ?thesis using bounds r by simp
qed

lemma encode_vals4:
  assumes "0x10000 \<le> r" "r \<le> 0x10FFFF"
  shows "decode_vals ((0xF0 + r div 262144) # (0x80 + r div 4096 mod 64) #
    (0x80 + r div 64 mod 64) # (0x80 + r mod 64) # bs) = (r, 4)"
proof -
  let ?a = "r div 262144" and ?b = "r div 4096 mod 64" and ?c = "r div 64 mod 64" and ?d = "r mod 64"
  have bounds: "?a < 5" "?b < 64" "?c < 64" "?d < 64" using assms by auto
  have r: "?a * 262144 + ?b * 4096 + ?c * 64 + ?d = r" by (rule split_4x6 [symmetric])
  have lo: "?a = 0 \<Longrightarrow> 16 \<le> ?b" using assms(1) bounds r by linarith
  have hi: "?a = 4 \<Longrightarrow> ?b < 16" using assms(2) bounds r by linarith
  have "second_ok (0xF0 + ?a) (0x80 + ?b)" "is_cont (0x80 + ?c)" "is_cont (0x80 + ?d)"
    using bounds lo hi by (auto simp: second_ok_def is_cont_def)
  then show ?thesis using bounds r by simp
qed

lemma length_encode_valid: "length (encode_valid r) \<le> 4"
  by (simp add: encode_valid_def)

text \<open>Decoding an encoded rune gives it back, whatever follows.\<close>

lemma decode_encode_valid:
  assumes "valid_rune r"
  shows "decode_rune (encode_valid r @ s) = (r, length (encode_valid r))"
proof -
  have max: "r \<le> 0x10FFFF" using assms by (auto simp: valid_rune_def)
  consider "r < 0x80" | "0x80 \<le> r" "r < 0x800" | "0x800 \<le> r" "r < 0x10000" | "0x10000 \<le> r"
    by linarith
  then show ?thesis
  proof cases
    case 1
    then show ?thesis by (simp add: decode_rune_def encode_valid_def byte_val_byte_of)
  next
    case 2
    then have "r div 64 < 64" by auto
    with 2 show ?thesis
      by (simp add: decode_rune_def encode_valid_def byte_val_byte_of encode_vals2
          del: decode_vals.simps)
  next
    case 3
    then have "r div 4096 < 16" by auto
    with 3 assms show ?thesis
      by (simp add: decode_rune_def encode_valid_def byte_val_byte_of encode_vals3
          del: decode_vals.simps)
  next
    case 4
    with max have "r div 262144 < 16" by auto
    with 4 max show ?thesis
      by (simp add: decode_rune_def encode_valid_def byte_val_byte_of encode_vals4
          del: decode_vals.simps)
  qed
qed

lemma encode_rune_nonempty [simp]: "encode_rune r \<noteq> []"
  by (simp add: encode_rune_def encode_valid_def)

lemma runes_encode_append:
  assumes "valid_rune r"
  shows "runes (encode_rune r @ s) = r # runes s"
  using assms decode_encode_valid [OF assms, of s]
  by (subst runes.simps) (simp add: encode_rune_valid [symmetric])

text \<open>\<open>[]rune(string(rs)) = rs\<close> for valid runes, and appending.\<close>

lemma runes_of_runes_append:
  "list_all valid_rune rs \<Longrightarrow> runes (of_runes rs @ s) = rs @ runes s"
  by (induction rs) (simp_all add: runes_encode_append)

lemma runes_of_runes: "list_all valid_rune rs \<Longrightarrow> runes (of_runes rs) = rs"
  using runes_of_runes_append [of rs "[]"] by simp

lemma decode_vals_valid: "valid_rune (fst (decode_vals bs))"
proof (cases bs rule: decode_vals.cases)
  case (2 b0 bs')
  show ?thesis
  proof (cases "0xE0 \<le> b0")
    case False
    then show ?thesis unfolding 2
      by (auto simp: valid_rune_def rune_error_def second_ok_def is_cont_def split: list.splits)
  next
    case True
    have "second_ok b0 b1 \<Longrightarrow> is_cont b2 \<Longrightarrow> b0 \<le> 0xEF \<Longrightarrow>
        valid_rune ((b0 - 0xE0) * 4096 + (b1 - 0x80) * 64 + (b2 - 0x80))" for b1 b2
      using True
      by (cases "b0 < 0xED"; cases "b0 = 0xED";
          auto simp: valid_rune_def second_ok_def is_cont_def split: if_splits)
    moreover have "second_ok b0 b1 \<Longrightarrow> is_cont b2 \<Longrightarrow> is_cont b3 \<Longrightarrow> 0xF0 \<le> b0 \<Longrightarrow> b0 \<le> 0xF4 \<Longrightarrow>
        valid_rune ((b0 - 0xF0) * 262144 + (b1 - 0x80) * 4096 + (b2 - 0x80) * 64 + (b3 - 0x80))"
      for b1 b2 b3
      by (cases "b0 = 0xF0"; cases "b0 = 0xF4";
          auto simp: valid_rune_def second_ok_def is_cont_def split: if_splits)
    ultimately show ?thesis using True unfolding 2 by (auto split: list.splits)
  qed
qed simp

lemma list_all_valid_runes: "list_all valid_rune (runes s)"
proof (induction s rule: runes.induct)
  case (1 s)
  obtain r n where d: "decode_rune s = (r, n)" by fastforce
  have "valid_rune r" using decode_vals_valid [of "map byte_val (take 4 s)"] d
    by (simp add: decode_rune_def)
  with 1 d show ?case by (subst runes.simps) auto
qed

lemma valid_runes: "r \<in> set (runes s) \<Longrightarrow> valid_rune r"
  using list_all_valid_runes [of s] by (auto simp: list_all_iff)

text \<open>Converting twice is converting once: \<open>string([]rune(s))\<close> is valid UTF-8.\<close>

lemma runes_of_runes_runes [simp]: "runes (of_runes (runes s)) = runes s"
  by (rule runes_of_runes) (rule list_all_valid_runes)

definition valid_utf8 :: "string \<Rightarrow> bool" where
  "valid_utf8 s \<longleftrightarrow> of_runes (runes s) = s"

lemma valid_utf8_of_runes: "list_all valid_rune rs \<Longrightarrow> valid_utf8 (of_runes rs)"
  by (simp add: valid_utf8_def runes_of_runes)

text \<open>A string whose runes are all good is their encoding.\<close>

lemma base64:
  fixes x y z w :: nat
  shows "y < 64 \<Longrightarrow> (x * 64 + y) div 64 = x" "y < 64 \<Longrightarrow> (x * 64 + y) mod 64 = y"
    "r div 4096 = r div 64 div (64::nat)" "r div 262144 = r div 64 div 64 div (64::nat)"
  by (simp_all flip: div_mult2_eq)

lemma encode_two: "2 \<le> x \<Longrightarrow> x < 32 \<Longrightarrow> y < 64 \<Longrightarrow> encode_valid (x * 64 + y) = map byte_of [0xC0 + x, 0x80 + y]"
  by (simp add: encode_valid_def base64)

lemma encode_three:
  assumes "0x800 \<le> x * 4096 + y * 64 + z" "x < 16" "y < 64" "z < 64"
  shows "encode_valid (x * 4096 + y * 64 + z) = map byte_of [0xE0 + x, 0x80 + y, 0x80 + z]"
proof -
  have r: "x * 4096 + y * 64 + z = (x * 64 + y) * 64 + z" by simp
  have "x * 4096 + y * 64 + z < 0x10000" using assms by linarith
  then have "\<not> (x * 64 + y) * 64 + z < 0x800" "(x * 64 + y) * 64 + z < 0x10000" using assms(1) unfolding r by linarith+
  then show ?thesis unfolding r encode_valid_def using assms by (simp only: base64 if_False if_True) simp
qed

lemma encode_four:
  assumes "0x10000 \<le> x * 262144 + y * 4096 + z * 64 + w" "y < 64" "z < 64" "w < 64"
  shows "encode_valid (x * 262144 + y * 4096 + z * 64 + w) = map byte_of [0xF0 + x, 0x80 + y, 0x80 + z, 0x80 + w]"
proof -
  have r: "x * 262144 + y * 4096 + z * 64 + w = ((x * 64 + y) * 64 + z) * 64 + w" by simp
  have "\<not> ((x * 64 + y) * 64 + z) * 64 + w < 0x10000" using assms unfolding r by linarith
  then show ?thesis unfolding r encode_valid_def using assms by (simp only: base64 if_False if_True) simp
qed

lemma decode_vals_encode:
  assumes "decode_vals vs = (r, n)" "r \<noteq> rune_error"
  shows "map byte_of (take n vs) = encode_valid r"
proof (cases vs rule: decode_vals.cases)
  case (2 b0 bs)
  consider "b0 < 0x80" | b1 t where "0xC2 \<le> b0" "b0 \<le> 0xDF" "bs = b1 # t" "second_ok b0 b1"
    | b1 b2 t where "0xE0 \<le> b0" "b0 \<le> 0xEF" "bs = b1 # b2 # t" "second_ok b0 b1" "is_cont b2"
    | b1 b2 b3 t where "0xF0 \<le> b0" "b0 \<le> 0xF4" "bs = b1 # b2 # b3 # t" "second_ok b0 b1" "is_cont b2" "is_cont b3"
    using assms unfolding 2 by (auto split: if_splits list.splits)
  then show ?thesis
  proof cases
    case 1
    with assms 2 show ?thesis by (auto simp: encode_valid_def)
  next
    case 2
    then have "is_cont b1" by (auto simp: second_ok_def)
    with 2 assms \<open>vs = b0 # bs\<close> encode_two [of "b0 - 0xC0" "b1 - 0x80"] show ?thesis by (auto simp: is_cont_def)
  next
    case 3
    have "is_cont b1" "b0 = 0xE0 \<longrightarrow> 0xA0 \<le> b1" using 3 by (auto simp: second_ok_def is_cont_def split: if_splits)
    then have big: "0x800 \<le> (b0 - 0xE0) * 4096 + (b1 - 0x80) * 64 + (b2 - 0x80)"
      using 3 by (cases "b0 = 0xE0") (auto simp: is_cont_def)
    from encode_three [OF big] 3 assms \<open>vs = b0 # bs\<close> \<open>is_cont b1\<close> show ?thesis by (auto simp: is_cont_def)
  next
    case 4
    have "is_cont b1" "b0 = 0xF0 \<longrightarrow> 0x90 \<le> b1" using 4 by (auto simp: second_ok_def is_cont_def split: if_splits)
    then have big: "0x10000 \<le> (b0 - 0xF0) * 262144 + (b1 - 0x80) * 4096 + (b2 - 0x80) * 64 + (b3 - 0x80)"
      using 4 by (cases "b0 = 0xF0") (auto simp: is_cont_def)
    from encode_four [OF big] 4 assms \<open>vs = b0 # bs\<close> \<open>is_cont b1\<close> show ?thesis by (auto simp: is_cont_def)
  qed
qed (use assms in auto)

lemma runes_no_error: "rune_error \<notin> set (runes s) \<Longrightarrow> of_runes (runes s) = s"
proof (induction s rule: runes.induct)
  case (1 s)
  show ?case
  proof (cases "s = []")
    case False
    obtain r n where d: "decode_rune s = (r, n)" by fastforce
    have run: "runes s = r # runes (drop n s)" using False d by (subst runes.simps) simp
    with 1(2) have r: "r \<noteq> rune_error" "rune_error \<notin> set (runes (drop n s))" by auto
    have valid: "valid_rune r" using run valid_runes [of r s] by simp
    have n: "n \<le> 4" using decode_vals_width(1) [of "map byte_val (take 4 s)"] d by (simp add: decode_rune_def)
    have "map byte_of (take n (map byte_val (take 4 s))) = encode_valid r"
      using decode_vals_encode [OF d [unfolded decode_rune_def] r(1)] .
    then have "take n s = encode_rune r" using n valid by (simp add: take_map o_def encode_rune_valid min_absorb1)
    with 1(1) [OF False d [symmetric]] r run append_take_drop_id [of n s] show ?thesis by simp
  qed simp
qed

end
