(* ===== verification/Go_Strings.thy ===== *)
theory Go_Strings
  imports Go_Text
begin

text \<open>
  Go's \<open>strings\<close>, \<open>bytes\<close>, \<open>unicode\<close> and \<open>strconv\<close> functions as the sources call them:
  trimming, splitting, cutting, joining, replacing, case mapping and decimal numbers.
  Separators and cut sets in the sources are ASCII, so they are bytes here.
\<close>

section \<open>Character classes\<close>

text \<open>\<open>unicode.IsControl\<close>: category Cc.\<close>

definition is_control :: "rune \<Rightarrow> bool" where
  "is_control r \<longleftrightarrow> r < 0x20 \<or> (0x7F \<le> r \<and> r < 0xA0)"

text \<open>\<open>unicode.Bidi_Control\<close>.\<close>

definition is_bidi :: "rune \<Rightarrow> bool" where
  "is_bidi r \<longleftrightarrow> r = 0x61C \<or> r = 0x200E \<or> r = 0x200F \<or> (0x202A \<le> r \<and> r \<le> 0x202E) \<or>
     (0x2066 \<le> r \<and> r \<le> 0x2069)"

text \<open>\<open>unicode.IsSpace\<close>: White_Space.\<close>

definition is_space :: "rune \<Rightarrow> bool" where
  "is_space r \<longleftrightarrow> (0x09 \<le> r \<and> r \<le> 0x0D) \<or> r = 0x20 \<or> r = 0x85 \<or> r = 0xA0 \<or> r = 0x1680 \<or>
     (0x2000 \<le> r \<and> r \<le> 0x200A) \<or> r = 0x2028 \<or> r = 0x2029 \<or> r = 0x202F \<or> r = 0x205F \<or> r = 0x3000"

definition is_ascii :: "char \<Rightarrow> bool" where
  "is_ascii c \<longleftrightarrow> byte_val c < 0x80"

lemma rune_error_not_space [simp]: "\<not> is_space rune_error"
  by (simp add: is_space_def rune_error_def)

lemma encode_rune_ascii: "is_ascii c \<Longrightarrow> encode_rune (byte_val c) = [c]"
  by (simp add: is_ascii_def encode_rune_def encode_valid_def valid_rune_def)

lemma runes_ascii: "list_all is_ascii s \<Longrightarrow> runes s = map byte_val s"
proof (induction s)
  case (Cons c s)
  then have "runes (encode_rune (byte_val c) @ s) = byte_val c # runes s"
    by (intro runes_encode_append) (auto simp: is_ascii_def valid_rune_def)
  with Cons show ?case by (simp add: encode_rune_ascii)
qed simp

lemma of_runes_ascii: "list_all is_ascii s \<Longrightarrow> of_runes (map byte_val s) = s"
  by (induction s) (simp_all add: encode_rune_ascii)

section \<open>Trimming\<close>

definition rune_start :: "char \<Rightarrow> bool" where
  "rune_start c \<longleftrightarrow> \<not> is_cont (byte_val c)"

text \<open>\<open>utf8.DecodeLastRune\<close>: back up to a start byte at most three bytes away and check
  that the rune decoded there ends the string.\<close>

definition decode_last_rune :: "string \<Rightarrow> rune \<times> nat" where
  "decode_last_rune s = (case rev s of
       [] \<Rightarrow> (rune_error, 0)
     | c # rest \<Rightarrow>
         if is_ascii c then (byte_val c, 1)
         else let k = length (takeWhile (\<lambda>d. \<not> rune_start d) (take 3 rest)) + 2
              in if k \<le> 4 \<and> k \<le> length s
                 then let (r, m) = decode_rune (drop (length s - k) s)
                      in if m = k then (r, k) else (rune_error, 1)
                 else (rune_error, 1))"

lemma decode_last_encode_valid:
  assumes "valid_rune r"
  shows "decode_last_rune (s @ encode_valid r) = (r, length (encode_valid r))"
proof -
  have dec: "decode_rune (encode_valid r) = (r, length (encode_valid r))"
    using decode_encode_valid [OF assms, of "[]"] by simp
  have max: "r \<le> 0x10FFFF" using assms by (auto simp: valid_rune_def)
  have cont: "\<not> is_ascii (byte_of (0x80 + x mod 64))" "\<not> rune_start (byte_of (0x80 + x mod 64))"
    for x :: nat
    by (auto simp: is_ascii_def rune_start_def is_cont_def byte_val_byte_of)
  have start: "x < 64 \<Longrightarrow> rune_start (byte_of (0xC0 + x))" for x :: nat
    by (simp add: rune_start_def is_cont_def byte_val_byte_of)
  consider "r < 0x80" | "0x80 \<le> r" "r < 0x800" | "0x800 \<le> r" "r < 0x10000" | "0x10000 \<le> r"
    by linarith
  then show ?thesis
  proof cases
    case 1
    then show ?thesis
      by (simp add: decode_last_rune_def encode_valid_def is_ascii_def byte_val_byte_of)
  next
    case 2
    then have "rune_start (byte_of (0xC0 + r div 64))" by (intro start) auto
    with 2 dec cont [of r] show ?thesis
      by (simp add: decode_last_rune_def encode_valid_def)
  next
    case 3
    then have "rune_start (byte_of (0xE0 + r div 4096))"
      using start [of "0x20 + r div 4096"] by simp
    with 3 dec cont [of r] cont [of "r div 64"] show ?thesis
      by (simp add: decode_last_rune_def encode_valid_def)
  next
    case 4
    then have "rune_start (byte_of (0xF0 + r div 262144))"
      using max start [of "0x30 + r div 262144"] by simp
    with 4 dec cont [of r] cont [of "r div 64"] cont [of "r div 4096"] show ?thesis
      by (simp add: decode_last_rune_def encode_valid_def)
  qed
qed

function trim_left_space :: "string \<Rightarrow> string" where
  "trim_left_space s =
     (let (r, n) = decode_rune s in if s \<noteq> [] \<and> is_space r then trim_left_space (drop n s) else s)"
  by pat_completeness auto
termination
proof (relation "measure length", goal_cases)
  case 1 show ?case by simp
next
  case (2 s rn r n)
  from 2(1,2) have "snd (decode_rune s) = n" by (metis snd_conv)
  with 2(3) decode_rune_width(2) [of s] show ?case by (cases s) auto
qed

lemma decode_last_rune_width: "is_space (fst (decode_last_rune s)) \<Longrightarrow> 0 < snd (decode_last_rune s)"
  by (auto simp: decode_last_rune_def Let_def split: list.splits if_splits prod.splits)

function trim_right_space :: "string \<Rightarrow> string" where
  "trim_right_space s =
     (let (r, n) = decode_last_rune s
      in if s \<noteq> [] \<and> is_space r then trim_right_space (take (length s - n) s) else s)"
  by pat_completeness auto
termination
proof (relation "measure length", goal_cases)
  case 1 show ?case by simp
next
  case (2 s rn r n)
  from 2(1,2) have "fst (decode_last_rune s) = r" "snd (decode_last_rune s) = n"
    by (metis fst_conv, metis snd_conv)
  with 2(3) decode_last_rune_width [of s] show ?case by (cases s) auto
qed

declare trim_left_space.simps [simp del] trim_right_space.simps [simp del]

definition trim_space :: "string \<Rightarrow> string" where
  "trim_space s = trim_right_space (trim_left_space s)"

definition trim_runes :: "rune list \<Rightarrow> rune list" where
  "trim_runes rs = rev (dropWhile is_space (rev (dropWhile is_space rs)))"

lemma trim_left_of_runes:
  "list_all valid_rune rs \<Longrightarrow> trim_left_space (of_runes rs) = of_runes (dropWhile is_space rs)"
proof (induction rs)
  case Nil
  show ?case by (subst trim_left_space.simps) (simp add: decode_rune_def)
next
  case (Cons r rs)
  then have "decode_rune (encode_rune r @ of_runes rs) = (r, length (encode_rune r))"
    using decode_encode_valid [of r] by (simp add: encode_rune_valid)
  with Cons show ?case by (subst trim_left_space.simps) simp
qed

lemma trim_right_of_runes:
  "list_all valid_rune rs \<Longrightarrow>
    trim_right_space (of_runes rs) = of_runes (rev (dropWhile is_space (rev rs)))"
proof (induction rs rule: rev_induct)
  case Nil
  show ?case by (subst trim_right_space.simps) (simp add: decode_last_rune_def)
next
  case (snoc r rs)
  then have "decode_last_rune (of_runes rs @ encode_rune r) = (r, length (encode_rune r))"
    using decode_last_encode_valid [of r] by (simp add: encode_rune_valid)
  with snoc show ?case by (subst trim_right_space.simps) simp
qed

lemma list_all_dropWhile: "list_all P xs \<Longrightarrow> list_all P (dropWhile Q xs)"
  by (induction xs) auto

text \<open>On valid UTF-8, \<open>strings.TrimSpace\<close> trims runes.\<close>

lemma trim_space_of_runes:
  "list_all valid_rune rs \<Longrightarrow> trim_space (of_runes rs) = of_runes (trim_runes rs)"
  by (simp add: trim_space_def trim_runes_def trim_left_of_runes trim_right_of_runes
      list_all_dropWhile)

lemma set_trim_runes: "set (trim_runes rs) \<subseteq> set rs"
  by (auto simp: trim_runes_def) (metis set_dropWhileD set_rev)

lemma dropWhile_none: "(\<forall>x \<in> set xs. \<not> P x) \<Longrightarrow> dropWhile P xs = xs"
  by (cases xs) auto

lemma trim_runes_id: "(\<forall>r \<in> set rs. \<not> is_space r) \<Longrightarrow> trim_runes rs = rs"
  by (simp add: trim_runes_def dropWhile_none)

lemma trim_space_id:
  assumes "list_all (\<lambda>c. is_ascii c \<and> \<not> is_space (byte_val c)) s"
  shows "trim_space s = s"
proof -
  have a: "list_all is_ascii s" and "list_all valid_rune (map byte_val s)"
    and "\<forall>r \<in> set (map byte_val s). \<not> is_space r"
    using assms by (auto simp: list_all_iff is_ascii_def valid_rune_def)
  then show ?thesis
    using trim_space_of_runes [of "map byte_val s"] of_runes_ascii [OF a] by (simp add: trim_runes_id)
qed

text \<open>\<open>strings.TrimRight\<close> and \<open>TrimLeft\<close> with an ASCII cut set.\<close>

definition trim_right_bytes :: "string \<Rightarrow> string \<Rightarrow> string" where
  "trim_right_bytes cset s = rev (dropWhile (\<lambda>c. c \<in> set cset) (rev s))"

definition trim_left_bytes :: "string \<Rightarrow> string \<Rightarrow> string" where
  "trim_left_bytes cset s = dropWhile (\<lambda>c. c \<in> set cset) s"

definition trim_bytes :: "string \<Rightarrow> string \<Rightarrow> string" where
  "trim_bytes cset s = trim_right_bytes cset (trim_left_bytes cset s)"

section \<open>Splitting, joining, cutting\<close>

text \<open>\<open>strings.Split\<close> with a one-byte separator: always at least one piece.\<close>

fun split_on :: "'a \<Rightarrow> 'a list \<Rightarrow> 'a list list" where
  "split_on sep [] = [[]]"
| "split_on sep (c # s) =
     (if c = sep then [] # split_on sep s
      else case split_on sep s of p # ps \<Rightarrow> (c # p) # ps | [] \<Rightarrow> [[c]])"

fun join :: "'a list \<Rightarrow> 'a list list \<Rightarrow> 'a list" where
  "join sep [] = []"
| "join sep [p] = p"
| "join sep (p # q # ps) = p @ sep @ join sep (q # ps)"

lemma split_on_nonempty [simp]: "split_on sep s \<noteq> []"
  by (cases s) (auto split: list.splits)

lemma join_split: "join [sep] (split_on sep s) = s"
proof (induction s)
  case (Cons c s)
  obtain p ps where "split_on sep s = p # ps" by (cases "split_on sep s") auto
  with Cons show ?case by (cases ps) auto
qed simp

lemma split_on_no_sep: "sep \<notin> set p \<Longrightarrow> split_on sep p = [p]"
  by (induction p) auto

lemma split_on_append:
  "sep \<notin> set p \<Longrightarrow> split_on sep (p @ sep # s) = p # split_on sep s"
  by (induction p) auto

text \<open>Splitting what was joined gives the pieces back when none contains the separator.\<close>

lemma split_join:
  "ps \<noteq> [] \<Longrightarrow> (\<forall>p \<in> set ps. sep \<notin> set p) \<Longrightarrow> split_on sep (join [sep] ps) = ps"
proof (induction "[sep]" ps rule: join.induct)
  case (3 p q ps)
  then show ?case using split_on_append [of sep p] by simp
qed (simp_all add: split_on_no_sep)

lemma split_on_pieces: "p \<in> set (split_on sep s) \<Longrightarrow> sep \<notin> set p"
  by (induction s arbitrary: p) (fastforce split: if_splits list.splits)+

text \<open>\<open>strings.Cut\<close> and \<open>IndexByte\<close> at the first separator.\<close>

fun cut_at :: "'a \<Rightarrow> 'a list \<Rightarrow> ('a list \<times> 'a list) option" where
  "cut_at sep [] = None"
| "cut_at sep (c # s) = (if c = sep then Some ([], s) else map_option (\<lambda>(a, b). (c # a, b)) (cut_at sep s))"

lemma cut_at_append: "sep \<notin> set a \<Longrightarrow> cut_at sep (a @ sep # b) = Some (a, b)"
  by (induction a) auto

lemma cut_at_none_iff: "cut_at sep s = None \<longleftrightarrow> sep \<notin> set s"
  by (induction s) auto

lemma cut_at_SomeD: "cut_at sep s = Some (a, b) \<Longrightarrow> s = a @ sep # b \<and> sep \<notin> set a"
  by (induction s arbitrary: a) (auto split: if_splits)

text \<open>\<open>strings.Contains\<close>, and SQLite's \<open>instr(s, sub) > 0\<close>.\<close>

fun contains :: "'a list \<Rightarrow> 'a list \<Rightarrow> bool" where
  "contains [] sub = (sub = [])"
| "contains (c # s) sub = (prefix sub (c # s) \<or> contains s sub)"

text \<open>\<open>strings.Fields\<close>: the maximal runs without white space, as the bytes they have.\<close>

function fields_from :: "string \<Rightarrow> string \<Rightarrow> string list" where
  "fields_from cur s =
     (if s = [] then (if cur = [] then [] else [cur])
      else let (r, n) = decode_rune s
           in if is_space r then (if cur = [] then [] else [cur]) @ fields_from [] (drop n s)
              else fields_from (cur @ take n s) (drop n s))"
  by pat_completeness auto
termination
proof (relation "measure (\<lambda>(_, s). length s)", goal_cases)
  case 1 show ?case by simp
next
  case (2 cur s rn r n)
  from 2(2,3) have "snd (decode_rune s) = n" by (metis snd_conv)
  with 2(1) decode_rune_width(2) [of s] show ?case by (cases s) auto
next
  case (3 cur s rn r n)
  from 3(2,3) have "snd (decode_rune s) = n" by (metis snd_conv)
  with 3(1) decode_rune_width(2) [of s] show ?case by (cases s) auto
qed

declare fields_from.simps [simp del]

definition fields_of :: "string \<Rightarrow> string list" where
  "fields_of s = fields_from [] s"

lemma decode_rune_ascii: "is_ascii c \<Longrightarrow> decode_rune (c # s) = (byte_val c, 1)"
  using decode_encode_valid [of "byte_val c" s] encode_rune_ascii [of c]
  by (simp add: encode_rune_valid is_ascii_def valid_rune_def)

definition word_char :: "char \<Rightarrow> bool" where
  "word_char c \<longleftrightarrow> is_ascii c \<and> \<not> is_space (byte_val c)"

lemma fields_from_word:
  "list_all word_char w \<Longrightarrow> fields_from cur (w @ s) = fields_from (cur @ w) s"
proof (induction w arbitrary: cur)
  case (Cons c w)
  then show ?case by (subst fields_from.simps) (simp add: word_char_def decode_rune_ascii)
qed simp

lemma fields_from_space: "fields_from cur (CHR '' '' # s) = (if cur = [] then [] else [cur]) @ fields_from [] s"
  by (subst fields_from.simps) (simp add: decode_rune_ascii is_ascii_def byte_val_def is_space_def)

lemma fields_Nil [simp]: "fields_of [] = []" "fields_from [] [] = []"
  by (simp_all add: fields_of_def fields_from.simps)

lemma fields_word: "list_all word_char w \<Longrightarrow> w \<noteq> [] \<Longrightarrow> fields_of w = [w]"
  using fields_from_word [of w "[]" "[]"] by (simp add: fields_of_def) (subst fields_from.simps, simp)

lemma fields_space: "fields_of (CHR '' '' # s) = fields_of s"
  by (simp add: fields_of_def fields_from_space)

lemma fields_word_space:
  "list_all word_char w \<Longrightarrow> w \<noteq> [] \<Longrightarrow> fields_of (w @ CHR '' '' # s) = w # fields_of s"
  using fields_from_word [of w "[]" "CHR '' '' # s"] by (simp add: fields_of_def fields_from_space)

text \<open>\<open>ReplaceAll\<close>: non-overlapping matches from the left; the sources never pass an empty
  \<open>old\<close>.\<close>

function replace_all :: "'a list \<Rightarrow> 'a list \<Rightarrow> 'a list \<Rightarrow> 'a list" where
  "replace_all old new s =
     (if s = [] \<or> old = [] then s
      else if prefix old s then new @ replace_all old new (drop (length old) s)
      else hd s # replace_all old new (tl s))"
  by pat_completeness auto
termination
  by (relation "measure (\<lambda>(_, _, s). length s)") auto

declare replace_all.simps [simp del]

lemma replace_all_single:
  "replace_all [a] new s = concat (map (\<lambda>c. if c = a then new else [c]) s)"
proof (induction s)
  case Nil
  show ?case by (simp add: replace_all.simps)
next
  case (Cons c s)
  then show ?case by (subst replace_all.simps) auto
qed

lemma replace_all_none: "c \<notin> set s \<Longrightarrow> replace_all (c # old) new s = s"
proof (induction s)
  case (Cons x s)
  then show ?case by (subst replace_all.simps) auto
qed (simp add: replace_all.simps)

section \<open>Case\<close>

definition ascii_lower :: "nat \<Rightarrow> nat" where
  "ascii_lower b = (if 65 \<le> b \<and> b \<le> 90 then b + 32 else b)"

definition ascii_upper :: "nat \<Rightarrow> nat" where
  "ascii_upper b = (if 97 \<le> b \<and> b \<le> 122 then b - 32 else b)"

text \<open>\<open>strings.ToLower\<close>; \<open>uni\<close> is \<open>unicode.ToLower\<close> beyond ASCII. An invalid byte comes
  out as U+FFFD, as \<open>strings.Map\<close> does.\<close>

definition lower_rune :: "(rune \<Rightarrow> rune) \<Rightarrow> rune \<Rightarrow> rune" where
  "lower_rune uni r = (if r < 0x80 then ascii_lower r else uni r)"

definition to_lower :: "(rune \<Rightarrow> rune) \<Rightarrow> string \<Rightarrow> string" where
  "to_lower uni s = of_runes (map (lower_rune uni) (runes s))"

definition to_upper :: "(rune \<Rightarrow> rune) \<Rightarrow> string \<Rightarrow> string" where
  "to_upper uni s = of_runes (map (\<lambda>r. if r < 0x80 then ascii_upper r else uni r) (runes s))"

text \<open>SQLite's \<open>lower()\<close> and \<open>NOCASE\<close> fold ASCII letters only.\<close>

definition sql_lower :: "string \<Rightarrow> string" where
  "sql_lower s = map (\<lambda>c. byte_of (ascii_lower (byte_val c))) s"

lemma to_lower_ascii: "list_all is_ascii s \<Longrightarrow> to_lower uni s = sql_lower s"
proof (induction s)
  case (Cons c s)
  then have "byte_val c < 0x80" by (simp add: is_ascii_def)
  then have "encode_rune (ascii_lower (byte_val c)) = [byte_of (ascii_lower (byte_val c))]"
    by (auto simp: encode_rune_def encode_valid_def valid_rune_def ascii_lower_def)
  moreover have "runes (c # s) = byte_val c # runes s"
    using Cons.prems runes_ascii [of "c # s"] runes_ascii [of s] by simp
  ultimately show ?case using Cons \<open>byte_val c < 0x80\<close>
    by (simp add: to_lower_def sql_lower_def lower_rune_def)
qed (simp add: to_lower_def sql_lower_def)

lemma to_upper_id: "list_all (\<lambda>c. is_ascii c \<and> \<not> (97 \<le> byte_val c \<and> byte_val c \<le> 122)) s \<Longrightarrow> to_upper uni s = s"
proof -
  assume a: "list_all (\<lambda>c. is_ascii c \<and> \<not> (97 \<le> byte_val c \<and> byte_val c \<le> 122)) s"
  then have s: "list_all is_ascii s" by (simp add: list_all_iff)
  have "map ((\<lambda>r. if r < 0x80 then ascii_upper r else uni r) \<circ> byte_val) s = map byte_val s"
    using a by (auto simp: list_all_iff ascii_upper_def is_ascii_def)
  then show ?thesis unfolding to_upper_def runes_ascii [OF s] map_map using of_runes_ascii [OF s] by (simp only:)
qed

lemma sql_lower_id: "list_all (\<lambda>c. byte_val c < 65 \<or> 90 < byte_val c) s \<Longrightarrow> sql_lower s = s"
  by (induction s) (auto simp: sql_lower_def ascii_lower_def)

section \<open>Decimal numbers\<close>

definition digit :: "nat \<Rightarrow> char" where "digit d = byte_of (48 + d)"

fun nat_digits :: "nat \<Rightarrow> string" where
  "nat_digits n = (if n < 10 then [digit n] else nat_digits (n div 10) @ [digit (n mod 10)])"

declare nat_digits.simps [simp del]

text \<open>\<open>strconv.Itoa\<close> and \<open>%d\<close>.\<close>

definition itoa :: "int \<Rightarrow> string" where
  "itoa i = (if i < 0 then CHR ''-'' # nat_digits (nat (- i)) else nat_digits (nat i))"

definition is_digit :: "char \<Rightarrow> bool" where
  "is_digit c \<longleftrightarrow> 48 \<le> byte_val c \<and> byte_val c \<le> 57"

definition digits_val :: "string \<Rightarrow> nat" where
  "digits_val s = foldl (\<lambda>n c. n * 10 + (byte_val c - 48)) 0 s"

definition parse_digits :: "string \<Rightarrow> nat option" where
  "parse_digits s = (if s \<noteq> [] \<and> list_all is_digit s then Some (digits_val s) else None)"

text \<open>\<open>strconv.Atoi\<close>: an optional sign, digits, and the result in the range of \<open>int\<close>.\<close>

definition int_range :: "int \<Rightarrow> bool" where
  "int_range i \<longleftrightarrow> - (2 ^ 63) \<le> i \<and> i < 2 ^ 63"

definition atoi :: "string \<Rightarrow> int option" where
  "atoi s =
     (let (neg, ds) = (case s of c # r \<Rightarrow> if c = CHR ''-'' then (True, r)
                                  else if c = CHR ''+'' then (False, r) else (False, s)
                       | [] \<Rightarrow> (False, []))
      in case parse_digits ds of
           None \<Rightarrow> None
         | Some n \<Rightarrow> let i = (if neg then - int n else int n)
                     in if int_range i then Some i else None)"

lemma is_digit_digit: "d < 10 \<Longrightarrow> is_digit (digit d)"
  by (simp add: is_digit_def digit_def byte_val_byte_of)

lemma nat_digits_digits: "list_all is_digit (nat_digits n)" "nat_digits n \<noteq> []"
  by (induction n rule: nat_digits.induct; subst nat_digits.simps; simp add: is_digit_digit)+

lemma digits_val_snoc: "digits_val (s @ [c]) = digits_val s * 10 + (byte_val c - 48)"
  by (simp add: digits_val_def)

lemma digits_val_nat_digits: "digits_val (nat_digits n) = n"
proof (induction n rule: nat_digits.induct)
  case (1 n)
  show ?case
  proof (cases "n < 10")
    case True
    then show ?thesis
      by (subst nat_digits.simps) (simp add: digits_val_def digit_def byte_val_byte_of)
  next
    case False
    with 1 have "digits_val (nat_digits (n div 10)) = n div 10" by simp
    with False show ?thesis
      by (subst nat_digits.simps) (simp add: digits_val_snoc digit_def byte_val_byte_of)
  qed
qed

lemma parse_nat_digits: "parse_digits (nat_digits n) = Some n"
  by (simp add: parse_digits_def nat_digits_digits digits_val_nat_digits)

lemma nat_digits_hd: "\<exists>c r. nat_digits n = c # r \<and> c \<noteq> CHR ''-'' \<and> c \<noteq> CHR ''+''"
proof -
  obtain c r where s: "nat_digits n = c # r" using nat_digits_digits(2) by (cases "nat_digits n") auto
  then have "is_digit c" using nat_digits_digits(1) [of n] by simp
  then have "c \<noteq> CHR ''-''" "c \<noteq> CHR ''+''" by (auto simp: is_digit_def byte_val_def)
  with s show ?thesis by blast
qed

text \<open>Printing and parsing a machine integer.\<close>

lemma atoi_nat_digits: "int n < 2 ^ 63 \<Longrightarrow> atoi (nat_digits n) = Some (int n)"
proof -
  assume n: "int n < 2 ^ 63"
  obtain c r where s: "nat_digits n = c # r" and "c \<noteq> CHR ''-''" "c \<noteq> CHR ''+''"
    using nat_digits_hd [of n] by blast
  with n parse_nat_digits [of n] show ?thesis by (simp add: atoi_def int_range_def)
qed

lemma atoi_itoa: "int_range i \<Longrightarrow> atoi (itoa i) = Some i"
proof (cases "i < 0")
  case True
  moreover assume "int_range i"
  ultimately show ?thesis by (simp add: itoa_def atoi_def parse_nat_digits)
next
  case False
  moreover assume "int_range i"
  ultimately show ?thesis using atoi_nat_digits [of "nat i"] by (simp add: itoa_def int_range_def)
qed

lemma itoa_chars: "c \<in> set (itoa i) \<Longrightarrow> is_digit c \<or> c = CHR ''-''"
  using nat_digits_digits(1) by (auto simp: itoa_def list_all_iff split: if_splits)

end
