(* ===== verification/Term_Text.thy ===== *)
theory Term_Text
  imports Go_Strings
begin

text \<open>
  \<open>internal/term/text.go\<close>: sanitising of user text (\<open>StripControl\<close>, \<open>Clean\<close>), truncation
  and padding by runes, and the word wrapper. The lemmas show that a cleaned field is valid
  UTF-8 of bounded length without control or bidi characters, and that wrapping respects the
  width and loses nothing but spaces.
\<close>

definition printable :: "rune \<Rightarrow> bool" where
  "printable r \<longleftrightarrow> \<not> (r = rune_error \<or> is_control r \<or> is_bidi r)"

definition StripControl :: "string \<Rightarrow> string" where
  "StripControl s = of_runes (filter printable (runes s))"

definition Truncate :: "string \<Rightarrow> nat \<Rightarrow> string" where
  "Truncate s n = (if length (runes s) \<le> n then s else of_runes (take n (runes s)))"

definition Clean :: "string \<Rightarrow> nat \<Rightarrow> string" where
  "Clean s mx = Truncate (trim_space (StripControl s)) mx"

definition Pad :: "string \<Rightarrow> nat \<Rightarrow> string" where
  "Pad s n = (let count = length (runes s)
     in if n \<le> count then Truncate s n else s @ replicate (n - count) CHR '' '')"

text \<open>\<open>for i := width; i > 0; i--\<close>: the last space at or before the width, or the width.\<close>

fun find_cut :: "rune list \<Rightarrow> nat \<Rightarrow> nat \<Rightarrow> nat" where
  "find_cut rs width 0 = width"
| "find_cut rs width (Suc i) = (if rs ! Suc i = 0x20 then Suc i else find_cut rs width i)"

definition is_sp :: "rune \<Rightarrow> bool" where "is_sp r \<longleftrightarrow> r = 0x20"

lemma find_cut_bounds:
  "i \<le> width \<Longrightarrow> 0 < width \<Longrightarrow> 0 < find_cut rs width i \<and> find_cut rs width i \<le> width"
  by (induction i) auto

lemma length_dropWhile_le: "length (dropWhile P xs) \<le> length xs"
  by (induction xs) auto

text \<open>\<open>width\<close> is at least one: \<open>Wrap\<close> sees to it.\<close>

function wrapLine_runes :: "rune list \<Rightarrow> nat \<Rightarrow> string list" where
  "wrapLine_runes rs width =
     (if width = 0 \<or> length rs \<le> width then [of_runes rs]
      else let k = find_cut rs width width
           in trim_right_bytes '' '' (of_runes (take k rs)) #
              wrapLine_runes (dropWhile is_sp (drop k rs)) width)"
  by pat_completeness auto
termination
proof (relation "measure (\<lambda>(rs, _). length rs)", goal_cases)
  case 1 show ?case by simp
next
  case (2 rs width k)
  then have "0 < k" using find_cut_bounds [of width width rs] by simp
  moreover have "rs \<noteq> []" using 2 by auto
  ultimately have "length (drop k rs) < length rs" by (simp add: Suc_diff_Suc)
  then show ?case using length_dropWhile_le [of is_sp "drop k rs"] by simp
qed

declare wrapLine_runes.simps [simp del]

definition wrapLine :: "string \<Rightarrow> nat \<Rightarrow> string list" where
  "wrapLine line width = wrapLine_runes (runes line) width"

definition Wrap :: "string \<Rightarrow> nat \<Rightarrow> string list" where
  "Wrap text width =
     concat (map (\<lambda>para. wrapLine para (max width 1)) (split_on CHR 0x0A text))"

section \<open>Sanitising\<close>

lemma list_all_filter_runes [simp]: "list_all valid_rune (filter P (runes s))"
  using list_all_valid_runes [of s] by (simp add: list_all_iff)

lemma runes_StripControl [simp]: "runes (StripControl s) = filter printable (runes s)"
  by (simp add: StripControl_def runes_of_runes)

lemma StripControl_idem: "StripControl (StripControl s) = StripControl s"
  by (simp add: StripControl_def runes_of_runes)

lemma list_all_take: "list_all P xs \<Longrightarrow> list_all P (take n xs)"
  by (metis append_take_drop_id list_all_append)

lemma runes_Truncate: "runes (Truncate s n) = take n (runes s)"
  by (simp add: Truncate_def runes_of_runes list_all_take list_all_valid_runes)

lemma runes_trim_Strip: "runes (trim_space (StripControl s)) = trim_runes (filter printable (runes s))"
proof -
  have "list_all valid_rune (trim_runes (filter printable (runes s)))"
    using set_trim_runes [of "filter printable (runes s)"] list_all_filter_runes [of printable s]
    by (auto simp: list_all_iff)
  then show ?thesis
    using trim_space_of_runes [OF list_all_filter_runes, of printable s]
    by (simp add: StripControl_def runes_of_runes)
qed

lemma runes_Clean: "runes (Clean s n) = take n (trim_runes (filter printable (runes s)))"
  by (simp add: Clean_def runes_Truncate runes_trim_Strip)

lemma Clean_of_runes: "Clean s n = of_runes (take n (trim_runes (filter printable (runes s))))"
proof -
  have "trim_space (StripControl s) = of_runes (trim_runes (filter printable (runes s)))"
    by (simp add: StripControl_def trim_space_of_runes)
  then show ?thesis
    using runes_trim_Strip [of s] by (simp add: Clean_def Truncate_def)
qed

lemma length_runes_Clean: "length (runes (Clean s n)) \<le> n"
  by (simp add: runes_Clean)

lemma Clean_printable: "r \<in> set (runes (Clean s n)) \<Longrightarrow> printable r"
  using set_trim_runes [of "filter printable (runes s)"]
  by (auto simp: runes_Clean dest!: in_set_takeD)

lemma Clean_valid: "valid_utf8 (Clean s n)"
proof -
  have "list_all valid_rune (take n (trim_runes (filter printable (runes s))))"
    using set_trim_runes [of "filter printable (runes s)"] list_all_filter_runes [of printable s]
    by (auto simp: list_all_iff dest!: in_set_takeD)
  then show ?thesis by (simp add: Clean_of_runes valid_utf8_of_runes)
qed

lemma length_runes_Pad: "length (runes (Pad s n)) = n" if "valid_utf8 s"
proof (cases "n \<le> length (runes s)")
  case True
  then show ?thesis by (simp add: Pad_def runes_Truncate)
next
  case False
  have sp: "runes (replicate m CHR '' '') = replicate m 0x20" for m
    using runes_ascii [of "replicate m CHR '' ''"]
    by (simp add: list_all_iff is_ascii_def byte_val_def)
  have "runes (of_runes (runes s) @ replicate m CHR '' '') = runes s @ replicate m 0x20" for m
    by (simp add: runes_of_runes_append list_all_valid_runes sp)
  with False that show ?thesis by (simp add: Pad_def valid_utf8_def)
qed

section \<open>Wrapping\<close>

definition rtrim_sp :: "rune list \<Rightarrow> rune list" where
  "rtrim_sp rs = rev (dropWhile is_sp (rev rs))"

lemma last_encode_rune:
  assumes "valid_rune r"
  shows "last (encode_rune r) = CHR '' '' \<longleftrightarrow> is_sp r"
proof -
  have sp: "CHR '' '' = byte_of 0x20" using byte_of_byte_val [of "CHR '' ''"] by (simp add: byte_val_def)
  have inj: "m < 256 \<Longrightarrow> byte_of m = byte_of 0x20 \<longleftrightarrow> m = 0x20" for m
    by (metis byte_val_byte_of zero_less_numeral numeral_less_iff semiring_norm(68,76,77,78))
  have mod: "byte_of (0x80 + x mod 64) \<noteq> byte_of 0x20" for x :: nat
    by (subst inj) auto
  show ?thesis
    using assms inj [of r] mod [of r]
    by (auto simp: encode_rune_valid encode_valid_def is_sp_def sp)
qed

lemma trim_right_sp_of_runes:
  "list_all valid_rune rs \<Longrightarrow> trim_right_bytes '' '' (of_runes rs) = of_runes (rtrim_sp rs)"
proof (induction rs rule: rev_induct)
  case Nil
  show ?case by (simp add: trim_right_bytes_def rtrim_sp_def)
next
  case (snoc r rs)
  show ?case
  proof (cases "is_sp r")
    case True
    then have "encode_rune r = '' ''"
      using encode_rune_ascii [of "CHR '' ''"] by (simp add: is_sp_def is_ascii_def byte_val_def)
    with snoc True show ?thesis by (simp add: trim_right_bytes_def rtrim_sp_def)
  next
    case False
    with snoc.prems last_encode_rune [of r] have "last (encode_rune r) \<noteq> CHR '' ''" by simp
    then obtain b c where "encode_rune r = b @ [c]" "c \<noteq> CHR '' ''"
      by (metis append_butlast_last_id encode_rune_nonempty)
    with False show ?thesis by (simp add: trim_right_bytes_def rtrim_sp_def)
  qed
qed

lemma length_rtrim_sp: "length (rtrim_sp rs) \<le> length rs"
  using length_dropWhile_le [of is_sp "rev rs"] by (simp add: rtrim_sp_def)

lemma filter_dropWhile_sp: "filter (\<lambda>r. \<not> is_sp r) (dropWhile is_sp rs) = filter (\<lambda>r. \<not> is_sp r) rs"
  by (induction rs) auto

lemma filter_rtrim_sp: "filter (\<lambda>r. \<not> is_sp r) (rtrim_sp rs) = filter (\<lambda>r. \<not> is_sp r) rs"
  by (simp add: rtrim_sp_def filter_dropWhile_sp flip: rev_filter)

lemma set_rtrim_sp: "set (rtrim_sp rs) \<subseteq> set rs"
  by (auto simp: rtrim_sp_def dest: set_dropWhileD)

lemma runes_wrap_head:
  "list_all valid_rune rs \<Longrightarrow>
    runes (trim_right_bytes '' '' (of_runes (take k rs))) = rtrim_sp (take k rs)"
  by (subst trim_right_sp_of_runes)
     (auto simp: list_all_take list_all_iff intro!: runes_of_runes
       dest!: set_rtrim_sp [THEN subsetD] in_set_takeD)

lemma list_all_drop: "list_all P xs \<Longrightarrow> list_all P (drop n xs)"
  by (metis append_take_drop_id list_all_append)

lemma wrapLine_runes_width:
  "list_all valid_rune rs \<Longrightarrow> 0 < width \<Longrightarrow> l \<in> set (wrapLine_runes rs width) \<Longrightarrow>
    length (runes l) \<le> width"
proof (induction rs width arbitrary: l rule: wrapLine_runes.induct)
  case (1 rs width)
  show ?case
  proof (cases "length rs \<le> width")
    case True
    with 1 show ?thesis by (simp add: wrapLine_runes.simps [of rs] runes_of_runes)
  next
    case False
    define k where "k = find_cut rs width width"
    have k: "k \<le> width" using find_cut_bounds [of width width rs] 1 by (simp add: k_def)
    have "l = trim_right_bytes '' '' (of_runes (take k rs)) \<or>
        l \<in> set (wrapLine_runes (dropWhile is_sp (drop k rs)) width)"
      using 1 False by (simp add: wrapLine_runes.simps [of rs] k_def Let_def)
    then show ?thesis
    proof
      assume "l = trim_right_bytes '' '' (of_runes (take k rs))"
      then have "length (runes l) \<le> length (take k rs)"
        using 1 length_rtrim_sp [of "take k rs"] by (simp add: runes_wrap_head)
      with k show ?thesis by simp
    next
      assume "l \<in> set (wrapLine_runes (dropWhile is_sp (drop k rs)) width)"
      with 1 False show ?thesis by (simp add: k_def list_all_dropWhile list_all_drop)
    qed
  qed
qed

lemma filter_take_drop: "filter P (take k xs) @ filter P (drop k xs) = filter P xs"
  by (metis append_take_drop_id filter_append)

lemma wrapLine_runes_content:
  "list_all valid_rune rs \<Longrightarrow> 0 < width \<Longrightarrow>
    filter (\<lambda>r. \<not> is_sp r) (concat (map runes (wrapLine_runes rs width))) = filter (\<lambda>r. \<not> is_sp r) rs"
proof (induction rs width rule: wrapLine_runes.induct)
  case (1 rs width)
  show ?case
  proof (cases "length rs \<le> width")
    case True
    with 1 show ?thesis by (simp add: wrapLine_runes.simps [of rs] runes_of_runes)
  next
    case False
    with 1 show ?thesis
      by (simp add: wrapLine_runes.simps [of rs] Let_def runes_wrap_head filter_rtrim_sp
          filter_dropWhile_sp filter_take_drop list_all_dropWhile list_all_drop)
  qed
qed

text \<open>
  \<open>Clean\<close>, the sanitiser of every one-line field, always returns valid UTF-8 of at
  most the given number of characters in which no character is a control character, a
  bidirectional control or the replacement character, whatever bytes the caller typed.
\<close>

theorem Clean_safe:
  "valid_utf8 (Clean s n) \<and> length (runes (Clean s n)) \<le> n \<and> list_all printable (runes (Clean s n))"
  by (simp add: Clean_valid length_runes_Clean list_all_iff Clean_printable)

text \<open>
  \<open>Wrap\<close> never makes a line wider than the width (at least 1) and loses nothing but
  spaces: paragraph by paragraph, the non-space characters of the lines are those of the text,
  in order.
\<close>

theorem Wrap_correct:
  "list_all (\<lambda>l. length (runes l) \<le> max w 1) (Wrap s w) \<and>
   filter (\<lambda>r. \<not> is_sp r) (concat (map runes (Wrap s w))) =
     concat (map (\<lambda>p. filter (\<lambda>r. \<not> is_sp r) (runes p)) (split_on CHR 0x0A s))"
proof
  show "list_all (\<lambda>l. length (runes l) \<le> max w 1) (Wrap s w)"
    using wrapLine_runes_width [OF list_all_valid_runes]
    by (auto simp: Wrap_def wrapLine_def list_all_iff)
  have "filter (\<lambda>r. \<not> is_sp r) (concat (map runes (concat (map (\<lambda>p. wrapLine p (max w 1)) ps)))) =
      concat (map (\<lambda>p. filter (\<lambda>r. \<not> is_sp r) (runes p)) ps)" for ps
    by (induction ps) (simp_all add: wrapLine_def wrapLine_runes_content list_all_valid_runes)
  then show "filter (\<lambda>r. \<not> is_sp r) (concat (map runes (Wrap s w))) =
     concat (map (\<lambda>p. filter (\<lambda>r. \<not> is_sp r) (runes p)) (split_on CHR 0x0A s))"
    by (simp add: Wrap_def)
qed

section \<open>Text made of some runes only\<close>

text \<open>\<open>text_of P s\<close>: \<open>s\<close> is valid UTF-8 and all its runes satisfy \<open>P\<close>.\<close>

definition text_of :: "(rune \<Rightarrow> bool) \<Rightarrow> string \<Rightarrow> bool" where
  "text_of P s \<longleftrightarrow> valid_utf8 s \<and> list_all P (runes s)"

lemma text_of_of_runes:
  "list_all valid_rune rs \<Longrightarrow> text_of P (of_runes rs) \<longleftrightarrow> list_all P rs"
  by (simp add: text_of_def valid_utf8_of_runes runes_of_runes)

lemma text_ofE:
  assumes "text_of P s"
  obtains rs where "s = of_runes rs" "list_all valid_rune rs" "list_all P rs"
  using assms list_all_valid_runes [of s] that [of "runes s"] by (auto simp: text_of_def valid_utf8_def)

lemma of_runes_append: "of_runes (rs @ rs') = of_runes rs @ of_runes rs'"
  by (induction rs) auto

lemma text_of_append:
  assumes "text_of P s" "text_of P t"
  shows "text_of P (s @ t)"
proof -
  obtain rs rs' where "s = of_runes rs" "list_all valid_rune rs" "list_all P rs"
    "t = of_runes rs'" "list_all valid_rune rs'" "list_all P rs'"
    using assms by (elim text_ofE)
  then show ?thesis using text_of_of_runes [of "rs @ rs'" P] by (simp add: of_runes_append)
qed

lemma text_of_Nil [simp]: "text_of P []"
  using text_of_of_runes [of "[]" P] by simp

lemma text_of_ascii: "is_ascii c \<Longrightarrow> P (byte_val c) \<Longrightarrow> text_of P [c]"
  using text_of_of_runes [of "[byte_val c]" P] encode_rune_ascii [of c]
  by (simp add: is_ascii_def valid_rune_def)

lemma text_of_ascii_list: "list_all (\<lambda>c. is_ascii c \<and> P (byte_val c)) s \<Longrightarrow> text_of P s"
proof (induction s)
  case (Cons c s)
  then have "text_of P ([c] @ s)" by (intro text_of_append text_of_ascii) auto
  then show ?case by simp
qed simp

lemma text_of_join: "text_of P sep \<Longrightarrow> \<forall>s \<in> set ss. text_of P s \<Longrightarrow> text_of P (join sep ss)"
  by (induction sep ss rule: join.induct) (auto intro!: text_of_append)

lemma text_of_mono: "text_of P s \<Longrightarrow> (\<And>r. P r \<Longrightarrow> Q r) \<Longrightarrow> text_of Q s"
  by (auto simp: text_of_def list_all_iff)

lemma text_of_Clean: "text_of printable (Clean s n)"
  by (auto simp: text_of_def Clean_valid list_all_iff Clean_printable)

lemma text_of_StripControl: "text_of printable (StripControl s)"
  using text_of_of_runes [OF list_all_filter_runes, of printable printable s]
  by (simp add: StripControl_def list_all_iff)

lemma encode_rune_ends:
  assumes "valid_rune r" "is_ascii c"
  shows "hd (encode_rune r) = c \<longleftrightarrow> r = byte_val c" "last (encode_rune r) = c \<longleftrightarrow> r = byte_val c"
proof -
  have c: "byte_val c < 0x80" using assms(2) by (simp add: is_ascii_def)
  have max: "r \<le> 0x10FFFF" using assms(1) by (auto simp: valid_rune_def)
  have big: "byte_of n \<noteq> c" if "0x80 \<le> n" "n < 256" for n
    using that c by (metis byte_val_byte_of not_le)
  have small: "byte_of n = c \<longleftrightarrow> n = byte_val c" if "n < 0x80" for n
    using that byte_val_byte_of [of n] by auto
  have "byte_of (0x80 + x mod 64) \<noteq> c" for x :: nat by (rule big) auto
  moreover have "byte_of (0xC0 + x) \<noteq> c" if "x < 64" for x :: nat using that by (intro big) auto
  moreover have "byte_of (0xE0 + r div 4096) \<noteq> c" if "r < 0x10000" using that by (intro big) auto
  moreover have "byte_of (0xF0 + r div 262144) \<noteq> c" using max by (intro big) auto
  ultimately show "hd (encode_rune r) = c \<longleftrightarrow> r = byte_val c" "last (encode_rune r) = c \<longleftrightarrow> r = byte_val c"
    using small [of r] c assms(1) by (auto simp: encode_rune_valid encode_valid_def less_mult_imp_div_less)
qed

lemma dropWhile_of_runes:
  "list_all valid_rune rs \<Longrightarrow> is_ascii c \<Longrightarrow>
    dropWhile (\<lambda>x. x = c) (of_runes rs) = of_runes (dropWhile (\<lambda>r. r = byte_val c) rs)"
proof (induction rs)
  case (Cons r rs)
  show ?case
  proof (cases "r = byte_val c")
    case True
    with Cons show ?thesis by (simp add: encode_rune_ascii)
  next
    case False
    with Cons encode_rune_ends(1) [of r c] have "hd (encode_rune r) \<noteq> c" by simp
    with False show ?thesis by (cases "encode_rune r") auto
  qed
qed simp

lemma dropWhile_rev_of_runes:
  "list_all valid_rune rs \<Longrightarrow> is_ascii c \<Longrightarrow>
    rev (dropWhile (\<lambda>x. x = c) (rev (of_runes rs))) = of_runes (rev (dropWhile (\<lambda>r. r = byte_val c) (rev rs)))"
proof (induction rs rule: rev_induct)
  case (snoc r rs)
  show ?case
  proof (cases "r = byte_val c")
    case True
    with snoc show ?thesis by (simp add: encode_rune_ascii of_runes_append)
  next
    case False
    with snoc encode_rune_ends(2) [of r c] have "last (encode_rune r) \<noteq> c" by simp
    moreover obtain b l where "encode_rune r = b @ [l]"
      by (metis append_butlast_last_id encode_rune_nonempty)
    ultimately show ?thesis using False by (simp add: of_runes_append)
  qed
qed simp

lemma text_of_trim_left: "text_of P s \<Longrightarrow> is_ascii c \<Longrightarrow> text_of P (trim_left_bytes [c] s)"
  by (elim text_ofE) (simp add: trim_left_bytes_def dropWhile_of_runes text_of_of_runes list_all_dropWhile)

lemma text_of_trim_right: "text_of P s \<Longrightarrow> is_ascii c \<Longrightarrow> text_of P (trim_right_bytes [c] s)"
  by (elim text_ofE) (simp add: trim_right_bytes_def dropWhile_rev_of_runes text_of_of_runes list_all_dropWhile)

lemma text_of_trim: "text_of P s \<Longrightarrow> is_ascii c \<Longrightarrow> text_of P (trim_bytes [c] s)"
  by (simp add: trim_bytes_def text_of_trim_left text_of_trim_right)

section \<open>Plain text\<close>

text \<open>Graphic ASCII passes every sanitiser unchanged.\<close>

definition graphic :: "string \<Rightarrow> bool" where
  "graphic s \<longleftrightarrow> list_all (\<lambda>c. 33 \<le> byte_val c \<and> byte_val c \<le> 126) s"

lemma graphic_runes: "graphic s \<Longrightarrow> runes s = map byte_val s"
  by (rule runes_ascii) (auto simp: graphic_def list_all_iff is_ascii_def)

lemma graphic_printable: "33 \<le> r \<Longrightarrow> r \<le> 126 \<Longrightarrow> printable r \<and> \<not> is_space r"
  by (auto simp: printable_def is_control_def is_bidi_def is_space_def rune_error_def)

lemma graphic_of_runes: "graphic s \<Longrightarrow> of_runes (map byte_val s) = s"
  by (rule of_runes_ascii) (auto simp: graphic_def list_all_iff is_ascii_def)

lemma StripControl_graphic: "graphic s \<Longrightarrow> StripControl s = s"
proof -
  assume g: "graphic s"
  then have "filter printable (map byte_val s) = map byte_val s"
    by (auto simp: filter_id_conv graphic_def list_all_iff graphic_printable)
  with g show ?thesis by (simp add: StripControl_def graphic_runes graphic_of_runes)
qed

lemma Clean_graphic: "graphic s \<Longrightarrow> length s \<le> n \<Longrightarrow> Clean s n = s"
proof -
  assume g: "graphic s" and "length s \<le> n"
  moreover have "filter printable (map byte_val s) = map byte_val s" "trim_runes (map byte_val s) = map byte_val s"
    using g by (auto simp: filter_id_conv graphic_def list_all_iff graphic_printable intro!: trim_runes_id)
  ultimately show ?thesis by (simp add: Clean_of_runes graphic_runes graphic_of_runes)
qed

lemma trim_space_graphic: "graphic s \<Longrightarrow> trim_space s = s"
proof -
  assume g: "graphic s"
  then have "trim_runes (map byte_val s) = map byte_val s" "list_all valid_rune (map byte_val s)"
    by (auto simp: graphic_def list_all_iff graphic_printable valid_rune_def intro!: trim_runes_id)
  with g show ?thesis using trim_space_of_runes [of "map byte_val s"] by (simp add: graphic_of_runes)
qed

lemma graphic_ascii: "graphic s \<Longrightarrow> list_all is_ascii s"
  by (auto simp: graphic_def list_all_iff is_ascii_def)

lemma text_of_graphic: "graphic s \<Longrightarrow> text_of printable s"
  by (rule text_of_ascii_list) (auto simp: graphic_def list_all_iff is_ascii_def graphic_printable)

lemma length_runes_graphic: "graphic s \<Longrightarrow> length (runes s) = length s"
  by (simp add: graphic_runes)

lemma graphic_not_in: "graphic s \<Longrightarrow> byte_val c < 33 \<Longrightarrow> c \<notin> set s"
  by (auto simp: graphic_def list_all_iff)

lemma graphic_Nil [simp]: "graphic []"
  by (simp add: graphic_def)

lemma to_upper_graphic:
  assumes g: "graphic s" and u: "list_all (\<lambda>c. byte_val c < 97 \<or> 122 < byte_val c) s"
  shows "to_upper uni s = s"
proof -
  have m: "map (\<lambda>r. if r < 0x80 then ascii_upper r else uni r) (map byte_val s) = map byte_val s"
    using g u by (auto simp: graphic_def list_all_iff ascii_upper_def)
  show ?thesis unfolding to_upper_def graphic_runes [OF g] m by (rule graphic_of_runes [OF g])
qed

end
