(* ===== verification/Store_DB.thy ===== *)
theory Store_DB
  imports Term_Text
begin

text \<open>
  \<open>internal/store/db.go\<close> and \<open>schema.go\<close>: the tables as one record, the error values, the
  transaction wrapper and the query helpers. A table is the list of its rows. A Go function
  that writes is a function from the database to a result and the new database; code inside
  \<open>tx\<close> returns an error or a value with the changed database, and \<open>tx\<close> drops the changes
  when it returns an error. What SQLite and the Go library decide (the row id of a new row,
  the clock, randomness, the key derivation, hashes, Unicode case tables, RFC 5322 address
  parsing) is the record \<open>store_env\<close> every operation takes. Input/output failures of the
  database are not modelled; constraint violations are.
\<close>

section \<open>Errors and results\<close>

datatype error =
    ErrHandleTaken | ErrBadCredentials | ErrNotFound | ErrMailboxFull | ErrBlocked
  | ErrForbidden | ErrNotValidated | InputError string
  | ErrConstraint \<comment> \<open>SQLite refuses the row: UNIQUE or FOREIGN KEY\<close>
  | ErrInternal \<comment> \<open>salt or key derivation failed, or a corrupt credential\<close>

abbreviation invalid :: "string \<Rightarrow> error" where "invalid \<equiv> InputError"

definition and_then :: "error + 'a \<Rightarrow> ('a \<Rightarrow> error + 'b) \<Rightarrow> error + 'b" where
  "and_then r k = (case r of Inl e \<Rightarrow> Inl e | Inr v \<Rightarrow> k v)"

lemma and_then_simps [simp]: "and_then (Inl e) k = Inl e" "and_then (Inr v) k = k v"
  by (simp_all add: and_then_def)

lemma and_then_Inr_iff [simp]: "and_then r k = Inr y \<longleftrightarrow> (\<exists>v. r = Inr v \<and> k v = Inr y)"
  by (cases r) auto

lemma and_then_Inl_iff: "and_then r k = Inl e \<longleftrightarrow> r = Inl e \<or> (\<exists>v. r = Inr v \<and> k v = Inl e)"
  by (cases r) auto

section \<open>Rows\<close>

record user =
  u_id :: int
  u_handle :: string
  u_location :: string
  u_sysop :: bool
  u_locked :: bool
  u_created :: nanos
  u_last_login :: nanos
  u_calls :: int
  u_email :: string
  u_email_mode :: int
  u_validated :: bool

record user_row = user +
  u_handle_key :: string
  u_pass_hash :: string
  u_salt :: string
  u_kdf_iter :: int

record message =
  m_id :: int
  m_from :: int
  m_to :: int
  m_thread :: int
  m_reply_to :: int
  m_subject :: string
  m_body :: string
  m_sent :: nanos
  m_read :: nanos

record message_row = message +
  m_del_from :: bool
  m_del_to :: bool

record board =
  b_id :: int
  b_name :: string
  b_desc :: string
  b_sysop_only :: bool
  b_created :: nanos

record board_row = board +
  b_key :: string

record post =
  p_id :: int
  p_board :: int
  p_author :: int
  p_thread :: int
  p_reply_to :: int
  p_subject :: string
  p_body :: string
  p_at :: nanos

record bulletin =
  bu_id :: int
  bu_author :: int
  bu_title :: string
  bu_body :: string
  bu_at :: nanos

record oneliner_row =
  o_id :: int
  o_author :: int
  o_text :: string
  o_at :: nanos

record event =
  e_id :: int
  e_at :: nanos
  e_kind :: string
  e_user :: int
  e_handle :: string
  e_ip :: string
  e_detail :: string

record verification =
  v_user :: int
  v_email :: string
  v_hash :: string
  v_expires :: nanos
  v_attempts :: int

record ssh_key =
  k_id :: int
  k_user :: int
  k_fingerprint :: string
  k_public :: string
  k_comment :: string
  k_added :: nanos

record hit_row =
  h_bucket :: string
  h_key :: string
  h_at :: nanos

record echo_area =
  ea_id :: int
  ea_tag :: string
  ea_desc :: string
  ea_created :: nanos

record echo_message =
  em_id :: int
  em_area :: int
  em_msgid :: string
  em_from :: string
  em_addr :: string
  em_to :: string
  em_subject :: string
  em_body :: string
  em_at :: nanos

record netmail =
  n_id :: int
  n_outgoing :: bool
  n_msgid :: string
  n_reply_to :: string
  n_from_name :: string
  n_from_addr :: string
  n_to_name :: string
  n_to_addr :: string
  n_subject :: string
  n_body :: string
  n_posted :: nanos
  n_received :: nanos
  n_read :: nanos
  n_author :: int \<comment> \<open>0 for SQL NULL\<close>

record file_area =
  fa_id :: int
  fa_tag :: string
  fa_desc :: string
  fa_created :: nanos

record file_row =
  f_id :: int
  f_area :: int
  f_name :: string
  f_path :: string
  f_size :: int
  f_crc :: string
  f_desc :: string
  f_ldesc :: string
  f_origin :: string
  f_from :: string
  f_received :: nanos
  f_downloads :: int

text \<open>\<open>board_reads\<close>, \<open>echo_reads\<close> and \<open>file_reads\<close>: (user, area) and the newest id seen.\<close>

type_synonym marks = "((int \<times> int) \<times> int) list"

record db =
  t_users :: "user_row list"
  t_blocks :: "(int \<times> int) list"
  t_messages :: "message_row list"
  t_boards :: "board_row list"
  t_posts :: "post list"
  t_board_reads :: marks
  t_bulletins :: "bulletin list"
  t_oneliners :: "oneliner_row list"
  t_events :: "event list"
  t_verifications :: "verification list"
  t_hits :: "hit_row list"
  t_ssh_keys :: "ssh_key list"
  t_echo_areas :: "echo_area list"
  t_echo_messages :: "echo_message list"
  t_echo_reads :: marks
  t_tossed :: "(string \<times> string \<times> nanos) list"
  t_netmail :: "netmail list"
  t_file_areas :: "file_area list"
  t_files :: "file_row list"
  t_file_reads :: marks

text \<open>The schema's own rows: the two boards a new install comes with. Their ids are the
  first two SQLite hands out.\<close>

definition empty_db :: db where
  "empty_db = \<lparr>t_users = [], t_blocks = [], t_messages = [],
     t_boards = [\<lparr>b_id = 1, b_name = ''Announcements'', b_desc = ''News from the sysop'',
                  b_sysop_only = True, b_created = 0, b_key = ''announcements''\<rparr>,
                 \<lparr>b_id = 2, b_name = ''General'', b_desc = ''Anything goes'',
                  b_sysop_only = False, b_created = 0, b_key = ''general''\<rparr>],
     t_posts = [], t_board_reads = [], t_bulletins = [], t_oneliners = [], t_events = [],
     t_verifications = [], t_hits = [], t_ssh_keys = [], t_echo_areas = [], t_echo_messages = [],
     t_echo_reads = [], t_tossed = [], t_netmail = [], t_file_areas = [], t_files = [],
     t_file_reads = []\<rparr>"

section \<open>What the store takes from outside\<close>

record store_env =
  se_now :: nanos
  se_kdfIter :: int
  se_approveNew :: bool
  se_rowid :: "int list \<Rightarrow> int" \<comment> \<open>the id SQLite gives a new row, from the ids in the table\<close>
  se_salt :: "string option" \<comment> \<open>\<open>rand.Read\<close>\<close>
  se_kdf :: "string \<Rightarrow> string \<Rightarrow> int \<Rightarrow> string option" \<comment> \<open>\<open>pbkdf2.Key\<close>: password, salt, iterations\<close>
  se_code :: nat \<comment> \<open>\<open>rand.Int(rand.Reader, 1000000)\<close>\<close>
  se_sha256 :: "string \<Rightarrow> string"
  se_sha1 :: "string \<Rightarrow> string"
  se_lower :: "rune \<Rightarrow> rune" \<comment> \<open>\<open>unicode.ToLower\<close> beyond ASCII\<close>
  se_upper :: "rune \<Rightarrow> rune"
  se_mail_parse :: "string \<Rightarrow> (string \<times> string) option" \<comment> \<open>\<open>mail.ParseAddress\<close>: name, address\<close>

text \<open>What SQLite documents of an \<open>INTEGER PRIMARY KEY\<close> left out of an \<open>INSERT\<close>: the new
  row's id is not in use. (Row ids are positive as long as nobody inserts a negative one.)\<close>

definition fresh_rowids :: "store_env \<Rightarrow> bool" where
  "fresh_rowids E \<longleftrightarrow> (\<forall>ids. se_rowid E ids \<notin> set ids \<and> 0 < se_rowid E ids)"

lemma fresh_rowidsD:
  "fresh_rowids E \<Longrightarrow> 0 < se_rowid E ids"
  "fresh_rowids E \<Longrightarrow> x \<in> set rows \<Longrightarrow> key x \<noteq> se_rowid E (map key rows)"
proof -
  assume E: "fresh_rowids E"
  then show "0 < se_rowid E ids" by (simp add: fresh_rowids_def)
  assume "x \<in> set rows"
  then have "key x \<in> set (map key rows)" by simp
  with E show "key x \<noteq> se_rowid E (map key rows)" by (metis fresh_rowids_def)
qed

lemma fresh_rowids_image: "fresh_rowids E \<Longrightarrow> se_rowid E (map key rows) \<notin> key ` set rows"
  unfolding fresh_rowids_def by (metis set_map)

text \<open>The allocation rule SQLite documents for tables without \<open>AUTOINCREMENT\<close>: one more than
  the largest id in use, 1 in an empty table.\<close>

definition sqlite_rowid :: "int list \<Rightarrow> int" where
  "sqlite_rowid ids = foldr max ids 0 + 1"

lemma foldr_max_ge: "x \<in> set ids \<Longrightarrow> x \<le> foldr max ids (0::int)" "0 \<le> foldr max ids (0::int)"
  by (induction ids) auto

lemma sqlite_rowid_fresh: "sqlite_rowid ids \<notin> set ids \<and> 0 < sqlite_rowid ids"
  using foldr_max_ge(1) [of "sqlite_rowid ids" ids] foldr_max_ge(2) [of ids]
  by (auto simp: sqlite_rowid_def)

section \<open>Transactions and queries\<close>

definition tx :: "(db \<Rightarrow> error + ('a \<times> db)) \<Rightarrow> db \<Rightarrow> (error + 'a) \<times> db" where
  "tx fn d = (case fn d of Inl e \<Rightarrow> (Inl e, d) | Inr (v, d') \<Rightarrow> (Inr v, d'))"

text \<open>A transaction that fails changes nothing; one that succeeds is its body.\<close>

lemma tx_Inl_iff: "fst (tx fn d) = Inl e \<longleftrightarrow> fn d = Inl e"
  by (auto simp: tx_def split: sum.splits)

lemma tx_Inr_iff: "fst (tx fn d) = Inr v \<longleftrightarrow> (\<exists>d'. fn d = Inr (v, d') \<and> snd (tx fn d) = d')"
  by (auto simp: tx_def split: sum.splits)

lemma tx_eq [simp]:
  "tx fn d = (Inr v, d') \<longleftrightarrow> fn d = Inr (v, d')"
  "tx fn d = (Inl e, d') \<longleftrightarrow> fn d = Inl e \<and> d' = d"
  by (auto simp: tx_def split: sum.splits)

lemma tx_rollback: "fn d = Inl e \<Longrightarrow> snd (tx fn d) = d"
  by (simp add: tx_def)

lemma tx_cases:
  obtains (rollback) e where "fn d = Inl e" "tx fn d = (Inl e, d)"
  | (commit) v d' where "fn d = Inr (v, d')" "tx fn d = (Inr v, d')"
proof (cases "fn d")
  case (Inl e) then show ?thesis using that(1) by (simp add: tx_def)
next
  case (Inr p) then show ?thesis using that(2) by (cases p) (simp add: tx_def)
qed

text \<open>Everything a committed body establishes and the old state already had holds after \<open>tx\<close>.\<close>

lemma tx_inv: "I d \<Longrightarrow> (\<And>v d'. fn d = Inr (v, d') \<Longrightarrow> I d') \<Longrightarrow> I (snd (tx fn d))"
  by (auto simp: tx_def split: sum.splits)

definition find_user :: "db \<Rightarrow> int \<Rightarrow> user_row option" where
  "find_user d i = find (\<lambda>r. u_id r = i) (t_users d)"

definition getUser :: "db \<Rightarrow> int \<Rightarrow> error + user" where
  "getUser d i = (case find_user d i of None \<Rightarrow> Inl ErrNotFound | Some r \<Rightarrow> Inr (user.truncate r))"

definition requireSysop :: "db \<Rightarrow> int \<Rightarrow> error + unit" where
  "requireSysop d i = and_then (getUser d i) (\<lambda>u. if u_sysop u then Inr () else Inl ErrForbidden)"

lemma truncate_simps [simp]:
  "u_id (user.truncate r) = u_id r" "u_handle (user.truncate r) = u_handle r"
  "u_sysop (user.truncate r) = u_sysop r" "u_locked (user.truncate r) = u_locked r"
  "u_validated (user.truncate r) = u_validated r" "u_email (user.truncate r) = u_email r"
  "u_email_mode (user.truncate r) = u_email_mode r" "u_calls (user.truncate r) = u_calls r"
  "u_last_login (user.truncate r) = u_last_login r" "u_location (user.truncate r) = u_location r"
  "u_created (user.truncate r) = u_created r"
  by (simp_all add: user.defs)

lemma truncate_message_simps [simp]:
  "m_id (message.truncate m) = m_id m" "m_from (message.truncate m) = m_from m"
  "m_to (message.truncate m) = m_to m" "m_thread (message.truncate m) = m_thread m"
  "m_reply_to (message.truncate m) = m_reply_to m" "m_subject (message.truncate m) = m_subject m"
  "m_body (message.truncate m) = m_body m" "m_sent (message.truncate m) = m_sent m"
  "m_read (message.truncate m) = m_read m"
  by (simp_all add: message.defs)

lemma truncate_board_simps [simp]:
  "b_id (board.truncate b) = b_id b" "b_name (board.truncate b) = b_name b"
  "b_sysop_only (board.truncate b) = b_sysop_only b" "b_desc (board.truncate b) = b_desc b"
  by (simp_all add: board.defs)

lemma getUser_Inr_iff:
  "getUser d i = Inr u \<longleftrightarrow> (\<exists>r. find_user d i = Some r \<and> u = user.truncate r)"
  by (auto simp: getUser_def split: option.splits)

lemma find_user_Some: "find_user d i = Some r \<Longrightarrow> r \<in> set (t_users d) \<and> u_id r = i"
  by (auto simp: find_user_def dest: find_Some_in)

lemma find_user_None: "find_user d i = None \<longleftrightarrow> i \<notin> u_id ` set (t_users d)"
  by (auto simp: find_user_def find_None_iff)

lemma requireSysop_Inr_iff:
  "requireSysop d i = Inr u \<longleftrightarrow> (\<exists>r. find_user d i = Some r \<and> u_sysop r)"
  by (auto simp: requireSysop_def getUser_def split: option.splits)

lemma requireSysop_cong:
  "t_users d' = t_users d \<Longrightarrow> requireSysop d' i = requireSysop d i"
  by (simp add: requireSysop_def getUser_def find_user_def)

text \<open>The result of a statement that must touch a row (\<open>requireRow\<close>).\<close>

definition requireRow :: "nat \<Rightarrow> error + unit" where
  "requireRow n = (if n = 0 then Inl ErrNotFound else Inr ())"

end
