(* ===== verification/Store_Users.thy ===== *)
theory Store_Users
  imports Store_DB
begin

text \<open>
  \<open>internal/store/validate.go\<close>, \<open>password.go\<close>, \<open>users.go\<close> and \<open>blocks.go\<close>: accounts,
  credentials, sysop rights, approval, deletion and blocking. The account table's invariant
  says ids, handle keys and verified addresses are unique, stored handles are well formed,
  sysops are approved, and once anybody has registered there is always a sysop.
\<close>

section \<open>Validation (validate.go)\<close>

definition MinHandleLen :: nat where "MinHandleLen = 3"
definition MaxHandleLen :: nat where "MaxHandleLen = 20"
definition MinPasswordLen :: nat where "MinPasswordLen = 8"
definition MaxPasswordLen :: nat where "MaxPasswordLen = 64"
definition MaxLocationLen :: nat where "MaxLocationLen = 30"

definition isLetter :: "char \<Rightarrow> bool" where
  "isLetter c \<longleftrightarrow> (97 \<le> byte_val c \<and> byte_val c \<le> 122) \<or> (65 \<le> byte_val c \<and> byte_val c \<le> 90)"

definition handle_char :: "char \<Rightarrow> bool" where
  "handle_char c \<longleftrightarrow> isLetter c \<or> is_digit c \<or> c = CHR ''_'' \<or> c = CHR ''-'' \<or> c = CHR ''.''"

definition reservedHandles :: "string list" where
  "reservedHandles = [''new'', ''all'', ''sysop'']"

text \<open>The loop over the bytes; \<open>prev\<close> is \<open>prevSpace\<close>, and \<open>i == len(h)-1\<close> is that nothing follows.\<close>

fun handle_loop :: "bool \<Rightarrow> string \<Rightarrow> error + unit" where
  "handle_loop prev [] = Inr ()"
| "handle_loop prev (c # s) =
     (if handle_char c then handle_loop False s
      else if c = CHR '' '' then
        (if prev \<or> s = [] then Inl (invalid ''Handles cannot have double or trailing spaces.'')
         else handle_loop True s)
      else Inl (invalid ''Handles may only use letters, digits, spaces and _ - .''))"

definition ValidateHandle :: "store_env \<Rightarrow> string \<Rightarrow> error + unit" where
  "ValidateHandle E h =
     (if length h < MinHandleLen \<or> MaxHandleLen < length h
      then Inl (invalid ''Handles must be 3-20 characters.'')
      else if \<not> isLetter (h ! 0) then Inl (invalid ''Handles must start with a letter.'')
      else and_then (handle_loop False h) (\<lambda>_.
        if to_lower (se_lower E) h \<in> set reservedHandles
        then Inl (invalid ''That handle is reserved.'') else Inr ()))"

definition ValidatePassword :: "string \<Rightarrow> error + unit" where
  "ValidatePassword p =
     (if length p < MinPasswordLen then Inl (invalid ''Passwords must be at least 8 characters.'')
      else if MaxPasswordLen < length p then Inl (invalid ''Passwords must be at most 64 characters.'')
      else Inr ())"

definition handleKey :: "store_env \<Rightarrow> string \<Rightarrow> string" where
  "handleKey E h = to_lower (se_lower E) (trim_space h)"

section \<open>Credentials (password.go)\<close>

record credential =
  c_hash :: string
  c_salt :: string
  c_iter :: int

definition deriveKey :: "store_env \<Rightarrow> string \<Rightarrow> string \<Rightarrow> int \<Rightarrow> error + string" where
  "deriveKey E password salt iter =
     (case se_kdf E password salt iter of None \<Rightarrow> Inl ErrInternal | Some k \<Rightarrow> Inr k)"

definition newCredential :: "store_env \<Rightarrow> string \<Rightarrow> int \<Rightarrow> error + credential" where
  "newCredential E password iter =
     (case se_salt E of
        None \<Rightarrow> Inl ErrInternal
      | Some salt \<Rightarrow> and_then (deriveKey E password salt iter) (\<lambda>hash.
          Inr \<lparr>c_hash = hash, c_salt = salt, c_iter = iter\<rparr>))"

definition matches :: "store_env \<Rightarrow> credential \<Rightarrow> string \<Rightarrow> error + bool" where
  "matches E c password =
     (if c_iter c \<le> 0 \<or> c_salt c = [] then Inl ErrInternal
      else and_then (deriveKey E password (c_salt c) (c_iter c)) (\<lambda>key. Inr (key = c_hash c)))"

definition cred_of :: "user_row \<Rightarrow> credential" where
  "cred_of r = \<lparr>c_hash = u_pass_hash r, c_salt = u_salt r, c_iter = u_kdf_iter r\<rparr>"

section \<open>Accounts (users.go)\<close>

definition UserCount :: "db \<Rightarrow> nat" where
  "UserCount d = length (t_users d)"

definition CreateUser_row :: "store_env \<Rightarrow> db \<Rightarrow> string \<Rightarrow> credential \<Rightarrow> string \<Rightarrow> user_row" where
  "CreateUser_row E d handle cred location =
     (let first = (t_users d \<noteq> [])
      in \<lparr>u_id = se_rowid E (map u_id (t_users d)), u_handle = handle,
          u_location = Clean location MaxLocationLen, u_sysop = (\<not> first), u_locked = False,
          u_created = se_now E, u_last_login = 0, u_calls = 0, u_email = [], u_email_mode = 0,
          u_validated = (\<not> first \<or> \<not> se_approveNew E), u_handle_key = handleKey E handle,
          u_pass_hash = c_hash cred, u_salt = c_salt cred, u_kdf_iter = c_iter cred\<rparr>)"

definition CreateUser :: "store_env \<Rightarrow> string \<Rightarrow> string \<Rightarrow> string \<Rightarrow> db \<Rightarrow> (error + user) \<times> db" where
  "CreateUser E handle0 password location d =
     (let handle = trim_space handle0 in
      case and_then (ValidateHandle E handle) (\<lambda>_. and_then (ValidatePassword password) (\<lambda>_.
             newCredential E password (se_kdfIter E))) of
        Inl e \<Rightarrow> (Inl e, d)
      | Inr cred \<Rightarrow> tx (\<lambda>d.
          if exists_where (\<lambda>r. u_handle_key r = handleKey E handle) (t_users d)
          then Inl ErrHandleTaken
          else let r = CreateUser_row E d handle cred location;
                   d' = d\<lparr>t_users := t_users d @ [r]\<rparr>
               in and_then (getUser d' (u_id r)) (\<lambda>u. Inr (u, d'))) d)"

definition find_handle :: "store_env \<Rightarrow> db \<Rightarrow> string \<Rightarrow> user_row option" where
  "find_handle E d handle = find (\<lambda>r. u_handle_key r = handleKey E handle) (t_users d)"

definition Authenticate :: "store_env \<Rightarrow> db \<Rightarrow> string \<Rightarrow> string \<Rightarrow> error + user" where
  "Authenticate E d handle password =
     (case find_handle E d handle of
        None \<Rightarrow> Inl ErrBadCredentials
      | Some r \<Rightarrow> and_then (matches E (cred_of r) password) (\<lambda>m.
          if m then Inr (user.truncate r) else Inl ErrBadCredentials))"

definition UserByID :: "db \<Rightarrow> int \<Rightarrow> error + user" where
  "UserByID d i = getUser d i"

definition UserByHandle :: "store_env \<Rightarrow> db \<Rightarrow> string \<Rightarrow> error + user" where
  "UserByHandle E d handle =
     (case find_handle E d handle of None \<Rightarrow> Inl ErrNotFound | Some r \<Rightarrow> Inr (user.truncate r))"

definition ListUsers :: "db \<Rightarrow> int \<Rightarrow> user list" where
  "ListUsers d limit = map user.truncate (sql_limit limit (sort_key u_handle_key (t_users d)))"

definition Users :: "db \<Rightarrow> user list" where
  "Users d = ListUsers d (-1)"

text \<open>\<open>UPDATE users SET f WHERE id = i\<close>, through \<open>updateUser\<close> and \<open>requireRow\<close>.\<close>

definition set_user :: "int \<Rightarrow> (user_row \<Rightarrow> user_row) \<Rightarrow> db \<Rightarrow> db" where
  "set_user i f d = d\<lparr>t_users := update_where (\<lambda>r. u_id r = i) f (t_users d)\<rparr>"

definition updateUser :: "int \<Rightarrow> (user_row \<Rightarrow> user_row) \<Rightarrow> db \<Rightarrow> (error + unit) \<times> db" where
  "updateUser i f d =
     (requireRow (count_where (\<lambda>r. u_id r = i) (t_users d)), set_user i f d)"

definition RecordLogin :: "store_env \<Rightarrow> int \<Rightarrow> db \<Rightarrow> (error + (user \<times> nanos)) \<times> db" where
  "RecordLogin E i = tx (\<lambda>d.
     and_then (getUser d i) (\<lambda>before.
       let d' = set_user i (\<lambda>r. r\<lparr>u_last_login := se_now E, u_calls := u_calls r + 1\<rparr>) d
       in and_then (getUser d' i) (\<lambda>u. Inr ((u, u_last_login before), d'))))"

definition requireActor :: "db \<Rightarrow> int \<Rightarrow> int \<Rightarrow> bool \<Rightarrow> error + unit" where
  "requireActor d actorID targetID notSelf =
     (if notSelf \<and> actorID = targetID then Inl ErrForbidden else requireSysop d actorID)"

definition setPassword :: "store_env \<Rightarrow> int \<Rightarrow> string \<Rightarrow> db \<Rightarrow> (error + unit) \<times> db" where
  "setPassword E i password d =
     (case and_then (ValidatePassword password) (\<lambda>_. newCredential E password (se_kdfIter E)) of
        Inl e \<Rightarrow> (Inl e, d)
      | Inr c \<Rightarrow> updateUser i
          (\<lambda>r. r\<lparr>u_pass_hash := c_hash c, u_salt := c_salt c, u_kdf_iter := c_iter c\<rparr>) d)"

definition ChangePassword ::
    "store_env \<Rightarrow> int \<Rightarrow> string \<Rightarrow> string \<Rightarrow> db \<Rightarrow> (error + unit) \<times> db" where
  "ChangePassword E i current next d =
     (case find_user d i of
        None \<Rightarrow> (Inl ErrNotFound, d)
      | Some r \<Rightarrow> (case matches E (cred_of r) current of
            Inl e \<Rightarrow> (Inl e, d)
          | Inr m \<Rightarrow> if m then setPassword E i next d else (Inl ErrBadCredentials, d)))"

definition guarded :: "error + unit \<Rightarrow> (db \<Rightarrow> (error + 'a) \<times> db) \<Rightarrow> db \<Rightarrow> (error + 'a) \<times> db" where
  "guarded g k d = (case g of Inl e \<Rightarrow> (Inl e, d) | Inr _ \<Rightarrow> k d)"

definition ResetPassword :: "store_env \<Rightarrow> int \<Rightarrow> int \<Rightarrow> string \<Rightarrow> db \<Rightarrow> (error + unit) \<times> db" where
  "ResetPassword E actorID i password d =
     guarded (requireActor d actorID i False) (setPassword E i password) d"

definition SetLocation :: "int \<Rightarrow> string \<Rightarrow> db \<Rightarrow> (error + user) \<times> db" where
  "SetLocation i location d =
     (case updateUser i (\<lambda>r. r\<lparr>u_location := Clean location MaxLocationLen\<rparr>) d of
        (Inl e, d') \<Rightarrow> (Inl e, d')
      | (Inr _, d') \<Rightarrow> (UserByID d' i, d'))"

definition SetSysop :: "int \<Rightarrow> int \<Rightarrow> bool \<Rightarrow> db \<Rightarrow> (error + unit) \<times> db" where
  "SetSysop actorID i sysop d =
     guarded (requireActor d actorID i (\<not> sysop))
       (updateUser i (\<lambda>r. r\<lparr>u_sysop := sysop, u_validated := u_validated r \<or> sysop\<rparr>)) d"

definition SetLocked :: "int \<Rightarrow> int \<Rightarrow> bool \<Rightarrow> db \<Rightarrow> (error + unit) \<times> db" where
  "SetLocked actorID i locked d =
     guarded (requireActor d actorID i True) (updateUser i (\<lambda>r. r\<lparr>u_locked := locked\<rparr>)) d"

definition ValidateUser :: "int \<Rightarrow> int \<Rightarrow> db \<Rightarrow> (error + unit) \<times> db" where
  "ValidateUser actorID i d =
     guarded (requireActor d actorID i False) (updateUser i (\<lambda>r. r\<lparr>u_validated := True\<rparr>)) d"

definition BootstrapSysop :: "store_env \<Rightarrow> string \<Rightarrow> db \<Rightarrow> (error + user) \<times> db" where
  "BootstrapSysop E handle d =
     (case UserByHandle E d handle of
        Inl e \<Rightarrow> (Inl e, d)
      | Inr u \<Rightarrow>
          (case updateUser (u_id u) (\<lambda>r. r\<lparr>u_sysop := True, u_validated := True\<rparr>) d of
             (Inl e, d') \<Rightarrow> (Inl e, d')
           | (Inr _, d') \<Rightarrow> (UserByID d' (u_id u), d')))"

text \<open>\<open>DELETE FROM users\<close> with the schema's \<open>ON DELETE\<close> actions.\<close>

definition delete_user_rows :: "int \<Rightarrow> db \<Rightarrow> db" where
  "delete_user_rows i d = d\<lparr>
     t_users := delete_where (\<lambda>r. u_id r = i) (t_users d),
     t_blocks := delete_where (\<lambda>(a, b). a = i \<or> b = i) (t_blocks d),
     t_board_reads := delete_where (\<lambda>((u, _), _). u = i) (t_board_reads d),
     t_verifications := delete_where (\<lambda>v. v_user v = i) (t_verifications d),
     t_ssh_keys := delete_where (\<lambda>k. k_user k = i) (t_ssh_keys d),
     t_echo_reads := delete_where (\<lambda>((u, _), _). u = i) (t_echo_reads d),
     t_netmail := update_where (\<lambda>n. n_author n = i) (\<lambda>n. n\<lparr>n_author := 0\<rparr>) (t_netmail d),
     t_file_reads := delete_where (\<lambda>((u, _), _). u = i) (t_file_reads d)\<rparr>"

text \<open>The mail a deleted account leaves: its inbox goes, its letters stay with the readers.\<close>

definition delete_user_mail :: "int \<Rightarrow> message_row list \<Rightarrow> message_row list" where
  "delete_user_mail i ms =
     delete_where (\<lambda>m. m_del_from m \<and> m_del_to m)
       (update_where (\<lambda>m. m_from m = i) (\<lambda>m. m\<lparr>m_del_from := True\<rparr>)
         (delete_where (\<lambda>m. m_to m = i) ms))"

definition DeleteUser :: "int \<Rightarrow> int \<Rightarrow> db \<Rightarrow> (error + unit) \<times> db" where
  "DeleteUser actorID i d =
     (if actorID = i then (Inl ErrForbidden, d)
      else tx (\<lambda>d. and_then (requireSysop d actorID) (\<lambda>_.
        and_then (requireRow (count_where (\<lambda>r. u_id r = i) (t_users d))) (\<lambda>_.
          let d1 = delete_user_rows i d
          in Inr ((), d1\<lparr>t_messages := delete_user_mail i (t_messages d1)\<rparr>)))) d)"

definition PendingUsers :: "db \<Rightarrow> user list" where
  "PendingUsers d =
     map user.truncate (sort_key u_id (filter (\<lambda>r. \<not> u_validated r) (t_users d)))"

definition SysopIDs :: "db \<Rightarrow> int list" where
  "SysopIDs d = map u_id (filter u_sysop (t_users d))"

section \<open>Blocking (blocks.go)\<close>

definition isBlocked :: "db \<Rightarrow> int \<Rightarrow> int \<Rightarrow> bool" where
  "isBlocked d userID otherID = exists_where (\<lambda>p. p = (userID, otherID)) (t_blocks d)"

definition Block :: "int \<Rightarrow> int \<Rightarrow> db \<Rightarrow> (error + unit) \<times> db" where
  "Block userID blockedID d =
     (if userID = blockedID then (Inl (invalid ''You can't block yourself.''), d)
      else case UserByID d blockedID of
          Inl e \<Rightarrow> (Inl e, d)
        | Inr _ \<Rightarrow>
            if (userID, blockedID) \<in> set (t_blocks d) then (Inr (), d)
            else if find_user d userID = None then (Inl ErrConstraint, d)
            else (Inr (), d\<lparr>t_blocks := t_blocks d @ [(userID, blockedID)]\<rparr>))"

definition Unblock :: "int \<Rightarrow> int \<Rightarrow> db \<Rightarrow> (error + unit) \<times> db" where
  "Unblock userID blockedID d =
     (Inr (), d\<lparr>t_blocks := delete_where (\<lambda>p. p = (userID, blockedID)) (t_blocks d)\<rparr>)"

definition BlockedUsers :: "db \<Rightarrow> int \<Rightarrow> user list" where
  "BlockedUsers d userID = map user.truncate (sort_key u_handle_key
     (concat (map (\<lambda>(a, b). if a = userID then filter (\<lambda>r. u_id r = b) (t_users d) else [])
       (t_blocks d))))"

end
