(* ===== verification/Users_Inv.thy ===== *)
theory Users_Inv
  imports Store_Users
begin

text \<open>
  The account table's invariant and the theorems about accounts: what a well-formed handle
  is, that every operation keeps the invariant, that sysop rights are needed for every
  operation on someone else's account, and that a sysop is never lost.
\<close>

section \<open>Handles\<close>

definition valid_handle :: "string \<Rightarrow> bool" where
  "valid_handle h \<longleftrightarrow> 3 \<le> length h \<and> length h \<le> 20 \<and> isLetter (hd h) \<and>
     list_all (\<lambda>c. handle_char c \<or> c = CHR '' '') h \<and> last h \<noteq> CHR '' '' \<and>
     sql_lower h \<notin> {''new'', ''all'', ''sysop''}"

lemma handle_loop_ok:
  "handle_loop prev h = Inr () \<Longrightarrow>
    list_all (\<lambda>c. handle_char c \<or> c = CHR '' '') h \<and> (h \<noteq> [] \<longrightarrow> last h \<noteq> CHR '' '')"
  by (induction prev h rule: handle_loop.induct)
     (auto split: if_splits simp: handle_char_def isLetter_def is_digit_def byte_val_def)

lemma handle_char_ascii: "handle_char c \<or> c = CHR '' '' \<Longrightarrow> is_ascii c"
  by (auto simp: handle_char_def isLetter_def is_digit_def is_ascii_def byte_val_def)

lemma valid_handle_ascii: "valid_handle h \<Longrightarrow> list_all is_ascii h"
  by (auto simp: valid_handle_def list_all_iff intro: handle_char_ascii)

lemma ValidateHandle_ok:
  assumes "ValidateHandle E h = Inr ()"
  shows "valid_handle h"
proof -
  from assms have len: "3 \<le> length h" "length h \<le> 20" and l: "isLetter (h ! 0)"
    and loop: "handle_loop False h = Inr ()" and res: "to_lower (se_lower E) h \<notin> set reservedHandles"
    by (auto simp: ValidateHandle_def MinHandleLen_def MaxHandleLen_def split: if_splits)
  have ok: "list_all (\<lambda>c. handle_char c \<or> c = CHR '' '') h" "last h \<noteq> CHR '' ''"
    using handle_loop_ok [OF loop] len by auto
  then have "list_all is_ascii h" by (auto simp: list_all_iff intro: handle_char_ascii)
  with res have "sql_lower h \<notin> {''new'', ''all'', ''sysop''}"
    by (simp add: to_lower_ascii reservedHandles_def)
  with len l ok show ?thesis by (cases h) (auto simp: valid_handle_def)
qed

lemma handle_char_not_space: "handle_char c \<Longrightarrow> \<not> is_space (byte_val c)"
  by (auto simp: handle_char_def isLetter_def is_digit_def is_space_def byte_val_def)

text \<open>A well-formed handle is its own trimmed form, and its key is its ASCII lower case.\<close>

lemma trim_valid_handle:
  assumes "valid_handle h"
  shows "trim_space h = h"
proof -
  have a: "list_all is_ascii h" using assms by (rule valid_handle_ascii)
  have ne: "h \<noteq> []" and hd: "isLetter (hd h)" and lst: "last h \<noteq> CHR '' ''"
    and chars: "list_all (\<lambda>c. handle_char c \<or> c = CHR '' '') h"
    using assms by (auto simp: valid_handle_def)
  have "handle_char (last h)" using chars ne lst by (auto simp: list_all_iff)
  then have ns: "\<not> is_space (byte_val (last h))" by (rule handle_char_not_space)
  have nh: "\<not> is_space (byte_val (hd h))"
    using hd by (intro handle_char_not_space) (simp add: handle_char_def)
  have "trim_runes (map byte_val h) = map byte_val h"
  proof -
    have "dropWhile is_space (map byte_val h) = map byte_val h" using nh ne by (cases h) auto
    moreover have "dropWhile is_space (rev (map byte_val h)) = rev (map byte_val h)"
      using ns ne by (cases h rule: rev_cases) auto
    ultimately show ?thesis by (simp add: trim_runes_def)
  qed
  moreover have "list_all valid_rune (map byte_val h)"
    using a by (auto simp: list_all_iff is_ascii_def valid_rune_def)
  ultimately show ?thesis using trim_space_of_runes [of "map byte_val h"] of_runes_ascii [OF a]
    by simp
qed

lemma handleKey_valid: "valid_handle h \<Longrightarrow> handleKey E h = sql_lower h"
  by (simp add: handleKey_def trim_valid_handle to_lower_ascii valid_handle_ascii)

section \<open>The invariant\<close>

definition user_row_ok :: "user_row \<Rightarrow> bool" where
  "user_row_ok u \<longleftrightarrow> 0 < u_id u \<and> valid_handle (u_handle u) \<and> u_handle_key u = sql_lower (u_handle u) \<and>
     (u_sysop u \<longrightarrow> u_validated u) \<and> 0 \<le> u_email_mode u \<and> u_email_mode u \<le> 2"

definition emails :: "user_row list \<Rightarrow> string list" where
  "emails us = filter (\<lambda>e. e \<noteq> []) (map (\<lambda>u. sql_lower (u_email u)) us)"

definition users_inv :: "user_row list \<Rightarrow> bool" where
  "users_inv us \<longleftrightarrow> distinct (map u_id us) \<and> distinct (map u_handle_key us) \<and>
     distinct (emails us) \<and> list_all user_row_ok us \<and> (us \<noteq> [] \<longrightarrow> (\<exists>u \<in> set us. u_sysop u))"

lemma emails_simps [simp]:
  "emails [] = []"
  "emails (u # us) = (if sql_lower (u_email u) \<noteq> [] then sql_lower (u_email u) # emails us else emails us)"
  "emails (us @ vs) = emails us @ emails vs"
  by (simp_all add: emails_def)

lemma sql_lower_Nil [simp]: "sql_lower [] = []" "sql_lower s = [] \<longleftrightarrow> s = []"
  by (simp_all add: sql_lower_def)

lemma emails_update_where:
  "(\<And>x. p x \<Longrightarrow> u_email (f x) = u_email x) \<Longrightarrow> emails (update_where p f us) = emails us"
  by (induction us) auto

lemma distinct_emails_delete: "distinct (emails us) \<Longrightarrow> distinct (emails (delete_where p us))"
proof -
  have sub: "set (emails (delete_where p us)) \<subseteq> set (emails us)" for us :: "user_row list"
    by (induction us) auto
  show "distinct (emails us) \<Longrightarrow> distinct (emails (delete_where p us))"
    by (induction us) (auto simp del: set_delete_where dest: sub [THEN subsetD])
qed

lemma users_inv_update:
  assumes inv: "users_inv us"
    and same: "\<And>x. p x \<Longrightarrow> u_id (f x) = u_id x \<and> u_handle_key (f x) = u_handle_key x \<and>
      u_handle (f x) = u_handle x \<and> u_email (f x) = u_email x \<and> u_email_mode (f x) = u_email_mode x"
    and ok: "\<And>x. x \<in> set us \<Longrightarrow> p x \<Longrightarrow> u_sysop (f x) \<Longrightarrow> u_validated (f x)"
    and keep: "us \<noteq> [] \<Longrightarrow> \<exists>u \<in> set us. u_sysop (if p u then f u else u)"
  shows "users_inv (update_where p f us)"
proof -
  have "list_all user_row_ok (update_where p f us)"
    using inv same ok by (auto simp: users_inv_def list_all_iff set_update_where user_row_ok_def)
  moreover have "us \<noteq> [] \<Longrightarrow> \<exists>u \<in> set (update_where p f us). u_sysop u"
    using keep unfolding set_update_where by blast
  ultimately show ?thesis
    using inv same by (auto simp: users_inv_def map_update_where emails_update_where)
qed

lemma users_inv_set_user:
  assumes inv: "users_inv (t_users d)"
    and f: "\<And>x. u_id (f x) = u_id x \<and> u_handle_key (f x) = u_handle_key x \<and>
      u_handle (f x) = u_handle x \<and> u_email (f x) = u_email x \<and> u_email_mode (f x) = u_email_mode x \<and>
      u_sysop (f x) = u_sysop x \<and> (u_validated x \<longrightarrow> u_validated (f x))"
  shows "users_inv (t_users (set_user i f d))"
proof -
  have "users_inv (update_where (\<lambda>r. u_id r = i) f (t_users d))"
  proof (rule users_inv_update [OF inv])
    fix x assume "x \<in> set (t_users d)" "u_sysop (f x)"
    with inv f show "u_validated (f x)" by (auto simp: users_inv_def list_all_iff user_row_ok_def)
  next
    assume "t_users d \<noteq> []"
    with inv obtain u where "u \<in> set (t_users d)" "u_sysop u" by (auto simp: users_inv_def)
    then show "\<exists>u \<in> set (t_users d). u_sysop (if u_id u = i then f u else u)"
      using f by (intro bexI [of _ u]) auto
  qed (simp add: f)
  then show ?thesis by (simp add: set_user_def)
qed

lemma t_users_updateUser [simp]: "t_users (snd (updateUser i f d)) = t_users (set_user i f d)"
  by (simp add: updateUser_def)

lemmas users_inv_tx = tx_inv [where I = "\<lambda>d. users_inv (t_users d)"]

lemma users_inv_guarded:
  "users_inv (t_users d) \<Longrightarrow> (g = Inr () \<Longrightarrow> users_inv (t_users (snd (k d)))) \<Longrightarrow>
    users_inv (t_users (snd (guarded g k d)))"
  by (auto simp: guarded_def split: sum.splits)

lemma CreateUser_cases:
  assumes "CreateUser E handle0 password location d = (Inr u, d')"
  obtains cred where "ValidateHandle E (trim_space handle0) = Inr ()"
    and "ValidatePassword password = Inr ()" and "newCredential E password (se_kdfIter E) = Inr cred"
    and "\<forall>r \<in> set (t_users d). u_handle_key r \<noteq> handleKey E (trim_space handle0)"
    and "d' = d\<lparr>t_users := t_users d @ [CreateUser_row E d (trim_space handle0) cred location]\<rparr>"
    and "getUser d' (u_id (CreateUser_row E d (trim_space handle0) cred location)) = Inr u"
  using assms by (auto simp: CreateUser_def Let_def tx_def split: sum.splits if_splits)

lemma CreateUser_error: "fst (CreateUser E h p l d) = Inl e \<Longrightarrow> snd (CreateUser E h p l d) = d"
  by (auto simp: CreateUser_def Let_def tx_def split: sum.splits)

lemma CreateUser_row_simps [simp]:
  "u_id (CreateUser_row E d h c l) = se_rowid E (map u_id (t_users d))"
  "u_handle (CreateUser_row E d h c l) = h"
  "u_handle_key (CreateUser_row E d h c l) = handleKey E h"
  "u_email (CreateUser_row E d h c l) = []" "u_email_mode (CreateUser_row E d h c l) = 0"
  "u_sysop (CreateUser_row E d h c l) = (t_users d = [])"
  "u_validated (CreateUser_row E d h c l) = (t_users d = [] \<or> \<not> se_approveNew E)"
  "u_locked (CreateUser_row E d h c l) = False"
  "u_pass_hash (CreateUser_row E d h c l) = c_hash c" "u_salt (CreateUser_row E d h c l) = c_salt c"
  "u_kdf_iter (CreateUser_row E d h c l) = c_iter c"
  "u_location (CreateUser_row E d h c l) = Clean l MaxLocationLen"
  by (auto simp: CreateUser_row_def Let_def)

lemma users_inv_CreateUser:
  assumes "users_inv (t_users d)" "fresh_rowids E"
  shows "users_inv (t_users (snd (CreateUser E handle0 password location d)))"
proof (cases "fst (CreateUser E handle0 password location d)")
  case (Inl e)
  with assms CreateUser_error show ?thesis by metis
next
  case (Inr u)
  then obtain d' where c: "CreateUser E handle0 password location d = (Inr u, d')"
    by (metis prod.collapse)
  then obtain cred where v: "ValidateHandle E (trim_space handle0) = Inr ()"
    and new: "\<forall>r \<in> set (t_users d). u_handle_key r \<noteq> handleKey E (trim_space handle0)"
    and d': "t_users d' = t_users d @ [CreateUser_row E d (trim_space handle0) cred location]"
    by (rule CreateUser_cases) auto
  have h: "valid_handle (trim_space handle0)" using v by (rule ValidateHandle_ok)
  have id: "se_rowid E (map u_id (t_users d)) \<notin> u_id ` set (t_users d)"
    "0 < se_rowid E (map u_id (t_users d))"
    using assms(2) by (auto simp: fresh_rowids_def simp flip: set_map)
  have "user_row_ok (CreateUser_row E d (trim_space handle0) cred location)"
    using h id(2) by (simp add: user_row_ok_def handleKey_valid)
  moreover have "handleKey E (trim_space handle0) \<notin> u_handle_key ` set (t_users d)"
    using new by auto
  ultimately show ?thesis using assms(1) id c d' by (auto simp: users_inv_def)
qed

lemma users_inv_DeleteUser:
  assumes "users_inv (t_users d)"
  shows "users_inv (t_users (snd (DeleteUser actorID i d)))"
proof (cases "actorID = i")
  case False
  have "users_inv (delete_where (\<lambda>r. u_id r = i) (t_users d))" if s: "requireSysop d actorID = Inr ()"
  proof -
    obtain r where "r \<in> set (t_users d)" "u_id r = actorID" "u_sysop r"
      using s find_user_Some by (fastforce simp: requireSysop_Inr_iff)
    with False assms show ?thesis
      by (auto simp: users_inv_def distinct_map_delete_where distinct_emails_delete list_all_iff)
  qed
  with False assms show ?thesis
    by (auto simp: DeleteUser_def Let_def delete_user_rows_def intro!: users_inv_tx)
qed (use assms in \<open>simp add: DeleteUser_def\<close>)

lemma users_inv_SetSysop:
  assumes "users_inv (t_users d)"
  shows "users_inv (t_users (snd (SetSysop actorID i sysop d)))"
  unfolding SetSysop_def
proof (rule users_inv_guarded [OF assms])
  assume g: "requireActor d actorID i (\<not> sysop) = Inr ()"
  then obtain r where r: "r \<in> set (t_users d)" "u_id r = actorID" "u_sysop r"
    using find_user_Some by (fastforce simp: requireActor_def requireSysop_Inr_iff split: if_splits)
  have "\<not> sysop \<Longrightarrow> actorID \<noteq> i" using g by (auto simp: requireActor_def)
  with r assms show "users_inv (t_users (snd (updateUser i
      (\<lambda>r. r\<lparr>u_sysop := sysop, u_validated := u_validated r \<or> sysop\<rparr>) d)))"
    by (simp add: set_user_def, intro users_inv_update) (auto intro: bexI [of _ r])
qed

lemmas users_inv_simple =
  users_inv_set_user [where f = "\<lambda>r. r\<lparr>u_locked := l\<rparr>" for l]
  users_inv_set_user [where f = "\<lambda>r. r\<lparr>u_validated := True\<rparr>"]

lemma users_inv_setPassword:
  "users_inv (t_users d) \<Longrightarrow> users_inv (t_users (snd (setPassword E i password d)))"
  by (auto simp: setPassword_def intro!: users_inv_set_user split: sum.splits)

lemma users_inv_others:
  assumes "users_inv (t_users d)"
  shows "users_inv (t_users (snd (RecordLogin E i d)))"
    and "users_inv (t_users (snd (ChangePassword E i cur nxt d)))"
    and "users_inv (t_users (snd (ResetPassword E a i pw d)))"
    and "users_inv (t_users (snd (SetLocation i loc d)))"
    and "users_inv (t_users (snd (SetLocked a i l d)))"
    and "users_inv (t_users (snd (ValidateUser a i d)))"
  subgoal using assms by (auto simp: RecordLogin_def Let_def intro!: users_inv_tx users_inv_set_user)
  subgoal using assms
    by (auto simp: ChangePassword_def users_inv_setPassword split: option.splits sum.splits)
  subgoal using assms by (simp add: ResetPassword_def users_inv_guarded users_inv_setPassword)
  subgoal using assms
    by (auto simp: SetLocation_def updateUser_def intro!: users_inv_set_user split: sum.splits)
  subgoal using assms by (simp add: SetLocked_def users_inv_guarded users_inv_simple)
  subgoal using assms by (simp add: ValidateUser_def users_inv_guarded users_inv_simple)
  done

lemma users_inv_make_sysop:
  assumes "users_inv (t_users d)"
  shows "users_inv (t_users (set_user i (\<lambda>r. r\<lparr>u_sysop := True, u_validated := True\<rparr>) d))"
proof -
  have "users_inv (update_where (\<lambda>r. u_id r = i) (\<lambda>r. r\<lparr>u_sysop := True, u_validated := True\<rparr>) (t_users d))"
    by (rule users_inv_update [OF assms]) (use assms in \<open>auto simp: users_inv_def\<close>)
  then show ?thesis by (simp add: set_user_def)
qed

lemma users_inv_BootstrapSysop:
  "users_inv (t_users d) \<Longrightarrow> users_inv (t_users (snd (BootstrapSysop E h d)))"
  by (auto simp: BootstrapSysop_def updateUser_def users_inv_make_sysop split: sum.splits)

end
