(* ===== verification/Store_Mail.thy ===== *)
theory Store_Mail
  imports Users_Inv
begin

text \<open>
  \<open>internal/store/messages.go\<close>: private letters. Each side deletes its own copy and a letter
  both have deleted is purged. The mail table's invariant bounds every inbox, keeps letters
  sanitised and never keeps a letter nobody can see; the theorems show who can send to whom,
  who can read what, and that deleting touches only one's own copy.
\<close>

definition MaxSubjectLen :: nat where "MaxSubjectLen = 60"
definition MaxBodyBytes :: nat where "MaxBodyBytes = 16 * 1024"
definition MaxInbox :: nat where "MaxInbox = 500"
definition MaxSearchResults :: nat where "MaxSearchResults = 100"

abbreviation LF :: char where "LF \<equiv> CHR 0x0A"
abbreviation CR :: char where "CR \<equiv> CHR 0x0D"

definition IsRead :: "message \<Rightarrow> bool" where
  "IsRead m \<longleftrightarrow> m_read m \<noteq> 0"

definition cleanBody :: "string \<Rightarrow> string" where
  "cleanBody body =
     (let lines = split_on LF (replace_all [CR, LF] [LF] body);
          cleaned = map (\<lambda>ln. trim_right_bytes '' '' (StripControl ln)) lines
      in trim_bytes [LF] (join [LF] cleaned))"

definition cleanLetter :: "string \<Rightarrow> string \<Rightarrow> error + (string \<times> string)" where
  "cleanLetter subject0 body0 =
     (let subject = Clean subject0 MaxSubjectLen in
      if subject = [] then Inl (invalid ''A subject is required.'')
      else let body = cleanBody body0 in
        if body = [] then Inl (invalid ''The message is empty.'')
        else if MaxBodyBytes < length body then Inl (invalid ''The message is too long (max 16 KB).'')
        else Inr (subject, body))"

text \<open>The SQL condition \<open>visibleTo\<close>.\<close>

definition visibleTo :: "int \<Rightarrow> message_row \<Rightarrow> bool" where
  "visibleTo userID m \<longleftrightarrow>
     (m_to m = userID \<and> \<not> m_del_to m) \<or> (m_from m = userID \<and> \<not> m_del_from m)"

definition in_inbox :: "int \<Rightarrow> message_row \<Rightarrow> bool" where
  "in_inbox userID m \<longleftrightarrow> m_to m = userID \<and> \<not> m_del_to m"

definition messageThread :: "db \<Rightarrow> int \<Rightarrow> int \<Rightarrow> int \<times> int" where
  "messageThread d senderID replyTo =
     (if replyTo = 0 then (0, 0)
      else case find (\<lambda>m. m_id m = replyTo \<and> visibleTo senderID m) (t_messages d) of
          None \<Rightarrow> (0, 0)
        | Some m \<Rightarrow> (m_thread m, replyTo))"

text \<open>The \<open>INSERT\<close>, and the \<open>UPDATE\<close> that makes a letter without a thread its own.\<close>

definition insert_message ::
    "store_env \<Rightarrow> int \<Rightarrow> int \<Rightarrow> int \<Rightarrow> int \<Rightarrow> string \<Rightarrow> string \<Rightarrow> message_row list \<Rightarrow> int \<times> message_row list" where
  "insert_message E fromID toID threadID replyTo subject body ms =
     (let id = se_rowid E (map m_id ms);
          ms' = ms @ [\<lparr>m_id = id, m_from = fromID, m_to = toID, m_thread = threadID,
                       m_reply_to = replyTo, m_subject = subject, m_body = body,
                       m_sent = se_now E, m_read = 0, m_del_from = False, m_del_to = False\<rparr>]
      in (id, if threadID = 0
              then update_where (\<lambda>m. m_id m = id) (\<lambda>m. m\<lparr>m_thread := m_id m\<rparr>) ms' else ms'))"

definition SendMessage ::
    "store_env \<Rightarrow> int \<Rightarrow> int \<Rightarrow> string \<Rightarrow> string \<Rightarrow> int \<Rightarrow> db \<Rightarrow> (error + message) \<times> db" where
  "SendMessage E fromID toID subject0 body0 replyTo0 d =
     (case cleanLetter subject0 body0 of
        Inl e \<Rightarrow> (Inl e, d)
      | Inr (subject, body) \<Rightarrow> tx (\<lambda>d.
          and_then (getUser d fromID) (\<lambda>sender.
          and_then (getUser d toID) (\<lambda>recipient.
            if \<not> u_validated sender \<and> \<not> u_sysop recipient then Inl ErrNotValidated
            else if \<not> u_sysop sender \<and> isBlocked d toID fromID then Inl ErrBlocked
            else if MaxInbox \<le> count_where (in_inbox toID) (t_messages d) then Inl ErrMailboxFull
            else let (threadID, replyTo) = messageThread d fromID replyTo0;
                     (id, ms) = insert_message E fromID toID threadID replyTo subject body (t_messages d)
                 in case find (\<lambda>m. m_id m = id) ms of
                      None \<Rightarrow> Inl ErrInternal
                    | Some m \<Rightarrow> Inr (message.truncate m, d\<lparr>t_messages := ms\<rparr>)))) d)"

definition queryMessages :: "db \<Rightarrow> (message_row \<Rightarrow> bool) \<Rightarrow> message list" where
  "queryMessages d p = map message.truncate (sort_key m_id (filter p (t_messages d)))"

definition Inbox :: "db \<Rightarrow> int \<Rightarrow> message list" where
  "Inbox d userID = queryMessages d (in_inbox userID)"

definition Outbox :: "db \<Rightarrow> int \<Rightarrow> message list" where
  "Outbox d userID = queryMessages d (\<lambda>m. m_from m = userID \<and> \<not> m_del_from m)"

definition Thread :: "db \<Rightarrow> int \<Rightarrow> int \<Rightarrow> error + message list" where
  "Thread d msgID userID =
     (case find (\<lambda>m. m_id m = msgID \<and> visibleTo userID m) (t_messages d) of
        None \<Rightarrow> Inl ErrNotFound
      | Some m \<Rightarrow> Inr (queryMessages d (\<lambda>x. m_thread x = m_thread m \<and> visibleTo userID x)))"

definition mail_matches :: "db \<Rightarrow> int \<Rightarrow> string \<Rightarrow> message_row \<Rightarrow> bool" where
  "mail_matches d userID query m \<longleftrightarrow>
     contains (sql_lower (m_subject m)) query \<or> contains (sql_lower (m_body m)) query \<or>
     exists_where (\<lambda>u. (u_id u = m_from m \<or> u_id u = m_to m) \<and> u_id u \<noteq> userID \<and>
       contains (u_handle_key u) query) (t_users d)"

definition SearchMail :: "store_env \<Rightarrow> db \<Rightarrow> int \<Rightarrow> string \<Rightarrow> message list" where
  "SearchMail E d userID query0 =
     (let query = to_lower (se_lower E) (trim_space query0) in
      if query = [] then []
      else rev (map message.truncate (sql_limit (int MaxSearchResults)
        (rev (sort_key m_id (filter (\<lambda>m. visibleTo userID m \<and> mail_matches d userID query m)
          (t_messages d)))))))"

definition UnreadCount :: "db \<Rightarrow> int \<Rightarrow> nat" where
  "UnreadCount d userID = count_where (\<lambda>m. in_inbox userID m \<and> m_read m = 0) (t_messages d)"

definition MarkRead :: "store_env \<Rightarrow> int \<Rightarrow> int \<Rightarrow> db \<Rightarrow> (error + unit) \<times> db" where
  "MarkRead E msgID userID d =
     (let p = (\<lambda>m. m_id m = msgID \<and> in_inbox userID m \<and> m_read m = 0);
          d' = d\<lparr>t_messages := update_where p (\<lambda>m. m\<lparr>m_read := se_now E\<rparr>) (t_messages d)\<rparr>
      in if count_where p (t_messages d) \<noteq> 0 then (Inr (), d')
         else if exists_where (\<lambda>m. m_id m = msgID \<and> in_inbox userID m) (t_messages d')
         then (Inr (), d') else (Inl ErrNotFound, d'))"

definition DeleteMessage :: "int \<Rightarrow> int \<Rightarrow> db \<Rightarrow> (error + unit) \<times> db" where
  "DeleteMessage msgID userID = tx (\<lambda>d.
     let p = (\<lambda>m. m_id m = msgID \<and> visibleTo userID m);
         ms = update_where p (\<lambda>m. m\<lparr>m_del_from := m_del_from m \<or> m_from m = userID,
                                    m_del_to := m_del_to m \<or> m_to m = userID\<rparr>) (t_messages d)
     in and_then (requireRow (count_where p (t_messages d))) (\<lambda>_.
          Inr ((), d\<lparr>t_messages :=
            delete_where (\<lambda>m. m_id m = msgID \<and> m_del_from m \<and> m_del_to m) ms\<rparr>)))"

section \<open>Sanitised letters\<close>

definition body_rune :: "rune \<Rightarrow> bool" where
  "body_rune r \<longleftrightarrow> printable r \<or> r = 0x0A"

definition subject_ok :: "string \<Rightarrow> bool" where
  "subject_ok s \<longleftrightarrow> s \<noteq> [] \<and> text_of printable s \<and> length (runes s) \<le> MaxSubjectLen"

definition body_ok :: "string \<Rightarrow> bool" where
  "body_ok s \<longleftrightarrow> s \<noteq> [] \<and> text_of body_rune s \<and> length s \<le> MaxBodyBytes"

lemma text_of_cleanBody: "text_of body_rune (cleanBody body)"
proof -
  have sp: "is_ascii CHR '' ''" and lf: "is_ascii LF" "body_rune (byte_val LF)"
    by (simp_all add: is_ascii_def byte_val_def body_rune_def)
  have "text_of body_rune (trim_right_bytes '' '' (StripControl ln))" for ln
    using text_of_trim_right [OF text_of_StripControl sp]
    by (rule text_of_mono) (simp add: body_rune_def)
  then show ?thesis unfolding cleanBody_def Let_def
    by (intro text_of_trim [OF _ lf(1)] text_of_join text_of_ascii [where P = body_rune, OF lf]) auto
qed

lemma cleanLetter_ok: "cleanLetter s b = Inr (s', b') \<Longrightarrow> subject_ok s' \<and> body_ok b'"
  by (auto simp: cleanLetter_def Let_def subject_ok_def body_ok_def text_of_Clean
      length_runes_Clean text_of_cleanBody split: if_splits)

lemma cleanBody_graphic: "graphic s \<Longrightarrow> cleanBody s = s"
proof -
  assume g: "graphic s"
  have n: "CR \<notin> set s" "LF \<notin> set s" "CHR '' '' \<notin> set s"
    by (rule graphic_not_in [OF g]; simp add: byte_val_def)+
  have t: "trim_right_bytes [c] s = s" "trim_left_bytes [c] s = s" if "c \<notin> set s" for c
  proof -
    have "dropWhile (\<lambda>x. x = c) s = s" "dropWhile (\<lambda>x. x = c) (rev s) = rev s"
      using that by (intro dropWhile_none; auto)+
    then show "trim_right_bytes [c] s = s" "trim_left_bytes [c] s = s"
      by (simp_all add: trim_right_bytes_def trim_left_bytes_def)
  qed
  show ?thesis using n g
    by (simp add: cleanBody_def Let_def replace_all_none split_on_no_sep StripControl_graphic trim_bytes_def t)
qed

lemma cleanLetter_graphic:
  "graphic s \<Longrightarrow> graphic b \<Longrightarrow> s \<noteq> [] \<Longrightarrow> b \<noteq> [] \<Longrightarrow> length s \<le> MaxSubjectLen \<Longrightarrow> length b \<le> MaxBodyBytes \<Longrightarrow>
    cleanLetter s b = Inr (s, b)"
  by (simp add: cleanLetter_def Let_def Clean_graphic cleanBody_graphic)

section \<open>The invariant\<close>

definition message_ok :: "message_row \<Rightarrow> bool" where
  "message_ok m \<longleftrightarrow> 0 < m_id m \<and> 0 < m_thread m \<and> subject_ok (m_subject m) \<and> body_ok (m_body m) \<and>
     \<not> (m_del_from m \<and> m_del_to m)"

definition mail_inv :: "message_row list \<Rightarrow> bool" where
  "mail_inv ms \<longleftrightarrow> distinct (map m_id ms) \<and> list_all message_ok ms \<and>
     (\<forall>u. count_where (in_inbox u) ms \<le> MaxInbox)"

lemma SendMessage_cases:
  obtains (error) e where "SendMessage E f t s b r d = (Inl e, d)"
  | (sent) s' b' ur vr th p id ms m where
      "cleanLetter s b = Inr (s', b')" "find_user d f = Some ur" "find_user d t = Some vr"
      "u_validated ur \<or> u_sysop vr" "u_sysop ur \<or> \<not> isBlocked d t f"
      "count_where (in_inbox t) (t_messages d) < MaxInbox" "messageThread d f r = (th, p)"
      "insert_message E f t th p s' b' (t_messages d) = (id, ms)" "find (\<lambda>m. m_id m = id) ms = Some m"
      "SendMessage E f t s b r d = (Inr (message.truncate m), d\<lparr>t_messages := ms\<rparr>)"
proof (cases "fst (SendMessage E f t s b r d)")
  case (Inl e)
  then have "SendMessage E f t s b r d = (Inl e, d)"
    by (cases "SendMessage E f t s b r d") (auto simp: SendMessage_def split: sum.splits)
  then show ?thesis by (rule error)
next
  case (Inr v)
  then obtain d' where res: "SendMessage E f t s b r d = (Inr v, d')" by (metis prod.collapse)
  then obtain s' b' ur vr th p id ms m where f:
      "cleanLetter s b = Inr (s', b')" "find_user d f = Some ur" "find_user d t = Some vr"
      "u_validated ur \<or> u_sysop vr" "u_sysop ur \<or> \<not> isBlocked d t f"
      "count_where (in_inbox t) (t_messages d) < MaxInbox" "messageThread d f r = (th, p)"
      "insert_message E f t th p s' b' (t_messages d) = (id, ms)" "find (\<lambda>m. m_id m = id) ms = Some m"
      "v = message.truncate m" "d' = d\<lparr>t_messages := ms\<rparr>"
    by (auto simp: SendMessage_def getUser_Inr_iff not_le
        split: sum.splits if_splits prod.splits option.splits)
  show ?thesis by (rule sent [OF f(1-9)]) (simp add: res f(10,11))
qed

definition new_message ::
    "store_env \<Rightarrow> int \<Rightarrow> int \<Rightarrow> int \<Rightarrow> int \<Rightarrow> string \<Rightarrow> string \<Rightarrow> message_row list \<Rightarrow> message_row" where
  "new_message E f t th p s b ms =
     \<lparr>m_id = se_rowid E (map m_id ms), m_from = f, m_to = t,
      m_thread = (if th = 0 then se_rowid E (map m_id ms) else th), m_reply_to = p,
      m_subject = s, m_body = b, m_sent = se_now E, m_read = 0, m_del_from = False, m_del_to = False\<rparr>"

lemma insert_message_eq:
  assumes "fresh_rowids E"
  shows "insert_message E f t th p s b ms =
    (se_rowid E (map m_id ms), ms @ [new_message E f t th p s b ms])"
proof -
  have "\<not> (\<exists>m \<in> set ms. m_id m = se_rowid E (map m_id ms))"
    using fresh_rowidsD(2) [OF assms, of _ ms m_id] by auto
  then have "update_where (\<lambda>m. m_id m = se_rowid E (map m_id ms)) g ms = ms" for g
    by (rule update_where_none)
  then show ?thesis
    by (simp add: insert_message_def Let_def new_message_def update_where_def)
qed

lemma messageThread_pos:
  "mail_inv (t_messages d) \<Longrightarrow> messageThread d f r = (th, p) \<Longrightarrow> 0 \<le> th"
  by (auto simp: messageThread_def mail_inv_def list_all_iff message_ok_def
      split: if_splits option.splits dest!: find_Some_in)

lemma mail_inv_SendMessage:
  assumes inv: "mail_inv (t_messages d)" and fr: "fresh_rowids E"
  shows "mail_inv (t_messages (snd (SendMessage E f t s b r d)))"
proof (rule SendMessage_cases [of E f t s b r d])
  fix s' b' th p id ms m
  assume cl: "cleanLetter s b = Inr (s', b')" and room: "count_where (in_inbox t) (t_messages d) < MaxInbox"
    and th: "messageThread d f r = (th, p)"
    and ins: "insert_message E f t th p s' b' (t_messages d) = (id, ms)"
    and res: "SendMessage E f t s b r d = (Inr (message.truncate m), d\<lparr>t_messages := ms\<rparr>)"
  let ?new = "new_message E f t th p s' b' (t_messages d)"
  have ms: "ms = t_messages d @ [?new]" using ins insert_message_eq [OF fr] by simp
  have id: "0 < m_id ?new" "m_id ?new \<notin> m_id ` set (t_messages d)"
    using fr by (auto simp: fresh_rowids_def new_message_def simp flip: set_map)
  have "message_ok ?new"
    using messageThread_pos [OF inv th] cleanLetter_ok [OF cl] id(1)
    by (auto simp: message_ok_def new_message_def)
  moreover have "count_where (in_inbox u) ms \<le> MaxInbox" for u
    using inv room by (cases "u = t") (auto simp: ms mail_inv_def in_inbox_def new_message_def)
  ultimately show ?thesis using inv id res by (auto simp: mail_inv_def ms)
qed (use inv in auto)

lemma mail_inv_update:
  assumes inv: "mail_inv ms"
    and f: "\<And>m. p m \<Longrightarrow> m_id (f m) = m_id m \<and> m_thread (f m) = m_thread m \<and> m_subject (f m) = m_subject m \<and>
      m_body (f m) = m_body m \<and> m_to (f m) = m_to m \<and> (m_del_to m \<longrightarrow> m_del_to (f m))"
    and del: "\<And>m. m \<in> set ms \<Longrightarrow> p m \<Longrightarrow> \<not> q (f m) \<Longrightarrow> \<not> (m_del_from (f m) \<and> m_del_to (f m))"
  shows "mail_inv (delete_where q (update_where p f ms))"
proof -
  have "count_where (in_inbox u) (update_where p f ms) \<le> count_where (in_inbox u) ms" for u
    using f by (intro count_where_update_le) (auto simp: in_inbox_def)
  then have "count_where (in_inbox u) (delete_where q (update_where p f ms)) \<le> MaxInbox" for u
    using inv count_where_delete_le by (meson le_trans mail_inv_def)
  moreover have "list_all message_ok (delete_where q (update_where p f ms))"
    using inv f del by (auto simp: mail_inv_def list_all_iff set_update_where message_ok_def)
  moreover have "distinct (map m_id (delete_where q (update_where p f ms)))"
    using inv f by (intro distinct_map_delete_where) (simp add: map_update_where mail_inv_def)
  ultimately show ?thesis by (simp add: mail_inv_def)
qed

lemma delete_where_False [simp]: "delete_where (\<lambda>_. False) xs = xs"
  and update_where_False [simp]: "update_where (\<lambda>_. False) f xs = xs"
  by (simp_all add: delete_where_def update_where_def)

lemma mail_inv_MarkRead:
  assumes "mail_inv (t_messages d)"
  shows "mail_inv (t_messages (snd (MarkRead E i u d)))"
proof -
  have "mail_inv (delete_where (\<lambda>_. False) (update_where
      (\<lambda>m. m_id m = i \<and> in_inbox u m \<and> m_read m = 0) (\<lambda>m. m\<lparr>m_read := se_now E\<rparr>) (t_messages d)))"
    by (rule mail_inv_update [OF assms])
       (use assms in \<open>auto simp: mail_inv_def list_all_iff message_ok_def\<close>)
  then show ?thesis by (simp add: MarkRead_def Let_def)
qed

lemmas mail_inv_tx = tx_inv [where I = "\<lambda>d. mail_inv (t_messages d)"]

lemma mail_inv_DeleteMessage:
  "mail_inv (t_messages d) \<Longrightarrow> mail_inv (t_messages (snd (DeleteMessage i u d)))"
  unfolding DeleteMessage_def Let_def
  by (rule mail_inv_tx) (auto intro!: mail_inv_update)

lemma mail_inv_delete: "mail_inv ms \<Longrightarrow> mail_inv (delete_where q ms)"
  using mail_inv_update [where p = "\<lambda>_. False" and f = "\<lambda>m. m"] by simp

lemma mail_inv_delete_user: "mail_inv ms \<Longrightarrow> mail_inv (delete_user_mail i ms)"
  unfolding delete_user_mail_def by (rule mail_inv_update) (auto intro: mail_inv_delete)

end
