(* ===== verification/Store_Marks.thy ===== *)
theory Store_Marks
  imports Users_Inv
begin

text \<open>
  The read marks of \<open>boards.go\<close>, \<open>echo.go\<close> and \<open>files.go\<close>: \<open>board_reads\<close>, \<open>echo_reads\<close> and
  \<open>file_reads\<close> are three tables with the same statement, an \<open>INSERT\<close> whose conflict clause
  keeps the larger id. The locale \<open>read_marks\<close> is the contract of the three pairs of
  operations; what it gives (marks only grow, the order of marking does not matter, a caller
  who has marked the newest id has nothing new) is proved once and used for all of them.
\<close>

section \<open>The shared statement\<close>

definition lookup_mark :: "marks \<Rightarrow> int \<Rightarrow> int \<Rightarrow> int" where
  "lookup_mark ms userID areaID = (case map_of ms (userID, areaID) of None \<Rightarrow> 0 | Some i \<Rightarrow> i)"

text \<open>\<open>INSERT ... ON CONFLICT DO UPDATE SET last = max(last, excluded.last)\<close>; the foreign keys
  are checked when a row is inserted.\<close>

definition upsert_mark :: "bool \<Rightarrow> int \<Rightarrow> int \<Rightarrow> int \<Rightarrow> marks \<Rightarrow> error + marks" where
  "upsert_mark fk userID areaID i ms =
     (if map_of ms (userID, areaID) \<noteq> None
      then Inr (update_where (\<lambda>(k, _). k = (userID, areaID)) (\<lambda>(k, v). (k, max v i)) ms)
      else if fk then Inr (ms @ [((userID, areaID), i)]) else Inl ErrConstraint)"

lemma map_of_update_mark:
  "map_of (update_where (\<lambda>(k, _). k = c) (\<lambda>(k, v). (k, max v i)) ms) =
    (\<lambda>k. if k = c then map_option (\<lambda>v. max v i) (map_of ms k) else map_of ms k)"
  by (induction ms) (auto simp: fun_eq_iff)

lemma lookup_upsert:
  assumes "upsert_mark fk u a i ms = Inr ms'" "0 \<le> i"
  shows "lookup_mark ms' v b = (if v = u \<and> b = a then max (lookup_mark ms u a) i else lookup_mark ms v b)"
  using assms
  by (auto simp: upsert_mark_def lookup_mark_def map_of_update_mark map_add_def
      split: if_splits option.splits)

lemma upsert_ok: "fk \<Longrightarrow> \<exists>ms'. upsert_mark fk u a i ms = Inr ms'"
  by (simp add: upsert_mark_def)

definition marks_inv :: "int set \<Rightarrow> int set \<Rightarrow> marks \<Rightarrow> bool" where
  "marks_inv us as ms \<longleftrightarrow> distinct (map fst ms) \<and> (\<forall>((u, a), _) \<in> set ms. u \<in> us \<and> a \<in> as)"

lemma map_fst_update_mark:
  "map fst (update_where (\<lambda>(k, _). k = c) (\<lambda>(k, v). (k, g v)) ms) = map fst ms"
  by (rule map_update_where) auto

lemma marks_inv_upsert:
  assumes "marks_inv us as ms" "upsert_mark (u \<in> us \<and> a \<in> as) u a i ms = Inr ms'"
  shows "marks_inv us as ms'"
proof (cases "map_of ms (u, a)")
  case None
  with assms show ?thesis by (auto simp: upsert_mark_def marks_inv_def map_of_eq_None_iff split: if_splits)
next
  case (Some v)
  with assms have ms': "ms' = update_where (\<lambda>(k, _). k = (u, a)) (\<lambda>(k, v). (k, max v i)) ms"
    by (simp add: upsert_mark_def)
  then have keys: "map fst ms' = map fst ms" using map_fst_update_mark by simp
  moreover have "fst ` set ms' = fst ` set ms" using keys by (metis set_map)
  then have "\<forall>((u, a), _) \<in> set ms'. u \<in> us \<and> a \<in> as"
    using assms(1) by (fastforce simp: marks_inv_def image_iff)
  ultimately show ?thesis using assms(1) by (simp add: marks_inv_def)
qed

lemma marks_inv_delete_user:
  "marks_inv us as ms \<Longrightarrow> marks_inv (us - {i}) as (delete_where (\<lambda>((u, _), _). u = i) ms)"
  by (auto simp: marks_inv_def distinct_map_delete_where)

lemma marks_inv_delete_area:
  "marks_inv us as ms \<Longrightarrow> marks_inv us (as - {i}) (delete_where (\<lambda>((_, a), _). a = i) ms)"
  by (auto simp: marks_inv_def distinct_map_delete_where)

lemma marks_inv_mono: "marks_inv us as ms \<Longrightarrow> us \<subseteq> us' \<Longrightarrow> as \<subseteq> as' \<Longrightarrow> marks_inv us' as' ms"
  by (fastforce simp: marks_inv_def)

lemma foldr_max_Max: "foldr max xs (x::int) = Max (insert x (set xs))"
proof (induction xs)
  case (Cons a xs)
  have "Max (insert x (set (a # xs))) = Max (insert a (insert x (set xs)))"
    by (simp add: insert_commute)
  also have "\<dots> = max a (Max (insert x (set xs)))" by (subst Max_insert) auto
  finally show ?case using Cons by simp
qed simp

section \<open>The contract\<close>

locale read_marks =
  fixes last_read :: "db \<Rightarrow> int \<Rightarrow> int \<Rightarrow> int"
    and mark :: "int \<Rightarrow> int \<Rightarrow> int \<Rightarrow> db \<Rightarrow> (error + unit) \<times> db"
    and known :: "db \<Rightarrow> int \<Rightarrow> int \<Rightarrow> bool"
  assumes mark_known: "known d u a \<Longrightarrow> fst (mark u a i d) = Inr ()"
    and known_mark: "known (snd (mark u a i d)) = known d"
    and mark_ok: "fst (mark u a i d) = Inr () \<Longrightarrow> 0 \<le> i \<Longrightarrow>
      last_read (snd (mark u a i d)) v b = (if v = u \<and> b = a then max (last_read d u a) i else last_read d v b)"
    and mark_err: "fst (mark u a i d) = Inl e \<Longrightarrow> snd (mark u a i d) = d"
begin

lemma mark_mono: "0 \<le> i \<Longrightarrow> last_read d v b \<le> last_read (snd (mark u a i d)) v b"
  by (cases "fst (mark u a i d)") (auto simp: mark_ok mark_err)

lemma mark_other: "0 \<le> i \<Longrightarrow> (v, b) \<noteq> (u, a) \<Longrightarrow> last_read (snd (mark u a i d)) v b = last_read d v b"
  by (cases "fst (mark u a i d)") (auto simp: mark_ok mark_err)

fun mark_all :: "int \<Rightarrow> int \<Rightarrow> int list \<Rightarrow> db \<Rightarrow> db" where
  "mark_all u a [] d = d"
| "mark_all u a (i # is) d = mark_all u a is (snd (mark u a i d))"

lemma last_read_mark_all:
  "known d u a \<Longrightarrow> \<forall>i \<in> set is. 0 \<le> i \<Longrightarrow>
    last_read (mark_all u a is d) u a = foldr max is (last_read d u a)"
proof (induction "is" arbitrary: d)
  case (Cons i "is")
  have "foldr max js (max x i) = max i (foldr max js x)" for js and x :: int
    by (induction js) (auto simp: max.commute max.left_commute)
  with Cons show ?case by (simp add: known_mark mark_ok mark_known)
qed simp

text \<open>The order in which pages were read is not visible in the mark.\<close>

lemma mark_all_order:
  assumes "known d u a" "\<forall>i \<in> set is. 0 \<le> i" "set is = set js"
  shows "last_read (mark_all u a is d) u a = last_read (mark_all u a js d) u a"
proof -
  have "foldr max is x = foldr max js x" for x :: int
    using assms(3) by (simp add: foldr_max_Max)
  moreover have "\<forall>j \<in> set js. 0 \<le> j" using assms by simp
  ultimately show ?thesis using assms by (simp add: last_read_mark_all)
qed

lemma nothing_above_newest:
  assumes "known d u a" "\<forall>x \<in> set xs. 0 \<le> x \<and> x \<le> n" "0 \<le> n"
  shows "filter (\<lambda>x. last_read (snd (mark u a n d)) u a < x) xs = []"
proof -
  have "n \<le> last_read (snd (mark u a n d)) u a" using assms by (simp add: mark_ok mark_known)
  with assms(2) show ?thesis by (fastforce simp: filter_empty_conv)
qed

end

end
