(* ===== verification/Store_Boards.thy ===== *)
theory Store_Boards
  imports Store_Mail Store_Marks
begin

text \<open>
  \<open>internal/store/boards.go\<close> and \<open>community.go\<close>: public boards with posts and per-caller
  read marks, sysop bulletins and the oneliner wall.
\<close>

definition MinBoardNameLen :: nat where "MinBoardNameLen = 2"
definition MaxBoardNameLen :: nat where "MaxBoardNameLen = 30"
definition MaxBoardDescLen :: nat where "MaxBoardDescLen = 60"
definition MaxBoardPosts :: nat where "MaxBoardPosts = 500"
definition MaxOnelinerLen :: nat where "MaxOnelinerLen = 70"

section \<open>Boards and posts (boards.go)\<close>

record board_summary =
  bs_board :: board
  bs_posts :: nat
  bs_new :: nat
  bs_last :: nanos

definition LastRead :: "db \<Rightarrow> int \<Rightarrow> int \<Rightarrow> int" where
  "LastRead d userID boardID = lookup_mark (t_board_reads d) userID boardID"

text \<open>The joined and grouped query: every board with its posts, counted for one caller.\<close>

definition board_summary_of :: "db \<Rightarrow> int \<Rightarrow> board_row \<Rightarrow> board_summary" where
  "board_summary_of d userID b =
     (let ps = filter (\<lambda>p. p_board p = b_id b) (t_posts d)
      in \<lparr>bs_board = board.truncate b, bs_posts = length ps,
          bs_new = count_where (\<lambda>p. LastRead d userID (b_id b) < p_id p \<and> p_author p \<noteq> userID) ps,
          bs_last = (if ps = [] then 0 else Max (set (map p_at ps)))\<rparr>)"

definition Boards :: "db \<Rightarrow> int \<Rightarrow> board_summary list" where
  "Boards d userID = map (board_summary_of d userID) (sort_key b_key (t_boards d))"

definition find_board :: "db \<Rightarrow> int \<Rightarrow> board_row option" where
  "find_board d i = find (\<lambda>b. b_id b = i) (t_boards d)"

definition Board :: "db \<Rightarrow> int \<Rightarrow> error + board" where
  "Board d i = (case find_board d i of None \<Rightarrow> Inl ErrNotFound | Some b \<Rightarrow> Inr (board.truncate b))"

definition CreateBoard ::
    "store_env \<Rightarrow> int \<Rightarrow> string \<Rightarrow> string \<Rightarrow> bool \<Rightarrow> db \<Rightarrow> (error + board) \<times> db" where
  "CreateBoard E actorID name0 description sysopOnly d =
     (let name = Clean name0 MaxBoardNameLen in
      if length (runes name) < MinBoardNameLen
      then (Inl (invalid ''Board names must be 2-30 characters.''), d)
      else tx (\<lambda>d. and_then (requireSysop d actorID) (\<lambda>_.
        let key = to_lower (se_lower E) name in
        if exists_where (\<lambda>b. b_key b = key) (t_boards d)
        then Inl (invalid (''There is already a board called '' @ name @ ''.''))
        else let id = se_rowid E (map b_id (t_boards d));
                 d' = d\<lparr>t_boards := t_boards d @ [\<lparr>b_id = id, b_name = name,
                        b_desc = Clean description MaxBoardDescLen, b_sysop_only = sysopOnly,
                        b_created = se_now E, b_key = key\<rparr>]\<rparr>
             in and_then (Board d' id) (\<lambda>b. Inr (b, d')))) d)"

text \<open>\<open>sysopDelete\<close> of community.go; \<open>n\<close> counts the rows the \<open>DELETE\<close> finds.\<close>

definition sysopDelete :: "int \<Rightarrow> (db \<Rightarrow> nat) \<Rightarrow> (db \<Rightarrow> db) \<Rightarrow> db \<Rightarrow> (error + unit) \<times> db" where
  "sysopDelete actorID n del = tx (\<lambda>d.
     and_then (requireSysop d actorID) (\<lambda>_. and_then (requireRow (n d)) (\<lambda>_. Inr ((), del d))))"

text \<open>Deleting a board cascades to its posts and read marks.\<close>

definition delete_board_rows :: "int \<Rightarrow> db \<Rightarrow> db" where
  "delete_board_rows i d = d\<lparr>
     t_boards := delete_where (\<lambda>b. b_id b = i) (t_boards d),
     t_posts := delete_where (\<lambda>p. p_board p = i) (t_posts d),
     t_board_reads := delete_where (\<lambda>((_, b), _). b = i) (t_board_reads d)\<rparr>"

definition DeleteBoard :: "int \<Rightarrow> int \<Rightarrow> db \<Rightarrow> (error + unit) \<times> db" where
  "DeleteBoard actorID i =
     sysopDelete actorID (\<lambda>d. count_where (\<lambda>b. b_id b = i) (t_boards d)) (delete_board_rows i)"

definition Posts :: "db \<Rightarrow> int \<Rightarrow> post list" where
  "Posts d boardID = rev (sql_limit (int MaxBoardPosts)
     (rev (sort_key p_id (filter (\<lambda>p. p_board p = boardID) (t_posts d)))))"

definition post_thread :: "db \<Rightarrow> int \<Rightarrow> int \<Rightarrow> int \<times> int" where
  "post_thread d boardID replyTo =
     (if replyTo = 0 then (0, 0)
      else case find (\<lambda>p. p_id p = replyTo \<and> p_board p = boardID) (t_posts d) of
          None \<Rightarrow> (0, 0)
        | Some p \<Rightarrow> (p_thread p, replyTo))"

definition insert_post ::
    "store_env \<Rightarrow> int \<Rightarrow> int \<Rightarrow> int \<Rightarrow> int \<Rightarrow> string \<Rightarrow> string \<Rightarrow> post list \<Rightarrow> int \<times> post list" where
  "insert_post E boardID authorID threadID replyTo subject body ps =
     (let id = se_rowid E (map p_id ps);
          ps' = ps @ [\<lparr>p_id = id, p_board = boardID, p_author = authorID, p_thread = threadID,
                       p_reply_to = replyTo, p_subject = subject, p_body = body, p_at = se_now E\<rparr>]
      in (id, if threadID = 0
              then update_where (\<lambda>p. p_id p = id) (\<lambda>p. p\<lparr>p_thread := p_id p\<rparr>) ps' else ps'))"

definition AddPost ::
    "store_env \<Rightarrow> int \<Rightarrow> int \<Rightarrow> string \<Rightarrow> string \<Rightarrow> int \<Rightarrow> db \<Rightarrow> (error + post) \<times> db" where
  "AddPost E boardID authorID subject0 body0 replyTo0 d =
     (case cleanLetter subject0 body0 of
        Inl e \<Rightarrow> (Inl e, d)
      | Inr (subject, body) \<Rightarrow> tx (\<lambda>d.
          and_then (getUser d authorID) (\<lambda>author.
          case find_board d boardID of
            None \<Rightarrow> Inl ErrNotFound
          | Some b \<Rightarrow>
              if b_sysop_only b \<and> \<not> u_sysop author then Inl ErrForbidden
              else if \<not> u_validated author then Inl ErrNotValidated
              else let (threadID, replyTo) = post_thread d boardID replyTo0;
                       (id, ps) = insert_post E boardID authorID threadID replyTo subject body (t_posts d)
                   in case find (\<lambda>p. p_id p = id) ps of
                        None \<Rightarrow> Inl ErrInternal
                      | Some p \<Rightarrow> Inr (p, d\<lparr>t_posts := ps\<rparr>))) d)"

definition DeletePost :: "int \<Rightarrow> int \<Rightarrow> db \<Rightarrow> (error + unit) \<times> db" where
  "DeletePost postID userID = tx (\<lambda>d.
     and_then (getUser d userID) (\<lambda>u.
     case find (\<lambda>p. p_id p = postID) (t_posts d) of
       None \<Rightarrow> Inl ErrNotFound
     | Some p \<Rightarrow>
         if p_author p \<noteq> userID \<and> \<not> u_sysop u then Inl ErrForbidden
         else Inr ((), d\<lparr>t_posts := delete_where (\<lambda>p. p_id p = postID) (t_posts d)\<rparr>)))"

text \<open>\<open>MarkBoardRead\<close> and \<open>markBoardRead\<close>.\<close>

definition board_known :: "db \<Rightarrow> int \<Rightarrow> int \<Rightarrow> bool" where
  "board_known d userID boardID \<longleftrightarrow>
     userID \<in> set (map u_id (t_users d)) \<and> boardID \<in> set (map b_id (t_boards d))"

definition MarkBoardRead :: "int \<Rightarrow> int \<Rightarrow> int \<Rightarrow> db \<Rightarrow> (error + unit) \<times> db" where
  "MarkBoardRead userID boardID postID d =
     (case upsert_mark (board_known d userID boardID) userID boardID postID (t_board_reads d) of
        Inl e \<Rightarrow> (Inl e, d) | Inr ms \<Rightarrow> (Inr (), d\<lparr>t_board_reads := ms\<rparr>))"

interpretation board_marks: read_marks LastRead MarkBoardRead board_known
proof
  fix d u a i v b e
  show "board_known d u a \<Longrightarrow> fst (MarkBoardRead u a i d) = Inr ()"
    using upsert_ok [of True] by (auto simp: MarkBoardRead_def upsert_mark_def)
  show "board_known (snd (MarkBoardRead u a i d)) = board_known d"
    by (auto simp: MarkBoardRead_def board_known_def fun_eq_iff split: sum.splits)
  show "fst (MarkBoardRead u a i d) = Inr () \<Longrightarrow> 0 \<le> i \<Longrightarrow>
      LastRead (snd (MarkBoardRead u a i d)) v b = (if v = u \<and> b = a then max (LastRead d u a) i else LastRead d v b)"
    by (auto simp: MarkBoardRead_def LastRead_def lookup_upsert split: sum.splits)
  show "fst (MarkBoardRead u a i d) = Inl e \<Longrightarrow> snd (MarkBoardRead u a i d) = d"
    by (auto simp: MarkBoardRead_def split: sum.splits)
qed

section \<open>Bulletins and the wall (community.go)\<close>

definition AddBulletin :: "store_env \<Rightarrow> int \<Rightarrow> string \<Rightarrow> string \<Rightarrow> db \<Rightarrow> (error + bulletin) \<times> db" where
  "AddBulletin E authorID title0 body0 d =
     (case cleanLetter title0 body0 of
        Inl e \<Rightarrow> (Inl e, d)
      | Inr (title, body) \<Rightarrow> tx (\<lambda>d. and_then (requireSysop d authorID) (\<lambda>_.
          let b = \<lparr>bu_id = se_rowid E (map bu_id (t_bulletins d)), bu_author = authorID,
                   bu_title = title, bu_body = body, bu_at = se_now E\<rparr>
          in Inr (b, d\<lparr>t_bulletins := t_bulletins d @ [b]\<rparr>))) d)"

definition Bulletins :: "db \<Rightarrow> bulletin list" where
  "Bulletins d = rev (sort_key bu_id (t_bulletins d))"

definition BulletinsSince :: "db \<Rightarrow> nanos \<Rightarrow> nat" where
  "BulletinsSince d t = count_where (\<lambda>b. t < bu_at b) (t_bulletins d)"

definition DeleteBulletin :: "int \<Rightarrow> int \<Rightarrow> db \<Rightarrow> (error + unit) \<times> db" where
  "DeleteBulletin actorID i =
     sysopDelete actorID (\<lambda>d. count_where (\<lambda>b. bu_id b = i) (t_bulletins d))
       (\<lambda>d. d\<lparr>t_bulletins := delete_where (\<lambda>b. bu_id b = i) (t_bulletins d)\<rparr>)"

record oneliner = oneliner_row +
  o_handle :: string

definition AddOneliner :: "store_env \<Rightarrow> int \<Rightarrow> string \<Rightarrow> db \<Rightarrow> (error + oneliner) \<times> db" where
  "AddOneliner E authorID text0 d =
     (let text = Clean text0 MaxOnelinerLen in
      if text = [] then (Inl (invalid ''Say something first.''), d)
      else case UserByID d authorID of
          Inl e \<Rightarrow> (Inl e, d)
        | Inr u \<Rightarrow>
            if \<not> u_validated u then (Inl ErrNotValidated, d)
            else let id = se_rowid E (map o_id (t_oneliners d));
                     row = \<lparr>o_id = id, o_author = authorID, o_text = text, o_at = se_now E\<rparr>
                 in (Inr (oneliner_row.extend row \<lparr>o_handle = u_handle u\<rparr>),
                     d\<lparr>t_oneliners := t_oneliners d @ [row]\<rparr>))"

definition with_handle :: "db \<Rightarrow> oneliner_row \<Rightarrow> oneliner" where
  "with_handle d o1 = oneliner_row.extend o1
     \<lparr>o_handle = (case find_user d (o_author o1) of None \<Rightarrow> [] | Some u \<Rightarrow> u_handle u)\<rparr>"

definition Oneliners :: "db \<Rightarrow> int \<Rightarrow> oneliner list" where
  "Oneliners d n = rev (map (with_handle d) (sql_limit n (rev (sort_key o_id (t_oneliners d)))))"

definition DeleteOneliner :: "int \<Rightarrow> int \<Rightarrow> db \<Rightarrow> (error + unit) \<times> db" where
  "DeleteOneliner actorID i =
     sysopDelete actorID (\<lambda>d. count_where (\<lambda>o1. o_id o1 = i) (t_oneliners d))
       (\<lambda>d. d\<lparr>t_oneliners := delete_where (\<lambda>o1. o_id o1 = i) (t_oneliners d)\<rparr>)"

end
