(* ===== verification/Store_Demo.thy ===== *)
theory Store_Demo
  imports Store_Users
begin

text \<open>
  A concrete environment and two accounts, at which the theorems about the store are applied:
  row ids as SQLite allocates them, a key derivation that appends the salt, hashes that are the
  identity.
\<close>

definition demo_env :: store_env where
  "demo_env = \<lparr>se_now = 1000, se_kdfIter = 1, se_approveNew = False, se_rowid = sqlite_rowid,
     se_salt = Some ''s'', se_kdf = (\<lambda>p s n. Some (p @ s)), se_code = 7, se_sha256 = (\<lambda>s. s),
     se_sha1 = (\<lambda>s. s), se_lower = (\<lambda>r. r), se_upper = (\<lambda>r. r), se_mail_parse = (\<lambda>s. Some ([], s))\<rparr>"

lemma demo_env_fresh: "fresh_rowids demo_env"
  by (simp add: demo_env_def fresh_rowids_def sqlite_rowid_fresh)

lemma demo_env_rowid [simp]:
  "se_now demo_env = 1000" "se_kdfIter demo_env = 1" "\<not> se_approveNew demo_env" "se_rowid demo_env = sqlite_rowid"
  "se_salt demo_env = Some ''s''" "se_kdf demo_env p s n = Some (p @ s)" "se_code demo_env = 7"
  "se_sha256 demo_env x = x" "se_sha1 demo_env x = x" "se_mail_parse demo_env x = Some ([], x)"
  by (simp_all add: demo_env_def)

definition demo_user :: "int \<Rightarrow> string \<Rightarrow> bool \<Rightarrow> user_row" where
  "demo_user i h sysop = \<lparr>u_id = i, u_handle = h, u_location = [], u_sysop = sysop, u_locked = False,
     u_created = 1, u_last_login = 0, u_calls = 0, u_email = [], u_email_mode = 0, u_validated = True,
     u_handle_key = h, u_pass_hash = ''pws'', u_salt = ''s'', u_kdf_iter = 1\<rparr>"

definition demo_db :: db where
  "demo_db = empty_db\<lparr>t_users := [demo_user 1 ''ann'' True, demo_user 2 ''bob'' False]\<rparr>"

lemmas [store_defs] = demo_db_def demo_user_def empty_db_def tx_def getUser_def find_user_def
  sqlite_rowid_def user.defs message.defs isBlocked_def requireSysop_def requireRow_def UserByID_def

text \<open>A lower-case graphic handle is its own key.\<close>

lemma handleKey_plain:
  "graphic h \<Longrightarrow> list_all (\<lambda>c. byte_val c < 65 \<or> 90 < byte_val c) h \<Longrightarrow> handleKey E h = h"
  by (simp add: handleKey_def trim_space_graphic to_lower_ascii graphic_ascii sql_lower_id)

lemma demo_find_user:
  "find_user demo_db 1 = Some (demo_user 1 ''ann'' True)" "find_user demo_db 2 = Some (demo_user 2 ''bob'' False)"
  "find_user demo_db 3 = None"
  by (simp_all add: store_defs)

end
