(* ===== verification/Mail_Props.thy ===== *)
theory Mail_Props
  imports Store_Mail Store_Demo
begin

text \<open>
  What callers can rely on of private mail: a letter that is accepted arrives and nobody
  else's mailbox changes, a refused one changes nothing, reading is limited to the two
  correspondents, and deleting is one-sided.
\<close>

lemma map_insort_key: "map f (insort_key (\<lambda>x. g (f x)) x xs) = insort_key g (f x) (map f xs)"
  by (induction xs) auto

lemma map_sort_key: "map f (sort_key (\<lambda>x. g (f x)) xs) = sort_key g (map f xs)"
  by (induction xs) (simp_all add: map_insort_key)

lemma queryMessages_eq:
  "queryMessages d p = sort_key m_id (map message.truncate (filter p (t_messages d)))"
  unfolding queryMessages_def using map_sort_key [of message.truncate m_id] by simp

lemma set_queryMessages: "set (queryMessages d p) = message.truncate ` {m \<in> set (t_messages d). p m}"
  by (simp add: queryMessages_eq)

lemma length_queryMessages: "length (queryMessages d p) = length (filter p (t_messages d))"
  by (simp add: queryMessages_eq)

text \<open>What one user sees is a function of the rows, seen through the columns a letter has.\<close>

lemma queryMessages_cong:
  "map message.truncate (filter p (t_messages d)) = map message.truncate (filter q (t_messages d')) \<Longrightarrow>
    queryMessages d p = queryMessages d' q"
  by (simp add: queryMessages_eq)

lemma filter_update_delete:
  assumes "\<And>m. m \<in> set ms \<Longrightarrow> p m \<Longrightarrow> (v (f m) \<and> \<not> q (f m)) = v m \<and> (v m \<longrightarrow> g (f m) = g m)"
    and "\<And>m. m \<in> set ms \<Longrightarrow> \<not> p m \<Longrightarrow> v m \<Longrightarrow> \<not> q m"
  shows "map g (filter v (delete_where q (update_where p f ms))) = map g (filter v ms)"
  using assms by (induction ms) auto

lemma SendMessage_new:
  assumes fr: "fresh_rowids E" and sent: "SendMessage E f t s b r d = (Inr m, d')"
  obtains s' b' ur vr th p where
    "find_user d f = Some ur" "find_user d t = Some vr"
    "u_validated ur \<or> u_sysop vr" "u_sysop ur \<or> \<not> isBlocked d t f"
    "count_where (in_inbox t) (t_messages d) < MaxInbox" "messageThread d f r = (th, p)"
    "m = message.truncate (new_message E f t th p s' b' (t_messages d))"
    "d' = d\<lparr>t_messages := t_messages d @ [new_message E f t th p s' b' (t_messages d)]\<rparr>"
proof (rule SendMessage_cases [of E f t s b r d])
  fix s' b' ur vr th p id ms m1
  assume u: "find_user d f = Some ur" "find_user d t = Some vr"
      "u_validated ur \<or> u_sysop vr" "u_sysop ur \<or> \<not> isBlocked d t f"
      "count_where (in_inbox t) (t_messages d) < MaxInbox" "messageThread d f r = (th, p)"
    and ins: "insert_message E f t th p s' b' (t_messages d) = (id, ms)"
    and m1: "find (\<lambda>m. m_id m = id) ms = Some m1"
    and res: "SendMessage E f t s b r d = (Inr (message.truncate m1), d\<lparr>t_messages := ms\<rparr>)"
  let ?n = "new_message E f t th p s' b' (t_messages d)"
  have "m_id ?n = se_rowid E (map m_id (t_messages d))" by (simp add: new_message_def)
  then have ms: "ms = t_messages d @ [?n]" and id: "id = m_id ?n"
    using ins unfolding insert_message_eq [OF fr] by auto
  have "find (\<lambda>m. m_id m = id) (t_messages d) = None"
    using fresh_rowidsD(2) [OF fr, of _ "t_messages d" m_id]
    by (auto simp: id new_message_def find_None_iff)
  with m1 have "m1 = ?n" by (simp add: ms find_append_None id)
  with res sent that [OF u] show thesis by (simp add: ms)
qed (use sent in auto)

text \<open>
  Claim C3. A letter \<open>SendMessage\<close> accepts is from an existing account to an existing
  account with room in its inbox, from an approved caller or to a sysop, and not from
  someone the recipient blocked unless the sender is a sysop. It is then in the recipient's
  inbox, unread, and in the sender's outbox; no other inbox or outbox changes.
\<close>

theorem SendMessage_delivers:
  assumes "fresh_rowids E" and sent: "SendMessage E f t s b r d = (Inr m, d')"
  shows "(\<exists>ur vr. find_user d f = Some ur \<and> find_user d t = Some vr \<and>
      (u_validated ur \<or> u_sysop vr) \<and> (u_sysop ur \<or> \<not> isBlocked d t f)) \<and>
    length (Inbox d t) < MaxInbox \<and> m_from m = f \<and> m_to m = t \<and> \<not> IsRead m \<and>
    m \<in> set (Inbox d' t) \<and> m \<in> set (Outbox d' f) \<and>
    (\<forall>u. u \<noteq> t \<longrightarrow> Inbox d' u = Inbox d u) \<and> (\<forall>u. u \<noteq> f \<longrightarrow> Outbox d' u = Outbox d u)"
  using assms(1) sent
proof (rule SendMessage_new)
  fix s' b' ur vr th p
  assume "find_user d f = Some ur" "find_user d t = Some vr"
    "u_validated ur \<or> u_sysop vr" "u_sysop ur \<or> \<not> isBlocked d t f"
    "count_where (in_inbox t) (t_messages d) < MaxInbox"
    "m = message.truncate (new_message E f t th p s' b' (t_messages d))"
    "d' = d\<lparr>t_messages := t_messages d @ [new_message E f t th p s' b' (t_messages d)]\<rparr>"
  then show ?thesis
    by (auto simp: Inbox_def Outbox_def set_queryMessages in_inbox_def new_message_def IsRead_def
        count_where_def length_queryMessages intro!: queryMessages_cong)
qed

text \<open>
  Claim C40. A letter that is refused, for whatever reason, leaves the whole database as it
  was; and a letter to somebody who blocked the (non-sysop) sender is always refused.
\<close>

theorem SendMessage_refused:
  "(\<forall>e d'. SendMessage E f t s b r d = (Inl e, d') \<longrightarrow> d' = d) \<and>
   (isBlocked d t f \<and> find_user d f = Some ur \<and> \<not> u_sysop ur \<longrightarrow>
     (\<exists>e. SendMessage E f t s b r d = (Inl e, d)))"
  by (rule SendMessage_cases [of E f t s b r d]) auto


text \<open>
  A caller who deletes a letter no longer has it in the inbox or the outbox, keeps
  every other letter, and the other side's inbox and outbox are exactly as before.
\<close>

theorem DeleteMessage_one_sided:
  assumes "DeleteMessage i u d = (Inr (), d')" and "v \<noteq> u"
  shows "(\<forall>m \<in> set (Inbox d' u) \<union> set (Outbox d' u). m_id m \<noteq> i) \<and>
    filter (\<lambda>m. m_id m \<noteq> i) (Inbox d u) = Inbox d' u \<and>
    filter (\<lambda>m. m_id m \<noteq> i) (Outbox d u) = Outbox d' u \<and>
    Inbox d' v = Inbox d v \<and> Outbox d' v = Outbox d v"
proof -
  define p where "p = (\<lambda>m. m_id m = i \<and> visibleTo u m)"
  define g where "g = (\<lambda>m::message_row. m\<lparr>m_del_from := m_del_from m \<or> m_from m = u, m_del_to := m_del_to m \<or> m_to m = u\<rparr>)"
  define q where "q = (\<lambda>m::message_row. m_id m = i \<and> m_del_from m \<and> m_del_to m)"
  have d': "t_messages d' = delete_where q (update_where p g (t_messages d))"
    using assms(1) by (auto simp: DeleteMessage_def Let_def p_def g_def q_def)
  have tr: "message.truncate (g m) = message.truncate m" for m
    by (simp add: g_def message.defs)
  have other: "Inbox d' v = Inbox d v" "Outbox d' v = Outbox d v"
    unfolding Inbox_def Outbox_def using assms(2)
    by (auto simp: d' tr p_def g_def q_def in_inbox_def intro!: queryMessages_cong filter_update_delete)
  have own: "map message.truncate (filter w (t_messages d')) =
      map message.truncate (filter (\<lambda>m. w m \<and> m_id m \<noteq> i) (t_messages d))"
    if w: "w = in_inbox u \<or> w = (\<lambda>m. m_from m = u \<and> \<not> m_del_from m)" for w
  proof -
    have "filter w (delete_where q (update_where p g ms)) = filter (\<lambda>m. w m \<and> m_id m \<noteq> i) ms" for ms
      using w by (induction ms) (auto simp: p_def g_def q_def in_inbox_def visibleTo_def)
    then show ?thesis by (simp add: d')
  qed
  have "filter (\<lambda>m. m_id m \<noteq> i) (queryMessages d w) = queryMessages d' w"
    if w: "w = in_inbox u \<or> w = (\<lambda>m. m_from m = u \<and> \<not> m_del_from m)" for w
  proof -
    have "filter (\<lambda>m. m_id m \<noteq> i) (map message.truncate (filter w (t_messages d))) =
        map message.truncate (filter (\<lambda>m. w m \<and> m_id m \<noteq> i) (t_messages d))"
      by (simp add: filter_map comp_def conj_commute)
    then show ?thesis by (simp add: queryMessages_eq filter_sort own [OF w])
  qed
  then have eq: "filter (\<lambda>m. m_id m \<noteq> i) (Inbox d u) = Inbox d' u"
    "filter (\<lambda>m. m_id m \<noteq> i) (Outbox d u) = Outbox d' u"
    by (simp_all add: Inbox_def Outbox_def)
  then have "\<forall>m \<in> set (Inbox d' u) \<union> set (Outbox d' u). m_id m \<noteq> i"
    by (metis (mono_tags, lifting) Un_iff mem_Collect_eq set_filter)
  with eq other show ?thesis by simp
qed

text \<open>
  A reply only ever joins a conversation the sender can see: the parent a sent
  letter names is 0 or a letter visible to its sender, and the thread it joins is that
  letter's, or a new one of its own.
\<close>

theorem SendMessage_thread:
  assumes "fresh_rowids E" "SendMessage E f t s b r d = (Inr m, d')" "mail_inv (t_messages d)"
  shows "(m_reply_to m = 0 \<and> m_thread m = m_id m) \<or>
    (\<exists>x \<in> set (t_messages d). m_id x = r \<and> m_reply_to m = r \<and> visibleTo f x \<and> m_thread m = m_thread x)"
  using assms(1,2)
proof (rule SendMessage_new)
  fix s' b' th p
  assume th: "messageThread d f r = (th, p)"
    and "m = message.truncate (new_message E f t th p s' b' (t_messages d))"
  moreover have "m_thread x \<noteq> 0" if "x \<in> set (t_messages d)" for x
    using assms(3) that by (auto simp: mail_inv_def list_all_iff message_ok_def)
  ultimately show ?thesis
    by (auto simp: messageThread_def new_message_def split: if_splits option.splits dest!: find_Some_in)
qed

section \<open>The theorems at work\<close>

definition demo_letter :: message where
  "demo_letter = \<lparr>m_id = 1, m_from = 2, m_to = 1, m_thread = 1, m_reply_to = 0, m_subject = ''hi'',
     m_body = ''yo'', m_sent = 1000, m_read = 0\<rparr>"

definition demo_mail_db :: db where
  "demo_mail_db = demo_db\<lparr>t_messages := [message.extend demo_letter \<lparr>m_del_from = False, m_del_to = False\<rparr>]\<rparr>"

lemma demo_clean: "cleanLetter ''hi'' ''yo'' = Inr (''hi'', ''yo'')"
  by (rule cleanLetter_graphic) (simp_all add: graphic_def byte_val_def MaxSubjectLen_def MaxBodyBytes_def)

lemma demo_send: "SendMessage demo_env 2 1 ''hi'' ''yo'' 0 demo_db = (Inr demo_letter, demo_mail_db)"
  by (simp add: SendMessage_def demo_clean MaxInbox_def messageThread_def insert_message_def demo_letter_def
      demo_mail_db_def store_defs)

theorem SendMessage_delivers_witness:
  "demo_letter \<in> set (Inbox demo_mail_db 1) \<and> demo_letter \<in> set (Outbox demo_mail_db 2)"
  using SendMessage_delivers [OF demo_env_fresh demo_send] by blast

theorem SendMessage_refused_witness:
  "\<exists>e. SendMessage demo_env 2 1 ''hi'' ''yo'' 0 (demo_db\<lparr>t_blocks := [(1, 2)]\<rparr>) =
     (Inl e, demo_db\<lparr>t_blocks := [(1, 2)]\<rparr>)"
  using SendMessage_refused [of demo_env 2 1 "''hi''" "''yo''" 0 "demo_db\<lparr>t_blocks := [(1, 2)]\<rparr>" "demo_user 2 ''bob'' False"]
  by (simp add: store_defs)

lemma demo_inbox: "Inbox demo_mail_db 1 = [demo_letter]"
  by (simp add: Inbox_def queryMessages_def in_inbox_def demo_mail_db_def demo_letter_def message.defs)


theorem DeleteMessage_one_sided_witness:
  "\<exists>d'. DeleteMessage 1 1 demo_mail_db = (Inr (), d') \<and> Inbox d' 1 = [] \<and>
     Outbox d' 2 = Outbox demo_mail_db 2"
proof -
  obtain d' where del: "DeleteMessage 1 1 demo_mail_db = (Inr (), d')"
    by (simp add: DeleteMessage_def Let_def visibleTo_def requireRow_def tx_def demo_mail_db_def demo_letter_def message.defs)
  have "filter (\<lambda>m. m_id m \<noteq> 1) (Inbox demo_mail_db 1) = Inbox d' 1 \<and> Outbox d' 2 = Outbox demo_mail_db 2"
    using DeleteMessage_one_sided [OF del, of 2] by simp
  with del show ?thesis by (auto simp: demo_inbox demo_letter_def)
qed

theorem SendMessage_thread_witness: "m_thread demo_letter = m_id demo_letter"
  using SendMessage_thread [OF demo_env_fresh demo_send]
  by (auto simp: mail_inv_def demo_db_def empty_db_def)

end
