(* ===== verification/Boards_Props.thy ===== *)
theory Boards_Props
  imports Store_Boards Mail_Props
begin

text \<open>
  Invariants and theorems of the public areas: boards and posts keep their keys and foreign
  keys, threads never leave their board, posting needs the rights the board asks for, only the
  author or a sysop removes a post, and a caller who has read the newest post has nothing new.
\<close>

section \<open>Invariants\<close>

definition board_ok :: "board_row \<Rightarrow> bool" where
  "board_ok b \<longleftrightarrow> 0 < b_id b \<and> text_of printable (b_name b) \<and>
     MinBoardNameLen \<le> length (runes (b_name b)) \<and> length (runes (b_name b)) \<le> MaxBoardNameLen"

definition boards_inv :: "board_row list \<Rightarrow> bool" where
  "boards_inv bs \<longleftrightarrow> distinct (map b_id bs) \<and> distinct (map b_key bs) \<and> list_all board_ok bs"

definition post_ok :: "int set \<Rightarrow> post \<Rightarrow> bool" where
  "post_ok bids p \<longleftrightarrow> 0 < p_id p \<and> 0 < p_thread p \<and> p_board p \<in> bids \<and>
     subject_ok (p_subject p) \<and> body_ok (p_body p)"

definition posts_inv :: "int set \<Rightarrow> post list \<Rightarrow> bool" where
  "posts_inv bids ps \<longleftrightarrow> distinct (map p_id ps) \<and> list_all (post_ok bids) ps"

definition threads_inv :: "post list \<Rightarrow> bool" where
  "threads_inv ps \<longleftrightarrow> (\<forall>p \<in> set ps. p_thread p \<le> p_id p \<and>
     (\<forall>q \<in> set ps. p_thread p = p_thread q \<longrightarrow> p_board p = p_board q))"

definition new_post ::
    "store_env \<Rightarrow> int \<Rightarrow> int \<Rightarrow> int \<Rightarrow> int \<Rightarrow> string \<Rightarrow> string \<Rightarrow> post list \<Rightarrow> post" where
  "new_post E b a th r s t ps =
     \<lparr>p_id = se_rowid E (map p_id ps), p_board = b, p_author = a,
      p_thread = (if th = 0 then se_rowid E (map p_id ps) else th), p_reply_to = r,
      p_subject = s, p_body = t, p_at = se_now E\<rparr>"

lemma insert_post_eq:
  assumes "fresh_rowids E"
  shows "insert_post E b a th r s t ps = (se_rowid E (map p_id ps), ps @ [new_post E b a th r s t ps])"
proof -
  have "\<not> (\<exists>p \<in> set ps. p_id p = se_rowid E (map p_id ps))"
    using fresh_rowidsD(2) [OF assms, of _ ps p_id] by auto
  then have "update_where (\<lambda>p. p_id p = se_rowid E (map p_id ps)) g ps = ps" for g
    by (rule update_where_none)
  then show ?thesis by (simp add: insert_post_def Let_def new_post_def update_where_def)
qed

lemma AddPost_new:
  assumes fr: "fresh_rowids E" and ok: "AddPost E b a s t r d = (Inr p, d')"
  obtains s' t' u bd th pa where
    "cleanLetter s t = Inr (s', t')" "find_user d a = Some u" "find_board d b = Some bd"
    "b_sysop_only bd \<longrightarrow> u_sysop u" "u_validated u" "post_thread d b r = (th, pa)"
    "p = new_post E b a th pa s' t' (t_posts d)" "d' = d\<lparr>t_posts := t_posts d @ [p]\<rparr>"
proof -
  from ok obtain s' t' u bd th pa id ps where f:
    "cleanLetter s t = Inr (s', t')" "find_user d a = Some u" "find_board d b = Some bd"
    "b_sysop_only bd \<longrightarrow> u_sysop u" "u_validated u" "post_thread d b r = (th, pa)"
    and ins: "insert_post E b a th pa s' t' (t_posts d) = (id, ps)"
    and p: "find (\<lambda>p. p_id p = id) ps = Some p" and d': "d' = d\<lparr>t_posts := ps\<rparr>"
    by (auto simp: AddPost_def getUser_Inr_iff split: sum.splits if_splits prod.splits option.splits)
  let ?n = "new_post E b a th pa s' t' (t_posts d)"
  have "p_id ?n = se_rowid E (map p_id (t_posts d))" by (simp add: new_post_def)
  then have ps: "ps = t_posts d @ [?n]" and id: "id = p_id ?n"
    using ins unfolding insert_post_eq [OF fr] by auto
  have "find (\<lambda>p. p_id p = id) (t_posts d) = None"
    using fresh_rowidsD(2) [OF fr, of _ "t_posts d" p_id] by (auto simp: id new_post_def find_None_iff)
  with p have "p = ?n" by (simp add: ps find_append_None id)
  with f d' ps that show thesis by simp
qed

lemma AddPost_error: "fst (AddPost E b a s t r d) = Inl e \<Longrightarrow> snd (AddPost E b a s t r d) = d"
  by (cases "AddPost E b a s t r d") (auto simp: AddPost_def split: sum.splits)

lemma AddPost_outcome:
  obtains e where "AddPost E b a s t r d = (Inl e, d)" | p d' where "AddPost E b a s t r d = (Inr p, d')"
  using AddPost_error [of E b a s t r d]
  by (cases "AddPost E b a s t r d"; cases "fst (AddPost E b a s t r d)") auto

lemma find_board_Some: "find_board d i = Some b \<Longrightarrow> b \<in> set (t_boards d) \<and> b_id b = i"
  by (auto simp: find_board_def dest: find_Some_in)

lemma post_thread_cases:
  "post_thread d b r = (th, pa) \<Longrightarrow>
    (th = 0 \<and> pa = 0) \<or> (\<exists>q \<in> set (t_posts d). p_id q = r \<and> p_board q = b \<and> th = p_thread q \<and> pa = r)"
  by (auto simp: post_thread_def split: if_splits option.splits dest!: find_Some_in)

lemma posts_inv_AddPost:
  assumes inv: "posts_inv (b_id ` set (t_boards d)) (t_posts d)" and fr: "fresh_rowids E"
  shows "posts_inv (b_id ` set (t_boards d)) (t_posts (snd (AddPost E b a s t r d)))"
proof (rule AddPost_outcome [of E b a s t r d])
  fix p d' assume res: "AddPost E b a s t r d = (Inr p, d')"
  obtain s' t' bd th pa where c: "cleanLetter s t = Inr (s', t')" and bd: "find_board d b = Some bd"
    and th: "post_thread d b r = (th, pa)" and p: "p = new_post E b a th pa s' t' (t_posts d)"
    and d': "d' = d\<lparr>t_posts := t_posts d @ [p]\<rparr>"
    by (rule AddPost_new [OF fr res]) blast
  have "th = 0 \<or> 0 < th"
    using post_thread_cases [OF th] inv by (auto simp: posts_inv_def list_all_iff post_ok_def)
  moreover have "b \<in> b_id ` set (t_boards d)" using find_board_Some [OF bd] by auto
  ultimately have "post_ok (b_id ` set (t_boards d)) p"
    using cleanLetter_ok [OF c] fresh_rowidsD(1) [OF fr] by (auto simp: post_ok_def p new_post_def)
  moreover have "p_id p \<notin> p_id ` set (t_posts d)"
    using fresh_rowids_image [OF fr] by (simp add: p new_post_def)
  ultimately show ?thesis using inv by (auto simp: res d' posts_inv_def)
qed (use inv in auto)

lemma posts_inv_delete: "posts_inv bids ps \<Longrightarrow> posts_inv bids (delete_where q ps)"
  by (auto simp: posts_inv_def distinct_map_delete_where list_all_iff)

lemma posts_inv_board: "posts_inv bids ps \<Longrightarrow> posts_inv (bids - {i}) (delete_where (\<lambda>p. p_board p = i) ps)"
  by (auto simp: posts_inv_def distinct_map_delete_where list_all_iff post_ok_def)

lemma posts_inv_mono: "posts_inv bids ps \<Longrightarrow> bids \<subseteq> bids' \<Longrightarrow> posts_inv bids' ps"
  by (auto simp: posts_inv_def list_all_iff post_ok_def)

lemma CreateBoard_outcome:
  obtains e where "CreateBoard E a n ds so d = (Inl e, d)"
  | b x where "CreateBoard E a n ds so d = (Inr b, d\<lparr>t_boards := t_boards d @ [x]\<rparr>)"
      "requireSysop d a = Inr ()" "b_id x = se_rowid E (map b_id (t_boards d))"
      "\<forall>y \<in> set (t_boards d). b_key y \<noteq> b_key x" "b_name x = Clean n MaxBoardNameLen"
      "MinBoardNameLen \<le> length (runes (b_name x))" "b_sysop_only x = so"
proof (cases "fst (CreateBoard E a n ds so d)")
  case (Inl e)
  then have "CreateBoard E a n ds so d = (Inl e, d)"
    by (cases "CreateBoard E a n ds so d") (auto simp: CreateBoard_def Let_def split: if_splits)
  then show ?thesis by (rule that(1))
next
  case (Inr b)
  then obtain d' where res: "CreateBoard E a n ds so d = (Inr b, d')" by (metis prod.collapse)
  then show ?thesis
    by (intro that(2) [of b "\<lparr>b_id = se_rowid E (map b_id (t_boards d)), b_name = Clean n MaxBoardNameLen,
        b_desc = Clean ds MaxBoardDescLen, b_sysop_only = so, b_created = se_now E,
        b_key = to_lower (se_lower E) (Clean n MaxBoardNameLen)\<rparr>"])
       (auto simp: CreateBoard_def Let_def split: if_splits)
qed

lemma boards_inv_CreateBoard:
  assumes inv: "boards_inv (t_boards d)" and fr: "fresh_rowids E"
  shows "boards_inv (t_boards (snd (CreateBoard E a n ds so d)))"
proof (rule CreateBoard_outcome [of E a n ds so d])
  fix b x assume "CreateBoard E a n ds so d = (Inr b, d\<lparr>t_boards := t_boards d @ [x]\<rparr>)"
    "b_id x = se_rowid E (map b_id (t_boards d))" "\<forall>y \<in> set (t_boards d). b_key y \<noteq> b_key x"
    "b_name x = Clean n MaxBoardNameLen" "MinBoardNameLen \<le> length (runes (b_name x))"
  then show ?thesis
    using inv fresh_rowidsD(1) [OF fr] fresh_rowids_image [OF fr, of b_id "t_boards d"]
      length_runes_Clean [of n MaxBoardNameLen]
    by (auto simp: boards_inv_def board_ok_def text_of_Clean)
qed (use inv in auto)

lemma boards_inv_delete: "boards_inv bs \<Longrightarrow> boards_inv (delete_where q bs)"
  by (auto simp: boards_inv_def distinct_map_delete_where list_all_iff)

lemma sqlite_env_fresh: "se_rowid E = sqlite_rowid \<Longrightarrow> fresh_rowids E"
  by (simp add: fresh_rowids_def sqlite_rowid_fresh)

lemma sqlite_rowid_gt: "x \<in> set rows \<Longrightarrow> key x < sqlite_rowid (map key rows)"
  using foldr_max_ge(1) [of "key x" "map key rows"] by (auto simp: sqlite_rowid_def)

lemma threads_inv_snoc:
  assumes inv: "threads_inv ps" and "p_thread p \<le> p_id p"
    and same: "\<forall>q \<in> set ps. p_thread q = p_thread p \<longrightarrow> p_board q = p_board p"
  shows "threads_inv (ps @ [p])"
proof -
  have old: "p_board q = p_board x" if "q \<in> set ps" "x \<in> set ps" "p_thread q = p_thread x" for q x
    using inv that unfolding threads_inv_def by blast
  show ?thesis unfolding threads_inv_def
  proof (intro ballI conjI impI)
    fix q assume "q \<in> set (ps @ [p])"
    moreover have "\<forall>q \<in> set ps. p_thread q \<le> p_id q" using inv unfolding threads_inv_def by blast
    ultimately show "p_thread q \<le> p_id q" using assms(2) by auto
  next
    fix q x assume "q \<in> set (ps @ [p])" "x \<in> set (ps @ [p])" and th: "p_thread q = p_thread x"
    then have "q \<in> set ps \<or> q = p" "x \<in> set ps \<or> x = p" by auto
    then show "p_board q = p_board x"
    proof (elim disjE)
      assume "q \<in> set ps" "x \<in> set ps" then show ?thesis using th by (rule old)
    qed (use th same in simp_all)
  qed
qed

text \<open>
  Conversations stay on their board: with the row ids SQLite allocates, no
  sequence of posting, deleting posts and deleting boards makes two posts of one thread
  stand on different boards. This is the step: each operation keeps that property.
\<close>

theorem threads_stay_on_board:
  assumes "se_rowid E = sqlite_rowid" and inv: "threads_inv (t_posts d)"
  shows "threads_inv (t_posts (snd (AddPost E b a s t r d))) \<and>
    threads_inv (t_posts (snd (DeletePost i u d))) \<and> threads_inv (t_posts (snd (DeleteBoard u b d)))"
proof (intro conjI)
  show "threads_inv (t_posts (snd (AddPost E b a s t r d)))"
  proof (rule AddPost_outcome [of E b a s t r d])
    fix p d' assume res: "AddPost E b a s t r d = (Inr p, d')"
    obtain s' t' th pa where th: "post_thread d b r = (th, pa)"
      and p: "p = new_post E b a th pa s' t' (t_posts d)" and d': "d' = d\<lparr>t_posts := t_posts d @ [p]\<rparr>"
      by (rule AddPost_new [OF sqlite_env_fresh [OF assms(1)] res]) blast
    have gt: "p_id q < p_id p" if "q \<in> set (t_posts d)" for q
      using sqlite_rowid_gt [OF that, of p_id] by (simp add: p new_post_def assms(1))
    have le: "p_thread q \<le> p_id q" if "q \<in> set (t_posts d)" for q
      using inv that by (auto simp: threads_inv_def)
    have thr: "p_thread p \<le> p_id p \<and> (\<forall>q \<in> set (t_posts d). p_thread q = p_thread p \<longrightarrow> p_board q = p_board p)"
    proof (cases "th = 0")
      case True
      then have "p_thread p = p_id p" by (simp add: p new_post_def)
      with gt le show ?thesis by fastforce
    next
      case False
      then obtain q where q: "q \<in> set (t_posts d)" "p_board q = b" "th = p_thread q"
        using post_thread_cases [OF th] by auto
      then have "p_thread p = p_thread q" "p_board p = p_board q" using False by (simp_all add: p new_post_def)
      moreover have "p_board x = p_board q" if "x \<in> set (t_posts d)" "p_thread x = p_thread q" for x
        using inv that q(1) unfolding threads_inv_def by blast
      ultimately show ?thesis using gt [OF q(1)] le [OF q(1)] by auto
    qed
    then show ?thesis using threads_inv_snoc [OF inv] by (simp add: res d')
  qed (use inv in auto)
next
  have del: "threads_inv (delete_where q (t_posts d))" for q using inv by (auto simp: threads_inv_def)
  show "threads_inv (t_posts (snd (DeletePost i u d)))"
    unfolding DeletePost_def using inv del
    by (intro tx_inv [where I = "\<lambda>d. threads_inv (t_posts d)"]) (auto split: option.splits if_splits)
  show "threads_inv (t_posts (snd (DeleteBoard u b d)))"
    unfolding DeleteBoard_def sysopDelete_def using inv del
    by (intro tx_inv [where I = "\<lambda>d. threads_inv (t_posts d)"]) (auto simp: delete_board_rows_def)
qed

section \<open>Rights\<close>

text \<open>
  \<open>AddPost\<close> publishes only for an existing, approved author on an existing board,
  a sysop if the board is sysop-only. The post is then the newest row of that board, a reply
  points at a post of the same board, and every other board's posts are as before. When it
  refuses, nothing changes.
\<close>

theorem AddPost_spec:
  assumes "fresh_rowids E"
  shows "case AddPost E b a s t r d of
      (Inl _, d') \<Rightarrow> d' = d
    | (Inr p, d') \<Rightarrow>
        (\<exists>u bd. find_user d a = Some u \<and> u_validated u \<and> find_board d b = Some bd \<and>
           (b_sysop_only bd \<longrightarrow> u_sysop u)) \<and>
        p_board p = b \<and> p_author p = a \<and> t_posts d' = t_posts d @ [p] \<and>
        p_id p \<notin> p_id ` set (t_posts d) \<and> subject_ok (p_subject p) \<and> body_ok (p_body p) \<and>
        (p_reply_to p \<noteq> 0 \<longrightarrow> (\<exists>q \<in> set (t_posts d). p_id q = p_reply_to p \<and> p_board q = b \<and>
           p_thread p = (if p_thread q = 0 then p_id p else p_thread q))) \<and>
        (\<forall>c. c \<noteq> b \<longrightarrow> Posts d' c = Posts d c)"
proof (rule AddPost_outcome [of E b a s t r d])
  fix p d' assume res: "AddPost E b a s t r d = (Inr p, d')"
  obtain s' t' u bd th pa where f: "cleanLetter s t = Inr (s', t')" "find_user d a = Some u"
    "find_board d b = Some bd" "b_sysop_only bd \<longrightarrow> u_sysop u" "u_validated u"
    and th: "post_thread d b r = (th, pa)"
    and p: "p = new_post E b a th pa s' t' (t_posts d)" and d': "d' = d\<lparr>t_posts := t_posts d @ [p]\<rparr>"
    by (rule AddPost_new [OF assms res]) blast
  have new: "p_id p \<notin> p_id ` set (t_posts d)"
    using fresh_rowids_image [OF assms] by (simp add: p new_post_def)
  have flds: "p_board p = b" "p_author p = a" "p_subject p = s'" "p_body p = t'" "p_reply_to p = pa"
    "p_thread p = (if th = 0 then p_id p else th)"
    by (simp_all add: p new_post_def)
  have "Posts d' c = Posts d c" if "c \<noteq> b" for c using that by (simp add: d' Posts_def flds)
  moreover have "pa \<noteq> 0 \<longrightarrow> (\<exists>q \<in> set (t_posts d). p_id q = pa \<and> p_board q = b \<and>
      p_thread p = (if p_thread q = 0 then p_id p else p_thread q))"
  proof
    assume "pa \<noteq> 0"
    then obtain q where "q \<in> set (t_posts d)" "p_id q = r" "p_board q = b" "th = p_thread q" "pa = r"
      using post_thread_cases [OF th] by blast
    with flds(6) show "\<exists>q \<in> set (t_posts d). p_id q = pa \<and> p_board q = b \<and>
        p_thread p = (if p_thread q = 0 then p_id p else p_thread q)"
      by (intro bexI [of _ q]) simp_all
  qed
  ultimately show ?thesis using f new cleanLetter_ok [OF f(1)] by (simp add: res flds d')
qed simp

text \<open>
  \<open>DeletePost\<close> succeeds exactly when the caller exists, the post exists and the
  caller wrote it or is a sysop; then that post is gone and every other post stays. Otherwise
  nothing changes.
\<close>

theorem DeletePost_rights:
  "(fst (DeletePost i u d) = Inr () \<longleftrightarrow>
     (\<exists>r p. find_user d u = Some r \<and> find (\<lambda>p. p_id p = i) (t_posts d) = Some p \<and>
        (p_author p = u \<or> u_sysop r))) \<and>
   snd (DeletePost i u d) = (if fst (DeletePost i u d) = Inr ()
     then d\<lparr>t_posts := filter (\<lambda>p. p_id p \<noteq> i) (t_posts d)\<rparr> else d)"
  by (auto simp: DeletePost_def tx_def getUser_def delete_where_def split: option.splits)

lemma DeletePost_changes:
  "snd (DeletePost i u d) = d \<or> snd (DeletePost i u d) = d\<lparr>t_posts := delete_where (\<lambda>p. p_id p = i) (t_posts d)\<rparr>"
  by (auto simp: DeletePost_def tx_def getUser_def split: option.splits)

text \<open>
  Read marks: when a caller has marked a board up to its newest post, the board
  list shows nothing new there for that caller, and another caller's counters do not change.
\<close>

theorem MarkBoardRead_clears:
  assumes b: "b \<in> set (t_boards d)" and u: "u \<in> u_id ` set (t_users d)"
    and newest: "\<forall>p \<in> set (t_posts d). p_board p = b_id b \<longrightarrow> 0 \<le> p_id p \<and> p_id p \<le> n" and "0 \<le> n"
  shows "bs_new (board_summary_of (snd (MarkBoardRead u (b_id b) n d)) u b) = 0 \<and>
    (\<forall>v c. v \<noteq> u \<longrightarrow> board_summary_of (snd (MarkBoardRead u (b_id b) n d)) v c = board_summary_of d v c)"
proof -
  let ?d = "snd (MarkBoardRead u (b_id b) n d)"
  have kn: "board_known d u (b_id b)" using b u by (auto simp: board_known_def)
  have posts: "t_posts ?d = t_posts d" by (auto simp: MarkBoardRead_def split: sum.splits)
  have "filter (\<lambda>x. LastRead ?d u (b_id b) < x) (map p_id (filter (\<lambda>p. p_board p = b_id b) (t_posts d))) = []"
    using newest by (intro board_marks.nothing_above_newest [OF kn _ \<open>0 \<le> n\<close>]) auto
  then have "\<forall>p \<in> set (t_posts d). p_board p = b_id b \<longrightarrow> \<not> LastRead ?d u (b_id b) < p_id p"
    by (auto simp: filter_empty_conv)
  then have "bs_new (board_summary_of ?d u b) = 0"
    by (auto simp: board_summary_of_def Let_def posts count_where_0_iff)
  moreover have "LastRead ?d v c = LastRead d v c" if "v \<noteq> u" for v c
    using that \<open>0 \<le> n\<close> by (intro board_marks.mark_other) auto
  ultimately show ?thesis by (auto simp: board_summary_of_def Let_def posts)
qed

section \<open>The theorems at work\<close>

definition demo_post :: post where
  "demo_post = \<lparr>p_id = 1, p_board = 2, p_author = 2, p_thread = 1, p_reply_to = 0, p_subject = ''hi'',
     p_body = ''yo'', p_at = 1000\<rparr>"

definition demo_board :: board_row where
  "demo_board = \<lparr>b_id = 2, b_name = ''General'', b_desc = ''Anything goes'',
     b_sysop_only = False, b_created = 0, b_key = ''general''\<rparr>"

lemma demo_add_post: "AddPost demo_env 2 2 ''hi'' ''yo'' 0 demo_db = (Inr demo_post, demo_db\<lparr>t_posts := [demo_post]\<rparr>)"
  by (simp add: AddPost_def demo_clean find_board_def post_thread_def insert_post_def demo_post_def store_defs)

theorem threads_stay_on_board_witness: "threads_inv (t_posts (snd (AddPost demo_env 2 2 ''hi'' ''yo'' 0 demo_db)))"
proof -
  have "threads_inv (t_posts demo_db)" by (simp add: threads_inv_def demo_db_def empty_db_def)
  from threads_stay_on_board [OF demo_env_rowid(4) this] show ?thesis by blast
qed

theorem AddPost_spec_witness:
  "\<exists>u bd. find_user demo_db 2 = Some u \<and> u_validated u \<and> find_board demo_db 2 = Some bd \<and>
     (b_sysop_only bd \<longrightarrow> u_sysop u)"
  using AddPost_spec [OF demo_env_fresh, where b = 2 and a = 2 and s = "''hi''" and t = "''yo''" and r = 0 and d = demo_db]
  by (simp add: demo_add_post)

theorem MarkBoardRead_clears_witness:
  "bs_new (board_summary_of (snd (MarkBoardRead 1 2 1 (demo_db\<lparr>t_posts := [demo_post]\<rparr>))) 1 demo_board) = 0 \<and>
   bs_new (board_summary_of (demo_db\<lparr>t_posts := [demo_post]\<rparr>) 1 demo_board) = 1"
proof -
  have "demo_board \<in> set (t_boards (demo_db\<lparr>t_posts := [demo_post]\<rparr>))" "1 \<in> u_id ` set (t_users (demo_db\<lparr>t_posts := [demo_post]\<rparr>))"
    "b_id demo_board = 2"
    by (simp_all add: demo_board_def store_defs)
  then have "bs_new (board_summary_of (snd (MarkBoardRead 1 2 1 (demo_db\<lparr>t_posts := [demo_post]\<rparr>))) 1 demo_board) = 0"
    using MarkBoardRead_clears [of demo_board "demo_db\<lparr>t_posts := [demo_post]\<rparr>" 1 1] by (simp add: demo_post_def)
  then show ?thesis
    by (simp add: board_summary_of_def Let_def LastRead_def lookup_mark_def demo_post_def demo_board_def store_defs)
qed

end
