(* ===== verification/Accounts_Props.thy ===== *)
theory Accounts_Props
  imports Boards_Props Store_Demo
begin

text \<open>
  What callers and sysops can rely on of accounts: only sysops act on others, nobody locks
  themselves out, the password given at sign-up logs in and is the only one that does, and
  changing it needs the current one.
\<close>

section \<open>Rights\<close>

lemma not_sysop: "\<not> (\<exists>r. find_user d a = Some r \<and> u_sysop r) \<Longrightarrow> \<exists>e. requireSysop d a = Inl e"
  using requireSysop_Inr_iff [of d a "()"] by (cases "requireSysop d a") auto

lemma sysopDelete_refused:
  "requireSysop d a = Inl e \<Longrightarrow> sysopDelete a n del d = (Inl e, d)"
  by (simp add: sysopDelete_def)

text \<open>
  Claim C2. Nobody but a sysop gets anything done with the sysop operations: for an actor
  who does not exist or is no sysop, resetting a password, granting or withdrawing sysop
  rights, locking, approving and deleting an account, creating and deleting boards, posting
  and deleting bulletins and deleting wall lines all return an error and leave the database
  exactly as it was.
\<close>

theorem sysop_only:
  assumes "\<not> (\<exists>r. find_user d a = Some r \<and> u_sysop r)"
  shows "\<forall>out \<in> {ResetPassword E a i pw d, SetSysop a i b d, SetLocked a i b d, ValidateUser a i d,
      DeleteUser a i d, DeleteBoard a i d, DeleteBulletin a i d, DeleteOneliner a i d,
      map_prod (map_sum id (\<lambda>_. ())) id (CreateBoard E a n ds so d),
      map_prod (map_sum id (\<lambda>_. ())) id (AddBulletin E a t x d)}.
    \<exists>e. out = (Inl e, d)"
proof -
  obtain e where e: "requireSysop d a = Inl e" using not_sysop [OF assms] by blast
  have g: "\<exists>e. requireActor d a i ns = Inl e" for ns by (simp add: requireActor_def e)
  then have r: "\<exists>e. guarded (requireActor d a i ns) k d = (Inl e, d)" for ns and k :: "db \<Rightarrow> (error + unit) \<times> db"
    by (metis guarded_def sum.case(1))
  have "\<exists>e. DeleteUser a i d = (Inl e, d)" by (simp add: DeleteUser_def e)
  moreover have "\<exists>e'. CreateBoard E a n ds so d = (Inl e', d)"
    by (rule CreateBoard_outcome [of E a n ds so d]) (use e in auto)
  moreover have "\<exists>e'. AddBulletin E a t x d = (Inl e', d)"
    by (auto simp: AddBulletin_def e split: sum.splits)
  ultimately show ?thesis
    by (auto simp: ResetPassword_def SetSysop_def SetLocked_def ValidateUser_def r DeleteBoard_def
        DeleteBulletin_def DeleteOneliner_def sysopDelete_refused [OF e])
qed

theorem sysop_only_witness:
  "\<exists>e. (Inl e, demo_db) = DeleteUser 2 1 demo_db"
  using sysop_only [of demo_db 2 demo_env 1 "[]" False "[]" "[]" False "[]" "[]"]
  by (auto simp: demo_find_user demo_user_def)

text \<open>
  Nobody can lock themselves out: withdrawing one's own sysop rights, locking one's
  own account and deleting one's own account are refused, and none of these three operations,
  by whomever, takes the acting sysop's rights away.
\<close>

theorem no_self_harm:
  assumes "find_user d a = Some r" "u_sysop r"
  shows "SetSysop a a False d = (Inl ErrForbidden, d) \<and> SetLocked a a l d = (Inl ErrForbidden, d) \<and>
    DeleteUser a a d = (Inl ErrForbidden, d) \<and>
    (\<forall>d' \<in> {snd (SetSysop a i b d), snd (SetLocked a i l d), snd (DeleteUser a i d)}.
       \<exists>r'. find_user d' a = Some r' \<and> u_sysop r')"
proof -
  have ra: "u_id r = a" using find_user_Some [OF assms(1)] by simp
  have upd: "find_user (set_user i f d) a = Some (if a = i then f r else r)"
    if "\<And>x. u_id (f x) = u_id x" for f
    using assms(1) find_update_where_same [of "\<lambda>r. u_id r = i" u_id f a "t_users d"] that ra
    by (simp add: find_user_def set_user_def)
  have "find_user (snd (DeleteUser a i d)) a = Some r"
  proof (cases "a = i")
    case False
    have "find (\<lambda>y. u_id y = a) (delete_where (\<lambda>x. u_id x = i) (t_users d)) = find (\<lambda>y. u_id y = a) (t_users d)"
      using False by (intro find_delete_where_other) auto
    with False assms(1) show ?thesis
      by (auto simp: DeleteUser_def tx_def find_user_def Let_def delete_user_rows_def requireRow_def requireSysop_def
          getUser_def split: option.splits)
  qed (use assms(1) in \<open>simp add: DeleteUser_def\<close>)
  then show ?thesis using assms upd
    by (auto simp: SetSysop_def SetLocked_def DeleteUser_def guarded_def requireActor_def updateUser_def
        split: sum.splits)
qed

theorem no_self_harm_witness:
  "SetSysop 1 1 False demo_db = (Inl ErrForbidden, demo_db) \<and>
   (\<exists>r'. find_user (snd (DeleteUser 1 2 demo_db)) 1 = Some r' \<and> u_sysop r')"
proof -
  have "u_sysop (demo_user 1 ''ann'' True)" by (simp add: demo_user_def)
  from no_self_harm [OF demo_find_user(1) this, of False 2 False] show ?thesis by auto
qed

section \<open>Sign-up and login\<close>

lemma matches_newCredential:
  assumes "newCredential E p iter = Inr c" "0 < iter" "se_salt E \<noteq> Some []" "se_kdf E' = se_kdf E"
  shows "matches E' c q = (case se_kdf E q (c_salt c) iter of
     None \<Rightarrow> Inl ErrInternal | Some k \<Rightarrow> Inr (Some k = se_kdf E p (c_salt c) iter))"
  using assms by (auto simp: newCredential_def matches_def deriveKey_def split: option.splits)

lemma find_handle_new:
  assumes "\<forall>r \<in> set us. u_handle_key r \<noteq> k" "u_handle_key x = k"
  shows "find (\<lambda>r. u_handle_key r = k) (us @ [x]) = Some x"
  using assms by (induction us) auto

text \<open>
  Signing up and logging in: an account \<open>CreateUser\<close> makes can log in at once with
  the password it was made with, under its handle in any of the spellings that have the same
  key, and not with a password that derives another key. The first account is a sysop and
  approved; a later one is no sysop, and is approved only when new accounts need no approval.
\<close>

theorem CreateUser_then_login:
  assumes fr: "fresh_rowids E" and made: "CreateUser E h p l d = (Inr u, d')"
    and env: "0 < se_kdfIter E" "se_salt E \<noteq> Some []" "se_kdf E' = se_kdf E" "se_lower E' = se_lower E"
    and name: "handleKey E h' = handleKey E (trim_space h)"
  shows "Authenticate E' d' h' p = Inr u \<and> u_sysop u = (t_users d = []) \<and>
    u_validated u = (t_users d = [] \<or> \<not> se_approveNew E) \<and> \<not> u_locked u \<and>
    (\<forall>q salt k. se_salt E = Some salt \<longrightarrow> se_kdf E q salt (se_kdfIter E) = Some k \<longrightarrow>
       se_kdf E p salt (se_kdfIter E) \<noteq> Some k \<longrightarrow> Authenticate E' d' h' q = Inl ErrBadCredentials)"
proof (rule CreateUser_cases [OF made])
  fix cred
  let ?r = "CreateUser_row E d (trim_space h) cred l"
  assume cred: "newCredential E p (se_kdfIter E) = Inr cred"
    and new: "\<forall>r \<in> set (t_users d). u_handle_key r \<noteq> handleKey E (trim_space h)"
    and d': "d' = d\<lparr>t_users := t_users d @ [?r]\<rparr>" and u: "getUser d' (u_id ?r) = Inr u"
  have key: "handleKey E' h' = handleKey E (trim_space h)" using name env(4) by (simp add: handleKey_def)
  have "find (\<lambda>y. u_id y = u_id ?r) (t_users d @ [?r]) = Some ?r"
  proof -
    have "find (\<lambda>y. u_id y = se_rowid E (map u_id (t_users d))) (t_users d) = None"
      using fresh_rowids_image [OF fr, of u_id "t_users d"] by (auto simp: find_None_iff image_iff)
    then show ?thesis by (simp add: find_append_None)
  qed
  with u have ur: "u = user.truncate ?r" by (simp add: getUser_def find_user_def d')
  have fh: "find_handle E' d' h' = Some ?r"
    using find_handle_new [OF new, of ?r] by (simp add: find_handle_def key d')
  have cr: "cred_of ?r = cred" by (simp add: cred_of_def)
  obtain k0 where k0: "se_kdf E p (c_salt cred) (se_kdfIter E) = Some k0" and salt: "se_salt E = Some (c_salt cred)"
    using cred by (auto simp: newCredential_def deriveKey_def split: option.splits)
  have m: "matches E' (cred_of ?r) q = (case se_kdf E q (c_salt cred) (se_kdfIter E) of
      None \<Rightarrow> Inl ErrInternal | Some k \<Rightarrow> Inr (k = k0))" for q
    using matches_newCredential [OF cred env(1,2,3), of q] k0 cr by (simp split: option.splits)
  have "Authenticate E' d' h' p = Inr u" by (simp add: Authenticate_def fh m k0 ur)
  moreover have "Authenticate E' d' h' q = Inl ErrBadCredentials"
    if "se_kdf E q (c_salt cred) (se_kdfIter E) = Some k" "k0 \<noteq> k" for q k
    using that by (simp add: Authenticate_def fh m)
  ultimately show ?thesis using k0 salt by (auto simp: ur)
qed

lemma demo_create:
  "\<exists>u d'. CreateUser demo_env ''cat'' ''password'' ''x'' demo_db = (Inr u, d')"
proof -
  have g: "graphic ''cat''" "graphic ''x''" by (simp_all add: graphic_def byte_val_def)
  have k: "handleKey demo_env ''cat'' = ''cat''" by (rule handleKey_plain [OF g(1)]) (simp add: byte_val_def)
  have low: "to_lower (se_lower demo_env) ''cat'' = ''cat''"
    by (subst to_lower_ascii [OF graphic_ascii [OF g(1)]]) (rule sql_lower_id, simp add: byte_val_def)
  have v: "ValidateHandle demo_env ''cat'' = Inr ()" "ValidatePassword ''password'' = Inr ()"
    by (simp_all add: low ValidateHandle_def ValidatePassword_def MinHandleLen_def MaxHandleLen_def MinPasswordLen_def
        MaxPasswordLen_def isLetter_def handle_char_def byte_val_def reservedHandles_def)
  show ?thesis
    by (simp add: CreateUser_def trim_space_graphic g v k newCredential_def deriveKey_def Let_def
        CreateUser_row_def store_defs)
qed

theorem CreateUser_then_login_witness:
  "\<exists>u d'. CreateUser demo_env ''cat'' ''password'' ''x'' demo_db = (Inr u, d') \<and>
     Authenticate demo_env d' ''cat'' ''password'' = Inr u \<and>
     Authenticate demo_env d' ''cat'' ''passwore'' = Inl ErrBadCredentials"
proof -
  obtain u d' where c: "CreateUser demo_env ''cat'' ''password'' ''x'' demo_db = (Inr u, d')"
    using demo_create by blast
  have "trim_space ''cat'' = ''cat''" by (rule trim_space_graphic) (simp add: graphic_def byte_val_def)
  then show ?thesis
    using c CreateUser_then_login [OF demo_env_fresh c, of demo_env "''cat''"] by (simp add: demo_env_def)
qed

text \<open>
  Changing a password needs the current one: with a wrong current password, or a
  new one that is too short or too long, nothing changes; after a change the account logs in
  with the new password, and no other account's row changed.
\<close>

theorem ChangePassword_spec:
  assumes r: "find_user d i = Some r" and ids: "distinct (map u_id (t_users d))" "distinct (map u_handle_key (t_users d))"
    and env: "0 < se_kdfIter E" "se_salt E \<noteq> Some []"
  shows "case ChangePassword E i cur nxt d of
      (Inl _, d') \<Rightarrow> d' = d
    | (Inr _, d') \<Rightarrow> matches E (cred_of r) cur = Inr True \<and> ValidatePassword nxt = Inr () \<and>
        (handleKey E h = u_handle_key r \<longrightarrow> is_ok (Authenticate E d' h nxt)) \<and>
        filter (\<lambda>x. u_id x \<noteq> i) (t_users d') = filter (\<lambda>x. u_id x \<noteq> i) (t_users d)"
proof (cases "matches E (cred_of r) cur = Inr True \<and> ValidatePassword nxt = Inr ()")
  case True
  show ?thesis
  proof (cases "newCredential E nxt (se_kdfIter E)")
    case (Inr c)
    define f where "f = (\<lambda>r::user_row. r\<lparr>u_pass_hash := c_hash c, u_salt := c_salt c, u_kdf_iter := c_iter c\<rparr>)"
    have rin: "r \<in> set (t_users d)" "u_id r = i" using find_user_Some [OF r] by auto
    then have "count_where (\<lambda>r. u_id r = i) (t_users d) \<noteq> 0" by (auto simp: count_where_0_iff)
    then have cp: "ChangePassword E i cur nxt d = (Inr (), set_user i f d)"
      using True Inr r by (simp add: ChangePassword_def setPassword_def updateUser_def requireRow_def f_def)
    have "find (\<lambda>y. u_handle_key y = u_handle_key r) (t_users d) = Some r"
      using find_unique [OF ids(2) rin(1)] by simp
    then have fh: "handleKey E h = u_handle_key r \<Longrightarrow> find_handle E (set_user i f d) h = Some (f r)"
      using find_update_where_same [of "\<lambda>r. u_id r = i" u_handle_key f "u_handle_key r" "t_users d"] rin(2)
      by (simp add: find_handle_def set_user_def f_def)
    have "cred_of (f r) = c" by (simp add: cred_of_def f_def)
    moreover have "\<exists>k. se_kdf E nxt (c_salt c) (se_kdfIter E) = Some k"
      using Inr by (auto simp: newCredential_def deriveKey_def split: option.splits)
    ultimately have "is_ok (Authenticate E (set_user i f d) h nxt)" if "handleKey E h = u_handle_key r"
      using fh [OF that] matches_newCredential [OF Inr env refl, of nxt] by (auto simp: Authenticate_def)
    moreover have "filter (\<lambda>x. u_id x \<noteq> i) (update_where (\<lambda>r. u_id r = i) f (t_users d)) =
        filter (\<lambda>x. u_id x \<noteq> i) (t_users d)"
      by (rule filter_update_other) (simp add: f_def)
    ultimately show ?thesis using True by (simp add: cp set_user_def)
  qed (use True r in \<open>auto simp: ChangePassword_def setPassword_def\<close>)
next
  case False
  then show ?thesis using r
    by (auto simp: ChangePassword_def setPassword_def split: sum.splits)
qed

theorem ChangePassword_spec_witness:
  "is_ok (Authenticate demo_env (snd (ChangePassword demo_env 2 ''pw'' ''password'' demo_db)) ''bob'' ''password'')"
proof -
  have g: "graphic ''bob''" by (simp add: graphic_def byte_val_def)
  have k: "handleKey demo_env ''bob'' = ''bob''" by (rule handleKey_plain [OF g]) (simp add: byte_val_def)
  have ok: "\<exists>d'. ChangePassword demo_env 2 ''pw'' ''password'' demo_db = (Inr (), d')"
    by (simp add: ChangePassword_def setPassword_def matches_def cred_of_def deriveKey_def newCredential_def
        ValidatePassword_def MinPasswordLen_def MaxPasswordLen_def updateUser_def set_user_def store_defs)
  have "distinct (map u_id (t_users demo_db))" "distinct (map u_handle_key (t_users demo_db))"
    "0 < se_kdfIter demo_env" "se_salt demo_env \<noteq> Some []"
    by (simp_all add: store_defs)
  from ChangePassword_spec [OF demo_find_user(2) this, of "''pw''" "''password''" "''bob''"] ok k
  show ?thesis by (auto simp: demo_user_def)
qed

section \<open>Recycled account ids\<close>

text \<open>
  A new account can inherit the posts of a deleted one: the id of an account is the
  largest in use plus one, so after the newest account is deleted the next caller to sign up
  gets its id, and with it the right to delete the posts the deleted account left behind.
\<close>

theorem recycled_account_owns_posts:
  "\<exists>u d2 d3. DeleteUser 1 2 (demo_db\<lparr>t_posts := [demo_post]\<rparr>) = (Inr (), d2) \<and>
     CreateUser demo_env ''cat'' ''password'' ''x'' d2 = (Inr u, d3) \<and> u_handle u = ''cat'' \<and> \<not> u_sysop u \<and>
     demo_post \<in> set (t_posts d3) \<and> fst (DeletePost 1 (u_id u) d3) = Inr ()"
proof -
  let ?d = "demo_db\<lparr>t_posts := [demo_post]\<rparr>"
  let ?d2 = "?d\<lparr>t_users := [demo_user 1 ''ann'' True]\<rparr>"
  have del: "DeleteUser 1 2 ?d = (Inr (), ?d2)"
    by (simp add: DeleteUser_def delete_user_rows_def delete_user_mail_def Let_def store_defs)
  have g: "graphic ''cat''" "graphic ''x''" by (simp_all add: graphic_def byte_val_def)
  have k: "handleKey demo_env ''cat'' = ''cat''" by (rule handleKey_plain [OF g(1)]) (simp add: byte_val_def)
  have low: "to_lower (se_lower demo_env) ''cat'' = ''cat''"
    by (subst to_lower_ascii [OF graphic_ascii [OF g(1)]]) (rule sql_lower_id, simp add: byte_val_def)
  have v: "ValidateHandle demo_env ''cat'' = Inr ()" "ValidatePassword ''password'' = Inr ()"
    by (simp_all add: low ValidateHandle_def ValidatePassword_def MinHandleLen_def MaxHandleLen_def MinPasswordLen_def
        MaxPasswordLen_def isLetter_def handle_char_def byte_val_def reservedHandles_def)
  obtain u d3 where c: "CreateUser demo_env ''cat'' ''password'' ''x'' ?d2 = (Inr u, d3)"
    and u: "u_handle u = ''cat''" "\<not> u_sysop u" "u_id u = 2" "t_posts d3 = [demo_post]" "find_user d3 2 \<noteq> None"
    by (simp add: CreateUser_def trim_space_graphic g v k newCredential_def deriveKey_def Let_def
        CreateUser_row_def store_defs)
  have "p_id demo_post = 1" "p_author demo_post = 2" by (simp_all add: demo_post_def)
  then have "fst (DeletePost 1 (u_id u) d3) = Inr ()"
    using u(3-5) by (auto simp: DeletePost_def tx_def getUser_def)
  with del c u(1,2,4) show ?thesis by (intro exI [of _ u] exI [of _ ?d2] exI [of _ d3]) simp
qed

end
