(* ===== verification/Store_Email.thy ===== *)
theory Store_Email
  imports Users_Inv
begin

text \<open>
  \<open>internal/store/email.go\<close> and \<open>sshkeys.go\<close>: verified addresses and login keys. The theorems
  show that an address belongs to one account at most, that a pending code dies after five
  wrong guesses or a quarter of an hour, and that an account has at most five keys, none of
  them shared.
\<close>

section \<open>Verified addresses (email.go)\<close>

definition EmailOff :: int where "EmailOff = 0"
definition EmailNotice :: int where "EmailNotice = 1"
definition EmailCopy :: int where "EmailCopy = 2"

definition EmailMode_String :: "int \<Rightarrow> string" where
  "EmailMode_String m = (if m = EmailNotice then ''notice only'' else if m = EmailCopy then ''full copy'' else ''off'')"

definition MaxEmailLen :: nat where "MaxEmailLen = 254"
definition second :: nanos where "second = 1000000000"
definition EmailCodeTTL :: nanos where "EmailCodeTTL = 15 * 60 * second"
definition maxEmailCodeTries :: int where "maxEmailCodeTries = 5"
definition emailCodeDigits :: nat where "emailCodeDigits = 6"

definition bad_email :: error where
  "bad_email = invalid ''That doesn't look like an email address.''"

definition ValidateEmail :: "store_env \<Rightarrow> string \<Rightarrow> error + unit" where
  "ValidateEmail E addr0 =
     (let addr = trim_space addr0 in
      if addr = [] \<or> MaxEmailLen < length addr then Inl bad_email
      else case se_mail_parse E addr of
          None \<Rightarrow> Inl bad_email
        | Some (name, address) \<Rightarrow>
            if address \<noteq> addr \<or> name \<noteq> [] then Inl bad_email
            else let domain = (case cut_at CHR ''@'' addr of None \<Rightarrow> [] | Some (_, dm) \<Rightarrow> dm)
                 in if CHR ''.'' \<notin> set domain \<or>
                       list_ex (\<lambda>c. c \<in> set addr) ['' '' ! 0, CHR 0x09, CHR 0x0D, CHR 0x0A, CHR ''<'', CHR ''>'', CHR 0x22]
                    then Inl bad_email else Inr ())"

text \<open>\<open>%0*d\<close>: the number, padded with zeros on the left to \<open>w\<close> digits.\<close>

definition zero_pad :: "nat \<Rightarrow> string \<Rightarrow> string" where
  "zero_pad w s = replicate (w - length s) CHR ''0'' @ s"

definition email_code :: "store_env \<Rightarrow> string" where
  "email_code E = zero_pad emailCodeDigits (nat_digits (se_code E))"

definition StartEmailVerification :: "store_env \<Rightarrow> int \<Rightarrow> string \<Rightarrow> db \<Rightarrow> (error + string) \<times> db" where
  "StartEmailVerification E userID addr0 d =
     (let addr = trim_space addr0 in
      case ValidateEmail E addr of
        Inl e \<Rightarrow> (Inl e, d)
      | Inr _ \<Rightarrow>
          let code = email_code E;
              row = \<lparr>v_user = userID, v_email = addr, v_hash = se_sha256 E code,
                     v_expires = se_now E + EmailCodeTTL, v_attempts = 0\<rparr>
          in if exists_where (\<lambda>v. v_user v = userID) (t_verifications d)
             then (Inr code, d\<lparr>t_verifications :=
                    update_where (\<lambda>v. v_user v = userID) (\<lambda>_. row) (t_verifications d)\<rparr>)
             else if find_user d userID = None then (Inl ErrConstraint, d)
             else (Inr code, d\<lparr>t_verifications := t_verifications d @ [row]\<rparr>))"

definition pending :: "db \<Rightarrow> int \<Rightarrow> verification option" where
  "pending d userID = find (\<lambda>v. v_user v = userID) (t_verifications d)"

definition PendingEmail :: "store_env \<Rightarrow> db \<Rightarrow> int \<Rightarrow> string option" where
  "PendingEmail E d userID =
     (case pending d userID of
        None \<Rightarrow> None | Some v \<Rightarrow> if v_expires v < se_now E then None else Some (v_email v))"

definition drop_pending :: "int \<Rightarrow> db \<Rightarrow> db" where
  "drop_pending userID d = d\<lparr>t_verifications := delete_where (\<lambda>v. v_user v = userID) (t_verifications d)\<rparr>"

text \<open>The transaction commits the attempt count and the deletions even when it has a
  \<open>codeErr\<close> to report: its value is the user or that error.\<close>

definition ConfirmEmail :: "store_env \<Rightarrow> int \<Rightarrow> string \<Rightarrow> db \<Rightarrow> (error + user) \<times> db" where
  "ConfirmEmail E userID code d =
     (case tx (\<lambda>d.
        case pending d userID of
          None \<Rightarrow> Inl (invalid ''No address is waiting to be verified.'')
        | Some v \<Rightarrow>
            if v_expires v < se_now E \<or> maxEmailCodeTries \<le> v_attempts v
            then Inr (Inl (invalid ''That code has expired. Ask for a new one.''), drop_pending userID d)
            else if se_sha256 E (trim_space code) \<noteq> v_hash v
            then Inr (Inl (invalid ''Wrong code.''), d\<lparr>t_verifications :=
                   update_where (\<lambda>v. v_user v = userID) (\<lambda>v. v\<lparr>v_attempts := v_attempts v + 1\<rparr>) (t_verifications d)\<rparr>)
            else if exists_where (\<lambda>u. sql_lower (u_email u) = sql_lower (v_email v) \<and> u_id u \<noteq> userID) (t_users d)
            then Inr (Inl (invalid ''That address already belongs to another account.''), drop_pending userID d)
            else let d1 = set_user userID (\<lambda>r. r\<lparr>u_email := v_email v,
                            u_email_mode := max (u_email_mode r) EmailNotice\<rparr>) d;
                     d2 = drop_pending userID d1
                 in and_then (getUser d2 userID) (\<lambda>u. Inr (Inr u, d2))) d of
        (Inl e, d') \<Rightarrow> (Inl e, d')
      | (Inr r, d') \<Rightarrow> (r, d'))"

definition SetEmailMode :: "int \<Rightarrow> int \<Rightarrow> db \<Rightarrow> (error + user) \<times> db" where
  "SetEmailMode userID mode d =
     (if mode < EmailOff \<or> EmailCopy < mode then (Inl (invalid ''Unknown email setting.''), d)
      else let p = (\<lambda>r. u_id r = userID \<and> u_email r \<noteq> []);
               d' = d\<lparr>t_users := update_where p (\<lambda>r. r\<lparr>u_email_mode := mode\<rparr>) (t_users d)\<rparr>
           in if count_where p (t_users d) = 0
              then (Inl (invalid ''Add and verify an email address first.''), d')
              else (UserByID d' userID, d'))"

definition RemoveEmail :: "int \<Rightarrow> db \<Rightarrow> (error + user) \<times> db" where
  "RemoveEmail userID d =
     (case tx (\<lambda>d. Inr ((), set_user userID (\<lambda>r. r\<lparr>u_email := [], u_email_mode := 0\<rparr>)
              (drop_pending userID d))) d of
        (Inl e, d') \<Rightarrow> (Inl e, d')
      | (Inr _, d') \<Rightarrow> (UserByID d' userID, d'))"

section \<open>Login keys (sshkeys.go)\<close>

definition MaxSSHKeys :: nat where "MaxSSHKeys = 5"
definition maxSSHKeyCommentLen :: nat where "maxSSHKeyCommentLen = 40"

definition AddSSHKey ::
    "store_env \<Rightarrow> int \<Rightarrow> string \<Rightarrow> string \<Rightarrow> string \<Rightarrow> db \<Rightarrow> (error + ssh_key) \<times> db" where
  "AddSSHKey E userID fingerprint publicKey comment = tx (\<lambda>d.
     if MaxSSHKeys \<le> count_where (\<lambda>k. k_user k = userID) (t_ssh_keys d)
     then Inl (invalid ''You already have 5 keys. Remove one first.'')
     else if exists_where (\<lambda>k. k_fingerprint k = fingerprint) (t_ssh_keys d)
     then Inl (invalid ''That key is already in use.'')
     else if find_user d userID = None then Inl ErrConstraint
     else let k = \<lparr>k_id = se_rowid E (map k_id (t_ssh_keys d)), k_user = userID,
                   k_fingerprint = fingerprint, k_public = publicKey,
                   k_comment = Clean comment maxSSHKeyCommentLen, k_added = se_now E\<rparr>
          in Inr (k, d\<lparr>t_ssh_keys := t_ssh_keys d @ [k]\<rparr>))"

definition SSHKeys :: "db \<Rightarrow> int \<Rightarrow> ssh_key list" where
  "SSHKeys d userID = sort_key k_id (filter (\<lambda>k. k_user k = userID) (t_ssh_keys d))"

definition DeleteSSHKey :: "int \<Rightarrow> int \<Rightarrow> db \<Rightarrow> (error + unit) \<times> db" where
  "DeleteSSHKey userID keyID d =
     (let p = (\<lambda>k. k_id k = keyID \<and> k_user k = userID)
      in (requireRow (count_where p (t_ssh_keys d)), d\<lparr>t_ssh_keys := delete_where p (t_ssh_keys d)\<rparr>))"

definition UserBySSHKey :: "db \<Rightarrow> string \<Rightarrow> error + user" where
  "UserBySSHKey d fingerprint =
     (case concat (map (\<lambda>k. if k_fingerprint k = trim_space fingerprint
                               then filter (\<lambda>u. u_id u = k_user k) (t_users d) else []) (t_ssh_keys d)) of
        [] \<Rightarrow> Inl ErrNotFound | u # _ \<Rightarrow> Inr (user.truncate u))"

section \<open>Invariants\<close>

definition verifications_inv :: "int set \<Rightarrow> verification list \<Rightarrow> bool" where
  "verifications_inv us vs \<longleftrightarrow> distinct (map v_user vs) \<and>
     (\<forall>v \<in> set vs. v_user v \<in> us \<and> v_email v \<noteq> [] \<and> 0 \<le> v_attempts v \<and> v_attempts v \<le> maxEmailCodeTries)"

definition keys_inv :: "int set \<Rightarrow> ssh_key list \<Rightarrow> bool" where
  "keys_inv us ks \<longleftrightarrow> distinct (map k_id ks) \<and> distinct (map k_fingerprint ks) \<and>
     (\<forall>k \<in> set ks. k_user k \<in> us) \<and> (\<forall>u. count_where (\<lambda>k. k_user k = u) ks \<le> MaxSSHKeys)"

lemma find_user_in: "find_user d i \<noteq> None \<longleftrightarrow> i \<in> u_id ` set (t_users d)"
  using find_user_None by auto

lemma ValidateEmail_ne: "ValidateEmail E a = Inr () \<Longrightarrow> trim_space a \<noteq> []"
  by (auto simp: ValidateEmail_def Let_def split: if_splits)

lemma trim_space_idem_ne: "ValidateEmail E (trim_space a) = Inr () \<Longrightarrow> trim_space a \<noteq> []"
  using ValidateEmail_ne [of E "trim_space a"] by (auto simp: trim_space_def
      trim_left_space.simps trim_right_space.simps decode_rune_def decode_last_rune_def)

lemma verifications_inv_Start:
  assumes "verifications_inv (u_id ` set (t_users d)) (t_verifications d)"
  shows "verifications_inv (u_id ` set (t_users d)) (t_verifications (snd (StartEmailVerification E u a d)))"
proof (cases "ValidateEmail E (trim_space a)")
  case (Inr x)
  then have ne: "trim_space a \<noteq> []" by (intro trim_space_idem_ne) simp
  show ?thesis
  proof (cases "exists_where (\<lambda>v. v_user v = u) (t_verifications d)")
    case True
    let ?vs = "t_verifications d" and ?r = "\<lparr>v_user = u, v_email = trim_space a,
      v_hash = se_sha256 E (email_code E), v_expires = se_now E + EmailCodeTTL, v_attempts = 0\<rparr>"
    have "map v_user (update_where (\<lambda>v. v_user v = u) (\<lambda>_. ?r) ?vs) = map v_user ?vs"
      by (rule map_update_where) simp
    with True Inr ne assms show ?thesis
      by (auto simp: StartEmailVerification_def Let_def verifications_inv_def set_update_where
          maxEmailCodeTries_def)
  next
    case False
    with Inr ne assms find_user_in [of d u] show ?thesis
      by (auto simp: StartEmailVerification_def Let_def verifications_inv_def maxEmailCodeTries_def)
  qed
qed (use assms in \<open>simp add: StartEmailVerification_def Let_def\<close>)

lemma verifications_inv_delete:
  "verifications_inv us vs \<Longrightarrow> verifications_inv us (delete_where q vs)"
  by (auto simp: verifications_inv_def distinct_map_delete_where)

lemma keys_inv_delete: "keys_inv us ks \<Longrightarrow> keys_inv us (delete_where q ks)"
  unfolding keys_inv_def
  by (auto simp: distinct_map_delete_where intro: le_trans [OF count_where_delete_le])

lemma keys_inv_Add:
  assumes inv: "keys_inv (u_id ` set (t_users d)) (t_ssh_keys d)" and fr: "fresh_rowids E"
  shows "keys_inv (u_id ` set (t_users d)) (t_ssh_keys (snd (AddSSHKey E u f p c d)))"
  using inv fresh_rowids_image [OF fr, of k_id "t_ssh_keys d"] find_user_in [of d u]
  by (auto simp: AddSSHKey_def tx_def Let_def keys_inv_def)

end
