(* ===== verification/Email_Props.thy ===== *)
theory Email_Props
  imports Store_Email Store_Demo
begin

text \<open>
  What callers can rely on of address verification and login keys.
\<close>

lemma pending_Some: "pending d u = Some v \<Longrightarrow> v \<in> set (t_verifications d) \<and> v_user v = u"
  by (auto simp: pending_def dest: find_Some_in)

lemma pending_drop [simp]: "pending (drop_pending u d) u = None"
  by (simp add: pending_def drop_pending_def find_None_iff)

lemma t_users_drop [simp]: "t_users (drop_pending u d) = t_users d"
  by (simp add: drop_pending_def)

text \<open>The outcomes of \<open>ConfirmEmail\<close>, one per branch of the source.\<close>

lemma ConfirmEmail_cases:
  obtains (none) "pending d u = None"
      "ConfirmEmail E u c d = (Inl (invalid ''No address is waiting to be verified.''), d)"
  | (expired) v where "pending d u = Some v" "v_expires v < se_now E \<or> maxEmailCodeTries \<le> v_attempts v"
      "ConfirmEmail E u c d = (Inl (invalid ''That code has expired. Ask for a new one.''), drop_pending u d)"
  | (wrong) v where "pending d u = Some v" "se_now E \<le> v_expires v" "v_attempts v < maxEmailCodeTries"
      "se_sha256 E (trim_space c) \<noteq> v_hash v"
      "ConfirmEmail E u c d = (Inl (invalid ''Wrong code.''), d\<lparr>t_verifications :=
         update_where (\<lambda>v. v_user v = u) (\<lambda>v. v\<lparr>v_attempts := v_attempts v + 1\<rparr>) (t_verifications d)\<rparr>)"
  | (taken) v where "pending d u = Some v" "v_attempts v < maxEmailCodeTries"
      "se_sha256 E (trim_space c) = v_hash v"
      "ConfirmEmail E u c d = (Inl (invalid ''That address already belongs to another account.''), drop_pending u d)"
  | (gone) v where "pending d u = Some v" "v_attempts v < maxEmailCodeTries"
      "se_sha256 E (trim_space c) = v_hash v" "find_user d u = None"
      "ConfirmEmail E u c d = (Inl ErrNotFound, d)"
  | (ok) v r where "pending d u = Some v" "se_now E \<le> v_expires v" "v_attempts v < maxEmailCodeTries"
      "se_sha256 E (trim_space c) = v_hash v"
      "\<forall>x \<in> set (t_users d). sql_lower (u_email x) = sql_lower (v_email v) \<longrightarrow> u_id x = u"
      "find_user d u = Some r"
      "ConfirmEmail E u c d = (Inr (user.truncate (r\<lparr>u_email := v_email v,
           u_email_mode := max (u_email_mode r) EmailNotice\<rparr>)),
         drop_pending u (set_user u (\<lambda>r. r\<lparr>u_email := v_email v,
           u_email_mode := max (u_email_mode r) EmailNotice\<rparr>) d))"
proof (cases "pending d u")
  case None
  then show ?thesis using none by (simp add: ConfirmEmail_def tx_def)
next
  case (Some v)
  note defs = ConfirmEmail_def tx_def Let_def
  show ?thesis
  proof (cases "v_expires v < se_now E \<or> maxEmailCodeTries \<le> v_attempts v")
    case True
    with Some show ?thesis by (intro expired [of v]) (simp_all add: defs)
  next
    case live: False
    show ?thesis
    proof (cases "se_sha256 E (trim_space c) = v_hash v")
      case False
      with Some live show ?thesis by (intro wrong [of v]) (simp_all add: defs)
    next
      case code: True
      show ?thesis
      proof (cases "exists_where (\<lambda>x. sql_lower (u_email x) = sql_lower (v_email v) \<and> u_id x \<noteq> u) (t_users d)")
        case True
        with Some live code show ?thesis by (intro taken [of v]) (simp_all add: defs)
      next
        case free: False
        let ?f = "\<lambda>r. r\<lparr>u_email := v_email v, u_email_mode := max (u_email_mode r) EmailNotice\<rparr>"
        have fu: "find_user (drop_pending u (set_user u ?f d)) u = map_option ?f (find_user d u)"
        proof -
          have "find (\<lambda>y. u_id y = u) (update_where (\<lambda>r. u_id r = u) ?f (t_users d)) =
              map_option (\<lambda>x. if u_id x = u then ?f x else x) (find (\<lambda>y. u_id y = u) (t_users d))"
            by (rule find_update_where_same) simp
          then show ?thesis
            by (cases "find (\<lambda>y. u_id y = u) (t_users d)")
               (auto simp: find_user_def drop_pending_def set_user_def dest: find_Some_in)
        qed
        show ?thesis
        proof (cases "find_user d u")
          case None
          with Some live code free fu show ?thesis
            by (intro gone [of v]) (auto simp: defs getUser_def)
        next
          case (Some r)
          with \<open>pending d u = Some v\<close> live code free fu show ?thesis
            by (intro ok [of v r]) (auto simp: defs getUser_def)
        qed
      qed
    qed
  qed
qed

section \<open>Invariants\<close>

lemma verifications_inv_Confirm:
  assumes inv: "verifications_inv (u_id ` set (t_users d)) (t_verifications d)"
  shows "verifications_inv (u_id ` set (t_users d)) (t_verifications (snd (ConfirmEmail E u c d)))"
proof (cases rule: ConfirmEmail_cases [of d u E c])
  case (wrong v)
  have "map v_user (update_where (\<lambda>v. v_user v = u) (\<lambda>v. v\<lparr>v_attempts := v_attempts v + 1\<rparr>) (t_verifications d)) =
      map v_user (t_verifications d)" by (rule map_update_where) simp
  moreover have "x = v" if "x \<in> set (t_verifications d)" "v_user x = u" for x
    using inv that wrong(1) find_unique [of v_user "t_verifications d" x]
    by (auto simp: verifications_inv_def pending_def)
  ultimately show ?thesis using inv wrong(3,5)
    by (auto simp: verifications_inv_def set_update_where)
qed (use inv in \<open>auto simp: drop_pending_def verifications_inv_delete set_user_def\<close>)

lemma distinct_emails_set:
  assumes "distinct (emails us)" "distinct (map u_id us)" "\<forall>x \<in> set us. sql_lower (u_email x) = sql_lower a \<longrightarrow> u_id x = i"
    and f: "\<And>x. u_id (f x) = u_id x \<and> u_email (f x) = a"
  shows "distinct (emails (update_where (\<lambda>r. u_id r = i) f us))"
  using assms(1-3)
proof (induction us)
  case (Cons x us)
  let ?rest = "emails (update_where (\<lambda>r. u_id r = i) f us)"
  have sub: "set ?rest \<subseteq> set (emails us) \<union> {sql_lower a}"
    using f by (induction us) auto
  show ?case
  proof (cases "u_id x = i")
    case True
    with Cons.prems(2) have "update_where (\<lambda>r. u_id r = i) f us = us"
      by (intro update_where_none) (auto simp: image_iff)
    moreover have "sql_lower a \<notin> set (emails us)"
    proof
      assume "sql_lower a \<in> set (emails us)"
      then obtain y where "y \<in> set us" "sql_lower (u_email y) = sql_lower a" by (auto simp: emails_def)
      with Cons.prems(2,3) True show False by (auto simp: image_iff)
    qed
    ultimately show ?thesis using Cons.prems True f by (auto split: if_splits)
  next
    case False
    with Cons.prems(3) have "sql_lower (u_email x) \<noteq> sql_lower a" by auto
    with Cons False sub show ?thesis by (auto split: if_splits)
  qed
qed simp

lemma users_inv_set_email:
  assumes inv: "users_inv us" and free: "\<forall>x \<in> set us. sql_lower (u_email x) = sql_lower a \<longrightarrow> u_id x = i"
    and f: "\<And>x. u_id (f x) = u_id x \<and> u_handle_key (f x) = u_handle_key x \<and> u_handle (f x) = u_handle x \<and>
      u_sysop (f x) = u_sysop x \<and> u_validated (f x) = u_validated x \<and> u_email (f x) = a"
    and mode: "\<And>x. 0 \<le> u_email_mode x \<Longrightarrow> u_email_mode x \<le> 2 \<Longrightarrow> 0 \<le> u_email_mode (f x) \<and> u_email_mode (f x) \<le> 2"
  shows "users_inv (update_where (\<lambda>r. u_id r = i) f us)"
proof -
  have "map u_id (update_where (\<lambda>r. u_id r = i) f us) = map u_id us"
    "map u_handle_key (update_where (\<lambda>r. u_id r = i) f us) = map u_handle_key us"
    using f by (simp_all add: map_update_where)
  moreover have "distinct (emails (update_where (\<lambda>r. u_id r = i) f us))"
    using inv free f by (intro distinct_emails_set [where a = a]) (auto simp: users_inv_def)
  moreover have "list_all user_row_ok (update_where (\<lambda>r. u_id r = i) f us)"
    using inv f mode by (auto simp: users_inv_def list_all_iff set_update_where user_row_ok_def)
  moreover have "\<exists>x \<in> set (update_where (\<lambda>r. u_id r = i) f us). u_sysop x" if "us \<noteq> []"
  proof -
    from inv that obtain x where "x \<in> set us" "u_sysop x" by (auto simp: users_inv_def)
    then show ?thesis using f unfolding set_update_where
      by (intro bexI [of _ "if u_id x = i then f x else x"]) auto
  qed
  ultimately show ?thesis using inv by (simp add: users_inv_def)
qed

lemma users_inv_ConfirmEmail:
  assumes inv: "users_inv (t_users d)"
  shows "users_inv (t_users (snd (ConfirmEmail E u c d)))"
proof (cases rule: ConfirmEmail_cases [of d u E c])
  case (ok v r)
  have "users_inv (update_where (\<lambda>r. u_id r = u)
      (\<lambda>r. r\<lparr>u_email := v_email v, u_email_mode := max (u_email_mode r) EmailNotice\<rparr>) (t_users d))"
    by (rule users_inv_set_email [OF inv ok(5)]) (auto simp: EmailNotice_def)
  then show ?thesis by (simp add: ok(7) drop_pending_def set_user_def)
qed (use inv in \<open>auto simp: drop_pending_def\<close>)

lemma distinct_emails_clear:
  "distinct (emails us) \<Longrightarrow> distinct (emails (update_where p (\<lambda>r. r\<lparr>u_email := [], u_email_mode := 0\<rparr>) us))"
proof -
  have sub: "set (emails (update_where p (\<lambda>r. r\<lparr>u_email := [], u_email_mode := 0\<rparr>) us)) \<subseteq> set (emails us)"
    for us :: "user_row list" by (induction us) auto
  show "distinct (emails us) \<Longrightarrow> distinct (emails (update_where p (\<lambda>r. r\<lparr>u_email := [], u_email_mode := 0\<rparr>) us))"
    by (induction us) (auto dest: sub [THEN subsetD] split: if_splits)
qed

lemma users_inv_row_map:
  assumes inv: "users_inv us" and "distinct (emails (update_where p f us))"
    and f: "\<And>x. u_id (f x) = u_id x \<and> u_handle_key (f x) = u_handle_key x \<and> u_handle (f x) = u_handle x \<and>
      u_sysop (f x) = u_sysop x \<and> u_validated (f x) = u_validated x \<and>
      (0 \<le> u_email_mode (f x) \<and> u_email_mode (f x) \<le> 2)"
  shows "users_inv (update_where p f us)"
proof -
  have "map u_id (update_where p f us) = map u_id us"
    "map u_handle_key (update_where p f us) = map u_handle_key us"
    using f by (simp_all add: map_update_where)
  moreover have "list_all user_row_ok (update_where p f us)"
    using inv f by (auto simp: users_inv_def list_all_iff set_update_where user_row_ok_def)
  moreover have "\<exists>x \<in> set (update_where p f us). u_sysop x" if "us \<noteq> []"
  proof -
    from inv that obtain x where "x \<in> set us" "u_sysop x" by (auto simp: users_inv_def)
    then show ?thesis using f unfolding set_update_where
      by (intro bexI [of _ "if p x then f x else x"]) auto
  qed
  ultimately show ?thesis using assms by (simp add: users_inv_def)
qed

lemma users_inv_SetEmailMode:
  assumes inv: "users_inv (t_users d)"
  shows "users_inv (t_users (snd (SetEmailMode u m d)))"
proof (cases "m < EmailOff \<or> EmailCopy < m")
  case False
  have "users_inv (update_where (\<lambda>r. u_id r = u \<and> u_email r \<noteq> []) (\<lambda>r. r\<lparr>u_email_mode := m\<rparr>) (t_users d))"
    using inv False by (intro users_inv_row_map)
      (auto simp: emails_update_where users_inv_def EmailOff_def EmailCopy_def)
  with False show ?thesis by (simp add: SetEmailMode_def Let_def)
qed (use inv in \<open>simp add: SetEmailMode_def\<close>)

lemma users_inv_RemoveEmail:
  assumes inv: "users_inv (t_users d)"
  shows "users_inv (t_users (snd (RemoveEmail u d)))"
proof -
  have "users_inv (update_where (\<lambda>r. u_id r = u) (\<lambda>r. r\<lparr>u_email := [], u_email_mode := 0\<rparr>) (t_users d))"
    using inv by (intro users_inv_row_map distinct_emails_clear) (auto simp: users_inv_def)
  then show ?thesis by (simp add: RemoveEmail_def tx_def drop_pending_def set_user_def)
qed

section \<open>Theorems\<close>

definition guess_all :: "store_env \<Rightarrow> int \<Rightarrow> string list \<Rightarrow> db \<Rightarrow> db" where
  "guess_all E u cs d = fold (\<lambda>c d. snd (ConfirmEmail E u c d)) cs d"

lemma wrong_guess:
  assumes "pending d u = Some v" "se_now E \<le> v_expires v" "v_attempts v < maxEmailCodeTries"
    "se_sha256 E (trim_space c) \<noteq> v_hash v"
  shows "pending (snd (ConfirmEmail E u c d)) u = Some (v\<lparr>v_attempts := v_attempts v + 1\<rparr>) \<and>
    t_users (snd (ConfirmEmail E u c d)) = t_users d"
proof (cases rule: ConfirmEmail_cases [of d u E c])
  case (wrong w)
  have "find (\<lambda>y. v_user y = u) (update_where (\<lambda>x. v_user x = u) (\<lambda>x. x\<lparr>v_attempts := v_attempts x + 1\<rparr>)
      (t_verifications d)) = map_option (\<lambda>x. if v_user x = u then x\<lparr>v_attempts := v_attempts x + 1\<rparr> else x)
      (find (\<lambda>y. v_user y = u) (t_verifications d))"
    by (rule find_update_where_same) simp
  with assms(1) pending_Some [OF assms(1)] show ?thesis by (simp add: wrong(5) pending_def)
qed (use assms in auto)

lemma guess_all_pending:
  "pending d u = Some v \<Longrightarrow> se_now E \<le> v_expires v \<Longrightarrow>
    v_attempts v + int (length cs) \<le> maxEmailCodeTries \<Longrightarrow>
    \<forall>c \<in> set cs. se_sha256 E (trim_space c) \<noteq> v_hash v \<Longrightarrow>
    pending (guess_all E u cs d) u = Some (v\<lparr>v_attempts := v_attempts v + int (length cs)\<rparr>) \<and>
    t_users (guess_all E u cs d) = t_users d"
proof (induction cs arbitrary: d v)
  case (Cons c cs)
  then have w: "pending (snd (ConfirmEmail E u c d)) u = Some (v\<lparr>v_attempts := v_attempts v + 1\<rparr>)"
    "t_users (snd (ConfirmEmail E u c d)) = t_users d"
    using wrong_guess [of d u v E c] by auto
  have "pending (guess_all E u cs (snd (ConfirmEmail E u c d))) u =
      Some (v\<lparr>v_attempts := v_attempts v + 1\<rparr>\<lparr>v_attempts := v_attempts v + 1 + int (length cs)\<rparr>) \<and>
      t_users (guess_all E u cs (snd (ConfirmEmail E u c d))) = t_users d"
    using Cons.IH [OF w(1)] Cons.prems w(2) by simp
  then show ?case by (simp add: guess_all_def add.assoc)
qed (simp add: guess_all_def)

text \<open>
  Five wrong guesses cancel a pending address: after them even the right code is
  refused, the pending row is deleted, and no account changed in the meantime.
\<close>

theorem five_wrong_codes_cancel:
  assumes "pending d u = Some v" "v_attempts v = 0" "se_now E \<le> v_expires v"
    and "length cs = 5" "\<forall>c \<in> set cs. se_sha256 E (trim_space c) \<noteq> v_hash v"
  shows "fst (ConfirmEmail E u c (guess_all E u cs d)) =
      Inl (invalid ''That code has expired. Ask for a new one.'') \<and>
    pending (snd (ConfirmEmail E u c (guess_all E u cs d))) u = None \<and>
    t_users (snd (ConfirmEmail E u c (guess_all E u cs d))) = t_users d"
proof -
  have g: "pending (guess_all E u cs d) u = Some (v\<lparr>v_attempts := 5\<rparr>)" "t_users (guess_all E u cs d) = t_users d"
    using guess_all_pending [OF assms(1,3), of cs] assms by (auto simp: maxEmailCodeTries_def)
  show ?thesis
    by (cases rule: ConfirmEmail_cases [of "guess_all E u cs d" u E c])
       (use g in \<open>auto simp: maxEmailCodeTries_def\<close>)
qed

text \<open>
  \<open>ConfirmEmail\<close> gives an account an address only when the hash of the given code
  is the stored one, in time, and no other account has that address in any letter case; the
  pending row is then gone and every other account is untouched.
\<close>

theorem ConfirmEmail_proves_ownership:
  assumes "ConfirmEmail E u c d = (Inr x, d')"
  shows "\<exists>v. pending d u = Some v \<and> se_now E \<le> v_expires v \<and> v_attempts v < maxEmailCodeTries \<and>
    se_sha256 E (trim_space c) = v_hash v \<and> u_email x = v_email v \<and> EmailNotice \<le> u_email_mode x \<and>
    (\<forall>y \<in> set (t_users d). sql_lower (u_email y) = sql_lower (v_email v) \<longrightarrow> u_id y = u) \<and>
    pending d' u = None \<and> filter (\<lambda>y. u_id y \<noteq> u) (t_users d') = filter (\<lambda>y. u_id y \<noteq> u) (t_users d)"
proof (cases rule: ConfirmEmail_cases [of d u E c])
  case (ok v r)
  with assms show ?thesis
    by (intro exI [of _ v]) (auto simp: set_user_def filter_update_other)
qed (use assms in auto)

text \<open>
  An account never has more than five login keys, and a key added to one account
  logs exactly that account in.
\<close>

theorem AddSSHKey_logs_in:
  assumes inv: "keys_inv (u_id ` set (t_users d)) (t_ssh_keys d)" and users: "distinct (map u_id (t_users d))"
    and add: "AddSSHKey E u f p c d = (Inr k, d')" and trimmed: "trim_space f = f"
  shows "length (SSHKeys d' u) \<le> MaxSSHKeys \<and> k \<in> set (SSHKeys d' u) \<and>
    UserBySSHKey d' f = UserByID d u \<and> is_ok (UserByID d u)"
proof -
  from add have few: "count_where (\<lambda>k. k_user k = u) (t_ssh_keys d) < MaxSSHKeys"
    and new: "\<forall>x \<in> set (t_ssh_keys d). k_fingerprint x \<noteq> f" and ex: "find_user d u \<noteq> None"
    and k: "k_user k = u" "k_fingerprint k = f" and d': "d' = d\<lparr>t_ssh_keys := t_ssh_keys d @ [k]\<rparr>"
    by (auto simp: AddSSHKey_def Let_def split: if_splits)
  from ex obtain r where r: "find_user d u = Some r" by auto
  then have one: "filter (\<lambda>x. u_id x = u) (t_users d) = [r]"
    using users by (simp add: find_user_def filter_unique)
  have none: "concat (map (\<lambda>x. if k_fingerprint x = f then g x else []) (t_ssh_keys d)) = []"
    for g :: "ssh_key \<Rightarrow> user_row list" using new by (auto simp: concat_eq_Nil_conv)
  have "UserBySSHKey d' f = Inr (user.truncate r)"
    by (simp add: UserBySSHKey_def trimmed d' k one none)
  moreover have "UserByID d u = Inr (user.truncate r)" using r by (simp add: UserByID_def getUser_def)
  ultimately show ?thesis using few by (simp add: SSHKeys_def d' k count_where_def)
qed

section \<open>The theorems at work\<close>

definition demo_pending :: verification where
  "demo_pending = \<lparr>v_user = 2, v_email = ''b@x.y'', v_hash = ''000007'', v_expires = 2000, v_attempts = 0\<rparr>"

definition demo_email_db :: db where
  "demo_email_db = demo_db\<lparr>t_verifications := [demo_pending]\<rparr>"

lemma demo_pending: "pending demo_email_db 2 = Some demo_pending"
  by (simp add: pending_def demo_email_db_def demo_pending_def)

lemma demo_trim: "trim_space ''1'' = ''1''" "trim_space ''000007'' = ''000007''"
  by (rule trim_space_graphic, simp add: graphic_def byte_val_def)+

theorem five_wrong_codes_cancel_witness:
  "fst (ConfirmEmail demo_env 2 ''000007'' (guess_all demo_env 2 [''1'', ''1'', ''1'', ''1'', ''1''] demo_email_db)) =
     Inl (invalid ''That code has expired. Ask for a new one.'')"
  using five_wrong_codes_cancel [OF demo_pending, of demo_env "[''1'', ''1'', ''1'', ''1'', ''1'']" "''000007''"]
  by (simp add: demo_trim demo_pending_def)

theorem ConfirmEmail_proves_ownership_witness:
  "\<exists>x d'. ConfirmEmail demo_env 2 ''000007'' demo_email_db = (Inr x, d') \<and> u_email x = ''b@x.y''"
proof -
  have l: "sql_lower ''b@x.y'' = ''b@x.y''" by (rule sql_lower_id) (simp add: byte_val_def)
  obtain x d' where c: "ConfirmEmail demo_env 2 ''000007'' demo_email_db = (Inr x, d')"
    by (simp add: ConfirmEmail_def pending_def demo_email_db_def demo_trim l maxEmailCodeTries_def set_user_def
        drop_pending_def Let_def demo_pending_def EmailNotice_def store_defs)
  with ConfirmEmail_proves_ownership [OF c] show ?thesis by (auto simp: demo_pending demo_pending_def)
qed

theorem AddSSHKey_logs_in_witness:
  "\<exists>k d'. AddSSHKey demo_env 2 ''SHA256:abc'' ''ssh-ed25519'' ''home'' demo_db = (Inr k, d') \<and>
     UserBySSHKey d' ''SHA256:abc'' = UserByID demo_db 2"
proof -
  obtain k d' where a: "AddSSHKey demo_env 2 ''SHA256:abc'' ''ssh-ed25519'' ''home'' demo_db = (Inr k, d')"
    by (simp add: AddSSHKey_def MaxSSHKeys_def Let_def store_defs)
  have "keys_inv (u_id ` set (t_users demo_db)) (t_ssh_keys demo_db)" "distinct (map u_id (t_users demo_db))"
    by (simp_all add: keys_inv_def store_defs)
  moreover have "trim_space ''SHA256:abc'' = ''SHA256:abc''"
    by (rule trim_space_graphic) (simp add: graphic_def byte_val_def)
  ultimately show ?thesis using a AddSSHKey_logs_in [OF _ _ a] by blast
qed

end
