(* ===== verification/Store_Log.thy ===== *)
theory Store_Log
  imports Store_Email
begin

text \<open>
  \<open>internal/store/events.go\<close> and \<open>throttle.go\<close>: the bounded event log, and the rate-limit hits
  that let limits survive a restart.
\<close>

section \<open>Event log (events.go)\<close>

definition EventLogin :: string where "EventLogin = ''login''"
definition EventLoginFailed :: string where "EventLoginFailed = ''login-failed''"
definition EventLocked :: string where "EventLocked = ''login-locked''"
definition EventSignup :: string where "EventSignup = ''signup''"
definition EventSysop :: string where "EventSysop = ''sysop''"

definition maxEvents :: int where "maxEvents = 5000"

definition LogEvent :: "store_env \<Rightarrow> event \<Rightarrow> db \<Rightarrow> (error + unit) \<times> db" where
  "LogEvent E e d =
     (let es = t_events d @ [e\<lparr>e_id := se_rowid E (map e_id (t_events d)), e_at := se_now E\<rparr>];
          newest = Max (set (map e_id es))
      in (Inr (), d\<lparr>t_events := delete_where (\<lambda>x. e_id x \<le> newest - maxEvents) es\<rparr>))"

definition Events :: "db \<Rightarrow> string \<Rightarrow> int \<Rightarrow> event list" where
  "Events d kind n =
     sql_limit n (rev (sort_key e_id (filter (\<lambda>e. kind = [] \<or> e_kind e = kind) (t_events d))))"

definition events_inv :: "event list \<Rightarrow> bool" where
  "events_inv es \<longleftrightarrow> distinct (map e_id es) \<and> int (length es) \<le> maxEvents"

lemma card_window: "(S :: int set) \<subseteq> {m - n<..m} \<Longrightarrow> 0 \<le> n \<Longrightarrow> int (card S) \<le> n"
  using card_mono [of "{m - n<..m}" S] by auto

lemma events_inv_LogEvent:
  assumes inv: "distinct (map e_id (t_events d))" and fr: "fresh_rowids E"
  shows "events_inv (t_events (snd (LogEvent E e d)))"
proof -
  let ?new = "e\<lparr>e_id := se_rowid E (map e_id (t_events d)), e_at := se_now E\<rparr>"
  let ?es = "t_events d @ [?new]"
  define m where "m = Max (set (map e_id ?es))"
  define kept where "kept = delete_where (\<lambda>x. e_id x \<le> m - maxEvents) ?es"
  have dist: "distinct (map e_id ?es)"
    using inv fresh_rowids_image [OF fr, of e_id "t_events d"] by simp
  then have dk: "distinct (map e_id kept)" unfolding kept_def by (rule distinct_map_delete_where)
  have le: "e_id x \<le> m" if "x \<in> set ?es" for x
    using that unfolding m_def by (intro Max_ge) auto
  have sub: "set (map e_id kept) \<subseteq> {m - maxEvents<..m}"
    using le unfolding kept_def set_map set_delete_where by (auto simp del: set_append)
  have "int (card (set (map e_id kept))) \<le> maxEvents"
    by (rule card_window [OF sub]) (simp add: maxEvents_def)
  then have "int (length kept) \<le> maxEvents" using distinct_card [OF dk] by simp
  with dk show ?thesis by (simp add: events_inv_def LogEvent_def Let_def kept_def m_def)
qed

section \<open>Throttle hits (throttle.go)\<close>

definition throttleRetention :: nanos where "throttleRetention = 48 * 3600 * second"

definition RecordHit :: "string \<Rightarrow> string \<Rightarrow> nanos \<Rightarrow> db \<Rightarrow> db" where
  "RecordHit bucket key at d =
     d\<lparr>t_hits := delete_where (\<lambda>h. h_at h < at - throttleRetention)
        (t_hits d @ [\<lparr>h_bucket = bucket, h_key = key, h_at = at\<rparr>])\<rparr>"

definition ClearHits :: "string \<Rightarrow> string \<Rightarrow> db \<Rightarrow> db" where
  "ClearHits bucket key d =
     d\<lparr>t_hits := delete_where (\<lambda>h. h_bucket h = bucket \<and> h_key h = key) (t_hits d)\<rparr>"

text \<open>The Go map from keys to their times, oldest first; a key without hits is absent.\<close>

definition LoadHits :: "string \<Rightarrow> nanos \<Rightarrow> db \<Rightarrow> string \<Rightarrow> nanos list option" where
  "LoadHits bucket since d key =
     (let rows = sort_key h_at (filter (\<lambda>h. h_bucket h = bucket \<and> since \<le> h_at h) (t_hits d));
          ats = map h_at (filter (\<lambda>h. h_key h = key) rows)
      in if ats = [] then None else Some ats)"

end
