(* ===== verification/FTN_Addr.thy ===== *)
theory FTN_Addr
  imports Go_Strings
begin

text \<open>
  \<open>internal/ftn/addr.go\<close>, the address part of \<open>route.go\<close> and the types of \<open>message.go\<close> that
  the store and the tosser share. Addresses print and parse back; a route prefers a direct
  link, then the boss of a point, then the uplink.
\<close>

section \<open>Addresses (addr.go)\<close>

record Addr =
  Zone :: int
  Net :: int
  Node :: int
  Point :: int
  aDomain :: string

definition zero_addr :: Addr where
  "zero_addr = \<lparr>Zone = 0, Net = 0, Node = 0, Point = 0, aDomain = []\<rparr>"

text \<open>\<open>IndexByte\<close>.\<close>

definition index_byte :: "char \<Rightarrow> string \<Rightarrow> int" where
  "index_byte c s = (if c \<in> set s then int (length (takeWhile (\<lambda>x. x \<noteq> c) s)) else -1)"

definition addr_num :: "string \<Rightarrow> int option" where
  "addr_num p = (case atoi p of None \<Rightarrow> None | Some n \<Rightarrow> if n < 0 \<or> 65535 < n then None else Some n)"

text \<open>The loop over \<open>parts\<close> and the zone check.\<close>

definition addr_of_parts :: "string \<Rightarrow> string \<Rightarrow> string \<Rightarrow> string \<Rightarrow> string \<Rightarrow> Addr option" where
  "addr_of_parts domain zone net node point =
     (case (addr_num zone, addr_num net, addr_num node, addr_num point) of
        (Some z, Some n, Some f, Some p) \<Rightarrow>
          if z = 0 then None
          else Some \<lparr>Zone = z, Net = n, Node = f, Point = p, aDomain = domain\<rparr>
      | _ \<Rightarrow> None)"

text \<open>\<open>None\<close> is \<open>errBadAddr\<close>; \<open>uni\<close> is \<open>unicode.ToLower\<close> beyond ASCII.\<close>

definition ParseAddr :: "(rune \<Rightarrow> rune) \<Rightarrow> string \<Rightarrow> Addr option" where
  "ParseAddr uni s0 =
     (let s1 = trim_space s0;
          (domain, s) = (case cut_at CHR ''@'' s1 of
             None \<Rightarrow> ([], s1) | Some (a, b) \<Rightarrow> (to_lower uni b, a));
          colon = index_byte CHR '':'' s;
          slash = index_byte CHR ''/'' s
      in if colon \<le> 0 \<or> slash < colon + 2 then None
         else let rest = drop (nat slash + 1) s;
                  (nodePart, point) = (case cut_at CHR ''.'' rest of
                     None \<Rightarrow> (rest, ''0'') | Some (a, b) \<Rightarrow> (a, b))
              in addr_of_parts domain (take (nat colon) s)
                   (take (nat slash - nat colon - 1) (drop (nat colon + 1) s)) nodePart point)"

definition Addr_String :: "Addr \<Rightarrow> string" where
  "Addr_String a = itoa (Zone a) @ '':'' @ itoa (Net a) @ ''/'' @ itoa (Node a) @
     (if Point a \<noteq> 0 then ''.'' @ itoa (Point a) else [])"

definition String5D :: "Addr \<Rightarrow> string" where
  "String5D a = (if aDomain a = [] then Addr_String a else Addr_String a @ ''@'' @ aDomain a)"

definition Boss :: "Addr \<Rightarrow> Addr" where
  "Boss a = a\<lparr>Point := 0\<rparr>"

definition IsPoint :: "Addr \<Rightarrow> bool" where
  "IsPoint a \<longleftrightarrow> Point a \<noteq> 0"

definition Same :: "Addr \<Rightarrow> Addr \<Rightarrow> bool" where
  "Same a b \<longleftrightarrow> Zone a = Zone b \<and> Net a = Net b \<and> Node a = Node b \<and> Point a = Point b"

record Net2D =
  n2_net :: int
  n2_node :: int

section \<open>Routing (route.go)\<close>

record Routes =
  Direct :: "Addr list"
  Via :: Addr

definition Contains :: "Addr list \<Rightarrow> Addr \<Rightarrow> bool" where
  "Contains addrs a = list_ex (\<lambda>x. Same x a) addrs"

text \<open>\<open>None\<close> is \<open>ok = false\<close>.\<close>

definition Hop :: "Routes \<Rightarrow> Addr \<Rightarrow> Addr option" where
  "Hop r dest =
     (if list_ex (\<lambda>d. Same d dest) (Direct r) then Some dest
      else if IsPoint dest \<and> list_ex (\<lambda>d. Same d (Boss dest)) (Direct r) then Some (Boss dest)
      else if Zone (Via r) \<noteq> 0 then Some (Via r)
      else None)"

fun ParseAddrList_loop :: "(rune \<Rightarrow> rune) \<Rightarrow> string list \<Rightarrow> Addr list option" where
  "ParseAddrList_loop uni [] = Some []"
| "ParseAddrList_loop uni (f # fs) =
     (let g = trim_space f in
      if g = [] then ParseAddrList_loop uni fs
      else case ParseAddr uni g of
          None \<Rightarrow> None
        | Some a \<Rightarrow> map_option ((#) a) (ParseAddrList_loop uni fs))"

definition ParseAddrList :: "(rune \<Rightarrow> rune) \<Rightarrow> string \<Rightarrow> Addr list option" where
  "ParseAddrList uni s = ParseAddrList_loop uni (split_on CHR '','' s)"

section \<open>Messages (types of message.go and packet.go)\<close>

datatype Charset = ASCII | CP437 | CP866 | Latin1 | UTF8

record Kludge =
  kl_name :: string
  kl_value :: string

text \<open>\<open>Date\<close> is a Unix time in nanoseconds, \<open>None\<close> the zero time; \<open>Attr\<close> is the attribute word.\<close>

record Message =
  Area :: string
  From :: string
  To :: string
  Subject :: string
  Date :: "int option"
  Orig :: Addr
  Dest :: Addr
  Attr :: nat
  MsgID :: string
  Reply :: string
  Charset :: Charset
  TZUTC :: string
  Body :: string
  SeenBy :: "Net2D list"
  Path :: "Net2D list"
  Kludges :: "Kludge list"

section \<open>Printing and parsing\<close>

definition addr_ok :: "Addr \<Rightarrow> bool" where
  "addr_ok a \<longleftrightarrow> 0 < Zone a \<and> Zone a \<le> 65535 \<and> 0 \<le> Net a \<and> Net a \<le> 65535 \<and>
     0 \<le> Node a \<and> Node a \<le> 65535 \<and> 0 \<le> Point a \<and> Point a \<le> 65535"

lemma itoa_digits: "0 \<le> i \<Longrightarrow> list_all is_digit (itoa i)"
  by (simp add: itoa_def nat_digits_digits)

lemma itoa_ne [simp]: "itoa i \<noteq> []"
  by (simp add: itoa_def nat_digits_digits)

lemma digit_notin: "list_all is_digit s \<Longrightarrow> \<not> is_digit c \<Longrightarrow> c \<notin> set s"
  by (auto simp: list_all_iff)

lemma seps_not_digit: "\<not> is_digit CHR '':''" "\<not> is_digit CHR ''/''" "\<not> is_digit CHR ''.''" "\<not> is_digit CHR ''@''"
  by (simp_all add: is_digit_def byte_val_def)

lemma addr_num_itoa: "0 \<le> i \<Longrightarrow> i \<le> 65535 \<Longrightarrow> addr_num (itoa i) = Some i"
  by (simp add: addr_num_def atoi_itoa int_range_def)

lemma index_byte_append: "c \<notin> set a \<Longrightarrow> index_byte c (a @ c # b) = int (length a)"
  by (induction a) (auto simp: index_byte_def)

lemma digit_ascii: "is_digit c \<Longrightarrow> is_ascii c \<and> \<not> is_space (byte_val c)"
  by (auto simp: is_digit_def is_ascii_def is_space_def)

lemma String_chars:
  assumes "addr_ok a" "c \<in> set (Addr_String a)"
  shows "is_ascii c \<and> \<not> is_space (byte_val c) \<and> c \<noteq> CHR ''@''"
proof -
  have "is_digit c \<or> c \<in> {CHR '':'', CHR ''/'', CHR ''.''}"
    using assms itoa_digits [of "Zone a"] itoa_digits [of "Net a"] itoa_digits [of "Node a"]
      itoa_digits [of "Point a"]
    by (auto simp: Addr_String_def addr_ok_def list_all_iff split: if_splits)
  then show ?thesis
    using digit_ascii [of c] seps_not_digit by (auto simp: is_ascii_def is_space_def byte_val_def)
qed

lemma ParseAddr_core:
  assumes ok: "addr_ok a" and s: "s = Addr_String a"
  shows "index_byte CHR '':'' s = int (length (itoa (Zone a)))"
    and "index_byte CHR ''/'' s = int (length (itoa (Zone a)) + 1 + length (itoa (Net a)))"
    and "drop (length (itoa (Zone a)) + 1 + length (itoa (Net a)) + 1) s =
      itoa (Node a) @ (if Point a \<noteq> 0 then ''.'' @ itoa (Point a) else [])"
    and "take (length (itoa (Zone a))) s = itoa (Zone a)"
    and "take (length (itoa (Net a))) (drop (length (itoa (Zone a)) + 1) s) = itoa (Net a)"
proof -
  have d: "list_all is_digit (itoa (Zone a))" "list_all is_digit (itoa (Net a))"
    using ok by (auto simp: addr_ok_def intro: itoa_digits)
  have c: "CHR '':'' \<notin> set (itoa (Zone a))" "CHR ''/'' \<notin> set (itoa (Zone a) @ '':'' @ itoa (Net a))"
    using d digit_notin seps_not_digit by auto
  let ?r = "itoa (Node a) @ (if Point a \<noteq> 0 then ''.'' @ itoa (Point a) else [])"
  have s1: "s = itoa (Zone a) @ CHR '':'' # (itoa (Net a) @ ''/'' @ ?r)" by (simp add: s Addr_String_def)
  have s2: "s = (itoa (Zone a) @ '':'' @ itoa (Net a)) @ CHR ''/'' # ?r" by (simp add: s Addr_String_def)
  show "index_byte CHR '':'' s = int (length (itoa (Zone a)))"
    unfolding s1 by (rule index_byte_append [OF c(1)])
  show "index_byte CHR ''/'' s = int (length (itoa (Zone a)) + 1 + length (itoa (Net a)))"
    unfolding s2 using index_byte_append [OF c(2)] by simp
  show "drop (length (itoa (Zone a)) + 1 + length (itoa (Net a)) + 1) s = ?r"
    unfolding s2 by simp
  show "take (length (itoa (Zone a))) s = itoa (Zone a)" unfolding s1 by simp
  show "take (length (itoa (Net a))) (drop (length (itoa (Zone a)) + 1) s) = itoa (Net a)"
    unfolding s1 by simp
qed

lemma cut_point:
  assumes "addr_ok a"
  shows "(case cut_at CHR ''.'' (itoa (Node a) @ (if Point a \<noteq> 0 then ''.'' @ itoa (Point a) else [])) of
      None \<Rightarrow> (itoa (Node a) @ (if Point a \<noteq> 0 then ''.'' @ itoa (Point a) else []), ''0'')
    | Some (x, y) \<Rightarrow> (x, y)) = (itoa (Node a), if Point a \<noteq> 0 then itoa (Point a) else ''0'')"
proof -
  have "list_all is_digit (itoa (Node a))" using assms by (auto simp: addr_ok_def intro: itoa_digits)
  then have n: "CHR ''.'' \<notin> set (itoa (Node a))" using digit_notin seps_not_digit by auto
  then have "cut_at CHR ''.'' (itoa (Node a)) = None" by (simp add: cut_at_none_iff)
  with n show ?thesis using cut_at_append [OF n, of "itoa (Point a)"] by simp
qed

lemma addr_num_0: "addr_num ''0'' = Some 0"
  by code_simp

text \<open>Parsing what stands before the domain.\<close>

lemma ParseAddr_String5D:
  assumes ok: "addr_ok a" and dom: "list_all (\<lambda>c. is_ascii c \<and> \<not> is_space (byte_val c)) (aDomain a)"
    and low: "sql_lower (aDomain a) = aDomain a"
  shows "ParseAddr uni (String5D a) = Some a"
proof -
  let ?s = "Addr_String a"
  have chars: "list_all (\<lambda>c. is_ascii c \<and> \<not> is_space (byte_val c)) ?s" "CHR ''@'' \<notin> set ?s"
    using String_chars [OF ok] by (auto simp: list_all_iff)
  have "is_ascii CHR ''@'' \<and> \<not> is_space (byte_val CHR ''@'')"
    by (simp add: is_ascii_def is_space_def byte_val_def)
  then have trim: "trim_space (String5D a) = String5D a"
    using chars(1) dom by (intro trim_space_id) (auto simp: String5D_def)
  have "to_lower uni (aDomain a) = aDomain a"
    using dom low by (subst to_lower_ascii) (auto simp: list_all_iff)
  then have dm: "(case cut_at CHR ''@'' (String5D a) of
      None \<Rightarrow> ([], String5D a) | Some (x, y) \<Rightarrow> (to_lower uni y, x)) = (aDomain a, ?s)"
    using chars(2) cut_at_append [OF chars(2), of "aDomain a"]
      cut_at_none_iff [of "CHR ''@''" ?s]
    by (simp add: String5D_def)
  have num: "addr_num (itoa (Zone a)) = Some (Zone a)" "addr_num (itoa (Net a)) = Some (Net a)"
    "addr_num (itoa (Node a)) = Some (Node a)"
    "addr_num (if Point a \<noteq> 0 then itoa (Point a) else ''0'') = Some (Point a)"
    using ok by (auto simp: addr_ok_def addr_num_itoa addr_num_0)
  have pos: "0 < length (itoa (Zone a))" "0 < length (itoa (Net a))" "Zone a \<noteq> 0"
    using ok by (auto simp: addr_ok_def)
  note core = ParseAddr_core [OF ok refl]
  have n: "nat (int (length (itoa (Zone a)) + 1 + length (itoa (Net a)))) - nat (int (length (itoa (Zone a)))) - 1
      = length (itoa (Net a))" by simp
  show ?thesis
    unfolding ParseAddr_def Let_def trim dm prod.case core(1,2) n nat_int core(3,4,5) cut_point [OF ok]
    using pos num core(5) by (simp add: addr_of_parts_def)
qed

text \<open>
  FidoNet addresses: parsing the 4D form of a well-formed address gives the address
  back (without its domain, which that form leaves out), points included.
\<close>

theorem ParseAddr_String:
  assumes "addr_ok a"
  shows "ParseAddr uni (Addr_String a) = Some (a\<lparr>aDomain := []\<rparr>)"
proof -
  have "ParseAddr uni (String5D (a\<lparr>aDomain := []\<rparr>)) = Some (a\<lparr>aDomain := []\<rparr>)"
    using assms by (intro ParseAddr_String5D) (auto simp: addr_ok_def sql_lower_def)
  moreover have "String5D (a\<lparr>aDomain := []\<rparr>) = Addr_String a"
    by (simp add: String5D_def Addr_String_def)
  ultimately show ?thesis by simp
qed

lemma addr_num_bounds: "addr_num p = Some n \<Longrightarrow> 0 \<le> n \<and> n \<le> 65535"
  by (auto simp: addr_num_def split: option.splits if_splits)

lemma addr_of_parts_ok: "addr_of_parts dm z n f p = Some a \<Longrightarrow> addr_ok a"
  by (auto simp: addr_of_parts_def addr_ok_def split: option.splits if_splits dest!: addr_num_bounds)

lemma ParseAddr_ok: "ParseAddr uni s = Some a \<Longrightarrow> addr_ok a"
  by (auto simp: ParseAddr_def Let_def split: prod.splits if_splits dest!: addr_of_parts_ok)

text \<open>
  Routing: with a sane table netmail always has a next hop, which is the
  destination itself, its boss node, or the uplink; the boss is used for points only, and the
  uplink never when there is a direct link to the destination or its boss.
\<close>

theorem Hop_spec:
  "(Hop r dest = None \<longleftrightarrow> \<not> Contains (Direct r) dest \<and>
      \<not> (IsPoint dest \<and> Contains (Direct r) (Boss dest)) \<and> Zone (Via r) = 0) \<and>
   (\<forall>h. Hop r dest = Some h \<longrightarrow>
      (h = dest \<and> Contains (Direct r) dest) \<or>
      (h = Boss dest \<and> IsPoint dest \<and> Contains (Direct r) h \<and> \<not> Contains (Direct r) dest) \<or>
      (h = Via r \<and> \<not> Contains (Direct r) dest \<and> \<not> (IsPoint dest \<and> Contains (Direct r) (Boss dest))))"
  by (auto simp: Hop_def Contains_def)

definition demo_addr :: Addr where
  "demo_addr = \<lparr>Zone = 2, Net = 410, Node = 9, Point = 1, aDomain = ''fidonet''\<rparr>"

theorem ParseAddr_String_witness: "ParseAddr (\<lambda>r. r) (Addr_String demo_addr) = Some (demo_addr\<lparr>aDomain := []\<rparr>)"
  using ParseAddr_String [of demo_addr "\<lambda>r. r"] by (simp add: addr_ok_def demo_addr_def)

theorem Hop_spec_witness: "Hop \<lparr>Direct = [Boss demo_addr], Via = zero_addr\<rparr> demo_addr = Some (Boss demo_addr)"
  using Hop_spec [of "\<lparr>Direct = [Boss demo_addr], Via = zero_addr\<rparr>" demo_addr]
  by (auto simp: Contains_def Same_def Boss_def IsPoint_def demo_addr_def zero_addr_def Hop_def)

end
