(* ===== verification/Store_Fido.thy ===== *)
theory Store_Fido
  imports Store_Boards Store_Log FTN_Addr
begin

text \<open>
  \<open>internal/store/echo.go\<close>, \<open>netmail.go\<close> and \<open>files.go\<close>: FidoNet conferences, netmail and file
  echoes as the store keeps them. Imports never store a message twice and every table is
  bounded: 2000 messages per conference, 1000 netmails.
\<close>

section \<open>Helpers\<close>

text \<open>\<open>for n > 0 \&\& !utf8.RuneStart(s[n]) \<close>.\<close>

fun trunc_point :: "string \<Rightarrow> nat \<Rightarrow> nat" where
  "trunc_point s 0 = 0"
| "trunc_point s (Suc n) = (if rune_start (s ! Suc n) then Suc n else trunc_point s n)"

definition truncateUTF8 :: "string \<Rightarrow> nat \<Rightarrow> string" where
  "truncateUTF8 s n = (if length s \<le> n then s else take (trunc_point s n) s)"

definition hex_digit :: "nat \<Rightarrow> char" where
  "hex_digit n = (if n < 10 then byte_of (48 + n) else byte_of (87 + n))"

definition hex_encode :: "string \<Rightarrow> string" where
  "hex_encode s = concat (map (\<lambda>c. [hex_digit (byte_val c div 16), hex_digit (byte_val c mod 16)]) s)"

definition unix_seconds :: "int option \<Rightarrow> int" where
  "unix_seconds t = (case t of None \<Rightarrow> -62135596800 | Some n \<Rightarrow> n div 1000000000)"

definition syntheticMsgID :: "store_env \<Rightarrow> Message \<Rightarrow> string" where
  "syntheticMsgID E m =
     ''boar-'' @ hex_encode (se_sha1 E (Area m @ [LF] @ From m @ [LF] @ Addr_String (Orig m) @ [LF] @
       To m @ [LF] @ Subject m @ [LF] @ itoa (unix_seconds (Date m)) @ [LF] @ Body m))"

definition or_default :: "string \<Rightarrow> string \<Rightarrow> string" where
  "or_default s dflt = (if s = [] then dflt else s)"

section \<open>Conferences (echo.go)\<close>

definition MaxEchoTagLen :: nat where "MaxEchoTagLen = 40"
definition MaxEchoFromLen :: nat where "MaxEchoFromLen = 36"
definition MaxEchoAddrLen :: nat where "MaxEchoAddrLen = 40"
definition MaxEchoBodyBytes :: nat where "MaxEchoBodyBytes = 64 * 1024"
definition MaxEchoMessages :: nat where "MaxEchoMessages = 2000"

record area_summary =
  as_id :: int
  as_tag :: string
  as_desc :: string
  as_created :: nanos
  as_posts :: nat
  as_new :: nat
  as_last :: nanos

definition EchoLastRead :: "db \<Rightarrow> int \<Rightarrow> int \<Rightarrow> int" where
  "EchoLastRead d userID areaID = lookup_mark (t_echo_reads d) userID areaID"

definition EchoAreas :: "db \<Rightarrow> int \<Rightarrow> area_summary list" where
  "EchoAreas d userID = map (\<lambda>a.
     let ms = filter (\<lambda>m. em_area m = ea_id a) (t_echo_messages d)
     in \<lparr>as_id = ea_id a, as_tag = ea_tag a, as_desc = ea_desc a, as_created = ea_created a,
         as_posts = length ms,
         as_new = count_where (\<lambda>m. EchoLastRead d userID (ea_id a) < em_id m) ms,
         as_last = (if ms = [] then 0 else Max (set (map em_at ms)))\<rparr>)
     (sort_key ea_tag (t_echo_areas d))"

definition EchoAreaByID :: "db \<Rightarrow> int \<Rightarrow> error + echo_area" where
  "EchoAreaByID d i =
     (case find (\<lambda>a. ea_id a = i) (t_echo_areas d) of None \<Rightarrow> Inl ErrNotFound | Some a \<Rightarrow> Inr a)"

definition EchoMessages :: "db \<Rightarrow> int \<Rightarrow> echo_message list" where
  "EchoMessages d areaID = sql_limit (int MaxEchoMessages)
     (rev (sort_key em_id (filter (\<lambda>m. em_area m = areaID) (t_echo_messages d))))"

definition echo_known :: "db \<Rightarrow> int \<Rightarrow> int \<Rightarrow> bool" where
  "echo_known d userID areaID \<longleftrightarrow>
     userID \<in> set (map u_id (t_users d)) \<and> areaID \<in> set (map ea_id (t_echo_areas d))"

definition MarkEchoRead :: "int \<Rightarrow> int \<Rightarrow> int \<Rightarrow> db \<Rightarrow> (error + unit) \<times> db" where
  "MarkEchoRead userID areaID msgID d =
     (case upsert_mark (echo_known d userID areaID) userID areaID msgID (t_echo_reads d) of
        Inl e \<Rightarrow> (Inl e, d) | Inr ms \<Rightarrow> (Inr (), d\<lparr>t_echo_reads := ms\<rparr>))"

definition EchoUnreadCount :: "db \<Rightarrow> int \<Rightarrow> nat" where
  "EchoUnreadCount d userID = sum_list (map as_new (EchoAreas d userID))"

definition FTNFileSeen :: "db \<Rightarrow> string \<Rightarrow> bool" where
  "FTNFileSeen d sha = exists_where (\<lambda>(s, _, _). s = sha) (t_tossed d)"

definition MarkFTNFile :: "store_env \<Rightarrow> string \<Rightarrow> string \<Rightarrow> db \<Rightarrow> db" where
  "MarkFTNFile E sha name d =
     (if FTNFileSeen d sha then d else d\<lparr>t_tossed := t_tossed d @ [(sha, name, se_now E)]\<rparr>)"

datatype TossResult = TossStored | TossDuplicate | TossSkipped

definition ensureEchoArea :: "store_env \<Rightarrow> string \<Rightarrow> db \<Rightarrow> int \<times> db" where
  "ensureEchoArea E tag d =
     (case find (\<lambda>a. ea_tag a = tag) (t_echo_areas d) of
        Some a \<Rightarrow> (ea_id a, d)
      | None \<Rightarrow>
          let id = se_rowid E (map ea_id (t_echo_areas d))
          in (id, d\<lparr>t_echo_areas := t_echo_areas d @
                [\<lparr>ea_id = id, ea_tag = tag, ea_desc = [], ea_created = se_now E\<rparr>]\<rparr>))"

definition pruneEchoArea :: "int \<Rightarrow> echo_message list \<Rightarrow> echo_message list" where
  "pruneEchoArea areaID ms =
     (let n = count_where (\<lambda>m. em_area m = areaID) ms in
      if n \<le> MaxEchoMessages then ms
      else let old = take (n - MaxEchoMessages)
                       (sort (map em_id (filter (\<lambda>m. em_area m = areaID) ms)))
           in delete_where (\<lambda>m. em_area m = areaID \<and> em_id m \<in> set old) ms)"

definition ImportEcho :: "store_env \<Rightarrow> Message \<Rightarrow> db \<Rightarrow> (error + TossResult) \<times> db" where
  "ImportEcho E m d =
     (if Area m = [] then (Inr TossSkipped, d)
      else let tag = to_upper (se_upper E) (trim_space (Area m)) in
        if tag = [] \<or> MaxEchoTagLen < length tag then (Inr TossSkipped, d)
        else let msgid = or_default (trim_space (MsgID m)) (syntheticMsgID E m);
                 posted = (case Date m of None \<Rightarrow> se_now E | Some t \<Rightarrow> t)
             in tx (\<lambda>d.
               if exists_where (\<lambda>x. em_msgid x = msgid) (t_echo_messages d) then Inr (TossDuplicate, d)
               else let (areaID, d1) = ensureEchoArea E tag d;
                        row = \<lparr>em_id = se_rowid E (map em_id (t_echo_messages d1)), em_area = areaID,
                               em_msgid = msgid,
                               em_from = or_default (Clean (From m) MaxEchoFromLen) ''Unknown'',
                               em_addr = Clean (Addr_String (Orig m)) MaxEchoAddrLen,
                               em_to = or_default (Clean (To m) MaxEchoFromLen) ''All'',
                               em_subject = or_default (Clean (Subject m) MaxSubjectLen) ''(no subject)'',
                               em_body = truncateUTF8 (Body m) MaxEchoBodyBytes, em_at = posted\<rparr>
                    in Inr (TossStored, d1\<lparr>t_echo_messages :=
                         pruneEchoArea areaID (t_echo_messages d1 @ [row])\<rparr>)) d)"

interpretation echo_marks: read_marks EchoLastRead MarkEchoRead echo_known
proof
  fix d u a i v b e
  show "echo_known d u a \<Longrightarrow> fst (MarkEchoRead u a i d) = Inr ()"
    by (auto simp: MarkEchoRead_def upsert_mark_def)
  show "echo_known (snd (MarkEchoRead u a i d)) = echo_known d"
    by (auto simp: MarkEchoRead_def echo_known_def fun_eq_iff split: sum.splits)
  show "fst (MarkEchoRead u a i d) = Inr () \<Longrightarrow> 0 \<le> i \<Longrightarrow>
      EchoLastRead (snd (MarkEchoRead u a i d)) v b =
        (if v = u \<and> b = a then max (EchoLastRead d u a) i else EchoLastRead d v b)"
    by (auto simp: MarkEchoRead_def EchoLastRead_def lookup_upsert split: sum.splits)
  show "fst (MarkEchoRead u a i d) = Inl e \<Longrightarrow> snd (MarkEchoRead u a i d) = d"
    by (auto simp: MarkEchoRead_def split: sum.splits)
qed

section \<open>Netmail (netmail.go)\<close>

definition MaxNetmailNameLen :: nat where "MaxNetmailNameLen = 36"
definition MaxNetmailAddrLen :: nat where "MaxNetmailAddrLen = 40"
definition MaxNetmailBodySize :: nat where "MaxNetmailBodySize = 64 * 1024"
definition MaxNetmailKept :: nat where "MaxNetmailKept = 1000"

definition cleanNetmailName :: "string \<Rightarrow> string \<Rightarrow> string" where
  "cleanNetmailName s dflt = or_default (Clean s MaxNetmailNameLen) dflt"

text \<open>The result says whether the row was stored; a row with the same MSGID is left alone.\<close>

definition insertNetmail :: "store_env \<Rightarrow> netmail \<Rightarrow> db \<Rightarrow> (error + bool) \<times> db" where
  "insertNetmail E n = tx (\<lambda>d.
     if exists_where (\<lambda>x. n_msgid x = n_msgid n) (t_netmail d) then Inr (False, d)
     else if n_author n \<noteq> 0 \<and> find_user d (n_author n) = None then Inl ErrConstraint
     else let rows = t_netmail d @ [n\<lparr>n_id := se_rowid E (map n_id (t_netmail d)), n_received := se_now E\<rparr>];
              keep = take MaxNetmailKept (rev (sort (map n_id rows)))
          in Inr (True, d\<lparr>t_netmail := delete_where (\<lambda>x. n_id x \<notin> set keep) rows\<rparr>))"

definition netmail_of :: "store_env \<Rightarrow> Message \<Rightarrow> netmail" where
  "netmail_of E m =
     \<lparr>n_id = 0, n_outgoing = False,
      n_msgid = or_default (trim_space (MsgID m)) (syntheticMsgID E m),
      n_reply_to = trim_space (Reply m),
      n_from_name = cleanNetmailName (From m) ''Unknown'',
      n_from_addr = Clean (Addr_String (Orig m)) MaxNetmailAddrLen,
      n_to_name = cleanNetmailName (To m) ''Sysop'',
      n_to_addr = Clean (Addr_String (Dest m)) MaxNetmailAddrLen,
      n_subject = or_default (Clean (Subject m) MaxSubjectLen) ''(no subject)'',
      n_body = truncateUTF8 (Body m) MaxNetmailBodySize,
      n_posted = (case Date m of None \<Rightarrow> se_now E | Some t \<Rightarrow> t),
      n_received = 0, n_read = 0, n_author = 0\<rparr>"

definition ImportNetmail :: "store_env \<Rightarrow> Message \<Rightarrow> db \<Rightarrow> (error + TossResult) \<times> db" where
  "ImportNetmail E m d =
     (if Area m \<noteq> [] then (Inr TossSkipped, d)
      else case insertNetmail E (netmail_of E m) d of
          (Inl e, d') \<Rightarrow> (Inl e, d')
        | (Inr stored, d') \<Rightarrow> (Inr (if stored then TossStored else TossDuplicate), d'))"

definition NetmailByMsgID :: "db \<Rightarrow> string \<Rightarrow> error + netmail" where
  "NetmailByMsgID d msgid =
     (case find (\<lambda>n. n_msgid n = msgid) (t_netmail d) of None \<Rightarrow> Inl ErrNotFound | Some n \<Rightarrow> Inr n)"

definition sent_netmail :: "store_env \<Rightarrow> netmail \<Rightarrow> netmail" where
  "sent_netmail E n =
     (let posted = (if n_posted n = 0 then se_now E else n_posted n)
      in n\<lparr>n_outgoing := True, n_from_name := cleanNetmailName (n_from_name n) ''Sysop'',
           n_to_name := cleanNetmailName (n_to_name n) ''Sysop'',
           n_subject := Clean (n_subject n) MaxSubjectLen,
           n_body := truncateUTF8 (n_body n) MaxNetmailBodySize,
           n_posted := posted, n_read := posted\<rparr>)"

definition RecordSentNetmail :: "store_env \<Rightarrow> netmail \<Rightarrow> db \<Rightarrow> (error + netmail) \<times> db" where
  "RecordSentNetmail E n d =
     (case insertNetmail E (sent_netmail E n) d of
        (Inl e, d') \<Rightarrow> (Inl e, d')
      | (Inr _, d') \<Rightarrow> (NetmailByMsgID d' (n_msgid n), d'))"

text \<open>The SQL condition \<open>netmailVisible\<close>; \<open>to_name\<close> is compared with \<open>NOCASE\<close>.\<close>

definition netmailVisible :: "user \<Rightarrow> netmail \<Rightarrow> bool" where
  "netmailVisible u n \<longleftrightarrow> u_sysop u \<or> (\<not> n_outgoing n \<and> sql_lower (n_to_name n) = sql_lower (u_handle u)) \<or>
     (n_author n \<noteq> 0 \<and> n_author n = u_id u)"

definition NetmailFor :: "db \<Rightarrow> user \<Rightarrow> netmail list" where
  "NetmailFor d u = rev (sort_key n_id (filter (netmailVisible u) (t_netmail d)))"

definition NetmailUnread :: "db \<Rightarrow> user \<Rightarrow> nat" where
  "NetmailUnread d u =
     count_where (\<lambda>n. n_read n = 0 \<and> \<not> n_outgoing n \<and> netmailVisible u n) (t_netmail d)"

definition MarkNetmailRead :: "store_env \<Rightarrow> int \<Rightarrow> db \<Rightarrow> db" where
  "MarkNetmailRead E i d = d\<lparr>t_netmail :=
     update_where (\<lambda>n. n_id n = i \<and> n_read n = 0) (\<lambda>n. n\<lparr>n_read := se_now E\<rparr>) (t_netmail d)\<rparr>"

section \<open>File echoes (files.go)\<close>

definition MaxFileAreaTagLen :: nat where "MaxFileAreaTagLen = 40"
definition MaxFileNameLen :: nat where "MaxFileNameLen = 255"
definition MaxFileDescLen :: nat where "MaxFileDescLen = 4 * 1024"

definition ensureFileArea :: "store_env \<Rightarrow> string \<Rightarrow> string \<Rightarrow> db \<Rightarrow> int \<times> db" where
  "ensureFileArea E tag areaDesc d =
     (case find (\<lambda>a. fa_tag a = tag) (t_file_areas d) of
        None \<Rightarrow>
          let id = se_rowid E (map fa_id (t_file_areas d))
          in (id, d\<lparr>t_file_areas := t_file_areas d @ [\<lparr>fa_id = id, fa_tag = tag,
                    fa_desc = Clean areaDesc MaxSubjectLen, fa_created = se_now E\<rparr>]\<rparr>)
      | Some a \<Rightarrow> (fa_id a,
          if areaDesc = [] then d
          else d\<lparr>t_file_areas := update_where (\<lambda>x. fa_id x = fa_id a \<and> fa_desc x = [])
                   (\<lambda>x. x\<lparr>fa_desc := Clean areaDesc MaxSubjectLen\<rparr>) (t_file_areas d)\<rparr>))"

definition new_file :: "store_env \<Rightarrow> int \<Rightarrow> file_row \<Rightarrow> file_row list \<Rightarrow> file_row" where
  "new_file E areaID f fs = f\<lparr>f_id := se_rowid E (map f_id fs), f_area := areaID,
     f_desc := truncateUTF8 (f_desc f) MaxFileDescLen, f_ldesc := truncateUTF8 (f_ldesc f) MaxFileDescLen,
     f_origin := Clean (f_origin f) MaxEchoAddrLen, f_from := Clean (f_from f) MaxEchoAddrLen,
     f_received := se_now E, f_downloads := 0\<rparr>"

definition put_file :: "store_env \<Rightarrow> int \<Rightarrow> file_row \<Rightarrow> db \<Rightarrow> error + (string \<times> db)" where
  "put_file E areaID f d =
     (let same = (\<lambda>x. f_area x = areaID \<and> f_name x = f_name f);
          old = (case find same (t_files d) of None \<Rightarrow> [] | Some x \<Rightarrow> f_path x);
          fs = (if old \<noteq> [] then delete_where same (t_files d) else t_files d)
      in if exists_where same fs then Inl ErrConstraint
         else Inr (old, d\<lparr>t_files := fs @ [new_file E areaID f fs]\<rparr>))"

definition AddFile ::
    "store_env \<Rightarrow> string \<Rightarrow> string \<Rightarrow> file_row \<Rightarrow> db \<Rightarrow> (error + string) \<times> db" where
  "AddFile E areaTag areaDesc f d =
     (let tag = to_upper (se_upper E) (trim_space areaTag) in
      if tag = [] \<or> MaxFileAreaTagLen < length tag \<or> f_name f = [] \<or> MaxFileNameLen < length (f_name f)
      then (Inl (invalid ''bad file area or file name''), d)
      else tx (\<lambda>d. let (areaID, d1) = ensureFileArea E tag areaDesc d in put_file E areaID f d1) d)"

definition RemoveFile :: "store_env \<Rightarrow> string \<Rightarrow> string \<Rightarrow> db \<Rightarrow> (error + string) \<times> db" where
  "RemoveFile E areaTag name = tx (\<lambda>d.
     case find (\<lambda>f. sql_lower (f_name f) = sql_lower name \<and>
             exists_where (\<lambda>a. fa_id a = f_area f \<and> fa_tag a = to_upper (se_upper E) areaTag) (t_file_areas d))
           (t_files d) of
       None \<Rightarrow> Inl ErrNotFound
     | Some f \<Rightarrow> Inr (f_path f, d\<lparr>t_files := delete_where (\<lambda>x. f_path x = f_path f) (t_files d)\<rparr>))"

definition FilesLastSeen :: "db \<Rightarrow> int \<Rightarrow> int \<Rightarrow> int" where
  "FilesLastSeen d userID areaID = lookup_mark (t_file_reads d) userID areaID"

definition FileAreas :: "db \<Rightarrow> int \<Rightarrow> area_summary list" where
  "FileAreas d userID = map (\<lambda>a.
     let fs = filter (\<lambda>f. f_area f = fa_id a) (t_files d)
     in \<lparr>as_id = fa_id a, as_tag = fa_tag a, as_desc = fa_desc a, as_created = fa_created a,
         as_posts = length fs,
         as_new = count_where (\<lambda>f. FilesLastSeen d userID (fa_id a) < f_id f) fs,
         as_last = (if fs = [] then 0 else Max (set (map f_received fs)))\<rparr>)
     (sort_key fa_tag (t_file_areas d))"

definition FilesIn :: "db \<Rightarrow> int \<Rightarrow> file_row list" where
  "FilesIn d areaID = rev (sort_key f_id (filter (\<lambda>f. f_area f = areaID) (t_files d)))"

definition FileByID :: "db \<Rightarrow> int \<Rightarrow> error + file_row" where
  "FileByID d i = (case find (\<lambda>f. f_id f = i) (t_files d) of None \<Rightarrow> Inl ErrNotFound | Some f \<Rightarrow> Inr f)"

definition files_known :: "db \<Rightarrow> int \<Rightarrow> int \<Rightarrow> bool" where
  "files_known d userID areaID \<longleftrightarrow>
     userID \<in> set (map u_id (t_users d)) \<and> areaID \<in> set (map fa_id (t_file_areas d))"

definition MarkFilesSeen :: "int \<Rightarrow> int \<Rightarrow> int \<Rightarrow> db \<Rightarrow> (error + unit) \<times> db" where
  "MarkFilesSeen userID areaID fileID d =
     (case upsert_mark (files_known d userID areaID) userID areaID fileID (t_file_reads d) of
        Inl e \<Rightarrow> (Inl e, d) | Inr ms \<Rightarrow> (Inr (), d\<lparr>t_file_reads := ms\<rparr>))"

definition NewFilesCount :: "db \<Rightarrow> int \<Rightarrow> nat" where
  "NewFilesCount d userID = sum_list (map as_new (FileAreas d userID))"

definition CountDownload :: "int \<Rightarrow> db \<Rightarrow> db" where
  "CountDownload i d =
     d\<lparr>t_files := update_where (\<lambda>f. f_id f = i) (\<lambda>f. f\<lparr>f_downloads := f_downloads f + 1\<rparr>) (t_files d)\<rparr>"

interpretation file_marks: read_marks FilesLastSeen MarkFilesSeen files_known
proof
  fix d u a i v b e
  show "files_known d u a \<Longrightarrow> fst (MarkFilesSeen u a i d) = Inr ()"
    by (auto simp: MarkFilesSeen_def upsert_mark_def)
  show "files_known (snd (MarkFilesSeen u a i d)) = files_known d"
    by (auto simp: MarkFilesSeen_def files_known_def fun_eq_iff split: sum.splits)
  show "fst (MarkFilesSeen u a i d) = Inr () \<Longrightarrow> 0 \<le> i \<Longrightarrow>
      FilesLastSeen (snd (MarkFilesSeen u a i d)) v b =
        (if v = u \<and> b = a then max (FilesLastSeen d u a) i else FilesLastSeen d v b)"
    by (auto simp: MarkFilesSeen_def FilesLastSeen_def lookup_upsert split: sum.splits)
  show "fst (MarkFilesSeen u a i d) = Inl e \<Longrightarrow> snd (MarkFilesSeen u a i d) = d"
    by (auto simp: MarkFilesSeen_def split: sum.splits)
qed

end
