(* ===== verification/Fido_Props.thy ===== *)
theory Fido_Props
  imports Store_Fido Boards_Props
begin

text \<open>
  Invariants and theorems of the FidoNet tables: every conference keeps at most 2000 messages
  and drops the oldest, at most 1000 netmails are kept, no MSGID is stored twice, importing a
  message again changes nothing, and netmail is shown to its addressee, its author and sysops.
\<close>

section \<open>Keeping some rows of a keyed table\<close>

lemma length_filter_keys:
  assumes "distinct (map key xs)" "distinct ks" "set ks \<subseteq> key ` set xs"
  shows "length (filter (\<lambda>x. key x \<in> set ks) xs) = length ks"
proof -
  let ?ys = "filter (\<lambda>x. key x \<in> set ks) xs"
  have d: "distinct (map key ?ys)" using assms(1) by (rule distinct_map_filter)
  have "set (map key ?ys) = set ks" using assms(3) by auto
  then have "card (set (map key ?ys)) = card (set ks)" by simp
  then show ?thesis using distinct_card [OF d] distinct_card [OF assms(2)] by simp
qed

lemma take_sort_keys:
  fixes xs :: "'a list" and key :: "'a \<Rightarrow> int"
  assumes "distinct (map key xs)"
  shows "distinct (take k (sort (map key xs)))" "set (take k (sort (map key xs))) \<subseteq> key ` set xs"
    "distinct (take k (rev (sort (map key xs))))" "set (take k (rev (sort (map key xs)))) \<subseteq> key ` set xs"
  using assms by (auto dest!: in_set_takeD simp: distinct_take)

lemma newest_not_taken:
  assumes "distinct (map key xs)" "x \<in> set xs" "\<forall>y \<in> set xs. key y \<le> (key x :: int)" "k < length xs"
  shows "key x \<notin> set (take k (sort (map key xs)))"
proof
  let ?s = "sort (map key xs)"
  assume "key x \<in> set (take k ?s)"
  then obtain i where i: "i < k" "?s ! i = key x" using assms(4) by (auto simp: in_set_conv_nth)
  have "?s ! i \<le> ?s ! k" using i assms(4) by (intro sorted_nth_mono) auto
  moreover have "?s ! k \<in> set ?s" using assms(4) by (intro nth_mem) simp
  then have "?s ! k \<le> key x" using assms(3) by auto
  ultimately have "?s ! k = ?s ! i" using i(2) by simp
  moreover have "distinct ?s" using assms(1) by simp
  ultimately have "k = i" using i(1) assms(4) by (simp add: nth_eq_iff_index_eq)
  with i(1) show False by simp
qed

section \<open>Conferences\<close>

definition echo_message_ok :: "echo_message \<Rightarrow> bool" where
  "echo_message_ok m \<longleftrightarrow> em_msgid m \<noteq> [] \<and> em_from m \<noteq> [] \<and> em_to m \<noteq> [] \<and> em_subject m \<noteq> [] \<and>
     text_of printable (em_from m) \<and> text_of printable (em_to m) \<and> text_of printable (em_subject m) \<and>
     text_of printable (em_addr m) \<and> length (runes (em_subject m)) \<le> MaxSubjectLen \<and>
     length (em_body m) \<le> MaxEchoBodyBytes"

definition echo_inv :: "echo_area list \<Rightarrow> echo_message list \<Rightarrow> bool" where
  "echo_inv as ms \<longleftrightarrow> distinct (map ea_id as) \<and> distinct (map ea_tag as) \<and>
     distinct (map em_id ms) \<and> distinct (map em_msgid ms) \<and>
     (\<forall>m \<in> set ms. em_area m \<in> ea_id ` set as \<and> echo_message_ok m) \<and>
     (\<forall>a. count_where (\<lambda>m. em_area m = a) ms \<le> MaxEchoMessages)"

lemma prune_same_area:
  assumes "distinct (map em_id ms)"
  shows "count_where (\<lambda>m. em_area m = a) (pruneEchoArea a ms) =
    min MaxEchoMessages (count_where (\<lambda>m. em_area m = a) ms)"
proof (cases "count_where (\<lambda>m. em_area m = a) ms \<le> MaxEchoMessages")
  case True
  then show ?thesis by (simp add: pruneEchoArea_def)
next
  case False
  define xs where "xs = filter (\<lambda>m. em_area m = a) ms"
  define k where "k = length xs - MaxEchoMessages"
  define old where "old = take k (sort (map em_id xs))"
  have dx: "distinct (map em_id xs)" unfolding xs_def using assms by (rule distinct_map_filter)
  have "length (filter (\<lambda>m. em_id m \<in> set old) xs) = length old"
    unfolding old_def by (rule length_filter_keys [OF dx take_sort_keys(1,2) [OF dx]])
  also have "\<dots> = k" unfolding old_def k_def by simp
  finally have "length (filter (\<lambda>m. em_id m \<notin> set old) xs) = MaxEchoMessages"
    using sum_length_filter_compl [of "\<lambda>m. em_id m \<in> set old" xs] False
    by (simp add: k_def count_where_def xs_def)
  moreover have "filter (\<lambda>m. em_area m = a) (pruneEchoArea a ms) = filter (\<lambda>m. em_id m \<notin> set old) xs"
    using False
    by (auto simp: pruneEchoArea_def Let_def delete_where_def old_def k_def xs_def count_where_def
        intro!: filter_cong)
  ultimately show ?thesis using False by (simp add: count_where_def)
qed

lemma prune_delete: "\<exists>p. pruneEchoArea a ms = delete_where p ms \<and> (\<forall>m. p m \<longrightarrow> em_area m = a)"
proof (cases "count_where (\<lambda>m. em_area m = a) ms \<le> MaxEchoMessages")
  case True
  then show ?thesis by (intro exI [of _ "\<lambda>_. False"]) (simp add: pruneEchoArea_def)
next
  case False
  then show ?thesis by (simp add: pruneEchoArea_def Let_def) blast
qed

lemma prune_other_area:
  "b \<noteq> a \<Longrightarrow> filter (\<lambda>m. em_area m = b) (pruneEchoArea a ms) = filter (\<lambda>m. em_area m = b) ms"
  using prune_delete [of a ms] by (auto simp: delete_where_def) (rule filter_cong, auto)

lemma set_prune: "set (pruneEchoArea a ms) \<subseteq> set ms"
  using prune_delete [of a ms] by auto

lemma echo_inv_prune:
  assumes "distinct (map ea_id as)" "distinct (map ea_tag as)" "distinct (map em_id ms)"
    "distinct (map em_msgid ms)" "\<forall>m \<in> set ms. em_area m \<in> ea_id ` set as \<and> echo_message_ok m"
    "\<forall>b. b \<noteq> a \<longrightarrow> count_where (\<lambda>m. em_area m = b) ms \<le> MaxEchoMessages"
  shows "echo_inv as (pruneEchoArea a ms)"
proof -
  obtain p where p: "pruneEchoArea a ms = delete_where p ms" using prune_delete by blast
  have "count_where (\<lambda>m. em_area m = b) (pruneEchoArea a ms) \<le> MaxEchoMessages" for b
    using assms(6) prune_same_area [OF assms(3)] prune_other_area
    by (cases "b = a") (auto simp: count_where_def)
  then show ?thesis using assms set_prune [of a ms]
    by (auto simp: echo_inv_def p distinct_map_delete_where)
qed

lemma or_default_ne: "t \<noteq> [] \<Longrightarrow> or_default s t \<noteq> []"
  and text_of_or_default: "text_of P s \<Longrightarrow> text_of P t \<Longrightarrow> text_of P (or_default s t)"
  and runes_or_default: "length (runes s) \<le> n \<Longrightarrow> length (runes t) \<le> n \<Longrightarrow> length (runes (or_default s t)) \<le> n"
  by (auto simp: or_default_def)

lemma literal_texts:
  "text_of printable ''Unknown''" "text_of printable ''All''" "text_of printable ''(no subject)''"
  "length (runes ''(no subject)'') \<le> MaxSubjectLen"
  by ((rule text_of_ascii_list | subst runes_ascii);
      simp add: is_ascii_def byte_val_def printable_def is_control_def is_bidi_def rune_error_def MaxSubjectLen_def)+

lemma trunc_point_le: "trunc_point s n \<le> n"
  by (induction n) auto

lemma length_truncateUTF8: "length (truncateUTF8 s n) \<le> n"
  using trunc_point_le [of s n] by (simp add: truncateUTF8_def)

lemma ImportEcho_cases:
  obtains (skip) "ImportEcho E m d = (Inr TossSkipped, d)"
      "Area m = [] \<or> to_upper (se_upper E) (trim_space (Area m)) = [] \<or>
       MaxEchoTagLen < length (to_upper (se_upper E) (trim_space (Area m)))"
  | (dup) "ImportEcho E m d = (Inr TossDuplicate, d)"
      "or_default (trim_space (MsgID m)) (syntheticMsgID E m) \<in> em_msgid ` set (t_echo_messages d)"
  | (stored) tag i d1 row where "Area m \<noteq> []" "tag = to_upper (se_upper E) (trim_space (Area m))"
      "tag \<noteq> []" "length tag \<le> MaxEchoTagLen"
      "ensureEchoArea E tag d = (i, d1)"
      "em_id row = se_rowid E (map em_id (t_echo_messages d))" "em_area row = i"
      "em_msgid row = or_default (trim_space (MsgID m)) (syntheticMsgID E m)"
      "em_msgid row \<notin> em_msgid ` set (t_echo_messages d)" "echo_message_ok row"
      "ImportEcho E m d =
        (Inr TossStored, d1\<lparr>t_echo_messages := pruneEchoArea i (t_echo_messages d @ [row])\<rparr>)"
proof -
  let ?tag = "to_upper (se_upper E) (trim_space (Area m))"
  let ?mid = "or_default (trim_space (MsgID m)) (syntheticMsgID E m)"
  obtain i d1 where ens: "ensureEchoArea E ?tag d = (i, d1)" by fastforce
  have same: "t_echo_messages d1 = t_echo_messages d"
    using ens by (auto simp: ensureEchoArea_def Let_def split: option.splits)
  define row where "row = \<lparr>em_id = se_rowid E (map em_id (t_echo_messages d)), em_area = i, em_msgid = ?mid,
    em_from = or_default (Clean (From m) MaxEchoFromLen) ''Unknown'',
    em_addr = Clean (Addr_String (Orig m)) MaxEchoAddrLen,
    em_to = or_default (Clean (To m) MaxEchoFromLen) ''All'',
    em_subject = or_default (Clean (Subject m) MaxSubjectLen) ''(no subject)'',
    em_body = truncateUTF8 (Body m) MaxEchoBodyBytes,
    em_at = (case Date m of None \<Rightarrow> se_now E | Some t \<Rightarrow> t)\<rparr>"
  have "syntheticMsgID E m \<noteq> []" by (simp add: syntheticMsgID_def)
  then have ok: "echo_message_ok row"
    unfolding echo_message_ok_def row_def echo_message.simps
    by (intro conjI or_default_ne text_of_or_default runes_or_default literal_texts text_of_Clean
        length_runes_Clean length_truncateUTF8) simp_all
  show ?thesis
  proof (cases "Area m = [] \<or> ?tag = [] \<or> MaxEchoTagLen < length ?tag")
    case True
    then show ?thesis by (intro skip) (auto simp: ImportEcho_def Let_def)
  next
    case tag: False
    show ?thesis
    proof (cases "?mid \<in> em_msgid ` set (t_echo_messages d)")
      case True
      then have "\<exists>x \<in> set (t_echo_messages d). em_msgid x = ?mid" by force
      with tag True show ?thesis by (intro dup) (auto simp: ImportEcho_def Let_def)
    next
      case False
      then have "\<not> (\<exists>x \<in> set (t_echo_messages d). em_msgid x = ?mid)" by force
      with tag False ens same ok show ?thesis
        by (intro stored [of ?tag i d1 row]) (auto simp: ImportEcho_def Let_def row_def)
    qed
  qed
qed

lemma ensureEchoArea_spec:
  assumes "ensureEchoArea E tag d = (i, d1)" "fresh_rowids E"
    "distinct (map ea_id (t_echo_areas d))" "distinct (map ea_tag (t_echo_areas d))"
  shows "distinct (map ea_id (t_echo_areas d1)) \<and> distinct (map ea_tag (t_echo_areas d1)) \<and>
    i \<in> ea_id ` set (t_echo_areas d1) \<and> ea_id ` set (t_echo_areas d) \<subseteq> ea_id ` set (t_echo_areas d1)"
proof (cases "find (\<lambda>a. ea_tag a = tag) (t_echo_areas d)")
  case None
  then have "tag \<notin> ea_tag ` set (t_echo_areas d)" by (auto simp: find_None_iff)
  with None assms fresh_rowids_image [OF assms(2), of ea_id "t_echo_areas d"] show ?thesis
    by (auto simp: ensureEchoArea_def Let_def)
next
  case (Some a)
  with assms find_Some_in [OF Some] show ?thesis by (auto simp: ensureEchoArea_def)
qed

lemma echo_inv_ImportEcho:
  assumes inv: "echo_inv (t_echo_areas d) (t_echo_messages d)" and fr: "fresh_rowids E"
  shows "echo_inv (t_echo_areas (snd (ImportEcho E m d))) (t_echo_messages (snd (ImportEcho E m d)))"
proof (cases rule: ImportEcho_cases [of E m d])
  case (stored tag i d1 row)
  note areas = ensureEchoArea_spec [OF stored(5) fr]
  have fresh: "em_id row \<notin> em_id ` set (t_echo_messages d)"
    using fresh_rowids_image [OF fr] by (simp add: stored(6))
  have "echo_inv (t_echo_areas d1) (pruneEchoArea i (t_echo_messages d @ [row]))"
    using inv areas stored(7,9,10) fresh by (intro echo_inv_prune) (auto simp: echo_inv_def)
  then show ?thesis by (simp add: stored(11))
qed (use inv in auto)

text \<open>
  Importing is exactly once: after a conference message has been stored, importing
  the same message again, at any later time, reports a duplicate and changes nothing. (Row ids
  are the ones SQLite allocates, so the message just stored is never the one pruned.)
\<close>

theorem ImportEcho_once:
  assumes "se_rowid E = sqlite_rowid" "distinct (map em_id (t_echo_messages d))"
    and st: "ImportEcho E m d = (Inr TossStored, d1)"
  shows "ImportEcho (E\<lparr>se_now := t\<rparr>) m d1 = (Inr TossDuplicate, d1)"
proof (cases rule: ImportEcho_cases [of E m d])
  case (stored tag i d0 row)
  let ?ms = "t_echo_messages d @ [row]"
  have d1: "d1 = d0\<lparr>t_echo_messages := pruneEchoArea i ?ms\<rparr>" using stored(11) st by simp
  have fr: "fresh_rowids E" using assms(1) by (rule sqlite_env_fresh)
  have dist: "distinct (map em_id ?ms)"
    using assms(2) fresh_rowids_image [OF fr, of em_id] by (simp add: stored(6))
  have top: "\<forall>y \<in> set ?ms. em_id y \<le> em_id row"
    using sqlite_rowid_gt [of _ "t_echo_messages d" em_id] by (auto simp: stored(6) assms(1) intro: less_imp_le)
  have "row \<in> set (pruneEchoArea i ?ms)"
  proof (cases "count_where (\<lambda>m. em_area m = i) ?ms \<le> MaxEchoMessages")
    case True
    then show ?thesis by (simp add: pruneEchoArea_def)
  next
    case False
    let ?xs = "filter (\<lambda>m. em_area m = i) ?ms"
    have "em_id row \<notin> set (take (length ?xs - MaxEchoMessages) (sort (map em_id ?xs)))"
      using False dist top
      by (intro newest_not_taken)
         (auto simp: distinct_map_filter stored(7) MaxEchoMessages_def count_where_def)
    with False show ?thesis by (simp add: pruneEchoArea_def Let_def count_where_def stored(7))
  qed
  then have seen: "\<exists>x \<in> set (t_echo_messages d1). em_msgid x = or_default (trim_space (MsgID m)) (syntheticMsgID E m)"
    using stored(8) by (auto simp: d1)
  have "syntheticMsgID (E\<lparr>se_now := t\<rparr>) m = syntheticMsgID E m" by (simp add: syntheticMsgID_def)
  then show ?thesis using seen stored(1-4) by (auto simp: ImportEcho_def Let_def tx_def)
qed (use st in auto)

text \<open>
  What a full conference drops is old: after an import every message of the area
  that disappeared is older (has a smaller id) than every message of the area that stayed, at
  most 2000 stay, and the messages of other areas are untouched.
\<close>

theorem ImportEcho_prunes_oldest:
  assumes "ImportEcho E m d = (Inr r, d')" "fresh_rowids E" "echo_inv (t_echo_areas d) (t_echo_messages d)"
    and x: "x \<in> set (t_echo_messages d)" "x \<notin> set (t_echo_messages d')"
    and y: "y \<in> set (t_echo_messages d')" "em_area y = em_area x"
  shows "em_id x < em_id y \<and> length (EchoMessages d' (em_area x)) \<le> MaxEchoMessages \<and>
    (\<forall>z \<in> set (t_echo_messages d). em_area z \<noteq> em_area x \<longrightarrow> z \<in> set (t_echo_messages d'))"
proof (cases rule: ImportEcho_cases [of E m d])
  case (stored tag i d0 row)
  let ?ms = "t_echo_messages d @ [row]"
  let ?xs = "filter (\<lambda>m. em_area m = i) ?ms"
  let ?k = "length ?xs - MaxEchoMessages"
  have d': "t_echo_messages d' = pruneEchoArea i ?ms" using stored(11) assms(1) by simp
  have full: "\<not> count_where (\<lambda>m. em_area m = i) ?ms \<le> MaxEchoMessages"
    using x d' by (auto simp: pruneEchoArea_def)
  then have pr: "t_echo_messages d' = delete_where (\<lambda>m. em_area m = i \<and> em_id m \<in> set (take ?k (sort (map em_id ?xs)))) ?ms"
    by (simp add: d' pruneEchoArea_def Let_def count_where_def)
  have ar: "em_area x = i" and xt: "em_id x \<in> set (take ?k (sort (map em_id ?xs)))"
    using x pr by auto
  have yt: "em_id y \<notin> set (take ?k (sort (map em_id ?xs)))" and ym: "y \<in> set ?ms"
    using y pr ar by auto
  have "em_id y \<in> set (sort (map em_id ?xs))" using ym y(2) ar by auto
  with yt have "em_id y \<in> set (drop ?k (sort (map em_id ?xs)))"
    by (metis (no_types, lifting) Un_iff append_take_drop_id set_append)
  then have "em_id x \<le> em_id y" using xt sorted_append [of "take ?k (sort (map em_id ?xs))" "drop ?k (sort (map em_id ?xs))"]
    by auto
  moreover have "em_id x \<noteq> em_id y" using xt yt by auto
  moreover have "z \<in> set (t_echo_messages d')" if "z \<in> set (t_echo_messages d)" "em_area z \<noteq> em_area x" for z
    using that pr ar by auto
  ultimately show ?thesis by (auto simp: EchoMessages_def sql_limit_def)
qed (use assms in auto)

section \<open>Netmail\<close>

definition netmail_inv :: "int set \<Rightarrow> netmail list \<Rightarrow> bool" where
  "netmail_inv us ns \<longleftrightarrow> distinct (map n_id ns) \<and> distinct (map n_msgid ns) \<and> length ns \<le> MaxNetmailKept \<and>
     (\<forall>n \<in> set ns. n_author n = 0 \<or> n_author n \<in> us)"

lemma netmail_inv_insert:
  assumes inv: "netmail_inv (u_id ` set (t_users d)) (t_netmail d)" and fr: "fresh_rowids E"
  shows "netmail_inv (u_id ` set (t_users d)) (t_netmail (snd (insertNetmail E n d)))"
proof (cases "exists_where (\<lambda>x. n_msgid x = n_msgid n) (t_netmail d) \<or>
    (n_author n \<noteq> 0 \<and> find_user d (n_author n) = None)")
  case True
  with inv show ?thesis by (auto simp: insertNetmail_def tx_def)
next
  case False
  let ?n = "n\<lparr>n_id := se_rowid E (map n_id (t_netmail d)), n_received := se_now E\<rparr>"
  define rows where "rows = t_netmail d @ [?n]"
  define keep where "keep = take MaxNetmailKept (rev (sort (map n_id rows)))"
  have dist: "distinct (map n_id rows)"
    using inv fresh_rowids_image [OF fr, of n_id "t_netmail d"] by (simp add: rows_def netmail_inv_def)
  have "length (filter (\<lambda>x. n_id x \<in> set keep) rows) = length keep"
    unfolding keep_def by (rule length_filter_keys [OF dist take_sort_keys(3,4) [OF dist]])
  then have len: "length (delete_where (\<lambda>x. n_id x \<notin> set keep) rows) \<le> MaxNetmailKept"
    by (simp add: delete_where_def keep_def)
  have "distinct (map n_msgid rows)" "\<forall>x \<in> set rows. n_author x = 0 \<or> n_author x \<in> u_id ` set (t_users d)"
    using inv False find_user_in [of d "n_author n"] by (auto simp: rows_def netmail_inv_def)
  with len dist have "netmail_inv (u_id ` set (t_users d)) (delete_where (\<lambda>x. n_id x \<notin> set keep) rows)"
    by (auto simp: netmail_inv_def distinct_map_delete_where)
  with False show ?thesis by (auto simp: insertNetmail_def tx_def Let_def rows_def keep_def)
qed

lemma snd_ImportNetmail:
  "snd (ImportNetmail E m d) = (if Area m = [] then snd (insertNetmail E (netmail_of E m) d) else d)"
  by (auto simp: ImportNetmail_def split: prod.splits sum.splits)

lemma snd_RecordSentNetmail:
  "snd (RecordSentNetmail E n d) = snd (insertNetmail E (sent_netmail E n) d)"
  by (auto simp: RecordSentNetmail_def split: prod.splits sum.splits)

lemma netmail_inv_read:
  "netmail_inv us ns \<Longrightarrow> netmail_inv us (update_where p (\<lambda>n. n\<lparr>n_read := t\<rparr>) ns)"
  by (auto simp: netmail_inv_def map_update_where set_update_where)

lemma netmail_inv_delete_user:
  assumes "netmail_inv us ns"
  shows "netmail_inv (us - {i}) (update_where (\<lambda>n. n_author n = i) (\<lambda>n. n\<lparr>n_author := 0\<rparr>) ns)"
  using assms by (auto simp: netmail_inv_def map_update_where set_update_where)

text \<open>
  Netmail is private: a caller who is no sysop is shown only received netmail
  addressed to that caller's handle (in any letter case) and netmail that caller sent; the
  unread counter counts only what the list shows.
\<close>

theorem netmail_privacy:
  assumes "n \<in> set (NetmailFor d u)" "\<not> u_sysop u"
  shows "((\<not> n_outgoing n \<and> sql_lower (n_to_name n) = sql_lower (u_handle u)) \<or>
      (n_author n \<noteq> 0 \<and> n_author n = u_id u)) \<and>
    NetmailUnread d u = length (filter (\<lambda>n. n_read n = 0 \<and> \<not> n_outgoing n) (NetmailFor d u))"
proof -
  have "length (filter q (rev (sort_key n_id (filter p ns)))) = length (filter (\<lambda>x. q x \<and> p x) ns)"
    for p q and ns :: "netmail list"
    by (simp add: filter_sort conj_commute flip: rev_filter)
  then have "NetmailUnread d u = length (filter (\<lambda>n. n_read n = 0 \<and> \<not> n_outgoing n) (NetmailFor d u))"
    by (simp add: NetmailUnread_def NetmailFor_def count_where_def conj_ac)
  with assms show ?thesis by (auto simp: NetmailFor_def netmailVisible_def)
qed

section \<open>File echoes\<close>

definition files_inv :: "file_area list \<Rightarrow> file_row list \<Rightarrow> bool" where
  "files_inv as fs \<longleftrightarrow> distinct (map fa_id as) \<and> distinct (map fa_tag as) \<and>
     distinct (map f_id fs) \<and> distinct (map (\<lambda>f. (f_area f, f_name f)) fs) \<and>
     (\<forall>f \<in> set fs. f_area f \<in> fa_id ` set as)"

lemma ensureFileArea_spec:
  assumes "ensureFileArea E tag desc d = (i, d1)" "fresh_rowids E"
    "distinct (map fa_id (t_file_areas d))" "distinct (map fa_tag (t_file_areas d))"
  shows "distinct (map fa_id (t_file_areas d1)) \<and> distinct (map fa_tag (t_file_areas d1)) \<and>
    i \<in> fa_id ` set (t_file_areas d1) \<and> fa_id ` set (t_file_areas d) \<subseteq> fa_id ` set (t_file_areas d1) \<and>
    t_files d1 = t_files d \<and> (\<exists>as. d1 = d\<lparr>t_file_areas := as\<rparr>)"
proof (cases "find (\<lambda>a. fa_tag a = tag) (t_file_areas d)")
  case None
  then have "tag \<notin> fa_tag ` set (t_file_areas d)" by (auto simp: find_None_iff)
  with None assms fresh_rowids_image [OF assms(2), of fa_id "t_file_areas d"] show ?thesis
    by (auto simp: ensureFileArea_def Let_def)
next
  case (Some a)
  let ?as = "update_where (\<lambda>x. fa_id x = fa_id a \<and> fa_desc x = []) (\<lambda>x. x\<lparr>fa_desc := Clean desc MaxSubjectLen\<rparr>) (t_file_areas d)"
  have "map fa_id ?as = map fa_id (t_file_areas d)" "map fa_tag ?as = map fa_tag (t_file_areas d)"
    by (simp_all add: map_update_where)
  then obtain as where keys: "map fa_id as = map fa_id (t_file_areas d)"
    "map fa_tag as = map fa_tag (t_file_areas d)" and d1: "d1 = d\<lparr>t_file_areas := as\<rparr>"
  proof (cases "desc = []")
    case True
    with Some assms(1) show ?thesis by (intro that [of "t_file_areas d"]) (simp_all add: ensureFileArea_def)
  next
    case False
    with Some assms(1) show ?thesis by (intro that [of ?as]) (auto simp: ensureFileArea_def map_update_where)
  qed
  have "fa_id ` set as = fa_id ` set (t_file_areas d)" using keys(1) by (metis set_map)
  moreover have "i = fa_id a" using Some assms(1) by (simp add: ensureFileArea_def)
  ultimately show ?thesis using assms(3,4) find_Some_in [OF Some] by (auto simp: d1 keys)
qed

lemma put_file_cases:
  assumes "put_file E i f d1 = Inr (old, d')"
  obtains fs where
    "fs = t_files d1 \<or> fs = delete_where (\<lambda>x. f_area x = i \<and> f_name x = f_name f) (t_files d1)"
    "\<forall>x \<in> set fs. \<not> (f_area x = i \<and> f_name x = f_name f)" "d' = d1\<lparr>t_files := fs @ [new_file E i f fs]\<rparr>"
proof -
  let ?P = "\<lambda>x. f_area x = i \<and> f_name x = f_name f"
  define old' where "old' = (case find ?P (t_files d1) of None \<Rightarrow> [] | Some x \<Rightarrow> f_path x)"
  define fs where "fs = (if old' \<noteq> [] then delete_where ?P (t_files d1) else t_files d1)"
  have "put_file E i f d1 = (if exists_where ?P fs then Inl ErrConstraint
      else Inr (old', d1\<lparr>t_files := fs @ [new_file E i f fs]\<rparr>))"
    unfolding put_file_def Let_def fs_def old'_def by (rule refl)
  with assms have "\<not> exists_where ?P fs" "d' = d1\<lparr>t_files := fs @ [new_file E i f fs]\<rparr>"
    by (auto split: if_splits)
  moreover have "fs = t_files d1 \<or> fs = delete_where ?P (t_files d1)" by (simp add: fs_def)
  ultimately show thesis by (intro that [of fs]) simp_all
qed

lemma AddFile_cases:
  obtains (error) e where "AddFile E tag desc f d = (Inl e, d)"
  | (ok) i d1 old fs where
      "ensureFileArea E (to_upper (se_upper E) (trim_space tag)) desc d = (i, d1)"
      "fs = t_files d1 \<or> fs = delete_where (\<lambda>x. f_area x = i \<and> f_name x = f_name f) (t_files d1)"
      "\<forall>x \<in> set fs. \<not> (f_area x = i \<and> f_name x = f_name f)"
      "AddFile E tag desc f d = (Inr old, d1\<lparr>t_files := fs @ [new_file E i f fs]\<rparr>)"
proof (cases "fst (AddFile E tag desc f d)")
  case (Inl e)
  then have "AddFile E tag desc f d = (Inl e, d)"
    by (cases "AddFile E tag desc f d") (auto simp: AddFile_def Let_def split: if_splits prod.splits)
  then show ?thesis by (rule error)
next
  case (Inr old)
  obtain i d1 where ens: "ensureFileArea E (to_upper (se_upper E) (trim_space tag)) desc d = (i, d1)" by fastforce
  from Inr obtain d' where res: "AddFile E tag desc f d = (Inr old, d')" by (metis prod.collapse)
  then have "put_file E i f d1 = Inr (old, d')" by (simp add: AddFile_def Let_def ens split: if_splits)
  then show ?thesis by (rule put_file_cases) (use res ok [OF ens] in simp)
qed

lemma files_inv_AddFile:
  assumes inv: "files_inv (t_file_areas d) (t_files d)" and fr: "fresh_rowids E"
  shows "files_inv (t_file_areas (snd (AddFile E tag desc f d))) (t_files (snd (AddFile E tag desc f d)))"
proof (cases rule: AddFile_cases [of E tag desc f d])
  case (ok i d1 old fs)
  have a: "distinct (map fa_id (t_file_areas d1))" "distinct (map fa_tag (t_file_areas d1))"
    "i \<in> fa_id ` set (t_file_areas d1)" "fa_id ` set (t_file_areas d) \<subseteq> fa_id ` set (t_file_areas d1)"
    "t_files d1 = t_files d"
    using ensureFileArea_spec [OF ok(1) fr] inv by (auto simp: files_inv_def)
  have fs: "distinct (map f_id fs)" "distinct (map (\<lambda>f. (f_area f, f_name f)) fs)"
    "\<forall>f \<in> set fs. f_area f \<in> fa_id ` set (t_file_areas d1)"
    using ok(2) inv a by (auto simp: files_inv_def distinct_map_delete_where)
  have "files_inv (t_file_areas d1) (fs @ [new_file E i f fs])"
    using a(1-3) fs ok(3) fresh_rowids_image [OF fr, of f_id fs]
    by (auto simp: files_inv_def new_file_def)
  then show ?thesis by (simp add: ok(4))
qed (use inv in auto)

lemma files_inv_delete: "files_inv as fs \<Longrightarrow> files_inv as (delete_where q fs)"
  by (auto simp: files_inv_def distinct_map_delete_where)

lemma files_inv_download:
  "files_inv as fs \<Longrightarrow> files_inv as (update_where p (\<lambda>f. f\<lparr>f_downloads := f_downloads f + 1\<rparr>) fs)"
  by (auto simp: files_inv_def map_update_where set_update_where)

text \<open>
  A file that has been added is found again under its area and name, exactly once,
  with its size and checksum; a file of that name in the area was replaced, every other file is
  still there, and when the call fails nothing changed.
\<close>

theorem AddFile_replaces:
  assumes "fresh_rowids E" "files_inv (t_file_areas d) (t_files d)"
  shows "case AddFile E tag desc f d of
      (Inl _, d') \<Rightarrow> d' = d
    | (Inr old, d') \<Rightarrow> \<exists>a \<in> set (t_file_areas d'). \<exists>x.
        fa_tag a = to_upper (se_upper E) (trim_space tag) \<and>
        filter (\<lambda>y. f_area y = fa_id a \<and> f_name y = f_name f) (t_files d') = [x] \<and>
        f_path x = f_path f \<and> f_size x = f_size f \<and> f_crc x = f_crc f \<and> f_downloads x = 0 \<and>
        filter (\<lambda>y. \<not> (f_area y = fa_id a \<and> f_name y = f_name f)) (t_files d') =
        filter (\<lambda>y. \<not> (f_area y = fa_id a \<and> f_name y = f_name f)) (t_files d)"
proof (cases rule: AddFile_cases [of E tag desc f d])
  case (ok i d1 old fs)
  have spec: "t_files d1 = t_files d" using ensureFileArea_spec [OF ok(1) assms(1)] assms(2)
    by (auto simp: files_inv_def)
  obtain a where a: "a \<in> set (t_file_areas d1)" "fa_id a = i" "fa_tag a = to_upper (se_upper E) (trim_space tag)"
  proof (cases "find (\<lambda>a. fa_tag a = to_upper (se_upper E) (trim_space tag)) (t_file_areas d)")
    case None
    then show ?thesis using ok(1) by (intro that) (auto simp: ensureFileArea_def Let_def)
  next
    case (Some b)
    let ?g = "\<lambda>x. if fa_id x = fa_id b \<and> fa_desc x = [] then x\<lparr>fa_desc := Clean desc MaxSubjectLen\<rparr> else x"
    have "b \<in> set (t_file_areas d)" "fa_tag b = to_upper (se_upper E) (trim_space tag)"
      using find_Some_in [OF Some] by auto
    then show ?thesis using ok(1) Some
      by (intro that [of "if desc = [] then b else ?g b"])
         (auto simp: ensureFileArea_def set_update_where split: if_splits)
  qed
  have new: "f_area (new_file E i f fs) = i" "f_name (new_file E i f fs) = f_name f"
    by (simp_all add: new_file_def)
  have "filter (\<lambda>y. f_area y = i \<and> f_name y = f_name f) fs = []" using ok(3) by (simp add: filter_empty_conv)
  moreover have "filter (\<lambda>y. \<not> (f_area y = i \<and> f_name y = f_name f)) fs =
      filter (\<lambda>y. \<not> (f_area y = i \<and> f_name y = f_name f)) (t_files d)"
  proof -
    have "filter (\<lambda>y. \<not> P y) (delete_where P xs) = filter (\<lambda>y. \<not> P y) xs" for P and xs :: "file_row list"
      by (simp add: delete_where_def)
    with ok(2) show ?thesis by (auto simp: spec)
  qed
  ultimately show ?thesis unfolding ok(4) using new a
    by simp (intro bexI [of _ a] conjI exI [of _ "new_file E i f fs"]; simp add: new_file_def)
qed simp

section \<open>The theorems at work\<close>

definition demo_echo :: Message where
  "demo_echo = \<lparr>Area = ''TEST'', From = ''Ann'', To = ''All'', Subject = ''hi'', Date = None, Orig = demo_addr,
     Dest = zero_addr, Attr = 0, MsgID = ''new'', Reply = [], Charset = CP437, TZUTC = [], Body = ''yo'',
     SeenBy = [], Path = [], Kludges = []\<rparr>"

lemma demo_echo_texts:
  "to_upper uni (trim_space ''TEST'') = ''TEST''" "trim_space ''new'' = ''new''"
  using trim_space_graphic [of "''TEST''"] to_upper_graphic [of "''TEST''"] trim_space_graphic [of "''new''"]
  by (simp_all add: graphic_def byte_val_def)

lemma demo_echo_stored:
  assumes "''new'' \<notin> em_msgid ` set (t_echo_messages d)"
  shows "\<exists>i d1 row. ensureEchoArea demo_env ''TEST'' d = (i, d1) \<and> em_area row = i \<and>
    em_id row = sqlite_rowid (map em_id (t_echo_messages d)) \<and>
    ImportEcho demo_env demo_echo d = (Inr TossStored, d1\<lparr>t_echo_messages := pruneEchoArea i (t_echo_messages d @ [row])\<rparr>)"
proof (cases rule: ImportEcho_cases [of demo_env demo_echo d])
  case skip
  then show ?thesis by (simp add: demo_echo_def demo_echo_texts MaxEchoTagLen_def)
next
  case dup
  have "or_default (trim_space (MsgID demo_echo)) (syntheticMsgID demo_env demo_echo) = ''new''"
    by (simp add: or_default_def demo_echo_def demo_echo_texts)
  with dup assms show ?thesis by simp
next
  case (stored tag i d1 row)
  have "tag = ''TEST''" using stored(2) by (simp add: demo_echo_def demo_echo_texts)
  with stored(5,6,7,11) show ?thesis by (intro exI [of _ i] exI [of _ d1] exI [of _ row]) simp
qed

theorem ImportEcho_once_witness:
  "\<exists>d1. ImportEcho demo_env demo_echo empty_db = (Inr TossStored, d1) \<and>
     ImportEcho (demo_env\<lparr>se_now := 5\<rparr>) demo_echo d1 = (Inr TossDuplicate, d1)"
proof -
  obtain d1 where d1: "ImportEcho demo_env demo_echo empty_db = (Inr TossStored, d1)"
    using demo_echo_stored [of empty_db] by (auto simp: empty_db_def)
  have "distinct (map em_id (t_echo_messages empty_db))" by (simp add: empty_db_def)
  from ImportEcho_once [OF demo_env_rowid(4) this d1] d1 show ?thesis by blast
qed

text \<open>A conference that is full: 2000 messages with the ids 1 to 2000.\<close>

definition full_row :: "int \<Rightarrow> echo_message" where
  "full_row i = \<lparr>em_id = i, em_area = 1, em_msgid = nat_digits (nat i), em_from = ''x'', em_addr = [],
     em_to = ''x'', em_subject = ''x'', em_body = [], em_at = 0\<rparr>"

definition full_echo_db :: db where
  "full_echo_db = empty_db\<lparr>t_echo_areas := [\<lparr>ea_id = 1, ea_tag = ''TEST'', ea_desc = [], ea_created = 0\<rparr>],
     t_echo_messages := map full_row [1..2000]\<rparr>"

lemma full_row_simps [simp]: "em_id (full_row i) = i" "em_area (full_row i) = 1"
  "em_msgid (full_row i) = nat_digits (nat i)"
  by (simp_all add: full_row_def)

lemma full_rows:
  "map em_id (map full_row xs) = xs" "filter (\<lambda>m. em_area m = 1) (map full_row xs) = map full_row xs"
  by (induction xs) auto

lemma nat_digits_inj: "nat_digits m = nat_digits n \<longleftrightarrow> m = n"
  by (metis digits_val_nat_digits)

lemma full_echo_inv: "echo_inv (t_echo_areas full_echo_db) (t_echo_messages full_echo_db)"
proof -
  have "graphic ''x''" by (simp add: graphic_def byte_val_def)
  then have "text_of printable ''x''" "length (runes ''x'') = 1"
    by (simp_all add: text_of_graphic length_runes_graphic)
  then have ok: "echo_message_ok (full_row i)" for i
    by (simp add: echo_message_ok_def full_row_def nat_digits_digits MaxSubjectLen_def)
  have ids: "map em_msgid (map full_row xs) = map (\<lambda>i. nat_digits (nat i)) xs" for xs by simp
  have inj: "inj_on (\<lambda>i. nat_digits (nat i)) (set [1..2000])" by (auto simp: inj_on_def nat_digits_inj)
  have c: "count_where (\<lambda>m. em_area m = a) (map full_row xs) \<le> length xs" for a and xs
    by (simp add: count_where_def)
  have len: "length [1..2000::int] = 2000" by simp
  show ?thesis using ok inj c [of _ "[1..2000]"] len
    by (simp add: echo_inv_def full_echo_db_def ids full_rows distinct_map MaxEchoMessages_def del: map_map upto_rec_numeral)
qed

lemma sqlite_rowid_upto: "0 \<le> n \<Longrightarrow> sqlite_rowid [1..n] = n + 1"
proof -
  assume n: "0 \<le> n"
  have "Max (insert 0 (set [1..n])) = n" using n by (intro Max_eqI) auto
  then show ?thesis by (simp add: sqlite_rowid_def foldr_max_Max)
qed

theorem ImportEcho_prunes_oldest_witness:
  "\<exists>d' y. ImportEcho demo_env demo_echo full_echo_db = (Inr TossStored, d') \<and>
     full_row 1 \<notin> set (t_echo_messages d') \<and> y \<in> set (t_echo_messages d') \<and> em_id (full_row 1) < em_id y"
proof -
  let ?ms = "map full_row [1..2000]"
  have ms: "t_echo_messages full_echo_db = ?ms" by (simp add: full_echo_db_def)
  have nd: "''new'' \<noteq> nat_digits n" for n
  proof
    assume "''new'' = nat_digits n"
    then have "list_all is_digit ''new''" using nat_digits_digits(1) [of n] by simp
    then show False by (simp add: is_digit_def byte_val_def)
  qed
  have "''new'' \<notin> em_msgid ` set ?ms"
  proof
    assume "''new'' \<in> em_msgid ` set ?ms"
    then obtain k where "''new'' = nat_digits (nat k)" by auto
    with nd show False by blast
  qed
  then obtain i d1 row where e: "ensureEchoArea demo_env ''TEST'' full_echo_db = (i, d1)" and row: "em_area row = i"
    "em_id row = sqlite_rowid (map em_id ?ms)"
    and res: "ImportEcho demo_env demo_echo full_echo_db = (Inr TossStored, d1\<lparr>t_echo_messages := pruneEchoArea i (?ms @ [row])\<rparr>)"
    using demo_echo_stored [of full_echo_db] unfolding ms by blast
  have i: "i = 1" using e by (simp add: ensureEchoArea_def full_echo_db_def)
  have rid: "em_id row = 2001" using row(2) sqlite_rowid_upto [of 2000] by (simp add: full_rows del: map_map upto_rec_numeral)
  have fl: "filter (\<lambda>m. em_area m = 1) (?ms @ [row]) = ?ms @ [row]"
    using row(1) i full_rows(2) [of "[1..2000]"] by simp
  have so: "sort (map em_id (?ms @ [row])) = [1..2000] @ [2001]"
  proof -
    have "sorted ([1..2000] @ [2001::int])" by (auto simp: sorted_append simp del: upto_rec_numeral)
    then show ?thesis by (simp add: rid full_rows sorted_sort_id del: map_map upto_rec_numeral)
  qed
  have up: "[1..2000::int] = 1 # [2..2000]" by (simp add: upto_rec1 del: upto_rec_numeral)
  have "count_where (\<lambda>m. em_area m = 1) (?ms @ [row]) = 2001" unfolding count_where_def fl by simp
  then have "pruneEchoArea 1 (?ms @ [row]) = delete_where (\<lambda>m. em_area m = 1 \<and> em_id m \<in> {1}) (?ms @ [row])"
    unfolding pruneEchoArea_def Let_def fl so by (simp add: MaxEchoMessages_def up del: upto_rec_numeral)
  then have gone: "full_row 1 \<notin> set (pruneEchoArea 1 (?ms @ [row]))" and kept: "row \<in> set (pruneEchoArea 1 (?ms @ [row]))"
    using rid by auto
  let ?d' = "d1\<lparr>t_echo_messages := pruneEchoArea i (?ms @ [row])\<rparr>"
  have "em_id (full_row 1) < em_id row"
    using ImportEcho_prunes_oldest [OF res demo_env_fresh full_echo_inv, of "full_row 1" row] gone kept row(1) i ms
    by auto
  with res gone kept i show ?thesis by (intro exI [of _ ?d'] exI [of _ row]) simp
qed

definition demo_netmail :: netmail where
  "demo_netmail = \<lparr>n_id = 1, n_outgoing = False, n_msgid = ''m'', n_reply_to = [], n_from_name = ''x'',
     n_from_addr = [], n_to_name = ''bob'', n_to_addr = [], n_subject = ''s'', n_body = [], n_posted = 1,
     n_received = 1, n_read = 0, n_author = 0\<rparr>"

theorem netmail_privacy_witness:
  "demo_netmail \<in> set (NetmailFor (demo_db\<lparr>t_netmail := [demo_netmail]\<rparr>) (user.truncate (demo_user 2 ''bob'' False))) \<and>
   NetmailUnread (demo_db\<lparr>t_netmail := [demo_netmail]\<rparr>) (user.truncate (demo_user 2 ''bob'' False)) = 1"
proof -
  let ?d = "demo_db\<lparr>t_netmail := [demo_netmail]\<rparr>" and ?u = "user.truncate (demo_user 2 ''bob'' False)"
  have l: "NetmailFor ?d ?u = [demo_netmail]"
    by (simp add: NetmailFor_def netmailVisible_def demo_netmail_def demo_user_def)
  have "NetmailUnread ?d ?u = length (filter (\<lambda>n. n_read n = 0 \<and> \<not> n_outgoing n) (NetmailFor ?d ?u))"
    using netmail_privacy [of demo_netmail ?d ?u] l by (simp add: demo_user_def)
  with l show ?thesis by (simp add: demo_netmail_def)
qed

definition demo_file :: file_row where
  "demo_file = \<lparr>f_id = 1, f_area = 1, f_name = ''a'', f_path = ''p'', f_size = 3, f_crc = ''c'', f_desc = [],
     f_ldesc = [], f_origin = [], f_from = [], f_received = 1, f_downloads = 0\<rparr>"

definition demo_files_db :: db where
  "demo_files_db = demo_db\<lparr>t_file_areas := [\<lparr>fa_id = 1, fa_tag = ''TEST'', fa_desc = [], fa_created = 0\<rparr>],
     t_files := [demo_file], t_file_reads := [((2, 1), 1)]\<rparr>"

lemma demo_files_inv: "files_inv (t_file_areas demo_files_db) (t_files demo_files_db)"
  by (simp add: files_inv_def demo_files_db_def demo_file_def)

lemma demo_ensure: "ensureFileArea demo_env ''TEST'' [] demo_files_db = (1, demo_files_db)"
  by (simp add: ensureFileArea_def demo_files_db_def)

lemma demo_add_file:
  "\<exists>d'. AddFile demo_env ''TEST'' [] demo_file demo_files_db = (Inr ''p'', d') \<and> t_file_areas d' = t_file_areas demo_files_db \<and>
     t_file_reads d' = t_file_reads demo_files_db \<and> map f_id (t_files d') = [1] \<and> map f_area (t_files d') = [1]"
proof -
  have t: "to_upper (se_upper demo_env) (trim_space ''TEST'') = ''TEST''" by (rule demo_echo_texts)
  have p: "put_file demo_env 1 demo_file demo_files_db =
      Inr (''p'', demo_files_db\<lparr>t_files := [new_file demo_env 1 demo_file []]\<rparr>)"
    by (simp add: put_file_def Let_def demo_files_db_def demo_file_def)
  show ?thesis
    by (simp add: AddFile_def t demo_ensure p tx_def MaxFileAreaTagLen_def MaxFileNameLen_def)
       (simp add: demo_file_def new_file_def sqlite_rowid_def demo_files_db_def)
qed

theorem AddFile_replaces_witness:
  "\<exists>d' a x. AddFile demo_env ''TEST'' [] demo_file demo_files_db = (Inr ''p'', d') \<and> a \<in> set (t_file_areas d') \<and>
     filter (\<lambda>y. f_area y = fa_id a \<and> f_name y = f_name demo_file) (t_files d') = [x] \<and> f_size x = 3"
proof -
  obtain d' where d': "AddFile demo_env ''TEST'' [] demo_file demo_files_db = (Inr ''p'', d')"
    using demo_add_file by blast
  have "f_size demo_file = 3" by (simp add: demo_file_def)
  with AddFile_replaces [OF demo_env_fresh demo_files_inv, where tag = "''TEST''" and desc = "[]" and f = demo_file] d'
  show ?thesis by auto
qed

text \<open>
  A new copy of the newest file is not new: SQLite gives a row the largest id in
  use plus one, and \<open>AddFile\<close> deletes the old row before it inserts the new one. So when the file
  it replaces is the newest of all areas, the new copy gets that id again or a smaller one,
  and a caller who had seen the old copy is not told of the new one.
\<close>

theorem replaced_newest_not_new:
  assumes "se_rowid E = sqlite_rowid"
    and old: "put_file E i f d = Inr (path, d')" "x \<in> set (t_files d)" "f_area x = i" "f_name x = f_name f"
    and newest: "\<forall>y \<in> set (t_files d). 0 < f_id y \<and> f_id y \<le> f_id x" and dist: "distinct (map f_id (t_files d))"
  shows "\<exists>y \<in> set (t_files d'). f_area y = i \<and> f_name y = f_name f \<and> f_id y \<le> f_id x"
proof (rule put_file_cases [OF old(1)])
  fix fs
  assume fs: "fs = t_files d \<or> fs = delete_where (\<lambda>x. f_area x = i \<and> f_name x = f_name f) (t_files d)"
    and free: "\<forall>x \<in> set fs. \<not> (f_area x = i \<and> f_name x = f_name f)"
    and d': "d' = d\<lparr>t_files := fs @ [new_file E i f fs]\<rparr>"
  have sub: "set fs \<subseteq> set (t_files d)" and nx: "x \<notin> set fs" using fs free old by auto
  have lt: "f_id y < f_id x" if "y \<in> set fs" for y
  proof -
    have "y \<in> set (t_files d)" "y \<noteq> x" using that sub nx by auto
    then have "f_id y \<noteq> f_id x" using dist old(2) by (metis distinct_map inj_on_eq_iff)
    with newest \<open>y \<in> set (t_files d)\<close> show ?thesis by force
  qed
  have "foldr max (map f_id fs) 0 < f_id x"
    using lt newest old(2) by (auto simp: foldr_max_Max)
  then have "f_id (new_file E i f fs) \<le> f_id x" by (simp add: new_file_def assms(1) sqlite_rowid_def)
  then show ?thesis by (simp add: d') (simp add: new_file_def)
qed

theorem replaced_newest_not_new_witness:
  "\<exists>d'. put_file demo_env 1 demo_file demo_files_db = Inr (''p'', d') \<and>
     (\<exists>y \<in> set (t_files d'). f_area y = 1 \<and> f_name y = ''a'' \<and> f_id y \<le> 1) \<and> NewFilesCount d' 2 = 0"
proof -
  let ?d' = "demo_files_db\<lparr>t_files := [new_file demo_env 1 demo_file []]\<rparr>"
  have p: "put_file demo_env 1 demo_file demo_files_db = Inr (''p'', ?d')"
    by (simp add: put_file_def Let_def demo_files_db_def demo_file_def)
  have "\<exists>y \<in> set (t_files ?d'). f_area y = 1 \<and> f_name y = f_name demo_file \<and> f_id y \<le> f_id demo_file"
    by (rule replaced_newest_not_new [OF demo_env_rowid(4) p, of demo_file])
       (simp_all add: demo_files_db_def demo_file_def)
  moreover have "NewFilesCount ?d' 2 = 0"
    by (simp add: NewFilesCount_def FileAreas_def FilesLastSeen_def lookup_mark_def demo_files_db_def new_file_def
        sqlite_rowid_def Let_def)
  ultimately show ?thesis using p by (auto simp: demo_file_def)
qed

end
