(* ===== verification/Store_All.thy ===== *)
theory Store_All
  imports Accounts_Props Mail_Props Email_Props Fido_Props
begin

text \<open>
  The store as a whole. \<open>db_inv\<close> collects the invariants of all tables; \<open>store_step\<close> is one
  call of any writing operation of the package, with any arguments, by any caller, at any time;
  \<open>reachable\<close> are the databases a sequence of calls can make of a new install. The theorem is
  that every reachable database satisfies the whole invariant.
\<close>

section \<open>The whole invariant\<close>

definition uids :: "db \<Rightarrow> int set" where "uids d = u_id ` set (t_users d)"
definition board_ids :: "db \<Rightarrow> int set" where "board_ids d = b_id ` set (t_boards d)"
definition echo_ids :: "db \<Rightarrow> int set" where "echo_ids d = ea_id ` set (t_echo_areas d)"
definition file_area_ids :: "db \<Rightarrow> int set" where "file_area_ids d = fa_id ` set (t_file_areas d)"

definition blocks_inv :: "int set \<Rightarrow> (int \<times> int) list \<Rightarrow> bool" where
  "blocks_inv us bs \<longleftrightarrow> distinct bs \<and> (\<forall>(a, b) \<in> set bs. a \<in> us \<and> b \<in> us \<and> a \<noteq> b)"

definition bulletins_inv :: "bulletin list \<Rightarrow> bool" where
  "bulletins_inv bs \<longleftrightarrow> distinct (map bu_id bs) \<and> (\<forall>b \<in> set bs. subject_ok (bu_title b) \<and> body_ok (bu_body b))"

definition oneliners_inv :: "oneliner_row list \<Rightarrow> bool" where
  "oneliners_inv os \<longleftrightarrow> distinct (map o_id os) \<and>
     (\<forall>x \<in> set os. o_text x \<noteq> [] \<and> text_of printable (o_text x) \<and> length (runes (o_text x)) \<le> MaxOnelinerLen)"

definition db_inv :: "db \<Rightarrow> bool" where
  "db_inv d \<longleftrightarrow> users_inv (t_users d) \<and> blocks_inv (uids d) (t_blocks d) \<and> mail_inv (t_messages d) \<and>
     boards_inv (t_boards d) \<and> posts_inv (board_ids d) (t_posts d) \<and>
     marks_inv (uids d) (board_ids d) (t_board_reads d) \<and>
     bulletins_inv (t_bulletins d) \<and> oneliners_inv (t_oneliners d) \<and> events_inv (t_events d) \<and>
     verifications_inv (uids d) (t_verifications d) \<and> keys_inv (uids d) (t_ssh_keys d) \<and>
     echo_inv (t_echo_areas d) (t_echo_messages d) \<and> marks_inv (uids d) (echo_ids d) (t_echo_reads d) \<and>
     distinct (map fst (t_tossed d)) \<and> netmail_inv (uids d) (t_netmail d) \<and>
     files_inv (t_file_areas d) (t_files d) \<and> marks_inv (uids d) (file_area_ids d) (t_file_reads d)"

lemmas id_sets = uids_def board_ids_def echo_ids_def file_area_ids_def

lemma fk_mono:
  "us \<subseteq> us' \<Longrightarrow> blocks_inv us bs \<Longrightarrow> blocks_inv us' bs"
  "us \<subseteq> us' \<Longrightarrow> verifications_inv us vs \<Longrightarrow> verifications_inv us' vs"
  "us \<subseteq> us' \<Longrightarrow> keys_inv us ks \<Longrightarrow> keys_inv us' ks"
  "us \<subseteq> us' \<Longrightarrow> netmail_inv us ns \<Longrightarrow> netmail_inv us' ns"
  by (auto simp: blocks_inv_def verifications_inv_def keys_inv_def netmail_inv_def)

text \<open>A change of the account table that keeps every account id.\<close>

lemma db_inv_users:
  assumes inv: "db_inv d" and us: "users_inv us" and ids: "uids d \<subseteq> u_id ` set us"
  shows "db_inv (d\<lparr>t_users := us\<rparr>)"
  using inv us fk_mono [OF ids] marks_inv_mono [OF _ ids subset_refl]
  by (simp add: db_inv_def id_sets)

definition user_update :: "db \<Rightarrow> db \<Rightarrow> bool" where
  "user_update d d' \<longleftrightarrow> d' = d\<lparr>t_users := t_users d'\<rparr> \<and> uids d' = uids d"

lemma user_update_refl [simp]: "user_update d d"
  by (simp add: user_update_def)

lemma ids_update_where:
  "(\<And>x. u_id (f x) = u_id x) \<Longrightarrow> u_id ` set (update_where p f us) = u_id ` set us"
  by (metis map_update_where set_map)

lemma user_update_set_user: "(\<And>x. u_id (f x) = u_id x) \<Longrightarrow> user_update d (set_user i f d)"
  by (simp add: user_update_def set_user_def uids_def ids_update_where)

lemma user_update_updateUser [simp]:
  "(\<And>x. u_id (f x) = u_id x) \<Longrightarrow> user_update d (snd (updateUser i f d))"
  by (simp add: updateUser_def user_update_set_user)

lemma db_inv_user_update: "db_inv d \<Longrightarrow> user_update d d' \<Longrightarrow> users_inv (t_users d') \<Longrightarrow> db_inv d'"
  unfolding user_update_def using db_inv_users [of d "t_users d'"] by (simp add: uids_def)

lemma user_update_setPassword [simp]: "user_update d (snd (setPassword E i p d))"
  by (auto simp: setPassword_def split: sum.splits)

lemma user_update_ops:
  "user_update d (snd (RecordLogin E i d))" "user_update d (snd (ChangePassword E i cur nxt d))"
  "user_update d (snd (ResetPassword E a i pw d))" "user_update d (snd (SetLocation i loc d))"
  "user_update d (snd (SetSysop a i b d))" "user_update d (snd (SetLocked a i b d))"
  "user_update d (snd (ValidateUser a i d))" "user_update d (snd (BootstrapSysop E h d))"
  subgoal by (auto simp: RecordLogin_def Let_def tx_def user_update_set_user split: sum.splits)
  subgoal by (auto simp: ChangePassword_def split: option.splits sum.splits)
  subgoal by (auto simp: ResetPassword_def guarded_def split: sum.splits)
  subgoal by (auto simp: SetLocation_def updateUser_def user_update_set_user split: sum.splits)
  subgoal by (auto simp: SetSysop_def guarded_def split: sum.splits)
  subgoal by (auto simp: SetLocked_def guarded_def split: sum.splits)
  subgoal by (auto simp: ValidateUser_def guarded_def split: sum.splits)
  subgoal by (auto simp: BootstrapSysop_def updateUser_def user_update_set_user split: sum.splits)
  done

lemma user_update_SetEmailMode: "user_update d (snd (SetEmailMode i m d))"
  by (simp add: SetEmailMode_def Let_def user_update_def uids_def ids_update_where)

section \<open>Every operation keeps it\<close>

lemma db_inv_CreateUser:
  assumes inv: "db_inv d" and fr: "fresh_rowids E"
  shows "db_inv (snd (CreateUser E h p l d))"
proof -
  have u: "users_inv (t_users (snd (CreateUser E h p l d)))"
    using inv fr by (intro users_inv_CreateUser) (simp_all add: db_inv_def)
  have "snd (CreateUser E h p l d) = d\<lparr>t_users := t_users (snd (CreateUser E h p l d))\<rparr>"
    "uids d \<subseteq> uids (snd (CreateUser E h p l d))"
    by (auto simp: CreateUser_def Let_def tx_def uids_def split: sum.splits)
  then show ?thesis using db_inv_users [OF inv u] by (simp add: uids_def)
qed

lemma db_inv_DeleteUser:
  assumes inv: "db_inv d"
  shows "db_inv (snd (DeleteUser a i d))"
proof (cases "snd (DeleteUser a i d) = d")
  case False
  let ?d = "delete_user_rows i d\<lparr>t_messages := delete_user_mail i (t_messages (delete_user_rows i d))\<rparr>"
  have d': "snd (DeleteUser a i d) = ?d"
    using False by (auto simp: DeleteUser_def tx_def Let_def requireRow_def split: sum.splits if_splits
        elim!: and_then_Inl_iff [THEN iffD1, elim_format])
  have ids: "uids ?d = uids d - {i}" by (auto simp: uids_def delete_user_rows_def)
  have "users_inv (t_users ?d)" using users_inv_DeleteUser [of d a i] inv d' by (simp add: db_inv_def)
  moreover have "blocks_inv (uids d - {i}) (delete_where (\<lambda>(x, y). x = i \<or> y = i) (t_blocks d))"
    using inv by (auto simp: db_inv_def blocks_inv_def delete_where_def)
  moreover have "verifications_inv (uids d - {i}) (delete_where (\<lambda>v. v_user v = i) (t_verifications d))"
    using inv by (auto simp: db_inv_def verifications_inv_def distinct_map_delete_where)
  moreover have "keys_inv (uids d - {i}) (delete_where (\<lambda>k. k_user k = i) (t_ssh_keys d))"
    using inv keys_inv_delete [of "uids d" "t_ssh_keys d" "\<lambda>k. k_user k = i"]
    by (auto simp: db_inv_def keys_inv_def)
  ultimately show ?thesis unfolding d' using inv ids
    by (simp add: db_inv_def delete_user_rows_def board_ids_def echo_ids_def file_area_ids_def
        mail_inv_delete_user marks_inv_delete_user netmail_inv_delete_user)
qed (use inv in simp)

lemma db_inv_ConfirmEmail:
  assumes inv: "db_inv d"
  shows "db_inv (snd (ConfirmEmail E u c d))"
proof -
  let ?d = "snd (ConfirmEmail E u c d)"
  have "?d = d\<lparr>t_users := t_users ?d, t_verifications := t_verifications ?d\<rparr> \<and> uids ?d = uids d"
    by (cases rule: ConfirmEmail_cases [of d u E c])
       (simp_all add: drop_pending_def set_user_def uids_def ids_update_where)
  then obtain us vs where d': "?d = d\<lparr>t_users := us\<rparr>\<lparr>t_verifications := vs\<rparr>" and ids: "u_id ` set us = uids d"
    by (auto simp: uids_def)
  have "users_inv us" using users_inv_ConfirmEmail [of d E u c] inv d' by (simp add: db_inv_def)
  then have "db_inv (d\<lparr>t_users := us\<rparr>)" by (intro db_inv_users [OF inv]) (simp_all add: ids)
  moreover have "verifications_inv (uids d) vs"
    using verifications_inv_Confirm [of d E u c] inv d' by (simp add: db_inv_def uids_def)
  ultimately show ?thesis unfolding d' by (simp add: db_inv_def id_sets ids [unfolded uids_def])
qed

lemma db_inv_RemoveEmail:
  assumes inv: "db_inv d"
  shows "db_inv (snd (RemoveEmail u d))"
proof -
  let ?us = "update_where (\<lambda>r. u_id r = u) (\<lambda>r. r\<lparr>u_email := [], u_email_mode := 0\<rparr>) (t_users d)"
  let ?vs = "delete_where (\<lambda>v. v_user v = u) (t_verifications d)"
  have d': "snd (RemoveEmail u d) = d\<lparr>t_users := ?us\<rparr>\<lparr>t_verifications := ?vs\<rparr>"
    by (simp add: RemoveEmail_def tx_def drop_pending_def set_user_def)
  have ids: "u_id ` set ?us = uids d" by (simp add: ids_update_where uids_def)
  have "users_inv ?us" using users_inv_RemoveEmail [of d u] inv d' by (simp add: db_inv_def)
  then have "db_inv (d\<lparr>t_users := ?us\<rparr>)" by (intro db_inv_users [OF inv]) (simp_all add: ids)
  then show ?thesis unfolding d' by (simp add: db_inv_def id_sets verifications_inv_delete)
qed

lemma db_inv_blocks: "db_inv d \<Longrightarrow> db_inv (snd (Block u b d))" "db_inv d \<Longrightarrow> db_inv (snd (Unblock u b d))"
proof -
  assume inv: "db_inv d"
  show "db_inv (snd (Unblock u b d))"
    using inv by (auto simp: Unblock_def db_inv_def id_sets blocks_inv_def delete_where_def)
  show "db_inv (snd (Block u b d))"
  proof (cases "snd (Block u b d) = d")
    case False
    then have ne: "u \<noteq> b" and new: "(u, b) \<notin> set (t_blocks d)" and ex: "find_user d u \<noteq> None" "find_user d b \<noteq> None"
      and d': "snd (Block u b d) = d\<lparr>t_blocks := t_blocks d @ [(u, b)]\<rparr>"
      by (auto simp: Block_def UserByID_def getUser_def split: if_splits option.splits sum.splits)
    have "u \<in> uids d" "b \<in> uids d" using ex by (simp_all add: uids_def find_user_in del: not_None_eq)
    then show ?thesis unfolding d' using inv ne new by (auto simp: db_inv_def id_sets blocks_inv_def)
  qed (use inv in simp)
qed

lemma mail_frames:
  "snd (SendMessage E f t s b r d) = d\<lparr>t_messages := t_messages (snd (SendMessage E f t s b r d))\<rparr>"
  "snd (DeleteMessage i u d) = d\<lparr>t_messages := t_messages (snd (DeleteMessage i u d))\<rparr>"
  "snd (MarkRead E i u d) = d\<lparr>t_messages := t_messages (snd (MarkRead E i u d))\<rparr>"
  subgoal by (cases rule: SendMessage_cases [of E f t s b r d]) simp_all
  subgoal by (simp add: DeleteMessage_def tx_def Let_def requireRow_def)
  subgoal by (simp add: MarkRead_def Let_def)
  done

lemma db_inv_messages: "db_inv d \<Longrightarrow> mail_inv ms \<Longrightarrow> db_inv (d\<lparr>t_messages := ms\<rparr>)"
  by (simp add: db_inv_def id_sets)

lemma db_inv_mail:
  assumes inv: "db_inv d"
  shows "fresh_rowids E \<Longrightarrow> db_inv (snd (SendMessage E f t s b r d))"
    and "db_inv (snd (MarkRead E i u d))" and "db_inv (snd (DeleteMessage i u d))"
proof -
  have m: "mail_inv (t_messages d)" using inv by (simp add: db_inv_def)
  show "db_inv (snd (SendMessage E f t s b r d))" if "fresh_rowids E"
    by (subst mail_frames(1)) (rule db_inv_messages [OF inv mail_inv_SendMessage [OF m that]])
  show "db_inv (snd (DeleteMessage i u d))"
    by (subst mail_frames(2)) (rule db_inv_messages [OF inv mail_inv_DeleteMessage [OF m]])
  show "db_inv (snd (MarkRead E i u d))"
    by (subst mail_frames(3)) (rule db_inv_messages [OF inv mail_inv_MarkRead [OF m]])
qed

lemma board_frames:
  "snd (CreateBoard E a n ds so d) = d\<lparr>t_boards := t_boards (snd (CreateBoard E a n ds so d))\<rparr>"
  "snd (AddPost E b a s t r d) = d\<lparr>t_posts := t_posts (snd (AddPost E b a s t r d))\<rparr>"
  "snd (DeletePost i u d) = d\<lparr>t_posts := t_posts (snd (DeletePost i u d))\<rparr>"
  "snd (MarkBoardRead u b i d) = d\<lparr>t_board_reads := t_board_reads (snd (MarkBoardRead u b i d))\<rparr>"
  subgoal by (rule CreateBoard_outcome [of E a n ds so d]) simp_all
  subgoal by (auto simp: AddPost_def tx_def split: sum.splits option.splits prod.splits)
  subgoal by (auto simp: DeletePost_def tx_def split: sum.splits option.splits)
  subgoal by (auto simp: MarkBoardRead_def split: sum.splits)
  done

lemma db_inv_sysopDelete: "db_inv d \<Longrightarrow> db_inv (del d) \<Longrightarrow> db_inv (snd (sysopDelete a n del d))"
  by (cases "requireSysop d a"; cases "n d = 0") (auto simp: sysopDelete_def tx_def requireRow_def)

lemma db_inv_boards:
  assumes inv: "db_inv d"
  shows "fresh_rowids E \<Longrightarrow> db_inv (snd (CreateBoard E a n ds so d))"
    and "db_inv (snd (DeleteBoard a i d))"
    and "fresh_rowids E \<Longrightarrow> db_inv (snd (AddPost E b a s t r d))"
    and "db_inv (snd (DeletePost i u d))" and "db_inv (snd (MarkBoardRead u b i d))"
proof -
  show "db_inv (snd (CreateBoard E a n ds so d))" if fr: "fresh_rowids E"
  proof (rule CreateBoard_outcome [of E a n ds so d])
    fix bd x assume res: "CreateBoard E a n ds so d = (Inr bd, d\<lparr>t_boards := t_boards d @ [x]\<rparr>)"
    have bs: "boards_inv (t_boards d @ [x])"
      using boards_inv_CreateBoard [of d E a n ds so] inv fr res by (simp add: db_inv_def)
    have "board_ids d \<subseteq> b_id ` set (t_boards d @ [x])" by (auto simp: board_ids_def)
    then show ?thesis using inv bs posts_inv_mono [of "board_ids d"] marks_inv_mono [of "uids d" "board_ids d"]
      by (simp add: res db_inv_def id_sets)
  qed (use inv in simp)
  have "board_ids (delete_board_rows i d) = board_ids d - {i}"
    by (auto simp: board_ids_def delete_board_rows_def)
  then have "db_inv (delete_board_rows i d)" using inv
    by (simp add: db_inv_def) (simp add: delete_board_rows_def uids_def echo_ids_def
        file_area_ids_def boards_inv_delete posts_inv_board marks_inv_delete_area)
  then show "db_inv (snd (DeleteBoard a i d))" unfolding DeleteBoard_def by (rule db_inv_sysopDelete [OF inv])
  show "db_inv (snd (AddPost E b a s t r d))" if fr: "fresh_rowids E"
    using posts_inv_AddPost [OF _ fr, of d b a s t r] inv
    by (subst board_frames(2)) (simp add: db_inv_def id_sets)
  show "db_inv (snd (DeletePost i u d))"
  proof (cases "snd (DeletePost i u d) = d")
    case False
    then have "snd (DeletePost i u d) = d\<lparr>t_posts := delete_where (\<lambda>p. p_id p = i) (t_posts d)\<rparr>"
      using DeletePost_changes [of i u d] by blast
    then show ?thesis using inv by (simp add: db_inv_def id_sets posts_inv_delete)
  qed (use inv in simp)
  show "db_inv (snd (MarkBoardRead u b i d))"
    using inv marks_inv_upsert [of "uids d" "board_ids d" "t_board_reads d" u b i]
    by (auto simp: MarkBoardRead_def board_known_def db_inv_def id_sets split: sum.splits)
qed

lemma db_inv_community:
  assumes inv: "db_inv d"
  shows "fresh_rowids E \<Longrightarrow> db_inv (snd (AddBulletin E a t b d))" and "db_inv (snd (DeleteBulletin a i d))"
    and "fresh_rowids E \<Longrightarrow> db_inv (snd (AddOneliner E a x d))" and "db_inv (snd (DeleteOneliner a i d))"
proof -
  show "db_inv (snd (AddBulletin E a t b d))" if fr: "fresh_rowids E"
  proof (cases "cleanLetter t b")
    case (Inr p)
    then obtain t' b' where c: "cleanLetter t b = Inr (t', b')" by (cases p) auto
    have "subject_ok t' \<and> body_ok b'" by (rule cleanLetter_ok [OF c])
    then show ?thesis using inv c fresh_rowids_image [OF fr, of bu_id "t_bulletins d"]
      by (cases "requireSysop d a") (auto simp: AddBulletin_def tx_def Let_def db_inv_def id_sets bulletins_inv_def)
  qed (use inv in \<open>simp add: AddBulletin_def\<close>)
  show "db_inv (snd (AddOneliner E a x d))" if fr: "fresh_rowids E"
    using inv fresh_rowids_image [OF fr, of o_id "t_oneliners d"] length_runes_Clean [of x MaxOnelinerLen]
      text_of_Clean [of x MaxOnelinerLen]
    by (cases "UserByID d a") (auto simp: AddOneliner_def Let_def db_inv_def id_sets oneliners_inv_def)
  show "db_inv (snd (DeleteBulletin a i d))" unfolding DeleteBulletin_def
    by (rule db_inv_sysopDelete) (use inv in \<open>auto simp: db_inv_def id_sets bulletins_inv_def distinct_map_delete_where\<close>)
  show "db_inv (snd (DeleteOneliner a i d))" unfolding DeleteOneliner_def
    by (rule db_inv_sysopDelete) (use inv in \<open>auto simp: db_inv_def id_sets oneliners_inv_def distinct_map_delete_where\<close>)
qed

lemma db_inv_accounts:
  assumes inv: "db_inv d"
  shows "db_inv (snd (RecordLogin E i d))" "db_inv (snd (ChangePassword E i cur nxt d))"
    "db_inv (snd (ResetPassword E a i pw d))" "db_inv (snd (SetLocation i loc d))"
    "db_inv (snd (SetSysop a i b d))" "db_inv (snd (SetLocked a i b d))"
    "db_inv (snd (ValidateUser a i d))" "db_inv (snd (BootstrapSysop E h d))" "db_inv (snd (SetEmailMode i m d))"
proof -
  have u: "users_inv (t_users d)" using inv by (simp add: db_inv_def)
  note step = db_inv_user_update [OF inv]
  show "db_inv (snd (RecordLogin E i d))" by (rule step [OF user_update_ops(1) users_inv_others(1) [OF u]])
  show "db_inv (snd (ChangePassword E i cur nxt d))" by (rule step [OF user_update_ops(2) users_inv_others(2) [OF u]])
  show "db_inv (snd (ResetPassword E a i pw d))" by (rule step [OF user_update_ops(3) users_inv_others(3) [OF u]])
  show "db_inv (snd (SetLocation i loc d))" by (rule step [OF user_update_ops(4) users_inv_others(4) [OF u]])
  show "db_inv (snd (SetSysop a i b d))" by (rule step [OF user_update_ops(5) users_inv_SetSysop [OF u]])
  show "db_inv (snd (SetLocked a i b d))" by (rule step [OF user_update_ops(6) users_inv_others(5) [OF u]])
  show "db_inv (snd (ValidateUser a i d))" by (rule step [OF user_update_ops(7) users_inv_others(6) [OF u]])
  show "db_inv (snd (BootstrapSysop E h d))" by (rule step [OF user_update_ops(8) users_inv_BootstrapSysop [OF u]])
  show "db_inv (snd (SetEmailMode i m d))" by (rule step [OF user_update_SetEmailMode users_inv_SetEmailMode [OF u]])
qed

lemma db_inv_keys:
  assumes inv: "db_inv d"
  shows "db_inv (snd (StartEmailVerification E u a d))"
    and "fresh_rowids E \<Longrightarrow> db_inv (snd (AddSSHKey E u f p c d))" and "db_inv (snd (DeleteSSHKey u i d))"
proof -
  have f: "snd (StartEmailVerification E u a d) = d\<lparr>t_verifications := t_verifications (snd (StartEmailVerification E u a d))\<rparr>"
    "snd (AddSSHKey E u f p c d) = d\<lparr>t_ssh_keys := t_ssh_keys (snd (AddSSHKey E u f p c d))\<rparr>"
    by (auto simp: StartEmailVerification_def AddSSHKey_def tx_def Let_def split: sum.splits)
  show "db_inv (snd (StartEmailVerification E u a d))"
    using verifications_inv_Start [of d E u a] inv by (subst f(1)) (simp add: db_inv_def id_sets)
  show "db_inv (snd (AddSSHKey E u f p c d))" if "fresh_rowids E"
    using keys_inv_Add [OF _ that, of d u f p c] inv by (subst f(2)) (simp add: db_inv_def id_sets)
  show "db_inv (snd (DeleteSSHKey u i d))"
    using inv by (simp add: DeleteSSHKey_def Let_def db_inv_def id_sets keys_inv_delete)
qed

lemma db_inv_fido:
  assumes inv: "db_inv d"
  shows "fresh_rowids E \<Longrightarrow> db_inv (snd (ImportEcho E m d))" and "db_inv (snd (MarkEchoRead u a i d))"
    and "db_inv (MarkFTNFile E x n d)" and "fresh_rowids E \<Longrightarrow> db_inv (snd (insertNetmail E k d))"
    and "db_inv (MarkNetmailRead E i d)"
proof -
  show "db_inv (snd (ImportEcho E m d))" if fr: "fresh_rowids E"
  proof -
    let ?d = "snd (ImportEcho E m d)"
    have fr2: "?d = d\<lparr>t_echo_areas := t_echo_areas ?d, t_echo_messages := t_echo_messages ?d\<rparr> \<and> echo_ids d \<subseteq> echo_ids ?d"
    proof (cases rule: ImportEcho_cases [of E m d])
      case (stored tag j d1 row)
      have "d1 = d\<lparr>t_echo_areas := t_echo_areas d1\<rparr>" "echo_ids d \<subseteq> echo_ids d1"
        using stored(5) by (auto simp: ensureEchoArea_def echo_ids_def Let_def split: option.splits)
      then show ?thesis by (simp add: stored(11) echo_ids_def)
    qed simp_all
    have e: "echo_inv (t_echo_areas ?d) (t_echo_messages ?d)"
      using inv fr by (intro echo_inv_ImportEcho) (simp_all add: db_inv_def)
    have "marks_inv (uids d) (echo_ids ?d) (t_echo_reads d)"
      using inv fr2 by (auto simp: db_inv_def intro: marks_inv_mono)
    then show ?thesis using inv e by (subst fr2 [THEN conjunct1]) (simp add: db_inv_def id_sets)
  qed
  show "db_inv (snd (MarkEchoRead u a i d))"
    using inv marks_inv_upsert [of "uids d" "echo_ids d" "t_echo_reads d" u a i]
    by (auto simp: MarkEchoRead_def echo_known_def db_inv_def id_sets split: sum.splits)
  show "db_inv (MarkFTNFile E x n d)"
    using inv by (force simp: MarkFTNFile_def FTNFileSeen_def db_inv_def id_sets)
  have f: "snd (insertNetmail E k d) = d\<lparr>t_netmail := t_netmail (snd (insertNetmail E k d))\<rparr>"
    by (simp add: insertNetmail_def tx_def Let_def)
  show "db_inv (snd (insertNetmail E k d))" if "fresh_rowids E"
    using netmail_inv_insert [OF _ that, of d k] inv by (subst f) (simp add: db_inv_def id_sets)
  show "db_inv (MarkNetmailRead E i d)"
    using inv by (simp add: MarkNetmailRead_def db_inv_def id_sets netmail_inv_read)
qed

lemma db_inv_netmail:
  assumes "db_inv d" "fresh_rowids E"
  shows "db_inv (snd (ImportNetmail E m d))" "db_inv (snd (RecordSentNetmail E n d))"
  using assms by (simp_all add: snd_ImportNetmail snd_RecordSentNetmail db_inv_fido)

lemma db_inv_files:
  assumes inv: "db_inv d"
  shows "fresh_rowids E \<Longrightarrow> db_inv (snd (AddFile E t ds f d))" and "db_inv (snd (RemoveFile E t n d))"
    and "db_inv (snd (MarkFilesSeen u a i d))" and "db_inv (CountDownload i d)"
proof -
  show "db_inv (snd (AddFile E t ds f d))" if fr: "fresh_rowids E"
  proof -
    let ?d = "snd (AddFile E t ds f d)"
    have fr2: "?d = d\<lparr>t_file_areas := t_file_areas ?d, t_files := t_files ?d\<rparr> \<and> file_area_ids d \<subseteq> file_area_ids ?d"
    proof (cases rule: AddFile_cases [of E t ds f d])
      case (ok j d1 old fs)
      have sp: "\<exists>as. d1 = d\<lparr>t_file_areas := as\<rparr>" "file_area_ids d \<subseteq> file_area_ids d1"
        using ensureFileArea_spec [OF ok(1) fr] inv by (auto simp: db_inv_def files_inv_def file_area_ids_def)
      then show ?thesis by (auto simp: ok(4) file_area_ids_def)
    qed simp_all
    have e: "files_inv (t_file_areas ?d) (t_files ?d)"
      using inv fr by (intro files_inv_AddFile) (simp_all add: db_inv_def)
    have "marks_inv (uids d) (file_area_ids ?d) (t_file_reads d)"
      using inv fr2 by (auto simp: db_inv_def intro: marks_inv_mono)
    then show ?thesis using inv e by (subst fr2 [THEN conjunct1]) (simp add: db_inv_def id_sets)
  qed
  show "db_inv (snd (RemoveFile E t n d))"
    using inv by (auto simp: RemoveFile_def tx_def db_inv_def id_sets files_inv_delete split: option.splits)
  show "db_inv (snd (MarkFilesSeen u a i d))"
    using inv marks_inv_upsert [of "uids d" "file_area_ids d" "t_file_reads d" u a i]
    by (auto simp: MarkFilesSeen_def files_known_def db_inv_def id_sets split: sum.splits)
  show "db_inv (CountDownload i d)"
    using inv by (simp add: CountDownload_def db_inv_def id_sets files_inv_download)
qed

lemma db_inv_log:
  assumes inv: "db_inv d"
  shows "fresh_rowids E \<Longrightarrow> db_inv (snd (LogEvent E e d))" "db_inv (RecordHit bk k t d)" "db_inv (ClearHits bk k d)"
proof -
  show "db_inv (snd (LogEvent E e d))" if fr: "fresh_rowids E"
  proof -
    have f: "snd (LogEvent E e d) = d\<lparr>t_events := t_events (snd (LogEvent E e d))\<rparr>"
      by (simp add: LogEvent_def Let_def)
    have "events_inv (t_events (snd (LogEvent E e d)))"
      using inv fr by (intro events_inv_LogEvent) (simp_all add: db_inv_def events_inv_def)
    then show ?thesis using inv by (subst f) (simp add: db_inv_def id_sets)
  qed
qed (use inv in \<open>simp_all add: RecordHit_def ClearHits_def db_inv_def id_sets\<close>)

section \<open>Reachable databases\<close>

text \<open>One call of a writing operation. The environment (clock, randomness, row ids) is a new
  one each time; row ids are fresh.\<close>

inductive store_step :: "db \<Rightarrow> db \<Rightarrow> bool" where
  create_user: "fresh_rowids E \<Longrightarrow> store_step d (snd (CreateUser E h p l d))"
| record_login: "store_step d (snd (RecordLogin E i d))"
| change_password: "store_step d (snd (ChangePassword E i cur nxt d))"
| reset_password: "store_step d (snd (ResetPassword E a i p d))"
| set_location: "store_step d (snd (SetLocation i l d))"
| set_sysop: "store_step d (snd (SetSysop a i b d))"
| set_locked: "store_step d (snd (SetLocked a i b d))"
| validate_user: "store_step d (snd (ValidateUser a i d))"
| bootstrap: "store_step d (snd (BootstrapSysop E h d))"
| delete_user: "store_step d (snd (DeleteUser a i d))"
| block: "store_step d (snd (Block i j d))"
| unblock: "store_step d (snd (Unblock i j d))"
| start_email: "store_step d (snd (StartEmailVerification E i s d))"
| confirm_email: "store_step d (snd (ConfirmEmail E i s d))"
| email_mode: "store_step d (snd (SetEmailMode i m d))"
| remove_email: "store_step d (snd (RemoveEmail i d))"
| add_key: "fresh_rowids E \<Longrightarrow> store_step d (snd (AddSSHKey E i f p c d))"
| delete_key: "store_step d (snd (DeleteSSHKey i k d))"
| send: "fresh_rowids E \<Longrightarrow> store_step d (snd (SendMessage E i j s b r d))"
| mark_read: "store_step d (snd (MarkRead E i j d))"
| delete_message: "store_step d (snd (DeleteMessage i j d))"
| create_board: "fresh_rowids E \<Longrightarrow> store_step d (snd (CreateBoard E a n ds so d))"
| delete_board: "store_step d (snd (DeleteBoard a i d))"
| add_post: "fresh_rowids E \<Longrightarrow> store_step d (snd (AddPost E b a s t r d))"
| delete_post: "store_step d (snd (DeletePost i j d))"
| mark_board: "store_step d (snd (MarkBoardRead i b j d))"
| add_bulletin: "fresh_rowids E \<Longrightarrow> store_step d (snd (AddBulletin E a t s d))"
| delete_bulletin: "store_step d (snd (DeleteBulletin a i d))"
| add_oneliner: "fresh_rowids E \<Longrightarrow> store_step d (snd (AddOneliner E a s d))"
| delete_oneliner: "store_step d (snd (DeleteOneliner a i d))"
| log_event: "fresh_rowids E \<Longrightarrow> store_step d (snd (LogEvent E e d))"
| record_hit: "store_step d (RecordHit bk k at d)"
| clear_hits: "store_step d (ClearHits bk k d)"
| import_echo: "fresh_rowids E \<Longrightarrow> store_step d (snd (ImportEcho E msg d))"
| mark_echo: "store_step d (snd (MarkEchoRead i j k d))"
| mark_file: "store_step d (MarkFTNFile E x n d)"
| import_netmail: "fresh_rowids E \<Longrightarrow> store_step d (snd (ImportNetmail E msg d))"
| record_sent: "fresh_rowids E \<Longrightarrow> store_step d (snd (RecordSentNetmail E nm d))"
| mark_netmail: "store_step d (MarkNetmailRead E i d)"
| add_file: "fresh_rowids E \<Longrightarrow> store_step d (snd (AddFile E t ds f d))"
| remove_file: "store_step d (snd (RemoveFile E t n d))"
| mark_files: "store_step d (snd (MarkFilesSeen i j k d))"
| count_download: "store_step d (CountDownload i d)"

lemma db_inv_step: "store_step d d' \<Longrightarrow> db_inv d \<Longrightarrow> db_inv d'"
  by (induction rule: store_step.induct)
     (simp_all only: db_inv_CreateUser db_inv_accounts db_inv_DeleteUser db_inv_blocks db_inv_keys
       db_inv_ConfirmEmail db_inv_RemoveEmail db_inv_mail db_inv_boards db_inv_community db_inv_log
       db_inv_fido db_inv_netmail db_inv_files)

inductive reachable :: "db \<Rightarrow> bool" where
  new_install: "reachable empty_db"
| call: "reachable d \<Longrightarrow> store_step d d' \<Longrightarrow> reachable d'"

lemma db_inv_empty: "db_inv empty_db"
proof -
  have n: "text_of printable ''Announcements''" "text_of printable ''General''"
    "length (runes ''Announcements'') = 13" "length (runes ''General'') = 7"
    by ((rule text_of_ascii_list | subst runes_ascii);
      simp add: is_ascii_def byte_val_def printable_def is_control_def is_bidi_def rune_error_def)+
  then show ?thesis
    by (simp add: db_inv_def empty_db_def id_sets users_inv_def blocks_inv_def mail_inv_def
        boards_inv_def board_ok_def posts_inv_def marks_inv_def bulletins_inv_def oneliners_inv_def
        events_inv_def maxEvents_def verifications_inv_def keys_inv_def echo_inv_def netmail_inv_def
        files_inv_def MinBoardNameLen_def MaxBoardNameLen_def)
qed

lemma reachable_db_inv: "reachable d \<Longrightarrow> db_inv d"
  by (induction rule: reachable.induct) (simp_all add: db_inv_empty db_inv_step)

text \<open>
  Claim C1. Whatever calls are made, in whatever order, by whomever and with whatever
  arguments, the database of an install always satisfies the invariant of every table: unique
  keys and no dangling foreign key, well-formed unique handles, one owner per verified address,
  a sysop as soon as there is an account, sysops approved, inboxes of at most 500 letters and no
  letter nobody can see, sanitised subjects and bodies, at most 5 login keys per account and 5
  tries per code, 5000 events, 2000 messages per conference, 1000 netmails.
\<close>

theorem store_invariant:
  assumes "reachable d"
  shows "db_inv d"
  by (rule reachable_db_inv [OF assms])

theorem store_invariant_witness: "db_inv (snd (CreateUser demo_env ''cat'' ''password'' ''x'' empty_db))"
  by (rule store_invariant [OF reachable.call [OF reachable.new_install store_step.create_user [OF demo_env_fresh]]])

end
