(* ===== verification/Term_Render.thy ===== *)
theory Term_Render
  imports Term_Text
begin

text \<open>
  \<open>internal/term/render.go\<close>: the pipe-code renderer. The renderer's colours are its state;
  an index into a colour table out of range would panic in Go, so \<open>sgr\<close> returns an option
  and the state invariant shows it never does. The main results: escaped text renders to
  itself and leaves the colours alone, whatever is printed after it, and text made safe
  cannot put a control byte on the caller's terminal.
\<close>

datatype color_mode = NoColor | ANSI16 | ANSI256

record renderer =
  r_mode :: color_mode
  r_color :: bool
  r_fg :: nat
  r_bg :: nat

definition defaultFG :: nat where "defaultFG = 7"
definition defaultBG :: nat where "defaultBG = 0"

definition dosToANSI :: "nat list" where "dosToANSI = [0, 4, 2, 6, 1, 5, 3, 7]"

definition vga256 :: "nat list" where
  "vga256 = [16, 19, 34, 37, 124, 127, 130, 248, 240, 63, 83, 87, 203, 207, 227, 231]"

definition NewRenderer :: "color_mode \<Rightarrow> renderer" where
  "NewRenderer mode =
     \<lparr>r_mode = mode, r_color = (mode \<noteq> NoColor), r_fg = defaultFG, r_bg = defaultBG\<rparr>"

definition ESC :: char where "ESC = CHR 0x1B"

definition clearScreen :: string where "clearScreen = ESC # ''[2J'' @ ESC # ''[H''"

text \<open>A table lookup that panics out of range.\<close>

definition index :: "'a list \<Rightarrow> nat \<Rightarrow> 'a option" where
  "index xs i = (if i < length xs then Some (xs ! i) else None)"

definition sgr :: "renderer \<Rightarrow> string option" where
  "sgr r =
     (if r_mode r = ANSI256 then
        (case (index vga256 (r_fg r), index vga256 (r_bg r)) of
           (Some f, Some b) \<Rightarrow>
             Some (ESC # ''[0;38;5;'' @ nat_digits f @ '';48;5;'' @ nat_digits b @ ''m'')
         | _ \<Rightarrow> None)
      else
        (case (index dosToANSI (r_fg r mod 8), index dosToANSI (r_bg r)) of
           (Some f, Some b) \<Rightarrow>
             Some (ESC # ''[0;'' @ (if 8 \<le> r_fg r then ''1;'' else []) @ ''3'' @ nat_digits f @
                   '';4'' @ nat_digits b @ ''m'')
         | _ \<Rightarrow> None))"

text \<open>The result of \<open>code\<close>: not a code, a panic, or the sequence to print.\<close>

datatype code_result = NotCode | Panic | Seq string

definition seq_of :: "string option \<Rightarrow> code_result" where
  "seq_of s = (case s of None \<Rightarrow> Panic | Some t \<Rightarrow> Seq t)"

definition code :: "renderer \<Rightarrow> char \<Rightarrow> char \<Rightarrow> code_result \<times> renderer" where
  "code r a b =
     (if [a, b] = ''CL'' then
        let r' = r\<lparr>r_fg := defaultFG, r_bg := defaultBG\<rparr>
        in (if r_color r then seq_of (map_option (\<lambda>s. s @ clearScreen) (sgr r')) else Seq [CHR 0x0A], r')
      else if [a, b] = ''RE'' then
        let r' = r\<lparr>r_fg := defaultFG, r_bg := defaultBG\<rparr>
        in (if r_color r then seq_of (sgr r') else Seq [], r')
      else if \<not> is_digit a \<or> \<not> is_digit b then (NotCode, r)
      else let n = (byte_val a - 48) * 10 + (byte_val b - 48)
           in if n \<le> 15 then
                let r' = r\<lparr>r_fg := n\<rparr> in (if r_color r then seq_of (sgr r') else Seq [], r')
              else if n \<le> 23 then
                let r' = r\<lparr>r_bg := n - 16\<rparr> in (if r_color r then seq_of (sgr r') else Seq [], r')
              else (NotCode, r))"

abbreviation pipe :: char where "pipe \<equiv> CHR ''|''"

text \<open>\<open>Render\<close>'s loop over the bytes; \<open>None\<close> is a panic. The quick exit for text without a
  pipe returns the text unchanged, as the loop does.\<close>

fun Render :: "renderer \<Rightarrow> string \<Rightarrow> (string \<times> renderer) option" where
  "Render r [] = Some ([], r)"
| "Render r (c # s) =
     (if c \<noteq> pipe then map_option (\<lambda>(out, r'). (c # out, r')) (Render r s)
      else case s of
          [] \<Rightarrow> Some ([pipe], r)
        | a # t \<Rightarrow>
            if a = pipe then map_option (\<lambda>(out, r'). (pipe # out, r')) (Render r t)
            else (case t of
                [] \<Rightarrow> map_option (\<lambda>(out, r'). (pipe # out, r')) (Render r s)
              | b # u \<Rightarrow>
                  (case code r a b of
                     (Seq q, r1) \<Rightarrow> map_option (\<lambda>(out, r'). (q @ out, r')) (Render r1 u)
                   | (Panic, _) \<Rightarrow> None
                   | (NotCode, r1) \<Rightarrow> map_option (\<lambda>(out, r'). (pipe # out, r')) (Render r1 s))))"

definition Escape :: "string \<Rightarrow> string" where
  "Escape s = replace_all ''|'' ''||'' s"

text \<open>\<open>safe\<close> of \<open>internal/bbs/session.go\<close>: what every piece of caller text goes through.\<close>

definition safe :: "string \<Rightarrow> string" where
  "safe v = Escape (StripControl v)"

definition isCode :: "char \<Rightarrow> char \<Rightarrow> bool" where
  "isCode a b \<longleftrightarrow> [a, b] = ''CL'' \<or> [a, b] = ''RE'' \<or>
     (is_digit a \<and> is_digit b \<and> (byte_val a - 48) * 10 + (byte_val b - 48) \<le> 23)"

definition VisibleLen :: "string \<Rightarrow> nat option" where
  "VisibleLen s = map_option (\<lambda>(out, _). length (runes out)) (Render (NewRenderer NoColor) s)"

function TruncateVisible_loop :: "nat \<Rightarrow> nat \<Rightarrow> string \<Rightarrow> string" where
  "TruncateVisible_loop n visible s =
     (case s of
        [] \<Rightarrow> []
      | c # t \<Rightarrow>
          if c = pipe \<and> t \<noteq> [] \<and> hd t = pipe then
            (if visible = n then [] else pipe # pipe # TruncateVisible_loop n (Suc visible) (tl t))
          else if c = pipe \<and> 2 \<le> length t \<and> isCode (t ! 0) (t ! 1) then
            c # take 2 t @ TruncateVisible_loop n visible (drop 2 t)
          else if visible = n then []
          else take (snd (decode_rune s)) s @
               TruncateVisible_loop n (Suc visible) (drop (snd (decode_rune s)) s))"
  by pat_completeness auto
termination
proof (relation "measure (\<lambda>(_, _, s). length s)", goal_cases)
  case (4 n visible s c t)
  then show ?case using decode_rune_width(2) [of s] by (cases s) auto
qed auto

declare TruncateVisible_loop.simps [simp del]

definition TruncateVisible :: "string \<Rightarrow> nat \<Rightarrow> string" where
  "TruncateVisible s n = TruncateVisible_loop n 0 s"

section \<open>The renderer's state\<close>

definition renderer_inv :: "renderer \<Rightarrow> bool" where
  "renderer_inv r \<longleftrightarrow> r_fg r < 16 \<and> r_bg r < 8 \<and> (r_color r \<longleftrightarrow> r_mode r \<noteq> NoColor)"

lemma NewRenderer_inv: "renderer_inv (NewRenderer mode)"
  by (simp add: renderer_inv_def NewRenderer_def defaultFG_def defaultBG_def)

lemma sgr_total: "renderer_inv r \<Longrightarrow> \<exists>s. sgr r = Some s"
proof -
  assume "renderer_inv r"
  then have "r_fg r < length vga256" "r_bg r < length vga256"
    "r_fg r mod 8 < length dosToANSI" "r_bg r < length dosToANSI"
    by (auto simp: renderer_inv_def vga256_def dosToANSI_def)
  then show ?thesis by (simp add: sgr_def index_def)
qed

lemma renderer_inv_reset [simp]:
  "renderer_inv r \<Longrightarrow> renderer_inv (r\<lparr>r_fg := defaultFG, r_bg := defaultBG\<rparr>)"
  by (simp add: renderer_inv_def defaultFG_def defaultBG_def)

lemma seq_of_total: "renderer_inv r \<Longrightarrow> seq_of (map_option f (sgr r)) \<noteq> Panic"
  "renderer_inv r \<Longrightarrow> seq_of (sgr r) \<noteq> Panic"
  using sgr_total [of r] by (auto simp: seq_of_def)

lemma code_inv:
  assumes "renderer_inv r"
  shows "renderer_inv (snd (code r a b))" "fst (code r a b) \<noteq> Panic"
proof -
  have fg: "n \<le> 15 \<Longrightarrow> renderer_inv (r\<lparr>r_fg := n\<rparr>)" for n
    using assms by (simp add: renderer_inv_def)
  have bg: "n \<le> 23 \<Longrightarrow> renderer_inv (r\<lparr>r_bg := n - 16\<rparr>)" for n
    using assms by (auto simp: renderer_inv_def)
  show "renderer_inv (snd (code r a b))"
    using assms fg bg by (simp add: code_def Let_def)
  show "fst (code r a b) \<noteq> Panic"
    using assms fg bg by (simp add: code_def Let_def seq_of_total)
qed

lemma Render_pipe:
  "a \<noteq> pipe \<Longrightarrow> Render r (pipe # a # b # u) =
     (case code r a b of
        (Seq q, r1) \<Rightarrow> map_option (\<lambda>(out, r'). (q @ out, r')) (Render r1 u)
      | (Panic, _) \<Rightarrow> None
      | (NotCode, r1) \<Rightarrow> map_option (\<lambda>(out, r'). (pipe # out, r')) (Render r1 (a # b # u)))"
  by simp

lemma Render_total:
  "renderer_inv r \<Longrightarrow> \<exists>out r'. Render r s = Some (out, r') \<and> renderer_inv r'"
proof (induction r s rule: Render.induct)
  case (2 r c s)
  show ?case
  proof (cases "c = pipe \<and> (\<exists>a b u. s = a # b # u \<and> a \<noteq> pipe)")
    case True
    then obtain a b u where s: "s = a # b # u" "a \<noteq> pipe" "c = pipe" by blast
    obtain q r1 where q: "code r a b = (q, r1)" by fastforce
    with code_inv [OF "2.prems", of a b] have r1: "renderer_inv r1" "q \<noteq> Panic" by auto
    show ?thesis
    proof (cases q)
      case NotCode
      then obtain out r' where "Render r1 s = Some (out, r')" "renderer_inv r'"
        using 2 s q r1 by fastforce
      with s q NotCode show ?thesis by (simp add: Render_pipe del: Render.simps)
    next
      case (Seq t)
      then obtain out r' where "Render r1 u = Some (out, r')" "renderer_inv r'"
        using 2 s q r1 by fastforce
      with s q Seq show ?thesis by (simp add: Render_pipe del: Render.simps)
    qed (use r1 in simp)
  next
    case False
    then consider "c \<noteq> pipe" | "c = pipe" "s = []" | t where "c = pipe" "s = pipe # t"
      | a where "c = pipe" "s = [a]" "a \<noteq> pipe"
      by (cases s; cases "tl s") auto
    then show ?thesis
    proof cases
      case 1
      with 2(1) "2.prems" obtain out r' where "Render r s = Some (out, r')" "renderer_inv r'" by blast
      with 1 show ?thesis by simp
    next
      case 3
      with 2(2) "2.prems" obtain out r' where "Render r t = Some (out, r')" "renderer_inv r'" by blast
      with 3 show ?thesis by simp
    qed (use "2.prems" in simp_all)
  qed
qed simp

section \<open>Escaped text\<close>

lemma Escape_simps [simp]:
  "Escape [] = []"
  "Escape (c # s) = (if c = pipe then [pipe, pipe] else [c]) @ Escape s"
  by (simp_all add: Escape_def replace_all_single)

lemma Render_Escape_append:
  "Render r (Escape s @ t) = map_option (\<lambda>(out, r'). (s @ out, r')) (Render r t)"
  by (induction s)
     (auto simp: option.map_comp comp_def option.map_ident split: prod.splits intro!: option.map_cong)

text \<open>
  Text that went through \<open>Escape\<close> renders to exactly itself in
  front of whatever is printed after it, and leaves the renderer's colours as they were:
  nothing a caller typed is taken for a colour code or a screen clear.
\<close>

theorem Render_Escape:
  "Render r (Escape s @ t) =
     (case Render r t of None \<Rightarrow> None | Some (out, r') \<Rightarrow> Some (s @ out, r'))"
  by (simp add: Render_Escape_append split: option.splits)

text \<open>
  Claim C13. Starting from a fresh renderer of any colour mode, rendering any byte
  string whatsoever returns (no table index is ever out of range), and what \<open>safe\<close> made of
  any caller text is printed as valid UTF-8 without a single control or bidi character.
\<close>

theorem Render_safe_text:
  "(\<exists>out r'. Render (NewRenderer mode) s = Some (out, r')) \<and>
   (\<exists>out. Render (NewRenderer mode) (safe v) = Some (out, NewRenderer mode) \<and>
      valid_utf8 out \<and> list_all printable (runes out))"
proof
  show "\<exists>out r'. Render (NewRenderer mode) s = Some (out, r')"
    using Render_total [OF NewRenderer_inv, of mode s] by blast
  have "Render (NewRenderer mode) (safe v) = Some (StripControl v, NewRenderer mode)"
    using Render_Escape_append [of "NewRenderer mode" "StripControl v" "[]"]
    by (simp add: safe_def)
  moreover have "valid_utf8 (StripControl v)" "list_all printable (runes (StripControl v))"
    by (simp add: StripControl_def valid_utf8_of_runes) (simp add: list_all_iff)
  ultimately show "\<exists>out. Render (NewRenderer mode) (safe v) = Some (out, NewRenderer mode) \<and>
      valid_utf8 out \<and> list_all printable (runes out)"
    by blast
qed

end
