(* ===== verification/Term_Charset.thy ===== *)
theory Term_Charset
  imports Term_Text
begin

text \<open>
  \<open>internal/term/charset.go\<close>: the character set of a caller's terminal. The tables are the code
  points of the source's string constants, in order. A glyph the set cannot show is approximated
  in ASCII; nothing that is sent turns into a control character.
\<close>

section \<open>Encoding for the terminal (charset.go)\<close>

datatype term_charset = TermUTF8 | TermCP437 | TermASCII

definition term_charset_String :: "term_charset \<Rightarrow> string" where
  "term_charset_String c = (case c of TermUTF8 \<Rightarrow> ''UTF-8'' | TermCP437 \<Rightarrow> ''CP437'' | TermASCII \<Rightarrow> ''ASCII'')"

definition cp437High :: "rune list" where
  "cp437High =
    [0xC7, 0xFC, 0xE9, 0xE2, 0xE4, 0xE0, 0xE5, 0xE7, 0xEA, 0xEB, 0xE8, 0xEF,
     0xEE, 0xEC, 0xC4, 0xC5, 0xC9, 0xE6, 0xC6, 0xF4, 0xF6, 0xF2, 0xFB, 0xF9,
     0xFF, 0xD6, 0xDC, 0xA2, 0xA3, 0xA5, 0x20A7, 0x192, 0xE1, 0xED, 0xF3, 0xFA,
     0xF1, 0xD1, 0xAA, 0xBA, 0xBF, 0x2310, 0xAC, 0xBD, 0xBC, 0xA1, 0xAB, 0xBB,
     0x2591, 0x2592, 0x2593, 0x2502, 0x2524, 0x2561, 0x2562, 0x2556, 0x2555, 0x2563, 0x2551, 0x2557,
     0x255D, 0x255C, 0x255B, 0x2510, 0x2514, 0x2534, 0x252C, 0x251C, 0x2500, 0x253C, 0x255E, 0x255F,
     0x255A, 0x2554, 0x2569, 0x2566, 0x2560, 0x2550, 0x256C, 0x2567, 0x2568, 0x2564, 0x2565, 0x2559,
     0x2558, 0x2552, 0x2553, 0x256B, 0x256A, 0x2518, 0x250C, 0x2588, 0x2584, 0x258C, 0x2590, 0x2580,
     0x3B1, 0xDF, 0x393, 0x3C0, 0x3A3, 0x3C3, 0xB5, 0x3C4, 0x3A6, 0x398, 0x3A9, 0x3B4,
     0x221E, 0x3C6, 0x3B5, 0x2229, 0x2261, 0xB1, 0x2265, 0x2264, 0x2320, 0x2321, 0xF7, 0x2248,
     0xB0, 0x2219, 0xB7, 0x221A, 0x207F, 0xB2, 0x25A0, 0xA0]"

text \<open>\<open>init\<close> fills \<open>cp437Runes\<close> and its inverse \<open>cp437Bytes\<close>; a table is a list of code points for
  the bytes from 0x80 on.\<close>

definition table_byte :: "rune list \<Rightarrow> rune \<Rightarrow> char option" where
  "table_byte tab r = map_of (zip tab (map (\<lambda>n. byte_of (0x80 + n)) [0 ..< length tab])) r"

definition cp437Bytes :: "rune \<Rightarrow> char option" where
  "cp437Bytes = table_byte cp437High"

definition asciiFallbackTable :: "(rune \<times> char) list" where
  "asciiFallbackTable =
    [(0x2500, CHR ''-''), (0x2501, CHR ''-''), (0x2550, CHR ''=''), (0x2502, CHR ''|''), (0x2503, CHR ''|''),
     (0x2551, CHR ''|''), (0x2588, CHR ''#''), (0x2593, CHR ''#''), (0x2592, CHR ''%''), (0x2591, CHR ''.''),
     (0x2584, CHR ''=''), (0x2580, CHR ''=''), (0x258C, CHR ''|''), (0x2590, CHR ''|''), (0x25A0, CHR ''*''),
     (0xB7, CHR ''.''), (0x2219, CHR ''.''), (0x2022, CHR ''*''), (0xBB, CHR ''>''), (0xAB, CHR ''<''),
     (0x221A, CHR ''v''), (0x2026, CHR ''.''), (0x2013, CHR ''-''), (0x2014, CHR ''-''), (0x2018, CHR 0x27),
     (0x2019, CHR 0x27), (0x201C, CHR 0x22), (0x201D, CHR 0x22), (0xA0, CHR '' '')] @
     map (\<lambda>r. (r, CHR ''+''))
    [0x250C, 0x2510, 0x2514, 0x2518, 0x251C, 0x2524, 0x252C, 0x2534, 0x253C, 0x2554, 0x2557, 0x255A,
     0x255D, 0x2560, 0x2563, 0x2566, 0x2569, 0x256C, 0x2552, 0x2553, 0x2555, 0x2556, 0x2558, 0x2559,
     0x255B, 0x255C, 0x255E, 0x255F, 0x2561, 0x2562, 0x2564, 0x2565, 0x2567, 0x2568, 0x256A, 0x256B]"

definition asciiFallback :: "rune \<Rightarrow> char option" where
  "asciiFallback = map_of asciiFallbackTable"

definition DecodeCP437 :: "char \<Rightarrow> rune" where
  "DecodeCP437 b = (if is_ascii b then byte_val b else cp437High ! (byte_val b - 0x80))"

definition fallback :: "rune \<Rightarrow> char" where
  "fallback r = (case asciiFallback r of Some b \<Rightarrow> b | None \<Rightarrow> CHR ''?'')"

definition term_encode_rune :: "term_charset \<Rightarrow> rune \<Rightarrow> char" where
  "term_encode_rune cs r =
     (if r < 0x80 then byte_of r
      else case (if cs = TermCP437 then cp437Bytes r else None) of
          Some b \<Rightarrow> b
        | None \<Rightarrow> fallback r)"

definition term_Encode :: "term_charset \<Rightarrow> string \<Rightarrow> string" where
  "term_Encode cs s = (if cs = TermUTF8 then s else map (term_encode_rune cs) (runes s))"

definition TranscodeCP437 :: "string \<Rightarrow> term_charset \<Rightarrow> string" where
  "TranscodeCP437 data cs =
     (if cs = TermCP437 then data
      else concat (map (\<lambda>b. if is_ascii b then [b]
             else if cs = TermUTF8 then encode_rune (DecodeCP437 b)
             else [fallback (DecodeCP437 b)]) data))"

section \<open>Tables\<close>

lemma table_byte_Some:
  assumes "distinct tab" "length tab = 128" "n < 128"
  shows "table_byte tab (tab ! n) = Some (byte_of (0x80 + n))"
  unfolding table_byte_def using assms by (subst map_of_zip_nth) simp_all

lemma table_byte_high: "length tab = 128 \<Longrightarrow> table_byte tab r = Some b \<Longrightarrow>
    \<not> is_ascii b \<and> tab ! (byte_val b - 0x80) = r"
proof -
  assume l: "length tab = 128" and t: "table_byte tab r = Some b"
  from map_of_SomeD [OF t [unfolded table_byte_def]] obtain n where "n < 128" "tab ! n = r" "b = byte_of (0x80 + n)"
    using l by (auto simp: in_set_zip)
  then show ?thesis by (simp add: is_ascii_def byte_val_byte_of)
qed

lemma cp437_table: "distinct cp437High" "length cp437High = 128"
  by (simp_all add: cp437High_def)

lemma cp437_valid: "list_all (\<lambda>r. 0x80 \<le> r \<and> valid_rune r \<and> r \<noteq> rune_error) cp437High"
  by (simp add: cp437High_def valid_rune_def rune_error_def)

lemma fallback_ascii: "32 \<le> byte_val (fallback r) \<and> byte_val (fallback r) < 127"
proof -
  have "list_all (\<lambda>(k, b). 32 \<le> byte_val b \<and> byte_val b < 127) asciiFallbackTable"
    by (simp add: asciiFallbackTable_def byte_val_def)
  then show ?thesis
    by (auto simp: fallback_def asciiFallback_def list_all_iff byte_val_def split: option.splits dest!: map_of_SomeD)
qed

section \<open>What reaches the terminal\<close>

definition no_control :: "char \<Rightarrow> bool" where
  "no_control c \<longleftrightarrow> 0x20 \<le> byte_val c \<and> byte_val c \<noteq> 0x7F"

lemma encode_rune_bytes: "0x80 \<le> r \<Longrightarrow> list_all (\<lambda>c. 0x80 \<le> byte_val c) (encode_rune r)"
proof -
  assume r: "0x80 \<le> r"
  have cont: "0x80 \<le> byte_val (byte_of (0x80 + x mod 64))" for x :: nat by (simp add: byte_val_byte_of)
  have "list_all (\<lambda>c. 0x80 \<le> byte_val c) (encode_valid q)" if q: "0x80 \<le> q" "valid_rune q" for q
  proof -
    have "q \<le> 0x10FFFF" using q by (auto simp: valid_rune_def)
    then have "q div 262144 < 8" by simp
    then show ?thesis using q cont by (auto simp: encode_valid_def byte_val_byte_of)
  qed
  from this [of "if valid_rune r then r else rune_error"] r show ?thesis
    by (auto simp: encode_rune_def rune_error_def valid_rune_error [unfolded rune_error_def])
qed

lemma encode_rune_no_control: "printable r \<Longrightarrow> list_all no_control (encode_rune r)"
proof (cases "r < 0x80")
  case True
  moreover assume "printable r"
  ultimately show ?thesis
    by (auto simp: encode_rune_def encode_valid_def valid_rune_def no_control_def byte_val_byte_of printable_def is_control_def)
next
  case False
  with encode_rune_bytes [of r] show ?thesis by (auto simp: no_control_def list_all_iff)
qed

lemma term_encode_rune_no_control: "printable r \<Longrightarrow> no_control (term_encode_rune cs r)"
proof -
  assume "printable r"
  then have "r < 0x80 \<Longrightarrow> no_control (byte_of r)"
    by (auto simp: no_control_def byte_val_byte_of printable_def is_control_def)
  moreover have "cp437Bytes r = Some b \<Longrightarrow> no_control b" for b
    using table_byte_high [OF cp437_table(2), of r b] by (auto simp: cp437Bytes_def no_control_def is_ascii_def not_less)
  moreover have "no_control (fallback r)" using fallback_ascii [of r] by (simp add: no_control_def)
  ultimately show ?thesis by (auto simp: term_encode_rune_def split: option.splits)
qed

text \<open>
  Whatever a user typed, once its control characters are stripped the bytes sent for
  it contain no control character in any of the three terminal character sets, so no escape
  sequence can be smuggled through an encoding table; and in the one-byte sets every rune takes
  exactly one byte, so columns laid out in runes stay aligned.
\<close>

theorem Encode_safe:
  "list_all no_control (term_Encode cs (StripControl s)) \<and>
   length (term_Encode (if ascii then TermASCII else TermCP437) t) = length (runes t)"
proof
  have safe: "list_all no_control (of_runes rs)" if "list_all printable rs" for rs
    using that by (induction rs) (simp_all add: encode_rune_no_control)
  have "list_all no_control (StripControl s)"
    unfolding StripControl_def by (rule safe) (simp add: list_all_iff)
  moreover have "list_all printable (runes (StripControl s))" by (simp add: list_all_iff)
  then have "list_all no_control (map (term_encode_rune cs) (runes (StripControl s)))"
    by (auto simp: list_all_iff term_encode_rune_no_control)
  ultimately show "list_all no_control (term_Encode cs (StripControl s))" by (simp add: term_Encode_def)
qed (simp add: term_Encode_def)

text \<open>\<open>TranscodeCP437\<close> works on arbitrary chunks of a door's output.\<close>

lemma TranscodeCP437_append: "TranscodeCP437 (a @ b) cs = TranscodeCP437 a cs @ TranscodeCP437 b cs"
  by (simp add: TranscodeCP437_def)

end
