(* ===== verification/Bbs_Limits.thy ===== *)
theory Bbs_Limits
  imports Store_Log "HOL-Library.Multiset"
begin

text \<open>
  \<open>internal/bbs/limiter.go\<close>, \<open>backoff.go\<close> and \<open>connlimit.go\<close>: sliding-window rate limits, the
  per-handle login backoff and the connection caps. The Go interface \<open>hitStore\<close> is a record of
  functions; the locale \<open>hit_store\<close> is its contract, with the hits it keeps as an abstraction,
  and the store's throttle table is an instance. All clock readings of one locked operation are
  one instant, an argument of the operation; a Go map is a partial function.
\<close>

section \<open>Sliding window (limiter.go)\<close>

record 's hitStore =
  hs_RecordHit :: "string \<Rightarrow> string \<Rightarrow> nanos \<Rightarrow> 's \<Rightarrow> 's"
  hs_ClearHits :: "string \<Rightarrow> string \<Rightarrow> 's \<Rightarrow> 's"
  hs_LoadHits :: "string \<Rightarrow> nanos \<Rightarrow> 's \<Rightarrow> string \<Rightarrow> nanos list option"

record rateLimiter =
  rl_limit :: nat
  rl_window :: nanos
  rl_hits :: "string \<Rightarrow> nanos list option"
  rl_swept :: nanos
  rl_bucket :: string

definition newRateLimiter :: "nat \<Rightarrow> nanos \<Rightarrow> rateLimiter" where
  "newRateLimiter limit window =
     \<lparr>rl_limit = limit, rl_window = window, rl_hits = (\<lambda>_. None), rl_swept = 0, rl_bucket = []\<rparr>"

definition newPersistentLimiter ::
    "nanos \<Rightarrow> nat \<Rightarrow> nanos \<Rightarrow> string \<Rightarrow> 's hitStore \<Rightarrow> 's \<Rightarrow> rateLimiter" where
  "newPersistentLimiter now limit window bucket H s =
     (newRateLimiter limit window)\<lparr>rl_bucket := bucket, rl_hits := hs_LoadHits H bucket (now - window) s\<rparr>"

definition hits_of :: "rateLimiter \<Rightarrow> string \<Rightarrow> nanos list" where
  "hits_of r key = (case rl_hits r key of None \<Rightarrow> [] | Some ts \<Rightarrow> ts)"

definition recent :: "nanos \<Rightarrow> string \<Rightarrow> rateLimiter \<Rightarrow> nanos list \<times> rateLimiter" where
  "recent now key r =
     (let kept = filter (\<lambda>t. now - rl_window r < t) (hits_of r key)
      in (kept, r\<lparr>rl_hits := (rl_hits r)(key := if kept = [] then None else Some kept)\<rparr>))"

definition blocked :: "nanos \<Rightarrow> string \<Rightarrow> rateLimiter \<Rightarrow> bool \<times> rateLimiter" where
  "blocked now key r = (let (ts, r') = recent now key r in (rl_limit r \<le> length ts, r'))"

text \<open>\<open>sweep\<close> runs \<open>recent\<close> on every key, at most once per window.\<close>

definition sweep :: "nanos \<Rightarrow> rateLimiter \<Rightarrow> rateLimiter" where
  "sweep now r =
     (if now - rl_swept r < rl_window r then r
      else r\<lparr>rl_swept := now, rl_hits := (\<lambda>key. rl_hits (snd (recent now key r)) key)\<rparr>)"

definition hit :: "'s hitStore \<Rightarrow> nanos \<Rightarrow> string \<Rightarrow> rateLimiter \<times> 's \<Rightarrow> rateLimiter \<times> 's" where
  "hit H now key rs =
     (let (r, s) = rs;
          (kept, r1) = recent now key r;
          r2 = r1\<lparr>rl_hits := (rl_hits r1)(key \<mapsto> kept @ [now])\<rparr>
      in (sweep now r2, hs_RecordHit H (rl_bucket r) key now s))"

definition reset :: "'s hitStore \<Rightarrow> string \<Rightarrow> rateLimiter \<times> 's \<Rightarrow> rateLimiter \<times> 's" where
  "reset H key rs =
     (let (r, s) = rs
      in (r\<lparr>rl_hits := (rl_hits r)(key := None)\<rparr>, hs_ClearHits H (rl_bucket r) key s))"

definition stats :: "nanos \<Rightarrow> string \<Rightarrow> rateLimiter \<Rightarrow> (nat \<times> nanos) \<times> rateLimiter" where
  "stats now key r =
     (let (ts, r') = recent now key r in ((length ts, if ts = [] then 0 else last ts), r'))"

section \<open>Login backoff (backoff.go)\<close>

definition backoffWindow :: nanos where "backoffWindow = 15 * 60 * second"
definition backoffFree :: nat where "backoffFree = 3"
definition backoffBase :: nanos where "backoffBase = 2 * second"
definition backoffMax :: nanos where "backoffMax = 60 * second"

definition delayFor :: "nat \<Rightarrow> nanos" where
  "delayFor n = (if n < backoffFree then 0
     else min (backoffBase * 2 ^ (min (n - backoffFree) 10)) backoffMax)"

record loginBackoff =
  lb_fails :: rateLimiter
  lb_busy :: "string \<Rightarrow> bool"

text \<open>\<open>begin\<close>, \<open>release\<close> and \<open>end\<close>; the pair is the wait and whether the check may run.\<close>

definition backoff_begin :: "nanos \<Rightarrow> string \<Rightarrow> loginBackoff \<Rightarrow> (nanos \<times> bool) \<times> loginBackoff" where
  "backoff_begin now key b =
     (if lb_busy b key then ((backoffBase, False), b)
      else let ((n, lst), fails) = stats now key (lb_fails b);
               wait = lst + delayFor n - now;
               b' = b\<lparr>lb_fails := fails\<rparr>
           in if 0 < n \<and> 0 < wait then ((wait, False), b')
              else ((0, True), b'\<lparr>lb_busy := (lb_busy b')(key := True)\<rparr>))"

definition backoff_release :: "string \<Rightarrow> loginBackoff \<Rightarrow> loginBackoff" where
  "backoff_release key b = b\<lparr>lb_busy := (lb_busy b)(key := False)\<rparr>"

definition backoff_end ::
    "'s hitStore \<Rightarrow> nanos \<Rightarrow> string \<Rightarrow> bool \<Rightarrow> loginBackoff \<times> 's \<Rightarrow> loginBackoff \<times> 's" where
  "backoff_end H now key ok bs =
     (let (b, s) = bs;
          b1 = backoff_release key b;
          (fails, s') = (if ok then reset H key (lb_fails b1, s) else hit H now key (lb_fails b1, s))
      in (b1\<lparr>lb_fails := fails\<rparr>, s'))"

section \<open>Connection caps (connlimit.go)\<close>

record connLimiter =
  cl_maxTotal :: int
  cl_maxPerIP :: int
  cl_total :: int
  cl_perIP :: "string \<Rightarrow> int option"

definition newConnLimiter :: "int \<Rightarrow> int \<Rightarrow> connLimiter" where
  "newConnLimiter maxTotal maxPerIP =
     \<lparr>cl_maxTotal = maxTotal, cl_maxPerIP = maxPerIP, cl_total = 0, cl_perIP = (\<lambda>_. None)\<rparr>"

text \<open>Reading a missing key of a Go map gives 0.\<close>

definition per_ip :: "connLimiter \<Rightarrow> string \<Rightarrow> int" where
  "per_ip c key = (case cl_perIP c key of None \<Rightarrow> 0 | Some n \<Rightarrow> n)"

definition conn_acquire :: "string \<Rightarrow> connLimiter \<Rightarrow> bool \<times> connLimiter" where
  "conn_acquire key c =
     (if cl_maxTotal c \<le> cl_total c \<or> cl_maxPerIP c \<le> per_ip c key then (False, c)
      else (True, c\<lparr>cl_total := cl_total c + 1, cl_perIP := (cl_perIP c)(key \<mapsto> per_ip c key + 1)\<rparr>))"

definition conn_release :: "string \<Rightarrow> connLimiter \<Rightarrow> connLimiter" where
  "conn_release key c =
     (let n = per_ip c key - 1
      in c\<lparr>cl_total := cl_total c - 1, cl_perIP := (cl_perIP c)(key := if n \<le> 0 then None else Some n)\<rparr>)"

section \<open>Backoff: bounded waits\<close>

lemma delayFor_bounds: "0 \<le> delayFor n \<and> delayFor n \<le> backoffMax"
  by (auto simp: delayFor_def backoffBase_def backoffMax_def second_def)

lemma delayFor_mono: "m \<le> n \<Longrightarrow> delayFor m \<le> delayFor n"
proof -
  assume mn: "m \<le> n"
  have "backoffBase * 2 ^ (min (m - backoffFree) 10) \<le> backoffBase * 2 ^ (min (n - backoffFree) 10)"
    using mn by (intro mult_left_mono power_increasing) (auto simp: backoffBase_def second_def)
  then show ?thesis using mn delayFor_bounds [of n] by (auto simp: delayFor_def min.coboundedI1 min_le_iff_disj)
qed

lemma recent_simps:
  "fst (recent now key r) = filter (\<lambda>t. now - rl_window r < t) (hits_of r key)"
  "hits_of (snd (recent now key r)) k = (if k = key then filter (\<lambda>t. now - rl_window r < t) (hits_of r k) else hits_of r k)"
  "rl_window (snd (recent now key r)) = rl_window r" "rl_limit (snd (recent now key r)) = rl_limit r"
  "rl_bucket (snd (recent now key r)) = rl_bucket r" "rl_swept (snd (recent now key r)) = rl_swept r"
  by (auto simp: recent_def Let_def hits_of_def)

text \<open>
  A handle's owner is never kept out for long: when \<open>begin\<close> refuses a password check
  because of earlier failures, the wait it asks for is at most one minute (the failures lie in
  the past); with fewer than three recent failures and no check running it never refuses; and
  while one check for a handle is reserved every other one for it is refused.
\<close>

theorem backoff_begin_bounded:
  assumes past: "\<forall>t \<in> set (hits_of (lb_fails b) key). t \<le> now"
  shows "case backoff_begin now key b of ((wait, granted), b') \<Rightarrow>
    0 \<le> wait \<and> wait \<le> backoffMax \<and>
    (granted \<longrightarrow> \<not> lb_busy b key \<and> lb_busy b' key \<and> wait = 0) \<and>
    (\<not> lb_busy b key \<and> length (hits_of (lb_fails b) key) < backoffFree \<longrightarrow> granted) \<and>
    (lb_busy b key \<longrightarrow> \<not> granted \<and> b' = b)"
proof (cases "lb_busy b key")
  case True
  then show ?thesis by (simp add: backoff_begin_def backoffBase_def backoffMax_def second_def)
next
  case False
  define ts where "ts = filter (\<lambda>t. now - rl_window (lb_fails b) < t) (hits_of (lb_fails b) key)"
  have st: "fst (stats now key (lb_fails b)) = (length ts, if ts = [] then 0 else last ts)"
    using recent_simps(1) [of now key "lb_fails b"] by (auto simp: stats_def ts_def split: prod.splits)
  obtain fails where s: "stats now key (lb_fails b) = ((length ts, if ts = [] then 0 else last ts), fails)"
    using st by (metis prod.collapse)
  have "last ts \<le> now" if "ts \<noteq> []"
    using past last_in_set [OF that] by (auto simp: ts_def)
  then have w: "ts \<noteq> [] \<Longrightarrow> last ts + delayFor (length ts) - now \<le> backoffMax"
    using delayFor_bounds [of "length ts"] by force
  have few: "delayFor (length ts) = 0" if "length (hits_of (lb_fails b) key) < backoffFree"
    using that le_less_trans [OF length_filter_le that] by (simp add: delayFor_def ts_def)
  show ?thesis using False w few past \<open>ts \<noteq> [] \<Longrightarrow> last ts \<le> now\<close>
    by (auto simp: backoff_begin_def s backoffMax_def second_def Let_def)
qed

theorem backoff_begin_bounded_witness:
  "case backoff_begin 100 ''bob'' \<lparr>lb_fails = (newRateLimiter 20 backoffWindow)\<lparr>rl_hits := [''bob'' \<mapsto> [1, 2, 3, 4]]\<rparr>,
      lb_busy = (\<lambda>_. False)\<rparr> of ((wait, granted), b') \<Rightarrow> \<not> granted \<and> wait \<le> backoffMax"
proof -
  let ?b = "\<lparr>lb_fails = (newRateLimiter 20 backoffWindow)\<lparr>rl_hits := [''bob'' \<mapsto> [1, 2, 3, 4]]\<rparr>, lb_busy = (\<lambda>_. False)\<rparr>"
  have "delayFor 4 = 4000000000"
    by (simp add: delayFor_def backoffFree_def backoffBase_def backoffMax_def second_def)
  then have refused: "\<not> snd (fst (backoff_begin 100 ''bob'' ?b))"
    by (simp add: hits_of_def backoff_begin_def stats_def recent_def newRateLimiter_def backoffWindow_def
        second_def Let_def numeral_eq_Suc)
  have "\<forall>t \<in> set (hits_of (lb_fails ?b) ''bob''). t \<le> 100" by (simp add: hits_of_def)
  from backoff_begin_bounded [OF this] refused show ?thesis by (simp split: prod.splits)
qed

section \<open>Connection caps refine a bag of open connections\<close>

definition conn_abs :: "string multiset \<Rightarrow> connLimiter \<Rightarrow> bool" where
  "conn_abs held c \<longleftrightarrow> cl_total c = int (size held) \<and> (\<forall>k. per_ip c k = int (count held k)) \<and>
     (\<forall>k. cl_perIP c k \<noteq> Some 0) \<and> cl_total c \<le> cl_maxTotal c \<and> (\<forall>k. per_ip c k \<le> cl_maxPerIP c)"

lemma per_ip_acquired:
  "per_ip (c\<lparr>cl_total := t, cl_perIP := (cl_perIP c)(key \<mapsto> n)\<rparr>) k = (if k = key then n else per_ip c k)"
  by (simp add: per_ip_def)

text \<open>
  The connection limiter counts exactly the open connections: if its counters
  describe the bag of addresses with an open connection, then \<open>acquire\<close> admits an address
  precisely when fewer than the total cap are open and fewer than the per-address cap are open
  from there, its counters then describe the bag with that connection added, and after
  \<open>release\<close> of an open connection the bag without it. So neither cap is ever exceeded, no slot
  leaks, and no entry stays in the map for an address without connections.
\<close>

theorem connLimiter_refines:
  assumes abs: "conn_abs held c"
  shows "(case conn_acquire key c of (ok, c') \<Rightarrow>
      ok = (int (size held) < cl_maxTotal c \<and> int (count held key) < cl_maxPerIP c) \<and>
      conn_abs (if ok then add_mset key held else held) c') \<and>
    (key \<in># held \<longrightarrow> conn_abs (held - {#key#}) (conn_release key c))"
proof
  show "case conn_acquire key c of (ok, c') \<Rightarrow>
      ok = (int (size held) < cl_maxTotal c \<and> int (count held key) < cl_maxPerIP c) \<and>
      conn_abs (if ok then add_mset key held else held) c'"
    using abs by (auto simp: conn_abs_def conn_acquire_def per_ip_acquired)
  show "key \<in># held \<longrightarrow> conn_abs (held - {#key#}) (conn_release key c)"
  proof
    assume "key \<in># held"
    then obtain n where pos: "count held key = Suc n" using not0_implies_Suc by (metis not_in_iff)
    have p: "per_ip (conn_release key c) k = int (count (held - {#key#}) k)" for k
      using abs pos by (auto simp: conn_release_def Let_def conn_abs_def per_ip_def)
    have t: "cl_total (conn_release key c) = int (size (held - {#key#}))"
      using abs \<open>key \<in># held\<close> by (auto simp: conn_release_def Let_def conn_abs_def dest!: multi_member_split)
    have "int (count (held - {#key#}) k) \<le> int (count held k)" for k by simp
    then have "int (count (held - {#key#}) k) \<le> cl_maxPerIP c" for k
      using abs by (metis conn_abs_def order_trans)
    with p t abs show "conn_abs (held - {#key#}) (conn_release key c)"
      by (auto simp: conn_abs_def conn_release_def Let_def)
  qed
qed

theorem connLimiter_refines_witness:
  "conn_abs {#''a''#} (snd (conn_acquire ''a'' (newConnLimiter 2 1))) \<and>
   fst (conn_acquire ''a'' (snd (conn_acquire ''a'' (newConnLimiter 2 1)))) = False"
proof -
  have "conn_abs {#} (newConnLimiter 2 1)" by (simp add: conn_abs_def newConnLimiter_def per_ip_def)
  from connLimiter_refines [OF this, of "''a''"] have one: "conn_abs {#''a''#} (snd (conn_acquire ''a'' (newConnLimiter 2 1)))"
    by (simp add: newConnLimiter_def conn_acquire_def per_ip_def)
  from connLimiter_refines [OF this, of "''a''"] one show ?thesis
    by (simp add: newConnLimiter_def conn_acquire_def per_ip_def)
qed

section \<open>What the operations do to the hits\<close>

lemma filter_window: "(c::int) \<le> d \<Longrightarrow> filter (\<lambda>t. c < t \<and> d < t) ts = filter (\<lambda>t. d < t) ts"
  by (auto intro!: filter_cong)

lemma filter_retained: "(c::int) \<le> d \<Longrightarrow> filter (\<lambda>t. c \<le> t \<and> d < t) ts = filter (\<lambda>t. d < t) ts"
  by (auto intro!: filter_cong)

lemma filter_expired: "\<forall>x \<in> set ts. \<not> c < x \<Longrightarrow> (c::int) \<le> d \<Longrightarrow> filter (\<lambda>t. d < t) ts = []"
  by (auto simp: filter_empty_conv)

lemma blocked_simps:
  "fst (blocked now k r) = (rl_limit r \<le> length (filter (\<lambda>t. now - rl_window r < t) (hits_of r k)))"
  "snd (blocked now k r) = snd (recent now k r)"
  by (simp_all add: blocked_def recent_def Let_def)

lemma sweep_simps [simp]:
  "rl_limit (sweep now r) = rl_limit r" "rl_window (sweep now r) = rl_window r" "rl_bucket (sweep now r) = rl_bucket r"
  by (simp_all add: sweep_def)

lemma sweep_hits:
  "now - rl_window r \<le> c \<Longrightarrow> filter (\<lambda>t. c < t) (hits_of (sweep now r) k) = filter (\<lambda>t. c < t) (hits_of r k)"
  by (simp add: sweep_def hits_of_def recent_def Let_def filter_window split: option.splits)
     (auto simp: filter_empty_conv filter_expired)

lemma hit_simps:
  "snd (hit H now k (r, s)) = hs_RecordHit H (rl_bucket r) k now s"
  "rl_limit (fst (hit H now k (r, s))) = rl_limit r" "rl_window (fst (hit H now k (r, s))) = rl_window r"
  "rl_bucket (fst (hit H now k (r, s))) = rl_bucket r"
  "now - rl_window r \<le> c \<Longrightarrow> filter (\<lambda>t. c < t) (hits_of (fst (hit H now k (r, s))) k') =
     filter (\<lambda>t. c < t) (hits_of r k') @ (if k' = k \<and> c < now then [now] else [])"
  by (simp_all add: hit_def recent_def Let_def sweep_hits)
     (auto simp: hits_of_def filter_window)

lemma reset_simps:
  "snd (reset H k (r, s)) = hs_ClearHits H (rl_bucket r) k s"
  "rl_limit (fst (reset H k (r, s))) = rl_limit r" "rl_window (fst (reset H k (r, s))) = rl_window r"
  "rl_bucket (fst (reset H k (r, s))) = rl_bucket r"
  "hits_of (fst (reset H k (r, s))) k' = (if k' = k then [] else hits_of r k')"
  by (simp_all add: reset_def hits_of_def)

lemma newPersistentLimiter_hits:
  "rl_limit (newPersistentLimiter now limit window b H s) = limit"
  "rl_window (newPersistentLimiter now limit window b H s) = window"
  "hits_of (newPersistentLimiter now limit window b H s) k =
     (case hs_LoadHits H b (now - window) s k of None \<Rightarrow> [] | Some ts \<Rightarrow> ts)"
  by (simp_all add: newPersistentLimiter_def newRateLimiter_def hits_of_def)

lemma newPersistentLimiter_bucket: "rl_bucket (newPersistentLimiter now limit window b H s) = b"
  by (simp add: newPersistentLimiter_def newRateLimiter_def)

lemma loaded:
  "filter (\<lambda>t. c < t) (case let ts = filter (\<lambda>t. (c::int) \<le> t) xs in if ts = [] then None else Some ts of
     None \<Rightarrow> [] | Some ts \<Rightarrow> ts) = filter (\<lambda>t. c < t) xs"
proof (cases "filter (\<lambda>t. c \<le> t) xs = []")
  case True
  then have "filter (\<lambda>t. c < t) xs = []" by (auto simp: filter_empty_conv)
  with True show ?thesis by simp
qed (simp add: Let_def filter_retained)

section \<open>Runs of a limiter\<close>

text \<open>
  What happens to a limiter and the store it writes through: its own operations, and hits that
  limiters on other buckets save in the same store. The history of a key is its hits since the
  last reset.
\<close>

datatype limiter_op = LHit string | LReset string | LBlocked string | LOther string string

fun limiter_step :: "'s hitStore \<Rightarrow> nanos \<Rightarrow> limiter_op \<Rightarrow> rateLimiter \<times> 's \<Rightarrow> rateLimiter \<times> 's" where
  "limiter_step H now (LHit k) rs = hit H now k rs"
| "limiter_step H now (LReset k) rs = reset H k rs"
| "limiter_step H now (LBlocked k) (r, s) = (snd (blocked now k r), s)"
| "limiter_step H now (LOther b k) (r, s) = (r, hs_RecordHit H b k now s)"

fun history_step :: "nanos \<Rightarrow> limiter_op \<Rightarrow> (string \<Rightarrow> nanos list) \<Rightarrow> string \<Rightarrow> nanos list" where
  "history_step now (LHit k) h = h(k := h k @ [now])"
| "history_step now (LReset k) h = h(k := [])"
| "history_step now _ h = h"

fun other_bucket :: "string \<Rightarrow> limiter_op \<Rightarrow> bool" where
  "other_bucket bucket (LOther b k) = (b \<noteq> bucket)"
| "other_bucket bucket _ = True"

fun run_limiter :: "'s hitStore \<Rightarrow> (nanos \<times> limiter_op) list \<Rightarrow> rateLimiter \<times> 's \<Rightarrow> rateLimiter \<times> 's" where
  "run_limiter H [] rs = rs"
| "run_limiter H ((now, op) # ops) rs = run_limiter H ops (limiter_step H now op rs)"

fun history_from :: "(nanos \<times> limiter_op) list \<Rightarrow> (string \<Rightarrow> nanos list) \<Rightarrow> string \<Rightarrow> nanos list" where
  "history_from [] h = h"
| "history_from ((now, op) # ops) h = history_from ops (history_step now op h)"

lemma limiter_step_keeps [simp]:
  "rl_limit (fst (limiter_step H now op rs)) = rl_limit (fst rs)"
  "rl_window (fst (limiter_step H now op rs)) = rl_window (fst rs)"
  "rl_bucket (fst (limiter_step H now op rs)) = rl_bucket (fst rs)"
  by (cases rs; cases op; simp add: hit_simps reset_simps blocked_simps recent_simps)+

lemma run_limiter_keeps:
  "rl_limit (fst (run_limiter H ops rs)) = rl_limit (fst rs)"
  "rl_window (fst (run_limiter H ops rs)) = rl_window (fst rs)"
  "rl_bucket (fst (run_limiter H ops rs)) = rl_bucket (fst rs)"
  by (induction H ops rs rule: run_limiter.induct) simp_all

text \<open>The throttle table as a \<open>hitStore\<close>, and the events it keeps for a key.\<close>

definition store_hits :: "db hitStore" where
  "store_hits = \<lparr>hs_RecordHit = RecordHit, hs_ClearHits = ClearHits, hs_LoadHits = LoadHits\<rparr>"

definition hits_kept :: "string \<Rightarrow> string \<Rightarrow> db \<Rightarrow> nanos list" where
  "hits_kept b k d = map h_at (sort_key h_at (filter (\<lambda>h. h_bucket h = b \<and> h_key h = k) (t_hits d)))"

lemma insort_key_snoc: "f y \<le> f x \<Longrightarrow> insort_key f y (ys @ [x]) = insort_key f y ys @ [x]"
  by (induction ys) auto

lemma sort_key_snoc: "\<forall>y \<in> set xs. f y \<le> f x \<Longrightarrow> sort_key f (xs @ [x]) = sort_key f xs @ [x]"
  by (induction xs) (auto simp: insort_key_snoc)

section \<open>The store behind a limiter\<close>

text \<open>
  The contract of the interface \<open>hitStore\<close>: the store keeps, per bucket and key, the times of
  its events in order. Recording appends one and may forget those older than the retention;
  clearing empties one key; loading gives those since an instant.
\<close>

locale hit_store =
  fixes H :: "'s hitStore"
    and kept :: "string \<Rightarrow> string \<Rightarrow> 's \<Rightarrow> nanos list"
    and retention :: nanos
  assumes load: "hs_LoadHits H b since s k =
      (let ts = filter (\<lambda>t. since \<le> t) (kept b k s) in if ts = [] then None else Some ts)"
    and record_same: "\<forall>t \<in> set (kept b k s). t \<le> at \<Longrightarrow>
      kept b k (hs_RecordHit H b k at s) = filter (\<lambda>t. at - retention \<le> t) (kept b k s) @ [at]"
    and record_other: "b' \<noteq> b \<or> k' \<noteq> k \<Longrightarrow>
      kept b' k' (hs_RecordHit H b k at s) = filter (\<lambda>t. at - retention \<le> t) (kept b' k' s)"
    and clear: "kept b' k' (hs_ClearHits H b k s) = (if b' = b \<and> k' = k then [] else kept b' k' s)"
    and retention_pos: "0 \<le> retention"
begin

text \<open>
  A limiter and its store agree at an instant with a history of events per key when the store
  knows no event of the future and all three have the same events in every window that ends
  now or later.
\<close>

definition agree :: "nanos \<Rightarrow> rateLimiter \<times> 's \<Rightarrow> (string \<Rightarrow> nanos list) \<Rightarrow> bool" where
  "agree now rs hist \<longleftrightarrow> (\<forall>k. (\<forall>t \<in> set (kept (rl_bucket (fst rs)) k (snd rs)). t \<le> now) \<and>
     (\<forall>c \<ge> now - rl_window (fst rs).
        filter (\<lambda>t. c < t) (hits_of (fst rs) k) = filter (\<lambda>t. c < t) (hist k) \<and>
        filter (\<lambda>t. c < t) (kept (rl_bucket (fst rs)) k (snd rs)) = filter (\<lambda>t. c < t) (hist k)))"

lemma agree_later:
  assumes "agree now rs hist" "now \<le> now'"
  shows "agree now' rs hist"
  using assms unfolding agree_def by (meson diff_right_mono order_trans)

lemma agreeD:
  assumes "agree now (r, s) hist" "now - rl_window r \<le> c"
  shows "filter (\<lambda>t. c < t) (hits_of r k) = filter (\<lambda>t. c < t) (hist k)"
    and "filter (\<lambda>t. c < t) (kept (rl_bucket r) k s) = filter (\<lambda>t. c < t) (hist k)"
  using assms by (auto simp: agree_def)

lemma agree_blocked:
  assumes "agree now (r, s) hist"
  shows "agree now (snd (blocked now k r), s) hist"
  using assms by (auto simp: agree_def blocked_simps recent_simps filter_window)

lemma agree_reset:
  assumes "agree now (r, s) hist"
  shows "agree now (reset H k (r, s)) (hist(k := []))"
  using assms by (auto simp: agree_def reset_simps clear)

lemma agree_hit:
  assumes a: "agree now (r, s) hist" and w: "rl_window r \<le> retention"
  shows "agree now (hit H now k (r, s)) (hist(k := hist k @ [now]))"
proof -
  have past: "\<forall>t \<in> set (kept (rl_bucket r) k s). t \<le> now" using a by (simp add: agree_def)
  show ?thesis using a w retention_pos
    by (auto simp: agree_def hit_simps record_same [OF past] record_other filter_window filter_retained)
qed

lemma restart_blocked:
  assumes "agree now (r, s) hist"
  shows "fst (blocked now k r) = (rl_limit r \<le> length (filter (\<lambda>t. now - rl_window r < t) (hist k)))"
    and "fst (blocked now k (newPersistentLimiter now (rl_limit r) (rl_window r) (rl_bucket r) H s)) =
      (rl_limit r \<le> length (filter (\<lambda>t. now - rl_window r < t) (hist k)))"
  using agreeD [OF assms order_refl, of k]
  by (simp_all add: blocked_simps newPersistentLimiter_hits load filter_window loaded)

lemma agree_start:
  assumes "\<And>k. kept bucket k s = []"
  shows "agree now (newPersistentLimiter start limit window bucket H s, s) (\<lambda>_. [])"
  using assms by (simp add: agree_def newPersistentLimiter_hits newPersistentLimiter_bucket load)

lemma agree_other:
  assumes "agree now (r, s) hist" "rl_window r \<le> retention" "b \<noteq> rl_bucket r"
  shows "agree now (r, hs_RecordHit H b k now s) hist"
  using assms by (auto simp: agree_def record_other filter_retained)

lemma agree_step:
  assumes "agree now rs hist" "rl_window (fst rs) \<le> retention" "other_bucket (rl_bucket (fst rs)) op"
  shows "agree now (limiter_step H now op rs) (history_step now op hist)"
  using assms agree_hit agree_reset agree_blocked agree_other by (cases rs; cases op) auto

lemma agree_run:
  assumes "agree now rs hist" "rl_window (fst rs) \<le> retention" "\<forall>(t, op) \<in> set ops. other_bucket (rl_bucket (fst rs)) op"
    "sorted (now # map fst ops)"
  shows "agree (last (now # map fst ops)) (run_limiter H ops rs) (history_from ops hist)"
  using assms
proof (induction ops arbitrary: now rs hist)
  case (Cons o1 ops)
  obtain t op where o1: "o1 = (t, op)" by (cases o1)
  have "agree t (limiter_step H t op rs) (history_step t op hist)"
    using Cons.prems agree_later agree_step by (auto simp: o1)
  from Cons.IH [OF this] show ?case using Cons.prems by (simp add: o1)
qed simp

end

interpretation throttle: hit_store store_hits hits_kept throttleRetention
proof
  fix b k since s
  show "hs_LoadHits store_hits b since s k =
      (let ts = filter (\<lambda>t. since \<le> t) (hits_kept b k s) in if ts = [] then None else Some ts)"
    by (simp add: store_hits_def hits_kept_def LoadHits_def filter_map filter_sort o_def conj_commute conj_left_commute)
next
  fix b k at and s :: db
  assume "\<forall>t \<in> set (hits_kept b k s). t \<le> at"
  then show "hits_kept b k (hs_RecordHit store_hits b k at s) =
      filter (\<lambda>t. at - throttleRetention \<le> t) (hits_kept b k s) @ [at]"
    by (simp add: store_hits_def hits_kept_def RecordHit_def delete_where_def filter_map filter_sort o_def
        sort_key_snoc throttleRetention_def second_def not_less conj_commute conj_left_commute)
next
  fix b' b k' k :: string and at and s :: db
  assume "b' \<noteq> b \<or> k' \<noteq> k"
  then show "hits_kept b' k' (hs_RecordHit store_hits b k at s) =
      filter (\<lambda>t. at - throttleRetention \<le> t) (hits_kept b' k' s)"
    by (auto simp: store_hits_def hits_kept_def RecordHit_def delete_where_def filter_map filter_sort o_def
        not_less conj_commute conj_left_commute)
next
  fix b' b k' k :: string and s :: db
  show "hits_kept b' k' (hs_ClearHits store_hits b k s) = (if b' = b \<and> k' = k then [] else hits_kept b' k' s)"
    by (auto simp: store_hits_def hits_kept_def ClearHits_def delete_where_def filter_empty_conv
        intro!: arg_cong [where f = "\<lambda>xs. map h_at (sort_key h_at xs)"] filter_cong)
qed (simp add: throttleRetention_def second_def)

text \<open>
  Claim C39. Restarting the server does not wipe a limit clean. Take a limiter on the store's
  throttle table that starts with no saved events and whose window is at most the 48 hours the
  store keeps them, and any sequence of hits, resets and queries on it at increasing times,
  mixed with hits of limiters on other buckets. At any later instant it blocks a key exactly
  when the hits recorded for the key since its last reset that lie in the window reach the
  limit; and a limiter loaded from the store at that instant gives the same answer.
\<close>

theorem limiter_survives_restart:
  assumes empty: "\<forall>h \<in> set (t_hits d). h_bucket h \<noteq> bucket"
    and window: "window \<le> throttleRetention"
    and others: "\<forall>(t, op) \<in> set ops. other_bucket bucket op"
    and order: "sorted (map fst ops @ [now])"
  shows "let (r, d') = run_limiter store_hits ops (newPersistentLimiter since limit window bucket store_hits d, d);
             over = (limit \<le> length (filter (\<lambda>t. now - window < t) (history_from ops (\<lambda>_. []) key)))
    in fst (blocked now key r) = over \<and>
       fst (blocked now key (newPersistentLimiter now limit window bucket store_hits d')) = over"
proof -
  define start where "start = (newPersistentLimiter since limit window bucket store_hits d, d)"
  define first where "first = hd (map fst ops @ [now])"
  obtain r d' where run: "run_limiter store_hits ops start = (r, d')" by fastforce
  have none: "hits_kept bucket k d = []" for k using empty by (auto simp: hits_kept_def filter_empty_conv)
  have "throttle.agree first start (\<lambda>_. [])" unfolding start_def by (rule throttle.agree_start [OF none])
  moreover have "sorted (first # map fst ops)" using order by (cases ops) (auto simp: first_def sorted_append)
  moreover have past: "last (first # map fst ops) \<le> now" using order by (cases ops) (auto simp: first_def sorted_append last_map)
  moreover have "rl_window (fst start) = window" "rl_bucket (fst start) = bucket"
    by (simp_all add: start_def newPersistentLimiter_hits newPersistentLimiter_bucket)
  ultimately have "throttle.agree (last (first # map fst ops)) (r, d') (history_from ops (\<lambda>_. []))"
    using throttle.agree_run [of first start "\<lambda>_. []" ops] window others unfolding run by metis
  then have "throttle.agree now (r, d') (history_from ops (\<lambda>_. []))"
    by (rule throttle.agree_later [OF _ past])
  from throttle.restart_blocked [OF this, of key] run_limiter_keeps [of store_hits ops start]
  show ?thesis using run by (simp add: start_def newPersistentLimiter_hits newPersistentLimiter_bucket Let_def)
qed

theorem limiter_survives_restart_witness:
  "let ops = [(10, LHit ''1.2.3.4''), (20, LOther ''login'' ''bob''), (30, LHit ''1.2.3.4'')];
       d' = snd (run_limiter store_hits ops (newPersistentLimiter 5 2 100 ''connect'' store_hits empty_db, empty_db))
   in fst (blocked 40 ''1.2.3.4'' (newPersistentLimiter 40 2 100 ''connect'' store_hits d')) \<and>
      \<not> fst (blocked 120 ''1.2.3.4'' (newPersistentLimiter 120 2 100 ''connect'' store_hits d'))"
  using limiter_survives_restart [where d = empty_db and bucket = "''connect''" and window = 100 and since = 5 and limit = 2
      and ops = "[(10, LHit ''1.2.3.4''), (20, LOther ''login'' ''bob''), (30, LHit ''1.2.3.4'')]" and key = "''1.2.3.4''" and now = 40]
    limiter_survives_restart [where d = empty_db and bucket = "''connect''" and window = 100 and since = 5 and limit = 2
      and ops = "[(10, LHit ''1.2.3.4''), (20, LOther ''login'' ''bob''), (30, LHit ''1.2.3.4'')]" and key = "''1.2.3.4''" and now = 120]
  by (simp add: empty_db_def throttleRetention_def second_def Let_def split: prod.splits)

end
