(* ===== verification/Go_Time.thy ===== *)
theory Go_Time
  imports Go_Strings
begin

text \<open>
  The parts of Go's \<open>time\<close> package the sources use. An instant is a Unix time in nanoseconds; a
  \<open>Time\<close> carries the offset in seconds of its location. \<open>time.Date\<close> adds up its fields, so
  fields out of range carry over; \<open>Year\<close>, \<open>Month\<close>, \<open>Day\<close> and the clock fields invert it on the
  proleptic Gregorian calendar. \<open>Format\<close> and \<open>Parse\<close> are here for the layouts the sources have.
\<close>

section \<open>The calendar\<close>

type_synonym go_time = "int \<times> int"

definition leap :: "int \<Rightarrow> bool" where
  "leap y \<longleftrightarrow> 4 dvd y \<and> (\<not> 100 dvd y \<or> 400 dvd y)"

text \<open>Days from 1 January of the year 1 to 1 January of the year \<open>y\<close>.\<close>

definition year_start :: "int \<Rightarrow> int" where
  "year_start y = 365 * (y - 1) + (y - 1) div 4 - (y - 1) div 100 + (y - 1) div 400"

definition month_lens :: "int \<Rightarrow> int list" where
  "month_lens y = [31, if leap y then 29 else 28, 31, 30, 31, 30, 31, 31, 30, 31, 30, 31]"

definition unix_epoch_day :: int where "unix_epoch_day = 719162"

definition nanos_per_second :: int where "nanos_per_second = 1000000000"

text \<open>\<open>time.Date(y, m, d, h, mi, s, ns, time.UTC)\<close> for a month from 1 to 12.\<close>

definition go_date :: "int \<Rightarrow> int \<Rightarrow> int \<Rightarrow> int \<Rightarrow> int \<Rightarrow> int \<Rightarrow> int \<Rightarrow> int" where
  "go_date y m d h mi s ns =
     ((year_start y + sum_list (take (nat (m - 1)) (month_lens y)) + d - 1 - unix_epoch_day) * 86400 +
      h * 3600 + mi * 60 + s) * nanos_per_second + ns"

definition year_of_day :: "int \<Rightarrow> int" where
  "year_of_day n = (let y = n * 400 div 146097 + 1 in if year_start (y + 1) \<le> n then y + 1 else y)"

fun month_of_yday :: "int list \<Rightarrow> int \<Rightarrow> int \<Rightarrow> int \<times> int" where
  "month_of_yday [] m d = (m, d)"
| "month_of_yday (l # ls) m d = (if d < l then (m, d) else month_of_yday ls (m + 1) (d - l))"

record wall_clock =
  wYear :: int
  wMonth :: int
  wDay :: int
  wHour :: int
  wMinute :: int
  wSecond :: int

text \<open>\<open>t.Year()\<close>, \<open>t.Month()\<close>, ..., \<open>t.Second()\<close> in the location of \<open>t\<close>.\<close>

definition wall :: "go_time \<Rightarrow> wall_clock" where
  "wall t =
     (let secs = fst t div nanos_per_second + snd t;
          n = secs div 86400 + unix_epoch_day;
          tod = secs mod 86400;
          y = year_of_day n;
          (m, d) = month_of_yday (month_lens y) 1 (n - year_start y)
      in \<lparr>wYear = y, wMonth = m, wDay = d + 1, wHour = tod div 3600, wMinute = tod mod 3600 div 60, wSecond = tod mod 60\<rparr>)"

text \<open>The instant a wall clock in UTC would show.\<close>

definition wall_instant :: "wall_clock \<Rightarrow> int" where
  "wall_instant w = go_date (wYear w) (wMonth w) (wDay w) (wHour w) (wMinute w) (wSecond w) 0"

lemma div_pred: "0 < k \<Longrightarrow> (y::int) div k = (y - 1) div k + (if k dvd y then 1 else 0)"
proof -
  assume k: "0 < k"
  show ?thesis
  proof (cases "k dvd y")
    case True
    then obtain q where "y = k * q" by blast
    moreover have "(k * q - 1) div k = q - 1" using k by (intro int_div_pos_eq [where r = "k - 1"]) (auto simp: algebra_simps)
    ultimately show ?thesis using k by simp
  next
    case False
    then have r: "y mod k \<noteq> 0" by (simp add: dvd_eq_mod_eq_0)
    then have b: "1 \<le> y mod k" "y mod k < k + 1"
      using pos_mod_sign [OF k, of y] pos_mod_bound [OF k, of y] by linarith+
    have e: "y = y div k * k + y mod k" by simp
    have "(y - 1) div k = y div k" using r b k e
      by (intro int_div_pos_eq [where r = "y mod k - 1"]) (auto simp: algebra_simps)
    with False show ?thesis by simp
  qed
qed

lemma leap_sum:
  "(c \<longrightarrow> b) \<Longrightarrow> (b \<longrightarrow> a) \<Longrightarrow> (x::int) + (if a then 1 else 0) - (if b then 1 else 0) + (if c then 1 else 0) =
     x + (if a \<and> (\<not> b \<or> c) then 1 else 0)"
  by (cases a; cases b; cases c) simp_all

lemma year_start_Suc: "year_start (y + 1) = year_start y + 365 + (if leap y then 1 else 0)"
proof -
  have d: "400 dvd y \<longrightarrow> 100 dvd y" "100 dvd y \<longrightarrow> 4 dvd y"
    using dvd_trans [of 100 400 y] dvd_trans [of 4 100 y] by simp_all
  have "year_start (y + 1) = 365 * y + y div 4 - y div 100 + y div 400" by (simp add: year_start_def)
  also have "\<dots> = year_start y + 365 + (if 4 dvd y then 1 else 0) - (if 100 dvd y then 1 else 0) + (if 400 dvd y then 1 else 0)"
    unfolding div_pred [of 4 y, simplified] div_pred [of 100 y, simplified] div_pred [of 400 y, simplified] year_start_def
    by (simp only: ring_distribs)
  finally show ?thesis unfolding leap_def using leap_sum [OF d] by simp
qed

lemma length_month_lens: "length (month_lens y) = 12"
  by (simp add: month_lens_def)

lemma sum_month_lens: "sum_list (month_lens y) = 365 + (if leap y then 1 else 0)"
  by (simp add: month_lens_def)

lemma mod_bounds:
  fixes a :: int
  shows "0 < k \<Longrightarrow> 0 \<le> a mod k \<and> a mod k < k \<and> a div k * k + a mod k = a"
  by simp

lemma year_bounds:
  fixes z :: int
  assumes "0 \<le> a" "a < 4" "0 \<le> b" "b < 100" "0 \<le> c" "c < 400"
    "q4 * 4 + a = z" "q100 * 100 + b = z" "q400 * 400 + c = z"
  shows "400 * (365 * z + q4 - q100 + q400) \<le> 146097 * z + 396 \<and>
    146097 * z - 699 \<le> 400 * (365 * z + q4 - q100 + q400)"
proof -
  have "400 * (365 * z + q4 - q100 + q400) = 146000 * z + 400 * q4 - 400 * q100 + 400 * q400" by simp
  then show ?thesis using assms by linarith
qed

lemma year_of_day: "year_start (year_of_day n) \<le> n" "n < year_start (year_of_day n + 1)"
proof -
  define x where "x = n * 400 div 146097"
  define r where "r = n * 400 mod 146097"
  have eq: "x * 146097 + r = n * 400" and r: "0 \<le> r" "r < 146097"
    using mod_bounds [of 146097 "n * 400", OF zero_less_numeral] unfolding x_def r_def by blast+
  have x: "146097 * x \<le> 400 * n" "400 * n < 146097 * x + 146097" using eq r by linarith+
  have b: "400 * year_start (z + 1) \<le> 146097 * z + 396 \<and> 146097 * z - 699 \<le> 400 * year_start (z + 1)" for z
  proof -
    have y: "year_start (z + 1) = 365 * z + z div 4 - z div 100 + z div 400" by (simp add: year_start_def)
    show ?thesis unfolding y
      using mod_bounds [of 4 z, OF zero_less_numeral] mod_bounds [of 100 z, OF zero_less_numeral]
        mod_bounds [of 400 z, OF zero_less_numeral]
      by (intro year_bounds [of "z mod 4" "z mod 100" "z mod 400"]) simp_all
  qed
  have lo: "year_start (x + 1) \<le> n" using b [of x] x by linarith
  have "n - 1 \<le> year_start (x + 1 + 1)" using b [of "x + 1"] x by (simp add: ring_distribs)
  then have hi: "n < year_start (x + 1 + 1 + 1)" using year_start_Suc [of "x + 1 + 1"] by (simp split: if_splits)
  have y: "year_of_day n = (if year_start (x + 1 + 1) \<le> n then x + 1 + 1 else x + 1)"
    by (simp add: year_of_day_def x_def Let_def)
  show "year_start (year_of_day n) \<le> n" "n < year_start (year_of_day n + 1)"
    unfolding y using lo hi by (auto split: if_splits)
qed

lemma month_of_yday:
  assumes "0 \<le> d" "d < sum_list ls"
  shows "\<exists>k < length ls. fst (month_of_yday ls m d) = m + int k \<and>
     d = sum_list (take k ls) + snd (month_of_yday ls m d) \<and>
     0 \<le> snd (month_of_yday ls m d) \<and> snd (month_of_yday ls m d) < ls ! k"
  using assms
proof (induction ls arbitrary: m d)
  case (Cons l ls)
  show ?case
  proof (cases "d < l")
    case False
    then have "0 \<le> d - l" "d - l < sum_list ls" using Cons.prems by auto
    from Cons.IH [OF this, of "m + 1"] obtain k where "k < length ls"
      "fst (month_of_yday ls (m + 1) (d - l)) = m + 1 + int k"
      "d - l = sum_list (take k ls) + snd (month_of_yday ls (m + 1) (d - l))"
      "0 \<le> snd (month_of_yday ls (m + 1) (d - l))" "snd (month_of_yday ls (m + 1) (d - l)) < ls ! k" by blast
    with False show ?thesis by (intro exI [of _ "Suc k"]) auto
  qed (use Cons.prems in \<open>auto intro!: exI [of _ 0]\<close>)
qed simp

definition days_in :: "int \<Rightarrow> int \<Rightarrow> int" where
  "days_in y m = month_lens y ! nat (m - 1)"

text \<open>A wall clock shows a real date, and its fields give its instant back.\<close>

definition wall_ok :: "wall_clock \<Rightarrow> bool" where
  "wall_ok w \<longleftrightarrow> 1 \<le> wMonth w \<and> wMonth w \<le> 12 \<and> 1 \<le> wDay w \<and> wDay w \<le> days_in (wYear w) (wMonth w) \<and>
     0 \<le> wHour w \<and> wHour w < 24 \<and> 0 \<le> wMinute w \<and> wMinute w < 60 \<and> 0 \<le> wSecond w \<and> wSecond w < 60"

lemma month_lens_bounds: "0 \<le> m \<Longrightarrow> m < 12 \<Longrightarrow> month_lens y ! nat m \<le> 31"
proof -
  assume m: "0 \<le> m" "m < 12"
  have "\<forall>l \<in> set (month_lens y). l \<le> 31" by (auto simp: month_lens_def)
  moreover have "nat m < length (month_lens y)" using m by (simp add: month_lens_def)
  ultimately show ?thesis by simp
qed

lemma wall_correct: "wall_ok (wall t)" "wall_instant (wall t) = (fst t div nanos_per_second + snd t) * nanos_per_second"
proof -
  define secs where "secs = fst t div nanos_per_second + snd t"
  define n where "n = secs div 86400 + unix_epoch_day"
  define tod where "tod = secs mod 86400"
  define y where "y = year_of_day n"
  obtain m d where md: "month_of_yday (month_lens y) 1 (n - year_start y) = (m, d)" by fastforce
  have w: "wall t = \<lparr>wYear = y, wMonth = m, wDay = d + 1, wHour = tod div 3600, wMinute = tod mod 3600 div 60, wSecond = tod mod 60\<rparr>"
    by (simp add: wall_def secs_def [symmetric] n_def [symmetric] tod_def [symmetric] y_def [symmetric] md Let_def)
  have "0 \<le> n - year_start y" "n - year_start y < sum_list (month_lens y)"
    using year_of_day [of n] year_start_Suc [of y] by (simp_all add: y_def sum_month_lens)
  from month_of_yday [OF this, of 1] obtain k where k: "k < 12" "m = 1 + int k"
    "n - year_start y = sum_list (take k (month_lens y)) + d" "0 \<le> d" "d < month_lens y ! k"
    by (auto simp: md length_month_lens)
  have tod: "0 \<le> tod" "tod < 86400" by (simp_all add: tod_def)
  have h: "tod div 3600 * 3600 + tod mod 3600 div 60 * 60 + tod mod 60 = tod"
    using div_mult_mod_eq [of tod 3600] div_mult_mod_eq [of "tod mod 3600" 60] mod_mod_cancel [of 60 3600 tod, simplified]
    by linarith
  show "wall_ok (wall t)" using k tod by (auto simp: w wall_ok_def days_in_def)
  have "secs = (n - unix_epoch_day) * 86400 + tod" by (simp add: n_def tod_def)
  then show "wall_instant (wall t) = (fst t div nanos_per_second + snd t) * nanos_per_second"
    using k h by (simp add: w wall_instant_def go_date_def secs_def [symmetric])
qed

section \<open>Formatting and parsing\<close>

definition pad2 :: "int \<Rightarrow> string" where
  "pad2 n = [digit (nat n div 10 mod 10), digit (nat n mod 10)]"

definition month_names :: "string list" where
  "month_names = [''Jan'', ''Feb'', ''Mar'', ''Apr'', ''May'', ''Jun'', ''Jul'', ''Aug'', ''Sep'', ''Oct'', ''Nov'', ''Dec'']"

definition month_name :: "int \<Rightarrow> string" where
  "month_name m = month_names ! nat (m - 1)"

definition digit_val :: "char \<Rightarrow> int" where
  "digit_val c = int (byte_val c) - 48"

text \<open>\<open>getnum\<close>: two digits, or one when the layout does not fix the width.\<close>

definition getnum :: "bool \<Rightarrow> string \<Rightarrow> (int \<times> string) option" where
  "getnum fixed s = (case s of
       [] \<Rightarrow> None
     | c # r \<Rightarrow> if \<not> is_digit c then None
         else case r of
             d # r' \<Rightarrow> if is_digit d then Some (10 * digit_val c + digit_val d, r')
                      else if fixed then None else Some (digit_val c, r)
           | [] \<Rightarrow> if fixed then None else Some (digit_val c, []))"

text \<open>\<open>skip\<close> over a run of spaces of the layout, and over one other byte.\<close>

definition skip_spaces :: "string \<Rightarrow> string option" where
  "skip_spaces s = (if s \<noteq> [] \<and> hd s \<noteq> CHR '' '' then None else Some (dropWhile (\<lambda>c. c = CHR '' '') s))"

definition skip_byte :: "char \<Rightarrow> string \<Rightarrow> string option" where
  "skip_byte b s = (case s of [] \<Rightarrow> None | c # r \<Rightarrow> if c = b then Some r else None)"

text \<open>\<open>lookup(shortMonthNames, value)\<close> ignores case.\<close>

fun lookup_month :: "string list \<Rightarrow> int \<Rightarrow> string \<Rightarrow> (int \<times> string) option" where
  "lookup_month [] m s = None"
| "lookup_month (n # ns) m s =
     (if length n \<le> length s \<and> sql_lower (take (length n) s) = sql_lower n then Some (m, drop (length n) s)
      else lookup_month ns (m + 1) s)"

text \<open>A two-digit year: 69 to 99 are in the twentieth century.\<close>

definition getyear :: "string \<Rightarrow> (int \<times> string) option" where
  "getyear s = (if length s < 2 then None
     else case atoi (take 2 s) of None \<Rightarrow> None
        | Some y \<Rightarrow> Some (if 69 \<le> y then y + 1900 else y + 2000, drop 2 s))"

text \<open>After the seconds a fraction is accepted even when the layout has none; at most nine of
  its digits count.\<close>

definition getfrac :: "string \<Rightarrow> int \<times> string" where
  "getfrac s = (case s of
       c # d # r \<Rightarrow>
         if (c = CHR ''.'' \<or> c = CHR '','') \<and> is_digit d
         then let ds = takeWhile is_digit (d # r); k = take 9 ds
              in (int (digits_val k) * 10 ^ (9 - length k), dropWhile is_digit (d # r))
         else (0, s)
     | _ \<Rightarrow> (0, s))"

lemma digit_val_digit: "n < 10 \<Longrightarrow> digit_val (digit n) = int n"
  by (simp add: digit_val_def digit_def byte_val_byte_of)

lemma getnum_pad2: "0 \<le> n \<Longrightarrow> n < 100 \<Longrightarrow> getnum b (pad2 n @ r) = Some (n, r)"
proof -
  assume "0 \<le> n" "n < 100"
  then obtain k where "n = int k" "k < 100" by (metis nonneg_int_cases of_nat_less_numeral_iff)
  moreover have "10 * int (k div 10) + int (k mod 10) = int k" by presburger
  ultimately show ?thesis by (simp add: getnum_def pad2_def is_digit_digit digit_val_digit)
qed

lemma getyear_pad2: "0 \<le> n \<Longrightarrow> n < 100 \<Longrightarrow> getyear (pad2 n @ r) = Some (if 69 \<le> n then n + 1900 else n + 2000, r)"
proof -
  assume n: "0 \<le> n" "n < 100"
  have "digit (nat n div 10 mod 10) \<noteq> CHR ''-''" "digit (nat n div 10 mod 10) \<noteq> CHR ''+''"
    using is_digit_digit [of "nat n div 10 mod 10"] by (auto simp: is_digit_def byte_val_def)
  moreover have e: "int (k div 10) * 10 + int (k mod 10) = int k" for k :: nat by presburger
  ultimately have "atoi (take 2 (pad2 n @ r)) = Some n" using n
    by (simp add: pad2_def atoi_def parse_digits_def is_digit_digit digits_val_def int_range_def)
       (simp add: digit_def byte_val_byte_of Let_def e)
  then show ?thesis by (simp add: getyear_def pad2_def)
qed

lemma lookup_month_name: "1 \<le> m \<Longrightarrow> m \<le> 12 \<Longrightarrow> lookup_month month_names 1 (month_name m @ r) = Some (m, r)"
proof -
  assume m: "1 \<le> m" "m \<le> 12"
  then have "m \<in> {1, 2, 3, 4, 5, 6, 7, 8, 9, 10, 11, 12}" by (simp only: insert_iff empty_iff) presburger
  then show ?thesis
    by (elim insertE emptyE) (simp_all add: month_name_def month_names_def sql_lower_def ascii_lower_def byte_val_def byte_of_def)
qed

lemma skip_spaces_pad2: "skip_spaces (CHR '' '' # pad2 n @ r) = Some (pad2 n @ r)"
proof -
  have "digit (nat n div 10 mod 10) \<noteq> CHR '' ''"
    using is_digit_digit [of "nat n div 10 mod 10"] by (auto simp: is_digit_def byte_val_def)
  then show ?thesis by (simp add: skip_spaces_def pad2_def)
qed

end
