(* ===== verification/FTN_Packet.thy ===== *)
theory FTN_Packet
  imports FTN_Addr Go_Time "HOL-Library.Monad_Syntax"
begin

text \<open>
  \<open>internal/ftn/packet.go\<close>: FidoNet packets, the Type 2+ header with its little-endian words, the
  packed messages and their dates. A reader is the string of bytes still to come. Any packet
  that was written reads back as its canonical form; whatever bytes arrive, reading ends and
  what it returns is within the field limits of the format.
\<close>

section \<open>Types (packet.go)\<close>

record PackedMessage =
  OrigNode :: int
  OrigNet :: int
  DestNode :: int
  DestNet :: int
  pmAttr :: nat
  Cost :: int
  DateTime :: string
  pmTo :: string
  pmFrom :: string
  pmSubject :: string
  pmText :: string

record Packet =
  pkFrom :: Addr
  pkTo :: Addr
  Password :: string
  Created :: "go_time option"
  Messages :: "PackedMessage list"

text \<open>The errors, all wrapping \<open>ErrNotPacket\<close>.\<close>

datatype packet_error = ShortHeader | BadVersion int | BadMessageType nat | TruncatedMessageHeader
  | UnterminatedField | FieldTooLong nat

definition headerLen :: nat where "headerLen = 58"
definition packetVersion :: int where "packetVersion = 2"
definition messageType :: int where "messageType = 2"
definition capWordType2p :: int where "capWordType2p = 1"
definition maxNameLen :: nat where "maxNameLen = 36"
definition maxSubjectLen :: nat where "maxSubjectLen = 72"
definition maxMessageText :: nat where "maxMessageText = 2 ^ 20"
definition ProductCode :: nat where "ProductCode = 0xFE"

definition NUL :: char where "NUL = CHR 0x00"

section \<open>Dates\<close>

definition FormatDate :: "go_time \<Rightarrow> string" where
  "FormatDate t =
     (let w = wall t in pad2 (wDay w) @ '' '' @ month_name (wMonth w) @ '' '' @ pad2 (max 0 (wYear w) mod 100) @ ''  '' @
        pad2 (wHour w) @ '':'' @ pad2 (wMinute w) @ '':'' @ pad2 (wSecond w))"

text \<open>\<open>time.Parse(dateLayout, v)\<close>: the instant, in UTC.\<close>

definition parse_date_layout :: "string \<Rightarrow> int option" where
  "parse_date_layout v = do {
     (d, v) \<leftarrow> getnum True v;
     v \<leftarrow> skip_spaces v;
     (m, v) \<leftarrow> lookup_month month_names 1 v;
     v \<leftarrow> skip_spaces v;
     (y, v) \<leftarrow> getyear v;
     v \<leftarrow> skip_spaces v;
     (h, v) \<leftarrow> getnum False v;
     v \<leftarrow> skip_byte CHR '':'' v;
     (mi, v) \<leftarrow> getnum True v;
     v \<leftarrow> skip_byte CHR '':'' v;
     (s, v) \<leftarrow> getnum True v;
     let (ns, v) = getfrac v;
     if h < 24 \<and> mi < 60 \<and> s < 60 \<and> v = [] \<and> 1 \<le> d \<and> d \<le> days_in y m
     then Some (go_date y m d h mi s ns) else None }"

definition ParseDate :: "string \<Rightarrow> int option" where
  "ParseDate s = (case fields_of s of
       [a, b, c, e] \<Rightarrow> parse_date_layout ((if length a = 1 then CHR ''0'' # a else a) @ '' '' @ b @ '' '' @ c @ ''  '' @ e)
     | _ \<Rightarrow> None)"

section \<open>Writing\<close>

text \<open>\<open>le.PutUint16(h[off:], uint16(v))\<close>, \<open>le.Uint16(h[off:])\<close> and the two bytes alone.\<close>

definition le16 :: "int \<Rightarrow> string" where
  "le16 v = [byte_of (nat (v mod 256)), byte_of (nat (v div 256 mod 256))]"

definition put16 :: "nat \<Rightarrow> int \<Rightarrow> string \<Rightarrow> string" where
  "put16 off v h = h[off := le16 v ! 0, Suc off := le16 v ! 1]"

definition get16 :: "string \<Rightarrow> nat \<Rightarrow> int" where
  "get16 h off = int (byte_val (h ! off)) + 256 * int (byte_val (h ! Suc off))"

text \<open>\<open>copy(h[off:off+n], s)\<close>.\<close>

definition copy_at :: "nat \<Rightarrow> nat \<Rightarrow> string \<Rightarrow> string \<Rightarrow> string" where
  "copy_at off n s h = take off h @ take n s @ drop (off + length (take n s)) h"

definition clip :: "string \<Rightarrow> nat \<Rightarrow> string" where
  "clip b n = take n (replace_all [NUL] [] b)"

text \<open>\<open>date := make([]byte, 20); copy(date, m.DateTime); date[19] = 0\<close>.\<close>

definition date_field :: "string \<Rightarrow> string" where
  "date_field s = (copy_at 0 20 s (replicate 20 NUL))[19 := NUL]"

definition encode :: "PackedMessage \<Rightarrow> string" where
  "encode m = le16 messageType @ le16 (OrigNode m) @ le16 (DestNode m) @ le16 (OrigNet m) @ le16 (DestNet m) @
     le16 (int (pmAttr m)) @ le16 (Cost m) @ date_field (DateTime m) @
     clip (pmTo m) (maxNameLen - 1) @ [NUL] @ clip (pmFrom m) (maxNameLen - 1) @ [NUL] @
     clip (pmSubject m) (maxSubjectLen - 1) @ [NUL] @ replace_all [NUL] [] (pmText m) @ [NUL]"

text \<open>\<open>up\<close> is \<open>unicode.ToUpper\<close> beyond ASCII, \<open>now\<close> the clock for a packet without a date.\<close>

definition packet_header :: "(rune \<Rightarrow> rune) \<Rightarrow> go_time \<Rightarrow> Packet \<Rightarrow> string" where
  "packet_header up now p =
     (let t = wall (case Created p of None \<Rightarrow> now | Some t \<Rightarrow> t);
          h = fold (\<lambda>(off, v). put16 off v)
                [(0, Node (pkFrom p)), (2, Node (pkTo p)), (4, wYear t), (6, wMonth t - 1), (8, wDay t), (10, wHour t),
                 (12, wMinute t), (14, wSecond t), (18, packetVersion), (20, Net (pkFrom p)), (22, Net (pkTo p))]
                (replicate headerLen NUL);
          h = copy_at 26 8 (to_upper up (Password p)) (h[24 := byte_of ProductCode])
      in fold (\<lambda>(off, v). put16 off v)
           [(34, Zone (pkFrom p)), (36, Zone (pkTo p)), (40, capWordType2p * 256), (44, capWordType2p),
            (46, Zone (pkFrom p)), (48, Zone (pkTo p)), (50, Point (pkFrom p)), (52, Point (pkTo p))] h)"

definition WriteTo :: "(rune \<Rightarrow> rune) \<Rightarrow> go_time \<Rightarrow> Packet \<Rightarrow> string" where
  "WriteTo up now p = packet_header up now p @ concat (map encode (Messages p)) @ [NUL, NUL]"

section \<open>Reading\<close>

fun readZ :: "nat \<Rightarrow> string \<Rightarrow> string \<Rightarrow> packet_error + string \<times> string" where
  "readZ limit out [] = Inl UnterminatedField"
| "readZ limit out (c # br) =
     (if c = NUL then Inr (out, br)
      else if limit \<le> length out then Inl (FieldTooLong limit)
      else readZ limit (out @ [c]) br)"

definition decodeMessage :: "string \<Rightarrow> packet_error + PackedMessage \<times> string" where
  "decodeMessage br =
     (if length br < 32 then Inl TruncatedMessageHeader
      else let h = take 32 br; br = drop 32 br in
      case readZ maxNameLen [] br of Inl e \<Rightarrow> Inl e | Inr (to, br) \<Rightarrow>
      case readZ maxNameLen [] br of Inl e \<Rightarrow> Inl e | Inr (from, br) \<Rightarrow>
      case readZ maxSubjectLen [] br of Inl e \<Rightarrow> Inl e | Inr (subject, br) \<Rightarrow>
      case readZ maxMessageText [] br of Inl e \<Rightarrow> Inl e | Inr (text, br) \<Rightarrow>
      Inr (\<lparr>OrigNode = get16 h 0, OrigNet = get16 h 4, DestNode = get16 h 2, DestNet = get16 h 6,
            pmAttr = nat (get16 h 8), Cost = get16 h 10, DateTime = trim_right_bytes [NUL] (drop 12 h),
            pmTo = to, pmFrom = from, pmSubject = subject, pmText = text\<rparr>, br))"

lemma readZ_rest: "readZ limit out br = Inr (z, br') \<Longrightarrow> length br' < length br"
  by (induction limit out br rule: readZ.induct) (auto split: if_splits)

lemma decodeMessage_rest: "decodeMessage br = Inr (m, br') \<Longrightarrow> length br' < length br"
  by (auto simp: decodeMessage_def Let_def split: if_splits sum.splits dest!: readZ_rest) linarith

text \<open>The loop over the messages: the ones read, and the error that stopped it, if any.\<close>

function read_messages :: "PackedMessage list \<Rightarrow> string \<Rightarrow> PackedMessage list \<times> packet_error option" where
  "read_messages ms br =
     (if length br < 2 then (ms, None)
      else if get16 br 0 = 0 then (ms, None)
      else if get16 br 0 \<noteq> messageType then (ms, Some (BadMessageType (length ms)))
      else case decodeMessage (drop 2 br) of
          Inl e \<Rightarrow> (ms, Some e)
        | Inr (m, br') \<Rightarrow> read_messages (ms @ [m]) br')"
  by pat_completeness auto
termination
  by (relation "measure (\<lambda>(_, br). length br)") (auto dest!: decodeMessage_rest)

declare read_messages.simps [simp del]

definition header_addrs :: "string \<Rightarrow> Addr \<times> Addr" where
  "header_addrs h =
     (let get = get16 h;
          from = \<lparr>Zone = get 34, Net = get 20, Node = get 0, Point = 0, aDomain = []\<rparr>;
          to = \<lparr>Zone = get 36, Net = get 22, Node = get 2, Point = 0, aDomain = []\<rparr>;
          cw = get 44; cwCopy = get 40
      in if cw mod 2 \<noteq> 0 \<and> cw = cwCopy div 256 + cwCopy mod 256 * 256
         then let from = from\<lparr>Zone := if get 46 \<noteq> 0 then get 46 else Zone from, Point := get 50\<rparr>;
                  to = to\<lparr>Zone := if get 48 \<noteq> 0 then get 48 else Zone to, Point := get 52\<rparr>
              in (if Net from = 65535 \<and> Point from \<noteq> 0 \<and> get 38 \<noteq> 0 then from\<lparr>Net := get 38\<rparr> else from, to)
         else (from, to))"

definition header_created :: "string \<Rightarrow> go_time option" where
  "header_created h =
     (let get = get16 h in
      if 1980 < get 4 \<and> get 6 < 12
      then Some (go_date (get 4) (get 6 + 1) (max (get 8) 1) (get 10) (get 12) (get 14) 0, 0)
      else None)"

definition ReadPacket :: "string \<Rightarrow> Packet option \<times> packet_error option" where
  "ReadPacket r =
     (if length r < headerLen then (None, Some ShortHeader)
      else let h = take headerLen r in
      if get16 h 18 \<noteq> packetVersion then (None, Some (BadVersion (get16 h 18)))
      else let (from, to) = header_addrs h;
               (ms, err) = read_messages [] (drop headerLen r)
           in (Some \<lparr>pkFrom = from, pkTo = to,
                 Password = trim_right_bytes [NUL, CHR '' ''] (take 8 (drop 26 h)),
                 Created = header_created h, Messages = ms\<rparr>, err))"

section \<open>Words in the header\<close>

lemma byte_val_le16: "int (byte_val (le16 v ! 0)) + 256 * int (byte_val (le16 v ! 1)) = v mod 65536"
proof -
  have "0 \<le> v mod 256" "v mod 256 < 256" "0 \<le> v div 256 mod 256" "v div 256 mod 256 < 256" by simp_all
  then have "int (byte_val (le16 v ! 0)) = v mod 256" "int (byte_val (le16 v ! 1)) = v div 256 mod 256"
    by (simp_all add: le16_def byte_val_byte_of nat_less_iff)
  moreover have "v mod (256 * 256) = v mod 256 + 256 * (v div 256 mod 256)" by (subst zmod_zmult2_eq) simp_all
  ultimately show ?thesis by simp
qed

lemma length_put16 [simp]: "length (put16 off v h) = length h"
  by (simp add: put16_def)

lemma get16_put16:
  "Suc off < length h \<Longrightarrow> get16 (put16 off v h) off = v mod 65536"
  "Suc o' < off \<or> Suc off < o' \<Longrightarrow> get16 (put16 off v h) o' = get16 h o'"
  using byte_val_le16 [of v] by (auto simp: get16_def put16_def)

lemma get16_update: "i \<noteq> off \<Longrightarrow> i \<noteq> Suc off \<Longrightarrow> get16 (h[i := b]) off = get16 h off"
  by (simp add: get16_def)

lemma length_copy_at: "off + n \<le> length h \<Longrightarrow> length (copy_at off n s h) = length h"
  by (simp add: copy_at_def)

lemma get16_copy_at:
  "Suc o' < off \<or> off + n \<le> o' \<Longrightarrow> off + n \<le> length h \<Longrightarrow> get16 (copy_at off n s h) o' = get16 h o'"
  by (auto simp: get16_def copy_at_def nth_append)

lemma take_drop_put16:
  "off + 1 < a \<or> a + n \<le> off \<Longrightarrow> take n (drop a (put16 off v h)) = take n (drop a h)"
  by (auto simp: put16_def drop_update_swap)

lemma take_drop_copy_at:
  "off + n \<le> length h \<Longrightarrow>
    take n (drop off (copy_at off n s h)) = take n s @ drop (length (take n s)) (take n (drop off h))"
  by (simp add: copy_at_def drop_take add.commute)

lemma header_length: "length (packet_header up now p) = headerLen"
  by (simp add: packet_header_def Let_def length_copy_at headerLen_def)


lemmas header_words = get16_put16 get16_update get16_copy_at length_copy_at

lemma header_word:
  "get16 (packet_header up now p) 18 = packetVersion"
  "get16 (packet_header up now p) 0 = Node (pkFrom p) mod 65536" "get16 (packet_header up now p) 2 = Node (pkTo p) mod 65536"
  "get16 (packet_header up now p) 20 = Net (pkFrom p) mod 65536" "get16 (packet_header up now p) 22 = Net (pkTo p) mod 65536"
  "get16 (packet_header up now p) 34 = Zone (pkFrom p) mod 65536" "get16 (packet_header up now p) 36 = Zone (pkTo p) mod 65536"
  "get16 (packet_header up now p) 46 = Zone (pkFrom p) mod 65536" "get16 (packet_header up now p) 48 = Zone (pkTo p) mod 65536"
  "get16 (packet_header up now p) 50 = Point (pkFrom p) mod 65536" "get16 (packet_header up now p) 52 = Point (pkTo p) mod 65536"
  "get16 (packet_header up now p) 38 = 0" "get16 (packet_header up now p) 40 = 256" "get16 (packet_header up now p) 44 = 1"
  by (simp_all add: packet_header_def Let_def header_words headerLen_def packetVersion_def capWordType2p_def)
     (simp_all add: get16_def NUL_def byte_val_def)

lemma header_word_date:
  fixes p :: Packet and now :: go_time
  defines "w \<equiv> wall (case Created p of None \<Rightarrow> now | Some t \<Rightarrow> t)"
  shows "get16 (packet_header up now p) 4 = wYear w mod 65536" "get16 (packet_header up now p) 6 = (wMonth w - 1) mod 65536"
    "get16 (packet_header up now p) 8 = wDay w mod 65536" "get16 (packet_header up now p) 10 = wHour w mod 65536"
    "get16 (packet_header up now p) 12 = wMinute w mod 65536" "get16 (packet_header up now p) 14 = wSecond w mod 65536"
  by (simp_all add: packet_header_def w_def Let_def header_words headerLen_def)

lemma header_password:
  "take 8 (drop 26 (packet_header up now p)) = 
     take 8 (to_upper up (Password p)) @ replicate (8 - length (to_upper up (Password p))) NUL"
  by (simp add: packet_header_def Let_def take_drop_put16 take_drop_copy_at headerLen_def drop_update_swap)

lemma dropWhile_replicate: "P x \<Longrightarrow> dropWhile P (replicate n x @ ys) = dropWhile P ys"
  by (induction n) auto

lemma trim_right_NULs: "NUL \<in> set cset \<Longrightarrow> trim_right_bytes cset (s @ replicate n NUL) = trim_right_bytes cset s"
  by (simp add: trim_right_bytes_def dropWhile_replicate)

section \<open>A message written and read back\<close>

lemma replace_NUL: "replace_all [NUL] [] s = filter (\<lambda>c. c \<noteq> NUL) s"
  by (induction s) (simp_all add: replace_all_single)

lemma readZ_field:
  "NUL \<notin> set z \<Longrightarrow> length out + length z \<le> limit \<Longrightarrow> readZ limit out (z @ NUL # br) = Inr (out @ z, br)"
  by (induction z arbitrary: out) auto

lemma clip_field:
  "NUL \<notin> set (clip b n)" "length (clip b n) \<le> n"
  by (auto simp: clip_def replace_NUL dest: in_set_takeD)

lemma get16_le16:
  "get16 (le16 v @ s) 0 = v mod 65536"
  "2 \<le> n \<Longrightarrow> get16 (le16 v @ s) n = get16 s (n - 2)"
  using byte_val_le16 [of v] by (auto simp: get16_def le16_def dest!: le_Suc_ex)

lemma length_le16 [simp]: "length (le16 v) = 2"
  by (simp add: le16_def)

lemma length_date_field [simp]: "length (date_field s) = 20"
  by (simp add: date_field_def copy_at_def)

lemma trim_date_field: "trim_right_bytes [NUL] (date_field s) = trim_right_bytes [NUL] (take 19 s)"
proof -
  have "date_field s = take 19 s @ replicate (20 - length (take 19 s)) NUL"
  proof (cases "length s < 20")
    case True
    then show ?thesis
      by (auto simp: date_field_def copy_at_def list_update_append list_update_same_conv nth_append min_def
          intro!: nth_equalityI)
  next
    case False
    then show ?thesis
      by (auto simp: date_field_def copy_at_def nth_list_update nth_append min_def intro!: nth_equalityI split: if_splits)
  qed
  then show ?thesis by (simp add: trim_right_NULs)
qed

definition canon_message :: "PackedMessage \<Rightarrow> PackedMessage" where
  "canon_message m =
     \<lparr>OrigNode = OrigNode m mod 65536, OrigNet = OrigNet m mod 65536, DestNode = DestNode m mod 65536,
      DestNet = DestNet m mod 65536, pmAttr = pmAttr m mod 65536, Cost = Cost m mod 65536,
      DateTime = trim_right_bytes [NUL] (take 19 (DateTime m)),
      pmTo = clip (pmTo m) 35, pmFrom = clip (pmFrom m) 35, pmSubject = clip (pmSubject m) 71,
      pmText = filter (\<lambda>c. c \<noteq> NUL) (pmText m)\<rparr>"

definition text_fits :: "PackedMessage \<Rightarrow> bool" where
  "text_fits m \<longleftrightarrow> length (filter (\<lambda>c. c \<noteq> NUL) (pmText m)) \<le> maxMessageText"


lemma decode_encode:
  assumes "text_fits m"
  shows "decodeMessage (drop 2 (encode m @ br)) = Inr (canon_message m, br)"
proof -
  define h where "h = le16 (OrigNode m) @ le16 (DestNode m) @ le16 (OrigNet m) @ le16 (DestNet m) @
     le16 (int (pmAttr m)) @ le16 (Cost m) @ date_field (DateTime m)"
  define t where "t = clip (pmTo m) 35 @ NUL # clip (pmFrom m) 35 @ NUL # clip (pmSubject m) 71 @ NUL #
     filter (\<lambda>c. c \<noteq> NUL) (pmText m) @ NUL # br"
  have split: "drop 2 (encode m @ br) = h @ t"
    by (simp add: encode_def h_def t_def le16_def maxNameLen_def maxSubjectLen_def replace_NUL)
  have len: "length h = 32" by (simp add: h_def)
  have words: "get16 h 0 = OrigNode m mod 65536" "get16 h 2 = DestNode m mod 65536" "get16 h 4 = OrigNet m mod 65536"
    "get16 h 6 = DestNet m mod 65536" "get16 h 8 = int (pmAttr m) mod 65536" "get16 h 10 = Cost m mod 65536"
    unfolding h_def by (simp_all add: get16_le16)
  have "drop 12 h = date_field (DateTime m)" by (simp add: h_def le16_def)
  then show ?thesis using clip_field assms
    unfolding split decodeMessage_def
    by (simp add: len Let_def words t_def readZ_field trim_date_field canon_message_def maxNameLen_def maxSubjectLen_def
        text_fits_def nat_mod_distrib order_trans [OF clip_field(2)])
qed

lemma encode_kind: "get16 (encode m @ br) 0 = messageType" "\<not> length (encode m @ br) < 2"
  by (simp_all add: encode_def get16_le16 messageType_def)

lemma read_messages_encode:
  "list_all text_fits ms \<Longrightarrow>
    read_messages done (concat (map encode ms) @ [NUL, NUL]) = (done @ map canon_message ms, None)"
proof (induction ms arbitrary: "done")
  case Nil
  show ?case by (subst read_messages.simps) (simp add: get16_def NUL_def byte_val_def)
next
  case (Cons m ms)
  let ?br = "concat (map encode ms) @ [NUL, NUL]"
  have "read_messages done (encode m @ ?br) = read_messages (done @ [canon_message m]) ?br"
    using Cons.prems decode_encode [of m ?br] encode_kind [of m ?br]
    by (subst read_messages.simps) (simp del: drop_append length_append add: messageType_def)
  with Cons show ?case by simp
qed

text \<open>The packet that comes back: numbers cut to words, strings to their fields, the date to
  whole seconds of the clock on the wall.\<close>

definition canon_addr :: "Addr \<Rightarrow> Addr" where
  "canon_addr a = \<lparr>Zone = Zone a mod 65536, Net = Net a mod 65536, Node = Node a mod 65536,
     Point = Point a mod 65536, aDomain = []\<rparr>"

definition canon_created :: "go_time \<Rightarrow> go_time option" where
  "canon_created t = (let y = wYear (wall t) mod 65536 in
     if 1980 < y then Some (wall_instant ((wall t)\<lparr>wYear := y\<rparr>), 0) else None)"

definition canon_packet :: "(rune \<Rightarrow> rune) \<Rightarrow> go_time \<Rightarrow> Packet \<Rightarrow> Packet" where
  "canon_packet up now p =
     \<lparr>pkFrom = canon_addr (pkFrom p), pkTo = canon_addr (pkTo p),
      Password = trim_right_bytes [NUL, CHR '' ''] (take 8 (to_upper up (Password p))),
      Created = canon_created (case Created p of None \<Rightarrow> now | Some t \<Rightarrow> t),
      Messages = map canon_message (Messages p)\<rparr>"

lemma header_created_canon:
  "header_created (packet_header up now p) = canon_created (case Created p of None \<Rightarrow> now | Some t \<Rightarrow> t)"
proof -
  define t where "t = (case Created p of None \<Rightarrow> now | Some t \<Rightarrow> t)"
  have ok: "1 \<le> wMonth (wall t)" "wMonth (wall t) \<le> 12" "1 \<le> wDay (wall t)" "wDay (wall t) \<le> 31"
    "0 \<le> wHour (wall t)" "wHour (wall t) < 24" "0 \<le> wMinute (wall t)" "wMinute (wall t) < 60"
    "0 \<le> wSecond (wall t)" "wSecond (wall t) < 60"
    using wall_correct(1) [of t] month_lens_bounds [of "wMonth (wall t) - 1" "wYear (wall t)"]
    by (auto simp: wall_ok_def days_in_def)
  then show ?thesis
    unfolding t_def [symmetric]
    by (simp add: header_created_def header_word_date [of up now p, folded t_def] canon_created_def wall_instant_def Let_def)
qed

lemma header_addrs_canon:
  "header_addrs (packet_header up now p) = (canon_addr (pkFrom p), canon_addr (pkTo p))"
  by (simp add: header_addrs_def header_word canon_addr_def Let_def)

lemma ReadPacket_WriteTo_canon:
  assumes "list_all text_fits (Messages p)"
  shows "ReadPacket (WriteTo up now p) = (Some (canon_packet up now p), None)"
  using assms
  by (simp add: ReadPacket_def WriteTo_def header_length header_word header_addrs_canon header_created_canon
      header_password trim_right_NULs read_messages_encode canon_packet_def)


section \<open>Properties\<close>

definition word_ok :: "int \<Rightarrow> bool" where
  "word_ok v \<longleftrightarrow> 0 \<le> v \<and> v < 65536"

definition packed_ok :: "PackedMessage \<Rightarrow> bool" where
  "packed_ok m \<longleftrightarrow> word_ok (OrigNode m) \<and> word_ok (OrigNet m) \<and> word_ok (DestNode m) \<and> word_ok (DestNet m) \<and>
     pmAttr m < 65536 \<and> word_ok (Cost m) \<and> length (DateTime m) \<le> 19 \<and> trim_right_bytes [NUL] (DateTime m) = DateTime m \<and>
     NUL \<notin> set (pmTo m @ pmFrom m @ pmSubject m @ pmText m) \<and>
     length (pmTo m) < maxNameLen \<and> length (pmFrom m) < maxNameLen \<and> length (pmSubject m) < maxSubjectLen \<and>
     length (pmText m) \<le> maxMessageText"

definition packet_ok :: "(rune \<Rightarrow> rune) \<Rightarrow> Packet \<Rightarrow> bool" where
  "packet_ok up p \<longleftrightarrow>
     (\<forall>a \<in> {pkFrom p, pkTo p}. word_ok (Zone a) \<and> word_ok (Net a) \<and> word_ok (Node a) \<and> word_ok (Point a) \<and> aDomain a = []) \<and>
     to_upper up (Password p) = Password p \<and> length (Password p) \<le> 8 \<and>
     trim_right_bytes [NUL, CHR '' ''] (Password p) = Password p \<and>
     (case Created p of None \<Rightarrow> False
      | Some t \<Rightarrow> snd t = 0 \<and> fst t mod nanos_per_second = 0 \<and> 1980 < wYear (wall t) \<and> wYear (wall t) < 65536) \<and>
     list_all packed_ok (Messages p)"

lemma filter_NUL: "NUL \<notin> set s \<Longrightarrow> filter (\<lambda>c. c \<noteq> NUL) s = s"
  by (rule filter_True) auto

lemma clip_id: "NUL \<notin> set s \<Longrightarrow> length s \<le> n \<Longrightarrow> clip s n = s"
  by (simp add: clip_def replace_NUL filter_NUL)

lemma canon_message_id: "packed_ok m \<Longrightarrow> canon_message m = m"
  by (simp add: packed_ok_def canon_message_def word_ok_def clip_id maxNameLen_def maxSubjectLen_def filter_NUL)

lemma canon_created_id:
  assumes "snd t = 0" "fst t mod nanos_per_second = 0" "1980 < wYear (wall t)" "wYear (wall t) < 65536"
  shows "canon_created t = Some t"
proof -
  have "wYear (wall t) mod 65536 = wYear (wall t)" using assms by simp
  moreover have "fst t div nanos_per_second * nanos_per_second = fst t"
    using assms(2) div_mult_mod_eq [of "fst t" nanos_per_second] by linarith
  ultimately show ?thesis using assms wall_correct(2) [of t]
    by (cases t) (simp add: canon_created_def)
qed

lemma canon_packet_id: "packet_ok up p \<Longrightarrow> canon_packet up now p = p"
  by (cases p; cases "pkFrom p"; cases "pkTo p")
     (auto simp: packet_ok_def canon_packet_def canon_addr_def word_ok_def canon_created_id list_all_iff canon_message_id
       map_idI split: option.splits)

text \<open>
  Claim C19. Packets survive the wire. Whatever a packet holds, as long as no message text
  exceeds the reader's bound of one megabyte, the bytes that \<open>WriteTo\<close> emits are read by
  \<open>ReadPacket\<close> without error and give the packet's canonical form, with the same number of
  messages in the same order, so a malformed field of one message never damages the next; and a
  packet whose fields already respect the format (16-bit numbers, a password of at most eight
  upper-case characters, fields without NUL within their lengths, a date in whole seconds after
  1980) comes back exactly.
\<close>

theorem ReadPacket_WriteTo:
  assumes fits: "list_all text_fits (Messages p)"
  shows "ReadPacket (WriteTo up now p) = (Some (canon_packet up now p), None) \<and>
    length (Messages (canon_packet up now p)) = length (Messages p) \<and>
    (packet_ok up p \<longrightarrow> ReadPacket (WriteTo up now p) = (Some p, None))"
  using ReadPacket_WriteTo_canon [OF fits] canon_packet_id [of up p now] by (auto simp: canon_packet_def)

definition demo_packed :: PackedMessage where
  "demo_packed = \<lparr>OrigNode = 9, OrigNet = 410, DestNode = 51, DestNet = 410, pmAttr = 1, Cost = 0,
     DateTime = ''01 Jan 26  13:04:05'', pmTo = ''Bob'', pmFrom = ''Al'', pmSubject = ''Hi'', pmText = ''Hello''\<rparr>"

definition demo_packet :: Packet where
  "demo_packet = \<lparr>pkFrom = \<lparr>Zone = 2, Net = 410, Node = 9, Point = 0, aDomain = []\<rparr>,
     pkTo = \<lparr>Zone = 2, Net = 410, Node = 51, Point = 3, aDomain = []\<rparr>, Password = ''SECRET'',
     Created = Some (1767272645000000000, 0), Messages = [demo_packed]\<rparr>"

lemma to_upper_SECRET: "to_upper up ''SECRET'' = ''SECRET''"
  by (rule to_upper_id) (simp add: is_ascii_def byte_val_def)

lemma demo_packet_ok: "list_all text_fits (Messages demo_packet)" "packet_ok id demo_packet"
proof -
  show "list_all text_fits (Messages demo_packet)"
    by (simp add: demo_packet_def demo_packed_def text_fits_def maxMessageText_def NUL_def)
  have "wYear (wall (1767272645000000000, 0)) = 2026" by code_simp
  then show "packet_ok id demo_packet"
    by (simp add: packet_ok_def demo_packet_def to_upper_SECRET demo_packed_def packed_ok_def word_ok_def maxNameLen_def
        maxSubjectLen_def maxMessageText_def NUL_def trim_right_bytes_def nanos_per_second_def)
qed

theorem ReadPacket_WriteTo_witness:
  "ReadPacket (WriteTo id (0, 0) demo_packet) = (Some demo_packet, None)"
  using ReadPacket_WriteTo [of demo_packet id "(0, 0)"] demo_packet_ok by blast

definition read_bounds :: "PackedMessage \<Rightarrow> bool" where
  "read_bounds m \<longleftrightarrow> word_ok (OrigNode m) \<and> word_ok (OrigNet m) \<and> word_ok (DestNode m) \<and> word_ok (DestNet m) \<and>
     pmAttr m < 65536 \<and> word_ok (Cost m) \<and> length (DateTime m) \<le> 20 \<and>
     NUL \<notin> set (pmTo m @ pmFrom m @ pmSubject m @ pmText m) \<and>
     length (pmTo m) \<le> maxNameLen \<and> length (pmFrom m) \<le> maxNameLen \<and> length (pmSubject m) \<le> maxSubjectLen \<and>
     length (pmText m) \<le> maxMessageText"

lemma word_ok_get16: "word_ok (get16 h off)"
  using byte_val_lt [of "h ! off"] byte_val_lt [of "h ! Suc off"] unfolding word_ok_def get16_def by linarith

lemma readZ_bounds:
  "readZ limit out br = Inr (z, br') \<Longrightarrow> NUL \<notin> set out \<Longrightarrow> length out \<le> limit \<Longrightarrow> NUL \<notin> set z \<and> length z \<le> limit"
  by (induction limit out br rule: readZ.induct) (auto split: if_splits)

lemma length_trim_right: "length (trim_right_bytes cs s) \<le> length s"
  using length_dropWhile_le [of _ "rev s"] by (simp add: trim_right_bytes_def)

lemma decodeMessage_cases:
  assumes "decodeMessage br = Inr (m, br')"
  obtains to sender subject body b1 b2 b3 where
    "readZ maxNameLen [] (drop 32 br) = Inr (to, b1)" "readZ maxNameLen [] b1 = Inr (sender, b2)"
    "readZ maxSubjectLen [] b2 = Inr (subject, b3)" "readZ maxMessageText [] b3 = Inr (body, br')"
    "m = \<lparr>OrigNode = get16 (take 32 br) 0, OrigNet = get16 (take 32 br) 4, DestNode = get16 (take 32 br) 2,
      DestNet = get16 (take 32 br) 6, pmAttr = nat (get16 (take 32 br) 8), Cost = get16 (take 32 br) 10,
      DateTime = trim_right_bytes [NUL] (drop 12 (take 32 br)), pmTo = to, pmFrom = sender, pmSubject = subject, pmText = body\<rparr>"
  using assms by (auto simp: decodeMessage_def Let_def split: if_splits sum.splits)

lemma decodeMessage_bounds:
  assumes "decodeMessage br = Inr (m, br')"
  shows "read_bounds m"
  using assms
proof (cases rule: decodeMessage_cases)
  case (1 to sender subject body b1 b2 b3)
  from 1(1-4) [THEN readZ_bounds] have z: "NUL \<notin> set (to @ sender @ subject @ body)" "length to \<le> maxNameLen"
    "length sender \<le> maxNameLen" "length subject \<le> maxSubjectLen" "length body \<le> maxMessageText" by simp_all
  have "nat (get16 (take 32 br) 8) < 65536" using word_ok_get16 [of "take 32 br" 8] by (simp add: word_ok_def nat_less_iff)
  moreover have "length (trim_right_bytes [NUL] (drop 12 (take 32 br))) \<le> 20"
    using length_trim_right [of "[NUL]" "drop 12 (take 32 br)"] by simp
  ultimately show ?thesis using z by (simp add: 1(5) read_bounds_def word_ok_get16)
qed

lemma read_messages_bounds: "list_all read_bounds ms \<Longrightarrow> list_all read_bounds (fst (read_messages ms br))"
proof (induction ms br rule: read_messages.induct)
  case (1 ms br)
  then show ?case
    by (subst read_messages.simps) (auto split: sum.splits simp: decodeMessage_bounds)
qed

lemma ReadPacket_limits:
  "case ReadPacket r of
     (None, err) \<Rightarrow> err \<noteq> None
   | (Some p, err) \<Rightarrow> list_all read_bounds (Messages p) \<and> length (Password p) \<le> 8 \<and>
       list_all (\<lambda>a. word_ok (Zone a) \<and> word_ok (Net a) \<and> word_ok (Node a) \<and> word_ok (Point a)) [pkFrom p, pkTo p]"
proof -
  have "list_all read_bounds (fst (read_messages [] br))" for br by (rule read_messages_bounds) simp
  moreover have "list_all (\<lambda>a. word_ok (Zone a) \<and> word_ok (Net a) \<and> word_ok (Node a) \<and> word_ok (Point a))
      [fst (header_addrs h), snd (header_addrs h)]" for h
    by (auto simp: header_addrs_def Let_def word_ok_get16) (auto simp: word_ok_def)
  moreover have "length (trim_right_bytes cs (take 8 h)) \<le> 8" for cs h :: string
    using length_trim_right [of cs "take 8 h"] by simp
  ultimately show ?thesis by (auto simp: ReadPacket_def Let_def split: prod.splits) (metis fst_conv snd_conv)+
qed

text \<open>
  Claim C20. No input breaks the packet reader: for any bytes whatever it ends, and what it
  hands on is within the format: addresses, attributes and cost fit a 16-bit word, names have
  at most 36 bytes, subjects 72, texts a megabyte, and none of them contains a NUL. It returns
  no packet at all only with an error.
\<close>

theorem ReadPacket_bounds:
  "case ReadPacket r of
     (None, err) \<Rightarrow> err \<noteq> None
   | (Some p, err) \<Rightarrow> list_all read_bounds (Messages p) \<and> length (Password p) \<le> 8 \<and>
       list_all (\<lambda>a. word_ok (Zone a) \<and> word_ok (Net a) \<and> word_ok (Node a) \<and> word_ok (Point a)) [pkFrom p, pkTo p]"
  by (rule ReadPacket_limits)

lemma word_pad2: "list_all word_char (pad2 n)" "pad2 n \<noteq> []"
proof -
  have "word_char (digit k)" if "k < 10" for k using that digit_ascii [OF is_digit_digit [OF that]] by (simp add: word_char_def)
  then show "list_all word_char (pad2 n)" by (simp add: pad2_def)
qed (simp add: pad2_def)

lemma word_month: "1 \<le> m \<Longrightarrow> m \<le> 12 \<Longrightarrow> list_all word_char (month_name m) \<and> month_name m \<noteq> []"
proof -
  assume "1 \<le> m" "m \<le> 12"
  then have "month_name m \<in> set month_names"
    unfolding month_name_def by (intro nth_mem) (simp add: month_names_def)
  moreover have "list_all (\<lambda>n. list_all word_char n \<and> n \<noteq> []) month_names"
    by (simp add: month_names_def word_char_def is_ascii_def is_space_def byte_val_def)
  ultimately show ?thesis by (auto simp: list_all_iff)
qed

lemma skip_spaces_month: "1 \<le> m \<Longrightarrow> m \<le> 12 \<Longrightarrow> skip_spaces (CHR '' '' # month_name m @ r) = Some (month_name m @ r)"
  using word_month [of m]
  by (cases "month_name m") (auto simp: skip_spaces_def word_char_def is_space_def byte_val_def)

lemma year_century: "1969 \<le> y \<Longrightarrow> y \<le> 2068 \<Longrightarrow> (if 69 \<le> y mod 100 then y mod 100 + 1900 else y mod 100 + 2000) = (y::int)"
  by presburger

lemma parse_date_parts:
  assumes "wall_ok w" "1969 \<le> wYear w" "wYear w \<le> 2068"
  shows "parse_date_layout (pad2 (wDay w) @ '' '' @ month_name (wMonth w) @ '' '' @ pad2 (wYear w mod 100) @ ''  '' @
    (pad2 (wHour w) @ '':'' @ pad2 (wMinute w) @ '':'' @ pad2 (wSecond w))) = Some (wall_instant w)"
proof -
  have d: "wDay w \<le> 31" using assms(1) month_lens_bounds [of "wMonth w - 1" "wYear w"]
    by (auto simp: wall_ok_def days_in_def)
  have sp: "skip_spaces (CHR '' '' # CHR '' '' # s) = skip_spaces (CHR '' '' # s)" for s by (simp add: skip_spaces_def)
  have last: "getnum True (pad2 (wSecond w)) = Some (wSecond w, [])"
    using getnum_pad2 [of "wSecond w" True "[]"] assms(1) by (simp add: wall_ok_def)
  show ?thesis using assms d year_century [of "wYear w"]
    by (simp add: parse_date_layout_def getnum_pad2 skip_spaces_month lookup_month_name skip_spaces_pad2 getyear_pad2
        wall_ok_def sp skip_byte_def last getfrac_def wall_instant_def)
qed

text \<open>
  A date written in a message header is read back: for every time whose year is
  between 1969 and 2068, \<open>ParseDate (FormatDate t)\<close> is the instant that shows the same clock
  in UTC, to the second.
\<close>

theorem ParseDate_FormatDate:
  assumes year: "1969 \<le> wYear (wall t)" "wYear (wall t) \<le> 2068"
  shows "ParseDate (FormatDate t) = Some ((fst t div nanos_per_second + snd t) * nanos_per_second)"
proof -
  define w where "w = wall t"
  have ok: "wall_ok w" using wall_correct(1) by (simp add: w_def)
  then have m: "1 \<le> wMonth w" "wMonth w \<le> 12" by (simp_all add: wall_ok_def)
  let ?clock = "pad2 (wHour w) @ '':'' @ pad2 (wMinute w) @ '':'' @ pad2 (wSecond w)"
  have "word_char CHR '':''" by (simp add: word_char_def is_ascii_def is_space_def byte_val_def)
  then have c: "fields_of ?clock = [?clock]" using word_pad2 by (intro fields_word) auto
  have f: "FormatDate t = pad2 (wDay w) @ CHR '' '' # month_name (wMonth w) @ CHR '' '' # pad2 (wYear w mod 100) @
      CHR '' '' # CHR '' '' # ?clock"
    using year by (simp add: FormatDate_def Let_def w_def)
  have "fields_of (FormatDate t) = [pad2 (wDay w), month_name (wMonth w), pad2 (wYear w mod 100), ?clock]"
    unfolding f using word_pad2 word_month [OF m] by (simp add: fields_word_space fields_space c [simplified])
  then show ?thesis
    using parse_date_parts [OF ok] year wall_correct(2) [of t] by (simp add: ParseDate_def pad2_def w_def)
qed

theorem ParseDate_FormatDate_witness:
  "ParseDate (FormatDate (1767272645123456789, 3600)) = Some 1767276245000000000"
proof -
  have "wYear (wall (1767272645123456789, 3600)) = 2026" by code_simp
  then show ?thesis using ParseDate_FormatDate [of "(1767272645123456789, 3600)"] by (simp add: nanos_per_second_def)
qed

end
