(* ===== verification/FTN_Charset.thy ===== *)
theory FTN_Charset
  imports FTN_Addr Term_Charset
begin

text \<open>
  \<open>internal/ftn/charset.go\<close>: character sets of FidoNet messages. The constructors of \<open>Charset\<close>
  are declared with the messages in \<open>FTN_Addr\<close>. Text that fits a set comes back from it, and
  the bytes of the one-byte sets come back from UTF-8.
\<close>

section \<open>Names (charset.go)\<close>

definition chrsNames :: "string \<Rightarrow> Charset option" where
  "chrsNames = map_of
     [(''ASCII'', ASCII), (''CP437'', CP437), (''IBMPC'', CP437), (''CP866'', CP866), (''+7_FIDO'', CP866), (''+7'', CP866),
      (''LATIN-1'', Latin1), (''ISO-8859-1'', Latin1), (''UTF-8'', UTF8)]"

definition before_space :: "string \<Rightarrow> string" where
  "before_space s = (case cut_at CHR '' '' s of None \<Rightarrow> s | Some (a, b) \<Rightarrow> a)"

definition ParseCHRS :: "(rune \<Rightarrow> rune) \<Rightarrow> string \<Rightarrow> Charset option" where
  "ParseCHRS up v = chrsNames (to_upper up (before_space (trim_space v)))"

definition CHRS :: "Charset \<Rightarrow> string" where
  "CHRS cs = (case cs of CP437 \<Rightarrow> ''CP437 2'' | CP866 \<Rightarrow> ''CP866 2'' | Latin1 \<Rightarrow> ''LATIN-1 2'' | UTF8 \<Rightarrow> ''UTF-8 4''
     | ASCII \<Rightarrow> ''ASCII 1'')"

definition Charset_String :: "Charset \<Rightarrow> string" where
  "Charset_String cs = before_space (CHRS cs)"

section \<open>Conversion\<close>

definition cp866High :: "rune list" where
  "cp866High =
    [0x410, 0x411, 0x412, 0x413, 0x414, 0x415, 0x416, 0x417, 0x418, 0x419, 0x41A, 0x41B,
     0x41C, 0x41D, 0x41E, 0x41F, 0x420, 0x421, 0x422, 0x423, 0x424, 0x425, 0x426, 0x427,
     0x428, 0x429, 0x42A, 0x42B, 0x42C, 0x42D, 0x42E, 0x42F, 0x430, 0x431, 0x432, 0x433,
     0x434, 0x435, 0x436, 0x437, 0x438, 0x439, 0x43A, 0x43B, 0x43C, 0x43D, 0x43E, 0x43F,
     0x2591, 0x2592, 0x2593, 0x2502, 0x2524, 0x2561, 0x2562, 0x2556, 0x2555, 0x2563, 0x2551, 0x2557,
     0x255D, 0x255C, 0x255B, 0x2510, 0x2514, 0x2534, 0x252C, 0x251C, 0x2500, 0x253C, 0x255E, 0x255F,
     0x255A, 0x2554, 0x2569, 0x2566, 0x2560, 0x2550, 0x256C, 0x2567, 0x2568, 0x2564, 0x2565, 0x2559,
     0x2558, 0x2552, 0x2553, 0x256B, 0x256A, 0x2518, 0x250C, 0x2588, 0x2584, 0x258C, 0x2590, 0x2580,
     0x440, 0x441, 0x442, 0x443, 0x444, 0x445, 0x446, 0x447, 0x448, 0x449, 0x44A, 0x44B,
     0x44C, 0x44D, 0x44E, 0x44F, 0x401, 0x451, 0x404, 0x454, 0x407, 0x457, 0x40E, 0x45E,
     0xB0, 0x2219, 0xB7, 0x221A, 0x2116, 0xA4, 0x25A0, 0xA0]"

definition cp866Encode :: "rune \<Rightarrow> char option" where
  "cp866Encode = table_byte cp866High"

definition cp437Encode :: "rune \<Rightarrow> char option" where
  "cp437Encode = table_byte (map (\<lambda>n. DecodeCP437 (byte_of (0x80 + n))) [0 ..< 128])"

text \<open>\<open>strings.ToValidUTF8\<close> with U+FFFD: each maximal run of invalid bytes is one replacement.\<close>

function to_valid_utf8 :: "bool \<Rightarrow> string \<Rightarrow> string" where
  "to_valid_utf8 bad s =
     (if s = [] then []
      else let (r, n) = decode_rune s
           in if r = rune_error \<and> n = 1
              then (if bad then [] else encode_rune rune_error) @ to_valid_utf8 True (drop 1 s)
              else take n s @ to_valid_utf8 False (drop n s))"
  by pat_completeness auto
termination
proof (relation "measure (\<lambda>(_, s). length s)", goal_cases)
  case (3 bad s rn r n)
  from 3(2,3) have "snd (decode_rune s) = n" by (metis snd_conv)
  with 3(1) decode_rune_width(2) [of s] show ?case by (cases s) auto
qed auto

declare to_valid_utf8.simps [simp del]

definition decode_byte :: "Charset \<Rightarrow> char \<Rightarrow> string" where
  "decode_byte cs c = (case cs of
       CP437 \<Rightarrow> if is_ascii c then [c] else encode_rune (DecodeCP437 c)
     | CP866 \<Rightarrow> if is_ascii c then [c] else encode_rune (cp866High ! (byte_val c - 0x80))
     | Latin1 \<Rightarrow> encode_rune (byte_val c)
     | _ \<Rightarrow> if is_ascii c then [c] else ''?'')"

definition Decode :: "string \<Rightarrow> Charset \<Rightarrow> string" where
  "Decode data cs = (if cs = UTF8 then to_valid_utf8 False data else concat (map (decode_byte cs) data))"

definition lookup :: "(rune \<Rightarrow> char option) \<Rightarrow> rune \<Rightarrow> char" where
  "lookup m r = (case m r of Some b \<Rightarrow> b | None \<Rightarrow> CHR ''?'')"

definition encode_byte :: "Charset \<Rightarrow> rune \<Rightarrow> char" where
  "encode_byte cs r =
     (if r < 0x80 then byte_of r
      else if cs = Latin1 \<and> r \<le> 0xFF then byte_of r
      else if cs = CP437 then lookup cp437Encode r
      else if cs = CP866 then lookup cp866Encode r
      else CHR ''?'')"

definition Encode :: "string \<Rightarrow> Charset \<Rightarrow> string" where
  "Encode s cs = (if cs = UTF8 then s else map (encode_byte cs) (runes s))"

definition rune_fits :: "Charset \<Rightarrow> rune \<Rightarrow> bool" where
  "rune_fits cs r \<longleftrightarrow> r < 0x80 \<or>
     (case cs of Latin1 \<Rightarrow> r \<le> 0xFF | CP437 \<Rightarrow> cp437Encode r \<noteq> None | CP866 \<Rightarrow> cp866Encode r \<noteq> None | _ \<Rightarrow> False)"

definition Fits :: "string \<Rightarrow> Charset \<Rightarrow> bool" where
  "Fits s cs \<longleftrightarrow> (if cs = UTF8 then valid_utf8 s else list_all (rune_fits cs) (runes s))"

definition DefaultCharset :: "Addr \<Rightarrow> Charset" where
  "DefaultCharset a = (if Zone a = 2 \<and> 5000 \<le> Net a \<and> Net a \<le> 5099 then CP866 else CP437)"

section \<open>Tables\<close>

lemma cp866_table: "distinct cp866High" "length cp866High = 128"
  by (simp_all add: cp866High_def)

lemma cp866_valid: "list_all (\<lambda>r. 0x80 \<le> r \<and> valid_rune r \<and> r \<noteq> rune_error) cp866High"
  by (simp add: cp866High_def valid_rune_def rune_error_def)

lemma cp437Encode_table: "cp437Encode = table_byte cp437High"
proof -
  have "map (\<lambda>n. DecodeCP437 (byte_of (0x80 + n))) [0 ..< 128] = cp437High"
    by (rule nth_equalityI) (simp_all add: cp437_table DecodeCP437_def is_ascii_def byte_val_byte_of)
  then show ?thesis by (simp add: cp437Encode_def)
qed

text \<open>The one-byte sets give every byte a rune of its own.\<close>

definition byte_rune :: "Charset \<Rightarrow> char \<Rightarrow> rune" where
  "byte_rune cs c = (if is_ascii c then byte_val c
     else case cs of CP437 \<Rightarrow> DecodeCP437 c | CP866 \<Rightarrow> cp866High ! (byte_val c - 0x80) | _ \<Rightarrow> byte_val c)"

lemma table_rune:
  assumes "list_all (\<lambda>r. 0x80 \<le> r \<and> valid_rune r \<and> r \<noteq> rune_error) tab" "distinct tab" "length tab = 128" "\<not> is_ascii c"
  defines "r \<equiv> tab ! (byte_val c - 0x80)"
  shows "0x80 \<le> r" "valid_rune r" "r \<noteq> rune_error" "table_byte tab r = Some c"
proof -
  have n: "byte_val c - 0x80 < 128" using byte_val_lt [of c] by linarith
  then have "r \<in> set tab" using assms(3) by (simp add: r_def)
  then show "0x80 \<le> r" "valid_rune r" "r \<noteq> rune_error" using assms(1) by (auto simp: list_all_iff)
  show "table_byte tab r = Some c"
    using table_byte_Some [OF assms(2,3) n] assms(4) by (simp add: r_def is_ascii_def)
qed

lemmas cp437_rune = table_rune [OF cp437_valid cp437_table]
lemmas cp866_rune = table_rune [OF cp866_valid cp866_table]

lemma byte_rune:
  assumes "cs \<in> {CP437, CP866, Latin1}"
  shows "valid_rune (byte_rune cs c)" "decode_byte cs c = encode_rune (byte_rune cs c)" "encode_byte cs (byte_rune cs c) = c"
proof -
  have low: "is_ascii c \<Longrightarrow> valid_rune (byte_val c)" "valid_rune (byte_val c)"
    using byte_val_lt [of c] by (auto simp: valid_rune_def simp del: byte_val_lt)
  have hi: "byte_val c \<le> 255" using byte_val_lt [of c] by linarith
  show "valid_rune (byte_rune cs c)"
    using assms low cp437_rune [of c] cp866_rune [of c] by (auto simp: byte_rune_def DecodeCP437_def)
  show "decode_byte cs c = encode_rune (byte_rune cs c)"
    using assms by (auto simp: byte_rune_def decode_byte_def encode_rune_ascii)
  show "encode_byte cs (byte_rune cs c) = c"
    using assms hi cp437_rune [of c] cp866_rune [of c]
    by (auto simp: byte_rune_def encode_byte_def lookup_def cp437Encode_table cp866Encode_def DecodeCP437_def is_ascii_def)
qed

text \<open>
  Converting an incoming message to UTF-8 loses nothing: for the one-byte sets of
  FidoNet (CP437, CP866 and Latin-1), encoding the decoded text gives back the very bytes that
  came, for every string of bytes.
\<close>

theorem Encode_Decode:
  assumes "cs \<in> {CP437, CP866, Latin1}"
  shows "Encode (Decode data cs) cs = data"
proof -
  have ne: "cs \<noteq> UTF8" using assms by auto
  have d: "Decode data cs = of_runes (map (byte_rune cs) data)"
    using ne byte_rune(2) [OF assms] by (induction data) (simp_all add: Decode_def)
  have "list_all valid_rune (map (byte_rune cs) data)" using byte_rune(1) [OF assms] by (simp add: list_all_iff)
  then have "runes (Decode data cs) = map (byte_rune cs) data" by (simp add: d runes_of_runes)
  then show ?thesis using ne byte_rune(3) [OF assms] by (simp add: Encode_def o_def)
qed

theorem Encode_Decode_witness: "Encode (Decode [CHR 0x8F, CHR 0xE0, CHR ''i''] CP866) CP866 = [CHR 0x8F, CHR 0xE0, CHR ''i'']"
  using Encode_Decode [of CP866 "[CHR 0x8F, CHR 0xE0, CHR ''i'']"] by simp

lemma rune_fits_byte:
  assumes "rune_fits cs r" "cs \<noteq> UTF8" "valid_rune r"
  shows "r \<noteq> rune_error" "decode_byte cs (encode_byte cs r) = encode_rune r"
proof -
  have err: "cp437Encode rune_error = None" "cp866Encode rune_error = None"
    using cp437_valid cp866_valid cp437_table cp866_table
    by (auto simp: cp437Encode_table cp866Encode_def table_byte_def map_of_eq_None_iff list_all_iff dest!: set_zip_leftD)
  then show "r \<noteq> rune_error" using assms by (auto simp: rune_fits_def rune_error_def split: Charset.splits)
  consider "r < 0x80" | "cs = Latin1" "0x80 \<le> r" "r \<le> 0xFF"
    | b where "cs = CP437" "0x80 \<le> r" "cp437Encode r = Some b"
    | b where "cs = CP866" "0x80 \<le> r" "cp866Encode r = Some b"
    using assms(1,2) by (cases "r < 0x80"; cases cs) (auto simp: rune_fits_def)
  then show "decode_byte cs (encode_byte cs r) = encode_rune r"
  proof cases
    case 1
    then have "is_ascii (byte_of r)" "byte_val (byte_of r) = r" by (simp_all add: is_ascii_def byte_val_byte_of)
    with 1 encode_rune_ascii [of "byte_of r"] show ?thesis
      by (simp add: decode_byte_def encode_byte_def split: Charset.splits)
  next
    case 2
    then show ?thesis by (simp add: decode_byte_def encode_byte_def byte_val_byte_of)
  next
    case (3 b)
    with table_byte_high [OF cp437_table(2), of r b] show ?thesis
      by (simp add: decode_byte_def encode_byte_def lookup_def cp437Encode_table DecodeCP437_def)
  next
    case (4 b)
    with table_byte_high [OF cp866_table(2), of r b] show ?thesis
      by (simp add: decode_byte_def encode_byte_def lookup_def cp866Encode_def)
  qed
qed

lemma to_valid_utf8_id: "valid_utf8 s \<Longrightarrow> to_valid_utf8 bad s = s"
proof -
  have "list_all valid_rune rs \<Longrightarrow> to_valid_utf8 b (of_runes rs) = of_runes rs" for rs b
  proof (induction rs arbitrary: b)
    case Nil
    show ?case by (simp add: to_valid_utf8.simps)
  next
    case (Cons r rs)
    have "length (encode_rune rune_error) \<noteq> 1"
      by (simp add: encode_rune_def encode_valid_def rune_error_def)
    then have no: "\<not> (r = rune_error \<and> length (encode_rune r) = 1)" by auto
    have "decode_rune (encode_rune r @ of_runes rs) = (r, length (encode_rune r))"
      using Cons.prems decode_encode_valid [of r] by (simp add: encode_rune_valid)
    with Cons no show ?case by (subst to_valid_utf8.simps) auto
  qed
  then show "valid_utf8 s \<Longrightarrow> ?thesis" using list_all_valid_runes [of s] by (metis valid_utf8_def)
qed

text \<open>
  \<open>Fits\<close> means what it says: a text that fits a character set survives being encoded
  in it, so what the reader at the other end decodes is what was written.
\<close>

theorem Fits_roundtrip:
  assumes fits: "Fits s cs"
  shows "Decode (Encode s cs) cs = s"
proof (cases "cs = UTF8")
  case True
  with fits show ?thesis by (simp add: Fits_def Decode_def Encode_def to_valid_utf8_id)
next
  case False
  then have f: "\<forall>r \<in> set (runes s). rune_fits cs r" using fits by (simp add: Fits_def list_all_iff)
  have "rune_error \<notin> set (runes s)" using f rune_fits_byte(1) [OF _ False] valid_runes by blast
  then have s: "of_runes (runes s) = s" by (rule runes_no_error)
  have "concat (map (\<lambda>r. decode_byte cs (encode_byte cs r)) (runes s)) = of_runes (runes s)"
    using f rune_fits_byte(2) [OF _ False] valid_runes by (auto simp: of_runes_def intro!: arg_cong [of _ _ concat])
  with False s show ?thesis by (simp add: Decode_def Encode_def o_def)
qed

theorem Fits_roundtrip_witness: "Decode (Encode (of_runes [0x416, 0x401, 33]) CP866) CP866 = of_runes [0x416, 0x401, 33]"
proof -
  have "runes (of_runes [0x416, 0x401, 33]) = [0x416, 0x401, 33]" by (rule runes_of_runes) (simp add: valid_rune_def)
  then have "Fits (of_runes [0x416, 0x401, 33]) CP866"
    by (simp add: Fits_def rune_fits_def cp866Encode_def table_byte_def cp866High_def)
  then show ?thesis by (rule Fits_roundtrip)
qed

end
