(* ===== verification/FTN_Message.thy ===== *)
theory FTN_Message
  imports FTN_Packet FTN_Charset "HOL-Library.Product_Lexorder"
begin

text \<open>
  \<open>internal/ftn/message.go\<close> and the message part of \<open>route.go\<close>: a packed message is taken apart
  into its control lines, text, SEEN-BY and PATH, and put together again. The Unicode case
  tables beyond ASCII are the arguments \<open>lo\<close> and \<open>up\<close>. SEEN-BY and PATH lines read back as the
  systems they list.
\<close>

section \<open>Control lines (message.go)\<close>

text \<open>The value \<open>strconv.Atoi\<close> returns when its error is ignored.\<close>

definition atoi_value :: "string \<Rightarrow> int" where
  "atoi_value s =
     (let (neg, ds) = (case s of c # r \<Rightarrow> if c = CHR ''-'' then (True, r)
                                  else if c = CHR ''+'' then (False, r) else (False, s)
                       | [] \<Rightarrow> (False, []))
      in case parse_digits ds of
           None \<Rightarrow> 0
         | Some n \<Rightarrow> if neg then max (- int n) (- (2 ^ 63)) else min (int n) (2 ^ 63 - 1))"

definition splitKludge :: "(rune \<Rightarrow> rune) \<Rightarrow> string \<Rightarrow> string \<times> string" where
  "splitKludge up s =
     (let at_space = (case cut_at CHR '' '' s of
          None \<Rightarrow> (to_upper up s, trim_space []) | Some (name, value) \<Rightarrow> (to_upper up name, trim_space value))
      in case cut_at CHR '':'' s of
           Some (name, value) \<Rightarrow> if CHR '' '' \<notin> set name then (to_upper up name, trim_space value) else at_space
         | None \<Rightarrow> at_space)"

definition applyINTL :: "(rune \<Rightarrow> rune) \<Rightarrow> string \<Rightarrow> Message \<Rightarrow> Message" where
  "applyINTL lo v m = (case fields_of v of
       [d, s] \<Rightarrow>
         (let m = (case ParseAddr lo d of None \<Rightarrow> m
                   | Some a \<Rightarrow> m\<lparr>Dest := (Dest m)\<lparr>Zone := Zone a, Net := Net a, Node := Node a\<rparr>\<rparr>)
          in case ParseAddr lo s of None \<Rightarrow> m
             | Some a \<Rightarrow> m\<lparr>Orig := (Orig m)\<lparr>Zone := Zone a, Net := Net a, Node := Node a\<rparr>\<rparr>)
     | _ \<Rightarrow> m)"

text \<open>\<open>strings.LastIndex\<close> and \<open>LastIndexByte\<close>.\<close>

fun last_index :: "string \<Rightarrow> string \<Rightarrow> nat option" where
  "last_index sub [] = (if sub = [] then Some 0 else None)"
| "last_index sub (c # s) = (case last_index sub s of
       Some i \<Rightarrow> Some (Suc i)
     | None \<Rightarrow> if prefix sub (c # s) then Some 0 else None)"

definition OriginAddr :: "(rune \<Rightarrow> rune) \<Rightarrow> string \<Rightarrow> Addr option" where
  "OriginAddr lo body = (case last_index '' * Origin:'' body of
       None \<Rightarrow> None
     | Some i \<Rightarrow>
         let line = takeWhile (\<lambda>c. c \<noteq> CHR 0x0A) (drop i body)
         in case (last_index ''('' line, last_index '')'' line) of
              (Some opn, Some cls) \<Rightarrow>
                if cls < opn then None else ParseAddr lo (take (cls - Suc opn) (drop (Suc opn) line))
            | _ \<Rightarrow> None)"

definition msgidAddr :: "(rune \<Rightarrow> rune) \<Rightarrow> string \<Rightarrow> Addr option" where
  "msgidAddr lo msgid = (case fields_of msgid of [a, b] \<Rightarrow> ParseAddr lo a | _ \<Rightarrow> None)"

section \<open>SEEN-BY and PATH\<close>

text \<open>One field: the net it states, if any, and the system it names, if it can be read.\<close>

definition net_field :: "int \<Rightarrow> string \<Rightarrow> int \<times> Net2D option" where
  "net_field net f =
     (let entry = (\<lambda>net nodePart. (net, case atoi nodePart of
            None \<Rightarrow> None
          | Some node \<Rightarrow> if net = 0 then None else Some \<lparr>n2_net = net, n2_node = node\<rparr>))
      in case cut_at CHR ''/'' f of
           None \<Rightarrow> entry net f
         | Some (n, node) \<Rightarrow> (case atoi n of None \<Rightarrow> (net, None) | Some v \<Rightarrow> entry v node))"

fun nets_loop :: "int \<Rightarrow> string list \<Rightarrow> Net2D list" where
  "nets_loop net [] = []"
| "nets_loop net (f # fs) =
     (case net_field net f of (net', e) \<Rightarrow> (case e of None \<Rightarrow> [] | Some n \<Rightarrow> [n]) @ nets_loop net' fs)"

definition appendNets :: "Net2D list \<Rightarrow> string \<Rightarrow> Net2D list" where
  "appendNets to s = to @ nets_loop 0 (fields_of s)"

fun format_loop :: "string \<Rightarrow> string list \<Rightarrow> string \<Rightarrow> int \<Rightarrow> Net2D list \<Rightarrow> string list" where
  "format_loop pre lines line net [] = (if line \<noteq> pre then lines @ [line] else lines)"
| "format_loop pre lines line net (n # ns) =
     (let full = itoa (n2_net n) @ ''/'' @ itoa (n2_node n);
          tok = (if n2_net n \<noteq> net then full else itoa (n2_node n))
      in if 79 < length line + 1 + length tok \<and> line \<noteq> pre
         then format_loop pre (lines @ [line]) (pre @ '' '' @ full) (n2_net n) ns
         else format_loop pre lines (line @ '' '' @ tok) (n2_net n) ns)"

definition FormatNets :: "string \<Rightarrow> Net2D list \<Rightarrow> string list" where
  "FormatNets pre nets = format_loop pre [] pre (-1) nets"

text \<open>Go orders by the differences of the numbers, which is the lexicographic order unless a
  difference leaves the 64-bit range. Equal entries are identical, so any sort gives the same.\<close>

definition net_key :: "Net2D \<Rightarrow> int \<times> int" where
  "net_key n = (n2_net n, n2_node n)"

definition SortNets :: "Net2D list \<Rightarrow> Net2D list" where
  "SortNets nets = remdups_adj (sort_key net_key nets)"

section \<open>Parsing a message\<close>

record parse_state =
  ps_msg :: Message
  ps_body :: "string list"
  ps_fmpt :: int
  ps_topt :: int

definition parse_kludge :: "(rune \<Rightarrow> rune) \<Rightarrow> (rune \<Rightarrow> rune) \<Rightarrow> string \<times> string \<Rightarrow> parse_state \<Rightarrow> parse_state" where
  "parse_kludge lo up kv st =
     (let (name, value) = kv; m = ps_msg st in
      if name = ''INTL'' then st\<lparr>ps_msg := applyINTL lo value m\<rparr>
      else if name = ''FMPT'' then st\<lparr>ps_fmpt := atoi_value value\<rparr>
      else if name = ''TOPT'' then st\<lparr>ps_topt := atoi_value value\<rparr>
      else if name = ''MSGID'' then st\<lparr>ps_msg := m\<lparr>MsgID := value\<rparr>\<rparr>
      else if name = ''REPLY'' then st\<lparr>ps_msg := m\<lparr>Reply := value\<rparr>\<rparr>
      else if name = ''CHRS'' \<or> name = ''CHARSET'' then
        (case ParseCHRS up value of None \<Rightarrow> st | Some cs \<Rightarrow> st\<lparr>ps_msg := m\<lparr>Charset := cs\<rparr>\<rparr>)
      else if name = ''TZUTC'' then st\<lparr>ps_msg := m\<lparr>TZUTC := value\<rparr>\<rparr>
      else if name = ''PATH'' then st\<lparr>ps_msg := m\<lparr>Path := appendNets (Path m) value\<rparr>\<rparr>
      else st\<lparr>ps_msg := m\<lparr>Kludges := Kludges m @ [\<lparr>kl_name = name, kl_value = value\<rparr>]\<rparr>\<rparr>)"

definition parse_line :: "(rune \<Rightarrow> rune) \<Rightarrow> (rune \<Rightarrow> rune) \<Rightarrow> string \<Rightarrow> parse_state \<Rightarrow> parse_state" where
  "parse_line lo up l st =
     (if l \<noteq> [] \<and> hd l = CHR 0x01 then parse_kludge lo up (splitKludge up (tl l)) st
      else if prefix ''SEEN-BY:'' l
      then st\<lparr>ps_msg := (ps_msg st)\<lparr>SeenBy := appendNets (SeenBy (ps_msg st)) (drop 8 l)\<rparr>\<rparr>
      else st\<lparr>ps_body := ps_body st @ [l]\<rparr>)"

definition start_message :: "PackedMessage \<Rightarrow> Addr \<Rightarrow> Addr \<Rightarrow> Charset \<Rightarrow> Message" where
  "start_message pm pktFrom pktTo defaultCS =
     \<lparr>Area = [], From = [], To = [], Subject = [], Date = ParseDate (DateTime pm),
      Orig = \<lparr>Zone = Zone pktFrom, Net = OrigNet pm, Node = OrigNode pm, Point = 0, aDomain = []\<rparr>,
      Dest = \<lparr>Zone = Zone pktTo, Net = DestNet pm, Node = DestNode pm, Point = 0, aDomain = []\<rparr>,
      Attr = pmAttr pm, MsgID = [], Reply = [], Charset = defaultCS, TZUTC = [], Body = [],
      SeenBy = [], Path = [], Kludges = []\<rparr>"

text \<open>Trailing lines of white space are dropped.\<close>

definition trim_body :: "string list \<Rightarrow> string list" where
  "trim_body ls = rev (dropWhile (\<lambda>l. trim_space l = []) (rev ls))"

definition finish_message :: "(rune \<Rightarrow> rune) \<Rightarrow> PackedMessage \<Rightarrow> parse_state \<Rightarrow> Message" where
  "finish_message lo pm st =
     (let m = ps_msg st;
          m = m\<lparr>Orig := (Orig m)\<lparr>Point := ps_fmpt st\<rparr>, Dest := (Dest m)\<lparr>Point := ps_topt st\<rparr>,
                From := trim_space (Decode (pmFrom pm) (Charset m)), To := trim_space (Decode (pmTo pm) (Charset m)),
                Subject := trim_space (Decode (pmSubject pm) (Charset m)),
                Body := Decode (join [CHR 0x0A] (trim_body (ps_body st))) (Charset m)\<rparr>
      in if Area m = [] then m
         else case OriginAddr lo (Body m) of
             Some a \<Rightarrow> m\<lparr>Orig := a\<rparr>
           | None \<Rightarrow> (case msgidAddr lo (MsgID m) of Some a \<Rightarrow> m\<lparr>Orig := a\<rparr> | None \<Rightarrow> m))"

definition ParseMessage ::
    "(rune \<Rightarrow> rune) \<Rightarrow> (rune \<Rightarrow> rune) \<Rightarrow> PackedMessage \<Rightarrow> Addr \<Rightarrow> Addr \<Rightarrow> Charset \<Rightarrow> Message" where
  "ParseMessage lo up pm pktFrom pktTo defaultCS =
     (let m = start_message pm pktFrom pktTo defaultCS;
          lines = split_on CHR 0x0D (replace_all [CHR 0x0A] [] (pmText pm));
          (m, lines) = (if prefix ''AREA:'' (hd lines)
                        then (m\<lparr>Area := to_upper up (trim_space (drop 5 (hd lines)))\<rparr>, tl lines) else (m, lines))
      in finish_message lo pm
           (fold (parse_line lo up) lines \<lparr>ps_msg = m, ps_body = [], ps_fmpt = 0, ps_topt = 0\<rparr>))"

section \<open>Packing a message\<close>

definition kludge :: "string \<Rightarrow> string \<Rightarrow> string" where
  "kludge name value = (if value = [] then [] else CHR 0x01 # name @ '': '' @ value @ [CHR 0x0D])"

definition addr3d :: "Addr \<Rightarrow> string" where
  "addr3d a = itoa (Zone a) @ '':'' @ itoa (Net a) @ ''/'' @ itoa (Node a)"

definition pack_text :: "Message \<Rightarrow> string" where
  "pack_text m =
     (if Area m \<noteq> [] then ''AREA:'' @ Area m @ [CHR 0x0D]
      else CHR 0x01 # ''INTL '' @ addr3d (Dest m) @ '' '' @ addr3d (Orig m) @ [CHR 0x0D] @
        (if Point (Orig m) \<noteq> 0 then CHR 0x01 # ''FMPT '' @ itoa (Point (Orig m)) @ [CHR 0x0D] else []) @
        (if Point (Dest m) \<noteq> 0 then CHR 0x01 # ''TOPT '' @ itoa (Point (Dest m)) @ [CHR 0x0D] else [])) @
     kludge ''MSGID'' (MsgID m) @ kludge ''REPLY'' (Reply m) @ kludge ''CHRS'' (CHRS (Charset m)) @ kludge ''TZUTC'' (TZUTC m) @
     concat (map (\<lambda>k. kludge (kl_name k) (kl_value k)) (Kludges m)) @
     Encode (replace_all [CHR 0x0A] [CHR 0x0D]
        (replace_all [CHR 0x0D] [CHR 0x0A] (replace_all [CHR 0x0D, CHR 0x0A] [CHR 0x0A] (Body m)))) (Charset m) @ [CHR 0x0D] @
     (if Area m \<noteq> []
      then concat (map (\<lambda>l. l @ [CHR 0x0D]) (FormatNets ''SEEN-BY:'' (SortNets (SeenBy m)))) @
           concat (map (\<lambda>l. l @ [CHR 0x0D]) (FormatNets (CHR 0x01 # ''PATH:'') (Path m)))
      else [])"

text \<open>\<open>zone\<close> is the offset of the location of \<open>m.Date\<close>; the zero time is 1 January of the year 1.\<close>

definition Pack :: "int \<Rightarrow> Message \<Rightarrow> PackedMessage" where
  "Pack zone m =
     \<lparr>OrigNode = Node (Orig m), OrigNet = Net (Orig m), DestNode = Node (Dest m), DestNet = Net (Dest m),
      pmAttr = Attr m, Cost = 0,
      DateTime = FormatDate (case Date m of Some t \<Rightarrow> (t, zone) | None \<Rightarrow> (go_date 1 1 1 0 0 0 0, 0)),
      pmTo = Encode (To m) (Charset m), pmFrom = Encode (From m) (Charset m), pmSubject = Encode (Subject m) (Charset m),
      pmText = pack_text m\<rparr>"

text \<open>\<open>TZUTC(t)\<close> for a time whose location is \<open>off\<close> seconds east.\<close>

definition TZUTC_of :: "int \<Rightarrow> string" where
  "TZUTC_of off = (let a = \<bar>off\<bar> in (if off < 0 then ''-'' else []) @ pad2 (a div 3600) @ pad2 (a mod 3600 div 60))"

definition EchoFooter :: "string \<Rightarrow> string \<Rightarrow> Addr \<Rightarrow> string" where
  "EchoFooter tear origin a =
     (let addr = '' ('' @ Addr_String a @ '')'';
          room = 79 - int (length '' * Origin: '') - int (length addr);
          origin = (if room < int (length (runes origin)) then of_runes (take (nat (max room 0)) (runes origin)) else origin)
      in ''--- '' @ tear @ [CHR 0x0A] @ '' * Origin: '' @ origin @ addr)"

section \<open>Routed netmail (route.go)\<close>

text \<open>\<open>at.UTC().Format("20060102.150405.UTC")\<close> for a year of four digits.\<close>

definition via_stamp :: "int \<Rightarrow> string" where
  "via_stamp at = (let w = wall (at, 0) in
     pad2 (wYear w div 100) @ pad2 (wYear w mod 100) @ pad2 (wMonth w) @ pad2 (wDay w) @ ''.'' @
     pad2 (wHour w) @ pad2 (wMinute w) @ pad2 (wSecond w) @ ''.UTC'')"

definition AddVia :: "Addr \<Rightarrow> int \<Rightarrow> string \<Rightarrow> PackedMessage \<Rightarrow> PackedMessage" where
  "AddVia by_addr at program pm =
     (let t = trim_right_bytes [NUL] (pmText pm);
          t = (if t \<noteq> [] \<and> last t \<noteq> CHR 0x0D then t @ [CHR 0x0D] else t)
      in pm\<lparr>pmText := t @ CHR 0x01 # ''Via '' @ Addr_String by_addr @ '' @'' @ via_stamp at @ '' '' @ program @ [CHR 0x0D]\<rparr>)"

definition IsNetmail :: "PackedMessage \<Rightarrow> bool" where
  "IsNetmail pm \<longleftrightarrow> \<not> prefix ''AREA:'' (pmText pm)"

section \<open>SEEN-BY and PATH lines read back\<close>

definition spaced :: "string list \<Rightarrow> string" where
  "spaced fs = concat (map (\<lambda>f. CHR '' '' # f) fs)"

lemma spaced_simps [simp]: "spaced [] = []" "spaced (f # fs) = CHR '' '' # f @ spaced fs" "spaced (fs @ gs) = spaced fs @ spaced gs"
  by (simp_all add: spaced_def)

lemma spaced_eq_Nil [simp]: "spaced fs = [] \<longleftrightarrow> fs = []"
  by (cases fs) simp_all

lemma fields_spaced: "list_all (\<lambda>f. f \<noteq> [] \<and> list_all word_char f) fs \<Longrightarrow> fields_of (spaced fs) = fs"
proof (induction fs)
  case (Cons f fs)
  then show ?case by (cases fs) (simp_all add: fields_space fields_word fields_word_space)
qed simp

definition net_after :: "int \<Rightarrow> string list \<Rightarrow> int" where
  "net_after net fs = fold (\<lambda>f n. fst (net_field n f)) fs net"

lemma nets_loop_append: "nets_loop net (fs @ gs) = nets_loop net fs @ nets_loop (net_after net fs) gs"
  by (induction fs arbitrary: net) (simp_all add: net_after_def split: prod.splits option.splits)

definition net_ok :: "Net2D \<Rightarrow> bool" where
  "net_ok n \<longleftrightarrow> 1 \<le> n2_net n \<and> n2_net n \<le> 65535 \<and> 0 \<le> n2_node n \<and> n2_node n \<le> 65535"

definition net_token :: "int \<Rightarrow> Net2D \<Rightarrow> string" where
  "net_token net n = (if n2_net n \<noteq> net then itoa (n2_net n) @ ''/'' @ itoa (n2_node n) else itoa (n2_node n))"

lemma word_digits: "0 \<le> i \<Longrightarrow> list_all word_char (itoa i)"
  using itoa_digits [of i] digit_ascii by (auto simp: list_all_iff word_char_def)

lemma net_token_word: "net_ok n \<Longrightarrow> net_token net n \<noteq> [] \<and> list_all word_char (net_token net n)"
  by (auto simp: net_token_def net_ok_def word_digits) (simp_all add: word_char_def is_ascii_def is_space_def byte_val_def)

lemma net_field_token:
  assumes "net_ok n" "net = net' \<or> n2_net n \<noteq> net"
  shows "net_field net' (net_token net n) = (n2_net n, Some n)"
proof -
  have r: "int_range (n2_net n)" "int_range (n2_node n)" using assms(1) by (auto simp: net_ok_def int_range_def)
  have no: "CHR ''/'' \<notin> set (itoa i)" if "0 \<le> i" for i
    using digit_notin [OF itoa_digits [OF that]] seps_not_digit by blast
  have "cut_at CHR ''/'' (itoa (n2_node n)) = None" using no assms(1) by (simp add: cut_at_none_iff net_ok_def)
  moreover have "cut_at CHR ''/'' (itoa (n2_net n) @ CHR ''/'' # itoa (n2_node n)) = Some (itoa (n2_net n), itoa (n2_node n))"
    using no assms(1) by (intro cut_at_append) (simp add: net_ok_def)
  ultimately show ?thesis using assms r by (auto simp: net_token_def net_field_def net_ok_def atoi_itoa Let_def)
qed

lemma length_nat_digits: "n < 10 ^ Suc k \<Longrightarrow> length (nat_digits n) \<le> Suc k"
proof (induction k arbitrary: n)
  case 0
  then show ?case by (subst nat_digits.simps) simp
next
  case (Suc k)
  then have "n div 10 < 10 ^ Suc k" by (simp add: less_mult_imp_div_less mult.commute)
  from Suc.IH [OF this] show ?case by (subst nat_digits.simps) simp
qed

lemma length_itoa16: "0 \<le> i \<Longrightarrow> i \<le> 65535 \<Longrightarrow> length (itoa i) \<le> 5"
  using length_nat_digits [of "nat i" 4] by (simp add: itoa_def)

lemma length_net_token: "net_ok n \<Longrightarrow> length (net_token net n) \<le> 11"
  using length_itoa16 [of "n2_net n"] length_itoa16 [of "n2_node n"] by (simp add: net_token_def net_ok_def)

definition read_nets :: "string \<Rightarrow> string list \<Rightarrow> Net2D list" where
  "read_nets pre lines = foldl (\<lambda>acc l. appendNets acc (drop (length pre) l)) [] lines"

lemma read_nets_concat: "foldl (\<lambda>acc l. appendNets acc (drop (length pre) l)) acc lines =
    acc @ concat (map (\<lambda>l. nets_loop 0 (fields_of (drop (length pre) l))) lines)"
  by (induction lines arbitrary: acc) (simp_all add: appendNets_def)

lemma format_loop_reads:
  assumes "list_all net_ok ns" "list_all (\<lambda>f. f \<noteq> [] \<and> list_all word_char f) fs"
    and "fs = [] \<and> net = -1 \<or> fs \<noteq> [] \<and> net_after 0 fs = net"
    and "length pre \<le> 60" "length pre + length (spaced fs) \<le> 79"
  shows "\<exists>new. format_loop pre lines (pre @ spaced fs) net ns = lines @ new \<and>
    concat (map (\<lambda>l. nets_loop 0 (fields_of (drop (length pre) l))) new) = nets_loop 0 fs @ ns \<and>
    list_all (\<lambda>l. prefix pre l \<and> length l \<le> 79) new"
  using assms
proof (induction ns arbitrary: lines fs net)
  case Nil
  then show ?case by (cases "fs = []") (auto simp: fields_spaced intro!: exI [of _ "[pre @ spaced fs]"])
next
  case (Cons n ns)
  have ok: "net_ok n" "list_all net_ok ns" using Cons.prems(1) by simp_all
  define tok where "tok = net_token net n"
  define full where "full = net_token (-1) n"
  have full: "full = itoa (n2_net n) @ ''/'' @ itoa (n2_node n)" using ok(1) by (simp add: full_def net_token_def net_ok_def)
  have w: "tok \<noteq> [] \<and> list_all word_char tok" "full \<noteq> [] \<and> list_all word_char full"
    using net_token_word [OF ok(1)] by (simp_all add: tok_def full_def)
  have len: "length tok \<le> 11" "length full \<le> 11" using length_net_token [OF ok(1)] by (simp_all add: tok_def full_def)
  have ff: "net_field k full = (n2_net n, Some n)" for k
    unfolding full_def using ok(1) by (intro net_field_token) (auto simp: net_ok_def)
  show ?case
  proof (cases "79 < length (pre @ spaced fs) + 1 + length tok \<and> fs \<noteq> []")
    case True
    have step: "format_loop pre lines (pre @ spaced fs) net (n # ns) =
        format_loop pre (lines @ [pre @ spaced fs]) (pre @ spaced [full]) (n2_net n) ns"
      using True by (auto simp: tok_def net_token_def full Let_def)
    from Cons.IH [OF ok(2), of "[full]" "n2_net n" "lines @ [pre @ spaced fs]"] obtain new where
      "format_loop pre (lines @ [pre @ spaced fs]) (pre @ spaced [full]) (n2_net n) ns = (lines @ [pre @ spaced fs]) @ new"
      "concat (map (\<lambda>l. nets_loop 0 (fields_of (drop (length pre) l))) new) = n # ns"
      "list_all (\<lambda>l. prefix pre l \<and> length l \<le> 79) new"
      using w(2) len Cons.prems(4) by (auto simp: net_after_def ff)
    then show ?thesis unfolding step using Cons.prems(2,5)
      by (intro exI [of _ "(pre @ spaced fs) # new"]) (simp add: fields_spaced)
  next
    case False
    have step: "format_loop pre lines (pre @ spaced fs) net (n # ns) =
        format_loop pre lines (pre @ spaced (fs @ [tok])) (n2_net n) ns"
      using False by (auto simp: tok_def net_token_def Let_def)
    have ft: "net_field (net_after 0 fs) tok = (n2_net n, Some n)"
      unfolding tok_def using Cons.prems(3) ok(1) by (intro net_field_token) (auto simp: net_ok_def)
    have "length pre + length (spaced (fs @ [tok])) \<le> 79" using False len Cons.prems(4) by auto
    moreover have "net_after 0 (fs @ [tok]) = n2_net n" using ft by (simp add: net_after_def)
    ultimately obtain new where
      "format_loop pre lines (pre @ spaced (fs @ [tok])) (n2_net n) ns = lines @ new"
      "concat (map (\<lambda>l. nets_loop 0 (fields_of (drop (length pre) l))) new) = nets_loop 0 (fs @ [tok]) @ ns"
      "list_all (\<lambda>l. prefix pre l \<and> length l \<le> 79) new"
      using Cons.IH [OF ok(2), of "fs @ [tok]" "n2_net n" lines] w(1) Cons.prems(2,4) by auto
    then show ?thesis unfolding step using ft by (auto simp: nets_loop_append)
  qed
qed

text \<open>
  The SEEN-BY and PATH lines of an echomail message carry their list of systems: for
  real net and node numbers, reading the lines that \<open>FormatNets\<close> writes, each on its own since
  every line restates its net, gives the list back in order with nothing lost at a line break,
  and no line is longer than the 79 columns the format allows.
\<close>

theorem FormatNets_roundtrip:
  assumes "list_all net_ok nets" "length pre \<le> 60"
  shows "read_nets pre (FormatNets pre nets) = nets \<and>
    list_all (\<lambda>l. prefix pre l \<and> length l \<le> 79) (FormatNets pre nets)"
  using format_loop_reads [OF assms(1), of "[]" "-1" pre "[]"] assms(2)
  by (auto simp: FormatNets_def read_nets_def read_nets_concat)

theorem FormatNets_roundtrip_witness:
  "read_nets ''SEEN-BY:'' (FormatNets ''SEEN-BY:'' [\<lparr>n2_net = 410, n2_node = 0\<rparr>, \<lparr>n2_net = 410, n2_node = 9\<rparr>, \<lparr>n2_net = 5030, n2_node = 1651\<rparr>]) =
    [\<lparr>n2_net = 410, n2_node = 0\<rparr>, \<lparr>n2_net = 410, n2_node = 9\<rparr>, \<lparr>n2_net = 5030, n2_node = 1651\<rparr>]"
  using FormatNets_roundtrip [of "[\<lparr>n2_net = 410, n2_node = 0\<rparr>, \<lparr>n2_net = 410, n2_node = 9\<rparr>, \<lparr>n2_net = 5030, n2_node = 1651\<rparr>]"
      "''SEEN-BY:''"]
  by (simp add: net_ok_def)

end
