(* ===== verification/FTN_Outbound.thy ===== *)
theory FTN_Outbound
  imports FTN_Packet
begin

text \<open>
  \<open>internal/ftn/bso.go\<close>: the Binkley-style outbound that the BBS shares with the mailer. The file
  system is a map from paths to contents, and an operation is the list of states it goes through,
  so that what the mailer can see at any moment is part of the model. Failing system calls are
  not modelled; a \<open>.bsy\<close> flag that exists is. Paths are for a clean \<open>Root\<close>.
\<close>

section \<open>Paths (bso.go)\<close>

datatype Flavour = Normal | Crash | Hold | DirectFlavour

record Outbound =
  Root :: string
  DefaultZone :: int

type_synonym filesystem = "string \<Rightarrow> string option"

text \<open>\<open>%0wx\<close> for a number that is not negative.\<close>

definition hex_char :: "nat \<Rightarrow> char" where
  "hex_char d = byte_of (if d < 10 then 48 + d else 87 + d)"

fun nat_hex :: "nat \<Rightarrow> string" where
  "nat_hex n = (if n < 16 then [hex_char n] else nat_hex (n div 16) @ [hex_char (n mod 16)])"

declare nat_hex.simps [simp del]

definition hex_pad :: "nat \<Rightarrow> int \<Rightarrow> string" where
  "hex_pad w n = replicate (w - length (nat_hex (nat n))) CHR ''0'' @ nat_hex (nat n)"

definition base :: "Outbound \<Rightarrow> Addr \<Rightarrow> string \<times> string" where
  "base ob a =
     (let dir = (if Zone a \<noteq> DefaultZone ob then Root ob @ ''.'' @ hex_pad 3 (Zone a) else Root ob);
          stem = hex_pad 4 (Net a) @ hex_pad 4 (Node a)
      in if IsPoint a then (dir @ ''/'' @ stem @ ''.pnt'', hex_pad 8 (Point a)) else (dir, stem))"

definition flavour_letter :: "Flavour \<Rightarrow> char" where
  "flavour_letter f = (case f of Normal \<Rightarrow> CHR ''o'' | Crash \<Rightarrow> CHR ''c'' | Hold \<Rightarrow> CHR ''h'' | DirectFlavour \<Rightarrow> CHR ''d'')"

definition PacketPath :: "Outbound \<Rightarrow> Addr \<Rightarrow> Flavour \<Rightarrow> string" where
  "PacketPath ob a f =
     (let (dir, stem) = base ob a
      in if f = Normal then dir @ ''/'' @ stem @ ''.out'' else dir @ ''/'' @ stem @ ''.'' @ [flavour_letter f] @ ''ut'')"

section \<open>Queueing\<close>

datatype queue_error = ErrBusy | ExistingPacket packet_error

text \<open>
  What one call does to the files: \<open>pid\<close> goes into the flag, \<open>tmp\<close> is the name \<open>CreateTemp\<close> picks,
  \<open>part\<close> how much of the new packet is written at the moment in between. The deferred removals
  of the temporary file (already renamed) and of the flag come last.
\<close>

definition bsy_path :: "Outbound \<Rightarrow> Addr \<Rightarrow> string" where
  "bsy_path ob dest = (let (dir, stem) = base ob dest in dir @ ''/'' @ stem @ ''.bsy'')"

definition Queue ::
    "(rune \<Rightarrow> rune) \<Rightarrow> go_time \<Rightarrow> string \<Rightarrow> string \<Rightarrow> nat \<Rightarrow> Outbound \<Rightarrow> Addr \<Rightarrow> Flavour \<Rightarrow> Packet \<Rightarrow> PackedMessage list \<Rightarrow>
     filesystem \<Rightarrow> (queue_error + unit) \<times> filesystem list" where
  "Queue up now pid tmp part ob dest f header msgs fs =
     (let bsy = bsy_path ob dest; path = PacketPath ob dest f in
      if fs bsy \<noteq> None then (Inl ErrBusy, [fs])
      else let locked = fs(bsy \<mapsto> pid) in
      case (case locked path of
              None \<Rightarrow> Inr header
            | Some data \<Rightarrow> (case ReadPacket data of (Some p, None) \<Rightarrow> Inr p | (_, Some e) \<Rightarrow> Inl e | (None, None) \<Rightarrow> Inl ShortHeader)) of
        Inl e \<Rightarrow> (Inl (ExistingPacket e), [fs, locked, locked(bsy := None)])
      | Inr pkt \<Rightarrow>
          let bytes = WriteTo up now (pkt\<lparr>Messages := Messages pkt @ msgs\<rparr>);
              half = locked(tmp \<mapsto> take part bytes);
              written = locked(tmp \<mapsto> bytes);
              renamed = (written(tmp := None))(path \<mapsto> bytes)
          in (Inr (), [fs, locked, half, written, renamed, renamed(bsy := None)]))"

section \<open>What the mailer sees\<close>

lemma PacketPath_last: "last (PacketPath ob a f) = CHR ''t''"
  by (simp add: PacketPath_def split: prod.splits)

lemma bsy_path_last: "last (bsy_path ob a) = CHR ''y''"
  by (simp add: bsy_path_def split: prod.splits)

lemma path_ne_bsy: "PacketPath ob a f \<noteq> bsy_path ob b"
  using PacketPath_last [of ob a f] bsy_path_last [of ob b] by auto

definition queued :: "filesystem \<Rightarrow> string \<Rightarrow> Packet \<Rightarrow> Packet option" where
  "queued fs path header = (case fs path of
       None \<Rightarrow> Some header
     | Some data \<Rightarrow> (case ReadPacket data of (Some p, None) \<Rightarrow> Some p | _ \<Rightarrow> None))"

lemma queued_fits:
  assumes "queued fs path header = Some pkt" "list_all text_fits (Messages header)"
  shows "list_all text_fits (Messages pkt)"
proof (cases "fs path")
  case (Some data)
  then have "ReadPacket data = (Some pkt, None)" using assms(1) by (auto simp: queued_def split: prod.splits option.splits)
  with ReadPacket_limits [of data] show ?thesis
    by (auto simp: list_all_iff read_bounds_def text_fits_def intro: order_trans [OF length_filter_le])
qed (use assms in \<open>auto simp: queued_def\<close>)

text \<open>What a call does, when what is already queued can be read.\<close>

lemma Queue_run:
  fixes ob dest f
  defines "path \<equiv> PacketPath ob dest f" and "bsy \<equiv> bsy_path ob dest"
  assumes old: "queued fs path header = Some pkt"
  shows "Queue up now pid tmp part ob dest f header msgs fs =
     (if fs bsy \<noteq> None then (Inl ErrBusy, [fs])
      else let bytes = WriteTo up now (pkt\<lparr>Messages := Messages pkt @ msgs\<rparr>); locked = fs(bsy \<mapsto> pid);
               renamed = ((locked(tmp \<mapsto> bytes))(tmp := None))(path \<mapsto> bytes)
           in (Inr (), [fs, locked, locked(tmp \<mapsto> take part bytes), locked(tmp \<mapsto> bytes), renamed, renamed(bsy := None)]))"
proof -
  have ne: "path \<noteq> bsy" unfolding path_def bsy_def by (rule path_ne_bsy)
  have load: "(case (fs(bsy \<mapsto> pid)) path of None \<Rightarrow> Inr header
      | Some data \<Rightarrow> (case ReadPacket data of (Some p, None) \<Rightarrow> Inr p | (_, Some e) \<Rightarrow> Inl e | (None, None) \<Rightarrow> Inl ShortHeader)) = Inr pkt"
    using old ne by (auto simp: queued_def split: option.splits prod.splits)
  show ?thesis unfolding Queue_def Let_def path_def [symmetric] bsy_def [symmetric] load by simp
qed

lemma Queue_bytes:
  assumes "queued fs path header = Some pkt" "list_all text_fits (Messages header)" "list_all text_fits msgs"
  shows "\<exists>q. ReadPacket (WriteTo up now (pkt\<lparr>Messages := Messages pkt @ msgs\<rparr>)) = (Some q, None) \<and>
    Messages q = map canon_message (Messages pkt @ msgs)"
proof -
  have "list_all text_fits (Messages (pkt\<lparr>Messages := Messages pkt @ msgs\<rparr>))"
    using queued_fits [OF assms(1,2)] assms(3) by simp
  from ReadPacket_WriteTo_canon [OF this, of up now] show ?thesis by (auto simp: canon_packet_def)
qed

text \<open>
  Claim C21. Queueing mail for a system neither loses mail nor shows the mailer a half-written
  packet. When the node is not busy, the temporary name is fresh, what is already queued can be read and no
  new text is longer than the 1 MB a reader takes, \<open>Queue\<close> succeeds; afterwards the packet file reads back as the earlier
  messages followed by the new ones, each in the form packets have (names, subject and date clipped to their fields, NUL
  bytes removed), and every other file, the flag included, is as before. In every state
  on the way the packet file holds either its old contents or the complete new packet, and it
  changes only while the \<open>.bsy\<close> flag is held. When the node is busy nothing changes at all.
\<close>

theorem Queue_atomic:
  fixes ob dest f
  defines "path \<equiv> PacketPath ob dest f" and "bsy \<equiv> bsy_path ob dest"
  assumes tmp: "fs tmp = None" "tmp \<noteq> path" "tmp \<noteq> bsy"
    and old: "queued fs path header = Some pkt"
    and fits: "list_all text_fits (Messages header)" "list_all text_fits msgs"
  shows "case Queue up now pid tmp part ob dest f header msgs fs of (res, states) \<Rightarrow>
    (fs bsy \<noteq> None \<longrightarrow> res = Inl ErrBusy \<and> states = [fs]) \<and>
    (fs bsy = None \<longrightarrow> res = Inr () \<and>
       (\<exists>bytes q. last states = fs(path \<mapsto> bytes) \<and> ReadPacket bytes = (Some q, None) \<and>
          Messages q = map canon_message (Messages pkt @ msgs) \<and>
          (\<forall>s \<in> set states. s path = fs path \<or> s path = Some bytes)) \<and>
       successively (\<lambda>s s'. s path = s' path \<or> s bsy \<noteq> None \<and> s' bsy \<noteq> None) states)"
proof -
  have ne: "path \<noteq> bsy" unfolding path_def bsy_def by (rule path_ne_bsy)
  obtain q where q: "ReadPacket (WriteTo up now (pkt\<lparr>Messages := Messages pkt @ msgs\<rparr>)) = (Some q, None)"
      "Messages q = map canon_message (Messages pkt @ msgs)"
    using Queue_bytes [OF old fits] by blast
  note run = Queue_run [OF old [unfolded path_def], of up now pid tmp part msgs, folded path_def bsy_def]
  have final: "fs bsy = None \<Longrightarrow> fs(tmp := None, path \<mapsto> b, bsy := None) = fs(path \<mapsto> b)" for b using tmp ne by auto
  show ?thesis using q ne tmp unfolding run by (auto simp: Let_def final)
qed

definition demo_outbound :: Outbound where
  "demo_outbound = \<lparr>Root = ''out'', DefaultZone = 2\<rparr>"

theorem Queue_atomic_witness:
  "\<exists>bytes q. last (snd (Queue id (0, 0) ''1'' ''t'' 7 demo_outbound (pkTo demo_packet) Normal
      (demo_packet\<lparr>Messages := []\<rparr>) [demo_packed] (\<lambda>_. None))) = [PacketPath demo_outbound (pkTo demo_packet) Normal \<mapsto> bytes] \<and>
    ReadPacket bytes = (Some q, None) \<and> Messages q = [canon_message demo_packed]"
proof -
  have "''t'' \<noteq> PacketPath demo_outbound a Normal" "''t'' \<noteq> bsy_path demo_outbound a" for a
    by (auto simp: PacketPath_def bsy_path_def base_def demo_outbound_def Let_def split: prod.splits if_splits)
  moreover have "list_all text_fits [demo_packed]"
    by (simp add: demo_packed_def text_fits_def maxMessageText_def NUL_def)
  ultimately show ?thesis
    using Queue_atomic [of "\<lambda>_. None" "''t''" demo_outbound "pkTo demo_packet" Normal "demo_packet\<lparr>Messages := []\<rparr>"
        "demo_packet\<lparr>Messages := []\<rparr>" "[demo_packed]" id "(0, 0)" "''1''" 7]
    by (auto simp: queued_def split: prod.splits)
qed

end
