(* ===== verification/Go_Path.thy ===== *)
theory Go_Path
  imports Go_Strings
begin

text \<open>
  What the program uses of Go's \<open>path/filepath\<close> on Unix, and \<open>strings.EqualFold\<close>. \<open>path_Clean\<close> works
  on the elements of a path; the lemmas say what joining a directory and a plain name gives.
\<close>

definition slash :: char where "slash = CHR ''/''"

text \<open>The stack of elements, the last one first.\<close>

fun clean_step :: "bool \<Rightarrow> string \<Rightarrow> string list \<Rightarrow> string list" where
  "clean_step rooted c st =
     (if c = [] \<or> c = ''.'' then st
      else if c = ''..'' then
        (case st of [] \<Rightarrow> if rooted then [] else [''..''] | d # r \<Rightarrow> if d = ''..'' then ''..'' # st else r)
      else c # st)"

declare clean_step.simps [simp del]

definition rooted :: "string \<Rightarrow> bool" where
  "rooted p \<longleftrightarrow> p \<noteq> [] \<and> hd p = slash"

definition clean_elems :: "string \<Rightarrow> string list" where
  "clean_elems p = rev (fold (clean_step (rooted p)) (split_on slash p) [])"

definition show_path :: "bool \<Rightarrow> string list \<Rightarrow> string" where
  "show_path r es = (if r then slash # join [slash] es else if es = [] then ''.'' else join [slash] es)"

definition path_Clean :: "string \<Rightarrow> string" where
  "path_Clean p = show_path (rooted p) (clean_elems p)"

definition path_Join :: "string list \<Rightarrow> string" where
  "path_Join ps = (let ps = filter (\<lambda>p. p \<noteq> []) ps in if ps = [] then [] else path_Clean (join [slash] ps))"

text \<open>Everything up to and including the last slash, and what follows it.\<close>

definition path_Split :: "string \<Rightarrow> string \<times> string" where
  "path_Split p = (rev (dropWhile (\<lambda>c. c \<noteq> slash) (rev p)), rev (takeWhile (\<lambda>c. c \<noteq> slash) (rev p)))"

definition path_Dir :: "string \<Rightarrow> string" where
  "path_Dir p = path_Clean (fst (path_Split p))"

definition path_Base :: "string \<Rightarrow> string" where
  "path_Base p =
     (if p = [] then ''.''
      else let q = trim_right_bytes [slash] p in if q = [] then [slash] else snd (path_Split q))"

text \<open>From the last dot of the last element; empty when there is none.\<close>

definition path_Ext :: "string \<Rightarrow> string" where
  "path_Ext p = (let b = snd (path_Split p) in
     if CHR ''.'' \<in> set b then CHR ''.'' # rev (takeWhile (\<lambda>c. c \<noteq> CHR ''.'') (rev b)) else [])"

text \<open>\<open>None\<close> is the error; the paths are compared element by element.\<close>

fun rel_elems :: "string list \<Rightarrow> string list \<Rightarrow> string list option" where
  "rel_elems (b # bs) (t # ts) =
     (if b = t then rel_elems bs ts
      else if b = ''..'' then None else Some (replicate (length (b # bs)) ''..'' @ t # ts))"
| "rel_elems [] ts = Some ts"
| "rel_elems (b # bs) [] = (if b = ''..'' then None else Some (replicate (length (b # bs)) ''..''))"

definition path_Rel :: "string \<Rightarrow> string \<Rightarrow> string option" where
  "path_Rel base targ =
     (if rooted base \<noteq> rooted targ then None
      else map_option (show_path False) (rel_elems (clean_elems base) (clean_elems targ)))"

text \<open>\<open>strings.EqualFold\<close>. \<open>fo\<close> gives a character beyond ASCII the first of the characters that
  differ from it only by case.\<close>

definition fold_rune :: "(rune \<Rightarrow> rune) \<Rightarrow> rune \<Rightarrow> rune" where
  "fold_rune fo r = (if r < 0x80 then ascii_lower r else fo r)"

definition equal_fold :: "(rune \<Rightarrow> rune) \<Rightarrow> string \<Rightarrow> string \<Rightarrow> bool" where
  "equal_fold fo s t \<longleftrightarrow> map (fold_rune fo) (runes s) = map (fold_rune fo) (runes t)"

lemma equal_fold_refl [simp]: "equal_fold fo s s"
  by (simp add: equal_fold_def)

section \<open>Plain names\<close>

definition plain_name :: "string \<Rightarrow> bool" where
  "plain_name n \<longleftrightarrow> n \<noteq> [] \<and> slash \<notin> set n \<and> n \<noteq> ''.'' \<and> n \<noteq> ''..''"

lemma clean_step_plain: "plain_name n \<Longrightarrow> clean_step r n st = n # st"
  by (simp add: clean_step.simps plain_name_def)

lemma rooted_Join: "d \<noteq> [] \<Longrightarrow> rooted (d @ slash # n) = rooted d"
  by (cases d) (auto simp: rooted_def)

lemma clean_elems_Join:
  assumes "d \<noteq> []" "plain_name n"
  shows "clean_elems (d @ slash # n) = clean_elems d @ [n]"
proof -
  have split: "split_on slash (a @ slash # n) = split_on slash a @ [n]" for a
    using assms(2) split_on_no_sep [of slash n] by (induction a) (auto simp: plain_name_def split: list.splits)
  show ?thesis
    using assms by (simp add: clean_elems_def split rooted_Join clean_step_plain)
qed

text \<open>A stack that cleaning leaves as it is.\<close>

fun cleaned :: "bool \<Rightarrow> string list \<Rightarrow> bool" where
  "cleaned r [] = True"
| "cleaned r (e # st) \<longleftrightarrow> e \<noteq> [] \<and> e \<noteq> ''.'' \<and> slash \<notin> set e \<and> cleaned r st \<and>
     (e = ''..'' \<longrightarrow> \<not> r \<and> list_all ((=) ''..'') st)"

lemma clean_step_cleaned: "cleaned r st \<Longrightarrow> slash \<notin> set c \<Longrightarrow> cleaned r (clean_step r c st)"
  by (cases st) (auto simp: clean_step.simps slash_def)

lemma fold_clean_cleaned:
  "cleaned r st \<Longrightarrow> \<forall>c \<in> set cs. slash \<notin> set c \<Longrightarrow> cleaned r (fold (clean_step r) cs st)"
  by (induction cs arbitrary: st) (auto intro: clean_step_cleaned)

lemma clean_elems_cleaned: "cleaned (rooted p) (rev (clean_elems p))"
  using fold_clean_cleaned [of "rooted p" "[]" "split_on slash p"] split_on_pieces [of _ slash p]
  by (auto simp: clean_elems_def)

lemma fold_clean_same: "cleaned r st \<Longrightarrow> fold (clean_step r) (rev st) [] = st"
proof (induction st)
  case (Cons e st)
  then have "clean_step r e st = e # st" by (cases st) (auto simp: clean_step.simps)
  with Cons show ?case by simp
qed simp

lemma cleaned_no_slash: "cleaned r st \<Longrightarrow> e \<in> set st \<Longrightarrow> slash \<notin> set e \<and> e \<noteq> []"
  by (induction st) auto

lemma clean_elems_show:
  assumes "cleaned r (rev es)"
  shows "rooted (show_path r es) = r \<and> clean_elems (show_path r es) = es"
proof -
  have no: "slash \<notin> set e \<and> e \<noteq> []" if "e \<in> set es" for e using cleaned_no_slash [OF assms] that by simp
  have split: "es \<noteq> [] \<Longrightarrow> split_on slash (join [slash] es) = es" using no by (intro split_join) auto
  have skip: "clean_step b [] [] = []" for b by (simp add: clean_step.simps)
  have root: "rooted (show_path r es) = r"
  proof (cases es)
    case (Cons e es')
    then have "join [slash] es \<noteq> []" "hd (join [slash] es) = hd e" using no [of e] by (cases es'; auto)+
    moreover have "hd e \<noteq> slash" using no [of e] Cons by (metis hd_in_set list.set_intros(1))
    ultimately show ?thesis using Cons by (auto simp: show_path_def rooted_def)
  qed (auto simp: show_path_def rooted_def slash_def)
  have "fold (clean_step r) (split_on slash (show_path r es)) [] = rev es"
    using fold_clean_same [OF assms] split
    by (cases es) (auto simp: show_path_def skip clean_step.simps slash_def)
  with root show ?thesis by (simp add: clean_elems_def)
qed

lemma clean_elems_Clean [simp]:
  "clean_elems (path_Clean p) = clean_elems p" "rooted (path_Clean p) = rooted p"
  using clean_elems_show [OF clean_elems_cleaned [of p]] by (simp_all add: path_Clean_def)

lemma path_Clean_idem [simp]: "path_Clean (path_Clean p) = path_Clean p"
  using clean_elems_Clean [of p] by (simp add: path_Clean_def [of "path_Clean p"]) (simp add: path_Clean_def)

lemma clean_elems_plain: "plain_name n \<Longrightarrow> clean_elems n = [n] \<and> \<not> rooted n"
proof -
  assume n: "plain_name n"
  then have "\<not> rooted n" by (metis hd_in_set plain_name_def rooted_def)
  with n split_on_no_sep [of slash n] show ?thesis by (simp add: clean_elems_def clean_step_plain) (simp add: plain_name_def clean_step_plain n)
qed

text \<open>A plain name joined to a directory is an entry of that directory.\<close>

lemma path_Join_plain:
  assumes "plain_name n"
  shows "clean_elems (path_Join [d, n]) = clean_elems d @ [n]" "rooted (path_Join [d, n]) = rooted d"
proof -
  have n: "n \<noteq> []" using assms by (simp add: plain_name_def)
  have "clean_elems (path_Join [d, n]) = clean_elems d @ [n] \<and> rooted (path_Join [d, n]) = rooted d"
  proof (cases "d = []")
    case True
    have "clean_elems [] = []" "\<not> rooted []" by (simp_all add: clean_elems_def clean_step.simps rooted_def)
    then show ?thesis using True n clean_elems_plain [OF assms] by (simp add: path_Join_def)
  next
    case False
    then have "path_Join [d, n] = path_Clean (d @ slash # n)" using n by (simp add: path_Join_def)
    then show ?thesis using assms False by (simp add: clean_elems_Join rooted_Join)
  qed
  then show "clean_elems (path_Join [d, n]) = clean_elems d @ [n]" "rooted (path_Join [d, n]) = rooted d" by simp_all
qed

lemma rel_elems_below: "rel_elems es (es @ ts) = Some ts"
  by (induction es) auto

lemma path_Rel_below:
  assumes "plain_name a" "plain_name b"
  shows "path_Rel d (path_Join [path_Join [d, a], b]) = Some (a @ slash # b)"
  using assms by (simp add: path_Rel_def path_Join_plain rel_elems_below show_path_def)

end
