(* ===== verification/FTN_Inbound.thy ===== *)
theory FTN_Inbound
  imports FTN_Message Go_Path
begin

text \<open>
  \<open>internal/ftn/inbound.go\<close>: what the mailer left in the inbound, a lone packet or a ZIP archive of
  packets, taken apart into messages. A callback of the code is a function on a state of the
  caller's that may return an error. What \<open>archive/zip\<close> makes of a file is the argument \<open>unzip\<close>:
  the members with their declared sizes and the bytes each one delivers. One damaged member does
  not keep the others from being read.
\<close>

definition maxPacketBytes :: nat where "maxPacketBytes = 16 * 2 ^ 20"
definition maxBundleBytes :: nat where "maxBundleBytes = 256 * 2 ^ 20"

record NamedPacket =
  np_name :: string
  np_pkt :: Packet

record zip_member =
  zm_name :: string
  zm_size :: nat
  zm_data :: "string option" \<comment> \<open>\<open>None\<close>: it cannot be opened or unpacked\<close>

datatype inbound_error = NoSuchFile | TooLarge nat | ShortFile | NotPacket packet_error | BadZip
  | BadMember string | MemberNotPacket string packet_error

datatype 'e each_error = FileErr inbound_error | CallErr 'e

type_synonym ('a, 'e, 's) callback = "'a \<Rightarrow> 's \<Rightarrow> 'e option \<times> 's"

text \<open>A packet is only taken when all of it could be read.\<close>

definition whole_packet :: "string \<Rightarrow> packet_error + Packet" where
  "whole_packet data = (case ReadPacket (take maxPacketBytes data) of
       (Some p, None) \<Rightarrow> Inr p
     | (_, Some e) \<Rightarrow> Inl e
     | (None, None) \<Rightarrow> Inl ShortHeader)"

definition zip_magic :: string where
  "zip_magic = [CHR ''P'', CHR ''K'', CHR 0x03, CHR 0x04]"

definition wanted_member :: "(rune \<Rightarrow> rune) \<Rightarrow> zip_member \<Rightarrow> bool" where
  "wanted_member fo zf \<longleftrightarrow> equal_fold fo (path_Ext (zm_name zf)) ''.pkt'' \<and> zm_size zf \<le> maxPacketBytes"

fun members_loop ::
    "(rune \<Rightarrow> rune) \<Rightarrow> string \<Rightarrow> (NamedPacket, 'e, 's) callback \<Rightarrow> nat \<Rightarrow> inbound_error option \<Rightarrow> zip_member list \<Rightarrow> 's \<Rightarrow>
     'e each_error option \<times> 's" where
  "members_loop fo name fn read lastErr [] s =
     (if read = 0 then map_option FileErr lastErr else None, s)"
| "members_loop fo name fn read lastErr (zf # zfs) s =
     (if \<not> wanted_member fo zf then members_loop fo name fn read lastErr zfs s
      else case zm_data zf of
          None \<Rightarrow> members_loop fo name fn read (Some (BadMember (zm_name zf))) zfs s
        | Some data \<Rightarrow>
            (case whole_packet data of
               Inl e \<Rightarrow> members_loop fo name fn read (Some (MemberNotPacket (zm_name zf) e)) zfs s
             | Inr p \<Rightarrow>
                 (case fn \<lparr>np_name = path_Base name @ '':'' @ zm_name zf, np_pkt = p\<rparr> s of
                    (Some e, s) \<Rightarrow> (Some (CallErr e), s)
                  | (None, s) \<Rightarrow> members_loop fo name fn (read + 1) lastErr zfs s)))"

text \<open>\<open>file\<close> is the content of the file called \<open>name\<close>.\<close>

definition EachPacket ::
    "(rune \<Rightarrow> rune) \<Rightarrow> (string \<Rightarrow> zip_member list option) \<Rightarrow> string \<Rightarrow> string option \<Rightarrow> (NamedPacket, 'e, 's) callback \<Rightarrow> 's \<Rightarrow>
     'e each_error option \<times> 's" where
  "EachPacket fo unzip name file fn s = (case file of
       None \<Rightarrow> (Some (FileErr NoSuchFile), s)
     | Some data \<Rightarrow>
         if maxBundleBytes < length data then (Some (FileErr (TooLarge maxBundleBytes)), s)
         else if length data < 4 then (Some (FileErr ShortFile), s)
         else if take 4 data \<noteq> zip_magic then
           if maxPacketBytes < length data then (Some (FileErr (TooLarge maxPacketBytes)), s)
           else (case whole_packet data of
                   Inl e \<Rightarrow> (Some (FileErr (NotPacket e)), s)
                 | Inr p \<Rightarrow> (case fn \<lparr>np_name = path_Base name, np_pkt = p\<rparr> s of
                     (e, s) \<Rightarrow> (map_option CallErr e, s)))
         else (case unzip data of
                 None \<Rightarrow> (Some (FileErr BadZip), s)
               | Some zfs \<Rightarrow> members_loop fo name fn 0 None zfs s))"

definition ReadPackets ::
    "(rune \<Rightarrow> rune) \<Rightarrow> (string \<Rightarrow> zip_member list option) \<Rightarrow> string \<Rightarrow> string option \<Rightarrow> unit each_error option \<times> NamedPacket list" where
  "ReadPackets fo unzip name file = EachPacket fo unzip name file (\<lambda>np out. (None, out @ [np])) []"

text \<open>A callback over a list, up to its first error.\<close>

fun each_of :: "('a, 'e, 's) callback \<Rightarrow> 'a list \<Rightarrow> 's \<Rightarrow> 'e option \<times> 's" where
  "each_of fn [] s = (None, s)"
| "each_of fn (x # xs) s = (case fn x s of (Some e, s) \<Rightarrow> (Some e, s) | (None, s) \<Rightarrow> each_of fn xs s)"

text \<open>\<open>lo\<close> and \<open>up\<close> are the Unicode case tables beyond ASCII.\<close>

definition packet_mail :: "(rune \<Rightarrow> rune) \<Rightarrow> (rune \<Rightarrow> rune) \<Rightarrow> Packet \<Rightarrow> Message list" where
  "packet_mail lo up p = map (\<lambda>pm. ParseMessage lo up pm (pkFrom p) (pkTo p) (DefaultCharset (pkFrom p))) (Messages p)"

definition EachMessage ::
    "(rune \<Rightarrow> rune) \<Rightarrow> (rune \<Rightarrow> rune) \<Rightarrow> (rune \<Rightarrow> rune) \<Rightarrow> (string \<Rightarrow> zip_member list option) \<Rightarrow> string \<Rightarrow> string option \<Rightarrow>
     (Message, 'e, 's) callback \<Rightarrow> 's \<Rightarrow> 'e each_error option \<times> 's" where
  "EachMessage lo up fo unzip name file fn =
     EachPacket fo unzip name file (\<lambda>np. each_of fn (packet_mail lo up (np_pkt np)))"

definition MessagesInFile ::
    "(rune \<Rightarrow> rune) \<Rightarrow> (rune \<Rightarrow> rune) \<Rightarrow> (rune \<Rightarrow> rune) \<Rightarrow> (string \<Rightarrow> zip_member list option) \<Rightarrow> string \<Rightarrow> string option \<Rightarrow>
     unit each_error option \<times> Message list" where
  "MessagesInFile lo up fo unzip name file =
     EachMessage lo up fo unzip name file (\<lambda>m out. (None, out @ [m])) []"

definition IsMailBundle :: "(rune \<Rightarrow> rune) \<Rightarrow> string \<Rightarrow> bool" where
  "IsMailBundle lo name =
     (let ext = to_lower lo (path_Ext (path_Base name)) in
      ext = ''.pkt'' \<or>
      length ext = 4 \<and> take 2 (drop 1 ext) \<in> set [''su'', ''mo'', ''tu'', ''we'', ''th'', ''fr'', ''sa''] \<and>
      (let c = byte_val (ext ! 3) in 48 \<le> c \<and> c \<le> 57 \<or> 97 \<le> c \<and> c \<le> 122))"

section \<open>The messages of a file\<close>

text \<open>The packets that a file holds and that can be read, in order.\<close>

definition member_packet :: "(rune \<Rightarrow> rune) \<Rightarrow> zip_member \<Rightarrow> Packet option" where
  "member_packet fo zf =
     (if wanted_member fo zf
      then case zm_data zf of None \<Rightarrow> None | Some data \<Rightarrow> (case whole_packet data of Inl e \<Rightarrow> None | Inr p \<Rightarrow> Some p)
      else None)"

definition file_packets :: "(rune \<Rightarrow> rune) \<Rightarrow> (string \<Rightarrow> zip_member list option) \<Rightarrow> string \<Rightarrow> Packet list" where
  "file_packets fo unzip data =
     (if maxBundleBytes < length data \<or> length data < 4 then []
      else if take 4 data \<noteq> zip_magic then
        (if maxPacketBytes < length data then [] else case whole_packet data of Inl e \<Rightarrow> [] | Inr p \<Rightarrow> [p])
      else case unzip data of None \<Rightarrow> [] | Some zfs \<Rightarrow> List.map_filter (member_packet fo) zfs)"

definition file_mail ::
    "(rune \<Rightarrow> rune) \<Rightarrow> (rune \<Rightarrow> rune) \<Rightarrow> (rune \<Rightarrow> rune) \<Rightarrow> (string \<Rightarrow> zip_member list option) \<Rightarrow> string \<Rightarrow> Message list" where
  "file_mail lo up fo unzip data = concat (map (packet_mail lo up) (file_packets fo unzip data))"

lemma each_of_append:
  "each_of fn (xs @ ys) s = (case each_of fn xs s of (Some e, s) \<Rightarrow> (Some e, s) | (None, s) \<Rightarrow> each_of fn ys s)"
  by (induction xs arbitrary: s) (auto split: prod.splits option.splits)

text \<open>What every call of the callback keeps is kept.\<close>

lemma each_of_keeps:
  "I s \<Longrightarrow> (\<And>x s. x \<in> set xs \<Longrightarrow> I s \<Longrightarrow> I (snd (fn x s))) \<Longrightarrow> I (snd (each_of fn xs s))"
proof (induction xs arbitrary: s)
  case (Cons x xs)
  obtain e s' where run: "fn x s = (e, s')" by fastforce
  with Cons.prems have "I s'" by (metis list.set_intros(1) snd_conv)
  with Cons run show ?case by (cases e) auto
qed simp

text \<open>Whatever else happens, the callback runs over the messages of the file in order and nothing
  else, and an error of the callback ends the reading.\<close>

definition same_run :: "'e each_error option \<times> 's \<Rightarrow> 'e option \<times> 's \<Rightarrow> bool" where
  "same_run r q \<longleftrightarrow> snd r = snd q \<and> (\<forall>c. fst r = Some (CallErr c) \<longleftrightarrow> fst q = Some c)"

lemma members_loop_skip:
  assumes "member_packet fo zf = None"
  shows "\<exists>le. members_loop fo name fn read lastErr (zf # zfs) s = members_loop fo name fn read le zfs s"
proof (cases "wanted_member fo zf \<and> zm_data zf \<noteq> None")
  case True
  then obtain data e where "zm_data zf = Some data" "whole_packet data = Inl e"
    using assms by (auto simp: member_packet_def split: sum.splits)
  with True show ?thesis by auto
qed auto

lemma members_loop_mail:
  "same_run (members_loop fo name (\<lambda>np. each_of fn (packet_mail lo up (np_pkt np))) read lastErr zfs s)
     (each_of fn (concat (map (packet_mail lo up) (List.map_filter (member_packet fo) zfs))) s)"
proof (induction zfs arbitrary: read lastErr s)
  case (Cons zf zfs)
  show ?case
  proof (cases "member_packet fo zf")
    case None
    obtain le where "members_loop fo name (\<lambda>np. each_of fn (packet_mail lo up (np_pkt np))) read lastErr (zf # zfs) s =
        members_loop fo name (\<lambda>np. each_of fn (packet_mail lo up (np_pkt np))) read le zfs s"
      using members_loop_skip [OF None, of name _ read lastErr zfs s] by blast
    with None Cons [of read le s] show ?thesis by (simp add: map_filter_simps)
  next
    case (Some p)
    then obtain data where "wanted_member fo zf" "zm_data zf = Some data" "whole_packet data = Inr p"
      by (auto simp: member_packet_def split: if_splits option.splits sum.splits)
    with Some Cons show ?thesis
      by (auto simp: map_filter_simps each_of_append same_run_def split: prod.splits option.splits)
  qed
qed (auto simp: map_filter_simps same_run_def)

lemma EachMessage_mail:
  "same_run (EachMessage lo up fo unzip name (Some data) fn s) (each_of fn (file_mail lo up fo unzip data) s)"
  using members_loop_mail [of fo name fn lo up 0 None "the (unzip data)" s]
  by (cases "unzip data")
     (auto simp: EachMessage_def EachPacket_def file_mail_def file_packets_def same_run_def split: prod.splits option.splits sum.splits)

lemma each_of_collect: "each_of (\<lambda>m out. (None, out @ [m])) xs out = (None, out @ xs)"
  by (induction xs arbitrary: out) auto

lemma MessagesInFile_mail: "snd (MessagesInFile lo up fo unzip name (Some data)) = file_mail lo up fo unzip data"
  using EachMessage_mail [of lo up fo unzip name data "\<lambda>m out. (None :: unit option, out @ [m])" "[]"]
  by (simp add: MessagesInFile_def each_of_collect same_run_def)

end
