(* ===== verification/FTN_Spool.thy ===== *)
theory FTN_Spool
  imports FTN_Inbound Fido_Props "HOL-Library.AList"
begin

text \<open>
  The directories the tosser works on, and what it uses of Go's \<open>os\<close> package on them
  (\<open>internal/ftntoss/toss.go\<close> and \<open>tic.go\<close>). A directory is addressed by its cleaned path and lists
  its entries; a file in it is addressed by the directory and its name, which is what
  \<open>filepath.Join\<close> makes of a name without a slash. Calls fail where the entry is missing or a
  directory is in the way; failing hardware and permissions are not modelled. Renaming across
  file systems, which the code replaces by copying and removing, has the same result. Moving a
  file aside neither loses it nor touches another one.
\<close>

section \<open>Directories\<close>

datatype dirent = Folder | Plain string nanos \<comment> \<open>the content and the time of the last change\<close>

type_synonym folder = "(string \<times> dirent) list"
type_synonym disk = "string \<Rightarrow> folder option"
type_synonym place = "string \<times> string"

datatype os_error = NotExist | IsFolder

definition at_dir :: "disk \<Rightarrow> string \<Rightarrow> folder option" where
  "at_dir D dir = D (path_Clean dir)"

definition has_dir :: "disk \<Rightarrow> string \<Rightarrow> bool" where
  "has_dir D dir \<longleftrightarrow> at_dir D dir \<noteq> None"

definition stat :: "disk \<Rightarrow> place \<Rightarrow> dirent option" where
  "stat D p = (case at_dir D (fst p) of None \<Rightarrow> None | Some es \<Rightarrow> map_of es (snd p))"

text \<open>\<open>os.ReadDir\<close> sorts by name.\<close>

definition ReadDir :: "disk \<Rightarrow> string \<Rightarrow> os_error + folder" where
  "ReadDir D dir = (case at_dir D dir of None \<Rightarrow> Inl NotExist | Some es \<Rightarrow> Inr (sort_key fst es))"

definition MkdirAll :: "string \<Rightarrow> disk \<Rightarrow> disk" where
  "MkdirAll dir D = (if at_dir D dir = None then D(path_Clean dir \<mapsto> []) else D)"

definition read_file :: "disk \<Rightarrow> place \<Rightarrow> os_error + string" where
  "read_file D p = (case stat D p of None \<Rightarrow> Inl NotExist | Some Folder \<Rightarrow> Inl IsFolder | Some (Plain c t) \<Rightarrow> Inr c)"

definition put_entry :: "place \<Rightarrow> dirent \<Rightarrow> disk \<Rightarrow> disk" where
  "put_entry p e D = (case at_dir D (fst p) of None \<Rightarrow> D | Some es \<Rightarrow> D(path_Clean (fst p) \<mapsto> AList.update (snd p) e es))"

definition Remove :: "place \<Rightarrow> disk \<Rightarrow> disk" where
  "Remove p D = (case at_dir D (fst p) of None \<Rightarrow> D | Some es \<Rightarrow> D(path_Clean (fst p) \<mapsto> AList.delete (snd p) es))"

text \<open>A plain file takes the place of another one, never that of a directory.\<close>

definition Rename :: "place \<Rightarrow> place \<Rightarrow> disk \<Rightarrow> (os_error + unit) \<times> disk" where
  "Rename src dst D = (case stat D src of
       None \<Rightarrow> (Inl NotExist, D)
     | Some Folder \<Rightarrow> (Inl IsFolder, D)
     | Some e \<Rightarrow>
         if \<not> has_dir D (fst dst) then (Inl NotExist, D)
         else if stat D dst = Some Folder then (Inl IsFolder, D)
         else (Inr (), put_entry dst e (Remove src D)))"

section \<open>Moving a file aside (toss.go)\<close>

text \<open>\<open>now\<close> is the clock in nanoseconds.\<close>

definition aside_name :: "nanos \<Rightarrow> string \<Rightarrow> string \<Rightarrow> disk \<Rightarrow> string" where
  "aside_name now dir name D = (if stat D (dir, name) \<noteq> None then name @ ''.'' @ itoa now else name)"

definition moveAside :: "nanos \<Rightarrow> place \<Rightarrow> string \<Rightarrow> string \<Rightarrow> disk \<Rightarrow> (os_error + unit) \<times> disk" where
  "moveAside now src dir name D = Rename src (dir, aside_name now dir name D) D"

definition moveFile :: "place \<Rightarrow> place \<Rightarrow> disk \<Rightarrow> (os_error + unit) \<times> disk" where
  "moveFile src dst D = Rename src dst D"

definition fileSize :: "disk \<Rightarrow> place \<Rightarrow> nat" where
  "fileSize D p = (case stat D p of Some (Plain c t) \<Rightarrow> length c | _ \<Rightarrow> 0)"

section \<open>The state of a pass (toss.go)\<close>

record Stats =
  st_Files :: nat
  st_Stored :: nat
  st_Duplicate :: nat
  st_Skipped :: nat
  st_Failed :: nat
  st_Netmail :: nat
  st_FilesIn :: nat
  st_FilesBad :: nat

definition no_stats :: Stats where
  "no_stats = \<lparr>st_Files = 0, st_Stored = 0, st_Duplicate = 0, st_Skipped = 0, st_Failed = 0, st_Netmail = 0,
     st_FilesIn = 0, st_FilesBad = 0\<rparr>"

record spool =
  sp_db :: db
  sp_disk :: disk
  sp_stats :: Stats

datatype toss_error = OsErr os_error | StoreErr error | RelErr

section \<open>What the calls do\<close>

text \<open>Two spellings of one place.\<close>

definition same_place :: "place \<Rightarrow> place \<Rightarrow> bool" where
  "same_place p q \<longleftrightarrow> path_Clean (fst p) = path_Clean (fst q) \<and> snd p = snd q"

lemma same_place_refl [simp]: "same_place p p"
  by (simp add: same_place_def)

lemma same_place_sym: "same_place p q \<longleftrightarrow> same_place q p"
  by (auto simp: same_place_def)

lemma stat_same: "same_place p q \<Longrightarrow> stat D p = stat D q"
  by (auto simp: same_place_def stat_def at_dir_def split: option.splits)

lemma has_dir_simps [simp]:
  "has_dir (put_entry p e D) dir = has_dir D dir" "has_dir (Remove p D) dir = has_dir D dir"
  "has_dir (snd (Rename p q D)) dir = has_dir D dir" "has_dir (snd (moveAside now p d n D)) dir = has_dir D dir"
  "has_dir (snd (moveFile p q D)) dir = has_dir D dir"
  "has_dir (MkdirAll d D) dir \<longleftrightarrow> has_dir D dir \<or> path_Clean d = path_Clean dir"
  by (auto simp: has_dir_def put_entry_def Remove_def Rename_def moveAside_def moveFile_def MkdirAll_def at_dir_def
      split: option.splits dirent.splits)

lemma stat_put: "has_dir D (fst p) \<Longrightarrow> stat (put_entry p e D) q = (if same_place p q then Some e else stat D q)"
  by (auto simp: has_dir_def put_entry_def stat_def at_dir_def same_place_def update_conv' split: option.splits)

lemma stat_Remove: "stat (Remove p D) q = (if same_place p q then None else stat D q)"
  by (auto simp: Remove_def stat_def at_dir_def same_place_def delete_conv' split: option.splits)

lemma stat_MkdirAll [simp]: "stat (MkdirAll d D) p = stat D p"
  by (auto simp: MkdirAll_def stat_def at_dir_def)

lemma at_dir_MkdirAll: "at_dir D d = Some es \<Longrightarrow> at_dir (MkdirAll d' D) d = Some es"
  by (auto simp: MkdirAll_def at_dir_def)

lemma Rename_ok:
  assumes "stat D src = Some (Plain c t)" "has_dir D (fst dst)" "stat D dst \<noteq> Some Folder"
  shows "fst (Rename src dst D) = Inr ()"
    "stat (snd (Rename src dst D)) p =
      (if same_place dst p then Some (Plain c t) else if same_place src p then None else stat D p)"
  using assms by (auto simp: Rename_def stat_put stat_Remove)

lemma Rename_Inl: "fst (Rename src dst D) = Inl e \<Longrightarrow> snd (Rename src dst D) = D"
  by (auto simp: Rename_def split: option.splits dirent.splits if_splits)

lemma Rename_InrD:
  assumes "fst (Rename src dst D) = Inr u"
  obtains c t where "stat D src = Some (Plain c t)" "has_dir D (fst dst)" "stat D dst \<noteq> Some Folder"
  using assms by (auto simp: Rename_def split: option.splits dirent.splits if_splits)

text \<open>Renaming changes at most the two places it names.\<close>

lemma Rename_other:
  "\<not> same_place src p \<Longrightarrow> \<not> same_place dst p \<Longrightarrow> stat (snd (Rename src dst D)) p = stat D p"
  by (cases "fst (Rename src dst D)") (auto simp: Rename_Inl Rename_ok elim!: Rename_InrD)

section \<open>Entries of a directory\<close>

text \<open>A directory lists every name once.\<close>

definition disk_ok :: "disk \<Rightarrow> bool" where
  "disk_ok D \<longleftrightarrow> (\<forall>d es. D d = Some es \<longrightarrow> distinct (map fst es))"

lemma disk_ok_ops [simp]:
  "disk_ok D \<Longrightarrow> disk_ok (put_entry p e D)" "disk_ok D \<Longrightarrow> disk_ok (Remove p D)"
  "disk_ok D \<Longrightarrow> disk_ok (MkdirAll d D)"
  by (auto simp: disk_ok_def put_entry_def Remove_def MkdirAll_def at_dir_def distinct_update distinct_delete split: option.splits)

lemma disk_ok_Rename [simp]: "disk_ok D \<Longrightarrow> disk_ok (snd (Rename p q D))"
  by (auto simp: Rename_def split: option.splits dirent.splits)

lemma disk_ok_moves [simp]:
  "disk_ok D \<Longrightarrow> disk_ok (snd (moveAside now p d n D))" "disk_ok D \<Longrightarrow> disk_ok (snd (moveFile p q D))"
  by (simp_all add: moveAside_def moveFile_def)

lemma ReadDir_entries:
  assumes "disk_ok D" "ReadDir D dir = Inr es"
  shows "distinct (map fst es)" "(n, e) \<in> set es \<longleftrightarrow> stat D (dir, n) = Some e" "sorted (map fst es)"
proof -
  obtain fs where fs: "at_dir D dir = Some fs" "es = sort_key fst fs"
    using assms(2) by (auto simp: ReadDir_def split: option.splits)
  have d: "distinct (map fst fs)" using assms(1) fs(1) by (auto simp: disk_ok_def at_dir_def)
  have "distinct fs" "inj_on fst (set fs)" using d by (simp_all add: distinct_map)
  then show "distinct (map fst es)" by (simp add: fs(2) distinct_map)
  show "(n, e) \<in> set es \<longleftrightarrow> stat D (dir, n) = Some e" using d fs by (simp add: stat_def)
  show "sorted (map fst es)" using fs(2) by simp
qed

section \<open>Files moved aside are kept\<close>

text \<open>
  With a name that is free, in the directory or, when it is taken, with the clock appended, the
  file is found there afterwards and every other file is where it was.
\<close>

lemma moveAside_keeps:
  assumes src: "stat D (dir, name) = Some (Plain c t)" and to: "has_dir D aside" "path_Clean dir \<noteq> path_Clean aside"
    and free: "stat D (aside, name @ ''.'' @ itoa now) = None"
  shows "fst (moveAside now (dir, name) aside name D) = Inr ()"
    "stat (snd (moveAside now (dir, name) aside name D)) p =
      (if same_place (aside, aside_name now aside name D) p then Some (Plain c t)
       else if same_place (dir, name) p then None else stat D p)"
    "stat D (aside, aside_name now aside name D) = None"
proof -
  show "stat D (aside, aside_name now aside name D) = None" using free by (auto simp: aside_name_def)
  then have "stat D (aside, aside_name now aside name D) \<noteq> Some Folder" by simp
  with Rename_ok [OF src, of "(aside, aside_name now aside name D)"] to
  show "fst (moveAside now (dir, name) aside name D) = Inr ()"
    "stat (snd (moveAside now (dir, name) aside name D)) p =
      (if same_place (aside, aside_name now aside name D) p then Some (Plain c t)
       else if same_place (dir, name) p then None else stat D p)"
    by (simp_all add: moveAside_def)
qed

end
