(* ===== verification/FTN_Tic.thy ===== *)
theory FTN_Tic
  imports FTN_Spool "HOL-Library.Word"
begin

text \<open>
  \<open>internal/ftntoss/tic.go\<close>: file echoes. A TIC announces a file; when the file has arrived and its
  size and CRC-32 agree with the TIC it is put into its area, anything else is set aside. Nothing
  outside the directory of the area is written, whatever the TIC says. The CRC is computed at 32
  bits, bit by bit.
\<close>

unbundle bit_operations_syntax

definition maxTICBytes :: nat where "maxTICBytes = 64 * 2 ^ 10"
definition MaxFileBytes :: nat where "MaxFileBytes = 2 ^ 30"
definition ticWaitForFile :: nanos where "ticWaitForFile = 24 * 3600 * 1000000000"

record TIC =
  tic_Area :: string
  tic_AreaDesc :: string
  tic_File :: string
  tic_Replaces :: string
  tic_Origin :: string
  tic_From :: string
  tic_Desc :: "string list"
  tic_LDesc :: "string list"
  tic_Size :: int
  tic_CRC :: "32 word"
  tic_HasCRC :: bool

section \<open>Numbers and names\<close>

definition hex_val :: "char \<Rightarrow> nat option" where
  "hex_val c = (let v = byte_val c in
     if 48 \<le> v \<and> v \<le> 57 then Some (v - 48)
     else if 65 \<le> v \<and> v \<le> 70 then Some (v - 55)
     else if 97 \<le> v \<and> v \<le> 102 then Some (v - 87) else None)"

text \<open>\<open>strconv.ParseUint(s, 16, 32)\<close>; \<open>None\<close> is the error.\<close>

definition parse_hex32 :: "string \<Rightarrow> nat option" where
  "parse_hex32 s =
     (if s = [] \<or> \<not> list_all (\<lambda>c. hex_val c \<noteq> None) s then None
      else let n = foldl (\<lambda>n c. 16 * n + the (hex_val c)) 0 s in if n < 2 ^ 32 then Some n else None)"

definition tag_first :: "char \<Rightarrow> bool" where
  "tag_first c \<longleftrightarrow> (let v = byte_val c in 65 \<le> v \<and> v \<le> 90 \<or> 97 \<le> v \<and> v \<le> 122 \<or> 48 \<le> v \<and> v \<le> 57)"

definition safeAreaTag :: "string \<Rightarrow> bool" where
  "safeAreaTag s \<longleftrightarrow> (case s of [] \<Rightarrow> False
     | c # r \<Rightarrow> tag_first c \<and> length r \<le> 39 \<and> list_all (\<lambda>c. tag_first c \<or> c \<in> set ''._!-'') r)"

definition unsafeInName :: "string \<Rightarrow> bool" where
  "unsafeInName s = list_ex (\<lambda>c. c = slash \<or> byte_val c = 0x5C \<or> byte_val c < 0x20 \<or> byte_val c = 0x7F) s"

section \<open>Reading a TIC\<close>

datatype tic_error = TooLong | BadArea string | BadFileName string | NoCRC

text \<open>The lines \<open>bufio.Scanner\<close> finds: without the line feed and one carriage return before it. Its
  buffer holds 64 KB, as much as the reader is allowed to deliver, so only a TIC that fills it
  without any line feed is refused.\<close>

definition drop_cr :: "string \<Rightarrow> string" where
  "drop_cr l = (if l \<noteq> [] \<and> last l = CHR 0x0D then butlast l else l)"

definition scan_lines :: "string \<Rightarrow> (tic_error + string list)" where
  "scan_lines s =
     (if maxTICBytes \<le> length s \<and> CHR 0x0A \<notin> set s then Inl TooLong
      else let ls = split_on CHR 0x0A s in Inr (map drop_cr (if last ls = [] then butlast ls else ls)))"

text \<open>One line; \<open>lo\<close> and \<open>up\<close> are the case tables beyond ASCII.\<close>

definition tic_line :: "(rune \<Rightarrow> rune) \<Rightarrow> (rune \<Rightarrow> rune) \<Rightarrow> string \<Rightarrow> TIC \<Rightarrow> TIC" where
  "tic_line lo up l t =
     (let line = trim_left_bytes [CHR '' '', CHR 0x09] (trim_right_bytes [CHR 0x0D] l);
          (key, value) = (case cut_at CHR '' '' line of None \<Rightarrow> (line, []) | Some (k, v) \<Rightarrow> (k, v));
          value = trim_space value;
          key = to_lower lo key
      in if key = ''area'' then t\<lparr>tic_Area := to_upper up value\<rparr>
         else if key = ''areadesc'' then t\<lparr>tic_AreaDesc := value\<rparr>
         else if key = ''file'' then t\<lparr>tic_File := value\<rparr>
         else if key = ''lfile'' \<or> key = ''fullname'' then (if tic_File t = [] then t\<lparr>tic_File := value\<rparr> else t)
         else if key = ''replaces'' then t\<lparr>tic_Replaces := value\<rparr>
         else if key = ''origin'' then t\<lparr>tic_Origin := value\<rparr>
         else if key = ''from'' then t\<lparr>tic_From := value\<rparr>
         else if key = ''desc'' then t\<lparr>tic_Desc := tic_Desc t @ [value]\<rparr>
         else if key = ''ldesc'' then t\<lparr>tic_LDesc := tic_LDesc t @ [value]\<rparr>
         else if key = ''size'' then (case atoi value of None \<Rightarrow> t | Some n \<Rightarrow> t\<lparr>tic_Size := n\<rparr>)
         else if key = ''crc'' then
           (case parse_hex32 value of None \<Rightarrow> t | Some n \<Rightarrow> t\<lparr>tic_CRC := word_of_nat n, tic_HasCRC := True\<rparr>)
         else t)"

definition empty_tic :: TIC where
  "empty_tic = \<lparr>tic_Area = [], tic_AreaDesc = [], tic_File = [], tic_Replaces = [], tic_Origin = [], tic_From = [],
     tic_Desc = [], tic_LDesc = [], tic_Size = -1, tic_CRC = 0, tic_HasCRC = False\<rparr>"

definition ParseTIC :: "(rune \<Rightarrow> rune) \<Rightarrow> (rune \<Rightarrow> rune) \<Rightarrow> string \<Rightarrow> tic_error + TIC" where
  "ParseTIC lo up r = (case scan_lines (take maxTICBytes r) of
       Inl e \<Rightarrow> Inl e
     | Inr ls \<Rightarrow>
         let t = fold (tic_line lo up) ls empty_tic in
         if \<not> safeAreaTag (tic_Area t) then Inl (BadArea (tic_Area t))
         else if tic_File t = [] \<or> 255 < length (tic_File t) \<or> unsafeInName (tic_File t) \<or> prefix ''.'' (tic_File t)
         then Inl (BadFileName (tic_File t))
         else if \<not> tic_HasCRC t then Inl NoCRC
         else Inr t)"

definition IsTIC :: "(rune \<Rightarrow> rune) \<Rightarrow> string \<Rightarrow> bool" where
  "IsTIC fo name = equal_fold fo (path_Ext name) ''.tic''"

section \<open>Checking a file\<close>

text \<open>\<open>hash/crc32\<close> with the IEEE polynomial, reflected.\<close>

definition crc_bit :: "32 word \<Rightarrow> 32 word" where
  "crc_bit c = (if bit c 0 then drop_bit 1 c XOR 0xEDB88320 else drop_bit 1 c)"

definition crc_byte :: "32 word \<Rightarrow> char \<Rightarrow> 32 word" where
  "crc_byte c b = (crc_bit ^^ 8) (c XOR word_of_nat (byte_val b))"

definition crc32 :: "string \<Rightarrow> 32 word" where
  "crc32 s = NOT (foldl crc_byte (NOT 0) s)"

datatype file_error = FileTooLarge | WrongSize nat int | WrongCRC "32 word" "32 word"

definition check_content :: "string \<Rightarrow> TIC \<Rightarrow> file_error option" where
  "check_content content t =
     (let data = take (MaxFileBytes + 1) content; n = length data in
      if MaxFileBytes < n then Some FileTooLarge
      else if 0 \<le> tic_Size t \<and> int n \<noteq> tic_Size t then Some (WrongSize n (tic_Size t))
      else if crc32 data \<noteq> tic_CRC t then Some (WrongCRC (crc32 data) (tic_CRC t))
      else None)"

definition checkFile :: "disk \<Rightarrow> place \<Rightarrow> TIC \<Rightarrow> bool" where
  "checkFile D p t = (case read_file D p of Inl e \<Rightarrow> False | Inr content \<Rightarrow> check_content content t = None)"

section \<open>Tossing a TIC\<close>

record FileStore =
  fs_Root :: string

definition areaDir :: "(rune \<Rightarrow> rune) \<Rightarrow> FileStore \<Rightarrow> string \<Rightarrow> string" where
  "areaDir lo fs tag = path_Join [fs_Root fs, to_lower lo tag]"

definition findInDir :: "(rune \<Rightarrow> rune) \<Rightarrow> disk \<Rightarrow> string \<Rightarrow> string \<Rightarrow> place option" where
  "findInDir fo D dir name = (case ReadDir D dir of
       Inl e \<Rightarrow> None
     | Inr es \<Rightarrow> map_option (\<lambda>e. (dir, fst e)) (find (\<lambda>(n, e). e \<noteq> Folder \<and> equal_fold fo n name) es))"

definition hex_upper :: "nat \<Rightarrow> char" where
  "hex_upper d = byte_of (if d < 10 then 48 + d else 55 + d)"

text \<open>\<open>%08X\<close>.\<close>

definition crc_text :: "32 word \<Rightarrow> string" where
  "crc_text w = map (\<lambda>i. hex_upper (unat w div 16 ^ i mod 16)) [7, 6, 5, 4, 3, 2, 1, 0]"

definition set_aside :: "nanos \<Rightarrow> string \<Rightarrow> place list \<Rightarrow> spool \<Rightarrow> toss_error option \<times> spool" where
  "set_aside now bad ps s =
     each_of (\<lambda>p s. case moveAside now p bad (snd p) (sp_disk s) of
           (Inl e, D) \<Rightarrow> (Some (OsErr e), s) | (Inr _, D) \<Rightarrow> (None, s\<lparr>sp_disk := D\<rparr>))
       ps (s\<lparr>sp_stats := (sp_stats s)\<lparr>st_FilesBad := st_FilesBad (sp_stats s) + 1\<rparr>\<rparr>)"

text \<open>The file that the TIC replaces leaves the database and the disk.\<close>

definition remove_replaced :: "store_env \<Rightarrow> (rune \<Rightarrow> rune) \<Rightarrow> FileStore \<Rightarrow> TIC \<Rightarrow> spool \<Rightarrow> spool" where
  "remove_replaced E fo fs tic s =
     (if tic_Replaces tic \<noteq> [] \<and> \<not> equal_fold fo (tic_Replaces tic) (tic_File tic)
      then case RemoveFile E (tic_Area tic) (tic_Replaces tic) (sp_db s) of
          (Inl e, d) \<Rightarrow> s\<lparr>sp_db := d\<rparr>
        | (Inr old, d) \<Rightarrow>
            let p = path_Join [fs_Root fs, old]
            in s\<lparr>sp_db := d, sp_disk := Remove (path_Dir p, path_Base p) (sp_disk s)\<rparr>
      else s)"

definition tic_row :: "TIC \<Rightarrow> string \<Rightarrow> nat \<Rightarrow> file_row" where
  "tic_row tic rel n =
     \<lparr>f_id = 0, f_area = 0, f_name = tic_File tic, f_path = rel, f_size = int n, f_crc = crc_text (tic_CRC tic),
      f_desc = join [CHR 0x0A] (tic_Desc tic), f_ldesc = join [CHR 0x0A] (tic_LDesc tic),
      f_origin = tic_Origin tic, f_from = tic_From tic, f_received = 0, f_downloads = 0\<rparr>"

definition install_file ::
    "store_env \<Rightarrow> (rune \<Rightarrow> rune) \<Rightarrow> FileStore \<Rightarrow> TIC \<Rightarrow> place \<Rightarrow> place \<Rightarrow> string \<Rightarrow> spool \<Rightarrow> toss_error option \<times> spool" where
  "install_file E fo fs tic data ticPath done s =
     (let dir = areaDir (se_lower E) fs (tic_Area tic);
          s = remove_replaced E fo fs tic (s\<lparr>sp_disk := MkdirAll dir (sp_disk s)\<rparr>);
          dst = (dir, tic_File tic)
      in case moveFile data dst (sp_disk s) of
           (Inl e, D) \<Rightarrow> (Some (OsErr e), s)
         | (Inr _, D) \<Rightarrow>
             let s = s\<lparr>sp_disk := D\<rparr> in
             case path_Rel (fs_Root fs) (path_Join [dir, tic_File tic]) of
               None \<Rightarrow> (Some RelErr, s)
             | Some rel \<Rightarrow>
                 (case AddFile E (tic_Area tic) (tic_AreaDesc tic) (tic_row tic rel (fileSize D dst)) (sp_db s) of
                    (Inl e, d) \<Rightarrow> (Some (StoreErr e), s\<lparr>sp_db := d\<rparr>)
                  | (Inr _, d) \<Rightarrow>
                      let s = s\<lparr>sp_db := d, sp_stats := (sp_stats s)\<lparr>st_FilesIn := st_FilesIn (sp_stats s) + 1\<rparr>\<rparr>
                      in case moveAside (se_now E) ticPath done (snd ticPath) D of
                           (Inl e, D) \<Rightarrow> (Some (OsErr e), s)
                         | (Inr _, D) \<Rightarrow> (None, s\<lparr>sp_disk := D\<rparr>)))"

definition mod_time :: "disk \<Rightarrow> place \<Rightarrow> nanos option" where
  "mod_time D p = (case stat D p of Some (Plain c t) \<Rightarrow> Some t | _ \<Rightarrow> None)"

definition tossTIC ::
    "store_env \<Rightarrow> (rune \<Rightarrow> rune) \<Rightarrow> FileStore \<Rightarrow> string \<Rightarrow> place \<Rightarrow> string \<Rightarrow> string \<Rightarrow> spool \<Rightarrow> toss_error option \<times> spool" where
  "tossTIC E fo fs inbound ticPath done bad s =
     (case read_file (sp_disk s) ticPath of
        Inl e \<Rightarrow> (Some (OsErr e), s)
      | Inr content \<Rightarrow>
          (case ParseTIC (se_lower E) (se_upper E) content of
             Inl e \<Rightarrow> set_aside (se_now E) bad [ticPath] s
           | Inr tic \<Rightarrow>
               (case findInDir fo (sp_disk s) inbound (tic_File tic) of
                  None \<Rightarrow>
                    (case mod_time (sp_disk s) ticPath of
                       None \<Rightarrow> (None, s)
                     | Some t \<Rightarrow> if ticWaitForFile < se_now E - t then set_aside (se_now E) bad [ticPath] s else (None, s))
                | Some data \<Rightarrow>
                    if \<not> checkFile (sp_disk s) data tic then set_aside (se_now E) bad [ticPath, data] s
                    else install_file E fo fs tic data ticPath done s)))"

definition tossTICs ::
    "store_env \<Rightarrow> (rune \<Rightarrow> rune) \<Rightarrow> FileStore \<Rightarrow> string \<Rightarrow> string \<Rightarrow> string \<Rightarrow> spool \<Rightarrow> toss_error option \<times> spool" where
  "tossTICs E fo fs inbound done bad s = (case ReadDir (sp_disk s) inbound of
       Inl e \<Rightarrow> (Some (OsErr e), s)
     | Inr es \<Rightarrow>
         each_of (\<lambda>(n, e) s. if e = Folder \<or> \<not> IsTIC fo n then (None, s) else tossTIC E fo fs inbound (inbound, n) done bad s) es s)"

end
