(* ===== verification/FTN_Toss.thy ===== *)
theory FTN_Toss
  imports FTN_Tic
begin

text \<open>
  \<open>internal/ftntoss/toss.go\<close>: the tosser reads every bundle in an inbound directory, stores netmail
  for this system and, from the secure inbound only, echomail, and moves each bundle to \<open>tossed\<close> or
  \<open>bad\<close>; file echoes follow. The database is part of the state that is passed on. One clock
  reading, in the store's environment, serves a whole pass over one directory.
\<close>

record Tosser =
  Own :: "Addr list"
  FileArea :: "FileStore option" \<comment> \<open>\<open>Files\<close>\<close>

record toss_env =
  te_store :: store_env
  te_unzip :: "string \<Rightarrow> zip_member list option"
  te_fold :: "rune \<Rightarrow> rune"

text \<open>The callback for one message: the counters and the database.\<close>

definition import_message :: "store_env \<Rightarrow> Addr list \<Rightarrow> bool \<Rightarrow> Message \<Rightarrow> db \<Rightarrow> (error + TossResult) \<times> db" where
  "import_message E own secure m d =
     (if Area m = [] \<and> Contains own (Dest m) then ImportNetmail E m d
      else if Area m \<noteq> [] \<and> secure then ImportEcho E m d
      else (Inr TossSkipped, d))"

definition count_result :: "Message \<Rightarrow> TossResult \<Rightarrow> Stats \<Rightarrow> Stats" where
  "count_result m res st = (case res of
       TossStored \<Rightarrow> st\<lparr>st_Stored := st_Stored st + 1, st_Netmail := st_Netmail st + (if Area m = [] then 1 else 0)\<rparr>
     | TossDuplicate \<Rightarrow> st\<lparr>st_Duplicate := st_Duplicate st + 1\<rparr>
     | TossSkipped \<Rightarrow> st\<lparr>st_Skipped := st_Skipped st + 1\<rparr>)"

definition toss_message :: "store_env \<Rightarrow> Addr list \<Rightarrow> bool \<Rightarrow> (Message, error, db \<times> Stats) callback" where
  "toss_message E own secure m s =
     (case import_message E own secure m (fst s) of
        (Inl e, d) \<Rightarrow> (Some e, d, snd s)
      | (Inr res, d) \<Rightarrow> (None, d, count_result m res (snd s)))"

definition fileSHA256 :: "store_env \<Rightarrow> string \<Rightarrow> string" where
  "fileSHA256 E content = hex_encode (se_sha256 E content)"

text \<open>One entry of the inbound.\<close>

definition toss_file ::
    "toss_env \<Rightarrow> Tosser \<Rightarrow> string \<Rightarrow> string \<Rightarrow> string \<Rightarrow> bool \<Rightarrow> string \<Rightarrow> spool \<Rightarrow> toss_error option \<times> spool" where
  "toss_file T t inbound done bad secure name s =
     (let E = te_store T; D = sp_disk s in
      case read_file D (inbound, name) of
        Inl e \<Rightarrow> (Some (OsErr e), s)
      | Inr content \<Rightarrow>
          let sum = fileSHA256 E content in
          if FTNFileSeen (sp_db s) sum
          then (None, s\<lparr>sp_disk := snd (moveAside (se_now E) (inbound, name) done name D)\<rparr>)
          else let st = (sp_stats s)\<lparr>st_Files := st_Files (sp_stats s) + 1\<rparr> in
            (case EachMessage (se_lower E) (se_upper E) (te_fold T) (te_unzip T) (path_Join [inbound, name]) (Some content)
                    (toss_message E (Own t) secure) (sp_db s, st) of
               (Some e, d, st) \<Rightarrow>
                 let s = s\<lparr>sp_db := d, sp_stats := st\<lparr>st_Failed := st_Failed st + 1\<rparr>\<rparr> in
                 (case moveAside (se_now E) (inbound, name) bad name D of
                    (Inl e, D) \<Rightarrow> (Some (OsErr e), s)
                  | (Inr _, D) \<Rightarrow> (None, s\<lparr>sp_disk := D\<rparr>))
             | (None, d, st) \<Rightarrow>
                 let s = s\<lparr>sp_db := MarkFTNFile E sum name d, sp_stats := st\<rparr> in
                 (case moveAside (se_now E) (inbound, name) done name D of
                    (Inl e, D) \<Rightarrow> (Some (OsErr e), s)
                  | (Inr _, D) \<Rightarrow> (None, s\<lparr>sp_disk := D\<rparr>))))"

definition toss_entries ::
    "toss_env \<Rightarrow> Tosser \<Rightarrow> string \<Rightarrow> string \<Rightarrow> string \<Rightarrow> bool \<Rightarrow> folder \<Rightarrow> spool \<Rightarrow> toss_error option \<times> spool" where
  "toss_entries T t inbound done bad secure =
     each_of (\<lambda>(name, e) s. if e = Folder \<or> \<not> IsMailBundle (se_lower (te_store T)) name then (None, s)
                            else toss_file T t inbound done bad secure name s)"

text \<open>The method \<open>Toss\<close>; the counters start from zero.\<close>

definition Toss ::
    "toss_env \<Rightarrow> Tosser \<Rightarrow> string \<Rightarrow> string \<Rightarrow> string \<Rightarrow> bool \<Rightarrow> db \<Rightarrow> disk \<Rightarrow> toss_error option \<times> spool" where
  "Toss T t inbound done bad secure d D =
     (if inbound = [] then (None, \<lparr>sp_db = d, sp_disk = D, sp_stats = no_stats\<rparr>)
      else let D = MkdirAll bad (MkdirAll done D); s = \<lparr>sp_db = d, sp_disk = D, sp_stats = no_stats\<rparr> in
        case ReadDir D inbound of
          Inl e \<Rightarrow> (None, s) \<comment> \<open>it does not exist\<close>
        | Inr es \<Rightarrow>
            (case toss_entries T t inbound done bad secure es s of
               (Some e, s) \<Rightarrow> (Some e, s)
             | (None, s) \<Rightarrow>
                 (case FileArea t of
                    Some fs \<Rightarrow> if secure then tossTICs (te_store T) (te_fold T) fs inbound done bad s else (None, s)
                  | None \<Rightarrow> (None, s))))"

section \<open>Several inbounds\<close>

definition DefaultDirs :: "string \<Rightarrow> string \<times> string" where
  "DefaultDirs inbound =
     (let parent = path_Dir (trim_right_bytes [slash] inbound)
      in (path_Join [parent, ''tossed''], path_Join [parent, ''bad'']))"

definition add_stats :: "Stats \<Rightarrow> Stats \<Rightarrow> Stats" where
  "add_stats a b = \<lparr>st_Files = st_Files a + st_Files b, st_Stored = st_Stored a + st_Stored b,
     st_Duplicate = st_Duplicate a + st_Duplicate b, st_Skipped = st_Skipped a + st_Skipped b,
     st_Failed = st_Failed a + st_Failed b, st_Netmail = st_Netmail a + st_Netmail b,
     st_FilesIn = st_FilesIn a + st_FilesIn b, st_FilesBad = st_FilesBad a + st_FilesBad b\<rparr>"

definition is_secure :: "string \<Rightarrow> bool" where
  "is_secure inbound \<longleftrightarrow> \<not> suffix ''in.insecure'' (path_Clean inbound)"

definition toss_dirs :: "string \<Rightarrow> string \<times> string" where
  "toss_dirs inbound = (if is_secure inbound then DefaultDirs inbound else DefaultDirs (path_Join [path_Dir inbound, ''in'']))"

text \<open>Every pass has its own environment, since time goes on.\<close>

fun TossAll :: "Tosser \<Rightarrow> (string \<times> toss_env) list \<Rightarrow> spool \<Rightarrow> toss_error option \<times> spool" where
  "TossAll t [] s = (None, s)"
| "TossAll t ((inbound, T) # ins) s =
     (if inbound = [] then TossAll t ins s
      else let (done, bad) = toss_dirs inbound in
        case Toss T t inbound done bad (is_secure inbound) (sp_db s) (sp_disk s) of
          (e, s') \<Rightarrow>
            let s' = s'\<lparr>sp_stats := add_stats (sp_stats s) (sp_stats s')\<rparr>
            in case e of Some e \<Rightarrow> (Some e, s') | None \<Rightarrow> TossAll t ins s')"

end
