(* ===== verification/Toss_Props.thy ===== *)
theory Toss_Props
  imports FTN_Toss Store_All
begin

text \<open>
  What the tosser does to the database and to the spool. The locale \<open>toss_keeps\<close> says when a
  property of databases survives a pass: when the store operations the tosser calls keep it. It is
  interpreted for the databases the store can reach and, for the insecure inbound, for those that
  differ from the first one in netmail only. On the disk no bundle is lost, and file echoes
  stay inside their directory.
\<close>

section \<open>The database after a pass\<close>

locale toss_keeps =
  fixes T :: toss_env and t :: Tosser and secure :: bool and P :: "db \<Rightarrow> bool"
  assumes import_keeps: "P d \<Longrightarrow> P (snd (import_message (te_store T) (Own t) secure m d))"
    and mark_keeps: "P d \<Longrightarrow> P (MarkFTNFile (te_store T) x n d)"
    and file_keeps: "secure \<Longrightarrow> P d \<Longrightarrow> P (snd (AddFile (te_store T) a ds f d))"
      "secure \<Longrightarrow> P d \<Longrightarrow> P (snd (RemoveFile (te_store T) a n d))"
begin

lemma messages_keep: "P d \<Longrightarrow> P (fst (snd (each_of (toss_message (te_store T) (Own t) secure) ms (d, st))))"
proof (rule each_of_keeps [of "\<lambda>s. P (fst s)"])
  fix m s assume "P (fst (s :: db \<times> Stats))"
  from import_keeps [OF this, of m] show "P (fst (snd (toss_message (te_store T) (Own t) secure m s)))"
    by (auto simp: toss_message_def split: prod.splits sum.splits)
qed simp

lemma toss_file_keeps:
  assumes "P (sp_db s)"
  shows "P (sp_db (snd (toss_file T t inbound done bad secure name s)))"
proof (cases "read_file (sp_disk s) (inbound, name)")
  case (Inr content)
  let ?st = "(sp_stats s)\<lparr>st_Files := st_Files (sp_stats s) + 1\<rparr>"
  let ?run = "EachMessage (se_lower (te_store T)) (se_upper (te_store T)) (te_fold T) (te_unzip T)
    (path_Join [inbound, name]) (Some content) (toss_message (te_store T) (Own t) secure) (sp_db s, ?st)"
  have "P (fst (snd ?run))"
    using EachMessage_mail [of "se_lower (te_store T)" "se_upper (te_store T)" "te_fold T" "te_unzip T"
        "path_Join [inbound, name]" content "toss_message (te_store T) (Own t) secure" "(sp_db s, ?st)"]
      messages_keep [OF assms] by (simp add: same_run_def)
  then show ?thesis using Inr assms
    by (auto simp: toss_file_def Let_def mark_keeps split: prod.splits option.splits sum.splits)
qed (use assms in \<open>simp add: toss_file_def\<close>)

lemma set_aside_keeps: "P (sp_db s) \<Longrightarrow> P (sp_db (snd (set_aside now bad ps s)))"
  unfolding set_aside_def
  by (rule each_of_keeps [of "\<lambda>s. P (sp_db s)"]) (auto split: prod.splits sum.splits)

lemma install_keeps:
  assumes "secure" "P (sp_db s)"
  shows "P (sp_db (snd (install_file (te_store T) fo fs tic data ticPath done s)))"
proof -
  have "P (sp_db (remove_replaced (te_store T) fo fs tic s))" if "P (sp_db s)" for s
    using that file_keeps(2) [OF assms(1) that, of "tic_Area tic" "tic_Replaces tic"]
    by (auto simp: remove_replaced_def Let_def split: prod.splits sum.splits)
  then have "P (sp_db (remove_replaced (te_store T) fo fs tic (s\<lparr>sp_disk := D\<rparr>)))" for D using assms(2) by simp
  then show ?thesis using file_keeps(1) [OF assms(1)]
    by (auto simp: install_file_def Let_def split: prod.splits sum.splits option.splits) (metis snd_conv)+
qed

lemma tossTIC_keeps:
  "secure \<Longrightarrow> P (sp_db s) \<Longrightarrow> P (sp_db (snd (tossTIC (te_store T) fo fs inbound p done bad s)))"
  by (auto simp: tossTIC_def set_aside_keeps install_keeps split: sum.splits option.splits)

lemma Toss_keeps: "P d \<Longrightarrow> P (sp_db (snd (Toss T t inbound done bad secure d D)))"
proof -
  assume d: "P d"
  have entries: "P (sp_db s) \<Longrightarrow> P (sp_db (snd (toss_entries T t inbound done bad secure es s)))" for es s
    unfolding toss_entries_def
    by (rule each_of_keeps [of "\<lambda>s. P (sp_db s)"]) (auto simp: toss_file_keeps)
  have tics: "secure \<Longrightarrow> P (sp_db s) \<Longrightarrow> P (sp_db (snd (tossTICs (te_store T) (te_fold T) fs inbound done bad s)))" for fs s
    unfolding tossTICs_def
    by (auto split: sum.splits intro!: each_of_keeps [of "\<lambda>s. P (sp_db s)"] simp: tossTIC_keeps)
  show ?thesis
    using d entries [of "\<lparr>sp_db = d, sp_disk = MkdirAll bad (MkdirAll done D), sp_stats = no_stats\<rparr>"]
    by (auto simp: Toss_def Let_def tics split: sum.splits prod.splits option.splits) (metis snd_conv tics)+
qed

end

text \<open>A pass is a sequence of calls of the store's operations.\<close>

lemma import_message_cases:
  obtains "import_message E own secure m d = ImportNetmail E m d" "Area m = []" "Contains own (Dest m)"
  | "import_message E own secure m d = ImportEcho E m d" "Area m \<noteq> []" "secure"
  | "import_message E own secure m d = (Inr TossSkipped, d)"
  by (cases "Area m = [] \<and> Contains own (Dest m)"; cases "Area m \<noteq> [] \<and> secure") (auto simp: import_message_def)

interpretation calls: toss_keeps T t secure "\<lambda>d. fresh_rowids (te_store T) \<longrightarrow> reachable d" for T t secure
proof
  fix d m x n a ds f
  assume d: "fresh_rowids (te_store T) \<longrightarrow> reachable d"
  note step = reachable.call [of d]
  show "fresh_rowids (te_store T) \<longrightarrow> reachable (snd (import_message (te_store T) (Own t) secure m d))"
    by (cases rule: import_message_cases [of "te_store T" "Own t" secure m d])
       (use d in \<open>auto intro: step store_step.import_netmail store_step.import_echo\<close>)
  show "fresh_rowids (te_store T) \<longrightarrow> reachable (MarkFTNFile (te_store T) x n d)"
    using d by (auto intro: step store_step.mark_file)
  show "fresh_rowids (te_store T) \<longrightarrow> reachable (snd (AddFile (te_store T) a ds f d))"
    using d by (auto intro: step store_step.add_file)
  show "fresh_rowids (te_store T) \<longrightarrow> reachable (snd (RemoveFile (te_store T) a n d))"
    using d by (auto intro: step store_step.remove_file)
qed

text \<open>From the insecure inbound only netmail for this system is taken.\<close>

definition for_us :: "Addr list \<Rightarrow> netmail \<Rightarrow> bool" where
  "for_us own n \<longleftrightarrow> \<not> n_outgoing n \<and> n_author n = 0 \<and>
     (\<exists>a. Contains own a \<and> n_to_addr n = Clean (Addr_String a) MaxNetmailAddrLen)"

definition only_netmail :: "Addr list \<Rightarrow> db \<Rightarrow> db \<Rightarrow> bool" where
  "only_netmail own d d' \<longleftrightarrow> d'\<lparr>t_netmail := t_netmail d, t_tossed := t_tossed d\<rparr> = d \<and>
     list_all (\<lambda>n. n \<in> set (t_netmail d) \<or> for_us own n) (t_netmail d')"

lemma insertNetmail_frame:
  "snd (insertNetmail E n d) = d\<lparr>t_netmail := t_netmail (snd (insertNetmail E n d))\<rparr>"
  "x \<in> set (t_netmail (snd (insertNetmail E n d))) \<Longrightarrow>
     x \<in> set (t_netmail d) \<or> x = n\<lparr>n_id := se_rowid E (map n_id (t_netmail d)), n_received := se_now E\<rparr>"
  by (auto simp: insertNetmail_def tx_def Let_def split: if_splits)

lemma only_netmail_ImportNetmail:
  assumes "only_netmail own d d'" "Area m = []" "Contains own (Dest m)"
  shows "only_netmail own d (snd (ImportNetmail E m d'))"
proof -
  let ?d = "snd (insertNetmail E (netmail_of E m) d')"
  have new: "for_us own ((netmail_of E m)\<lparr>n_id := i, n_received := r\<rparr>)" for i r
    using assms(3) by (auto simp: for_us_def netmail_of_def)
  have "list_all (\<lambda>n. n \<in> set (t_netmail d) \<or> for_us own n) (t_netmail ?d)"
    using assms(1) insertNetmail_frame(2) [of _ E "netmail_of E m" d'] new
    unfolding only_netmail_def list_all_iff by metis
  moreover have "?d\<lparr>t_netmail := t_netmail d, t_tossed := t_tossed d\<rparr> = d"
    using assms(1) by (subst insertNetmail_frame(1)) (simp add: only_netmail_def)
  ultimately show ?thesis using assms(2) by (simp add: only_netmail_def snd_ImportNetmail)
qed

lemma only_netmail_trans_mark: "only_netmail own d d' \<Longrightarrow> only_netmail own d (MarkFTNFile E x n d')"
  by (simp add: only_netmail_def MarkFTNFile_def)

interpretation insecure: toss_keeps T t False "only_netmail (Own t) d" for T t d
proof
  fix d' m x n
  assume d': "only_netmail (Own t) d d'"
  show "only_netmail (Own t) d (snd (import_message (te_store T) (Own t) False m d'))"
    by (cases rule: import_message_cases [of "te_store T" "Own t" False m d'])
       (use d' in \<open>simp_all add: only_netmail_ImportNetmail\<close>)
  show "only_netmail (Own t) d (MarkFTNFile (te_store T) x n d')" by (rule only_netmail_trans_mark [OF d'])
qed simp_all

lemma only_netmail_refl: "only_netmail own d d"
  by (simp add: only_netmail_def list_all_iff)

text \<open>
  Claim C22. Anybody can call and leave a packet in the insecure inbound, and all it can do to the
  database is to deliver netmail to this system: whatever bundles lie there, a pass over the
  insecure inbound changes nothing but the netmail box and the list of bundles already seen (no
  echomail, no file areas, no accounts), and every netmail that is new in the box is incoming,
  belongs to no account and is addressed to one of this system's own addresses.
\<close>

theorem insecure_inbound:
  "only_netmail (Own t) d (sp_db (snd (Toss T t inbound done bad False d D)))"
  by (rule insecure.Toss_keeps [OF only_netmail_refl])

lemma TossAll_reachable:
  assumes "reachable (sp_db s)" and "list_all (\<lambda>(_, T). fresh_rowids (te_store T)) ins"
  shows "reachable (sp_db (snd (TossAll t ins s)))"
  using assms
proof (induction t ins s rule: TossAll.induct)
  case (2 t inbound T ins s)
  have "reachable (sp_db (snd (Toss T t inbound dn bad sec (sp_db s) (sp_disk s))))" for dn bad sec
    using calls.Toss_keeps [of T "sp_db s"] 2(3,4) by simp
  with 2 show ?case by (auto simp: Let_def split: prod.splits option.splits) (metis snd_conv)+
qed simp

text \<open>
  Tossing never damages the database. A run over any inbounds, secure or not, with
  any bundles, archives and TICs in them, ends in a database that calls of the store's operations
  can reach, even when it stops at an error in the middle; so the whole invariant of the store
  holds afterwards.
\<close>

theorem TossAll_sound:
  assumes start: "reachable (sp_db s)" and envs: "list_all (\<lambda>(_, T). fresh_rowids (te_store T)) ins"
  shows "reachable (sp_db (snd (TossAll t ins s))) \<and> db_inv (sp_db (snd (TossAll t ins s)))"
  using TossAll_reachable [OF assms] by (simp add: reachable_db_inv)

section \<open>No bundle is lost\<close>

lemma path_Split_dot:
  assumes "slash \<notin> set x"
  shows "snd (path_Split (n @ CHR ''.'' # x)) = snd (path_Split n) @ CHR ''.'' # x"
proof -
  have "takeWhile (\<lambda>c. c \<noteq> slash) (rev x @ CHR ''.'' # rev n) = rev x @ CHR ''.'' # takeWhile (\<lambda>c. c \<noteq> slash) (rev n)"
    using assms by (subst takeWhile_append2) (auto simp: slash_def)
  then show ?thesis by (simp add: path_Split_def)
qed

lemma path_Ext_dot:
  assumes "slash \<notin> set x" "CHR ''.'' \<notin> set x"
  shows "path_Ext (n @ CHR ''.'' # x) = CHR ''.'' # x"
proof -
  have "takeWhile (\<lambda>c. c \<noteq> CHR ''.'') (rev x @ CHR ''.'' # y) = rev x" for y
    using assms(2) by (subst takeWhile_append2) auto
  then show ?thesis using assms(1) by (simp add: path_Ext_def path_Split_dot)
qed

lemma path_Base_dot:
  assumes "slash \<notin> set x" "x \<noteq> []"
  shows "path_Base (n @ CHR ''.'' # x) = snd (path_Split n) @ CHR ''.'' # x"
proof -
  obtain y c where x: "x = y @ [c]" "c \<noteq> slash" using assms by (cases x rule: rev_cases) auto
  then have "trim_right_bytes [slash] (n @ CHR ''.'' # x) = n @ CHR ''.'' # x" by (simp add: trim_right_bytes_def)
  then show ?thesis using path_Split_dot [OF assms(1), of n] by (simp add: path_Base_def)
qed

text \<open>A bundle with the clock appended to its name is no bundle any more.\<close>

lemma digits_chars:
  "c \<in> set (itoa i) \<Longrightarrow> is_ascii c \<and> c \<noteq> slash \<and> c \<noteq> CHR ''.'' \<and> byte_val c < 58"
  using itoa_chars [of c i] by (auto simp: is_digit_def is_ascii_def slash_def byte_val_def)

lemma aside_not_bundle: "\<not> IsMailBundle lo (n @ ''.'' @ itoa now)"
proof -
  have "slash \<notin> set (itoa now)" "CHR ''.'' \<notin> set (itoa now)" using digits_chars by blast+
  then have ext: "path_Ext (path_Base (n @ ''.'' @ itoa now)) = CHR ''.'' # itoa now"
    by (simp add: path_Base_dot path_Ext_dot)
  have "list_all is_ascii (CHR ''.'' # itoa now)" "list_all (\<lambda>c. byte_val c < 65 \<or> 90 < byte_val c) (CHR ''.'' # itoa now)"
    using digits_chars [of _ now] by (fastforce simp: list_all_iff is_ascii_def byte_val_def)+
  then have low: "to_lower lo (CHR ''.'' # itoa now) = CHR ''.'' # itoa now" by (simp only: to_lower_ascii sql_lower_id)
  obtain c r where i: "itoa now = c # r" by (cases "itoa now") auto
  then have "byte_val c < 58" using digits_chars [of c now] by simp
  then have c: "c \<noteq> CHR ''p''" "c \<noteq> CHR ''s''" "c \<noteq> CHR ''m''" "c \<noteq> CHR ''t''" "c \<noteq> CHR ''w''" "c \<noteq> CHR ''f''"
    by (auto simp: byte_val_def)
  have "to_lower lo (path_Ext (path_Base (n @ ''.'' @ itoa now))) = CHR ''.'' # c # r" using ext low i by simp
  then show ?thesis using c by (simp add: IsMailBundle_def Let_def numeral_2_eq_2)
qed

section \<open>One bundle\<close>

lemma toss_file_disk:
  fixes s
  defines "D \<equiv> sp_disk s"
  assumes found: "stat D (inbound, n) = Some (Plain c \<tau>)"
    and dirs: "has_dir D done" "has_dir D bad" "path_Clean inbound \<noteq> path_Clean done" "path_Clean inbound \<noteq> path_Clean bad"
    and free: "stat D (done, n @ ''.'' @ itoa (se_now (te_store T))) = None"
      "stat D (bad, n @ ''.'' @ itoa (se_now (te_store T))) = None"
  shows "fst (toss_file T t inbound done bad secure n s) = None \<and>
    (\<exists>aside \<in> {done, bad}. sp_disk (snd (toss_file T t inbound done bad secure n s)) =
       snd (moveAside (se_now (te_store T)) (inbound, n) aside n D))"
proof -
  have "fst (moveAside (se_now (te_store T)) (inbound, n) done n D) = Inr ()"
    "fst (moveAside (se_now (te_store T)) (inbound, n) bad n D) = Inr ()"
    using moveAside_keeps(1) [OF found] dirs free by blast+
  then obtain D1 D2 where "moveAside (se_now (te_store T)) (inbound, n) done n D = (Inr (), D1)"
    "moveAside (se_now (te_store T)) (inbound, n) bad n D = (Inr (), D2)" by (metis prod.collapse)
  then show ?thesis using found
    by (auto simp: toss_file_def D_def [symmetric] read_file_def Let_def split: prod.splits option.splits)
qed

section \<open>All bundles\<close>

text \<open>After a pass over \<open>es\<close>: its bundles are set aside with their content, everything else is kept.\<close>

definition kept_aside :: "nanos \<Rightarrow> string \<Rightarrow> string \<Rightarrow> string \<Rightarrow> dirent \<Rightarrow> disk \<Rightarrow> bool" where
  "kept_aside now dn bad n e D \<longleftrightarrow>
     (\<exists>aside \<in> {dn, bad}. \<exists>n' \<in> {n, n @ ''.'' @ itoa now}. stat D (aside, n') = Some e)"

definition set_aside_all ::
    "(string \<Rightarrow> bool) \<Rightarrow> nanos \<Rightarrow> string \<Rightarrow> string \<Rightarrow> string \<Rightarrow> folder \<Rightarrow> disk \<Rightarrow> disk \<Rightarrow> bool" where
  "set_aside_all bundle now inbound dn bad es D D' \<longleftrightarrow>
     (\<forall>n e. (n, e) \<in> set es \<and> e \<noteq> Folder \<and> bundle n \<longrightarrow> stat D' (inbound, n) = None \<and> kept_aside now dn bad n e D') \<and>
     (\<forall>n. \<not> (\<exists>e. (n, e) \<in> set es \<and> e \<noteq> Folder \<and> bundle n) \<longrightarrow> stat D' (inbound, n) = stat D (inbound, n)) \<and>
     (\<forall>p. path_Clean (fst p) \<noteq> path_Clean inbound \<longrightarrow> stat D p \<noteq> None \<longrightarrow> stat D' p = stat D p)"

lemma set_aside_allD:
  assumes "set_aside_all bundle now inbound dn bad es D D'"
  shows "(n, e) \<in> set es \<Longrightarrow> e \<noteq> Folder \<Longrightarrow> bundle n \<Longrightarrow> stat D' (inbound, n) = None \<and> kept_aside now dn bad n e D'"
    "(\<And>e. (n, e) \<in> set es \<Longrightarrow> e \<noteq> Folder \<Longrightarrow> \<not> bundle n) \<Longrightarrow> stat D' (inbound, n) = stat D (inbound, n)"
    "path_Clean (fst p) \<noteq> path_Clean inbound \<Longrightarrow> stat D p = Some x \<Longrightarrow> stat D' p = Some x"
proof -
  note parts = assms [unfolded set_aside_all_def]
  show "(n, e) \<in> set es \<Longrightarrow> e \<noteq> Folder \<Longrightarrow> bundle n \<Longrightarrow> stat D' (inbound, n) = None \<and> kept_aside now dn bad n e D'"
    using parts by blast
  show "stat D' (inbound, n) = stat D (inbound, n)" if "\<And>e. (n, e) \<in> set es \<Longrightarrow> e \<noteq> Folder \<Longrightarrow> \<not> bundle n"
    using parts that by blast
  show "path_Clean (fst p) \<noteq> path_Clean inbound \<Longrightarrow> stat D p = Some x \<Longrightarrow> stat D' p = Some x"
    using parts by (metis option.distinct(1))
qed

lemma set_aside_first:
  assumes dirs: "path_Clean inbound \<noteq> path_Clean dn" "path_Clean inbound \<noteq> path_Clean bad"
    and n: "bundle n" "e \<noteq> Folder" "n \<notin> fst ` set es" and aside: "aside \<in> {dn, bad}" and a: "a \<in> {n, n @ ''.'' @ itoa now}"
    and D1: "\<And>p. stat D1 p = (if same_place (aside, a) p then Some e
        else if same_place (inbound, n) p then None else stat D p)" and new: "stat D (aside, a) = None"
    and rest: "set_aside_all bundle now inbound dn bad es D1 D'"
  shows "set_aside_all bundle now inbound dn bad ((n, e) # es) D D'"
proof -
  have other: "\<not> same_place (aside, a) (inbound, m)" for m using dirs aside by (auto simp: same_place_def)
  have here: "same_place (inbound, n) (inbound, m) \<longleftrightarrow> m = n" for m by (auto simp: same_place_def)
  have "stat D' (aside, a) = Some e"
    using set_aside_allD(3) [OF rest, of "(aside, a)" e] D1 [of "(aside, a)"] dirs aside by auto
  then have kept: "kept_aside now dn bad n e D'" using aside a unfolding kept_aside_def by blast
  have gone: "stat D' (inbound, n) = None"
    using set_aside_allD(2) [OF rest, of n] n(3) D1 [of "(inbound, n)"] other by (force simp: here)
  have same: "stat D' (inbound, m) = stat D (inbound, m)"
    if "\<not> (\<exists>x. (m, x) \<in> set ((n, e) # es) \<and> x \<noteq> Folder \<and> bundle m)" for m
  proof -
    have "m \<noteq> n" using that n by auto
    then have "stat D1 (inbound, m) = stat D (inbound, m)" using D1 [of "(inbound, m)"] other here by simp
    moreover have "stat D' (inbound, m) = stat D1 (inbound, m)" using that by (intro set_aside_allD(2) [OF rest]) auto
    ultimately show ?thesis by simp
  qed
  have far: "stat D' p = stat D p" if "path_Clean (fst p) \<noteq> path_Clean inbound" "stat D p \<noteq> None" for p
  proof -
    have "\<not> same_place (aside, a) p" using that(2) new stat_same [of "(aside, a)" p D] by auto
    moreover have "\<not> same_place (inbound, n) p" using that(1) by (auto simp: same_place_def)
    ultimately show ?thesis using D1 [of p] set_aside_allD(3) [OF rest that(1)] that(2) by auto
  qed
  show ?thesis unfolding set_aside_all_def
  proof (intro conjI allI impI)
    fix m x assume m: "(m, x) \<in> set ((n, e) # es) \<and> x \<noteq> Folder \<and> bundle m"
    show "stat D' (inbound, m) = None" "kept_aside now dn bad m x D'"
      using m gone kept set_aside_allD(1) [OF rest, of m x] by auto
  qed (use same far in blast)+
qed

lemma toss_entries_disk:
  fixes T inbound dn bad
  defines "now \<equiv> se_now (te_store T)" and "bundle \<equiv> IsMailBundle (se_lower (te_store T))"
  assumes dirs: "path_Clean inbound \<noteq> path_Clean dn" "path_Clean inbound \<noteq> path_Clean bad"
  shows "\<lbrakk>distinct (map fst es); \<And>n e. (n, e) \<in> set es \<Longrightarrow> stat (sp_disk s) (inbound, n) = Some e;
      has_dir (sp_disk s) dn; has_dir (sp_disk s) bad;
      \<And>n aside. n \<in> fst ` set es \<Longrightarrow> bundle n \<Longrightarrow> aside \<in> {dn, bad} \<Longrightarrow> stat (sp_disk s) (aside, n @ ''.'' @ itoa now) = None\<rbrakk> \<Longrightarrow>
    fst (toss_entries T t inbound dn bad secure es s) = None \<and>
    set_aside_all bundle now inbound dn bad es (sp_disk s) (sp_disk (snd (toss_entries T t inbound dn bad secure es s)))"
proof (induction es arbitrary: s)
  case Nil
  then show ?case by (simp add: toss_entries_def set_aside_all_def)
next
  case (Cons ne es)
  obtain n e where ne: "ne = (n, e)" by fastforce
  show ?case
  proof (cases "e = Folder \<or> \<not> bundle n")
    case True
    have run: "toss_entries T t inbound dn bad secure (ne # es) s = toss_entries T t inbound dn bad secure es s"
      using True by (auto simp: toss_entries_def ne bundle_def)
    have "fst (toss_entries T t inbound dn bad secure es s) = None \<and>
      set_aside_all bundle now inbound dn bad es (sp_disk s) (sp_disk (snd (toss_entries T t inbound dn bad secure es s)))"
      using Cons.prems by (intro Cons.IH) auto
    then show ?thesis using True unfolding run by (auto simp: set_aside_all_def ne)
  next
    case False
    then obtain c \<tau> where e: "e = Plain c \<tau>" "bundle n" by (cases e) auto
    let ?D = "sp_disk s" and ?step = "toss_file T t inbound dn bad secure n s"
    have found: "stat ?D (inbound, n) = Some (Plain c \<tau>)" using Cons.prems(2) [of n e] ne e by simp
    have free: "stat ?D (aside, n @ ''.'' @ itoa now) = None" if "aside \<in> {dn, bad}" for aside
      using Cons.prems(5) [of n aside] that ne e by simp
    obtain aside where aside: "aside \<in> {dn, bad}" and run: "fst ?step = None"
      "sp_disk (snd ?step) = snd (moveAside now (inbound, n) aside n ?D)"
      using toss_file_disk [OF found Cons.prems(3,4) dirs free [unfolded now_def] free [unfolded now_def], of t secure]
      by (auto simp: now_def)
    let ?a = "aside_name now aside n ?D" and ?D1 = "sp_disk (snd ?step)"
    have dir: "has_dir ?D aside" "path_Clean inbound \<noteq> path_Clean aside" using aside Cons.prems(3,4) dirs by auto
    note moved = moveAside_keeps [OF found dir free [OF aside]]
    have a: "?a \<in> {n, n @ ''.'' @ itoa now}" by (simp add: aside_name_def)
    have n: "n \<notin> fst ` set es" using Cons.prems(1) ne by simp
    have IH: "fst (toss_entries T t inbound dn bad secure es (snd ?step)) = None \<and>
      set_aside_all bundle now inbound dn bad es ?D1 (sp_disk (snd (toss_entries T t inbound dn bad secure es (snd ?step))))"
    proof (rule Cons.IH)
      show "distinct (map fst es)" using Cons.prems(1) by simp
      show "has_dir ?D1 dn" "has_dir ?D1 bad" using Cons.prems(3,4) by (simp_all add: run)
      show "stat ?D1 (inbound, m) = Some x" if "(m, x) \<in> set es" for m x
      proof -
        have "m \<noteq> n" using n that by force
        then show ?thesis using that Cons.prems(2) [of m x] dir(2) by (auto simp: run moved(2) same_place_def)
      qed
      show "stat ?D1 (as, m @ ''.'' @ itoa now) = None" if m: "m \<in> fst ` set es" "bundle m" "as \<in> {dn, bad}" for m as
      proof -
        have "m \<noteq> n" using n m by blast
        moreover have "m @ ''.'' @ itoa now \<noteq> n" using e(2) aside_not_bundle [of _ m now] by (auto simp: bundle_def)
        ultimately have "?a \<noteq> m @ ''.'' @ itoa now" using a by auto
        moreover have "stat ?D (as, m @ ''.'' @ itoa now) = None" using Cons.prems(5) [of m as] m by simp
        ultimately show ?thesis by (auto simp: run moved(2) same_place_def)
      qed
    qed
    have "toss_entries T t inbound dn bad secure (ne # es) s = toss_entries T t inbound dn bad secure es (snd ?step)"
      using False run(1) by (cases ?step) (auto simp: toss_entries_def ne bundle_def)
    moreover have "stat ?D1 p = (if same_place (aside, ?a) p then Some e
        else if same_place (inbound, n) p then None else stat ?D p)" for p by (simp add: run moved(2) e)
    note set_aside_first [OF dirs e(2) _ n aside a this moved(3) IH [THEN conjunct2]]
    ultimately show ?thesis using IH False by (simp add: ne)
  qed
qed

text \<open>
  Claim C24. No bundle is ever lost. A pass without file echoes (the tosser has no file store) over an inbound whose
  directories are distinct, at a moment whose clock value is no suffix of a file already set aside, succeeds; afterwards every
  bundle that lay in the inbound is gone from there and lies, byte for byte, in \<open>tossed\<close> or \<open>bad\<close> under
  its own name or, when that was taken, with the clock appended; every other file of the
  inbound is still there and no file of any other directory has changed or gone, even one of the
  same name.
\<close>

theorem Toss_loses_nothing:
  fixes T inbound dn bad t secure d D
  defines "now \<equiv> se_now (te_store T)" and "bundle \<equiv> IsMailBundle (se_lower (te_store T))"
    and "run \<equiv> Toss T t inbound dn bad secure d D"
  assumes ok: "disk_ok D" "inbound \<noteq> []" "FileArea t = None"
    and dirs: "path_Clean inbound \<noteq> path_Clean dn" "path_Clean inbound \<noteq> path_Clean bad"
    and free: "\<And>n aside. bundle n \<Longrightarrow> aside \<in> {dn, bad} \<Longrightarrow> stat D (aside, n @ ''.'' @ itoa now) = None"
  shows "fst run = None \<and>
    (\<forall>n c \<tau>. stat D (inbound, n) = Some (Plain c \<tau>) \<and> bundle n \<longrightarrow>
       stat (sp_disk (snd run)) (inbound, n) = None \<and> kept_aside now dn bad n (Plain c \<tau>) (sp_disk (snd run))) \<and>
    (\<forall>n. \<not> bundle n \<longrightarrow> stat (sp_disk (snd run)) (inbound, n) = stat D (inbound, n)) \<and>
    (\<forall>p e. path_Clean (fst p) \<noteq> path_Clean inbound \<longrightarrow> stat D p = Some e \<longrightarrow> stat (sp_disk (snd run)) p = Some e)"
proof (cases "ReadDir (MkdirAll bad (MkdirAll dn D)) inbound")
  case (Inl e)
  then have "stat (MkdirAll bad (MkdirAll dn D)) (inbound, n) = None" for n
    by (simp add: ReadDir_def stat_def del: stat_MkdirAll split: option.splits)
  then have none: "stat D (inbound, n) = None" for n by simp
  with Inl ok show ?thesis by (simp add: run_def Toss_def)
next
  case (Inr es)
  let ?D = "MkdirAll bad (MkdirAll dn D)" and ?s = "\<lparr>sp_db = d, sp_disk = MkdirAll bad (MkdirAll dn D), sp_stats = no_stats\<rparr>"
  have es: "distinct (map fst es)" "\<And>n e. (n, e) \<in> set es \<longleftrightarrow> stat D (inbound, n) = Some e"
    using ReadDir_entries [OF _ Inr] ok(1) by simp_all
  have r: "fst (toss_entries T t inbound dn bad secure es ?s) = None \<and>
      set_aside_all bundle now inbound dn bad es ?D (sp_disk (snd (toss_entries T t inbound dn bad secure es ?s)))"
    using toss_entries_disk [OF dirs, of es ?s T t secure] es free by (simp add: now_def bundle_def)
  have run: "run = toss_entries T t inbound dn bad secure es ?s"
    using r ok Inr by (auto simp: run_def Toss_def split: prod.splits option.splits)
  show ?thesis
  proof (intro conjI allI impI)
    show "fst run = None" using r run by simp
    fix n e p
    show "stat (sp_disk (snd run)) (inbound, n) = None" "kept_aside now dn bad n (Plain c \<tau>) (sp_disk (snd run))"
      if "stat D (inbound, n) = Some (Plain c \<tau>) \<and> bundle n" for c \<tau>
      using set_aside_allD(1) [OF r [THEN conjunct2], of n "Plain c \<tau>"] that es(2) run by auto
    show "stat (sp_disk (snd run)) (inbound, n) = stat D (inbound, n)" if "\<not> bundle n"
      using set_aside_allD(2) [OF r [THEN conjunct2], of n] that run by simp
    show "stat (sp_disk (snd run)) p = Some e" if "path_Clean (fst p) \<noteq> path_Clean inbound" "stat D p = Some e"
      using set_aside_allD(3) [OF r [THEN conjunct2], of p e] that run by simp
  qed
qed

definition demo_toss_env :: toss_env where
  "demo_toss_env = \<lparr>te_store = demo_env, te_unzip = (\<lambda>_. None), te_fold = (\<lambda>r. r)\<rparr>"

definition demo_disk :: disk where
  "demo_disk = [''in'' \<mapsto> [(''a.pkt'', Plain ''x'' 5)]]"

lemma demo_path_clean: "path_Clean ''in'' = ''in''" "path_Clean ''tossed'' = ''tossed''" "path_Clean ''bad'' = ''bad''"
  by (simp_all add: path_Clean_def show_path_def rooted_def clean_elems_def slash_def clean_step.simps)

lemma demo_bundle: "IsMailBundle lo ''a.pkt''"
proof -
  have "to_lower lo ''.pkt'' = ''.pkt''" by (simp add: to_lower_ascii is_ascii_def byte_val_def sql_lower_id)
  then show ?thesis
    by (simp add: IsMailBundle_def path_Base_def path_Ext_def path_Split_def trim_right_bytes_def slash_def)
qed

lemma demo_stat: "stat demo_disk (''in'', ''a.pkt'') = Some (Plain ''x'' 5)" "disk_ok demo_disk"
  "stat demo_disk (''tossed'', n) = None" "stat demo_disk (''bad'', n) = None"
  by (simp_all add: stat_def at_dir_def demo_path_clean demo_disk_def disk_ok_def)

theorem Toss_loses_nothing_witness:
  "kept_aside 1000 ''tossed'' ''bad'' ''a.pkt'' (Plain ''x'' 5)
     (sp_disk (snd (Toss demo_toss_env \<lparr>Own = [], FileArea = None\<rparr> ''in'' ''tossed'' ''bad'' True demo_db demo_disk)))"
proof -
  have "stat demo_disk (aside, n) = None" if "aside \<in> {''tossed'', ''bad''}" for n aside using that demo_stat(3,4) by auto
  moreover have "path_Clean ''in'' \<noteq> path_Clean ''tossed''" "path_Clean ''in'' \<noteq> path_Clean ''bad''" by (simp_all add: demo_path_clean)
  ultimately have "kept_aside (se_now (te_store demo_toss_env)) ''tossed'' ''bad'' ''a.pkt'' (Plain ''x'' 5)
     (sp_disk (snd (Toss demo_toss_env \<lparr>Own = [], FileArea = None\<rparr> ''in'' ''tossed'' ''bad'' True demo_db demo_disk)))"
    using Toss_loses_nothing [of demo_disk "''in''" "\<lparr>Own = [], FileArea = None\<rparr>" "''tossed''" "''bad''" demo_toss_env True demo_db]
      demo_stat demo_bundle by simp
  then show ?thesis by (simp add: demo_toss_env_def)
qed

theorem TossAll_sound_witness:
  "db_inv (sp_db (snd (TossAll \<lparr>Own = [], FileArea = None\<rparr> [(''in'', demo_toss_env)]
     \<lparr>sp_db = empty_db, sp_disk = demo_disk, sp_stats = no_stats\<rparr>)))"
  using TossAll_sound [of "\<lparr>sp_db = empty_db, sp_disk = demo_disk, sp_stats = no_stats\<rparr>" "[(''in'', demo_toss_env)]"
      "\<lparr>Own = [], FileArea = None\<rparr>"] reachable.new_install demo_env_fresh
  by (simp add: demo_toss_env_def)

end
