(* ===== verification/Tic_Props.thy ===== *)
theory Tic_Props
  imports Toss_Props
begin

text \<open>
  More about the tosser: bundles whose content was tossed before leave the database alone, and a
  TIC can put a file only into the directory of a well-formed area below the root, under a plain
  name, after its size and CRC were checked.
\<close>

section \<open>Bundles seen before\<close>

lemma moveAside_shrinks:
  assumes "path_Clean inbound \<noteq> path_Clean dn" "stat (snd (moveAside now (inbound, n) dn n D)) (inbound, m) = Some e"
  shows "stat D (inbound, m) = Some e"
proof (cases "same_place (inbound, n) (inbound, m)")
  case True
  show ?thesis
  proof (cases "fst (moveAside now (inbound, n) dn n D)")
    case (Inl x)
    then have "snd (moveAside now (inbound, n) dn n D) = D" unfolding moveAside_def by (rule Rename_Inl)
    with assms show ?thesis by simp
  next
    case (Inr u)
    then obtain c \<tau> where "stat D (inbound, n) = Some (Plain c \<tau>)" "has_dir D dn"
      "stat D (dn, aside_name now dn n D) \<noteq> Some Folder"
      unfolding moveAside_def by (auto elim!: Rename_InrD)
    from Rename_ok(2) [OF this(1), of "(dn, aside_name now dn n D)" "(inbound, m)"] this assms True
    show ?thesis by (auto simp: moveAside_def same_place_def)
  qed
next
  case False
  then show ?thesis using assms by (auto simp: moveAside_def Rename_other same_place_def)
qed

text \<open>
  Claim C23. A bundle is tossed once. When the content of every bundle in the inbound has been tossed before, under whatever name, a
  pass without file echoes (the tosser has no file store) leaves the database exactly as it was and counts nothing: no
  message is imported a second time, not even one that was pruned, deleted or edited since.
\<close>

theorem seen_bundles_ignored:
  assumes seen: "\<And>n c \<tau>. stat D (inbound, n) = Some (Plain c \<tau>) \<Longrightarrow> IsMailBundle (se_lower (te_store T)) n \<Longrightarrow>
      FTNFileSeen d (fileSHA256 (te_store T) c)"
    and dirs: "path_Clean inbound \<noteq> path_Clean dn" and plain: "FileArea t = None"
  shows "sp_db (snd (Toss T t inbound dn bad secure d D)) = d \<and>
    sp_stats (snd (Toss T t inbound dn bad secure d D)) = no_stats"
proof -
  define I where "I s \<longleftrightarrow> sp_db s = d \<and> sp_stats s = no_stats \<and>
    (\<forall>n e. stat (sp_disk s) (inbound, n) = Some e \<longrightarrow> stat D (inbound, n) = Some e)" for s :: spool
  have step: "I (snd (toss_file T t inbound dn bad secure n s))" if I: "I s" and n: "IsMailBundle (se_lower (te_store T)) n" for n s
  proof (cases "read_file (sp_disk s) (inbound, n)")
    case (Inr c)
    then obtain \<tau> where "stat (sp_disk s) (inbound, n) = Some (Plain c \<tau>)"
      by (auto simp: read_file_def split: option.splits dirent.splits)
    then have "FTNFileSeen (sp_db s) (fileSHA256 (te_store T) c)" using I n seen unfolding I_def by blast
    then have new: "snd (toss_file T t inbound dn bad secure n s) =
        s\<lparr>sp_disk := snd (moveAside (se_now (te_store T)) (inbound, n) dn n (sp_disk s))\<rparr>"
      using Inr by (simp add: toss_file_def Let_def)
    have "stat D (inbound, m) = Some e"
      if "stat (snd (moveAside (se_now (te_store T)) (inbound, n) dn n (sp_disk s))) (inbound, m) = Some e" for m e
      using moveAside_shrinks [OF dirs that] I unfolding I_def by blast
    with I show ?thesis unfolding new I_def by simp
  qed (use I in \<open>simp add: toss_file_def\<close>)
  have "I (snd (toss_entries T t inbound dn bad secure es s))" if "I s" for es s
    unfolding toss_entries_def by (rule each_of_keeps [of I]) (use that step in auto)
  moreover have "I \<lparr>sp_db = d, sp_disk = MkdirAll bad (MkdirAll dn D), sp_stats = no_stats\<rparr>" by (simp add: I_def)
  ultimately have "I (snd (toss_entries T t inbound dn bad secure es
      \<lparr>sp_db = d, sp_disk = MkdirAll bad (MkdirAll dn D), sp_stats = no_stats\<rparr>))" for es by blast
  then show ?thesis using plain unfolding I_def
    by (auto simp: Toss_def Let_def split: sum.splits prod.splits option.splits) (metis snd_conv)+
qed

theorem seen_bundles_ignored_witness:
  "sp_db (snd (Toss demo_toss_env \<lparr>Own = [], FileArea = None\<rparr> ''in'' ''tossed'' ''bad'' True
     (demo_db\<lparr>t_tossed := [(''78'', ''other.pkt'', 1)]\<rparr>) demo_disk)) = demo_db\<lparr>t_tossed := [(''78'', ''other.pkt'', 1)]\<rparr>"
proof -
  have "FTNFileSeen (demo_db\<lparr>t_tossed := [(''78'', ''other.pkt'', 1)]\<rparr>) (fileSHA256 (te_store demo_toss_env) c)"
    if "stat demo_disk (''in'', n) = Some (Plain c \<tau>)" for n c \<tau>
  proof -
    have "c = ''x''" using that by (auto simp: stat_def at_dir_def demo_path_clean demo_disk_def split: if_splits)
    moreover have "fileSHA256 (te_store demo_toss_env) ''x'' = ''78''"
      by code_simp
    ultimately show ?thesis by (simp add: FTNFileSeen_def)
  qed
  moreover have "path_Clean ''in'' \<noteq> path_Clean ''tossed''" by (simp add: demo_path_clean)
  ultimately show ?thesis
    using seen_bundles_ignored [of demo_disk "''in''" demo_toss_env "demo_db\<lparr>t_tossed := [(''78'', ''other.pkt'', 1)]\<rparr>" "''tossed''"
        "\<lparr>Own = [], FileArea = None\<rparr>" "''bad''" True] by simp
qed

section \<open>Where file echoes go\<close>

lemma tag_char: "tag_first c \<Longrightarrow> is_ascii c \<and> c \<noteq> slash \<and> c \<noteq> CHR ''.''"
  by (auto simp: tag_first_def is_ascii_def slash_def byte_val_def Let_def)

lemma safe_tag_plain:
  assumes "safeAreaTag tag"
  shows "plain_name (to_lower lo tag)"
proof -
  obtain c r where tag: "tag = c # r" "tag_first c" "list_all (\<lambda>c. tag_first c \<or> c \<in> set ''._!-'') r"
    using assms by (auto simp: safeAreaTag_def split: list.splits)
  have ascii: "is_ascii x \<and> x \<noteq> slash" if "x \<in> set tag" for x
    using that tag tag_char [of x] by (auto simp: list_all_iff is_ascii_def slash_def byte_val_def)
  then have low: "to_lower lo tag = sql_lower tag" by (intro to_lower_ascii) (simp add: list_all_iff)
  have keep: "byte_of (ascii_lower (byte_val x)) \<noteq> y" if "is_ascii x" "x \<noteq> y" "byte_val y < 65" for x y
    using that byte_val_byte_of [of "ascii_lower (byte_val x)"] by (auto simp: ascii_lower_def is_ascii_def split: if_splits)
  have "byte_val slash < 65" by (simp add: slash_def byte_val_def)
  then have "slash \<noteq> byte_of (ascii_lower (byte_val x))" if "x \<in> set tag" for x
    using ascii [OF that] keep [of x slash] by (metis (no_types))
  then have "slash \<notin> set (sql_lower tag)" by (simp add: sql_lower_def image_iff)
  moreover have "hd (sql_lower tag) \<noteq> CHR ''.''"
    using keep [of c "CHR ''.''"] tag(1) tag_char [OF tag(2)] by (simp add: sql_lower_def byte_val_def)
  moreover have "sql_lower tag \<noteq> []" using tag(1) by (simp add: sql_lower_def)
  ultimately show ?thesis unfolding plain_name_def low by auto
qed

lemma safe_file_plain:
  assumes "ParseTIC lo up r = Inr tic"
  shows "safeAreaTag (tic_Area tic)" "plain_name (tic_File tic)"
  using assms by (auto simp: ParseTIC_def Let_def plain_name_def unsafeInName_def list_ex_iff split: sum.splits if_splits)

lemma Rename_stat:
  assumes "stat (snd (Rename src dst D)) p = Some e"
  shows "stat D p = Some e \<or> same_place dst p \<and> stat D src = Some e"
proof (cases "fst (Rename src dst D)")
  case (Inl x)
  then have "snd (Rename src dst D) = D" by (rule Rename_Inl)
  with assms show ?thesis by simp
next
  case (Inr u)
  then obtain c \<tau> where src: "stat D src = Some (Plain c \<tau>)" "has_dir D (fst dst)" "stat D dst \<noteq> Some Folder"
    by (rule Rename_InrD)
  then show ?thesis using assms Rename_ok(2) [OF src, of p] by (auto split: if_splits)
qed

lemma moveAside_stat:
  "stat (snd (moveAside now src dir n D)) p = Some e \<Longrightarrow> path_Clean (fst p) \<noteq> path_Clean dir \<Longrightarrow> stat D p = Some e"
  using Rename_stat [of src "(dir, aside_name now dir n D)" D p e] by (auto simp: moveAside_def same_place_def)

lemma set_aside_stat:
  assumes "path_Clean (fst p) \<noteq> path_Clean bad" "stat (sp_disk (snd (set_aside now bad ps s))) p = Some e"
  shows "stat (sp_disk s) p = Some e"
proof -
  define I where "I x \<longleftrightarrow> (stat (sp_disk x) p = Some e \<longrightarrow> stat (sp_disk s) p = Some e)" for x :: spool
  have "I (snd (set_aside now bad ps s))" unfolding set_aside_def
  proof (rule each_of_keeps [of I])
    fix q x assume "I x"
    then show "I (snd (case moveAside now q bad (snd q) (sp_disk x) of
        (Inl e, D) \<Rightarrow> (Some (OsErr e), x) | (Inr _, D) \<Rightarrow> (None, x\<lparr>sp_disk := D\<rparr>)))"
      using moveAside_stat [of now q bad "snd q" "sp_disk x" p e] assms(1) by (auto simp: I_def split: prod.splits sum.splits)
  qed (simp add: I_def)
  with assms(2) show ?thesis by (simp add: I_def)
qed

lemma remove_replaced_stat:
  "stat (sp_disk (remove_replaced E fo fs tic s)) p = Some e \<Longrightarrow> stat (sp_disk s) p = Some e"
  by (auto simp: remove_replaced_def Let_def stat_Remove split: if_splits prod.splits sum.splits)

lemma install_stat:
  assumes "path_Clean (fst p) \<noteq> path_Clean dn" "stat (sp_disk (snd (install_file E fo fs tic data q dn s))) p = Some e"
  shows "stat (sp_disk s) p = Some e \<or>
    same_place (areaDir (se_lower E) fs (tic_Area tic), tic_File tic) p \<and> stat (sp_disk s) data = Some e"
proof -
  define dst where "dst = (areaDir (se_lower E) fs (tic_Area tic), tic_File tic)"
  define s1 where "s1 = remove_replaced E fo fs tic (s\<lparr>sp_disk := MkdirAll (areaDir (se_lower E) fs (tic_Area tic)) (sp_disk s)\<rparr>)"
  have s1: "stat (sp_disk s) r = Some e" if "stat (sp_disk s1) r = Some e" for r
    using remove_replaced_stat [OF that [unfolded s1_def]] by simp
  obtain r D2 where mv: "moveFile data dst (sp_disk s1) = (r, D2)" by fastforce
  have end_disk: "sp_disk (snd (install_file E fo fs tic data q dn s)) \<in> {sp_disk s1, D2, snd (moveAside (se_now E) q dn (snd q) D2)}"
    unfolding install_file_def Let_def s1_def [symmetric] dst_def [symmetric] mv
    by (auto split: prod.splits sum.splits option.splits)
  then have "stat (sp_disk s1) p = Some e \<or> stat (snd (moveFile data dst (sp_disk s1))) p = Some e"
    using assms moveAside_stat [of "se_now E" q dn "snd q" D2 p e] unfolding mv by auto
  then have "stat (sp_disk s1) p = Some e \<or> same_place dst p \<and> stat (sp_disk s1) data = Some e"
    using Rename_stat [of data dst "sp_disk s1" p e] unfolding moveFile_def by blast
  then show ?thesis using s1 unfolding dst_def by blast
qed

text \<open>
  Claim C25. A TIC cannot write where it likes. If after a TIC has been tossed a file outside the
  inbound, \<open>tossed\<close> and \<open>bad\<close> directories is there that was not there with this content before,
  then it lies directly in a directory of the file root named by a single path element (never
  \<open>.\<close> or \<open>..\<close>, no slash), under a name that is a single path element, and its content has the
  size and the CRC-32 that the TIC states and at most one gigabyte.
\<close>

theorem tossTIC_confined:
  assumes out: "path_Clean (fst p) \<noteq> path_Clean dn" "path_Clean (fst p) \<noteq> path_Clean bad"
    and new: "stat (sp_disk (snd (tossTIC E fo fs inbound q dn bad s))) p = Some (Plain c \<tau>)"
      "stat (sp_disk s) p \<noteq> Some (Plain c \<tau>)"
  shows "\<exists>dir name tic. plain_name dir \<and> plain_name name \<and> clean_elems (fst p) = clean_elems (fs_Root fs) @ [dir] \<and>
    rooted (fst p) = rooted (fs_Root fs) \<and> snd p = name \<and> length c \<le> MaxFileBytes \<and>
    (tic_Size tic < 0 \<or> int (length c) = tic_Size tic) \<and> crc32 c = tic_CRC tic \<and>
    (\<exists>content. read_file (sp_disk s) q = Inr content \<and> ParseTIC (se_lower E) (se_upper E) content = Inr tic)"
proof -
  note aside = set_aside_stat [OF out(2)]
  obtain content tic data where tic: "read_file (sp_disk s) q = Inr content" "ParseTIC (se_lower E) (se_upper E) content = Inr tic"
    and data: "findInDir fo (sp_disk s) inbound (tic_File tic) = Some data" "checkFile (sp_disk s) data tic"
    and run: "tossTIC E fo fs inbound q dn bad s = install_file E fo fs tic data q dn s"
    using new aside [of "se_now E" _ s] by (auto simp: tossTIC_def split: sum.splits option.splits if_splits)
  let ?tag = "to_lower (se_lower E) (tic_Area tic)"
  have at: "same_place (areaDir (se_lower E) fs (tic_Area tic), tic_File tic) p" "stat (sp_disk s) data = Some (Plain c \<tau>)"
    using install_stat [OF out(1) new(1) [unfolded run]] new(2) by blast+
  have plain: "plain_name ?tag" "plain_name (tic_File tic)"
    using safe_file_plain [OF tic(2)] by (simp_all add: safe_tag_plain)
  have "path_Clean (fst p) = path_Clean (path_Join [fs_Root fs, ?tag])" "snd p = tic_File tic"
    using at(1) by (simp_all add: same_place_def areaDir_def)
  then have place: "clean_elems (fst p) = clean_elems (fs_Root fs) @ [?tag]" "rooted (fst p) = rooted (fs_Root fs)"
    using path_Join_plain [OF plain(1), of "fs_Root fs"] clean_elems_Clean [of "fst p"] by (metis clean_elems_Clean)+
  have ok: "check_content c tic = None" using data(2) at(2) by (simp add: checkFile_def read_file_def)
  then have "length c \<le> MaxFileBytes" by (auto simp: check_content_def Let_def split: if_splits)
  moreover from this ok have "tic_Size tic < 0 \<or> int (length c) = tic_Size tic" "crc32 c = tic_CRC tic"
    by (auto simp: check_content_def Let_def split: if_splits)
  ultimately show ?thesis using plain place \<open>snd p = tic_File tic\<close> tic by blast
qed

text \<open>A file that checks out arrives, whatever the database says to it.\<close>

lemma install_lands:
  fixes fs tic E
  defines "dst \<equiv> (areaDir (se_lower E) fs (tic_Area tic), tic_File tic)"
  assumes data: "stat (sp_disk s) data = Some (Plain c \<tau>)" and dst: "stat (sp_disk s) dst \<noteq> Some Folder"
    and simple: "tic_Replaces tic = []" and far: "path_Clean (fst dst) \<noteq> path_Clean dn" "\<not> same_place q dst"
  shows "stat (sp_disk (snd (install_file E fo fs tic data q dn s))) dst = Some (Plain c \<tau>)"
proof -
  define s1 where "s1 = s\<lparr>sp_disk := MkdirAll (fst dst) (sp_disk s)\<rparr>"
  have s1: "remove_replaced E fo fs tic s1 = s1" using simple by (simp add: remove_replaced_def)
  obtain r D2 where mv: "moveFile data dst (sp_disk s1) = (r, D2)" by fastforce
  have "has_dir (sp_disk s1) (fst dst)" "stat (sp_disk s1) data = Some (Plain c \<tau>)" "stat (sp_disk s1) dst \<noteq> Some Folder"
    using data dst by (simp_all add: s1_def)
  from Rename_ok [OF this(2,1,3)] mv have D2: "r = Inr ()" "stat D2 dst = Some (Plain c \<tau>)"
    by (auto simp: moveFile_def)
  have after: "stat (snd (moveAside (se_now E) q dn (snd q) D2)) dst = Some (Plain c \<tau>)"
    using D2(2) far Rename_other [of q dst "(dn, aside_name (se_now E) dn (snd q) D2)" D2]
    by (auto simp: moveAside_def same_place_def)
  have "sp_disk (snd (install_file E fo fs tic data q dn s)) \<in> {D2, snd (moveAside (se_now E) q dn (snd q) D2)}"
    using s1 mv D2(1)
    by (auto simp: install_file_def Let_def s1_def dst_def split: prod.splits sum.splits option.splits)
  then show ?thesis using D2(2) after by auto
qed

definition demo_tic_text :: string where
  "demo_tic_text = ''area X'' @ [CHR 0x0A] @ ''file f'' @ [CHR 0x0A] @ ''crc 0''"

definition demo_tic :: TIC where
  "demo_tic = empty_tic\<lparr>tic_Area := ''X'', tic_File := ''f'', tic_CRC := 0, tic_HasCRC := True\<rparr>"

lemma demo_tic_lines:
  "tic_line (\<lambda>r. r) (\<lambda>r. r) ''area X'' t = t\<lparr>tic_Area := ''X''\<rparr>"
  "tic_line (\<lambda>r. r) (\<lambda>r. r) ''file f'' t = t\<lparr>tic_File := ''f''\<rparr>"
  "tic_line (\<lambda>r. r) (\<lambda>r. r) ''crc 0'' t = t\<lparr>tic_CRC := 0, tic_HasCRC := True\<rparr>"
proof -
  have hex: "parse_hex32 ''0'' = Some 0" by (simp add: parse_hex32_def hex_val_def byte_val_def)
  have l: "to_lower (\<lambda>r. r) ''area'' = ''area''" "to_lower (\<lambda>r. r) ''file'' = ''file''" "to_lower (\<lambda>r. r) ''crc'' = ''crc''"
    by (simp_all add: to_lower_ascii is_ascii_def byte_val_def sql_lower_id)
  have u: "to_upper (\<lambda>r. r) ''X'' = ''X''" by (rule to_upper_id) (simp add: is_ascii_def byte_val_def)
  have v: "trim_space ''X'' = ''X''" "trim_space ''f'' = ''f''" "trim_space ''0'' = ''0''"
    by (rule trim_space_graphic, simp add: graphic_def byte_val_def)+
  show "tic_line (\<lambda>r. r) (\<lambda>r. r) ''area X'' t = t\<lparr>tic_Area := ''X''\<rparr>"
    "tic_line (\<lambda>r. r) (\<lambda>r. r) ''file f'' t = t\<lparr>tic_File := ''f''\<rparr>"
    "tic_line (\<lambda>r. r) (\<lambda>r. r) ''crc 0'' t = t\<lparr>tic_CRC := 0, tic_HasCRC := True\<rparr>"
    by (simp_all add: tic_line_def trim_left_bytes_def trim_right_bytes_def l u v hex)
qed

lemma demo_tic_parse: "ParseTIC (\<lambda>r. r) (\<lambda>r. r) demo_tic_text = Inr demo_tic"
  by (simp add: ParseTIC_def demo_tic_text_def maxTICBytes_def scan_lines_def drop_cr_def demo_tic_lines demo_tic_def
      safeAreaTag_def tag_first_def byte_val_def unsafeInName_def slash_def empty_tic_def)

definition demo_tic_disk :: disk where
  "demo_tic_disk = [''in'' \<mapsto> [(''a.tic'', Plain demo_tic_text 5), (''f'', Plain [] 5)]]"

lemma demo_tic_install:
  "tossTIC demo_env (\<lambda>r. r) \<lparr>fs_Root = ''files''\<rparr> ''in'' (''in'', ''a.tic'') ''tossed'' ''bad''
     \<lparr>sp_db = demo_db, sp_disk = demo_tic_disk, sp_stats = no_stats\<rparr> =
   install_file demo_env (\<lambda>r. r) \<lparr>fs_Root = ''files''\<rparr> demo_tic (''in'', ''f'') (''in'', ''a.tic'') ''tossed''
     \<lparr>sp_db = demo_db, sp_disk = demo_tic_disk, sp_stats = no_stats\<rparr>"
proof -
  have no: "\<not> equal_fold (\<lambda>r. r) ''a.tic'' ''f''"
    by (simp add: equal_fold_def runes_ascii is_ascii_def byte_val_def)
  have r: "read_file demo_tic_disk (''in'', ''a.tic'') = Inr demo_tic_text" "read_file demo_tic_disk (''in'', ''f'') = Inr []"
    by (simp_all add: read_file_def stat_def at_dir_def demo_path_clean demo_tic_disk_def)
  have f: "findInDir (\<lambda>r. r) demo_tic_disk ''in'' (tic_File demo_tic) = Some (''in'', ''f'')"
    using no by (simp add: findInDir_def ReadDir_def at_dir_def demo_path_clean demo_tic_disk_def demo_tic_def)
  have "check_content [] demo_tic = None"
    by (simp add: check_content_def demo_tic_def empty_tic_def crc32_def)
  then have "checkFile demo_tic_disk (''in'', ''f'') demo_tic" by (simp add: checkFile_def r)
  then show ?thesis using demo_tic_parse by (simp add: tossTIC_def r f demo_env_def)
qed

lemma demo_tic_dir: "areaDir (\<lambda>r. r) \<lparr>fs_Root = ''files''\<rparr> ''X'' = ''files/x''"
proof -
  have "byte_of 120 = CHR ''x''" by code_simp
  then have "to_lower (\<lambda>r. r) ''X'' = ''x''"
    by (simp add: to_lower_ascii is_ascii_def byte_val_def sql_lower_def ascii_lower_def)
  then show ?thesis by (simp add: areaDir_def path_Join_def path_Clean_def show_path_def rooted_def clean_elems_def slash_def clean_step.simps)
qed

theorem tossTIC_confined_witness:
  "\<exists>dir. plain_name dir \<and> clean_elems ''files/x'' = clean_elems ''files'' @ [dir]"
proof -
  let ?s = "\<lparr>sp_db = demo_db, sp_disk = demo_tic_disk, sp_stats = no_stats\<rparr>"
  let ?p = "(''files/x'', ''f'')"
  have c: "path_Clean ''files/x'' = ''files/x''"
    by (simp add: path_Clean_def show_path_def rooted_def clean_elems_def slash_def clean_step.simps)
  have dst: "(areaDir (se_lower demo_env) \<lparr>fs_Root = ''files''\<rparr> (tic_Area demo_tic), tic_File demo_tic) = ?p"
    using demo_tic_dir by (simp add: demo_tic_def demo_env_def)
  have none: "stat demo_tic_disk ?p = None" by (simp add: stat_def at_dir_def c demo_tic_disk_def)
  have "stat demo_tic_disk (''in'', ''f'') = Some (Plain [] 5)"
    by (simp add: stat_def at_dir_def demo_path_clean demo_tic_disk_def)
  then have "stat (sp_disk (snd (tossTIC demo_env (\<lambda>r. r) \<lparr>fs_Root = ''files''\<rparr> ''in'' (''in'', ''a.tic'') ''tossed'' ''bad'' ?s))) ?p = Some (Plain [] 5)"
    unfolding demo_tic_install
    using install_lands [of ?s "(''in'', ''f'')" "[]" 5 demo_env "\<lparr>fs_Root = ''files''\<rparr>" demo_tic "''tossed''" "(''in'', ''a.tic'')" "\<lambda>r. r"]
    unfolding dst using none by (simp add: demo_path_clean c same_place_def) (simp add: demo_tic_def empty_tic_def)
  from tossTIC_confined [OF _ _ this] none show ?thesis by (auto simp: demo_path_clean c)
qed

end
