(* ===== verification/Filelink.thy ===== *)
theory Filelink
  imports Tic_Props
begin

text \<open>
  \<open>internal/filelink\<close>: download links. A token names a file, an account and a time, signed with
  \<open>hmac\<close>, the HMAC-SHA256 of the standard library (key, data). A token is accepted exactly when its
  signature is that of the link it grants and the link has not expired; the handler serves only
  files below the root. Keys are read from a file or made; the HTTP headers are not modelled.
\<close>

section \<open>Unpadded base64, the URL alphabet\<close>

definition b64_char :: "nat \<Rightarrow> char" where
  "b64_char n = byte_of (if n < 26 then 65 + n else if n < 52 then 71 + n else if n < 62 then n - 4 else if n = 62 then 45 else 95)"

definition b64_val :: "char \<Rightarrow> nat option" where
  "b64_val c = (let v = byte_val c in
     if 65 \<le> v \<and> v \<le> 90 then Some (v - 65) else if 97 \<le> v \<and> v \<le> 122 then Some (v - 71)
     else if 48 \<le> v \<and> v \<le> 57 then Some (v + 4) else if v = 45 then Some 62 else if v = 95 then Some 63 else None)"

fun b64_digits :: "nat list \<Rightarrow> nat list" where
  "b64_digits [] = []"
| "b64_digits [a] = [a div 4, a mod 4 * 16]"
| "b64_digits [a, b] = [a div 4, a mod 4 * 16 + b div 16, b mod 16 * 4]"
| "b64_digits (a # b # c # r) = [a div 4, a mod 4 * 16 + b div 16, b mod 16 * 4 + c div 64, c mod 64] @ b64_digits r"

definition b64_encode :: "string \<Rightarrow> string" where
  "b64_encode s = map b64_char (b64_digits (map byte_val s))"

text \<open>Trailing bits of the last group are ignored, as \<open>RawURLEncoding\<close> does.\<close>

fun b64_bytes :: "nat list \<Rightarrow> nat list option" where
  "b64_bytes [] = Some []"
| "b64_bytes [a] = None"
| "b64_bytes [a, b] = Some [a * 4 + b div 16]"
| "b64_bytes [a, b, c] = Some [a * 4 + b div 16, b mod 16 * 16 + c div 4]"
| "b64_bytes (a # b # c # d # r) =
     map_option (\<lambda>bs. [a * 4 + b div 16, b mod 16 * 16 + c div 4, c mod 4 * 64 + d] @ bs) (b64_bytes r)"

text \<open>Line ends in the input are skipped.\<close>

definition b64_decode :: "string \<Rightarrow> string option" where
  "b64_decode s =
     (let vs = map b64_val (filter (\<lambda>c. c \<noteq> CHR 0x0A \<and> c \<noteq> CHR 0x0D) s)
      in if list_all (\<lambda>v. v \<noteq> None) vs then map_option (map byte_of) (b64_bytes (map the vs)) else None)"

lemma b64_digits_bound: "list_all (\<lambda>v. v < 256) bs \<Longrightarrow> list_all (\<lambda>d. d < 64) (b64_digits bs)"
  by (induction bs rule: b64_digits.induct) auto

lemma div_mod_pair: "x < n \<Longrightarrow> (m * n + x) div n = m \<and> (m * n + x) mod n = (x :: nat)"
  by simp

lemma b64_arith:
  fixes a b c :: nat
  shows "a div 4 * 4 + a mod 4 * 16 div 16 = a"
    and "b < 256 \<Longrightarrow> a div 4 * 4 + (a mod 4 * 16 + b div 16) div 16 = a"
    and "b < 256 \<Longrightarrow> (a mod 4 * 16 + b div 16) mod 16 * 16 + b mod 16 * 4 div 4 = b"
    and "b < 256 \<Longrightarrow> c < 256 \<Longrightarrow> (a mod 4 * 16 + b div 16) mod 16 * 16 + (b mod 16 * 4 + c div 64) div 4 = b"
    and "c < 256 \<Longrightarrow> (b mod 16 * 4 + c div 64) mod 4 * 64 + c mod 64 = c"
proof -
  have x: "b < 256 \<Longrightarrow> b div 16 < 16" "c < 256 \<Longrightarrow> c div 64 < 4" by (simp_all add: less_mult_imp_div_less)
  note p = div_mod_pair [OF x(1), of "a mod 4"] div_mod_pair [OF x(2), of "b mod 16"]
  show "a div 4 * 4 + a mod 4 * 16 div 16 = a"
    and "b < 256 \<Longrightarrow> a div 4 * 4 + (a mod 4 * 16 + b div 16) div 16 = a"
    and "b < 256 \<Longrightarrow> (a mod 4 * 16 + b div 16) mod 16 * 16 + b mod 16 * 4 div 4 = b"
    and "b < 256 \<Longrightarrow> c < 256 \<Longrightarrow> (a mod 4 * 16 + b div 16) mod 16 * 16 + (b mod 16 * 4 + c div 64) div 4 = b"
    and "c < 256 \<Longrightarrow> (b mod 16 * 4 + c div 64) mod 4 * 64 + c mod 64 = c"
    by (simp_all only: p div_mult_mod_eq nonzero_mult_div_cancel_right)
qed

lemma b64_bytes_digits: "list_all (\<lambda>v. v < 256) bs \<Longrightarrow> b64_bytes (b64_digits bs) = Some bs"
  by (induction bs rule: b64_digits.induct)
     (simp_all only: b64_digits.simps b64_bytes.simps b64_arith list.pred_inject option.map append.simps)

lemma b64_val_char: "d < 64 \<Longrightarrow> b64_val (b64_char d) = Some d"
  by (auto simp: b64_char_def b64_val_def byte_val_byte_of Let_def)

lemma b64_char_plain: "d < 64 \<Longrightarrow> b64_char d \<noteq> CHR 0x0A \<and> b64_char d \<noteq> CHR 0x0D \<and> b64_char d \<noteq> CHR ''.''"
proof -
  assume d: "d < 64"
  then have "b64_val (b64_char d) \<noteq> None" by (simp add: b64_val_char)
  then show ?thesis by (auto simp: b64_val_def byte_val_def)
qed

lemma b64_decode_encode: "b64_decode (b64_encode s) = Some s" "CHR ''.'' \<notin> set (b64_encode s)"
proof -
  let ?ds = "b64_digits (map byte_val s)"
  have bytes: "list_all (\<lambda>v. v < 256) (map byte_val s)" by (simp add: list_all_iff byte_val_lt)
  have d: "d < 64" if "d \<in> set ?ds" for d using b64_digits_bound [OF bytes] that by (simp add: list_all_iff)
  have "filter (\<lambda>c. c \<noteq> CHR 0x0A \<and> c \<noteq> CHR 0x0D) (b64_encode s) = b64_encode s"
    using b64_char_plain d by (intro filter_True) (auto simp: b64_encode_def)
  moreover have "map b64_val (b64_encode s) = map Some ?ds"
    using d by (simp add: b64_encode_def b64_val_char)
  ultimately show "b64_decode (b64_encode s) = Some s"
    by (simp add: b64_decode_def Let_def list_all_iff comp_def b64_bytes_digits [OF bytes] byte_of_byte_val)
  show "CHR ''.'' \<notin> set (b64_encode s)" using b64_char_plain d by (fastforce simp: b64_encode_def)
qed

section \<open>Tokens\<close>

record Link =
  FileID :: int
  UserID :: int
  Expires :: nanos

definition keyBytes :: nat where "keyBytes = 32"
definition sigBytes :: nat where "sigBytes = 16"

text \<open>\<open>PutUint64(uint64(v))\<close> and \<open>int64(Uint64(p))\<close>, big-endian and in two's complement.\<close>

definition be64 :: "int \<Rightarrow> string" where
  "be64 v = map (\<lambda>i. byte_of (nat (v div 256 ^ i mod 256))) [7, 6, 5, 4, 3, 2, 1, 0]"

definition uint64 :: "string \<Rightarrow> int" where
  "uint64 p = foldl (\<lambda>n c. 256 * n + int (byte_val c)) 0 (take 8 p)"

definition int64 :: "string \<Rightarrow> int" where
  "int64 p = (let n = uint64 p in if n < 2 ^ 63 then n else n - 2 ^ 64)"

text \<open>\<open>t.Unix()\<close>; the times here count nanoseconds from the Unix epoch.\<close>

definition Unix :: "nanos \<Rightarrow> int" where "Unix t = t div 1000000000"

definition payload :: "Link \<Rightarrow> string" where
  "payload l = be64 (FileID l) @ be64 (UserID l) @ be64 (Unix (Expires l))"

definition mac :: "(string \<Rightarrow> string \<Rightarrow> string) \<Rightarrow> string \<Rightarrow> string \<Rightarrow> string" where
  "mac hmac key p = take sigBytes (hmac key (''boar-filelink-v1'' @ [CHR 0x00] @ p))"

definition Sign :: "(string \<Rightarrow> string \<Rightarrow> string) \<Rightarrow> string \<Rightarrow> Link \<Rightarrow> string" where
  "Sign hmac key l = b64_encode (payload l) @ ''.'' @ b64_encode (mac hmac key (payload l))"

definition link_of :: "string \<Rightarrow> Link" where
  "link_of p = \<lparr>FileID = int64 p, UserID = int64 (drop 8 p), Expires = int64 (drop 16 p) * 1000000000\<rparr>"

text \<open>\<open>None\<close> is \<open>ErrInvalid\<close>.\<close>

definition Verify :: "(string \<Rightarrow> string \<Rightarrow> string) \<Rightarrow> string \<Rightarrow> string \<Rightarrow> nanos \<Rightarrow> Link option" where
  "Verify hmac key token now = (case cut_at CHR ''.'' token of
       None \<Rightarrow> None
     | Some (pay, sig) \<Rightarrow> (case b64_decode pay of
         None \<Rightarrow> None
       | Some p \<Rightarrow>
           if length p \<noteq> 24 then None
           else case b64_decode sig of
               None \<Rightarrow> None
             | Some s \<Rightarrow>
                 if s \<noteq> mac hmac key p then None
                 else let l = link_of p in if \<not> now < Expires l then None else Some l))"

section \<open>The signing key\<close>

text \<open>\<open>file\<close> is what reading the key file gives, \<open>random\<close> the bytes of \<open>rand.Read\<close>; the second
  component is the file to create. Failing system calls are not modelled.\<close>

definition LoadKey :: "string option \<Rightarrow> string \<Rightarrow> string option \<times> string option" where
  "LoadKey file random = (case file of
       Some key \<Rightarrow> (if length key < keyBytes then None else Some key, None)
     | None \<Rightarrow> (Some (take keyBytes random), Some (take keyBytes random)))"

section \<open>Numbers\<close>

lemma length_be64 [simp]: "length (be64 v) = 8"
  by (simp add: be64_def)

lemma horner: "foldl (\<lambda>n d. 256 * n + d) a (map (\<lambda>i. v div 256 ^ i mod 256) (rev [0..<k])) = a * 256 ^ k + v mod 256 ^ k"
  for a v :: int
proof (induction k arbitrary: a)
  case (Suc k)
  have "v mod (256 ^ k * 256) = 256 ^ k * (v div 256 ^ k mod 256) + v mod 256 ^ k"
    by (rule zmod_zmult2_eq) simp
  then show ?case using Suc.IH [of "256 * a + v div 256 ^ k mod 256"] by (simp add: algebra_simps)
qed simp

lemma uint64_be64: "uint64 (be64 v @ r) = v mod 2 ^ 64"
proof -
  have b: "int (byte_val (byte_of (nat (k mod 256)))) = k mod 256" for k :: int
  proof -
    have "nat (k mod 256) < 256" by (simp add: nat_less_iff)
    then show ?thesis by (simp add: byte_val_byte_of)
  qed
  have whole: "take 8 (be64 v @ r) = be64 v" by simp
  have upto: "[7, 6, 5, 4, 3, 2, 1, 0] = rev [0..<8]" by (simp add: upt_rec)
  have "uint64 (be64 v @ r) = foldl (\<lambda>n d. 256 * n + d) 0 (map (\<lambda>i. v div 256 ^ i mod 256) (rev [0..<8]))"
    unfolding uint64_def whole unfolding be64_def upto by (simp only: foldl_map b)
  also have "\<dots> = v mod 256 ^ 8" unfolding horner by simp
  finally show ?thesis by simp
qed

lemma int64_be64: "- (2 ^ 63) \<le> v \<Longrightarrow> v < 2 ^ 63 \<Longrightarrow> int64 (be64 v @ r) = v"
proof -
  assume v: "- (2 ^ 63) \<le> v" "v < 2 ^ 63"
  show ?thesis
  proof (cases "0 \<le> v")
    case True
    then have "v mod 2 ^ 64 = v" using v by (intro mod_pos_pos_trivial) simp_all
    with True v show ?thesis by (simp add: int64_def uint64_be64)
  next
    case False
    have "v mod 2 ^ 64 = (v + 2 ^ 64) mod 2 ^ 64" by simp
    also have "\<dots> = v + 2 ^ 64" using False v by (intro mod_pos_pos_trivial) simp_all
    finally show ?thesis using False v by (simp add: int64_def uint64_be64)
  qed
qed

abbreviation be_fold :: "string \<Rightarrow> int" where
  "be_fold \<equiv> foldl (\<lambda>n c. 256 * n + int (byte_val c)) 0"

lemma digit_eq:
  fixes m n x y :: int
  assumes "256 * m + x = 256 * n + y" "0 \<le> x" "x < 256" "0 \<le> y" "y < 256"
  shows "m = n \<and> x = y"
proof -
  have "(256 * m + x) div 256 = m" "(256 * n + y) div 256 = n" using assms(2-5) by simp_all
  with assms(1) show ?thesis by simp
qed

lemma be_fold_inj: "length p = length q \<Longrightarrow> be_fold p = be_fold q \<Longrightarrow> p = q"
proof (induction p arbitrary: q rule: rev_induct)
  case (snoc c p)
  then obtain d q' where q: "q = q' @ [d]" by (cases q rule: rev_cases) auto
  have bytes: "int (byte_val c) < 256" "int (byte_val d) < 256" using byte_val_lt [of c] byte_val_lt [of d] by simp_all
  have "256 * be_fold p + int (byte_val c) = 256 * be_fold q' + int (byte_val d)" using snoc.prems(2) by (simp add: q)
  from digit_eq [OF this] have "int (byte_val c) = int (byte_val d)" "be_fold p = be_fold q'" using bytes by simp_all
  then show ?case using snoc by (simp add: q byte_val_inj)
qed simp

lemma be_fold_bound: "0 \<le> be_fold p \<and> be_fold p < 256 ^ length p"
proof (induction p rule: rev_induct)
  case (snoc c p)
  have "int (byte_val c) < 256" using byte_val_lt [of c] by simp
  with snoc have "256 * be_fold p + int (byte_val c) < 256 * 256 ^ length p" by linarith
  with snoc show ?case by simp
qed simp

lemma int64_range: "- (2 ^ 63) \<le> int64 p \<and> int64 p < 2 ^ 63"
proof -
  have "uint64 p < 256 ^ length (take 8 p)" "0 \<le> uint64 p" using be_fold_bound [of "take 8 p"] by (simp_all add: uint64_def)
  moreover have "(256 :: int) ^ length (take 8 p) \<le> 256 ^ 8" by (intro power_increasing) simp_all
  ultimately show ?thesis by (simp add: int64_def Let_def)
qed

lemma be64_int64:
  assumes "8 \<le> length p"
  shows "be64 (int64 p) = take 8 p"
proof (rule be_fold_inj)
  have "uint64 p mod 2 ^ 64 = uint64 p"
  proof (rule mod_pos_pos_trivial)
    have "length (take 8 p) = 8" using assms by simp
    from be_fold_bound [of "take 8 p", unfolded this] show "0 \<le> uint64 p" "uint64 p < 2 ^ 64" by (simp_all add: uint64_def)
  qed
  moreover have "int64 p mod 2 ^ 64 = uint64 p mod 2 ^ 64" by (simp add: int64_def Let_def)
  ultimately have "uint64 (be64 (int64 p)) = uint64 p" using uint64_be64 [of "int64 p" "[]"] by simp
  then show "be_fold (be64 (int64 p)) = be_fold (take 8 p)" by (simp add: uint64_def)
qed (use assms in simp)

section \<open>What a token proves\<close>

definition link_ok :: "Link \<Rightarrow> bool" where
  "link_ok l \<longleftrightarrow> - (2 ^ 63) \<le> FileID l \<and> FileID l < 2 ^ 63 \<and> - (2 ^ 63) \<le> UserID l \<and> UserID l < 2 ^ 63 \<and>
     - (2 ^ 63) \<le> Unix (Expires l) \<and> Unix (Expires l) < 2 ^ 63"

lemma link_of_payload:
  "link_ok l \<Longrightarrow> link_of (payload l) = l\<lparr>Expires := Unix (Expires l) * 1000000000\<rparr>"
  using int64_be64 [of _ "[]"]
  by (cases l) (simp add: link_of_def payload_def link_ok_def int64_be64)

lemma length_payload [simp]: "length (payload l) = 24"
  by (simp add: payload_def)

text \<open>
  A link handed out works until it expires and not a moment longer: the token made
  by \<open>Sign\<close> is accepted by \<open>Verify\<close> under the same key at every time before its expiry (to the
  second) and grants the same file to the same account, and at every later time it is refused.
\<close>

theorem Verify_Sign:
  assumes "link_ok l"
  shows "Verify hmac key (Sign hmac key l) now =
    (if now < Unix (Expires l) * 1000000000 then Some (l\<lparr>Expires := Unix (Expires l) * 1000000000\<rparr>) else None)"
  using assms b64_decode_encode
  by (simp add: Verify_def Sign_def cut_at_append link_of_payload)

text \<open>
  Claim C26. A link cannot be forged or edited. Whatever string is presented as a token, if
  \<open>Verify\<close> accepts it at some time, the link it grants has not expired then, and the signature in
  the token is the MAC, under the server's key, of exactly the file, account and expiry that are
  granted. So a token with a signature taken from another link is accepted only if the two links
  have the same MAC, and one for a file or time nobody signed needs the MAC of that file and time.
\<close>

theorem Verify_authentic:
  assumes "Verify hmac key token now = Some l"
  shows "now < Expires l \<and> link_ok l \<and>
    (\<exists>pay sig. token = pay @ ''.'' @ sig \<and> b64_decode pay = Some (payload l) \<and> b64_decode sig = Some (mac hmac key (payload l)))"
proof -
  obtain pay sig p where tok: "cut_at CHR ''.'' token = Some (pay, sig)" "b64_decode pay = Some p" "length p = 24"
    "b64_decode sig = Some (mac hmac key p)" "now < Expires (link_of p)" "l = link_of p"
    using assms by (auto simp: Verify_def Let_def split: option.splits prod.splits if_splits)
  have "payload l = be64 (int64 p) @ be64 (int64 (drop 8 p)) @ be64 (int64 (drop 16 p))"
    by (simp add: tok(6) payload_def link_of_def Unix_def)
  also have "\<dots> = take 8 p @ take 8 (drop 8 p) @ take 8 (drop 16 p)" using tok(3) by (simp add: be64_int64)
  also have "\<dots> = p" using tok(3) by (simp add: append_assoc [symmetric] take_add [symmetric] del: append_assoc)
  finally have "payload l = p" .
  moreover have "link_ok l" using int64_range by (simp add: link_ok_def tok(6) link_of_def Unix_def)
  ultimately show ?thesis using tok cut_at_SomeD [OF tok(1)] by auto
qed

definition demo_hmac :: "string \<Rightarrow> string \<Rightarrow> string" where
  "demo_hmac key data = key @ drop 17 data"

definition demo_link :: Link where
  "demo_link = \<lparr>FileID = 5, UserID = 1, Expires = 9000000000\<rparr>"

theorem Verify_Sign_witness: "Verify demo_hmac ''k'' (Sign demo_hmac ''k'' demo_link) 7 = Some demo_link"
  using Verify_Sign [of demo_link demo_hmac "''k''" 7] by (simp add: demo_link_def link_ok_def Unix_def)

theorem Verify_authentic_witness:
  "\<exists>pay sig. Sign demo_hmac ''k'' demo_link = pay @ ''.'' @ sig \<and> b64_decode sig = Some (mac demo_hmac ''k'' (payload demo_link))"
proof -
  have "link_ok demo_link" "Unix (Expires demo_link) * 1000000000 = Expires demo_link" by (simp_all add: demo_link_def link_ok_def Unix_def)
  then have "Verify demo_hmac ''k'' (b64_encode (payload demo_link) @ ''.'' @ b64_encode (mac demo_hmac ''k'' (payload demo_link))) 7 = Some demo_link"
    using b64_decode_encode by (simp add: Verify_def cut_at_append link_of_payload) (simp add: demo_link_def)
  from Verify_authentic [OF this] show ?thesis by (auto simp: Sign_def)
qed

section \<open>The download handler (serve.go)\<close>

datatype response = Healthy | BadLink | NotFound | Attachment string string \<comment> \<open>file name, content\<close>

text \<open>Where the path of a row lies, if that is below the root.\<close>

definition under_root :: "string \<Rightarrow> string \<Rightarrow> string option" where
  "under_root root p =
     (let root = path_Clean root; path = path_Join [root, p]
      in if prefix (root @ [slash]) path then Some path else None)"

text \<open>\<open>GET /f/{token}\<close>; \<open>rng\<close> is the header \<open>Range\<close>. The answer to a range is a part of the content.\<close>

definition serve_file ::
    "(string \<Rightarrow> string \<Rightarrow> string) \<Rightarrow> string \<Rightarrow> string \<Rightarrow> disk \<Rightarrow> string \<Rightarrow> string \<Rightarrow> nanos \<Rightarrow> db \<Rightarrow> response \<times> db" where
  "serve_file hmac key root D token rng now d = (case Verify hmac key token now of
       None \<Rightarrow> (BadLink, d)
     | Some l \<Rightarrow> (case FileByID d (FileID l) of
         Inl e \<Rightarrow> (NotFound, d)
       | Inr f \<Rightarrow> (case under_root root (f_path f) of
           None \<Rightarrow> (NotFound, d)
         | Some path \<Rightarrow> (case read_file D (path_Dir path, path_Base path) of
             Inl e \<Rightarrow> (NotFound, d)
           | Inr content \<Rightarrow> (Attachment (f_name f) content, if rng = [] then CountDownload (f_id f) d else d)))))"

section \<open>Nothing outside the root is served\<close>

lemma join_slash_elems:
  assumes "cleaned r (rev es)" "es \<noteq> []"
  shows "split_on slash (join [slash] es) = es"
  using assms cleaned_no_slash [of r "rev es"] by (intro split_join) auto

lemma split_on_cut: "split_on sep (a @ sep # b) = split_on sep a @ split_on sep b"
  by (induction a) (auto split: list.splits)

lemma join_first: "es \<noteq> [] \<Longrightarrow> \<exists>t. join sep es = hd es @ t"
  by (cases "(sep, es)" rule: join.cases) auto

lemma cleaned_elem: "cleaned r st \<Longrightarrow> e \<in> set st \<Longrightarrow> e \<noteq> [] \<and> slash \<notin> set e \<and> e \<noteq> ''.''"
  by (induction st) auto

lemma cleaned_hd: "cleaned r (rev es) \<Longrightarrow> es \<noteq> [] \<Longrightarrow> hd es \<noteq> [] \<and> slash \<notin> set (hd es) \<and> hd es \<noteq> ''.''"
  by (rule cleaned_elem [of r "rev es"]) simp_all

text \<open>A cleaned path that goes on from a cleaned root with a slash lies below it, element by element.\<close>

lemma below_root:
  assumes path: "path = path_Clean q" and pre: "prefix (path_Clean root @ [slash]) path"
  shows "rooted path = rooted root \<and> clean_elems root \<noteq> [] \<and> (\<exists>rest. rest \<noteq> [] \<and> clean_elems path = clean_elems root @ rest)"
proof -
  let ?es = "clean_elems q" and ?rs = "clean_elems root"
  obtain t where t: "path = path_Clean root @ slash # t" using pre by (auto simp: prefix_def)
  have ce: "cleaned (rooted q) (rev ?es)" "cleaned (rooted root) (rev ?rs)" by (rule clean_elems_cleaned)+
  have root_ne: "path_Clean root \<noteq> []"
    using cleaned_hd [OF ce(2)] join_first [of ?rs "[slash]"] by (auto simp: path_Clean_def show_path_def)
  have r: "rooted path = rooted root"
  proof -
    have "rooted path = rooted (path_Clean root)" unfolding t using root_ne by (cases "path_Clean root") (auto simp: rooted_def)
    then show ?thesis by simp
  qed
  then have rq: "rooted q = rooted root" using path by simp
  have es_ne: "?es \<noteq> []"
  proof
    assume "?es = []"
    then have "length path = 1" using path by (simp add: path_Clean_def show_path_def)
    with root_ne show False unfolding t by (cases "path_Clean root") auto
  qed
  have rs_ne: "?rs \<noteq> []"
  proof
    assume rs: "?rs = []"
    obtain u where u: "join [slash] ?es = hd ?es @ u" using join_first [OF es_ne] by blast
    note h = cleaned_hd [OF ce(1) es_ne]
    show False
    proof (cases "rooted root")
      case True
      then have "slash # hd ?es @ u = slash # slash # t" using t path rq rs u by (simp add: path_Clean_def show_path_def)
      with h show False by (cases "hd ?es") auto
    next
      case False
      then have "hd ?es @ u = CHR ''.'' # slash # t" using t path rq rs u es_ne by (simp add: path_Clean_def show_path_def)
      with h show False by (cases "hd ?es"; cases "tl (hd ?es)") auto
    qed
  qed
  have "join [slash] ?es = join [slash] ?rs @ slash # t"
    using t path rq es_ne rs_ne by (auto simp: path_Clean_def show_path_def split: if_splits)
  then have "split_on slash (join [slash] ?es) = split_on slash (join [slash] ?rs @ slash # t)" by simp
  also have "\<dots> = split_on slash (join [slash] ?rs) @ split_on slash t" by (rule split_on_cut)
  finally have "?es = ?rs @ split_on slash t" using join_slash_elems ce es_ne rs_ne by metis
  then show ?thesis using r path rs_ne by auto
qed

lemma under_root_below:
  assumes "under_root root p = Some path"
  shows "rooted path = rooted root \<and> clean_elems root \<noteq> [] \<and> (\<exists>rest. rest \<noteq> [] \<and> clean_elems path = clean_elems root @ rest)"
proof -
  have pre: "prefix (path_Clean root @ [slash]) path" and path: "path = path_Join [path_Clean root, p]"
    using assms by (auto simp: under_root_def Let_def split: if_splits)
  have "path \<noteq> []" using pre by (auto simp: prefix_def)
  then obtain q where "path = path_Clean q" using path by (auto simp: path_Join_def Let_def split: if_splits)
  from below_root [OF this pre] show ?thesis .
qed

text \<open>
  Claim C27. The download server gives out one file and no other. When a request is answered with a
  file, its token verified at that time, the file is the one of the row the token names, under the
  name in that row, and the path that was opened, element by element, is the path of the root
  followed by at least one more element: no row, whatever its path says, leads outside. Only the
  start of a download is counted, on that row; every other request changes nothing.
\<close>

theorem serve_confined:
  assumes "serve_file hmac key root D token rng now d = (answer, d')"
  shows "case answer of
      Attachment name content \<Rightarrow> (\<exists>l f path rest.
        Verify hmac key token now = Some l \<and> FileByID d (FileID l) = Inr f \<and> name = f_name f \<and>
        path = path_Join [path_Clean root, f_path f] \<and> read_file D (path_Dir path, path_Base path) = Inr content \<and>
        rooted path = rooted root \<and> clean_elems path = clean_elems root @ rest \<and> rest \<noteq> [] \<and>
        d' = (if rng = [] then CountDownload (f_id f) d else d))
    | _ \<Rightarrow> d' = d"
proof (cases answer)
  case (Attachment name content)
  with assms obtain l f path where ok: "Verify hmac key token now = Some l" "FileByID d (FileID l) = Inr f" "name = f_name f"
      "under_root root (f_path f) = Some path" "read_file D (path_Dir path, path_Base path) = Inr content"
      "d' = (if rng = [] then CountDownload (f_id f) d else d)"
    by (auto simp: serve_file_def split: option.splits sum.splits)
  moreover have "path = path_Join [path_Clean root, f_path f]"
    using ok(4) by (auto simp: under_root_def Let_def split: if_splits)
  ultimately show ?thesis using under_root_below [OF ok(4)] Attachment by auto
qed (use assms in \<open>auto simp: serve_file_def split: option.splits sum.splits\<close>)

text \<open>A root without elements, \<open>.\<close> or \<open>/\<close>, refuses every file: no cleaned path goes on from it with a slash.\<close>

lemma under_bare_root: "clean_elems root = [] \<Longrightarrow> under_root root p = None"
  using under_root_below [of root p] by (cases "under_root root p") auto

text \<open>What the tosser installs is the path of an area and a plain name below it; such a row is served.\<close>

lemma join_snoc: "es \<noteq> [] \<Longrightarrow> join sep (es @ [e]) = join sep es @ sep @ e"
  by (induction sep es rule: join.induct) auto

lemma split_on_two:
  assumes "plain_name a" "plain_name b"
  shows "split_on slash (r @ slash # a @ slash # b) = split_on slash r @ [a, b]"
  using assms split_on_no_sep [of slash a] split_on_no_sep [of slash b] by (simp add: split_on_cut plain_name_def)

lemma under_root_plain:
  assumes root: "clean_elems root \<noteq> []" and ab: "plain_name a" "plain_name b"
  shows "under_root root (a @ slash # b) = Some (path_Clean root @ slash # a @ slash # b)"
proof -
  let ?r = "path_Clean root"
  have r: "?r \<noteq> []" using root cleaned_hd [OF clean_elems_cleaned [of root]] join_first [OF root, of "[slash]"]
    by (auto simp: path_Clean_def show_path_def)
  have "rev (fold (clean_step (rooted ?r)) (split_on slash ?r) []) = clean_elems root"
    unfolding clean_elems_def [of ?r, symmetric] by (rule clean_elems_Clean)
  then have "clean_elems (?r @ slash # a @ slash # b) = clean_elems root @ [a, b]"
    unfolding clean_elems_def [of "?r @ _"] rooted_Join [OF r] split_on_two [OF ab]
    by (simp add: clean_step_plain ab)
  then have "path_Clean (?r @ slash # a @ slash # b) = show_path (rooted root) (clean_elems root @ [a, b])"
    by (simp add: path_Clean_def [of "?r @ _"] rooted_Join [OF r])
  also have "\<dots> = ?r @ slash # a @ slash # b"
    using root join_snoc [OF root, of "[slash]" a] join_snoc [of "clean_elems root @ [a]" "[slash]" b]
    by (simp add: show_path_def path_Clean_def)
  finally show ?thesis using r by (simp add: under_root_def Let_def path_Join_def)
qed

definition demo_served :: file_row where
  "demo_served = \<lparr>f_id = 5, f_area = 1, f_name = ''f'', f_path = ''x/f'', f_size = 2, f_crc = ''0'', f_desc = [], f_ldesc = [],
     f_origin = [], f_from = [], f_received = 1, f_downloads = 0\<rparr>"

theorem serve_confined_witness:
  "serve_file demo_hmac ''k'' ''/files'' [''/files/x'' \<mapsto> [(''f'', Plain ''hi'' 5)]] (Sign demo_hmac ''k'' demo_link) [] 7
     (demo_db\<lparr>t_files := [demo_served]\<rparr>) =
   (Attachment ''f'' ''hi'', CountDownload 5 (demo_db\<lparr>t_files := [demo_served]\<rparr>)) \<and>
   Verify demo_hmac ''k'' (Sign demo_hmac ''k'' demo_link) 7 = Some demo_link"
proof -
  let ?d = "demo_db\<lparr>t_files := [demo_served]\<rparr>" and ?D = "[''/files/x'' \<mapsto> [(''f'', Plain ''hi'' 5)]] :: disk"
  let ?t = "Sign demo_hmac ''k'' demo_link"
  have "link_ok demo_link" "Unix (Expires demo_link) * 1000000000 = Expires demo_link" by (simp_all add: demo_link_def link_ok_def Unix_def)
  then have v: "Verify demo_hmac ''k'' ?t 7 = Some demo_link"
    using b64_decode_encode by (simp add: Verify_def Sign_def cut_at_append link_of_payload) (simp add: demo_link_def)
  have "under_root ''/files'' ''x/f'' = Some ''/files/x/f''"
    by code_simp
  moreover have "path_Dir ''/files/x/f'' = ''/files/x''" "path_Base ''/files/x/f'' = ''f''" "path_Clean ''/files/x'' = ''/files/x''"
    by code_simp+
  ultimately have served: "serve_file demo_hmac ''k'' ''/files'' ?D ?t [] 7 ?d = (Attachment ''f'' ''hi'', CountDownload 5 ?d)"
    using v by (simp add: serve_file_def FileByID_def demo_served_def demo_link_def read_file_def stat_def at_dir_def)
  from serve_confined [OF this] have "\<exists>l. Verify demo_hmac ''k'' ?t 7 = Some l \<and> FileByID ?d (FileID l) \<noteq> Inl ErrNotFound" by auto
  with served v show ?thesis by simp
qed

end
