(* ===== verification/Telnet.thy ===== *)
theory Telnet
  imports Go_Strings
begin

text \<open>
  \<open>internal/telnet/conn.go\<close>: the server side of the Telnet protocol. The bytes the client has still
  to send are part of the connection's state; when they run out, or a read fails, \<open>ReadByte\<close>
  returns \<open>None\<close>. Raw writes are collected in order; deadlines and failing writes are not modelled.
\<close>

section \<open>Connection (conn.go)\<close>

definition SE :: char where "SE = CHR 0xF0"
definition SB :: char where "SB = CHR 0xFA"
definition WILL :: char where "WILL = CHR 0xFB"
definition WONT :: char where "WONT = CHR 0xFC"
definition DO :: char where "DO = CHR 0xFD"
definition DONT :: char where "DONT = CHR 0xFE"
definition IAC :: char where "IAC = CHR 0xFF"
definition OptBinary :: char where "OptBinary = CHR 0x00"
definition OptEcho :: char where "OptEcho = CHR 0x01"
definition OptSGA :: char where "OptSGA = CHR 0x03"
definition OptNAWS :: char where "OptNAWS = CHR 0x1F"

lemmas telnet_bytes = SE_def SB_def WILL_def WONT_def DO_def DONT_def IAC_def OptBinary_def OptEcho_def OptSGA_def OptNAWS_def

definition DefaultWidth :: int where "DefaultWidth = 80"
definition DefaultHeight :: int where "DefaultHeight = 24"
definition minWidth :: int where "minWidth = 20"
definition maxWidth :: int where "maxWidth = 512"
definition minHeight :: int where "minHeight = 5"
definition maxHeight :: int where "maxHeight = 512"
definition maxSubneg :: nat where "maxSubneg = 64"

record Conn =
  tn_in :: string
  tn_out :: "string list"
  tn_lastCR :: bool
  tn_refused :: "(char \<times> char) set"
  tn_binary :: bool
  tn_width :: int
  tn_height :: int

definition telnet_New :: "string \<Rightarrow> Conn" where
  "telnet_New bytes = \<lparr>tn_in = bytes, tn_out = [], tn_lastCR = False, tn_refused = {}, tn_binary = False,
     tn_width = DefaultWidth, tn_height = DefaultHeight\<rparr>"

definition writeRaw :: "string \<Rightarrow> Conn \<Rightarrow> Conn" where
  "writeRaw p c = c\<lparr>tn_out := tn_out c @ [p]\<rparr>"

definition Negotiate :: "Conn \<Rightarrow> Conn" where
  "Negotiate c = writeRaw [IAC, WILL, OptEcho, IAC, WILL, OptSGA, IAC, DO, OptSGA, IAC, DO, OptNAWS] c"

definition negotiate :: "char \<Rightarrow> char \<Rightarrow> Conn \<Rightarrow> Conn" where
  "negotiate cmd opt c =
     (let refuse = (\<lambda>reply. if (reply, opt) \<in> tn_refused c then c
            else writeRaw [IAC, reply, opt] (c\<lparr>tn_refused := insert (reply, opt) (tn_refused c)\<rparr>))
      in if cmd = DO
         then (if opt = OptEcho \<or> opt = OptSGA \<or> (opt = OptBinary \<and> tn_binary c) then c else refuse WONT)
         else if cmd = WILL
         then (if opt = OptNAWS \<or> opt = OptSGA \<or> (opt = OptBinary \<and> tn_binary c) then c else refuse DONT)
         else c)"

definition setSize :: "int \<Rightarrow> int \<Rightarrow> Conn \<Rightarrow> Conn" where
  "setSize w h c =
     c\<lparr>tn_width := (if 0 < w then min (max w minWidth) maxWidth else tn_width c),
       tn_height := (if 0 < h then min (max h minHeight) maxHeight else tn_height c)\<rparr>"

definition Size :: "Conn \<Rightarrow> int \<times> int" where
  "Size c = (tn_width c, tn_height c)"

text \<open>The loop of \<open>readSubneg\<close>: the parameter bytes and the bytes after \<open>IAC SE\<close>.\<close>

definition push :: "string \<Rightarrow> char \<Rightarrow> string" where
  "push buf b = (if length buf < maxSubneg then buf @ [b] else buf)"

fun subneg_loop :: "string \<Rightarrow> string \<Rightarrow> (string \<times> string) option" where
  "subneg_loop buf [] = None"
| "subneg_loop buf [b] = None"
| "subneg_loop buf (b # n # s) =
     (if b = IAC then (if n = SE then Some (buf, s) else if n \<noteq> IAC then subneg_loop buf s else subneg_loop (push buf b) s)
      else subneg_loop (push buf b) (n # s))"

definition be16 :: "char \<Rightarrow> char \<Rightarrow> int" where
  "be16 a b = int (byte_val a) * 256 + int (byte_val b)"

text \<open>\<open>None\<close> when the input ends; the \<open>[b]\<close> case above is a byte without a successor, after
  which the next read fails in either branch.\<close>

definition readSubneg :: "Conn \<Rightarrow> Conn option" where
  "readSubneg c = (case subneg_loop [] (tn_in c) of
       None \<Rightarrow> None
     | Some (buf, rest) \<Rightarrow>
         let c = c\<lparr>tn_in := rest\<rparr>
         in Some (if 5 \<le> length buf \<and> buf ! 0 = OptNAWS then setSize (be16 (buf ! 1) (buf ! 2)) (be16 (buf ! 3) (buf ! 4)) c
                  else c))"

text \<open>The bytes after an \<open>IAC\<close>: the data byte, if it is one, and the new state.\<close>

definition readCommand :: "Conn \<Rightarrow> (char option \<times> Conn) option" where
  "readCommand c = (case tn_in c of
       [] \<Rightarrow> None
     | cmd # s \<Rightarrow>
         let c = c\<lparr>tn_in := s\<rparr> in
         if cmd = IAC then Some (Some IAC, c)
         else if cmd \<in> {DO, DONT, WILL, WONT}
         then (case s of [] \<Rightarrow> None | opt # s' \<Rightarrow> Some (None, negotiate cmd opt (c\<lparr>tn_in := s'\<rparr>)))
         else if cmd = SB then map_option (\<lambda>c. (None, c)) (readSubneg c)
         else Some (None, c))"

lemma subneg_rest: "subneg_loop buf s = Some (b, r) \<Longrightarrow> length r < length s"
  by (induction buf s rule: subneg_loop.induct) (auto split: if_splits)

lemma negotiate_in [simp]: "tn_in (negotiate cmd opt c) = tn_in c"
  by (simp add: negotiate_def writeRaw_def Let_def)

lemma setSize_in [simp]: "tn_in (setSize w h c) = tn_in c"
  by (simp add: setSize_def)

lemma readSubneg_rest: "readSubneg c = Some c' \<Longrightarrow> length (tn_in c') < length (tn_in c)"
  by (auto simp: readSubneg_def Let_def split: option.splits if_splits dest: subneg_rest)

lemma readCommand_rest: "readCommand c = Some (d, c') \<Longrightarrow> length (tn_in c') < length (tn_in c)"
  by (auto simp: readCommand_def Let_def split: list.splits if_splits dest: readSubneg_rest)

function telnet_ReadByte :: "Conn \<Rightarrow> char option \<times> Conn" where
  "telnet_ReadByte c = (case tn_in c of
       [] \<Rightarrow> (None, c)
     | b # s \<Rightarrow>
         if b = IAC
         then (case readCommand (c\<lparr>tn_in := s\<rparr>) of
                 None \<Rightarrow> (None, c\<lparr>tn_in := []\<rparr>)
               | Some (None, c') \<Rightarrow> telnet_ReadByte c'
               | Some (Some d, c') \<Rightarrow> (Some d, c'\<lparr>tn_lastCR := False\<rparr>))
         else if tn_binary c then (Some b, c\<lparr>tn_in := s, tn_lastCR := False\<rparr>)
         else if tn_lastCR c \<and> (b = CHR 0x0A \<or> b = CHR 0x00) then telnet_ReadByte (c\<lparr>tn_in := s, tn_lastCR := False\<rparr>)
         else (Some b, c\<lparr>tn_in := s, tn_lastCR := (b = CHR 0x0D)\<rparr>))"
  by pat_completeness auto
termination
  by (relation "measure (\<lambda>c. length (tn_in c))") (auto dest!: readCommand_rest)

declare telnet_ReadByte.simps [simp del]

definition SetBinary :: "bool \<Rightarrow> Conn \<Rightarrow> Conn" where
  "SetBinary on c = writeRaw [IAC, if on then WILL else WONT, OptBinary, IAC, if on then DO else DONT, OptBinary] (c\<lparr>tn_binary := on\<rparr>)"

definition telnet_escape :: "string \<Rightarrow> string" where
  "telnet_escape p = concat (map (\<lambda>b. if b = IAC then [IAC, IAC] else [b]) p)"

definition telnet_Write :: "string \<Rightarrow> Conn \<Rightarrow> nat \<times> Conn" where
  "telnet_Write p c = (length p, writeRaw (telnet_escape p) c)"

section \<open>Reading until the client hangs up\<close>

lemma ReadByte_rest: "telnet_ReadByte c = (Some b, c') \<Longrightarrow> length (tn_in c') < length (tn_in c)"
proof (induction c arbitrary: b c' rule: telnet_ReadByte.induct)
  case (1 c)
  show ?case using 1(3) 1(1,2)
    by (subst (asm) telnet_ReadByte.simps)
       (fastforce split: list.splits if_splits option.splits dest: readCommand_rest)
qed

function telnet_read_all :: "Conn \<Rightarrow> string \<times> Conn" where
  "telnet_read_all c = (case telnet_ReadByte c of
       (None, c') \<Rightarrow> ([], c')
     | (Some b, c') \<Rightarrow> (let (bs, c'') = telnet_read_all c' in (b # bs, c'')))"
  by pat_completeness auto
termination
  by (relation "measure (\<lambda>c. length (tn_in c))") (auto dest!: ReadByte_rest [OF sym])

declare telnet_read_all.simps [simp del]

text \<open>What a reader should see of a text: the line feed or NUL after a carriage return is dropped.\<close>

fun reduce_crlf :: "bool \<Rightarrow> string \<Rightarrow> string" where
  "reduce_crlf cr [] = []"
| "reduce_crlf cr (b # s) =
     (if cr \<and> (b = CHR 0x0A \<or> b = CHR 0x00) then reduce_crlf False s else b # reduce_crlf (b = CHR 0x0D) s)"

lemma read_all_Nil: "tn_in c = [] \<Longrightarrow> fst (telnet_read_all c) = []"
  by (subst telnet_read_all.simps, subst telnet_ReadByte.simps) simp

lemma ReadByte_cases:
  "tn_in c = IAC # IAC # s \<Longrightarrow> telnet_ReadByte c = (Some IAC, c\<lparr>tn_in := s, tn_lastCR := False\<rparr>)"
  "tn_in c = b # s \<Longrightarrow> b \<noteq> IAC \<Longrightarrow> tn_binary c \<Longrightarrow> telnet_ReadByte c = (Some b, c\<lparr>tn_in := s, tn_lastCR := False\<rparr>)"
  "tn_in c = b # s \<Longrightarrow> b \<noteq> IAC \<Longrightarrow> \<not> tn_binary c \<Longrightarrow> \<not> (tn_lastCR c \<and> (b = CHR 0x0A \<or> b = CHR 0x00)) \<Longrightarrow>
    telnet_ReadByte c = (Some b, c\<lparr>tn_in := s, tn_lastCR := (b = CHR 0x0D)\<rparr>)"
  "tn_in c = b # s \<Longrightarrow> b \<noteq> IAC \<Longrightarrow> \<not> tn_binary c \<Longrightarrow> tn_lastCR c \<Longrightarrow> b = CHR 0x0A \<or> b = CHR 0x00 \<Longrightarrow>
    telnet_ReadByte c = telnet_ReadByte (c\<lparr>tn_in := s, tn_lastCR := False\<rparr>)"
  by (subst telnet_ReadByte.simps; force simp: readCommand_def Let_def)+

lemma read_all_step: "telnet_ReadByte c = (Some b, c') \<Longrightarrow> fst (telnet_read_all c) = b # fst (telnet_read_all c')"
  by (subst telnet_read_all.simps) (simp add: Let_def split: prod.splits)

lemma read_all_same: "telnet_ReadByte c = telnet_ReadByte c' \<Longrightarrow> telnet_read_all c = telnet_read_all c'"
  by (subst (1 2) telnet_read_all.simps) simp

lemma telnet_escape_simps [simp]:
  "telnet_escape [] = []" "telnet_escape (b # p) = (if b = IAC then [IAC, IAC] else [b]) @ telnet_escape p"
  by (simp_all add: telnet_escape_def)

lemma read_escaped:
  "tn_in c = telnet_escape p \<Longrightarrow> fst (telnet_read_all c) = (if tn_binary c then p else reduce_crlf (tn_lastCR c) p)"
proof (induction p arbitrary: c)
  case Nil
  then show ?case by (simp add: read_all_Nil)
next
  case (Cons b p)
  have not: "IAC \<noteq> CHR 0x0A" "IAC \<noteq> CHR 0x00" "IAC \<noteq> CHR 0x0D" by (simp_all add: IAC_def)
  consider "b = IAC" | "b \<noteq> IAC" "tn_binary c"
    | "b \<noteq> IAC" "\<not> tn_binary c" "tn_lastCR c" "b = CHR 0x0A \<or> b = CHR 0x00"
    | "b \<noteq> IAC" "\<not> tn_binary c" "\<not> (tn_lastCR c \<and> (b = CHR 0x0A \<or> b = CHR 0x00))" by blast
  then show ?case
  proof cases
    case 1
    with Cons.prems have "tn_in c = IAC # IAC # telnet_escape p" by simp
    from read_all_step [OF ReadByte_cases(1) [OF this]] Cons.IH [of "c\<lparr>tn_in := telnet_escape p, tn_lastCR := False\<rparr>"] 1 not
    show ?thesis by simp
  next
    case 2
    with Cons.prems have "tn_in c = b # telnet_escape p" by simp
    from read_all_step [OF ReadByte_cases(2) [OF this 2]] Cons.IH [of "c\<lparr>tn_in := telnet_escape p, tn_lastCR := False\<rparr>"] 2
    show ?thesis by simp
  next
    case 3
    with Cons.prems have "tn_in c = b # telnet_escape p" by simp
    from read_all_same [OF ReadByte_cases(4) [OF this 3]] Cons.IH [of "c\<lparr>tn_in := telnet_escape p, tn_lastCR := False\<rparr>"] 3
    show ?thesis by auto
  next
    case 4
    with Cons.prems have "tn_in c = b # telnet_escape p" by simp
    from read_all_step [OF ReadByte_cases(3) [OF this 4]]
      Cons.IH [of "c\<lparr>tn_in := telnet_escape p, tn_lastCR := (b = CHR 0x0D)\<rparr>"] 4
    show ?thesis by auto
  qed
qed

section \<open>What the client can do\<close>

text \<open>Replies sent while reading: each once, and only refusals.\<close>

definition refusals :: "(char \<times> char) list \<Rightarrow> string list" where
  "refusals ks = map (\<lambda>(r, opt). [IAC, r, opt]) ks"

definition size_ok :: "Conn \<Rightarrow> bool" where
  "size_ok c \<longleftrightarrow> minWidth \<le> tn_width c \<and> tn_width c \<le> maxWidth \<and> minHeight \<le> tn_height c \<and> tn_height c \<le> maxHeight"

definition reads_to :: "Conn \<Rightarrow> Conn \<Rightarrow> bool" where
  "reads_to c c' \<longleftrightarrow> (size_ok c \<longrightarrow> size_ok c') \<and> tn_binary c' = tn_binary c \<and>
     (\<exists>ks. distinct ks \<and> set ks \<inter> tn_refused c = {} \<and> fst ` set ks \<subseteq> {WONT, DONT} \<and>
        tn_out c' = tn_out c @ refusals ks \<and> tn_refused c' = tn_refused c \<union> set ks)"

lemma reads_to_refl: "tn_out c' = tn_out c \<Longrightarrow> tn_refused c' = tn_refused c \<Longrightarrow> tn_binary c' = tn_binary c \<Longrightarrow>
    (size_ok c \<longrightarrow> size_ok c') \<Longrightarrow> reads_to c c'"
  by (auto simp: reads_to_def refusals_def intro!: exI [of _ "[]"])

lemma reads_to_trans:
  assumes "reads_to c c'" "reads_to c' c''"
  shows "reads_to c c''"
proof -
  obtain ks where k: "distinct ks" "set ks \<inter> tn_refused c = {}" "fst ` set ks \<subseteq> {WONT, DONT}"
      "tn_out c' = tn_out c @ refusals ks" "tn_refused c' = tn_refused c \<union> set ks"
    using assms(1) unfolding reads_to_def by (elim conjE exE)
  obtain ls where l: "distinct ls" "set ls \<inter> tn_refused c' = {}" "fst ` set ls \<subseteq> {WONT, DONT}"
      "tn_out c'' = tn_out c' @ refusals ls" "tn_refused c'' = tn_refused c' \<union> set ls"
    using assms(2) unfolding reads_to_def by (elim conjE exE)
  have "distinct (ks @ ls)" "set (ks @ ls) \<inter> tn_refused c = {}" using k(1,2,5) l(1,2) by auto
  moreover have "fst ` set (ks @ ls) \<subseteq> {WONT, DONT}" using k(3) l(3) unfolding set_append image_Un by blast
  moreover have "tn_out c'' = tn_out c @ refusals (ks @ ls)" using k(4) l(4) by (simp add: refusals_def)
  moreover have "tn_refused c'' = tn_refused c \<union> set (ks @ ls)" using k(5) l(5) by (simp add: Un_assoc)
  moreover have "(size_ok c \<longrightarrow> size_ok c'') \<and> tn_binary c'' = tn_binary c"
    using assms unfolding reads_to_def by metis
  ultimately show ?thesis unfolding reads_to_def by blast
qed

lemma negotiate_reads: "reads_to c (negotiate cmd opt c)"
proof -
  have "reads_to c (writeRaw [IAC, r, opt] (c\<lparr>tn_refused := insert (r, opt) (tn_refused c)\<rparr>))"
    if "(r, opt) \<notin> tn_refused c" "r \<in> {WONT, DONT}" for r
    using that by (auto simp: reads_to_def size_ok_def writeRaw_def refusals_def intro!: exI [of _ "[(r, opt)]"])
  then show ?thesis by (auto simp: negotiate_def Let_def intro: reads_to_refl)
qed

lemma setSize_reads: "reads_to c (setSize w h c)"
  by (rule reads_to_refl)
     (auto simp: setSize_def size_ok_def minWidth_def maxWidth_def minHeight_def maxHeight_def)

lemma in_reads [simp]: "reads_to (c\<lparr>tn_in := s\<rparr>) c' = reads_to c c'" "reads_to c (c'\<lparr>tn_in := s\<rparr>) = reads_to c c'"
  "reads_to c (c'\<lparr>tn_in := s, tn_lastCR := cr\<rparr>) = reads_to c c'" "reads_to c (c'\<lparr>tn_lastCR := cr\<rparr>) = reads_to c c'"
  "reads_to (c\<lparr>tn_in := s, tn_lastCR := cr\<rparr>) c' = reads_to c c'"
  by (simp_all add: reads_to_def size_ok_def)

lemma refl_reads [simp]: "reads_to c c"
  by (rule reads_to_refl) simp_all

lemma readCommand_reads: "readCommand c = Some (d, c') \<Longrightarrow> reads_to c c'"
proof -
  assume a: "readCommand c = Some (d, c')"
  have sub: "reads_to c k'" if "readSubneg (c\<lparr>tn_in := s\<rparr>) = Some k'" for s k'
    using that setSize_reads [of "c\<lparr>tn_in := r\<rparr>" for r]
    by (auto simp: readSubneg_def Let_def split: option.splits if_splits)
  have neg: "reads_to c (negotiate cmd opt (c\<lparr>tn_in := s\<rparr>))" for cmd opt s
    using negotiate_reads [of "c\<lparr>tn_in := s\<rparr>"] by simp
  show ?thesis using a neg
    by (auto simp: readCommand_def Let_def split: list.splits if_splits dest: sub)
qed

lemma ReadByte_reads: "reads_to c (snd (telnet_ReadByte c))"
proof (induction c rule: telnet_ReadByte.induct)
  case (1 c)
  show ?case
  proof (cases "tn_in c")
    case (Cons b s)
    show ?thesis
    proof (cases "b = IAC")
      case True
      show ?thesis
      proof (cases "readCommand (c\<lparr>tn_in := s\<rparr>)")
        case None
        then show ?thesis using Cons True by (subst telnet_ReadByte.simps) simp
      next
        case (Some r)
        obtain d c' where r: "r = (d, c')" by (cases r)
        have c': "reads_to c c'" using readCommand_reads [of "c\<lparr>tn_in := s\<rparr>" d c'] Some r by simp
        show ?thesis
        proof (cases d)
          case None
          then have "reads_to c' (snd (telnet_ReadByte c'))" using 1(1) Cons True Some r by simp
          moreover have "telnet_ReadByte c = telnet_ReadByte c'"
            using Cons True Some r None by (subst telnet_ReadByte.simps) simp
          ultimately show ?thesis using c' reads_to_trans by simp
        next
          case (Some x)
          have "telnet_ReadByte c = (Some x, c'\<lparr>tn_lastCR := False\<rparr>)"
            using Cons True r Some \<open>readCommand (c\<lparr>tn_in := s\<rparr>) = Some r\<close> by (subst telnet_ReadByte.simps) simp
          with c' show ?thesis by simp
        qed
      qed
    next
      case False
      then show ?thesis using Cons 1(2) [OF Cons False] by (subst telnet_ReadByte.simps) auto
    qed
  qed (subst telnet_ReadByte.simps, simp)
qed

lemma read_all_reads: "reads_to c (snd (telnet_read_all c))"
proof (induction c rule: telnet_read_all.induct)
  case (1 c)
  obtain d c' where d: "telnet_ReadByte c = (d, c')" by fastforce
  have c': "reads_to c c'" using ReadByte_reads [of c] d by simp
  show ?case
  proof (cases d)
    case None
    then show ?thesis using d c' by (subst telnet_read_all.simps) simp
  next
    case (Some b)
    have "reads_to c' (snd (telnet_read_all c'))" using 1 [OF d [symmetric]] Some by simp
    moreover have "snd (telnet_read_all c) = snd (telnet_read_all c')"
      using d Some by (subst telnet_read_all.simps) (simp add: Let_def split: prod.splits)
    ultimately show ?thesis using c' reads_to_trans by simp
  qed
qed

text \<open>
  Claim C16. Data passes through Telnet unharmed: whatever bytes \<open>Write\<close> was given, a reader of
  the protocol at the other end gets exactly those bytes while a transfer is in binary mode, and
  otherwise the same text with each CR LF and CR NUL reduced to a CR; no data byte is ever taken
  for a command.
\<close>

theorem telnet_roundtrip:
  "tn_out (snd (telnet_Write p c)) = tn_out c @ [telnet_escape p] \<and>
   fst (telnet_read_all (d\<lparr>tn_in := telnet_escape p\<rparr>)) = (if tn_binary d then p else reduce_crlf (tn_lastCR d) p)"
  using read_escaped [of "d\<lparr>tn_in := telnet_escape p\<rparr>" p] by (simp add: telnet_Write_def writeRaw_def)

text \<open>
  No client can make the server misbehave: whatever bytes it sends, reading ends, the
  window size stays between 20x5 and 512x512, and all that is ever sent in reply are refusals of
  options, each at most once, so at most 512 of them and never a negotiation loop.
\<close>

theorem telnet_replies_bounded:
  "\<exists>ks. tn_out (snd (telnet_read_all (telnet_New bytes))) = refusals ks \<and> distinct ks \<and>
     fst ` set ks \<subseteq> {WONT, DONT} \<and> length ks \<le> 512 \<and> size_ok (snd (telnet_read_all (telnet_New bytes)))"
proof -
  let ?c = "telnet_New bytes"
  have "size_ok ?c"
    by (simp add: telnet_New_def size_ok_def DefaultWidth_def DefaultHeight_def minWidth_def maxWidth_def minHeight_def maxHeight_def)
  with read_all_reads [of ?c] obtain ks where ks: "distinct ks" "fst ` set ks \<subseteq> {WONT, DONT}"
    "tn_out (snd (telnet_read_all ?c)) = refusals ks" and size: "size_ok (snd (telnet_read_all ?c))"
    by (auto simp: reads_to_def telnet_New_def)
  have "set ks \<subseteq> {WONT, DONT} \<times> UNIV" using ks(2) by auto
  then have "card (set ks) \<le> card ({WONT, DONT} \<times> (UNIV :: char set))" by (intro card_mono) auto
  also have "\<dots> \<le> 2 * 256" by (simp add: card_cartesian_product card_UNIV_char card_insert_le_m1)
  finally have "length ks \<le> 512" using distinct_card [OF ks(1)] by simp
  with ks size show ?thesis by blast
qed

end
