(* ===== verification/Bbs_Input.thy ===== *)
theory Bbs_Input
  imports Store_DB Term_Render Term_Charset
begin

text \<open>
  The terminal half of \<open>internal/bbs/session.go\<close>, with \<open>input.go\<close> and \<open>terminal.go\<close>: printing,
  decoding keys and editing a line. A session operation is a function of the session that gives
  an outcome (a value, an error that ends the session, or a panic) and the new session. The
  bytes the caller has still to send are part of the session, each with the time it arrives;
  reading one moves the clock. When they run out the connection is closed. \<open>s_broken\<close> says
  whether a write to the connection fails. \<open>Spins\<close> stands for a loop that goes round without reading
  a key, which the theorems about the screens exclude. The window size does not change during an operation.
  The other components extend the record with their own part of the Go struct.
\<close>

section \<open>Session operations\<close>

datatype fail = ReadErr | WriteErr | StoreErr error | Spins

datatype 'a outcome = Done 'a | Fail fail | Panicked

type_synonym ('a, 's) io = "'s \<Rightarrow> 'a outcome \<times> 's"

definition return_io :: "'a \<Rightarrow> ('a, 's) io" where
  "return_io x s = (Done x, s)"

definition bind_io :: "('a, 's) io \<Rightarrow> ('a \<Rightarrow> ('b, 's) io) \<Rightarrow> ('b, 's) io" where
  "bind_io m k s = (case m s of
       (Done x, s') \<Rightarrow> k x s'
     | (Fail e, s') \<Rightarrow> (Fail e, s')
     | (Panicked, s') \<Rightarrow> (Panicked, s'))"

definition then_io :: "('a, 's) io \<Rightarrow> ('b, 's) io \<Rightarrow> ('b, 's) io" where
  "then_io m k = bind_io m (\<lambda>_. k)"

lemma bind_io_cong [fundef_cong]:
  "m s = m' s' \<Longrightarrow> (\<And>x t. m' s' = (Done x, t) \<Longrightarrow> k x t = k' x t) \<Longrightarrow> bind_io m k s = bind_io m' k' s'"
  by (auto simp: bind_io_def split: prod.splits outcome.splits)

lemma bind_io_Done: "bind_io m k s = (Done y, s') \<longleftrightarrow> (\<exists>x t. m s = (Done x, t) \<and> k x t = (Done y, s'))"
  by (auto simp: bind_io_def split: prod.splits outcome.splits)

section \<open>State (session.go)\<close>

definition keyEnter :: rune where "keyEnter = 0x0D"
definition keyBackspace :: rune where "keyBackspace = 0x08"
definition keyCtrlU :: rune where "keyCtrlU = 0x15"
definition keyEsc :: rune where "keyEsc = 0x1B"
definition keyDel :: rune where "keyDel = 0x7F"
definition maxScreenWidth :: int where "maxScreenWidth = 80"
definition minPageLines :: int where "minPageLines = 5"

lemmas key_defs = keyEnter_def keyBackspace_def keyCtrlU_def keyEsc_def keyDel_def

datatype escState = escNone | escStart | escSeq

record session =
  s_in :: "(nanos \<times> char) list"
  s_now :: nanos
  s_broken :: bool
  s_out :: "string list"
  s_werr :: bool
  s_width :: int
  s_height :: int
  s_cs :: term_charset
  s_mode :: color_mode
  s_rend :: renderer
  s_esc :: escState
  s_lastCR :: bool
  s_ubuf :: string

definition setTerminal :: "term_charset \<Rightarrow> color_mode \<Rightarrow> 'a session_scheme \<Rightarrow> 'a session_scheme" where
  "setTerminal cs mode s = s\<lparr>s_cs := cs, s_mode := mode, s_rend := NewRenderer mode\<rparr>"

definition s_color :: "'a session_scheme \<Rightarrow> bool" where
  "s_color s \<longleftrightarrow> s_mode s \<noteq> NoColor"

definition terminalName :: "'a session_scheme \<Rightarrow> string" where
  "terminalName s = term_charset_String (s_cs s) @ (if s_color s then '' + ANSI color'' else '', no color'')"

definition width :: "'a session_scheme \<Rightarrow> int" where
  "width s = min (s_width s) maxScreenWidth - 1"

definition height :: "'a session_scheme \<Rightarrow> int" where
  "height s = s_height s"

section \<open>Terminals (terminal.go)\<close>

definition detectCharset :: "string \<Rightarrow> (term_charset \<times> color_mode) option" where
  "detectCharset t =
     (if t = [] then None
      else if t \<in> {''syncterm'', ''ansi-bbs'', ''pcansi'', ''ansi'', ''scoansi''} then Some (TermCP437, ANSI16)
      else if t = ''dumb'' then Some (TermASCII, NoColor)
      else if contains ''256color'' t \<or> contains ''direct'' t \<or> prefix ''xterm'' t \<or> prefix ''alacritty'' t \<or>
              prefix ''wezterm'' t \<or> prefix ''kitty'' t \<or> t = ''tmux'' \<or> t = ''foot''
      then Some (TermUTF8, ANSI256)
      else Some (TermUTF8, ANSI16))"

definition minTermWidth :: int where "minTermWidth = 20"
definition maxTermWidth :: int where "maxTermWidth = 512"
definition minTermHeight :: int where "minTermHeight = 5"
definition maxTermHeight :: int where "maxTermHeight = 512"

definition clampSize :: "int \<Rightarrow> int \<Rightarrow> int \<times> int" where
  "clampSize w h = (min (max w minTermWidth) maxTermWidth, min (max h minTermHeight) maxTermHeight)"

section \<open>Output\<close>

definition write_bytes :: "string \<Rightarrow> 'a session_scheme \<Rightarrow> 'a session_scheme" where
  "write_bytes p s = (if s_werr s then s else if s_broken s then s\<lparr>s_werr := True\<rparr> else s\<lparr>s_out := s_out s @ [p]\<rparr>)"

definition raw :: "string \<Rightarrow> 'a session_scheme \<Rightarrow> 'a session_scheme" where
  "raw t s = write_bytes (term_Encode (s_cs s) t) s"

definition CRLF :: string where "CRLF = [CHR 0x0D, CHR 0x0A]"

definition print :: "string \<Rightarrow> (unit, 'a session_scheme) io" where
  "print t s = (case Render (s_rend s) t of
       None \<Rightarrow> (Panicked, s)
     | Some (out, r) \<Rightarrow>
         (Done (), write_bytes (term_Encode (s_cs s) (replace_all [CHR 0x0A] CRLF out)) (s\<lparr>s_rend := r\<rparr>)))"

definition clearLine :: "'a session_scheme \<Rightarrow> 'a session_scheme" where
  "clearLine s = (if s_color s then raw (CHR 0x0D # ESC # ''[K'') s else raw CRLF s)"

section \<open>Keys\<close>

definition skipEscape :: "char \<Rightarrow> 'a session_scheme \<Rightarrow> bool \<times> 'a session_scheme" where
  "skipEscape b s =
     (let start = (\<lambda>s. if byte_val b = keyEsc then (True, s\<lparr>s_esc := escStart\<rparr>) else (False, s))
      in case s_esc s of
           escNone \<Rightarrow> start s
         | escStart \<Rightarrow> if b = CHR ''['' \<or> b = CHR ''O'' then (True, s\<lparr>s_esc := escSeq\<rparr>) else start (s\<lparr>s_esc := escNone\<rparr>)
         | escSeq \<Rightarrow> (True, if 0x40 \<le> byte_val b \<and> byte_val b \<le> 0x7E then s\<lparr>s_esc := escNone\<rparr> else s))"

text \<open>\<open>utf8.FullRune\<close>: the bytes begin with a whole rune, or with bytes that cannot begin one.\<close>

definition rune_size :: "nat \<Rightarrow> nat" where
  "rune_size b = (if b < 0xC2 \<or> 0xF4 < b then 1 else if b \<le> 0xDF then 2 else if b \<le> 0xEF then 3 else 4)"

definition full_rune :: "string \<Rightarrow> bool" where
  "full_rune p = (case map byte_val p of
       [] \<Rightarrow> False
     | b0 # bs \<Rightarrow> rune_size b0 \<le> length p \<or>
         (case bs of [] \<Rightarrow> False | b1 # bs' \<Rightarrow> \<not> second_ok b0 b1 \<or>
           (case bs' of [] \<Rightarrow> False | b2 # _ \<Rightarrow> \<not> is_cont b2)))"

definition decodeHigh :: "char \<Rightarrow> 'a session_scheme \<Rightarrow> rune option \<times> 'a session_scheme" where
  "decodeHigh b s = (case s_cs s of
       TermCP437 \<Rightarrow> (Some (DecodeCP437 b), s)
     | TermASCII \<Rightarrow> (None, s)
     | TermUTF8 \<Rightarrow>
         let u = s_ubuf s @ [b]
         in if \<not> full_rune u then (None, s\<lparr>s_ubuf := if 4 \<le> length u then [] else u\<rparr>)
            else let r = fst (decode_rune u)
                 in (if r = rune_error then None else Some r, s\<lparr>s_ubuf := []\<rparr>))"

text \<open>The loop of \<open>readRune\<close> over the bytes of \<open>inputPump.next\<close>.\<close>

fun read_bytes :: "(nanos \<times> char) list \<Rightarrow> (rune, 'a session_scheme) io" where
  "read_bytes [] s = (Fail ReadErr, s\<lparr>s_in := []\<rparr>)"
| "read_bytes ((t, b) # rest) s =
     (let (skip, s1) = skipEscape b (s\<lparr>s_in := rest, s_now := t\<rparr>)
      in if skip then read_bytes rest s1
         else let wasCR = s_lastCR s1; s2 = s1\<lparr>s_lastCR := (b = CHR 0x0D)\<rparr>
              in if wasCR \<and> (b = CHR 0x0A \<or> b = CHR 0x00) then read_bytes rest s2
                 else if b = CHR 0x0D \<or> b = CHR 0x0A then (Done keyEnter, s2)
                 else if byte_val b = keyBackspace \<or> byte_val b = keyDel then (Done keyBackspace, s2)
                 else if b = CHR 0x00 then read_bytes rest s2
                 else if byte_val b < 0x80 then (Done (byte_val b), s2)
                 else case decodeHigh b s2 of
                        (Some r, s3) \<Rightarrow> (Done r, s3)
                      | (None, s3) \<Rightarrow> read_bytes rest s3)"

definition readRune :: "(rune, 'a session_scheme) io" where
  "readRune s = (if s_werr s then (Fail WriteErr, s) else read_bytes (s_in s) s)"

lemma skipEscape_in [simp]: "s_in (snd (skipEscape b s)) = s_in s"
  by (simp add: skipEscape_def Let_def split: escState.splits)

lemma decodeHigh_in [simp]: "s_in (snd (decodeHigh b s)) = s_in s"
  by (simp add: decodeHigh_def Let_def split: term_charset.splits)

lemma read_bytes_in:
  fixes s s' :: "'a session_scheme"
  shows "read_bytes bs s = (Done r, s') \<Longrightarrow> length (s_in s') < length bs"
proof (induction bs arbitrary: s r s')
  case (Cons tb rest)
  obtain t b where tb: "tb = (t, b)" by fastforce
  obtain skip s1 where s1: "skipEscape b (s\<lparr>s_in := rest, s_now := t\<rparr>) = (skip, s1)" by fastforce
  have i1: "s_in s1 = rest" using skipEscape_in [of b "s\<lparr>s_in := rest, s_now := t\<rparr>"] s1 by simp
  have i3: "decodeHigh b k = (d, k') \<Longrightarrow> s_in k' = s_in k" for d and k k' :: "'a session_scheme"
    using decodeHigh_in [of b k] by simp
  have IH: "read_bytes rest k = (Done q, k') \<Longrightarrow> length (s_in k') < Suc (length rest)"
    for q and k k' :: "'a session_scheme"
    using Cons.IH [of k q k'] by simp
  show ?case using Cons.prems unfolding tb
    by (auto simp: s1 i1 Let_def split: if_split_asm option.split_asm prod.split_asm dest: IH i3)
qed simp

lemma readRune_in: "readRune s = (Done r, s') \<Longrightarrow> length (s_in s') < length (s_in s)"
  by (auto simp: readRune_def split: if_splits dest: read_bytes_in)

lemma write_in [simp]: "s_in (write_bytes p s) = s_in s" "s_in (raw p s) = s_in s"
  by (simp_all add: write_bytes_def raw_def)

definition upper_rune :: "(rune \<Rightarrow> rune) \<Rightarrow> rune \<Rightarrow> rune" where
  "upper_rune up r = (if r < 0x80 then ascii_upper r else up r)"

function readKey :: "(rune \<Rightarrow> rune) \<Rightarrow> string \<Rightarrow> (rune, 'a session_scheme) io" where
  "readKey up allowed s = bind_io readRune (\<lambda>r s.
     if upper_rune up r \<in> set (runes allowed) then return_io (upper_rune up r) s else readKey up allowed s) s"
  by pat_completeness auto
termination
  by (relation "measure (\<lambda>(up, allowed, s). length (s_in s))") (auto dest: readRune_in)

declare readKey.simps [simp del]

text \<open>Output without a result, as a session operation.\<close>

definition effect :: "('s \<Rightarrow> 's) \<Rightarrow> (unit, 's) io" where
  "effect f s = (Done (), f s)"

definition choose_key :: "(rune \<Rightarrow> rune) \<Rightarrow> string \<Rightarrow> (rune, 'a session_scheme) io" where
  "choose_key up allowed = bind_io (readKey up allowed) (\<lambda>k.
     then_io (effect (if k \<noteq> keyEnter then raw (of_runes [k]) else id))
       (then_io (effect (raw CRLF)) (return_io k)))"

section \<open>Lines\<close>

record lineOpts =
  lo_max :: int
  lo_mask :: bool
  lo_wrap :: bool
  lo_init :: "rune list"

definition lineOpts0 :: lineOpts where
  "lineOpts0 = \<lparr>lo_max = 0, lo_mask = False, lo_wrap = False, lo_init = []\<rparr>"

definition rubout :: string where "rubout = [CHR 0x08, CHR '' '', CHR 0x08]"

definition erase :: "nat \<Rightarrow> string" where "erase n = concat (replicate n rubout)"

definition sp :: rune where "sp = 0x20"

definition wrapOverflow :: "rune list \<Rightarrow> rune \<Rightarrow> (string \<times> rune list, 'a session_scheme) io" where
  "wrapOverflow buf r s =
     (if r = sp then (Done (of_runes buf, []), raw CRLF s)
      else if sp \<notin> set buf then (Done (of_runes buf, [r]), raw CRLF s)
      else let word = rev (takeWhile (\<lambda>c. c \<noteq> sp) (rev buf));
               cut = length buf - length word - 1
           in (Done (trim_right_bytes '' '' (of_runes (take cut buf)), word @ [r]), raw (erase (length word) @ CRLF) s))"

function line_loop :: "lineOpts \<Rightarrow> rune list \<Rightarrow> (string \<times> rune list, 'a session_scheme) io" where
  "line_loop opts buf s = bind_io readRune (\<lambda>r s.
     if r = keyEnter then (Done (of_runes buf, []), raw CRLF s)
     else if r = keyBackspace
     then (if buf \<noteq> [] then line_loop opts (butlast buf) (raw rubout s) else line_loop opts buf s)
     else if r = keyCtrlU then line_loop opts [] (raw (erase (length buf)) s)
     else if r < 0x20 then line_loop opts buf s
     else if int (length buf) < lo_max opts
     then line_loop opts (buf @ [r]) (raw (if lo_mask opts then ''*'' else of_runes [r]) s)
     else if lo_wrap opts then wrapOverflow buf r s
     else line_loop opts buf s) s"
  by pat_completeness auto
termination
  by (relation "measure (\<lambda>(opts, buf, s). length (s_in s))") (auto dest: readRune_in)

declare line_loop.simps [simp del]

definition readLine :: "lineOpts \<Rightarrow> (string \<times> rune list, 'a session_scheme) io" where
  "readLine opts s = line_loop opts (lo_init opts) (raw (of_runes (lo_init opts)) s)"

definition prompt :: "string \<Rightarrow> int \<Rightarrow> (string, 'a session_scheme) io" where
  "prompt label n = then_io (print label) (bind_io (readLine (lineOpts0\<lparr>lo_max := n\<rparr>)) (\<lambda>(line, _). return_io (trim_space line)))"

definition promptSecret :: "string \<Rightarrow> int \<Rightarrow> (string, 'a session_scheme) io" where
  "promptSecret label n = then_io (print label) (bind_io (readLine (lineOpts0\<lparr>lo_max := n, lo_mask := True\<rparr>)) (\<lambda>(line, _). return_io line))"

definition yesNo :: "(rune \<Rightarrow> rune) \<Rightarrow> string \<Rightarrow> bool \<Rightarrow> (bool, 'a session_scheme) io" where
  "yesNo up question def =
     then_io (print (''|07'' @ question @ '' '' @ (if def then ''|08[|15Y|08/n]'' else ''|08[y/|15N|08]'') @ '' |15''))
       (bind_io (readKey up (''YN'' @ [CHR 0x0D])) (\<lambda>k.
          let yes = (k = byte_val CHR ''Y'' \<or> (k = keyEnter \<and> def))
          in then_io (effect (raw ((if yes then ''Yes'' else ''No'') @ CRLF))) (return_io yes)))"

text \<open>\<open>more\<close> clears its line whether or not a key came.\<close>

definition more_prompt :: "(rune \<Rightarrow> rune) \<Rightarrow> (bool, 'a session_scheme) io" where
  "more_prompt up = then_io (print ''|08-- |07more |08(|15Enter|08 = next page, |15Q|08 = stop) --'')
     (\<lambda>s. let (k, s') = readKey up (''Q'' @ [CHR 0x0D] @ '' '') s
          in (case k of Done k \<Rightarrow> Done (k \<noteq> byte_val CHR ''Q'') | Fail e \<Rightarrow> Fail e | Panicked \<Rightarrow> Panicked, clearLine s'))"

text \<open>The loop of \<open>page\<close>: \<open>per\<close> rows a screen, \<open>row\<close> of them used.\<close>

fun page_loop :: "(rune \<Rightarrow> rune) \<Rightarrow> int \<Rightarrow> int \<Rightarrow> string list \<Rightarrow> (bool, 'a session_scheme) io" where
  "page_loop up per row [] = return_io True"
| "page_loop up per row (ln # lns) =
     (let show = (\<lambda>row. then_io (print (ln @ [CHR 0x0A])) (page_loop up per (row + 1) lns))
      in if per \<le> row then bind_io (more_prompt up) (\<lambda>go. if go then show 0 else return_io False) else show row)"

definition page :: "(rune \<Rightarrow> rune) \<Rightarrow> string list \<Rightarrow> int \<Rightarrow> (bool, 'a session_scheme) io" where
  "page up lns used s = page_loop up (max (height s - 2) minPageLines) used lns s"

section \<open>What reading keys changes\<close>

text \<open>Reading moves through the input and changes the decoder's state, and nothing else.\<close>

definition input_moved :: "'a session_scheme \<Rightarrow> 'a session_scheme \<Rightarrow> bool" where
  "input_moved s s' \<longleftrightarrow> s' = s\<lparr>s_in := s_in s', s_now := s_now s', s_esc := s_esc s', s_lastCR := s_lastCR s', s_ubuf := s_ubuf s'\<rparr>"

lemma input_moved_refl: "input_moved s s"
  by (simp add: input_moved_def)

lemma input_moved_trans: "input_moved s s' \<Longrightarrow> input_moved s' s'' \<Longrightarrow> input_moved s s''"
  unfolding input_moved_def by (cases s; cases s'; cases s''; simp)

lemma input_moved_updates:
  "input_moved s (s\<lparr>s_in := i, s_now := t\<rparr>)" "input_moved s (s\<lparr>s_lastCR := c\<rparr>)" "input_moved s (s\<lparr>s_in := i\<rparr>)"
  by (simp_all add: input_moved_def)

lemma skipEscape_moved: "input_moved s (snd (skipEscape b s))"
  by (simp add: skipEscape_def Let_def input_moved_def split: escState.split)

lemma decodeHigh_moved: "input_moved s (snd (decodeHigh b s))"
  by (simp add: decodeHigh_def Let_def input_moved_def split: term_charset.split)

lemma read_bytes_moved: "input_moved s (snd (read_bytes bs s))"
proof (induction bs arbitrary: s)
  case (Cons tb rest)
  obtain t b where tb: "tb = (t, b)" by fastforce
  obtain skip s1 where s1: "skipEscape b (s\<lparr>s_in := rest, s_now := t\<rparr>) = (skip, s1)" by fastforce
  have m1: "input_moved s s1"
    using input_moved_trans [OF input_moved_updates(1) [of s t rest] skipEscape_moved [of _ b]] s1 by simp
  let ?s2 = "s1\<lparr>s_lastCR := (b = CHR 0x0D)\<rparr>"
  have m2: "input_moved s ?s2" by (rule input_moved_trans [OF m1 input_moved_updates(2)])
  obtain d s3 where s3: "decodeHigh b ?s2 = (d, s3)" by fastforce
  have m3: "input_moved s s3" using input_moved_trans [OF m2 decodeHigh_moved [of _ b]] s3 by simp
  have "input_moved s (snd (read_bytes rest k))" if "input_moved s k" for k
    using input_moved_trans [OF that Cons.IH] .
  then have "input_moved s (snd (read_bytes rest s1))" "input_moved s (snd (read_bytes rest ?s2))"
    "input_moved s (snd (read_bytes rest s3))" using m1 m2 m3 by blast+
  then show ?case using m2 m3 unfolding tb read_bytes.simps s1 Let_def prod.case s3
    by (cases d) (simp_all only: if_split_mem1 snd_conv option.case prod.case split: if_split, simp_all)
qed (simp add: input_moved_updates)

lemma readRune_moved: "input_moved s (snd (readRune s))"
  by (simp add: readRune_def read_bytes_moved input_moved_refl)

lemma readRune_out [simp]: "readRune s = (q, s') \<Longrightarrow> s_out s' = s_out s"
  using readRune_moved [of s] unfolding input_moved_def by (cases s; cases s'; simp)

text \<open>Every key is a valid code point.\<close>

lemma decodeHigh_valid: "decodeHigh b s = (Some r, s') \<Longrightarrow> valid_rune r"
proof -
  assume a: "decodeHigh b s = (Some r, s')"
  have "valid_rune (DecodeCP437 b)"
  proof (cases "is_ascii b")
    case True
    then show ?thesis by (simp add: DecodeCP437_def is_ascii_def valid_rune_def)
  next
    case False
    have "byte_val b - 0x80 < 128" using byte_val_lt [of b] by linarith
    then have "byte_val b - 0x80 < length cp437High" by (simp add: cp437_table)
    then show ?thesis using False cp437_valid by (simp add: DecodeCP437_def list_all_length)
  qed
  with a show ?thesis
    using decode_vals_valid by (auto simp: decodeHigh_def Let_def decode_rune_def split: term_charset.splits if_splits)
qed

lemma read_bytes_valid:
  fixes s s' :: "'a session_scheme"
  shows "read_bytes bs s = (Done r, s') \<Longrightarrow> valid_rune r"
proof (induction bs arbitrary: s r s')
  case (Cons tb rest)
  obtain t b where tb: "tb = (t, b)" by fastforce
  show ?case using Cons.prems unfolding tb
    by (auto simp: Let_def key_defs valid_rune_def [of "byte_val b"] valid_rune_def [of 13] valid_rune_def [of 8]
        split: if_split_asm option.split_asm prod.split_asm dest: Cons.IH decodeHigh_valid)
qed simp

lemma readRune_valid: "readRune s = (Done r, s') \<Longrightarrow> valid_rune r"
  by (auto simp: readRune_def split: if_splits dest: read_bytes_valid)

section \<open>Typing a secret\<close>

lemma Encode_ascii: "list_all is_ascii t \<Longrightarrow> term_Encode cs t = t"
  by (induction t) (simp_all add: term_Encode_def runes_ascii term_encode_rune_def is_ascii_def split: if_splits)

definition secret_echo :: "string set" where
  "secret_echo = {''*'', CRLF} \<union> range erase"

definition echoed :: "string set \<Rightarrow> 'a session_scheme \<Rightarrow> 'a session_scheme \<Rightarrow> bool" where
  "echoed T s s' \<longleftrightarrow> (\<exists>chunks. s_out s' = s_out s @ chunks \<and> set chunks \<subseteq> T)"

lemma echoed_refl: "s_out s' = s_out s \<Longrightarrow> echoed T s s'"
  by (auto simp: echoed_def)

lemma echoed_trans: "echoed T s s' \<Longrightarrow> echoed T s' s'' \<Longrightarrow> echoed T s s''"
  by (fastforce simp: echoed_def)

lemma raw_echoed: "list_all is_ascii t \<Longrightarrow> t \<in> T \<Longrightarrow> echoed T s (raw t s)"
  by (auto simp: echoed_def raw_def write_bytes_def Encode_ascii)

lemma erase_ascii: "list_all is_ascii (erase n)"
  by (induction n) (simp_all add: erase_def rubout_def is_ascii_def byte_val_def)

lemma secret_raw: "t \<in> secret_echo \<Longrightarrow> echoed secret_echo s (raw t s)"
proof (rule raw_echoed)
  show "list_all is_ascii t" if "t \<in> secret_echo"
    using that erase_ascii by (auto simp: secret_echo_def CRLF_def is_ascii_def byte_val_def)
qed

lemma rubout_erase: "rubout = erase 1"
  by (simp add: erase_def)

lemma line_loop_step:
  assumes "readRune s = (Done r, t)"
  shows "line_loop opts buf s =
    (if r = keyEnter then (Done (of_runes buf, []), raw CRLF t)
     else if r = keyBackspace
     then (if buf \<noteq> [] then line_loop opts (butlast buf) (raw rubout t) else line_loop opts buf t)
     else if r = keyCtrlU then line_loop opts [] (raw (erase (length buf)) t)
     else if r < 0x20 then line_loop opts buf t
     else if int (length buf) < lo_max opts
     then line_loop opts (buf @ [r]) (raw (if lo_mask opts then ''*'' else of_runes [r]) t)
     else if lo_wrap opts then wrapOverflow buf r t
     else line_loop opts buf t)"
  using assms by (subst line_loop.simps) (simp add: bind_io_def)

lemma line_loop_stop:
  assumes "readRune s = (q, t)" "\<forall>x. q \<noteq> Done x"
  shows "snd (line_loop opts buf s) = t" "fst (line_loop opts buf s) \<noteq> Done y"
  using assms by (subst line_loop.simps, cases q; simp add: bind_io_def)+

lemma secret_line:
  assumes "lo_mask opts" "\<not> lo_wrap opts"
  shows "echoed secret_echo s (snd (line_loop opts buf s))"
proof (induction "length (s_in s)" arbitrary: s buf rule: less_induct)
  case less
  obtain q t where r: "readRune s = (q, t)" by fastforce
  have st: "echoed secret_echo s t" using r by (simp add: echoed_refl)
  show ?case
  proof (cases q)
    case (Done x)
    have rec: "echoed secret_echo s (snd (line_loop opts b u))" if "s_in u = s_in t" "echoed secret_echo t u" for b u
      using less [of u b] readRune_in [of s x t] r Done that echoed_trans [OF st] echoed_trans by metis
    have raws: "echoed secret_echo t (raw CRLF t)" "echoed secret_echo t (raw rubout t)"
        "echoed secret_echo t (raw (erase n) t)" "echoed secret_echo t (raw ''*'' t)" for n
      unfolding rubout_erase by (rule secret_raw; simp add: secret_echo_def)+
    show ?thesis unfolding line_loop_step [OF r [unfolded Done]]
      using assms rec raws echoed_trans [OF st raws(1)] by (simp add: echoed_refl)
  qed (use line_loop_stop(1) [OF r, of opts buf] st in simp_all)
qed

text \<open>What a line holds when it ends: at most the allowed number of characters, none of them a
  control key.\<close>

definition line_ok :: "lineOpts \<Rightarrow> rune list \<Rightarrow> bool" where
  "line_ok opts buf \<longleftrightarrow> int (length buf) \<le> max 0 (lo_max opts) \<and> list_all (\<lambda>r. valid_rune r \<and> 0x20 \<le> r) buf"

lemma line_loop_result:
  assumes "\<not> lo_wrap opts" "line_ok opts buf" "line_loop opts buf s = (Done (line, carry), s')"
  shows "\<exists>b. line_ok opts b \<and> line = of_runes b \<and> carry = []"
  using assms(2,3)
proof (induction "length (s_in s)" arbitrary: s buf rule: less_induct)
  case less
  obtain q t where r: "readRune s = (q, t)" by fastforce
  show ?case
  proof (cases q)
    case (Done x)
    have rec: "\<exists>b. line_ok opts b \<and> line = of_runes b \<and> carry = []"
      if "line_loop opts b u = (Done (line, carry), s')" "s_in u = s_in t" "line_ok opts b" for b u
      using less(1) [of u b] readRune_in [of s x t] r Done that by simp
    have ok: "line_ok opts (butlast buf)" "line_ok opts []"
      "0x20 \<le> x \<Longrightarrow> int (length buf) < lo_max opts \<Longrightarrow> line_ok opts (buf @ [x])"
      using less(2) readRune_valid [OF r [unfolded Done]] by (auto simp: line_ok_def list_all_iff dest: in_set_butlastD)
    show ?thesis using less(2,3) assms(1) ok unfolding line_loop_step [OF r [unfolded Done]]
      by (auto split: if_split_asm dest: rec)
  qed (use line_loop_stop(2) [OF r, of opts buf "(line, carry)"] less(3) in simp_all)
qed

lemma runes_line: "line_ok opts b \<Longrightarrow> runes (of_runes b) = b"
  by (rule runes_of_runes) (auto simp: line_ok_def list_all_iff)

text \<open>
  Claim C15. A password never shows: while a secret is typed, whatever keys arrive, all that is
  sent back is asterisks, rubouts and the line end, never a typed character; and what is returned
  has at most the allowed number of characters, none of them below U+0020. (On a UTF-8 terminal the controls from U+0080 to
  U+009F can be typed and are returned; they are not sent back either.)
\<close>

theorem promptSecret_hides:
  "echoed secret_echo (snd (print label s)) (snd (promptSecret label n s)) \<and>
   (case fst (promptSecret label n s) of
      Done line \<Rightarrow> int (length (runes line)) \<le> max 0 n \<and> list_all (\<lambda>r. 0x20 \<le> r) (runes line)
    | _ \<Rightarrow> True)"
proof -
  obtain q t where p: "print label s = (q, t)" by fastforce
  let ?o = "lineOpts0\<lparr>lo_max := n, lo_mask := True\<rparr>"
  have opts: "lo_mask ?o" "\<not> lo_wrap ?o" "lo_max ?o = n" "lo_init ?o = []" by (simp_all add: lineOpts0_def)
  have "echoed secret_echo t (raw [] t)" using secret_raw [of "[]" t] by (force simp: secret_echo_def erase_def)
  then have e: "echoed secret_echo t (snd (readLine ?o t))"
    unfolding readLine_def using secret_line [OF opts(1,2)] echoed_trans by (fastforce simp: opts(4))
  obtain l u where l: "readLine ?o t = (l, u)" by fastforce
  have ok: "line_ok ?o []" by (simp add: line_ok_def)
  have bound: "int (length (runes line)) \<le> max 0 n \<and> list_all (\<lambda>r. 0x20 \<le> r) (runes line)"
    if d: "l = Done (line, carry)" for line carry
  proof -
    have "line_loop ?o [] (raw (of_runes (lo_init ?o)) t) = (Done (line, carry), u)"
      using l unfolding d readLine_def opts(4) .
    from line_loop_result [OF opts(2) ok this] obtain b where b: "line_ok ?o b" "line = of_runes b" by blast
    then show ?thesis using runes_line [OF b(1)] opts(3) by (simp add: line_ok_def list_all_iff)
  qed
  show ?thesis using p e l bound
    by (auto simp: promptSecret_def then_io_def bind_io_def return_io_def echoed_refl split: outcome.split prod.split)
qed

section \<open>Typing text\<close>

lemma decode_whole:
  assumes "snd (decode_rune p) = length p" "1 < length p"
  shows "full_rune p" "list_all (\<lambda>b. 0x80 \<le> byte_val b) p"
    "0 < k \<Longrightarrow> k < length p \<Longrightarrow> \<not> full_rune (take k p)" "length p \<le> 4"
proof -
  obtain b0 b1 q where p: "p = b0 # b1 # q" using assms(2) by (cases p; cases "tl p") auto
  have l4: "length p \<le> 4"
    using decode_vals_width(1) [of "map byte_val (take 4 p)"] assms(1) by (simp add: decode_rune_def)
  have d: "snd (decode_vals (byte_val b0 # byte_val b1 # map byte_val q)) = Suc (Suc (length q))"
    using assms(1) l4 by (simp add: decode_rune_def p del: decode_vals.simps)
  consider "q = []" | b2 where "q = [b2]" | b2 b3 where "q = [b2, b3]"
    using l4 p by (cases q; cases "tl q"; cases "tl (tl q)") auto
  note cs = this
  have "full_rune p \<and> list_all (\<lambda>b. 0x80 \<le> byte_val b) p \<and> (\<forall>k. 0 < k \<and> k < length p \<longrightarrow> \<not> full_rune (take k p))"
    using cs d
    by cases (auto simp: p full_rune_def rune_size_def second_ok_def is_cont_def take_Cons' less_Suc_eq split: if_split_asm)
  then show "full_rune p" "list_all (\<lambda>b. 0x80 \<le> byte_val b) p"
    "0 < k \<Longrightarrow> k < length p \<Longrightarrow> \<not> full_rune (take k p)" "length p \<le> 4" using l4 by auto
qed

text \<open>A UTF-8 terminal between two keys.\<close>

definition ready :: "'a session_scheme \<Rightarrow> bool" where
  "ready s \<longleftrightarrow> s_cs s = TermUTF8 \<and> s_esc s = escNone \<and> s_ubuf s = [] \<and> \<not> s_werr s \<and> \<not> s_broken s \<and> renderer_inv (s_rend s)"

lemma read_high:
  fixes s :: "'a session_scheme"
  assumes "list_all (\<lambda>b. 0x80 \<le> byte_val b) bs" "bs \<noteq> []"
    "\<And>k. 0 < k \<Longrightarrow> k < length bs \<Longrightarrow> \<not> full_rune (u @ take k bs)" "full_rune (u @ bs)" "length (u @ bs) \<le> 4"
    "decode_rune (u @ bs) = (r, n)" "r \<noteq> rune_error"
    "s_cs s = TermUTF8" "s_esc s = escNone" "s_ubuf s = u" "map snd xs = bs"
  shows "\<exists>t. read_bytes (xs @ rest) s = (Done r, s\<lparr>s_in := rest, s_now := t, s_lastCR := False, s_ubuf := []\<rparr>)"
  using assms
proof (induction xs arbitrary: bs u s)
  case (Cons x xs)
  obtain t b where x: "x = (t, b)" by fastforce
  obtain bs' where bs: "bs = b # bs'" "map snd xs = bs'" using Cons.prems(11) x by auto
  have b: "0x80 \<le> byte_val b" using Cons.prems(1) bs by simp
  have ne: "b \<noteq> CHR 0x0D" "b \<noteq> CHR 0x0A" "b \<noteq> CHR 0x00" "byte_val b \<noteq> keyBackspace" "byte_val b \<noteq> keyDel" "byte_val b \<noteq> keyEsc"
    using b by (auto simp: byte_val_def key_defs)
  let ?s2 = "s\<lparr>s_in := xs @ rest, s_now := t, s_lastCR := False\<rparr>"
  have step: "read_bytes ((x # xs) @ rest) s = (case decodeHigh b ?s2 of (Some r, s3) \<Rightarrow> (Done r, s3) | (None, s3) \<Rightarrow> read_bytes (xs @ rest) s3)"
    using ne b Cons.prems(9) by (simp add: x skipEscape_def Let_def)
  show ?case
  proof (cases "bs' = []")
    case True
    then have "decodeHigh b ?s2 = (Some r, ?s2\<lparr>s_ubuf := []\<rparr>)" "xs = []"
      using Cons.prems bs by (simp_all add: decodeHigh_def Let_def)
    then show ?thesis unfolding step by auto
  next
    case False
    have nf: "\<not> full_rune (u @ [b])" using Cons.prems(3) [of 1] False bs by simp
    have "length (u @ [b]) < 4" using Cons.prems(5) False bs by (cases bs') auto
    then have d: "decodeHigh b ?s2 = (None, ?s2\<lparr>s_ubuf := u @ [b]\<rparr>)"
      using nf Cons.prems(8,10) by (simp add: decodeHigh_def Let_def)
    have "\<exists>t'. read_bytes (xs @ rest) (?s2\<lparr>s_ubuf := u @ [b]\<rparr>) =
        (Done r, ?s2\<lparr>s_ubuf := u @ [b]\<rparr>\<lparr>s_in := rest, s_now := t', s_lastCR := False, s_ubuf := []\<rparr>)"
    proof (rule Cons.IH)
      show "\<not> full_rune ((u @ [b]) @ take k bs')" if "0 < k" "k < length bs'" for k
        using Cons.prems(3) [of "Suc k"] that bs by simp
    qed (use Cons.prems False bs in simp_all)
    then show ?thesis unfolding step by (auto simp: d)
  qed
qed simp

definition typeable :: "rune \<Rightarrow> bool" where
  "typeable r \<longleftrightarrow> valid_rune r \<and> 0x20 \<le> r \<and> r \<noteq> keyDel \<and> r \<noteq> rune_error"

lemma readRune_typed:
  assumes "ready s" "typeable r" "s_in s = xs @ rest" "map snd xs = encode_rune r"
  shows "\<exists>t. readRune s = (Done r, s\<lparr>s_in := rest, s_now := t, s_lastCR := False\<rparr>)"
proof -
  have r: "valid_rune r" "0x20 \<le> r" "r \<noteq> keyDel" "r \<noteq> rune_error" using assms(2) by (auto simp: typeable_def)
  have s: "s_cs s = TermUTF8" "s_esc s = escNone" "s_ubuf s = []" "\<not> s_werr s" using assms(1) by (auto simp: ready_def)
  show ?thesis
  proof (cases "r < 0x80")
    case True
    then have e: "encode_rune r = [byte_of r]" "byte_val (byte_of r) = r"
      using r by (simp_all add: encode_rune_def encode_valid_def byte_val_byte_of)
    obtain t where xs: "xs = [(t, byte_of r)]" using assms(4) e by (cases xs) auto
    have "byte_of r \<noteq> CHR 0x0D" "byte_of r \<noteq> CHR 0x0A" "byte_of r \<noteq> CHR 0x00"
      using r(2) e(2) by (auto simp: byte_val_def)
    then have "readRune s = (Done r, s\<lparr>s_in := rest, s_now := t, s_lastCR := False\<rparr>)"
      using s r True e assms(3) by (simp add: readRune_def xs skipEscape_def key_defs Let_def)
    then show ?thesis by blast
  next
    case False
    have e: "encode_rune r = encode_valid r" using r by (simp add: encode_rune_def)
    have d: "decode_rune (encode_valid r) = (r, length (encode_valid r))"
      using decode_encode_valid [OF r(1), of "[]"] by simp
    have two: "1 < length (encode_valid r)" using False by (simp add: encode_valid_def)
    then have ne: "encode_valid r \<noteq> []" by auto
    have snd: "snd (decode_rune (encode_valid r)) = length (encode_valid r)" using d by simp
    note w = decode_whole [OF snd two]
    have "\<exists>t. read_bytes (xs @ rest) s = (Done r, s\<lparr>s_in := rest, s_now := t, s_lastCR := False, s_ubuf := []\<rparr>)"
      using read_high [of "encode_valid r" "[]" r "length (encode_valid r)" s xs rest] w d ne r s assms(4) e by auto
    moreover have "s\<lparr>s_in := rest, s_now := t, s_lastCR := False, s_ubuf := []\<rparr> = s\<lparr>s_in := rest, s_now := t, s_lastCR := False\<rparr>" for t
      using s(3) by (cases s) simp
    ultimately have "\<exists>t. read_bytes (xs @ rest) s = (Done r, s\<lparr>s_in := rest, s_now := t, s_lastCR := False\<rparr>)" by metis
    then show ?thesis using s(4) assms(3) by (simp add: readRune_def)
  qed
qed

lemma raw_ready: "ready s \<Longrightarrow> raw t s = s\<lparr>s_out := s_out s @ [t]\<rparr>"
  by (simp add: ready_def raw_def write_bytes_def term_Encode_def)

lemma readRune_enter:
  "ready s \<Longrightarrow> s_in s = (t, CHR 0x0D) # rest \<Longrightarrow>
    readRune s = (Done keyEnter, s\<lparr>s_in := rest, s_now := t, s_lastCR := True\<rparr>)"
  by (simp add: ready_def readRune_def skipEscape_def key_defs byte_val_def Let_def)

lemma map_snd_append: "map snd zs = p @ q \<Longrightarrow> \<exists>xs ys. zs = xs @ ys \<and> map snd xs = p \<and> map snd ys = q"
  by (rule exI [of _ "take (length p) zs"], rule exI [of _ "drop (length p) zs"])
     (metis append_eq_conv_conj append_take_drop_id drop_map take_map)

lemma line_loop_typed:
  assumes "list_all typeable rs" "int (length (buf @ rs)) \<le> lo_max opts" "ready s"
    "map snd (s_in s) = of_runes rs @ CHR 0x0D # later"
  shows "\<exists>s'. line_loop opts buf s = (Done (of_runes (buf @ rs), []), s') \<and> ready s' \<and> map snd (s_in s') = later \<and>
    s_out s' = s_out s @ map (\<lambda>r. if lo_mask opts then ''*'' else of_runes [r]) rs @ [CRLF]"
  using assms
proof (induction rs arbitrary: buf s)
  case Nil
  then obtain t rest where i: "s_in s = (t, CHR 0x0D) # rest" "map snd rest = later" by (cases "s_in s") auto
  let ?u = "s\<lparr>s_in := rest, s_now := t, s_lastCR := True\<rparr>"
  have "ready ?u" using Nil.prems(3) by (simp add: ready_def)
  then show ?case using line_loop_step [OF readRune_enter [OF Nil.prems(3) i(1)], of opts buf] i(2)
    by (simp add: raw_ready ready_def)
next
  case (Cons r rs)
  from Cons.prems(4) obtain xs ys where z: "s_in s = xs @ ys" "map snd xs = encode_rune r" "map snd ys = of_runes rs @ CHR 0x0D # later"
    using map_snd_append [of "s_in s" "encode_rune r" "of_runes rs @ CHR 0x0D # later"] by auto
  have ty: "typeable r" using Cons.prems(1) by simp
  obtain t where rd: "readRune s = (Done r, s\<lparr>s_in := ys, s_now := t, s_lastCR := False\<rparr>)"
    using readRune_typed [OF Cons.prems(3) ty z(1,2)] by blast
  let ?u = "s\<lparr>s_in := ys, s_now := t, s_lastCR := False\<rparr>"
  let ?c = "if lo_mask opts then ''*'' else of_runes [r]"
  have u: "ready ?u" using Cons.prems(3) by (simp add: ready_def)
  have keys: "r \<noteq> keyEnter" "r \<noteq> keyBackspace" "r \<noteq> keyCtrlU" "\<not> r < 0x20" using ty by (auto simp: typeable_def key_defs)
  have room: "int (length buf) < lo_max opts" using Cons.prems(2) by simp
  have step: "line_loop opts buf s = line_loop opts (buf @ [r]) (raw ?c ?u)"
    using line_loop_step [OF rd, of opts buf] keys room by simp
  have rw: "raw ?c ?u = ?u\<lparr>s_out := s_out s @ [?c]\<rparr>" using raw_ready [OF u, of ?c] by simp
  have ok: "list_all typeable rs" "int (length ((buf @ [r]) @ rs)) \<le> lo_max opts" using Cons.prems(1,2) by simp_all
  have rdy: "ready (raw ?c ?u)" unfolding rw using Cons.prems(3) by (simp add: ready_def)
  have inp: "map snd (s_in (raw ?c ?u)) = of_runes rs @ CHR 0x0D # later" using z(3) by simp
  obtain s' where "line_loop opts (buf @ [r]) (raw ?c ?u) = (Done (of_runes ((buf @ [r]) @ rs), []), s')" "ready s'"
      "map snd (s_in s') = later"
      "s_out s' = s_out (raw ?c ?u) @ map (\<lambda>r. if lo_mask opts then ''*'' else of_runes [r]) rs @ [CRLF]"
    using Cons.IH [OF ok rdy inp] by blast
  then show ?case unfolding step rw by (intro exI [of _ s']) simp
qed

lemma readLine_line:
  assumes "list_all typeable rs" "int (length rs) \<le> lo_max opts" "lo_init opts = []" "ready s"
    "map snd (s_in s) = of_runes rs @ CHR 0x0D # later"
  shows "\<exists>s'. readLine opts s = (Done (of_runes rs, []), s') \<and> ready s' \<and> map snd (s_in s') = later \<and>
    s_out s' = s_out s @ [[]] @ map (\<lambda>r. if lo_mask opts then ''*'' else of_runes [r]) rs @ [CRLF]"
proof -
  have r: "raw [] s = s\<lparr>s_out := s_out s @ [[]]\<rparr>" using raw_ready [OF assms(4)] .
  have "ready (raw [] s)" "map snd (s_in (raw [] s)) = of_runes rs @ CHR 0x0D # later"
    unfolding r using assms(4,5) by (simp_all add: ready_def)
  from line_loop_typed [OF assms(1) _ this, of "[]" opts] assms(2) show ?thesis
    by (simp add: readLine_def assms(3) r)
qed

text \<open>
  What is typed is what is read: on a UTF-8 terminal, typing any text of printable
  characters that fits, in whatever pieces its bytes arrive, and then Enter makes
  \<open>readLine\<close> return exactly that text, echo each character once (an asterisk for each in a secret) and a
  line end, and leave what was typed afterwards unread.
\<close>

theorem readLine_typed:
  assumes "list_all typeable rs" "int (length rs) \<le> lo_max opts" "lo_init opts = []" "ready s"
    "map snd (s_in s) = of_runes rs @ CHR 0x0D # later"
  shows "\<exists>s'. readLine opts s = (Done (of_runes rs, []), s') \<and> ready s' \<and> map snd (s_in s') = later \<and>
    s_out s' = s_out s @ [[]] @ map (\<lambda>r. if lo_mask opts then ''*'' else of_runes [r]) rs @ [CRLF]"
  using readLine_line [OF assms] .

definition demo_session :: "string \<Rightarrow> session" where
  "demo_session bytes = \<lparr>s_in = map (Pair 0) bytes, s_now = 0, s_broken = False, s_out = [], s_werr = False, s_width = 80,
     s_height = 24, s_cs = TermUTF8, s_mode = NoColor, s_rend = NewRenderer NoColor, s_esc = escNone, s_lastCR = False, s_ubuf = []\<rparr>"

theorem readLine_typed_witness:
  "\<exists>s'. readLine (lineOpts0\<lparr>lo_max := 20\<rparr>) (demo_session (of_runes [0x68, 0xE9, 0x20AC] @ [CHR 0x0D, CHR ''x''])) =
      (Done (of_runes [0x68, 0xE9, 0x20AC], []), s') \<and> map snd (s_in s') = ''x'' \<and>
    s_out s' = [[], ''h'', encode_rune 0xE9, encode_rune 0x20AC, CRLF]"
proof -
  have "encode_rune 0x68 = ''h''" using encode_rune_ascii [of "CHR ''h''"] by (simp add: is_ascii_def byte_val_def)
  then show ?thesis
    using readLine_typed [of "[0x68, 0xE9, 0x20AC]" "lineOpts0\<lparr>lo_max := 20\<rparr>"
        "demo_session (of_runes [0x68, 0xE9, 0x20AC] @ [CHR 0x0D, CHR ''x''])" "''x''"]
    by (auto simp: typeable_def valid_rune_def key_defs rune_error_def lineOpts0_def demo_session_def ready_def NewRenderer_inv comp_def)
qed

section \<open>Wrapping while typing\<close>

lemma trim_right_split: "\<exists>cut. s = trim_right_bytes cs s @ cut \<and> set cut \<subseteq> set cs"
proof -
  have "s = rev (dropWhile (\<lambda>c. c \<in> set cs) (rev s)) @ rev (takeWhile (\<lambda>c. c \<in> set cs) (rev s))"
    by (metis rev_append rev_rev_ident takeWhile_dropWhile_id)
  then show ?thesis unfolding trim_right_bytes_def
    by (intro exI [of _ "rev (takeWhile (\<lambda>c. c \<in> set cs) (rev s))"]) (auto dest: set_takeWhileD)
qed

lemma last_word:
  assumes "sp \<in> set buf"
  defines "word \<equiv> rev (takeWhile (\<lambda>c. c \<noteq> sp) (rev buf))"
  shows "buf = take (length buf - length word - 1) buf @ [sp] @ word" "sp \<notin> set word"
proof -
  from assms(1) obtain ys where d: "dropWhile (\<lambda>c. c \<noteq> sp) (rev buf) = sp # ys"
    by (metis (mono_tags, lifting) dropWhile_eq_Nil_conv hd_Cons_tl hd_dropWhile set_rev)
  have "rev buf = rev word @ sp # ys"
    using takeWhile_dropWhile_id [of "\<lambda>c. c \<noteq> sp" "rev buf"] by (simp add: word_def d)
  then have b: "buf = rev ys @ [sp] @ word" by (metis append.assoc rev_append rev_rev_ident rev.simps(2))
  then have "length buf - length word - 1 = length (rev ys)" by (metis add_diff_cancel_right' diff_Suc_1' length_append length_Cons list.size(3) add_Suc_right add.right_neutral append.assoc One_nat_def)
  with b show "buf = take (length buf - length word - 1) buf @ [sp] @ word" by (metis append_eq_conv_conj)
  show "sp \<notin> set word" by (auto simp: word_def dest: set_takeWhileD)
qed

lemma encode_sp: "encode_rune sp = '' ''"
  using encode_rune_ascii [of "CHR '' ''"] by (simp add: is_ascii_def byte_val_def sp_def)

text \<open>
  Word wrap loses nothing: when a line runs full, the finished line and the word
  carried to the next one are together exactly what was typed, but for blanks between them, and
  the carried word has no blank in it.
\<close>

theorem wrapOverflow_keeps:
  "\<exists>line carry blanks. fst (wrapOverflow buf r s) = Done (line, carry) \<and>
     of_runes (buf @ [r]) = line @ blanks @ of_runes carry \<and> set blanks \<subseteq> {CHR '' ''} \<and> sp \<notin> set carry"
proof (cases "r = sp \<or> sp \<notin> set buf")
  case True
  then show ?thesis using encode_sp by (auto simp: wrapOverflow_def)
next
  case False
  let ?word = "rev (takeWhile (\<lambda>c. c \<noteq> sp) (rev buf))"
  let ?head = "of_runes (take (length buf - length ?word - 1) buf)"
  have w: "buf = take (length buf - length ?word - 1) buf @ [sp] @ ?word" "sp \<notin> set ?word"
    using last_word [of buf] False by blast+
  obtain cut where cut: "?head = trim_right_bytes '' '' ?head @ cut" "set cut \<subseteq> {CHR '' ''}"
    using trim_right_split [of ?head "'' ''"] by auto
  have "of_runes (buf @ [r]) = ?head @ '' '' @ of_runes (?word @ [r])"
    using arg_cong [OF w(1), of of_runes] encode_sp by simp
  also have "\<dots> = trim_right_bytes '' '' ?head @ (cut @ '' '') @ of_runes (?word @ [r])"
    by (subst cut(1)) simp
  finally have all: "of_runes (buf @ [r]) = trim_right_bytes '' '' ?head @ (cut @ '' '') @ of_runes (?word @ [r])" .
  show ?thesis
  proof (intro exI conjI)
    show "fst (wrapOverflow buf r s) = Done (trim_right_bytes '' '' ?head, ?word @ [r])"
      using False by (simp add: wrapOverflow_def Let_def)
    show "set (cut @ '' '') \<subseteq> {CHR '' ''}" using cut(2) by simp
    show "sp \<notin> set (?word @ [r])" using w(2) False by simp
  qed (rule all)
qed

end
