(* ===== verification/Bbs_UI.thy ===== *)
theory Bbs_UI
  imports Bbs_Input Go_Time
begin

text \<open>
  The screen toolkit: \<open>internal/bbs/ui.go\<close> and the text helpers of \<open>screens.go\<close>. A function that
  may panic (\<open>strings.Repeat\<close> with a negative count) gives \<open>None\<close> then. The offset of the local
  time zone at an instant is an argument. The main result is that a framed row is exactly as
  wide as its frame, whatever a caller's text holds.
\<close>

section \<open>Palette and glyphs\<close>

definition colFrame :: string where "colFrame = ''|06''"
definition colBorder :: string where "colBorder = ''|08''"
definition colTitle :: string where "colTitle = ''|14''"
definition colLabel :: string where "colLabel = ''|07''"
definition colDim :: string where "colDim = ''|08''"
definition colAlert :: string where "colAlert = ''|12''"
definition colOK :: string where "colOK = ''|10''"
definition colInfo :: string where "colInfo = ''|03''"
definition colValue :: string where "colValue = ''|11''"
definition colHandle :: string where "colHandle = ''|14''"
definition colBright :: string where "colBright = ''|15''"
definition colSysop :: string where "colSysop = ''|13''"

definition dTL :: string where "dTL = of_runes [0x2554]"
definition dTR :: string where "dTR = of_runes [0x2557]"
definition dBL :: string where "dBL = of_runes [0x255A]"
definition dBR :: string where "dBR = of_runes [0x255D]"
definition dH :: string where "dH = of_runes [0x2550]"
definition dV :: string where "dV = of_runes [0x2551]"
definition sTL :: string where "sTL = of_runes [0x250C]"
definition sTR :: string where "sTR = of_runes [0x2510]"
definition sBL :: string where "sBL = of_runes [0x2514]"
definition sBR :: string where "sBR = of_runes [0x2518]"
definition sH :: string where "sH = of_runes [0x2500]"
definition sV :: string where "sV = of_runes [0x2502]"
definition sLT :: string where "sLT = of_runes [0x251C]"
definition sRT :: string where "sRT = of_runes [0x2524]"
definition dot :: string where "dot = of_runes [0xB7]"
definition prompt_mark :: string where "prompt_mark = of_runes [0xBB]"

definition separator :: string where "separator = CHR 0x00 # ''sep''"
definition menuLabelWidth :: nat where "menuLabelWidth = 16"
definition panelGap :: int where "panelGap = 1"
definition panelPad :: int where "panelPad = 4"
definition headerRows :: int where "headerRows = 3"

definition nl :: string where "nl = [CHR 0x0A]"

record menuItem =
  mi_key :: rune
  mi_label :: string
  mi_note :: string

section \<open>Text\<close>

definition Repeat :: "string \<Rightarrow> int \<Rightarrow> string option" where
  "Repeat t n = (if n < 0 then None else Some (concat (replicate (nat n) t)))"

definition blanks :: "int \<Rightarrow> string" where
  "blanks n = replicate (nat n) CHR '' ''"

text \<open>\<open>term.VisibleLen\<close> never panics, see \<open>vlen_total\<close> below.\<close>

definition vlen :: "string \<Rightarrow> int" where
  "vlen t = (case VisibleLen t of None \<Rightarrow> 0 | Some n \<Rightarrow> int n)"

text \<open>\<open>term.TruncateVisible\<close> with a negative width never finds the width reached.\<close>

definition cut_visible :: "string \<Rightarrow> int \<Rightarrow> string" where
  "cut_visible t n = (if n < 0 then t else TruncateVisible t (nat n))"

definition inner :: "int \<Rightarrow> int" where
  "inner w = w - panelPad"

definition fit :: "string \<Rightarrow> int \<Rightarrow> string" where
  "fit t w = (let t = cut_visible t w in t @ blanks (max (w - vlen t) 0))"

text \<open>Go's division by two rounds towards zero.\<close>

definition half :: "int \<Rightarrow> int" where
  "half n = (if n < 0 then - ((- n) div 2) else n div 2)"

definition center :: "string \<Rightarrow> int \<Rightarrow> string" where
  "center t w = blanks (max (half (w - vlen t)) 0) @ t"

definition plural :: "int \<Rightarrow> string \<Rightarrow> string" where
  "plural n word = itoa n @ '' '' @ word @ (if n = 1 then [] else ''s'')"

definition pluralVerb :: "int \<Rightarrow> string \<Rightarrow> string" where
  "pluralVerb n word = (if n = 1 then ''is '' else ''are '') @ plural n word"

text \<open>\<open>%3d\<close>.\<close>

definition pad_left :: "nat \<Rightarrow> string \<Rightarrow> string" where
  "pad_left n t = replicate (n - length t) CHR '' '' @ t"

definition keysOf :: "string list \<Rightarrow> string" where
  "keysOf ws = concat (map (\<lambda>w. of_runes (map ascii_upper (runes (take 1 w)))) ws)"

section \<open>Times\<close>

text \<open>\<open>t.Local().Format(...)\<close>; \<open>tz\<close> is the local offset in seconds at an instant.\<close>

definition local_wall :: "(nanos \<Rightarrow> int) \<Rightarrow> nanos \<Rightarrow> wall_clock" where
  "local_wall tz t = wall (t, tz t)"

definition clock_text :: "(nanos \<Rightarrow> int) \<Rightarrow> nanos \<Rightarrow> string" where
  "clock_text tz t = (let w = local_wall tz t in pad2 (wHour w) @ '':'' @ pad2 (wMinute w))"

definition shortDate :: "(nanos \<Rightarrow> int) \<Rightarrow> nanos \<Rightarrow> nanos \<Rightarrow> string" where
  "shortDate tz now t =
     (let w = local_wall tz t
      in if wYear w = wYear (local_wall tz now) then month_name (wMonth w) @ '' '' @ pad2 (wDay w)
         else itoa (wYear w) @ ''-'' @ pad2 (wMonth w))"

definition weekday_names :: "string list" where
  "weekday_names = [''Thu'', ''Fri'', ''Sat'', ''Sun'', ''Mon'', ''Tue'', ''Wed'']"

definition weekday :: "(nanos \<Rightarrow> int) \<Rightarrow> nanos \<Rightarrow> string" where
  "weekday tz t = weekday_names ! nat ((t div nanos_per_second + tz t) div 86400 mod 7)"

definition longDate :: "(nanos \<Rightarrow> int) \<Rightarrow> nanos \<Rightarrow> string" where
  "longDate tz t =
     (if t = 0 then ''never''
      else let w = local_wall tz t
           in weekday tz t @ '' '' @ month_name (wMonth w) @ '' '' @ itoa (wDay w) @ '' '' @ itoa (wYear w) @ '' '' @ clock_text tz t)"

definition minute :: nanos where "minute = 60 * nanos_per_second"
definition hour :: nanos where "hour = 60 * minute"

definition ago :: "(nanos \<Rightarrow> int) \<Rightarrow> nanos \<Rightarrow> nanos \<Rightarrow> string" where
  "ago tz now t =
     (let d = now - t
      in if d < minute then ''just now''
         else if d < hour then itoa (d div minute) @ ''m ago''
         else if d < 24 * hour then itoa (d div hour) @ ''h ago''
         else shortDate tz now t)"

text \<open>\<open>Round(time.Minute)\<close> rounds halves away from zero; a session's length is not negative.\<close>

definition shortDuration :: "nanos \<Rightarrow> string" where
  "shortDuration d =
     (let m = (d + minute div 2) div minute
      in if m < 60 then itoa m @ ''m'' else itoa (m div 60) @ ''h'' @ pad2 (m mod 60) @ ''m'')"

section \<open>Panels\<close>

definition boxTop :: "string \<Rightarrow> int \<Rightarrow> string option" where
  "boxTop title w =
     (if title = [] then map_option (\<lambda>h. colBorder @ sTL @ h @ sTR) (Repeat sH (w - 2))
      else let head = colBorder @ sTL @ sH @ '' '' @ colTitle @ safe title @ '' ''
           in map_option (\<lambda>h. head @ colBorder @ h @ sTR) (Repeat sH (max (w - 1 - vlen head) 0)))"

definition boxRow :: "string \<Rightarrow> int \<Rightarrow> string option" where
  "boxRow line w =
     (if line = separator then map_option (\<lambda>h. colBorder @ sLT @ h @ sRT) (Repeat sH (w - 2))
      else Some (colBorder @ sV @ '' '' @ colLabel @ fit line (inner w) @ ''|16'' @ colBorder @ '' '' @ sV))"

definition boxBottom :: "int \<Rightarrow> string option" where
  "boxBottom w = map_option (\<lambda>h. colBorder @ sBL @ h @ sBR @ colLabel) (Repeat sH (w - 2))"

fun all_some :: "'a option list \<Rightarrow> 'a list option" where
  "all_some [] = Some []"
| "all_some (x # xs) = (case x of None \<Rightarrow> None | Some y \<Rightarrow> map_option (Cons y) (all_some xs))"

definition boxLines :: "string \<Rightarrow> int \<Rightarrow> string list \<Rightarrow> string list option" where
  "boxLines title w body = all_some (boxTop title w # map (\<lambda>ln. boxRow ln w) body @ [boxBottom w])"

definition rule_line :: "'a session_scheme \<Rightarrow> string option" where
  "rule_line s = map_option (\<lambda>h. colBorder @ h @ colLabel) (Repeat sH (width s))"

text \<open>A session operation that computes and may panic.\<close>

definition may_panic :: "('s \<Rightarrow> 'a option) \<Rightarrow> ('a, 's) io" where
  "may_panic f s = (case f s of None \<Rightarrow> (Panicked, s) | Some x \<Rightarrow> (Done x, s))"

fun print_all :: "string list \<Rightarrow> (unit, 'a session_scheme) io" where
  "print_all [] = return_io ()"
| "print_all (t # ts) = then_io (print t) (print_all ts)"

definition box :: "string \<Rightarrow> string list \<Rightarrow> (unit, 'a session_scheme) io" where
  "box title body = bind_io (may_panic (\<lambda>s. boxLines title (width s) body)) (\<lambda>lns. print_all (map (\<lambda>ln. ln @ nl) lns))"

definition header :: "string \<Rightarrow> (nanos \<Rightarrow> int) \<Rightarrow> string \<Rightarrow> string \<Rightarrow> (unit, 'a session_scheme) io" where
  "header name tz handle title s =
     (let w = width s;
          left = '' '' @ colFrame @ of_runes [0x25A0] @ '' '' @ colTitle @ safe name @ ''  '' @ colBorder @ sV @ '' '' @ colBright @ safe title;
          right = (if handle \<noteq> [] then colInfo @ safe handle @ colBorder @ '' '' @ dot @ '' '' else []) @ colLabel @ clock_text tz (s_now s) @ '' '';
          gap = w - 2 - vlen left - vlen right;
          left' = (if gap < 1 then cut_visible left (max (w - 3 - vlen right) 0) else left);
          gap' = w - 2 - vlen left' - vlen right
      in then_io (print ''|CL|RE'')
          (bind_io (may_panic (\<lambda>_. Repeat dH (w - 2))) (\<lambda>h.
             print_all [colFrame @ dTL @ h @ dTR @ nl,
               colFrame @ dV @ left' @ blanks (max gap' 0) @ right @ colFrame @ dV @ nl,
               colFrame @ dBL @ h @ dBR @ colLabel @ nl])) s)"

text \<open>\<open>table\<close> pages its rows; whether the caller stopped early does not matter.\<close>

definition table :: "(rune \<Rightarrow> rune) \<Rightarrow> string \<Rightarrow> string \<Rightarrow> string list \<Rightarrow> string \<Rightarrow> (unit, 'a session_scheme) io" where
  "table up title heading rows none s =
     (let w = width s;
          row = (\<lambda>ln. boxRow ln w)
      in bind_io (may_panic (\<lambda>_. boxTop title w)) (\<lambda>top. then_io (print (top @ nl))
           (if rows = []
            then bind_io (may_panic (\<lambda>_. all_some [row [], row (''  '' @ colDim @ none), row [], boxBottom w])) (\<lambda>ls.
                   print_all [ls ! 0 @ nl @ ls ! 1 @ nl @ ls ! 2 @ nl, ls ! 3 @ nl])
            else then_io (if heading \<noteq> []
                          then bind_io (may_panic (\<lambda>_. all_some [row (colDim @ heading), row separator])) (\<lambda>ls.
                                 print (ls ! 0 @ nl @ ls ! 1 @ nl))
                          else return_io ())
                   (bind_io (may_panic (\<lambda>_. all_some (map row rows @ [boxBottom w]))) (\<lambda>framed.
                      then_io (page up framed (headerRows + 3)) (return_io ()))))) s)"

section \<open>Keys and menus\<close>

definition keycap :: "rune \<Rightarrow> 'a session_scheme \<Rightarrow> string" where
  "keycap k s = (if s_color s then ''|22|15 '' @ of_runes [k] @ '' |16'' else ''['' @ of_runes [k] @ '']'')"

definition menuLine :: "menuItem \<Rightarrow> 'a session_scheme \<Rightarrow> string" where
  "menuLine m s = (if mi_key m = 0 then []
     else keycap (mi_key m) s @ '' '' @ colLabel @ Pad (mi_label m) menuLabelWidth @ '' '' @ mi_note m)"

definition menu :: "string \<Rightarrow> menuItem list \<Rightarrow> (unit, 'a session_scheme) io" where
  "menu title items s = box title (map (\<lambda>m. menuLine m s) items) s"

definition menu_col :: "nat \<Rightarrow> menuItem list \<Rightarrow> 'a session_scheme \<Rightarrow> string list" where
  "menu_col rows items s = map (\<lambda>i. if i < length items then menuLine (items ! i) s else []) [0..<rows]"

definition menuColumns :: "string \<Rightarrow> menuItem list \<Rightarrow> string \<Rightarrow> menuItem list \<Rightarrow> (unit, 'a session_scheme) io" where
  "menuColumns leftTitle left rightTitle right s =
     (let w = width s;
          lw = half (w - panelGap);
          rw = w - panelGap - lw;
          rows = max (length left) (length right)
      in bind_io (may_panic (\<lambda>s. boxLines leftTitle lw (menu_col rows left s))) (\<lambda>a.
           bind_io (may_panic (\<lambda>s. boxLines rightTitle rw (menu_col rows right s))) (\<lambda>b.
             print_all (map (\<lambda>(x, y). x @ blanks panelGap @ y @ nl) (zip a b)))) s)"

text \<open>The loop of \<open>actions\<close>; the words are ASCII and not empty.\<close>

fun actions_loop :: "int \<Rightarrow> int \<Rightarrow> bool \<Rightarrow> string list \<Rightarrow> string" where
  "actions_loop limit col first [] = []"
| "actions_loop limit col first (part # parts) =
     (let w = vlen part
      in if first then part @ actions_loop limit (col + w) False parts
         else if limit < col + 2 + w then nl @ '' '' @ part @ actions_loop limit (1 + w) False parts
         else ''  '' @ part @ actions_loop limit (col + 2 + w) False parts)"

definition actions :: "string list \<Rightarrow> 'a session_scheme \<Rightarrow> string" where
  "actions ws s = '' '' @ actions_loop (width s - 4) 1 True
     (map (\<lambda>w. keycap (ascii_upper (byte_val (hd w))) s @ '' '' @ colLabel @ w) ws)"

definition keyBar :: "menuItem list \<Rightarrow> 'a session_scheme \<Rightarrow> string" where
  "keyBar items s = '' '' @ join ''   ''
     (map (\<lambda>m. keycap (mi_key m) s @ '' '' @ colLabel @ mi_label m @ (if mi_note m \<noteq> [] then '' '' @ mi_note m else [])) items)"

definition pauseText :: string where
  "pauseText = '' '' @ colBorder @ sH @ sH @ '' '' @ colLabel @ ''press any key'' @ colBorder @ '' '' @ sH @ sH"

text \<open>\<open>pause\<close> clears its line whether or not a key came.\<close>

definition pause :: "(unit, 'a session_scheme) io" where
  "pause = then_io (print pauseText) (\<lambda>s. let (k, s') = readRune s
     in (case k of Done _ \<Rightarrow> Done () | Fail e \<Rightarrow> Fail e | Panicked \<Rightarrow> Panicked, clearLine s'))"

definition note_line :: "string \<Rightarrow> string \<Rightarrow> (unit, 'a session_scheme) io" where
  "note_line color t = print (nl @ '' '' @ color @ t @ nl)"

section \<open>Letters\<close>

record letter_field =
  lf_label :: string
  lf_value :: string
  lf_color :: string

record letter =
  lt_title :: string
  lt_fields :: "letter_field list"
  lt_body :: string

definition bodyLines :: "string \<Rightarrow> 'a session_scheme \<Rightarrow> string list" where
  "bodyLines body s =
     map (\<lambda>ln. (if prefix ''>'' (trim_space ln) then colInfo else colLabel) @ safe ln) (Wrap body (nat (inner (width s))))"

definition showLetter :: "(rune \<Rightarrow> rune) \<Rightarrow> string \<Rightarrow> (nanos \<Rightarrow> int) \<Rightarrow> string \<Rightarrow> letter \<Rightarrow> (unit, 'a session_scheme) io" where
  "showLetter up name tz handle l s =
     (let w = width s;
          row = (\<lambda>ln. boxRow ln w);
          fields = map (\<lambda>f. colInfo @ Pad (lf_label f) 4 @ '' '' @ colBorder @ '': '' @ lf_color f @ safe (lf_value f)) (lt_fields l)
      in then_io (header name tz handle (lt_title l))
          (bind_io (may_panic (\<lambda>_. all_some (boxTop [] w # map row fields @ [row separator]))) (\<lambda>top.
             then_io (print_all (map (\<lambda>ln. ln @ nl) top))
               (bind_io (may_panic (\<lambda>s. all_some (map row (bodyLines (lt_body l) s) @ [boxBottom w]))) (\<lambda>framed.
                  then_io (page up framed (headerRows + int (length (lt_fields l)) + 2)) (return_io ()))))) s)"

section \<open>Columns of pipe-coded text\<close>

text \<open>
  Well-formed pipe-coded text is a sequence of colour codes, doubled pipes and characters other
  than a pipe. \<open>coded t n\<close>: such a text, \<open>n\<close> columns wide.
\<close>

datatype token = Code char char | Pipe | Glyph rune

fun untok :: "token \<Rightarrow> string" where
  "untok (Code a b) = [pipe, a, b]"
| "untok Pipe = [pipe, pipe]"
| "untok (Glyph r) = encode_rune r"

fun tok_ok :: "token \<Rightarrow> bool" where
  "tok_ok (Code a b) \<longleftrightarrow> isCode a b \<and> [a, b] \<noteq> ''CL''"
| "tok_ok Pipe \<longleftrightarrow> True"
| "tok_ok (Glyph r) \<longleftrightarrow> valid_rune r \<and> r \<noteq> 0x7C"

fun tok_runes :: "token \<Rightarrow> rune list" where
  "tok_runes (Code a b) = []"
| "tok_runes Pipe = [0x7C]"
| "tok_runes (Glyph r) = [r]"

definition untoks :: "token list \<Rightarrow> string" where
  "untoks ts = concat (map untok ts)"

definition coded :: "string \<Rightarrow> nat \<Rightarrow> bool" where
  "coded t n \<longleftrightarrow> (\<exists>ts. list_all tok_ok ts \<and> t = untoks ts \<and> n = length (concat (map tok_runes ts)))"

lemma encode_pipe: "encode_rune 0x7C = [pipe]"
  using encode_rune_ascii [of pipe] by (simp add: is_ascii_def byte_val_def)

lemma encode_no_pipe:
  assumes "valid_rune r" "r \<noteq> 0x7C"
  shows "list_all (\<lambda>c. c \<noteq> pipe) (encode_rune r)"
proof (cases "r < 0x80")
  case True
  have "byte_of r \<noteq> pipe" using byte_val_byte_of [of r] True assms(2) by (auto simp: byte_val_def)
  with True assms show ?thesis by (simp add: encode_rune_def encode_valid_def)
next
  case False
  have "snd (decode_rune (encode_rune r)) = length (encode_rune r)" "1 < length (encode_rune r)"
    using decode_encode_valid [OF assms(1), of "[]"] assms False by (simp_all add: encode_rune_def encode_valid_def)
  from decode_whole(2) [OF this] show ?thesis by (auto simp: list_all_iff byte_val_def)
qed

lemma Render_plain:
  "list_all (\<lambda>c. c \<noteq> pipe) t \<Longrightarrow> Render r (t @ s) = map_option (\<lambda>(out, q). (t @ out, q)) (Render r s)"
  by (induction t) (auto simp: option.map_comp comp_def option.map_id split: prod.splits intro!: option.map_cong)

lemma byte_val_pipe: "byte_val pipe = 124"
  by (simp add: byte_val_def)

lemma isCode_no_pipe: "isCode a b \<Longrightarrow> a \<noteq> pipe"
  by (auto simp: isCode_def is_digit_def byte_val_pipe)

lemma code_plain:
  assumes "\<not> r_color r" "isCode a b" "[a, b] \<noteq> ''CL''"
  shows "\<exists>r'. code r a b = (Seq [], r') \<and> \<not> r_color r'"
proof (cases "[a, b] = ''RE''")
  case True
  then show ?thesis using assms(1) by (simp add: code_def Let_def)
next
  case False
  let ?n = "(byte_val a - 48) * 10 + (byte_val b - 48)"
  have d: "is_digit a" "is_digit b" "?n \<le> 23" using assms(2,3) False unfolding isCode_def by blast+
  have "code r a b = (Seq [], if ?n \<le> 15 then r\<lparr>r_fg := ?n\<rparr> else r\<lparr>r_bg := ?n - 16\<rparr>)"
    unfolding code_def Let_def if_not_P [OF assms(3)] if_not_P [OF False] using d assms(1) by simp
  then show ?thesis using assms(1) by simp
qed

lemma Render_tok:
  assumes "tok_ok t" "\<not> r_color r"
  shows "\<exists>r'. \<not> r_color r' \<and> (\<forall>s. Render r (untok t @ s) = map_option (\<lambda>(out, q). (of_runes (tok_runes t) @ out, q)) (Render r' s))"
proof (cases t)
  case (Code a b)
  have ne: "a \<noteq> pipe" "[a, b] \<noteq> ''CL''" using assms(1) isCode_no_pipe by (auto simp: Code)
  obtain r' where "code r a b = (Seq [], r')" "\<not> r_color r'"
    using code_plain [OF assms(2) _ ne(2)] assms(1) by (auto simp: Code)
  then show ?thesis using ne by (intro exI [of _ r']) (simp add: Code Render_pipe option.map_ident)
next
  case Pipe
  then show ?thesis using assms(2) encode_pipe by (intro exI [of _ r]) simp
next
  case (Glyph g)
  then show ?thesis using assms encode_no_pipe by (intro exI [of _ r]) (simp add: Render_plain)
qed

lemma Render_toks:
  "list_all tok_ok ts \<Longrightarrow> \<not> r_color r \<Longrightarrow>
    \<exists>r'. \<not> r_color r' \<and> Render r (untoks ts) = Some (of_runes (concat (map tok_runes ts)), r')"
proof (induction ts arbitrary: r)
  case (Cons t ts)
  have "tok_ok t" using Cons.prems by simp
  from Render_tok [OF this Cons.prems(2)] obtain r' where r': "\<not> r_color r'"
    "\<And>s. Render r (untok t @ s) = map_option (\<lambda>(out, q). (of_runes (tok_runes t) @ out, q)) (Render r' s)" by blast
  with Cons.IH [of r'] Cons.prems show ?case by (auto simp: untoks_def)
qed (simp add: untoks_def)

lemma coded_len: "coded t n \<Longrightarrow> VisibleLen t = Some n"
proof -
  assume "coded t n"
  then obtain ts where ts: "list_all tok_ok ts" "t = untoks ts" "n = length (concat (map tok_runes ts))"
    by (auto simp: coded_def)
  have "list_all valid_rune (tok_runes k)" if "tok_ok k" for k using that by (cases k) (auto simp: valid_rune_def)
  then have "list_all valid_rune (concat (map tok_runes ts))" using ts(1) by (auto simp: list_all_iff)
  with Render_toks [OF ts(1), of "NewRenderer NoColor"] ts show ?thesis
    by (auto simp: VisibleLen_def runes_of_runes NewRenderer_def)
qed

lemma coded_vlen: "coded t n \<Longrightarrow> vlen t = int n"
  by (simp add: vlen_def coded_len)

text \<open>Truncating keeps whole tokens.\<close>

fun cut_toks :: "nat \<Rightarrow> token list \<Rightarrow> token list" where
  "cut_toks n [] = []"
| "cut_toks n (t # ts) = (if tok_runes t = [] then t # cut_toks n ts else if n = 0 then [] else t # cut_toks (n - 1) ts)"

lemma cut_toks_ok: "list_all tok_ok ts \<Longrightarrow> list_all tok_ok (cut_toks n ts)"
  by (induction n ts rule: cut_toks.induct) auto

lemma tok_runes_len: "length (tok_runes t) \<le> 1"
  by (cases t) auto

lemma cut_toks_len: "length (concat (map tok_runes (cut_toks n ts))) = min n (length (concat (map tok_runes ts)))"
proof (induction n ts rule: cut_toks.induct)
  case (2 n t ts)
  then show ?case using tok_runes_len [of t] by (cases "tok_runes t") auto
qed simp

lemma TruncateVisible_toks:
  "list_all tok_ok ts \<Longrightarrow> v \<le> n \<Longrightarrow> TruncateVisible_loop n v (untoks ts) = untoks (cut_toks (n - v) ts)"
proof (induction ts arbitrary: v)
  case Nil
  then show ?case by (simp add: untoks_def TruncateVisible_loop.simps)
next
  case (Cons t ts)
  have ok: "tok_ok t" "list_all tok_ok ts" using Cons.prems(1) by simp_all
  have u: "untoks (t # ts) = untok t @ untoks ts" by (simp add: untoks_def)
  have IH: "w \<le> n \<Longrightarrow> TruncateVisible_loop n w (untoks ts) = untoks (cut_toks (n - w) ts)" for w
    using Cons.IH [OF ok(2)] .
  show ?case
  proof (cases t)
    case (Code a b)
    have "a \<noteq> pipe" "isCode a b" using ok(1) isCode_no_pipe by (auto simp: Code)
    then show ?thesis unfolding u using IH [OF Cons.prems(2)]
      by (subst TruncateVisible_loop.simps) (simp add: Code untoks_def)
  next
    case Pipe
    show ?thesis unfolding u using IH [of "Suc v"] Cons.prems(2)
      by (subst TruncateVisible_loop.simps) (auto simp: Pipe untoks_def)
  next
    case (Glyph r)
    have d: "decode_rune (encode_rune r @ s) = (r, length (encode_rune r))" for s
      using ok(1) decode_encode_valid [of r s] by (simp add: Glyph encode_rune_def)
    obtain c e where e: "encode_rune r = c # e" "c \<noteq> pipe"
      using encode_no_pipe [of r] ok(1) by (cases "encode_rune r") (auto simp: Glyph)
    have "TruncateVisible_loop n v (encode_rune r @ untoks ts) =
        (if v = n then [] else encode_rune r @ TruncateVisible_loop n (Suc v) (untoks ts))"
      using d [of "untoks ts"] e by (subst TruncateVisible_loop.simps) simp
    then show ?thesis unfolding u using IH [of "Suc v"] Cons.prems(2) by (auto simp: Glyph untoks_def)
  qed
qed

lemma coded_truncate: "coded t n \<Longrightarrow> coded (TruncateVisible t k) (min k n)"
  unfolding coded_def TruncateVisible_def
  by (metis TruncateVisible_toks cut_toks_len cut_toks_ok diff_zero le0)

lemma coded_append: "coded s m \<Longrightarrow> coded t n \<Longrightarrow> coded (s @ t) (m + n)"
proof -
  assume "coded s m" "coded t n"
  then obtain ss ts where "list_all tok_ok ss" "s = untoks ss" "m = length (concat (map tok_runes ss))"
    "list_all tok_ok ts" "t = untoks ts" "n = length (concat (map tok_runes ts))" by (auto simp: coded_def)
  then show ?thesis unfolding coded_def by (intro exI [of _ "ss @ ts"]) (auto simp: untoks_def)
qed

lemma coded_Nil [simp]: "coded [] 0"
  unfolding coded_def by (intro exI [of _ "[]"]) (simp add: untoks_def)

lemma coded_code: "isCode a b \<Longrightarrow> [a, b] \<noteq> ''CL'' \<Longrightarrow> coded [pipe, a, b] 0"
  unfolding coded_def by (intro exI [of _ "[Code a b]"]) (simp add: untoks_def)

lemma coded_glyph: "valid_rune r \<Longrightarrow> r \<noteq> 0x7C \<Longrightarrow> coded (encode_rune r) 1"
  unfolding coded_def by (intro exI [of _ "[Glyph r]"]) (simp add: untoks_def)

lemma coded_sp: "coded '' '' 1"
  using coded_glyph [of sp] encode_sp by (simp add: sp_def valid_rune_def)

lemma coded_blanks: "coded (replicate n CHR '' '') n"
proof (induction n)
  case (Suc n)
  then show ?case using coded_append [OF coded_sp Suc] by simp
qed simp

lemma Escape_append: "Escape (s @ t) = Escape s @ Escape t"
  by (induction s) simp_all

lemma Escape_no_pipe: "list_all (\<lambda>c. c \<noteq> pipe) s \<Longrightarrow> Escape s = s"
  by (induction s) simp_all

lemma coded_pipes: "coded [pipe, pipe] 1"
  unfolding coded_def by (intro exI [of _ "[Pipe]"]) (simp add: untoks_def)

lemma coded_Escape: "list_all valid_rune rs \<Longrightarrow> coded (Escape (of_runes rs)) (length rs)"
proof (induction rs)
  case (Cons r rs)
  have "coded (Escape (encode_rune r)) 1"
    using Cons.prems coded_pipes encode_pipe encode_no_pipe [of r] coded_glyph [of r]
    by (cases "r = 0x7C") (simp_all add: Escape_no_pipe)
  from coded_append [OF this Cons.IH] Cons.prems show ?case by (simp add: Escape_append)
qed simp

lemma coded_safe: "\<exists>n. coded (safe v) n"
  using coded_Escape [of "filter printable (runes v)"] list_all_valid_runes [of v]
  by (auto simp: safe_def StripControl_def list_all_iff)

section \<open>Frames hold\<close>

lemma vlen_total: "VisibleLen t = Some (nat (vlen t))"
  using Render_total [OF NewRenderer_inv, of NoColor t] by (auto simp: vlen_def VisibleLen_def)

lemma coded_col:
  "coded colFrame 0" "coded colBorder 0" "coded colTitle 0" "coded colLabel 0" "coded colAlert 0" "coded colInfo 0" "coded ''|16'' 0"
  by (simp_all add: colFrame_def colBorder_def colTitle_def colLabel_def colAlert_def colInfo_def coded_code isCode_def is_digit_def byte_val_def)

lemma coded_box: "coded sV 1" "coded sH 1" "coded sTL 1" "coded sTR 1" "coded sBL 1" "coded sBR 1" "coded sLT 1" "coded sRT 1"
  by (simp_all add: sV_def sH_def sTL_def sTR_def sBL_def sBR_def sLT_def sRT_def coded_glyph [unfolded One_nat_def] valid_rune_def)

lemma coded_repeat: "coded t 1 \<Longrightarrow> coded (concat (replicate n t)) n"
proof (induction n)
  case (Suc n)
  then show ?case using coded_append [OF Suc.prems Suc.IH [OF Suc.prems]] by simp
qed simp

lemma coded_fit:
  assumes "coded t n" "0 \<le> w"
  shows "coded (fit t w) (nat w)"
proof -
  have c: "coded (TruncateVisible t (nat w)) (min (nat w) n)" by (rule coded_truncate [OF assms(1)])
  have "coded (blanks (max (w - int (min (nat w) n)) 0)) (nat (max (w - int (min (nat w) n)) 0))"
    unfolding blanks_def by (rule coded_blanks)
  moreover have "min (nat w) n + nat (max (w - int (min (nat w) n)) 0) = nat w" using assms(2) by linarith
  ultimately have "coded (TruncateVisible t (nat w) @ blanks (max (w - int (min (nat w) n)) 0)) (nat w)"
    using coded_append [OF c] by metis
  then show ?thesis using assms(2) coded_vlen [OF c] by (simp add: fit_def cut_visible_def Let_def)
qed

lemma coded_row:
  assumes "coded line n" "4 \<le> w"
  shows "\<exists>row. boxRow line w = Some row \<and> coded row (nat w)"
proof (cases "line = separator")
  case True
  have "coded (colBorder @ sLT @ concat (replicate (nat (w - 2)) sH) @ sRT) (0 + (1 + (nat (w - 2) + 1)))"
    by (intro coded_append coded_col coded_box coded_repeat)
  moreover have "0 + (1 + (nat (w - 2) + 1)) = nat w" using assms(2) by linarith
  moreover have "boxRow line w = Some (colBorder @ sLT @ concat (replicate (nat (w - 2)) sH) @ sRT)"
    using True assms(2) by (simp add: boxRow_def Repeat_def)
  ultimately show ?thesis by metis
next
  case False
  have "coded (fit line (inner w)) (nat (w - 4))"
    using coded_fit [OF assms(1), of "inner w"] assms(2) by (simp add: inner_def panelPad_def)
  then have "coded (colBorder @ sV @ '' '' @ colLabel @ fit line (inner w) @ ''|16'' @ colBorder @ '' '' @ sV)
      (0 + (1 + (1 + (0 + (nat (w - 4) + (0 + (0 + (1 + 1))))))))"
    by (intro coded_append coded_col coded_box coded_sp)
  moreover have "0 + (1 + (1 + (0 + (nat (w - 4) + (0 + (0 + (1 + 1))))))) = nat w" using assms(2) by linarith
  ultimately show ?thesis using False by (simp add: boxRow_def)
qed

text \<open>
  No text breaks a frame: a row of a panel is drawn without a panic and is exactly as
  wide as the panel for every line of well-formed pipe-coded text, however long; and any text a
  caller supplies, once through \<open>safe\<close>, is such text in every colour of the palette.
\<close>

theorem boxRow_width:
  assumes "coded line n" "4 \<le> w"
  shows "(\<exists>row. boxRow line w = Some row \<and> VisibleLen row = Some (nat w)) \<and> (\<exists>m. coded (colLabel @ safe v) m)"
  using coded_row [OF assms] coded_len coded_append [OF coded_col(4)] coded_safe [of v] by blast

theorem boxRow_width_witness:
  "\<exists>row. boxRow (colLabel @ safe ''|CL||16 pipes'') 20 = Some row \<and> VisibleLen row = Some 20"
proof -
  obtain n where "coded (safe ''|CL||16 pipes'') n" using coded_safe by blast
  from coded_append [OF coded_col(4) this] have c: "coded (colLabel @ safe ''|CL||16 pipes'') (0 + n)" .
  from boxRow_width [OF c, of 20] show ?thesis by simp
qed

text \<open>
  Claim C14. Cutting a text works on whole tokens. The byte loop of \<open>TruncateVisible\<close> does to a well-formed pipe-coded text
  what the reference does to its tokens: it keeps every colour code up to the cut, never splits a code, a doubled pipe
  or a character, and what is left is as wide as the limit allows and no wider.
\<close>

theorem TruncateVisible_tokens:
  assumes "list_all tok_ok ts"
  shows "TruncateVisible (untoks ts) n = untoks (cut_toks n ts) \<and>
    VisibleLen (TruncateVisible (untoks ts) n) = Some (min n (length (concat (map tok_runes ts))))"
proof -
  have "coded (untoks ts) (length (concat (map tok_runes ts)))" using assms by (auto simp: coded_def)
  moreover have "TruncateVisible (untoks ts) n = untoks (cut_toks n ts)"
    using TruncateVisible_toks [OF assms, of 0 n] by (simp add: TruncateVisible_def)
  ultimately show ?thesis using coded_len [OF coded_truncate] by metis
qed

theorem TruncateVisible_tokens_witness:
  "TruncateVisible (untoks [Code CHR ''1'' CHR ''5'', Pipe, Glyph 0xE9, Code CHR ''0'' CHR ''7'']) 1 =
    untoks [Code CHR ''1'' CHR ''5'', Pipe]"
  using TruncateVisible_tokens [of "[Code CHR ''1'' CHR ''5'', Pipe, Glyph 0xE9, Code CHR ''0'' CHR ''7'']" 1]
  by (simp add: isCode_def valid_rune_def is_digit_def byte_val_def)

end
