(* ===== verification/Bbs_Nodes.thy ===== *)
theory Bbs_Nodes
  imports Store_DB "HOL-Library.Multiset"
begin

text \<open>
  \<open>internal/bbs/node.go\<close>: the table of callers. What a method does under the table's lock is one step on the table; the
  map of nodes is a list whose elements carry their key. A node's terminal is what has been written to it and whether
  it was closed; the notify channel, of capacity one, is a flag. \<open>kick\<close>, \<open>kickUser\<close> and \<open>closeAll\<close> choose their nodes
  under the lock and hang them up afterwards without it, in parallel: in the steps below the nodes still to be hung up are part
  of the state, and everything else may happen before their turn comes.
\<close>

section \<open>Nodes (node.go)\<close>

definition maxPendingNotices :: nat where "maxPendingNotices = 20"

datatype node_error = errNodesBusy | errShuttingDown

record node =
  nd_id :: int
  nd_out :: "string list"
  nd_closed :: bool
  nd_since :: nanos
  nd_signal :: bool
  nd_userID :: int
  nd_handle :: string
  nd_location :: string
  nd_activity :: string
  nd_secure :: bool
  nd_notices :: "string list"

record NodeInfo =
  ni_ID :: int
  ni_UserID :: int
  ni_Handle :: string
  ni_Location :: string
  ni_Activity :: string
  ni_Secure :: bool
  ni_Since :: nanos

definition setUser :: "user \<Rightarrow> node \<Rightarrow> node" where
  "setUser u n = n\<lparr>nd_userID := u_id u, nd_handle := u_handle u, nd_location := u_location u\<rparr>"

definition setActivity :: "string \<Rightarrow> node \<Rightarrow> node" where
  "setActivity a n = n\<lparr>nd_activity := a\<rparr>"

definition addNotice :: "string \<Rightarrow> node \<Rightarrow> node" where
  "addNotice t n =
     (if length (nd_notices n) < maxPendingNotices then n\<lparr>nd_notices := nd_notices n @ [t]\<rparr> else n)\<lparr>nd_signal := True\<rparr>"

definition takeNotices :: "node \<Rightarrow> string list \<times> node" where
  "takeNotices n = (nd_notices n, n\<lparr>nd_notices := []\<rparr>)"

definition info :: "node \<Rightarrow> NodeInfo" where
  "info n = \<lparr>ni_ID = nd_id n, ni_UserID = nd_userID n, ni_Handle = nd_handle n, ni_Location = nd_location n,
     ni_Activity = nd_activity n, ni_Secure = nd_secure n, ni_Since = nd_since n\<rparr>"

definition hangUpNode :: "string \<Rightarrow> node \<Rightarrow> node" where
  "hangUpNode msg n = n\<lparr>nd_out := (if nd_closed n then nd_out n else nd_out n @ [[CHR 0x0D, CHR 0x0A, CHR 0x0D, CHR 0x0A] @ msg @ [CHR 0x0D, CHR 0x0A]]),
     nd_closed := True\<rparr>"

section \<open>The table (node.go)\<close>

record nodeTable =
  nt_max :: int
  nt_nodes :: "node list"
  nt_closing :: bool

definition newNodeTable :: "int \<Rightarrow> nodeTable" where
  "newNodeTable m = \<lparr>nt_max = m, nt_nodes = [], nt_closing = False\<rparr>"

definition lookup_node :: "int \<Rightarrow> nodeTable \<Rightarrow> node option" where
  "lookup_node i t = find (\<lambda>n. nd_id n = i) (nt_nodes t)"

text \<open>The loop over the numbers: the lowest one without a node.\<close>

definition lowest_free :: "nodeTable \<Rightarrow> int option" where
  "lowest_free t = find (\<lambda>i. lookup_node i t = None) [1 .. nt_max t]"

definition new_node :: "nanos \<Rightarrow> bool \<Rightarrow> int \<Rightarrow> node" where
  "new_node now secure i = \<lparr>nd_id = i, nd_out = [], nd_closed = False, nd_since = now, nd_signal = False, nd_userID = 0,
     nd_handle = [], nd_location = [], nd_activity = ''Logging in'', nd_secure = secure, nd_notices = []\<rparr>"

definition acquire :: "nanos \<Rightarrow> bool \<Rightarrow> nodeTable \<Rightarrow> (node_error + node) \<times> nodeTable" where
  "acquire now secure t =
     (if nt_closing t then (Inl errShuttingDown, t)
      else case lowest_free t of
          None \<Rightarrow> (Inl errNodesBusy, t)
        | Some i \<Rightarrow> (Inr (new_node now secure i), t\<lparr>nt_nodes := nt_nodes t @ [new_node now secure i]\<rparr>))"

definition release :: "int \<Rightarrow> nodeTable \<Rightarrow> nodeTable" where
  "release i t = t\<lparr>nt_nodes := delete_where (\<lambda>n. nd_id n = i) (nt_nodes t)\<rparr>"

definition online :: "nodeTable \<Rightarrow> NodeInfo list" where
  "online t = sort_key ni_ID (map info (nt_nodes t))"

text \<open>\<open>each\<close>, with the change \<open>fn\<close> makes to a node.\<close>

definition each :: "(node \<Rightarrow> node) \<Rightarrow> nodeTable \<Rightarrow> nodeTable" where
  "each fn t = t\<lparr>nt_nodes := map fn (nt_nodes t)\<rparr>"

definition notify :: "int \<Rightarrow> string \<Rightarrow> nodeTable \<Rightarrow> nat \<times> nodeTable" where
  "notify userID s t =
     (length (filter (\<lambda>n. ni_UserID (info n) = userID) (nt_nodes t)),
      each (\<lambda>n. if ni_UserID (info n) = userID then addNotice s n else n) t)"

definition broadcast :: "string \<Rightarrow> int \<Rightarrow> nodeTable \<Rightarrow> nodeTable" where
  "broadcast s skipNode t = each (\<lambda>n. if nd_id n \<noteq> skipNode \<and> ni_UserID (info n) \<noteq> 0 then addNotice s n else n) t"

text \<open>\<open>kick\<close> and \<open>kickUser\<close> with the hanging up that follows, for a caller who waits for their end.\<close>

definition hangUp :: "int \<Rightarrow> string \<Rightarrow> nodeTable \<Rightarrow> nodeTable" where
  "hangUp i msg = each (\<lambda>n. if nd_id n = i then hangUpNode msg n else n)"

definition kick :: "int \<Rightarrow> string \<Rightarrow> nodeTable \<Rightarrow> bool \<times> nodeTable" where
  "kick nodeID msg t = (lookup_node nodeID t \<noteq> None, hangUp nodeID msg t)"

definition kickUser :: "int \<Rightarrow> string \<Rightarrow> nodeTable \<Rightarrow> nat \<times> nodeTable" where
  "kickUser userID msg t =
     (length (filter (\<lambda>n. ni_UserID (info n) = userID) (nt_nodes t)),
      each (\<lambda>n. if ni_UserID (info n) = userID then hangUpNode msg n else n) t)"

text \<open>What the three do under the lock: the nodes they have chosen, each with its message, and for \<open>closeAll\<close> the flag.\<close>

definition kick_choose :: "int \<Rightarrow> string \<Rightarrow> nodeTable \<Rightarrow> (int \<times> string) list" where
  "kick_choose nodeID msg t = (if lookup_node nodeID t \<noteq> None then [(nodeID, msg)] else [])"

definition kickUser_choose :: "int \<Rightarrow> string \<Rightarrow> nodeTable \<Rightarrow> (int \<times> string) list" where
  "kickUser_choose userID msg t = map (\<lambda>n. (nd_id n, msg)) (filter (\<lambda>n. ni_UserID (info n) = userID) (nt_nodes t))"

definition closeAll :: "string \<Rightarrow> nodeTable \<Rightarrow> (int \<times> string) list \<times> nodeTable" where
  "closeAll msg t = (map (\<lambda>n. (nd_id n, msg)) (nt_nodes t), t\<lparr>nt_closing := True\<rparr>)"

text \<open>\<open>hangUpAll\<close>, in one of the orders it can run.\<close>

definition hangUpAll :: "(int \<times> string) list \<Rightarrow> nodeTable \<Rightarrow> nodeTable" where
  "hangUpAll doomed t = fold (\<lambda>(i, msg). hangUp i msg) doomed t"

text \<open>\<open>notifySysops\<close> of \<open>approval.go\<close>, over the sysops' ids.\<close>

definition notifySysops :: "int list \<Rightarrow> string \<Rightarrow> nodeTable \<Rightarrow> nodeTable" where
  "notifySysops ids s t = fold (\<lambda>i t. snd (notify i s t)) ids t"

section \<open>Steps of the table\<close>

text \<open>
  What the sessions and the server do, in any interleaving. \<open>ns_doomed\<close>: the nodes that \<open>kick\<close>, \<open>kickUser\<close> and \<open>closeAll\<close>
  have chosen and not yet hung up. A node that has been released meanwhile is no longer in the table, so hanging up
  its terminal does nothing to the table, even when its number is in use again.
\<close>

record node_system =
  ns_table :: nodeTable
  ns_doomed :: "(int \<times> string) list"

inductive node_step :: "node_system \<Rightarrow> node_system \<Rightarrow> bool" where
  acquire: "node_step \<lparr>ns_table = t, ns_doomed = ds\<rparr> \<lparr>ns_table = snd (acquire now secure t), ns_doomed = ds\<rparr>"
| release: "node_step \<lparr>ns_table = t, ns_doomed = ds\<rparr> \<lparr>ns_table = release i t, ns_doomed = filter (\<lambda>d. fst d \<noteq> i) ds\<rparr>"
| login: "node_step \<lparr>ns_table = t, ns_doomed = ds\<rparr>
    \<lparr>ns_table = each (\<lambda>n. if nd_id n = i then setUser u n else n) t, ns_doomed = ds\<rparr>"
| activity: "node_step \<lparr>ns_table = t, ns_doomed = ds\<rparr>
    \<lparr>ns_table = each (\<lambda>n. if nd_id n = i then setActivity a n else n) t, ns_doomed = ds\<rparr>"
| take: "node_step \<lparr>ns_table = t, ns_doomed = ds\<rparr>
    \<lparr>ns_table = each (\<lambda>n. if nd_id n = i then (snd (takeNotices n))\<lparr>nd_signal := False\<rparr> else n) t, ns_doomed = ds\<rparr>"
| notify: "node_step \<lparr>ns_table = t, ns_doomed = ds\<rparr> \<lparr>ns_table = snd (notify userID msg t), ns_doomed = ds\<rparr>"
| broadcast: "node_step \<lparr>ns_table = t, ns_doomed = ds\<rparr> \<lparr>ns_table = broadcast msg i t, ns_doomed = ds\<rparr>"
| kick: "node_step \<lparr>ns_table = t, ns_doomed = ds\<rparr> \<lparr>ns_table = t, ns_doomed = ds @ kick_choose i msg t\<rparr>"
| kickUser: "node_step \<lparr>ns_table = t, ns_doomed = ds\<rparr> \<lparr>ns_table = t, ns_doomed = ds @ kickUser_choose userID msg t\<rparr>"
| closeAll: "closeAll msg t = (new, t') \<Longrightarrow> node_step \<lparr>ns_table = t, ns_doomed = ds\<rparr> \<lparr>ns_table = t', ns_doomed = ds @ new\<rparr>"
| hangUp: "node_step \<lparr>ns_table = t, ns_doomed = ds @ (i, msg) # es\<rparr> \<lparr>ns_table = hangUp i msg t, ns_doomed = ds @ es\<rparr>"

inductive node_reach :: "int \<Rightarrow> node_system \<Rightarrow> bool" for m where
  start: "node_reach m \<lparr>ns_table = newNodeTable m, ns_doomed = []\<rparr>"
| step: "node_reach m t \<Longrightarrow> node_step t t' \<Longrightarrow> node_reach m t'"

definition node_ok :: "node \<Rightarrow> bool" where
  "node_ok n \<longleftrightarrow> length (nd_notices n) \<le> maxPendingNotices"

definition table_inv :: "(int \<times> string) list \<Rightarrow> nodeTable \<Rightarrow> bool" where
  "table_inv ds t \<longleftrightarrow> distinct (map nd_id (nt_nodes t)) \<and> (\<forall>n \<in> set (nt_nodes t). 1 \<le> nd_id n \<and> nd_id n \<le> nt_max t \<and> node_ok n) \<and>
     (nt_closing t \<longrightarrow> (\<forall>n \<in> set (nt_nodes t). nd_closed n \<or> nd_id n \<in> fst ` set ds))"

lemma lookup_node_None: "lookup_node i t = None \<longleftrightarrow> i \<notin> nd_id ` set (nt_nodes t)"
  by (auto simp: lookup_node_def find_None_iff)

lemma lowest_free_Some:
  assumes "lowest_free t = Some i"
  shows "1 \<le> i \<and> i \<le> nt_max t \<and> lookup_node i t = None \<and> (\<forall>j. 1 \<le> j \<and> j < i \<longrightarrow> lookup_node j t \<noteq> None)"
proof -
  from assms obtain k where k: "k < length [1 .. nt_max t]" "i = [1 .. nt_max t] ! k" "lookup_node i t = None"
    "\<forall>l < k. lookup_node ([1 .. nt_max t] ! l) t \<noteq> None"
    unfolding lowest_free_def by (auto simp: find_Some_iff)
  have nth: "[1 .. nt_max t] ! l = 1 + int l" if "l < length [1 .. nt_max t]" for l
    using that by (simp add: nth_upto)
  have "lookup_node j t \<noteq> None" if "1 \<le> j" "j < i" for j
  proof -
    have "nat (j - 1) < k" using that k(1,2) nth by simp
    moreover from this have "[1 .. nt_max t] ! nat (j - 1) = j" using that k(1) nth [of "nat (j - 1)"] by simp
    ultimately show ?thesis using k(4) by metis
  qed
  then show ?thesis using k nth [OF k(1)] by auto
qed

lemma lowest_free_None: "lowest_free t = None \<longleftrightarrow> {1 .. nt_max t} \<subseteq> nd_id ` set (nt_nodes t)"
  by (auto simp: lowest_free_def find_None_iff lookup_node_None)

lemma each_inv:
  assumes "table_inv ds t" "\<And>n. n \<in> set (nt_nodes t) \<Longrightarrow> nd_id (fn n) = nd_id n \<and> (nd_closed n \<longrightarrow> nd_closed (fn n)) \<and> (node_ok n \<longrightarrow> node_ok (fn n))"
  shows "table_inv ds (each fn t)"
proof -
  have ids: "map (nd_id \<circ> fn) (nt_nodes t) = map nd_id (nt_nodes t)" using assms(2) by simp
  show ?thesis using assms unfolding table_inv_def each_def by (auto simp: ids)
qed

lemma more_doomed: "table_inv ds t \<Longrightarrow> set ds \<subseteq> set es \<Longrightarrow> table_inv es t"
  unfolding table_inv_def by blast

lemma hangUp_keeps [simp]:
  "map nd_id (nt_nodes (hangUp i msg t)) = map nd_id (nt_nodes t)" "nt_closing (hangUp i msg t) = nt_closing t" "nt_max (hangUp i msg t) = nt_max t"
  by (simp_all add: hangUp_def each_def hangUpNode_def comp_def if_distrib [of nd_id] cong: if_cong)

lemma hangUp_inv:
  assumes "table_inv (ds @ (i, msg) # es) t"
  shows "table_inv (ds @ es) (hangUp i msg t)"
proof -
  have nodes: "nt_nodes (hangUp i msg t) = map (\<lambda>n. if nd_id n = i then hangUpNode msg n else n) (nt_nodes t)"
    by (simp add: hangUp_def each_def)
  have "distinct (map nd_id (nt_nodes (hangUp i msg t)))" using assms by (simp add: table_inv_def)
  moreover have "\<forall>n \<in> set (nt_nodes (hangUp i msg t)). 1 \<le> nd_id n \<and> nd_id n \<le> nt_max t \<and> node_ok n"
    using assms unfolding nodes table_inv_def by (auto simp: hangUpNode_def node_ok_def)
  moreover have "nt_closing t \<longrightarrow> (\<forall>n \<in> set (nt_nodes (hangUp i msg t)). nd_closed n \<or> nd_id n \<in> fst ` set (ds @ es))"
    using assms unfolding nodes table_inv_def by (auto simp: hangUpNode_def)
  ultimately show ?thesis by (simp add: table_inv_def)
qed

lemma hangUpAll_closing: "nt_closing (hangUpAll ds t) = nt_closing t"
  by (induction ds arbitrary: t) (simp_all add: hangUpAll_def split_beta)

lemma hangUpAll_inv: "table_inv (ds @ es) t \<Longrightarrow> table_inv es (hangUpAll ds t)"
proof (induction ds arbitrary: t)
  case (Cons d ds)
  obtain i msg where d: "d = (i, msg)" by fastforce
  have "table_inv (ds @ es) (hangUp i msg t)" using Cons.prems hangUp_inv [of "[]" i msg "ds @ es" t] by (simp add: d)
  then show ?case using Cons.IH by (simp add: hangUpAll_def d)
qed (simp add: hangUpAll_def)

lemma find_append_node: "find P (xs @ ys) = (case find P xs of None \<Rightarrow> find P ys | Some x \<Rightarrow> Some x)"
  by (induction xs) auto

lemma list_all2_refl_node: "(\<And>x. x \<in> set xs \<Longrightarrow> P x x) \<Longrightarrow> list_all2 P xs xs"
  by (induction xs) auto

lemmas node_ops = setUser_def setActivity_def addNotice_def takeNotices_def hangUpNode_def node_ok_def info_def

lemma acquire_inv: "table_inv ds t \<Longrightarrow> table_inv ds (snd (acquire now secure t))"
  using lowest_free_Some [of t]
  by (auto simp: table_inv_def acquire_def new_node_def node_ok_def lookup_node_None split: option.splits)

lemma release_inv: "table_inv ds t \<Longrightarrow> table_inv (filter (\<lambda>d. fst d \<noteq> i) ds) (release i t)"
  by (fastforce simp: table_inv_def release_def delete_where_def distinct_map_filter)

lemma closeAll_inv: "table_inv ds t \<Longrightarrow> closeAll msg t = (new, t') \<Longrightarrow> table_inv (ds @ new) t'"
  by (fastforce simp: table_inv_def closeAll_def image_image image_Un)

lemma step_inv: "node_step s s' \<Longrightarrow> table_inv (ns_doomed s) (ns_table s) \<Longrightarrow> table_inv (ns_doomed s') (ns_table s')"
proof (induction rule: node_step.induct)
  case (kick t ds i msg)
  then show ?case by (auto elim!: more_doomed)
next
  case (kickUser t ds userID msg)
  then show ?case by (auto elim!: more_doomed)
qed (auto simp: acquire_inv release_inv closeAll_inv hangUp_inv notify_def broadcast_def intro!: each_inv, auto simp: node_ops)

lemma step_keeps: "node_step s s' \<Longrightarrow> nt_max (ns_table s') = nt_max (ns_table s)"
  by (induction rule: node_step.induct)
     (auto simp: acquire_def release_def notify_def broadcast_def hangUp_def closeAll_def each_def split: option.splits)

lemma reach_inv: "node_reach m s \<Longrightarrow> table_inv (ns_doomed s) (ns_table s) \<and> nt_max (ns_table s) = m"
proof (induction rule: node_reach.induct)
  case (step s s')
  then show ?case using step_inv [of s s'] step_keeps [of s s'] by simp
qed (simp add: newNodeTable_def table_inv_def)

section \<open>Theorems\<close>

text \<open>
  Claim C17. The node table never hands out a number twice or out of range: in every state the sessions and the server can
  bring it to, the nodes online have distinct numbers from 1 to the maximum, at most that many are online, and none has more
  than twenty notices waiting. As long as the system is up, \<open>acquire\<close> gives the lowest free number and fails exactly when
  all are taken. Once it is going down every attempt to get a node is refused, and no caller is forgotten: each remaining
  one has been hung up or is still to be, and when the hang-ups under way have run, in any order, all have been.
\<close>

theorem nodes_safe:
  assumes reach: "node_reach m s" and order: "mset ds = mset (ns_doomed s)"
  shows "let t = ns_table s in distinct (map nd_id (nt_nodes t)) \<and> int (length (nt_nodes t)) \<le> max m 0 \<and>
    list_all (\<lambda>n. 1 \<le> nd_id n \<and> nd_id n \<le> m \<and> length (nd_notices n) \<le> maxPendingNotices) (nt_nodes t) \<and>
    (if nt_closing t then fst (acquire now sec t) = Inl errShuttingDown \<and>
       list_all (\<lambda>n. nd_closed n \<or> nd_id n \<in> fst ` set (ns_doomed s)) (nt_nodes t) \<and> list_all nd_closed (nt_nodes (hangUpAll ds t))
     else case acquire now sec t of
         (Inl e, t') \<Rightarrow> e = errNodesBusy \<and> t' = t \<and> nd_id ` set (nt_nodes t) = {1 .. m}
       | (Inr n, t') \<Rightarrow> lookup_node (nd_id n) t = None \<and> lookup_node (nd_id n) t' = Some n \<and>
           {1 .. nd_id n - 1} \<subseteq> nd_id ` set (nt_nodes t))"
proof -
  let ?t = "ns_table s"
  have inv: "table_inv (ns_doomed s) ?t" and m: "nt_max ?t = m" using reach_inv [OF reach] by auto
  have sub: "nd_id ` set (nt_nodes ?t) \<subseteq> {1 .. m}" using inv m by (auto simp: table_inv_def)
  have "length (nt_nodes ?t) = card (nd_id ` set (nt_nodes ?t))"
    using inv distinct_card [of "map nd_id (nt_nodes ?t)"] by (simp add: table_inv_def)
  also have "\<dots> \<le> nat m" using card_mono [OF _ sub] by simp
  finally have len: "int (length (nt_nodes ?t)) \<le> max m 0" by linarith
  have "table_inv (ds @ []) ?t" using inv mset_eq_setD [OF order] by (simp add: more_doomed)
  then have "table_inv [] (hangUpAll ds ?t)" by (rule hangUpAll_inv)
  then have hung: "nt_closing ?t \<Longrightarrow> list_all nd_closed (nt_nodes (hangUpAll ds ?t))"
    by (simp add: table_inv_def list_all_iff hangUpAll_closing)
  have acq: "case acquire now sec ?t of
         (Inl e, t') \<Rightarrow> e = errNodesBusy \<and> t' = ?t \<and> nd_id ` set (nt_nodes ?t) = {1 .. m}
       | (Inr n, t') \<Rightarrow> lookup_node (nd_id n) ?t = None \<and> lookup_node (nd_id n) t' = Some n \<and>
           {1 .. nd_id n - 1} \<subseteq> nd_id ` set (nt_nodes ?t)" if "\<not> nt_closing ?t"
  proof (cases "lowest_free ?t")
    case None
    then show ?thesis using that sub m lowest_free_None [of ?t] by (auto simp: acquire_def)
  next
    case (Some i)
    from lowest_free_Some [OF Some] have "lookup_node i ?t = None" "{1 .. i - 1} \<subseteq> nd_id ` set (nt_nodes ?t)"
      using lookup_node_None [of _ ?t] by auto
    then show ?thesis using that Some
      by (auto simp: acquire_def lookup_node_def new_node_def find_append_node)
  qed
  show ?thesis using inv m len acq hung by (auto simp: table_inv_def list_all_iff node_ok_def acquire_def Let_def)
qed

theorem nodes_safe_witness:
  "let t = snd (acquire 5 True (newNodeTable 2)); (ds, t') = closeAll ''bye'' t in
   fst (acquire 7 False t') = Inl errShuttingDown \<and> list_all nd_closed (nt_nodes (hangUpAll ds t'))"
proof -
  obtain ds t' where c: "closeAll ''bye'' (snd (acquire 5 True (newNodeTable 2))) = (ds, t')" by fastforce
  have "node_reach 2 \<lparr>ns_table = snd (acquire 5 True (newNodeTable 2)), ns_doomed = []\<rparr>"
    by (rule node_reach.step [OF node_reach.start node_step.acquire])
  from node_reach.step [OF this node_step.closeAll [OF c]]
  have r: "node_reach 2 \<lparr>ns_table = t', ns_doomed = ds\<rparr>" by simp
  have "nt_closing t'" using c by (auto simp: closeAll_def)
  with nodes_safe [OF r, of ds 7 False] show ?thesis by (simp add: c Let_def)
qed

text \<open>
  A notice reaches its user on every node, and nobody else: \<open>notify\<close> reports how many
  nodes the user is on; each of them has the notice appended (unless twenty wait already) and is
  signalled, and every other node is exactly as before. So a nudge for a user who is not online
  changes nothing, and no notice is lost on a node with room.
\<close>

theorem notify_reaches:
  "case notify u s t of (reached, t') \<Rightarrow>
     reached = length (filter (\<lambda>n. nd_userID n = u) (nt_nodes t)) \<and>
     list_all2 (\<lambda>n n'. if nd_userID n = u
        then nd_signal n' \<and> n' = n\<lparr>nd_signal := True, nd_notices := take maxPendingNotices (nd_notices n) @
               (if length (nd_notices n) < maxPendingNotices then [s] else drop maxPendingNotices (nd_notices n))\<rparr>
        else n' = n) (nt_nodes t) (nt_nodes t')"
  by (auto simp: notify_def each_def info_def addNotice_def list_all2_map2 intro!: list_all2_refl_node)

end
