(* ===== verification/Bbs_Chat.thy ===== *)
theory Bbs_Chat
  imports Term_Render Bbs_Limits "HOL-Library.AList"
begin

text \<open>
  \<open>internal/bbs/chat.go\<close> and the commands of \<open>chatui.go\<close>: the teleconference. A member is an object
  that several goroutines share, so the hub has a store from addresses to members and a room is
  the list of the addresses in it. Every method of the hub runs under its lock. A member's
  channel is the queue of the lines it has not printed yet, at most \<open>chatBacklog\<close> of them; a send
  that would block is dropped.
\<close>

section \<open>The hub (chat.go)\<close>

definition defaultRoom :: string where "defaultRoom = ''main''"
definition maxRoomNameLen :: nat where "maxRoomNameLen = 16"
definition chatBacklog :: nat where "chatBacklog = 64"
definition chatSystemActor :: int where "chatSystemActor = 0"

record chatLine =
  ln_from :: int
  ln_text :: string

record chatMember =
  cm_userID :: int
  cm_handle :: string
  cm_blocked :: "int \<Rightarrow> bool"
  cm_out :: "chatLine list"
  cm_room :: string

definition newChatMember :: "int \<Rightarrow> string \<Rightarrow> (int \<Rightarrow> bool) \<Rightarrow> chatMember" where
  "newChatMember userID handle blk = \<lparr>cm_userID = userID, cm_handle = handle, cm_blocked = blk, cm_out = [], cm_room = []\<rparr>"

record chatHub =
  ch_members :: "nat \<Rightarrow> chatMember"
  ch_rooms :: "(string \<times> nat list) list"

definition newChatHub :: chatHub where
  "newChatHub = \<lparr>ch_members = (\<lambda>_. newChatMember 0 [] (\<lambda>_. False)), ch_rooms = []\<rparr>"

definition room_members :: "string \<Rightarrow> chatHub \<Rightarrow> nat list" where
  "room_members r h = (case map_of (ch_rooms h) r of None \<Rightarrow> [] | Some ms \<Rightarrow> ms)"

definition room_char :: "rune \<Rightarrow> bool" where
  "room_char r \<longleftrightarrow> (97 \<le> r \<and> r \<le> 122) \<or> (48 \<le> r \<and> r \<le> 57) \<or> r = 45 \<or> r = 95"

text \<open>The loop over the runes; what is kept is ASCII, so the builder's length counts runes.\<close>

fun normalize_loop :: "rune list \<Rightarrow> string \<Rightarrow> string" where
  "normalize_loop [] b = b"
| "normalize_loop (r # rs) b =
     (let b' = (if room_char r then b @ encode_rune r else b)
      in if length b' = maxRoomNameLen then b' else normalize_loop rs b')"

definition trim_prefix :: "string \<Rightarrow> string \<Rightarrow> string" where
  "trim_prefix pre s = (if prefix pre s then drop (length pre) s else s)"

definition normalizeRoom :: "(rune \<Rightarrow> rune) \<Rightarrow> string \<Rightarrow> string" where
  "normalizeRoom lo name = normalize_loop (runes (to_lower lo (trim_prefix ''#'' (trim_space name)))) []"

definition accepts :: "chatLine \<Rightarrow> chatMember \<Rightarrow> bool" where
  "accepts l m \<longleftrightarrow> (ln_from l = chatSystemActor \<or> \<not> cm_blocked m (ln_from l)) \<and> length (cm_out m) < chatBacklog"

definition sendLocked :: "string \<Rightarrow> chatLine \<Rightarrow> chatHub \<Rightarrow> chatHub" where
  "sendLocked room l h =
     h\<lparr>ch_members := (\<lambda>a. let m = ch_members h a in
          if a \<in> set (room_members room h) \<and> accepts l m then m\<lparr>cm_out := cm_out m @ [l]\<rparr> else m)\<rparr>"

definition set_room :: "nat \<Rightarrow> string \<Rightarrow> chatHub \<Rightarrow> chatHub" where
  "set_room a r h = h\<lparr>ch_members := (ch_members h)(a := (ch_members h a)\<lparr>cm_room := r\<rparr>)\<rparr>"

definition leaveLocked :: "nat \<Rightarrow> chatHub \<Rightarrow> chatHub" where
  "leaveLocked a h =
     (let m = ch_members h a; room = cm_room m in
      if room = [] then h
      else let rest = filter (\<lambda>b. b \<noteq> a) (room_members room h);
               h1 = h\<lparr>ch_rooms := (if rest = [] then AList.delete room (ch_rooms h) else AList.update room rest (ch_rooms h))\<rparr>
           in sendLocked room \<lparr>ln_from = chatSystemActor, ln_text = ''|08*** |14'' @ safe (cm_handle m) @ ''|08 left''\<rparr>
                (set_room a [] h1))"

definition join_hub :: "nat \<Rightarrow> string \<Rightarrow> chatHub \<Rightarrow> chatHub" where
  "join_hub a room h =
     (let h = leaveLocked a h;
          h1 = h\<lparr>ch_rooms := AList.update room (filter (\<lambda>b. b \<noteq> a) (room_members room h) @ [a]) (ch_rooms h)\<rparr>
      in sendLocked room \<lparr>ln_from = chatSystemActor, ln_text = ''|08*** |14'' @ safe (cm_handle (ch_members h a)) @ ''|08 joined #'' @ room\<rparr>
           (set_room a room h1))"

definition leave :: "nat \<Rightarrow> chatHub \<Rightarrow> chatHub" where
  "leave a h = leaveLocked a h"

definition say :: "nat \<Rightarrow> string \<Rightarrow> chatHub \<Rightarrow> chatHub" where
  "say a t h =
     (let m = ch_members h a
      in if cm_room m = [] then h else sendLocked (cm_room m) \<lparr>ln_from = cm_userID m, ln_text = t\<rparr> h)"

definition who :: "string \<Rightarrow> chatHub \<Rightarrow> string list" where
  "who room h = sort (map (\<lambda>a. cm_handle (ch_members h a)) (room_members room h))"

definition roomCounts :: "chatHub \<Rightarrow> (string \<times> nat) list" where
  "roomCounts h = map (\<lambda>(r, ms). (r, length ms)) (ch_rooms h)"

definition chat_count :: "chatHub \<Rightarrow> nat" where
  "chat_count h = sum_list (map snd (roomCounts h))"

text \<open>The goroutine that prints a member's lines takes the oldest one.\<close>

definition receive :: "nat \<Rightarrow> chatHub \<Rightarrow> chatHub" where
  "receive a h = h\<lparr>ch_members := (ch_members h)(a := (ch_members h a)\<lparr>cm_out := tl (cm_out (ch_members h a))\<rparr>)\<rparr>"

section \<open>Commands (chatui.go)\<close>

text \<open>
  What one caller's input line does: \<open>ui_shown\<close> collects the lines printed on the caller's own
  screen, \<open>clock\<close> is the time of day as it is printed. The chat limiter is kept in memory only.
\<close>

definition no_store :: "unit hitStore" where
  "no_store = \<lparr>hs_RecordHit = (\<lambda>_ _ _ s. s), hs_ClearHits = (\<lambda>_ _ s. s), hs_LoadHits = (\<lambda>_ _ _ _. None)\<rparr>"

definition chat_limit :: rateLimiter where
  "chat_limit = newRateLimiter 8 (10 * second)"

definition userKey :: "int \<Rightarrow> string" where
  "userKey i = itoa i"

record chat_state =
  ui_hub :: chatHub
  ui_limit :: rateLimiter
  ui_shown :: "string list"
  ui_activity :: string

definition show_line :: "string \<Rightarrow> chat_state \<Rightarrow> chat_state" where
  "show_line t st = st\<lparr>ui_shown := ui_shown st @ [t]\<rparr>"

definition chatSay :: "nanos \<Rightarrow> string \<Rightarrow> nat \<Rightarrow> string \<Rightarrow> chat_state \<Rightarrow> chat_state" where
  "chatSay now clock a t st =
     (let key = userKey (cm_userID (ch_members (ui_hub st) a));
          (stop, lim) = blocked now key (ui_limit st)
      in if stop then show_line ''|12*** Slow down a little.'' (st\<lparr>ui_limit := lim\<rparr>)
         else let (lim', _) = hit no_store now key (lim, ())
              in st\<lparr>ui_limit := lim', ui_hub := say a (''|08'' @ clock @ '' '' @ t) (ui_hub st)\<rparr>)"

definition chatHelp :: string where
  "chatHelp = ''|08Commands: |15/me|08 action '' @ of_runes [0xB7] @ '' |15/who|08 '' @ of_runes [0xB7] @
     '' |15/rooms|08 '' @ of_runes [0xB7] @ '' |15/join|08 name '' @ of_runes [0xB7] @ '' |15/q|08 quit''"

definition chatCommand :: "(rune \<Rightarrow> rune) \<Rightarrow> nanos \<Rightarrow> string \<Rightarrow> nat \<Rightarrow> string \<Rightarrow> chat_state \<Rightarrow> bool \<times> chat_state" where
  "chatCommand lo now clock a line st =
     (let (cmd, arg) = (case cut_at CHR '' '' line of None \<Rightarrow> (line, []) | Some (x, y) \<Rightarrow> (x, y));
          m = ch_members (ui_hub st) a;
          c = to_lower lo cmd
      in if \<not> prefix ''/'' cmd
         then (False, chatSay now clock a (''|14<'' @ safe (cm_handle m) @ ''>|07 '' @ safe line) st)
         else if c = ''/q'' \<or> c = ''/quit'' \<or> c = ''/exit'' then (True, st)
         else if c = ''/me''
         then (False, if arg = [] then st else chatSay now clock a (''|13* '' @ safe (cm_handle m) @ '' '' @ safe arg) st)
         else if c = ''/who''
         then (False, show_line (''|08*** In #'' @ cm_room m @ '': |14'' @ safe (join '', '' (who (cm_room m) (ui_hub st)))) st)
         else if c = ''/rooms''
         then (False, show_line (''|08*** Rooms: |07'' @
                join '', '' (map (\<lambda>(r, n). ''#'' @ r @ '' ('' @ nat_digits n @ '')'') (sort_key fst (roomCounts (ui_hub st))))) st)
         else if c = ''/join''
         then (let room = normalizeRoom lo arg
               in if room = [] then (False, show_line ''|12*** Usage: /join roomname (letters, digits, - and _)'' st)
                  else (False, st\<lparr>ui_hub := join_hub a room (ui_hub st), ui_activity := ''Chatting in #'' @ room\<rparr>))
         else (False, show_line chatHelp st))"

section \<open>Room names\<close>

lemma normalize_loop_chars:
  "list_all (\<lambda>c. is_ascii c \<and> room_char (byte_val c)) b \<Longrightarrow> length b < maxRoomNameLen \<Longrightarrow>
    list_all (\<lambda>c. is_ascii c \<and> room_char (byte_val c)) (normalize_loop rs b) \<and> length (normalize_loop rs b) \<le> maxRoomNameLen"
proof (induction rs arbitrary: b)
  case (Cons r rs)
  have enc: "encode_rune r = [byte_of r] \<and> is_ascii (byte_of r) \<and> byte_val (byte_of r) = r" if "room_char r"
    using that by (auto simp: room_char_def encode_rune_def encode_valid_def valid_rune_def is_ascii_def byte_val_byte_of)
  show ?case
  proof (cases "length (if room_char r then b @ encode_rune r else b) = maxRoomNameLen")
    case True
    then show ?thesis using Cons.prems enc by (auto simp: Let_def)
  next
    case False
    then have "length (if room_char r then b @ encode_rune r else b) < maxRoomNameLen"
      using Cons.prems enc by (auto split: if_splits)
    then show ?thesis using Cons False enc by (auto simp: Let_def split: if_splits)
  qed
qed simp

lemma normalize_loop_id:
  "list_all room_char rs \<Longrightarrow> length b + length rs \<le> maxRoomNameLen \<Longrightarrow> normalize_loop rs b = b @ map byte_of rs"
proof (induction rs arbitrary: b)
  case (Cons r rs)
  then have "encode_rune r = [byte_of r]"
    by (auto simp: room_char_def encode_rune_def encode_valid_def valid_rune_def)
  moreover have "rs = []" if "Suc (length b) = maxRoomNameLen" using that Cons.prems(2) by (cases rs) auto
  ultimately show ?case using Cons by (auto simp: Let_def)
qed simp

lemma room_char_ascii: "is_ascii c \<and> room_char (byte_val c) \<Longrightarrow>
    c \<noteq> CHR ''#'' \<and> \<not> is_space (byte_val c) \<and> (byte_val c < 65 \<or> 90 < byte_val c)"
  by (auto simp: room_char_def is_space_def byte_val_def)

text \<open>A room name is what everybody types for that room: at most sixteen of the letters, digits
  and signs allowed, and normalising it again changes nothing.\<close>

lemma normalizeRoom_chars:
  "list_all (\<lambda>c. is_ascii c \<and> room_char (byte_val c)) (normalizeRoom lo s)" "length (normalizeRoom lo s) \<le> maxRoomNameLen"
  using normalize_loop_chars [of "[]"] by (simp_all add: normalizeRoom_def maxRoomNameLen_def)

lemma normalizeRoom_idem: "normalizeRoom lo (normalizeRoom lo s) = normalizeRoom lo s"
proof -
  define n where "n = normalizeRoom lo s"
  have n: "list_all (\<lambda>c. is_ascii c \<and> room_char (byte_val c)) n" "length n \<le> maxRoomNameLen"
    using normalizeRoom_chars by (simp_all add: n_def)
  have asc: "list_all is_ascii n" using n by (simp add: list_all_iff)
  have "trim_space n = n" using n room_char_ascii by (intro trim_space_id) (auto simp: list_all_iff)
  moreover have "\<not> prefix ''#'' n" using n room_char_ascii by (cases n) auto
  moreover have "to_lower lo n = n"
    using n room_char_ascii to_lower_ascii [OF asc] sql_lower_id [of n] by (auto simp: list_all_iff)
  ultimately have "normalizeRoom lo n = normalize_loop (map byte_val n) []"
    using runes_ascii [OF asc] by (simp add: normalizeRoom_def trim_prefix_def)
  also have "\<dots> = n" using normalize_loop_id [of "map byte_val n" "[]"] n by (simp add: list_all_iff o_def)
  finally show ?thesis by (simp add: n_def)
qed

section \<open>Invariant\<close>

definition member_ok :: "chatMember \<Rightarrow> bool" where
  "member_ok m \<longleftrightarrow> length (cm_out m) \<le> chatBacklog \<and>
     list_all (\<lambda>l. ln_from l = chatSystemActor \<or> \<not> cm_blocked m (ln_from l)) (cm_out m)"

definition hub_inv :: "chatHub \<Rightarrow> bool" where
  "hub_inv h \<longleftrightarrow> (\<forall>a. member_ok (ch_members h a)) \<and> distinct (map fst (ch_rooms h)) \<and>
     (\<forall>r. distinct (room_members r h)) \<and> (\<forall>r \<in> fst ` set (ch_rooms h). room_members r h \<noteq> []) \<and>
     (\<forall>a r. a \<in> set (room_members r h) \<longleftrightarrow> r \<noteq> [] \<and> cm_room (ch_members h a) = r)"

lemma send_simps [simp]:
  "ch_rooms (sendLocked r l h) = ch_rooms h" "room_members r' (sendLocked r l h) = room_members r' h"
  "cm_room (ch_members (sendLocked r l h) a) = cm_room (ch_members h a)"
  "cm_handle (ch_members (sendLocked r l h) a) = cm_handle (ch_members h a)"
  by (simp_all add: sendLocked_def room_members_def Let_def)

lemma set_room_simps [simp]:
  "ch_rooms (set_room a r h) = ch_rooms h" "room_members r' (set_room a r h) = room_members r' h"
  "cm_room (ch_members (set_room a r h) b) = (if b = a then r else cm_room (ch_members h b))"
  by (simp_all add: set_room_def room_members_def)

lemma room_members_frame [simp]: "room_members r (h\<lparr>ch_members := f\<rparr>) = room_members r h"
  by (simp add: room_members_def)

lemma room_members_update:
  "room_members r (h\<lparr>ch_rooms := AList.update k v al\<rparr>) = (if r = k then v else case map_of al r of None \<Rightarrow> [] | Some ms \<Rightarrow> ms)"
  "room_members r (h\<lparr>ch_rooms := AList.delete k al\<rparr>) = (if r = k then [] else case map_of al r of None \<Rightarrow> [] | Some ms \<Rightarrow> ms)"
  by (simp_all add: room_members_def update_conv' delete_conv')

lemma send_inv: "hub_inv h \<Longrightarrow> hub_inv (sendLocked r l h)"
proof -
  assume inv: "hub_inv h"
  have "member_ok (ch_members (sendLocked r l h) a)" for a
    using inv by (auto simp: hub_inv_def sendLocked_def Let_def member_ok_def accepts_def)
  then show ?thesis using inv by (simp add: hub_inv_def)
qed

lemma member_ok_room [simp]: "member_ok (m\<lparr>cm_room := r\<rparr>) = member_ok m"
  by (simp add: member_ok_def)

lemma keys_update: "fst ` set (AList.update k v al) = insert k (fst ` set al)"
  by (induction al) auto

lemma keys_delete: "fst ` set (AList.delete k al) = fst ` set al - {k}"
  using arg_cong [OF delete_keys [of k al], of set] by simp

lemma leave_room:
  assumes inv: "hub_inv h" and room: "cm_room (ch_members h a) = room" "room \<noteq> []"
  defines "rest \<equiv> filter (\<lambda>b. b \<noteq> a) (room_members room h)"
  defines "h1 \<equiv> h\<lparr>ch_rooms := (if rest = [] then AList.delete room (ch_rooms h) else AList.update room rest (ch_rooms h))\<rparr>"
  shows "hub_inv (set_room a [] h1)"
proof -
  have rm: "room_members r h1 = (if r = room then rest else room_members r h)" for r
    by (simp add: h1_def room_members_update room_members_def [of r h])
  have keys: "fst ` set (ch_rooms h1) = (if rest = [] then fst ` set (ch_rooms h) - {room} else insert room (fst ` set (ch_rooms h)))"
    by (simp add: h1_def keys_delete keys_update)
  have d: "distinct (map fst (ch_rooms h1))"
    using inv by (simp add: h1_def hub_inv_def distinct_delete distinct_update)
  have mem: "b \<in> set (room_members r h1) \<longleftrightarrow> r \<noteq> [] \<and> b \<noteq> a \<and> cm_room (ch_members h b) = r" for b r
    using inv room by (auto simp: rm rest_def hub_inv_def)
  have ok: "member_ok (ch_members (set_room a [] h1) b)" for b
    using inv by (simp add: set_room_def h1_def hub_inv_def)
  have ne: "room_members r h1 \<noteq> []" if "r \<in> fst ` set (ch_rooms h1)" for r
    using that inv unfolding keys by (auto simp: rm hub_inv_def split: if_splits)
  have dist: "distinct (room_members r h1)" for r using inv by (simp add: rm rest_def hub_inv_def)
  have eq: "cm_room (ch_members h1 b) = cm_room (ch_members h b)" for b by (simp add: h1_def)
  show ?thesis unfolding hub_inv_def using ok d dist ne mem by (auto simp: eq)
qed

lemma leave_inv: "hub_inv h \<Longrightarrow> hub_inv (leaveLocked a h) \<and> cm_room (ch_members (leaveLocked a h) a) = []"
  using leave_room [of h a "cm_room (ch_members h a)"] send_inv by (auto simp: leaveLocked_def Let_def)

lemma join_inv:
  assumes inv: "hub_inv h" and room: "room \<noteq> []"
  shows "hub_inv (join_hub a room h)"
proof -
  define g where "g = leaveLocked a h"
  have g: "hub_inv g" "cm_room (ch_members g a) = []" using leave_inv [OF inv, of a] by (simp_all add: g_def)
  define ms where "ms = filter (\<lambda>b. b \<noteq> a) (room_members room g) @ [a]"
  define h1 where "h1 = g\<lparr>ch_rooms := AList.update room ms (ch_rooms g)\<rparr>"
  have rm: "room_members r h1 = (if r = room then ms else room_members r g)" for r
    by (simp add: h1_def room_members_update room_members_def [of r g])
  have keys: "fst ` set (ch_rooms h1) = insert room (fst ` set (ch_rooms g))" by (simp add: h1_def keys_update)
  have d: "distinct (map fst (ch_rooms h1))" using g by (simp add: h1_def hub_inv_def distinct_update)
  have mem: "b \<in> set (room_members r h1) \<longleftrightarrow> r \<noteq> [] \<and> (if b = a then r = room else cm_room (ch_members g b) = r)" for b r
    using g room by (auto simp: rm ms_def hub_inv_def)
  have ok: "member_ok (ch_members (set_room a room h1) b)" for b using g by (simp add: set_room_def h1_def hub_inv_def)
  have ne: "room_members r h1 \<noteq> []" if "r \<in> fst ` set (ch_rooms h1)" for r
    using that g unfolding keys by (auto simp: rm ms_def hub_inv_def)
  have dist: "distinct (room_members r h1)" for r using g by (simp add: rm ms_def hub_inv_def)
  have eq: "cm_room (ch_members h1 b) = cm_room (ch_members g b)" for b by (simp add: h1_def)
  have "hub_inv (set_room a room h1)" unfolding hub_inv_def using ok d dist ne mem by (auto simp: eq)
  then show ?thesis using send_inv by (simp add: join_hub_def Let_def g_def [symmetric] ms_def [symmetric] h1_def [symmetric])
qed

lemma receive_inv: "hub_inv h \<Longrightarrow> hub_inv (receive a h)"
proof -
  assume inv: "hub_inv h"
  have "member_ok (m\<lparr>cm_out := tl (cm_out m)\<rparr>)" if "member_ok m" for m
    using that by (cases "cm_out m") (auto simp: member_ok_def)
  then show ?thesis using inv by (auto simp: hub_inv_def receive_def)
qed

text \<open>
  The sessions' use of the hub, in any order: a new member at an address that is in no room, a
  member joining a named room, leaving, saying something or printing a line.
\<close>

inductive chat_step :: "chatHub \<Rightarrow> chatHub \<Rightarrow> bool" where
  new: "cm_room (ch_members h a) = [] \<Longrightarrow>
    chat_step h (h\<lparr>ch_members := (ch_members h)(a := newChatMember userID handle blk)\<rparr>)"
| join: "room \<noteq> [] \<Longrightarrow> chat_step h (join_hub a room h)"
| leave: "chat_step h (leave a h)"
| say: "chat_step h (say a t h)"
| receive: "chat_step h (receive a h)"

inductive chat_reach :: "chatHub \<Rightarrow> bool" where
  start: "chat_reach \<lparr>ch_members = (\<lambda>_. newChatMember 0 [] (\<lambda>_. False)), ch_rooms = []\<rparr>"
| step: "chat_reach h \<Longrightarrow> chat_step h h' \<Longrightarrow> chat_reach h'"

lemma chat_step_inv: "chat_step h h' \<Longrightarrow> hub_inv h \<Longrightarrow> hub_inv h'"
proof (induction rule: chat_step.induct)
  case (new h a userID handle blk)
  have "member_ok (newChatMember userID handle blk)" by (simp add: newChatMember_def member_ok_def)
  then show ?case using new by (auto simp: hub_inv_def) (auto simp: newChatMember_def)
qed (auto simp: join_inv leave_def leave_inv say_def Let_def send_inv receive_inv)

lemma chat_reach_inv: "chat_reach h \<Longrightarrow> hub_inv h"
proof (induction rule: chat_reach.induct)
  case start
  show ?case by (auto simp: hub_inv_def member_ok_def newChatMember_def room_members_def)
qed (rule chat_step_inv)

lemma say_out:
  assumes "hub_inv h" and l: "l = \<lparr>ln_from = cm_userID (ch_members h a), ln_text = t\<rparr>"
  shows "cm_out (ch_members (say a t h) b) = cm_out (ch_members h b) @
    (if cm_room (ch_members h a) \<noteq> [] \<and> cm_room (ch_members h b) = cm_room (ch_members h a) \<and> accepts l (ch_members h b)
     then [l] else [])"
  using assms by (auto simp: say_def sendLocked_def Let_def hub_inv_def)

text \<open>
  Claim C18. The teleconference keeps its promises in every state it can reach. A member is in
  one room at a time and the rooms list exactly their members; no empty room is kept. No line
  from somebody a member blocked is ever waiting for that member, nor more than sixty-four lines.
  And what is said reaches precisely the members of the speaker's room, the speaker included,
  that do not block the speaker and have room in their queue; everybody else's queue is as before.
\<close>

theorem chat_safe:
  assumes reach: "chat_reach h"
  shows "(\<forall>a r. a \<in> set (room_members r h) \<longleftrightarrow> r \<noteq> [] \<and> cm_room (ch_members h a) = r) \<and>
    (\<forall>r \<in> fst ` set (ch_rooms h). room_members r h \<noteq> []) \<and>
    (\<forall>a. length (cm_out (ch_members h a)) \<le> chatBacklog \<and>
       list_all (\<lambda>l. ln_from l = chatSystemActor \<or> \<not> cm_blocked (ch_members h a) (ln_from l)) (cm_out (ch_members h a))) \<and>
    (\<forall>a b t. let l = \<lparr>ln_from = cm_userID (ch_members h a), ln_text = t\<rparr>;
         m = ch_members h b; room = cm_room (ch_members h a) in
       cm_out (ch_members (say a t h) b) = cm_out m @
         (if room \<noteq> [] \<and> cm_room m = room \<and> (ln_from l = chatSystemActor \<or> \<not> cm_blocked m (ln_from l)) \<and>
             length (cm_out m) < chatBacklog then [l] else []))"
proof -
  have inv: "hub_inv h" using reach by (rule chat_reach_inv)
  show ?thesis using say_out [OF inv refl] inv unfolding hub_inv_def member_ok_def accepts_def Let_def by auto
qed

definition demo_hub :: chatHub where
  "demo_hub = \<lparr>ch_members = (\<lambda>_. newChatMember 0 [] (\<lambda>_. False)), ch_rooms = []\<rparr>"

theorem chat_safe_witness:
  "\<exists>h. chat_reach h \<and> set (room_members ''main'' h) = {7}"
proof -
  let ?h = "join_hub 7 ''main'' demo_hub"
  have r: "chat_reach ?h"
    using chat_reach.step [OF chat_reach.start chat_step.join [of "''main''" _ 7]] by (simp add: demo_hub_def)
  have "cm_room (ch_members ?h a) = (if a = 7 then ''main'' else [])" for a
    by (simp add: join_hub_def leaveLocked_def demo_hub_def newChatMember_def Let_def)
  with chat_safe [OF r] have "set (room_members ''main'' ?h) = {7}" by (auto split: if_splits)
  with r show ?thesis by blast
qed

end
