(* ===== verification/Term_Art.thy ===== *)
theory Term_Art
  imports Term_Charset
begin

text \<open>
  \<open>internal/term/art.go\<close>: ANSI art files prepared for a terminal. \<open>ConvertANSIArt\<close>'s loop runs over
  the bytes left with the byte before them; \<open>None\<close> of \<open>csiEnd\<close> is its -1.
\<close>

section \<open>Conversion (art.go)\<close>

definition dosEOF :: char where "dosEOF = CHR 0x1A"
definition maxCursorShift :: int where "maxCursorShift = 255"
definition ansiReset :: string where "ansiReset = CHR 0x1B # ''[0m''"

definition StripSAUCE :: "string \<Rightarrow> string" where
  "StripSAUCE data = takeWhile (\<lambda>b. b \<noteq> dosEOF) data"

text \<open>The parameters of a control sequence with its final byte, and what follows it.\<close>

definition csi_final :: "char \<Rightarrow> bool" where
  "csi_final b \<longleftrightarrow> 0x40 \<le> byte_val b \<and> byte_val b \<le> 0x7E"

definition csiEnd :: "string \<Rightarrow> (string \<times> string) option" where
  "csiEnd data = (case dropWhile (\<lambda>b. \<not> csi_final b) data of
       [] \<Rightarrow> None
     | f # rest \<Rightarrow> Some (takeWhile (\<lambda>b. \<not> csi_final b) data @ [f], rest))"

text \<open>\<open>body\<close> is the sequence without its \<open>ESC [\<close>.\<close>

definition appendCSI :: "string \<Rightarrow> bool \<Rightarrow> string" where
  "appendCSI body color =
     (if color then CHR 0x1B # CHR ''['' # body
      else if last body \<noteq> CHR ''C'' then []
      else let params = butlast body;
               n = (if params = [] then 1 else case atoi params of Some v \<Rightarrow> v | None \<Rightarrow> 1)
           in replicate (nat (min (max n 0) maxCursorShift)) CHR '' '')"

definition art_byte :: "term_charset \<Rightarrow> char option \<Rightarrow> char \<Rightarrow> string" where
  "art_byte cs prev b =
     (if b = CHR 0x0A then (if prev = Some CHR 0x0D then [] else [CHR 0x0D]) @ [b]
      else if b = CHR 0x0D \<or> b = CHR 0x09 then [b]
      else if byte_val b < 0x20 \<or> byte_val b = 0x7F then []
      else if cs = TermCP437 then [b]
      else if cs = TermUTF8 then encode_rune (DecodeCP437 b)
      else term_Encode TermASCII (encode_rune (DecodeCP437 b)))"

lemma csiEnd_rest: "csiEnd data = Some (body, rest) \<Longrightarrow> length rest < length data"
proof -
  assume a: "csiEnd data = Some (body, rest)"
  have "length (dropWhile (\<lambda>b. \<not> csi_final b) data) \<le> length data" by (rule length_dropWhile_le)
  with a show ?thesis by (auto simp: csiEnd_def split: list.splits)
qed

function art_loop :: "term_charset \<Rightarrow> bool \<Rightarrow> char option \<Rightarrow> string \<Rightarrow> string" where
  "art_loop cs color prev data = (case data of
       [] \<Rightarrow> []
     | b # s \<Rightarrow>
         if b = CHR 0x1B \<and> s \<noteq> [] \<and> hd s = CHR ''[''
         then (case csiEnd (tl s) of
                 None \<Rightarrow> []
               | Some (body, rest) \<Rightarrow> appendCSI body color @ art_loop cs color (Some (last body)) rest)
         else art_byte cs prev b @ art_loop cs color (Some b) s)"
  by pat_completeness auto
termination
  by (relation "measure (\<lambda>(cs, color, prev, data). length data)") (auto dest!: csiEnd_rest)

declare art_loop.simps [simp del]

definition ConvertANSIArt :: "string \<Rightarrow> term_charset \<Rightarrow> bool \<Rightarrow> string" where
  "ConvertANSIArt data cs color = art_loop cs color None (StripSAUCE data) @ (if color then ansiReset else [])"

section \<open>Terminals without colour get no escapes\<close>

definition art_safe :: "char \<Rightarrow> bool" where
  "art_safe b \<longleftrightarrow> (0x20 \<le> byte_val b \<and> byte_val b \<noteq> 0x7F) \<or> b = CHR 0x0A \<or> b = CHR 0x0D \<or> b = CHR 0x09"

lemma encode_high: "valid_rune r \<Longrightarrow> 0x80 \<le> r \<Longrightarrow> list_all (\<lambda>b. 0x80 \<le> byte_val b) (encode_rune r)"
proof -
  assume r: "valid_rune r" "0x80 \<le> r"
  then have "r \<le> 0x10FFFF" by (auto simp: valid_rune_def)
  then have "r < 0x800 \<Longrightarrow> 0xC0 + r div 64 < 256" "r < 0x10000 \<Longrightarrow> 0xE0 + r div 4096 < 256" "0xF0 + r div 262144 < 256"
    by auto
  then show ?thesis using r by (auto simp: encode_rune_def encode_valid_def byte_val_byte_of)
qed

lemma DecodeCP437_high: "\<not> is_ascii b \<Longrightarrow> 0x80 \<le> DecodeCP437 b \<and> valid_rune (DecodeCP437 b)"
proof -
  assume a: "\<not> is_ascii b"
  have "byte_val b - 0x80 < 128" using byte_val_lt [of b] by linarith
  then have "byte_val b - 0x80 < length cp437High" by (simp add: cp437_table)
  with a show ?thesis using cp437_valid by (simp add: DecodeCP437_def list_all_length)
qed

lemma art_byte_safe: "list_all art_safe (art_byte cs prev b)"
proof (cases "b = CHR 0x0A \<or> b = CHR 0x0D \<or> b = CHR 0x09 \<or> byte_val b < 0x20 \<or> byte_val b = 0x7F \<or> cs = TermCP437")
  case True
  then show ?thesis by (auto simp: art_byte_def art_safe_def)
next
  case False
  show ?thesis
  proof (cases "is_ascii b")
    case True
    then have "encode_rune (DecodeCP437 b) = [b]" "term_Encode TermASCII [b] = [b]"
      using encode_rune_ascii [OF True] runes_ascii [of "[b]"]
      by (simp_all add: DecodeCP437_def term_Encode_def term_encode_rune_def is_ascii_def)
    with False show ?thesis by (simp add: art_byte_def art_safe_def)
  next
    case na: False
    note d = DecodeCP437_high [OF na]
    have u: "list_all art_safe (encode_rune (DecodeCP437 b))"
      using encode_high [of "DecodeCP437 b"] d by (auto simp: list_all_iff art_safe_def)
    have "term_Encode TermASCII (encode_rune (DecodeCP437 b)) = [fallback (DecodeCP437 b)]"
      using d runes_encode_append [of "DecodeCP437 b" "[]"] by (simp add: term_Encode_def term_encode_rune_def)
    moreover have "art_safe (fallback (DecodeCP437 b))" using fallback_ascii [of "DecodeCP437 b"] by (simp add: art_safe_def)
    ultimately show ?thesis using False u by (simp add: art_byte_def)
  qed
qed

lemma art_loop_safe: "list_all art_safe (art_loop cs False prev data)"
proof (induction cs "False" prev data rule: art_loop.induct)
  case (1 cs prev data)
  have csi: "list_all art_safe (appendCSI body False)" for body
    by (simp add: appendCSI_def Let_def list_all_iff art_safe_def byte_val_def)
  show ?case
    using 1 csi art_byte_safe by (subst art_loop.simps) (auto split: list.split option.split)
qed

text \<open>
  Art is harmless to a terminal without colour: whatever bytes an art file holds, with
  complete, cut off or malformed escape sequences, what is sent has no escape and no control
  byte other than carriage return, line feed and tab, and nothing after the file's DOS end mark.
\<close>

theorem ConvertANSIArt_plain:
  "list_all art_safe (ConvertANSIArt data cs False) \<and>
   ConvertANSIArt (data @ [dosEOF] @ sauce) cs color = ConvertANSIArt data cs color"
proof -
  have "takeWhile (\<lambda>b. b \<noteq> dosEOF) (data @ dosEOF # sauce) = takeWhile (\<lambda>b. b \<noteq> dosEOF) data"
    by (induction data) simp_all
  then show ?thesis by (simp add: ConvertANSIArt_def StripSAUCE_def art_loop_safe)
qed

end
