(* ===== verification/Mailer.thy ===== *)
theory Mailer
  imports Term_Text Go_Time Store_Fido
begin

text \<open>
  \<open>internal/mailer\<close>: the queue in front of an SMTP relay and the message it sends. The buffered
  channel is a list of bounded length; the goroutine that delivers is a state of its own, so that
  callers, the worker, the relay's answers and shutdown interleave freely. \<open>q_calls\<close> and
  \<open>q_log\<close> are what the outside sees: the calls to \<open>Send\<close> with their results, and the messages the
  worker is through with. The relay's side of SMTP is not modelled.
\<close>

section \<open>Queue (queue.go)\<close>

record Email =
  em_To :: string
  em_Subject :: string
  em_Body :: string

datatype mail_queue_error = ErrQueueFull | ErrQueueClosed

definition defaultRetryDelays :: "int list" where
  "defaultRetryDelays = [5 * nanos_per_second, 30 * nanos_per_second]"

text \<open>Where \<open>run\<close> is: at the head of its loop, in the call of \<open>Send\<close>, waiting to try again, or back.\<close>

datatype worker = Receiving | Sending Email nat | Waiting Email nat | Returned

record mail_queue =
  q_ch :: "Email list"
  q_size :: nat
  q_delays :: "int list"
  q_closed :: bool
  q_done :: bool \<comment> \<open>\<open>ctx\<close> is cancelled\<close>
  q_worker :: worker
  q_calls :: "(Email \<times> bool) list"
  q_log :: "(Email \<times> nat \<times> bool) list" \<comment> \<open>message, attempts, whether it was sent\<close>

definition NewQueue :: "nat \<Rightarrow> mail_queue" where
  "NewQueue k = \<lparr>q_ch = [], q_size = k, q_delays = defaultRetryDelays, q_closed = False, q_done = False,
     q_worker = Receiving, q_calls = [], q_log = []\<rparr>"

text \<open>With an unbuffered channel the send succeeds only if the worker is ready to take the message.\<close>

definition Enqueue :: "Email \<Rightarrow> mail_queue \<Rightarrow> (mail_queue_error + unit) \<times> mail_queue" where
  "Enqueue m q =
     (if q_closed q then (Inl ErrQueueClosed, q)
      else if length (q_ch q) < q_size q then (Inr (), q\<lparr>q_ch := q_ch q @ [m]\<rparr>)
      else if q_ch q = [] \<and> q_worker q = Receiving then (Inr (), q\<lparr>q_worker := Sending m 0\<rparr>)
      else (Inl ErrQueueFull, q))"

text \<open>\<open>Close\<close> up to the wait, and what ends the wait early or comes after it.\<close>

definition Close :: "mail_queue \<Rightarrow> mail_queue" where
  "Close q = q\<lparr>q_closed := True\<rparr>"

definition stop :: "mail_queue \<Rightarrow> mail_queue" where
  "stop q = q\<lparr>q_done := True\<rparr>"

text \<open>The head of the loop in \<open>run\<close>: nothing happens while an open channel is empty.\<close>

definition receive_mail :: "mail_queue \<Rightarrow> mail_queue" where
  "receive_mail q = (case q_ch q of
       m # ms \<Rightarrow> q\<lparr>q_ch := ms, q_worker := Sending m 0\<rparr>
     | [] \<Rightarrow> if q_closed q then q\<lparr>q_worker := Returned\<rparr> else q)"

text \<open>One round of the loop in \<open>deliver\<close>; \<open>ok\<close> is what \<open>Send\<close> returns.\<close>

definition attempt_mail :: "bool \<Rightarrow> Email \<Rightarrow> nat \<Rightarrow> mail_queue \<Rightarrow> mail_queue" where
  "attempt_mail ok m n q =
     (let q = q\<lparr>q_calls := q_calls q @ [(m, ok)]\<rparr>
      in if ok then q\<lparr>q_log := q_log q @ [(m, n + 1, True)], q_worker := Receiving\<rparr>
         else if length (q_delays q) \<le> n \<or> q_done q then q\<lparr>q_log := q_log q @ [(m, n + 1, False)], q_worker := Receiving\<rparr>
         else q\<lparr>q_worker := Waiting m n\<rparr>)"

text \<open>One step of the worker; the timer or the cancelled context ends a wait.\<close>

definition run_step :: "bool \<Rightarrow> mail_queue \<Rightarrow> mail_queue" where
  "run_step ok q = (case q_worker q of
       Receiving \<Rightarrow> receive_mail q
     | Sending m n \<Rightarrow> attempt_mail ok m n q
     | Waiting m n \<Rightarrow> q\<lparr>q_worker := Sending m (n + 1)\<rparr>
     | Returned \<Rightarrow> q)"

text \<open>\<open>domainOf\<close>: what the log shows of an address.\<close>

definition domainOf :: "string \<Rightarrow> string" where
  "domainOf addr = (if CHR ''@'' \<in> set addr then rev (takeWhile (\<lambda>c. c \<noteq> CHR ''@'') (rev addr)) else ''?'')"

section \<open>Every interleaving\<close>

text \<open>The list holds the messages that \<open>Enqueue\<close> accepted, in order.\<close>

inductive queue_run :: "nat \<Rightarrow> mail_queue \<Rightarrow> Email list \<Rightarrow> bool" for k :: nat where
  start: "queue_run k (NewQueue k) []"
| accept: "queue_run k q ms \<Longrightarrow> Enqueue m q = (Inr (), q') \<Longrightarrow> queue_run k q' (ms @ [m])"
| refuse: "queue_run k q ms \<Longrightarrow> Enqueue m q = (Inl e, q') \<Longrightarrow> queue_run k q' ms"
| close: "queue_run k q ms \<Longrightarrow> queue_run k (Close q) ms"
| stop: "queue_run k q ms \<Longrightarrow> queue_run k (stop q) ms"
| run: "queue_run k q ms \<Longrightarrow> queue_run k (run_step ok q) ms"

definition in_hand :: "mail_queue \<Rightarrow> Email list" where
  "in_hand q = (case q_worker q of Sending m n \<Rightarrow> [m] | Waiting m n \<Rightarrow> [m] | _ \<Rightarrow> [])"

text \<open>The calls that delivering a message makes: failures, and a success if it was sent.\<close>

definition attempts :: "Email \<times> nat \<times> bool \<Rightarrow> (Email \<times> bool) list" where
  "attempts e = (case e of (m, n, ok) \<Rightarrow> if ok then replicate (n - 1) (m, False) @ [(m, True)] else replicate n (m, False))"

definition tried :: "mail_queue \<Rightarrow> (Email \<times> bool) list" where
  "tried q = (case q_worker q of Sending m n \<Rightarrow> replicate n (m, False) | Waiting m n \<Rightarrow> replicate (n + 1) (m, False) | _ \<Rightarrow> [])"

definition queue_inv :: "nat \<Rightarrow> mail_queue \<Rightarrow> Email list \<Rightarrow> bool" where
  "queue_inv k q ms \<longleftrightarrow>
     q_size q = k \<and> q_delays q = defaultRetryDelays \<and> length (q_ch q) \<le> k \<and>
     ms = map fst (q_log q) @ in_hand q @ q_ch q \<and>
     q_calls q = concat (map attempts (q_log q)) @ tried q \<and>
     (\<forall>(m, n, ok) \<in> set (q_log q). 1 \<le> n \<and> n \<le> 3 \<and> (\<not> ok \<and> n < 3 \<longrightarrow> q_done q)) \<and>
     (case q_worker q of Sending m n \<Rightarrow> n \<le> 2 | Waiting m n \<Rightarrow> n \<le> 1 | Receiving \<Rightarrow> True | Returned \<Rightarrow> q_closed q \<and> q_ch q = [])"

lemmas queue_ops = queue_inv_def Enqueue_def Close_def stop_def in_hand_def tried_def

lemma attempt_inv:
  assumes inv: "queue_inv k q ms" and w: "q_worker q = Sending m n"
  shows "queue_inv k (attempt_mail ok m n q) ms"
proof -
  have n: "n \<le> 2" "length (q_delays q) = 2" using inv w by (simp_all add: queue_inv_def defaultRetryDelays_def)
  consider "ok" | "\<not> ok" "2 \<le> n \<or> q_done q" | "\<not> ok" "n < 2" "\<not> q_done q" by linarith
  then show ?thesis
  proof cases
    case 1
    with inv w n show ?thesis
      by (simp add: queue_inv_def in_hand_def tried_def attempt_mail_def attempts_def)
  next
    case 2
    have "attempts (m, n + 1, False) = replicate n (m, False) @ [(m, False)]"
      by (simp add: attempts_def replicate_append_same)
    with 2 inv w n show ?thesis
      by (auto simp: queue_inv_def in_hand_def tried_def attempt_mail_def)
  next
    case 3
    with inv w n show ?thesis
      by (simp add: queue_inv_def in_hand_def tried_def attempt_mail_def replicate_append_same)
  qed
qed

lemma queue_inv_run:
  assumes inv: "queue_inv k q ms"
  shows "queue_inv k (run_step ok q) ms"
proof (cases "q_worker q")
  case (Sending m n)
  with attempt_inv [OF inv] show ?thesis by (simp add: run_step_def)
next
  case Receiving
  with inv show ?thesis
    by (auto simp: queue_inv_def in_hand_def tried_def run_step_def receive_mail_def split: list.splits)
qed (use inv in \<open>auto simp: queue_inv_def in_hand_def tried_def run_step_def\<close>)

lemma queue_run_inv: "queue_run k q ms \<Longrightarrow> queue_inv k q ms"
proof (induction rule: queue_run.induct)
  case start
  show ?case by (simp add: queue_ops NewQueue_def)
next
  case (accept q ms m q')
  then show ?case by (auto simp: queue_ops split: if_splits worker.splits)
next
  case (refuse q ms m e q')
  then show ?case by (auto simp: Enqueue_def split: if_splits)
next
  case (close q ms)
  then show ?case by (auto simp: queue_ops split: worker.splits)
next
  case (stop q ms)
  then show ?case by (auto simp: queue_ops split: worker.splits)
next
  case (run q ms ok)
  then show ?case by (intro queue_inv_run)
qed

text \<open>
  Claim C33. No mail is lost, duplicated or reordered, and the relay is not hammered. However callers,
  the worker, the relay's answers and shutdown interleave, the messages accepted so far are, in this
  order, those the worker is through with, the one in hand and those waiting, and no more wait than
  the queue holds. What the relay was asked to send is exactly the attempts for those messages:
  each was tried again only after a failure, at most three times, and counted as sent just when the
  last attempt succeeded; it was given up after fewer only because the queue was being stopped.
\<close>

theorem queue_in_order:
  assumes "queue_run k q ms"
  shows "ms = map fst (q_log q) @ in_hand q @ q_ch q \<and> length (q_ch q) \<le> k \<and>
    q_calls q = concat (map attempts (q_log q)) @ tried q \<and> length (tried q) \<le> 2 \<and>
    list_all (\<lambda>(m, n, ok). 1 \<le> n \<and> n \<le> 3 \<and> (\<not> ok \<and> n < 3 \<longrightarrow> q_done q)) (q_log q)"
  using queue_run_inv [OF assms]
  by (auto simp: queue_inv_def tried_def list_all_iff split: worker.splits)

definition demo_email :: Email where
  "demo_email = \<lparr>em_To = ''a@b'', em_Subject = ''hi'', em_Body = ''x''\<rparr>"

theorem queue_in_order_witness:
  "let q = run_step True (run_step False (run_step False (snd (Enqueue demo_email (NewQueue 2))))) in
   q_worker q = Sending demo_email 1 \<and> [demo_email] = map fst (q_log q) @ in_hand q @ q_ch q \<and> q_calls q = [(demo_email, False)]"
proof -
  let ?q = "run_step True (run_step False (run_step False (snd (Enqueue demo_email (NewQueue 2)))))"
  have "Enqueue demo_email (NewQueue 2) = (Inr (), snd (Enqueue demo_email (NewQueue 2)))"
    by (simp add: Enqueue_def NewQueue_def)
  from queue_run.accept [OF queue_run.start this] have "queue_run 2 (snd (Enqueue demo_email (NewQueue 2))) [demo_email]" by simp
  then have "queue_run 2 ?q [demo_email]" by (intro queue_run.run)
  from queue_in_order [OF this] have "[demo_email] = map fst (q_log ?q) @ in_hand ?q @ q_ch ?q" by simp
  moreover have "q_worker ?q = Sending demo_email 1 \<and> q_calls ?q = [(demo_email, False)]"
    by (simp add: run_step_def receive_mail_def attempt_mail_def NewQueue_def Enqueue_def defaultRetryDelays_def)
  ultimately show ?thesis by (simp add: Let_def)
qed

section \<open>Shutting down\<close>

text \<open>How many steps the worker may still need: six for a waiting message, and one to return.\<close>

definition work :: "mail_queue \<Rightarrow> nat" where
  "work q = 6 * length (q_ch q) + (case q_worker q of Receiving \<Rightarrow> 1 | Sending m n \<Rightarrow> 6 - 2 * n | Waiting m n \<Rightarrow> 5 - 2 * n | Returned \<Rightarrow> 0)"

lemma run_step_works:
  assumes inv: "queue_inv k q ms" and closed: "q_closed q"
  shows "work (run_step ok q) < work q \<or> q_worker q = Returned \<and> run_step ok q = q"
    and "q_closed (run_step ok q)"
proof -
  have d: "length (q_delays q) = 2" using inv by (simp add: queue_inv_def defaultRetryDelays_def)
  have w: "case q_worker q of Sending m n \<Rightarrow> n \<le> 2 | Waiting m n \<Rightarrow> n \<le> 1 | _ \<Rightarrow> True"
    using inv by (auto simp: queue_inv_def split: worker.splits)
  show "work (run_step ok q) < work q \<or> q_worker q = Returned \<and> run_step ok q = q"
    using closed d w
    by (auto simp: work_def run_step_def receive_mail_def attempt_mail_def Let_def split: worker.splits list.splits)
  show "q_closed (run_step ok q)" using closed
    by (auto simp: run_step_def receive_mail_def attempt_mail_def Let_def split: worker.splits list.splits)
qed

lemma drain:
  "queue_inv k q ms \<Longrightarrow> q_closed q \<Longrightarrow> work q \<le> length oks \<Longrightarrow>
   q_worker (fold run_step oks q) = Returned \<and> queue_inv k (fold run_step oks q) ms"
proof (induction oks arbitrary: q)
  case Nil
  then show ?case by (auto simp: work_def queue_inv_def split: worker.splits)
next
  case (Cons ok oks)
  note inv = queue_inv_run [OF Cons.prems(1), of ok] and step = run_step_works [OF Cons.prems(1,2), of ok]
  show ?case
  proof (cases "work (run_step ok q) < work q")
    case True
    then show ?thesis using Cons inv step by simp
  next
    case False
    then have "q_worker q = Returned" "run_step ok q = q" using step by auto
    moreover have "fold run_step os q = q" if "q_worker q = Returned" for os
      using that by (induction os) (simp_all add: run_step_def)
    ultimately show ?thesis using Cons.prems by simp
  qed
qed

text \<open>
  Claim C34. Closing the queue ends the worker, with everything dealt with. Once \<open>Close\<close> has been
  called nothing more is accepted, and whatever the relay answers, after at most six steps per
  waiting message (and seven more) \<open>run\<close> has returned, the channel is empty, and every message ever
  accepted has its entry in the log, in order: sent, or given up for the stated reasons.
\<close>

theorem queue_close_drains:
  assumes run: "queue_run k q ms" and closed: "q_closed q" and enough: "6 * length (q_ch q) + 7 \<le> length oks"
  shows "fst (Enqueue m q) = Inl ErrQueueClosed \<and>
    (let q' = fold run_step oks q in q_worker q' = Returned \<and> q_ch q' = [] \<and> map fst (q_log q') = ms)"
proof -
  have "work q \<le> length oks" using enough by (auto simp: work_def split: worker.splits)
  from drain [OF queue_run_inv [OF run] closed this] show ?thesis
    using closed by (auto simp: Enqueue_def queue_inv_def in_hand_def Let_def)
qed

theorem queue_close_drains_witness:
  "let q = Close (snd (Enqueue demo_email (NewQueue 2))); q' = fold run_step (replicate 13 False) q in
   q_worker q' = Returned \<and> map fst (q_log q') = [demo_email]"
proof -
  have "Enqueue demo_email (NewQueue 2) = (Inr (), snd (Enqueue demo_email (NewQueue 2)))"
    by (simp add: Enqueue_def NewQueue_def)
  from queue_run.close [OF queue_run.accept [OF queue_run.start this]]
  have "queue_run 2 (Close (snd (Enqueue demo_email (NewQueue 2)))) [demo_email]" by simp
  from queue_close_drains [OF this, of "replicate 13 False"] show ?thesis
    by (simp add: Let_def Close_def Enqueue_def NewQueue_def)
qed

section \<open>Messages (mailer.go)\<close>

definition mail_crlf :: string where "mail_crlf = [CHR 0x0D, CHR 0x0A]"

definition one_line :: "string \<Rightarrow> bool" where
  "one_line s \<longleftrightarrow> CHR 0x0D \<notin> set s \<and> CHR 0x0A \<notin> set s"

text \<open>\<open>mime.QEncoding.Encode("utf-8", s)\<close>: text that needs it becomes encoded words of at most 75
  characters that do not split a character.\<close>

definition q_plain :: "char \<Rightarrow> bool" where
  "q_plain c \<longleftrightarrow> 32 \<le> byte_val c \<and> byte_val c \<le> 126 \<and> c \<noteq> CHR ''='' \<and> c \<noteq> CHR ''?'' \<and> c \<noteq> CHR ''_''"

definition hex_upper_digit :: "nat \<Rightarrow> char" where
  "hex_upper_digit d = byte_of (if d < 10 then 48 + d else 55 + d)"

definition q_byte :: "char \<Rightarrow> string" where
  "q_byte c = (if c = CHR '' '' then ''_'' else if q_plain c then [c]
     else [CHR ''='', hex_upper_digit (byte_val c div 16), hex_upper_digit (byte_val c mod 16)])"

function q_words :: "nat \<Rightarrow> string \<Rightarrow> string" where
  "q_words cur [] = []"
| "q_words cur (c # s) =
     (let n = (if q_plain c then 1 else snd (decode_rune (c # s)));
          k = (if q_plain c then 1 else 3 * n);
          piece = concat (map q_byte (take n (c # s)))
      in if 63 < cur + k then ''?= =?utf-8?q?'' @ piece @ q_words k (drop n (c # s))
         else piece @ q_words (cur + k) (drop n (c # s)))"
  by pat_completeness auto
termination
  by (relation "measure (\<lambda>(cur, s). length s)")
     (use decode_rune_width(2) in \<open>auto simp: Let_def split: if_splits\<close>)

definition QEncode :: "string \<Rightarrow> string" where
  "QEncode s =
     (if list_all (\<lambda>c. 32 \<le> byte_val c \<and> byte_val c \<le> 126 \<or> c = CHR 0x09) s then s
      else ''=?utf-8?q?'' @ q_words 0 s @ ''?='')"

definition day_names :: "string list" where
  "day_names = [''Thu'', ''Fri'', ''Sat'', ''Sun'', ''Mon'', ''Tue'', ''Wed'']"

text \<open>\<open>Format(time.RFC1123Z)\<close>.\<close>

definition rfc1123z :: "go_time \<Rightarrow> string" where
  "rfc1123z t =
     (let w = wall t; y = itoa (wYear w); zone = abs (snd t) div 60
      in day_names ! nat ((fst t div nanos_per_second + snd t) div 86400 mod 7) @ '', '' @ pad2 (wDay w) @ '' '' @
         month_name (wMonth w) @ '' '' @ replicate (4 - length y) CHR ''0'' @ y @ '' '' @
         pad2 (wHour w) @ '':'' @ pad2 (wMinute w) @ '':'' @ pad2 (wSecond w) @ '' '' @
         (if snd t \<le> - 60 then ''-'' else ''+'') @ pad2 (zone div 60) @ pad2 (zone mod 60))"

text \<open>\<open>address\<close> prints a name and an address (\<open>mail.Address.String\<close>), \<open>qp\<close> is the quoted-printable writer,
  \<open>random\<close> the twelve random bytes of the message id.\<close>

record mail_env =
  me_address :: "string \<Rightarrow> string \<Rightarrow> string"
  me_qp :: "string \<Rightarrow> string"

definition mail_domain :: "string \<Rightarrow> string" where
  "mail_domain from = rev (takeWhile (\<lambda>c. c \<noteq> CHR ''@'') (rev from))"

definition mail_headers :: "mail_env \<Rightarrow> string \<Rightarrow> string \<Rightarrow> Email \<Rightarrow> string \<Rightarrow> go_time \<Rightarrow> string list" where
  "mail_headers ME from fromName m random now =
     [''From: '' @ me_address ME (StripControl fromName) from,
      ''To: '' @ me_address ME [] (em_To m),
      ''Subject: '' @ QEncode (StripControl (em_Subject m)),
      ''Date: '' @ rfc1123z now,
      ''Message-ID: <'' @ hex_encode random @ ''@'' @ mail_domain from @ ''>'',
      ''MIME-Version: 1.0'',
      ''Content-Type: text/plain; charset=utf-8'',
      ''Content-Transfer-Encoding: quoted-printable'',
      ''Auto-Submitted: auto-generated'']"

definition buildMessage :: "mail_env \<Rightarrow> string \<Rightarrow> string \<Rightarrow> Email \<Rightarrow> string \<Rightarrow> go_time \<Rightarrow> string" where
  "buildMessage ME from fromName m random now =
     concat (map (\<lambda>h. h @ mail_crlf) (mail_headers ME from fromName m random now)) @ mail_crlf @
     me_qp ME (replace_all [CHR 0x0A] mail_crlf (replace_all mail_crlf [CHR 0x0A] (em_Body m)))"

text \<open>\<open>parse\<close> is whether \<open>mail.ParseAddress\<close> accepts an address; \<open>relay\<close> is the conversation with the
  relay (\<open>dial\<close> and \<open>transact\<close>): whether it took the message.\<close>

record SMTPConfig =
  smtp_Host :: string
  smtp_Port :: int
  smtp_From :: string
  smtp_FromName :: string

definition NewSMTPSender :: "(string \<Rightarrow> bool) \<Rightarrow> SMTPConfig \<Rightarrow> bool" where
  "NewSMTPSender parse cfg \<longleftrightarrow> smtp_Host cfg \<noteq> [] \<and> 0 < smtp_Port cfg \<and> parse (smtp_From cfg)"

definition Send ::
    "(string \<Rightarrow> bool) \<Rightarrow> mail_env \<Rightarrow> SMTPConfig \<Rightarrow> (string \<Rightarrow> string \<Rightarrow> bool) \<Rightarrow> Email \<Rightarrow> string \<Rightarrow> go_time \<Rightarrow> bool" where
  "Send parse ME cfg relay m random now \<longleftrightarrow>
     parse (em_To m) \<and> one_line (em_To m) \<and>
     relay (em_To m) (buildMessage ME (smtp_From cfg) (smtp_FromName cfg) m random now)"

definition ascii_line :: "string \<Rightarrow> bool" where
  "ascii_line s \<longleftrightarrow> list_all (\<lambda>c. 32 \<le> byte_val c \<and> byte_val c \<le> 126) s"

lemma ascii_line_simps [simp]:
  "ascii_line []" "ascii_line (c # s) \<longleftrightarrow> 32 \<le> byte_val c \<and> byte_val c \<le> 126 \<and> ascii_line s"
  "ascii_line (s @ t) \<longleftrightarrow> ascii_line s \<and> ascii_line t"
  by (auto simp: ascii_line_def)

lemma ascii_one_line: "ascii_line s \<Longrightarrow> one_line s"
  by (auto simp: ascii_line_def one_line_def list_all_iff byte_val_def)

lemma one_line_append [simp]: "one_line (s @ t) \<longleftrightarrow> one_line s \<and> one_line t"
  by (auto simp: one_line_def)

lemma ascii_hex: "d < 16 \<Longrightarrow> ascii_line [hex_upper_digit d] \<and> ascii_line [hex_digit d]"
  by (simp add: hex_upper_digit_def hex_digit_def byte_val_byte_of)

lemma byte_nibbles: "byte_val c div 16 < 16"
  using byte_val_lt [of c] by (simp add: less_mult_imp_div_less)

lemma ascii_q_byte: "ascii_line (q_byte c)"
  using ascii_hex [OF byte_nibbles, of c] ascii_hex [of "byte_val c mod 16"]
  by (simp add: q_byte_def q_plain_def byte_val_def)

lemma ascii_concat: "(\<And>c. ascii_line (f c)) \<Longrightarrow> ascii_line (concat (map f s))"
  by (induction s) auto

lemma ascii_q_words: "ascii_line (q_words cur s)"
  by (induction cur s rule: q_words.induct)
     (auto simp: Let_def ascii_concat ascii_q_byte byte_val_def)

lemma one_line_QEncode: "one_line (QEncode s)"
proof (cases "list_all (\<lambda>c. 32 \<le> byte_val c \<and> byte_val c \<le> 126 \<or> c = CHR 0x09) s")
  case True
  then show ?thesis by (auto simp: QEncode_def one_line_def list_all_iff byte_val_def)
next
  case False
  then show ?thesis using ascii_q_words [of 0 s] by (intro ascii_one_line) (simp add: QEncode_def byte_val_def)
qed

lemma ascii_digits: "list_all is_digit s \<Longrightarrow> ascii_line s"
  by (auto simp: ascii_line_def is_digit_def list_all_iff byte_val_def)

lemma ascii_pad2: "ascii_line (pad2 n)"
  using is_digit_digit by (intro ascii_digits) (simp add: pad2_def)

lemma ascii_itoa: "ascii_line (itoa i)"
proof -
  have "is_digit c \<or> c = CHR ''-'' \<Longrightarrow> 32 \<le> byte_val c \<and> byte_val c \<le> 126" for c
    by (auto simp: is_digit_def byte_val_def)
  then show ?thesis using itoa_chars [of _ i] by (auto simp: ascii_line_def list_all_iff)
qed

lemma ascii_nth: "list_all ascii_line ss \<Longrightarrow> i < length ss \<Longrightarrow> ascii_line (ss ! i)"
  by (simp add: list_all_length)

lemma ascii_rfc1123z: "ascii_line (rfc1123z t)"
proof -
  have m: "1 \<le> wMonth (wall t)" "wMonth (wall t) \<le> 12" using wall_correct(1) [of t] by (simp_all add: wall_ok_def)
  have "ascii_line (month_name (wMonth (wall t)))"
    unfolding month_name_def using m by (intro ascii_nth) (simp_all add: month_names_def byte_val_def)
  moreover have "ascii_line (day_names ! nat (n mod 7))" for n :: int
    by (intro ascii_nth) (simp_all add: day_names_def byte_val_def nat_less_iff)
  moreover have "ascii_line (replicate k CHR ''0'')" for k by (simp add: ascii_line_def list_all_iff byte_val_def)
  ultimately show ?thesis by (simp add: rfc1123z_def Let_def ascii_pad2 ascii_itoa byte_val_def)
qed

lemma ascii_hex_encode: "ascii_line (hex_encode s)"
proof -
  have "ascii_line [hex_digit (byte_val c div 16), hex_digit (byte_val c mod 16)]" for c
    using ascii_hex [OF byte_nibbles, of c] ascii_hex [of "byte_val c mod 16"] by simp
  then show ?thesis by (simp only: hex_encode_def ascii_concat)
qed

lemma one_line_domain: "one_line from \<Longrightarrow> one_line (mail_domain from)"
  by (auto simp: one_line_def mail_domain_def dest: set_takeWhileD)

text \<open>
  What a caller typed adds no headers and no lines to them. For addresses without line
  breaks (checked by \<open>Send\<close> and \<open>NewSMTPSender\<close>), if the library prints such an address and a name
  without control characters on one line, then every subject, name and body gives a message
  of exactly nine header lines that hold no line break, one empty line, and the encoded body.
\<close>

theorem buildMessage_headers:
  assumes lib: "\<And>name a. one_line a \<Longrightarrow> list_all printable (runes name) \<Longrightarrow> one_line (me_address ME name a)"
    and addr: "one_line from" "one_line (em_To m)"
  shows "let hs = mail_headers ME from fromName m random now
     in length hs = 9 \<and> list_all one_line hs \<and>
       (\<exists>body. buildMessage ME from fromName m random now = concat (map (\<lambda>h. h @ mail_crlf) hs) @ mail_crlf @ me_qp ME body)"
proof -
  have "one_line (me_address ME (StripControl fromName) from)" "one_line (me_address ME [] (em_To m))"
    using lib addr by (simp_all add: list_all_iff)
  then have "list_all one_line (mail_headers ME from fromName m random now)"
    using one_line_QEncode [of "StripControl (em_Subject m)"] ascii_rfc1123z [of now, THEN ascii_one_line]
      ascii_hex_encode [of random, THEN ascii_one_line] one_line_domain [OF addr(1)]
    by (simp add: mail_headers_def) (simp add: one_line_def)
  then show ?thesis by (auto simp: Let_def mail_headers_def buildMessage_def)
qed

theorem buildMessage_headers_witness:
  "list_all one_line (mail_headers \<lparr>me_address = (\<lambda>name a. ''<'' @ a @ ''>''), me_qp = id\<rparr> ''bbs@b'' ''Boar''
     (demo_email\<lparr>em_Subject := ''x'' @ mail_crlf @ ''Bcc: y''\<rparr>) ''r'' (0, 0))"
proof -
  let ?ME = "\<lparr>me_address = (\<lambda>name a. ''<'' @ a @ ''>''), me_qp = id\<rparr>"
  have "one_line (me_address ?ME name a)" if "one_line a" for name a using that by (simp add: one_line_def)
  from buildMessage_headers [of ?ME "''bbs@b''" "demo_email\<lparr>em_Subject := ''x'' @ mail_crlf @ ''Bcc: y''\<rparr>" "''Boar''" "''r''" "(0, 0)"] this
  show ?thesis by (simp add: Let_def demo_email_def one_line_def)
qed

end
