(* ===== verification/Doors.thy ===== *)
theory Doors
  imports Bbs_UI Go_Path FTN_Outbound
begin

text \<open>
  \<open>internal/doors\<close>: the door games of the configuration (\<open>config.go\<close>), the drop files that describe
  the caller to them (\<open>dropfile.go\<close>), and the placeholders of a door's command (\<open>process.go\<close>). Starting
  and killing processes is not modelled: what a program does with the caller's keys is an argument
  of the server.
\<close>

section \<open>Configuration (config.go)\<close>

definition IOStdio :: string where "IOStdio = ''stdio''"
definition IOTCP :: string where "IOTCP = ''tcp''"
definition defaultMaxMinutes :: int where "defaultMaxMinutes = 60"

record Door =
  do_Key :: string
  do_Name :: string
  do_Description :: string
  do_Command :: "string list"
  do_Dir :: string
  do_IO :: string
  do_SysopOnly :: bool
  do_SingleNode :: bool
  do_MaxMinutes :: int

text \<open>The error messages of \<open>Validate\<close>; the number is the entry's position, from 1.\<close>

datatype door_error = BadKey nat string | DuplicateKey string | NoName string | NoCommand string | BadIO string

definition key_char :: "char \<Rightarrow> bool" where
  "key_char c \<longleftrightarrow> CHR ''a'' \<le> c \<and> c \<le> CHR ''z'' \<or> CHR ''0'' \<le> c \<and> c \<le> CHR ''9''"

text \<open>\<open>keyPattern\<close>: \<open>^[a-z0-9][a-z0-9_-]{0,15}$\<close>.\<close>

definition keyPattern :: "string \<Rightarrow> bool" where
  "keyPattern s = (case s of
       [] \<Rightarrow> False
     | c # r \<Rightarrow> key_char c \<and> length r \<le> 15 \<and> list_all (\<lambda>x. key_char x \<or> x = CHR ''_'' \<or> x = CHR ''-'') r)"

definition valid_door :: "nat \<Rightarrow> string list \<Rightarrow> Door \<Rightarrow> door_error + Door" where
  "valid_door i seen d =
     (if \<not> keyPattern (do_Key d) then Inl (BadKey (i + 1) (do_Key d))
      else if do_Key d \<in> set seen then Inl (DuplicateKey (do_Key d))
      else if do_Name d = [] then Inl (NoName (do_Key d))
      else if do_Command d = [] \<or> hd (do_Command d) = [] then Inl (NoCommand (do_Key d))
      else let io = (if do_IO d = [] then IOStdio else do_IO d)
           in if io \<noteq> IOStdio \<and> io \<noteq> IOTCP then Inl (BadIO (do_Key d))
              else Inr (d\<lparr>do_IO := io, do_MaxMinutes := (if do_MaxMinutes d \<le> 0 then defaultMaxMinutes else do_MaxMinutes d)\<rparr>))"

fun validate_loop :: "nat \<Rightarrow> string list \<Rightarrow> Door list \<Rightarrow> door_error + Door list" where
  "validate_loop i seen [] = Inr []"
| "validate_loop i seen (d # ds) = (case valid_door i seen d of
       Inl e \<Rightarrow> Inl e
     | Inr v \<Rightarrow> (case validate_loop (i + 1) (do_Key d # seen) ds of Inl e \<Rightarrow> Inl e | Inr vs \<Rightarrow> Inr (v # vs)))"

definition doors_Validate :: "Door list \<Rightarrow> door_error + Door list" where
  "doors_Validate ds = validate_loop 0 [] ds"

text \<open>\<open>LoadConfig\<close>: \<open>None\<close> for a missing file; \<open>parse\<close> is \<open>json.Unmarshal\<close>, which may fail.\<close>

definition LoadConfig :: "(string \<Rightarrow> Door list option) \<Rightarrow> string option \<Rightarrow> (door_error option) + Door list" where
  "LoadConfig parse data = (case data of
       None \<Rightarrow> Inr []
     | Some text \<Rightarrow> (case parse text of
           None \<Rightarrow> Inl None
         | Some ds \<Rightarrow> (case doors_Validate ds of Inl e \<Rightarrow> Inl (Some e) | Inr vs \<Rightarrow> Inr vs)))"

section \<open>Drop files (dropfile.go)\<close>

definition DoorSys :: string where "DoorSys = ''DOOR.SYS''"
definition DorInfo :: string where "DorInfo = ''DORINFO1.DEF''"
definition levelUser :: int where "levelUser = 100"
definition levelSysop :: int where "levelSysop = 255"
definition baudRate :: int where "baudRate = 38400"

record door_caller =
  dc_Node :: int
  dc_UserID :: int
  dc_Handle :: string
  dc_Location :: string
  dc_Sysop :: bool
  dc_Calls :: int
  dc_LastLogin :: nanos \<comment> \<open>0 for never\<close>
  dc_MinutesLeft :: int
  dc_ScreenRows :: int
  dc_ANSI :: bool
  dc_BBSName :: string
  dc_SysopName :: string

definition yn :: "bool \<Rightarrow> string" where
  "yn b = (if b then ''Y'' else ''N'')"

definition level :: "door_caller \<Rightarrow> int" where
  "level c = (if dc_Sysop c then levelSysop else levelUser)"

definition door_clean :: "string \<Rightarrow> string" where
  "door_clean s = trim_space (StripControl s)"

text \<open>\<open>Format("01/02/06")\<close>.\<close>

definition us_date :: "(nanos \<Rightarrow> int) \<Rightarrow> nanos \<Rightarrow> string" where
  "us_date tz t = (let w = local_wall tz t in pad2 (wMonth w) @ ''/'' @ pad2 (wDay w) @ ''/'' @ pad2 (wYear w mod 100))"

definition doorSys :: "(nanos \<Rightarrow> int) \<Rightarrow> door_caller \<Rightarrow> nanos \<Rightarrow> string list" where
  "doorSys tz c now =
     (let last_time = (if dc_LastLogin c = 0 then now else dc_LastLogin c);
          graphics = (if dc_ANSI c then ''GR'' else ''NG'')
      in [''COM1:'', itoa baudRate, ''8'', itoa (dc_Node c), itoa baudRate, ''Y'', ''N'', ''Y'', ''Y'',
          door_clean (dc_Handle c), door_clean (dc_Location c), ''000-000-0000'', ''000-000-0000'', [],
          itoa (level c), itoa (dc_Calls c), us_date tz last_time, itoa (dc_MinutesLeft c * 60), itoa (dc_MinutesLeft c),
          graphics, itoa (dc_ScreenRows c), ''N'', ''1'', ''1'', ''12/31/99'', itoa (dc_UserID c), ''Z'', ''0'', ''0'', ''0'', ''0'',
          ''01/01/80'', ''.'', ''.'', door_clean (dc_SysopName c), door_clean (dc_Handle c), ''00:00'', ''Y'', yn (dc_ANSI c), ''Y'',
          ''7'', ''0'', us_date tz last_time, clock_text tz now, clock_text tz last_time, ''32768'', ''0'', ''0'', ''0'', [], ''0'', ''0''])"

definition splitName :: "(rune \<Rightarrow> rune) \<Rightarrow> string \<Rightarrow> string \<times> string" where
  "splitName up name = (case cut_at CHR '' '' name of
       None \<Rightarrow> (to_upper up name, ''NLN'')
     | Some (first, rest) \<Rightarrow> if trim_space rest = [] then (to_upper up first, ''NLN'')
         else (to_upper up first, to_upper up (trim_space rest)))"

definition dorInfo :: "(rune \<Rightarrow> rune) \<Rightarrow> door_caller \<Rightarrow> string list" where
  "dorInfo up c =
     (let (first, rest) = splitName up (door_clean (dc_Handle c)); (sysFirst, sysLast) = splitName up (door_clean (dc_SysopName c))
      in [door_clean (dc_BBSName c), sysFirst, sysLast, ''COM1'', itoa baudRate @ '' BAUD,N,8,1'', ''0'', first, rest,
          door_clean (dc_Location c), (if dc_ANSI c then ''1'' else ''0''), itoa (level c), itoa (dc_MinutesLeft c), ''-1''])"

definition drop_text :: "string list \<Rightarrow> string" where
  "drop_text ls = term_Encode TermCP437 (join CRLF ls @ CRLF)"

text \<open>The files of the disk after \<open>WriteDropFiles\<close>; the two names differ, so their order does not matter.\<close>

definition WriteDropFiles :: "(nanos \<Rightarrow> int) \<Rightarrow> (rune \<Rightarrow> rune) \<Rightarrow> string \<Rightarrow> door_caller \<Rightarrow> nanos \<Rightarrow> filesystem \<Rightarrow> filesystem" where
  "WriteDropFiles tz up dir c now fs =
     (fs(path_Join [dir, DoorSys] \<mapsto> drop_text (doorSys tz c now)))(path_Join [dir, DorInfo] \<mapsto> drop_text (dorInfo up c))"

section \<open>Placeholders (process.go)\<close>

text \<open>Go goes through the variables in any order; here it is the order of the list.\<close>

definition expand :: "(string \<times> string) list \<Rightarrow> string \<Rightarrow> string" where
  "expand vars s = fold (\<lambda>(k, v) s. replace_all (''{'' @ k @ ''}'') v s) vars s"

definition mergeVars :: "(string \<times> string) list \<Rightarrow> (string \<times> string) list \<Rightarrow> (string \<times> string) list" where
  "mergeVars a b = filter (\<lambda>(k, _). k \<notin> fst ` set b) a @ b"

text \<open>The environment of a door; \<open>getenv\<close> is \<open>os.LookupEnv\<close>.\<close>

definition doorEnv :: "(rune \<Rightarrow> rune) \<Rightarrow> (string \<Rightarrow> string option) \<Rightarrow> (string \<times> string) list \<Rightarrow> string list" where
  "doorEnv up getenv vars = [''TERM=ansi'', ''LANG=C''] @
     concat (map (\<lambda>k. case getenv k of Some v \<Rightarrow> [k @ ''='' @ v] | None \<Rightarrow> []) [''PATH'', ''HOME'', ''TMPDIR'']) @
     map (\<lambda>(k, v). ''BOAR_'' @ to_upper up k @ ''='' @ v) vars"

text \<open>What \<open>Start\<close> runs: the command, its folder and its environment; \<open>port\<close> is the one it listens on.\<close>

definition door_command ::
    "(rune \<Rightarrow> rune) \<Rightarrow> (string \<Rightarrow> string option) \<Rightarrow> string \<Rightarrow> Door \<Rightarrow> (string \<times> string) list \<Rightarrow> string list \<times> string \<times> string list" where
  "door_command up getenv port d vars0 =
     (let vars = (if do_IO d = IOTCP then mergeVars vars0 [(''port'', port)] else vars0)
      in (map (expand vars) (do_Command d), expand vars (do_Dir d), doorEnv up getenv vars))"

text \<open>A started program: everything it has written once it was given some keys, and how long after its start it
  ends when it is given no more.\<close>

record door_run =
  dr_output :: "string \<Rightarrow> string"
  dr_exit :: "string \<Rightarrow> nanos option"

section \<open>A valid configuration\<close>

definition door_ok :: "Door \<Rightarrow> bool" where
  "door_ok d \<longleftrightarrow> keyPattern (do_Key d) \<and> do_Name d \<noteq> [] \<and> do_Command d \<noteq> [] \<and> hd (do_Command d) \<noteq> [] \<and>
     (do_IO d = IOStdio \<or> do_IO d = IOTCP) \<and> 0 < do_MaxMinutes d"

lemma valid_door_ok: "valid_door i seen d = Inr v \<Longrightarrow> door_ok v \<and> do_Key v = do_Key d \<and> do_Key v \<notin> set seen"
  by (auto simp: valid_door_def door_ok_def Let_def defaultMaxMinutes_def split: if_splits)

lemma validate_loop_ok:
  "validate_loop i seen ds = Inr vs \<Longrightarrow>
     list_all door_ok vs \<and> map do_Key vs = map do_Key ds \<and> distinct (map do_Key vs) \<and> set (map do_Key vs) \<inter> set seen = {}"
proof (induction ds arbitrary: i seen vs)
  case (Cons d ds)
  from Cons.prems obtain v ws where v: "valid_door i seen d = Inr v" "validate_loop (i + 1) (do_Key d # seen) ds = Inr ws" "vs = v # ws"
    by (auto split: sum.splits)
  note ws = Cons.IH [OF v(2)]
  then have "do_Key ` set ws = do_Key ` set ds" by (metis set_map)
  then show ?case using valid_door_ok [OF v(1)] ws v(3) by (auto simp: disjoint_iff)
qed simp

text \<open>An entry that is accepted, and what is stored of it.\<close>

definition acceptable :: "Door \<Rightarrow> bool" where
  "acceptable d \<longleftrightarrow> 1 \<le> length (do_Key d) \<and> length (do_Key d) \<le> 16 \<and>
     list_all (\<lambda>c. key_char c \<or> c = CHR ''_'' \<or> c = CHR ''-'') (do_Key d) \<and> hd (do_Key d) \<noteq> CHR ''_'' \<and> hd (do_Key d) \<noteq> CHR ''-'' \<and>
     do_Name d \<noteq> [] \<and> do_Command d \<noteq> [] \<and> hd (do_Command d) \<noteq> [] \<and> do_IO d \<in> {[], ''stdio'', ''tcp''}"

definition completed :: "Door \<Rightarrow> Door" where
  "completed d = d\<lparr>do_IO := (if do_IO d = ''tcp'' then ''tcp'' else ''stdio''),
     do_MaxMinutes := (if 0 < do_MaxMinutes d then do_MaxMinutes d else 60)\<rparr>"

lemma keyPattern_iff:
  "keyPattern k \<longleftrightarrow> 1 \<le> length k \<and> length k \<le> 16 \<and> list_all (\<lambda>c. key_char c \<or> c = CHR ''_'' \<or> c = CHR ''-'') k \<and>
     hd k \<noteq> CHR ''_'' \<and> hd k \<noteq> CHR ''-''"
proof (cases k)
  case (Cons c r)
  have "\<not> key_char CHR ''_''" "\<not> key_char CHR ''-''" by (simp_all add: key_char_def less_eq_char_def)
  then show ?thesis by (auto simp: keyPattern_def Cons)
qed (simp add: keyPattern_def)

lemma valid_door_iff:
  "valid_door i seen d = Inr v \<longleftrightarrow> acceptable d \<and> do_Key d \<notin> set seen \<and> v = completed d"
  by (auto simp: valid_door_def acceptable_def keyPattern_iff completed_def Let_def IOStdio_def IOTCP_def defaultMaxMinutes_def)

lemma validate_loop_iff:
  "validate_loop i seen ds = Inr vs \<longleftrightarrow>
     list_all acceptable ds \<and> distinct (map do_Key ds) \<and> set (map do_Key ds) \<inter> set seen = {} \<and> vs = map completed ds"
proof (induction ds arbitrary: i seen vs)
  case (Cons d ds)
  show ?case
  proof (cases "valid_door i seen d")
    case (Inl e)
    then have "\<not> (acceptable d \<and> do_Key d \<notin> set seen)" using valid_door_iff [of i seen d] by auto
    then show ?thesis using Inl by auto
  next
    case (Inr v)
    then have v: "acceptable d" "do_Key d \<notin> set seen" "v = completed d" using valid_door_iff by auto
    have "validate_loop i seen (d # ds) = Inr vs \<longleftrightarrow> (\<exists>ws. validate_loop (i + 1) (do_Key d # seen) ds = Inr ws \<and> vs = v # ws)"
      by (simp add: Inr split: sum.split) auto
    then show ?thesis using v by (auto simp: Cons.IH)
  qed
qed auto

text \<open>
  Claim C38. A configuration loads exactly when its doors have distinct keys of 1 to 16 characters a-z, 0-9, underscore and
  hyphen, beginning with a letter or digit, and each has a name, a command, and the mode stdio, tcp or none. What is
  loaded is the doors in their order, as they are, but for the mode stdio where none is given and sixty minutes where the
  time limit is not positive; so a configuration that gives both loads unchanged.
\<close>

theorem Validate_ok:
  "(case doors_Validate ds of
      Inl e \<Rightarrow> \<not> (list_all acceptable ds \<and> distinct (map do_Key ds))
    | Inr vs \<Rightarrow> list_all acceptable ds \<and> distinct (map do_Key ds) \<and> vs = map completed ds \<and> list_all door_ok vs) \<and>
   (list_all door_ok ds \<and> distinct (map do_Key ds) \<longrightarrow> doors_Validate ds = Inr ds)"
proof
  show "case doors_Validate ds of
      Inl e \<Rightarrow> \<not> (list_all acceptable ds \<and> distinct (map do_Key ds))
    | Inr vs \<Rightarrow> list_all acceptable ds \<and> distinct (map do_Key ds) \<and> vs = map completed ds \<and> list_all door_ok vs"
  proof (cases "doors_Validate ds")
    case (Inl e)
    then show ?thesis using validate_loop_iff [of 0 "[]" ds "map completed ds"] by (auto simp: doors_Validate_def)
  next
    case (Inr vs)
    then show ?thesis using validate_loop_iff [of 0 "[]" ds vs] validate_loop_ok [of 0 "[]" ds vs] by (simp add: doors_Validate_def)
  qed
  have ok: "door_ok d \<Longrightarrow> acceptable d \<and> completed d = d" for d
    by (cases d) (auto simp: door_ok_def acceptable_def completed_def keyPattern_iff IOStdio_def IOTCP_def)
  have "map completed ds = ds" "list_all acceptable ds" if "list_all door_ok ds"
    using that ok by (auto simp: list_all_iff map_idI)
  then show "list_all door_ok ds \<and> distinct (map do_Key ds) \<longrightarrow> doors_Validate ds = Inr ds"
    by (simp add: doors_Validate_def validate_loop_iff)
qed

theorem Validate_ok_witness:
  "doors_Validate [\<lparr>do_Key = ''lord'', do_Name = ''LORD'', do_Description = [], do_Command = [''/bin/lord''], do_Dir = [], do_IO = ''tcp'',
      do_SysopOnly = False, do_SingleNode = True, do_MaxMinutes = 30\<rparr>] =
   Inr [\<lparr>do_Key = ''lord'', do_Name = ''LORD'', do_Description = [], do_Command = [''/bin/lord''], do_Dir = [], do_IO = ''tcp'',
      do_SysopOnly = False, do_SingleNode = True, do_MaxMinutes = 30\<rparr>]"
proof -
  let ?d = "\<lparr>do_Key = ''lord'', do_Name = ''LORD'', do_Description = [], do_Command = [''/bin/lord''], do_Dir = [], do_IO = ''tcp'',
      do_SysopOnly = False, do_SingleNode = True, do_MaxMinutes = 30\<rparr>"
  have "door_ok ?d" by (simp add: door_ok_def keyPattern_def key_char_def less_eq_char_def IOTCP_def)
  then show ?thesis using Validate_ok [of "[?d]"] by simp
qed

section \<open>One value, one line\<close>

abbreviation one_line :: "string \<Rightarrow> bool" where
  "one_line \<equiv> text_of printable"

lemma one_line_clean: "one_line (door_clean s)"
proof -
  have "list_all valid_rune (filter printable (runes s))"
    using list_all_valid_runes [of s] by (auto simp: list_all_iff)
  then have t: "door_clean s = of_runes (trim_runes (filter printable (runes s)))"
    by (simp add: door_clean_def StripControl_def trim_space_of_runes)
  have "list_all (\<lambda>r. valid_rune r \<and> printable r) (trim_runes (filter printable (runes s)))"
    using set_trim_runes [of "filter printable (runes s)"] list_all_valid_runes [of s] by (auto simp: list_all_iff)
  then show ?thesis unfolding t by (subst text_of_of_runes) (auto simp: list_all_iff)
qed

definition plain_char :: "char \<Rightarrow> bool" where
  "plain_char c \<longleftrightarrow> is_ascii c \<and> no_control c"

lemma one_line_plain: "list_all plain_char s \<Longrightarrow> one_line s"
  by (rule text_of_ascii_list)
     (auto simp: list_all_iff plain_char_def no_control_def is_ascii_def printable_def is_control_def is_bidi_def rune_error_def)

lemma plain_itoa: "list_all plain_char (itoa i)"
proof -
  have "list_all plain_char (nat_digits n)" for n
    using nat_digits_digits(1) [of n]
    by (auto simp: list_all_iff plain_char_def is_digit_def is_ascii_def no_control_def dest!: bspec)
  then show ?thesis by (simp add: itoa_def plain_char_def is_ascii_def no_control_def byte_val_def)
qed

lemma plain_pad2: "list_all plain_char (pad2 n)"
proof -
  have "plain_char (digit k)" if "k < 10" for k
    using is_digit_digit [OF that] by (auto simp: plain_char_def is_digit_def is_ascii_def no_control_def)
  then show ?thesis by (simp add: pad2_def)
qed

lemma plain_literals: "plain_char c \<longleftrightarrow> 0x20 \<le> byte_val c \<and> byte_val c < 0x7F"
  by (auto simp: plain_char_def is_ascii_def no_control_def)

lemma plain_dates: "list_all plain_char (us_date tz t)" "list_all plain_char (clock_text tz t)"
  by (simp_all add: us_date_def clock_text_def Let_def plain_pad2, simp_all add: plain_literals byte_val_def)

lemma doorSys_one_line: "list_all one_line (doorSys tz c now)"
proof -
  note plain = plain_itoa plain_dates
  show ?thesis
    by (simp add: doorSys_def Let_def one_line_clean plain [THEN one_line_plain] yn_def)
       (intro conjI impI; rule one_line_plain; simp add: plain_literals byte_val_def)
qed

lemma drop_text_lines:
  assumes "ls \<noteq> []" "list_all one_line ls"
  shows "drop_text ls = concat (map (\<lambda>l. term_Encode TermCP437 l @ CRLF) ls)"
proof -
  have crlf: "encode_rune 13 @ encode_rune 10 = CRLF"
    using of_runes_ascii [of CRLF] by (simp add: CRLF_def is_ascii_def byte_val_def)
  have join: "join CRLF ls @ CRLF = of_runes (concat (map (\<lambda>l. runes l @ [13, 10]) ls))"
    using assms
  proof (induction ls rule: induct_list012)
    case (2 l)
    then show ?case by (auto simp: of_runes_append crlf text_of_def valid_utf8_def)
  next
    case (3 l m ls)
    then have rest: "join CRLF (m # ls) @ CRLF = of_runes (concat (map (\<lambda>l. runes l @ [13, 10]) (m # ls)))"
      and l: "of_runes (runes l) = l" by (simp_all add: text_of_def valid_utf8_def)
    have "join CRLF (l # m # ls) @ CRLF = l @ CRLF @ (join CRLF (m # ls) @ CRLF)" by simp
    then show ?case unfolding rest by (simp add: of_runes_append crlf l)
  qed simp
  have "list_all valid_rune (concat (map (\<lambda>l. runes l @ [13, 10]) ls))"
    using list_all_valid_runes by (auto simp: list_all_iff valid_rune_def)
  have nl_enc: "[term_encode_rune TermCP437 13, term_encode_rune TermCP437 10] = CRLF"
    by (simp add: term_encode_rune_def CRLF_def byte_of_def char_of_def bit_0)
  from \<open>list_all valid_rune (concat (map (\<lambda>l. runes l @ [13, 10]) ls))\<close> have "runes (join CRLF ls @ CRLF) = concat (map (\<lambda>l. runes l @ [13, 10]) ls)"
    by (simp add: join runes_of_runes)
  then show ?thesis
    by (simp add: drop_text_def term_Encode_def map_concat o_def)
       (simp add: nl_enc)
qed

lemma encoded_one_line: "one_line l \<Longrightarrow> list_all no_control (term_Encode TermCP437 l)"
  by (auto simp: term_Encode_def text_of_def list_all_iff term_encode_rune_no_control)

text \<open>
  Claim C37. Whatever characters the caller's handle and location hold, \<open>DOOR.SYS\<close> is 52 lines that end in CR LF,
  each the value of its place in the format, and the fourteenth, the password, is empty.
\<close>

theorem door_sys_lines:
  "split_on (CHR 0x0A) (drop_text (doorSys tz c now)) = map (\<lambda>l. term_Encode TermCP437 l @ [CHR 0x0D]) (doorSys tz c now) @ [[]] \<and>
   length (doorSys tz c now) = 52 \<and> doorSys tz c now ! 13 = [] \<and>
   list_all (\<lambda>l. list_all no_control (term_Encode TermCP437 l)) (doorSys tz c now)"
proof -
  have split: "split_on (CHR 0x0A) (concat (map (\<lambda>l. f l @ CRLF) ls)) = map (\<lambda>l. f l @ [CHR 0x0D]) ls @ [[]]"
    if "list_all (\<lambda>l. list_all no_control (f l)) ls" for f :: "string \<Rightarrow> string" and ls
    using that
  proof (induction ls)
    case (Cons l ls)
    have "CHR 0x0A \<notin> set (f l @ [CHR 0x0D])" using Cons.prems by (auto simp: list_all_iff no_control_def byte_val_def)
    from split_on_append [OF this] Cons show ?case by (simp add: CRLF_def)
  qed simp
  have len: "length (doorSys tz c now) = 52" "doorSys tz c now ! 13 = []" by (simp_all add: doorSys_def Let_def)
  have enc: "list_all (\<lambda>l. list_all no_control (term_Encode TermCP437 l)) (doorSys tz c now)"
    using doorSys_one_line [of tz c now] encoded_one_line by (auto simp: list_all_iff)
  have "doorSys tz c now \<noteq> []" using len(1) by auto
  from drop_text_lines [OF this doorSys_one_line] split [OF enc] len enc show ?thesis by simp
qed

end
