(* ===== verification/Bbs_Server.thy ===== *)
theory Bbs_Server
  imports Bbs_UI Bbs_Nodes Bbs_Chat Term_Art Store_Users Store_Log Mailer FTN_Message FTN_Outbound Doors
begin

text \<open>
  \<open>internal/bbs/server.go\<close> and what every screen of the BBS shares: the server's state, the caller
  (the Go struct \<open>session\<close> in full), notices, custom and built-in screens, error reports. The
  files of the art folder, the built-in screens and the random choice between variants are
  arguments of the server; so are the local time zone, the upper-case table and the store's
  environment, whose clock is set to the session's at every use.
\<close>

section \<open>Limits and server (server.go)\<close>

record limits =
  lm_loginFailures :: rateLimiter
  lm_accounts :: loginBackoff
  lm_signups :: rateLimiter
  lm_signupsAll :: rateLimiter
  lm_mail :: rateLimiter
  lm_posts :: rateLimiter
  lm_pages :: rateLimiter
  lm_chat :: rateLimiter
  lm_oneliners :: rateLimiter
  lm_emailVerify :: rateLimiter
  lm_emailTarget :: rateLimiter
  lm_emailNotices :: rateLimiter
  lm_emailCopies :: rateLimiter
  lm_emailExport :: rateLimiter

definition signupsAllKey :: string where "signupsAllKey = ''all''"

definition newLoginBackoff :: "rateLimiter \<Rightarrow> loginBackoff" where
  "newLoginBackoff r = \<lparr>lb_fails = r, lb_busy = (\<lambda>_. False)\<rparr>"

definition newLimits :: "nanos \<Rightarrow> nat \<Rightarrow> db \<Rightarrow> limits" where
  "newLimits now maxSignups d =
     (let persist = (\<lambda>limit window bucket. newPersistentLimiter now limit window bucket store_hits d)
      in \<lparr>lm_loginFailures = persist 5 (15 * minute) ''login-ip'',
          lm_accounts = newLoginBackoff (persist 0 backoffWindow ''login-handle''),
          lm_signups = persist 3 hour ''signup-ip'',
          lm_signupsAll = persist maxSignups (24 * hour) ''signup-all'',
          lm_mail = newRateLimiter 30 hour,
          lm_posts = newRateLimiter 20 hour,
          lm_pages = newRateLimiter 6 minute,
          lm_chat = newRateLimiter 8 (10 * second),
          lm_oneliners = newRateLimiter 3 hour,
          lm_emailVerify = newRateLimiter 3 hour,
          lm_emailTarget = persist 3 (24 * hour) ''email-target'',
          lm_emailNotices = newRateLimiter 1 (10 * minute),
          lm_emailCopies = newRateLimiter 30 hour,
          lm_emailExport = newRateLimiter 20 hour\<rparr>)"

definition defaultName :: string where "defaultName = ''Boar BBS''"
definition defaultDoorsDir :: string where "defaultDoorsDir = ''data/doors''"
definition defaultMaxNodes :: int where "defaultMaxNodes = 32"
definition defaultMaxSignups :: int where "defaultMaxSignups = 20"
definition maxConnsPerIP :: int where "maxConnsPerIP = 8"
definition minConnHeadroom :: int where "minConnHeadroom = 16"

record FTNConfig =
  fc_Addresses :: "Addr list"
  fc_Outbound :: Outbound
  fc_Routes :: Routes
  fc_SysopName :: string

definition ftn_enabled :: "FTNConfig \<Rightarrow> bool" where
  "ftn_enabled c \<longleftrightarrow> fc_Addresses c \<noteq> [] \<and> Root (fc_Outbound c) \<noteq> []"

record FileLinkConfig =
  fl_URL :: string
  fl_Key :: string
  fl_TTL :: nanos

text \<open>
  A public SSH key as \<open>golang.org/x/crypto/ssh\<close> gives it: \<open>pk_crypto\<close> is \<open>None\<close> when it has no crypto key,
  and the number of bits of the modulus when that is an RSA key.
\<close>

record PublicKey =
  pk_type :: string
  pk_crypto :: "int option option"
  pk_fingerprint :: string
  pk_authorized :: string
  pk_comment :: string

text \<open>
  A ZMODEM transfer of the file at a path, to a caller with these bytes to come: how many of them it reads,
  what it writes, the bytes sent and the text of its error.
\<close>

type_synonym zmodem = "string \<Rightarrow> (nanos \<times> char) list \<Rightarrow> nat \<times> string \<times> int \<times> string option"

record server =
  sv_name :: string
  sv_maxNodes :: int
  sv_db :: db
  sv_nodes :: nodeTable
  sv_conns :: connLimiter
  sv_limit :: limits
  sv_env :: store_env
  sv_tz :: "nanos \<Rightarrow> int"
  sv_zone :: "nanos \<Rightarrow> string" \<comment> \<open>the abbreviation of the local zone\<close>
  sv_upper :: "rune \<Rightarrow> rune"
  sv_art :: "string \<Rightarrow> (bool \<times> string) option" \<comment> \<open>the custom art picked for a screen: whether a \<open>.txt\<close> file, and its bytes\<close>
  sv_screens :: "string \<Rightarrow> string" \<comment> \<open>the embedded screens\<close>
  sv_artDir :: string \<comment> \<open>empty when there is no art folder\<close>
  sv_artFolder :: "(string \<times> string) list" \<comment> \<open>its files: base name and content\<close>
  sv_mail :: "mail_queue option"
  sv_publicAddress :: string
  sv_isPrint :: "rune \<Rightarrow> bool" \<comment> \<open>\<open>unicode.IsPrint\<close> beyond ASCII\<close>
  sv_fold :: "rune \<Rightarrow> rune" \<comment> \<open>the case folding of \<open>strings.EqualFold\<close>\<close>
  sv_chat :: chatHub
  sv_FTN :: FTNConfig
  sv_outbound :: filesystem \<comment> \<open>the files of the outbound\<close>
  sv_serial :: "nanos \<Rightarrow> nat" \<comment> \<open>the random serial of a MSGID drawn at a time\<close>
  sv_FileLinks :: FileLinkConfig
  sv_Files :: string \<comment> \<open>where the files of the file areas are kept\<close>
  sv_onDisk :: "string \<Rightarrow> bool" \<comment> \<open>the paths that can be opened\<close>
  sv_zmodem :: zmodem
  sv_hmac :: "string \<Rightarrow> string \<Rightarrow> string" \<comment> \<open>HMAC-SHA256\<close>
  sv_pid :: string \<comment> \<open>what \<open>Queue\<close> writes into its flag\<close>
  sv_tmpName :: "filesystem \<Rightarrow> string" \<comment> \<open>the name \<open>os.CreateTemp\<close> picks in the outbound\<close>
  sv_parseKey :: "string \<Rightarrow> PublicKey option" \<comment> \<open>\<open>ssh.ParseAuthorizedKey\<close>\<close>
  sv_Doors :: "Door list"
  sv_DoorsDir :: string
  sv_doorBusy :: "string \<Rightarrow> bool" \<comment> \<open>the locked \<open>doorLocks\<close>\<close>
  sv_dropFiles :: filesystem \<comment> \<open>the files below \<open>DoorsDir\<close>\<close>
  sv_abs :: "string \<Rightarrow> string" \<comment> \<open>\<open>filepath.Abs\<close>\<close>
  sv_getenv :: "string \<Rightarrow> string option"
  sv_doorPort :: string
  sv_program :: "string list \<Rightarrow> string \<Rightarrow> string list \<Rightarrow> door_run option" \<comment> \<open>starts a program, if it can be started\<close>

text \<open>\<open>New\<close>, with the configuration's name, nodes and signups per day; \<open>given\<close> holds the parameters.\<close>

definition New_server :: "nanos \<Rightarrow> string \<Rightarrow> int \<Rightarrow> int \<Rightarrow> server \<Rightarrow> server" where
  "New_server now name maxNodes maxSignups given =
     (let nodes = (if maxNodes \<le> 0 then defaultMaxNodes else maxNodes);
          signups = (if maxSignups \<le> 0 then defaultMaxSignups else maxSignups)
      in given\<lparr>sv_name := (if name = [] then defaultName else name), sv_maxNodes := nodes,
           sv_DoorsDir := (if sv_DoorsDir given = [] then defaultDoorsDir else sv_DoorsDir given), sv_nodes := newNodeTable nodes, sv_limit := newLimits now (nat signups) (sv_db given),
           sv_chat := newChatHub, sv_conns := newConnLimiter (nodes + max nodes minConnHeadroom) maxConnsPerIP\<rparr>)"

definition server_event :: "nanos \<Rightarrow> string \<Rightarrow> int \<Rightarrow> string \<Rightarrow> string \<Rightarrow> string \<Rightarrow> server \<Rightarrow> server" where
  "server_event now kind userID handle ip detail sv =
     sv\<lparr>sv_db := snd (LogEvent ((sv_env sv)\<lparr>se_now := now\<rparr>)
          \<lparr>e_id = 0, e_at = 0, e_kind = kind, e_user = userID, e_handle = handle, e_ip = ip, e_detail = detail\<rparr> (sv_db sv))\<rparr>"

section \<open>Caller (session.go)\<close>

record caller = session +
  c_srv :: server
  c_node :: int
  c_ip :: string
  c_ipKey :: string
  c_secure :: bool
  c_start :: nanos
  c_user :: user
  c_loggedIn :: bool
  c_keyAuth :: bool

definition no_user :: user where
  "no_user = \<lparr>u_id = 0, u_handle = [], u_location = [], u_sysop = False, u_locked = False, u_created = 0, u_last_login = 0,
     u_calls = 0, u_email = [], u_email_mode = 0, u_validated = False\<rparr>"

text \<open>The store's environment at the session's clock, and changes of the server.\<close>

definition env :: "'a caller_scheme \<Rightarrow> store_env" where
  "env s = (sv_env (c_srv s))\<lparr>se_now := s_now s\<rparr>"

definition database :: "'a caller_scheme \<Rightarrow> db" where
  "database s = sv_db (c_srv s)"

definition on_server :: "(server \<Rightarrow> server) \<Rightarrow> 'a caller_scheme \<Rightarrow> 'a caller_scheme" where
  "on_server f s = s\<lparr>c_srv := f (c_srv s)\<rparr>"

definition on_nodes :: "(nodeTable \<Rightarrow> nodeTable) \<Rightarrow> 'a caller_scheme \<Rightarrow> 'a caller_scheme" where
  "on_nodes f = on_server (\<lambda>sv. sv\<lparr>sv_nodes := f (sv_nodes sv)\<rparr>)"

definition on_node :: "(node \<Rightarrow> node) \<Rightarrow> 'a caller_scheme \<Rightarrow> 'a caller_scheme" where
  "on_node f s = on_nodes (each (\<lambda>n. if nd_id n = c_node s then f n else n)) s"

text \<open>An operation of the store: its error ends nothing by itself.\<close>

definition store_op :: "(store_env \<Rightarrow> db \<Rightarrow> (error + 'r) \<times> db) \<Rightarrow> (error + 'r, 'a caller_scheme) io" where
  "store_op f s = (let (r, d) = f (env s) (database s) in (Done r, on_server (\<lambda>sv. sv\<lparr>sv_db := d\<rparr>) s))"

definition fail_with :: "error \<Rightarrow> ('r, 's) io" where
  "fail_with e s = (Fail (StoreErr e), s)"

definition session_setActivity :: "string \<Rightarrow> (unit, 'a caller_scheme) io" where
  "session_setActivity a = effect (on_node (setActivity a))"

definition transport :: "'a caller_scheme \<Rightarrow> string" where
  "transport s = (if c_keyAuth s then ''ssh key'' else if c_secure s then ''ssh'' else ''telnet'')"

definition refreshUser :: "(unit, 'a caller_scheme) io" where
  "refreshUser s = (case UserByID (database s) (u_id (c_user s)) of
       Inl e \<Rightarrow> (Fail (StoreErr e), s)
     | Inr u \<Rightarrow> (Done (), s\<lparr>c_user := u\<rparr>))"

definition flushNotices :: "(unit, 'a caller_scheme) io" where
  "flushNotices s =
     (let ns = (case lookup_node (c_node s) (sv_nodes (c_srv s)) of None \<Rightarrow> [] | Some n \<Rightarrow> fst (takeNotices n))
      in print_all (map (\<lambda>n. CHR 0x07 # nl @ ''|15*** |14'' @ safe n @ '' |15***|07'' @ nl) ns)
           (on_node (\<lambda>n. snd (takeNotices n)) s))"

definition screen_header :: "string \<Rightarrow> (unit, 'a caller_scheme) io" where
  "screen_header title s = header (sv_name (c_srv s)) (sv_tz (c_srv s)) (u_handle (c_user s)) title s"

definition session_choose :: "string \<Rightarrow> (rune, 'a caller_scheme) io" where
  "session_choose allowed s = choose_key (sv_upper (c_srv s)) allowed s"

definition session_yesNo :: "string \<Rightarrow> bool \<Rightarrow> (bool, 'a caller_scheme) io" where
  "session_yesNo q def s = yesNo (sv_upper (c_srv s)) q def s"

definition actionPrompt :: "string \<Rightarrow> string list \<Rightarrow> (rune, 'a caller_scheme) io" where
  "actionPrompt extra ws = then_io flushNotices
     (\<lambda>s. then_io (print (nl @ actions ws s @ '' '' @ colBorder @ prompt_mark @ '' |15'')) (session_choose (keysOf ws @ extra)) s)"

definition menuPrompt :: "string \<Rightarrow> string \<Rightarrow> (rune, 'a caller_scheme) io" where
  "menuPrompt place keys = then_io flushNotices
     (\<lambda>s. then_io (print (nl @ '' '' @ colBorder @ ''['' @ colFrame @ safe (u_handle (c_user s)) @ colBorder @ ''] '' @ colLabel @ place @
        '' '' @ colBorder @ prompt_mark @ '' |15'')) (session_choose keys) s)"

section \<open>Errors (menu.go, screens.go)\<close>

definition userFacing :: "error \<Rightarrow> bool" where
  "userFacing e \<longleftrightarrow> e \<noteq> ErrConstraint \<and> e \<noteq> ErrInternal"

definition error_text :: "error \<Rightarrow> string" where
  "error_text e = (case e of
       ErrHandleTaken \<Rightarrow> ''That handle is already taken.''
     | ErrBadCredentials \<Rightarrow> ''Invalid handle or password.''
     | ErrNotFound \<Rightarrow> ''Not found.''
     | ErrMailboxFull \<Rightarrow> ''The recipient'' @ [CHR 0x27] @ ''s mailbox is full.''
     | ErrBlocked \<Rightarrow> ''That caller is not accepting your mail.''
     | ErrForbidden \<Rightarrow> ''You are not allowed to do that.''
     | ErrNotValidated \<Rightarrow> ''Your account is waiting for sysop approval.''
     | InputError m \<Rightarrow> m
     | ErrConstraint \<Rightarrow> [] | ErrInternal \<Rightarrow> [])"

definition reportError :: "error \<Rightarrow> (unit, 'a caller_scheme) io" where
  "reportError e = then_io
     (print (nl @ colAlert @ (if userFacing e then safe (error_text e) else ''Something went wrong. Please try again later.'') @ nl))
     pause"

section \<open>Screens (screens.go, customart.go)\<close>

definition substitute :: "(string \<Rightarrow> string) \<Rightarrow> (string \<times> string) list \<Rightarrow> string \<Rightarrow> string" where
  "substitute f vars t = fold (\<lambda>(k, v) t. replace_all (''@'' @ k @ ''@'') (f v) t) vars t"

definition showArt :: "string \<Rightarrow> (string \<times> string) list \<Rightarrow> (unit, 'a caller_scheme) io" where
  "showArt name vars s = print (substitute safe vars (sv_screens (c_srv s) name)) s"

definition maxArtBytes :: nat where "maxArtBytes = 262144"

definition showArtFile :: "bool \<Rightarrow> string \<Rightarrow> (string \<times> string) list \<Rightarrow> (unit, 'a caller_scheme) io" where
  "showArtFile txt data vars s =
     (if txt then print (substitute safe vars data) s
      else let art = substitute (\<lambda>v. term_Encode TermCP437 (StripControl v)) vars data;
               s' = write_bytes (ConvertANSIArt art (s_cs s) (s_color s)) s
           in (Done (), s'\<lparr>s_rend := NewRenderer (s_mode s')\<rparr>))"

text \<open>A file over the limit is refused, and the built-in screen shown.\<close>

definition showCustomArt :: "string \<Rightarrow> (string \<times> string) list \<Rightarrow> (bool, 'a caller_scheme) io" where
  "showCustomArt screen vars s = (case sv_art (c_srv s) screen of
       None \<Rightarrow> (Done False, s)
     | Some (txt, data) \<Rightarrow> if maxArtBytes < length data then (Done False, s)
         else then_io (showArtFile txt data vars) (return_io True) s)"

definition long_weekdays :: "string list" where
  "long_weekdays = [''Thursday'', ''Friday'', ''Saturday'', ''Sunday'', ''Monday'', ''Tuesday'', ''Wednesday'']"

definition long_months :: "string list" where
  "long_months = [''January'', ''February'', ''March'', ''April'', ''May'', ''June'', ''July'', ''August'', ''September'', ''October'', ''November'', ''December'']"

text \<open>\<open>Format("Monday, January 2 2006  15:04 MST")\<close>.\<close>

definition full_date :: "(nanos \<Rightarrow> int) \<Rightarrow> (nanos \<Rightarrow> string) \<Rightarrow> nanos \<Rightarrow> string" where
  "full_date tz zone t =
     (let w = local_wall tz t
      in long_weekdays ! nat ((t div nanos_per_second + tz t) div 86400 mod 7) @ '', '' @ long_months ! nat (wMonth w - 1) @ '' '' @
         itoa (wDay w) @ '' '' @ itoa (wYear w) @ ''  '' @ clock_text tz t @ '' '' @ zone t)"

definition screenTokens :: "'a caller_scheme \<Rightarrow> (string \<times> string) list" where
  "screenTokens s =
     (let sv = c_srv s
      in [(''BBS'', sv_name sv), (''NODE'', itoa (c_node s)), (''NODES'', itoa (sv_maxNodes sv)),
          (''ONLINE'', itoa (int (length (online (sv_nodes sv))))), (''MEMBERS'', itoa (int (UserCount (sv_db sv)))),
          (''HANDLE'', u_handle (c_user s)), (''LOCATION'', u_location (c_user s)), (''CALLS'', itoa (u_calls (c_user s))),
          (''TIME'', full_date (sv_tz sv) (sv_zone sv) (s_now s)), (''DURATION'', shortDuration (s_now s - c_start s)),
          (''MINHANDLE'', itoa (int MinHandleLen)), (''MAXHANDLE'', itoa (int MaxHandleLen)), (''MINPASS'', itoa (int MinPasswordLen))])"

end
