(* ===== verification/Bbs_Frame.thy ===== *)
theory Bbs_Frame
  imports Bbs_UI
begin

text \<open>
  What session operations leave alone. The locale \<open>frame\<close> is the contract of a relation between
  the session before and after an operation: reflexive and transitive, so that it holds of a
  sequence when it holds of the parts. Its first instance is the relation of the operations that
  only use the terminal; later theories add their own.
\<close>

section \<open>Relations kept by a sequence\<close>

definition stays :: "('s \<Rightarrow> 's \<Rightarrow> bool) \<Rightarrow> ('a, 's) io \<Rightarrow> bool" where
  "stays R m \<longleftrightarrow> (\<forall>s. R s (snd (m s)))"

lemma staysD: "stays R m \<Longrightarrow> m s = (x, t) \<Longrightarrow> R s t"
  unfolding stays_def by (metis snd_conv)

lemma stays_mono: "stays Q m \<Longrightarrow> (\<And>s t. Q s t \<Longrightarrow> R s t) \<Longrightarrow> stays R m"
  by (simp add: stays_def)

lemma stays_eq: "(\<And>s. \<exists>m'. stays R m' \<and> m s = m' s) \<Longrightarrow> stays R m"
  unfolding stays_def by metis

locale frame =
  fixes R :: "'s \<Rightarrow> 's \<Rightarrow> bool"
  assumes refl: "R s s"
    and trans: "R s t \<Longrightarrow> R t u \<Longrightarrow> R s u"
begin

lemma stays_return: "stays R (return_io x)"
  by (simp add: stays_def return_io_def refl)

lemma stays_bind: "stays R m \<Longrightarrow> (\<And>x. stays R (k x)) \<Longrightarrow> stays R (bind_io m k)"
proof -
  assume m: "stays R m" and k: "\<And>x. stays R (k x)"
  have "R s (snd (bind_io m k s))" for s
  proof -
    obtain q t where q: "m s = (q, t)" by fastforce
    have "R s t" using m q by (rule staysD)
    then show ?thesis using k trans q by (cases q) (auto simp: bind_io_def stays_def)
  qed
  then show ?thesis by (simp add: stays_def)
qed

lemma stays_then: "stays R m \<Longrightarrow> stays R k \<Longrightarrow> stays R (then_io m k)"
  unfolding then_io_def by (rule stays_bind)

lemma stays_panic: "stays R (may_panic f)"
  by (simp add: stays_def may_panic_def refl split: option.splits)

lemma stays_effect: "(\<And>s. R s (f s)) \<Longrightarrow> stays R (effect f)"
  by (simp add: stays_def effect_def)

lemmas stays_seq = stays_return stays_bind stays_then stays_panic

end

section \<open>Operations of the terminal\<close>

definition terminal_only :: "'a session_scheme \<Rightarrow> 'a session_scheme \<Rightarrow> bool" where
  "terminal_only s s' \<longleftrightarrow> session.more s' = session.more s \<and> suffix (s_in s') (s_in s)"

interpretation terminal: frame terminal_only
  by unfold_locales (auto simp: terminal_only_def intro: suffix_order.trans)

lemma terminal_only_len: "terminal_only s s' \<Longrightarrow> length (s_in s') \<le> length (s_in s)"
  by (simp add: terminal_only_def suffix_length_le)

lemma more_updates [simp]:
  "session.more (write_bytes p s) = session.more s" "session.more (raw p s) = session.more s"
  "session.more (clearLine s) = session.more s" "s_in (clearLine s) = s_in s"
  by (simp_all add: write_bytes_def raw_def clearLine_def)

lemma terminal_print: "stays terminal_only (print t)"
  by (auto simp: stays_def print_def terminal_only_def split: option.splits)

lemma input_moved_more: "input_moved s s' \<Longrightarrow> session.more s' = session.more s"
  by (cases s; cases s'; simp add: input_moved_def)

lemma read_bytes_suffix:
  fixes s s' :: "'a session_scheme"
  shows "read_bytes bs s = (q, s') \<Longrightarrow> suffix (s_in s') bs"
proof (induction bs arbitrary: s q s')
  case (Cons tb rest)
  obtain t b where tb: "tb = (t, b)" by fastforce
  obtain skip s1 where s1: "skipEscape b (s\<lparr>s_in := rest, s_now := t\<rparr>) = (skip, s1)" by fastforce
  have i1: "s_in s1 = rest" using skipEscape_in [of b "s\<lparr>s_in := rest, s_now := t\<rparr>"] s1 by simp
  have i3: "decodeHigh b k = (d, k') \<Longrightarrow> s_in k' = s_in k" for d and k k' :: "'a session_scheme"
    using decodeHigh_in [of b k] by simp
  have "(\<exists>k. read_bytes rest k = (q, s')) \<or> s_in s' = rest"
    using Cons.prems unfolding tb
    by (auto simp: s1 i1 Let_def split: if_split_asm option.split_asm prod.split_asm dest: i3)
  then show ?case using Cons.IH suffix_ConsI suffix_order.refl by metis
qed simp

lemma terminal_readRune: "stays terminal_only (readRune :: (rune, 'a session_scheme) io)"
proof -
  have "terminal_only s (snd (readRune s))" for s :: "'a session_scheme"
    using input_moved_more [OF readRune_moved [of s]] read_bytes_suffix [of "s_in s" s, OF prod.collapse [symmetric]]
    by (simp add: terminal_only_def readRune_def)
  then show ?thesis by (simp add: stays_def)
qed

lemma terminal_readKey: "stays terminal_only (readKey up allowed :: (rune, 'a session_scheme) io)"
proof -
  have "terminal_only s (snd (readKey up allowed s))" for s :: "'a session_scheme"
  proof (induction "length (s_in s)" arbitrary: s rule: less_induct)
    case less
    obtain q t where r: "readRune s = (q, t)" by fastforce
    have st: "terminal_only s t" using terminal_readRune r by (rule staysD)
    show ?case
    proof (cases q)
      case (Done x)
      have "terminal_only t (snd (readKey up allowed t))" using less [of t] readRune_in [of s x t] r Done by simp
      then show ?thesis using st terminal.trans r Done
        by (subst readKey.simps) (auto simp: bind_io_def return_io_def)
    qed (use st r in \<open>subst readKey.simps, simp add: bind_io_def\<close>)+
  qed
  then show ?thesis by (simp add: stays_def)
qed

lemma terminal_raw: "stays terminal_only (effect (raw t))"
  by (rule terminal.stays_effect) (simp add: terminal_only_def)

lemma terminal_choose: "stays terminal_only (choose_key up allowed)"
proof -
  have "stays terminal_only (effect (if k \<noteq> keyEnter then raw (of_runes [k]) else id))" for k
    by (rule terminal.stays_effect) (simp add: terminal_only_def)
  then show ?thesis unfolding choose_key_def
    by (intro terminal.stays_bind terminal.stays_then terminal.stays_return terminal_readKey terminal_raw)
qed

lemma terminal_line_loop: "terminal_only s (snd (line_loop opts buf s))"
proof (induction "length (s_in s)" arbitrary: s buf rule: less_induct)
  case less
  obtain q t where r: "readRune s = (q, t)" by fastforce
  have st: "terminal_only s t" using terminal_readRune r by (rule staysD)
  show ?case
  proof (cases q)
    case (Done x)
    have rw: "terminal_only s (raw p t)" for p using st by (simp add: terminal_only_def)
    have rec: "terminal_only s (snd (line_loop opts b u))" if "s_in u = s_in t" "terminal_only s u" for b u
      using less [of u b] readRune_in [of s x t] r Done that terminal.trans by metis
    have wrap: "terminal_only s (snd (wrapOverflow b y t))" for b y
      using rw by (simp add: wrapOverflow_def Let_def)
    show ?thesis unfolding line_loop_step [OF r [unfolded Done]] using rec rw wrap st by simp
  qed (use line_loop_stop(1) [OF r, of opts buf] st in simp_all)
qed

lemma terminal_readLine: "stays terminal_only (readLine opts)"
  unfolding stays_def readLine_def
  using terminal_line_loop terminal.trans [of _ "raw _ _"] by (metis more_updates(2) suffix_order.refl terminal_only_def write_in(2))

lemma stays_case_pair: "(\<And>x y. stays R (k x y)) \<Longrightarrow> stays R (case p of (x, y) \<Rightarrow> k x y)"
  by (cases p) simp

lemma terminal_prompt: "stays terminal_only (prompt l n)" "stays terminal_only (promptSecret l n)"
  unfolding prompt_def promptSecret_def
  by (intro terminal.stays_seq terminal_print terminal_readLine stays_case_pair)+

lemma terminal_yesNo: "stays terminal_only (yesNo up q d)"
  unfolding yesNo_def Let_def by (intro terminal.stays_seq terminal_print terminal_readKey terminal_raw)

lemma terminal_clearing:
  "stays terminal_only m \<Longrightarrow> stays terminal_only (\<lambda>s. let (k, s') = m s in (f k, clearLine s'))"
  by (auto simp: stays_def terminal_only_def split: prod.splits) (metis snd_conv)+

lemma terminal_more: "stays terminal_only (more_prompt up)"
  unfolding more_prompt_def by (intro terminal.stays_then terminal_print terminal_clearing terminal_readKey)

lemma terminal_pause: "stays terminal_only pause"
  unfolding pause_def by (intro terminal.stays_then terminal_print terminal_clearing terminal_readRune)

lemma terminal_page_loop: "stays terminal_only (page_loop up per row lns :: (bool, 'a session_scheme) io)"
proof (induction lns arbitrary: row)
  case (Cons ln lns)
  define more_rows :: "int \<Rightarrow> (bool, 'a session_scheme) io" where
    "more_rows r = then_io (print (ln @ [CHR 0x0A])) (page_loop up per (r + 1) lns)" for r
  have rows: "stays terminal_only (more_rows r)" for r
    unfolding more_rows_def by (intro terminal.stays_then terminal_print Cons.IH)
  then have "stays terminal_only (bind_io (more_prompt up) (\<lambda>go. if go then more_rows 0 else return_io False))"
    by (intro terminal.stays_bind terminal_more) (simp add: terminal.stays_return)
  with rows show ?case unfolding page_loop.simps Let_def more_rows_def by (cases "per \<le> row") simp_all
qed (simp add: terminal.stays_return)

lemma terminal_page: "stays terminal_only (page up lns used)"
  unfolding page_def by (rule stays_eq) (rule exI, rule conjI [OF terminal_page_loop refl])

lemma terminal_print_all: "stays terminal_only (print_all ts)"
  by (induction ts) (simp_all add: terminal.stays_return terminal.stays_then terminal_print)

lemma terminal_box: "stays terminal_only (box title body)"
  unfolding box_def by (intro terminal.stays_seq terminal_print_all)

lemma terminal_header: "stays terminal_only (header name tz handle title)"
  unfolding header_def Let_def
  by (rule stays_eq)
     (rule exI, rule conjI [OF terminal.stays_then [OF terminal_print terminal.stays_bind [OF terminal.stays_panic terminal_print_all]] refl])

lemmas terminal_ops = terminal_print terminal_readRune terminal_readKey terminal_raw terminal_choose terminal_readLine
  terminal_prompt terminal_yesNo terminal_more terminal_pause terminal_page terminal_print_all terminal_box terminal_header

section \<open>Prompts consume input\<close>

lemma line_loop_consumes:
  fixes s t :: "'a session_scheme"
  shows "line_loop opts buf s = (Done x, t) \<Longrightarrow> length (s_in t) < length (s_in s)"
proof -
  assume a: "line_loop opts buf s = (Done x, t)"
  obtain q u where r: "readRune s = (q, u)" by fastforce
  then obtain k where q: "q = Done k" using a line_loop_stop(2) [OF r, of opts buf x] by (cases q) auto
  have len: "length (s_in (snd (line_loop opts b v))) \<le> length (s_in v)" for b and v :: "'a session_scheme"
    by (rule terminal_only_len [OF terminal_line_loop])
  have "length (s_in t) \<le> length (s_in u)"
    using a len [of _ u] len [of _ "raw _ u"] unfolding line_loop_step [OF r [unfolded q]]
    by (auto simp: wrapOverflow_def Let_def split: if_split_asm) (metis snd_conv write_in(2))+
  then show ?thesis using readRune_in [of s k u] r q by simp
qed

lemma prompt_consumes:
  fixes s t :: "'a session_scheme"
  shows "prompt l n s = (Done x, t) \<Longrightarrow> length (s_in t) < length (s_in s)"
  "promptSecret l n s = (Done x, t) \<Longrightarrow> length (s_in t) < length (s_in s)"
proof -
  have p: "print l s = (Done y, u) \<Longrightarrow> s_in u = s_in s" for y u
    by (auto simp: print_def split: option.splits prod.splits)
  have r: "readLine opts u = (Done y, v) \<Longrightarrow> length (s_in v) < length (s_in u)" for opts y and u v :: "'a session_scheme"
    using line_loop_consumes by (fastforce simp: readLine_def)
  show "prompt l n s = (Done x, t) \<Longrightarrow> length (s_in t) < length (s_in s)"
    "promptSecret l n s = (Done x, t) \<Longrightarrow> length (s_in t) < length (s_in s)"
    by (auto simp: prompt_def promptSecret_def then_io_def bind_io_Done return_io_def dest!: p r)
qed

end
