(* ===== verification/Bbs_Login.thy ===== *)
theory Bbs_Login
  imports Bbs_Server Bbs_Frame
begin

text \<open>
  \<open>internal/bbs/login.go\<close>, with the logo of \<open>screens.go\<close> and \<open>newSession\<close> and \<open>run\<close>'s way to a signed-in
  caller: choosing a terminal, the welcome screen, signing in with a password or an SSH key,
  registering, and the first steps after that. Each operation runs without other callers in
  between; the theorems about one password check hold from every state of the server.
\<close>

section \<open>Limiters of the server\<close>

type_synonym limiter_at = "(limits \<Rightarrow> rateLimiter) \<times> ((rateLimiter \<Rightarrow> rateLimiter) \<Rightarrow> limits \<Rightarrow> limits)"

definition set_limiter :: "limiter_at \<Rightarrow> rateLimiter \<Rightarrow> 'a caller_scheme \<Rightarrow> 'a caller_scheme" where
  "set_limiter l r = on_server (\<lambda>sv. sv\<lparr>sv_limit := snd l (\<lambda>_. r) (sv_limit sv)\<rparr>)"

definition is_blocked :: "limiter_at \<Rightarrow> string \<Rightarrow> (bool, 'a caller_scheme) io" where
  "is_blocked l key s = (let (b, r) = blocked (s_now s) key (fst l (sv_limit (c_srv s))) in (Done b, set_limiter l r s))"

text \<open>A hit on a limiter saved in the database, and on one kept in memory.\<close>

definition record_hit :: "limiter_at \<Rightarrow> string \<Rightarrow> 'a caller_scheme \<Rightarrow> 'a caller_scheme" where
  "record_hit l key s = (let (r, d) = hit store_hits (s_now s) key (fst l (sv_limit (c_srv s)), database s)
     in set_limiter l r (on_server (\<lambda>sv. sv\<lparr>sv_db := d\<rparr>) s))"

definition memory_hit :: "limiter_at \<Rightarrow> string \<Rightarrow> 'a caller_scheme \<Rightarrow> 'a caller_scheme" where
  "memory_hit l key s = set_limiter l (fst (hit no_store (s_now s) key (fst l (sv_limit (c_srv s)), ()))) s"

definition at_loginFailures :: limiter_at where "at_loginFailures = (lm_loginFailures, lm_loginFailures_update)"
definition at_signups :: limiter_at where "at_signups = (lm_signups, lm_signups_update)"
definition at_signupsAll :: limiter_at where "at_signupsAll = (lm_signupsAll, lm_signupsAll_update)"

definition set_accounts :: "loginBackoff \<Rightarrow> 'a caller_scheme \<Rightarrow> 'a caller_scheme" where
  "set_accounts b = on_server (\<lambda>sv. sv\<lparr>sv_limit := (sv_limit sv)\<lparr>lm_accounts := b\<rparr>\<rparr>)"

definition log_event :: "string \<Rightarrow> int \<Rightarrow> string \<Rightarrow> string \<Rightarrow> 'a caller_scheme \<Rightarrow> 'a caller_scheme" where
  "log_event kind userID handle detail s = on_server (server_event (s_now s) kind userID handle (c_ip s) detail) s"

section \<open>Terminal and welcome (login.go, screens.go)\<close>

definition maxLoginAttempts :: nat where "maxLoginAttempts = 3"
definition maxPasswordTries :: nat where "maxPasswordTries = 3"
definition logoIndent :: nat where "logoIndent = 23"
definition welcomeWidth :: int where "welcomeWidth = 61"
definition welcomeInner :: int where "welcomeInner = welcomeWidth - panelPad"
definition apostrophe :: string where "apostrophe = [CHR 0x27]"

text \<open>\<open>tt\<close> is the terminal type when the transport knows it.\<close>

definition chooseTerminal :: "string option \<Rightarrow> bool \<Rightarrow> (unit, 'a caller_scheme) io" where
  "chooseTerminal tt ask s = (case (if ask then None else Option.bind tt detectCharset) of
       Some (cs, mode) \<Rightarrow> (Done (), setTerminal cs mode s)
     | None \<Rightarrow>
         then_io (print (nl @ safe (sv_name (c_srv s)) @ nl @ nl @ ''Select your terminal:'' @ nl @
             ''  1) UTF-8 with ANSI color  (macOS Terminal, iTerm2, PuTTY)'' @ nl @
             ''  2) CP437 with ANSI color  (SyncTERM, NetRunner, classic BBS clients)'' @ nl @
             ''  3) Plain ASCII, no color'' @ nl @ nl @ ''Choice [1]: ''))
           (bind_io (prompt [] 1) (\<lambda>choice. effect
              (if choice = ''2'' then setTerminal TermCP437 ANSI16
               else if choice = ''3'' then setTerminal TermASCII NoColor
               else setTerminal TermUTF8 ANSI256)))
           (setTerminal TermASCII NoColor s))"

definition logoRows :: "rune list list" where
  "logoRows = [
    [0x2588, 0x2588, 0x2588, 0x2588, 0x2588, 0x2588, 0x2557, 0x20, 0x20, 0x2588, 0x2588, 0x2588, 0x2588, 0x2588, 0x2588, 0x2557, 0x20, 0x20, 0x2588, 0x2588, 0x2588, 0x2588, 0x2588, 0x2557, 0x20, 0x2588, 0x2588, 0x2588, 0x2588, 0x2588, 0x2588, 0x2557, 0x20],
    [0x2588, 0x2588, 0x2554, 0x2550, 0x2550, 0x2588, 0x2588, 0x2557, 0x2588, 0x2588, 0x2554, 0x2550, 0x2550, 0x2550, 0x2588, 0x2588, 0x2557, 0x2588, 0x2588, 0x2554, 0x2550, 0x2550, 0x2588, 0x2588, 0x2557, 0x2588, 0x2588, 0x2554, 0x2550, 0x2550, 0x2588, 0x2588, 0x2557],
    [0x2588, 0x2588, 0x2588, 0x2588, 0x2588, 0x2588, 0x2554, 0x255D, 0x2588, 0x2588, 0x2551, 0x20, 0x20, 0x20, 0x2588, 0x2588, 0x2551, 0x2588, 0x2588, 0x2588, 0x2588, 0x2588, 0x2588, 0x2588, 0x2551, 0x2588, 0x2588, 0x2588, 0x2588, 0x2588, 0x2588, 0x2554, 0x255D],
    [0x2588, 0x2588, 0x2554, 0x2550, 0x2550, 0x2588, 0x2588, 0x2557, 0x2588, 0x2588, 0x2551, 0x20, 0x20, 0x20, 0x2588, 0x2588, 0x2551, 0x2588, 0x2588, 0x2554, 0x2550, 0x2550, 0x2588, 0x2588, 0x2551, 0x2588, 0x2588, 0x2554, 0x2550, 0x2550, 0x2588, 0x2588, 0x2557],
    [0x2588, 0x2588, 0x2588, 0x2588, 0x2588, 0x2588, 0x2554, 0x255D, 0x255A, 0x2588, 0x2588, 0x2588, 0x2588, 0x2588, 0x2588, 0x2554, 0x255D, 0x2588, 0x2588, 0x2551, 0x20, 0x20, 0x2588, 0x2588, 0x2551, 0x2588, 0x2588, 0x2551, 0x20, 0x20, 0x2588, 0x2588, 0x2551],
    [0x255A, 0x2550, 0x2550, 0x2550, 0x2550, 0x2550, 0x255D, 0x20, 0x20, 0x255A, 0x2550, 0x2550, 0x2550, 0x2550, 0x2550, 0x255D, 0x20, 0x255A, 0x2550, 0x255D, 0x20, 0x20, 0x255A, 0x2550, 0x255D, 0x255A, 0x2550, 0x255D, 0x20, 0x20, 0x255A, 0x2550, 0x255D]]"

definition logoShades :: "int list" where "logoShades = [15, 14, 14, 6, 6, 6]"
definition logoShadow :: int where "logoShadow = 8"

text \<open>The inner loop of \<open>logo\<close>; \<open>cur\<close> is the colour last written, -1 at first.\<close>

fun logo_row :: "int \<Rightarrow> int \<Rightarrow> rune list \<Rightarrow> string" where
  "logo_row shade cur [] = nl"
| "logo_row shade cur (r # rs) =
     (let c = (if r = 0x2588 then shade else if r = sp then cur else logoShadow)
      in if c \<noteq> cur \<and> 0 \<le> c then ''|'' @ pad2 c @ of_runes [r] @ logo_row shade c rs
         else of_runes [r] @ logo_row shade cur rs)"

definition logo :: "nat \<Rightarrow> string" where
  "logo indent = concat (map (\<lambda>(shade, row). replicate indent CHR '' '' @ logo_row shade (-1) row) (zip logoShades logoRows)) @ colLabel"

definition welcome_screen :: "(unit, 'a caller_scheme) io" where
  "welcome_screen s = bind_io (showCustomArt ''welcome'' (screenTokens s)) (\<lambda>shown s.
     if shown then (Done (), s)
     else let sv = c_srv s;
              body = [center (colLabel @ ''the wild boar '' @ colFrame @ dot @ colLabel @ '' private mail '' @ colFrame @ dot @ colLabel @ '' est. 2026'') welcomeInner,
                separator,
                center (colInfo @ ''Node '' @ colValue @ itoa (c_node s) @ colInfo @ '' of '' @ colValue @ itoa (sv_maxNodes sv) @ ''  '' @ colBorder @ dot @
                  ''  '' @ colInfo @ ''online '' @ colValue @ itoa (int (length (online (sv_nodes sv)))) @ ''  '' @ colBorder @ dot @ ''  '' @ colInfo @
                  ''members '' @ colValue @ itoa (int (UserCount (sv_db sv)))) welcomeInner,
                center (colDim @ full_date (sv_tz sv) (sv_zone sv) (s_now s)) welcomeInner]
          in then_io (print (''|CL'' @ nl @ logo logoIndent @ nl))
               (bind_io (may_panic (\<lambda>s. Repeat '' '' (half (width s - welcomeWidth)))) (\<lambda>pad.
                  bind_io (may_panic (\<lambda>s. boxLines (sv_name sv) welcomeWidth body)) (\<lambda>lns.
                    print_all (map (\<lambda>ln. pad @ ln @ nl) lns)))) s) s"

section \<open>Signing in (login.go)\<close>

definition loginFailed :: string where
  "loginFailed = ''Invalid handle or password, or the account is locked.''"

definition waitText :: "nanos \<Rightarrow> string" where
  "waitText d = plural (max ((d + second - 1) div second) 1) ''second''"

definition checkPassword :: "string \<Rightarrow> string \<Rightarrow> (user option, 'a caller_scheme) io" where
  "checkPassword handle password s =
     (let account = ''handle:'' @ to_lower (se_lower (env s)) handle;
          ((wait, ok), b) = backoff_begin (s_now s) account (lm_accounts (sv_limit (c_srv s)));
          s = set_accounts b s;
          finish = (\<lambda>won s. let (b, d) = backoff_end store_hits (s_now s) account won (lm_accounts (sv_limit (c_srv s)), database s)
                            in set_accounts b (on_server (\<lambda>sv. sv\<lparr>sv_db := d\<rparr>) s))
      in if \<not> ok
         then then_io (print (colAlert @ ''Too many failed logins for that handle. Wait '' @ waitText wait @ '' and try again.'' @ nl)) (return_io None) s
         else case Authenticate (env s) (database s) handle password of
             Inr u \<Rightarrow>
               if \<not> u_locked u then (Done (Some u), finish True s)
               else then_io (print (colAlert @ loginFailed @ nl)) (return_io None)
                      (log_event EventLocked (u_id u) (u_handle u) (transport s) (record_hit at_loginFailures (c_ipKey s) (finish False s)))
           | Inl e \<Rightarrow>
               if e \<noteq> ErrBadCredentials then (Fail (StoreErr e), set_accounts (backoff_release account (lm_accounts (sv_limit (c_srv s)))) s)
               else then_io (print (colAlert @ loginFailed @ nl)) (return_io None)
                      (log_event EventLoginFailed 0 handle (transport s) (record_hit at_loginFailures (c_ipKey s) (finish False s))))"

text \<open>\<open>None\<close> of \<open>askNewHandle\<close> and \<open>askNewPassword\<close> is the empty string: the caller gave up.\<close>

function askNewHandle :: "(string, 'a caller_scheme) io" where
  "askNewHandle s = bind_io (prompt ''|07Choose a handle|08: |15'' (int MaxHandleLen)) (\<lambda>h s.
     if h = [] then (Done [], s)
     else case ValidateHandle (env s) h of
         Inl e \<Rightarrow> bind_io (print (colAlert @ safe (error_text e) @ nl)) (\<lambda>_ s. askNewHandle s) s
       | Inr _ \<Rightarrow>
           (case UserByHandle (env s) (database s) h of
              Inr _ \<Rightarrow> bind_io (print (colAlert @ error_text ErrHandleTaken @ nl)) (\<lambda>_ s. askNewHandle s) s
            | Inl e \<Rightarrow> if e \<noteq> ErrNotFound then (Fail (StoreErr e), s) else (Done h, s))) s"
  by pat_completeness auto
termination
proof (relation "measure (\<lambda>s. length (s_in s))", goal_cases)
  case 1 show ?case by simp
qed (use prompt_consumes(1) staysD [OF terminal_print] in \<open>fastforce dest: terminal_only_len\<close>)+

declare askNewHandle.simps [simp del]

fun password_loop :: "nat \<Rightarrow> (string, 'a caller_scheme) io" where
  "password_loop 0 = return_io []"
| "password_loop (Suc n) = bind_io (promptSecret ''|07Password|08: |15'' (int MaxPasswordLen)) (\<lambda>p1.
     case ValidatePassword p1 of
       Inl e \<Rightarrow> then_io (print (colAlert @ safe (error_text e) @ nl)) (password_loop n)
     | Inr _ \<Rightarrow> bind_io (promptSecret ''|07Password again|08: |15'' (int MaxPasswordLen)) (\<lambda>p2.
         if p1 \<noteq> p2 then then_io (print (colAlert @ ''Passwords don'' @ apostrophe @ ''t match.'' @ nl)) (password_loop n)
         else return_io p1))"

definition askNewPassword :: "(string, 'a caller_scheme) io" where
  "askNewPassword = password_loop maxPasswordTries"

definition register_create :: "string \<Rightarrow> string \<Rightarrow> string \<Rightarrow> (user option, 'a caller_scheme) io" where
  "register_create handle password location = bind_io (store_op (\<lambda>E. CreateUser E handle password location)) (\<lambda>r.
     case r of
       Inl e \<Rightarrow> then_io (reportError e) (return_io None)
     | Inr u \<Rightarrow> then_io (effect (\<lambda>s. log_event EventSignup (u_id u) (u_handle u) (transport s)
          ((if u_validated u then id
            else (\<lambda>s. on_nodes (notifySysops (SysopIDs (database s)) (''New caller '' @ u_handle u @ '' is waiting for approval (! then V)'')) s))
             (record_hit at_signupsAll signupsAllKey (record_hit at_signups (c_ipKey s) s)))))
         (return_io (Some u)))"

definition register_ask :: "(user option, 'a caller_scheme) io" where
  "register_ask = bind_io askNewHandle (\<lambda>handle. if handle = [] then return_io None
     else bind_io askNewPassword (\<lambda>password. if password = [] then return_io None
     else bind_io (prompt ''|07Location |08(optional)|07: |15'' (int MaxLocationLen)) (\<lambda>location.
       bind_io (session_yesNo (''Create account '' @ safe handle @ ''?'') True) (\<lambda>ok.
         if \<not> ok then return_io None else register_create handle password location))))"

definition register_intro :: "(unit, 'a caller_scheme) io" where
  "register_intro = then_io (session_setActivity ''New user signup'') (then_io (screen_header ''New Caller'')
     (\<lambda>s. let tokens = screenTokens s
          in bind_io (showCustomArt ''newuser'' tokens) (\<lambda>shown.
               then_io (if shown then return_io () else showArt ''newuser'' tokens)
                 (if c_secure s then return_io ()
                  else print (colAlert @ ''  Telnet is not encrypted.'' @ colLabel @ '' Don'' @ apostrophe @ ''t reuse a password from elsewhere,'' @ nl @
                         ''  or call over SSH instead.'' @ nl @ nl))) s))"

definition register :: "(user option, 'a caller_scheme) io" where
  "register s = bind_io (is_blocked at_signups (c_ipKey s)) (\<lambda>b.
     if b then then_io (print (colAlert @ ''Too many new accounts from your address. Try again later.'' @ nl)) (return_io None)
     else bind_io (is_blocked at_signupsAll signupsAllKey) (\<lambda>b.
       if b then then_io (print (colAlert @ ''We'' @ apostrophe @ ''ve had a lot of new callers today. Please try again tomorrow.'' @ nl)) (return_io None)
       else then_io register_intro register_ask)) s"

section \<open>What signing in leaves alone\<close>

text \<open>Operations that keep the count of failed logins, who is calling, and consume input only.\<close>

definition keeps_failures :: "caller \<Rightarrow> caller \<Rightarrow> bool" where
  "keeps_failures s s' \<longleftrightarrow> lm_loginFailures (sv_limit (c_srv s')) = lm_loginFailures (sv_limit (c_srv s)) \<and>
     c_ipKey s' = c_ipKey s \<and> suffix (s_in s') (s_in s)"

interpretation failures: frame keeps_failures
  by unfold_locales (auto simp: keeps_failures_def intro: suffix_order.trans)

lemma keeps_failures_len: "keeps_failures s s' \<Longrightarrow> length (s_in s') \<le> length (s_in s)"
  by (simp add: keeps_failures_def suffix_length_le)

lemma more_caller: "session.more s = session.more s' \<Longrightarrow> c_srv s = c_srv s' \<and> c_ipKey s = c_ipKey s' \<and> c_user s = c_user s'"
  for s s' :: caller
  by (cases s; cases s'; simp)

lemma terminal_failures: "stays terminal_only m \<Longrightarrow> stays keeps_failures m"
  by (erule stays_mono) (auto simp: terminal_only_def keeps_failures_def dest: more_caller)

lemmas terminal_calls = terminal_ops [THEN terminal_failures]

lemma failures_header: "stays keeps_failures (screen_header title)"
  unfolding screen_header_def by (rule stays_eq) (rule exI, rule conjI [OF terminal_header [THEN terminal_failures] refl])

lemma failures_yesNo: "stays keeps_failures (session_yesNo q d)"
  unfolding session_yesNo_def by (rule stays_eq) (rule exI, rule conjI [OF terminal_yesNo [THEN terminal_failures] refl])

lemma failures_showArt: "stays keeps_failures (showArt name vars)"
  unfolding showArt_def by (rule stays_eq) (rule exI, rule conjI [OF terminal_print [THEN terminal_failures] refl])

lemma failures_showArtFile: "stays keeps_failures (showArtFile txt data vars)"
proof -
  have "keeps_failures s (snd (showArtFile txt data vars s))" for s
    using terminal_print [THEN terminal_failures, of "substitute safe vars data"]
    by (auto simp: showArtFile_def Let_def stays_def keeps_failures_def write_bytes_def)
  then show ?thesis by (simp add: stays_def)
qed

lemma failures_showCustomArt: "stays keeps_failures (showCustomArt screen vars)"
proof -
  have art: "stays keeps_failures (then_io (showArtFile b data vars) (return_io True))" for b data
    by (intro failures.stays_seq failures_showArtFile)
  have "keeps_failures s (snd (showCustomArt screen vars s))" for s
    using art unfolding stays_def showCustomArt_def
    by (auto simp: failures.refl split: option.split prod.split)
  then show ?thesis by (simp add: stays_def)
qed

lemma failures_blocked: "stays keeps_failures (is_blocked at_signups key)" "stays keeps_failures (is_blocked at_signupsAll key)"
  by (auto simp: stays_def is_blocked_def set_limiter_def at_signups_def at_signupsAll_def on_server_def keeps_failures_def split: prod.splits)

lemma failures_askNewHandle: "stays keeps_failures (askNewHandle :: (string, caller) io)"
proof -
  have "keeps_failures s (snd (askNewHandle s))" for s :: caller
  proof (induction "length (s_in s)" arbitrary: s rule: less_induct)
    case less
    obtain q t where p: "prompt ''|07Choose a handle|08: |15'' (int MaxHandleLen) s = (q, t)" by fastforce
    have st: "keeps_failures s t" using terminal_prompt(1) [THEN terminal_failures] p by (rule staysD)
    show ?case
    proof (cases q)
      case (Done h)
      have again: "keeps_failures s (snd (bind_io (print msg) (\<lambda>_ s. askNewHandle s) t))" for msg
      proof -
        obtain r u where u: "print msg t = (r, u)" by fastforce
        have tu: "keeps_failures t u" using terminal_print [THEN terminal_failures] u by (rule staysD)
        then have "keeps_failures u (snd (askNewHandle u))"
          using less [of u] prompt_consumes(1) [OF p [unfolded Done]] keeps_failures_len [OF tu] by simp
        then have "keeps_failures s (snd (askNewHandle u))" using failures.trans [OF failures.trans [OF st tu]] by blast
        then show ?thesis using u failures.trans [OF st tu] by (cases r) (simp_all add: bind_io_def)
      qed
      have "askNewHandle s = (if h = [] then (Done [], t) else case ValidateHandle (env t) h of
           Inl e \<Rightarrow> bind_io (print (colAlert @ safe (error_text e) @ nl)) (\<lambda>_ s. askNewHandle s) t
         | Inr _ \<Rightarrow> (case UserByHandle (env t) (database t) h of
              Inr _ \<Rightarrow> bind_io (print (colAlert @ error_text ErrHandleTaken @ nl)) (\<lambda>_ s. askNewHandle s) t
            | Inl e \<Rightarrow> if e \<noteq> ErrNotFound then (Fail (StoreErr e), t) else (Done h, t)))"
        by (subst askNewHandle.simps, subst bind_io_def) (simp only: p Done prod.case outcome.case)
      then show ?thesis using again st by (auto split: sum.split)
    qed (use st p in \<open>subst askNewHandle.simps, simp add: bind_io_def\<close>)+
  qed
  then show ?thesis by (simp add: stays_def)
qed

lemma stays_sum: "(\<And>e. stays R (f e)) \<Longrightarrow> (\<And>x. stays R (g x)) \<Longrightarrow> stays R (case r of Inl e \<Rightarrow> f e | Inr x \<Rightarrow> g x)"
  by (cases r) simp_all

lemma stays_if: "stays R f \<Longrightarrow> stays R g \<Longrightarrow> stays R (if b then f else g)"
  by simp

lemma failures_password_loop: "stays keeps_failures (password_loop n)"
  by (induction n) (simp_all only: password_loop.simps failures.stays_return,
    intro failures.stays_seq stays_sum stays_if terminal_calls)

lemma failures_store: "stays keeps_failures (store_op f)"
  by (auto simp: stays_def store_op_def keeps_failures_def on_server_def split: prod.splits)

lemma failures_reportError: "stays keeps_failures (reportError e)"
  unfolding reportError_def by (intro failures.stays_seq terminal_calls)

lemma failures_created: "stays keeps_failures (register_create handle password location)"
proof -
  have hits: "keeps_failures s (record_hit at_signups k s)" "keeps_failures s (record_hit at_signupsAll k s)"
    "keeps_failures s (log_event kind i h d s)" for s k kind i h d
    by (auto simp: keeps_failures_def log_event_def record_hit_def set_limiter_def at_signups_def at_signupsAll_def
        on_server_def server_event_def split: prod.splits)
  have signup: "keeps_failures s (log_event k i h (transport s) (f (record_hit at_signupsAll k2 (record_hit at_signups k1 s))))"
    if "\<And>t. keeps_failures t (f t)" for s k i h k1 k2 and f :: "caller \<Rightarrow> caller"
    using hits that failures.trans by meson
  have sysops: "keeps_failures t (on_nodes g t)" for g t
    by (simp add: keeps_failures_def on_nodes_def on_server_def)
  show ?thesis unfolding register_create_def
    by (intro failures.stays_seq failures_store failures_reportError stays_sum failures.stays_effect signup)
       (simp add: sysops failures.refl)
qed

lemma failures_ask: "stays keeps_failures (register_ask :: (user option, caller) io)"
  unfolding register_ask_def askNewPassword_def
  by (intro failures.stays_seq stays_if failures_askNewHandle failures_password_loop terminal_calls failures_yesNo failures_created)

lemma failures_intro: "stays keeps_failures (register_intro :: (unit, caller) io)"
proof -
  have act: "stays keeps_failures (session_setActivity a)" for a
    by (auto simp: session_setActivity_def stays_def effect_def on_node_def on_nodes_def on_server_def keeps_failures_def)
  show ?thesis unfolding register_intro_def Let_def
    by (intro failures.stays_then act failures_header, rule stays_eq, rule exI)
       (rule conjI [OF _ refl], intro failures.stays_seq stays_if failures_showCustomArt failures_showArt terminal_calls)
qed

lemma failures_register: "stays keeps_failures register"
  unfolding register_def
  by (rule stays_eq, rule exI)
     (rule conjI [OF _ refl], intro failures.stays_seq stays_if failures_blocked terminal_calls failures_intro failures_ask)

section \<open>The login loop (login.go)\<close>

lemma server_in [simp]:
  "s_in (on_server f s) = s_in s" "s_in (set_accounts b s) = s_in s" "s_in (set_limiter l r s) = s_in s"
  "s_in (record_hit l key s) = s_in s" "s_in (log_event k i h d s) = s_in s"
  by (simp_all add: on_server_def set_accounts_def set_limiter_def record_hit_def log_event_def split: prod.splits)

lemma print_len: "length (s_in (snd (then_io (print t) (return_io x) s))) = length (s_in s)"
  by (auto simp: then_io_def bind_io_def return_io_def print_def split: option.splits prod.splits)

lemma checkPassword_len: "length (s_in (snd (checkPassword handle password s))) \<le> length (s_in s)"
  by (auto simp: checkPassword_def Let_def print_len split: prod.split sum.split)

lemma is_blocked_in: "is_blocked l key s = (q, t) \<Longrightarrow> s_in t = s_in s"
  by (auto simp: is_blocked_def split: prod.splits)

function login_loop :: "nat \<Rightarrow> (bool, caller) io" where
  "login_loop attempt s =
     (if maxLoginAttempts \<le> attempt
      then then_io (print (nl @ colAlert @ ''Too many attempts. Goodbye.'' @ nl)) (return_io False) s
      else bind_io (is_blocked at_loginFailures (c_ipKey s)) (\<lambda>b s.
        if b then then_io (print (nl @ colAlert @ ''Too many failed logins from your address. Try again later.'' @ nl)) (return_io False) s
        else bind_io (prompt (nl @ '' |07Handle |08(or |15NEW|08 to register)|07: |15'') (int MaxHandleLen)) (\<lambda>handle s.
          if handle = [] then login_loop attempt s
          else if sql_lower handle = ''new''
          then bind_io register (\<lambda>r s. case r of
                 Some u \<Rightarrow> (Done True, s\<lparr>c_user := u\<rparr>)
               | None \<Rightarrow> login_loop attempt s) s
          else bind_io (promptSecret '' |07Password|08: |15'' (int MaxPasswordLen)) (\<lambda>password s.
                 bind_io (checkPassword handle password) (\<lambda>r s. case r of
                   Some u \<Rightarrow> (Done True, s\<lparr>c_user := u\<rparr>)
                 | None \<Rightarrow> login_loop (attempt + 1) s) s) s) s) s)"
  by pat_completeness auto
termination
proof (relation "measure (\<lambda>(attempt, s). length (s_in s))", goal_cases)
  case (2 attempt s b t handle u)
  then show ?case using is_blocked_in [OF 2(2)] prompt_consumes(1) [OF 2(4)] by simp
next
  case (3 attempt s b t handle u r v)
  have "length (s_in v) \<le> length (s_in u)"
    using staysD [OF failures_register 3(7)] by (rule keeps_failures_len)
  then show ?case using is_blocked_in [OF 3(2)] prompt_consumes(1) [OF 3(4)] by simp
next
  case (4 attempt s b t handle u password v r w)
  have "length (s_in w) \<le> length (s_in v)" using checkPassword_len [of handle password v] 4(8) by simp
  then show ?case using is_blocked_in [OF 4(2)] prompt_consumes(1) [OF 4(4)] prompt_consumes(2) [OF 4(7)] by simp
qed simp

declare login_loop.simps [simp del]

definition login :: "(bool, caller) io" where
  "login = login_loop 0"

definition keyLogin :: "int \<Rightarrow> (bool, caller) io" where
  "keyLogin userID s = (case UserByID (database s) userID of
       Inl e \<Rightarrow> if e = ErrNotFound
         then then_io (print (nl @ colAlert @ ''That key'' @ apostrophe @ ''s account no longer exists.'' @ nl)) (return_io False) s
         else (Fail (StoreErr e), s)
     | Inr u \<Rightarrow> if u_locked u
         then then_io (print (nl @ colAlert @ ''This account is locked. Contact the sysop.'' @ nl)) (return_io False)
                (log_event EventLocked (u_id u) (u_handle u) ''ssh key'' s)
         else then_io (print (nl @ colOK @ ''Signed in with your SSH key as '' @ colBright @ safe (u_handle u) @ colOK @ ''.'' @ nl))
                (then_io (effect (\<lambda>s. s\<lparr>c_keyAuth := True, c_user := u\<rparr>)) (then_io pause (return_io True))) s)"

text \<open>\<open>approvalNotice\<close> of \<open>approval.go\<close>, and \<open>afterLogin\<close> up to the offers of news and mail.\<close>

definition approvalNotice :: "(unit, caller) io" where
  "approvalNotice s = (if u_validated (c_user s) then (Done (), s)
     else print (nl @ ''  '' @ colAlert @ ''Your account is waiting for sysop approval.'' @ colDim @ '' You can read the boards'' @ nl @
            ''  and news and mail the sysop meanwhile.'' @ nl) s)"

definition signed_in_box :: "nanos \<Rightarrow> (unit, caller) io" where
  "signed_in_box prev s =
     (let u = c_user s
      in box ''Signed in'' ([colLabel @ (if u_calls u = 1 then ''Welcome aboard, '' else ''Welcome back, '') @ colBright @ safe (u_handle u) @ colLabel @ ''!'', []] @
           (if 1 < u_calls u then [colInfo @ ''Last call '' @ colBorder @ '': '' @ colLabel @ longDate (sv_tz (c_srv s)) prev] else []) @
           [colInfo @ ''Calls     '' @ colBorder @ '': '' @ colValue @ itoa (u_calls u),
            colInfo @ ''Node      '' @ colBorder @ '': '' @ colValue @ itoa (c_node s) @ '' '' @ colDim @ ''via '' @ transport s] @
           (if u_sysop u then [[], colSysop @ ''You are a sysop. Press '' @ colBright @ ''!'' @ colSysop @ '' at the main menu for the sysop tools.''] else [])) s)"

definition afterLogin_record :: "(nanos, caller) io" where
  "afterLogin_record = bind_io (\<lambda>s. store_op (\<lambda>E. RecordLogin E (u_id (c_user s))) s) (\<lambda>r. case r of
       Inl e \<Rightarrow> fail_with e
     | Inr (u, prev) \<Rightarrow> then_io (effect (\<lambda>s. let s' = on_node (setUser u) (s\<lparr>c_user := u\<rparr>)
           in log_event EventLogin (u_id u) (u_handle u) (''node '' @ itoa (c_node s') @ '' via '' @ transport s') s'))
         (return_io prev))"

definition afterLogin_greet :: "(nanos, caller) io" where
  "afterLogin_greet = bind_io afterLogin_record (\<lambda>prev.
     bind_io (\<lambda>s. showCustomArt ''logon'' (screenTokens s) s) (\<lambda>shown.
       then_io (if shown then pause else return_io ())
         (then_io (screen_header ''Welcome'') (then_io (signed_in_box prev) (then_io approvalNotice (return_io prev))))))"

definition keyUserOf :: "int option \<Rightarrow> int" where
  "keyUserOf k = (case k of Some i \<Rightarrow> i | None \<Rightarrow> 0)"

text \<open>\<open>run\<close> as far as the greeting; \<open>tt\<close> and \<open>key\<close> are what the transport knows.\<close>

definition run_login :: "string option \<Rightarrow> int option \<Rightarrow> (bool, caller) io" where
  "run_login tt key = then_io (chooseTerminal tt False) (then_io welcome_screen
     (bind_io (if keyUserOf key \<noteq> 0 then keyLogin (keyUserOf key) else login) (\<lambda>ok.
        if \<not> ok then return_io False
        else then_io (effect (\<lambda>s. s\<lparr>c_loggedIn := True\<rparr>)) (then_io afterLogin_greet (return_io True)))))"

end
