(* ===== verification/Bbs_Admin.thy ===== *)
theory Bbs_Admin
  imports Bbs_Login Store_Mail Store_Boards Store_Email
begin

text \<open>
  \<open>internal/bbs/admin.go\<close>, with the e-mail that new BBS mail causes (\<open>email.go\<close>): the operations of the
  sysop's web interface. Each one acts on the running server: its database, its table of
  callers, its limiters, its mail queue. A log line of the process is not modelled.
\<close>

section \<open>The server at a moment\<close>

definition server_env :: "nanos \<Rightarrow> server \<Rightarrow> store_env" where
  "server_env now sv = (sv_env sv)\<lparr>se_now := now\<rparr>"

definition admin_store :: "(db \<Rightarrow> (error + 'r) \<times> db) \<Rightarrow> server \<Rightarrow> (error + 'r) \<times> server" where
  "admin_store f sv = (let (r, d) = f (sv_db sv) in (r, sv\<lparr>sv_db := d\<rparr>))"

definition admin_nodes :: "(nodeTable \<Rightarrow> nodeTable) \<Rightarrow> server \<Rightarrow> server" where
  "admin_nodes f sv = sv\<lparr>sv_nodes := f (sv_nodes sv)\<rparr>"

definition limit_blocked :: "nanos \<Rightarrow> limiter_at \<Rightarrow> string \<Rightarrow> server \<Rightarrow> bool \<times> server" where
  "limit_blocked now l key sv =
     (let (b, r) = blocked now key (fst l (sv_limit sv)) in (b, sv\<lparr>sv_limit := snd l (\<lambda>_. r) (sv_limit sv)\<rparr>))"

definition limit_hit :: "nanos \<Rightarrow> limiter_at \<Rightarrow> string \<Rightarrow> server \<Rightarrow> server" where
  "limit_hit now l key sv =
     (let (r, _) = hit no_store now key (fst l (sv_limit sv), ()) in sv\<lparr>sv_limit := snd l (\<lambda>_. r) (sv_limit sv)\<rparr>)"

definition limit_hit_saved :: "nanos \<Rightarrow> limiter_at \<Rightarrow> string \<Rightarrow> server \<Rightarrow> server" where
  "limit_hit_saved now l key sv =
     (let (r, d) = hit store_hits now key (fst l (sv_limit sv), sv_db sv)
      in sv\<lparr>sv_limit := snd l (\<lambda>_. r) (sv_limit sv), sv_db := d\<rparr>)"

definition at_emailNotices :: limiter_at where "at_emailNotices = (lm_emailNotices, lm_emailNotices_update)"
definition at_emailCopies :: limiter_at where "at_emailCopies = (lm_emailCopies, lm_emailCopies_update)"

section \<open>Text\<close>

definition bslash :: "char \<Rightarrow> string" where "bslash c = [CHR 0x5C, c]"

definition hex2 :: "nat \<Rightarrow> string" where
  "hex2 n = [hex_digit (n div 16), hex_digit (n mod 16)]"

definition hex4 :: "nat \<Rightarrow> string" where
  "hex4 n = hex2 (n div 256) @ hex2 (n mod 256)"

text \<open>\<open>%q\<close>: one rune \<open>r\<close> that took \<open>n\<close> bytes.\<close>

definition quote_rune :: "(rune \<Rightarrow> bool) \<Rightarrow> rune \<Rightarrow> nat \<Rightarrow> string \<Rightarrow> string" where
  "quote_rune pr r n bytes =
     (if n = 1 \<and> r = rune_error then bslash CHR ''x'' @ hex2 (byte_val (hd bytes))
      else if r = 0x22 \<or> r = 0x5C then bslash (byte_of r)
      else if (if r < 0x80 then 0x20 \<le> r \<and> r < 0x7F else pr r) then of_runes [r]
      else if r = 7 then bslash CHR ''a'' else if r = 8 then bslash CHR ''b'' else if r = 12 then bslash CHR ''f'' else if r = 10 then bslash CHR ''n''
      else if r = 13 then bslash CHR ''r'' else if r = 9 then bslash CHR ''t'' else if r = 11 then bslash CHR ''v''
      else if r < 0x20 \<or> r = 0x7F then bslash CHR ''x'' @ hex2 r
      else if r < 0x10000 then bslash CHR ''u'' @ hex4 r
      else bslash CHR ''U'' @ hex4 (r div 0x10000) @ hex4 (r mod 0x10000))"

function quote_loop :: "(rune \<Rightarrow> bool) \<Rightarrow> string \<Rightarrow> string" where
  "quote_loop pr s =
     (if s = [] then []
      else let (r, n) = decode_rune s in quote_rune pr r n s @ quote_loop pr (drop n s))"
  by pat_completeness auto
termination
proof (relation "measure (\<lambda>(pr, s). length s)", goal_cases)
  case prems: (2 pr s x r n)
  then have "0 < n" "s \<noteq> []" using decode_rune_width(2) [of s] by (auto simp: prod_eq_iff)
  then show ?case by (cases s) auto
qed auto

declare quote_loop.simps [simp del]

definition go_quote :: "(rune \<Rightarrow> bool) \<Rightarrow> string \<Rightarrow> string" where
  "go_quote pr s = [CHR 0x22] @ quote_loop pr s @ [CHR 0x22]"

section \<open>E-mail about new mail (email.go)\<close>

definition emailEnabled :: "server \<Rightarrow> bool" where
  "emailEnabled sv \<longleftrightarrow> sv_mail sv \<noteq> None"

definition replyFooter :: string where
  "replyFooter = nl @ nl @ ''-- '' @ nl @ ''Replies to this email are not delivered. Call the BBS to reply.''"

definition callHint :: "server \<Rightarrow> string" where
  "callHint sv =
     (if sv_publicAddress sv = [] then ''Call '' @ sv_name sv @ '' to read it.''
      else ''Call '' @ sv_name sv @ '' at '' @ sv_publicAddress sv @ '' to read it.'')"

text \<open>Called only when e-mail is enabled.\<close>

definition sendEmail :: "Email \<Rightarrow> server \<Rightarrow> (mail_queue_error + unit) \<times> server" where
  "sendEmail m sv = (case sv_mail sv of
       None \<Rightarrow> (Inl ErrQueueClosed, sv)
     | Some q \<Rightarrow> (let (r, q') = Enqueue m q in (r, sv\<lparr>sv_mail := Some q'\<rparr>)))"


definition notice_email :: "server \<Rightarrow> user \<Rightarrow> string \<Rightarrow> message \<Rightarrow> Email" where
  "notice_email sv to from m = \<lparr>em_To = u_email to, em_Subject = ''New mail on '' @ sv_name sv @ '' from '' @ from,
     em_Body = from @ '' sent you a message on '' @ sv_name sv @ '':'' @ nl @ nl @ ''  '' @ m_subject m @ nl @ nl @ callHint sv @ replyFooter\<rparr>"

definition copy_email :: "server \<Rightarrow> user \<Rightarrow> string \<Rightarrow> message \<Rightarrow> Email" where
  "copy_email sv to from m = \<lparr>em_To = u_email to, em_Subject = ''['' @ sv_name sv @ ''] '' @ m_subject m,
     em_Body = ''From: '' @ from @ nl @ ''Date: '' @ longDate (sv_tz sv) (m_sent m) @ nl @ nl @ m_body m @ replyFooter\<rparr>"

definition limited_email :: "nanos \<Rightarrow> limiter_at \<Rightarrow> string \<Rightarrow> Email \<Rightarrow> server \<Rightarrow> server" where
  "limited_email now l key m sv =
     (let (b, sv) = limit_blocked now l key sv in if b then sv else snd (sendEmail m (limit_hit now l key sv)))"

definition emailNewMail :: "nanos \<Rightarrow> user \<Rightarrow> string \<Rightarrow> message \<Rightarrow> bool \<Rightarrow> server \<Rightarrow> server" where
  "emailNewMail now to from m on sv =
     (if \<not> emailEnabled sv \<or> u_email to = [] then sv
      else if u_email_mode to = EmailNotice then
        (if on then sv else limited_email now at_emailNotices (userKey (u_id to)) (notice_email sv to from m) sv)
      else if u_email_mode to = EmailCopy then limited_email now at_emailCopies (userKey (u_id to)) (copy_email sv to from m) sv
      else sv)"

section \<open>Signing in (admin.go)\<close>

definition maxBroadcastLen :: nat where "maxBroadcastLen = 70"
definition webTag :: string where "webTag = '' (web)''"

datatype login_error = ErrLoginFailed | ErrLoginThrottled | LoginStore error

definition user_event :: "nanos \<Rightarrow> string \<Rightarrow> user \<Rightarrow> string \<Rightarrow> string \<Rightarrow> server \<Rightarrow> server" where
  "user_event now kind u ip detail = server_event now kind (u_id u) (u_handle u) ip detail"

definition with_accounts :: "loginBackoff \<Rightarrow> server \<Rightarrow> server" where
  "with_accounts b sv = sv\<lparr>sv_limit := (sv_limit sv)\<lparr>lm_accounts := b\<rparr>\<rparr>"

definition accounts_end :: "nanos \<Rightarrow> string \<Rightarrow> bool \<Rightarrow> server \<Rightarrow> server" where
  "accounts_end now account ok sv =
     (let (b, d) = backoff_end store_hits now account ok (lm_accounts (sv_limit sv), sv_db sv)
      in (with_accounts b sv)\<lparr>sv_db := d\<rparr>)"

text \<open>The pair is the error or the account, and how long to wait; \<open>ipKey\<close> is \<open>limitKey(ip)\<close>.\<close>

definition SysopLogin ::
    "nanos \<Rightarrow> (string \<Rightarrow> string) \<Rightarrow> string \<Rightarrow> string \<Rightarrow> string \<Rightarrow> server \<Rightarrow> ((login_error + user) \<times> nanos) \<times> server" where
  "SysopLogin now limitKey handle password ip sv =
     (let ipKey = limitKey ip;
          (b, sv) = limit_blocked now at_loginFailures ipKey sv
      in if b then ((Inl ErrLoginThrottled, 0), sv)
         else let account = ''handle:'' @ to_lower (se_lower (sv_env sv)) handle;
                  ((wait, ok), a) = backoff_begin now account (lm_accounts (sv_limit sv));
                  sv = with_accounts a sv
              in if \<not> ok then ((Inl ErrLoginThrottled, wait), sv)
                 else let r = Authenticate (server_env now sv) (sv_db sv) handle password;
                          failed = (\<lambda>sv. limit_hit_saved now at_loginFailures ipKey (accounts_end now account False sv))
                      in case r of
                        Inr u \<Rightarrow>
                          if u_sysop u \<and> \<not> u_locked u
                          then ((Inr u, 0), user_event now EventLogin u ip ''web'' (accounts_end now account True sv))
                          else ((Inl ErrLoginFailed, 0), user_event now EventLoginFailed u ip ''web: not a sysop or locked'' (failed sv))
                      | Inl e \<Rightarrow>
                          if e \<noteq> ErrBadCredentials
                          then ((Inl (LoginStore e), 0), with_accounts (backoff_release account (lm_accounts (sv_limit sv))) sv)
                          else ((Inl ErrLoginFailed, 0), user_event now EventLoginFailed (no_user\<lparr>u_handle := handle\<rparr>) ip ''web'' (failed sv)))"

definition Sysop :: "server \<Rightarrow> int \<Rightarrow> error + user" where
  "Sysop sv i = and_then (UserByID (sv_db sv) i) (\<lambda>u. if \<not> u_sysop u \<or> u_locked u then Inl ErrForbidden else Inr u)"

section \<open>Operations (admin.go)\<close>

definition webAudit :: "nanos \<Rightarrow> user \<Rightarrow> string \<Rightarrow> string \<Rightarrow> server \<Rightarrow> server" where
  "webAudit now actor ip detail = user_event now EventSysop actor ip (detail @ webTag)"

definition quoted :: "server \<Rightarrow> string \<Rightarrow> string" where
  "quoted sv = go_quote (sv_isPrint sv)"

definition KickNode :: "nanos \<Rightarrow> user \<Rightarrow> string \<Rightarrow> int \<Rightarrow> server \<Rightarrow> bool \<times> server" where
  "KickNode now actor ip nodeID sv =
     (let (found, t) = kick nodeID ''*** You have been disconnected by the sysop. ***'' (sv_nodes sv)
      in if \<not> found then (False, sv\<lparr>sv_nodes := t\<rparr>)
         else (True, webAudit now actor ip (''kicked node '' @ itoa nodeID) (sv\<lparr>sv_nodes := t\<rparr>)))"

definition Broadcast :: "nanos \<Rightarrow> user \<Rightarrow> string \<Rightarrow> string \<Rightarrow> server \<Rightarrow> (error + unit) \<times> server" where
  "Broadcast now actor ip text sv =
     (let text = trim_space (StripControl text)
      in if text = [] then (Inl (InputError ''Type something to broadcast.''), sv)
         else if maxBroadcastLen < length (runes text)
           then (Inl (InputError (''Broadcasts are at most '' @ itoa (int maxBroadcastLen) @ '' characters.'')), sv)
         else (Inr (), webAudit now actor ip (''broadcast '' @ quoted sv text)
                (admin_nodes (broadcast (''Sysop '' @ u_handle actor @ '': '' @ text) 0) sv)))"

text \<open>What most operations do: look the account up, run an operation of the store, and on success go on.\<close>

definition on_user ::
    "int \<Rightarrow> (user \<Rightarrow> db \<Rightarrow> (error + 'r) \<times> db) \<Rightarrow> (user \<Rightarrow> 'r \<Rightarrow> server \<Rightarrow> server) \<Rightarrow> server \<Rightarrow> (error + unit) \<times> server" where
  "on_user i f k sv = (case UserByID (sv_db sv) i of
       Inl e \<Rightarrow> (Inl e, sv)
     | Inr u \<Rightarrow> (case admin_store (f u) sv of
         (Inl e, sv) \<Rightarrow> (Inl e, sv)
       | (Inr v, sv) \<Rightarrow> (Inr (), k u v sv)))"

text \<open>The same for operations that look nothing up.\<close>

definition and_audit ::
    "(db \<Rightarrow> (error + 'r) \<times> db) \<Rightarrow> ('r \<Rightarrow> server \<Rightarrow> server) \<Rightarrow> server \<Rightarrow> (error + unit) \<times> server" where
  "and_audit f k sv = (case admin_store f sv of (Inl e, sv) \<Rightarrow> (Inl e, sv) | (Inr v, sv) \<Rightarrow> (Inr (), k v sv))"

definition ApproveUser :: "nanos \<Rightarrow> user \<Rightarrow> string \<Rightarrow> int \<Rightarrow> server \<Rightarrow> (error + unit) \<times> server" where
  "ApproveUser now actor ip i = on_user i (\<lambda>u. ValidateUser (u_id actor) i) (\<lambda>u _ sv.
     admin_nodes (\<lambda>t. snd (notify (u_id u) ''A sysop approved your account. Welcome in!'' t))
       (webAudit now actor ip (''approved '' @ u_handle u) sv))"

definition AdminSetLocked :: "nanos \<Rightarrow> user \<Rightarrow> string \<Rightarrow> int \<Rightarrow> bool \<Rightarrow> server \<Rightarrow> (error + unit) \<times> server" where
  "AdminSetLocked now actor ip i locked = on_user i (\<lambda>u. SetLocked (u_id actor) i locked) (\<lambda>u _ sv.
     if locked then webAudit now actor ip (''locked '' @ u_handle u)
       (admin_nodes (\<lambda>t. snd (kickUser i ''*** Your account has been locked by the sysop. ***'' t)) sv)
     else webAudit now actor ip (''unlocked '' @ u_handle u) sv)"

definition AdminSetSysop :: "nanos \<Rightarrow> user \<Rightarrow> string \<Rightarrow> int \<Rightarrow> bool \<Rightarrow> server \<Rightarrow> (error + unit) \<times> server" where
  "AdminSetSysop now actor ip i sysop = on_user i (\<lambda>u. SetSysop (u_id actor) i sysop) (\<lambda>u _.
     webAudit now actor ip (if sysop then ''promoted '' @ u_handle u @ '' to sysop'' else ''demoted '' @ u_handle u))"

definition AdminResetPassword :: "nanos \<Rightarrow> user \<Rightarrow> string \<Rightarrow> int \<Rightarrow> string \<Rightarrow> server \<Rightarrow> (error + unit) \<times> server" where
  "AdminResetPassword now actor ip i password sv =
     on_user i (\<lambda>u. ResetPassword (server_env now sv) (u_id actor) i password)
       (\<lambda>u _. webAudit now actor ip (''reset the password of '' @ u_handle u)) sv"

definition AdminDeleteUser :: "nanos \<Rightarrow> user \<Rightarrow> string \<Rightarrow> int \<Rightarrow> server \<Rightarrow> (error + unit) \<times> server" where
  "AdminDeleteUser now actor ip i sv = (case UserByID (sv_db sv) i of
       Inl e \<Rightarrow> (Inl e, sv)
     | Inr u \<Rightarrow>
         if u_id actor = i then (Inl ErrForbidden, sv)
         else and_audit (DeleteUser (u_id actor) i) (\<lambda>_. webAudit now actor ip (''deleted user '' @ u_handle u))
                (admin_nodes (\<lambda>t. snd (kickUser i ''*** Your account has been removed. ***'' t)) sv))"

definition SendMail :: "nanos \<Rightarrow> user \<Rightarrow> string \<Rightarrow> int \<Rightarrow> string \<Rightarrow> string \<Rightarrow> server \<Rightarrow> (error + unit) \<times> server" where
  "SendMail now actor ip toID subject body sv =
     on_user toID (\<lambda>u. SendMessage (server_env now sv) (u_id actor) toID subject body 0)
       (\<lambda>u msg sv.
         let (n, t) = notify (u_id u) (''New mail from '' @ u_handle actor @ '': '' @ m_subject msg) (sv_nodes sv);
             sv = emailNewMail now u (u_handle actor) msg (0 < n) (sv\<lparr>sv_nodes := t\<rparr>)
         in webAudit now actor ip (''mailed '' @ u_handle u @ '': '' @ quoted sv (m_subject msg)) sv) sv"

definition AdminCreateBoard :: "nanos \<Rightarrow> user \<Rightarrow> string \<Rightarrow> string \<Rightarrow> string \<Rightarrow> bool \<Rightarrow> server \<Rightarrow> (error + unit) \<times> server" where
  "AdminCreateBoard now actor ip name description sysopOnly sv =
     and_audit (CreateBoard (server_env now sv) (u_id actor) name description sysopOnly)
       (\<lambda>b. webAudit now actor ip (''created board '' @ quoted sv (b_name b))) sv"

definition AdminDeleteBoard :: "nanos \<Rightarrow> user \<Rightarrow> string \<Rightarrow> int \<Rightarrow> server \<Rightarrow> (error + unit) \<times> server" where
  "AdminDeleteBoard now actor ip i sv = (case Board (sv_db sv) i of
       Inl e \<Rightarrow> (Inl e, sv)
     | Inr b \<Rightarrow> and_audit (DeleteBoard (u_id actor) i) (\<lambda>_. webAudit now actor ip (''deleted board '' @ quoted sv (b_name b))) sv)"

definition AdminDeletePost :: "nanos \<Rightarrow> user \<Rightarrow> string \<Rightarrow> string \<Rightarrow> post \<Rightarrow> server \<Rightarrow> (error + unit) \<times> server" where
  "AdminDeletePost now actor ip boardName p sv = and_audit (DeletePost (p_id p) (u_id actor))
     (\<lambda>_. webAudit now actor ip (''deleted post '' @ quoted sv (p_subject p) @ '' on '' @ boardName)) sv"

definition AdminAddBulletin :: "nanos \<Rightarrow> user \<Rightarrow> string \<Rightarrow> string \<Rightarrow> string \<Rightarrow> server \<Rightarrow> (error + unit) \<times> server" where
  "AdminAddBulletin now actor ip title body sv = and_audit (AddBulletin (server_env now sv) (u_id actor) title body)
     (\<lambda>b sv'. admin_nodes (broadcast (''News: '' @ bu_title b) 0)
        (webAudit now actor ip (''posted bulletin '' @ quoted sv (bu_title b)) sv')) sv"

definition AdminDeleteBulletin :: "nanos \<Rightarrow> user \<Rightarrow> string \<Rightarrow> bulletin \<Rightarrow> server \<Rightarrow> (error + unit) \<times> server" where
  "AdminDeleteBulletin now actor ip b sv = and_audit (DeleteBulletin (u_id actor) (bu_id b))
     (\<lambda>_. webAudit now actor ip (''deleted bulletin '' @ quoted sv (bu_title b))) sv"

definition AdminDeleteOneliner :: "nanos \<Rightarrow> user \<Rightarrow> string \<Rightarrow> oneliner \<Rightarrow> server \<Rightarrow> (error + unit) \<times> server" where
  "AdminDeleteOneliner now actor ip l sv = and_audit (DeleteOneliner (u_id actor) (o_id l))
     (\<lambda>_. webAudit now actor ip (''deleted oneliner by '' @ o_handle l @ '': '' @ quoted sv (o_text l))) sv"

section \<open>Custom art (admin.go, customart.go)\<close>

definition customScreens :: "string list" where
  "customScreens = [''welcome'', ''newuser'', ''logon'', ''goodbye'']"

text \<open>Names that match \<open>screen.ext\<close> or \<open>screen.*.ext\<close>.\<close>

definition art_match :: "string \<Rightarrow> string \<Rightarrow> string \<Rightarrow> bool" where
  "art_match screen ext name \<longleftrightarrow> name = screen @ ext \<or>
     (prefix (screen @ ''.'') name \<and> suffix ext name \<and> length screen + 1 + length ext \<le> length name)"

fun bytes_le :: "string \<Rightarrow> string \<Rightarrow> bool" where
  "bytes_le [] t = True"
| "bytes_le (c # s) [] = False"
| "bytes_le (c # s) (d # t) \<longleftrightarrow> byte_val c < byte_val d \<or> (c = d \<and> bytes_le s t)"

fun insert_name :: "string \<Rightarrow> string list \<Rightarrow> string list" where
  "insert_name n [] = [n]"
| "insert_name n (m # ms) = (if bytes_le n m then n # m # ms else m # insert_name n ms)"

definition artFiles :: "server \<Rightarrow> string \<Rightarrow> string list" where
  "artFiles sv screen =
     (if sv_artDir sv = [] then []
      else foldr insert_name (remdups (filter (\<lambda>n. art_match screen ''.ans'' n \<or> art_match screen ''.txt'' n)
             (map fst (sv_artFolder sv)))) [])"

definition ArtScreens :: "server \<Rightarrow> (string \<times> string list) list" where
  "ArtScreens sv = (if sv_artDir sv = [] then [] else map (\<lambda>s. (s, artFiles sv s)) customScreens)"

text \<open>The base name, if \<open>ArtScreens\<close> lists it; the path is that name in the art folder.\<close>

definition ArtFile :: "string \<Rightarrow> server \<Rightarrow> string option" where
  "ArtFile name sv = (if list_ex (\<lambda>(s, fs). name \<in> set fs) (ArtScreens sv) then Some name else None)"

end
