(* ===== verification/Web_Session.thy ===== *)
theory Web_Session
  imports Bbs_Admin
begin

text \<open>
  \<open>internal/web/web.go\<close>: the table of signed-in sysops, what is read from a request, and the guard in
  front of every page. The Go map is an association list in the order of its iteration; every
  method of the table runs under its lock. A request keeps the key of its session, so that what it
  writes there is lost if the session was dropped meanwhile.
\<close>

section \<open>Sessions\<close>

definition idleTimeout :: nanos where "idleTimeout = 30 * minute"
definition absoluteTimeout :: nanos where "absoluteTimeout = 12 * hour"
definition maxSessions :: nat where "maxSessions = 64"

record web_session =
  ws_userID :: int
  ws_csrf :: string
  ws_flash :: string
  ws_created :: nanos
  ws_seen :: nanos

type_synonym sessionTable = "(string \<times> web_session) list"

text \<open>\<open>sha\<close> is SHA-256; \<open>random\<close> what \<open>randomToken\<close> returns.\<close>

definition tokenKey :: "(string \<Rightarrow> string) \<Rightarrow> string \<Rightarrow> string" where
  "tokenKey sha token = hex_encode (sha token)"

definition session_expired :: "nanos \<Rightarrow> web_session \<Rightarrow> bool" where
  "session_expired now s \<longleftrightarrow> idleTimeout < now - ws_seen s \<or> absoluteTimeout < now - ws_created s"

definition sweep_sessions :: "nanos \<Rightarrow> sessionTable \<Rightarrow> sessionTable" where
  "sweep_sessions now = filter (\<lambda>(k, s). \<not> session_expired now s)"

text \<open>The loop of \<open>create\<close>: the first of the sessions that were seen longest ago.\<close>

fun stalest :: "sessionTable \<Rightarrow> string" where
  "stalest [] = []"
| "stalest [(k, s)] = k"
| "stalest ((k, s) # (l, t) # r) = (if ws_seen t < ws_seen s then stalest ((l, t) # r) else stalest ((k, s) # r))"

definition create_session :: "(string \<Rightarrow> string) \<Rightarrow> string \<Rightarrow> string \<Rightarrow> int \<Rightarrow> nanos \<Rightarrow> sessionTable \<Rightarrow> sessionTable" where
  "create_session sha token csrf userID now t =
     (let t = sweep_sessions now t;
          t = (if maxSessions \<le> length t then AList.delete (stalest t) t else t)
      in AList.update (tokenKey sha token)
           \<lparr>ws_userID = userID, ws_csrf = csrf, ws_flash = [], ws_created = now, ws_seen = now\<rparr> t)"

definition get_session :: "(string \<Rightarrow> string) \<Rightarrow> string \<Rightarrow> nanos \<Rightarrow> sessionTable \<Rightarrow> (string \<times> web_session) option \<times> sessionTable" where
  "get_session sha token now t =
     (let key = tokenKey sha token
      in case map_of t key of
           None \<Rightarrow> (None, t)
         | Some s \<Rightarrow>
             if session_expired now s then (None, AList.delete key t)
             else (Some (key, s\<lparr>ws_seen := now\<rparr>), AList.update key (s\<lparr>ws_seen := now\<rparr>) t))"

definition drop_session :: "(string \<Rightarrow> string) \<Rightarrow> string \<Rightarrow> sessionTable \<Rightarrow> sessionTable" where
  "drop_session sha token = AList.delete (tokenKey sha token)"

definition dropUser :: "int \<Rightarrow> sessionTable \<Rightarrow> sessionTable" where
  "dropUser userID = filter (\<lambda>(k, s). ws_userID s \<noteq> userID)"

definition setFlash :: "string \<Rightarrow> string \<Rightarrow> sessionTable \<Rightarrow> sessionTable" where
  "setFlash key msg t = map (\<lambda>(k, s). (k, if k = key then s\<lparr>ws_flash := msg\<rparr> else s)) t"

definition takeFlash :: "string \<Rightarrow> sessionTable \<Rightarrow> string \<times> sessionTable" where
  "takeFlash key t = (case map_of t key of None \<Rightarrow> ([], t) | Some s \<Rightarrow> (ws_flash s, setFlash key [] t))"

section \<open>Requests and answers\<close>

datatype http_method = GET | POST | OtherMethod

record http_request =
  rq_method :: http_method
  rq_path :: "string list" \<comment> \<open>the elements of the cleaned path\<close>
  rq_query :: "string \<Rightarrow> string"
  rq_cookie :: "string option"
  rq_origin :: string
  rq_referer :: string
  rq_host :: string
  rq_remote :: string
  rq_realIP :: string
  rq_formOK :: bool \<comment> \<open>\<open>ParseForm\<close> succeeds on at most \<open>maxFormBytes\<close>\<close>
  rq_form :: "string \<Rightarrow> string" \<comment> \<open>\<open>PostFormValue\<close>\<close>

text \<open>What is used of Go's \<open>net\<close> and \<open>net/url\<close>: the host of \<open>host:port\<close>, whether a text is an
  address (and a loopback one), the host of a URL.\<close>

record net_lib =
  nl_SplitHost :: "string \<Rightarrow> string option"
  nl_ParseIP :: "string \<Rightarrow> bool option"
  nl_URLHost :: "string \<Rightarrow> string option"
  nl_limitKey :: "string \<Rightarrow> string"
  nl_sha256 :: "string \<Rightarrow> string"
  nl_fold :: "rune \<Rightarrow> rune" \<comment> \<open>for \<open>strings.EqualFold\<close> beyond ASCII\<close>

definition clientIP :: "net_lib \<Rightarrow> http_request \<Rightarrow> string" where
  "clientIP N r =
     (let host = (case nl_SplitHost N (rq_remote r) of None \<Rightarrow> rq_remote r | Some h \<Rightarrow> h);
          real = trim_space (rq_realIP r)
      in if nl_ParseIP N host = Some True \<and> nl_ParseIP N real \<noteq> None then real else host)"

definition sameOrigin :: "net_lib \<Rightarrow> http_request \<Rightarrow> bool" where
  "sameOrigin N r =
     (let origin = rq_origin r
      in if origin = [] \<or> origin = ''null''
         then (if rq_referer r = [] then origin = [] else nl_URLHost N (rq_referer r) = Some (rq_host r))
         else nl_URLHost N origin = Some (rq_host r))"

text \<open>What a page shows.\<close>

datatype page_data =
    LoginData string string
  | DashData "NodeInfo list" nat "user list" "event list"
  | CallersData "user list"
  | UsersData string "user list" nat
  | UserData user bool "NodeInfo list" "event list"
  | EventsData string "event list"
  | BoardsData "board_summary list"
  | BoardData board "(post \<times> string) list"
  | NewsData "(bulletin \<times> string) list"
  | OnelinersData "oneliner list"
  | ArtList "(string \<times> string list) list"
  | ArtView string string

record web_page =
  pg_Title :: string
  pg_Flash :: string
  pg_Error :: bool
  pg_CSRF :: string
  pg_Waiting :: nat
  pg_Online :: nat
  pg_Data :: page_data

datatype cookie_change = KeepCookie | SetCookie string | ClearCookie

datatype answer =
    SeeOther string
  | HttpError nat
  | Static
  | PageAnswer nat web_page
  | Panicked

type_synonym reply = "cookie_change \<times> answer"

record web =
  wb_srv :: server
  wb_sessions :: sessionTable

definition on_sessions :: "(sessionTable \<Rightarrow> sessionTable) \<Rightarrow> web \<Rightarrow> web" where
  "on_sessions f w = w\<lparr>wb_sessions := f (wb_sessions w)\<rparr>"

text \<open>A signed-in request.\<close>

record request =
  q_rq :: http_request
  q_key :: string
  q_csrf :: string
  q_user :: user
  q_ip :: string

section \<open>The guard\<close>

definition to_login :: "cookie_change \<Rightarrow> reply" where
  "to_login c = (c, SeeOther ''/login'')"

definition signedIn :: "net_lib \<Rightarrow> nanos \<Rightarrow> (request \<Rightarrow> web \<Rightarrow> reply \<times> web) \<Rightarrow> http_request \<Rightarrow> web \<Rightarrow> reply \<times> web" where
  "signedIn N now fn r w = (case rq_cookie r of
       None \<Rightarrow> (to_login KeepCookie, w)
     | Some c \<Rightarrow>
         let (found, t) = get_session (nl_sha256 N) c now (wb_sessions w); w = w\<lparr>wb_sessions := t\<rparr>
         in case found of
              None \<Rightarrow> (to_login ClearCookie, w)
            | Some (key, s) \<Rightarrow> (case Sysop (wb_srv w) (ws_userID s) of
                Inl e \<Rightarrow> (to_login ClearCookie, on_sessions (dropUser (ws_userID s)) w)
              | Inr u \<Rightarrow>
                  if rq_method r = POST \<and> \<not> rq_formOK r then ((KeepCookie, HttpError 400), w)
                  else if rq_method r = POST \<and> (\<not> sameOrigin N r \<or> rq_form r ''csrf'' \<noteq> ws_csrf s) then ((KeepCookie, HttpError 403), w)
                  else fn \<lparr>q_rq = r, q_key = key, q_csrf = ws_csrf s, q_user = u, q_ip = clientIP N r\<rparr> w))"

text \<open>\<open>done\<close>, \<open>failed\<close> and \<open>safeBack\<close>; log lines are not modelled.\<close>

definition local_path :: "string \<Rightarrow> bool" where
  "local_path to \<longleftrightarrow> prefix ''/'' to \<and> \<not> prefix ''//'' to"

definition done_post :: "request \<Rightarrow> string \<Rightarrow> string \<Rightarrow> web \<Rightarrow> reply \<times> web" where
  "done_post q to msg w =
     ((KeepCookie, SeeOther (if local_path to then to else ''/'')), if msg \<noteq> [] then on_sessions (setFlash (q_key q) msg) w else w)"

definition failed_text :: "error \<Rightarrow> string" where
  "failed_text e = (case e of
       InputError m \<Rightarrow> ''! '' @ m
     | ErrForbidden \<Rightarrow> ''! That is not allowed (you cannot do it to your own account).''
     | ErrNotFound \<Rightarrow> ''! It no longer exists.''
     | _ \<Rightarrow> ''! Something went wrong. The details are in the server log.'')"

definition failed_post :: "request \<Rightarrow> string \<Rightarrow> error \<Rightarrow> web \<Rightarrow> reply \<times> web" where
  "failed_post q to e = done_post q to (failed_text e)"

definition safeBack :: "string \<Rightarrow> string \<Rightarrow> string" where
  "safeBack back other = (if local_path back then back else other)"

text \<open>\<open>render\<close> for a signed-in request, and for the login page.\<close>

definition render_page :: "request \<Rightarrow> string \<Rightarrow> page_data \<Rightarrow> web \<Rightarrow> reply \<times> web" where
  "render_page q title data w =
     (let (flash, t) = takeFlash (q_key q) (wb_sessions w); err = prefix ''! '' flash
      in ((KeepCookie, PageAnswer 200 \<lparr>pg_Title = title, pg_Flash = (if err then drop 2 flash else flash), pg_Error = err, pg_CSRF = q_csrf q,
             pg_Waiting = length (PendingUsers (sv_db (wb_srv w))), pg_Online = length (online (sv_nodes (wb_srv w))), pg_Data = data\<rparr>),
          w\<lparr>wb_sessions := t\<rparr>))"

definition login_page :: "nat \<Rightarrow> string \<Rightarrow> string \<Rightarrow> reply" where
  "login_page status handle err = (KeepCookie, PageAnswer status \<lparr>pg_Title = ''Sysop login'', pg_Flash = [], pg_Error = False, pg_CSRF = [],
     pg_Waiting = 0, pg_Online = 0, pg_Data = LoginData handle err\<rparr>)"

end
