(* ===== verification/Web_Ansi.thy ===== *)
theory Web_Ansi
  imports Term_Art Term_Render
begin

text \<open>
  \<open>internal/web/ansi.go\<close>: the small ANSI terminal that previews custom art as HTML. Positions are
  64-bit integers that wrap around; \<open>None\<close> is a panic (an index out of range). The page that
  embeds the result trusts it, so the theorems are about every file a sysop may have put there.
\<close>

section \<open>Grid\<close>

definition artColumns :: int where "artColumns = 80"
definition artMaxRows :: int where "artMaxRows = 500"

record art_cell =
  ac_r :: rune
  ac_fg :: int
  ac_bg :: int

record art_screen =
  sc_rows :: "art_cell list list"
  sc_x :: int
  sc_y :: int
  sc_fg :: int
  sc_bg :: int
  sc_bold :: bool
  sc_saveX :: int
  sc_saveY :: int

definition newScreen :: art_screen where
  "newScreen = \<lparr>sc_rows = [], sc_x = 0, sc_y = 0, sc_fg = 7, sc_bg = 0, sc_bold = False, sc_saveX = 0, sc_saveY = 0\<rparr>"

text \<open>The result of an addition on \<open>int\<close>.\<close>

definition wrap64 :: "int \<Rightarrow> int" where
  "wrap64 i = (i + 2 ^ 63) mod 2 ^ 64 - 2 ^ 63"

text \<open>The loop of \<open>row\<close>.\<close>

definition grow_rows :: "int \<Rightarrow> art_cell list list \<Rightarrow> art_cell list list" where
  "grow_rows y rows = rows @ replicate (nat (min (y + 1) artMaxRows) - length rows) []"

definition blank_cell :: art_cell where
  "blank_cell = \<lparr>ac_r = 0x20, ac_fg = 7, ac_bg = 0\<rparr>"

definition art_put :: "rune \<Rightarrow> art_screen \<Rightarrow> art_screen option" where
  "art_put r s =
     (let s = (if artColumns \<le> sc_x s then s\<lparr>sc_x := 0, sc_y := wrap64 (sc_y s + 1)\<rparr> else s);
          s = s\<lparr>sc_rows := grow_rows (sc_y s) (sc_rows s)\<rparr>
      in if artMaxRows \<le> sc_y s then Some s
         else if sc_y s < 0 \<or> sc_x s < 0 then None
         else let row = sc_rows s ! nat (sc_y s);
                  row = row @ replicate (nat (sc_x s) + 1 - length row) blank_cell;
                  fg = (if sc_bold s \<and> sc_fg s < 8 then sc_fg s + 8 else sc_fg s)
              in Some (s\<lparr>sc_rows := (sc_rows s)[nat (sc_y s) := row[nat (sc_x s) := \<lparr>ac_r = r, ac_fg = fg, ac_bg = sc_bg s\<rparr>]],
                         sc_x := sc_x s + 1\<rparr>))"

section \<open>Control sequences\<close>

definition sgr_param :: "int \<Rightarrow> art_screen \<Rightarrow> art_screen" where
  "sgr_param p s =
     (if p = 0 then s\<lparr>sc_fg := 7, sc_bg := 0, sc_bold := False\<rparr>
      else if p = 1 then s\<lparr>sc_bold := True\<rparr>
      else if p = 22 then s\<lparr>sc_bold := False\<rparr>
      else if 30 \<le> p \<and> p \<le> 37 then s\<lparr>sc_fg := p - 30\<rparr>
      else if p = 39 then s\<lparr>sc_fg := 7\<rparr>
      else if 40 \<le> p \<and> p \<le> 47 then s\<lparr>sc_bg := p - 40\<rparr>
      else if p = 49 then s\<lparr>sc_bg := 0\<rparr>
      else if 90 \<le> p \<and> p \<le> 97 then s\<lparr>sc_fg := p - 90 + 8\<rparr>
      else s)"

definition art_sgr :: "int list \<Rightarrow> art_screen \<Rightarrow> art_screen" where
  "art_sgr params = fold sgr_param (if params = [] then [0] else params)"

definition first_or_one :: "int list \<Rightarrow> int" where
  "first_or_one ps = (case ps of p # _ \<Rightarrow> if 0 < p then p else 1 | [] \<Rightarrow> 1)"

definition erase_line :: "art_screen \<Rightarrow> art_screen option" where
  "erase_line s =
     (if sc_y s < int (length (sc_rows s)) then
        (if sc_y s < 0 then None
         else let row = sc_rows s ! nat (sc_y s)
              in if sc_x s < int (length row)
                 then (if sc_x s < 0 then None else Some (s\<lparr>sc_rows := (sc_rows s)[nat (sc_y s) := take (nat (sc_x s)) row]\<rparr>))
                 else Some s)
      else Some s)"

definition csi :: "char \<Rightarrow> int list \<Rightarrow> art_screen \<Rightarrow> art_screen option" where
  "csi f params s =
     (let n = first_or_one params
      in if f = CHR ''m'' then Some (art_sgr params s)
         else if f = CHR ''A'' then Some (s\<lparr>sc_y := max 0 (wrap64 (sc_y s - n))\<rparr>)
         else if f = CHR ''B'' then Some (s\<lparr>sc_y := wrap64 (sc_y s + n)\<rparr>)
         else if f = CHR ''C'' then Some (s\<lparr>sc_x := min (artColumns - 1) (wrap64 (sc_x s + n))\<rparr>)
         else if f = CHR ''D'' then Some (s\<lparr>sc_x := max 0 (wrap64 (sc_x s - n))\<rparr>)
         else if f = CHR ''H'' \<or> f = CHR ''f''
           then Some (s\<lparr>sc_y := n - 1, sc_x := min (artColumns - 1) (first_or_one (tl params) - 1)\<rparr>)
         else if f = CHR ''J'' then Some (if params \<noteq> [] \<and> hd params = 2 then s\<lparr>sc_rows := [], sc_x := 0, sc_y := 0\<rparr> else s)
         else if f = CHR ''K'' then erase_line s
         else if f = CHR ''s'' then Some (s\<lparr>sc_saveX := sc_x s, sc_saveY := sc_y s\<rparr>)
         else if f = CHR ''u'' then Some (s\<lparr>sc_x := sc_saveX s, sc_y := sc_saveY s\<rparr>)
         else Some s)"

text \<open>What follows \<open>ESC [\<close>: parameters, final byte, rest; \<open>None\<close> when the text ends first.\<close>

definition csi_inside :: "char \<Rightarrow> bool" where
  "csi_inside c \<longleftrightarrow> byte_val c < 0x40 \<or> 0x7E < byte_val c"

definition csi_split :: "string \<Rightarrow> (string \<times> char \<times> string) option" where
  "csi_split t =
     (case dropWhile csi_inside t of [] \<Rightarrow> None | f # r \<Rightarrow> Some (takeWhile csi_inside t, f, r))"

definition csi_params :: "string \<Rightarrow> int list" where
  "csi_params p = map (\<lambda>v. case atoi v of None \<Rightarrow> 0 | Some i \<Rightarrow> i) (split_on CHR '';'' (trim_left_bytes ''?'' p))"

text \<open>The rune at the front, and the length of its encoding: 3 for a byte that is not UTF-8.\<close>

definition decodeRune :: "string \<Rightarrow> rune \<times> nat" where
  "decodeRune t = (if t = [] then (0x20, 1) else let r = fst (decode_rune t) in (r, length (of_runes [r])))"

lemma csi_split_shorter: "csi_split t = Some (p, f, r) \<Longrightarrow> length r < length t"
  using length_dropWhile_le [of csi_inside t] by (auto simp: csi_split_def split: list.splits)

lemma decodeRune_pos: "0 < snd (decodeRune t)"
  using encode_rune_nonempty by (simp add: decodeRune_def Let_def of_runes_def)

function feed :: "string \<Rightarrow> art_screen \<Rightarrow> art_screen option" where
  "feed [] s = Some s"
| "feed (c # t) s =
     (if c = CHR 0x1B \<and> t \<noteq> [] \<and> hd t = CHR ''['' then
        (case csi_split (tl t) of
           None \<Rightarrow> Some s
         | Some (p, f, r) \<Rightarrow> Option.bind (csi f (csi_params p) s) (\<lambda>s. feed r s))
      else if c = CHR 0x0D then feed t (s\<lparr>sc_x := 0\<rparr>)
      else if c = CHR 0x0A then feed t (s\<lparr>sc_x := 0, sc_y := wrap64 (sc_y s + 1)\<rparr>)
      else if byte_val c < 0x20 then feed t s
      else let (r, n) = decodeRune (c # t) in Option.bind (art_put r s) (\<lambda>s. feed (drop n (c # t)) s))"
  by pat_completeness auto
termination
proof (relation "measure (\<lambda>(t, s). length t)", goal_cases)
  case prems: (2 c t)
  then show ?case by (cases t) (auto dest: csi_split_shorter)
next
  case prems: (6 c t)
  then show ?case using decodeRune_pos [of "c # t"] by (auto simp: prod_eq_iff)
qed simp_all

declare feed.simps(2) [simp del]

section \<open>HTML\<close>

definition html_char :: "char \<Rightarrow> string" where
  "html_char c =
     (if c = CHR 0x00 then of_runes [rune_error] else if c = CHR 0x22 then ''&#34;'' else if c = CHR 0x27 then ''&#39;''
     else if c = CHR ''&'' then ''&amp;'' else if c = CHR ''<'' then ''&lt;'' else if c = CHR ''>'' then ''&gt;'' else [c])"

definition HTMLEscapeString :: "string \<Rightarrow> string" where
  "HTMLEscapeString s = concat (map html_char s)"

definition same_colours :: "art_cell \<Rightarrow> art_cell \<Rightarrow> bool" where
  "same_colours a b \<longleftrightarrow> ac_fg b = ac_fg a \<and> ac_bg b = ac_bg a"

function cell_runs :: "art_cell list \<Rightarrow> art_cell list list" where
  "cell_runs [] = []"
| "cell_runs (c # cs) = (c # takeWhile (same_colours c) cs) # cell_runs (dropWhile (same_colours c) cs)"
  by pat_completeness auto
termination by (relation "measure length") (auto simp: le_imp_less_Suc length_dropWhile_le)

definition span_tag :: "int \<Rightarrow> int \<Rightarrow> string" where
  "span_tag fg bg = ''span class='' @ [CHR 0x22] @ ''f'' @ itoa fg @ '' b'' @ itoa bg @ [CHR 0x22]"

definition run_html :: "art_cell list \<Rightarrow> string" where
  "run_html cs = ''<'' @ span_tag (ac_fg (hd cs)) (ac_bg (hd cs)) @ ''>'' @
     concat (map (\<lambda>c. HTMLEscapeString (of_runes [ac_r c])) cs) @ ''</span>''"

definition drawn_rows :: "art_screen \<Rightarrow> art_cell list list" where
  "drawn_rows s = rev (dropWhile (\<lambda>row. row = []) (rev (sc_rows s)))"

definition art_html :: "art_screen \<Rightarrow> string" where
  "art_html s = concat (map (\<lambda>row. concat (map run_html (cell_runs row)) @ [CHR 0x0A]) (drawn_rows s))"

definition renderANS :: "string \<Rightarrow> string option" where
  "renderANS data = map_option art_html (feed (ConvertANSIArt data TermUTF8 True) newScreen)"

definition renderPipeText :: "string \<Rightarrow> string option" where
  "renderPipeText text = Option.bind (Render (NewRenderer ANSI16) text) (\<lambda>(out, r). map_option art_html (feed out newScreen))"

section \<open>The grid stays small\<close>

definition cell_ok :: "art_cell \<Rightarrow> bool" where
  "cell_ok c \<longleftrightarrow> 32 \<le> ac_r c \<and> 0 \<le> ac_fg c \<and> ac_fg c < 16 \<and> 0 \<le> ac_bg c \<and> ac_bg c < 8"

definition row_ok :: "art_cell list \<Rightarrow> bool" where
  "row_ok row \<longleftrightarrow> length row \<le> 80 \<and> list_all cell_ok row"

definition screen_ok :: "art_screen \<Rightarrow> bool" where
  "screen_ok s \<longleftrightarrow> length (sc_rows s) \<le> 500 \<and> list_all row_ok (sc_rows s) \<and>
     0 \<le> sc_fg s \<and> sc_fg s < 16 \<and> 0 \<le> sc_bg s \<and> sc_bg s < 8"

lemma list_all_upd: "list_all P xs \<Longrightarrow> P x \<Longrightarrow> list_all P (xs[i := x])"
  using set_update_subset_insert [of xs i x] by (auto simp: list_all_iff)

lemma grow_rows_ok: "list_all row_ok rows \<Longrightarrow> list_all row_ok (grow_rows y rows)"
  by (auto simp: grow_rows_def row_ok_def list_all_iff)

lemma length_grow_rows:
  "length rows \<le> 500 \<Longrightarrow> length (grow_rows y rows) \<le> 500"
  "0 \<le> y \<Longrightarrow> y < 500 \<Longrightarrow> nat y < length (grow_rows y rows)"
  by (auto simp: grow_rows_def artMaxRows_def)

lemma art_put_ok:
  assumes ok: "screen_ok s" and r: "32 \<le> r" and put: "art_put r s = Some s'"
  shows "screen_ok s'"
proof -
  obtain t where t: "t = (if artColumns \<le> sc_x s then s\<lparr>sc_x := 0, sc_y := wrap64 (sc_y s + 1)\<rparr> else s)" by blast
  have t_ok: "sc_rows t = sc_rows s" "sc_fg t = sc_fg s" "sc_bg t = sc_bg s" "sc_x t < 80" by (simp_all add: t artColumns_def)
  let ?rows = "grow_rows (sc_y t) (sc_rows t)" and ?y = "nat (sc_y t)" and ?x = "nat (sc_x t)"
  let ?row = "?rows ! ?y @ replicate (?x + 1 - length (?rows ! ?y)) blank_cell"
  let ?fg = "if sc_bold t \<and> sc_fg t < 8 then sc_fg t + 8 else sc_fg t"
  have rows: "list_all row_ok ?rows" "length ?rows \<le> 500"
    using ok t_ok by (simp_all add: screen_ok_def grow_rows_ok length_grow_rows)
  show ?thesis
  proof (cases "artMaxRows \<le> sc_y t")
    case True
    then have "s' = t\<lparr>sc_rows := ?rows\<rparr>" using put by (simp add: art_put_def Let_def t [symmetric])
    then show ?thesis using ok rows t_ok by (simp add: screen_ok_def)
  next
    case False
    then have pos: "0 \<le> sc_y t" "0 \<le> sc_x t"
      and s': "s' = t\<lparr>sc_rows := ?rows[?y := ?row[?x := \<lparr>ac_r = r, ac_fg = ?fg, ac_bg = sc_bg t\<rparr>]], sc_x := sc_x t + 1\<rparr>"
      using put by (auto simp: art_put_def Let_def t [symmetric] split: if_splits)
    have "?y < length ?rows" using False pos by (intro length_grow_rows) (simp_all add: artMaxRows_def)
    then have "row_ok (?rows ! ?y)" using rows(1) by (simp add: list_all_length)
    then have "row_ok ?row" using t_ok(4) pos by (auto simp: row_ok_def list_all_iff blank_cell_def cell_ok_def)
    moreover have "cell_ok \<lparr>ac_r = r, ac_fg = ?fg, ac_bg = sc_bg t\<rparr>" using ok r t_ok by (auto simp: cell_ok_def screen_ok_def)
    ultimately have "row_ok (?row[?x := \<lparr>ac_r = r, ac_fg = ?fg, ac_bg = sc_bg t\<rparr>])"
      unfolding row_ok_def by (simp only: length_list_update list_all_upd simp_thms)
    then have "list_all row_ok (?rows[?y := ?row[?x := \<lparr>ac_r = r, ac_fg = ?fg, ac_bg = sc_bg t\<rparr>]])" by (intro list_all_upd rows)
    then show ?thesis unfolding s' using rows(2) ok t_ok(2,3) by (simp only: screen_ok_def) simp
  qed
qed

lemma sgr_param_ok: "screen_ok s \<Longrightarrow> screen_ok (sgr_param p s)"
  by (auto simp: sgr_param_def screen_ok_def)

lemma art_sgr_ok: "screen_ok s \<Longrightarrow> screen_ok (art_sgr ps s)"
proof -
  have "screen_ok s \<Longrightarrow> screen_ok (fold sgr_param ps s)" for ps s
    by (induction ps arbitrary: s) (auto intro: sgr_param_ok)
  then show "screen_ok s \<Longrightarrow> screen_ok (art_sgr ps s)" by (simp add: art_sgr_def)
qed

lemma screen_ok_pos [simp]:
  "screen_ok (s\<lparr>sc_x := x\<rparr>) = screen_ok s" "screen_ok (s\<lparr>sc_y := y\<rparr>) = screen_ok s"
  "screen_ok (s\<lparr>sc_saveX := x\<rparr>) = screen_ok s" "screen_ok (s\<lparr>sc_saveY := y\<rparr>) = screen_ok s"
  by (simp_all add: screen_ok_def)

lemma erase_line_ok:
  assumes ok: "screen_ok s" and e: "erase_line s = Some s'"
  shows "screen_ok s'"
proof -
  have "row_ok (take k row)" if "row_ok row" for k row
    using that set_take_subset [of k row] by (auto simp: row_ok_def list_all_iff)
  moreover have "row_ok (sc_rows s ! y)" if "y < length (sc_rows s)" for y
    using ok that by (simp add: screen_ok_def list_all_length)
  ultimately have cut: "list_all row_ok ((sc_rows s)[y := take k (sc_rows s ! y)])" if "y < length (sc_rows s)" for k y
    using ok that by (intro list_all_upd) (simp_all add: screen_ok_def)
  show ?thesis
  proof (cases "s' = s")
    case False
    then have "nat (sc_y s) < length (sc_rows s)"
      "s' = s\<lparr>sc_rows := (sc_rows s)[nat (sc_y s) := take (nat (sc_x s)) (sc_rows s ! nat (sc_y s))]\<rparr>"
      using e by (auto simp: erase_line_def Let_def split: if_splits)
    with cut ok show ?thesis by (simp add: screen_ok_def)
  qed (use ok in simp)
qed

lemma csi_ok:
  assumes ok: "screen_ok s"
  shows "pred_option screen_ok (csi f ps s)"
proof -
  have home: "screen_ok (s\<lparr>sc_rows := []\<rparr>)" using ok by (simp add: screen_ok_def)
  have erase: "pred_option screen_ok (erase_line s)" using erase_line_ok [OF ok] by (cases "erase_line s") auto
  show ?thesis
    unfolding csi_def Let_def if_distrib [of "pred_option screen_ok"] by (simp add: ok home erase art_sgr_ok)
qed

lemma decode_vals_big: "128 \<le> b0 \<Longrightarrow> 128 \<le> fst (decode_vals (b0 # bs))"
  by (cases bs; cases "tl bs"; cases "tl (tl bs)") (auto simp: rune_error_def second_ok_def)

lemma decodeRune_printable: "32 \<le> byte_val c \<Longrightarrow> 32 \<le> fst (decodeRune (c # t))"
  using decode_vals_big [of "byte_val c" "map byte_val (take 3 t)"]
  by (cases "byte_val c < 128") (auto simp: decodeRune_def Let_def decode_rune_def numeral_eq_Suc)

lemma feed_ok: "screen_ok s \<Longrightarrow> feed t s = Some s' \<Longrightarrow> screen_ok s'"
proof (induction t s rule: feed.induct)
  case (2 c t s)
  show ?case
  proof (cases "c = CHR 0x1B \<and> t \<noteq> [] \<and> hd t = CHR ''[''")
    case True
    show ?thesis
    proof (cases "csi_split (tl t)")
      case None
      with 2 True show ?thesis by (simp add: feed.simps)
    next
      case (Some q)
      obtain p f r where q: "q = (p, f, r)" by (cases q)
      obtain s1 where "csi f (csi_params p) s = Some s1" "feed r s1 = Some s'"
        using 2(7) True Some q by (auto simp: feed.simps(2) bind_eq_Some_conv)
      with 2(1) [OF True Some, of p "(f, r)" f r s1] q csi_ok [OF 2(6), of f "csi_params p"] show ?thesis by simp
    qed
  next
    case esc: False
    consider "c = CHR 0x0D" | "c = CHR 0x0A" | "c \<noteq> CHR 0x0D" "c \<noteq> CHR 0x0A" "byte_val c < 0x20"
      | "c \<noteq> CHR 0x0D" "c \<noteq> CHR 0x0A" "\<not> byte_val c < 0x20" by blast
    then show ?thesis
    proof cases
      case 4
      obtain r n where rn: "decodeRune (c # t) = (r, n)" by (cases "decodeRune (c # t)")
      then have "32 \<le> r" using decodeRune_printable [of c t] 4 by simp
      moreover obtain s1 where "art_put r s = Some s1" "feed (drop n (c # t)) s1 = Some s'"
        using 2(7) esc 4 rn by (auto simp: feed.simps(2) bind_eq_Some_conv)
      ultimately show ?thesis using 2(5) [OF esc 4] rn art_put_ok [OF 2(6)] by simp
    qed (use 2 esc in \<open>auto simp: feed.simps(2)\<close>)
  qed
qed simp

section \<open>What a browser reads\<close>

text \<open>The tags of a page, and the text outside them; inside a tag the characters so far are carried.\<close>

fun read_html :: "string option \<Rightarrow> string \<Rightarrow> string list \<times> string" where
  "read_html None [] = ([], [])"
| "read_html (Some t) [] = ([t], [])"
| "read_html None (c # s) = (if c = CHR ''<'' then read_html (Some []) s else map_prod id ((#) c) (read_html None s))"
| "read_html (Some t) (c # s) = (if c = CHR ''>'' then map_prod ((#) t) id (read_html None s) else read_html (Some (t @ [c])) s)"

definition html_entities :: "(string \<times> char) list" where
  "html_entities = [(''&#34;'', CHR 0x22), (''&#39;'', CHR 0x27), (''&amp;'', CHR ''&''), (''&lt;'', CHR ''<''), (''&gt;'', CHR ''>'')]"

function unescape :: "string \<Rightarrow> string" where
  "unescape [] = []"
| "unescape (c # s) = (case find (\<lambda>(e, d). prefix e (c # s)) html_entities of
       Some (e, d) \<Rightarrow> d # unescape (drop (length e) (c # s))
     | None \<Rightarrow> c # unescape s)"
  by pat_completeness auto
termination
proof (relation "measure length", goal_cases)
  case prems: (3 c s x e d)
  then have "(e, d) \<in> set html_entities" by (auto simp: find_Some_iff in_set_conv_nth)
  then have "e \<noteq> []" by (auto simp: html_entities_def)
  then show ?case by (cases e) auto
qed auto

declare unescape.simps(2) [simp del]

lemma read_html_text: "CHR ''<'' \<notin> set a \<Longrightarrow> read_html None (a @ b) = map_prod id ((@) a) (read_html None b)"
  by (induction a) (auto simp: map_prod_def split: prod.splits)

lemma read_html_tag: "CHR ''>'' \<notin> set a \<Longrightarrow> read_html (Some t) (a @ CHR ''>'' # b) = map_prod ((#) (t @ a)) id (read_html None b)"
  by (induction a arbitrary: t) auto

lemma unescape_char: "c \<noteq> CHR 0x00 \<Longrightarrow> unescape (html_char c @ s) = c # unescape s"
proof (cases "html_char c = [c]")
  case True
  then have "c \<noteq> CHR ''&''" by (auto simp: html_char_def)
  then have "find (\<lambda>(e, d). prefix e (c # s)) html_entities = None" by (auto simp: html_entities_def)
  with True show ?thesis by (simp add: unescape.simps(2))
next
  case False
  assume "c \<noteq> CHR 0x00"
  with False have "(html_char c, c) \<in> set html_entities" by (auto simp: html_char_def html_entities_def split: if_splits)
  then show ?thesis by (auto simp: html_entities_def unescape.simps(2))
qed

lemma unescape_escape: "CHR 0x00 \<notin> set a \<Longrightarrow> unescape (HTMLEscapeString a @ s) = a @ unescape s"
  by (induction a) (auto simp: HTMLEscapeString_def unescape_char)

lemma html_char_no_tag: "CHR ''<'' \<notin> set (html_char c)"
proof -
  have "of_runes [rune_error] = [CHR 0xEF, CHR 0xBF, CHR 0xBD]"
    by (simp add: of_runes_def encode_rune_def encode_valid_def rune_error_def valid_rune_def byte_of_def) code_simp
  then show ?thesis by (simp add: html_char_def)
qed

lemma escape_no_tag: "CHR ''<'' \<notin> set (HTMLEscapeString s)"
  using html_char_no_tag by (simp add: HTMLEscapeString_def)

lemma span_tag_no_end: "CHR ''>'' \<notin> set (span_tag fg bg)"
proof -
  have "CHR ''>'' \<notin> set (itoa i)" for i using itoa_chars [of "CHR ''>''" i] by (auto simp: is_digit_def byte_val_def)
  then show ?thesis by (simp add: span_tag_def)
qed

abbreviation run_text :: "art_cell list \<Rightarrow> string" where
  "run_text cs \<equiv> of_runes (map ac_r cs)"

lemma run_text_escaped: "concat (map (\<lambda>c. HTMLEscapeString (encode_rune (ac_r c))) cs) = HTMLEscapeString (run_text cs)"
  by (induction cs) (simp_all add: HTMLEscapeString_def)

lemma read_run:
  "read_html None (run_html cs @ b) =
     map_prod ((@) [span_tag (ac_fg (hd cs)) (ac_bg (hd cs)), ''/span'']) ((@) (HTMLEscapeString (run_text cs))) (read_html None b)"
proof -
  let ?tag = "span_tag (ac_fg (hd cs)) (ac_bg (hd cs))" and ?text = "HTMLEscapeString (run_text cs)"
  have "read_html None (run_html cs @ b) = read_html (Some []) (?tag @ CHR ''>'' # ?text @ ''</span>'' @ b)"
    by (simp add: run_html_def run_text_escaped)
  also have "\<dots> = map_prod ((#) ?tag) id (read_html None (?text @ ''</span>'' @ b))"
    using read_html_tag [OF span_tag_no_end] by simp
  also have "read_html None (?text @ ''</span>'' @ b) = map_prod id ((@) ?text) (read_html None (''</span>'' @ b))"
    by (rule read_html_text [OF escape_no_tag])
  also have "read_html None (''</span>'' @ b) = map_prod ((#) ''/span'') id (read_html None b)" by simp
  finally show ?thesis by (simp add: map_prod_def split: prod.splits)
qed

definition tag_ok :: "string \<Rightarrow> bool" where
  "tag_ok t \<longleftrightarrow> t = ''/span'' \<or> (\<exists>fg bg. 0 \<le> fg \<and> fg < 16 \<and> 0 \<le> bg \<and> bg < 8 \<and> t = span_tag fg bg)"

lemma cell_runs_all: "list_all P cs \<Longrightarrow> list_all (\<lambda>run. run \<noteq> [] \<and> list_all P run) (cell_runs cs)"
  by (induction cs rule: cell_runs.induct) (auto simp: list_all_iff dest: set_takeWhileD set_dropWhileD)

lemma concat_cell_runs: "concat (cell_runs cs) = cs"
  by (induction cs rule: cell_runs.induct) auto

text \<open>Both components of what is read, for a page that ends in \<open>b\<close>.\<close>

definition reads :: "string \<Rightarrow> string \<Rightarrow> bool" where
  "reads page text \<longleftrightarrow> (\<forall>b. snd (read_html None (page @ b)) = HTMLEscapeString text @ snd (read_html None b) \<and>
     (list_all tag_ok (fst (read_html None b)) \<longrightarrow> list_all tag_ok (fst (read_html None (page @ b)))))"

lemma reads_Nil: "reads [] []"
  by (simp add: reads_def HTMLEscapeString_def)

lemma reads_append: "reads p s \<Longrightarrow> reads q t \<Longrightarrow> reads (p @ q) (s @ t)"
  by (simp add: reads_def HTMLEscapeString_def)

lemma reads_concat: "(\<And>x. x \<in> set xs \<Longrightarrow> reads (f x) (g x)) \<Longrightarrow> reads (concat (map f xs)) (concat (map g xs))"
  by (induction xs) (auto intro: reads_append reads_Nil)

lemma reads_run: "cs \<noteq> [] \<Longrightarrow> list_all cell_ok cs \<Longrightarrow> reads (run_html cs) (run_text cs)"
  unfolding reads_def read_run by (cases cs) (auto simp: tag_ok_def cell_ok_def)

lemma reads_row:
  assumes "row_ok row"
  shows "reads (concat (map run_html (cell_runs row)) @ [CHR 0x0A]) (run_text row @ [CHR 0x0A])"
proof (rule reads_append)
  have runs: "list_all (\<lambda>run. run \<noteq> [] \<and> list_all cell_ok run) (cell_runs row)"
    using assms by (intro cell_runs_all) (simp add: row_ok_def)
  have "run_text (concat css) = concat (map run_text css)" for css
    by (induction css) (simp_all add: of_runes_append)
  from this [of "cell_runs row"] have "run_text row = concat (map run_text (cell_runs row))" by (simp only: concat_cell_runs)
  with runs show "reads (concat (map run_html (cell_runs row))) (run_text row)"
    by (auto intro!: reads_concat reads_run simp: list_all_iff)
  show "reads [CHR 0x0A] [CHR 0x0A]" by (simp add: reads_def HTMLEscapeString_def html_char_def)
qed

lemma text_of_row_no_nul:
  assumes "row_ok row"
  shows "CHR 0x00 \<notin> set (run_text row)"
proof -
  have "0 < byte_val c" if "c \<in> set (encode_valid r)" "32 \<le> r" "valid_rune r" for c r
    using that by (auto simp: encode_valid_def byte_val_byte_of valid_rune_def split: if_splits)
  then have "CHR 0x00 \<notin> set (encode_rune r)" if "32 \<le> r" for r
    using that by (cases "valid_rune r") (fastforce simp: encode_rune_def rune_error_def valid_rune_def byte_val_def)+
  then show ?thesis using assms by (auto simp: of_runes_def row_ok_def cell_ok_def list_all_iff)
qed

definition demo_ansi :: string where
  "demo_ansi = CHR 0x1B # ''[1;31m<b>'' @ [CHR 0x0A]"

text \<open>
  Claim C32. A preview cannot inject anything into the page. Whatever bytes an art file holds, if the
  preview is made, its HTML holds no tags but spans with one of the sixteen foreground and eight
  background classes, and the text a browser shows between them, entities decoded, is exactly the
  characters drawn on the grid, row by row; the grid is at most 500 rows of 80 columns.
\<close>

theorem preview_confined:
  assumes "feed text newScreen = Some s"
  shows "list_all tag_ok (fst (read_html None (art_html s))) \<and>
    unescape (snd (read_html None (art_html s))) = concat (map (\<lambda>row. of_runes (map ac_r row) @ [CHR 0x0A]) (drawn_rows s)) \<and>
    length (drawn_rows s) \<le> 500 \<and> list_all (\<lambda>row. length row \<le> 80) (drawn_rows s)"
proof -
  have "screen_ok newScreen" by (simp add: screen_ok_def newScreen_def)
  from feed_ok [OF this assms] have ok: "screen_ok s" .
  have sub: "set (drawn_rows s) \<subseteq> set (sc_rows s)" by (auto simp: drawn_rows_def dest: set_dropWhileD)
  have len: "length (drawn_rows s) \<le> length (sc_rows s)"
    using length_dropWhile_le [of "\<lambda>row. row = []" "rev (sc_rows s)"] by (simp add: drawn_rows_def)
  have rows: "row_ok row" if "row \<in> set (drawn_rows s)" for row
    using that sub ok by (auto simp: screen_ok_def list_all_iff)
  let ?text = "concat (map (\<lambda>row. of_runes (map ac_r row) @ [CHR 0x0A]) (drawn_rows s))"
  have "reads (art_html s) ?text" unfolding art_html_def using rows by (intro reads_concat reads_row)
  then have read: "snd (read_html None (art_html s @ [])) = HTMLEscapeString ?text @ snd (read_html None [])"
      "list_all tag_ok (fst (read_html None (art_html s @ [])))"
    unfolding reads_def by (simp_all only:) (simp del: append_Nil2)
  have "CHR 0x00 \<notin> set (run_text row)" if "row \<in> set (drawn_rows s)" for row
    using text_of_row_no_nul [OF rows [OF that]] .
  then have "CHR 0x00 \<notin> set ?text" by auto
  then have "unescape (snd (read_html None (art_html s))) = ?text"
    using read(1) unescape_escape [of ?text "[]"] by simp
  then show ?thesis using read(2) len ok rows by (auto simp: screen_ok_def row_ok_def list_all_iff)
qed

section \<open>When the preview is made\<close>

text \<open>No number in a control sequence, here or later in the text, is above a billion.\<close>

definition small_here :: "string \<Rightarrow> bool" where
  "small_here t = (case t of e # b # u \<Rightarrow>
       (if e = CHR 0x1B \<and> b = CHR ''['' then
          (case csi_split u of None \<Rightarrow> True | Some (p, f, r) \<Rightarrow> list_all (\<lambda>n. n \<le> 10 ^ 9) (csi_params p))
        else True)
     | _ \<Rightarrow> True)"

definition small_numbers :: "string \<Rightarrow> bool" where
  "small_numbers t \<longleftrightarrow> list_all small_here (suffixes t)"

lemma small_numbers_suffix: "small_numbers t \<Longrightarrow> suffix u t \<Longrightarrow> small_numbers u"
  by (auto simp: small_numbers_def list_all_iff intro: suffix_order.trans)

lemma small_numbers_drop: "small_numbers t \<Longrightarrow> small_numbers (drop n t)"
  by (erule small_numbers_suffix) (rule suffix_drop)

lemma csi_split_suffix:
  assumes "csi_split t = Some (p, f, r)"
  shows "suffix r t"
proof -
  have "dropWhile csi_inside t = f # r" using assms by (auto simp: csi_split_def split: list.splits)
  then have "t = (takeWhile csi_inside t @ [f]) @ r" using takeWhile_dropWhile_id [of csi_inside t] by simp
  then show ?thesis by (rule suffixI)
qed

lemma wrap64_id: "- (2 ^ 63) \<le> i \<Longrightarrow> i < 2 ^ 63 \<Longrightarrow> wrap64 i = i"
  by (simp add: wrap64_def)

text \<open>Positions that are on the grid or below it, by at most \<open>k\<close> rows.\<close>

definition placed :: "int \<Rightarrow> art_screen \<Rightarrow> bool" where
  "placed k s \<longleftrightarrow> 0 \<le> sc_x s \<and> sc_x s \<le> 80 \<and> 0 \<le> sc_y s \<and> sc_y s \<le> k \<and> 0 \<le> sc_saveX s \<and> sc_saveX s \<le> 80 \<and> 0 \<le> sc_saveY s \<and> sc_saveY s \<le> k"

lemma placed_mono: "placed k s \<Longrightarrow> k \<le> l \<Longrightarrow> placed l s"
  by (auto simp: placed_def)

lemma art_put_total:
  assumes "placed k s" "k < 2 ^ 63 - 1"
  shows "\<exists>s'. art_put r s = Some s' \<and> placed (k + 1) s'"
proof -
  have "wrap64 (sc_y s + 1) = sc_y s + 1" using assms by (intro wrap64_id) (auto simp: placed_def)
  with assms show ?thesis by (auto simp: art_put_def Let_def placed_def artColumns_def)
qed

lemma first_or_one_bounds: "list_all (\<lambda>n. n \<le> 10 ^ 9) ps \<Longrightarrow> 1 \<le> first_or_one ps \<and> first_or_one ps \<le> 10 ^ 9"
  by (cases ps) (auto simp: first_or_one_def)

lemma art_sgr_placed: "placed k (art_sgr ps s) = placed k s"
proof -
  have "placed k (fold sgr_param qs s) = placed k s" for qs
    by (induction qs arbitrary: s) (auto simp: sgr_param_def placed_def)
  then show ?thesis by (simp add: art_sgr_def)
qed

lemma csi_total:
  assumes p: "placed k s" and k: "k + 10 ^ 9 < 2 ^ 63" and ps: "list_all (\<lambda>n. n \<le> 10 ^ 9) ps"
  shows "\<exists>s'. csi f ps s = Some s' \<and> placed (k + 10 ^ 9) s'"
proof -
  note n = first_or_one_bounds [OF ps]
  have "list_all (\<lambda>n. n \<le> 10 ^ 9) (tl ps)" using ps by (cases ps) auto
  note m = first_or_one_bounds [OF this]
  have w: "wrap64 (sc_y s - first_or_one ps) = sc_y s - first_or_one ps" "wrap64 (sc_y s + first_or_one ps) = sc_y s + first_or_one ps"
    "wrap64 (sc_x s - first_or_one ps) = sc_x s - first_or_one ps" "wrap64 (sc_x s + first_or_one ps) = sc_x s + first_or_one ps"
    using p k n by (auto simp: placed_def intro!: wrap64_id)
  have "\<exists>s'. erase_line s = Some s' \<and> placed k s'" using p by (auto simp: erase_line_def Let_def placed_def)
  then have erase: "\<exists>s'. erase_line s = Some s' \<and> placed (k + 10 ^ 9) s'" using placed_mono [of k _ "k + 10 ^ 9"] by auto
  have keep: "placed (k + 10 ^ 9) s" using placed_mono [OF p] by simp
  let ?n = "first_or_one ps" and ?l = "k + 10 ^ 9"
  have moves: "placed ?l (s\<lparr>sc_y := max 0 (sc_y s - ?n)\<rparr>)" "placed ?l (s\<lparr>sc_y := sc_y s + ?n\<rparr>)"
    "placed ?l (s\<lparr>sc_x := min 79 (sc_x s + ?n)\<rparr>)" "placed ?l (s\<lparr>sc_x := max 0 (sc_x s - ?n)\<rparr>)"
    "placed ?l (s\<lparr>sc_y := ?n - 1, sc_x := min 79 (first_or_one (tl ps) - 1)\<rparr>)"
    "placed ?l (s\<lparr>sc_rows := [], sc_x := 0, sc_y := 0\<rparr>)"
    "placed ?l (s\<lparr>sc_saveX := sc_x s, sc_saveY := sc_y s\<rparr>)" "placed ?l (s\<lparr>sc_x := sc_saveX s, sc_y := sc_saveY s\<rparr>)"
    using p n m by (auto simp: placed_def)
  have "placed ?l (art_sgr ps s)" "placed ?l (if b then s\<lparr>sc_rows := [], sc_x := 0, sc_y := 0\<rparr> else s)" for b
    using keep moves by (simp_all only: art_sgr_placed if_split simp_thms)
  note all = this moves keep
  let ?goal = "\<lambda>o'. \<exists>s'. o' = Some s' \<and> placed ?l s'"
  have col: "artColumns - 1 = 79" by (simp add: artColumns_def)
  show ?thesis
    unfolding csi_def Let_def if_distrib [of ?goal] w col
    using all erase by (simp only: option.inject ex_simps simp_thms if_cancel)
qed

lemma feed_total:
  "small_numbers t \<Longrightarrow> placed k s \<Longrightarrow> k + 10 ^ 9 * int (length t) < 2 ^ 63 \<Longrightarrow> feed t s \<noteq> None"
proof (induction t s arbitrary: k rule: feed.induct)
  case (2 c t s)
  note small = 2(6) and place = 2(7) and room = 2(8)
  have rest: "small_numbers t" using small_numbers_drop [OF small, of 1] by simp
  have k: "0 \<le> k" using place by (simp add: placed_def)
  have len: "10 ^ 9 * int (length (c # t)) = 10 ^ 9 + 10 ^ 9 * int (length t)" by (simp add: algebra_simps)
  show ?case
  proof (cases "c = CHR 0x1B \<and> t \<noteq> [] \<and> hd t = CHR ''[''")
    case esc: True
    show ?thesis
    proof (cases "csi_split (tl t)")
      case None
      with esc show ?thesis by (simp add: feed.simps(2))
    next
      case (Some q)
      obtain p f r where q: "q = (p, f, r)" by (cases q)
      have "small_here (c # t)" using small by (simp add: small_numbers_def)
      then have "list_all (\<lambda>n. n \<le> 10 ^ 9) (csi_params p)" using esc Some q by (cases t) (auto simp: small_here_def)
      then obtain s1 where s1: "csi f (csi_params p) s = Some s1" "placed (k + 10 ^ 9) s1"
        using csi_total [OF place, of "csi_params p" f] room len by auto
      have "length r < length (tl t)" using csi_split_shorter [of "tl t" p f r] Some q by simp
      then have "10 ^ 9 * int (length r) \<le> 10 ^ 9 * int (length t)" by simp
      then have "k + 10 ^ 9 + 10 ^ 9 * int (length r) < 2 ^ 63" using room len by linarith
      moreover have "small_numbers r"
        using csi_split_suffix [of "tl t"] Some q suffix_tl [of t] small_numbers_suffix [OF rest] suffix_order.trans by blast
      ultimately show ?thesis using 2(1) [OF esc Some, of p "(f, r)" f r s1] q s1 esc Some by (simp add: feed.simps(2))
    qed
  next
    case esc: False
    consider "c = CHR 0x0D" | "c = CHR 0x0A" | "c \<noteq> CHR 0x0D" "c \<noteq> CHR 0x0A" "byte_val c < 0x20"
      | "c \<noteq> CHR 0x0D" "c \<noteq> CHR 0x0A" "\<not> byte_val c < 0x20" by blast
    then show ?thesis
    proof cases
      case 1
      have "placed k (s\<lparr>sc_x := 0\<rparr>)" using place by (simp add: placed_def)
      then show ?thesis using 2(2) [OF esc 1 rest, of k] room len 1 esc by (simp add: feed.simps(2))
    next
      case nl: 2
      have w: "wrap64 (sc_y s + 1) = sc_y s + 1" using place room len by (intro wrap64_id) (auto simp: placed_def)
      have "placed (k + 10 ^ 9) (s\<lparr>sc_x := 0, sc_y := wrap64 (sc_y s + 1)\<rparr>)" unfolding w using place by (simp add: placed_def)
      then show ?thesis using 2(3) [OF esc _ nl rest, of "k + 10 ^ 9"] room len nl esc by (simp add: feed.simps(2))
    next
      case 3
      then show ?thesis using 2(4) [OF esc 3 rest place] room len esc by (auto simp: feed.simps(2))
    next
      case 4
      obtain r n where rn: "decodeRune (c # t) = (r, n)" by (cases "decodeRune (c # t)")
      have n: "0 < n" using decodeRune_pos [of "c # t"] rn by simp
      obtain s1 where s1: "art_put r s = Some s1" "placed (k + 1) s1" using art_put_total [OF place] room len by fastforce
      have p1: "placed (k + 10 ^ 9) s1" using placed_mono [OF s1(2)] by simp
      have "10 ^ 9 * int (length (drop n (c # t))) \<le> 10 ^ 9 * int (length t)" using n by simp
      then have "k + 10 ^ 9 + 10 ^ 9 * int (length (drop n (c # t))) < 2 ^ 63" using room len by linarith
      then show ?thesis
        using 2(5) [OF esc 4 rn [symmetric] refl, of s1 "k + 10 ^ 9"] rn s1 p1 small_numbers_drop [OF small, of n] esc 4
        by (auto simp: feed.simps(2))
    qed
  qed
qed simp

text \<open>
  Every ordinary art file has a preview: as long as no control sequence holds a number above
  a billion, interpreting a text of up to four gigabytes neither runs out of the grid's bounds nor
  overflows a position, so no index is out of range.
\<close>

theorem preview_total:
  assumes "small_numbers text" "int (length text) \<le> 2 ^ 32"
  shows "\<exists>s. feed text newScreen = Some s"
proof -
  have "placed 0 newScreen" by (simp add: placed_def newScreen_def)
  from feed_total [OF assms(1) this] assms(2) show ?thesis by auto
qed

lemma demo_ansi_small: "small_numbers demo_ansi"
  by (simp add: demo_ansi_def small_numbers_def small_here_def csi_split_def csi_inside_def byte_val_def csi_params_def
      trim_left_bytes_def atoi_def parse_digits_def is_digit_def digits_val_def)

theorem preview_total_witness: "\<exists>s. feed demo_ansi newScreen = Some s"
  using preview_total [OF demo_ansi_small] by (simp add: demo_ansi_def)

theorem preview_confined_witness:
  "\<exists>s. feed demo_ansi newScreen = Some s \<and> list_all tag_ok (fst (read_html None (art_html s)))"
proof -
  have "placed 0 newScreen" by (simp add: placed_def newScreen_def)
  then have "feed demo_ansi newScreen \<noteq> None" by (rule feed_total [OF demo_ansi_small]) (simp add: demo_ansi_def)
  then obtain s where "feed demo_ansi newScreen = Some s" by auto
  from preview_confined [OF this] this show ?thesis by blast
qed

section \<open>Where it fails\<close>

text \<open>Moving right by the largest integer wraps the column to a negative one, and the next character
  is an index out of range: the page panics.\<close>

lemmas feed_eval = feed.simps(2) csi_split_def csi_inside_def byte_val_def csi_params_def trim_left_bytes_def atoi_def
  parse_digits_def is_digit_def digits_val_def int_range_def csi_def first_or_one_def art_put_def grow_rows_def artColumns_def
  artMaxRows_def newScreen_def decodeRune_def decode_rune_def blank_cell_def rune_error_def encode_rune_def
  encode_valid_def valid_rune_def second_ok_def is_cont_def

theorem preview_panics:
  "renderANS (''x'' @ CHR 0x1B # ''[9223372036854775807Cy'') = None"
proof -
  let ?art = "''x'' @ CHR 0x1B # ''[9223372036854775807Cy''"
  have "encode_rune (DecodeCP437 c) = [c]" if "is_ascii c" for c
    using that byte_of_byte_val [of c] by (simp add: DecodeCP437_def encode_rune_def encode_valid_def valid_rune_def is_ascii_def)
  then have "art_byte TermUTF8 prev CHR ''x'' = ''x''" "art_byte TermUTF8 prev CHR ''y'' = ''y''" for prev
    by (simp_all add: art_byte_def is_ascii_def byte_val_def)
  then have "ConvertANSIArt ?art TermUTF8 True = ?art @ ansiReset"
    by (simp add: ConvertANSIArt_def StripSAUCE_def dosEOF_def art_loop.simps csiEnd_def csi_final_def byte_val_def appendCSI_def)
  then show ?thesis by (simp add: renderANS_def feed_eval wrap64_def)
qed

text \<open>A byte that is not UTF-8 counts as three: the two characters after it are not drawn.\<close>

theorem preview_swallows:
  "map_option drawn_rows (feed (CHR 0xE9 # ''abc'') newScreen) = Some [[\<lparr>ac_r = rune_error, ac_fg = 7, ac_bg = 0\<rparr>, \<lparr>ac_r = 0x63, ac_fg = 7, ac_bg = 0\<rparr>]]"
  by (simp add: feed_eval drawn_rows_def)

end
