(* ===== verification/Web_Pages.thy ===== *)
theory Web_Pages
  imports Web_Session Web_Ansi Go_Path
begin

text \<open>
  \<open>internal/web/pages.go\<close>: the pages of the sysop interface and the routes to them. A page is the data
  its template gets; the templates, \<open>HEAD\<close> requests and the static files are not modelled. Each
  request is one step on the server and the table of sessions.
\<close>

section \<open>Helpers\<close>

definition eventPageSize :: int where "eventPageSize = 200"
definition dashEvents :: int where "dashEvents = 12"
definition onelinerLimit :: int where "onelinerLimit = 100"
definition userListLimit :: int where "userListLimit = 1000"
definition maxArtPreviewB :: nat where "maxArtPreviewB = 256 * 1024"

abbreviation wb_db :: "web \<Rightarrow> db" where "wb_db w \<equiv> sv_db (wb_srv w)"

definition not_found :: reply where "not_found = (KeepCookie, HttpError 404)"

definition pathID :: "string \<Rightarrow> int option" where
  "pathID v = (case atoi v of None \<Rightarrow> None | Some i \<Rightarrow> if 0 < i then Some i else None)"

definition with_id :: "string \<Rightarrow> (int \<Rightarrow> web \<Rightarrow> reply \<times> web) \<Rightarrow> web \<Rightarrow> reply \<times> web" where
  "with_id v k w = (case pathID v of None \<Rightarrow> (not_found, w) | Some i \<Rightarrow> k i w)"

definition handles :: "db \<Rightarrow> int \<Rightarrow> string option" where
  "handles d = map_of (map (\<lambda>u. (u_id u, u_handle u)) (Users d))"

definition nameOf :: "(int \<Rightarrow> string option) \<Rightarrow> int \<Rightarrow> string" where
  "nameOf names i = (case names i of None \<Rightarrow> ''(deleted)'' | Some n \<Rightarrow> n)"

text \<open>An operation of the server, then \<open>failed\<close> or \<open>done\<close>.\<close>

definition admin_act ::
    "request \<Rightarrow> string \<Rightarrow> (server \<Rightarrow> (error + unit) \<times> server) \<Rightarrow> string \<Rightarrow> string \<Rightarrow> web \<Rightarrow> reply \<times> web" where
  "admin_act q back f to msg w =
     (let (r, sv) = f (wb_srv w); w = w\<lparr>wb_srv := sv\<rparr>
      in case r of Inl e \<Rightarrow> failed_post q back e w | Inr _ \<Rightarrow> done_post q to msg w)"

section \<open>Template functions (web.go)\<close>

definition formatTime :: "(nanos \<Rightarrow> int) \<Rightarrow> nanos \<Rightarrow> string" where
  "formatTime tz t =
     (if t = 0 then ''never''
      else let w = local_wall tz t; y = itoa (wYear w)
           in replicate (4 - length y) CHR ''0'' @ y @ ''-'' @ pad2 (wMonth w) @ ''-'' @ pad2 (wDay w) @ '' '' @ pad2 (wHour w) @ '':'' @ pad2 (wMinute w))"

definition web_ago :: "nanos \<Rightarrow> nanos \<Rightarrow> string" where
  "web_ago now t =
     (if t = 0 then ''never''
      else let d = now - t
           in if d < minute then ''just now''
              else if d < hour then plural (d div minute) ''minute'' @ '' ago''
              else if d < 48 * hour then plural (d div hour) ''hour'' @ '' ago''
              else plural (d div (24 * hour)) ''day'' @ '' ago'')"

definition hotkey :: "string \<Rightarrow> string" where
  "hotkey label =
     (if label = [] then []
      else ''<span class='' @ [CHR 0x22] @ ''key'' @ [CHR 0x22] @ ''>'' @ HTMLEscapeString (take 1 label) @ ''</span>'' @ HTMLEscapeString (drop 1 label))"

section \<open>Login\<close>

definition loginPage :: "net_lib \<Rightarrow> nanos \<Rightarrow> http_request \<Rightarrow> web \<Rightarrow> reply \<times> web" where
  "loginPage N now r w = (case rq_cookie r of
       None \<Rightarrow> (login_page 200 [] [], w)
     | Some c \<Rightarrow>
         let (found, t) = get_session (nl_sha256 N) c now (wb_sessions w); w = w\<lparr>wb_sessions := t\<rparr>
         in case found of
              Some (key, s) \<Rightarrow> (case Sysop (wb_srv w) (ws_userID s) of Inr u \<Rightarrow> ((KeepCookie, SeeOther ''/''), w) | Inl e \<Rightarrow> (login_page 200 [] [], w))
            | None \<Rightarrow> (login_page 200 [] [], w))"

definition login_message :: "login_error \<Rightarrow> nanos \<Rightarrow> string" where
  "login_message e wait = (case e of
       ErrLoginThrottled \<Rightarrow>
         if 0 < wait then ''Too many failed logins for that handle. Wait '' @ waitText wait @ '' and try again.''
         else ''Too many failed logins. Wait a while and try again.''
     | ErrLoginFailed \<Rightarrow> ''Login failed. Only sysops can sign in here.''
     | LoginStore _ \<Rightarrow> ''Login is not working right now. The details are in the server log.'')"

text \<open>\<open>token\<close> and \<open>csrf\<close> are the two random texts a new session takes.\<close>

definition loginSubmit :: "net_lib \<Rightarrow> nanos \<Rightarrow> string \<Rightarrow> string \<Rightarrow> http_request \<Rightarrow> web \<Rightarrow> reply \<times> web" where
  "loginSubmit N now token csrf r w =
     (if \<not> rq_formOK r \<or> \<not> sameOrigin N r then ((KeepCookie, HttpError 400), w)
      else let handle = trim_space (rq_form r ''handle'');
               ((result, wait), sv) = SysopLogin now (nl_limitKey N) handle (rq_form r ''password'') (clientIP N r) (wb_srv w);
               w = w\<lparr>wb_srv := sv\<rparr>
           in case result of
                Inl e \<Rightarrow> (login_page 401 handle (login_message e wait), w)
              | Inr u \<Rightarrow> ((SetCookie token, SeeOther ''/''), on_sessions (create_session (nl_sha256 N) token csrf (u_id u) now) w))"

definition logout :: "net_lib \<Rightarrow> request \<Rightarrow> web \<Rightarrow> reply \<times> web" where
  "logout N q w =
     (to_login ClearCookie, case rq_cookie (q_rq q) of None \<Rightarrow> w | Some c \<Rightarrow> on_sessions (drop_session (nl_sha256 N) c) w)"

section \<open>Dashboard\<close>

definition dashboard :: "request \<Rightarrow> web \<Rightarrow> reply \<times> web" where
  "dashboard q w = render_page q ''Dashboard''
     (DashData (online (sv_nodes (wb_srv w))) (UserCount (wb_db w)) (PendingUsers (wb_db w)) (Events (wb_db w) [] dashEvents)) w"

definition kick_page :: "nanos \<Rightarrow> request \<Rightarrow> web \<Rightarrow> reply \<times> web" where
  "kick_page now q w = (case atoi (rq_form (q_rq q) ''node'') of
       None \<Rightarrow> done_post q ''/'' ''! That node is not connected any more.'' w
     | Some i \<Rightarrow>
         let (ok, sv) = KickNode now (q_user q) (q_ip q) i (wb_srv w); w = w\<lparr>wb_srv := sv\<rparr>
         in if \<not> ok then done_post q ''/'' ''! That node is not connected any more.'' w
            else done_post q ''/'' (''Node '' @ itoa i @ '' disconnected.'') w)"

definition broadcast_page :: "nanos \<Rightarrow> request \<Rightarrow> web \<Rightarrow> reply \<times> web" where
  "broadcast_page now q = admin_act q ''/'' (Broadcast now (q_user q) (q_ip q) (rq_form (q_rq q) ''text'')) ''/'' ''Sent to everyone online.''"

section \<open>Callers and users\<close>

definition callers_page :: "request \<Rightarrow> web \<Rightarrow> reply \<times> web" where
  "callers_page q w = render_page q ''New callers'' (CallersData (PendingUsers (wb_db w))) w"

definition users_page :: "request \<Rightarrow> web \<Rightarrow> reply \<times> web" where
  "users_page q w =
     (let every = ListUsers (wb_db w) userListLimit;
          query = trim_space (rq_query (q_rq q) ''q'');
          low = to_lower (se_lower (sv_env (wb_srv w)));
          shown = filter (\<lambda>u. low query = [] \<or> contains (low query) (low (u_handle u)) \<or> contains (low query) (low (u_location u))) every
      in render_page q ''Users'' (UsersData query shown (length every)) w)"

definition user_page :: "net_lib \<Rightarrow> request \<Rightarrow> string \<Rightarrow> web \<Rightarrow> reply \<times> web" where
  "user_page N q v = with_id v (\<lambda>i w. case UserByID (wb_db w) i of
       Inl e \<Rightarrow> failed_post q ''/users'' e w
     | Inr u \<Rightarrow> render_page q (u_handle u) (UserData u (u_id u = u_id (q_user q))
         (filter (\<lambda>n. ni_UserID n = u_id u) (online (sv_nodes (wb_srv w))))
         (take 10 (filter (\<lambda>e. e_user e = u_id u \<or> equal_fold (nl_fold N) (e_handle e) (u_handle u) \<or> contains (u_handle u) (e_detail e))
            (Events (wb_db w) [] eventPageSize)))) w)"

text \<open>After \<open>demote\<close> and \<open>delete\<close> the account's sessions are dropped.\<close>

definition then_drop :: "int \<Rightarrow> request \<Rightarrow> string \<Rightarrow> (server \<Rightarrow> (error + unit) \<times> server) \<Rightarrow> string \<Rightarrow> string \<Rightarrow> web \<Rightarrow> reply \<times> web" where
  "then_drop i q back f to msg w =
     (let (r, sv) = f (wb_srv w); w = w\<lparr>wb_srv := sv\<rparr>
      in case r of Inl e \<Rightarrow> failed_post q back e w | Inr _ \<Rightarrow> done_post q to msg (on_sessions (dropUser i) w))"

definition userAction :: "nanos \<Rightarrow> request \<Rightarrow> string \<Rightarrow> string \<Rightarrow> web \<Rightarrow> reply \<times> web" where
  "userAction now q v action = with_id v (\<lambda>i w. case UserByID (wb_db w) i of
       Inl e \<Rightarrow> failed_post q ''/users'' e w
     | Inr u \<Rightarrow>
         let back = ''/users/'' @ itoa i; f = rq_form (q_rq q); actor = q_user q; ip = q_ip q
         in if action = ''approve'' then admin_act q back (ApproveUser now actor ip i) (safeBack (f ''back'') back) (u_handle u @ '' approved.'') w
            else if action = ''lock'' then admin_act q back (AdminSetLocked now actor ip i True) back ''Done.'' w
            else if action = ''unlock'' then admin_act q back (AdminSetLocked now actor ip i False) back ''Done.'' w
            else if action = ''promote'' then admin_act q back (AdminSetSysop now actor ip i True) back ''Done.'' w
            else if action = ''demote'' then then_drop i q back (AdminSetSysop now actor ip i False) back ''Done.'' w
            else if action = ''password'' then
              (if f ''password'' \<noteq> f ''confirm'' then done_post q back ''! The two passwords are different.'' w
               else admin_act q back (AdminResetPassword now actor ip i (f ''password'')) back
                      (''Password changed. Tell '' @ u_handle u @ '' the new one yourself; it is not sent anywhere.'') w)
            else if action = ''mail'' then
              admin_act q back (SendMail now actor ip i (f ''subject'') (f ''body'')) back (''Mail sent to '' @ u_handle u @ ''.'') w
            else if action = ''delete'' then
              (if f ''confirm'' \<noteq> u_handle u then done_post q back ''! Not deleted: type the handle exactly to confirm.'' w
               else then_drop i q back (AdminDeleteUser now actor ip i) (safeBack (f ''back'') ''/users'') (u_handle u @ '' deleted.'') w)
            else (not_found, w))"

section \<open>Events, boards\<close>

definition event_kinds :: "string list" where
  "event_kinds = [EventLogin, EventLoginFailed, EventLocked, EventSignup, EventSysop]"

definition events_page :: "request \<Rightarrow> web \<Rightarrow> reply \<times> web" where
  "events_page q w =
     (let kind = rq_query (q_rq q) ''kind''; kind = (if kind \<in> set event_kinds then kind else [])
      in render_page q ''Event log'' (EventsData kind (Events (wb_db w) kind eventPageSize)) w)"

definition boards_page :: "request \<Rightarrow> web \<Rightarrow> reply \<times> web" where
  "boards_page q w = render_page q ''Message boards'' (BoardsData (Boards (wb_db w) (u_id (q_user q)))) w"

definition createBoard_page :: "nanos \<Rightarrow> request \<Rightarrow> web \<Rightarrow> reply \<times> web" where
  "createBoard_page now q =
     (let f = rq_form (q_rq q)
      in admin_act q ''/boards'' (AdminCreateBoard now (q_user q) (q_ip q) (f ''name'') (f ''description'') (f ''sysop_only'' = ''on''))
           ''/boards'' ''Board created.'')"

definition board_page :: "request \<Rightarrow> string \<Rightarrow> web \<Rightarrow> reply \<times> web" where
  "board_page q v = with_id v (\<lambda>i w. case Board (wb_db w) i of
       Inl e \<Rightarrow> failed_post q ''/boards'' e w
     | Inr b \<Rightarrow> render_page q (b_name b)
         (BoardData b (rev (map (\<lambda>p. (p, nameOf (handles (wb_db w)) (p_author p))) (Posts (wb_db w) i)))) w)"

definition deleteBoard_page :: "nanos \<Rightarrow> request \<Rightarrow> string \<Rightarrow> web \<Rightarrow> reply \<times> web" where
  "deleteBoard_page now q v = with_id v (\<lambda>i w. case Board (wb_db w) i of
       Inl e \<Rightarrow> failed_post q ''/boards'' e w
     | Inr b \<Rightarrow>
         let back = ''/boards/'' @ itoa i
         in if rq_form (q_rq q) ''confirm'' \<noteq> b_name b then done_post q back ''! Not deleted: type the board name exactly to confirm.'' w
            else admin_act q back (AdminDeleteBoard now (q_user q) (q_ip q) i) ''/boards'' (b_name b @ '' deleted.'') w)"

definition deletePost_page :: "nanos \<Rightarrow> request \<Rightarrow> string \<Rightarrow> string \<Rightarrow> web \<Rightarrow> reply \<times> web" where
  "deletePost_page now q v pv = with_id v (\<lambda>i. with_id pv (\<lambda>postID w.
     let back = ''/boards/'' @ itoa i
     in case Board (wb_db w) i of
          Inl e \<Rightarrow> failed_post q ''/boards'' e w
        | Inr b \<Rightarrow> (case find (\<lambda>p. p_id p = postID) (Posts (wb_db w) i) of
            None \<Rightarrow> failed_post q back ErrNotFound w
          | Some p \<Rightarrow> admin_act q back (AdminDeletePost now (q_user q) (q_ip q) (b_name b) p) back ''Post deleted.'' w)))"

section \<open>News, the wall, custom art\<close>

definition news_page :: "request \<Rightarrow> web \<Rightarrow> reply \<times> web" where
  "news_page q w = render_page q ''News bulletins''
     (NewsData (map (\<lambda>b. (b, nameOf (handles (wb_db w)) (bu_author b))) (Bulletins (wb_db w)))) w"

definition addNews_page :: "nanos \<Rightarrow> request \<Rightarrow> web \<Rightarrow> reply \<times> web" where
  "addNews_page now q =
     (let f = rq_form (q_rq q)
      in admin_act q ''/news'' (AdminAddBulletin now (q_user q) (q_ip q) (f ''title'') (f ''body'')) ''/news''
           ''Bulletin posted, and everyone online was told.'')"

definition deleteNews_page :: "nanos \<Rightarrow> request \<Rightarrow> string \<Rightarrow> web \<Rightarrow> reply \<times> web" where
  "deleteNews_page now q v = with_id v (\<lambda>i w. case find (\<lambda>b. bu_id b = i) (Bulletins (wb_db w)) of
       None \<Rightarrow> failed_post q ''/news'' ErrNotFound w
     | Some b \<Rightarrow> admin_act q ''/news'' (AdminDeleteBulletin now (q_user q) (q_ip q) b) ''/news'' ''Bulletin deleted.'' w)"

definition oneliners_page :: "request \<Rightarrow> web \<Rightarrow> reply \<times> web" where
  "oneliners_page q w = render_page q ''Oneliner wall'' (OnelinersData (Oneliners (wb_db w) onelinerLimit)) w"

definition deleteOneliner_page :: "nanos \<Rightarrow> request \<Rightarrow> string \<Rightarrow> web \<Rightarrow> reply \<times> web" where
  "deleteOneliner_page now q v = with_id v (\<lambda>i w. case find (\<lambda>l. o_id l = i) (Oneliners (wb_db w) onelinerLimit) of
       None \<Rightarrow> failed_post q ''/oneliners'' ErrNotFound w
     | Some l \<Rightarrow> admin_act q ''/oneliners'' (AdminDeleteOneliner now (q_user q) (q_ip q) l) ''/oneliners'' ''Line removed.'' w)"

definition art_page :: "request \<Rightarrow> web \<Rightarrow> reply \<times> web" where
  "art_page q w = render_page q ''Custom art'' (ArtList (ArtScreens (wb_srv w))) w"

definition artPreview :: "request \<Rightarrow> string \<Rightarrow> web \<Rightarrow> reply \<times> web" where
  "artPreview q name w = (case Option.bind (ArtFile name (wb_srv w)) (map_of (sv_artFolder (wb_srv w))) of
       None \<Rightarrow> (not_found, w)
     | Some data \<Rightarrow>
         if maxArtPreviewB < length data then done_post q ''/art'' ''! That file is missing or too large to preview.'' w
         else case (if suffix ''.ans'' name then renderANS data else renderPipeText data) of
             None \<Rightarrow> ((KeepCookie, Panicked), w)
           | Some html \<Rightarrow> render_page q name (ArtView name html) w)"

section \<open>Routes\<close>

definition get_page :: "net_lib \<Rightarrow> nanos \<Rightarrow> string list \<Rightarrow> (http_request \<Rightarrow> web \<Rightarrow> reply \<times> web) option" where
  "get_page N now path =
     (let page = (\<lambda>fn. Some (signedIn N now fn))
      in case path of
           [] \<Rightarrow> page dashboard
         | [a] \<Rightarrow>
             if a = ''login'' then Some (loginPage N now)
             else if a = ''callers'' then page callers_page
             else if a = ''users'' then page users_page
             else if a = ''events'' then page events_page
             else if a = ''boards'' then page boards_page
             else if a = ''news'' then page news_page
             else if a = ''oneliners'' then page oneliners_page
             else if a = ''art'' then page art_page
             else if a = ''static'' then Some (\<lambda>r w. ((KeepCookie, Static), w))
             else None
         | a # b # rest \<Rightarrow>
             if a = ''static'' then Some (\<lambda>r w. ((KeepCookie, Static), w))
             else if rest \<noteq> [] then None
             else if a = ''users'' then page (\<lambda>q. user_page N q b)
             else if a = ''boards'' then page (\<lambda>q. board_page q b)
             else if a = ''art'' then page (\<lambda>q. artPreview q b)
             else None)"

definition post_page :: "net_lib \<Rightarrow> nanos \<Rightarrow> string \<Rightarrow> string \<Rightarrow> string list \<Rightarrow> (http_request \<Rightarrow> web \<Rightarrow> reply \<times> web) option" where
  "post_page N now token csrf path =
     (let page = (\<lambda>fn. Some (signedIn N now fn))
      in case path of
           [a] \<Rightarrow>
             if a = ''login'' then Some (loginSubmit N now token csrf)
             else if a = ''logout'' then page (logout N)
             else if a = ''kick'' then page (kick_page now)
             else if a = ''broadcast'' then page (broadcast_page now)
             else if a = ''boards'' then page (createBoard_page now)
             else if a = ''news'' then page (addNews_page now)
             else None
         | [a, b, c] \<Rightarrow>
             if a = ''users'' then page (\<lambda>q. userAction now q b c)
             else if a = ''boards'' \<and> c = ''delete'' then page (\<lambda>q. deleteBoard_page now q b)
             else if a = ''news'' \<and> c = ''delete'' then page (\<lambda>q. deleteNews_page now q b)
             else if a = ''oneliners'' \<and> c = ''delete'' then page (\<lambda>q. deleteOneliner_page now q b)
             else None
         | [a, b, c, p, e] \<Rightarrow>
             if a = ''boards'' \<and> c = ''posts'' \<and> e = ''delete'' then page (\<lambda>q. deletePost_page now q b p) else None
         | _ \<Rightarrow> None)"

text \<open>\<open>ServeMux\<close>: a path known for another method only is answered with 405.\<close>

definition serve :: "net_lib \<Rightarrow> nanos \<Rightarrow> string \<Rightarrow> string \<Rightarrow> http_request \<Rightarrow> web \<Rightarrow> reply \<times> web" where
  "serve N now token csrf r w =
     (let g = get_page N now (rq_path r); p = post_page N now token csrf (rq_path r);
          chosen = (case rq_method r of GET \<Rightarrow> g | POST \<Rightarrow> p | OtherMethod \<Rightarrow> None)
      in case chosen of
           Some h \<Rightarrow> h r w
         | None \<Rightarrow> ((KeepCookie, HttpError (if g = None \<and> p = None then 404 else 405)), w))"

end
