(* ===== verification/Login_Props.thy ===== *)
theory Login_Props
  imports Bbs_Login Store_Demo
begin

text \<open>
  What signing in promises: a refused attempt shows a guesser nothing, only the owner of an
  unlocked account gets in, and guesses are counted and few. The last section is about narrow
  windows.
\<close>

section \<open>Refused attempts look alike\<close>

definition refuses :: "store_env \<Rightarrow> db \<Rightarrow> string \<Rightarrow> string \<Rightarrow> bool" where
  "refuses E d h p \<longleftrightarrow> (case Authenticate E d h p of Inl e \<Rightarrow> e = ErrBadCredentials | Inr u \<Rightarrow> u_locked u)"

text \<open>What the caller, and every later check, can see: the terminal and the limits.\<close>

definition visible :: "caller \<Rightarrow> session \<times> limits" where
  "visible s = (session.truncate s, sv_limit (c_srv s))"

text \<open>The message of a refused attempt and the limits after it, from the limits before it.\<close>

definition refusal :: "nanos \<Rightarrow> string \<Rightarrow> string \<Rightarrow> limits \<Rightarrow> string \<times> limits" where
  "refusal now ip account l =
     (let ((wait, ok), b) = backoff_begin now account (lm_accounts l)
      in if \<not> ok then (colAlert @ ''Too many failed logins for that handle. Wait '' @ waitText wait @ '' and try again.'' @ nl, l\<lparr>lm_accounts := b\<rparr>)
         else (colAlert @ loginFailed @ nl,
               l\<lparr>lm_accounts := fst (backoff_end no_store now account False (b, ())),
                 lm_loginFailures := fst (hit no_store now ip (lm_loginFailures l, ()))\<rparr>))"

lemma hit_store_indep: "fst (hit H now k (r, s)) = fst (hit no_store now k (r, ()))"
  by (simp add: hit_def split: prod.splits)

lemma end_store_indep: "fst (backoff_end H now k False (b, s)) = fst (backoff_end no_store now k False (b, ()))"
proof -
  have f: "fst (hit H now k (lb_fails (backoff_release k b), s)) = fst (hit no_store now k (lb_fails (backoff_release k b), ()))"
    by (rule hit_store_indep)
  show ?thesis by (simp add: backoff_end_def Let_def f split: prod.splits) (metis f fst_conv)
qed

lemma truncate_server [simp]:
  "session.truncate (on_server f s) = session.truncate s" "session.truncate (set_accounts b s) = session.truncate s"
  "session.truncate (set_limiter l r s) = session.truncate s" "session.truncate (record_hit l k s) = session.truncate s"
  "session.truncate (log_event kind i h d s) = session.truncate s"
  by (simp_all add: on_server_def set_accounts_def set_limiter_def record_hit_def log_event_def session.truncate_def split: prod.splits)

lemma server_fields [simp]:
  "c_ipKey (on_server f s) = c_ipKey s" "s_now (on_server f s) = s_now s" "c_srv (on_server f s) = f (c_srv s)"
  by (simp_all add: on_server_def)

lemma checkPassword_refused:
  assumes "refuses (env s) (database s) h p"
  defines "account \<equiv> ''handle:'' @ to_lower (se_lower (env s)) h"
  shows "\<exists>s'. checkPassword h p s = then_io (print (fst (refusal (s_now s) (c_ipKey s) account (sv_limit (c_srv s))))) (return_io None) s' \<and>
    visible s' = (session.truncate s, snd (refusal (s_now s) (c_ipKey s) account (sv_limit (c_srv s))))"
proof -
  obtain wait ok b where b: "backoff_begin (s_now s) account (lm_accounts (sv_limit (c_srv s))) = ((wait, ok), b)"
    by (metis prod.collapse)
  let ?s1 = "set_accounts b s"
  have s1: "env ?s1 = env s" "database ?s1 = database s" "c_ipKey ?s1 = c_ipKey s" "s_now ?s1 = s_now s" "transport ?s1 = transport s"
    "sv_limit (c_srv ?s1) = (sv_limit (c_srv s))\<lparr>lm_accounts := b\<rparr>"
    by (simp_all add: set_accounts_def env_def database_def on_server_def transport_def)
  obtain b' d' where e: "backoff_end store_hits (s_now s) account False (b, database s) = (b', d')" by fastforce
  have b': "b' = fst (backoff_end no_store (s_now s) account False (b, ()))"
    using end_store_indep [of store_hits "s_now s" account b "database s"] e by simp
  let ?s2 = "set_accounts b' (on_server (\<lambda>sv. sv\<lparr>sv_db := d'\<rparr>) ?s1)"
  let ?s3 = "\<lambda>kind i hd. log_event kind i hd (transport s) (record_hit at_loginFailures (c_ipKey s) ?s2)"
  have "visible (?s3 kind i hd) = (session.truncate s, snd (refusal (s_now s) (c_ipKey s) account (sv_limit (c_srv s))))" if ok for kind i hd
    using that hit_store_indep [of store_hits "s_now s" "c_ipKey s" "lm_loginFailures (sv_limit (c_srv s))" d']
    by (simp add: visible_def refusal_def b Let_def log_event_def server_event_def record_hit_def set_limiter_def at_loginFailures_def
        set_accounts_def database_def b' case_prod_beta)
  moreover have "visible ?s1 = (session.truncate s, snd (refusal (s_now s) (c_ipKey s) account (sv_limit (c_srv s))))" if "\<not> ok"
    using that by (simp add: visible_def refusal_def b Let_def set_accounts_def)
  moreover have "\<exists>kind i hd. checkPassword h p s = then_io (print (colAlert @ loginFailed @ nl)) (return_io None) (?s3 kind i hd)" if ok
    using assms(1) that e s1 b unfolding refuses_def checkPassword_def account_def [symmetric] b Let_def
    by (auto simp: s1 e split: sum.splits)
  moreover have "checkPassword h p s = then_io (print (colAlert @ ''Too many failed logins for that handle. Wait '' @ waitText wait @ '' and try again.'' @ nl)) (return_io None) ?s1"
    if "\<not> ok"
    using that b unfolding checkPassword_def account_def [symmetric] b Let_def by simp
  ultimately show ?thesis by (cases ok) (auto simp: refusal_def b)
qed

lemma print_visible:
  fixes s s' :: caller
  assumes "session.truncate s = session.truncate s'"
  shows "fst (print t s) = fst (print t s')" "session.truncate (snd (print t s)) = session.truncate (snd (print t s'))"
proof -
  have "s_rend s = s_rend s'" "s_cs s = s_cs s'" "s_werr s = s_werr s'" "s_broken s = s_broken s'"
    using assms by (cases s; cases s'; simp add: session.truncate_def)+
  then show "fst (print t s) = fst (print t s')" "session.truncate (snd (print t s)) = session.truncate (snd (print t s'))"
    using assms by (cases s; cases s'; auto simp: print_def write_bytes_def session.truncate_def split: option.splits)+
qed

lemma then_print: "then_io (print t) (return_io x) s = (case print t s of (Done _, u) \<Rightarrow> (Done x, u) | (Fail e, u) \<Rightarrow> (Fail e, u) | (Panicked, u) \<Rightarrow> (Panicked, u))"
  by (auto simp: then_io_def bind_io_def return_io_def split: prod.split outcome.split)

lemma print_limits: "sv_limit (c_srv (snd (print t (s :: caller)))) = sv_limit (c_srv s)"
  using terminal_print more_caller unfolding stays_def terminal_only_def by metis

text \<open>
  Claim C8. A guesser learns nothing from a refusal: for one handle, trying a wrong password, any
  password on a handle nobody has, and even the right password of a locked account all end in
  the same way. Whatever the two databases and passwords, as long as neither attempt signs in,
  the outcome, everything sent to the terminal, and all rate limits afterwards are the same.
\<close>

theorem refusals_alike:
  assumes "refuses (env s) d1 h p1" "refuses (env s) d2 h p2"
  shows "let r1 = checkPassword h p1 (on_server (\<lambda>sv. sv\<lparr>sv_db := d1\<rparr>) s);
             r2 = checkPassword h p2 (on_server (\<lambda>sv. sv\<lparr>sv_db := d2\<rparr>) s)
         in fst r1 = fst r2 \<and> visible (snd r1) = visible (snd r2)"
proof -
  let ?s = "\<lambda>d. on_server (\<lambda>sv. sv\<lparr>sv_db := d\<rparr>) s"
  have f: "env (?s d) = env s" "database (?s d) = d" "s_now (?s d) = s_now s" "c_ipKey (?s d) = c_ipKey s"
    "sv_limit (c_srv (?s d)) = sv_limit (c_srv s)" for d
    by (simp_all add: env_def database_def)
  let ?a = "''handle:'' @ to_lower (se_lower (env s)) h"
  let ?r = "refusal (s_now s) (c_ipKey s) ?a (sv_limit (c_srv s))"
  obtain u1 where u1: "checkPassword h p1 (?s d1) = then_io (print (fst ?r)) (return_io None) u1" "visible u1 = (session.truncate s, snd ?r)"
    using checkPassword_refused [of "?s d1" h p1] assms(1) f by auto
  obtain u2 where u2: "checkPassword h p2 (?s d2) = then_io (print (fst ?r)) (return_io None) u2" "visible u2 = (session.truncate s, snd ?r)"
    using checkPassword_refused [of "?s d2" h p2] assms(2) f by auto
  have t: "session.truncate u1 = session.truncate u2" "sv_limit (c_srv u1) = sv_limit (c_srv u2)" using u1(2) u2(2) by (simp_all add: visible_def)
  obtain q v1 where q1: "print (fst ?r) u1 = (q, v1)" by fastforce
  obtain v2 where q2: "print (fst ?r) u2 = (q, v2)" using print_visible(1) [OF t(1), of "fst ?r"] q1 by (metis fst_conv surj_pair)
  have "visible v1 = visible v2"
    using print_visible(2) [OF t(1), of "fst ?r"] print_limits [of "fst ?r" u1] print_limits [of "fst ?r" u2] t(2) q1 q2 by (simp add: visible_def)
  then show ?thesis unfolding u1(1) u2(1) then_print q1 q2 by (cases q) (simp_all add: Let_def)
qed

definition demo_server :: "db \<Rightarrow> server" where
  "demo_server d = New_server 0 [] 4 0 \<lparr>sv_name = [], sv_maxNodes = 0, sv_db = d, sv_nodes = newNodeTable 0, sv_conns = newConnLimiter 0 0,
     sv_limit = newLimits 0 0 d, sv_env = demo_env, sv_tz = (\<lambda>_. 0), sv_zone = (\<lambda>_. ''UTC''), sv_upper = id, sv_art = (\<lambda>_. None), sv_screens = (\<lambda>_. []),
     sv_artDir = [], sv_artFolder = [], sv_mail = None, sv_publicAddress = [], sv_isPrint = (\<lambda>_. True),
     sv_fold = id, sv_chat = newChatHub, sv_FTN = \<lparr>fc_Addresses = [], fc_Outbound = \<lparr>Root = [], DefaultZone = 2\<rparr>, fc_Routes = \<lparr>Direct = [], Via = zero_addr\<rparr>, fc_SysopName = []\<rparr>,
     sv_outbound = (\<lambda>_. None), sv_serial = (\<lambda>_. 0), sv_FileLinks = \<lparr>fl_URL = [], fl_Key = [], fl_TTL = 0\<rparr>,
     sv_Files = [], sv_onDisk = (\<lambda>_. False), sv_zmodem = (\<lambda>_ _. (0, [], 0, None)), sv_hmac = (\<lambda>_ _. []), sv_pid = ''1 boar'', sv_tmpName = (\<lambda>_. ''tmp''), sv_parseKey = (\<lambda>_. None),
     sv_Doors = [], sv_DoorsDir = [], sv_doorBusy = (\<lambda>_. False), sv_dropFiles = (\<lambda>_. None), sv_abs = id,
     sv_getenv = (\<lambda>_. None), sv_doorPort = [], sv_program = (\<lambda>_ _ _. None)\<rparr>"

definition demo_caller :: "db \<Rightarrow> string \<Rightarrow> caller" where
  "demo_caller d bytes = session.extend (demo_session bytes)
     \<lparr>c_srv = demo_server d, c_node = 1, c_ip = ''10.0.0.1'', c_ipKey = ''10.0.0.1'', c_secure = False, c_start = 0, c_user = no_user,
      c_loggedIn = False, c_keyAuth = False\<rparr>"

lemma demo_caller_simps [simp]:
  "c_srv (demo_caller d b) = demo_server d" "s_now (demo_caller d b) = 0" "s_in (demo_caller d b) = map (Pair 0) b"
  "s_rend (demo_caller d b) = NewRenderer NoColor" "s_width (demo_caller d b) = 80" "c_ipKey (demo_caller d b) = ''10.0.0.1''"
  by (simp_all add: demo_caller_def session.extend_def demo_session_def)

lemma demo_server_simps [simp]: "sv_db (demo_server d) = d" "sv_env (demo_server d) = demo_env" "sv_art (demo_server d) = (\<lambda>_. None)"
  "sv_limit (demo_server d) = newLimits 0 20 d"
  by (simp_all add: demo_server_def New_server_def Let_def defaultMaxSignups_def)

theorem refusals_alike_witness:
  "fst (checkPassword ''bob'' ''guess'' (on_server (\<lambda>sv. sv\<lparr>sv_db := empty_db\<rparr>) (demo_caller demo_db []))) =
   fst (checkPassword ''bob'' ''pw'' (on_server (\<lambda>sv. sv\<lparr>sv_db := empty_db\<lparr>t_users := [(demo_user 2 ''bob'' False)\<lparr>u_locked := True\<rparr>]\<rparr>\<rparr>)
     (demo_caller demo_db [])))"
proof -
  let ?d = "empty_db\<lparr>t_users := [(demo_user 2 ''bob'' False)\<lparr>u_locked := True\<rparr>]\<rparr>"
  have g: "graphic ''bob''" by (simp add: graphic_def byte_val_def)
  have k: "handleKey E ''bob'' = ''bob''" for E by (rule handleKey_plain [OF g]) (simp add: byte_val_def)
  have "refuses (env (demo_caller demo_db [])) empty_db ''bob'' ''guess''"
    by (simp add: refuses_def Authenticate_def find_handle_def empty_db_def)
  moreover have "refuses (env (demo_caller demo_db [])) ?d ''bob'' ''pw''"
    by (simp add: refuses_def Authenticate_def find_handle_def k env_def matches_def cred_of_def deriveKey_def demo_env_def store_defs)
  ultimately show ?thesis using refusals_alike [of "demo_caller demo_db []" empty_db "''bob''" "''guess''" ?d "''pw''"]
    by (simp add: Let_def)
qed

section \<open>Who gets in\<close>

lemma Authenticate_users: "t_users d = t_users d' \<Longrightarrow> Authenticate E d h p = Authenticate E d' h p"
  by (simp add: Authenticate_def find_handle_def)

lemma hits_users:
  "t_users (snd (hit store_hits now k (r, d))) = t_users d" "t_users (snd (reset store_hits k (r, d))) = t_users d"
  by (simp_all add: hit_def reset_def store_hits_def RecordHit_def ClearHits_def Let_def split: prod.splits)

lemma checkPassword_accepts:
  assumes "checkPassword h p s = (Done (Some u), s')"
  shows "\<not> u_locked u \<and> Authenticate (env s') (database s') h p = Inr u \<and>
    lm_loginFailures (sv_limit (c_srv s')) = lm_loginFailures (sv_limit (c_srv s)) \<and> c_ipKey s' = c_ipKey s"
proof -
  let ?a = "''handle:'' @ to_lower (se_lower (env s)) h"
  obtain wait ok b where b: "backoff_begin (s_now s) ?a (lm_accounts (sv_limit (c_srv s))) = ((wait, ok), b)"
    by (metis prod.collapse)
  have s1: "env (set_accounts b s) = env s" "database (set_accounts b s) = database s"
    by (simp_all add: set_accounts_def env_def database_def)
  have no: "then_io (print t) (return_io None) v \<noteq> (Done (Some u), s')" for t v
    by (auto simp: then_print split: prod.splits outcome.splits)
  obtain b' d' where e: "backoff_end store_hits (s_now (set_accounts b s)) ?a True (lm_accounts (sv_limit (c_srv (set_accounts b s))), database s) = (b', d')"
    by fastforce
  have d': "t_users d' = t_users (database s)"
    using e hits_users(2) by (auto simp: backoff_end_def Let_def split: prod.splits) (metis snd_conv)
  have "Authenticate (env s) (database s) h p = Inr u \<and> \<not> u_locked u \<and>
      s' = set_accounts b' (on_server (\<lambda>sv. sv\<lparr>sv_db := d'\<rparr>) (set_accounts b s))"
    using assms no e unfolding checkPassword_def b Let_def by (auto simp: s1 split: if_split_asm sum.split_asm)
  then show ?thesis using Authenticate_users [OF d', of "env s" h p] by (simp add: set_accounts_def env_def database_def)
qed

lemma database_set [simp]: "database (on_server (\<lambda>sv. sv\<lparr>sv_db := d\<rparr>) s) = d"
  by (simp add: database_def)

lemma signup_users [simp]:
  "t_users (database (record_hit l k s)) = t_users (database s)" "t_users (database (log_event kind i h d s)) = t_users (database s)"
  "database (on_nodes f s) = database s" "database (set_limiter l r s) = database s"
  using hits_users(1) [of "s_now s" k "fst l (sv_limit (c_srv s))" "database s"]
  by (auto simp: record_hit_def set_limiter_def on_server_def database_def log_event_def server_event_def LogEvent_def on_nodes_def
      Let_def split: prod.splits)

lemma register_creates:
  fixes s s' :: caller
  assumes "register s = (Done (Some u), s')"
  shows "\<exists>E h p l d d'. CreateUser E h p l d = (Inr u, d') \<and> t_users (database s') = t_users d'"
proof -
  have no: "then_io m (return_io None) v \<noteq> (Done (Some u), s')" for m :: "(unit, caller) io" and v
    by (auto simp: then_io_def bind_io_Done return_io_def)
  obtain t h p l where c: "register_create h p l t = (Done (Some u), s')"
    using assms no
    by (auto simp: register_def then_io_def register_ask_def bind_io_Done return_io_def split: if_splits)
  obtain r d' where r: "CreateUser (env t) h p l (database t) = (r, d')" by fastforce
  have "r = Inr u" "t_users (database s') = t_users d'"
    using c r no
    by (auto simp: register_create_def then_io_def bind_io_Done return_io_def store_op_def effect_def split: sum.splits)
  with r show ?thesis by blast
qed

text \<open>
  At some point of the caller's input, the handle and then the password were typed at their prompts, and no key was read
  after that: \<open>v\<close> and \<open>w\<close> are the session at the two prompts.
\<close>

definition handle_prompt :: "(string, 'a session_scheme) io" where
  "handle_prompt = prompt (nl @ '' |07Handle |08(or |15NEW|08 to register)|07: |15'') (int MaxHandleLen)"

definition password_prompt :: "(string, 'a session_scheme) io" where
  "password_prompt = promptSecret '' |07Password|08: |15'' (int MaxPasswordLen)"

definition typed_last :: "caller \<Rightarrow> string \<Rightarrow> string \<Rightarrow> caller \<Rightarrow> bool" where
  "typed_last s h p s' \<longleftrightarrow> (\<exists>u v w :: caller. suffix (s_in u) (s_in s) \<and> handle_prompt u = (Done h, v) \<and>
     password_prompt v = (Done p, w) \<and> s_in s' = s_in w)"

lemma typed_last_suffix: "typed_last t h p s' \<Longrightarrow> suffix (s_in t) (s_in s) \<Longrightarrow> typed_last s h p s'"
  unfolding typed_last_def by (meson suffix_order.trans)

lemma suffix_blocked: "is_blocked l k s = (q, t) \<Longrightarrow> suffix (s_in t) (s_in s)"
  by (simp add: is_blocked_in)

lemma suffix_prompts:
  fixes s t :: caller
  shows "prompt l n s = (q, t) \<Longrightarrow> suffix (s_in t) (s_in s)" "promptSecret l n s = (q, t) \<Longrightarrow> suffix (s_in t) (s_in s)"
  using staysD [OF terminal_prompt(1)] staysD [OF terminal_prompt(2)] unfolding terminal_only_def by blast+

lemma print_in: "s_in (snd (then_io (print t) (return_io x) s)) = s_in s"
  by (auto simp: then_io_def bind_io_def print_def return_io_def split: option.splits)

lemma checkPassword_in: "s_in (snd (checkPassword handle password s)) = s_in s"
  by (simp add: checkPassword_def Let_def print_in set_accounts_def on_server_def log_event_def record_hit_def set_limiter_def
      split: prod.splits sum.splits)

lemma login_loop_sound:
  assumes "login_loop n s = (Done True, s')"
  shows "(\<exists>h p. typed_last s h p s' \<and> Authenticate (env s') (database s') h p = Inr (c_user s') \<and> \<not> u_locked (c_user s')) \<or>
    (\<exists>E h p l d d'. CreateUser E h p l d = (Inr (c_user s'), d') \<and> t_users (database s') = t_users d')"
  using assms
proof (induction "length (s_in s)" arbitrary: n s rule: less_induct)
  case less
  have no: "then_io m (return_io False) v \<noteq> (Done True, s')" for m :: "(unit, caller) io" and v
    by (auto simp: then_io_def bind_io_Done return_io_def)
  have user: "env (v\<lparr>c_user := u\<rparr>) = env v" "database (v\<lparr>c_user := u\<rparr>) = database v" for v :: caller and u
    by (simp_all add: env_def database_def)
  from less(2) no obtain t h u where t: "is_blocked at_loginFailures (c_ipKey s) s = (Done False, t)"
    and u: "prompt (nl @ '' |07Handle |08(or |15NEW|08 to register)|07: |15'') (int MaxHandleLen) t = (Done h, u)"
    and rest: "(if h = [] then login_loop n u
          else if sql_lower h = ''new''
          then bind_io register (\<lambda>r s. case r of Some u \<Rightarrow> (Done True, s\<lparr>c_user := u\<rparr>) | None \<Rightarrow> login_loop n s) u
          else bind_io (promptSecret '' |07Password|08: |15'' (int MaxPasswordLen)) (\<lambda>password s.
                 bind_io (checkPassword h password) (\<lambda>r s. case r of
                   Some u \<Rightarrow> (Done True, s\<lparr>c_user := u\<rparr>) | None \<Rightarrow> login_loop (n + 1) s) s) u) = (Done True, s')"
    by (subst (asm) login_loop.simps) (auto simp: bind_io_Done split: if_split_asm)
  have su: "suffix (s_in u) (s_in s)" using suffix_prompts(1) [OF u] suffix_blocked [OF t] suffix_order.trans by blast
  have len: "length (s_in u) < length (s_in s)" using is_blocked_in [OF t] prompt_consumes(1) [OF u] by simp
  have rec: ?case if "login_loop m v = (Done True, s')" "suffix (s_in v) (s_in u)" for m v
  proof -
    have "length (s_in v) < length (s_in s)" using suffix_length_le [OF that(2)] len by simp
    moreover have "suffix (s_in v) (s_in s)" using that(2) su suffix_order.trans by blast
    ultimately show ?thesis using less(1) [of v m] that(1) typed_last_suffix by blast
  qed
  consider "h = []" | "h \<noteq> []" "sql_lower h = ''new''" | "h \<noteq> []" "sql_lower h \<noteq> ''new''" by blast
  then show ?case
  proof cases
    case 1
    then show ?thesis using rec [of n u] rest by simp
  next
    case 2
    with rest obtain r v where v: "register u = (Done r, v)"
      "(case r of Some u \<Rightarrow> (Done True, v\<lparr>c_user := u\<rparr>) | None \<Rightarrow> login_loop n v) = (Done True, s')"
      by (auto simp: bind_io_Done)
    show ?thesis
    proof (cases r)
      case (Some a)
      with v have "s' = v\<lparr>c_user := a\<rparr>" "c_user s' = a" "database s' = database v" by (auto simp: user)
      then show ?thesis using register_creates [of u a v] v(1) Some by simp
    qed (use rec [of n v] v staysD [OF failures_register v(1)] in \<open>simp add: keeps_failures_def\<close>)
  next
    case 3
    with rest obtain p v r w where v: "promptSecret '' |07Password|08: |15'' (int MaxPasswordLen) u = (Done p, v)"
      and w: "checkPassword h p v = (Done r, w)" "(case r of Some u \<Rightarrow> (Done True, w\<lparr>c_user := u\<rparr>) | None \<Rightarrow> login_loop (n + 1) w) = (Done True, s')"
      by (auto simp: bind_io_Done)
    have wv: "s_in w = s_in v" using checkPassword_in [of h p v] w(1) by simp
    show ?thesis
    proof (cases r)
      case (Some a)
      with w(2) have s': "s' = w\<lparr>c_user := a\<rparr>" by simp
      have "typed_last s h p s'"
        unfolding typed_last_def handle_prompt_def password_prompt_def using suffix_blocked [OF t] u v wv s' by (intro exI [of _ t] exI [of _ u] exI [of _ v]) simp
      then show ?thesis using checkPassword_accepts [of h p v a w] w(1) Some s' user by auto
    qed (use rec [of "n + 1" w] w(2) wv suffix_prompts(2) [OF v] in simp)
  qed
qed

text \<open>
  Claim C7. Only the owner of an account gets in: when \<open>login\<close> returns true, either the handle and the password the
  caller typed last, at the prompts for them, are those of the account signed in, by the account table as it still
  is, and the account is not locked; or the caller has just created the account. Nothing was read after the password.
\<close>

theorem login_sound:
  "case login s of
     (Done True, s') \<Rightarrow>
       (\<exists>h p. typed_last s h p s' \<and> Authenticate (env s') (database s') h p = Inr (c_user s') \<and> \<not> u_locked (c_user s')) \<or>
       (\<exists>E h p l d d'. CreateUser E h p l d = (Inr (c_user s'), d') \<and> t_users (database s') = t_users d')
   | _ \<Rightarrow> True"
  using login_loop_sound [of 0 s] by (auto simp: login_def split: prod.split outcome.split bool.split)

section \<open>Guesses are counted and few\<close>

definition failures :: "caller \<Rightarrow> nat" where
  "failures s = length (hits_of (lm_loginFailures (sv_limit (c_srv s))) (c_ipKey s))"

definition at_most_more :: "nat \<Rightarrow> caller \<Rightarrow> caller \<Rightarrow> bool" where
  "at_most_more k s s' \<longleftrightarrow> c_ipKey s' = c_ipKey s \<and> failures s' \<le> failures s + k"

lemma at_most_trans: "at_most_more j s t \<Longrightarrow> at_most_more k t u \<Longrightarrow> at_most_more (j + k) s u"
  by (simp add: at_most_more_def)

lemma at_most_weaken: "at_most_more j s t \<Longrightarrow> j \<le> k \<Longrightarrow> at_most_more k s t"
  by (simp add: at_most_more_def)

lemma at_most_keeps: "keeps_failures s t \<Longrightarrow> at_most_more 0 s t"
  by (simp add: keeps_failures_def at_most_more_def failures_def)

lemma at_most_bind:
  assumes "at_most_more j s (snd (m s))" "\<And>x t. m s = (Done x, t) \<Longrightarrow> at_most_more k t (snd (f x t))"
  shows "at_most_more (j + k) s (snd (bind_io m f s))"
proof -
  obtain q t where q: "m s = (q, t)" by fastforce
  show ?thesis using assms(1) assms(2) [of _ t] at_most_trans [of j s t k] at_most_weaken [of j s t "j + k"] q
    by (cases q) (auto simp: bind_io_def)
qed

lemma sweep_len: "length (hits_of (sweep now r) k) \<le> length (hits_of r k)"
proof -
  have "hits_of (sweep now r) k = (if now - rl_swept r < rl_window r then hits_of r k else hits_of (snd (recent now k r)) k)"
    by (simp add: sweep_def hits_of_def)
  then show ?thesis by (simp add: recent_simps(2))
qed

lemma hit_count: "length (hits_of (fst (hit H now k (r, s))) k) \<le> Suc (length (hits_of r k))"
proof -
  let ?kept = "filter (\<lambda>t. now - rl_window r < t) (hits_of r k)"
  obtain r1 where r1: "recent now k r = (?kept, r1)" using recent_simps(1) [of now k r] by (metis prod.collapse)
  let ?r2 = "r1\<lparr>rl_hits := (rl_hits r1)(k \<mapsto> ?kept @ [now])\<rparr>"
  have "length (hits_of (sweep now ?r2) k) \<le> length (hits_of ?r2 k)" by (rule sweep_len)
  also have "\<dots> \<le> Suc (length (hits_of r k))" by (simp add: hits_of_def [of ?r2])
  finally show ?thesis by (simp add: hit_def r1)
qed

lemma blocked_count: "at_most_more 0 s (snd (is_blocked at_loginFailures (c_ipKey s) s))"
  using recent_simps(2) [of "s_now s" "c_ipKey s" "lm_loginFailures (sv_limit (c_srv s))" "c_ipKey s"]
  by (simp add: at_most_more_def failures_def is_blocked_def blocked_def set_limiter_def at_loginFailures_def case_prod_beta Let_def)

lemma keeps_print: "keeps_failures s (snd (then_io (print t) (return_io x) s))"
  using failures.stays_then [OF terminal_print [THEN terminal_failures] failures.stays_return [of x]] by (simp add: stays_def)

lemma check_count: "at_most_more 1 s (snd (checkPassword h p s))"
proof -
  let ?a = "''handle:'' @ to_lower (se_lower (env s)) h"
  obtain wait ok b where b: "backoff_begin (s_now s) ?a (lm_accounts (sv_limit (c_srv s))) = ((wait, ok), b)"
    by (metis prod.collapse)
  have acc: "at_most_more 0 t (set_accounts b t)" "at_most_more 0 t (on_server (\<lambda>sv. sv\<lparr>sv_db := d\<rparr>) t)"
    "at_most_more 0 t (log_event kind i hd dt t)" for t b d kind i hd dt
    by (simp_all add: at_most_more_def failures_def set_accounts_def log_event_def server_event_def)
  have hit: "at_most_more 1 t (record_hit at_loginFailures (c_ipKey t) t)" for t
    using hit_count [of store_hits "s_now t" "c_ipKey t" "lm_loginFailures (sv_limit (c_srv t))" "database t"]
    by (simp add: at_most_more_def failures_def record_hit_def set_limiter_def at_loginFailures_def case_prod_beta Let_def)
  have key: "c_ipKey (set_accounts b t) = c_ipKey t" "c_ipKey (on_server f t) = c_ipKey t" for b f and t :: caller
    by (simp_all add: set_accounts_def)
  have pr: "at_most_more 1 s (snd (then_io (print msg) (return_io (None :: user option)) t))" if "at_most_more 1 s t" for msg t
    using at_most_trans [OF that at_most_keeps [OF keeps_print]] by simp
  have s1: "at_most_more 0 s (set_accounts b s)" by (rule acc)
  have fin: "at_most_more 0 s (set_accounts b' (on_server (\<lambda>sv. sv\<lparr>sv_db := d'\<rparr>) (set_accounts b s)))" for b' d'
    using at_most_trans [OF at_most_trans [OF s1 acc(2)] acc(1)] by simp
  have lost: "at_most_more 1 s (log_event kind i hd dt (record_hit at_loginFailures (c_ipKey s) (set_accounts b' (on_server (\<lambda>sv. sv\<lparr>sv_db := d'\<rparr>) (set_accounts b s)))))"
    for b' d' kind i hd dt
    using at_most_trans [OF at_most_trans [OF fin [of b' d'] hit] acc(3)] by (simp add: key)
  have rel: "at_most_more 0 s (set_accounts b' (set_accounts b s))" for b' using at_most_trans [OF s1 acc(1)] by simp
  show ?thesis unfolding checkPassword_def b Let_def
    using pr at_most_weaken [OF s1, of 1] at_most_weaken [OF fin, of 1] at_most_weaken [OF rel, of 1] lost
    by (simp add: key case_prod_beta split: sum.split)
qed

lemma login_loop_count: "n \<le> maxLoginAttempts \<Longrightarrow> at_most_more (maxLoginAttempts - n) s (snd (login_loop n s))"
proof (induction "length (s_in s)" arbitrary: n s rule: less_induct)
  case less
  show ?case
  proof (cases "maxLoginAttempts \<le> n")
    case True
    then show ?thesis using at_most_keeps [OF keeps_print] less(2) by (subst login_loop.simps) simp
  next
    case False
    let ?k = "maxLoginAttempts - n"
    have one: "?k = 1 + (maxLoginAttempts - (n + 1))" using False by simp
    have asked: "at_most_more 0 t (snd (prompt l m t))" "at_most_more 0 t (snd (promptSecret l m t))" for t l m
      using terminal_prompt [THEN terminal_failures] at_most_keeps by (simp_all add: stays_def)
    have signed: "at_most_more 0 t (snd (register t))" for t using failures_register at_most_keeps by (simp add: stays_def)
    have user: "at_most_more j t (t\<lparr>c_user := u\<rparr>)" for j t u by (simp add: at_most_more_def failures_def)
    have rec: "at_most_more (maxLoginAttempts - n') u (snd (login_loop n' u))" if "length (s_in u) < length (s_in s)" "n' \<le> n + 1" for n' u
      using less(1) [OF that(1)] that(2) False by simp
    have step: "login_loop n s = bind_io (is_blocked at_loginFailures (c_ipKey s)) (\<lambda>b s.
        if b then then_io (print (nl @ colAlert @ ''Too many failed logins from your address. Try again later.'' @ nl)) (return_io False) s
        else bind_io (prompt (nl @ '' |07Handle |08(or |15NEW|08 to register)|07: |15'') (int MaxHandleLen)) (\<lambda>handle s.
          if handle = [] then login_loop n s
          else if sql_lower handle = ''new''
          then bind_io register (\<lambda>r s. case r of Some u \<Rightarrow> (Done True, s\<lparr>c_user := u\<rparr>) | None \<Rightarrow> login_loop n s) s
          else bind_io (promptSecret '' |07Password|08: |15'' (int MaxPasswordLen)) (\<lambda>password s.
                 bind_io (checkPassword handle password) (\<lambda>r s. case r of
                   Some u \<Rightarrow> (Done True, s\<lparr>c_user := u\<rparr>) | None \<Rightarrow> login_loop (n + 1) s) s) s) s) s"
      using False by (subst login_loop.simps) simp
    show ?thesis unfolding step
    proof (rule at_most_bind [where j = 0, simplified], rule blocked_count, goal_cases)
      case (1 b t)
      show ?case
      proof (cases b)
        case True
        then show ?thesis using at_most_weaken [OF at_most_keeps [OF keeps_print]] by simp
      next
        case False
        have "at_most_more ?k t (snd (bind_io (prompt (nl @ '' |07Handle |08(or |15NEW|08 to register)|07: |15'') (int MaxHandleLen)) (\<lambda>handle s.
          if handle = [] then login_loop n s
          else if sql_lower handle = ''new''
          then bind_io register (\<lambda>r s. case r of Some u \<Rightarrow> (Done True, s\<lparr>c_user := u\<rparr>) | None \<Rightarrow> login_loop n s) s
          else bind_io (promptSecret '' |07Password|08: |15'' (int MaxPasswordLen)) (\<lambda>password s.
                 bind_io (checkPassword handle password) (\<lambda>r s. case r of
                   Some u \<Rightarrow> (Done True, s\<lparr>c_user := u\<rparr>) | None \<Rightarrow> login_loop (n + 1) s) s) s) t))"
        proof (rule at_most_bind [where j = 0, simplified], rule asked, goal_cases)
          case (1 handle u)
          have len: "length (s_in u) < length (s_in s)"
            using is_blocked_in [OF \<open>is_blocked at_loginFailures (c_ipKey s) s = (Done b, t)\<close>] prompt_consumes(1) [OF 1] by simp
          have reg: "at_most_more ?k u (snd (bind_io register (\<lambda>r s. case r of Some u \<Rightarrow> (Done True, s\<lparr>c_user := u\<rparr>) | None \<Rightarrow> login_loop n s) u))"
          proof (rule at_most_bind [where j = 0, simplified], rule signed, goal_cases)
            case (1 r v)
            have "length (s_in v) < length (s_in s)" using keeps_failures_len [OF staysD [OF failures_register 1]] len by simp
            from rec [OF this, of n] user show ?case by (cases r) simp_all
          qed
          have pw: "at_most_more ?k u (snd (bind_io (promptSecret '' |07Password|08: |15'' (int MaxPasswordLen)) (\<lambda>password s.
                 bind_io (checkPassword handle password) (\<lambda>r s. case r of
                   Some u \<Rightarrow> (Done True, s\<lparr>c_user := u\<rparr>) | None \<Rightarrow> login_loop (n + 1) s) s) u))"
          proof (rule at_most_bind [where j = 0, simplified], rule asked, goal_cases)
            case (1 password v)
            show ?case unfolding one
            proof (rule at_most_bind, rule check_count, goal_cases)
              case (1 r w)
              have "length (s_in w) < length (s_in s)"
                using checkPassword_len [of handle password v] 1 prompt_consumes(2) \<open>promptSecret _ _ u = (Done password, v)\<close> len by fastforce
              from rec [OF this, of "n + 1"] user show ?case by (cases r) simp_all
            qed
          qed
          show ?case using rec [OF len, of n] reg pw by simp
        qed
        then show ?thesis using False by simp
      qed
    qed
  qed
qed

text \<open>
  Claim C9. Guessing over one connection ends quickly: however much a caller types, \<open>login\<close> returns
  (the model is total), adds at most three failed attempts to the caller's address, and an
  address already over its limit is refused before anything is read from it.
\<close>

theorem login_bounded:
  "failures (snd (login s)) \<le> failures s + maxLoginAttempts \<and>
   (if fst (blocked (s_now s) (c_ipKey s) (lm_loginFailures (sv_limit (c_srv s))))
    then fst (login s) \<noteq> Done True \<and> s_in (snd (login s)) = s_in s else True)"
proof (intro conjI)
  show "failures (snd (login s)) \<le> failures s + maxLoginAttempts"
    using login_loop_count [of 0 s] by (simp add: login_def at_most_more_def)
next
  let ?m = "print (nl @ colAlert @ ''Too many failed logins from your address. Try again later.'' @ nl)"
  have "login s = then_io ?m (return_io False) t \<and> s_in t = s_in s"
    if "is_blocked at_loginFailures (c_ipKey s) s = (Done True, t)" for t
    using that is_blocked_in [OF that] unfolding login_def
    by (subst login_loop.simps) (simp add: bind_io_def maxLoginAttempts_def)
  moreover have "fst (then_io ?m (return_io False) t) \<noteq> Done True" "s_in (snd (then_io ?m (return_io False) t)) = s_in t" for t :: caller
    by (auto simp: then_print print_def split: option.splits)
  ultimately show "if fst (blocked (s_now s) (c_ipKey s) (lm_loginFailures (sv_limit (c_srv s))))
    then fst (login s) \<noteq> Done True \<and> s_in (snd (login s)) = s_in s else True"
    by (auto simp: is_blocked_def at_loginFailures_def case_prod_beta)
qed

section \<open>The right password gets in\<close>








section \<open>Narrow windows\<close>

lemma print_inv:
  "renderer_inv (s_rend s) \<Longrightarrow> \<exists>t. print l s = (Done (), t) \<and> renderer_inv (s_rend t) \<and> s_width t = s_width s"
  using Render_total [of "s_rend s" l] by (auto simp: print_def write_bytes_def)

lemma print_all_inv: "renderer_inv (s_rend s) \<Longrightarrow> \<exists>t. print_all ls s = (Done (), t)"
proof (induction ls arbitrary: s)
  case (Cons l ls)
  from print_inv [OF Cons.prems, of l] Cons.IH show ?case by (auto simp: then_io_def bind_io_def)
qed (simp add: return_io_def)

lemma boxLines_wide: "2 \<le> w \<Longrightarrow> \<exists>ls. boxLines title w body = Some ls"
proof -
  assume w: "2 \<le> w"
  have all: "\<exists>ys. all_some xs = Some ys" if "\<forall>x \<in> set xs. x \<noteq> None" for xs :: "string option list"
    using that by (induction xs) auto
  have "boxTop title w \<noteq> None" "boxRow l w \<noteq> None" "boxBottom w \<noteq> None" for l
    using w by (simp_all add: boxTop_def boxRow_def boxBottom_def Repeat_def Let_def)
  then show ?thesis unfolding boxLines_def by (intro all) auto
qed

text \<open>
  The welcome screen crashes in narrow windows: for a window of 60 columns or fewer,
  which the terminal layer allows down to 20, the padding left of the box is
  \<open>strings.Repeat\<close> of a negative count, so the session panics before the caller can sign in; from
  61 columns on it never does. (A custom welcome screen avoids it.)
\<close>

theorem welcome_narrow_panics:
  assumes "sv_art (c_srv s) ''welcome'' = None" "renderer_inv (s_rend s)"
  shows "fst (welcome_screen s) = Panicked \<longleftrightarrow> s_width s \<le> 60"
proof -
  obtain t where t: "print (''|CL'' @ nl @ logo logoIndent @ nl) s = (Done (), t)" "renderer_inv (s_rend t)" "s_width t = s_width s"
    using print_inv [OF assms(2)] by blast
  have neg: "half (width t - welcomeWidth) < 0 \<longleftrightarrow> s_width s \<le> 60"
    using t(3) by (auto simp: half_def width_def welcomeWidth_def maxScreenWidth_def)
  have art: "showCustomArt ''welcome'' (screenTokens s) s = (Done False, s)" using assms(1) by (simp add: showCustomArt_def)
  show ?thesis
  proof (cases "s_width s \<le> 60")
    case True
    then have "Repeat '' '' (half (width t - welcomeWidth)) = None" using neg by (simp add: Repeat_def)
    then show ?thesis using True t(1) art by (simp add: welcome_screen_def bind_io_def then_io_def may_panic_def Let_def)
  next
    case False
    then obtain pad where pad: "Repeat '' '' (half (width t - welcomeWidth)) = Some pad" using neg by (auto simp: Repeat_def)
    have ok: "\<exists>ls. boxLines (sv_name (c_srv s)) welcomeWidth body = Some ls" for body
      by (rule boxLines_wide) (simp add: welcomeWidth_def)
    have "\<exists>u. print_all ls t = (Done (), u)" for ls using print_all_inv [OF t(2)] .
    then show ?thesis using False t(1) art pad ok
      by (auto simp: welcome_screen_def bind_io_def then_io_def may_panic_def Let_def split: option.split prod.split) (metis fst_conv outcome.distinct(3))
  qed
qed

theorem welcome_narrow_panics_witness:
  "fst (welcome_screen ((demo_caller demo_db [])\<lparr>s_width := 40\<rparr>)) = Panicked \<and> fst (welcome_screen (demo_caller demo_db [])) \<noteq> Panicked"
  using welcome_narrow_panics [of "(demo_caller demo_db [])\<lparr>s_width := 40\<rparr>"] welcome_narrow_panics [of "demo_caller demo_db []"]
  by (simp add: NewRenderer_inv)

end
