(* ===== verification/Web_Props.thy ===== *)
theory Web_Props
  imports Web_Pages Login_Props
begin

text \<open>
  What the sysop's web interface guarantees: nobody but a signed-in sysop changes anything, and then
  only by a form of this site; every change is in the event log; sessions come from logins, end in
  time, and are few.
\<close>

section \<open>Who may change anything\<close>

definition keeps_server :: "(web \<Rightarrow> reply \<times> web) \<Rightarrow> bool" where
  "keeps_server m \<longleftrightarrow> (\<forall>w. wb_srv (snd (m w)) = wb_srv w)"

lemma keeps_serverD: "keeps_server m \<Longrightarrow> wb_srv (snd (m w)) = wb_srv w"
  by (simp add: keeps_server_def)

lemma keeps_render: "keeps_server (render_page q title data)"
  by (simp add: keeps_server_def render_page_def Let_def split: prod.splits)

lemma keeps_done: "keeps_server (done_post q to msg)"
  by (simp add: keeps_server_def done_post_def on_sessions_def)

lemma keeps_failed: "keeps_server (failed_post q to e)"
  by (simp add: failed_post_def keeps_done)

lemma get_pages_keep:
  "keeps_server (dashboard q)" "keeps_server (callers_page q)" "keeps_server (users_page q)" "keeps_server (events_page q)"
  "keeps_server (boards_page q)" "keeps_server (news_page q)" "keeps_server (oneliners_page q)" "keeps_server (art_page q)"
  "keeps_server (user_page N q v)" "keeps_server (board_page q v)" "keeps_server (artPreview q v)"
  using keeps_render keeps_failed keeps_done
  by (auto simp: keeps_server_def dashboard_def callers_page_def users_page_def events_page_def boards_page_def news_page_def
      oneliners_page_def art_page_def user_page_def board_page_def artPreview_def with_id_def Let_def
      split: option.splits sum.splits)

text \<open>What lets a request through the guard.\<close>

definition admitted :: "net_lib \<Rightarrow> nanos \<Rightarrow> http_request \<Rightarrow> web \<Rightarrow> user \<Rightarrow> bool" where
  "admitted N now r w u \<longleftrightarrow> (\<exists>c s. rq_cookie r = Some c \<and> map_of (wb_sessions w) (tokenKey (nl_sha256 N) c) = Some s \<and>
     \<not> session_expired now s \<and> UserByID (wb_db w) (ws_userID s) = Inr u \<and> u_sysop u \<and> \<not> u_locked u \<and>
     (rq_method r = POST \<longrightarrow> rq_formOK r \<and> sameOrigin N r \<and> rq_form r ''csrf'' = ws_csrf s))"

lemma Sysop_Inr: "Sysop sv i = Inr u \<longleftrightarrow> UserByID (sv_db sv) i = Inr u \<and> u_sysop u \<and> \<not> u_locked u"
  by (cases "UserByID (sv_db sv) i") (auto simp: Sysop_def)

lemma signedIn_cases:
  obtains (refused) "wb_srv (snd (signedIn N now fn r w)) = wb_srv w"
  | (through) q w1 where "signedIn N now fn r w = fn q w1" "wb_srv w1 = wb_srv w" "admitted N now r w (q_user q)" "q_rq q = r"
      "q_ip q = clientIP N r"
proof (cases "rq_cookie r")
  case None
  then show ?thesis using refused by (simp add: signedIn_def)
next
  case (Some c)
  obtain found t where g: "get_session (nl_sha256 N) c now (wb_sessions w) = (found, t)" by fastforce
  show ?thesis
  proof (cases found)
    case None
    then show ?thesis using refused Some g by (simp add: signedIn_def)
  next
    case found: (Some ks)
    obtain key s where ks: "ks = (key, s)" by (cases ks)
    have m: "\<exists>s0. map_of (wb_sessions w) (tokenKey (nl_sha256 N) c) = Some s0 \<and> \<not> session_expired now s0 \<and> s = s0\<lparr>ws_seen := now\<rparr>"
      using g found ks by (auto simp: get_session_def Let_def split: option.splits if_splits)
    show ?thesis
    proof (cases "Sysop (wb_srv w) (ws_userID s)")
      case (Inl e)
      then show ?thesis using refused Some g found ks by (simp add: signedIn_def on_sessions_def)
    next
      case (Inr u)
      let ?q = "\<lparr>q_rq = r, q_key = key, q_csrf = ws_csrf s, q_user = u, q_ip = clientIP N r\<rparr>"
      show ?thesis
      proof (cases "rq_method r = POST \<and> (\<not> rq_formOK r \<or> \<not> sameOrigin N r \<or> rq_form r ''csrf'' \<noteq> ws_csrf s)")
        case True
        then show ?thesis using refused Some g found ks Inr by (cases "rq_formOK r") (auto simp: signedIn_def Let_def)
      next
        case False
        have "signedIn N now fn r w = fn ?q (w\<lparr>wb_sessions := t\<rparr>)"
          using False Some g found ks Inr by (auto simp: signedIn_def)
        moreover have "admitted N now r w u" using m Some Inr False by (auto simp: admitted_def Sysop_Inr)
        ultimately show ?thesis using through [of ?q "w\<lparr>wb_sessions := t\<rparr>"] by simp
      qed
    qed
  qed
qed

lemma signedIn_keeps:
  assumes "\<And>q. keeps_server (fn q)"
  shows "wb_srv (snd (signedIn N now fn r w)) = wb_srv w"
  by (cases rule: signedIn_cases [of N now fn r w]) (auto simp: keeps_serverD [OF assms])

lemma loginPage_keeps: "wb_srv (snd (loginPage N now r w)) = wb_srv w"
  by (auto simp: loginPage_def Let_def split: option.splits prod.splits sum.splits)

lemma get_page_keeps: "get_page N now path = Some h \<Longrightarrow> wb_srv (snd (h r w)) = wb_srv w"
  by (auto simp: get_page_def Let_def loginPage_keeps signedIn_keeps get_pages_keep split: list.splits if_splits)

lemma post_page_cases:
  assumes "post_page N now token csrf path = Some h"
  shows "h = loginSubmit N now token csrf \<and> path = [''login''] \<or> (\<exists>fn. h = signedIn N now fn)"
  using assms by (auto simp: post_page_def Let_def split: list.splits if_splits)

text \<open>
  Claim C28. Only a signed-in sysop, by a form of this very site, changes anything. When a request
  leaves the running BBS (its database, its callers, its limiters, its mail queue) other than it
  was, it is a POST, and it is either an attempt to log in from a same-origin form, or it carries the
  cookie of a session that has not expired, of an account that is a sysop and not locked at that
  moment, came from the same origin, and holds the session's form token. Looking at pages changes
  nothing.
\<close>

theorem web_guarded:
  assumes "wb_srv (snd (serve N now token csrf r w)) \<noteq> wb_srv w"
  shows "rq_method r = POST \<and> rq_formOK r \<and> sameOrigin N r \<and> (rq_path r = [''login''] \<or> (\<exists>u. admitted N now r w u))"
proof (cases "rq_method r")
  case GET
  then show ?thesis using assms get_page_keeps by (auto simp: serve_def Let_def split: option.splits)
next
  case POST
  then obtain h where h: "post_page N now token csrf (rq_path r) = Some h" and change: "wb_srv (snd (h r w)) \<noteq> wb_srv w"
    using assms by (auto simp: serve_def Let_def split: option.splits)
  from post_page_cases [OF h] show ?thesis
  proof (elim disjE conjE exE)
    assume "h = loginSubmit N now token csrf" "rq_path r = [''login'']"
    with change POST show ?thesis by (auto simp: loginSubmit_def split: if_splits)
  next
    fix fn
    assume "h = signedIn N now fn"
    with change POST show ?thesis
      by (cases rule: signedIn_cases [of N now fn r w]) (auto simp: admitted_def)
  qed
qed (use assms in \<open>auto simp: serve_def Let_def\<close>)

section \<open>Every change is in the event log\<close>

definition sysop_entry :: "user \<Rightarrow> string \<Rightarrow> string \<Rightarrow> event" where
  "sysop_entry u ip detail = \<lparr>e_id = 0, e_at = 0, e_kind = EventSysop, e_user = u_id u, e_handle = u_handle u, e_ip = ip, e_detail = detail @ webTag\<rparr>"

definition logged :: "nanos \<Rightarrow> user \<Rightarrow> string \<Rightarrow> server \<Rightarrow> server \<Rightarrow> bool" where
  "logged now u ip sv sv' \<longleftrightarrow> sv_env sv' = sv_env sv \<and>
     (\<exists>d detail. sv_db sv' = snd (LogEvent (server_env now sv) (sysop_entry u ip detail) d))"

definition audited :: "nanos \<Rightarrow> user \<Rightarrow> string \<Rightarrow> server \<Rightarrow> server \<Rightarrow> bool" where
  "audited now u ip sv sv' \<longleftrightarrow> sv_env sv' = sv_env sv \<and> sv_db sv' = sv_db sv \<or> logged now u ip sv sv'"

lemma logged_webAudit: "sv_env sv = sv_env sv0 \<Longrightarrow> logged now u ip sv0 (webAudit now u ip detail sv)"
  by (auto simp: logged_def webAudit_def user_event_def server_event_def sysop_entry_def server_env_def)

lemma logged_nodes: "logged now u ip sv0 sv \<Longrightarrow> logged now u ip sv0 (admin_nodes f sv)"
  by (simp add: logged_def admin_nodes_def)

lemma admin_nodes_simps [simp]: "sv_db (admin_nodes f sv) = sv_db sv" "sv_env (admin_nodes f sv) = sv_env sv"
  by (simp_all add: admin_nodes_def)

lemma email_simps [simp]:
  "sv_env (emailNewMail now u from m on sv) = sv_env sv"
  by (auto simp: emailNewMail_def limited_email_def limit_blocked_def limit_hit_def sendEmail_def Let_def split: option.splits prod.splits)

text \<open>An operation of the store that fails leaves the database as it was.\<close>

definition clean_fail :: "(db \<Rightarrow> (error + 'r) \<times> db) \<Rightarrow> bool" where
  "clean_fail f \<longleftrightarrow> (\<forall>d e. fst (f d) = Inl e \<longrightarrow> snd (f d) = d)"

lemma clean_tx: "clean_fail (tx f)"
  by (auto simp: clean_fail_def tx_def split: sum.splits)

lemma update_where_count: "count_where P xs = 0 \<Longrightarrow> update_where P f xs = xs"
  by (auto simp: count_where_def update_where_def filter_empty_conv intro: map_idI)

lemma clean_updateUser: "clean_fail (updateUser i f)"
  by (auto simp: clean_fail_def updateUser_def requireRow_def set_user_def update_where_count split: if_splits)

lemma clean_guarded: "(\<And>d. clean_fail (k d)) \<Longrightarrow> clean_fail (\<lambda>d. guarded (g d) (k d) d)"
  by (auto simp: clean_fail_def guarded_def split: sum.splits)

lemma clean_case: "(\<And>v. clean_fail (k v)) \<Longrightarrow> clean_fail (\<lambda>d. case x of Inl e \<Rightarrow> (Inl e, d) | Inr v \<Rightarrow> k v d)"
  by (auto simp: clean_fail_def split: sum.splits)

lemma clean_if: "clean_fail k \<Longrightarrow> clean_fail (\<lambda>d. if b then (Inl e, d) else k d)"
  by (auto simp: clean_fail_def)

lemma clean_pair: "(\<And>u v. clean_fail (k u v)) \<Longrightarrow> clean_fail (\<lambda>d. case p of (u, v) \<Rightarrow> k u v d)"
  by (cases p) simp

lemmas clean_rules = clean_updateUser clean_tx clean_guarded clean_case clean_if clean_pair

lemma clean_setPassword: "clean_fail (setPassword E i pw)"
  unfolding setPassword_def [abs_def] by (intro clean_rules)

lemma clean_user_ops:
  "clean_fail (ValidateUser a i)" "clean_fail (SetLocked a i b)" "clean_fail (SetSysop a i b)" "clean_fail (ResetPassword E a i pw)"
  "clean_fail (DeleteUser a i)"
  unfolding ValidateUser_def [abs_def] SetLocked_def [abs_def] SetSysop_def [abs_def] ResetPassword_def [abs_def] DeleteUser_def [abs_def]
  by (intro clean_rules clean_setPassword)+

lemma clean_cleanLetter:
  "(\<And>a b. clean_fail (k a b)) \<Longrightarrow> clean_fail (\<lambda>d. case x of Inl e \<Rightarrow> (Inl e, d) | Inr (a, b) \<Rightarrow> k a b d)"
  by (auto simp: clean_fail_def split: sum.splits)

lemma clean_other_ops:
  "clean_fail (SendMessage E a i subj body re)" "clean_fail (CreateBoard E a n desc b)" "clean_fail (DeleteBoard a i)"
  "clean_fail (DeletePost j a)" "clean_fail (AddBulletin E a subj body)" "clean_fail (DeleteBulletin a i)" "clean_fail (DeleteOneliner a i)"
  unfolding SendMessage_def [abs_def] CreateBoard_def [abs_def] DeleteBoard_def [abs_def] DeletePost_def [abs_def] AddBulletin_def [abs_def]
    DeleteBulletin_def [abs_def] DeleteOneliner_def [abs_def] sysopDelete_def [abs_def] Let_def
  by (intro clean_cleanLetter clean_rules)+

lemma audited_on_user:
  assumes f: "\<And>u. clean_fail (f u)" and k: "\<And>u v sv. sv_env sv = sv_env sv0 \<Longrightarrow> logged now a ip sv0 (k u v sv)"
    and sv: "sv_db sv = sv_db sv0" "sv_env sv = sv_env sv0"
  shows "audited now a ip sv0 (snd (on_user i f k sv))"
proof (cases "UserByID (sv_db sv) i")
  case (Inr u)
  show ?thesis
  proof (cases "fst (f u (sv_db sv))")
    case (Inl e)
    then have "snd (f u (sv_db sv)) = sv_db sv" using f [of u] by (simp add: clean_fail_def)
    with Inl Inr sv show ?thesis
      by (auto simp: on_user_def admin_store_def audited_def Let_def split: prod.splits)
  next
    case (Inr v)
    then show ?thesis using \<open>UserByID (sv_db sv) i = Inr u\<close> k sv
      by (auto simp: on_user_def admin_store_def audited_def Let_def split: prod.splits)
  qed
qed (use sv in \<open>simp add: on_user_def audited_def\<close>)

lemma audited_and_audit:
  assumes f: "clean_fail f" and k: "\<And>v sv. sv_env sv = sv_env sv0 \<Longrightarrow> logged now a ip sv0 (k v sv)"
    and sv: "sv_db sv = sv_db sv0" "sv_env sv = sv_env sv0"
  shows "audited now a ip sv0 (snd (and_audit f k sv))"
proof (cases "fst (f (sv_db sv))")
  case (Inl e)
  then have "snd (f (sv_db sv)) = sv_db sv" using f by (simp add: clean_fail_def)
  with Inl sv show ?thesis by (auto simp: and_audit_def admin_store_def audited_def Let_def split: prod.splits)
next
  case (Inr v)
  with k sv show ?thesis by (auto simp: and_audit_def admin_store_def audited_def Let_def split: prod.splits)
qed

lemma audited_same: "sv_db sv' = sv_db sv \<Longrightarrow> sv_env sv' = sv_env sv \<Longrightarrow> audited now a ip sv sv'"
  by (simp add: audited_def)

lemma audited_refl [simp]: "audited now a ip sv sv"
  by (simp add: audited_def)

lemma audited_logged: "logged now a ip sv sv' \<Longrightarrow> audited now a ip sv sv'"
  by (simp add: audited_def)

lemma kick_broadcast_audited:
  "audited now a ip sv (snd (KickNode now a ip i sv))" "audited now a ip sv (snd (Broadcast now a ip text sv))"
  by (auto simp: KickNode_def Broadcast_def Let_def intro!: audited_same logged_webAudit [THEN audited_logged] split: prod.splits)

lemmas webAudit_audited = logged_webAudit [THEN audited_logged]

lemma user_ops_audited:
  "audited now a ip sv (snd (ApproveUser now a ip i sv))" "audited now a ip sv (snd (AdminSetLocked now a ip i b sv))"
  "audited now a ip sv (snd (AdminSetSysop now a ip i b sv))" "audited now a ip sv (snd (AdminResetPassword now a ip i pw sv))"
  "audited now a ip sv (snd (SendMail now a ip i subj body sv))"
  unfolding ApproveUser_def AdminSetLocked_def AdminSetSysop_def AdminResetPassword_def SendMail_def Let_def
  by (auto intro!: audited_on_user clean_user_ops clean_other_ops logged_webAudit logged_nodes split: prod.splits)

lemma other_ops_audited:
  "audited now a ip sv (snd (AdminCreateBoard now a ip n desc b sv))"
  "audited now a ip sv (snd (AdminDeletePost now a ip n p sv))" "audited now a ip sv (snd (AdminAddBulletin now a ip subj body sv))"
  "audited now a ip sv (snd (AdminDeleteBulletin now a ip bu sv))" "audited now a ip sv (snd (AdminDeleteOneliner now a ip l sv))"
  unfolding AdminCreateBoard_def AdminDeletePost_def AdminAddBulletin_def AdminDeleteBulletin_def AdminDeleteOneliner_def
  by (auto intro!: audited_and_audit clean_other_ops logged_webAudit logged_nodes)

lemma admin_checked_ops_audited:
  "audited now a ip sv (snd (AdminDeleteUser now a ip i sv))" "audited now a ip sv (snd (AdminDeleteBoard now a ip i sv))"
  unfolding AdminDeleteUser_def AdminDeleteBoard_def
  by (auto split: sum.splits intro!: audited_and_audit clean_user_ops clean_other_ops logged_webAudit)

lemma admin_act_audited:
  assumes "\<And>sv. audited now a ip sv (snd (f sv))"
  shows "audited now a ip (wb_srv w) (wb_srv (snd (admin_act q back f to msg w)))"
    and "audited now a ip (wb_srv w) (wb_srv (snd (then_drop i q back f to msg w)))"
  using assms [of "wb_srv w"] keeps_done keeps_failed
  by (auto simp: admin_act_def then_drop_def Let_def keeps_server_def on_sessions_def split: prod.splits sum.splits)

lemma kept_audited: "keeps_server m \<Longrightarrow> audited now a ip (wb_srv w) (wb_srv (snd (m w)))"
  by (simp add: audited_def keeps_serverD)

lemma with_id_audited:
  "(\<And>i. audited now a ip (wb_srv w) (wb_srv (snd (k i w)))) \<Longrightarrow> audited now a ip (wb_srv w) (wb_srv (snd (with_id v k w)))"
  by (auto simp: with_id_def audited_def split: option.splits)

lemma audited_if:
  "audited now a ip sv (wb_srv (snd x)) \<Longrightarrow> audited now a ip sv (wb_srv (snd y)) \<Longrightarrow> audited now a ip sv (wb_srv (snd (if b then x else y)))"
  by simp

lemma audited_sum:
  "(\<And>e. audited now a ip sv (wb_srv (snd (k e)))) \<Longrightarrow> (\<And>v. audited now a ip sv (wb_srv (snd (h v)))) \<Longrightarrow>
   audited now a ip sv (wb_srv (snd (case x of Inl e \<Rightarrow> k e | Inr v \<Rightarrow> h v)))"
  by (cases x) simp_all

lemma audited_option:
  "audited now a ip sv (wb_srv (snd n)) \<Longrightarrow> (\<And>v. audited now a ip sv (wb_srv (snd (h v)))) \<Longrightarrow>
   audited now a ip sv (wb_srv (snd (case x of None \<Rightarrow> n | Some v \<Rightarrow> h v)))"
  by (cases x) simp_all

lemma audited_nothing: "audited now a ip (wb_srv w) (wb_srv (snd (r, w)))"
  by (simp add: audited_same)

lemmas page_audited = audited_if audited_sum audited_option audited_nothing admin_act_audited kick_broadcast_audited user_ops_audited other_ops_audited admin_checked_ops_audited
  with_id_audited kept_audited keeps_done keeps_failed

lemma post_pages_audited:
  "audited now (q_user q) (q_ip q) (wb_srv w) (wb_srv (snd (logout N q w)))"
  "audited now (q_user q) (q_ip q) (wb_srv w) (wb_srv (snd (kick_page now q w)))"
  "audited now (q_user q) (q_ip q) (wb_srv w) (wb_srv (snd (broadcast_page now q w)))"
  "audited now (q_user q) (q_ip q) (wb_srv w) (wb_srv (snd (userAction now q v act w)))"
  "audited now (q_user q) (q_ip q) (wb_srv w) (wb_srv (snd (createBoard_page now q w)))"
  "audited now (q_user q) (q_ip q) (wb_srv w) (wb_srv (snd (deleteBoard_page now q v w)))"
  "audited now (q_user q) (q_ip q) (wb_srv w) (wb_srv (snd (deletePost_page now q v pv w)))"
  "audited now (q_user q) (q_ip q) (wb_srv w) (wb_srv (snd (addNews_page now q w)))"
  "audited now (q_user q) (q_ip q) (wb_srv w) (wb_srv (snd (deleteNews_page now q v w)))"
  "audited now (q_user q) (q_ip q) (wb_srv w) (wb_srv (snd (deleteOneliner_page now q v w)))"
proof -
  let ?a = "\<lambda>m. audited now (q_user q) (q_ip q) (wb_srv w) (wb_srv (snd (m w)))"
  show "?a (logout N q)" by (auto simp: logout_def on_sessions_def audited_def split: option.splits)
  show "?a (kick_page now q)"
  proof (cases "atoi (rq_form (q_rq q) ''node'')")
    case (Some i)
    obtain ok sv where k: "KickNode now (q_user q) (q_ip q) i (wb_srv w) = (ok, sv)" by fastforce
    then have "audited now (q_user q) (q_ip q) (wb_srv w) sv" using kick_broadcast_audited(1) [of now "q_user q" "q_ip q" "wb_srv w" i] by simp
    with k Some show ?thesis by (simp add: kick_page_def Let_def keeps_serverD [OF keeps_done])
  qed (simp add: kick_page_def kept_audited keeps_done)
  show "?a (broadcast_page now q)" unfolding broadcast_page_def by (intro page_audited)
  show "?a (userAction now q v act)"
    unfolding userAction_def Let_def by (intro page_audited)
  show "?a (createBoard_page now q)" unfolding createBoard_page_def Let_def by (intro page_audited)
  show "?a (deleteBoard_page now q v)"
    unfolding deleteBoard_page_def Let_def by (intro page_audited)
  show "?a (deletePost_page now q v pv)"
    unfolding deletePost_page_def Let_def by (intro page_audited)
  show "?a (addNews_page now q)" unfolding addNews_page_def Let_def by (intro page_audited)
  show "?a (deleteNews_page now q v)"
    unfolding deleteNews_page_def by (intro page_audited)
  show "?a (deleteOneliner_page now q v)"
    unfolding deleteOneliner_page_def by (intro page_audited)
qed

lemma insort_snoc: "f y \<le> f x \<Longrightarrow> insort_key f y (zs @ [x]) = insort_key f y zs @ [x]"
  by (induction zs) auto

lemma sort_snoc: "\<forall>y \<in> set xs. f y \<le> f x \<Longrightarrow> sort_key f (xs @ [x]) = sort_key f xs @ [x]"
proof -
  assume le: "\<forall>y \<in> set xs. f y \<le> f x"
  have "foldr (insort_key f) xs [x] = foldr (insort_key f) xs [] @ [x]"
    using le by (induction xs) (auto simp: insort_snoc)
  then show ?thesis by (simp add: sort_key_def)
qed

text \<open>With SQLite's way to number rows, the event just logged is the newest, and is not pruned.\<close>

lemma newest_event:
  assumes "se_rowid E = sqlite_rowid"
  shows "\<exists>i. Events (snd (LogEvent E e d)) [] 1 = [e\<lparr>e_id := i, e_at := se_now E\<rparr>]"
proof -
  let ?ids = "map e_id (t_events d)"
  let ?new = "e\<lparr>e_id := sqlite_rowid ?ids, e_at := se_now E\<rparr>"
  let ?es = "t_events d @ [?new]"
  have ge: "e_id x < sqlite_rowid ?ids" if "x \<in> set (t_events d)" for x
    using foldr_max_ge(1) [of "e_id x" ?ids] that by (auto simp: sqlite_rowid_def)
  have le: "Max (set (map e_id ?es)) \<le> sqlite_rowid ?ids" using ge by (auto intro!: Max.boundedI order_less_imp_le)
  let ?p = "\<lambda>x. e_id x \<le> Max (set (map e_id ?es)) - maxEvents"
  have "\<not> sqlite_rowid ?ids \<le> Max (set (map e_id ?es)) - maxEvents" using le unfolding maxEvents_def by linarith
  then have "\<not> ?p ?new" by simp
  then have "delete_where ?p ?es = delete_where ?p (t_events d) @ [?new]" by (simp add: delete_where_def)
  then have log: "t_events (snd (LogEvent E e d)) = delete_where ?p (t_events d) @ [?new]"
    using assms by (simp add: LogEvent_def Let_def)
  have "sort_key e_id (delete_where ?p (t_events d) @ [?new]) = sort_key e_id (delete_where ?p (t_events d)) @ [?new]"
    using ge by (intro sort_snoc) (auto simp: delete_where_def order_less_imp_le)
  then show ?thesis by (auto simp: Events_def log sql_limit_def)
qed

lemma logged_newest:
  assumes "logged now a ip sv sv'" "se_rowid (sv_env sv) = sqlite_rowid"
  shows "\<exists>e. Events (sv_db sv') [] 1 = [e] \<and> e_kind e = EventSysop \<and> e_user e = u_id a \<and> e_handle e = u_handle a \<and> e_ip e = ip \<and>
    e_at e = now \<and> suffix webTag (e_detail e)"
proof -
  obtain d detail where d: "sv_db sv' = snd (LogEvent (server_env now sv) (sysop_entry a ip detail) d)"
    using assms(1) by (auto simp: logged_def)
  have "se_rowid (server_env now sv) = sqlite_rowid" using assms(2) by (simp add: server_env_def)
  from newest_event [OF this, of "sysop_entry a ip detail" d] d show ?thesis
    by (auto simp: sysop_entry_def server_env_def suffix_def)
qed

lemma post_page_audited:
  assumes "post_page N now token csrf path = Some h" "path \<noteq> [''login'']"
  shows "\<exists>fn. h = signedIn N now fn \<and> (\<forall>q w. audited now (q_user q) (q_ip q) (wb_srv w) (wb_srv (snd (fn q w))))"
  using assms post_pages_audited by (auto simp: post_page_def Let_def split: list.splits if_splits)

text \<open>
  Claim C30. Nothing is done through the web interface that is not on record. Whenever a request other
  than a login changes the database, the newest entry of the event log afterwards was made by this
  very step: a sysop event, at that time, with the account and the handle of the sysop whose session
  it was, the address the request came from, and the mark of the web interface.
\<close>

theorem web_audited:
  assumes rowid: "se_rowid (sv_env (wb_srv w)) = sqlite_rowid" and path: "rq_path r \<noteq> [''login'']"
    and change: "wb_db (snd (serve N now token csrf r w)) \<noteq> wb_db w"
  shows "\<exists>u e. admitted N now r w u \<and> Events (wb_db (snd (serve N now token csrf r w))) [] 1 = [e] \<and>
    e_kind e = EventSysop \<and> e_user e = u_id u \<and> e_handle e = u_handle u \<and> e_ip e = clientIP N r \<and> e_at e = now \<and>
    suffix webTag (e_detail e)"
proof (cases "rq_method r")
  case GET
  then have "wb_srv (snd (serve N now token csrf r w)) = wb_srv w"
    using get_page_keeps by (auto simp: serve_def Let_def split: option.splits)
  with change show ?thesis by simp
next
  case POST
  show ?thesis
  proof (cases "post_page N now token csrf (rq_path r)")
    case None
    then show ?thesis using change POST by (simp add: serve_def Let_def)
  next
    case (Some h)
    then have eq: "serve N now token csrf r w = h r w" using POST by (simp add: serve_def Let_def)
    from post_page_audited [OF Some path] obtain fn where h: "h = signedIn N now fn"
      and aud: "\<And>q w. audited now (q_user q) (q_ip q) (wb_srv w) (wb_srv (snd (fn q w)))" by blast
    show ?thesis
    proof (cases rule: signedIn_cases [of N now fn r w])
      case refused
      then show ?thesis using change eq h by simp
    next
      case (through q w1)
      have "logged now (q_user q) (q_ip q) (wb_srv w) (wb_srv (snd (fn q w1)))"
        using aud [of q w1] through(1,2) change eq h by (auto simp: audited_def)
      from logged_newest [OF this rowid] through eq h show ?thesis by auto
    qed
  qed
qed (use change in \<open>simp add: serve_def Let_def\<close>)

section \<open>Where sessions come from\<close>

text \<open>What a request adds to the logins: key, account and time.\<close>

type_synonym web_login = "string \<times> int \<times> nanos"

definition granted :: "net_lib \<Rightarrow> nanos \<Rightarrow> string \<Rightarrow> http_request \<Rightarrow> web \<Rightarrow> web_login list" where
  "granted N now token r w =
     (if rq_method r = POST \<and> rq_path r = [''login''] \<and> rq_formOK r \<and> sameOrigin N r
      then (case fst (fst (SysopLogin now (nl_limitKey N) (trim_space (rq_form r ''handle'')) (rq_form r ''password'') (clientIP N r) (wb_srv w))) of
              Inr u \<Rightarrow> [(tokenKey (nl_sha256 N) token, u_id u, now)] | Inl e \<Rightarrow> [])
      else [])"

text \<open>Any requests at any times, with the rest of the BBS doing anything in between.\<close>

inductive web_reach :: "net_lib \<Rightarrow> web \<Rightarrow> web_login list \<Rightarrow> bool" for N where
  start: "web_reach N \<lparr>wb_srv = sv, wb_sessions = []\<rparr> []"
| request: "web_reach N w L \<Longrightarrow> web_reach N (snd (serve N now token csrf r w)) (granted N now token r w @ L)"
| elsewhere: "web_reach N w L \<Longrightarrow> web_reach N (w\<lparr>wb_srv := sv\<rparr>) L"

definition sess_inv :: "web_login list \<Rightarrow> sessionTable \<Rightarrow> bool" where
  "sess_inv L t \<longleftrightarrow> distinct (map fst t) \<and> length t \<le> maxSessions \<and> (\<forall>k s. (k, s) \<in> set t \<longrightarrow> (k, ws_userID s, ws_created s) \<in> set L)"

lemma sess_inv_filter: "sess_inv L t \<Longrightarrow> sess_inv L (filter P t)"
  using le_trans [OF length_filter_le [of P t]] by (auto simp: sess_inv_def distinct_map_filter)

lemma sess_inv_delete: "sess_inv L t \<Longrightarrow> sess_inv L (AList.delete k t)"
  unfolding AList.delete_eq by (rule sess_inv_filter)

lemma length_alist_update: "length (AList.update k v al) = (if k \<in> fst ` set al then length al else Suc (length al))"
  by (induction al) auto

lemma set_alist_update: "set (AList.update k v al) \<subseteq> insert (k, v) (set al)"
  by (induction al) auto

lemma sess_inv_update:
  assumes "sess_inv L t" "map_of t k = Some s0" "ws_userID s = ws_userID s0" "ws_created s = ws_created s0"
  shows "sess_inv L (AList.update k s t)"
proof -
  have "k \<in> fst ` set t" "(k, s0) \<in> set t" using map_of_SomeD [OF assms(2)] by (auto intro: rev_image_eqI)
  then show ?thesis using assms set_alist_update [of k s t] by (auto simp: sess_inv_def AList.distinct_update length_alist_update)
qed

lemma sess_inv_flash: "sess_inv L t \<Longrightarrow> sess_inv L (setFlash k msg t)"
proof -
  have "map fst (setFlash k msg t) = map fst t" "length (setFlash k msg t) = length t" by (auto simp: setFlash_def)
  moreover have "(j, s) \<in> set (setFlash k msg t) \<Longrightarrow> \<exists>s0. (j, s0) \<in> set t \<and> ws_userID s = ws_userID s0 \<and> ws_created s = ws_created s0" for j s
    by (auto simp: setFlash_def split: if_splits)
  ultimately show "sess_inv L t \<Longrightarrow> sess_inv L (setFlash k msg t)" unfolding sess_inv_def by metis
qed

lemma stalest_in: "t \<noteq> [] \<Longrightarrow> stalest t \<in> fst ` set t"
  by (induction t rule: stalest.induct) (auto split: if_splits)

lemma sess_inv_create:
  assumes "sess_inv L t"
  shows "sess_inv ((tokenKey sha token, u, now) # L) (create_session sha token csrf u now t)"
proof -
  let ?t = "sweep_sessions now t"
  have inv: "sess_inv L ?t" unfolding sweep_sessions_def by (rule sess_inv_filter [OF assms])
  define t2 where "t2 = (if maxSessions \<le> length ?t then AList.delete (stalest ?t) ?t else ?t)"
  have inv2: "sess_inv L t2" unfolding t2_def using inv sess_inv_delete by simp
  have "length t2 < maxSessions"
  proof (cases "maxSessions \<le> length ?t")
    case True
    then have "?t \<noteq> []" by (auto simp: maxSessions_def)
    then obtain s where s: "(stalest ?t, s) \<in> set ?t" using stalest_in by fastforce
    have "length (filter (\<lambda>(k, _). stalest ?t \<noteq> k) ?t) < length ?t"
      by (rule length_filter_less [OF s]) simp
    then show ?thesis using True inv by (simp add: t2_def AList.delete_eq sess_inv_def)
  qed (simp add: t2_def)
  moreover have "create_session sha token csrf u now t = AList.update (tokenKey sha token)
      \<lparr>ws_userID = u, ws_csrf = csrf, ws_flash = [], ws_created = now, ws_seen = now\<rparr> t2"
    by (simp add: create_session_def Let_def t2_def)
  ultimately show ?thesis using inv2 set_alist_update [of "tokenKey sha token" _ t2]
    by (fastforce simp: sess_inv_def AList.distinct_update length_alist_update)
qed

lemma sess_inv_get: "sess_inv L t \<Longrightarrow> sess_inv L (snd (get_session sha c now t))"
  by (auto simp: get_session_def Let_def sess_inv_delete sess_inv_update split: option.splits)

lemma sess_inv_mono: "sess_inv L t \<Longrightarrow> sess_inv (K @ L) t"
  by (auto simp: sess_inv_def)

text \<open>Handlers that make no sessions.\<close>

definition no_new :: "(web \<Rightarrow> reply \<times> web) \<Rightarrow> bool" where
  "no_new m \<longleftrightarrow> (\<forall>L w. sess_inv L (wb_sessions w) \<longrightarrow> sess_inv L (wb_sessions (snd (m w))))"

lemma no_newD: "no_new m \<Longrightarrow> sess_inv L (wb_sessions w) \<Longrightarrow> sess_inv L (wb_sessions (snd (m w)))"
  by (simp add: no_new_def)

lemma no_new_render: "no_new (render_page q title data)"
  by (auto simp: no_new_def render_page_def takeFlash_def Let_def sess_inv_flash split: option.splits)

lemma no_new_done: "no_new (done_post q to msg)"
  by (auto simp: no_new_def done_post_def on_sessions_def sess_inv_flash)

lemma no_new_failed: "no_new (failed_post q to e)"
  by (simp add: failed_post_def no_new_done)

lemma no_new_act: "no_new (admin_act q back f to msg)" "no_new (then_drop i q back f to msg)"
proof -
  have d: "sess_inv L (wb_sessions w) \<Longrightarrow> sess_inv L (wb_sessions (snd (done_post q to msg w)))"
    "sess_inv L (wb_sessions w) \<Longrightarrow> sess_inv L (wb_sessions (snd (failed_post q back e w)))" for L w e
    using no_new_done no_new_failed by (auto simp: no_new_def)
  show "no_new (admin_act q back f to msg)"
    by (auto simp: no_new_def admin_act_def Let_def intro!: d split: sum.splits prod.splits)
  show "no_new (then_drop i q back f to msg)"
    by (auto simp: no_new_def then_drop_def Let_def on_sessions_def dropUser_def intro!: d sess_inv_filter split: sum.splits prod.splits)
qed

lemma no_new_page: "no_new (\<lambda>w. render_page q title (f w) w)"
  using no_new_render by (simp add: no_new_def)

lemma no_new_if: "no_new m \<Longrightarrow> no_new m' \<Longrightarrow> no_new (\<lambda>w. if P w then m w else m' w)"
  by (simp add: no_new_def)

lemma no_new_sum: "(\<And>e. no_new (m e)) \<Longrightarrow> (\<And>v. no_new (m' v)) \<Longrightarrow> no_new (\<lambda>w. case x w of Inl e \<Rightarrow> m e w | Inr v \<Rightarrow> m' v w)"
  by (auto simp: no_new_def split: sum.splits)

lemma no_new_option: "no_new m \<Longrightarrow> (\<And>v. no_new (m' v)) \<Longrightarrow> no_new (\<lambda>w. case x w of None \<Rightarrow> m w | Some v \<Rightarrow> m' v w)"
  by (auto simp: no_new_def split: option.splits)

lemma no_new_const: "no_new (\<lambda>w. (r, w))" "no_new (Pair r)"
  by (simp_all add: no_new_def)

lemma no_new_with_id: "(\<And>i. no_new (k i)) \<Longrightarrow> no_new (with_id v k)"
  unfolding with_id_def [abs_def] by (intro no_new_option no_new_const)

lemmas no_new_rules = no_new_with_id no_new_sum no_new_option no_new_if no_new_act no_new_page no_new_render no_new_done no_new_failed no_new_const

lemma no_new_pages:
  "no_new (dashboard q)" "no_new (callers_page q)" "no_new (users_page q)" "no_new (events_page q)" "no_new (boards_page q)"
  "no_new (news_page q)" "no_new (oneliners_page q)" "no_new (art_page q)" "no_new (user_page N q v)" "no_new (board_page q v)"
  "no_new (artPreview q v)" "no_new (broadcast_page now q)" "no_new (userAction now q v act)" "no_new (createBoard_page now q)"
  "no_new (deleteBoard_page now q v)" "no_new (deletePost_page now q v pv)" "no_new (addNews_page now q)" "no_new (deleteNews_page now q v)"
  "no_new (deleteOneliner_page now q v)"
  unfolding dashboard_def [abs_def] callers_page_def [abs_def] users_page_def [abs_def] events_page_def [abs_def] boards_page_def [abs_def]
    news_page_def [abs_def] oneliners_page_def [abs_def] art_page_def [abs_def] user_page_def board_page_def artPreview_def [abs_def]
    broadcast_page_def userAction_def createBoard_page_def deleteBoard_page_def deletePost_page_def addNews_page_def deleteNews_page_def
    deleteOneliner_page_def Let_def
  by (intro no_new_rules)+

lemma no_new_logout: "no_new (logout N q)"
  by (auto simp: no_new_def logout_def on_sessions_def drop_session_def sess_inv_delete split: option.splits)

lemma no_new_kick: "no_new (kick_page now q)"
proof -
  have "sess_inv L (wb_sessions w) \<Longrightarrow> sess_inv L (wb_sessions (snd (done_post q to msg w)))" for L w to msg
    using no_new_done by (simp add: no_new_def)
  then show ?thesis by (auto simp: no_new_def kick_page_def Let_def split: option.splits prod.splits)
qed

lemma signedIn_no_new:
  assumes "\<And>q. no_new (fn q)" "sess_inv L (wb_sessions w)"
  shows "sess_inv L (wb_sessions (snd (signedIn N now fn r w)))"
proof (cases "rq_cookie r")
  case (Some c)
  obtain found t where g: "get_session (nl_sha256 N) c now (wb_sessions w) = (found, t)" by fastforce
  then have t: "sess_inv L t" using sess_inv_get [OF assms(2)] by (metis snd_conv)
  then have "sess_inv L (wb_sessions (snd (fn q (w\<lparr>wb_sessions := t\<rparr>))))" for q
    using no_newD [OF assms(1), of L "w\<lparr>wb_sessions := t\<rparr>"] by simp
  then show ?thesis using Some g t
    by (auto simp: signedIn_def Let_def on_sessions_def dropUser_def sess_inv_filter split: option.splits sum.splits)
qed (use assms in \<open>simp add: signedIn_def\<close>)

lemma get_page_no_new:
  "get_page N now path = Some h \<Longrightarrow> sess_inv L (wb_sessions w) \<Longrightarrow> sess_inv L (wb_sessions (snd (h r w)))"
proof -
  have "sess_inv L (wb_sessions w) \<Longrightarrow> sess_inv L (wb_sessions (snd (loginPage N now r w)))"
  proof (cases "rq_cookie r")
    case (Some c)
    assume inv: "sess_inv L (wb_sessions w)"
    obtain found t where g: "get_session (nl_sha256 N) c now (wb_sessions w) = (found, t)" by fastforce
    then have "sess_inv L t" using sess_inv_get [OF inv] by (metis snd_conv)
    with Some g show ?thesis by (auto simp: loginPage_def Let_def split: option.splits sum.splits)
  qed (simp add: loginPage_def)
  then show "get_page N now path = Some h \<Longrightarrow> sess_inv L (wb_sessions w) \<Longrightarrow> sess_inv L (wb_sessions (snd (h r w)))"
    by (auto simp: get_page_def Let_def signedIn_no_new no_new_pages split: list.splits if_splits)
qed

lemma post_page_no_new:
  assumes "post_page N now token csrf path = Some h" "path \<noteq> [''login'']" "sess_inv L (wb_sessions w)"
  shows "sess_inv L (wb_sessions (snd (h r w)))"
  using assms by (auto simp: post_page_def Let_def signedIn_no_new no_new_pages no_new_logout no_new_kick split: list.splits if_splits)

lemma loginSubmit_sessions:
  assumes inv: "sess_inv L (wb_sessions w)" and r: "rq_method r = POST" "rq_path r = [''login'']"
  shows "sess_inv (granted N now token r w @ L) (wb_sessions (snd (loginSubmit N now token csrf r w)))"
proof (cases "rq_formOK r \<and> sameOrigin N r")
  case True
  obtain res wait sv where login: "SysopLogin now (nl_limitKey N) (trim_space (rq_form r ''handle'')) (rq_form r ''password'') (clientIP N r) (wb_srv w)
      = ((res, wait), sv)" by (metis prod.collapse)
  show ?thesis
  proof (cases res)
    case (Inr u)
    with True login r sess_inv_create [OF inv] show ?thesis by (simp add: loginSubmit_def granted_def on_sessions_def)
  next
    case (Inl e)
    with True login inv sess_inv_mono [OF inv, of "[]"] show ?thesis by (simp add: loginSubmit_def granted_def Let_def)
  qed
qed (use inv in \<open>auto simp: loginSubmit_def granted_def\<close>)

lemma serve_sessions:
  assumes inv: "sess_inv L (wb_sessions w)"
  shows "sess_inv (granted N now token r w @ L) (wb_sessions (snd (serve N now token csrf r w)))"
proof (cases "rq_method r = POST \<and> rq_path r = [''login'']")
  case True
  then have "serve N now token csrf r w = loginSubmit N now token csrf r w" by (simp add: serve_def post_page_def Let_def)
  with loginSubmit_sessions [OF inv] True show ?thesis by simp
next
  case False
  have "sess_inv L (wb_sessions (snd (serve N now token csrf r w)))"
    using inv get_page_no_new post_page_no_new False
    by (auto simp: serve_def Let_def split: option.splits http_method.splits)
  then show ?thesis by (rule sess_inv_mono)
qed

lemma web_reach_inv: "web_reach N w L \<Longrightarrow> sess_inv L (wb_sessions w)"
proof (induction rule: web_reach.induct)
  case (start sv)
  show ?case by (simp add: sess_inv_def)
next
  case (request w L now token csrf r)
  then show ?case by (intro serve_sessions)
qed simp

text \<open>
  A request is let in for an account when the guard hands it, with that account, to whatever page is behind it.
\<close>

definition lets_in :: "net_lib \<Rightarrow> nanos \<Rightarrow> http_request \<Rightarrow> web \<Rightarrow> user \<Rightarrow> bool" where
  "lets_in N now r w u \<longleftrightarrow> (\<exists>q w1. q_user q = u \<and> (\<forall>fn. signedIn N now fn r w = fn q w1))"

lemma lets_in_admitted:
  assumes "lets_in N now r w u"
  shows "admitted N now r w u"
proof -
  obtain q w1 where q: "q_user q = u" "\<And>fn. signedIn N now fn r w = fn q w1" using assms by (auto simp: lets_in_def)
  define fn where "fn q' w' = ((KeepCookie, if q_user q' = u then HttpError 1 else HttpError 2), w\<lparr>wb_srv := (wb_srv w)\<lparr>sv_name := CHR ''x'' # sv_name (wb_srv w)\<rparr>\<rparr>)"
    for q' :: request and w' :: web
  have run: "signedIn N now fn r w = fn q w1" by (rule q(2))
  show ?thesis
  proof (cases rule: signedIn_cases [of N now fn r w])
    case refused
    then have "sv_name (wb_srv (snd (fn q w1))) = sv_name (wb_srv w)" by (simp add: run)
    then show ?thesis by (simp add: fn_def)
  next
    case (through q' w')
    then have "fst (fn q w1) = fst (fn q' w')" using run by simp
    then have "q_user q' = u" using q(1) by (simp add: fn_def split: if_splits)
    then show ?thesis using through(3) by simp
  qed
qed

lemma pages_guarded:
  "get_page N now path = Some h \<Longrightarrow>
     h = loginPage N now \<or> h = (\<lambda>r w. ((KeepCookie, Static), w)) \<or> (\<exists>fn. h = signedIn N now fn)"
  by (auto simp: get_page_def Let_def split: list.splits if_splits)

text \<open>
  Claim C29. Sessions come from logins, end in time, and are few. Whatever requests arrive and whatever else the BBS does,
  at most 64 sessions exist. Every page but the login form and the static files is behind the guard, and the guard
  hands a request on only with the cookie of a login that had succeeded for that very account at most twelve hours before,
  and only if the account, as it is in the database now, is a sysop and not locked, whatever it was then.
\<close>

theorem web_sessions_sound:
  assumes reach: "web_reach N w L"
  shows "length (wb_sessions w) \<le> 64 \<and>
    (\<forall>now path h. get_page N now path = Some h \<longrightarrow>
       h = loginPage N now \<or> h = (\<lambda>r w. ((KeepCookie, Static), w)) \<or> (\<exists>fn. h = signedIn N now fn)) \<and>
    (\<forall>now r u. lets_in N now r w u \<longrightarrow> UserByID (wb_db w) (u_id u) = Inr u \<and> u_sysop u \<and> \<not> u_locked u \<and>
       (\<exists>c t0. rq_cookie r = Some c \<and> (tokenKey (nl_sha256 N) c, u_id u, t0) \<in> set L \<and> now - t0 \<le> 12 * hour))"
proof -
  have inv: "sess_inv L (wb_sessions w)" by (rule web_reach_inv [OF reach])
  have "UserByID (wb_db w) (u_id u) = Inr u \<and> u_sysop u \<and> \<not> u_locked u \<and>
      (\<exists>c t0. rq_cookie r = Some c \<and> (tokenKey (nl_sha256 N) c, u_id u, t0) \<in> set L \<and> now - t0 \<le> 12 * hour)"
    if adm: "lets_in N now r w u" for now r u
  proof -
    obtain c s where c: "rq_cookie r = Some c" "map_of (wb_sessions w) (tokenKey (nl_sha256 N) c) = Some s"
        "\<not> session_expired now s" "UserByID (wb_db w) (ws_userID s) = Inr u" "u_sysop u" "\<not> u_locked u"
      using lets_in_admitted [OF adm] by (auto simp: admitted_def)
    have "u_id u = ws_userID s" using c(4) by (auto simp: UserByID_def getUser_Inr_iff dest: find_user_Some)
    moreover have "(tokenKey (nl_sha256 N) c, ws_userID s, ws_created s) \<in> set L"
      using inv map_of_SomeD [OF c(2)] by (auto simp: sess_inv_def)
    moreover have "now - ws_created s \<le> 12 * hour" using c(3) by (auto simp: session_expired_def absoluteTimeout_def)
    ultimately show ?thesis using c by auto
  qed
  then show ?thesis using inv pages_guarded by (auto simp: sess_inv_def maxSessions_def)
qed

section \<open>Logging in\<close>

lemma SysopLogin_sound:
  assumes "fst (fst (SysopLogin now lk h p ip sv)) = Inr u"
  shows "Authenticate (server_env now sv) (sv_db sv) h p = Inr u \<and> u_sysop u \<and> \<not> u_locked u \<and>
    \<not> fst (blocked now (lk ip) (lm_loginFailures (sv_limit sv)))"
  using assms
  by (auto simp: SysopLogin_def Let_def limit_blocked_def at_loginFailures_def with_accounts_def server_env_def
      split: prod.splits if_splits sum.splits)

text \<open>Nobody the web lets in: a wrong password or handle, or an account that is no sysop or is locked.\<close>

definition web_refuses :: "nanos \<Rightarrow> server \<Rightarrow> string \<Rightarrow> string \<Rightarrow> bool" where
  "web_refuses now sv h p \<longleftrightarrow> (case Authenticate (server_env now sv) (sv_db sv) h p of
     Inl e \<Rightarrow> e = ErrBadCredentials | Inr u \<Rightarrow> \<not> (u_sysop u \<and> \<not> u_locked u))"

text \<open>What a refusal shows and leaves in the limiters, from the limiters alone.\<close>

definition web_refusal :: "nanos \<Rightarrow> string \<Rightarrow> string \<Rightarrow> limits \<Rightarrow> ((login_error + user) \<times> nanos) \<times> limits" where
  "web_refusal now ipKey account lm =
     (let (b, r) = blocked now ipKey (lm_loginFailures lm); lm = lm\<lparr>lm_loginFailures := r\<rparr>
      in if b then ((Inl ErrLoginThrottled, 0), lm)
         else let ((wait, ok), a) = backoff_begin now account (lm_accounts lm); lm = lm\<lparr>lm_accounts := a\<rparr>
              in if \<not> ok then ((Inl ErrLoginThrottled, wait), lm)
                 else let lm = lm\<lparr>lm_accounts := fst (backoff_end no_store now account False (lm_accounts lm, ()))\<rparr>
                      in ((Inl ErrLoginFailed, 0), lm\<lparr>lm_loginFailures := fst (hit no_store now ipKey (lm_loginFailures lm, ()))\<rparr>))"

lemma failed_limits:
  "sv_limit (limit_hit_saved now at_loginFailures key (accounts_end now account False sv)) =
     (let lm = (sv_limit sv)\<lparr>lm_accounts := fst (backoff_end no_store now account False (lm_accounts (sv_limit sv), ()))\<rparr>
      in lm\<lparr>lm_loginFailures := fst (hit no_store now key (lm_loginFailures lm, ()))\<rparr>)"
proof -
  obtain b d where e: "backoff_end store_hits now account False (lm_accounts (sv_limit sv), sv_db sv) = (b, d)" by fastforce
  then have b: "b = fst (backoff_end no_store now account False (lm_accounts (sv_limit sv), ()))"
    using end_store_indep [of store_hits now account "lm_accounts (sv_limit sv)" "sv_db sv"] by simp
  obtain r d' where h: "hit store_hits now key (lm_loginFailures (sv_limit sv), d) = (r, d')" by fastforce
  then have "r = fst (hit no_store now key (lm_loginFailures (sv_limit sv), ()))"
    using hit_store_indep [of store_hits now key "lm_loginFailures (sv_limit sv)" d] by simp
  with e b h show ?thesis by (simp add: accounts_end_def limit_hit_saved_def at_loginFailures_def with_accounts_def Let_def)
qed

lemma event_limits [simp]: "sv_limit (user_event now kind u ip detail sv) = sv_limit sv"
  by (simp add: user_event_def server_event_def)

lemma SysopLogin_refusal:
  assumes "web_refuses now sv h p"
  shows "(fst (SysopLogin now lk h p ip sv), sv_limit (snd (SysopLogin now lk h p ip sv))) =
    web_refusal now (lk ip) (''handle:'' @ to_lower (se_lower (sv_env sv)) h) (sv_limit sv)"
proof -
  define account where "account = ''handle:'' @ to_lower (se_lower (sv_env sv)) h"
  obtain b r where b: "blocked now (lk ip) (lm_loginFailures (sv_limit sv)) = (b, r)" by fastforce
  obtain wait ok a where a: "backoff_begin now account (lm_accounts (sv_limit sv)) = ((wait, ok), a)" by (metis prod.collapse)
  define sv1 where "sv1 = sv\<lparr>sv_limit := (sv_limit sv)\<lparr>lm_loginFailures := r\<rparr>\<rparr>"
  define sv2 where "sv2 = with_accounts a sv1"
  let ?failed = "limit_hit_saved now at_loginFailures (lk ip) (accounts_end now account False sv2)"
  have blk: "limit_blocked now at_loginFailures (lk ip) sv = (b, sv1)"
    by (simp add: limit_blocked_def at_loginFailures_def b sv1_def)
  have same: "to_lower (se_lower (sv_env sv1)) h = to_lower (se_lower (sv_env sv)) h" "lm_accounts (sv_limit sv1) = lm_accounts (sv_limit sv)"
    "sv_db sv2 = sv_db sv" "server_env now sv2 = server_env now sv"
    by (simp_all add: sv1_def sv2_def with_accounts_def server_env_def)
  have "SysopLogin now lk h p ip sv =
      (if b then ((Inl ErrLoginThrottled, 0), sv1) else if \<not> ok then ((Inl ErrLoginThrottled, wait), sv2)
       else case Authenticate (server_env now sv) (sv_db sv) h p of
           Inr u \<Rightarrow> ((Inl ErrLoginFailed, 0), user_event now EventLoginFailed u ip ''web: not a sysop or locked'' ?failed)
         | Inl e \<Rightarrow> ((Inl ErrLoginFailed, 0), user_event now EventLoginFailed (no_user\<lparr>u_handle := h\<rparr>) ip ''web'' ?failed))"
    using assms unfolding SysopLogin_def web_refuses_def Let_def blk prod.case same account_def [symmetric] a sv2_def [symmetric]
    by (auto split: sum.splits)
  then have result: "(fst (SysopLogin now lk h p ip sv), sv_limit (snd (SysopLogin now lk h p ip sv))) =
      (if b then ((Inl ErrLoginThrottled, 0), sv_limit sv1) else if \<not> ok then ((Inl ErrLoginThrottled, wait), sv_limit sv2)
       else ((Inl ErrLoginFailed, 0), sv_limit ?failed))"
    by (simp split: sum.splits)
  show ?thesis unfolding result account_def [symmetric]
    by (simp add: web_refusal_def b a Let_def failed_limits sv2_def sv1_def with_accounts_def)
qed

text \<open>
  Claim C31. A guesser at the web login learns nothing but that it failed. In one state of the limits,
  every attempt that is not let in - unknown handle, wrong password, or the right password of an
  account that is locked or no sysop - gets the same answer and leaves the same limits behind, so
  neither the message nor any later delay tells a caller's password from a wrong one.
\<close>

theorem web_refusals_alike:
  assumes "web_refuses now (sv\<lparr>sv_db := d1\<rparr>) h p1" "web_refuses now (sv\<lparr>sv_db := d2\<rparr>) h p2"
  shows "let r1 = SysopLogin now lk h p1 ip (sv\<lparr>sv_db := d1\<rparr>); r2 = SysopLogin now lk h p2 ip (sv\<lparr>sv_db := d2\<rparr>)
         in fst r1 = fst r2 \<and> sv_limit (snd r1) = sv_limit (snd r2) \<and> (\<forall>u. fst (fst r1) \<noteq> Inr u)"
proof -
  have r: "(fst (SysopLogin now lk h p ip (sv\<lparr>sv_db := d\<rparr>)), sv_limit (snd (SysopLogin now lk h p ip (sv\<lparr>sv_db := d\<rparr>)))) =
      web_refusal now (lk ip) (''handle:'' @ to_lower (se_lower (sv_env sv)) h) (sv_limit sv)"
    if "web_refuses now (sv\<lparr>sv_db := d\<rparr>) h p" for d p
    using SysopLogin_refusal [OF that, of lk ip] by simp
  have "fst (fst (web_refusal now key account lm)) \<noteq> Inr u" for key account lm u
    by (auto simp: web_refusal_def Let_def split: prod.splits)
  with r [OF assms(1)] r [OF assms(2)] show ?thesis by (metis (no_types, lifting) fst_conv snd_conv)
qed

section \<open>A sysop locks an account\<close>

definition demo_net :: net_lib where
  "demo_net = \<lparr>nl_SplitHost = Some, nl_ParseIP = (\<lambda>_. None), nl_URLHost = Some, nl_limitKey = id, nl_sha256 = id, nl_fold = id\<rparr>"

definition demo_web :: web where
  "demo_web = \<lparr>wb_srv = demo_server demo_db,
     wb_sessions = [(tokenKey id ''t'', \<lparr>ws_userID = 1, ws_csrf = ''x'', ws_flash = [], ws_created = 0, ws_seen = 0\<rparr>)]\<rparr>"

definition demo_lock :: http_request where
  "demo_lock = \<lparr>rq_method = POST, rq_path = [''users'', ''2'', ''lock''], rq_query = (\<lambda>_. []), rq_cookie = Some ''t'', rq_origin = [], rq_referer = [],
     rq_host = ''bbs'', rq_remote = ''10.0.0.9'', rq_realIP = [], rq_formOK = True, rq_form = (\<lambda>f. if f = ''csrf'' then ''x'' else [])\<rparr>"

lemma demo_lock_through:
  "serve demo_net 5 ''u'' ''v'' demo_lock demo_web = userAction 5
     \<lparr>q_rq = demo_lock, q_key = tokenKey id ''t'', q_csrf = ''x'', q_user = user.truncate (demo_user 1 ''ann'' True), q_ip = ''10.0.0.9''\<rparr> ''2'' ''lock''
     (demo_web\<lparr>wb_sessions := [(tokenKey id ''t'', \<lparr>ws_userID = 1, ws_csrf = ''x'', ws_flash = [], ws_created = 0, ws_seen = 5\<rparr>)]\<rparr>)"
proof -
  have "\<not> session_expired 5 \<lparr>ws_userID = 1, ws_csrf = ''x'', ws_flash = [], ws_created = 0, ws_seen = 0\<rparr>"
    by (simp add: session_expired_def idleTimeout_def absoluteTimeout_def minute_def hour_def nanos_per_second_def)
  then have "get_session (nl_sha256 demo_net) ''t'' 5 (wb_sessions demo_web) =
      (Some (tokenKey id ''t'', \<lparr>ws_userID = 1, ws_csrf = ''x'', ws_flash = [], ws_created = 0, ws_seen = 5\<rparr>),
       [(tokenKey id ''t'', \<lparr>ws_userID = 1, ws_csrf = ''x'', ws_flash = [], ws_created = 0, ws_seen = 5\<rparr>)])"
    by (simp add: get_session_def demo_net_def demo_web_def Let_def)
  moreover have "Sysop (wb_srv demo_web) 1 = Inr (user.truncate (demo_user 1 ''ann'' True))"
    by (simp add: Sysop_def demo_web_def UserByID_def getUser_def demo_find_user) (simp add: demo_user_def user.defs)
  ultimately show ?thesis
    by (simp add: serve_def post_page_def Let_def signedIn_def demo_lock_def sameOrigin_def clientIP_def demo_net_def demo_web_def)
qed

lemma demo_lock_changes: "t_users (wb_db (snd (serve demo_net 5 ''u'' ''v'' demo_lock demo_web))) \<noteq> t_users (wb_db demo_web)"
proof -
  have p: "pathID ''2'' = Some 2" by (simp add: pathID_def atoi_def parse_digits_def is_digit_def digits_val_def byte_val_def int_range_def)
  have u: "UserByID demo_db 2 = Inr (user.truncate (demo_user 2 ''bob'' False))" by (simp add: UserByID_def getUser_def demo_find_user)
  have r: "requireActor demo_db 1 2 True = Inr ()" by (simp add: requireActor_def requireSysop_def getUser_def demo_find_user) (simp add: demo_user_def)
  let ?d = "set_user 2 (u_locked_update (\<lambda>_. True)) demo_db" and ?a = "user.truncate (demo_user 1 ''ann'' True)"
  have a: "u_id (demo_user 1 ''ann'' True) = 1" by (simp add: demo_user_def)
  have "count_where (\<lambda>r. u_id r = 2) (t_users demo_db) = 1" by (simp add: demo_db_def demo_user_def)
  then have "SetLocked 1 2 True demo_db = (Inr (), ?d)" by (simp add: SetLocked_def guarded_def r updateUser_def requireRow_def)
  then have "t_users (sv_db (snd (AdminSetLocked 5 ?a ip 2 True (demo_server demo_db)))) = t_users ?d" for ip
    by (simp add: AdminSetLocked_def on_user_def u a admin_store_def webAudit_def user_event_def server_event_def LogEvent_def Let_def)
  then have "t_users (wb_db (snd (serve demo_net 5 ''u'' ''v'' demo_lock demo_web))) = t_users ?d" unfolding demo_lock_through
    by (auto simp: userAction_def with_id_def p u admin_act_def demo_web_def Let_def keeps_serverD [OF keeps_done] keeps_serverD [OF keeps_failed]
        split: prod.splits sum.splits) (metis snd_conv)+
  then show ?thesis by (simp add: demo_web_def set_user_def) (simp add: demo_db_def demo_user_def)
qed

theorem web_guarded_witness: "\<exists>u. admitted demo_net 5 demo_lock demo_web u"
proof -
  have "wb_srv (snd (serve demo_net 5 ''u'' ''v'' demo_lock demo_web)) \<noteq> wb_srv demo_web" using demo_lock_changes by auto
  from web_guarded [OF this] show ?thesis by (simp add: demo_lock_def)
qed

theorem web_audited_witness:
  "\<exists>e. Events (wb_db (snd (serve demo_net 5 ''u'' ''v'' demo_lock demo_web))) [] 1 = [e] \<and> e_kind e = EventSysop \<and> e_at e = 5"
proof -
  have "wb_db (snd (serve demo_net 5 ''u'' ''v'' demo_lock demo_web)) \<noteq> wb_db demo_web" using demo_lock_changes by auto
  from web_audited [OF _ _ this] show ?thesis by (auto simp: demo_lock_def demo_web_def)
qed

theorem web_sessions_sound_witness:
  "length (wb_sessions (snd (serve demo_net 5 ''u'' ''v'' demo_lock \<lparr>wb_srv = demo_server demo_db, wb_sessions = []\<rparr>))) \<le> 64"
  using web_sessions_sound [OF web_reach.request [OF web_reach.start]] by blast

theorem web_refusals_alike_witness:
  "fst (SysopLogin 5 id ''bob'' ''guess'' ''10.0.0.1'' ((demo_server demo_db)\<lparr>sv_db := empty_db\<rparr>)) =
   fst (SysopLogin 5 id ''bob'' ''pw'' ''10.0.0.1'' ((demo_server demo_db)\<lparr>sv_db := empty_db\<lparr>t_users := [demo_user 2 ''bob'' False]\<rparr>\<rparr>))"
proof -
  let ?d = "empty_db\<lparr>t_users := [demo_user 2 ''bob'' False]\<rparr>"
  have g: "graphic ''bob''" by (simp add: graphic_def byte_val_def)
  have k: "handleKey E ''bob'' = ''bob''" for E by (rule handleKey_plain [OF g]) (simp add: byte_val_def)
  have one: "web_refuses 5 ((demo_server demo_db)\<lparr>sv_db := empty_db\<rparr>) ''bob'' ''guess''"
    by (simp add: web_refuses_def Authenticate_def find_handle_def empty_db_def)
  have two: "web_refuses 5 ((demo_server demo_db)\<lparr>sv_db := ?d\<rparr>) ''bob'' ''pw''"
    by (simp add: web_refuses_def Authenticate_def find_handle_def k server_env_def matches_def cred_of_def deriveKey_def demo_env_def store_defs)
  show ?thesis using web_refusals_alike [OF one two, of id "''10.0.0.1''"] by (simp add: Let_def)
qed

text \<open>What a way back may look like: a browser reads the backslash as a second slash.\<close>

theorem backslash_passes:
  "local_path (CHR ''/'' # CHR 0x5C # ''evil.example'')"
  by (simp add: local_path_def)

end
