(* ===== verification/Bbs_Screen.thy ===== *)
theory Bbs_Screen
  imports Bbs_Admin Store_All
begin

text \<open>
  What the screens of the BBS are built from. A screen is an operation of the caller's session
  written with \<open>bind_io\<close>; \<open>with_s\<close> reads the session, \<open>repeat_io\<close> is Go's \<open>for { ... }\<close> around a
  prompt: the body gives \<open>Inl\<close> to go round again and \<open>Inr\<close> to leave. A loop that goes round
  without a key having been read would never end; it is \<open>Fail Spins\<close> here. The judgement \<open>runs\<close> says of an
  operation that it keeps an invariant and a relation of the session, and neither panics nor
  spins. The locale \<open>calls\<close> has its rules; its instance for the BBS relates the database before and
  after by calls of the store \<^emph>\<open>on behalf of the caller's own account\<close> (\<open>acts_as\<close>).
\<close>

section \<open>Reading the session, and loops\<close>

definition with_s :: "('s \<Rightarrow> ('a, 's) io) \<Rightarrow> ('a, 's) io" where
  "with_s f s = f s s"

function repeat_io :: "('x \<Rightarrow> ('x + 'r, 'a session_scheme) io) \<Rightarrow> 'x \<Rightarrow> ('r, 'a session_scheme) io" where
  "repeat_io body x s = (case body x s of
       (Done (Inr r), t) \<Rightarrow> (Done r, t)
     | (Done (Inl y), t) \<Rightarrow> if length (s_in t) < length (s_in s) then repeat_io body y t else (Fail Spins, t)
     | (Fail e, t) \<Rightarrow> (Fail e, t)
     | (Panicked, t) \<Rightarrow> (Panicked, t))"
  by pat_completeness auto
termination by (relation "measure (\<lambda>(body, x, s). length (s_in s))") auto

declare repeat_io.simps [simp del]

definition again :: "(unit + 'r, 's) io" where
  "again = return_io (Inl ())"

definition leave_with :: "'r \<Rightarrow> ('x + 'r, 's) io" where
  "leave_with r = return_io (Inr r)"

text \<open>The rest of a loop's body when an operation ends the loop with its own result.\<close>

definition and_leave :: "('r, 's) io \<Rightarrow> ('x + 'r, 's) io" where
  "and_leave m = bind_io m leave_with"

definition and_again :: "(unit, 's) io \<Rightarrow> (unit + 'r, 's) io" where
  "and_again m = then_io m again"

section \<open>Shared by the screens\<close>

definition me :: "caller \<Rightarrow> int" where
  "me s = u_id (c_user s)"

definition handleOf :: "caller \<Rightarrow> int \<Rightarrow> string" where
  "handleOf s i = (case UserByID (database s) i of Inr u \<Rightarrow> u_handle u | Inl _ \<Rightarrow> ''(gone)'')"

definition short :: "caller \<Rightarrow> nanos \<Rightarrow> string" where
  "short s = shortDate (sv_tz (c_srv s)) (s_now s)"

definition long :: "caller \<Rightarrow> nanos \<Rightarrow> string" where
  "long s = longDate (sv_tz (c_srv s))"

definition session_table :: "string \<Rightarrow> string \<Rightarrow> string list \<Rightarrow> string \<Rightarrow> (unit, caller) io" where
  "session_table title heading rows none = with_s (\<lambda>s. table (sv_upper (c_srv s)) title heading rows none)"

definition session_letter :: "letter \<Rightarrow> (unit, caller) io" where
  "session_letter l = with_s (\<lambda>s. showLetter (sv_upper (c_srv s)) (sv_name (c_srv s)) (sv_tz (c_srv s)) (u_handle (c_user s)) l)"

text \<open>A bar of keys and a key, without notices; \<open>actionPrompt\<close> of \<open>ui.go\<close> shows them first.\<close>

definition keysPrompt :: "string \<Rightarrow> string list \<Rightarrow> (rune, caller) io" where
  "keysPrompt extra ws = with_s (\<lambda>s. then_io (print (nl @ actions ws s @ '' '' @ colBorder @ prompt_mark @ '' |15''))
     (session_choose (keysOf ws @ extra)))"

definition tell :: "string \<Rightarrow> (unit, caller) io" where
  "tell t = then_io (print (t @ nl)) pause"

definition CR1 :: string where "CR1 = [CHR 0x0D]"

text \<open>\<open>awaitingApproval\<close> of \<open>approval.go\<close>: whether the caller was stopped.\<close>

definition awaitingApproval :: "string \<Rightarrow> (bool, caller) io" where
  "awaitingApproval what = with_s (\<lambda>s. if u_validated (c_user s) then return_io False
     else then_io (print (nl @ colAlert @ what @ '' opens up once a sysop approves your account.'' @ nl))
       (then_io (print (colDim @ ''Until then you can read the boards and news, and mail the sysop.'' @ nl))
         (then_io pause (return_io True))))"

text \<open>\<open>requireSysop\<close> and \<open>audit\<close> of \<open>sysop.go\<close>.\<close>

definition stillSysop :: "(bool, caller) io" where
  "stillSysop = then_io refreshUser (with_s (\<lambda>s. if u_sysop (c_user s) then return_io True
     else then_io (print (colAlert @ ''You are no longer a sysop.'' @ nl)) (then_io pause (return_io False))))"

definition audit :: "string \<Rightarrow> (unit, caller) io" where
  "audit detail = effect (\<lambda>s. log_event EventSysop (me s) (u_handle (c_user s)) detail s)"

text \<open>\<open>pickNumber\<close> of \<open>mail.go\<close>: \<open>None\<close> when the caller just presses Enter.\<close>

definition pickNumber :: "nat \<Rightarrow> string \<Rightarrow> (nat option, caller) io" where
  "pickNumber maxN what = repeat_io (\<lambda>_. bind_io
     (prompt (nl @ '' |07'' @ what @ '' |08(1-'' @ itoa (int maxN) @ '', Enter = back) '' @ colBorder @ prompt_mark @ '' |15'') 4) (\<lambda>ans.
       if ans = [] then leave_with None
       else case atoi ans of
           Some n \<Rightarrow> if 1 \<le> n \<and> n \<le> int maxN then leave_with (Some (nat n))
             else and_again (print (colAlert @ ''No such number.'' @ nl))
         | None \<Rightarrow> and_again (print (colAlert @ ''No such number.'' @ nl)))) ()"

text \<open>A limiter that does not bind sysops.\<close>

definition held_back :: "limiter_at \<Rightarrow> (bool, caller) io" where
  "held_back l = with_s (\<lambda>s. if u_sysop (c_user s) then return_io False else is_blocked l (userKey (me s)))"

definition count_hit :: "limiter_at \<Rightarrow> (unit, caller) io" where
  "count_hit l = effect (\<lambda>s. memory_hit l (userKey (me s)) s)"

text \<open>A number typed at a list of \<open>n\<close> entries.\<close>

definition chosen :: "string \<Rightarrow> 'a list \<Rightarrow> nat option" where
  "chosen ans xs = (case atoi ans of
       Some i \<Rightarrow> if 1 \<le> i \<and> i \<le> int (length xs) then Some (nat (i - 1)) else None
     | None \<Rightarrow> None)"

end
