(* ===== verification/Bbs_Calls.thy ===== *)
theory Bbs_Calls
  imports Bbs_Screen
begin

text \<open>
  The judgement \<open>runs\<close> and its rules. \<open>calls\<close> is the contract of an invariant and a relation of the
  session under which the rules hold; it extends \<open>frame\<close> of \<^theory_text>\<open>Bbs_Frame\<close>. The rule for loops needs that the
  body reads a key whenever it goes round (\<open>eats\<close>), as the rule for total correctness of a while loop needs a
  measure. \<open>acts_as u\<close> is one call of the store on behalf of account \<open>u\<close>; \<open>goes_on\<close> is the relation of the
  screens: the caller stays who they are, and the database changes by such calls alone.
\<close>

section \<open>Judgements\<close>

definition runs :: "('s \<Rightarrow> bool) \<Rightarrow> ('s \<Rightarrow> 's \<Rightarrow> bool) \<Rightarrow> ('a, 's) io \<Rightarrow> bool" where
  "runs I R m \<longleftrightarrow> (\<forall>s q t. I s \<longrightarrow> m s = (q, t) \<longrightarrow> I t \<and> R s t \<and> q \<noteq> Panicked \<and> q \<noteq> Fail Spins)"

definition eats :: "('s \<Rightarrow> bool) \<Rightarrow> ('s \<Rightarrow> (nanos \<times> char) list) \<Rightarrow> ('a \<Rightarrow> bool) \<Rightarrow> ('a, 's) io \<Rightarrow> bool" where
  "eats I inp P m \<longleftrightarrow> (\<forall>s x t. I s \<longrightarrow> m s = (Done x, t) \<longrightarrow> P x \<longrightarrow> length (inp t) < length (inp s))"

definition round_again :: "'x + 'r \<Rightarrow> bool" where
  "round_again z \<longleftrightarrow> (case z of Inl _ \<Rightarrow> True | Inr _ \<Rightarrow> False)"

lemma round_again_simps [simp]: "round_again (Inl x)" "\<not> round_again (Inr y)"
  by (simp_all add: round_again_def)

lemma runsI: "(\<And>s q t. I s \<Longrightarrow> m s = (q, t) \<Longrightarrow> I t \<and> R s t \<and> q \<noteq> Panicked \<and> q \<noteq> Fail Spins) \<Longrightarrow> runs I R m"
  by (simp add: runs_def)

lemma runsD: "runs I R m \<Longrightarrow> I s \<Longrightarrow> m s = (q, t) \<Longrightarrow> I t \<and> R s t \<and> q \<noteq> Panicked \<and> q \<noteq> Fail Spins"
  by (simp add: runs_def)

lemma eatsD: "eats I inp P m \<Longrightarrow> I s \<Longrightarrow> m s = (Done x, t) \<Longrightarrow> P x \<Longrightarrow> length (inp t) < length (inp s)"
  by (simp add: eats_def)

lemma eats_mono: "eats I inp P m \<Longrightarrow> (\<And>x. Q x \<Longrightarrow> P x) \<Longrightarrow> eats I inp Q m"
  by (auto simp: eats_def)

named_theorems run_rules
named_theorems eat_rules

locale calls = frame R for R :: "'b session_scheme \<Rightarrow> 'b session_scheme \<Rightarrow> bool" +
  fixes I :: "'b session_scheme \<Rightarrow> bool"
  assumes reads: "R s t \<Longrightarrow> length (s_in t) \<le> length (s_in s)"
begin

lemma runs_return: "runs I R (return_io x)"
  by (simp add: runs_def return_io_def refl)

lemma runs_fail: "e \<noteq> Spins \<Longrightarrow> runs I R (\<lambda>s. (Fail e, s))"
  by (auto simp: runs_def refl)

lemma runs_fail_with: "runs I R (fail_with e)"
  using runs_fail [of "StoreErr e"] by (simp add: fail_with_def [abs_def])

lemma runs_bind: "runs I R m \<Longrightarrow> (\<And>x. runs I R (k x)) \<Longrightarrow> runs I R (bind_io m k)"
proof (rule runsI)
  fix s q t assume m: "runs I R m" and k: "\<And>x. runs I R (k x)" and s: "I s" "bind_io m k s = (q, t)"
  obtain p u where p: "m s = (p, u)" by fastforce
  note u = runsD [OF m s(1) p]
  show "I t \<and> R s t \<and> q \<noteq> Panicked \<and> q \<noteq> Fail Spins"
  proof (cases p)
    case (Done x)
    then have "k x u = (q, t)" using s(2) p by (simp add: bind_io_def)
    then show ?thesis using runsD [OF k] u trans by blast
  qed (use s p u in \<open>auto simp: bind_io_def\<close>)
qed

lemma runs_then: "runs I R m \<Longrightarrow> runs I R k \<Longrightarrow> runs I R (then_io m k)"
  unfolding then_io_def by (rule runs_bind)

lemma runs_with: "(\<And>s. I s \<Longrightarrow> runs I R (f s)) \<Longrightarrow> runs I R (with_s f)"
  unfolding runs_def with_s_def by metis

lemma runs_effect: "(\<And>s. I s \<Longrightarrow> I (f s) \<and> R s (f s)) \<Longrightarrow> runs I R (effect f)"
  by (auto simp: runs_def effect_def)

lemma runs_stays:
  assumes m: "stays R m" and ok: "\<And>s q t. I s \<Longrightarrow> m s = (q, t) \<Longrightarrow> I t \<and> q \<noteq> Panicked \<and> q \<noteq> Fail Spins"
  shows "runs I R m"
proof (rule runsI)
  fix s q t assume s: "I s" "m s = (q, t)"
  show "I t \<and> R s t \<and> q \<noteq> Panicked \<and> q \<noteq> Fail Spins" using ok [OF s] staysD [OF m s(2)] by simp
qed

lemma runs_repeat:
  assumes body: "\<And>x. runs I R (body x)" and eat: "\<And>x. eats I s_in round_again (body x)"
  shows "runs I R (repeat_io body x)"
proof -
  have all: "I s \<Longrightarrow> repeat_io body x s = (q, t) \<Longrightarrow> I t \<and> R s t \<and> q \<noteq> Panicked \<and> q \<noteq> Fail Spins" for s x q t
  proof (induction "length (s_in s)" arbitrary: s x rule: less_induct)
    case less
    obtain p u where p: "body x s = (p, u)" by fastforce
    note u = runsD [OF body less.prems(1) p]
    note step = less.prems(2) [unfolded repeat_io.simps [of body x s] p]
    show ?case
    proof (cases "\<exists>y. p = Done (Inl y)")
      case True
      then obtain y where y: "p = Done (Inl y)" by blast
      have len: "length (s_in u) < length (s_in s)" using eatsD [OF eat less.prems(1) p [unfolded y]] by simp
      have "I t \<and> R u t \<and> q \<noteq> Panicked \<and> q \<noteq> Fail Spins"
        using less.hyps [OF len, of y] u step len y by simp
      then show ?thesis using u trans by blast
    next
      case False
      then show ?thesis using step u by (auto split: outcome.splits sum.splits)
    qed
  qed
  show ?thesis by (rule runsI) (rule all)
qed

lemma runs_again: "runs I R again"
  unfolding again_def by (rule runs_return)

lemma runs_leave_with: "runs I R (leave_with x)"
  unfolding leave_with_def by (rule runs_return)

lemma runs_and_leave: "runs I R m \<Longrightarrow> runs I R (and_leave m)"
  unfolding and_leave_def by (intro runs_bind runs_leave_with)

lemma runs_and_again: "runs I R m \<Longrightarrow> runs I R (and_again m)"
  unfolding and_again_def by (intro runs_then runs_again)

lemmas runs_basic = runs_return runs_bind runs_then runs_with runs_fail_with runs_again runs_leave_with runs_and_leave
  runs_and_again runs_repeat

lemma eats_first: "eats I s_in (\<lambda>_. True) m \<Longrightarrow> runs I R m \<Longrightarrow> (\<And>x. runs I R (k x)) \<Longrightarrow> eats I s_in P (bind_io m k)"
  unfolding eats_def bind_io_Done using runsD reads by (meson less_le_trans order_le_less_trans)

lemma eats_later: "runs I R m \<Longrightarrow> (\<And>x. eats I s_in P (k x)) \<Longrightarrow> eats I s_in P (bind_io m k)"
  unfolding eats_def bind_io_Done using runsD reads by (meson order_less_le_trans)

lemma eats_then: "runs I R m \<Longrightarrow> eats I s_in P k \<Longrightarrow> eats I s_in P (then_io m k)"
  unfolding then_io_def by (rule eats_later)

lemma eats_then_first: "eats I s_in (\<lambda>_. True) m \<Longrightarrow> runs I R m \<Longrightarrow> runs I R k \<Longrightarrow> eats I s_in P (then_io m k)"
  unfolding then_io_def by (rule eats_first)

lemma eats_with: "(\<And>s. eats I s_in P (f s)) \<Longrightarrow> eats I s_in P (with_s f)"
  unfolding eats_def with_s_def by metis

lemma eats_leave: "eats I s_in round_again (leave_with x)"
  by (simp add: eats_def leave_with_def return_io_def)

lemma eats_and_leave: "runs I R m \<Longrightarrow> eats I s_in round_again (and_leave m)"
  unfolding and_leave_def by (intro eats_later eats_leave)

lemma eats_fail: "eats I s_in P (fail_with e)"
  by (simp add: eats_def fail_with_def)

lemma eats_repeat:
  fixes body :: "'x \<Rightarrow> ('x + 'z, 'b session_scheme) io"
  assumes run: "\<And>x. runs I R (body x)" and eat: "\<And>x. eats I s_in (\<lambda>_. True) (body x)"
  shows "eats I s_in (\<lambda>_. True) (repeat_io body x)"
proof -
  have "I s \<Longrightarrow> repeat_io body x s = (Done y, t) \<Longrightarrow> length (s_in t) < length (s_in s)" for s x and y :: 'z and t
  proof (induction "length (s_in s)" arbitrary: s x rule: less_induct)
    case less
    obtain p u where p: "body x s = (p, u)" by fastforce
    note u = runsD [OF run less.prems(1) p]
    note step = less.prems(2) [unfolded repeat_io.simps [of body x s] p]
    have len: "length (s_in u) < length (s_in s)" if "p = Done z" for z
      using eatsD [OF eat less.prems(1) p [unfolded that]] by simp
    show ?case
    proof (cases "\<exists>z. p = Done (Inl z)")
      case True
      then obtain z where z: "p = Done (Inl z)" by blast
      then show ?thesis using less.hyps [OF len [OF z], of z] u step len [OF z] by simp
    next
      case False
      then show ?thesis using step len by (auto split: outcome.splits sum.splits)
    qed
  qed
  then show ?thesis by (auto simp: eats_def)
qed

lemmas eats_basic = eats_then eats_with eats_leave eats_and_leave eats_fail

end

lemma runs_if: "(b \<Longrightarrow> runs I R f) \<Longrightarrow> (\<not> b \<Longrightarrow> runs I R g) \<Longrightarrow> runs I R (if b then f else g)"
  by simp

lemma runs_sum: "(\<And>e. runs I R (f e)) \<Longrightarrow> (\<And>x. runs I R (g x)) \<Longrightarrow> runs I R (case r of Inl e \<Rightarrow> f e | Inr x \<Rightarrow> g x)"
  by (cases r) simp_all

lemma runs_option: "runs I R f \<Longrightarrow> (\<And>x. runs I R (g x)) \<Longrightarrow> runs I R (case r of None \<Rightarrow> f | Some x \<Rightarrow> g x)"
  by (cases r) simp_all

lemma runs_pair: "(\<And>x y. runs I R (f x y)) \<Longrightarrow> runs I R (case p of (x, y) \<Rightarrow> f x y)"
  by (cases p) simp

lemmas runs_cases = runs_if runs_sum runs_option runs_pair

lemma eats_if: "eats I inp P f \<Longrightarrow> eats I inp P g \<Longrightarrow> eats I inp P (if b then f else g)"
  by simp

lemma eats_sum: "(\<And>e. eats I inp P (f e)) \<Longrightarrow> (\<And>x. eats I inp P (g x)) \<Longrightarrow> eats I inp P (case r of Inl e \<Rightarrow> f e | Inr x \<Rightarrow> g x)"
  by (cases r) simp_all

lemma eats_option: "eats I inp P f \<Longrightarrow> (\<And>x. eats I inp P (g x)) \<Longrightarrow> eats I inp P (case r of None \<Rightarrow> f | Some x \<Rightarrow> g x)"
  by (cases r) simp_all

lemma eats_pair: "(\<And>x y. eats I inp P (f x y)) \<Longrightarrow> eats I inp P (case p of (x, y) \<Rightarrow> f x y)"
  by (cases p) simp

lemmas eats_cases = eats_if eats_sum eats_option eats_pair

text \<open>A loop's result, by an invariant of its variable.\<close>

lemma repeat_result:
  fixes body :: "'x \<Rightarrow> ('x + 'r, 'b session_scheme) io"
  assumes run: "repeat_io body x s = (Done r, t)" and start: "J x"
    and keep: "\<And>x y s t. J x \<Longrightarrow> body x s = (Done (Inl y), t) \<Longrightarrow> J y"
    and result: "\<And>x s t. J x \<Longrightarrow> body x s = (Done (Inr r), t) \<Longrightarrow> Q"
  shows Q
  using run start
proof (induction "length (s_in s)" arbitrary: s x rule: less_induct)
  case less
  obtain p u where p: "body x s = (p, u)" by fastforce
  note step = less.prems(1) [unfolded repeat_io.simps [of body x s] p]
  show ?case
  proof (cases "\<exists>y. p = Done (Inl y)")
    case True
    then obtain y where y: "p = Done (Inl y)" by blast
    then have "length (s_in u) < length (s_in s)" "repeat_io body y u = (Done r, t)" using step by (auto split: if_splits)
    then show ?thesis using less.hyps keep less.prems(2) p y by blast
  next
    case False
    then have "p = Done (Inr r)" using step by (auto split: outcome.splits sum.splits)
    then show ?thesis using result less.prems(2) p by blast
  qed
qed

section \<open>Calls on behalf of an account\<close>

inductive acts_as :: "int \<Rightarrow> db \<Rightarrow> db \<Rightarrow> bool" for u :: int where
  send: "fresh_rowids E \<Longrightarrow> acts_as u d (snd (SendMessage E u j subj body r d))"
| mark_read: "acts_as u d (snd (MarkRead E j u d))"
| delete_message: "acts_as u d (snd (DeleteMessage j u d))"
| add_post: "fresh_rowids E \<Longrightarrow> acts_as u d (snd (AddPost E b u subj body r d))"
| delete_post: "acts_as u d (snd (DeletePost j u d))"
| mark_board: "acts_as u d (snd (MarkBoardRead u b j d))"
| oneliner: "fresh_rowids E \<Longrightarrow> acts_as u d (snd (AddOneliner E u t d))"
| block: "acts_as u d (snd (Block u j d))"
| unblock: "acts_as u d (snd (Unblock u j d))"
| change_password: "acts_as u d (snd (ChangePassword E u cur nxt d))"
| set_location: "acts_as u d (snd (SetLocation u l d))"
| start_email: "acts_as u d (snd (StartEmailVerification E u a d))"
| confirm_email: "acts_as u d (snd (ConfirmEmail E u c d))"
| email_mode: "acts_as u d (snd (SetEmailMode u m d))"
| remove_email: "acts_as u d (snd (RemoveEmail u d))"
| add_key: "fresh_rowids E \<Longrightarrow> acts_as u d (snd (AddSSHKey E u f p c d))"
| delete_key: "acts_as u d (snd (DeleteSSHKey u k d))"
| mark_echo: "acts_as u d (snd (MarkEchoRead u j k d))"
| mark_files: "acts_as u d (snd (MarkFilesSeen u j k d))"
| count_download: "acts_as u d (CountDownload i d)"
| mark_netmail: "acts_as u d (MarkNetmailRead E i d)"
| sent_netmail: "fresh_rowids E \<Longrightarrow> n_author n = u \<Longrightarrow> acts_as u d (snd (RecordSentNetmail E n d))"
| log: "fresh_rowids E \<Longrightarrow> acts_as u d (snd (LogEvent E e d))"
| hit: "acts_as u d (RecordHit bk k at d)"
| forget_hits: "acts_as u d (ClearHits bk k d)"
| record_login: "acts_as u d (snd (RecordLogin E u d))"
| reset_password: "acts_as u d (snd (ResetPassword E u i p d))"
| set_sysop: "acts_as u d (snd (SetSysop u i b d))"
| set_locked: "acts_as u d (snd (SetLocked u i b d))"
| validate_user: "acts_as u d (snd (ValidateUser u i d))"
| delete_user: "acts_as u d (snd (DeleteUser u i d))"
| create_board: "fresh_rowids E \<Longrightarrow> acts_as u d (snd (CreateBoard E u n ds so d))"
| delete_board: "acts_as u d (snd (DeleteBoard u i d))"
| add_bulletin: "fresh_rowids E \<Longrightarrow> acts_as u d (snd (AddBulletin E u t body d))"
| delete_bulletin: "acts_as u d (snd (DeleteBulletin u i d))"
| delete_oneliner: "acts_as u d (snd (DeleteOneliner u i d))"

lemma acts_as_step: "acts_as u d d' \<Longrightarrow> store_step d d'"
  by (induction rule: acts_as.induct) (intro store_step.intros; assumption)+

end
