(* ===== verification/Bbs_Runs.thy ===== *)
theory Bbs_Runs
  imports Bbs_Calls
begin

text \<open>
  The operations every screen uses run: first those of the terminal, for any session whose
  window has at least the 20 columns that telnet and SSH allow, then those of the BBS, as instances of the
  locale \<open>calls\<close>. \<open>run_rules\<close> collects what is proved of the operations, \<open>eat_rules\<close> those that
  read a key; the proofs about the screens are compositions of these rules.
\<close>

section \<open>The terminal\<close>

definition t_ok :: "'a session_scheme \<Rightarrow> bool" where
  "t_ok s \<longleftrightarrow> renderer_inv (s_rend s) \<and> 20 \<le> s_width s"

interpretation terminal_run: calls terminal_only t_ok
  by unfold_locales (rule terminal_only_len)

abbreviation t_runs :: "('a, 'b session_scheme) io \<Rightarrow> bool" where
  "t_runs \<equiv> runs t_ok terminal_only"

abbreviation t_eats :: "('a, 'b session_scheme) io \<Rightarrow> bool" where
  "t_eats \<equiv> eats t_ok s_in (\<lambda>_. True)"

lemma t_ok_updates [simp]:
  "t_ok (write_bytes p s) = t_ok s" "t_ok (raw p s) = t_ok s" "t_ok (clearLine s) = t_ok s"
  by (simp_all add: t_ok_def write_bytes_def raw_def clearLine_def)

lemma t_ok_moved: "input_moved s t \<Longrightarrow> t_ok s \<Longrightarrow> t_ok t"
  by (cases s; cases t; simp add: input_moved_def t_ok_def)

lemma t_print: "t_runs (print t)"
proof (rule terminal_run.runs_stays [OF terminal_print])
  fix s :: "'a session_scheme" and q u assume s: "t_ok s" "print t s = (q, u)"
  obtain out r where r: "Render (s_rend s) t = Some (out, r)" "renderer_inv r"
    using Render_total [of "s_rend s" t] s(1) by (auto simp: t_ok_def)
  then show "t_ok u \<and> q \<noteq> Panicked \<and> q \<noteq> Fail Spins" using s by (auto simp: print_def t_ok_def write_bytes_def)
qed

lemma read_bytes_fine: "fst (read_bytes bs s) \<noteq> Panicked" "fst (read_bytes bs s) \<noteq> Fail Spins"
proof (induction bs arbitrary: s)
  case (Cons tb rest)
  {
    case 1
    show ?case using Cons(1) by (cases tb) (simp add: Let_def split: prod.split option.split)
  next
    case 2
    show ?case using Cons(2) by (cases tb) (simp add: Let_def split: prod.split option.split)
  }
qed simp_all

lemma t_readRune: "t_runs (readRune :: (rune, 'a session_scheme) io)"
proof (rule terminal_run.runs_stays [OF terminal_readRune])
  fix s t :: "'a session_scheme" and q assume s: "t_ok s" "readRune s = (q, t)"
  have "t_ok t" by (rule t_ok_moved [OF _ s(1)]) (metis readRune_moved s(2) snd_conv)
  then show "t_ok t \<and> q \<noteq> Panicked \<and> q \<noteq> Fail Spins"
    using s(2) read_bytes_fine [of "s_in s" s] by (auto simp: readRune_def split: if_splits)
qed

lemma t_eats_readRune: "t_eats (readRune :: (rune, 'a session_scheme) io)"
  by (auto simp: eats_def dest: readRune_in)

lemma readKey_fine:
  fixes s t :: "'a session_scheme"
  shows "t_ok s \<Longrightarrow> readKey up allowed s = (q, t) \<Longrightarrow> t_ok t \<and> q \<noteq> Panicked \<and> q \<noteq> Fail Spins"
proof (induction "length (s_in s)" arbitrary: s rule: less_induct)
  case less
  obtain p u where p: "readRune s = (p, u)" by fastforce
  note u = runsD [OF t_readRune less.prems(1) p]
  show ?case
  proof (cases p)
    case (Done r)
    have "readKey up allowed u = (q, t) \<Longrightarrow> ?thesis"
      using less.hyps [of u] readRune_in [of s r u] p Done u by simp
    then show ?thesis using less.prems(2) p u Done
      by (subst (asm) readKey.simps) (auto simp: bind_io_def return_io_def split: if_splits)
  qed (use less.prems(2) p u in \<open>subst (asm) readKey.simps, auto simp: bind_io_def\<close>)+
qed

lemma t_readKey: "t_runs (readKey up allowed)"
  by (rule terminal_run.runs_stays [OF terminal_readKey]) (rule readKey_fine)

lemma t_eats_readKey: "t_eats (readKey up allowed :: (rune, 'a session_scheme) io)"
proof -
  have "readKey up allowed s = (Done x, t) \<Longrightarrow> length (s_in t) < length (s_in s)" for s t :: "'a session_scheme" and x
  proof (induction "length (s_in s)" arbitrary: s rule: less_induct)
    case less
    obtain p u where p: "readRune s = (p, u)" by fastforce
    show ?case
    proof (cases p)
      case (Done r)
      note u = readRune_in [OF p [unfolded Done]]
      show ?thesis using less.prems less.hyps [OF u] p u Done
        by (subst (asm) readKey.simps) (auto simp: bind_io_def return_io_def split: if_splits)
    qed (use less.prems p in \<open>subst (asm) readKey.simps, auto simp: bind_io_def\<close>)+
  qed
  then show ?thesis by (simp add: eats_def)
qed

lemma t_effect: "(\<And>s. t_ok s \<Longrightarrow> t_ok (f s) \<and> terminal_only s (f s)) \<Longrightarrow> t_runs (effect f)"
  by (rule terminal_run.runs_effect)

lemma t_raw: "t_runs (effect (raw x))"
  by (rule t_effect) (simp add: terminal_only_def)

lemma line_loop_fine:
  fixes s t :: "'a session_scheme"
  shows "t_ok s \<Longrightarrow> line_loop opts buf s = (q, t) \<Longrightarrow> t_ok t \<and> q \<noteq> Panicked \<and> q \<noteq> Fail Spins"
proof (induction "length (s_in s)" arbitrary: s buf rule: less_induct)
  case less
  obtain p u where p: "readRune s = (p, u)" by fastforce
  note u = runsD [OF t_readRune less.prems(1) p]
  show ?case
  proof (cases p)
    case (Done r)
    have rec: "line_loop opts b v = (q, t) \<Longrightarrow> ?thesis" if "s_in v = s_in u" "t_ok v" for b v
      using less.hyps [of v b] readRune_in [of s r u] p Done that by simp
    have wrap: "wrapOverflow b x u = (q, t) \<Longrightarrow> ?thesis" for b x
      using u by (auto simp: wrapOverflow_def Let_def split: if_splits)
    show ?thesis
      using less.prems(2) rec [of u] rec [of "raw _ u"] wrap u unfolding line_loop_step [OF p [unfolded Done]]
      by (auto split: if_splits)
  qed (use less.prems(2) p u in \<open>subst (asm) line_loop.simps, auto simp: bind_io_def\<close>)+
qed

lemma t_readLine: "t_runs (readLine opts)"
  by (rule terminal_run.runs_stays [OF terminal_readLine])
     (simp add: readLine_def line_loop_fine [OF t_ok_updates(2) [THEN iffD2]])

lemma t_eats_readLine: "t_eats (readLine opts :: (string \<times> rune list, 'a session_scheme) io)"
  using line_loop_consumes by (fastforce simp: eats_def readLine_def)

lemma t_prompt: "t_runs (prompt l n)" "t_runs (promptSecret l n)"
  unfolding prompt_def promptSecret_def
  by (intro terminal_run.runs_basic t_print t_readLine runs_cases)+

lemma t_eats_prompt: "t_eats (prompt l n :: (string, 'a session_scheme) io)" "t_eats (promptSecret l n :: (string, 'a session_scheme) io)"
  by (auto simp: eats_def dest: prompt_consumes)

lemma t_clearing:
  assumes m: "t_runs m" and f: "\<And>x. f (Done x) \<noteq> Panicked \<and> f (Done x) \<noteq> Fail Spins" "\<And>e. e \<noteq> Spins \<Longrightarrow> f (Fail e) \<noteq> Panicked \<and> f (Fail e) \<noteq> Fail Spins"
  shows "t_runs (\<lambda>s. let (k, s') = m s in (f k, clearLine s'))"
proof (rule runsI)
  fix s q t assume s: "t_ok s" "(let (k, s') = m s in (f k, clearLine s')) = (q, t)"
  obtain p u where p: "m s = (p, u)" by fastforce
  show "t_ok t \<and> terminal_only s t \<and> q \<noteq> Panicked \<and> q \<noteq> Fail Spins"
    using runsD [OF m s(1) p] s(2) p f by (cases p) (auto simp: terminal_only_def)
qed

lemma t_more: "t_runs (more_prompt up)"
  unfolding more_prompt_def by (intro terminal_run.runs_then t_print t_clearing t_readKey) simp_all

lemma t_pause: "t_runs pause"
  unfolding pause_def by (intro terminal_run.runs_then t_print t_clearing t_readRune) simp_all

lemma t_yesNo: "t_runs (yesNo up question d)"
  unfolding yesNo_def Let_def by (intro terminal_run.runs_basic t_print t_readKey t_raw)

lemma t_eats_choose: "t_eats (choose_key up allowed :: (rune, 'a session_scheme) io)"
proof -
  have out: "t_runs (effect (if k \<noteq> keyEnter then raw (of_runes [k]) else id))" for k
    by (rule t_effect) (simp add: terminal_only_def)
  show ?thesis unfolding choose_key_def
    by (intro terminal_run.eats_first t_eats_readKey t_readKey terminal_run.runs_basic t_raw out)
qed

lemma t_choose: "t_runs (choose_key up allowed)"
proof -
  have out: "t_runs (effect (if k \<noteq> keyEnter then raw (of_runes [k]) else id))" for k
    by (rule t_effect) (simp add: terminal_only_def)
  show ?thesis unfolding choose_key_def by (intro t_readKey terminal_run.runs_basic t_raw out)
qed

lemma t_page_loop: "t_runs (page_loop up per row lns :: (bool, 'a session_scheme) io)"
proof (induction lns arbitrary: row)
  case (Cons ln lns)
  show ?case unfolding page_loop.simps Let_def
    by (intro runs_if terminal_run.runs_basic t_print t_more Cons.IH)
qed (simp add: terminal_run.runs_return)

lemma t_eq: "(\<And>s. t_ok s \<Longrightarrow> \<exists>m'. runs t_ok R m' \<and> m s = m' s) \<Longrightarrow> runs t_ok R m"
  unfolding runs_def by metis

lemma t_page: "t_runs (page up lns used)"
  unfolding page_def by (rule t_eq) (rule exI, rule conjI [OF t_page_loop refl])

lemma t_print_all: "t_runs (print_all ts)"
  by (induction ts) (simp_all add: terminal_run.runs_return terminal_run.runs_then t_print)

section \<open>Frames\<close>

lemma Repeat_some: "0 \<le> n \<Longrightarrow> \<exists>h. Repeat t n = Some h"
  by (simp add: Repeat_def)

lemma all_some_total: "(\<And>x. x \<in> set xs \<Longrightarrow> \<exists>y. x = Some y) \<Longrightarrow> \<exists>ys. all_some xs = Some ys"
proof (induction xs)
  case (Cons x xs)
  then obtain y ys where "x = Some y" "all_some xs = Some ys" by (metis list.set_intros)
  then show ?case by simp
qed simp

lemma boxTop_some: "2 \<le> w \<Longrightarrow> \<exists>h. boxTop title w = Some h"
  by (simp add: boxTop_def Repeat_def Let_def)

lemma boxRow_some: "2 \<le> w \<Longrightarrow> \<exists>h. boxRow ln w = Some h"
  by (simp add: boxRow_def Repeat_def)

lemma boxBottom_some: "2 \<le> w \<Longrightarrow> \<exists>h. boxBottom w = Some h"
  by (simp add: boxBottom_def Repeat_def)

lemma boxLines_some: "2 \<le> w \<Longrightarrow> \<exists>h. boxLines title w body = Some h"
  unfolding boxLines_def by (rule all_some_total) (auto simp: boxTop_some boxRow_some boxBottom_some)

lemma width_ok: "t_ok s \<Longrightarrow> 19 \<le> width s"
  by (simp add: t_ok_def width_def maxScreenWidth_def)

lemma t_may: "(\<And>s. t_ok s \<Longrightarrow> \<exists>h. f s = Some h) \<Longrightarrow> t_runs (may_panic f)"
  by (rule runsI) (fastforce simp: may_panic_def terminal.refl)

lemma t_may_const: "\<exists>h. v = Some h \<Longrightarrow> t_runs (may_panic (\<lambda>_. v))"
  by (rule t_may)

lemma t_box: "t_runs (box title body)"
proof -
  have "t_runs (may_panic (\<lambda>s. boxLines title (width s) body))"
    by (rule t_may) (use width_ok boxLines_some in fastforce)
  then show ?thesis unfolding box_def by (intro terminal_run.runs_basic t_print_all)
qed

lemma t_header: "t_runs (header name tz handle title)"
proof (rule t_eq)
  fix s :: "'a session_scheme" assume s: "t_ok s"
  have w: "\<exists>h. Repeat dH (width s - 2) = Some h" using width_ok [OF s] by (simp add: Repeat_def)
  show "\<exists>m'. t_runs m' \<and> header name tz handle title s = m' s"
    unfolding header_def Let_def
    by (rule exI, rule conjI [OF _ refl]) (intro terminal_run.runs_basic t_print t_print_all t_may_const w)
qed

lemma t_table: "t_runs (table up title heading rows none)"
proof (rule t_eq)
  fix s :: "'a session_scheme" assume s: "t_ok s"
  then have w: "2 \<le> width s" using width_ok [OF s] by simp
  have rows: "\<exists>h. all_some (map (\<lambda>ln. boxRow ln (width s)) rs @ [boxBottom (width s)]) = Some h" for rs
    by (rule all_some_total) (auto simp: boxRow_some [OF w] boxBottom_some [OF w])
  have few: "\<exists>h. all_some [boxRow a (width s), boxRow b (width s), boxRow c (width s), boxBottom (width s)] = Some h"
    "\<exists>h. all_some [boxRow a (width s), boxRow b (width s)] = Some h" for a b c
    by (rule all_some_total; auto simp: boxRow_some [OF w] boxBottom_some [OF w])+
  show "\<exists>m'. t_runs m' \<and> table up title heading rows none s = m' s"
    unfolding table_def Let_def
    by (rule exI, rule conjI [OF _ refl])
       (intro runs_if terminal_run.runs_basic t_print t_print_all t_page t_may_const few rows boxTop_some w)
qed

lemma t_panel: "2 \<le> w \<Longrightarrow> t_runs (may_panic (\<lambda>u. boxLines title w (b u)))"
  by (rule t_may) (rule boxLines_some)

lemma t_menuColumns: "t_runs (menuColumns lt l rt r)"
proof (rule t_eq)
  fix s :: "'a session_scheme" assume s: "t_ok s"
  then have w: "2 \<le> half (width s - panelGap)" "2 \<le> width s - panelGap - half (width s - panelGap)"
    using width_ok [OF s] by (simp_all add: half_def panelGap_def)
  show "\<exists>m'. t_runs m' \<and> menuColumns lt l rt r s = m' s"
    unfolding menuColumns_def Let_def
    by (rule exI, rule conjI [OF _ refl]) (intro terminal_run.runs_basic t_print_all t_panel w)
qed

lemma t_menu: "t_runs (menu title items)"
  unfolding menu_def by (rule t_eq) (rule exI, rule conjI [OF t_box refl])

lemma t_showLetter: "t_runs (showLetter up name tz handle l)"
proof (rule t_eq)
  fix s :: "'a session_scheme" assume s: "t_ok s"
  then have w: "2 \<le> width s" using width_ok [OF s] by simp
  have top: "\<exists>h. all_some (boxTop [] (width s) # map (\<lambda>ln. boxRow ln (width s)) fs @ [boxRow separator (width s)]) = Some h" for fs
    by (rule all_some_total) (auto simp: boxRow_some [OF w] boxTop_some [OF w])
  have "\<exists>h. all_some (map (\<lambda>ln. boxRow ln (width s)) rs @ [boxBottom (width s)]) = Some h" for rs
    by (rule all_some_total) (auto simp: boxRow_some [OF w] boxBottom_some [OF w])
  then have rows: "t_runs (may_panic (\<lambda>u. all_some (map (\<lambda>ln. boxRow ln (width s)) (f u) @ [boxBottom (width s)])))"
    for f :: "'a session_scheme \<Rightarrow> string list"
    by (rule t_may)
  show "\<exists>m'. t_runs m' \<and> showLetter up name tz handle l s = m' s"
    unfolding showLetter_def Let_def
    by (rule exI, rule conjI [OF _ refl]) (intro terminal_run.runs_basic t_print t_print_all t_page t_header t_may_const top rows)
qed

lemmas t_rules = t_print t_readRune t_readKey t_raw t_readLine t_prompt t_more t_pause t_yesNo t_choose t_page t_print_all
  t_box t_header t_table t_menuColumns t_menu t_showLetter

section \<open>The BBS\<close>

definition good :: "caller \<Rightarrow> bool" where
  "good s \<longleftrightarrow> t_ok s \<and> fresh_rowids (sv_env (c_srv s))"

text \<open>The caller stays who they are, and the store is called on their behalf.\<close>

definition goes_on :: "caller \<Rightarrow> caller \<Rightarrow> bool" where
  "goes_on s t \<longleftrightarrow> me t = me s \<and> sv_env (c_srv t) = sv_env (c_srv s) \<and> length (s_in t) \<le> length (s_in s) \<and>
     (acts_as (me s))\<^sup>*\<^sup>* (database s) (database t)"

interpretation screen: calls goes_on good
  by unfold_locales (auto simp: goes_on_def)

abbreviation sound :: "('a, caller) io \<Rightarrow> bool" where
  "sound \<equiv> runs good goes_on"

abbreviation eager :: "('a, caller) io \<Rightarrow> bool" where
  "eager \<equiv> eats good s_in (\<lambda>_. True)"

abbreviation eager_loop :: "('x + 'r, caller) io \<Rightarrow> bool" where
  "eager_loop \<equiv> eats good s_in round_again"

lemma more_parts: "session.more s = session.more t \<Longrightarrow> c_srv s = c_srv t \<and> c_user s = c_user t"
  for s t :: caller
  by (cases s; cases t; simp)

lemma sound_terminal: "t_runs m \<Longrightarrow> sound m"
proof (rule runsI)
  fix s q t assume m: "t_runs m" and s: "good s" "m s = (q, t)"
  have "t_ok s" using s(1) by (simp add: good_def)
  note u = runsD [OF m this s(2)]
  then have "c_srv t = c_srv s" "c_user t = c_user s" "length (s_in t) \<le> length (s_in s)"
    using more_parts [of t s] suffix_length_le by (auto simp: terminal_only_def)
  then show "good t \<and> goes_on s t \<and> q \<noteq> Panicked \<and> q \<noteq> Fail Spins"
    using u s(1) by (simp add: good_def goes_on_def me_def database_def)
qed

lemma eager_terminal: "t_eats m \<Longrightarrow> eager m"
  by (auto simp: eats_def good_def)

lemmas sound_t [run_rules] = t_rules [THEN sound_terminal]
lemmas eager_t [eat_rules] = t_eats_readRune [THEN eager_terminal] t_eats_readKey [THEN eager_terminal]
  t_eats_readLine [THEN eager_terminal] t_eats_prompt [THEN eager_terminal] t_eats_choose [THEN eager_terminal]

declare screen.runs_basic [run_rules] runs_cases [run_rules]
declare screen.eats_basic [eat_rules] eats_cases [eat_rules]

lemma sound_eq: "(\<And>s. good s \<Longrightarrow> \<exists>m'. sound m' \<and> m s = m' s) \<Longrightarrow> sound m"
  unfolding runs_def by metis

lemma eager_eq: "(\<And>s. good s \<Longrightarrow> \<exists>m'. eats good s_in P m' \<and> m s = m' s) \<Longrightarrow> eats good s_in P m"
  unfolding eats_def by metis

text \<open>Changes of the server that leave the database and the store's environment alone, and changes of both.\<close>

definition acts_well :: "(caller \<Rightarrow> caller) \<Rightarrow> bool" where
  "acts_well f \<longleftrightarrow> (\<forall>s. good s \<longrightarrow> s_in (f s) = s_in s \<and> s_rend (f s) = s_rend s \<and> s_width (f s) = s_width s \<and>
     me (f s) = me s \<and> sv_env (c_srv (f s)) = sv_env (c_srv s) \<and> (acts_as (me s))\<^sup>*\<^sup>* (database s) (database (f s)))"

lemma acts_wellD: "acts_well f \<Longrightarrow> good s \<Longrightarrow> good (f s) \<and> goes_on s (f s)"
  by (simp add: acts_well_def good_def t_ok_def goes_on_def)

lemma sound_effect [run_rules]: "acts_well f \<Longrightarrow> sound (effect f)"
  by (rule screen.runs_effect) (rule acts_wellD)

lemma acts_well_id: "acts_well (\<lambda>s. s)"
  by (simp add: acts_well_def)

lemma acts_well_comp: "acts_well f \<Longrightarrow> acts_well g \<Longrightarrow> acts_well (\<lambda>s. f (g s))"
proof -
  assume f: "acts_well f" and g: "acts_well g"
  have "s_in (f (g s)) = s_in s \<and> s_rend (f (g s)) = s_rend s \<and> s_width (f (g s)) = s_width s \<and> me (f (g s)) = me s \<and>
     sv_env (c_srv (f (g s))) = sv_env (c_srv s) \<and> (acts_as (me s))\<^sup>*\<^sup>* (database s) (database (f (g s)))" if "good s" for s
  proof -
    note gs = g [unfolded acts_well_def, rule_format, OF that]
    have "good (g s)" using acts_wellD [OF g that] by simp
    note fs = f [unfolded acts_well_def, rule_format, OF this]
    show ?thesis using gs fs by (auto intro: rtranclp_trans)
  qed
  then show ?thesis by (simp add: acts_well_def)
qed

lemma acts_well_server: "(\<And>sv. sv_env (f sv) = sv_env sv \<and> sv_db (f sv) = sv_db sv) \<Longrightarrow> acts_well (on_server f)"
  by (simp add: acts_well_def on_server_def me_def database_def)

lemma acts_well_nodes: "acts_well (on_nodes f)" "acts_well (on_node g)"
  by (simp_all add: acts_well_def on_node_def on_nodes_def on_server_def me_def database_def)

lemma acts_well_limiter: "acts_well (set_limiter l r)"
  unfolding set_limiter_def by (rule acts_well_server) simp

lemma acts_well_memory: "acts_well (memory_hit l key)"
  using acts_well_limiter [of l] by (simp add: acts_well_def memory_hit_def)

lemma acts_well_store:
  assumes "\<And>s. good s \<Longrightarrow> acts_as (me s) (database s) (f s)"
  shows "acts_well (\<lambda>s. on_server (\<lambda>sv. sv\<lparr>sv_db := f s\<rparr>) s)"
  using assms by (auto simp: acts_well_def on_server_def me_def database_def)

lemma good_fresh: "good s \<Longrightarrow> fresh_rowids ((sv_env (c_srv s))\<lparr>se_now := t\<rparr>)" "good s \<Longrightarrow> fresh_rowids (env s)"
  by (simp_all add: good_def env_def fresh_rowids_def)

lemma acts_well_log: "acts_well (log_event k i h d)"
proof -
  have "acts_as (me s) (database s) (database (log_event k i h d s))" if "good s" for s
    unfolding log_event_def server_event_def on_server_def database_def
    by (simp del: LogEvent_def) (rule acts_as.log [OF good_fresh(1) [OF that]])
  then show ?thesis by (auto simp: acts_well_def log_event_def server_event_def on_server_def me_def)
qed

lemma hit_acts: "snd (hit store_hits now key (r, d)) = d \<or> (\<exists>bk k at. snd (hit store_hits now key (r, d)) = RecordHit bk k at d)"
  by (auto simp: hit_def store_hits_def Let_def split: prod.splits option.splits)

lemma acts_well_hit: "acts_well (record_hit l key)"
proof -
  have "(acts_as (me s))\<^sup>*\<^sup>* (database s) (database (record_hit l key s))" if "good s" for s
    using hit_acts [of "s_now s" key "fst l (sv_limit (c_srv s))" "database s"] acts_as.hit
    by (auto simp: record_hit_def set_limiter_def on_server_def database_def split: prod.splits)
  then show ?thesis
    by (auto simp: acts_well_def record_hit_def set_limiter_def on_server_def me_def split: prod.splits)
qed

lemmas acts_rules = acts_well_nodes acts_well_limiter acts_well_memory acts_well_log acts_well_hit acts_well_id

declare acts_rules [run_rules]

text \<open>Calls of the store.\<close>

lemma sound_store:
  assumes "\<And>E d u. fresh_rowids E \<Longrightarrow> acts_as u d (snd (f u E d))"
  shows "sound (with_s (\<lambda>s. store_op (f (me s))))"
proof (rule runsI)
  fix s q t assume s: "good s" "with_s (\<lambda>s. store_op (f (me s))) s = (q, t)"
  let ?d = "snd (f (me s) (env s) (database s))"
  have t: "t = on_server (\<lambda>sv. sv\<lparr>sv_db := ?d\<rparr>) s" "\<exists>x. q = Done x"
    using s(2) by (auto simp: with_s_def store_op_def split: prod.splits)
  have "acts_as (me s) (database s) ?d" by (rule assms) (rule good_fresh [OF s(1)])
  then show "good t \<and> goes_on s t \<and> q \<noteq> Panicked \<and> q \<noteq> Fail Spins"
    using t s(1) by (auto simp: good_def t_ok_def goes_on_def on_server_def me_def database_def)
qed

section \<open>Operations of every screen\<close>

lemma UserByID_id: "UserByID d i = Inr u \<Longrightarrow> u_id u = i"
  by (auto simp: UserByID_def getUser_def find_user_def find_Some_iff split: option.splits)

lemma sound_refreshUser [run_rules]: "sound refreshUser"
proof (rule runsI)
  fix s q t assume s: "good s" "refreshUser s = (q, t)"
  then show "good t \<and> goes_on s t \<and> q \<noteq> Panicked \<and> q \<noteq> Fail Spins"
    by (auto simp: refreshUser_def good_def t_ok_def goes_on_def me_def database_def UserByID_id split: sum.splits)
qed

lemma sound_setUser:
  "(\<And>s. good s \<Longrightarrow> u_id u = me s) \<Longrightarrow> sound (effect (\<lambda>s. s\<lparr>c_user := u\<rparr>))"
  by (rule sound_effect) (simp add: acts_well_def me_def database_def)

lemma sound_setActivity [run_rules]: "sound (session_setActivity a)"
  unfolding session_setActivity_def by (intro run_rules)

lemma sound_header [run_rules]: "sound (screen_header title)"
  unfolding screen_header_def by (rule sound_eq) (rule exI, rule conjI [OF t_header [THEN sound_terminal] refl])

lemma sound_choose [run_rules]: "sound (session_choose allowed)"
  unfolding session_choose_def by (rule sound_eq) (rule exI, rule conjI [OF t_choose [THEN sound_terminal] refl])

lemma eager_choose [eat_rules]: "eager (session_choose allowed)"
  unfolding session_choose_def by (rule eager_eq) (rule exI, rule conjI [OF t_eats_choose [THEN eager_terminal] refl])

lemma sound_yesNo [run_rules]: "sound (session_yesNo question d)"
  unfolding session_yesNo_def by (rule sound_eq) (rule exI, rule conjI [OF t_yesNo [THEN sound_terminal] refl])

lemma sound_flushNotices [run_rules]: "sound flushNotices"
proof (rule sound_eq)
  fix s assume "good s"
  show "\<exists>m'. sound m' \<and> flushNotices s = m' s"
    unfolding flushNotices_def Let_def
    by (rule exI [of _ "then_io (effect (on_node (\<lambda>n. snd (takeNotices n))))
         (print_all (map (\<lambda>n. CHR 0x07 # nl @ ''|15*** |14'' @ safe n @ '' |15***|07'' @ nl)
            (case lookup_node (c_node s) (sv_nodes (c_srv s)) of None \<Rightarrow> [] | Some n \<Rightarrow> fst (takeNotices n))))"])
       (simp add: run_rules then_io_def bind_io_def effect_def)
qed

lemma sound_actionPrompt [run_rules]: "sound (actionPrompt extra ws)"
  unfolding actionPrompt_def
  by (intro screen.runs_then sound_flushNotices, rule sound_eq, rule exI, rule conjI [OF _ refl], intro run_rules)

lemma eager_actionPrompt [eat_rules]: "eats good s_in P (actionPrompt extra ws)"
  unfolding actionPrompt_def
  by (intro screen.eats_then sound_flushNotices, rule eager_eq, rule exI, rule conjI [OF _ refl],
      intro screen.eats_then run_rules) (rule eats_mono [OF eager_choose TrueI])

lemma sound_menuPrompt [run_rules]: "sound (menuPrompt place keys)"
  unfolding menuPrompt_def
  by (intro screen.runs_then sound_flushNotices, rule sound_eq, rule exI, rule conjI [OF _ refl], intro run_rules)

lemma eager_menuPrompt [eat_rules]: "eats good s_in P (menuPrompt place keys)"
  unfolding menuPrompt_def
  by (intro screen.eats_then sound_flushNotices, rule eager_eq, rule exI, rule conjI [OF _ refl],
      intro screen.eats_then run_rules) (rule eats_mono [OF eager_choose TrueI])

lemma sound_reportError [run_rules]: "sound (reportError e)"
  unfolding reportError_def by (intro run_rules)

lemma sound_showArt [run_rules]: "sound (showArt name vars)"
  unfolding showArt_def by (rule sound_eq) (rule exI, rule conjI [OF t_print [THEN sound_terminal] refl])

lemma sound_showArtFile [run_rules]: "sound (showArtFile b data vars)"
proof (rule runsI)
  fix s q t assume s: "good s" "showArtFile b data vars s = (q, t)"
  show "good t \<and> goes_on s t \<and> q \<noteq> Panicked \<and> q \<noteq> Fail Spins"
  proof (cases b)
    case True
    then show ?thesis using runsD [OF t_print [THEN sound_terminal] s(1)] s(2) by (auto simp: showArtFile_def)
  next
    case False
    then show ?thesis using s NewRenderer_inv
      by (auto simp: showArtFile_def Let_def good_def t_ok_def goes_on_def write_bytes_def me_def database_def)
  qed
qed

lemma sound_showCustomArt [run_rules]: "sound (showCustomArt screen vars)"
proof (rule sound_eq)
  fix s assume "good s"
  show "\<exists>m'. sound m' \<and> showCustomArt screen vars s = m' s"
    unfolding showCustomArt_def
    by (rule exI [of _ "case sv_art (c_srv s) screen of None \<Rightarrow> return_io False
       | Some (txt, data) \<Rightarrow> if maxArtBytes < length data then return_io False else then_io (showArtFile txt data vars) (return_io True)"],
        rule conjI, intro run_rules) (simp add: return_io_def split: option.split)
qed

text \<open>Those of \<^theory_text>\<open>Bbs_Screen\<close>.\<close>

lemma sound_table [run_rules]: "sound (session_table title heading rows none)"
  unfolding session_table_def by (intro run_rules)

lemma sound_letter [run_rules]: "sound (session_letter l)"
  unfolding session_letter_def by (intro run_rules)

lemma sound_keysPrompt [run_rules]: "sound (keysPrompt extra ws)"
  unfolding keysPrompt_def by (intro run_rules)

lemma eager_keysPrompt [eat_rules]: "eats good s_in P (keysPrompt extra ws)"
  unfolding keysPrompt_def by (intro screen.eats_with screen.eats_then run_rules) (rule eats_mono [OF eager_choose TrueI])

lemma sound_tell [run_rules]: "sound (tell t)"
  unfolding tell_def by (intro run_rules)

lemma sound_awaitingApproval [run_rules]: "sound (awaitingApproval what)"
  unfolding awaitingApproval_def by (intro run_rules)

lemma sound_stillSysop [run_rules]: "sound stillSysop"
  unfolding stillSysop_def by (intro run_rules)

lemma sound_audit [run_rules]: "sound (audit detail)"
  unfolding audit_def
  by (rule sound_effect) (use acts_well_log in \<open>auto simp: acts_well_def\<close>)

lemma eager_prompt [eat_rules]: "eats good s_in P (prompt l n)" "eats good s_in P (promptSecret l n)"
  by (rule eats_mono [OF t_eats_prompt(1) [THEN eager_terminal] TrueI], rule eats_mono [OF t_eats_prompt(2) [THEN eager_terminal] TrueI])

lemma sound_pickNumber [run_rules]: "sound (pickNumber n what)"
  unfolding pickNumber_def
  by (intro run_rules screen.eats_first eat_rules)

lemma eager_pickNumber [eat_rules]: "eats good s_in P (pickNumber n what)"
proof -
  have "eager (pickNumber n what)" unfolding pickNumber_def
    by (rule screen.eats_repeat; intro screen.eats_first eat_rules run_rules)
  then show ?thesis by (rule eats_mono) simp
qed

lemma sound_is_blocked [run_rules]: "sound (is_blocked l key)"
proof (rule runsI)
  fix s q t assume s: "good s" "is_blocked l key s = (q, t)"
  then obtain r where "t = set_limiter l r s" "\<exists>b. q = Done b" by (auto simp: is_blocked_def split: prod.splits)
  then show "good t \<and> goes_on s t \<and> q \<noteq> Panicked \<and> q \<noteq> Fail Spins" using acts_wellD [OF acts_well_limiter s(1)] by auto
qed

lemma sound_held_back [run_rules]: "sound (held_back l)"
  unfolding held_back_def by (intro run_rules)

lemma sound_count_hit [run_rules]: "sound (count_hit l)"
  unfolding count_hit_def by (rule sound_effect) (use acts_well_memory in \<open>auto simp: acts_well_def\<close>)

end
