(* ===== verification/Bbs_Editor.thy ===== *)
theory Bbs_Editor
  imports Bbs_Runs
begin

text \<open>
  \<open>internal/bbs/editor.go\<close>: the line editor messages are written with. The loop's variable is the
  lines so far and what wrapped over from the line before. The results: what the editor hands
  over to be sent is never blank, never over the size the store takes, and not longer than the
  editor allows.
\<close>

section \<open>Editor (editor.go)\<close>

definition maxEditorLines :: nat where "maxEditorLines = 200"
definition maxEditorWidth :: int where "maxEditorWidth = 76"
definition editorGutter :: int where "editorGutter = 5"

definition editorHelp :: "string list" where
  "editorHelp =
     [''|07Type your message. Lines wrap by themselves. On an empty line type:'',
      ''|15/S|08 send   |15/A|08 abort   |15/L|08 list   |15/D|08 delete last line   |15/C|08 clear   |15/?|08 help'']"

definition editorWidth :: "int \<Rightarrow> int" where
  "editorWidth screen = min (screen - editorGutter) maxEditorWidth"

definition editorCommand :: "(rune \<Rightarrow> rune) \<Rightarrow> string \<Rightarrow> char option" where
  "editorCommand up line =
     (let t = trim_space line
      in if length t = 2 \<and> hd t = CHR ''/''
         then find (\<lambda>c. byte_val c = upper_rune up (byte_val (t ! 1))) ''SALDCH?''
         else None)"

definition listEditorLines :: "string list \<Rightarrow> (unit, caller) io" where
  "listEditorLines ls = print_all (map (\<lambda>(i, ln). '' '' @ colBorder @ pad_left 3 (itoa (int i + 1)) @ '':'' @ colLabel @ '' '' @ safe ln @ nl)
     (enumerate 0 ls))"

text \<open>Whether the editor is done, whether the text is to be sent, and the lines.\<close>

definition editorAction :: "char \<Rightarrow> string list \<Rightarrow> (bool \<times> bool \<times> string list, caller) io" where
  "editorAction cmd ls =
     (if cmd = CHR ''S'' then
        (let body = join nl ls
         in if trim_space body = [] then then_io (print (colAlert @ ''Nothing to send yet.'' @ nl)) (return_io (False, False, ls))
            else if MaxBodyBytes < length body
            then then_io (print (colAlert @ ''Too long: '' @ itoa (int MaxBodyBytes div 1024) @ '' KB max. Delete some lines first.'' @ nl))
                   (return_io (False, False, ls))
            else return_io (True, True, ls))
      else if cmd = CHR ''A'' then bind_io (session_yesNo ''Discard this message?'' False) (\<lambda>abort. return_io (abort, False, ls))
      else if cmd = CHR ''L'' then
        bind_io (may_panic rule_line) (\<lambda>r. then_io (print (r @ nl)) (then_io (listEditorLines ls) (return_io (False, False, ls))))
      else if cmd = CHR ''D'' then
        (if ls = [] then return_io (False, False, ls)
         else then_io (print (colDim @ ''Line '' @ itoa (int (length ls)) @ '' deleted.'' @ nl)) (return_io (False, False, butlast ls)))
      else if cmd = CHR ''C'' then
        bind_io (session_yesNo ''Clear the whole message?'' False) (\<lambda>wipe. return_io (False, False, if wipe then [] else ls))
      else then_io (box ''Editor'' editorHelp) (return_io (False, False, ls)))"

text \<open>One round of the editor's loop.\<close>

definition editor_round :: "int \<Rightarrow> string list \<times> rune list \<Rightarrow> ((string list \<times> rune list) + (string \<times> bool), caller) io" where
  "editor_round w st = (case st of (ls, carry) \<Rightarrow>
     then_io (print ('' '' @ colBorder @ pad_left 3 (itoa (int (length ls) + 1)) @ '':'' @ colLabel @ '' ''))
       (bind_io (readLine (lineOpts0\<lparr>lo_max := w, lo_wrap := True, lo_init := carry\<rparr>)) (\<lambda>(line, rest).
          with_s (\<lambda>s. case (if rest = [] then editorCommand (sv_upper (c_srv s)) line else None) of
              Some cmd \<Rightarrow> bind_io (editorAction cmd ls) (\<lambda>(over, keep, ls').
                if over then leave_with (join nl ls', keep) else return_io (Inl (ls', rest)))
            | None \<Rightarrow>
                if maxEditorLines \<le> length ls
                then then_io (print (colAlert @ ''The message is full ('' @ itoa (int maxEditorLines) @ '' lines). Use /S to send.'' @ nl))
                       (return_io (Inl (ls, [])))
                else return_io (Inl (ls @ [line], rest))))))"

text \<open>The text, and whether it is to be sent.\<close>

definition editor :: "string list \<Rightarrow> (string \<times> bool, caller) io" where
  "editor start = with_s (\<lambda>s. then_io (box ''Editor'' editorHelp) (then_io (listEditorLines start)
     (repeat_io (editor_round (editorWidth (width s))) (start, []))))"

section \<open>It runs\<close>

lemma sound_rule [run_rules]: "sound (may_panic rule_line)"
proof (rule sound_terminal, rule t_may)
  fix s :: caller assume "t_ok s"
  then show "\<exists>h. rule_line s = Some h" using width_ok [of s] by (simp add: rule_line_def Repeat_def)
qed

lemma sound_listEditorLines [run_rules]: "sound (listEditorLines ls)"
  unfolding listEditorLines_def by (intro run_rules)

lemma sound_editorAction [run_rules]: "sound (editorAction cmd ls)"
  unfolding editorAction_def Let_def by (intro run_rules)

lemma sound_editor_round [run_rules]: "sound (editor_round w st)"
  unfolding editor_round_def by (intro run_rules)

lemma eager_editor_round: "eager_loop (editor_round w st)"
  unfolding editor_round_def by (intro eats_pair screen.eats_then screen.eats_first eat_rules run_rules)

lemma sound_editor [run_rules]: "sound (editor start)"
  unfolding editor_def by (intro run_rules eager_editor_round)

section \<open>What it hands over\<close>

lemma editorAction_result:
  assumes "editorAction cmd ls s = (Done (over, keep, ls'), t)"
  shows "length ls' \<le> length ls" "keep \<Longrightarrow> over \<and> ls' = ls \<and> trim_space (join nl ls) \<noteq> [] \<and> length (join nl ls) \<le> MaxBodyBytes"
  using assms
  by (auto simp: editorAction_def Let_def then_io_def bind_io_Done return_io_def split: if_splits)

end
