(* ===== verification/Bbs_Mail.thy ===== *)
theory Bbs_Mail
  imports Bbs_Editor
begin

text \<open>
  \<open>internal/bbs/compose.go\<close> and \<open>mail.go\<close>, with the list of handles of \<open>menu.go\<close> and the e-mailed copy of
  \<open>email.go\<close>: writing, delivering, listing, searching and reading private mail. Reading a message can open
  its thread, which is read by the same screen: the depth of that recursion is a number, and
  the keys the caller has still to type bound it.
\<close>

section \<open>Recipients (compose.go)\<close>

definition maxQuoteLines :: nat where "maxQuoteLines = 20"
definition maxRecipients :: nat where "maxRecipients = 10"
definition maxRecipientLine :: int where "maxRecipientLine = 200"
definition everyoneKeyword :: string where "everyoneKeyword = ''all''"

definition recipientPrompt :: string where
  "recipientPrompt = '' |03To      |08(handles, comma separated '' @ dot @ '' |15?|08 = list '' @ dot @ '' Enter = cancel)|08: |15''"

record draft =
  dr_to :: "user list"
  dr_subject :: string
  dr_replyTo :: int
  dr_quote :: "string list"

definition no_draft :: draft where
  "no_draft = \<lparr>dr_to = [], dr_subject = [], dr_replyTo = 0, dr_quote = []\<rparr>"

definition handles_text :: "user list \<Rightarrow> string" where
  "handles_text us = join '', '' (map u_handle us)"

definition allSysops :: "user list \<Rightarrow> bool" where
  "allSysops us \<longleftrightarrow> list_all u_sysop us"

text \<open>The loop of \<open>resolveRecipients\<close> over the typed handles: the accounts found, each once, and the unknown handles.\<close>

fun resolve_loop :: "store_env \<Rightarrow> db \<Rightarrow> string list \<Rightarrow> user list \<Rightarrow> string list \<Rightarrow> user list \<times> string list" where
  "resolve_loop E d [] us unknown = (us, unknown)"
| "resolve_loop E d (h # hs) us unknown =
     (let h = trim_space h
      in if h = [] then resolve_loop E d hs us unknown
         else case UserByHandle E d h of
             Inl _ \<Rightarrow> resolve_loop E d hs us (unknown @ [h])
           | Inr u \<Rightarrow> resolve_loop E d hs (if u_id u \<in> u_id ` set us then us else us @ [u]) unknown)"

text \<open>The recipients, and what is wrong when the second component is not empty.\<close>

definition resolveRecipients :: "string \<Rightarrow> caller \<Rightarrow> user list \<times> string" where
  "resolveRecipients line s =
     (if sql_lower (trim_space line) = everyoneKeyword then
        (if \<not> u_sysop (c_user s) then ([], ''Only sysops can mail everyone.'')
         else (filter (\<lambda>u. u_id u \<noteq> me s) (Users (database s)), []))
      else let (us, unknown) = resolve_loop (env s) (database s) (split_on CHR '','' line) [] []
           in if unknown \<noteq> [] then ([], ''Nobody here goes by '' @ join '', '' unknown @ ''.'')
              else if \<not> u_validated (c_user s) \<and> \<not> allSysops us
              then ([], ''Until a sysop approves your account, you can only mail the sysop.'')
              else if us = [] then ([], ''Who should get it?'')
              else if maxRecipients < length us \<and> \<not> u_sysop (c_user s)
              then ([], ''At most '' @ itoa (int maxRecipients) @ '' recipients per message.'')
              else (us, []))"

text \<open>\<open>compactUserList\<close> of \<open>menu.go\<close>: four handles a row.\<close>

definition userColumns :: nat where "userColumns = 4"
definition pickerListMax :: int where "pickerListMax = 200"

fun user_rows :: "nat \<Rightarrow> string \<Rightarrow> string list \<Rightarrow> string list" where
  "user_rows i line [] = []"
| "user_rows i line (c # cs) =
     (let line = line @ c
      in if (i + 1) mod userColumns = 0 \<or> cs = [] then line # user_rows (i + 1) [] cs else user_rows (i + 1) line cs)"

definition compactUserList :: "(unit, caller) io" where
  "compactUserList = with_s (\<lambda>s.
     let colW = nat (inner (width s) div int userColumns)
     in box ''Members'' (user_rows 0 [] (map (\<lambda>u. colHandle @ safe (Pad (u_handle u) colW)) (ListUsers (database s) pickerListMax))))"

text \<open>The empty list when the caller gives up, or when there is nobody to write to.\<close>

definition pickRecipients :: "(user list, caller) io" where
  "pickRecipients = repeat_io (\<lambda>_. bind_io (prompt recipientPrompt maxRecipientLine) (\<lambda>line.
     if line = [] then leave_with []
     else if line = ''?'' then and_again compactUserList
     else with_s (\<lambda>s. let (us, problem) = resolveRecipients line s
       in if problem = [] then leave_with us else and_again (print (colAlert @ safe problem @ nl))))) ()"

section \<open>Writing and delivering (compose.go)\<close>

definition at_mail :: limiter_at where "at_mail = (lm_mail, lm_mail_update)"
definition at_emailExport :: limiter_at where "at_emailExport = (lm_emailExport, lm_emailExport_update)"

definition failureReason :: "error \<Rightarrow> string" where
  "failureReason e = (if userFacing e then error_text e else ''could not be delivered.'')"

text \<open>What happens when a message has been stored: the recipient is told, on line and by e-mail.\<close>

definition announce :: "user \<Rightarrow> message \<Rightarrow> caller \<Rightarrow> caller" where
  "announce u m s =
     (let (n, t) = notify (u_id u) (''New mail from '' @ u_handle (c_user s) @ '': '' @ m_subject m) (sv_nodes (c_srv s))
      in on_server (emailNewMail (s_now s) u (u_handle (c_user s)) m (0 < n)) (on_nodes (\<lambda>_. t) s))"

definition send_letter :: "user \<Rightarrow> string \<Rightarrow> string \<Rightarrow> int \<Rightarrow> (bool, caller) io" where
  "send_letter u subject body replyTo = bind_io (with_s (\<lambda>s. store_op (\<lambda>E. SendMessage E (me s) (u_id u) subject body replyTo))) (\<lambda>r.
     case r of
       Inl e \<Rightarrow> then_io (print (nl @ colAlert @ safe (u_handle u) @ '': '' @ safe (failureReason e))) (return_io False)
     | Inr m \<Rightarrow> then_io (effect (announce u m)) (return_io True))"

text \<open>The loop of \<open>deliver\<close>; the result is the handles it was sent to.\<close>

fun deliver_loop :: "string \<Rightarrow> string \<Rightarrow> int \<Rightarrow> user list \<Rightarrow> string list \<Rightarrow> (string list, caller) io" where
  "deliver_loop subject body replyTo [] sent = return_io sent"
| "deliver_loop subject body replyTo (u # us) sent = bind_io (held_back at_mail) (\<lambda>b.
     if b then then_io (print (nl @ colAlert @ ''You'' @ apostrophe @ ''ve sent a lot of mail lately. The rest was not sent; try again later.'' @ nl)) (return_io sent)
     else then_io (with_s (\<lambda>s. if u_sysop (c_user s) then return_io () else count_hit at_mail))
       (bind_io (send_letter u subject body replyTo) (\<lambda>ok.
          deliver_loop subject body replyTo us (if ok then sent @ [u_handle u] else sent))))"

definition deliver :: "user list \<Rightarrow> string \<Rightarrow> string \<Rightarrow> int \<Rightarrow> (unit, caller) io" where
  "deliver us subject body replyTo = bind_io (deliver_loop subject body replyTo us []) (\<lambda>sent.
     if length sent = 1 then print (nl @ colOK @ ''Message sent to '' @ colBright @ safe (hd sent) @ colOK @ ''.'' @ nl)
     else if 1 < length sent then print (nl @ colOK @ ''Message sent to '' @ itoa (int (length sent)) @ '' callers.'' @ nl)
     else return_io ())"

definition askSubject :: "string \<Rightarrow> (string, caller) io" where
  "askSubject def = bind_io
     (prompt (if def = [] then '' |03Subject |08: |15'' else '' |03Subject |08[|07'' @ safe def @ ''|08]: |15'') (int MaxSubjectLen)) (\<lambda>subj.
       return_io (if subj = [] then def else subj))"

definition compose_to :: "draft \<Rightarrow> user list \<Rightarrow> (unit, caller) io" where
  "compose_to d us = bind_io (askSubject (dr_subject d)) (\<lambda>subject.
     if subject = [] then tell (colDim @ ''Cancelled.'')
     else bind_io (editor (dr_quote d)) (\<lambda>(body, ok).
       if \<not> ok then tell (nl @ colDim @ ''Message discarded.'')
       else then_io (deliver us subject body (dr_replyTo d)) pause))"

definition compose :: "draft \<Rightarrow> (unit, caller) io" where
  "compose d = then_io (session_setActivity ''Writing mail'') (then_io (screen_header ''New Message'') (then_io (print nl)
     (if dr_to d = []
      then bind_io pickRecipients (\<lambda>us. if us = [] then return_io () else compose_to d us)
      else then_io (print ('' '' @ colInfo @ ''To      '' @ colDim @ '': '' @ colBright @ safe (handles_text (dr_to d)) @ nl)) (compose_to d (dr_to d)))))"

text \<open>Adds the prefix once.\<close>

definition prefixed :: "caller \<Rightarrow> string \<Rightarrow> string \<Rightarrow> string" where
  "prefixed s p subject =
     (let lo = to_lower (se_lower (env s))
      in if prefix (lo p) (lo subject) then subject else Truncate (p @ subject) MaxSubjectLen)"

definition quoteLines :: "caller \<Rightarrow> string \<Rightarrow> nanos \<Rightarrow> string \<Rightarrow> int \<Rightarrow> string list" where
  "quoteLines s author time body w =
     (let ls = Wrap body (nat w)
      in (''On '' @ short s time @ '', '' @ author @ '' wrote:'') # map (\<lambda>ln. ''> '' @ ln) (take maxQuoteLines ls) @
         (if maxQuoteLines < length ls then [''> [...]''] else []) @ [[]])"

definition reply :: "message \<Rightarrow> (unit, caller) io" where
  "reply m = with_s (\<lambda>s. case UserByID (database s) (m_from m) of
       Inl _ \<Rightarrow> tell (colAlert @ ''That caller no longer exists.'')
     | Inr from \<Rightarrow> bind_io (session_yesNo ''Quote the original message?'' True) (\<lambda>quote. with_s (\<lambda>s.
         compose \<lparr>dr_to = [from], dr_subject = prefixed s ''Re: '' (m_subject m), dr_replyTo = m_id m,
           dr_quote = (if quote then quoteLines s (u_handle from) (m_sent m) (m_body m) (editorWidth (width s) - 2) else [])\<rparr>)))"

definition forward_lines :: "message \<Rightarrow> caller \<Rightarrow> string list" where
  "forward_lines m s =
     [''----- Forwarded message -----'', ''From: '' @ handleOf s (m_from m), ''To:   '' @ handleOf s (m_to m),
      ''Date: '' @ long s (m_sent m), ''Subj: '' @ m_subject m, []] @
     Wrap (m_body m) (nat (editorWidth (width s))) @ [''-----------------------------'', []]"

definition forward :: "message \<Rightarrow> (unit, caller) io" where
  "forward m = with_s (\<lambda>s. compose (no_draft\<lparr>dr_subject := prefixed s ''Fwd: '' (m_subject m), dr_quote := forward_lines m s\<rparr>))"

section \<open>A copy by e-mail (email.go)\<close>

definition send_email :: "Email \<Rightarrow> (bool, caller) io" where
  "send_email m s = (let (r, sv) = sendEmail m (c_srv s) in (Done (case r of Inr _ \<Rightarrow> True | Inl _ \<Rightarrow> False), s\<lparr>c_srv := sv\<rparr>))"

definition emailMeCopy :: "message \<Rightarrow> (unit, caller) io" where
  "emailMeCopy m = then_io refreshUser (with_s (\<lambda>s.
     if u_email (c_user s) = [] then tell (colAlert @ ''Add and verify an email address in Settings first.'')
     else bind_io (is_blocked at_emailExport (userKey (me s))) (\<lambda>b.
       if b then tell (colAlert @ ''That'' @ apostrophe @ ''s plenty of email for now. Try again later.'')
       else then_io (count_hit at_emailExport)
         (bind_io (send_email \<lparr>em_To = u_email (c_user s), em_Subject = ''['' @ sv_name (c_srv s) @ ''] '' @ m_subject m,
             em_Body = ''From: '' @ handleOf s (m_from m) @ nl @ ''To: '' @ handleOf s (m_to m) @ nl @ ''Date: '' @ long s (m_sent m) @ nl @ nl @
               m_body m @ replyFooter\<rparr>) (\<lambda>ok.
           if \<not> ok then tell (colAlert @ ''The mail system is busy. Try again in a few minutes.'')
           else tell (colOK @ ''On its way to '' @ safe (u_email (c_user s)) @ ''.''))))))"

section \<open>Lists (mail.go)\<close>

datatype mailView = viewInbox | viewOutbox | viewMixed

definition check_mark :: string where "check_mark = of_runes [0x221A]"
definition from_mark :: string where "from_mark = of_runes [0xAB]"
definition colKey :: string where "colKey = ''|14''"

definition countUnread :: "message list \<Rightarrow> nat" where
  "countUnread ms = length (filter (\<lambda>m. \<not> IsRead m) ms)"

definition mail_row :: "caller \<Rightarrow> mailView \<Rightarrow> nat \<Rightarrow> nat \<times> message \<Rightarrow> string" where
  "mail_row s view subjW im = (case im of (i, m) \<Rightarrow>
     let sent = (m_from m = me s \<and> m_to m \<noteq> me s);
         other = (if sent then m_to m else m_from m);
         dir = (if view \<noteq> viewMixed then [] else if sent then prompt_mark @ '' '' else from_mark @ '' '');
         (mark, subjColor) = (if \<not> sent \<and> \<not> IsRead m then ('' '' @ colAlert @ ''*'' @ colLabel @ ''  '', colBright)
           else if sent \<and> view = viewOutbox \<and> IsRead m then ('' '' @ colOK @ check_mark @ colLabel @ ''  '', colLabel)
           else (''    '', colLabel))
     in colValue @ pad_left 4 (itoa (int i + 1)) @ mark @ colHandle @ safe (Pad (dir @ handleOf s other) 16) @ '' '' @
        subjColor @ safe (Pad (m_subject m) subjW) @ '' '' @ colInfo @ short s (m_sent m))"

definition mail_heading :: "caller \<Rightarrow> mailView \<Rightarrow> nat \<Rightarrow> string" where
  "mail_heading s view subjW = colDim @ pad_left 4 ''#'' @ ''    '' @
     Pad (case view of viewInbox \<Rightarrow> ''From'' | viewOutbox \<Rightarrow> ''To'' | viewMixed \<Rightarrow> ''With'') 16 @ '' '' @ Pad ''Subject'' subjW @ '' Date''"

text \<open>\<open>mailListing\<close>: the heading, then a row for each message.\<close>

definition mailListing :: "caller \<Rightarrow> mailView \<Rightarrow> message list \<Rightarrow> string \<times> string list" where
  "mailListing s view ms =
     (let subjW = nat (max (inner (width s) - 32) 10)
      in (mail_heading s view subjW, map (mail_row s view subjW) (enumerate 0 ms)))"

definition fld :: "string \<Rightarrow> string \<Rightarrow> string \<Rightarrow> letter_field" where
  "fld l v c = \<lparr>lf_label = l, lf_value = v, lf_color = c\<rparr>"

definition mailLetter :: "caller \<Rightarrow> string \<Rightarrow> message \<Rightarrow> letter" where
  "mailLetter s title m = \<lparr>lt_title = title,
     lt_fields = [fld ''From'' (handleOf s (m_from m)) colBright, fld ''To'' (handleOf s (m_to m)) colBright,
       fld ''Date'' (long s (m_sent m)) colLabel, fld ''Subj'' (m_subject m) colKey] @
       (if m_from m = me s \<and> m_to m \<noteq> me s then [fld ''Read'' (if IsRead m then long s (m_read m) else ''not yet'') colOK] else []),
     lt_body = m_body m\<rparr>"

definition place :: "string \<Rightarrow> int \<Rightarrow> nat \<Rightarrow> string" where
  "place title idx n = title @ '' '' @ dot @ '' '' @ itoa (idx + 1) @ '' of '' @ itoa (int n)"

section \<open>Reading (mail.go)\<close>

definition deleteMail :: "message \<Rightarrow> (bool, caller) io" where
  "deleteMail m = bind_io (session_yesNo ''Delete this message?'' False) (\<lambda>ok. if \<not> ok then return_io False
     else bind_io (with_s (\<lambda>s. store_op (\<lambda>_. DeleteMessage (m_id m) (me s)))) (\<lambda>r. case r of
         Inl e \<Rightarrow> then_io (reportError e) (return_io False)
       | Inr _ \<Rightarrow> return_io True))"

text \<open>The list without the entry at \<open>idx\<close>, and the index that is shown next.\<close>

definition drop_entry :: "'a list \<Rightarrow> int \<Rightarrow> 'a list \<times> int" where
  "drop_entry xs idx = (let ys = take (nat idx) xs @ drop (nat idx + 1) xs in (ys, min idx (int (length ys) - 1)))"

definition mark_mail_read :: "message \<Rightarrow> (unit, caller) io" where
  "mark_mail_read m = with_s (\<lambda>s. if m_to m = me s \<and> \<not> IsRead m
     then bind_io (with_s (\<lambda>s. store_op (\<lambda>E. MarkRead E (m_id m) (me s)))) (\<lambda>_. return_io ()) else return_io ())"

definition mail_words :: "caller \<Rightarrow> message \<Rightarrow> string list" where
  "mail_words s m = (if m_to m = me s then [''Reply''] else []) @ [''Forward'', ''Thread'', ''Next'', ''Prev'', ''Delete''] @
     (if emailEnabled (c_srv s) then [''Email me'', ''Quit''] else [''Quit''])"

text \<open>\<open>readThread\<close>, where \<open>again_at\<close> reads a list of messages.\<close>

definition readThread :: "(string \<Rightarrow> message list \<Rightarrow> int \<Rightarrow> (unit, caller) io) \<Rightarrow> message \<Rightarrow> (unit, caller) io" where
  "readThread again_at m = with_s (\<lambda>s. case Thread (database s) (m_id m) (me s) of
       Inl e \<Rightarrow> reportError e
     | Inr thread \<Rightarrow> if length thread < 2 then tell (colDim @ ''This message is the whole conversation.'')
         else let i = length (takeWhile (\<lambda>t. m_id t \<noteq> m_id m) thread)
              in again_at ''Thread'' thread (if i < length thread then int i else 0))"

definition mail_key ::
    "(string \<Rightarrow> message list \<Rightarrow> int \<Rightarrow> (unit, caller) io) \<Rightarrow> rune \<Rightarrow> message list \<Rightarrow> int \<Rightarrow> message \<Rightarrow> ((message list \<times> int) + unit, caller) io" where
  "mail_key again_at k ms idx m =
     (let stay = (\<lambda>op. then_io op (return_io (Inl (ms, idx))))
      in if k = byte_val CHR ''N'' \<or> k = keyEnter then return_io (Inl (ms, idx + 1))
         else if k = byte_val CHR ''P'' then return_io (Inl (ms, max (idx - 1) 0))
         else if k = byte_val CHR ''R'' then stay (reply m)
         else if k = byte_val CHR ''F'' then stay (forward m)
         else if k = byte_val CHR ''T'' then stay (readThread again_at m)
         else if k = byte_val CHR ''E'' then stay (emailMeCopy m)
         else if k = byte_val CHR ''D'' then bind_io (deleteMail m) (\<lambda>gone. return_io (Inl (if gone then drop_entry ms idx else (ms, idx))))
         else leave_with ())"

definition read_round ::
    "(string \<Rightarrow> message list \<Rightarrow> int \<Rightarrow> (unit, caller) io) \<Rightarrow> string \<Rightarrow> message list \<times> int \<Rightarrow> ((message list \<times> int) + unit, caller) io" where
  "read_round again_at title st = (case st of (ms, idx) \<Rightarrow>
     if idx < 0 \<or> int (length ms) \<le> idx then leave_with ()
     else let m = ms ! nat idx
          in then_io (mark_mail_read m)
               (then_io (with_s (\<lambda>s. session_letter (mailLetter s (place title idx (length ms)) m)))
                 (bind_io (with_s (\<lambda>s. actionPrompt CR1 (mail_words s m))) (\<lambda>k. mail_key again_at k ms idx m))))"

text \<open>Threads may be opened \<open>n\<close> deep; each one takes a key.\<close>

fun readMail_at :: "nat \<Rightarrow> string \<Rightarrow> message list \<Rightarrow> int \<Rightarrow> (unit, caller) io" where
  "readMail_at 0 title ms idx = (\<lambda>s. (Fail Spins, s))"
| "readMail_at (Suc n) title ms idx = repeat_io (read_round (readMail_at n) title) (ms, idx)"

definition readMail :: "string \<Rightarrow> message list \<Rightarrow> int \<Rightarrow> (unit, caller) io" where
  "readMail title ms idx = with_s (\<lambda>s. readMail_at (Suc (length (s_in s))) title ms idx)"

definition browseMail :: "string \<Rightarrow> mailView \<Rightarrow> (caller \<Rightarrow> message list) \<Rightarrow> (unit, caller) io" where
  "browseMail title view load = repeat_io (\<lambda>_. then_io (session_setActivity ''Reading mail'') (with_s (\<lambda>s.
     let ms = load s
     in then_io (screen_header title)
          (if ms = [] then and_leave (then_io (session_table ''Messages'' [] [] ''Nothing here yet.'') pause)
           else then_io (with_s (\<lambda>s. let (h, rows) = mailListing s view ms in session_table (plural (int (length ms)) ''message'') h rows []))
             (then_io (if view = viewOutbox then print ('' '' @ colOK @ check_mark @ colDim @ '' read by the recipient'' @ nl) else return_io ())
               (bind_io (pickNumber (length ms) ''Read message'') (\<lambda>pick. case pick of
                   None \<Rightarrow> leave_with ()
                 | Some n \<Rightarrow> and_again (readMail title ms (int n - 1))))))))) ()"

definition readNewMail :: "(unit, caller) io" where
  "readNewMail = with_s (\<lambda>s. let unread = filter (\<lambda>m. \<not> IsRead m) (Inbox (database s) (me s))
     in if unread = [] then tell (nl @ colDim @ ''No new mail.'') else readMail ''New mail'' unread 0)"

definition searchMail :: "(unit, caller) io" where
  "searchMail = bind_io (prompt (nl @ ''|07Search for |08(words, subject or handle)|07: |15'') (int MaxSubjectLen)) (\<lambda>q.
     if q = [] then return_io ()
     else with_s (\<lambda>s. if SearchMail (env s) (database s) (me s) q = []
       then tell (colDim @ ''No messages match '' @ quoted (c_srv s) (safe q) @ ''.'')
       else browseMail (''Search: '' @ q) viewMixed (\<lambda>s. SearchMail (env s) (database s) (me s) q)))"

definition item :: "char \<Rightarrow> string \<Rightarrow> string \<Rightarrow> menuItem" where
  "item k l n = \<lparr>mi_key = byte_val k, mi_label = l, mi_note = n\<rparr>"

definition mail_menu_items :: "message list \<Rightarrow> menuItem list" where
  "mail_menu_items inbox =
     [item CHR ''N'' ''Read new mail'' (if 0 < countUnread inbox then colAlert @ ''('' @ itoa (int (countUnread inbox)) @ '' new)'' else colDim @ ''(none)''),
      item CHR ''I'' ''Inbox'' (colDim @ ''('' @ plural (int (length inbox)) ''message'' @ '')''),
      item CHR ''S'' ''Send a message'' [],
      item CHR ''O'' ''Outbox'' (colDim @ ''(sent mail, read receipts)''),
      item CHR ''F'' ''Find'' (colDim @ ''(search your mail)''),
      item CHR ''Q'' ''Back to main menu'' []]"

definition mailMenu :: "(unit, caller) io" where
  "mailMenu = repeat_io (\<lambda>_. then_io (session_setActivity ''Mailbox'') (with_s (\<lambda>s.
     let inbox = Inbox (database s) (me s)
     in then_io (screen_header ''Mailbox'') (then_io (print nl) (then_io (menu ''Mail'' (mail_menu_items inbox))
          (bind_io (menuPrompt ''Mail'' ''NISOFQ'') (\<lambda>k.
             if k = byte_val CHR ''N'' then and_again readNewMail
             else if k = byte_val CHR ''I'' then and_again (browseMail ''Inbox'' viewInbox (\<lambda>s. Inbox (database s) (me s)))
             else if k = byte_val CHR ''O'' then and_again (browseMail ''Outbox'' viewOutbox (\<lambda>s. Outbox (database s) (me s)))
             else if k = byte_val CHR ''S'' then and_again (compose no_draft)
             else if k = byte_val CHR ''F'' then and_again searchMail
             else leave_with ()))))))) ()"

section \<open>They run\<close>

lemma sound_compactUserList [run_rules]: "sound compactUserList"
  unfolding compactUserList_def Let_def by (intro run_rules)

lemma sound_pickRecipients [run_rules]: "sound pickRecipients"
  unfolding pickRecipients_def Let_def by (intro run_rules screen.eats_first eat_rules)

lemma acts_well_emailNewMail: "acts_well (\<lambda>s. on_server (emailNewMail (s_now s) u h m b) s)"
proof -
  have "sv_env (emailNewMail now u h m b sv) = sv_env sv \<and> sv_db (emailNewMail now u h m b sv) = sv_db sv" for now sv
    by (auto simp: emailNewMail_def limited_email_def limit_blocked_def limit_hit_def sendEmail_def Let_def
        split: prod.splits option.splits)
  then show ?thesis by (simp add: acts_well_def on_server_def me_def database_def)
qed

lemma acts_well_announce: "acts_well (announce u m)"
proof -
  have *: "announce u m s = on_server (emailNewMail (s_now s) u (u_handle (c_user s)) m b) (on_nodes g s)"
    if "notify (u_id u) (''New mail from '' @ u_handle (c_user s) @ '': '' @ m_subject m) (sv_nodes (c_srv s)) = (n, t)" "b = (0 < n)" "g = (\<lambda>_. t)"
    for s b g n t using that by (simp add: announce_def)
  show ?thesis unfolding acts_well_def
  proof (intro allI impI)
    fix s assume s: "good s"
    obtain n t where nt: "notify (u_id u) (''New mail from '' @ u_handle (c_user s) @ '': '' @ m_subject m) (sv_nodes (c_srv s)) = (n, t)" by fastforce
    note eq = * [OF nt refl refl]
    have "acts_well (\<lambda>x. on_server (emailNewMail (s_now x) u (u_handle (c_user s)) m (0 < n)) (on_nodes (\<lambda>_. t) x))"
      using acts_well_comp [OF acts_well_emailNewMail acts_well_nodes(1)] by (simp add: on_nodes_def on_server_def)
    from this [unfolded acts_well_def, rule_format, OF s]
    show "s_in (announce u m s) = s_in s \<and> s_rend (announce u m s) = s_rend s \<and> s_width (announce u m s) = s_width s \<and>
       me (announce u m s) = me s \<and> sv_env (c_srv (announce u m s)) = sv_env (c_srv s) \<and>
       (acts_as (me s))\<^sup>*\<^sup>* (database s) (database (announce u m s))"
      unfolding eq by (simp add: on_nodes_def on_server_def)
  qed
qed

lemma sound_send_letter [run_rules]: "sound (send_letter u subject body replyTo)"
  unfolding send_letter_def
  by (intro run_rules acts_well_announce sound_store [where f = "\<lambda>i E. SendMessage E i (u_id u) subject body replyTo"] acts_as.send)

lemma sound_deliver_loop [run_rules]: "sound (deliver_loop subject body replyTo us sent)"
  by (induction us arbitrary: sent) (simp_all only: deliver_loop.simps, (intro run_rules; assumption?)+)

lemma sound_deliver [run_rules]: "sound (deliver us subject body replyTo)"
  unfolding deliver_def by (intro run_rules)

lemma sound_askSubject [run_rules]: "sound (askSubject d)"
  unfolding askSubject_def by (intro run_rules)

lemma sound_compose [run_rules]: "sound (compose_to d us)" "sound (compose d)"
proof -
  show to: "sound (compose_to d us)" for us unfolding compose_to_def by (intro run_rules)
  show "sound (compose d)" unfolding compose_def by (intro run_rules to)
qed

lemma sound_reply [run_rules]: "sound (reply m)" "sound (forward m)"
  unfolding reply_def forward_def by (intro run_rules)+

lemma sound_send_email [run_rules]: "sound (send_email m)"
proof (rule runsI)
  fix s q t assume s: "good s" "send_email m s = (q, t)"
  have "sv_env (snd (sendEmail m sv)) = sv_env sv \<and> sv_db (snd (sendEmail m sv)) = sv_db sv" for sv
    by (auto simp: sendEmail_def split: option.splits prod.splits)
  then have "acts_well (on_server (\<lambda>sv. snd (sendEmail m sv)))" by (rule acts_well_server)
  then show "good t \<and> goes_on s t \<and> q \<noteq> Panicked \<and> q \<noteq> Fail Spins"
    using s acts_wellD [of _ s] by (fastforce simp: send_email_def on_server_def split: prod.splits)
qed

lemma sound_emailMeCopy [run_rules]: "sound (emailMeCopy m)"
  unfolding emailMeCopy_def by (intro run_rules)

lemma sound_deleteMail [run_rules]: "sound (deleteMail m)"
  unfolding deleteMail_def
  by (intro run_rules sound_store [where f = "\<lambda>i _. DeleteMessage (m_id m) i"] acts_as.delete_message)

lemma sound_mark_mail_read [run_rules]: "sound (mark_mail_read m)"
  unfolding mark_mail_read_def
  by (intro run_rules sound_store [where f = "\<lambda>i E. MarkRead E (m_id m) i"] acts_as.mark_read)

text \<open>With fewer than \<open>n\<close> bytes to come.\<close>

abbreviation good_below :: "nat \<Rightarrow> caller \<Rightarrow> bool" where
  "good_below n s \<equiv> good s \<and> length (s_in s) < n"

interpretation below: calls goes_on "good_below n" for n
  by unfold_locales (auto simp: goes_on_def)

lemma sound_below: "sound m \<Longrightarrow> runs (good_below n) goes_on m"
  unfolding runs_def by (metis goes_on_def order_le_less_trans)

lemma sound_of_below: "(\<And>n. runs (good_below n) goes_on (f n)) \<Longrightarrow> sound (with_s (\<lambda>s. f (Suc (length (s_in s)))))"
  unfolding runs_def with_s_def by (metis lessI)

lemma runs_fed:
  assumes m: "sound m" "eager m" and k: "\<And>x. runs (good_below n) goes_on (k x)"
  shows "runs (good_below (Suc n)) goes_on (bind_io m k)"
proof (rule runsI)
  fix s q t assume s: "good_below (Suc n) s" "bind_io m k s = (q, t)"
  obtain p u where p: "m s = (p, u)" by fastforce
  note u = runsD [OF m(1) s(1) [THEN conjunct1] p]
  show "good_below (Suc n) t \<and> goes_on s t \<and> q \<noteq> Panicked \<and> q \<noteq> Fail Spins"
  proof (cases p)
    case (Done x)
    have "length (s_in u) < length (s_in s)" using eatsD [OF m(2) s(1) [THEN conjunct1] p [unfolded Done]] by simp
    then have "good_below n u" using u s(1) by simp
    from runsD [OF k this] show ?thesis
      using s(2) p Done u screen.trans [of s u t] by (auto simp: bind_io_def less_Suc_eq)
  next
    case (Fail e)
    then show ?thesis using s p u screen.reads [of s u] by (auto simp: bind_io_def)
  next
    case Panicked
    then show ?thesis using u by simp
  qed
qed

lemma eats_fed:
  assumes m: "sound m" "eager m" and k: "\<And>x. runs (good_below n) goes_on (k x)"
  shows "eats (good_below (Suc n)) s_in P (bind_io m k)"
  unfolding eats_def bind_io_Done
proof (intro allI impI)
  fix s x t assume s: "good_below (Suc n) s" and "\<exists>y u. m s = (Done y, u) \<and> k y u = (Done x, t)"
  then obtain y u where u: "m s = (Done y, u)" "k y u = (Done x, t)" by blast
  have len: "length (s_in u) < length (s_in s)" using eatsD [OF m(2) s [THEN conjunct1] u(1)] by simp
  then have "good_below n u" using runsD [OF m(1) s [THEN conjunct1] u(1)] s by simp
  from runsD [OF k this u(2)] len screen.reads [of u t] show "length (s_in t) < length (s_in s)" by linarith
qed

lemma readMail_at_runs: "runs (good_below n) goes_on (readMail_at n title ms idx)"
proof (induction n arbitrary: title ms idx)
  case 0
  show ?case by (simp add: runs_def)
next
  case (Suc n)
  let ?again = "readMail_at n"
  have thread: "runs (good_below n) goes_on (readThread ?again m)" for m
    unfolding readThread_def Let_def
    by (intro below.runs_with runs_cases Suc.IH sound_below run_rules)
  have key: "runs (good_below n) goes_on (mail_key ?again k ms idx m)" for k ms idx m
    unfolding mail_key_def Let_def
    by (intro runs_if below.runs_then below.runs_return thread below.runs_leave_with below.runs_bind; (rule sound_below, intro run_rules)?)
  have ask: "sound (with_s (\<lambda>s. actionPrompt CR1 (mail_words s m)))" "eager (with_s (\<lambda>s. actionPrompt CR1 (mail_words s m)))" for m
    by (intro run_rules, intro eat_rules)
  have letter: "runs (good_below (Suc n)) goes_on (mark_mail_read m)"
    "runs (good_below (Suc n)) goes_on (with_s (\<lambda>s. session_letter (f s)))" for m f
    by (rule sound_below, intro run_rules)+
  have run: "runs (good_below (Suc n)) goes_on (read_round ?again t st)" for t st
    unfolding read_round_def Let_def
    by (intro runs_pair runs_if below.runs_leave_with below.runs_then letter runs_fed ask key)
  have eat: "eats (good_below (Suc n)) s_in round_again (read_round ?again t st)" for t st
    unfolding read_round_def Let_def
    by (intro eats_pair eats_if below.eats_leave below.eats_then letter eats_fed ask key)
  show ?case unfolding readMail_at.simps by (intro below.runs_repeat run eat)
qed

lemma sound_readMail [run_rules]: "sound (readMail title ms idx)"
  unfolding readMail_def by (rule sound_of_below) (rule readMail_at_runs)

lemma sound_browseMail [run_rules]: "sound (browseMail title view load)"
  unfolding browseMail_def Let_def by (intro run_rules screen.eats_first eat_rules)

lemma sound_mail_screens [run_rules]: "sound readNewMail" "sound searchMail"
  unfolding readNewMail_def searchMail_def Let_def by (intro run_rules)+

lemma sound_mailMenu [run_rules]: "sound mailMenu"
  unfolding mailMenu_def Let_def by (intro run_rules screen.eats_first eat_rules)

end
