(* ===== verification/Bbs_Community.thy ===== *)
theory Bbs_Community
  imports Bbs_Mail Go_Path
begin

text \<open>
  \<open>internal/bbs/community.go\<close> and the lists of \<open>menu.go\<close>: who is on line, members, last callers, paging,
  the news and the oneliner wall.
\<close>

section \<open>Lists (menu.go)\<close>

definition lastCallerCount :: int where "lastCallerCount = 15"
definition userListMax :: int where "userListMax = 1000"

definition who_row :: "caller \<Rightarrow> NodeInfo \<Rightarrow> string" where
  "who_row s n = colBright @ pad_left 4 (itoa (ni_ID n)) @ (if ni_Secure n then colOK @ dot else '' '') @ '' '' @
     colHandle @ safe (Pad (if ni_Handle n = [] then ''(logging in)'' else ni_Handle n) 18) @ '' '' @
     colLabel @ safe (Pad (ni_Location n) 16) @ '' '' @ colInfo @ safe (Pad (ni_Activity n) 20) @ '' '' @
     colDim @ shortDuration (s_now s - ni_Since n)"

definition showWho :: "(unit, caller) io" where
  "showWho = with_s (\<lambda>s.
     let on = online (sv_nodes (c_srv s))
     in then_io (session_table (plural (int (length on)) ''caller'' @ '' online'')
           (''Node  '' @ Pad ''Handle'' 18 @ '' '' @ Pad ''Location'' 16 @ '' '' @ Pad ''Doing'' 20 @ '' On'')
           (map (who_row s) on) (''Nobody'' @ apostrophe @ ''s here.''))
         (print ('' '' @ colOK @ dot @ colDim @ '' connected over SSH'' @ nl)))"

definition whoOnline :: "(unit, caller) io" where
  "whoOnline = then_io (session_setActivity (''Who'' @ apostrophe @ ''s online'')) (then_io (screen_header (''Who'' @ apostrophe @ ''s Online'')) (then_io showWho pause))"

definition lastCall :: "caller \<Rightarrow> nanos \<Rightarrow> string" where
  "lastCall s t = (if t = 0 then ''never'' else short s t)"

definition user_row_text :: "caller \<Rightarrow> user \<Rightarrow> string" where
  "user_row_text s u = (if u_sysop u then colSysop @ ''*'' else '' '') @ colHandle @ safe (Pad (u_handle u) 20) @ '' '' @
     colLabel @ safe (Pad (u_location u) 22) @ '' '' @ colInfo @ Pad (lastCall s (u_last_login u)) 12 @ '' '' @
     colValue @ pad_left 5 (itoa (u_calls u))"

definition userList :: "(unit, caller) io" where
  "userList = then_io (session_setActivity ''User list'') (then_io (screen_header ''User List'') (with_s (\<lambda>s.
     let us = ListUsers (database s) userListMax
     in then_io (session_table (plural (int (length us)) ''member'')
           ('' '' @ Pad ''Handle'' 20 @ '' '' @ Pad ''Location'' 22 @ '' '' @ Pad ''Last call'' 12 @ '' Calls'')
           (map (user_row_text s) us) ''No members yet.'')
         (tell ('' '' @ colSysop @ ''*'' @ colDim @ '' sysop'')))))"

definition lastCallers :: "(unit, caller) io" where
  "lastCallers = then_io (session_setActivity ''Last callers'') (then_io (screen_header ''Last Callers'') (with_s (\<lambda>s.
     let es = Events (database s) EventLogin lastCallerCount;
         row = (\<lambda>e. colHandle @ safe (Pad (e_handle e) 20) @ '' '' @ colInfo @ Pad (ago (sv_tz (c_srv s)) (s_now s) (e_at e)) 12 @ '' '' @ colDim @ safe (e_detail e))
     in then_io (session_table ''Recent calls'' (Pad ''Handle'' 20 @ '' '' @ Pad ''When'' 12 @ '' How'') (map row es) ''Nobody has called yet.'') pause)))"

section \<open>Paging (community.go)\<close>

definition maxPageLen :: int where "maxPageLen = 70"
definition at_pages :: limiter_at where "at_pages = (lm_pages, lm_pages_update)"
definition at_oneliners :: limiter_at where "at_oneliners = (lm_oneliners, lm_oneliners_update)"

definition findOnline :: "string \<Rightarrow> caller \<Rightarrow> NodeInfo option" where
  "findOnline target s = find (\<lambda>n. ni_UserID n \<noteq> 0 \<and>
       (atoi target = Some (ni_ID n) \<or> equal_fold (sv_fold (c_srv s)) (ni_Handle n) target)) (online (sv_nodes (c_srv s)))"

definition page_text :: "NodeInfo \<Rightarrow> (unit, caller) io" where
  "page_text n = bind_io (prompt ''|07Message|08: |15'' maxPageLen) (\<lambda>msg.
     if msg = [] then return_io ()
     else then_io (count_hit at_pages)
       (then_io (with_s (\<lambda>s. effect (on_nodes (\<lambda>t. snd (notify (ni_UserID n) (''Page from '' @ u_handle (c_user s) @ '': '' @ StripControl msg) t)))))
         (tell (colOK @ ''Paged '' @ safe (ni_Handle n) @ ''. They'' @ apostrophe @ ''ll see it at their next prompt, or right away in chat.''))))"

definition page_target :: "NodeInfo \<Rightarrow> (unit, caller) io" where
  "page_target n = with_s (\<lambda>s.
     if ni_UserID n = me s then tell (colDim @ ''Talking to yourself? Try the oneliner wall.'')
     else if isBlocked (database s) (ni_UserID n) (me s) \<and> \<not> u_sysop (c_user s)
     then tell (colAlert @ safe (ni_Handle n) @ '' isn'' @ apostrophe @ ''t accepting pages from you.'')
     else bind_io (held_back at_pages) (\<lambda>b. if b then tell (colAlert @ ''Easy on the pager. Try again in a minute.'') else page_text n))"

definition pageSomeone :: "(unit, caller) io" where
  "pageSomeone = then_io (session_setActivity ''Paging'') (then_io (screen_header ''Page Someone'') (then_io showWho
     (bind_io (prompt ''|07Page who |08(handle or node #, Enter = cancel)|07: |15'' (int MaxHandleLen)) (\<lambda>target.
        if target = [] then return_io ()
        else with_s (\<lambda>s. case findOnline target s of
            None \<Rightarrow> tell (colAlert @ safe target @ '' isn'' @ apostrophe @ ''t online.'')
          | Some n \<Rightarrow> page_target n)))))"

section \<open>News and the wall (community.go)\<close>

definition wallAtLogin :: int where "wallAtLogin = 8"
definition wallFull :: int where "wallFull = 15"
definition onelinerAuthorPad :: nat where "onelinerAuthorPad = 14"

definition bulletin_row :: "caller \<Rightarrow> nat \<times> bulletin \<Rightarrow> string" where
  "bulletin_row s ib = (case ib of (i, b) \<Rightarrow>
     colValue @ pad_left 4 (itoa (int i + 1)) @ ''  '' @ colInfo @ Pad (short s (bu_at b)) 7 @ '' '' @
     colBright @ safe (Pad (bu_title b) 45) @ '' '' @ colDim @ safe (handleOf s (bu_author b)))"

definition bulletinTable :: "bulletin list \<Rightarrow> string \<Rightarrow> (unit, caller) io" where
  "bulletinTable bs none = with_s (\<lambda>s. session_table (plural (int (length bs)) ''bulletin'')
     (pad_left 4 ''#'' @ ''  '' @ Pad ''Date'' 7 @ '' '' @ Pad ''Title'' 45 @ '' By'') (map (bulletin_row s) (enumerate 0 bs)) none)"

definition bulletin_letter :: "bulletin \<Rightarrow> caller \<Rightarrow> letter" where
  "bulletin_letter b s = \<lparr>lt_title = ''News'', lt_fields = [fld ''From'' (handleOf s (bu_author b)) colBright,
     fld ''Date'' (long s (bu_at b)) colLabel, fld ''Subj'' (bu_title b) colKey], lt_body = bu_body b\<rparr>"

definition news :: "(unit, caller) io" where
  "news = repeat_io (\<lambda>_. then_io (session_setActivity ''Reading news'') (with_s (\<lambda>s.
     let bs = Bulletins (database s)
     in then_io (screen_header ''News'') (then_io (bulletinTable bs ''No news is good news.'')
          (if bs = [] then and_leave pause
           else bind_io (pickNumber (length bs) ''Read bulletin'') (\<lambda>pick. case pick of
               None \<Rightarrow> leave_with ()
             | Some n \<Rightarrow> and_again (then_io (with_s (\<lambda>s. session_letter (bulletin_letter (bs ! (n - 1)) s))) pause))))))) ()"

definition wall_row :: "oneliner \<Rightarrow> string" where
  "wall_row w = colHandle @ safe (Pad (if o_handle w = [] then ''(gone)'' else o_handle w) onelinerAuthorPad) @ '' '' @
     colBorder @ sV @ '' '' @ colLabel @ safe (o_text w)"

definition write_wall :: "(unit, caller) io" where
  "write_wall = bind_io (held_back at_oneliners) (\<lambda>b.
     if b then tell (colAlert @ ''You'' @ apostrophe @ ''ve written on the wall enough for now.'')
     else bind_io (prompt ('' '' @ colBorder @ prompt_mark @ '' '' @ colBright) (int MaxOnelinerLen)) (\<lambda>text.
       if text = [] then return_io ()
       else bind_io (with_s (\<lambda>s. store_op (\<lambda>E. AddOneliner E (me s) text))) (\<lambda>r. case r of
           Inl e \<Rightarrow> reportError e
         | Inr _ \<Rightarrow> count_hit at_oneliners)))"

definition onelinerWall :: "bool \<Rightarrow> (unit, caller) io" where
  "onelinerWall atLogin = then_io (session_setActivity ''Oneliner wall'') (with_s (\<lambda>s.
     let ws = Oneliners (database s) (if atLogin then wallAtLogin else wallFull)
     in then_io (screen_header ''Oneliner Wall'')
          (then_io (session_table ''What callers are saying'' [] (map wall_row ws) ''The wall is empty. Leave the first mark!'')
            (then_io (print nl) (with_s (\<lambda>s.
               if \<not> u_validated (c_user s) then pause
               else bind_io (session_yesNo ''Add a oneliner?'' (\<not> atLogin)) (\<lambda>add. if add then write_wall else return_io ())))))))"

section \<open>They run\<close>

lemma sound_lists [run_rules]: "sound showWho" "sound whoOnline" "sound userList" "sound lastCallers"
proof -
  show w: "sound showWho" unfolding showWho_def Let_def by (intro run_rules)
  show "sound whoOnline" unfolding whoOnline_def by (intro run_rules w)
qed (unfold userList_def lastCallers_def Let_def, (intro run_rules)+)

lemma sound_paging [run_rules]: "sound (page_text n)" "sound (page_target n)" "sound pageSomeone"
proof -
  show t: "sound (page_text n)" for n unfolding page_text_def by (intro run_rules)
  show p: "sound (page_target n)" for n unfolding page_target_def by (intro run_rules t)
  show "sound pageSomeone" unfolding pageSomeone_def by (intro run_rules p)
qed

lemma sound_bulletinTable [run_rules]: "sound (bulletinTable bs none)"
  unfolding bulletinTable_def by (intro run_rules)

lemma sound_news [run_rules]: "sound news"
  unfolding news_def Let_def by (intro run_rules screen.eats_first eat_rules)

lemma sound_wall [run_rules]: "sound write_wall" "sound (onelinerWall b)"
proof -
  show w: "sound write_wall"
    unfolding write_wall_def
    by (intro run_rules sound_store [where f = "\<lambda>i E. AddOneliner E i t" for t] acts_as.oneliner)
  show "sound (onelinerWall b)" unfolding onelinerWall_def Let_def by (intro run_rules w)
qed

end
