(* ===== verification/Bbs_Boards.thy ===== *)
theory Bbs_Boards
  imports Bbs_Community
begin

text \<open>
  \<open>internal/bbs/boards.go\<close>: the message boards on the screen: listing, reading, the scan for new posts, writing,
  answering and deleting. A loop over posts gives whether the caller quit before the end.
\<close>

section \<open>Writing (boards.go)\<close>

record draftPost =
  dp_subject :: string
  dp_replyTo :: int
  dp_quote :: "string list"

definition at_posts :: limiter_at where "at_posts = (lm_posts, lm_posts_update)"

definition post_body :: "board \<Rightarrow> draftPost \<Rightarrow> string \<Rightarrow> (unit, caller) io" where
  "post_body b d subject = bind_io (editor (dp_quote d)) (\<lambda>(body, ok).
     if \<not> ok then tell (nl @ colDim @ ''Post discarded.'')
     else bind_io (with_s (\<lambda>s. store_op (\<lambda>E. AddPost E (b_id b) (me s) subject body (dp_replyTo d)))) (\<lambda>r. case r of
         Inl e \<Rightarrow> reportError e
       | Inr _ \<Rightarrow> then_io (count_hit at_posts) (tell (nl @ colOK @ ''Posted to '' @ safe (b_name b) @ ''.''))))"

definition writePost :: "board \<Rightarrow> draftPost \<Rightarrow> (unit, caller) io" where
  "writePost b d = bind_io (awaitingApproval ''Posting'') (\<lambda>stop. if stop then return_io () else with_s (\<lambda>s.
     if b_sysop_only b \<and> \<not> u_sysop (c_user s) then tell (colAlert @ ''Only the sysop posts on '' @ safe (b_name b) @ ''.'')
     else bind_io (held_back at_posts) (\<lambda>held.
       if held then tell (colAlert @ ''You'' @ apostrophe @ ''ve posted a lot lately. Take a breather and try again later.'')
       else then_io (session_setActivity (''Posting on '' @ b_name b)) (then_io (screen_header (''Post to '' @ b_name b)) (then_io (print nl)
         (bind_io (askSubject (dp_subject d)) (\<lambda>subject. if subject = [] then return_io () else post_body b d subject)))))))"

definition replyPost :: "board \<Rightarrow> post \<Rightarrow> (unit, caller) io" where
  "replyPost b p = bind_io (session_yesNo ''Quote the post?'' True) (\<lambda>quote. with_s (\<lambda>s.
     writePost b \<lparr>dp_subject = prefixed s ''Re: '' (p_subject p), dp_replyTo = p_id p,
       dp_quote = (if quote then quoteLines s (handleOf s (p_author p)) (p_at p) (p_body p) (editorWidth (width s) - 2) else [])\<rparr>))"

definition mailAuthor :: "post \<Rightarrow> (unit, caller) io" where
  "mailAuthor p = with_s (\<lambda>s. case UserByID (database s) (p_author p) of
       Inl e \<Rightarrow> if e = ErrNotFound then tell (colAlert @ ''That caller no longer exists.'') else fail_with e
     | Inr author \<Rightarrow> compose (no_draft\<lparr>dr_to := [author], dr_subject := prefixed s ''Re: '' (p_subject p)\<rparr>))"

definition deletePost :: "post \<Rightarrow> (bool, caller) io" where
  "deletePost p = bind_io (session_yesNo ''Delete this post for everyone?'' False) (\<lambda>ok. if \<not> ok then return_io False
     else bind_io (with_s (\<lambda>s. store_op (\<lambda>_. DeletePost (p_id p) (me s)))) (\<lambda>r. case r of
         Inl e \<Rightarrow> then_io (reportError e) (return_io False)
       | Inr _ \<Rightarrow> return_io True))"

section \<open>Reading (boards.go)\<close>

definition unreadPosts :: "post list \<Rightarrow> int \<Rightarrow> int \<Rightarrow> post list" where
  "unreadPosts ps lastRead u = filter (\<lambda>p. lastRead < p_id p \<and> p_author p \<noteq> u) ps"

definition post_row :: "caller \<Rightarrow> int \<Rightarrow> nat \<Rightarrow> nat \<times> post \<Rightarrow> string" where
  "post_row s lastRead subjW ip = (case ip of (i, p) \<Rightarrow>
     let (mark, subjColor) = (if lastRead < p_id p \<and> p_author p \<noteq> me s then ('' '' @ colAlert @ ''*'' @ colLabel @ ''  '', colBright) else (''    '', colLabel));
         subject = (if p_reply_to p \<noteq> 0 then ''  '' else []) @ p_subject p
     in colValue @ pad_left 4 (itoa (int i + 1)) @ mark @ colHandle @ safe (Pad (handleOf s (p_author p)) 16) @ '' '' @
        subjColor @ safe (Pad subject subjW) @ '' '' @ colInfo @ short s (p_at p))"

definition postListing :: "caller \<Rightarrow> post list \<Rightarrow> int \<Rightarrow> string \<times> string list" where
  "postListing s ps lastRead =
     (let subjW = nat (max (inner (width s) - 32) 10)
      in (colDim @ pad_left 4 ''#'' @ ''    '' @ Pad ''Author'' 16 @ '' '' @ Pad ''Subject'' subjW @ '' Date'',
          map (post_row s lastRead subjW) (enumerate 0 ps)))"

definition post_letter :: "board \<Rightarrow> post \<Rightarrow> string \<Rightarrow> caller \<Rightarrow> letter" where
  "post_letter b p title s = \<lparr>lt_title = title, lt_fields = [fld ''By'' (handleOf s (p_author p)) colBright,
     fld ''Date'' (long s (p_at p)) colLabel, fld ''Subj'' (p_subject p) colKey], lt_body = p_body p\<rparr>"

definition post_words :: "caller \<Rightarrow> post \<Rightarrow> string list" where
  "post_words s p = [''Reply'', ''Mail author'', ''Next'', ''Prev''] @
     (if p_author p = me s \<or> u_sysop (c_user s) then [''Delete''] else []) @ [''Quit'']"

definition post_key :: "board \<Rightarrow> rune \<Rightarrow> post list \<Rightarrow> int \<Rightarrow> post \<Rightarrow> ((post list \<times> int) + bool, caller) io" where
  "post_key b k ps idx p =
     (let stay = (\<lambda>op. then_io op (return_io (Inl (ps, idx))))
      in if k = byte_val CHR ''N'' \<or> k = keyEnter then return_io (Inl (ps, idx + 1))
         else if k = byte_val CHR ''P'' then return_io (Inl (ps, max (idx - 1) 0))
         else if k = byte_val CHR ''R'' then stay (replyPost b p)
         else if k = byte_val CHR ''M'' then stay (mailAuthor p)
         else if k = byte_val CHR ''D'' then bind_io (deletePost p) (\<lambda>gone. return_io (Inl (if gone then drop_entry ps idx else (ps, idx))))
         else leave_with True)"

definition mark_post_read :: "board \<Rightarrow> post \<Rightarrow> (unit, caller) io" where
  "mark_post_read b p = bind_io (with_s (\<lambda>s. store_op (\<lambda>_. MarkBoardRead (me s) (b_id b) (p_id p)))) (\<lambda>_. return_io ())"

definition post_round :: "board \<Rightarrow> post list \<times> int \<Rightarrow> ((post list \<times> int) + bool, caller) io" where
  "post_round b st = (case st of (ps, idx) \<Rightarrow>
     if idx < 0 \<or> int (length ps) \<le> idx then leave_with False
     else let p = ps ! nat idx
          in then_io (mark_post_read b p)
               (then_io (with_s (\<lambda>s. session_letter (post_letter b p (place (b_name b) idx (length ps)) s)))
                 (bind_io (with_s (\<lambda>s. actionPrompt CR1 (post_words s p))) (\<lambda>k. post_key b k ps idx p))))"

text \<open>\<open>readPostsWith\<close>: whether the caller quit before the end.\<close>

definition readPostsWith :: "board \<Rightarrow> post list \<Rightarrow> int \<Rightarrow> (bool, caller) io" where
  "readPostsWith b ps idx = repeat_io (post_round b) (ps, idx)"

definition readPosts :: "board \<Rightarrow> post list \<Rightarrow> int \<Rightarrow> (unit, caller) io" where
  "readPosts b ps idx = (if ps = [] then tell (colDim @ ''Nothing unread here.'')
     else bind_io (readPostsWith b ps idx) (\<lambda>_. return_io ()))"

text \<open>The loop of \<open>newScan\<close>: whether something was found, or \<open>None\<close> when the caller quit.\<close>

fun newScan_loop :: "board_summary list \<Rightarrow> bool \<Rightarrow> (bool option, caller) io" where
  "newScan_loop [] found = return_io (Some found)"
| "newScan_loop (b # bs) found =
     (if bs_new b = 0 then newScan_loop bs found
      else with_s (\<lambda>s.
        let i = b_id (bs_board b);
            unread = unreadPosts (Posts (database s) i) (LastRead (database s) (me s) i) (me s)
        in if unread = [] then newScan_loop bs found
           else bind_io (readPostsWith (bs_board b) unread 0) (\<lambda>stop. if stop then return_io None else newScan_loop bs True)))"

definition newScan :: "board_summary list \<Rightarrow> (unit, caller) io" where
  "newScan bs = bind_io (newScan_loop bs False) (\<lambda>r. case r of
       None \<Rightarrow> return_io ()
     | Some found \<Rightarrow> if found then return_io () else tell (colDim @ ''Nothing new on the boards.''))"

section \<open>Boards (boards.go)\<close>

definition boardView :: "board \<Rightarrow> (unit, caller) io" where
  "boardView b = repeat_io (\<lambda>_. then_io (session_setActivity (''Reading '' @ b_name b)) (with_s (\<lambda>s.
     let ps = Posts (database s) (b_id b);
         lastRead = LastRead (database s) (me s) (b_id b);
         title = b_name b @ (if b_desc b \<noteq> [] then '' '' @ dot @ '' '' @ b_desc b else [])
     in then_io (screen_header (b_name b))
          (then_io (with_s (\<lambda>s. let (h, rows) = postListing s ps lastRead in session_table title h rows ''No posts yet. Be the first: press P.''))
            (bind_io (prompt (nl @ '' |07Read # |08(|15P|08 = new post, |15N|08 = next unread, Enter = back) '' @ colBorder @ prompt_mark @ '' |15'') 4) (\<lambda>ans.
               with_s (\<lambda>s. let key = to_upper (sv_upper (c_srv s)) ans in
                 if ans = [] then leave_with ()
                 else if key = ''P'' then and_again (writePost b \<lparr>dp_subject = [], dp_replyTo = 0, dp_quote = []\<rparr>)
                 else if key = ''N'' then and_again (readPosts b (unreadPosts ps lastRead (me s)) 0)
                 else case chosen ans ps of
                     None \<Rightarrow> and_again (tell (colAlert @ ''No such post.''))
                   | Some i \<Rightarrow> and_again (readPosts b ps (int i))))))))) ()"

definition board_row_text :: "nat \<times> board_summary \<Rightarrow> string" where
  "board_row_text ib = (case ib of (i, b) \<Rightarrow>
     colValue @ pad_left 4 (itoa (int i + 1)) @ '' '' @ (if b_sysop_only (bs_board b) then colSysop @ ''*'' else '' '') @ colHandle @
     safe (Pad (b_name (bs_board b)) 22) @ '' '' @
     fit (colLabel @ itoa (int (bs_posts b)) @ (if 0 < bs_new b then '' '' @ colAlert @ ''('' @ itoa (int (bs_new b)) @ '' new)'' else [])) 12 @ '' '' @
     colDim @ safe (b_desc (bs_board b)))"

definition boardsMenu :: "(unit, caller) io" where
  "boardsMenu = repeat_io (\<lambda>_. then_io (session_setActivity ''Message boards'') (with_s (\<lambda>s.
     let bs = Boards (database s) (me s)
     in then_io (screen_header ''Message Boards'')
          (then_io (session_table (plural (int (length bs)) ''board'')
              (pad_left 4 ''#'' @ ''  '' @ Pad ''Board'' 22 @ '' '' @ Pad ''Posts'' 12 @ '' About'') (map board_row_text (enumerate 0 bs)) ''No boards yet.'')
            (then_io (print ('' '' @ colSysop @ ''*'' @ colDim @ '' only the sysop posts here'' @ nl))
              (bind_io (prompt (nl @ '' |07Board # |08(|15N|08 = read all '' @ itoa (int (sum_list (map bs_new bs))) @ '' new, Enter = back) '' @ colBorder @ prompt_mark @ '' |15'') 4) (\<lambda>ans.
                 if ans = [] then leave_with ()
                 else if sql_lower ans = ''n'' then and_again (newScan bs)
                 else case chosen ans bs of
                     None \<Rightarrow> and_again (tell (colAlert @ ''No such board.''))
                   | Some i \<Rightarrow> and_again (boardView (bs_board (bs ! i)))))))))) ()"

section \<open>They run\<close>

lemma sound_posting [run_rules]: "sound (post_body b d subject)" "sound (writePost b d)" "sound (replyPost b p)"
proof -
  show t: "sound (post_body b d subject)" for d subject unfolding post_body_def
    by (intro run_rules sound_store [where f = "\<lambda>i E. AddPost E (b_id b) i subject t (dp_replyTo d)" for t] acts_as.add_post)
  show w: "sound (writePost b d)" for d unfolding writePost_def by (intro run_rules t)
  show "sound (replyPost b p)" unfolding replyPost_def by (intro run_rules w)
qed

lemma sound_mailAuthor [run_rules]: "sound (mailAuthor p)"
  unfolding mailAuthor_def by (intro run_rules)

lemma sound_deletePost [run_rules]: "sound (deletePost p)"
  unfolding deletePost_def
  by (intro run_rules sound_store [where f = "\<lambda>i _. DeletePost (p_id p) i"] acts_as.delete_post)

lemma sound_mark_post_read [run_rules]: "sound (mark_post_read b p)"
  unfolding mark_post_read_def
  by (intro run_rules sound_store [where f = "\<lambda>i _. MarkBoardRead i (b_id b) (p_id p)"] acts_as.mark_board)

lemma sound_post_key [run_rules]: "sound (post_key b k ps idx p)"
  unfolding post_key_def Let_def by (intro run_rules)

lemma sound_readPosts [run_rules]: "sound (readPostsWith b ps idx)" "sound (readPosts b ps idx)"
proof -
  have "sound (post_round b st)" for st unfolding post_round_def Let_def by (intro run_rules)
  moreover have "eager_loop (post_round b st)" for st unfolding post_round_def Let_def
    by (intro eats_pair eats_if screen.eats_leave screen.eats_then screen.eats_first eat_rules run_rules)
  ultimately show w: "sound (readPostsWith b ps idx)" for ps idx
    unfolding readPostsWith_def by (intro run_rules)
  show "sound (readPosts b ps idx)" unfolding readPosts_def by (intro run_rules w)
qed

lemma sound_newScan_loop [run_rules]: "sound (newScan_loop bs found)"
  by (induction bs arbitrary: found) (simp_all only: newScan_loop.simps Let_def, (intro run_rules; assumption?)+)

lemma sound_newScan [run_rules]: "sound (newScan bs)"
  unfolding newScan_def by (intro run_rules)

lemma sound_boards [run_rules]: "sound (boardView b)" "sound boardsMenu"
proof -
  show v: "sound (boardView b)" for b unfolding boardView_def Let_def by (intro run_rules screen.eats_first eat_rules)
  show "sound boardsMenu" unfolding boardsMenu_def Let_def by (intro run_rules screen.eats_first eat_rules v)
qed

end
