(* ===== verification/Bbs_Settings.thy ===== *)
theory Bbs_Settings
  imports Bbs_Boards
begin

text \<open>
  \<open>internal/bbs/settings.go\<close>, the settings of \<open>email.go\<close>, and \<open>sshkeys.go\<close>: password, location, terminal, blocks,
  e-mail address and SSH keys of the caller's own account.
\<close>

section \<open>Account (settings.go)\<close>

text \<open>A call of the store whose result becomes the session's user.\<close>

definition user_op :: "(store_env \<Rightarrow> int \<Rightarrow> db \<Rightarrow> (error + user) \<times> db) \<Rightarrow> (error + user, caller) io" where
  "user_op f = with_s (\<lambda>s. bind_io (store_op (\<lambda>E. f E (me s))) (\<lambda>r. case r of
       Inl e \<Rightarrow> return_io (Inl e)
     | Inr u \<Rightarrow> then_io (effect (\<lambda>s. s\<lparr>c_user := u\<rparr>)) (return_io (Inr u))))"

text \<open>\<open>None\<close> after telling the caller that the two differ.\<close>

definition askPasswordTwice :: "string \<Rightarrow> (string option, caller) io" where
  "askPasswordTwice label = bind_io (promptSecret (''|07'' @ label @ ''|08: |15'') (int MaxPasswordLen)) (\<lambda>p1.
     bind_io (promptSecret (''|07'' @ label @ '' again|08: |15'') (int MaxPasswordLen)) (\<lambda>p2.
       if p1 \<noteq> p2 then then_io (tell (colAlert @ ''Passwords don'' @ apostrophe @ ''t match.'')) (return_io None)
       else return_io (Some p1)))"

definition changePassword :: "(unit, caller) io" where
  "changePassword = bind_io (promptSecret (nl @ ''|07Current password|08: |15'') (int MaxPasswordLen)) (\<lambda>cur.
     if cur = [] then return_io ()
     else bind_io (askPasswordTwice ''New password'') (\<lambda>pick. case pick of
         None \<Rightarrow> return_io ()
       | Some p \<Rightarrow> bind_io (with_s (\<lambda>s. store_op (\<lambda>E. ChangePassword E (me s) cur p))) (\<lambda>r. case r of
             Inl e \<Rightarrow> if e = ErrBadCredentials then tell (colAlert @ ''Current password is incorrect.'') else reportError e
           | Inr _ \<Rightarrow> tell (colOK @ ''Password changed.''))))"

definition changeLocation :: "(unit, caller) io" where
  "changeLocation = bind_io (prompt (nl @ ''|07New location|08: |15'') (int MaxLocationLen)) (\<lambda>loc.
     bind_io (user_op (\<lambda>_ i. SetLocation i loc)) (\<lambda>r. case r of
         Inl e \<Rightarrow> reportError e
       | Inr u \<Rightarrow> effect (on_node (setUser u))))"

definition applyBlock :: "bool \<Rightarrow> string \<Rightarrow> (unit, caller) io" where
  "applyBlock block handle = with_s (\<lambda>s. case UserByHandle (env s) (database s) (trim_space handle) of
       Inl e \<Rightarrow> reportError e
     | Inr u \<Rightarrow> bind_io (with_s (\<lambda>s. store_op (\<lambda>_. (if block then Block else Unblock) (me s) (u_id u)))) (\<lambda>r. case r of
           Inl e \<Rightarrow> reportError e
         | Inr _ \<Rightarrow> return_io ()))"

definition block_lines :: "user list \<Rightarrow> string list" where
  "block_lines us = [colDim @ ''Blocked callers can'' @ apostrophe @ ''t mail or page you, and you won'' @ apostrophe @ ''t see them in chat.'', separator] @
     (if us = [] then [colLabel @ ''Nobody is blocked.''] else []) @ map (\<lambda>u. colHandle @ safe (u_handle u)) us"

definition manageBlocks :: "(unit, caller) io" where
  "manageBlocks = repeat_io (\<lambda>_. then_io (screen_header ''Blocked Callers'') (then_io (with_s (\<lambda>s. box ''Blocked'' (block_lines (BlockedUsers (database s) (me s)))))
     (bind_io (actionPrompt [] [''Block'', ''Unblock'', ''Quit'']) (\<lambda>k.
        if k = byte_val CHR ''Q'' then leave_with ()
        else bind_io (prompt '' |07Handle|08: |15'' (int MaxHandleLen)) (\<lambda>h.
          if h = [] then again else and_again (applyBlock (k = byte_val CHR ''B'') h)))))) ()"

section \<open>E-mail (email.go)\<close>

definition at_emailVerify :: limiter_at where "at_emailVerify = (lm_emailVerify, lm_emailVerify_update)"
definition at_emailTarget :: limiter_at where "at_emailTarget = (lm_emailTarget, lm_emailTarget_update)"

definition verifyEmailCode :: "(unit, caller) io" where
  "verifyEmailCode = bind_io (prompt ''|07Code from the email |08(Enter = later)|07: |15'' 10) (\<lambda>secret.
     if secret = [] then return_io ()
     else bind_io (user_op (\<lambda>E i. ConfirmEmail E i secret)) (\<lambda>r. case r of
         Inl e \<Rightarrow> (case e of InputError m \<Rightarrow> tell (colAlert @ safe m) | _ \<Rightarrow> reportError e)
       | Inr _ \<Rightarrow> tell (colOK @ ''Verified! You'' @ apostrophe @ ''ll get a short notice when new mail arrives while you'' @ apostrophe @ ''re away.'')))"

definition code_email :: "caller \<Rightarrow> string \<Rightarrow> string \<Rightarrow> Email" where
  "code_email s addr secret = (let name = sv_name (c_srv s) in
     \<lparr>em_To = trim_space addr, em_Subject = ''Your '' @ name @ '' code: '' @ secret,
      em_Body = ''Someone (hopefully you, '' @ u_handle (c_user s) @ '') asked to use this address on '' @ name @ ''.'' @ nl @ nl @
        ''Your code is '' @ secret @ ''. It works for '' @ itoa (EmailCodeTTL div minute) @ '' minutes.'' @ nl @ nl @
        ''If this wasn'' @ apostrophe @ ''t you, ignore this email and nothing will happen.'' @ replyFooter\<rparr>)"

definition emailTargetKey :: "caller \<Rightarrow> string \<Rightarrow> string" where
  "emailTargetKey s addr = ''email:'' @ to_lower (se_lower (env s)) (trim_space addr)"

definition send_code :: "string \<Rightarrow> (unit, caller) io" where
  "send_code addr = bind_io (with_s (\<lambda>s. store_op (\<lambda>E. StartEmailVerification E (me s) addr))) (\<lambda>r. case r of
       Inl e \<Rightarrow> reportError e
     | Inr secret \<Rightarrow> then_io (count_hit at_emailVerify)
         (then_io (effect (\<lambda>s. record_hit at_emailTarget (emailTargetKey s addr) s))
           (bind_io (with_s (\<lambda>s. send_email (code_email s addr secret))) (\<lambda>ok.
              if \<not> ok then tell (colAlert @ ''The mail system is busy. Try again in a few minutes.'')
              else then_io (print (colOK @ ''A code is on its way to '' @ safe (trim_space addr) @ ''.'' @ nl)) verifyEmailCode))))"

definition setEmailAddress :: "(unit, caller) io" where
  "setEmailAddress = bind_io (prompt (nl @ ''|07Email address|08: |15'') (int MaxEmailLen)) (\<lambda>addr.
     if addr = [] then return_io ()
     else with_s (\<lambda>s. case ValidateEmail (env s) addr of
         Inl e \<Rightarrow> reportError e
       | Inr _ \<Rightarrow> bind_io (is_blocked at_emailVerify (userKey (me s))) (\<lambda>b1.
           bind_io (if b1 then return_io True else is_blocked at_emailTarget (emailTargetKey s addr)) (\<lambda>b2.
             if b2 then tell (colAlert @ ''Enough codes have gone out for now. Try again later.'') else send_code addr))))"

definition chooseEmailMode :: "(unit, caller) io" where
  "chooseEmailMode = then_io (print (nl @ ''  '' @ colBright @ ''1'' @ colLabel @ '') Off'' @ nl @ ''  '' @ colBright @ ''2'' @ colLabel @ '') Notice only '' @
       colDim @ ''(who wrote and the subject, when you'' @ apostrophe @ ''re offline)'' @ nl @ ''  '' @ colBright @ ''3'' @ colLabel @ '') Full copy of each message'' @ nl))
     (then_io (print ''|07Choice|08: |15'') (bind_io (session_choose ''123'') (\<lambda>k.
        bind_io (user_op (\<lambda>_ i. SetEmailMode i (int k - int (byte_val CHR ''1'')))) (\<lambda>r. case r of
            Inl e \<Rightarrow> reportError e
          | Inr _ \<Rightarrow> return_io ()))))"

definition removeEmail :: "(unit, caller) io" where
  "removeEmail = bind_io (session_yesNo ''Forget your email address?'' False) (\<lambda>ok.
     if \<not> ok then return_io ()
     else bind_io (user_op (\<lambda>_ i. RemoveEmail i)) (\<lambda>r. case r of Inl e \<Rightarrow> reportError e | Inr _ \<Rightarrow> return_io ()))"

definition email_lines :: "user \<Rightarrow> string option \<Rightarrow> string list" where
  "email_lines u waiting =
     [colInfo @ ''Address  '' @ colBorder @ '': '' @ (if u_email u \<noteq> [] then colBright @ safe (u_email u) @ colOK @ ''  (verified)'' else colDim @ ''not set'')] @
     (case waiting of None \<Rightarrow> []
      | Some a \<Rightarrow> [colInfo @ ''Waiting  '' @ colBorder @ '': '' @ colValue @ safe a @ '' '' @ colDim @ ''(check your inbox for the code)'']) @
     [colInfo @ ''New mail '' @ colBorder @ '': '' @ colLabel @ EmailMode_String (u_email_mode u), separator,
      colDim @ ''We only email you, and only about mail sent to you here.'', colDim @ ''Other callers never see your address.'']"

definition email_words :: "user \<Rightarrow> string option \<Rightarrow> string list" where
  "email_words u waiting = [''Set address''] @ (if waiting \<noteq> None then [''Verify code''] else []) @
     (if u_email u \<noteq> [] then [''New-mail email'', ''Remove address''] else []) @ [''Quit'']"

definition email_key :: "rune \<Rightarrow> (unit, caller) io" where
  "email_key k =
     (if k = byte_val CHR ''S'' then setEmailAddress
      else if k = byte_val CHR ''V'' then verifyEmailCode
      else if k = byte_val CHR ''N'' then chooseEmailMode
      else if k = byte_val CHR ''R'' then removeEmail
      else return_io ())"

definition emailSettings :: "(unit, caller) io" where
  "emailSettings = repeat_io (\<lambda>_. then_io refreshUser (then_io (screen_header ''Email'') (bind_io (awaitingApproval ''Email'') (\<lambda>stop.
     if stop then leave_with ()
     else with_s (\<lambda>s.
       if \<not> emailEnabled (c_srv s) then and_leave (then_io (print (nl @ ''  '' @ colDim @ ''This BBS has no mail server set up, so email is off.'' @ nl @ nl)) pause)
       else let waiting = PendingEmail (env s) (database s) (me s)
            in then_io (box ''Email'' (email_lines (c_user s) waiting)) (bind_io (keysPrompt [] (email_words (c_user s) waiting)) (\<lambda>k.
                 if k = byte_val CHR ''Q'' then leave_with () else and_again (email_key k)))))))) ()"

section \<open>SSH keys (sshkeys.go)\<close>

definition maxKeyLineLen :: int where "maxKeyLineLen = 2000"
definition minRSABits :: int where "minRSABits = 2048"

definition parseSSHKey :: "(string \<Rightarrow> PublicKey option) \<Rightarrow> string \<Rightarrow> error + PublicKey" where
  "parseSSHKey parse line = (case parse (trim_space line) of
       None \<Rightarrow> Inl (InputError (''That doesn'' @ apostrophe @ ''t look like a public key (it starts with ssh-ed25519, ssh-rsa, ...).''))
     | Some k \<Rightarrow>
         if pk_type k = ''ssh-dss'' then Inl (InputError ''DSA keys are too weak. Use ed25519 instead.'')
         else if pk_type k = ''ssh-rsa'' then (case pk_crypto k of
             None \<Rightarrow> Inl (InputError ''Unreadable RSA key.'')
           | Some None \<Rightarrow> Inl (InputError ''RSA keys must be at least 2048 bits. ed25519 is better still.'')
           | Some (Some bits) \<Rightarrow> if bits < minRSABits then Inl (InputError ''RSA keys must be at least 2048 bits. ed25519 is better still.'') else Inr k)
         else Inr k)"

definition addSSHKey :: "(unit, caller) io" where
  "addSSHKey = bind_io (prompt ''|07Public key|08: |15'' maxKeyLineLen) (\<lambda>line. if line = [] then return_io ()
     else with_s (\<lambda>s. case parseSSHKey (sv_parseKey (c_srv s)) line of
         Inl e \<Rightarrow> reportError e
       | Inr key \<Rightarrow> bind_io (with_s (\<lambda>s. store_op (\<lambda>E. AddSSHKey E (me s) (pk_fingerprint key) (trim_space (pk_authorized key)) (pk_comment key)))) (\<lambda>r. case r of
             Inl e \<Rightarrow> reportError e
           | Inr k \<Rightarrow> with_s (\<lambda>s. tell (colOK @ ''Key added: '' @ safe (Truncate (k_fingerprint k) (nat (width s - 12))))))))"

definition removeSSHKey :: "ssh_key list \<Rightarrow> (unit, caller) io" where
  "removeSSHKey ks = (if ks = [] then return_io ()
     else bind_io (pickNumber (length ks) ''Remove key'') (\<lambda>pick. case pick of
         None \<Rightarrow> return_io ()
       | Some n \<Rightarrow> bind_io (with_s (\<lambda>s. store_op (\<lambda>_. DeleteSSHKey (me s) (k_id (ks ! (n - 1)))))) (\<lambda>r. case r of
             Inl e \<Rightarrow> reportError e
           | Inr _ \<Rightarrow> return_io ())))"

definition key_lines :: "ssh_key list \<Rightarrow> string list" where
  "key_lines ks = [colDim @ ''With a key here, ssh signs you in without a password. Paste the'',
     colDim @ ''contents of '' @ colLabel @ ''~/.ssh/id_ed25519.pub'' @ colDim @ '' (never the private key).'', separator] @
     (if ks = [] then [colLabel @ ''No keys yet.''] else []) @
     map (\<lambda>(i, k). colValue @ itoa (int i + 1) @ ''  '' @ colLabel @ safe (k_fingerprint k) @ '' '' @ colDim @ safe (k_comment k)) (enumerate 0 ks)"

definition manageSSHKeys :: "(unit, caller) io" where
  "manageSSHKeys = repeat_io (\<lambda>_. with_s (\<lambda>s. let ks = SSHKeys (database s) (me s) in
     then_io (screen_header ''SSH Keys'')
       (then_io (box (''Your keys ('' @ itoa (int (length ks)) @ '' of '' @ itoa (int MaxSSHKeys) @ '')'') (key_lines ks))
         (bind_io (actionPrompt [] (if ks = [] then [''Add'', ''Quit''] else [''Add'', ''Remove'', ''Quit''])) (\<lambda>k.
            if k = byte_val CHR ''Q'' then leave_with ()
            else and_again (if k = byte_val CHR ''A'' then addSSHKey else removeSSHKey ks)))))) ()"

section \<open>The menu (settings.go)\<close>

definition emailNote :: "caller \<Rightarrow> string" where
  "emailNote s = (if \<not> emailEnabled (c_srv s) then ''not available''
     else if u_email (c_user s) = [] then ''not set''
     else u_email (c_user s) @ '', '' @ EmailMode_String (u_email_mode (c_user s)))"

definition settings_items :: "caller \<Rightarrow> menuItem list" where
  "settings_items s =
     [item CHR ''P'' ''Change password'' [],
      item CHR ''L'' ''Location'' (colDim @ ''('' @ safe (if u_location (c_user s) = [] then ''not set'' else u_location (c_user s)) @ '')''),
      item CHR ''T'' ''Terminal'' (colDim @ ''('' @ terminalName s @ '')''),
      item CHR ''B'' ''Blocked callers'' (colDim @ ''('' @ plural (int (length (BlockedUsers (database s) (me s)))) ''caller'' @ '')''),
      item CHR ''E'' ''Email'' (colDim @ ''('' @ emailNote s @ '')''),
      item CHR ''K'' ''SSH keys'' (colDim @ ''(sign in without a password)''),
      item CHR ''Q'' ''Back to main menu'' []]"

definition settings_key :: "rune \<Rightarrow> (unit, caller) io" where
  "settings_key k =
     (if k = byte_val CHR ''P'' then changePassword
      else if k = byte_val CHR ''L'' then changeLocation
      else if k = byte_val CHR ''T'' then chooseTerminal None True
      else if k = byte_val CHR ''B'' then manageBlocks
      else if k = byte_val CHR ''E'' then emailSettings
      else if k = byte_val CHR ''K'' then manageSSHKeys
      else return_io ())"

definition settings :: "(unit, caller) io" where
  "settings = repeat_io (\<lambda>_. then_io (session_setActivity ''Settings'') (then_io (screen_header ''Settings'') (then_io (print nl)
     (then_io (with_s (\<lambda>s. menu ''Your account'' (settings_items s)))
       (bind_io (menuPrompt ''Settings'' ''PLTBEKQ'') (\<lambda>k. if k = byte_val CHR ''Q'' then leave_with () else and_again (settings_key k))))))) ()"

section \<open>They run\<close>

lemma sound_user_op:
  assumes acts: "\<And>E i d. fresh_rowids E \<Longrightarrow> acts_as i d (snd (f E i d))" and id: "\<And>E i d u. fst (f E i d) = Inr u \<Longrightarrow> u_id u = i"
  shows "sound (user_op f)"
proof (rule runsI)
  fix s q t assume s: "good s" "user_op f s = (q, t)"
  obtain r d where r: "f (env s) (me s) (database s) = (r, d)" by fastforce
  have "acts_as (me s) (database s) d" using acts [OF good_fresh(2) [OF s(1)], of "me s" "database s"] r by simp
  then show "good t \<and> goes_on s t \<and> q \<noteq> Panicked \<and> q \<noteq> Fail Spins"
    using s r id [of "env s" "me s" "database s"]
    by (cases r) (auto simp: user_op_def with_s_def bind_io_def then_io_def store_op_def effect_def return_io_def on_server_def
        good_def t_ok_def goes_on_def me_def database_def)
qed

lemma sound_askPasswordTwice [run_rules]: "sound (askPasswordTwice label)"
  unfolding askPasswordTwice_def by (intro run_rules)

lemma sound_changePassword [run_rules]: "sound changePassword"
  unfolding changePassword_def
  by (intro run_rules sound_store [where f = "\<lambda>i E. ChangePassword E i c p" for c p] acts_as.change_password)

lemma UserByID_result: "fst (case r of Inl e \<Rightarrow> (Inl e, d) | Inr x \<Rightarrow> (UserByID (g x) i, h x)) = Inr u \<Longrightarrow> u_id u = i"
  by (auto split: sum.splits dest: UserByID_id)

lemma sound_changeLocation [run_rules]: "sound changeLocation"
  unfolding changeLocation_def
  by (intro run_rules sound_user_op acts_as.set_location) (auto simp: SetLocation_def split: prod.splits sum.splits dest: UserByID_id)

lemma sound_applyBlock [run_rules]: "sound (applyBlock block h)"
proof -
  have b: "sound (with_s (\<lambda>s. store_op (\<lambda>_. (if block then Block else Unblock) (me s) i)))" for i
    by (cases block) (simp_all, (intro sound_store [where f = "\<lambda>u _. Block u i"] sound_store [where f = "\<lambda>u _. Unblock u i"] acts_as.block acts_as.unblock)+)
  show ?thesis unfolding applyBlock_def by (intro run_rules b)
qed

lemma sound_manageBlocks [run_rules]: "sound manageBlocks"
  unfolding manageBlocks_def by (intro run_rules screen.eats_first eat_rules)

lemma sound_verifyEmailCode [run_rules]: "sound verifyEmailCode"
proof -
  have other: "sound (case e of InputError m \<Rightarrow> f m | _ \<Rightarrow> g)" if "\<And>m. sound (f m)" "sound g" for e f and g :: "('a, caller) io"
    using that by (cases e) simp_all
  have id: "fst (ConfirmEmail E i c d) = Inr u \<Longrightarrow> u_id u = i" for E i c d u
    by (auto simp: ConfirmEmail_def tx_def Let_def and_then_def getUser_def find_user_def find_Some_iff split: prod.splits sum.splits option.splits if_splits)
  show ?thesis unfolding verifyEmailCode_def
    by (intro run_rules other sound_user_op acts_as.confirm_email) (erule id)
qed

lemma sound_send_code [run_rules]: "sound (send_code addr)"
proof -
  have hit: "acts_well (\<lambda>s. record_hit at_emailTarget (emailTargetKey s addr) s)"
    using acts_well_hit by (auto simp: acts_well_def)
  show ?thesis unfolding send_code_def
    by (intro run_rules hit sound_store [where f = "\<lambda>i E. StartEmailVerification E i addr"] acts_as.start_email)
qed

lemma sound_setEmailAddress [run_rules]: "sound setEmailAddress"
  unfolding setEmailAddress_def by (intro run_rules)

lemma sound_chooseEmailMode [run_rules]: "sound chooseEmailMode"
  unfolding chooseEmailMode_def
  by (intro run_rules sound_user_op acts_as.email_mode) (auto simp: SetEmailMode_def Let_def split: if_splits dest: UserByID_id)

lemma sound_removeEmail [run_rules]: "sound removeEmail"
  unfolding removeEmail_def
  by (intro run_rules sound_user_op acts_as.remove_email) (auto simp: RemoveEmail_def split: prod.splits sum.splits dest: UserByID_id)

lemma sound_emailSettings [run_rules]: "sound emailSettings"
proof -
  have k: "sound (email_key k)" for k unfolding email_key_def by (intro run_rules)
  show ?thesis unfolding emailSettings_def Let_def
    by (rule screen.runs_repeat, intro run_rules k,
        rule screen.eats_then [OF sound_refreshUser screen.eats_then [OF sound_header screen.eats_later [OF sound_awaitingApproval]]],
        intro screen.eats_first eat_rules run_rules k)
qed

lemma sound_keys [run_rules]: "sound addSSHKey" "sound (removeSSHKey ks)" "sound manageSSHKeys"
proof -
  show a: "sound addSSHKey" unfolding addSSHKey_def
    by (intro run_rules sound_store [where f = "\<lambda>i E. AddSSHKey E i (pk_fingerprint k) (trim_space (pk_authorized k)) (pk_comment k)" for k] acts_as.add_key)
  show r: "sound (removeSSHKey ks)" for ks unfolding removeSSHKey_def
    by (intro run_rules sound_store [where f = "\<lambda>i _. DeleteSSHKey i (k_id (ks ! (n - 1)))" for n] acts_as.delete_key)
  show "sound manageSSHKeys" unfolding manageSSHKeys_def Let_def by (intro run_rules screen.eats_first eat_rules a r)
qed

lemma after_effect: "m s = M (f s) \<Longrightarrow> sound (effect f) \<Longrightarrow> sound M \<Longrightarrow> \<exists>m'. sound m' \<and> m s = m' s"
  by (rule exI [of _ "then_io (effect f) M"]) (simp add: screen.runs_then, simp add: then_io_def bind_io_def effect_def)

lemma sound_chooseTerminal [run_rules]: "sound (chooseTerminal tt ask)"
proof -
  have set: "sound (effect (setTerminal cs mode))" for cs mode
    by (rule screen.runs_effect) (simp add: setTerminal_def good_def t_ok_def goes_on_def me_def database_def NewRenderer_inv)
  have pick: "sound (effect (if b1 then setTerminal c1 m1 else if b2 then setTerminal c2 m2 else setTerminal c3 m3))" for b1 b2 c1 c2 c3 m1 m2 m3
    by (simp add: set)
  show ?thesis
  proof (rule sound_eq)
    fix s assume "good s"
    show "\<exists>m'. sound m' \<and> chooseTerminal tt ask s = m' s"
    proof (cases "if ask then None else Option.bind tt detectCharset")
      case None
      show ?thesis unfolding chooseTerminal_def None option.case
        by (rule after_effect [OF refl set [of TermASCII NoColor]]) (intro run_rules pick)
    next
      case (Some p)
      then show ?thesis unfolding chooseTerminal_def
        by (intro exI [of _ "effect (setTerminal (fst p) (snd p))"]) (simp add: set effect_def split: prod.split)
    qed
  qed
qed

lemma sound_settings [run_rules]: "sound settings"
proof -
  have k: "sound (settings_key k)" for k unfolding settings_key_def by (intro run_rules)
  show ?thesis unfolding settings_def by (intro run_rules screen.eats_first eat_rules k)
qed

end
