(* ===== verification/Bbs_Sysop.thy ===== *)
theory Bbs_Sysop
  imports Bbs_Settings
begin

text \<open>
  \<open>internal/bbs/sysop.go\<close>, \<open>sysop_users.go\<close>, the queue of new accounts of \<open>approval.go\<close> and the preview of
  \<open>customart.go\<close>: the sysop's menu on the screen. Each action reloads the account first
  (\<open>stillSysop\<close>); the store checks the actor again.
\<close>

section \<open>Nodes and notices (sysop.go)\<close>

definition eventLogSize :: int where "eventLogSize = 200"
definition sysopOnelinerList :: int where "sysopOnelinerList = 30"

definition sysop_kick_node :: "int \<Rightarrow> (bool, caller) io" where
  "sysop_kick_node i = with_s (\<lambda>s.
     let msg = ''*** You have been disconnected by the sysop. ***''; found = fst (kick i msg (sv_nodes (c_srv s)))
     in then_io (effect (on_nodes (\<lambda>t. snd (kick i msg t)))) (return_io found))"

definition kick_confirmed :: "int \<Rightarrow> (unit, caller) io" where
  "kick_confirmed i = bind_io (session_yesNo (''Disconnect node '' @ itoa i @ ''?'') False) (\<lambda>ok. if \<not> ok then return_io ()
     else bind_io (sysop_kick_node i) (\<lambda>found.
       if \<not> found then tell (colAlert @ ''No such node.'')
       else then_io (audit (''kicked node '' @ itoa i)) (tell (colOK @ ''Node '' @ itoa i @ '' disconnected.''))))"

definition sysopKick :: "(unit, caller) io" where
  "sysopKick = then_io (screen_header ''Kick a Node'') (then_io showWho
     (bind_io (prompt (nl @ ''|07Node # |08(Enter = cancel)|07: |15'') 4) (\<lambda>ans. if ans = [] then return_io ()
        else case atoi ans of
            None \<Rightarrow> tell (colAlert @ ''That'' @ apostrophe @ ''s not a node number.'')
          | Some i \<Rightarrow> with_s (\<lambda>s. if i = c_node s then tell (colAlert @ ''That'' @ apostrophe @ ''s you. Use Goodbye instead.'')
              else kick_confirmed i))))"

definition sysopBroadcast :: "(unit, caller) io" where
  "sysopBroadcast = bind_io (prompt (nl @ ''|07Broadcast |08(Enter = cancel)|07: |15'') (int maxBroadcastLen)) (\<lambda>msg.
     if msg = [] then return_io ()
     else with_s (\<lambda>s. then_io (effect (on_nodes (broadcast (''Sysop '' @ u_handle (c_user s) @ '': '' @ StripControl msg) (c_node s))))
       (then_io (audit (''broadcast '' @ quoted (c_srv s) msg)) (tell (colOK @ ''Sent to everyone online.'')))))"

text \<open>\<open>Format("Jan 02 15:04")\<close>.\<close>

definition log_date :: "caller \<Rightarrow> nanos \<Rightarrow> string" where
  "log_date s t = (let w = local_wall (sv_tz (c_srv s)) t in month_name (wMonth w) @ '' '' @ pad2 (wDay w) @ '' '' @ clock_text (sv_tz (c_srv s)) t)"

definition event_rows :: "caller \<Rightarrow> event \<Rightarrow> string list" where
  "event_rows s e =
     (let color = (if e_kind e = EventLoginFailed \<or> e_kind e = EventLocked then colAlert else if e_kind e = EventSysop then colSysop else colLabel)
      in [colInfo @ Pad (log_date s (e_at e)) 12 @ '' '' @ color @ Pad (e_kind e) 13 @ '' '' @ colHandle @ safe (Pad (e_handle e) 16) @ '' '' @
            colDim @ safe (e_ip e)] @
         (if e_detail e = [] then [] else [colDim @ pad_left 13 [] @ safe (Truncate (e_detail e) (nat (inner (width s) - 13)))]))"

definition sysopEventLog :: "(unit, caller) io" where
  "sysopEventLog = then_io (screen_header ''Event Log'') (with_s (\<lambda>s.
     then_io (session_table ''Newest first'' (Pad ''When'' 12 @ '' '' @ Pad ''What'' 13 @ '' '' @ Pad ''Who'' 16 @ '' From'')
         (concat (map (event_rows s) (Events (database s) [] eventLogSize))) ''Nothing has happened yet.'')
       pause))"

section \<open>Boards, news and wall (sysop.go)\<close>

definition createBoard :: "(unit, caller) io" where
  "createBoard = bind_io (prompt ''|07Board name|08: |15'' (int MaxBoardNameLen)) (\<lambda>name. if name = [] then return_io ()
     else bind_io (prompt ''|07Description|08: |15'' (int MaxBoardDescLen)) (\<lambda>desc.
       bind_io (session_yesNo ''Only sysops may post?'' False) (\<lambda>sysopOnly.
         bind_io (with_s (\<lambda>s. store_op (\<lambda>E. CreateBoard E (me s) name desc sysopOnly))) (\<lambda>r. case r of
             Inl e \<Rightarrow> reportError e
           | Inr b \<Rightarrow> with_s (\<lambda>s. audit (''created board '' @ quoted (c_srv s) (b_name b)))))))"

definition delete_board_sure :: "board \<Rightarrow> nat \<Rightarrow> (unit, caller) io" where
  "delete_board_sure b n = bind_io (session_yesNo (''Delete '' @ safe (b_name b) @ '' and its '' @ plural (int n) ''post'' @ ''?'') False) (\<lambda>sure.
     if \<not> sure then return_io ()
     else bind_io (with_s (\<lambda>s. store_op (\<lambda>_. DeleteBoard (me s) (b_id b)))) (\<lambda>r. case r of
         Inl e \<Rightarrow> reportError e
       | Inr _ \<Rightarrow> with_s (\<lambda>s. audit (''deleted board '' @ quoted (c_srv s) (b_name b)))))"

definition deleteBoard :: "board_summary list \<Rightarrow> (unit, caller) io" where
  "deleteBoard bs = bind_io (pickNumber (length bs) ''Delete board'') (\<lambda>pick. case pick of
       None \<Rightarrow> return_io ()
     | Some n \<Rightarrow> delete_board_sure (bs_board (bs ! (n - 1))) (bs_posts (bs ! (n - 1))))"

text \<open>The round of a list the sysop edits: a key, the check, and the change.\<close>

definition sysop_edit :: "string list \<Rightarrow> (rune \<Rightarrow> (unit, caller) io) \<Rightarrow> (unit + unit, caller) io" where
  "sysop_edit ws act = bind_io (actionPrompt [] ws) (\<lambda>k. if k = byte_val CHR ''Q'' then leave_with ()
     else bind_io stillSysop (\<lambda>ok. if \<not> ok then leave_with () else and_again (act k)))"

definition manage_board_row :: "nat \<times> board_summary \<Rightarrow> string" where
  "manage_board_row ib = (case ib of (i, b) \<Rightarrow>
     colValue @ pad_left 4 (itoa (int i + 1)) @ ''  '' @ colHandle @ safe (Pad (b_name (bs_board b)) 24) @ '' '' @ colLabel @
     Pad (plural (int (bs_posts b)) ''post'') 12 @ '' '' @ (if b_sysop_only (bs_board b) then colSysop @ ''sysops only'' else colDim @ ''everyone''))"

definition sysopBoards :: "(unit, caller) io" where
  "sysopBoards = repeat_io (\<lambda>_. with_s (\<lambda>s. let bs = Boards (database s) (me s) in
     then_io (screen_header ''Manage Boards'')
       (then_io (session_table (plural (int (length bs)) ''board'') (pad_left 4 ''#'' @ ''  '' @ Pad ''Board'' 24 @ '' '' @ Pad ''Posts'' 12 @ '' Who posts'')
           (map manage_board_row (enumerate 0 bs)) ''No boards yet. Press C to create one.'')
         (sysop_edit (if bs = [] then [''Create'', ''Quit''] else [''Create'', ''Delete'', ''Quit''])
           (\<lambda>k. if k = byte_val CHR ''C'' then createBoard else deleteBoard bs))))) ()"

definition addBulletin :: "(unit, caller) io" where
  "addBulletin = bind_io (prompt ''|07Title|08: |15'' (int MaxSubjectLen)) (\<lambda>title. if title = [] then return_io ()
     else bind_io (editor []) (\<lambda>(body, ok). if \<not> ok then return_io ()
       else bind_io (with_s (\<lambda>s. store_op (\<lambda>E. AddBulletin E (me s) title body))) (\<lambda>r. case r of
           Inl e \<Rightarrow> reportError e
         | Inr b \<Rightarrow> with_s (\<lambda>s. then_io (audit (''posted bulletin '' @ quoted (c_srv s) (bu_title b)))
             (effect (on_nodes (broadcast (''News: '' @ bu_title b) (c_node s))))))))"

definition deleteBulletin :: "bulletin list \<Rightarrow> (unit, caller) io" where
  "deleteBulletin bs = bind_io (pickNumber (length bs) ''Delete bulletin'') (\<lambda>pick. case pick of
       None \<Rightarrow> return_io ()
     | Some n \<Rightarrow> bind_io (with_s (\<lambda>s. store_op (\<lambda>_. DeleteBulletin (me s) (bu_id (bs ! (n - 1)))))) (\<lambda>r. case r of
           Inl e \<Rightarrow> reportError e
         | Inr _ \<Rightarrow> with_s (\<lambda>s. audit (''deleted bulletin '' @ quoted (c_srv s) (bu_title (bs ! (n - 1)))))))"

definition sysopNews :: "(unit, caller) io" where
  "sysopNews = repeat_io (\<lambda>_. with_s (\<lambda>s. let bs = Bulletins (database s) in
     then_io (screen_header ''Manage News'') (then_io (bulletinTable bs ''No bulletins yet. Press A to post the first one.'')
       (sysop_edit (if bs = [] then [''Add'', ''Quit''] else [''Add'', ''Delete'', ''Quit''])
         (\<lambda>k. if k = byte_val CHR ''A'' then addBulletin else deleteBulletin bs))))) ()"

definition delete_wall :: "oneliner \<Rightarrow> (unit + unit, caller) io" where
  "delete_wall w = bind_io stillSysop (\<lambda>ok. if \<not> ok then leave_with ()
     else bind_io (with_s (\<lambda>s. store_op (\<lambda>_. DeleteOneliner (me s) (o_id w)))) (\<lambda>r. case r of
         Inl e \<Rightarrow> and_leave (reportError e)
       | Inr _ \<Rightarrow> and_again (with_s (\<lambda>s. audit (''deleted oneliner by '' @ o_handle w @ '': '' @ quoted (c_srv s) (o_text w))))))"

definition manage_wall_row :: "nat \<times> oneliner \<Rightarrow> string" where
  "manage_wall_row iw = (case iw of (i, w) \<Rightarrow>
     colValue @ pad_left 4 (itoa (int i + 1)) @ ''  '' @ colHandle @ safe (Pad (o_handle w) onelinerAuthorPad) @ '' '' @ colLabel @ safe (o_text w))"

definition sysopOneliners :: "(unit, caller) io" where
  "sysopOneliners = repeat_io (\<lambda>_. with_s (\<lambda>s. let ws = Oneliners (database s) sysopOnelinerList in
     then_io (screen_header ''Manage Oneliners'') (then_io (session_table ''The wall'' [] (map manage_wall_row (enumerate 0 ws)) ''The wall is empty.'')
       (if ws = [] then and_leave pause
        else bind_io (pickNumber (length ws) ''Delete oneliner'') (\<lambda>pick. case pick of
            None \<Rightarrow> leave_with ()
          | Some n \<Rightarrow> delete_wall (ws ! (n - 1))))))) ()"

section \<open>Accounts (sysop\_users.go)\<close>

definition approvedText :: "bool \<Rightarrow> string" where
  "approvedText ok = (if ok then colLabel @ ''yes'' else colAlert @ ''NOT YET'')"

definition account_flag :: "bool \<Rightarrow> string \<Rightarrow> string" where
  "account_flag on yes = (if on then colAlert @ yes else colDim @ ''no'')"

definition account_rows :: "caller \<Rightarrow> user \<Rightarrow> (string \<times> string) list" where
  "account_rows s u =
     [(''Handle'', colBright @ safe (u_handle u)), (''Location'', colLabel @ safe (u_location u)),
      (''Joined'', colLabel @ long s (u_created u)), (''Last call'', colLabel @ long s (u_last_login u)),
      (''Calls'', colValue @ itoa (u_calls u)), (''Unread'', colValue @ itoa (int (UnreadCount (database s) (u_id u)))),
      (''Online'', colValue @ plural (int (length (filter (\<lambda>n. ni_UserID n = u_id u) (online (sv_nodes (c_srv s)))))) ''node''),
      (''Sysop'', account_flag (u_sysop u) ''yes''), (''Locked'', account_flag (u_locked u) ''LOCKED''),
      (''Approved'', approvedText (u_validated u))]"

definition showAccount :: "user \<Rightarrow> (unit, caller) io" where
  "showAccount u = then_io (screen_header (''User: '' @ u_handle u))
     (with_s (\<lambda>s. box ''Account'' (map (\<lambda>(k, v). colInfo @ Pad k 10 @ colBorder @ '': '' @ v) (account_rows s u))))"

definition sysopResetPassword :: "user \<Rightarrow> (unit, caller) io" where
  "sysopResetPassword u = then_io (print nl) (bind_io (askPasswordTwice (''New password for '' @ safe (u_handle u))) (\<lambda>pick. case pick of
       None \<Rightarrow> return_io ()
     | Some p \<Rightarrow> bind_io (with_s (\<lambda>s. store_op (\<lambda>E. ResetPassword E (me s) (u_id u) p))) (\<lambda>r. case r of
           Inl e \<Rightarrow> reportError e
         | Inr _ \<Rightarrow> then_io (audit (''reset password of '' @ u_handle u)) (tell (colOK @ ''Password reset.'')))))"

definition kick_account :: "int \<Rightarrow> string \<Rightarrow> (unit, caller) io" where
  "kick_account i msg = effect (on_nodes (\<lambda>t. snd (kickUser i msg t)))"

definition sysopToggleLock :: "user \<Rightarrow> (unit, caller) io" where
  "sysopToggleLock u = bind_io (session_yesNo ((if u_locked u then ''Unlock'' else ''Lock'') @ '' '' @ safe (u_handle u) @ ''?'') False) (\<lambda>ok.
     if \<not> ok then return_io ()
     else bind_io (with_s (\<lambda>s. store_op (\<lambda>_. SetLocked (me s) (u_id u) (\<not> u_locked u)))) (\<lambda>r. case r of
         Inl e \<Rightarrow> reportError e
       | Inr _ \<Rightarrow> then_io (if u_locked u then return_io () else kick_account (u_id u) ''*** Your account has been locked by the sysop. ***'')
           (audit ((if u_locked u then ''unlocked '' else ''locked '') @ u_handle u))))"

definition sysopToggleSysop :: "user \<Rightarrow> (unit, caller) io" where
  "sysopToggleSysop u = bind_io (session_yesNo
       (if u_sysop u then ''Remove '' @ safe (u_handle u) @ apostrophe @ ''s sysop rights?'' else ''Make '' @ safe (u_handle u) @ '' a sysop?'') False) (\<lambda>ok.
     if \<not> ok then return_io ()
     else bind_io (with_s (\<lambda>s. store_op (\<lambda>_. SetSysop (me s) (u_id u) (\<not> u_sysop u)))) (\<lambda>r. case r of
         Inl e \<Rightarrow> reportError e
       | Inr _ \<Rightarrow> audit (if u_sysop u then ''demoted '' @ u_handle u else ''promoted '' @ u_handle u @ '' to sysop'')))"

text \<open>Whether the account was deleted.\<close>

definition sysopDeleteUser :: "user \<Rightarrow> (bool, caller) io" where
  "sysopDeleteUser u = then_io (print (nl @ colAlert @ ''This deletes '' @ safe (u_handle u) @ '' and their inbox for good.'' @ colLabel @ nl))
     (bind_io (prompt ''|07Type the handle to confirm|08: |15'' (int MaxHandleLen)) (\<lambda>confirm.
        if confirm \<noteq> u_handle u then then_io (tell (colDim @ ''Not deleted.'')) (return_io False)
        else then_io (kick_account (u_id u) ''*** Your account has been removed. ***'')
          (bind_io (with_s (\<lambda>s. store_op (\<lambda>_. DeleteUser (me s) (u_id u)))) (\<lambda>r. case r of
              Inl e \<Rightarrow> then_io (reportError e) (return_io False)
            | Inr _ \<Rightarrow> then_io (audit (''deleted user '' @ u_handle u)) (then_io (tell (colOK @ safe (u_handle u) @ '' deleted.'')) (return_io True))))))"

definition account_words :: "caller \<Rightarrow> user \<Rightarrow> string list" where
  "account_words s u = [''Mail'', ''Password''] @
     (if u_id u = me s then []
      else [if u_locked u then ''Lock off'' else ''Lock'', if u_sysop u then ''Sysop rights off'' else ''Sysop rights'', ''Delete'']) @ [''Quit'']"

definition account_key :: "user \<Rightarrow> rune \<Rightarrow> (unit + unit, caller) io" where
  "account_key u k =
     (if k = byte_val CHR ''M'' then and_again (compose (no_draft\<lparr>dr_to := [u]\<rparr>))
      else if k = byte_val CHR ''P'' then and_again (sysopResetPassword u)
      else if k = byte_val CHR ''L'' then and_again (sysopToggleLock u)
      else if k = byte_val CHR ''S'' then and_again (sysopToggleSysop u)
      else if k = byte_val CHR ''D'' then bind_io (sysopDeleteUser u) (\<lambda>gone. if gone then leave_with () else again)
      else again)"

definition sysopUser :: "int \<Rightarrow> (unit, caller) io" where
  "sysopUser i = repeat_io (\<lambda>_. with_s (\<lambda>s. case UserByID (database s) i of
       Inl e \<Rightarrow> and_leave (reportError e)
     | Inr u \<Rightarrow> then_io (showAccount u) (bind_io (with_s (\<lambda>s. keysPrompt [] (account_words s u))) (\<lambda>k.
         if k = byte_val CHR ''Q'' then leave_with ()
         else bind_io stillSysop (\<lambda>ok. if \<not> ok then leave_with () else account_key u k))))) ()"

definition sysopPickUser :: "(unit, caller) io" where
  "sysopPickUser = repeat_io (\<lambda>_. bind_io (prompt (nl @ ''|07Handle |08(|15?|08 = list, Enter = back)|07: |15'') (int MaxHandleLen)) (\<lambda>h.
     if h = [] then leave_with ()
     else if h = ''?'' then and_again compactUserList
     else with_s (\<lambda>s. case UserByHandle (env s) (database s) h of
         Inl e \<Rightarrow> and_again (reportError e)
       | Inr u \<Rightarrow> and_leave (sysopUser (u_id u))))) ()"

section \<open>New accounts (approval.go)\<close>

definition pendingNote :: "caller \<Rightarrow> string" where
  "pendingNote s = (let n = length (PendingUsers (database s)) in if n = 0 then [] else colAlert @ ''('' @ itoa (int n) @ '' waiting)'')"

definition approve_caller :: "user \<Rightarrow> (unit, caller) io" where
  "approve_caller u = bind_io (with_s (\<lambda>s. store_op (\<lambda>_. ValidateUser (me s) (u_id u)))) (\<lambda>r. case r of
       Inl e \<Rightarrow> reportError e
     | Inr _ \<Rightarrow> then_io (audit (''approved '' @ u_handle u))
         (effect (on_nodes (\<lambda>t. snd (notify (u_id u) ''A sysop approved your account. Welcome in!'' t)))))"

definition review_key :: "user \<Rightarrow> rune \<Rightarrow> (unit, caller) io" where
  "review_key u k =
     (if k = byte_val CHR ''A'' then approve_caller u
      else if k = byte_val CHR ''R'' then bind_io (sysopDeleteUser u) (\<lambda>_. return_io ())
      else if k = byte_val CHR ''M'' then compose (no_draft\<lparr>dr_to := [u]\<rparr>)
      else return_io ())"

definition reviewCaller :: "user \<Rightarrow> (unit, caller) io" where
  "reviewCaller u = then_io (showAccount u) (bind_io (keysPrompt [] [''Approve'', ''Reject and delete'', ''Mail them'', ''Skip'']) (\<lambda>k.
     if k = byte_val CHR ''S'' then return_io ()
     else bind_io stillSysop (\<lambda>ok. if ok then review_key u k else return_io ())))"

definition pending_row :: "caller \<Rightarrow> nat \<times> user \<Rightarrow> string" where
  "pending_row s iu = (case iu of (i, u) \<Rightarrow>
     colValue @ pad_left 4 (itoa (int i + 1)) @ ''  '' @ colHandle @ safe (Pad (u_handle u) 20) @ '' '' @ colLabel @ safe (Pad (u_location u) 22) @ '' '' @
     colInfo @ ago (sv_tz (c_srv s)) (s_now s) (u_created u))"

definition sysopApprovals :: "(unit, caller) io" where
  "sysopApprovals = repeat_io (\<lambda>_. with_s (\<lambda>s. let us = PendingUsers (database s) in
     then_io (screen_header ''New Callers'')
       (then_io (session_table ''Waiting for approval'' (pad_left 4 ''#'' @ ''  '' @ Pad ''Handle'' 20 @ '' '' @ Pad ''Location'' 22 @ '' Signed up'')
           (map (pending_row s) (enumerate 0 us)) ''Nobody is waiting for approval.'')
         (if us = [] then and_leave pause
          else bind_io (pickNumber (length us) ''Review caller'') (\<lambda>pick. case pick of
              None \<Rightarrow> leave_with ()
            | Some n \<Rightarrow> and_again (reviewCaller (us ! (n - 1)))))))) ()"

section \<open>Custom art (customart.go)\<close>

definition preview_art :: "string \<Rightarrow> (unit, caller) io" where
  "preview_art name = with_s (\<lambda>s. case map_of (sv_artFolder (c_srv s)) name of
       None \<Rightarrow> return_io ()
     | Some data \<Rightarrow> if maxArtBytes < length data
         then print (nl @ colAlert @ safe (''art file larger than '' @ itoa (int (maxArtBytes div 1024)) @ '' KB'') @ nl)
         else showArtFile (equal_fold (sv_fold (c_srv s)) (path_Ext name) ''.txt'') data (screenTokens s))"

definition art_lines :: "server \<Rightarrow> string list" where
  "art_lines sv = [colDim @ ''Folder: '' @ colLabel @ safe (sv_artDir sv), separator] @
     map (\<lambda>screen. let n = length (artFiles sv screen)
        in colHandle @ Pad screen 10 @ '' '' @ (if 0 < n then colOK @ plural (int n) ''variant'' else colDim @ ''built-in'')) customScreens"

definition sysopArt :: "(unit, caller) io" where
  "sysopArt = repeat_io (\<lambda>_. then_io (screen_header ''Custom Art'') (with_s (\<lambda>s.
     if sv_artDir (c_srv s) = [] then and_leave (then_io (print (nl @ ''  '' @ colDim @ ''No art folder configured (start with -art DIR).'' @ nl @ nl)) pause)
     else let fs = concat (map (artFiles (c_srv s)) customScreens)
          in then_io (box ''Screens'' (art_lines (c_srv s)))
            (then_io (session_table ''Files'' [] (map (\<lambda>(i, f). colValue @ pad_left 4 (itoa (int i + 1)) @ ''  '' @ colLabel @ safe f) (enumerate 0 fs))
                ''Drop NAME.ans or NAME.txt files into the folder to replace a screen.'')
              (if fs = [] then and_leave pause
               else bind_io (pickNumber (length fs) ''Preview'') (\<lambda>pick. case pick of
                   None \<Rightarrow> leave_with ()
                 | Some n \<Rightarrow> and_again (then_io (print ''|CL'') (then_io (preview_art (fs ! (n - 1))) (then_io (print nl) pause))))))))) ()"

section \<open>The menu (sysop.go)\<close>

definition sysop_callers :: "caller \<Rightarrow> menuItem list" where
  "sysop_callers s =
     [item CHR ''V'' ''New callers'' (pendingNote s), item CHR ''U'' ''Manage a user'' [],
      item CHR ''K'' ''Kick a node'' (colDim @ ''('' @ itoa (int (length (online (sv_nodes (c_srv s))))) @ '' online)''),
      item CHR ''B'' ''Broadcast'' (colDim @ ''(to everyone)''), item CHR ''E'' ''Event log'' []]"

definition sysop_content :: "menuItem list" where
  "sysop_content = [item CHR ''M'' ''Message boards'' [], item CHR ''N'' ''News bulletins'' [], item CHR ''O'' ''Oneliner wall'' [],
     item CHR ''A'' ''Custom art'' (colDim @ ''(preview)'')]"

definition sysop_key :: "rune \<Rightarrow> (unit, caller) io" where
  "sysop_key k =
     (if k = byte_val CHR ''V'' then sysopApprovals
      else if k = byte_val CHR ''U'' then sysopPickUser
      else if k = byte_val CHR ''K'' then sysopKick
      else if k = byte_val CHR ''B'' then sysopBroadcast
      else if k = byte_val CHR ''E'' then sysopEventLog
      else if k = byte_val CHR ''M'' then sysopBoards
      else if k = byte_val CHR ''N'' then sysopNews
      else if k = byte_val CHR ''O'' then sysopOneliners
      else if k = byte_val CHR ''A'' then sysopArt
      else return_io ())"

definition sysopMenu :: "(unit, caller) io" where
  "sysopMenu = repeat_io (\<lambda>_. bind_io stillSysop (\<lambda>ok. if \<not> ok then leave_with ()
     else then_io (session_setActivity ''Sysop menu'') (then_io (screen_header ''Sysop Menu'')
       (then_io (with_s (\<lambda>s. menuColumns ''Callers'' (sysop_callers s) ''Content'' sysop_content))
         (then_io (with_s (\<lambda>s. print (nl @ keyBar [item CHR ''Q'' ''Back to main menu'' []] s @ nl)))
           (bind_io (menuPrompt ''Sysop'' ''VUKBEMNOAQ'') (\<lambda>k. if k = byte_val CHR ''Q'' then leave_with () else and_again (sysop_key k)))))))) ()"

section \<open>They run\<close>

lemma sound_sysop_nodes [run_rules]: "sound sysopKick" "sound sysopBroadcast" "sound (kick_account i msg)"
proof -
  have k: "sound (sysop_kick_node i)" for i unfolding sysop_kick_node_def Let_def by (intro run_rules)
  have c: "sound (kick_confirmed i)" for i unfolding kick_confirmed_def by (intro run_rules k)
  show "sound sysopKick" unfolding sysopKick_def by (intro run_rules c)
  show "sound sysopBroadcast" unfolding sysopBroadcast_def by (intro run_rules)
  show "sound (kick_account i msg)" unfolding kick_account_def by (intro run_rules)
qed

lemma sound_sysopEventLog [run_rules]: "sound sysopEventLog"
  unfolding sysopEventLog_def by (intro run_rules)

lemma sound_createBoard [run_rules]: "sound createBoard"
  unfolding createBoard_def
  by (intro run_rules sound_store [where f = "\<lambda>i E. CreateBoard E i n ds so" for n ds so] acts_as.create_board)

lemma sound_deleteBoard [run_rules]: "sound (deleteBoard bs)"
proof -
  have "sound (delete_board_sure b n)" for b n unfolding delete_board_sure_def
    by (intro run_rules sound_store [where f = "\<lambda>i _. DeleteBoard i (b_id b)"] acts_as.delete_board)
  then show ?thesis unfolding deleteBoard_def by (intro run_rules)
qed

lemma sound_sysop_edit:
  assumes act: "\<And>k. sound (act k)"
  shows "sound (sysop_edit ws act)" "eats good s_in round_again (sysop_edit ws act)"
  unfolding sysop_edit_def by (intro run_rules screen.eats_first eat_rules act)+

lemma sound_sysopBoards [run_rules]: "sound sysopBoards"
  unfolding sysopBoards_def Let_def by (intro run_rules eat_rules sound_sysop_edit)

lemma sound_addBulletin [run_rules]: "sound addBulletin"
  unfolding addBulletin_def
  by (intro run_rules sound_store [where f = "\<lambda>i E. AddBulletin E i tt b" for tt b] acts_as.add_bulletin)

lemma sound_deleteBulletin [run_rules]: "sound (deleteBulletin bs)"
  unfolding deleteBulletin_def
  by (intro run_rules sound_store [where f = "\<lambda>i _. DeleteBulletin i (bu_id (bs ! (n - 1)))" for n] acts_as.delete_bulletin)

lemma sound_sysopNews [run_rules]: "sound sysopNews"
  unfolding sysopNews_def Let_def by (intro run_rules eat_rules sound_sysop_edit)

lemma sound_sysopOneliners [run_rules]: "sound sysopOneliners"
proof -
  have d: "sound (delete_wall w)" for w unfolding delete_wall_def
    by (intro run_rules sound_store [where f = "\<lambda>i _. DeleteOneliner i (o_id w)"] acts_as.delete_oneliner)
  show ?thesis unfolding sysopOneliners_def Let_def by (intro run_rules screen.eats_first eat_rules d)
qed

lemma sound_showAccount [run_rules]: "sound (showAccount u)"
  unfolding showAccount_def by (intro run_rules)

lemma sound_account_changes [run_rules]:
  "sound (sysopResetPassword u)" "sound (sysopToggleLock u)" "sound (sysopToggleSysop u)" "sound (sysopDeleteUser u)"
  unfolding sysopResetPassword_def sysopToggleLock_def sysopToggleSysop_def sysopDeleteUser_def
  by (intro run_rules sound_store [where f = "\<lambda>i E. ResetPassword E i (u_id u) p" for p] acts_as.reset_password
      sound_store [where f = "\<lambda>i _. SetLocked i (u_id u) (\<not> u_locked u)"] acts_as.set_locked
      sound_store [where f = "\<lambda>i _. SetSysop i (u_id u) (\<not> u_sysop u)"] acts_as.set_sysop
      sound_store [where f = "\<lambda>i _. DeleteUser i (u_id u)"] acts_as.delete_user)+

lemma sound_sysopUser [run_rules]: "sound (sysopUser i)"
proof -
  have "sound (account_key u k)" for u k unfolding account_key_def by (intro run_rules)
  then show ?thesis unfolding sysopUser_def by (intro run_rules screen.eats_first eat_rules)
qed

lemma sound_sysopPickUser [run_rules]: "sound sysopPickUser"
  unfolding sysopPickUser_def by (intro run_rules screen.eats_first eat_rules)

lemma sound_reviewCaller [run_rules]: "sound (reviewCaller u)"
proof -
  have a: "sound (approve_caller u)" for u unfolding approve_caller_def
    by (intro run_rules sound_store [where f = "\<lambda>i _. ValidateUser i (u_id u)"] acts_as.validate_user)
  have k: "sound (review_key u k)" for u k unfolding review_key_def by (intro run_rules a)
  show ?thesis unfolding reviewCaller_def by (intro run_rules k)
qed

lemma sound_sysopApprovals [run_rules]: "sound sysopApprovals"
  unfolding sysopApprovals_def Let_def by (intro run_rules screen.eats_first eat_rules)

lemma sound_sysopArt [run_rules]: "sound sysopArt"
proof -
  have p: "sound (preview_art name)" for name unfolding preview_art_def by (intro run_rules)
  show ?thesis unfolding sysopArt_def Let_def by (intro run_rules screen.eats_first eat_rules p)
qed

lemma sound_menuColumns [run_rules]: "sound (menuColumns lt l rt r)"
  by (rule t_menuColumns [THEN sound_terminal])

lemma sound_sysopMenu [run_rules]: "sound sysopMenu"
proof -
  have k: "sound (sysop_key k)" for k unfolding sysop_key_def by (intro run_rules)
  show ?thesis unfolding sysopMenu_def
    by (rule screen.runs_repeat, intro run_rules k, rule screen.eats_later [OF sound_stillSysop],
        intro screen.eats_first eat_rules run_rules k)
qed

end
