(* ===== verification/Bbs_Fido.thy ===== *)
theory Bbs_Fido
  imports Bbs_Boards Filelink
begin

text \<open>
  \<open>internal/bbs/echo.go\<close>, \<open>netmail.go\<close> and \<open>files.go\<close>: the conferences, the netmail and the file areas on the
  screen. Queueing netmail changes the files of the outbound as \<open>Queue\<close> leaves them; nobody else touches
  them during the operation, so the waits between the tries are left out. A ZMODEM transfer is an argument
  of the server.
\<close>

section \<open>Conferences (echo.go)\<close>

definition em_dash :: string where "em_dash = of_runes [0x2014]"

text \<open>Listings are newest first; unread messages are read oldest first.\<close>

definition unreadEchoes :: "echo_message list \<Rightarrow> int \<Rightarrow> echo_message list" where
  "unreadEchoes ms lastRead = rev (filter (\<lambda>m. lastRead < em_id m) ms)"

definition echo_row :: "caller \<Rightarrow> int \<Rightarrow> nat \<Rightarrow> nat \<times> echo_message \<Rightarrow> string" where
  "echo_row s lastRead subjW im = (case im of (i, m) \<Rightarrow>
     let (mark, subjColor) = (if lastRead < em_id m then ('' '' @ colAlert @ ''*'' @ colLabel @ ''  '', colBright) else (''    '', colLabel))
     in colValue @ pad_left 4 (itoa (int i + 1)) @ mark @ colHandle @ safe (Pad (em_from m) 18) @ '' '' @
        subjColor @ safe (Pad (em_subject m) subjW) @ '' '' @ colInfo @ short s (em_at m))"

definition echoListing :: "caller \<Rightarrow> echo_message list \<Rightarrow> int \<Rightarrow> string \<times> string list" where
  "echoListing s ms lastRead =
     (let subjW = nat (max (inner (width s) - 36) 10)
      in (colDim @ pad_left 4 ''#'' @ ''    '' @ Pad ''From'' 18 @ '' '' @ Pad ''Subject'' subjW @ '' Date'',
          map (echo_row s lastRead subjW) (enumerate 0 ms)))"

definition echo_letter :: "string \<Rightarrow> echo_message \<Rightarrow> caller \<Rightarrow> letter" where
  "echo_letter title m s = \<lparr>lt_title = title,
     lt_fields = [fld ''From'' (em_from m @ (if em_addr m \<noteq> [] then '' ('' @ em_addr m @ '')'' else [])) colBright, fld ''To'' (em_to m) colLabel,
       fld ''Date'' (long s (em_at m)) colLabel, fld ''Subj'' (em_subject m) colKey], lt_body = em_body m\<rparr>"

definition mark_echo_read :: "area_summary \<Rightarrow> echo_message \<Rightarrow> (unit, caller) io" where
  "mark_echo_read a m = bind_io (with_s (\<lambda>s. store_op (\<lambda>_. MarkEchoRead (me s) (as_id a) (em_id m)))) (\<lambda>_. return_io ())"

definition echo_round :: "area_summary \<Rightarrow> echo_message list \<Rightarrow> int \<Rightarrow> (int + bool, caller) io" where
  "echo_round a ms idx =
     (if idx < 0 \<or> int (length ms) \<le> idx then leave_with False
      else let m = ms ! nat idx
           in then_io (mark_echo_read a m) (then_io (with_s (\<lambda>s. session_letter (echo_letter (place (as_tag a) idx (length ms)) m s)))
                (bind_io (actionPrompt CR1 [''Next'', ''Prev'', ''Quit'']) (\<lambda>k.
                   if k = byte_val CHR ''N'' \<or> k = keyEnter then return_io (Inl (idx + 1))
                   else if k = byte_val CHR ''P'' then return_io (Inl (max (idx - 1) 0))
                   else leave_with True))))"

text \<open>\<open>readEchoesWith\<close>: whether the caller quit before the end.\<close>

definition readEchoesWith :: "area_summary \<Rightarrow> echo_message list \<Rightarrow> int \<Rightarrow> (bool, caller) io" where
  "readEchoesWith a ms = repeat_io (echo_round a ms)"

definition readEchoes :: "area_summary \<Rightarrow> echo_message list \<Rightarrow> int \<Rightarrow> (unit, caller) io" where
  "readEchoes a ms idx = (if ms = [] then tell (colDim @ ''Nothing unread here.'')
     else bind_io (readEchoesWith a ms idx) (\<lambda>_. return_io ()))"

fun echo_scan_loop :: "area_summary list \<Rightarrow> bool \<Rightarrow> (bool option, caller) io" where
  "echo_scan_loop [] found = return_io (Some found)"
| "echo_scan_loop (a # areas) found =
     (if as_new a = 0 then echo_scan_loop areas found
      else with_s (\<lambda>s.
        let unread = unreadEchoes (EchoMessages (database s) (as_id a)) (EchoLastRead (database s) (me s) (as_id a))
        in if unread = [] then echo_scan_loop areas found
           else bind_io (readEchoesWith a unread 0) (\<lambda>stop. if stop then return_io None else echo_scan_loop areas True)))"

definition echoNewScan :: "area_summary list \<Rightarrow> (unit, caller) io" where
  "echoNewScan areas = bind_io (echo_scan_loop areas False) (\<lambda>r. case r of
       None \<Rightarrow> return_io ()
     | Some found \<Rightarrow> if found then return_io () else tell (colDim @ ''Nothing new in the echoes.''))"

definition echoAreaView :: "area_summary \<Rightarrow> (unit, caller) io" where
  "echoAreaView a = repeat_io (\<lambda>_. then_io (session_setActivity (''Reading '' @ as_tag a)) (with_s (\<lambda>s.
     let ms = EchoMessages (database s) (as_id a); lastRead = EchoLastRead (database s) (me s) (as_id a)
     in then_io (screen_header (as_tag a))
          (then_io (with_s (\<lambda>s. let (h, rows) = echoListing s ms lastRead in session_table (as_tag a) h rows ''No messages in this area yet.''))
            (bind_io (prompt (nl @ '' |07Read # |08(|15N|08 = next unread, Enter = back) '' @ colBorder @ prompt_mark @ '' |15'') 4) (\<lambda>ans.
               with_s (\<lambda>s. if ans = [] then leave_with ()
                 else if to_upper (sv_upper (c_srv s)) ans = ''N'' then and_again (readEchoes a (unreadEchoes ms lastRead) 0)
                 else case chosen ans ms of
                     None \<Rightarrow> and_again (tell (colAlert @ ''No such message.''))
                   | Some i \<Rightarrow> and_again (readEchoes a ms (int i))))))))) ()"

definition count_cell :: "area_summary \<Rightarrow> int \<Rightarrow> string" where
  "count_cell a w = fit (colLabel @ itoa (int (as_posts a)) @ (if 0 < as_new a then '' '' @ colAlert @ ''('' @ itoa (int (as_new a)) @ '' new)'' else [])) w"

definition last_cell :: "caller \<Rightarrow> area_summary \<Rightarrow> string" where
  "last_cell s a = (if as_last a = 0 then em_dash else short s (as_last a))"

definition echo_area_row :: "caller \<Rightarrow> nat \<times> area_summary \<Rightarrow> string" where
  "echo_area_row s ia = (case ia of (i, a) \<Rightarrow>
     colValue @ pad_left 4 (itoa (int i + 1)) @ ''  '' @ colHandle @ safe (Pad (as_tag a) 22) @ '' '' @ count_cell a 12 @ '' '' @ colDim @ safe (last_cell s a))"

definition echoesMenu :: "(unit, caller) io" where
  "echoesMenu = repeat_io (\<lambda>_. then_io (session_setActivity ''Echomail'') (with_s (\<lambda>s.
     let areas = EchoAreas (database s) (me s)
     in then_io (screen_header ''FidoNet Echoes'')
          (then_io (session_table (plural (int (length areas)) ''echo'') (pad_left 4 ''#'' @ ''  '' @ Pad ''Area'' 22 @ '' '' @ Pad ''Msgs'' 12 @ '' Last'')
              (map (echo_area_row s) (enumerate 0 areas)) ''No echomail yet. Linked areas fill in as mail arrives from FidoNet.'')
            (bind_io (prompt (nl @ '' |07Area # |08(|15N|08 = read all '' @ itoa (int (sum_list (map as_new areas))) @ '' new, Enter = back) '' @
                colBorder @ prompt_mark @ '' |15'') 4) (\<lambda>ans.
               if ans = [] then leave_with ()
               else if sql_lower ans = ''n'' then and_again (echoNewScan areas)
               else case chosen ans areas of
                   None \<Rightarrow> and_again (tell (colAlert @ ''No such area.''))
                 | Some i \<Rightarrow> and_again (echoAreaView (areas ! i)))))))) ()"

section \<open>Netmail (netmail.go)\<close>

definition netmailQueueTries :: nat where "netmailQueueTries = 10"
definition netmailProgram :: string where "netmailProgram = ''Boar BBS''"

definition canSendNetmail :: "caller \<Rightarrow> bool" where
  "canSendNetmail s \<longleftrightarrow> u_sysop (c_user s) \<and> ftn_enabled (sv_FTN (c_srv s))"

definition netmail_width :: "caller \<Rightarrow> nat" where
  "netmail_width s = nat (max (inner (width s) - 52) 10)"

definition netmailHeading :: "caller \<Rightarrow> string" where
  "netmailHeading s = colDim @ pad_left 4 ''#'' @ ''    '' @ Pad ''From / To'' 20 @ '' '' @ Pad ''Address'' 14 @ '' '' @ Pad ''Subject'' (netmail_width s) @ '' Date''"

definition netmail_row :: "caller \<Rightarrow> nat \<times> netmail \<Rightarrow> string" where
  "netmail_row s im = (case im of (i, m) \<Rightarrow>
     let (mark, subjColor) = (if n_outgoing m then ('' '' @ colDim @ prompt_mark @ ''  '', colLabel)
           else if n_read m = 0 then ('' '' @ colAlert @ ''*'' @ colLabel @ ''  '', colBright) else (''    '', colLabel));
         (name, addr) = (if n_outgoing m then (n_to_name m, n_to_addr m) else (n_from_name m, n_from_addr m))
     in colValue @ pad_left 4 (itoa (int i + 1)) @ mark @ colHandle @ safe (Pad name 20) @ '' '' @ colInfo @ safe (Pad addr 14) @ '' '' @
        subjColor @ safe (Pad (n_subject m) (netmail_width s)) @ '' '' @ colInfo @ short s (n_posted m))"

definition netmailRows :: "caller \<Rightarrow> netmail list \<Rightarrow> string list" where
  "netmailRows s ms = map (netmail_row s) (enumerate 0 ms)"

record netmailDraft =
  nd_toName :: string
  nd_subject :: string
  nd_replyTo :: string
  nd_to :: Addr \<comment> \<open>zone 0 to ask\<close>
  nd_from :: Addr \<comment> \<open>zone 0 to pick\<close>
  nd_quote :: "string list"

definition no_addr :: Addr where
  "no_addr = \<lparr>Zone = 0, Net = 0, Node = 0, Point = 0, aDomain = []\<rparr>"

definition netmailName :: "caller \<Rightarrow> string" where
  "netmailName s = (if u_sysop (c_user s) \<and> fc_SysopName (sv_FTN (c_srv s)) \<noteq> [] then fc_SysopName (sv_FTN (c_srv s)) else u_handle (c_user s))"

definition originFor :: "Addr list \<Rightarrow> Addr \<Rightarrow> Addr" where
  "originFor own dest = (case find (\<lambda>a. Zone a = Zone dest \<and> Net a = Net dest \<and> \<not> IsPoint a) own of Some a \<Rightarrow> a | None \<Rightarrow> hd own)"

definition queue_error_text :: "string \<Rightarrow> queue_error \<Rightarrow> string" where
  "queue_error_text path e = (case e of
       ErrBusy \<Rightarrow> ''outbound is busy''
     | ExistingPacket pe \<Rightarrow> ''existing packet '' @ path @ '': not a FidoNet packet: '' @ (case pe of
           ShortHeader \<Rightarrow> ''short header''
         | BadVersion v \<Rightarrow> ''version '' @ itoa v
         | BadMessageType n \<Rightarrow> ''bad message type after '' @ itoa (int n) @ '' messages''
         | TruncatedMessageHeader \<Rightarrow> ''truncated message header''
         | UnterminatedField \<Rightarrow> ''unterminated field''
         | FieldTooLong n \<Rightarrow> ''field longer than '' @ itoa (int n) @ '' bytes''))"

text \<open>One call of \<open>Queue\<close>: its result, and the files as it leaves them.\<close>

definition queue_once :: "Addr \<Rightarrow> Packet \<Rightarrow> PackedMessage list \<Rightarrow> (queue_error + unit, caller) io" where
  "queue_once hop hdr ms = with_s (\<lambda>s. let sv = c_srv s; fs = sv_outbound sv;
       (r, states) = Queue (se_upper (env s)) (s_now s, sv_tz sv (s_now s)) (sv_pid sv) (sv_tmpName sv fs) 0 (fc_Outbound (sv_FTN sv)) hop Crash hdr ms fs
     in then_io (effect (on_server (\<lambda>sv. sv\<lparr>sv_outbound := last states\<rparr>))) (return_io r))"

fun queue_loop :: "nat \<Rightarrow> Addr \<Rightarrow> Packet \<Rightarrow> PackedMessage list \<Rightarrow> (queue_error + unit, caller) io" where
  "queue_loop 0 hop hdr ms = return_io (Inl ErrBusy)"
| "queue_loop (Suc n) hop hdr ms = bind_io (queue_once hop hdr ms) (\<lambda>r.
     if r = Inl ErrBusy then queue_loop n hop hdr ms else return_io r)"

definition fitting_charset :: "string \<Rightarrow> Charset" where
  "fitting_charset t = (if Fits t CP437 then CP437 else if Fits t CP866 then CP866 else UTF8)"

text \<open>The attribute word of what the BBS sends: private, local, kill when sent, crash.\<close>

definition netmail_attr :: nat where "netmail_attr = 0x0001 + 0x0100 + 0x0080 + 0x0002"

definition netmail_message :: "caller \<Rightarrow> netmail \<Rightarrow> Addr \<Rightarrow> Addr \<Rightarrow> Message" where
  "netmail_message s n from_addr to_addr = (let zone = sv_tz (c_srv s) (s_now s) in
     \<lparr>Area = [], From = n_from_name n, To = n_to_name n, Subject = n_subject n, Date = Some (s_now s), Orig = from_addr, Dest = to_addr,
      Attr = netmail_attr, MsgID = n_msgid n, Reply = n_reply_to n,
      Charset = fitting_charset (n_body n @ n_subject n @ n_to_name n @ n_from_name n), TZUTC = TZUTC_of zone, Body = n_body n,
      SeenBy = [], Path = [], Kludges = [\<lparr>kl_name = ''PID'', kl_value = netmailProgram\<rparr>]\<rparr>)"

text \<open>\<open>sendNetmail\<close>: \<open>None\<close>, or the text of the error.\<close>

definition sendNetmail :: "netmail \<Rightarrow> Addr \<Rightarrow> Addr \<Rightarrow> Addr \<Rightarrow> (string option, caller) io" where
  "sendNetmail n0 from_addr to_addr hop = with_s (\<lambda>s.
     let cfg = sv_FTN (c_srv s); zone = sv_tz (c_srv s) (s_now s);
         n = n0\<lparr>n_posted := s_now s, n_msgid := Addr_String from_addr @ '' '' @ hex_pad 8 (int (sv_serial (c_srv s) (s_now s)))\<rparr>;
         hdr = \<lparr>pkFrom = hd (fc_Addresses cfg), pkTo = hop, Password = [], Created = Some (s_now s, zone), Messages = []\<rparr>
     in bind_io (queue_loop netmailQueueTries hop hdr [Pack zone (netmail_message s n from_addr to_addr)]) (\<lambda>r. case r of
          Inl e \<Rightarrow> return_io (Some (queue_error_text (PacketPath (fc_Outbound cfg) hop Crash) e))
        | Inr _ \<Rightarrow> bind_io (with_s (\<lambda>s. store_op (\<lambda>E. RecordSentNetmail E (n\<lparr>n_author := me s\<rparr>)))) (\<lambda>r. case r of
              Inl e \<Rightarrow> return_io (Some (error_text e))
            | Inr _ \<Rightarrow> return_io None)))"

definition netmail_row_of :: "caller \<Rightarrow> netmailDraft \<Rightarrow> Addr \<Rightarrow> Addr \<Rightarrow> string \<Rightarrow> string \<Rightarrow> netmail" where
  "netmail_row_of s d from_addr to_addr subject body =
     \<lparr>n_id = 0, n_outgoing = False, n_msgid = [], n_reply_to = nd_replyTo d, n_from_name = netmailName s, n_from_addr = Addr_String from_addr,
      n_to_name = nd_toName d, n_to_addr = Addr_String to_addr, n_subject = subject, n_body = body, n_posted = 0, n_received = 0, n_read = 0,
      n_author = me s\<rparr>"

definition netmail_compose :: "netmailDraft \<Rightarrow> Addr \<Rightarrow> Addr \<Rightarrow> (unit, caller) io" where
  "netmail_compose d from_addr hop = bind_io (askSubject (nd_subject d)) (\<lambda>subject.
     if subject = [] then tell (colDim @ ''Cancelled.'')
     else bind_io (editor (nd_quote d)) (\<lambda>(body, ok).
       if \<not> ok then tell (nl @ colDim @ ''Netmail discarded.'')
       else bind_io (with_s (\<lambda>s. sendNetmail (netmail_row_of s d from_addr (nd_to d) subject body) from_addr (nd_to d) hop)) (\<lambda>r. case r of
           Some e \<Rightarrow> tell (nl @ colAlert @ ''The netmail could not be queued: '' @ safe e)
         | None \<Rightarrow> tell (nl @ colOK @ ''Queued for '' @ Addr_String (nd_to d) @ '', via '' @ Addr_String hop @ ''.''))))"

definition netmail_route :: "netmailDraft \<Rightarrow> (unit, caller) io" where
  "netmail_route d = with_s (\<lambda>s. case Hop (fc_Routes (sv_FTN (c_srv s))) (nd_to d) of
       None \<Rightarrow> tell (colAlert @ ''There is no route to '' @ Addr_String (nd_to d) @ '' from this node.'')
     | Some hop \<Rightarrow>
         let from_addr = (if Zone (nd_from d) = 0 then originFor (fc_Addresses (sv_FTN (c_srv s))) (nd_to d) else nd_from d)
         in then_io (print ('' '' @ colInfo @ ''From    '' @ colDim @ '': '' @ colLabel @ Addr_String from_addr @ '' '' @ colDim @ ''(via '' @ Addr_String hop @ '')'' @ nl))
              (netmail_compose d from_addr hop))"

definition netmail_ask :: "netmailDraft \<Rightarrow> (unit, caller) io" where
  "netmail_ask d = bind_io (prompt '' |03To name |08(Enter = Sysop): |15'' (int MaxNetmailNameLen)) (\<lambda>name.
     bind_io (prompt '' |03Address |08(e.g. 2:5030/731, Enter = cancel): |15'' (int MaxNetmailAddrLen)) (\<lambda>line.
       if line = [] then return_io ()
       else with_s (\<lambda>s. case ParseAddr (se_lower (env s)) line of
           None \<Rightarrow> tell (colAlert @ ''That is not a FidoNet address.'')
         | Some a \<Rightarrow> netmail_route (d\<lparr>nd_toName := (if name = [] then ''Sysop'' else name), nd_to := a\<rparr>))))"

definition writeNetmail :: "netmailDraft \<Rightarrow> (unit, caller) io" where
  "writeNetmail d = then_io (session_setActivity ''Writing netmail'') (then_io (screen_header ''New Netmail'') (then_io (print nl)
     (if Zone (nd_to d) = 0 then netmail_ask d
      else then_io (print ('' '' @ colInfo @ ''To      '' @ colDim @ '': '' @ colBright @ safe (nd_toName d) @ '' ('' @ Addr_String (nd_to d) @ '')'' @ nl))
        (netmail_route d))))"

definition reply_from :: "caller \<Rightarrow> netmail \<Rightarrow> Addr" where
  "reply_from s m = (case ParseAddr (se_lower (env s)) (n_to_addr m) of
       None \<Rightarrow> no_addr
     | Some own \<Rightarrow> if Contains (fc_Addresses (sv_FTN (c_srv s))) own then own else no_addr)"

definition replyNetmail :: "netmail \<Rightarrow> (unit, caller) io" where
  "replyNetmail m = with_s (\<lambda>s. case ParseAddr (se_lower (env s)) (n_from_addr m) of
       None \<Rightarrow> tell (colAlert @ ''This netmail has no address to reply to.'')
     | Some a \<Rightarrow> bind_io (session_yesNo ''Quote the original message?'' True) (\<lambda>quote. with_s (\<lambda>s.
         writeNetmail \<lparr>nd_toName = n_from_name m, nd_subject = prefixed s ''Re: '' (n_subject m), nd_replyTo = n_msgid m, nd_to = a,
           nd_from = reply_from s m,
           nd_quote = (if quote then quoteLines s (n_from_name m) (n_posted m) (n_body m) (editorWidth (width s) - 2) else [])\<rparr>)))"

definition netmail_letter :: "string \<Rightarrow> netmail \<Rightarrow> caller \<Rightarrow> letter" where
  "netmail_letter title m s = \<lparr>lt_title = title,
     lt_fields = [fld ''From'' (n_from_name m @ '' ('' @ n_from_addr m @ '')'') colBright, fld ''To'' (n_to_name m @ '' ('' @ n_to_addr m @ '')'') colLabel,
       fld ''Date'' (long s (n_posted m)) colLabel, fld ''Subj'' (n_subject m) colKey], lt_body = n_body m\<rparr>"

definition mark_netmail_read :: "netmail \<Rightarrow> (unit, caller) io" where
  "mark_netmail_read m = (if \<not> n_outgoing m \<and> n_read m = 0
     then effect (\<lambda>s. on_server (\<lambda>sv. sv\<lparr>sv_db := MarkNetmailRead (env s) (n_id m) (database s)\<rparr>) s) else return_io ())"

definition netmail_round :: "netmail list \<Rightarrow> int \<Rightarrow> (int + unit, caller) io" where
  "netmail_round ms idx =
     (if idx < 0 \<or> int (length ms) \<le> idx then leave_with ()
      else let m = ms ! nat idx
           in then_io (mark_netmail_read m) (then_io (with_s (\<lambda>s. session_letter (netmail_letter (place ''Netmail'' idx (length ms)) m s)))
                (bind_io (with_s (\<lambda>s. keysPrompt CR1 ([''Next'', ''Prev''] @ (if canSendNetmail s \<and> \<not> n_outgoing m then [''Reply''] else []) @ [''Quit'']))) (\<lambda>k.
                   if k = byte_val CHR ''N'' \<or> k = keyEnter then return_io (Inl (idx + 1))
                   else if k = byte_val CHR ''P'' then return_io (Inl (max (idx - 1) 0))
                   else if k = byte_val CHR ''R'' then then_io (replyNetmail m) (return_io (Inl idx))
                   else leave_with ()))))"

definition readNetmail :: "netmail list \<Rightarrow> int \<Rightarrow> (unit, caller) io" where
  "readNetmail ms = repeat_io (netmail_round ms)"

definition no_netmail :: netmailDraft where
  "no_netmail = \<lparr>nd_toName = [], nd_subject = [], nd_replyTo = [], nd_to = no_addr, nd_from = no_addr, nd_quote = []\<rparr>"

definition netmailMenu :: "(unit, caller) io" where
  "netmailMenu = repeat_io (\<lambda>_. then_io (session_setActivity ''Netmail'') (with_s (\<lambda>s.
     let ms = NetmailFor (database s) (c_user s)
     in then_io (screen_header ''FidoNet Netmail'')
          (then_io (with_s (\<lambda>s. session_table (plural (int (length ms)) ''netmail'') (netmailHeading s) (netmailRows s ms)
              (''No netmail. Netmail sent to this node'' @ apostrophe @ ''s FidoNet addresses lands here.'')))
            (bind_io (prompt (nl @ '' |07Read # |08('' @ (if canSendNetmail s then ''|15W|08 = write, Enter = back'' else ''Enter = back'') @ '') '' @
                colBorder @ prompt_mark @ '' |15'') 4) (\<lambda>ans. with_s (\<lambda>s.
               if ans = [] then leave_with ()
               else if sql_lower ans = ''w'' \<and> canSendNetmail s then and_again (writeNetmail no_netmail)
               else case chosen ans ms of
                   None \<Rightarrow> and_again (tell (colAlert @ ''No such message.''))
                 | Some i \<Rightarrow> and_again (readNetmail ms (int i))))))))) ()"

section \<open>Files (files.go)\<close>

definition defaultFileLinkTTL :: nanos where "defaultFileLinkTTL = 24 * hour"

text \<open>\<open>%.1f\<close> of \<open>n / 2 ^ k\<close>: to the nearest tenth, halves to the even one. The division is exact below \<open>2 ^ 53\<close>.\<close>

definition tenths :: "int \<Rightarrow> nat \<Rightarrow> int" where
  "tenths n k = (let q = 10 * n div 2 ^ k; r = 10 * n mod 2 ^ k in
     if 2 ^ k < 2 * r \<or> (2 * r = 2 ^ k \<and> odd q) then q + 1 else q)"

definition size_text :: "int \<Rightarrow> nat \<Rightarrow> string" where
  "size_text n k = itoa (tenths n k div 10) @ ''.'' @ itoa (tenths n k mod 10)"

definition humanSize :: "int \<Rightarrow> string" where
  "humanSize n = (if n < 2 ^ 10 then itoa n @ ''B'' else if n < 2 ^ 20 then size_text n 10 @ ''K''
     else if n < 2 ^ 30 then size_text n 20 @ ''M'' else size_text n 30 @ ''G'')"

text \<open>\<open>filePath\<close>: like the download server's.\<close>

definition filePath :: "server \<Rightarrow> file_row \<Rightarrow> string option" where
  "filePath sv f = under_root (sv_Files sv) (f_path f)"

definition fileMissing :: "(unit, caller) io" where
  "fileMissing = tell (nl @ colAlert @ ''That file is not on the disk any more.'')"

text \<open>Bytes written to the connection past the screen.\<close>

definition tc_write :: "string \<Rightarrow> 'a session_scheme \<Rightarrow> 'a session_scheme" where
  "tc_write p s = (if s_broken s then s else s\<lparr>s_out := s_out s @ [p]\<rparr>)"

text \<open>\<open>zmodemSend\<close>: the bytes sent, and the text of the error.\<close>

definition zmodemSend :: "string \<Rightarrow> (int \<times> string option, caller) io" where
  "zmodemSend path s = (let (n, out, sent, err) = sv_zmodem (c_srv s) path (s_in s);
       t = (if n = 0 \<or> s_in s = [] then s_now s else fst (last (take n (s_in s))))
     in (Done (sent, err), (tc_write out s)\<lparr>s_in := drop n (s_in s), s_now := t\<rparr>))"

definition send_file :: "file_row \<Rightarrow> string \<Rightarrow> (unit, caller) io" where
  "send_file f path = then_io (session_setActivity (''Downloading '' @ f_name f))
     (then_io (print (nl @ colInfo @ ''Sending '' @ colBright @ safe (f_name f) @ colInfo @
         '' by ZMODEM. Start your client'' @ apostrophe @ ''s download if it does not start by itself;'' @ nl @ colDim @
         ''press Ctrl-X five times to cancel.'' @ nl))
       (bind_io (zmodemSend path) (\<lambda>(sent, err). then_io (print CRLF) (case err of
           Some e \<Rightarrow> tell (colAlert @ ''The transfer did not finish ('' @ safe e @ '').'')
         | None \<Rightarrow> then_io (effect (\<lambda>s. on_server (\<lambda>sv. sv\<lparr>sv_db := CountDownload (f_id f) (database s)\<rparr>) s))
             (tell (colOK @ ''Sent '' @ safe (f_name f) @ '' ('' @ humanSize sent @ '').''))))))"

definition downloadZmodem :: "file_row \<Rightarrow> (unit, caller) io" where
  "downloadZmodem f = with_s (\<lambda>s. case filePath (c_srv s) f of
       None \<Rightarrow> fileMissing
     | Some path \<Rightarrow> if sv_onDisk (c_srv s) path then send_file f path else fileMissing)"

text \<open>\<open>Format("2 Jan 15:04 MST")\<close>.\<close>

definition link_date :: "server \<Rightarrow> nanos \<Rightarrow> string" where
  "link_date sv t = (let w = local_wall (sv_tz sv) t in itoa (wDay w) @ '' '' @ month_name (wMonth w) @ '' '' @ clock_text (sv_tz sv) t @ '' '' @ sv_zone sv t)"

definition file_link :: "caller \<Rightarrow> file_row \<Rightarrow> nanos \<times> string" where
  "file_link s f = (let cfg = sv_FileLinks (c_srv s); e = s_now s + (if fl_TTL cfg \<le> 0 then defaultFileLinkTTL else fl_TTL cfg)
     in (e, fl_URL cfg @ Sign (sv_hmac (c_srv s)) (fl_Key cfg) \<lparr>FileID = f_id f, UserID = me s, Expires = e\<rparr>))"

definition downloadLink :: "file_row \<Rightarrow> (unit, caller) io" where
  "downloadLink f = with_s (\<lambda>s. let (e, link) = file_link s f in
     then_io (print (nl @ colInfo @ ''Download '' @ safe (f_name f) @ '' on the web, until '' @ link_date (c_srv s) e @ '':'' @ nl @ nl @ '' '' @ colBright @ link @
       nl @ nl @ colDim @ ''The link is yours; it stops working by itself.'' @ nl)) pause)"

definition file_letter :: "area_summary \<Rightarrow> file_row \<Rightarrow> caller \<Rightarrow> letter" where
  "file_letter a f s = \<lparr>lt_title = ''File '' @ dot @ '' '' @ as_tag a,
     lt_fields = [fld ''File'' (f_name f) colBright, fld ''Area'' (as_tag a) colLabel,
       fld ''Size'' (humanSize (f_size f) @ '' ('' @ itoa (f_size f) @ '' bytes, CRC '' @ f_crc f @ '')'') colLabel, fld ''Date'' (long s (f_received f)) colLabel] @
       (if f_origin f \<noteq> [] then [fld ''From'' (f_origin f) colLabel] else []),
     lt_body = f_desc f @ (if f_ldesc f \<noteq> [] then nl @ nl @ f_ldesc f else [])\<rparr>"

definition file_words :: "caller \<Rightarrow> string list" where
  "file_words s = [''Zmodem''] @ (if fl_URL (sv_FileLinks (c_srv s)) \<noteq> [] then [''Link''] else []) @ [''Quit'']"

definition download :: "(unit, caller) io \<Rightarrow> (unit + unit, caller) io" where
  "download op = bind_io (awaitingApproval ''Downloads'') (\<lambda>stop. if stop then leave_with () else and_again op)"

definition fileView :: "area_summary \<Rightarrow> file_row \<Rightarrow> (unit, caller) io" where
  "fileView a f = repeat_io (\<lambda>_. then_io (session_setActivity (''Looking at '' @ f_name f)) (then_io (with_s (\<lambda>s. session_letter (file_letter a f s)))
     (bind_io (with_s (\<lambda>s. keysPrompt CR1 (file_words s))) (\<lambda>k.
        if k = byte_val CHR ''Z'' then download (downloadZmodem f)
        else if k = byte_val CHR ''L'' then download (downloadLink f)
        else leave_with ())))) ()"

definition file_line :: "caller \<Rightarrow> int \<Rightarrow> nat \<Rightarrow> nat \<times> file_row \<Rightarrow> string" where
  "file_line s seen descW if1 = (case if1 of (i, f) \<Rightarrow>
     let mark = (if seen < f_id f then '' '' @ colAlert @ ''*'' @ colLabel @ ''  '' else ''    '');
         desc = (case cut_at CHR 0x0A (f_desc f) of Some (l, _) \<Rightarrow> l | None \<Rightarrow> f_desc f)
     in colValue @ pad_left 4 (itoa (int i + 1)) @ mark @ colHandle @ safe (Pad (f_name f) 16) @ '' '' @ colLabel @ Pad (humanSize (f_size f)) 8 @ '' '' @
        colInfo @ Pad (short s (f_received f)) 9 @ '' '' @ colLabel @ safe (Pad desc descW))"

definition mark_files :: "area_summary \<Rightarrow> file_row list \<Rightarrow> (unit, caller) io" where
  "mark_files a fs = (if fs = [] then return_io ()
     else bind_io (with_s (\<lambda>s. store_op (\<lambda>_. MarkFilesSeen (me s) (as_id a) (f_id (hd fs))))) (\<lambda>_. return_io ()))"

definition fileAreaView :: "area_summary \<Rightarrow> (unit, caller) io" where
  "fileAreaView a = repeat_io (\<lambda>_. then_io (session_setActivity (''Files in '' @ as_tag a)) (with_s (\<lambda>s.
     let fs = FilesIn (database s) (as_id a); seen = FilesLastSeen (database s) (me s) (as_id a); descW = nat (max (inner (width s) - 44) 10)
     in then_io (screen_header (as_tag a))
          (then_io (session_table (plural (int (length fs)) ''file'')
              (colDim @ pad_left 4 ''#'' @ ''    '' @ Pad ''File'' 16 @ '' '' @ Pad ''Size'' 8 @ '' '' @ Pad ''Date'' 9 @ '' Description'')
              (map (file_line s seen descW) (enumerate 0 fs)) ''No files in this area.'')
            (then_io (mark_files a fs) (bind_io (prompt (nl @ '' |07File # |08(Enter = back) '' @ colBorder @ prompt_mark @ '' |15'') 4) (\<lambda>ans.
               if ans = [] then leave_with ()
               else case chosen ans fs of
                   None \<Rightarrow> and_again (tell (colAlert @ ''No such file.''))
                 | Some i \<Rightarrow> and_again (fileView a (fs ! i))))))))) ()"

definition file_area_row :: "caller \<Rightarrow> nat \<times> area_summary \<Rightarrow> string" where
  "file_area_row s ia = (case ia of (i, a) \<Rightarrow>
     colValue @ pad_left 4 (itoa (int i + 1)) @ ''  '' @ colHandle @ safe (Pad (as_tag a) 22) @ '' '' @ count_cell a 14 @ '' '' @
     colDim @ safe (last_cell s a) @ ''  '' @ colInfo @ safe (as_desc a))"

definition filesMenu :: "(unit, caller) io" where
  "filesMenu = repeat_io (\<lambda>_. then_io (session_setActivity ''File areas'') (with_s (\<lambda>s.
     let areas = FileAreas (database s) (me s)
     in then_io (screen_header ''File Areas'')
          (then_io (session_table (plural (int (length areas)) ''file area'') (pad_left 4 ''#'' @ ''  '' @ Pad ''Area'' 22 @ '' '' @ Pad ''Files'' 14 @ '' Newest'')
              (map (file_area_row s) (enumerate 0 areas)) ''No files yet. File echoes fill in as files arrive from FidoNet.'')
            (bind_io (prompt (nl @ '' |07Area # |08('' @ itoa (int (sum_list (map as_new areas))) @ '' new, Enter = back) '' @ colBorder @ prompt_mark @ '' |15'') 4) (\<lambda>ans.
               if ans = [] then leave_with ()
               else case chosen ans areas of
                   None \<Rightarrow> and_again (tell (colAlert @ ''No such area.''))
                 | Some i \<Rightarrow> and_again (fileAreaView (areas ! i)))))))) ()"

section \<open>They run\<close>

lemma sound_echoes [run_rules]: "sound (readEchoesWith a ms idx)" "sound (readEchoes a ms idx)" "sound (echoNewScan areas)" "sound (echoAreaView a)"
proof -
  have m: "sound (mark_echo_read a m)" for a m unfolding mark_echo_read_def
    by (intro run_rules sound_store [where f = "\<lambda>i _. MarkEchoRead i (as_id a) (em_id m)"] acts_as.mark_echo)
  have "sound (echo_round a ms idx)" for a ms idx unfolding echo_round_def Let_def by (intro run_rules m)
  moreover have "eager_loop (echo_round a ms idx)" for a ms idx unfolding echo_round_def Let_def
    by (intro eats_if screen.eats_leave screen.eats_then screen.eats_first eat_rules run_rules m)
  ultimately show w: "sound (readEchoesWith a ms idx)" for a ms idx unfolding readEchoesWith_def by (intro run_rules)
  show r: "sound (readEchoes a ms idx)" for a ms idx unfolding readEchoes_def by (intro run_rules w)
  have "sound (echo_scan_loop areas found)" for areas found
    by (induction areas arbitrary: found) (simp_all only: echo_scan_loop.simps Let_def, (intro run_rules w; assumption?)+)
  then show "sound (echoNewScan areas)" unfolding echoNewScan_def by (intro run_rules)
  show "sound (echoAreaView a)" unfolding echoAreaView_def Let_def by (intro run_rules screen.eats_first eat_rules r)
qed

lemma sound_echoesMenu [run_rules]: "sound echoesMenu"
  unfolding echoesMenu_def Let_def by (intro run_rules screen.eats_first eat_rules)

lemma sound_sendNetmail [run_rules]: "sound (sendNetmail n a b hop)"
proof -
  have q: "sound (queue_once hop hdr ms)" for hop hdr ms
    unfolding queue_once_def Let_def by (intro run_rules acts_well_server) simp_all
  have l: "sound (queue_loop n hop hdr ms)" for n hop hdr ms
    by (induction n) (simp_all only: queue_loop.simps, (intro run_rules q; assumption?)+)
  have r: "sound (with_s (\<lambda>s. store_op (\<lambda>E. RecordSentNetmail E (n\<lparr>n_author := me s\<rparr>))))" for n
    by (rule sound_store [where f = "\<lambda>i E. RecordSentNetmail E (n\<lparr>n_author := i\<rparr>)"], rule acts_as.sent_netmail) simp_all
  show ?thesis unfolding sendNetmail_def Let_def by (intro run_rules l r)
qed

lemma sound_netmail [run_rules]: "sound (writeNetmail d)" "sound (replyNetmail m)" "sound (readNetmail ms idx)"
proof -
  have c: "sound (netmail_compose d a hop)" for d a hop unfolding netmail_compose_def by (intro run_rules)
  have r: "sound (netmail_route d)" for d unfolding netmail_route_def Let_def by (intro run_rules c)
  have a: "sound (netmail_ask d)" for d unfolding netmail_ask_def by (intro run_rules r)
  show w: "sound (writeNetmail d)" for d unfolding writeNetmail_def by (intro run_rules r a)
  show p: "sound (replyNetmail m)" for m unfolding replyNetmail_def by (intro run_rules w)
  have f: "acts_well (\<lambda>s. on_server (\<lambda>sv. sv\<lparr>sv_db := MarkNetmailRead (env s) i (database s)\<rparr>) s)" for i
    by (rule acts_well_store) (rule acts_as.mark_netmail)
  have m: "sound (mark_netmail_read m)" for m unfolding mark_netmail_read_def by (intro run_rules f)
  have "sound (netmail_round ms idx)" for idx unfolding netmail_round_def Let_def by (intro run_rules m p)
  moreover have "eager_loop (netmail_round ms idx)" for idx unfolding netmail_round_def Let_def
    by (intro eats_if screen.eats_leave screen.eats_then screen.eats_first eat_rules run_rules m p)
  ultimately show "sound (readNetmail ms idx)" unfolding readNetmail_def by (intro run_rules)
qed

lemma sound_netmailMenu [run_rules]: "sound netmailMenu"
  unfolding netmailMenu_def Let_def by (intro run_rules screen.eats_first eat_rules)

lemma sound_zmodemSend [run_rules]: "sound (zmodemSend path)"
  by (rule runsI) (auto simp: zmodemSend_def Let_def tc_write_def good_def t_ok_def goes_on_def me_def database_def split: prod.splits)

lemma sound_downloads [run_rules]: "sound (downloadZmodem f)" "sound (downloadLink f)"
proof -
  have c: "acts_well (\<lambda>s. on_server (\<lambda>sv. sv\<lparr>sv_db := CountDownload i (database s)\<rparr>) s)" for i
    by (rule acts_well_store) (rule acts_as.count_download)
  have m: "sound fileMissing" unfolding fileMissing_def by (intro run_rules)
  have s: "sound (send_file f path)" for f path unfolding send_file_def by (intro run_rules c)
  show "sound (downloadZmodem f)" unfolding downloadZmodem_def by (intro run_rules m s)
  show "sound (downloadLink f)" unfolding downloadLink_def Let_def by (intro run_rules)
qed

lemma sound_fileView [run_rules]: "sound (fileView a f)"
proof -
  have d: "sound op \<Longrightarrow> sound (download op)" for op unfolding download_def by (intro run_rules)
  show ?thesis unfolding fileView_def by (intro run_rules screen.eats_first eat_rules d)
qed

lemma sound_filesMenu [run_rules]: "sound (fileAreaView a)" "sound filesMenu"
proof -
  have m: "sound (mark_files a fs)" for a fs unfolding mark_files_def
    by (intro run_rules sound_store [where f = "\<lambda>i _. MarkFilesSeen i (as_id a) (f_id (hd fs))"] acts_as.mark_files)
  show v: "sound (fileAreaView a)" for a unfolding fileAreaView_def Let_def by (intro run_rules screen.eats_first eat_rules m)
  show "sound filesMenu" unfolding filesMenu_def Let_def by (intro run_rules screen.eats_first eat_rules v)
qed

end
