(* ===== verification/Bbs_Doors.thy ===== *)
theory Bbs_Doors
  imports Bbs_Fido
begin

text \<open>
  \<open>internal/bbs/doors.go\<close> and the room of \<open>chatui.go\<close>. A door's program is an argument of the server
  (\<open>sv_program\<close>): what it has written once it was given some keys, and when it ends by itself. The bytes it
  writes reach the caller in one piece here, when it is over.
\<close>

section \<open>Doors (doors.go)\<close>

definition eventDoor :: string where "eventDoor = ''door''"
definition doorSysopName :: string where "doorSysopName = ''Sysop''"

definition visibleDoors :: "caller \<Rightarrow> Door list" where
  "visibleDoors s = filter (\<lambda>d. \<not> do_SysopOnly d \<or> u_sysop (c_user s)) (sv_Doors (c_srv s))"

definition doorCountNote :: "caller \<Rightarrow> string" where
  "doorCountNote s = (let n = length (visibleDoors s) in if n = 0 then [] else colDim @ ''('' @ itoa (int n) @ '')'')"

definition doorInput :: "char \<Rightarrow> 'a session_scheme \<Rightarrow> string \<times> 'a session_scheme" where
  "doorInput b s = (if byte_val b < 0x80 \<or> s_cs s \<noteq> TermUTF8 then ([b], s)
     else case decodeHigh b s of (None, t) \<Rightarrow> ([], t) | (Some r, t) \<Rightarrow> (term_Encode TermCP437 (encode_rune r), t))"

text \<open>
  The loop of \<open>bridgeDoor\<close> over the events of the input: each key reaches the program unless the program has
  ended or the time is up before the key arrives. The result is all the program was given.
\<close>

definition door_stop :: "door_run \<Rightarrow> nanos \<Rightarrow> nanos \<Rightarrow> string \<Rightarrow> nanos" where
  "door_stop p started limit keys = (case dr_exit p keys of Some e \<Rightarrow> min (started + e) limit | None \<Rightarrow> limit)"

fun door_loop :: "door_run \<Rightarrow> nanos \<Rightarrow> nanos \<Rightarrow> (nanos \<times> char) list \<Rightarrow> string \<Rightarrow> (string, 'a session_scheme) io" where
  "door_loop p started limit [] keys s = (Fail ReadErr, s\<lparr>s_in := []\<rparr>)"
| "door_loop p started limit ((t, b) # rest) keys s =
     (if door_stop p started limit keys \<le> t then (Done keys, s\<lparr>s_now := max (s_now s) (door_stop p started limit keys)\<rparr>)
      else let (d, s') = doorInput b (s\<lparr>s_in := rest, s_now := t\<rparr>) in door_loop p started limit rest (keys @ d) s')"

definition bridgeDoor :: "door_run \<Rightarrow> nanos \<Rightarrow> nanos \<Rightarrow> (unit, caller) io" where
  "bridgeDoor p started limit = bind_io (with_s (\<lambda>s. door_loop p started limit (s_in s) []))
     (\<lambda>keys. effect (\<lambda>s. tc_write (TranscodeCP437 (dr_output p keys) (s_cs s)) s))"

definition fresh_screen :: "'a session_scheme \<Rightarrow> 'a session_scheme" where
  "fresh_screen s = s\<lparr>s_rend := NewRenderer (s_mode s)\<rparr>"

definition door_caller_of :: "caller \<Rightarrow> Door \<Rightarrow> door_caller" where
  "door_caller_of s d = (let u = c_user s in
     \<lparr>dc_Node = c_node s, dc_UserID = u_id u, dc_Handle = u_handle u, dc_Location = u_location u, dc_Sysop = u_sysop u, dc_Calls = u_calls u,
      dc_LastLogin = u_last_login u, dc_MinutesLeft = do_MaxMinutes d, dc_ScreenRows = height s, dc_ANSI = s_color s, dc_BBSName = sv_name (c_srv s),
      dc_SysopName = doorSysopName\<rparr>)"

definition door_vars :: "caller \<Rightarrow> Door \<Rightarrow> string \<Rightarrow> (string \<times> string) list" where
  "door_vars s d dropDir =
     [(''node'', itoa (c_node s)), (''dropdir'', dropDir), (''doorsys'', path_Join [dropDir, DoorSys]), (''dorinfo'', path_Join [dropDir, DorInfo]),
      (''handle'', u_handle (c_user s)), (''userid'', itoa (u_id (c_user s))), (''minutes'', itoa (do_MaxMinutes d))]"

definition drop_dir :: "caller \<Rightarrow> string" where
  "drop_dir s = sv_abs (c_srv s) (path_Join [sv_DoorsDir (c_srv s), ''node'' @ itoa (c_node s)])"

definition door_over :: "Door \<Rightarrow> nanos \<Rightarrow> nanos \<Rightarrow> (unit, caller) io" where
  "door_over d started limit = then_io (effect fresh_screen) (then_io (print (''|RE'' @ nl @ nl)) (with_s (\<lambda>s.
     then_io (if limit \<le> s_now s then print (colAlert @ ''Time'' @ apostrophe @ ''s up in '' @ safe (do_Name d) @ ''.'' @ nl) else return_io ())
       (tell (colDim @ ''Back from '' @ safe (do_Name d) @ '' after '' @ shortDuration (s_now s - started) @ ''.'')))))"

definition play_door :: "Door \<Rightarrow> door_run \<Rightarrow> nanos \<Rightarrow> (unit, caller) io" where
  "play_door d p limit = then_io (with_s (\<lambda>s. effect (log_event eventDoor (u_id (c_user s)) (u_handle (c_user s)) (''opened '' @ do_Key d))))
     (with_s (\<lambda>s. then_io (bridgeDoor p (s_now s) limit) (door_over d (s_now s) limit)))"

definition open_door :: "Door \<Rightarrow> (unit, caller) io" where
  "open_door d = then_io (session_setActivity (''Playing '' @ do_Name d)) (with_s (\<lambda>s.
     let sv = c_srv s; dir = drop_dir s; limit = s_now s + do_MaxMinutes d * minute;
         (args, cwd, envs) = door_command (se_upper (env s)) (sv_getenv sv) (sv_doorPort sv) d (door_vars s d dir)
     in then_io (effect (on_server (\<lambda>sv. sv\<lparr>sv_dropFiles := WriteDropFiles (sv_tz sv) (se_upper (env s)) dir (door_caller_of s d) (s_now s) (sv_dropFiles sv)\<rparr>)))
          (then_io (print ''|CL'') (then_io (print (colDim @ ''Opening '' @ colBright @ safe (do_Name d) @ colDim @ ''... '' @ colDim @ ''(time limit '' @
              itoa (do_MaxMinutes d) @ '' min)|RE'' @ CRLF))
            (case sv_program sv args cwd envs of
               None \<Rightarrow> tell (nl @ colAlert @ ''That door is stuck shut. The sysop has been told.'')
             | Some p \<Rightarrow> play_door d p limit)))))"

definition set_busy :: "string \<Rightarrow> bool \<Rightarrow> caller \<Rightarrow> caller" where
  "set_busy k b = on_server (\<lambda>sv. sv\<lparr>sv_doorBusy := (sv_doorBusy sv)(k := b)\<rparr>)"

text \<open>The lock of a single-node door is released however the visit ends.\<close>

definition locked :: "string \<Rightarrow> (unit, caller) io \<Rightarrow> (unit, caller) io" where
  "locked k m s = (let (q, t) = m (set_busy k True s) in (q, set_busy k False t))"

definition runDoor :: "Door \<Rightarrow> (unit, caller) io" where
  "runDoor d = (if \<not> do_SingleNode d then open_door d
     else with_s (\<lambda>s. if sv_doorBusy (c_srv s) (do_Key d) then tell (nl @ colAlert @ ''Someone else is in '' @ safe (do_Name d) @ '' right now. Try again soon.'')
       else locked (do_Key d) (open_door d)))"

definition door_row :: "nat \<times> Door \<Rightarrow> string" where
  "door_row id1 = (case id1 of (i, d) \<Rightarrow>
     colValue @ pad_left 4 (itoa (int i + 1)) @ ''  '' @ colHandle @ safe (Pad (do_Name d) 26) @ '' '' @ colLabel @ safe (Pad (do_Description d) 34) @ '' '' @
     colDim @ itoa (do_MaxMinutes d) @ '' min'')"

definition doorsMenu :: "(unit, caller) io" where
  "doorsMenu = repeat_io (\<lambda>_. then_io (session_setActivity ''Door games'') (with_s (\<lambda>s. let ds = visibleDoors s in
     then_io (screen_header ''Door Games'')
       (then_io (session_table ''Doors'' (pad_left 4 ''#'' @ ''  '' @ Pad ''Door'' 26 @ '' '' @ Pad ''About'' 34 @ '' Limit'') (map door_row (enumerate 0 ds)) ''No doors are open today.'')
         (if ds = [] then and_leave pause
          else bind_io (pickNumber (length ds) ''Open door'') (\<lambda>pick. case pick of
              None \<Rightarrow> leave_with ()
            | Some n \<Rightarrow> and_again (runDoor (ds ! (n - 1))))))))) ()"

section \<open>The chat room (chatui.go)\<close>

text \<open>
  The chat screen: what is typed, whether the prompt is on the screen, whether a write failed. While the caller
  is in the room nothing but the chat screen is rendered, so its renderer is the session's, fresh at the
  start. The goroutine that prints incoming lines (\<open>forward\<close>) runs as soon as there is one.
\<close>

record chatScreen =
  sc_buf :: "rune list"
  sc_shown :: bool
  sc_werr :: bool

definition maxChatLineLen :: nat where "maxChatLineLen = 200"
definition chat_prompt :: string where "chat_prompt = colTitle @ prompt_mark @ '' '' @ colLabel"

definition emit :: "string \<Rightarrow> chatScreen \<Rightarrow> (chatScreen, 'a session_scheme) io" where
  "emit t c s = (if sc_werr c then (Done c, s)
     else case Render (s_rend s) t of
         None \<Rightarrow> (Panicked, s)
       | Some (out, r) \<Rightarrow> (Done (c\<lparr>sc_werr := s_broken s\<rparr>), tc_write (term_Encode (s_cs s) (replace_all [CHR 0x0A] CRLF out)) (s\<lparr>s_rend := r\<rparr>)))"

definition chat_clear :: "chatScreen \<Rightarrow> (chatScreen, caller) io" where
  "chat_clear c = with_s (\<lambda>s. emit (if s_color s then CHR 0x0D # ESC # ''[K'' else nl) c)"

definition chat_show :: "string \<Rightarrow> chatScreen \<Rightarrow> (chatScreen, caller) io" where
  "chat_show line c = bind_io (chat_clear c) (\<lambda>c. bind_io (emit (line @ ''|RE'' @ nl @ chat_prompt) c) (\<lambda>c.
     bind_io (emit (Escape (of_runes (sc_buf c))) c) (\<lambda>c. return_io (c\<lparr>sc_shown := True\<rparr>))))"

fun chat_show_all :: "string list \<Rightarrow> chatScreen \<Rightarrow> (chatScreen, caller) io" where
  "chat_show_all [] c = return_io c"
| "chat_show_all (l # ls) c = bind_io (chat_show l c) (chat_show_all ls)"

definition chat_address :: "caller \<Rightarrow> nat" where
  "chat_address s = nat (c_node s)"

definition on_chat :: "(chatHub \<Rightarrow> chatHub) \<Rightarrow> caller \<Rightarrow> caller" where
  "on_chat f = on_server (\<lambda>sv. sv\<lparr>sv_chat := f (sv_chat sv)\<rparr>)"

text \<open>\<open>forward\<close>: the lines that have arrived, then the notices.\<close>

definition chat_forward :: "chatScreen \<Rightarrow> (chatScreen, caller) io" where
  "chat_forward c = with_s (\<lambda>s.
     let a = chat_address s;
         lines = map ln_text (cm_out (ch_members (sv_chat (c_srv s)) a));
         notes = (case lookup_node (c_node s) (sv_nodes (c_srv s)) of None \<Rightarrow> [] | Some n \<Rightarrow> fst (takeNotices n))
     in then_io (effect (on_chat (\<lambda>h. (receive a ^^ length lines) h))) (then_io (effect (on_node (\<lambda>n. snd (takeNotices n))))
          (chat_show_all (lines @ map (\<lambda>n. CHR 0x07 # ''|15*** |14'' @ safe n @ '' |15***'') notes) c)))"

definition chat_key :: "chatScreen \<Rightarrow> (chatScreen + (string \<times> chatScreen), caller) io" where
  "chat_key c = bind_io readRune (\<lambda>r.
     if r = keyEnter then bind_io (chat_clear (c\<lparr>sc_buf := [], sc_shown := False\<rparr>)) (\<lambda>c'.
       if sc_werr c' then (\<lambda>s. (Fail WriteErr, s)) else return_io (Inr (of_runes (sc_buf c), c')))
     else if r = keyBackspace then (if sc_buf c = [] then return_io (Inl c)
       else bind_io (emit rubout (c\<lparr>sc_buf := butlast (sc_buf c)\<rparr>)) (\<lambda>c. return_io (Inl c)))
     else if 0x20 \<le> r \<and> length (sc_buf c) < maxChatLineLen
     then bind_io (emit (Escape (of_runes [r])) (c\<lparr>sc_buf := sc_buf c @ [r]\<rparr>)) (\<lambda>c. return_io (Inl c))
     else return_io (Inl c))"

definition chat_readLine :: "chatScreen \<Rightarrow> (string \<times> chatScreen, caller) io" where
  "chat_readLine c0 = (let c = c0\<lparr>sc_buf := []\<rparr> in
     bind_io (if sc_shown c then return_io c else bind_io (emit chat_prompt c) (\<lambda>c. return_io (c\<lparr>sc_shown := True\<rparr>))) (repeat_io chat_key))"

text \<open>One line: \<open>chatCommand\<close> on the hub and the limiter of the server; whether the caller quits.\<close>

definition chat_command :: "string \<Rightarrow> chatScreen \<Rightarrow> (bool \<times> chatScreen, caller) io" where
  "chat_command line c = with_s (\<lambda>s.
     let (quit, st) = chatCommand (se_lower (env s)) (s_now s) (clock_text (sv_tz (c_srv s)) (s_now s)) (chat_address s) line
           \<lparr>ui_hub = sv_chat (c_srv s), ui_limit = lm_chat (sv_limit (c_srv s)), ui_shown = [], ui_activity = []\<rparr>
     in then_io (effect (on_server (\<lambda>sv. sv\<lparr>sv_chat := ui_hub st, sv_limit := (sv_limit sv)\<lparr>lm_chat := ui_limit st\<rparr>\<rparr>)))
          (then_io (if ui_activity st = [] then return_io () else session_setActivity (ui_activity st))
            (bind_io (chat_show_all (ui_shown st) c) (\<lambda>c. return_io (quit, c)))))"

definition chat_round :: "chatScreen \<Rightarrow> (chatScreen + unit, caller) io" where
  "chat_round c = bind_io (chat_forward c) (\<lambda>c. bind_io (chat_readLine c) (\<lambda>(line0, c).
     let line = trim_space (StripControl line0)
     in if line = [] then return_io (Inl c)
        else bind_io (chat_command line c) (\<lambda>(quit, c). if quit then leave_with () else return_io (Inl c))))"

definition enter_room :: "caller \<Rightarrow> caller" where
  "enter_room s = (let blocks = map u_id (BlockedUsers (database s) (me s)); a = chat_address s
     in on_chat (\<lambda>h. join_hub a defaultRoom (h\<lparr>ch_members := (ch_members h)(a := newChatMember (me s) (u_handle (c_user s)) (\<lambda>u. u \<in> set blocks))\<rparr>)) s)"

definition leave_room :: "caller \<Rightarrow> caller" where
  "leave_room s = fresh_screen (on_chat (leave (chat_address s)) s)"

definition chatRoom :: "(unit, caller) io" where
  "chatRoom = then_io (session_setActivity ''Chatting'') (then_io (screen_header ''Chat'')
     (then_io (box ''Teleconference'' [colLabel @ ''Say something and press Enter. Everyone in the room sees it.'', chatHelp])
       (then_io (effect (\<lambda>s. enter_room (fresh_screen s)))
         (\<lambda>s. let (q, t) = repeat_io chat_round \<lparr>sc_buf = [], sc_shown = False, sc_werr = False\<rparr> s in (q, leave_room t)))))"

section \<open>They run\<close>

lemma doorInput_moves: "\<exists>u. snd (doorInput b s) = s\<lparr>s_ubuf := u\<rparr>"
proof -
  have same: "\<exists>u. s = s\<lparr>s_ubuf := u\<rparr>" by (rule exI [of _ "s_ubuf s"]) simp
  then show ?thesis by (auto simp: doorInput_def decodeHigh_def Let_def split: term_charset.splits prod.splits option.splits)
qed

lemma good_moved: "good s \<Longrightarrow> good (s\<lparr>s_in := xs, s_now := t\<rparr>)" "good s \<Longrightarrow> good (s\<lparr>s_ubuf := u\<rparr>)"
  by (simp_all add: good_def t_ok_def)

lemma goes_on_moved:
  "length xs \<le> length (s_in s) \<Longrightarrow> goes_on s (s\<lparr>s_in := xs, s_now := t, s_ubuf := u\<rparr>)"
  by (simp add: goes_on_def me_def database_def)

lemma door_loop_fine:
  fixes s t :: caller
  shows "good s \<Longrightarrow> s_in s = evs \<Longrightarrow> door_loop p started limit evs keys s = (q, t) \<Longrightarrow>
     good t \<and> goes_on s t \<and> q \<noteq> Panicked \<and> q \<noteq> Fail Spins"
proof (induction evs arbitrary: keys s)
  case Nil
  then show ?case by (auto simp: good_def t_ok_def goes_on_def me_def database_def)
next
  case (Cons ev evs)
  obtain m b where ev: "ev = (m, b)" by fastforce
  show ?case
  proof (cases "door_stop p started limit keys \<le> m")
    case True
    then show ?thesis using Cons.prems by (auto simp: ev good_def t_ok_def goes_on_def me_def database_def)
  next
    case False
    obtain d s' where d: "doorInput b (s\<lparr>s_in := evs, s_now := m\<rparr>) = (d, s')" by fastforce
    obtain u where u: "s' = s\<lparr>s_in := evs, s_now := m, s_ubuf := u\<rparr>"
      using doorInput_moves [of b "s\<lparr>s_in := evs, s_now := m\<rparr>"] d by auto
    have g: "good s'" unfolding u by (intro good_moved Cons.prems)
    have "door_loop p started limit evs (keys @ d) s' = (q, t)" using Cons.prems(3) False by (simp add: ev d)
    from Cons.IH [OF g _ this] have "good t \<and> goes_on s' t \<and> q \<noteq> Panicked \<and> q \<noteq> Fail Spins" by (simp add: u)
    moreover have "goes_on s s'" unfolding u by (rule goes_on_moved) (simp add: Cons.prems ev)
    ultimately show ?thesis using screen.trans by blast
  qed
qed

lemma sound_fresh_screen [run_rules]: "sound (effect fresh_screen)"
  by (rule screen.runs_effect) (simp add: fresh_screen_def good_def t_ok_def goes_on_def me_def database_def NewRenderer_inv)

lemma acts_well_tc_write: "acts_well (\<lambda>s. tc_write (f s) s)"
  by (simp add: acts_well_def tc_write_def me_def database_def)

lemma sound_bridgeDoor [run_rules]: "sound (bridgeDoor p started limit)"
proof -
  have loop: "sound (with_s (\<lambda>s. door_loop p started limit (s_in s) []))"
    by (rule runsI) (simp add: with_s_def door_loop_fine)
  show ?thesis unfolding bridgeDoor_def by (rule screen.runs_bind [OF loop]) (intro run_rules acts_well_tc_write)
qed

lemma sound_locked: "sound m \<Longrightarrow> sound (locked k m)"
proof (rule runsI)
  fix s q t assume m: "sound m" and s: "good s" "locked k m s = (q, t)"
  have busy: "acts_well (set_busy k b)" for b unfolding set_busy_def by (rule acts_well_server) simp
  obtain u where u: "m (set_busy k True s) = (q, u)" "t = set_busy k False u" using s(2) by (auto simp: locked_def split: prod.splits)
  note a = acts_wellD [OF busy s(1), of True]
  note b = runsD [OF m a [THEN conjunct1] u(1)]
  note c = acts_wellD [OF busy b [THEN conjunct1], of False]
  show "good t \<and> goes_on s t \<and> q \<noteq> Panicked \<and> q \<noteq> Fail Spins"
    using a b c u(2) screen.trans by blast
qed

lemma sound_doors [run_rules]: "sound (runDoor d)" "sound doorsMenu"
proof -
  have o: "sound (door_over d a b)" for d a b unfolding door_over_def by (intro run_rules)
  have p: "sound (play_door d p limit)" for d p limit unfolding play_door_def by (intro run_rules o)
  have f: "acts_well (on_server (\<lambda>sv. sv\<lparr>sv_dropFiles := g sv\<rparr>))" for g by (rule acts_well_server) simp
  have open_it: "sound (open_door d)" for d unfolding open_door_def Let_def by (intro run_rules f p)
  show r: "sound (runDoor d)" for d unfolding runDoor_def by (intro run_rules sound_locked open_it)
  show "sound doorsMenu" unfolding doorsMenu_def Let_def by (intro run_rules screen.eats_first eat_rules r)
qed

lemma sound_emit [run_rules]: "sound (emit t c)"
proof (rule runsI)
  fix s q u assume s: "good s" "emit t c s = (q, u)"
  obtain out r where "Render (s_rend s) t = Some (out, r)" "renderer_inv r"
    using Render_total [of "s_rend s" t] s(1) by (auto simp: good_def t_ok_def)
  then show "good u \<and> goes_on s u \<and> q \<noteq> Panicked \<and> q \<noteq> Fail Spins"
    using s by (auto simp: emit_def tc_write_def good_def t_ok_def goes_on_def me_def database_def split: if_splits)
qed

lemma sound_chat_show [run_rules]: "sound (chat_clear c)" "sound (chat_show l c)" "sound (chat_show_all ls c)"
proof -
  show c: "sound (chat_clear c)" for c unfolding chat_clear_def by (intro run_rules)
  show l: "sound (chat_show l c)" for l c unfolding chat_show_def by (intro run_rules c)
  show "sound (chat_show_all ls c)"
    by (induction ls arbitrary: c) (simp_all only: chat_show_all.simps, (intro run_rules l; assumption?)+)
qed

lemma acts_well_chat: "acts_well (on_chat f)"
  unfolding on_chat_def by (rule acts_well_server) simp

lemma sound_chat_forward [run_rules]: "sound (chat_forward c)"
  unfolding chat_forward_def Let_def by (intro run_rules acts_well_chat)

lemma sound_chat_readLine [run_rules]: "sound (chat_readLine c)" "eats good s_in P (chat_readLine c)"
proof -
  have k: "sound (chat_key c)" for c
    unfolding chat_key_def by (intro run_rules screen.runs_fail) simp
  have e: "eats good s_in P (chat_key c)" for P c
    unfolding chat_key_def by (intro screen.eats_first eat_rules run_rules screen.runs_fail) simp
  show "sound (chat_readLine c)" unfolding chat_readLine_def Let_def by (intro run_rules k e)
  have "eats good s_in (\<lambda>_. True) (chat_readLine c)"
    unfolding chat_readLine_def Let_def by (intro screen.eats_later run_rules screen.eats_repeat k e)
  then show "eats good s_in P (chat_readLine c)" by (rule eats_mono) simp
qed

lemma sound_chatRoom [run_rules]: "sound chatRoom"
proof -
  have f: "acts_well (on_server (\<lambda>sv. sv\<lparr>sv_chat := h, sv_limit := g sv\<rparr>))" for h g by (rule acts_well_server) simp
  have c: "sound (chat_command line c)" for line c
    unfolding chat_command_def Let_def by (intro run_rules f)
  have "sound (chat_round c)" for c unfolding chat_round_def Let_def by (intro run_rules c)
  moreover have "eager_loop (chat_round c)" for c unfolding chat_round_def Let_def
    by (rule screen.eats_later [OF sound_chat_forward]) (intro screen.eats_first sound_chat_readLine run_rules c)
  ultimately have l: "sound (repeat_io chat_round c)" for c by (rule screen.runs_repeat)
  have "acts_well (on_chat f)" for f by (rule acts_well_chat)
  then have e: "good s \<Longrightarrow> good (enter_room (fresh_screen s)) \<and> goes_on s (enter_room (fresh_screen s))"
    and q: "good s \<Longrightarrow> good (leave_room s) \<and> goes_on s (leave_room s)" for s
    by (simp_all add: enter_room_def leave_room_def Let_def on_chat_def on_server_def fresh_screen_def good_def t_ok_def goes_on_def me_def
        database_def NewRenderer_inv)
  have "sound (\<lambda>s. let (q, t) = repeat_io chat_round c s in (q, leave_room t))" for c
  proof (rule runsI)
    fix s p t assume s: "good s" "(let (q, t) = repeat_io chat_round c s in (q, leave_room t)) = (p, t)"
    obtain u where u: "repeat_io chat_round c s = (p, u)" "t = leave_room u" using s(2) by (auto split: prod.splits)
    note b = runsD [OF l s(1) u(1)]
    show "good t \<and> goes_on s t \<and> p \<noteq> Panicked \<and> p \<noteq> Fail Spins" using b q [of u] u(2) screen.trans by blast
  qed
  then show ?thesis unfolding chatRoom_def by (intro run_rules screen.runs_effect e)
qed

end
