(* ===== verification/Bbs_Menu.thy ===== *)
theory Bbs_Menu
  imports Bbs_Sysop Bbs_Doors
begin

text \<open>
  \<open>internal/bbs/menu.go\<close>, the rest of \<open>login.go\<close> and \<open>run\<close> of \<open>session.go\<close>: what a caller is offered after signing in, the
  main menu with every screen behind it, and the whole session.
\<close>

section \<open>Main menu (menu.go)\<close>

record mainMenuCounts =
  mc_unreadMail :: nat
  mc_newPosts :: nat
  mc_newEchoes :: nat
  mc_newNetmail :: nat
  mc_newFiles :: nat
  mc_members :: nat
  mc_online :: nat
  mc_inChat :: nat

definition loadMainMenuCounts :: "caller \<Rightarrow> mainMenuCounts" where
  "loadMainMenuCounts s = (let d = database s in
     \<lparr>mc_unreadMail = UnreadCount d (me s), mc_newPosts = sum_list (map bs_new (Boards d (me s))), mc_newEchoes = EchoUnreadCount d (me s),
      mc_newNetmail = NetmailUnread d (c_user s), mc_newFiles = NewFilesCount d (me s), mc_members = UserCount d,
      mc_online = length (online (sv_nodes (c_srv s))), mc_inChat = chat_count (sv_chat (c_srv s))\<rparr>)"

definition countNote :: "nat \<Rightarrow> string \<Rightarrow> string" where
  "countNote n suff = (if n = 0 then [] else colAlert @ ''('' @ itoa (int n) @ suff @ '')'')"

definition status_part :: "nat \<Rightarrow> string \<Rightarrow> string \<Rightarrow> string" where
  "status_part n word color = (if n = 0 then colDim @ ''no '' @ word @ ''s'' else color @ plural (int n) word)"

definition statusStrip :: "mainMenuCounts \<Rightarrow> string" where
  "statusStrip c = '' '' @ join (colBorder @ ''  '' @ dot @ ''  '')
     [status_part (mc_unreadMail c) ''new message'' colAlert, status_part (mc_newPosts c) ''new post'' colAlert,
      status_part (mc_newEchoes c) ''new echo'' colAlert, colInfo @ itoa (int (mc_online c)) @ '' online'', colInfo @ plural (int (mc_members c)) ''member'']"

definition menu_messages :: "caller \<Rightarrow> mainMenuCounts \<Rightarrow> menuItem list" where
  "menu_messages s c =
     [item CHR ''M'' ''Mailbox'' (countNote (mc_unreadMail c) '' new''), item CHR ''B'' ''Message boards'' (countNote (mc_newPosts c) '' new''),
      item CHR ''E'' ''FidoNet echoes'' (countNote (mc_newEchoes c) '' new''), item CHR ''T'' ''FidoNet netmail'' (countNote (mc_newNetmail c) '' new''),
      item CHR ''F'' ''File areas'' (countNote (mc_newFiles c) '' new''),
      item CHR ''C'' ''Chat room'' (if 0 < mc_inChat c then colValue @ ''('' @ itoa (int (mc_inChat c)) @ '' here)'' else []),
      item CHR ''P'' ''Page someone'' [], item CHR ''N'' ''News'' [], item CHR ''D'' ''Door games'' (doorCountNote s)]"

definition menu_people :: "mainMenuCounts \<Rightarrow> menuItem list" where
  "menu_people c =
     [item CHR ''W'' (''Who'' @ apostrophe @ ''s online'') (colDim @ ''('' @ itoa (int (mc_online c)) @ '')''), item CHR ''L'' ''Last callers'' [],
      item CHR ''U'' ''User list'' (colDim @ ''('' @ itoa (int (mc_members c)) @ '')''), item CHR ''O'' ''Oneliner wall'' []]"

definition menu_bar :: "caller \<Rightarrow> menuItem list" where
  "menu_bar s = [item CHR ''S'' ''Settings'' []] @ (if u_sysop (c_user s) then [item CHR ''!'' ''Sysop'' (pendingNote s)] else []) @ [item CHR ''G'' ''Goodbye'' []]"

definition menu_keys :: "caller \<Rightarrow> string" where
  "menu_keys s = ''MBETFCPNDWLUOSG'' @ (if u_sysop (c_user s) then ''!'' else [])"

definition approved_only :: "string \<Rightarrow> (unit, caller) io \<Rightarrow> (unit, caller) io" where
  "approved_only what m = bind_io (awaitingApproval what) (\<lambda>stop. if stop then return_io () else m)"

definition mainMenuAction :: "rune \<Rightarrow> (unit, caller) io" where
  "mainMenuAction k =
     (if k = byte_val CHR ''M'' then mailMenu
      else if k = byte_val CHR ''B'' then boardsMenu
      else if k = byte_val CHR ''E'' then echoesMenu
      else if k = byte_val CHR ''T'' then netmailMenu
      else if k = byte_val CHR ''F'' then filesMenu
      else if k = byte_val CHR ''C'' then approved_only ''Chat'' chatRoom
      else if k = byte_val CHR ''P'' then approved_only ''Paging'' pageSomeone
      else if k = byte_val CHR ''N'' then news
      else if k = byte_val CHR ''D'' then approved_only ''The door games'' doorsMenu
      else if k = byte_val CHR ''W'' then whoOnline
      else if k = byte_val CHR ''L'' then lastCallers
      else if k = byte_val CHR ''U'' then userList
      else if k = byte_val CHR ''O'' then onelinerWall False
      else if k = byte_val CHR ''S'' then settings
      else if k = byte_val CHR ''!'' then sysopMenu
      else return_io ())"

definition main_screen :: "(unit, caller) io" where
  "main_screen = with_s (\<lambda>s. let c = loadMainMenuCounts s in
     then_io (screen_header ''Main Menu'') (then_io (print (statusStrip c @ nl))
       (then_io (menuColumns ''Messages'' (menu_messages s c) ''People'' (menu_people c))
         (then_io approvalNotice (with_s (\<lambda>s. print (nl @ keyBar (menu_bar s) s @ nl)))))))"

definition main_round :: "(unit + unit, caller) io" where
  "main_round = then_io refreshUser (then_io (session_setActivity ''Main menu'') (then_io main_screen
     (bind_io (with_s (\<lambda>s. menuPrompt ''Main'' (menu_keys s))) (\<lambda>k.
        if k = byte_val CHR ''G'' then bind_io (session_yesNo ''Log off?'' True) (\<lambda>bye. if bye then leave_with () else again)
        else and_again (mainMenuAction k)))))"

definition mainMenu :: "(unit, caller) io" where
  "mainMenu = repeat_io (\<lambda>_. main_round) ()"

section \<open>After signing in (login.go), and the session (session.go)\<close>

definition offerNews :: "nanos \<Rightarrow> (unit, caller) io" where
  "offerNews since = with_s (\<lambda>s. let n = BulletinsSince (database s) since in
     if n = 0 then return_io ()
     else then_io (print (nl @ ''  '' @ colValue @ ''There '' @ pluralVerb (int n) ''new bulletin'' @ ''.'' @ nl))
       (bind_io (session_yesNo ''Read the news now?'' True) (\<lambda>read. if read then news else return_io ())))"

definition offerNewMail :: "(unit, caller) io" where
  "offerNewMail = with_s (\<lambda>s. let n = UnreadCount (database s) (me s) in
     if n = 0 then then_io (print (nl @ ''  '' @ colDim @ ''No new mail.'' @ nl @ nl)) pause
     else then_io (print (nl @ ''  '' @ colAlert @ ''You have '' @ plural (int n) ''new message'' @ ''.'' @ nl @ nl))
       (bind_io (session_yesNo ''Read them now?'' True) (\<lambda>read. if read then readNewMail else return_io ())))"

definition goodbye :: "(unit, caller) io" where
  "goodbye = then_io (session_setActivity ''Logging off'') (with_s (\<lambda>s.
     bind_io (showCustomArt ''goodbye'' (screenTokens s)) (\<lambda>shown. if shown then return_io ()
       else showArt ''goodbye'' [(''BBS'', sv_name (c_srv s)), (''HANDLE'', u_handle (c_user s)), (''DURATION'', shortDuration (s_now s - c_start s))])))"

text \<open>From the greeting to the end; \<open>prev\<close> is the time of the call before.\<close>

definition signed_in :: "nanos \<Rightarrow> (unit, caller) io" where
  "signed_in prev = then_io (offerNews prev) (then_io offerNewMail (then_io (onelinerWall True) (then_io mainMenu goodbye)))"

text \<open>\<open>run\<close>; \<open>tt\<close> and \<open>key\<close> are what the transport knows of the terminal and of an SSH key.\<close>

definition run_session :: "string option \<Rightarrow> int option \<Rightarrow> (unit, caller) io" where
  "run_session tt key = then_io (chooseTerminal tt False) (then_io welcome_screen
     (bind_io (if keyUserOf key \<noteq> 0 then keyLogin (keyUserOf key) else login) (\<lambda>ok.
        if \<not> ok then return_io ()
        else then_io (effect (\<lambda>s. s\<lparr>c_loggedIn := True\<rparr>)) (bind_io afterLogin_greet signed_in))))"

section \<open>It runs\<close>

lemma sound_approvalNotice [run_rules]: "sound approvalNotice"
proof (rule runsI)
  fix s q t assume s: "good s" "approvalNotice s = (q, t)"
  show "good t \<and> goes_on s t \<and> q \<noteq> Panicked \<and> q \<noteq> Fail Spins"
    using s runsD [OF t_print [THEN sound_terminal] s(1)] screen.refl by (auto simp: approvalNotice_def split: if_splits)
qed

lemma sound_mainMenuAction [run_rules]: "sound (mainMenuAction k)"
proof -
  have a: "sound m \<Longrightarrow> sound (approved_only what m)" for what m unfolding approved_only_def by (intro run_rules)
  show ?thesis unfolding mainMenuAction_def by (intro run_rules a)
qed

lemma sound_main_screen [run_rules]: "sound main_screen"
  unfolding main_screen_def Let_def by (intro run_rules)

lemma sound_main_round [run_rules]: "sound main_round" "eats good s_in round_again main_round"
  unfolding main_round_def by (intro run_rules screen.eats_then screen.eats_first eat_rules)+

lemma sound_mainMenu [run_rules]: "sound mainMenu"
  unfolding mainMenu_def by (intro run_rules sound_main_round)

lemma sound_signed_in [run_rules]: "sound (signed_in prev)"
proof -
  have n: "sound (offerNews since)" for since unfolding offerNews_def Let_def by (intro run_rules)
  have m: "sound offerNewMail" unfolding offerNewMail_def Let_def by (intro run_rules)
  have g: "sound goodbye" unfolding goodbye_def by (intro run_rules)
  show ?thesis unfolding signed_in_def by (intro run_rules n m g)
qed

end
