(* ===== verification/Session_Props.thy ===== *)
theory Session_Props
  imports Bbs_Menu Login_Props
begin

text \<open>
  What holds of a whole session after signing in, whatever the caller types: it ends, the database keeps its
  invariant, a caller without sysop rights changes nothing of others, and a caller who waits for approval stays out of
  the chat, the pager and the doors.
\<close>

section \<open>What an account cannot reach\<close>

definition is_sysop :: "db \<Rightarrow> int \<Rightarrow> bool" where
  "is_sysop d u \<longleftrightarrow> (\<exists>r. find_user d u = Some r \<and> u_sysop r)"

definition standing :: "user_row \<Rightarrow> int \<times> string \<times> bool \<times> bool \<times> bool" where
  "standing r = (u_id r, u_handle r, u_sysop r, u_locked r, u_validated r)"

definition letter_of :: "message_row \<Rightarrow> int \<times> int \<times> int \<times> string \<times> string \<times> nanos" where
  "letter_of m = (m_id m, m_from m, m_to m, m_subject m, m_body m, m_sent m)"

text \<open>
  The mail of others: letters between other accounts are as before; no letter in another's name appeared; and a copy that
  another account kept, as sender or as recipient, is still there with the same text.
\<close>

definition kept_letters :: "(message_row \<Rightarrow> bool) \<Rightarrow> message_row list \<Rightarrow> message_row list \<Rightarrow> bool" where
  "kept_letters P ms ms' \<longleftrightarrow> (\<forall>m \<in> set ms. P m \<longrightarrow> (\<exists>m1 \<in> set ms'. letter_of m1 = letter_of m \<and> P m1))"

definition mail_confined :: "int \<Rightarrow> message_row list \<Rightarrow> message_row list \<Rightarrow> bool" where
  "mail_confined u ms ms' \<longleftrightarrow>
     filter (\<lambda>m. m_from m \<noteq> u \<and> m_to m \<noteq> u) ms' = filter (\<lambda>m. m_from m \<noteq> u \<and> m_to m \<noteq> u) ms \<and>
     kept_letters (\<lambda>m. m_from m \<noteq> u) ms' ms \<and>
     kept_letters (\<lambda>m. m_from m \<noteq> u \<and> \<not> m_del_from m) ms ms' \<and>
     kept_letters (\<lambda>m. m_to m \<noteq> u \<and> \<not> m_del_to m) ms ms'"

text \<open>
  From \<open>d\<close> to \<open>d'\<close> nothing changed but what belongs to account \<open>u\<close>: everybody keeps handle, rights, lock and
  approval; the other accounts keep their rows, blocks, keys, pending addresses, read marks, wall lines, posts and mail;
  boards, bulletins, conferences, file areas and files stay, but for the count of downloads.
\<close>

definition confined :: "int \<Rightarrow> db \<Rightarrow> db \<Rightarrow> bool" where
  "confined u d d' \<longleftrightarrow>
     map standing (t_users d') = map standing (t_users d) \<and>
     filter (\<lambda>r. u_id r \<noteq> u) (t_users d') = filter (\<lambda>r. u_id r \<noteq> u) (t_users d) \<and>
     filter (\<lambda>p. fst p \<noteq> u) (t_blocks d') = filter (\<lambda>p. fst p \<noteq> u) (t_blocks d) \<and>
     filter (\<lambda>k. k_user k \<noteq> u) (t_ssh_keys d') = filter (\<lambda>k. k_user k \<noteq> u) (t_ssh_keys d) \<and>
     filter (\<lambda>v. v_user v \<noteq> u) (t_verifications d') = filter (\<lambda>v. v_user v \<noteq> u) (t_verifications d) \<and>
     filter (\<lambda>m. fst (fst m) \<noteq> u) (t_board_reads d') = filter (\<lambda>m. fst (fst m) \<noteq> u) (t_board_reads d) \<and>
     filter (\<lambda>m. fst (fst m) \<noteq> u) (t_echo_reads d') = filter (\<lambda>m. fst (fst m) \<noteq> u) (t_echo_reads d) \<and>
     filter (\<lambda>m. fst (fst m) \<noteq> u) (t_file_reads d') = filter (\<lambda>m. fst (fst m) \<noteq> u) (t_file_reads d) \<and>
     filter (\<lambda>x. o_author x \<noteq> u) (t_oneliners d') = filter (\<lambda>x. o_author x \<noteq> u) (t_oneliners d) \<and>
     filter (\<lambda>p. p_author p \<noteq> u) (t_posts d') = filter (\<lambda>p. p_author p \<noteq> u) (t_posts d) \<and>
     mail_confined u (t_messages d) (t_messages d') \<and>
     t_boards d' = t_boards d \<and> t_bulletins d' = t_bulletins d \<and> t_echo_areas d' = t_echo_areas d \<and>
     t_echo_messages d' = t_echo_messages d \<and> t_tossed d' = t_tossed d \<and> t_file_areas d' = t_file_areas d \<and>
     map (\<lambda>f. f\<lparr>f_downloads := 0\<rparr>) (t_files d') = map (\<lambda>f. f\<lparr>f_downloads := 0\<rparr>) (t_files d)"

lemma kept_letters_subset: "set ms \<subseteq> set ms' \<Longrightarrow> kept_letters P ms ms'"
  by (auto simp: kept_letters_def)

lemma kept_letters_trans: "kept_letters P a b \<Longrightarrow> kept_letters P b c \<Longrightarrow> kept_letters P a c"
  unfolding kept_letters_def by (metis (no_types, lifting))

lemma kept_letters_update:
  "(\<And>m. p m \<Longrightarrow> letter_of (f m) = letter_of m \<and> (P m \<longrightarrow> P (f m))) \<Longrightarrow> kept_letters P ms (update_where p f ms)"
  unfolding kept_letters_def set_update_where bex_simps by auto

lemma kept_letters_update_back:
  "(\<And>m. p m \<Longrightarrow> letter_of (f m) = letter_of m \<and> (P (f m) \<longrightarrow> P m)) \<Longrightarrow> kept_letters P (update_where p f ms) ms"
  unfolding kept_letters_def set_update_where by auto

lemma kept_letters_delete: "(\<And>m. m \<in> set ms \<Longrightarrow> q m \<Longrightarrow> \<not> P m) \<Longrightarrow> kept_letters P ms (delete_where q ms)"
  unfolding kept_letters_def by auto

lemma mail_confined_refl [simp]: "mail_confined u ms ms"
  by (simp add: mail_confined_def kept_letters_subset)

lemma mail_confined_trans: "mail_confined u a b \<Longrightarrow> mail_confined u b c \<Longrightarrow> mail_confined u a c"
  unfolding mail_confined_def by (elim conjE, intro conjI) (simp only:, (erule (1) kept_letters_trans)+)

lemma mail_confined_update:
  assumes "\<And>m. p m \<Longrightarrow> (m_from m = u \<or> m_to m = u) \<and> letter_of (f m) = letter_of m \<and>
      m_from (f m) = m_from m \<and> m_to (f m) = m_to m \<and>
      (m_from m \<noteq> u \<longrightarrow> m_del_from (f m) = m_del_from m) \<and> (m_to m \<noteq> u \<longrightarrow> m_del_to (f m) = m_del_to m)"
  shows "mail_confined u ms (update_where p f ms)"
  unfolding mail_confined_def using assms
  by (intro conjI filter_update_other kept_letters_update kept_letters_update_back) auto

lemma filter_delete_other: "(\<And>x. x \<in> set xs \<Longrightarrow> q x \<Longrightarrow> \<not> p x) \<Longrightarrow> filter p (delete_where q xs) = filter p xs"
  by (induction xs) auto

lemma mail_confined_delete:
  assumes "\<And>m. m \<in> set ms \<Longrightarrow> q m \<Longrightarrow> (m_from m = u \<or> m_to m = u) \<and> m_del_from m \<and> m_del_to m"
  shows "mail_confined u ms (delete_where q ms)"
  unfolding mail_confined_def using assms
  by (intro conjI filter_delete_other kept_letters_delete kept_letters_subset) auto

lemma confined_refl [simp]: "confined u d d"
  by (simp add: confined_def)

lemma confined_trans: "confined u d d1 \<Longrightarrow> confined u d1 d2 \<Longrightarrow> confined u d d2"
  unfolding confined_def by (elim conjE, intro conjI; (erule (1) mail_confined_trans)?) (simp_all only:)

lemma standing_sysop: "map standing us' = map standing us \<Longrightarrow>
    (\<exists>r. find (\<lambda>r. u_id r = u) us' = Some r \<and> u_sysop r) = (\<exists>r. find (\<lambda>r. u_id r = u) us = Some r \<and> u_sysop r)"
proof (induction us arbitrary: us')
  case (Cons x us)
  then obtain y ys where y: "us' = y # ys" "standing y = standing x" "map standing ys = map standing us" by (cases us') auto
  then show ?case using Cons.IH [OF y(3)] by (auto simp: standing_def)
qed simp

lemma confined_sysop: "confined u d d' \<Longrightarrow> is_sysop d' v = is_sysop d v"
  using standing_sysop [of "t_users d'" "t_users d" v] by (simp add: confined_def is_sysop_def find_user_def)

section \<open>One call\<close>

lemma confined_users:
  assumes "\<And>x. p x \<Longrightarrow> u_id x = u \<and> standing (f x) = standing x"
  shows "confined u d (d\<lparr>t_users := update_where p f (t_users d)\<rparr>)"
  using assms map_update_where [of p standing f] filter_update_other [of p "\<lambda>r. u_id r \<noteq> u" f "t_users d"]
  by (simp add: confined_def standing_def)

lemma confined_set_user: "(\<And>x. standing (f x) = standing x) \<Longrightarrow> confined u d (set_user u f d)"
  unfolding set_user_def by (rule confined_users) simp

lemma confined_updateUser: "(\<And>x. standing (f x) = standing x) \<Longrightarrow> confined u d (snd (updateUser u f d))"
  by (simp add: updateUser_def confined_set_user)

lemma refused:
  assumes "\<not> is_sysop d u"
  shows "snd (ResetPassword E u i p d) = d" "snd (SetSysop u i b d) = d" "snd (SetLocked u i b d) = d" "snd (ValidateUser u i d) = d"
    "snd (DeleteUser u i d) = d" "snd (CreateBoard E u n ds b d) = d" "snd (DeleteBoard u i d) = d" "snd (AddBulletin E u t x d) = d"
    "snd (DeleteBulletin u i d) = d" "snd (DeleteOneliner u i d) = d"
proof -
  obtain e where e: "requireSysop d u = Inl e" using not_sysop [of d u] assms by (auto simp: is_sysop_def)
  have a: "\<exists>e. requireActor d u i ns = Inl e" for ns by (simp add: requireActor_def e)
  have g: "snd (guarded (requireActor d u i ns) k d) = d" for ns and k :: "db \<Rightarrow> (error + unit) \<times> db"
    using a [of ns] by (auto simp: guarded_def)
  show "snd (ResetPassword E u i p d) = d" "snd (SetSysop u i b d) = d" "snd (SetLocked u i b d) = d" "snd (ValidateUser u i d) = d"
    by (simp_all add: ResetPassword_def SetSysop_def SetLocked_def ValidateUser_def g)
  show "snd (DeleteUser u i d) = d" by (simp add: DeleteUser_def tx_def e)
  show "snd (CreateBoard E u n ds b d) = d" by (rule CreateBoard_outcome [of E u n ds b d]) (use e in auto)
  show "snd (AddBulletin E u t x d) = d" by (auto simp: AddBulletin_def tx_def e split: sum.splits)
  show "snd (DeleteBoard u i d) = d" "snd (DeleteBulletin u i d) = d" "snd (DeleteOneliner u i d) = d"
    by (simp_all add: DeleteBoard_def DeleteBulletin_def DeleteOneliner_def sysopDelete_refused [OF e])
qed

lemma confined_accounts:
  "confined u d (snd (ChangePassword E u cur nxt d))" "confined u d (snd (SetLocation u l d))" "confined u d (snd (RecordLogin E u d))"
  "confined u d (snd (SetEmailMode u m d))" "confined u d (snd (RemoveEmail u d))"
proof -
  note st = standing_def
  show "confined u d (snd (ChangePassword E u cur nxt d))"
    by (auto simp: ChangePassword_def setPassword_def st split: option.splits sum.splits intro!: confined_updateUser)
  show "confined u d (snd (SetLocation u l d))"
    using confined_updateUser [of "\<lambda>r. r\<lparr>u_location := Clean l MaxLocationLen\<rparr>" u d]
    by (auto simp: SetLocation_def st split: prod.splits sum.splits)
  show "confined u d (snd (RecordLogin E u d))"
    by (auto simp: RecordLogin_def Let_def tx_def st split: sum.splits intro!: confined_set_user)
  show "confined u d (snd (SetEmailMode u m d))"
    by (auto simp: SetEmailMode_def Let_def st intro!: confined_users)
  show "confined u d (snd (RemoveEmail u d))"
    using confined_set_user [of "\<lambda>r. r\<lparr>u_email := [], u_email_mode := 0\<rparr>" u d]
    by (simp add: RemoveEmail_def tx_def drop_pending_def st)
       (auto simp: confined_def set_user_def delete_where_def)
qed

lemma confined_mail:
  assumes inv: "mail_inv (t_messages d)"
  shows "fresh_rowids E \<Longrightarrow> confined u d (snd (SendMessage E u j sb bd r d))"
    and "confined u d (snd (MarkRead E i u d))" and "confined u d (snd (DeleteMessage i u d))"
proof -
  have put: "confined u d (d\<lparr>t_messages := ms\<rparr>)" if "mail_confined u (t_messages d) ms" for ms
    using that by (simp add: confined_def)
  show "confined u d (snd (SendMessage E u j sb bd r d))" if fr: "fresh_rowids E"
  proof (cases rule: SendMessage_cases [of E u j sb bd r d])
    case (sent s' b' ur vr th p id ms m)
    have "ms = t_messages d @ [new_message E u j th p s' b' (t_messages d)]"
      using sent(8) unfolding insert_message_eq [OF fr] by simp
    then have "mail_confined u (t_messages d) ms" by (auto simp: mail_confined_def new_message_def intro: kept_letters_subset)
      (auto simp: kept_letters_def)
    then show ?thesis using put sent(10) by simp
  qed simp
  have upd: "mail_confined u ms (update_where (\<lambda>m. m_id m = i \<and> in_inbox u m \<and> m_read m = 0) (\<lambda>m. m\<lparr>m_read := now\<rparr>) ms)"
    for ms and now by (rule mail_confined_update) (simp add: in_inbox_def letter_of_def)
  show "confined u d (snd (MarkRead E i u d))" by (simp add: MarkRead_def Let_def put upd)
  have del: "mail_confined u (t_messages d)
      (delete_where (\<lambda>m. m_id m = i \<and> m_del_from m \<and> m_del_to m) (update_where (\<lambda>m. m_id m = i \<and> visibleTo u m)
        (\<lambda>m. m\<lparr>m_del_from := m_del_from m \<or> m_from m = u, m_del_to := m_del_to m \<or> m_to m = u\<rparr>) (t_messages d)))"
    (is "mail_confined u _ (delete_where ?q (update_where ?p ?f _))")
  proof (rule mail_confined_trans)
    show "mail_confined u (t_messages d) (update_where ?p ?f (t_messages d))"
      by (rule mail_confined_update) (auto simp: visibleTo_def letter_of_def)
    show "mail_confined u (update_where ?p ?f (t_messages d)) (delete_where ?q (update_where ?p ?f (t_messages d)))"
    proof (rule mail_confined_delete)
      fix m assume m: "m \<in> set (update_where ?p ?f (t_messages d))" "?q m"
      have ok: "\<not> (m_del_from x \<and> m_del_to x)" if "x \<in> set (t_messages d)" for x
        using inv that by (simp add: mail_inv_def list_all_iff message_ok_def)
      obtain x where x: "x \<in> set (t_messages d)" "m = (if ?p x then ?f x else x)"
        using m(1) unfolding set_update_where by blast
      then have "?p x" using ok [OF x(1)] m(2) by (metis (lifting))
      then have "m_from m = u \<or> m_to m = u" using x(2) by (auto simp: visibleTo_def)
      then show "(m_from m = u \<or> m_to m = u) \<and> m_del_from m \<and> m_del_to m" using m(2) by simp
    qed
  qed
  show "confined u d (snd (DeleteMessage i u d))"
    by (simp add: DeleteMessage_def tx_def Let_def requireRow_def put del)
qed

lemma confined_posts:
  assumes inv: "distinct (map p_id (t_posts d))" and no: "\<not> is_sysop d u"
  shows "fresh_rowids E \<Longrightarrow> confined u d (snd (AddPost E b u sb bd r d))" and "confined u d (snd (DeletePost i u d))"
proof -
  show "confined u d (snd (AddPost E b u sb bd r d))" if fr: "fresh_rowids E"
  proof (rule AddPost_outcome [of E b u sb bd r d])
    fix p d' assume res: "AddPost E b u sb bd r d = (Inr p, d')"
    show ?thesis by (rule AddPost_new [OF fr res]) (simp add: res confined_def new_post_def)
  qed simp
  show "confined u d (snd (DeletePost i u d))"
  proof (cases "find_user d u")
    case (Some r)
    then have r: "\<not> u_sysop r" using no by (auto simp: is_sysop_def)
    show ?thesis
    proof (cases "find (\<lambda>p. p_id p = i) (t_posts d)")
      case (Some p)
      then have p: "p \<in> set (t_posts d)" "p_id p = i" by (auto dest: find_Some_in)
      have "x = p" if "x \<in> set (t_posts d)" "p_id x = i" for x
        using inv that p by (metis (lifting) inj_on_eq_iff distinct_map)
      then have "filter (\<lambda>x. p_author x \<noteq> u) (delete_where (\<lambda>x. p_id x = i) (t_posts d)) = filter (\<lambda>x. p_author x \<noteq> u) (t_posts d)"
        if "p_author p = u" using that by (intro filter_delete_other) blast
      then show ?thesis using \<open>find_user d u = Some r\<close> Some r
        by (auto simp: DeletePost_def tx_def getUser_def confined_def)
    qed (use \<open>find_user d u = Some r\<close> in \<open>simp add: DeletePost_def tx_def getUser_def\<close>)
  qed (simp add: DeletePost_def tx_def getUser_def)
qed

lemma filter_upsert_other:
  "upsert_mark fk u a i ms = Inr ms' \<Longrightarrow> filter (\<lambda>m. fst (fst m) \<noteq> u) ms' = filter (\<lambda>m. fst (fst m) \<noteq> u) ms"
  by (auto simp: upsert_mark_def split: if_splits intro!: filter_update_other)

lemma confined_marks:
  "confined u d (snd (MarkBoardRead u b i d))" "confined u d (snd (MarkEchoRead u b i d))" "confined u d (snd (MarkFilesSeen u b i d))"
  by (auto simp: MarkBoardRead_def MarkEchoRead_def MarkFilesSeen_def confined_def filter_upsert_other split: sum.splits)

lemma confined_own_rows:
  "confined u d (snd (AddOneliner E u t d))" "confined u d (snd (Block u j d))" "confined u d (snd (Unblock u j d))"
  "confined u d (snd (StartEmailVerification E u a d))" "confined u d (snd (AddSSHKey E u f p c d))" "confined u d (snd (DeleteSSHKey u k d))"
  subgoal by (auto simp: AddOneliner_def Let_def confined_def split: sum.splits)
  subgoal by (auto simp: Block_def confined_def split: sum.splits)
  subgoal by (auto simp: Unblock_def confined_def intro!: filter_delete_other)
  subgoal by (auto simp: StartEmailVerification_def Let_def confined_def filter_update_other split: sum.splits)
  subgoal by (auto simp: AddSSHKey_def tx_def Let_def confined_def)
  subgoal by (auto simp: DeleteSSHKey_def Let_def confined_def intro!: filter_delete_other)
  done

lemma confined_ConfirmEmail: "confined u d (snd (ConfirmEmail E u c d))"
proof -
  have drop: "confined u d (drop_pending u d)" for d by (simp add: drop_pending_def confined_def delete_where_def)
  show ?thesis
  proof (cases rule: ConfirmEmail_cases [of d u E c])
    case (ok v r)
    show ?thesis unfolding ok(7) snd_conv
      by (rule confined_trans [OF confined_set_user drop]) (simp add: standing_def)
  qed (simp_all add: drop, simp_all add: confined_def filter_update_other)
qed

lemma confined_elsewhere:
  "confined u d (CountDownload i d)" "confined u d (MarkNetmailRead E i d)" "confined u d (snd (RecordSentNetmail E n d))"
  "confined u d (snd (LogEvent E e d))" "confined u d (RecordHit bk k at d)" "confined u d (ClearHits bk k d)"
  subgoal by (simp add: CountDownload_def confined_def map_update_where)
  subgoal by (simp add: MarkNetmailRead_def confined_def)
  subgoal by (auto simp: RecordSentNetmail_def insertNetmail_def tx_def Let_def confined_def split: prod.splits sum.splits if_splits)
  subgoal by (simp add: LogEvent_def Let_def confined_def)
  subgoal by (simp add: RecordHit_def confined_def)
  subgoal by (simp add: ClearHits_def confined_def)
  done

lemma acts_as_confined:
  assumes "acts_as u d d'" and inv: "db_inv d" and no: "\<not> is_sysop d u"
  shows "confined u d d'"
proof -
  have m: "mail_inv (t_messages d)" and p: "distinct (map p_id (t_posts d))"
    using inv by (simp_all add: db_inv_def posts_inv_def)
  from assms(1) show ?thesis
    by cases (simp_all add: confined_mail [OF m] confined_posts [OF p no] confined_marks confined_own_rows confined_ConfirmEmail
        confined_elsewhere confined_accounts refused [OF no])
qed

text \<open>Whatever an account without sysop rights does stays its own affair.\<close>

lemma acts_as_star_confined:
  "(acts_as u)\<^sup>*\<^sup>* d d' \<Longrightarrow> db_inv d \<Longrightarrow> \<not> is_sysop d u \<Longrightarrow> confined u d d' \<and> db_inv d'"
proof (induction rule: rtranclp_induct)
  case (step y z)
  then have "confined u d y" "db_inv y" by simp_all
  then show ?case using acts_as_confined [OF step.hyps(2)] step.prems confined_sysop [of u d y u] db_inv_step acts_as_step [OF step.hyps(2)]
      confined_trans by blast
qed simp

section \<open>Callers who wait for approval\<close>

text \<open>From \<open>d\<close> to \<open>d'\<close> nothing was published by \<open>u\<close>: no post, no line on the wall, no letter but to a sysop.\<close>

definition unpublished :: "int \<Rightarrow> db \<Rightarrow> db \<Rightarrow> bool" where
  "unpublished u d d' \<longleftrightarrow> set (t_posts d') \<subseteq> set (t_posts d) \<and> set (t_oneliners d') \<subseteq> set (t_oneliners d) \<and>
     (\<forall>m \<in> set (t_messages d'). (\<exists>m1 \<in> set (t_messages d). letter_of m1 = letter_of m) \<or> is_sysop d (m_to m))"

definition published :: "db \<Rightarrow> post list \<times> oneliner_row list \<times> message_row list" where
  "published d = (t_posts d, t_oneliners d, t_messages d)"

lemma letter_of_same: "letter_of m = letter_of m1 \<Longrightarrow> m_to m = m_to m1"
  by (simp add: letter_of_def)

lemma unpublished_same: "published d' = published d \<Longrightarrow> unpublished u d d'"
  by (auto simp: unpublished_def published_def)

lemma unpublished_trans: "unpublished u d d1 \<Longrightarrow> unpublished u d1 d2 \<Longrightarrow> confined u d d1 \<Longrightarrow> unpublished u d d2"
proof -
  assume a: "unpublished u d d1" and b: "unpublished u d1 d2" and c: "confined u d d1"
  have "(\<exists>m1 \<in> set (t_messages d). letter_of m1 = letter_of m) \<or> is_sysop d (m_to m)" if m: "m \<in> set (t_messages d2)" for m
  proof (cases "is_sysop d1 (m_to m)")
    case False
    then obtain m1 where m1: "m1 \<in> set (t_messages d1)" "letter_of m1 = letter_of m" using b m unfolding unpublished_def by blast
    then show ?thesis using a letter_of_same [OF m1(2)] unfolding unpublished_def by metis
  qed (use confined_sysop [OF c] in simp)
  then show ?thesis using a b unfolding unpublished_def by blast
qed

lemma published_accounts:
  "published (snd (ChangePassword E u cur nxt d)) = published d" "published (snd (SetLocation u l d)) = published d"
  "published (snd (RecordLogin E u d)) = published d" "published (snd (SetEmailMode u m d)) = published d"
  "published (snd (RemoveEmail u d)) = published d" "published (snd (ConfirmEmail E u c d)) = published d"
proof -
  have upd: "published (set_user u f d) = published d" "published (snd (updateUser u f d)) = published d" for f d
    by (simp_all add: published_def set_user_def updateUser_def)
  have drop: "published (drop_pending u d) = published d" for d by (simp add: published_def drop_pending_def)
  show "published (snd (ChangePassword E u cur nxt d)) = published d"
    by (auto simp: ChangePassword_def setPassword_def upd split: option.splits sum.splits)
  show "published (snd (SetLocation u l d)) = published d"
    using upd(2) [of "\<lambda>r. r\<lparr>u_location := Clean l MaxLocationLen\<rparr>" d]
    by (auto simp: SetLocation_def split: prod.splits sum.splits)
  show "published (snd (RecordLogin E u d)) = published d" by (auto simp: RecordLogin_def Let_def tx_def upd split: sum.splits)
  show "published (snd (SetEmailMode u m d)) = published d" by (simp add: SetEmailMode_def Let_def published_def)
  show "published (snd (RemoveEmail u d)) = published d" by (simp add: RemoveEmail_def tx_def upd drop)
  show "published (snd (ConfirmEmail E u c d)) = published d"
    by (cases rule: ConfirmEmail_cases [of d u E c]) (simp_all add: upd drop, simp_all add: published_def)
qed

lemma published_elsewhere:
  "published (snd (MarkBoardRead u b i d)) = published d" "published (snd (MarkEchoRead u b i d)) = published d"
  "published (snd (MarkFilesSeen u b i d)) = published d" "published (snd (Block u j d)) = published d" "published (snd (Unblock u j d)) = published d"
  "published (snd (StartEmailVerification E u a d)) = published d" "published (snd (AddSSHKey E u f p c d)) = published d"
  "published (snd (DeleteSSHKey u k d)) = published d"
  "published (CountDownload i d) = published d" "published (MarkNetmailRead E i d) = published d" "published (snd (RecordSentNetmail E n d)) = published d"
  "published (snd (LogEvent E e d)) = published d" "published (RecordHit bk kk at d) = published d" "published (ClearHits bk kk d) = published d"
  subgoal by (auto simp: MarkBoardRead_def published_def split: sum.splits)
  subgoal by (auto simp: MarkEchoRead_def published_def split: sum.splits)
  subgoal by (auto simp: MarkFilesSeen_def published_def split: sum.splits)
  subgoal by (auto simp: Block_def published_def split: sum.splits)
  subgoal by (simp add: Unblock_def published_def)
  subgoal by (auto simp: StartEmailVerification_def Let_def published_def split: sum.splits)
  subgoal by (auto simp: AddSSHKey_def tx_def Let_def published_def)
  subgoal by (simp add: DeleteSSHKey_def Let_def published_def)
  subgoal by (simp add: CountDownload_def published_def)
  subgoal by (simp add: MarkNetmailRead_def published_def)
  subgoal by (auto simp: RecordSentNetmail_def insertNetmail_def tx_def Let_def published_def split: prod.splits sum.splits if_splits)
  subgoal by (simp add: LogEvent_def Let_def published_def)
  subgoal by (simp add: RecordHit_def published_def)
  subgoal by (simp add: ClearHits_def published_def)
  done

lemma unpublished_mail:
  assumes r: "find_user d u = Some r" "\<not> u_validated r"
  shows "fresh_rowids E \<Longrightarrow> unpublished u d (snd (SendMessage E u j sb bd k d))" and "unpublished u d (snd (MarkRead E i u d))"
    and "unpublished u d (snd (DeleteMessage i u d))"
proof -
  show "unpublished u d (snd (SendMessage E u j sb bd k d))" if fr: "fresh_rowids E"
  proof (cases rule: SendMessage_cases [of E u j sb bd k d])
    case (sent s' b' ur vr th p id ms m)
    have "ms = t_messages d @ [new_message E u j th p s' b' (t_messages d)]"
      using sent(8) unfolding insert_message_eq [OF fr] by simp
    moreover have "is_sysop d j" using sent(2,3,4) r by (simp add: is_sysop_def)
    ultimately show ?thesis using sent(10) by (auto simp: unpublished_def new_message_def)
  qed (simp add: unpublished_same)
  have upd: "unpublished u d (d\<lparr>t_messages := ms\<rparr>)" if "\<forall>m \<in> set ms. \<exists>m1 \<in> set (t_messages d). letter_of m1 = letter_of m" for ms
    using that by (simp add: unpublished_def)
  show "unpublished u d (snd (MarkRead E i u d))"
  proof -
    have "snd (MarkRead E i u d) = d\<lparr>t_messages := update_where (\<lambda>m. m_id m = i \<and> in_inbox u m \<and> m_read m = 0)
        (\<lambda>m. m\<lparr>m_read := se_now E\<rparr>) (t_messages d)\<rparr>" by (simp add: MarkRead_def Let_def)
    then show ?thesis by (simp only:) (rule upd, auto simp: set_update_where letter_of_def)
  qed
  show "unpublished u d (snd (DeleteMessage i u d))"
    by (simp add: DeleteMessage_def tx_def Let_def requireRow_def, intro conjI impI upd unpublished_same)
       (auto simp: set_update_where letter_of_def)
qed

lemma unpublished_areas:
  assumes r: "find_user d u = Some r" "\<not> u_validated r"
  shows "unpublished u d (snd (AddPost E b u sb bd k d))" "unpublished u d (snd (DeletePost i u d))" "unpublished u d (snd (AddOneliner E u t d))"
proof -
  show "unpublished u d (snd (AddPost E b u sb bd k d))"
    using r by (auto simp: AddPost_def tx_def getUser_def unpublished_same split: sum.splits option.splits)
  show "unpublished u d (snd (DeletePost i u d))"
    using DeletePost_changes [of i u d] by (auto simp: unpublished_def)
  show "unpublished u d (snd (AddOneliner E u t d))"
    using r by (simp add: AddOneliner_def Let_def UserByID_def getUser_def user.truncate_def unpublished_same)
qed

lemma acts_as_unpublished:
  assumes "acts_as u d d'" and r: "find_user d u = Some r" "\<not> u_validated r" and no: "\<not> is_sysop d u"
  shows "unpublished u d d'"
  using assms(1)
  by cases (simp_all add: unpublished_mail [OF r] unpublished_areas [OF r] refused [OF no] published_accounts published_elsewhere unpublished_same)

lemma standing_validated: "map standing us' = map standing us \<Longrightarrow>
    map_option u_validated (find (\<lambda>r. u_id r = u) us') = map_option u_validated (find (\<lambda>r. u_id r = u) us)"
proof (induction us arbitrary: us')
  case (Cons x us)
  then obtain y ys where y: "us' = y # ys" "standing y = standing x" "map standing ys = map standing us" by (cases us') auto
  then show ?case using Cons.IH [OF y(3)] by (auto simp: standing_def)
qed simp

lemma unapproved_no_sysop: "db_inv d \<Longrightarrow> find_user d u = Some r \<Longrightarrow> \<not> u_validated r \<Longrightarrow> \<not> is_sysop d u"
  by (auto simp: db_inv_def users_inv_def list_all_iff user_row_ok_def is_sysop_def find_user_def dest!: find_Some_in)

lemma acts_as_star_unpublished:
  "(acts_as u)\<^sup>*\<^sup>* d d' \<Longrightarrow> db_inv d \<Longrightarrow> find_user d u = Some r \<Longrightarrow> \<not> u_validated r \<Longrightarrow> unpublished u d d'"
proof (induction rule: rtranclp_induct)
  case base
  then show ?case by (simp add: unpublished_same)
next
  case (step y z)
  note no = unapproved_no_sysop [OF step.prems]
  have c: "confined u d y" "db_inv y" using acts_as_star_confined [OF step.hyps(1) step.prems(1) no] by simp_all
  have "map_option u_validated (find_user y u) = map_option u_validated (find_user d u)"
    using standing_validated [of "t_users y" "t_users d" u] c(1) by (simp add: confined_def find_user_def)
  then have "\<exists>r'. find_user y u = Some r' \<and> \<not> u_validated r'" using step.prems(2,3) by (cases "find_user y u") simp_all
  then obtain r' where r': "find_user y u = Some r'" "\<not> u_validated r'" by blast
  have "unpublished u y z" by (rule acts_as_unpublished [OF step.hyps(2) r' unapproved_no_sysop [OF c(2) r']])
  then show ?case using unpublished_trans [OF step.IH [OF step.prems] _ c(1)] by simp
qed

section \<open>A whole session\<close>

text \<open>bob of the example database at the main menu; carol, who waits for approval.\<close>

definition carol :: user_row where
  "carol = (demo_user 3 ''carol'' False)\<lparr>u_validated := False\<rparr>"

definition demo_members :: db where
  "demo_members = demo_db\<lparr>t_users := [demo_user 1 ''ann'' True, demo_user 2 ''bob'' False, carol]\<rparr>"

definition demo_signed_in :: "user_row \<Rightarrow> string \<Rightarrow> caller" where
  "demo_signed_in r bytes = (demo_caller demo_members bytes)\<lparr>c_user := user.truncate r\<rparr>"

lemma db_inv_demo_members: "db_inv demo_members"
proof -
  have "db_inv empty_db" by (rule db_inv_empty)
  moreover have "users_inv (t_users demo_members)"
  proof -
    have "sql_lower ''ann'' = ''ann''" "sql_lower ''bob'' = ''bob''" "sql_lower ''carol'' = ''carol''"
      by (rule sql_lower_id; simp add: byte_val_def)+
    then show ?thesis
      by (simp add: demo_members_def carol_def demo_user_def users_inv_def user_row_ok_def valid_handle_def isLetter_def handle_char_def
          byte_val_def)
  qed
  ultimately show ?thesis
    by (simp add: db_inv_def demo_members_def demo_db_def empty_db_def id_sets blocks_inv_def marks_inv_def verifications_inv_def
        keys_inv_def netmail_inv_def)
qed

lemma demo_signed_in_good:
  "good (demo_signed_in r bytes)" "me (demo_signed_in r bytes) = u_id r" "database (demo_signed_in r bytes) = demo_members"
  "c_user (demo_signed_in r bytes) = user.truncate r"
  using demo_env_fresh
  by (simp_all add: demo_signed_in_def good_def t_ok_def NewRenderer_inv me_def database_def user.defs)

lemma demo_members_users: "find_user demo_members 2 = Some (demo_user 2 ''bob'' False)" "find_user demo_members 3 = Some carol"
  by (simp_all add: demo_members_def demo_db_def find_user_def demo_user_def carol_def)

text \<open>
  Claim C6. A session always comes to an end. Whatever a caller types after signing in, in whatever order, and whenever
  the line drops, the session neither panics nor goes round a menu without a key having been read; the caller stays the
  account that signed in; and all that became of the database are calls of the store made on behalf of that account.
\<close>

theorem session_ends:
  assumes "good s"
  shows "case signed_in prev s of (q, t) \<Rightarrow>
      q \<noteq> Panicked \<and> q \<noteq> Fail Spins \<and> me t = me s \<and> (acts_as (me s))\<^sup>*\<^sup>* (database s) (database t)"
  using runsD [OF sound_signed_in assms] by (auto simp: goes_on_def split: prod.split)

theorem session_ends_witness:
  "case signed_in 0 (demo_signed_in (demo_user 2 ''bob'' False) ''NNBOMSG'') of (q, t) \<Rightarrow>
      q \<noteq> Panicked \<and> q \<noteq> Fail Spins \<and> me t = 2 \<and> (acts_as 2)\<^sup>*\<^sup>* demo_members (database t)"
  using session_ends [OF demo_signed_in_good(1) [of "demo_user 2 ''bob'' False" "''NNBOMSG''"], of 0]
  by (simp add: demo_signed_in_good demo_user_def)

text \<open>
  Claim C5. A session of a caller without sysop rights is confined to the caller's own account, whatever is typed, be it
  at the sysop's menu: nobody's handle, rights, lock or approval changes, the caller's own included; other accounts keep
  their rows, blocks, keys, pending addresses, read marks, posts and wall lines; the mail among others is as before, nobody loses a
  copy of a letter, and no letter in another's name appears; boards, bulletins, conferences and file areas stay. The
  database keeps its invariant.
\<close>

theorem session_confined:
  assumes "good s" and "db_inv (database s)" and "\<not> is_sysop (database s) (me s)"
  shows "confined (me s) (database s) (database (snd (signed_in prev s))) \<and> db_inv (database (snd (signed_in prev s)))"
proof -
  obtain q t where t: "signed_in prev s = (q, t)" by fastforce
  have "(acts_as (me s))\<^sup>*\<^sup>* (database s) (database t)" using runsD [OF sound_signed_in assms(1) t] by (simp add: goes_on_def)
  then show ?thesis using acts_as_star_confined assms(2,3) t by simp
qed

theorem session_confined_witness:
  "confined 2 demo_members (database (snd (signed_in 0 (demo_signed_in (demo_user 2 ''bob'' False) ''NNBOM!G''))))"
proof -
  have "\<not> is_sysop demo_members 2" by (simp add: is_sysop_def demo_members_users demo_user_def)
  then show ?thesis
    using session_confined [OF demo_signed_in_good(1) [of "demo_user 2 ''bob'' False" "''NNBOM!G''"], of 0]
    by (simp add: demo_signed_in_good db_inv_demo_members demo_user_def)
qed

text \<open>
  Claim C11. A caller whose account waits for approval publishes nothing in a whole session: afterwards there is no post
  and no line on the wall that was not there before, and every new letter is to a sysop.
\<close>

theorem unapproved_publishes_nothing:
  assumes "good s" and "db_inv (database s)" and "find_user (database s) (me s) = Some r" and "\<not> u_validated r"
  shows "unpublished (me s) (database s) (database (snd (signed_in prev s)))"
proof -
  obtain q t where t: "signed_in prev s = (q, t)" by fastforce
  have "(acts_as (me s))\<^sup>*\<^sup>* (database s) (database t)" using runsD [OF sound_signed_in assms(1) t] by (simp add: goes_on_def)
  then show ?thesis using acts_as_star_unpublished assms(2-4) t by simp
qed

theorem unapproved_publishes_nothing_witness:
  "unpublished 3 demo_members (database (snd (signed_in 0 (demo_signed_in carol ''NNOAG''))))"
  using unapproved_publishes_nothing [OF demo_signed_in_good(1) [of carol "''NNOAG''"], of carol 0]
  by (simp add: demo_signed_in_good db_inv_demo_members demo_members_users carol_def demo_user_def)

lemma awaiting_stops:
  assumes run: "awaitingApproval what s = (q, t)" and "\<not> u_validated (c_user s)"
  shows "session.more t = session.more s \<and> (\<forall>b. q = Done b \<longrightarrow> b)"
proof
  have say: "stays terminal_only (then_io (print l) (then_io (print l') (then_io pause (return_io True))) :: (bool, caller) io)" for l l'
    by (intro terminal.stays_seq terminal_print terminal_pause)
  have eq: "\<exists>l l'. then_io (print l) (then_io (print l') (then_io pause (return_io True))) s = (q, t)"
    using assms by (auto simp: awaitingApproval_def with_s_def)
  then show "session.more t = session.more s" using staysD [OF say] by (auto simp: terminal_only_def)
  show "\<forall>b. q = Done b \<longrightarrow> b" using eq by (auto simp: then_io_def bind_io_Done return_io_def)
qed

text \<open>
  The chat room, the pager and the doors are shut for a caller who waits for approval: at the main menu those
  keys print why and wait for a key, and nothing but the terminal has changed afterwards: not the server with its chat hub, nodes,
  door processes, limiters and database, and not what the session knows of its caller.
\<close>

theorem unapproved_kept_out:
  assumes "\<not> u_validated (c_user s)" and "k \<in> byte_val ` set ''CPD''"
  shows "session.more (snd (mainMenuAction k s)) = session.more s"
proof -
  have stop: "session.more (snd (approved_only what m s)) = session.more s" for what m
  proof -
    obtain q t where qt: "awaitingApproval what s = (q, t)" by fastforce
    show ?thesis using awaiting_stops [OF qt assms(1)]
      by (cases q) (simp_all add: approved_only_def bind_io_def return_io_def qt)
  qed
  have "k = 67 \<or> k = 80 \<or> k = 68" using assms(2) by (auto simp: byte_val_def)
  then show ?thesis by (elim disjE) (simp_all add: mainMenuAction_def byte_val_def stop)
qed

theorem unapproved_kept_out_witness:
  "session.more (snd (mainMenuAction (byte_val CHR ''C'') (demo_signed_in carol ''x''))) = session.more (demo_signed_in carol ''x'')"
  by (rule unapproved_kept_out) (simp_all add: demo_signed_in_good carol_def demo_user_def user.defs)

end
