(* ===== verification/Editor_Props.thy ===== *)
theory Editor_Props
  imports Session_Props
begin

text \<open>
  What the line editor hands over: what was typed, and nothing the store would refuse for its size.
\<close>

section \<open>Typing a message\<close>

text \<open>Operations that only print: the terminal stays ready and no key is read.\<close>

definition prints :: "(unit, caller) io \<Rightarrow> bool" where
  "prints m \<longleftrightarrow> (\<forall>s. ready s \<longrightarrow> 20 \<le> s_width s \<longrightarrow>
     (\<exists>t. m s = (Done (), t) \<and> ready t \<and> 20 \<le> s_width t \<and> s_in t = s_in s \<and> session.more t = session.more s))"

lemma printsD: "prints m \<Longrightarrow> ready s \<Longrightarrow> 20 \<le> s_width s \<Longrightarrow>
    \<exists>t. m s = (Done (), t) \<and> ready t \<and> 20 \<le> s_width t \<and> s_in t = s_in s \<and> session.more t = session.more s"
  by (simp add: prints_def)

lemma prints_print: "prints (print l)"
  unfolding prints_def
proof (intro allI impI)
  fix s :: caller assume s: "ready s" "20 \<le> s_width s"
  obtain out r where "Render (s_rend s) l = Some (out, r)" "renderer_inv r"
    using Render_total [of "s_rend s" l] s by (auto simp: ready_def)
  then show "\<exists>t. print l s = (Done (), t) \<and> ready t \<and> 20 \<le> s_width t \<and> s_in t = s_in s \<and> session.more t = session.more s"
    using s by (auto simp: print_def write_bytes_def ready_def)
qed

lemma prints_return: "prints (return_io ())"
  by (simp add: prints_def return_io_def)

lemma prints_then: "prints m \<Longrightarrow> prints k \<Longrightarrow> prints (then_io m k)"
  unfolding prints_def then_io_def bind_io_def by fastforce

lemma prints_all: "prints (print_all ls)"
  by (induction ls) (simp_all add: prints_return prints_then prints_print)

lemma prints_box: "prints (box title body)"
  unfolding prints_def
proof (intro allI impI)
  fix s :: caller assume s: "ready s" "20 \<le> s_width s"
  have "t_ok s" using s by (simp add: t_ok_def ready_def)
  then obtain ls where ls: "boxLines title (width s) body = Some ls"
    using boxLines_wide [of "width s" title body] width_ok [of s] by auto
  show "\<exists>t. box title body s = (Done (), t) \<and> ready t \<and> 20 \<le> s_width t \<and> s_in t = s_in s \<and> session.more t = session.more s"
    using printsD [OF prints_all s, of "map (\<lambda>ln. ln @ nl) ls"] ls by (auto simp: box_def bind_io_def may_panic_def)
qed

lemma prints_listEditorLines: "prints (listEditorLines ls)"
  unfolding listEditorLines_def by (rule prints_all)

text \<open>One line read.\<close>

lemma line_read:
  fixes s :: caller
  assumes s: "ready s" "20 \<le> s_width s" and rs: "list_all typeable rs" "int (length rs) \<le> lo_max opts" "lo_init opts = []"
    and inp: "map snd (s_in s) = of_runes rs @ CHR 0x0D # later"
  shows "\<exists>t. readLine opts s = (Done (of_runes rs, []), t) \<and> ready t \<and> 20 \<le> s_width t \<and>
    session.more t = session.more s \<and> map snd (s_in t) = later"
proof -
  obtain t where t: "readLine opts s = (Done (of_runes rs, []), t)" "ready t" "map snd (s_in t) = later"
    using readLine_line [OF rs s(1) inp] by blast
  have "t_ok s" using s by (simp add: t_ok_def ready_def)
  then have "t_ok t" "terminal_only s t" using runsD [OF t_readLine _ t(1)] by simp_all
  then show ?thesis using t by (simp add: t_ok_def terminal_only_def)
qed

lemma round_read:
  fixes s :: caller
  assumes s: "ready s" "20 \<le> s_width s" and rs: "list_all typeable rs" "int (length rs) \<le> w"
    and inp: "map snd (s_in s) = of_runes rs @ CHR 0x0D # later"
  shows "\<exists>t. ready t \<and> 20 \<le> s_width t \<and> c_srv t = c_srv s \<and> session.more t = session.more s \<and> map snd (s_in t) = later \<and>
    editor_round w (ls, []) s = (case editorCommand (sv_upper (c_srv s)) (of_runes rs) of
        Some cmd \<Rightarrow> bind_io (editorAction cmd ls) (\<lambda>(over, keep, ls'). if over then leave_with (join nl ls', keep) else return_io (Inl (ls', []))) t
      | None \<Rightarrow> if maxEditorLines \<le> length ls
          then then_io (print (colAlert @ ''The message is full ('' @ itoa (int maxEditorLines) @ '' lines). Use /S to send.'' @ nl))
                 (return_io (Inl (ls, []))) t
          else (Done (Inl (ls @ [of_runes rs], [])), t))"
proof -
  obtain u where u: "print ('' '' @ colBorder @ pad_left 3 (itoa (int (length ls) + 1)) @ '':'' @ colLabel @ '' '') s = (Done (), u)"
      "ready u" "20 \<le> s_width u" "s_in u = s_in s" "session.more u = session.more s"
    using printsD [OF prints_print s] by blast
  let ?opts = "lineOpts0\<lparr>lo_max := w, lo_wrap := True, lo_init := []\<rparr>"
  obtain t where t: "readLine ?opts u = (Done (of_runes rs, []), t)" "ready t" "20 \<le> s_width t" "session.more t = session.more u"
      "map snd (s_in t) = later"
    using line_read [OF u(2,3) rs(1), of ?opts later] rs(2) inp u(4) by auto
  have srv: "c_srv t = c_srv s" using t(4) u(5) more_parts [of t s] by simp
  have steps: "bind_io (print ('' '' @ colBorder @ pad_left 3 (itoa (int (length ls) + 1)) @ '':'' @ colLabel @ '' '')) k s = k () u"
    "bind_io (readLine ?opts) k' u = k' (of_runes rs, []) t" for k k'
    unfolding bind_io_def by (simp_all only: u(1) t(1) prod.case outcome.case)
  show ?thesis
    by (rule exI [of _ t])
       (use t(2-5) u(5) srv in \<open>simp only: editor_round_def then_io_def steps prod.case with_s_def simp_thms if_True option.case_eq_if\<close>,
        use srv in \<open>simp add: option.case_eq_if return_io_def\<close>)
qed

definition typed_lines :: "rune list list \<Rightarrow> string" where
  "typed_lines rss = concat (map (\<lambda>rs. of_runes rs @ [CHR 0x0D]) rss)"

text \<open>A line that fits the window and is not a command.\<close>

definition text_line :: "(rune \<Rightarrow> rune) \<Rightarrow> int \<Rightarrow> rune list \<Rightarrow> bool" where
  "text_line up w rs \<longleftrightarrow> list_all typeable rs \<and> int (length rs) \<le> w \<and> editorCommand up (of_runes rs) = None"

definition sendable :: "string \<Rightarrow> bool" where
  "sendable body \<longleftrightarrow> trim_space body \<noteq> [] \<and> length body \<le> MaxBodyBytes"

definition send_command :: "rune list" where
  "send_command = map byte_val ''/S''"

lemma send_command: "of_runes send_command = ''/S''" "list_all typeable send_command" "length send_command = 2"
    "editorCommand up (of_runes send_command) = Some CHR ''S''"
proof -
  show r: "of_runes send_command = ''/S''" unfolding send_command_def by (rule of_runes_ascii; simp add: is_ascii_def byte_val_def)
  show "list_all typeable send_command" "length send_command = 2"
    by (simp_all add: send_command_def typeable_def byte_val_def valid_rune_def keyDel_def rune_error_def)
  have "trim_space ''/S'' = ''/S''" by (rule trim_space_graphic) (simp add: graphic_def byte_val_def)
  then show "editorCommand up (of_runes send_command) = Some CHR ''S''"
    unfolding r by (simp add: editorCommand_def Let_def upper_rune_def ascii_upper_def byte_val_def)
qed

lemma repeat_again: "body x s = (Done (Inl y), t) \<Longrightarrow> length (s_in t) < length (s_in s) \<Longrightarrow> repeat_io body x s = repeat_io body y t"
  by (simp add: repeat_io.simps [of body x s])

lemma repeat_over: "body x s = (Done (Inr r), t) \<Longrightarrow> repeat_io body x s = (Done r, t)"
  by (simp add: repeat_io.simps [of body x s])

lemma editor_typed:
  fixes s :: caller
  assumes "ready s" "20 \<le> s_width s" "2 \<le> w" "list_all (text_line (sv_upper (c_srv s)) w) rss"
    "length ls + length rss \<le> maxEditorLines" "sendable (join nl (ls @ map of_runes rss))"
    "map snd (s_in s) = typed_lines rss @ ''/S'' @ CHR 0x0D # later"
  shows "\<exists>t. repeat_io (editor_round w) (ls, []) s = (Done (join nl (ls @ map of_runes rss), True), t) \<and>
    ready t \<and> session.more t = session.more s \<and> map snd (s_in t) = later"
  using assms
proof (induction rss arbitrary: ls s)
  case Nil
  have inp: "map snd (s_in s) = of_runes send_command @ CHR 0x0D # later" using Nil.prems(7) by (simp add: typed_lines_def send_command)
  obtain t where t: "ready t" "session.more t = session.more s" "map snd (s_in t) = later" and
    round: "editor_round w (ls, []) s = (bind_io (editorAction CHR ''S'' ls)
      (\<lambda>(over, keep, ls'). if over then leave_with (join nl ls', keep) else return_io (Inl (ls', [])))) t"
    using round_read [OF Nil.prems(1,2) send_command(2) _ inp, of w ls] Nil.prems(3) by (auto simp: send_command(3,4))
  have "editorAction CHR ''S'' ls t = (Done (True, True, ls), t)"
    using Nil.prems(6) by (simp add: editorAction_def Let_def sendable_def not_less return_io_def)
  then have "editor_round w (ls, []) s = (Done (Inr (join nl ls, True)), t)"
    by (simp add: round bind_io_def leave_with_def return_io_def)
  then show ?case using t by (simp add: repeat_over)
next
  case (Cons rs rss)
  have line: "list_all typeable rs" "int (length rs) \<le> w" "editorCommand (sv_upper (c_srv s)) (of_runes rs) = None"
    using Cons.prems(4) by (simp_all add: text_line_def)
  have inp: "map snd (s_in s) = of_runes rs @ CHR 0x0D # (typed_lines rss @ ''/S'' @ CHR 0x0D # later)"
    using Cons.prems(7) by (simp add: typed_lines_def)
  obtain t where t: "ready t" "20 \<le> s_width t" "c_srv t = c_srv s" "session.more t = session.more s"
      "map snd (s_in t) = typed_lines rss @ ''/S'' @ CHR 0x0D # later" and
    round: "editor_round w (ls, []) s = (Done (Inl (ls @ [of_runes rs], [])), t)"
    using round_read [OF Cons.prems(1,2) line(1,2) inp, of ls] line(3) Cons.prems(5) by auto
  have "length (s_in t) < length (s_in s)" 
    using arg_cong [OF t(5), of length] arg_cong [OF inp, of length] by simp
  then have rep: "repeat_io (editor_round w) (ls, []) s = repeat_io (editor_round w) (ls @ [of_runes rs], []) t"
    by (rule repeat_again [where body = "editor_round w" and x = "(ls, [])", OF round])
  show ?case unfolding rep using Cons.IH [of t "ls @ [of_runes rs]"] Cons.prems(3-6) t by simp
qed

lemma editor_sent:
  fixes s :: caller
  assumes s: "ready s" "20 \<le> s_width s" and w: "w = editorWidth (width s)"
    and lines: "list_all (text_line (sv_upper (c_srv s)) w) rss" "length start + length rss \<le> maxEditorLines"
    and body: "sendable (join nl (start @ map of_runes rss))"
    and inp: "map snd (s_in s) = typed_lines rss @ ''/S'' @ CHR 0x0D # later"
  shows "\<exists>t. editor start s = (Done (join nl (start @ map of_runes rss), True), t) \<and>
    ready t \<and> session.more t = session.more s \<and> map snd (s_in t) = later"
proof -
  have "prints (then_io (box ''Editor'' editorHelp) (listEditorLines start))"
    by (intro prints_then prints_box prints_listEditorLines)
  then obtain u where u: "then_io (box ''Editor'' editorHelp) (listEditorLines start) s = (Done (), u)" "ready u" "20 \<le> s_width u"
      "s_in u = s_in s" "session.more u = session.more s"
    using printsD [OF _ s] by blast
  have "19 \<le> width s" using s by (intro width_ok) (simp add: t_ok_def ready_def)
  then have "2 \<le> w" by (simp add: w editorWidth_def maxEditorWidth_def editorGutter_def)
  moreover have "c_srv u = c_srv s" using u(5) more_parts [of u s] by simp
  ultimately obtain t where t: "repeat_io (editor_round w) (start, []) u = (Done (join nl (start @ map of_runes rss), True), t)"
      "ready t" "session.more t = session.more u" "map snd (s_in t) = later"
    using editor_typed [of u w rss start later] u(2-4) lines body inp by auto
  have "editor start s = repeat_io (editor_round w) (start, []) u"
    using u(1) unfolding editor_def with_s_def w then_io_def bind_io_def by (auto split: prod.splits outcome.splits)
  then show ?thesis using t u(5) by simp
qed

section \<open>Lines hold no line breaks\<close>

lemma encode_no_newline:
  assumes "0x20 \<le> r"
  shows "CHR 0x0A \<notin> set (encode_rune r)"
proof (cases "r < 0x80")
  case True
  have "byte_val (byte_of r) \<noteq> byte_val CHR 0x0A" using True assms by (simp add: byte_val_byte_of) (simp add: byte_val_def)
  then show ?thesis using True by (auto simp: encode_rune_def encode_valid_def valid_rune_def)
next
  case False
  then have "list_all (\<lambda>c. 0x80 \<le> byte_val c) (encode_rune r)" by (simp add: encode_rune_bytes)
  then show ?thesis by (auto simp: list_all_iff byte_val_def)
qed

lemma of_runes_no_newline: "list_all ((\<le>) 0x20) b \<Longrightarrow> CHR 0x0A \<notin> set (of_runes b)"
  using encode_no_newline by (induction b) auto

lemma trim_right_bytes_set: "set (trim_right_bytes cs s) \<subseteq> set s"
  using set_dropWhileD by (fastforce simp: trim_right_bytes_def)

lemma wrapOverflow_shown:
  assumes "list_all ((\<le>) 0x20) buf" "0x20 \<le> r" "wrapOverflow buf r s = (Done (line, carry), t)"
  shows "CHR 0x0A \<notin> set line \<and> list_all ((\<le>) 0x20) carry"
proof -
  have buf: "CHR 0x0A \<notin> set (of_runes buf)" "CHR 0x0A \<notin> set (of_runes (take n buf))" for n
    using assms(1) by (auto intro!: of_runes_no_newline simp: list_all_iff dest!: in_set_takeD)
  have word: "list_all ((\<le>) 0x20) (rev (takeWhile (\<lambda>c. c \<noteq> sp) (rev buf)))"
    using assms(1) by (auto simp: list_all_iff dest: set_takeWhileD)
  show ?thesis using assms(2,3) buf word trim_right_bytes_set
    by (auto simp: wrapOverflow_def Let_def split: if_splits)
qed

lemma line_loop_shown:
  assumes "list_all ((\<le>) 0x20) buf" "line_loop opts buf s = (Done (line, carry), s')"
  shows "CHR 0x0A \<notin> set line \<and> list_all ((\<le>) 0x20) carry"
  using assms
proof (induction "length (s_in s)" arbitrary: s buf rule: less_induct)
  case less
  obtain q t where r: "readRune s = (q, t)" by fastforce
  show ?case
  proof (cases q)
    case (Done x)
    have rec: "CHR 0x0A \<notin> set line \<and> list_all ((\<le>) 0x20) carry"
      if "line_loop opts b u = (Done (line, carry), s')" "s_in u = s_in t" "list_all ((\<le>) 0x20) b" for b u
      using less(1) [of u b] readRune_in [of s x t] r Done that by simp
    have ok: "list_all ((\<le>) 0x20) (butlast buf)" "0x20 \<le> x \<Longrightarrow> list_all ((\<le>) 0x20) (buf @ [x])" "CHR 0x0A \<notin> set (of_runes buf)"
      using less(2) of_runes_no_newline by (auto simp: list_all_iff dest: in_set_butlastD)
    show ?thesis using less(2,3) ok unfolding line_loop_step [OF r [unfolded Done]]
      by (auto split: if_split_asm dest: rec wrapOverflow_shown [rotated -1])
  qed (use line_loop_stop(2) [OF r, of opts buf "(line, carry)"] less(3) in simp_all)
qed

lemma readLine_shown:
  assumes "list_all ((\<le>) 0x20) (lo_init opts)" "readLine opts s = (Done (line, carry), s')"
  shows "CHR 0x0A \<notin> set line \<and> list_all ((\<le>) 0x20) carry"
  using line_loop_shown [OF assms(1)] assms(2) by (simp add: readLine_def)

section \<open>Claims\<close>

text \<open>
  Claim C12. What is typed in the editor is what is sent, after what the editor was started with (nothing, or the quoted
  message of a reply). On a UTF-8 terminal between two keys, at least 20 columns wide, for lines of typeable characters that
  fit the window and are not commands, followed by the command to send, with at most 200 lines in all: the editor
  returns exactly the lines it was started with and the typed ones, joined by newlines, to be sent, provided the text
  is not blank and within 16 KB; it has read these keys and no more, and nothing but the terminal has changed.
\<close>

theorem editor_sends_what_was_typed:
  assumes "ready (s :: caller)" and "20 \<le> s_width s"
    and "list_all (text_line (sv_upper (c_srv s)) (editorWidth (width s))) rss" and "length start + length rss \<le> maxEditorLines"
    and "sendable (join nl (start @ map of_runes rss))"
    and "map snd (s_in s) = typed_lines rss @ ''/S'' @ CHR 0x0D # later"
  shows "\<exists>t. editor start s = (Done (join nl (start @ map of_runes rss), True), t) \<and>
    session.more t = session.more s \<and> map snd (s_in t) = later"
  using editor_sent [OF assms(1,2) refl assms(3-6)] by blast

definition demo_lines :: "rune list list" where
  "demo_lines = [map byte_val ''hi'', map byte_val ''bye'']"

lemma demo_lines:
  "map of_runes demo_lines = [''hi'', ''bye'']" "list_all (text_line up 74) demo_lines" "sendable (join nl [''hi'', ''bye''])"
  "typed_lines demo_lines = ''hi'' @ CHR 0x0D # ''bye'' @ [CHR 0x0D]"
proof -
  have r: "of_runes (map byte_val ''hi'') = ''hi''" "of_runes (map byte_val ''bye'') = ''bye''"
    by (rule of_runes_ascii; simp add: is_ascii_def byte_val_def)+
  show "map of_runes demo_lines = [''hi'', ''bye'']" using r by (simp only: demo_lines_def list.map)
  have t: "trim_space ''hi'' = ''hi''" "trim_space ''bye'' = ''bye''"
    by (rule trim_space_graphic; simp add: graphic_def byte_val_def)+
  have "editorCommand up ''hi'' = None" "editorCommand up ''bye'' = None"
    by (simp_all add: editorCommand_def Let_def t)
  moreover have "list_all typeable (map byte_val ''hi'')" "list_all typeable (map byte_val ''bye'')"
    by (simp_all add: typeable_def byte_val_def valid_rune_def keyDel_def rune_error_def)
  ultimately show "list_all (text_line up 74) demo_lines"
    unfolding demo_lines_def list.pred_inject text_line_def r by simp
  show "typed_lines demo_lines = ''hi'' @ CHR 0x0D # ''bye'' @ [CHR 0x0D]"
  proof -
    have "typed_lines [a, b] = of_runes a @ CHR 0x0D # of_runes b @ [CHR 0x0D]" for a b by (simp add: typed_lines_def)
    then show ?thesis unfolding demo_lines_def by (simp only: r append_Nil append_Cons)
  qed
  let ?body = "''hi'' @ nl @ ''bye''"
  have "of_runes (map byte_val ?body) = ?body" by (rule of_runes_ascii) (simp add: is_ascii_def byte_val_def nl_def)
  moreover have "trim_runes (map byte_val ?body) = map byte_val ?body"
    by (simp add: trim_runes_def byte_val_def nl_def is_space_def)
  moreover have "list_all valid_rune (map byte_val ?body)" by (simp add: byte_val_def nl_def valid_rune_def)
  ultimately have "trim_space ?body = ?body" using trim_space_of_runes [of "map byte_val ?body"] by simp
  then show "sendable (join nl [''hi'', ''bye''])" by (simp add: sendable_def nl_def MaxBodyBytes_def)
qed

definition demo_typist :: caller where
  "demo_typist = demo_signed_in carol (''hi'' @ CHR 0x0D # ''bye'' @ CHR 0x0D # ''/S'' @ [CHR 0x0D, CHR ''x''])"

lemma demo_typist: "ready demo_typist" "20 \<le> s_width demo_typist"
  "list_all (text_line (sv_upper (c_srv demo_typist)) (editorWidth (width demo_typist))) demo_lines"
  "length ([] :: string list) + length demo_lines \<le> maxEditorLines" "sendable (join nl ([] @ map of_runes demo_lines))" "map snd (s_in demo_typist) = typed_lines demo_lines @ ''/S'' @ CHR 0x0D # ''x''"
proof -
  show "ready demo_typist"
    by (simp add: demo_typist_def demo_signed_in_def ready_def demo_caller_def session.extend_def demo_session_def NewRenderer_inv)
  have w: "s_width demo_typist = 80" by (simp add: demo_typist_def demo_signed_in_def)
  then show "20 \<le> s_width demo_typist" by simp
  have "editorWidth (width demo_typist) = 74"
    by (simp add: w width_def editorWidth_def maxEditorWidth_def editorGutter_def maxScreenWidth_def)
  then show "list_all (text_line (sv_upper (c_srv demo_typist)) (editorWidth (width demo_typist))) demo_lines"
    using demo_lines(2) by simp
  show "length ([] :: string list) + length demo_lines \<le> maxEditorLines" by (simp add: demo_lines_def maxEditorLines_def)
  show "sendable (join nl ([] @ map of_runes demo_lines))" unfolding demo_lines(1) append_Nil by (rule demo_lines(3))
  show "map snd (s_in demo_typist) = typed_lines demo_lines @ ''/S'' @ CHR 0x0D # ''x''"
    unfolding demo_lines(4) by (simp add: demo_typist_def demo_signed_in_def comp_def)
qed

theorem editor_sends_what_was_typed_witness:
  "\<exists>t. editor [] demo_typist = (Done (''hi'' @ nl @ ''bye'', True), t) \<and>
     session.more t = session.more demo_typist \<and> map snd (s_in t) = ''x''"
  using editor_sends_what_was_typed [OF demo_typist] by (simp add: demo_lines(1))

text \<open>What the loop of the editor keeps: few lines, each of them one line, and what wrapped over is one as well.\<close>

definition editing :: "nat \<Rightarrow> string list \<times> rune list \<Rightarrow> bool" where
  "editing n st \<longleftrightarrow> length (fst st) \<le> n \<and> (\<forall>l \<in> set (fst st). CHR 0x0A \<notin> set l) \<and> list_all ((\<le>) 0x20) (snd st)"

lemma editorAction_lines:
  assumes "editorAction cmd ls s = (Done (over, keep, ls'), t)"
  shows "set ls' \<subseteq> set ls"
  using assms by (auto simp: editorAction_def Let_def then_io_def bind_io_Done return_io_def split: if_splits dest: in_set_butlastD)

lemma editor_round_editing:
  assumes st: "editing n st" "maxEditorLines \<le> n" and run: "editor_round w st s = (Done q, t)"
  shows "case q of Inl st' \<Rightarrow> editing n st'
    | Inr (body, keep) \<Rightarrow> keep \<longrightarrow> sendable body \<and> length (split_on (CHR 0x0A) body) \<le> n"
proof -
  obtain ls carry where ls: "st = (ls, carry)" by fastforce
  obtain line rest u v where read: "readLine (lineOpts0\<lparr>lo_max := w, lo_wrap := True, lo_init := carry\<rparr>) u = (Done (line, rest), v)"
    and step: "(case (if rest = [] then editorCommand (sv_upper (c_srv v)) line else None) of
        Some cmd \<Rightarrow> bind_io (editorAction cmd ls) (\<lambda>(over, keep, ls').
          if over then leave_with (join nl ls', keep) else return_io (Inl (ls', rest)))
      | None \<Rightarrow> if maxEditorLines \<le> length ls
          then then_io (print (colAlert @ ''The message is full ('' @ itoa (int maxEditorLines) @ '' lines). Use /S to send.'' @ nl))
                 (return_io (Inl (ls, [])))
          else return_io (Inl (ls @ [line], rest))) v = (Done q, t)"
    using run by (auto simp: editor_round_def ls with_s_def then_io_def bind_io_Done)
  have shown: "CHR 0x0A \<notin> set line" "list_all ((\<le>) 0x20) rest" using readLine_shown [OF _ read] st(1) by (auto simp: editing_def ls)
  show ?thesis
  proof (cases "if rest = [] then editorCommand (sv_upper (c_srv v)) line else None")
    case None
    then show ?thesis using step shown st
      by (auto simp: editing_def ls then_io_def bind_io_Done return_io_def split: if_splits)
  next
    case (Some cmd)
    then obtain over keep ls' x where act: "editorAction cmd ls v = (Done (over, keep, ls'), x)"
      and q: "(if over then leave_with (join nl ls', keep) else return_io (Inl (ls', rest))) x = (Done q, t)"
      using step by (auto simp: bind_io_Done)
    have lines: "length ls' \<le> n" "\<forall>l \<in> set ls'. CHR 0x0A \<notin> set l"
      using editorAction_result(1) [OF act] editorAction_lines [OF act] st(1) by (auto simp: editing_def ls)
    have "sendable (join nl ls') \<and> length (split_on (CHR 0x0A) (join nl ls')) \<le> n" if keep
    proof -
      have s: "sendable (join nl ls')" using editorAction_result(2) [OF act that] by (simp add: sendable_def)
      have "length (split_on (CHR 0x0A) (join nl ls')) \<le> n"
      proof (cases "ls' = []")
        case False
        then have "split_on (CHR 0x0A) (join nl ls') = ls'" unfolding nl_def by (rule split_join) (use lines in auto)
        then show ?thesis using lines by simp
      qed (use st(2) in \<open>simp add: maxEditorLines_def\<close>)
      then show ?thesis using s by simp
    qed
    then show ?thesis using q lines shown by (auto simp: editing_def leave_with_def return_io_def split: if_splits)
  qed
qed

text \<open>
  Claim C36. The editor hands over only what can be sent. Whatever is typed, a text the editor gives back to be sent is
  not blank, is at most the 16 KB the store takes, and has at most 200 lines (or as many as the editor was started with,
  when a quoted message has more).
\<close>

theorem editor_result:
  assumes "editor start s = (Done (body, True), t)" and "\<forall>l \<in> set start. CHR 0x0A \<notin> set l"
  shows "trim_space body \<noteq> [] \<and> length body \<le> MaxBodyBytes \<and>
    length (split_on (CHR 0x0A) body) \<le> max maxEditorLines (length start)"
proof -
  let ?n = "max maxEditorLines (length start)"
  obtain w u where run: "repeat_io (editor_round w) (start, []) u = (Done (body, True), t)"
    using assms(1) by (auto simp: editor_def with_s_def then_io_def bind_io_Done)
  have "sendable body \<and> length (split_on (CHR 0x0A) body) \<le> ?n"
  proof (rule repeat_result [OF run, where J = "editing ?n"])
    show "editing ?n (start, [])" using assms(2) by (simp add: editing_def)
  qed (use editor_round_editing [of ?n] in fastforce)+
  then show ?thesis by (simp add: sendable_def)
qed

theorem editor_result_witness:
  "\<exists>body t. editor [] demo_typist = (Done (body, True), t) \<and> trim_space body \<noteq> [] \<and> length (split_on (CHR 0x0A) body) \<le> 200"
proof -
  obtain t where t: "editor [] demo_typist = (Done (join nl ([] @ map of_runes demo_lines), True), t)"
    using editor_sent [OF demo_typist(1,2) refl demo_typist(3-6)] by blast
  from t editor_result [OF t] show ?thesis by (auto simp: maxEditorLines_def)
qed

end
