(* ===== verification/Ftn_Cmd.thy ===== *)
theory Ftn_Cmd
  imports FTN_Toss FTN_Outbound Mailer
begin

text \<open>
  \<open>cmd/boar-ftn/main.go\<close>: the sysop's FidoNet tool. \<open>netmail\<close> queues one message, \<open>show\<close> and \<open>notify\<close> print what is
  in a packet or bundle, \<open>toss\<close> runs the tosser once, \<open>route\<close> passes on the netmail of a file that is for other systems.
  The flags are records, as the package \<open>flag\<close> leaves them. The theorem is about \<open>route\<close>: nothing is lost on the way.
\<close>

section \<open>What a command gets\<close>

text \<open>The case tables, the zip reader, the clock, and what the outbound needs; \<open>fe_error\<close> prints an error of the inbound.\<close>

record ftn_env =
  fe_lower :: "rune \<Rightarrow> rune"
  fe_upper :: "rune \<Rightarrow> rune"
  fe_fold :: "rune \<Rightarrow> rune"
  fe_unzip :: "string \<Rightarrow> zip_member list option"
  fe_now :: nanos
  fe_zone :: int
  fe_pid :: string
  fe_tmp :: "filesystem \<Rightarrow> string"
  fe_error :: "unit each_error \<Rightarrow> string"

datatype ftn_error = Usage | BadFlag string | Unknown string | CannotHold Charset | ReadError string "unit each_error"
  | NoRoute string Addr | QueueError queue_error | QueueFor Addr queue_error | OnlyLocal string

definition queue_mail ::
    "ftn_env \<Rightarrow> Outbound \<Rightarrow> Addr \<Rightarrow> Flavour \<Rightarrow> Packet \<Rightarrow> PackedMessage \<Rightarrow> filesystem \<Rightarrow> (queue_error + unit) \<times> filesystem" where
  "queue_mail E ob hop fl hdr pm fs =
     (let (r, states) = Queue (fe_upper E) (fe_now E, fe_zone E) (fe_pid E) (fe_tmp E fs) 0 ob hop fl hdr [pm] fs in (r, last states))"

definition flag_addrs :: "ftn_env \<Rightarrow> string \<Rightarrow> Addr list option" where
  "flag_addrs E s = (case ParseAddrList_loop (fe_lower E) (split_on CHR '','' s) of
       None \<Rightarrow> None | Some as \<Rightarrow> if as = [] then None else Some as)"

section \<open>netmail\<close>

record netmail_flags =
  nf_outbound :: string
  nf_zone :: int
  nf_from :: string
  nf_to :: string
  nf_fromName :: string
  nf_toName :: string
  nf_subject :: string
  nf_flavour :: string
  nf_charset :: string
  nf_password :: string
  nf_via :: string

definition flag_flavour :: "string \<Rightarrow> Flavour option" where
  "flag_flavour s = (if s = ''crash'' then Some Crash else if s = ''normal'' then Some Normal else if s = ''hold'' then Some Hold
     else if s = ''direct'' then Some DirectFlavour else None)"

definition queue_netmail ::
    "ftn_env \<Rightarrow> netmail_flags \<Rightarrow> Addr \<Rightarrow> Addr \<Rightarrow> Charset \<Rightarrow> Flavour \<Rightarrow> string \<Rightarrow> filesystem \<Rightarrow> (ftn_error + string) \<times> filesystem" where
  "queue_netmail E f fromAddr toAddr cs fl text fs =
     (let m = \<lparr>Area = [], From = nf_fromName f, To = nf_toName f, Subject = nf_subject f, Date = Some (fe_now E),
                Orig = fromAddr, Dest = toAddr, Attr = 0x0001 + 0x0100 + 0x0080 + (if fl = Crash then 0x0002 else 0),
                MsgID = Addr_String fromAddr @ '' '' @ hex_pad 8 (fe_now E div nanos_per_second mod 2 ^ 32), Reply = [], Charset = cs,
                TZUTC = TZUTC_of (fe_zone E), Body = text, SeenBy = [], Path = [],
                Kludges = [\<lparr>kl_name = ''PID'', kl_value = ''boar-ftn''\<rparr>]\<rparr>
      in case (if nf_via f \<noteq> [] then ParseAddr (fe_lower E) (nf_via f) else Some (Boss toAddr)) of
          None \<Rightarrow> (Inl (BadFlag ''-via''), fs)
        | Some hop \<Rightarrow>
            let hdr = \<lparr>pkFrom = (if IsPoint fromAddr then fromAddr else Boss fromAddr), pkTo = hop, Password = nf_password f,
                       Created = Some (fe_now E, fe_zone E), Messages = []\<rparr>;
                ob = \<lparr>Root = nf_outbound f, DefaultZone = nf_zone f\<rparr>
            in case queue_mail E ob hop fl hdr (Pack (fe_zone E) m) fs of
                (Inl e, fs') \<Rightarrow> (Inl (QueueError e), fs')
              | (Inr _, fs') \<Rightarrow> (Inr (''queued for '' @ Addr_String toAddr @ '' in '' @ PacketPath ob hop fl @ [CHR 0x0A]), fs'))"

definition cmd_netmail :: "ftn_env \<Rightarrow> netmail_flags \<Rightarrow> string \<Rightarrow> filesystem \<Rightarrow> (ftn_error + string) \<times> filesystem" where
  "cmd_netmail E f stdin fs = (case ParseAddr (fe_lower E) (nf_from f) of
       None \<Rightarrow> (Inl (BadFlag ''-from''), fs)
     | Some fromAddr \<Rightarrow> (case ParseAddr (fe_lower E) (nf_to f) of
         None \<Rightarrow> (Inl (BadFlag ''-to''), fs)
       | Some toAddr \<Rightarrow> (case ParseCHRS (fe_upper E) (nf_charset f) of
           None \<Rightarrow> (Inl (Unknown ''-charset''), fs)
         | Some cs \<Rightarrow> (case flag_flavour (nf_flavour f) of
             None \<Rightarrow> (Inl (Unknown ''-flavour''), fs)
           | Some fl \<Rightarrow>
               let text = trim_right_bytes [CHR 0x0A] (replace_all mail_crlf [CHR 0x0A] stdin)
               in if \<not> Fits (text @ nf_subject f @ nf_toName f @ nf_fromName f) cs then (Inl (CannotHold cs), fs)
                  else queue_netmail E f fromAddr toAddr cs fl text fs))))"

section \<open>show and notify\<close>

definition year4 :: "int \<Rightarrow> string" where
  "year4 y = (let s = itoa y in replicate (4 - length s) CHR ''0'' @ s)"

text \<open>\<open>Format("2006-01-02 15:04")\<close> and \<open>Format(time.RFC3339)\<close> of times in UTC; the zero time is 1 January of the year 1.\<close>

definition show_date :: "int option \<Rightarrow> string" where
  "show_date d = (let w = wall (case d of Some t \<Rightarrow> t | None \<Rightarrow> go_date 1 1 1 0 0 0 0, 0) in
     year4 (wYear w) @ ''-'' @ pad2 (wMonth w) @ ''-'' @ pad2 (wDay w) @ '' '' @ pad2 (wHour w) @ '':'' @ pad2 (wMinute w))"

definition rfc3339 :: "go_time option \<Rightarrow> string" where
  "rfc3339 d = (let w = wall (case d of Some t \<Rightarrow> t | None \<Rightarrow> (go_date 1 1 1 0 0 0 0, 0)) in
     year4 (wYear w) @ ''-'' @ pad2 (wMonth w) @ ''-'' @ pad2 (wDay w) @ ''T'' @ pad2 (wHour w) @ '':'' @ pad2 (wMinute w) @ '':'' @ pad2 (wSecond w) @ ''Z'')"

definition netmailFor :: "Message \<Rightarrow> Addr list \<Rightarrow> bool" where
  "netmailFor m addrs \<longleftrightarrow> Area m = [] \<and> list_ex (Same (Dest m)) addrs"

definition describe_message :: "Message \<Rightarrow> string" where
  "describe_message m =
     (let place = (if Area m \<noteq> [] then ''echo '' @ Area m @ '' from '' @ Addr_String (Orig m)
                   else ''netmail '' @ Addr_String (Orig m) @ '' -> '' @ Addr_String (Dest m))
      in ''-- '' @ place @ '' | '' @ From m @ '' -> '' @ To m @ '' | '' @ Subject m @ '' | '' @ Charset_String (Charset m) @ '' | '' @
         show_date (Date m) @ [CHR 0x0A] @ Body m @ [CHR 0x0A, CHR 0x0A])"

definition describe_packet :: "ftn_env \<Rightarrow> Addr list option \<Rightarrow> NamedPacket \<Rightarrow> string \<times> nat" where
  "describe_packet E only np =
     (let p = np_pkt np;
          ms = filter (\<lambda>m. case only of None \<Rightarrow> True | Some as \<Rightarrow> netmailFor m as) (packet_mail (fe_lower E) (fe_upper E) p)
      in if only \<noteq> None \<and> ms = [] then ([], 0)
         else (''== '' @ np_name np @ '': '' @ Addr_String (pkFrom p) @ '' -> '' @ Addr_String (pkTo p) @ '', '' @ rfc3339 (Created p) @ '', '' @
               itoa (int (length (Messages p))) @ '' message(s)'' @ [CHR 0x0A] @ concat (map describe_message ms), length ms))"

definition describe :: "ftn_env \<Rightarrow> filesystem \<Rightarrow> string \<Rightarrow> Addr list option \<Rightarrow> ftn_error + (string \<times> nat)" where
  "describe E fs name only = (case ReadPackets (fe_fold E) (fe_unzip E) name (fs name) of
       (Some e, _) \<Rightarrow> Inl (ReadError name e)
     | (None, nps) \<Rightarrow> (let ds = map (describe_packet E only) nps in Inr (concat (map fst ds), sum_list (map snd ds))))"

text \<open>What is printed, and the error that ended it.\<close>

fun cmd_show :: "ftn_env \<Rightarrow> filesystem \<Rightarrow> string list \<Rightarrow> string \<times> ftn_error option" where
  "cmd_show E fs [] = ([], None)"
| "cmd_show E fs (name # names) = (case describe E fs name None of
       Inl e \<Rightarrow> ([], Some e)
     | Inr (text, _) \<Rightarrow> (let (rest, e) = cmd_show E fs names in (text @ rest, e)))"

text \<open>\<open>strings.Split(line, " | ")\<close>; the subject of the first message.\<close>

function split_bars :: "string \<Rightarrow> string \<Rightarrow> string list" where
  "split_bars acc [] = [acc]"
| "split_bars acc (c # s) = (if prefix '' | '' (c # s) then acc # split_bars [] (drop 2 s) else split_bars (acc @ [c]) s)"
  by pat_completeness auto
termination by (relation "measure (\<lambda>(acc, s). length s)") auto

fun first_of :: "string list \<Rightarrow> string" where
  "first_of [] = []"
| "first_of (l # ls) = (if prefix ''-- '' l \<and> 3 \<le> length (split_bars [] l)
     then split_bars [] l ! 1 @ '': '' @ split_bars [] l ! 2 else first_of ls)"

definition firstSubject :: "string \<Rightarrow> string" where
  "firstSubject text = first_of (split_on CHR 0x0A text)"

record notify_flags =
  of_to :: string
  of_from :: string
  of_smtp :: string
  of_for :: string

definition notify_text :: "ftn_env \<Rightarrow> notify_flags \<Rightarrow> string \<Rightarrow> string \<Rightarrow> string \<Rightarrow> string" where
  "notify_text E f name subject text =
     ''From: Boar BBS FidoNet <'' @ of_from f @ ''>'' @ mail_crlf @ ''To: '' @ of_to f @ mail_crlf @ ''Subject: '' @ QEncode subject @ mail_crlf @
     ''Date: '' @ rfc1123z (fe_now E, fe_zone E) @ mail_crlf @
     ''MIME-Version: 1.0'' @ mail_crlf @ ''Content-Type: text/plain; charset=utf-8'' @ mail_crlf @ ''Content-Transfer-Encoding: 8bit'' @ mail_crlf @ mail_crlf @
     replace_all [CHR 0x0A] mail_crlf text @ mail_crlf @ ''-- '' @ mail_crlf @ ''The file is still in the inbound: '' @ name @ mail_crlf"

definition error_text_of :: "ftn_env \<Rightarrow> ftn_error \<Rightarrow> string" where
  "error_text_of E e = (case e of ReadError n r \<Rightarrow> n @ '': '' @ fe_error E r | _ \<Rightarrow> [])"

definition notify_subject :: "Addr list option \<Rightarrow> string \<Rightarrow> bool \<Rightarrow> string \<Rightarrow> string" where
  "notify_subject only name unreadable text =
     (let first = firstSubject text in
      if first \<noteq> [] then (case only of Some (a # _) \<Rightarrow> ''FidoNet netmail for '' @ Addr_String a @ '': '' @ first | _ \<Rightarrow> ''FidoNet: '' @ first)
      else if unreadable then ''FidoNet file arrived (unreadable): '' @ path_Base name
      else if only \<noteq> None then ''FidoNet netmail arrived: '' @ path_Base name
      else ''FidoNet mail arrived: '' @ path_Base name)"

text \<open>The e-mail that goes to the relay, if any; \<open>loopback\<close> says whether the relay is on this machine.\<close>

definition cmd_notify :: "ftn_env \<Rightarrow> (string \<Rightarrow> bool) \<Rightarrow> notify_flags \<Rightarrow> string list \<Rightarrow> filesystem \<Rightarrow> ftn_error + string option" where
  "cmd_notify E loopback f args fs =
     (case args of
        [name] \<Rightarrow>
          if of_to f = [] then Inl Usage
          else (case (if of_for f = [] then Some None else map_option Some (flag_addrs E (of_for f))) of
              None \<Rightarrow> Inl (BadFlag ''-for'')
            | Some only \<Rightarrow>
                if only \<noteq> None \<and> \<not> IsMailBundle (fe_lower E) name then Inr None
                else let r = describe E fs name only in
                  if only \<noteq> None \<and> (case r of Inr (_, shown) \<Rightarrow> shown = 0 | Inl _ \<Rightarrow> False) then Inr None
                  else let text = (case r of
                          Inr (t, _) \<Rightarrow> t
                        | Inl e \<Rightarrow> ''A file arrived that could not be read as FidoNet mail:'' @ [CHR 0x0A] @ name @ [CHR 0x0A, CHR 0x0A] @ error_text_of E e @ [CHR 0x0A]);
                      msg = notify_text E f name (notify_subject only name (\<not> is_ok r) text) text
                  in if loopback (of_smtp f) then Inr (Some msg) else Inl (OnlyLocal (of_smtp f)))
      | _ \<Rightarrow> Inl Usage)"

section \<open>toss\<close>

text \<open>One pass of the tosser without addresses of its own and without a file store.\<close>

definition cmd_toss :: "(string \<times> toss_env) list \<Rightarrow> spool \<Rightarrow> (toss_error + string) \<times> spool" where
  "cmd_toss inbounds s = (case TossAll \<lparr>Own = [], FileArea = None\<rparr> inbounds (s\<lparr>sp_stats := no_stats\<rparr>) of
       (Some e, s') \<Rightarrow> (Inl e, s')
     | (None, s') \<Rightarrow> (let st = sp_stats s' in
         (Inr (''tossed '' @ itoa (int (st_Files st)) @ '' file(s): '' @ itoa (int (st_Stored st)) @ '' stored, '' @ itoa (int (st_Duplicate st)) @
           '' duplicate, '' @ itoa (int (st_Skipped st)) @ '' skipped, '' @ itoa (int (st_Failed st)) @ '' failed'' @ [CHR 0x0A]), s')))"

section \<open>route\<close>

record route_flags =
  rf_outbound :: string
  rf_zone :: int
  rf_own :: string
  rf_direct :: string
  rf_via :: string
  rf_done :: string

definition route_hdr :: "ftn_env \<Rightarrow> Addr list \<Rightarrow> Addr \<Rightarrow> Packet" where
  "route_hdr E own hop = \<lparr>pkFrom = hd own, pkTo = hop, Password = [], Created = Some (fe_now E, fe_zone E), Messages = []\<rparr>"

definition route_flavour :: "PackedMessage \<Rightarrow> Flavour" where
  "route_flavour pm = (if odd (pmAttr pm div 2) then Crash else Normal)"

text \<open>One message of a packet: whether it was passed on.\<close>

definition route_message ::
    "ftn_env \<Rightarrow> Outbound \<Rightarrow> Addr list \<Rightarrow> Routes \<Rightarrow> string \<times> Packet \<times> PackedMessage \<Rightarrow> filesystem \<Rightarrow> (ftn_error + bool) \<times> filesystem" where
  "route_message E ob own routes x fs = (case x of (name, p, pm) \<Rightarrow>
     let m = ParseMessage (fe_lower E) (fe_upper E) pm (pkFrom p) (pkTo p) (DefaultCharset (pkFrom p)) in
     if \<not> IsNetmail pm \<or> Contains own (Dest m) then (Inr False, fs)
     else case Hop routes (Dest m) of
         None \<Rightarrow> (Inl (NoRoute name (Dest m)), fs)
       | Some hop \<Rightarrow>
           case queue_mail E ob hop (route_flavour pm) (route_hdr E own hop) (AddVia (hd own) (fe_now E) ''boar-ftn'' pm) fs of
             (Inl e, fs') \<Rightarrow> (Inl (QueueFor hop e), fs')
           | (Inr _, fs') \<Rightarrow> (Inr True, fs'))"

fun route_all ::
    "ftn_env \<Rightarrow> Outbound \<Rightarrow> Addr list \<Rightarrow> Routes \<Rightarrow> (string \<times> Packet \<times> PackedMessage) list \<Rightarrow> nat \<Rightarrow> filesystem \<Rightarrow> (ftn_error + nat) \<times> filesystem" where
  "route_all E ob own routes [] n fs = (Inr n, fs)"
| "route_all E ob own routes (x # xs) n fs = (case route_message E ob own routes x fs of
       (Inl e, fs') \<Rightarrow> (Inl e, fs')
     | (Inr r, fs') \<Rightarrow> route_all E ob own routes xs (if r then n + 1 else n) fs')"

definition route_list :: "NamedPacket list \<Rightarrow> (string \<times> Packet \<times> PackedMessage) list" where
  "route_list nps = concat (map (\<lambda>np. map (\<lambda>pm. (np_name np, np_pkt np, pm)) (Messages (np_pkt np))) nps)"

definition route_dest :: "ftn_env \<Rightarrow> string \<Rightarrow> string \<Rightarrow> filesystem \<Rightarrow> string" where
  "route_dest E folder name fs = (let dest = path_Join [folder, path_Base name] in
     if fs dest \<noteq> None then dest @ ''.'' @ itoa (fe_now E) else dest)"

text \<open>The files named by the flags have been parsed; \<open>n\<close> messages were passed on.\<close>

definition route_file ::
    "ftn_env \<Rightarrow> Outbound \<Rightarrow> Addr list \<Rightarrow> Routes \<Rightarrow> string \<Rightarrow> string \<Rightarrow> filesystem \<Rightarrow> (ftn_error + nat) \<times> filesystem" where
  "route_file E ob own routes folder name fs =
     (if \<not> IsMailBundle (fe_lower E) name then (Inr 0, fs)
      else case ReadPackets (fe_fold E) (fe_unzip E) name (fs name) of
          (Some e, _) \<Rightarrow> (Inl (ReadError name e), fs)
        | (None, nps) \<Rightarrow> (case route_all E ob own routes (route_list nps) 0 fs of
              (Inl e, fs') \<Rightarrow> (Inl e, fs')
            | (Inr n, fs') \<Rightarrow> (Inr n, (fs'(name := None))(route_dest E folder name fs' := fs' name))))"

definition flag_routes :: "ftn_env \<Rightarrow> route_flags \<Rightarrow> ftn_error + Routes" where
  "flag_routes E f =
     (case (if rf_direct f = [] then Some [] else flag_addrs E (rf_direct f)) of
        None \<Rightarrow> Inl (BadFlag ''-direct'')
      | Some direct \<Rightarrow> (case (if rf_via f = [] then Some zero_addr else ParseAddr (fe_lower E) (rf_via f)) of
            None \<Rightarrow> Inl (BadFlag ''-via'')
          | Some via \<Rightarrow> Inr \<lparr>Direct = direct, Via = via\<rparr>))"

definition cmd_route :: "ftn_env \<Rightarrow> route_flags \<Rightarrow> string list \<Rightarrow> filesystem \<Rightarrow> (ftn_error + nat) \<times> filesystem" where
  "cmd_route E f args fs = (case args of
       [name] \<Rightarrow> (case flag_addrs E (rf_own f) of
           None \<Rightarrow> (Inl (BadFlag ''-own''), fs)
         | Some own \<Rightarrow> (case flag_routes E f of
             Inl e \<Rightarrow> (Inl e, fs)
           | Inr routes \<Rightarrow> route_file E \<lparr>Root = rf_outbound f, DefaultZone = rf_zone f\<rparr> own routes (rf_done f) name fs))
     | _ \<Rightarrow> (Inl Usage, fs))"

section \<open>Nothing is lost\<close>

text \<open>
  The names \<open>CreateTemp\<close> picks are fresh and not those of the outbound; no packet in the outbound has the name
  of the file that is routed.
\<close>

definition tmp_fresh :: "ftn_env \<Rightarrow> Outbound \<Rightarrow> bool" where
  "tmp_fresh E ob \<longleftrightarrow> (\<forall>fs. finite (dom fs) \<longrightarrow> fs (fe_tmp E fs) = None \<and>
     (\<forall>a f. fe_tmp E fs \<noteq> PacketPath ob a f \<and> fe_tmp E fs \<noteq> bsy_path ob a))"

text \<open>A message is in a packet of the outbound that can be read.\<close>

definition waits :: "filesystem \<Rightarrow> string \<Rightarrow> PackedMessage \<Rightarrow> bool" where
  "waits fs path pm \<longleftrightarrow> (\<exists>bytes q. fs path = Some bytes \<and> ReadPacket bytes = (Some q, None) \<and> canon_message pm \<in> set (Messages q))"

lemma clip_clip: "clip (clip b n) n = clip b n"
proof -
  have "filter (\<lambda>c. c \<noteq> NUL) (take n (filter (\<lambda>c. c \<noteq> NUL) b)) = take n (filter (\<lambda>c. c \<noteq> NUL) b)"
    by (rule filter_True) (auto dest: in_set_takeD)
  then show ?thesis by (simp add: clip_def replace_NUL)
qed

lemma date_again: "trim_right_bytes cs (take n (trim_right_bytes cs (take n d))) = trim_right_bytes cs (take n d)"
proof -
  have "length (trim_right_bytes cs (take n d)) \<le> n"
    using length_dropWhile_le [of "\<lambda>c. c \<in> set cs" "rev (take n d)"] by (simp add: trim_right_bytes_def)
  then show ?thesis by (simp add: trim_right_bytes_def)
qed

lemma canon_canon: "canon_message (canon_message pm) = canon_message pm"
  by (simp add: canon_message_def clip_clip date_again)

lemma queue_mail_step:
  assumes E: "tmp_fresh E ob" and fin: "finite (dom fs)" and fits: "text_fits pm" "Messages hdr = []"
    and run: "queue_mail E ob hop fl hdr pm fs = (r, fs')"
  shows "(\<exists>e. r = Inl e \<and> fs' = fs) \<or>
    (r = Inr () \<and> (\<exists>bytes. fs' = fs(PacketPath ob hop fl \<mapsto> bytes)) \<and> waits fs' (PacketPath ob hop fl) pm \<and>
     (\<forall>x. waits fs (PacketPath ob hop fl) x \<longrightarrow> waits fs' (PacketPath ob hop fl) x))"
proof -
  let ?path = "PacketPath ob hop fl" and ?bsy = "bsy_path ob hop" and ?tmp = "fe_tmp E fs"
  have tmp: "fs ?tmp = None" "?tmp \<noteq> ?path" "?tmp \<noteq> ?bsy" using E fin unfolding tmp_fresh_def by blast+
  have ne: "?path \<noteq> ?bsy" by (rule path_ne_bsy)
  show ?thesis
  proof (cases "queued fs ?path hdr")
    case None
    then have "r \<noteq> Inr () \<and> fs' = fs" using run ne
      by (auto simp: queue_mail_def Queue_def Let_def queued_def split: option.splits prod.splits if_splits)
    then show ?thesis by (cases r) auto
  next
    case (Some pkt)
    show ?thesis
    proof (cases "fs ?bsy = None")
      case True
      let ?bytes = "WriteTo (fe_upper E) (fe_now E, fe_zone E) (pkt\<lparr>Messages := Messages pkt @ [pm]\<rparr>)"
      have "fs(?tmp := None, ?path \<mapsto> ?bytes, ?bsy := None) = fs(?path \<mapsto> ?bytes)" using tmp ne True by auto
      then have res: "r = Inr ()" "fs' = fs(?path \<mapsto> ?bytes)"
        using run tmp ne True unfolding queue_mail_def Queue_run [OF Some] by (auto simp: Let_def)
      obtain q where q: "ReadPacket ?bytes = (Some q, None)" "Messages q = map canon_message (Messages pkt @ [pm])"
        using Queue_bytes [OF Some, of "[pm]" "fe_upper E" "(fe_now E, fe_zone E)"] fits by auto
      have "waits fs' ?path pm" using q by (auto simp: waits_def res)
      moreover have "waits fs' ?path x" if w: "waits fs ?path x" for x
      proof -
        have "canon_message x \<in> set (Messages pkt)" using w Some by (auto simp: waits_def queued_def)
        then have "canon_message x \<in> set (Messages q)" using q(2) canon_canon [of x] by (force simp: image_iff)
        then show ?thesis using q(1) by (auto simp: waits_def res)
      qed
      ultimately show ?thesis using res by blast
    next
      case False
      then show ?thesis using run unfolding queue_mail_def Queue_run [OF Some] by auto
    qed
  qed
qed

text \<open>What \<open>route\<close> passes on: to whom, and the message with its Via line.\<close>

definition for_others :: "ftn_env \<Rightarrow> Addr list \<Rightarrow> string \<times> Packet \<times> PackedMessage \<Rightarrow> bool" where
  "for_others E own x = (case x of (name, p, pm) \<Rightarrow> IsNetmail pm \<and>
     \<not> Contains own (Dest (ParseMessage (fe_lower E) (fe_upper E) pm (pkFrom p) (pkTo p) (DefaultCharset (pkFrom p)))))"

definition next_hop :: "ftn_env \<Rightarrow> Routes \<Rightarrow> string \<times> Packet \<times> PackedMessage \<Rightarrow> Addr option" where
  "next_hop E routes x = (case x of (name, p, pm) \<Rightarrow>
     Hop routes (Dest (ParseMessage (fe_lower E) (fe_upper E) pm (pkFrom p) (pkTo p) (DefaultCharset (pkFrom p)))))"

definition passed_on :: "ftn_env \<Rightarrow> Addr list \<Rightarrow> string \<times> Packet \<times> PackedMessage \<Rightarrow> PackedMessage" where
  "passed_on E own x = AddVia (hd own) (fe_now E) ''boar-ftn'' (snd (snd x))"

definition routed :: "ftn_env \<Rightarrow> Outbound \<Rightarrow> Addr list \<Rightarrow> Routes \<Rightarrow> filesystem \<Rightarrow> string \<times> Packet \<times> PackedMessage \<Rightarrow> bool" where
  "routed E ob own routes fs x \<longleftrightarrow> (for_others E own x \<longrightarrow>
     (\<exists>hop. next_hop E routes x = Some hop \<and> waits fs (PacketPath ob hop (route_flavour (snd (snd x)))) (passed_on E own x)))"

text \<open>Queueing only adds: other files stay, and what waits goes on waiting.\<close>

definition only_adds :: "Outbound \<Rightarrow> filesystem \<Rightarrow> filesystem \<Rightarrow> bool" where
  "only_adds ob fs fs' \<longleftrightarrow> (finite (dom fs) \<longrightarrow> finite (dom fs')) \<and> (\<forall>n. (\<forall>a f. n \<noteq> PacketPath ob a f) \<longrightarrow> fs' n = fs n) \<and>
     (\<forall>a f x. waits fs (PacketPath ob a f) x \<longrightarrow> waits fs' (PacketPath ob a f) x)"

lemma only_adds_refl: "only_adds ob fs fs"
  by (simp add: only_adds_def)

lemma only_adds_trans: "only_adds ob a b \<Longrightarrow> only_adds ob b c \<Longrightarrow> only_adds ob a c"
  by (simp add: only_adds_def)

lemma routed_mono: "only_adds ob fs fs' \<Longrightarrow> routed E ob own routes fs x \<Longrightarrow> routed E ob own routes fs' x"
  by (auto simp: only_adds_def routed_def)

lemma queue_mail_adds:
  assumes "tmp_fresh E ob" "finite (dom fs)" "text_fits pm" "Messages hdr = []" "queue_mail E ob hop fl hdr pm fs = (r, fs')"
  shows "only_adds ob fs fs' \<and> (r = Inr () \<longrightarrow> waits fs' (PacketPath ob hop fl) pm)"
proof -
  from queue_mail_step [OF assms] consider (same) e where "r = Inl e" "fs' = fs"
    | (put) bytes where "r = Inr ()" "fs' = fs(PacketPath ob hop fl \<mapsto> bytes)" "waits fs' (PacketPath ob hop fl) pm"
        "\<forall>x. waits fs (PacketPath ob hop fl) x \<longrightarrow> waits fs' (PacketPath ob hop fl) x"
    by blast
  then show ?thesis
  proof cases
    case put
    have "waits fs' (PacketPath ob a f) x" if "waits fs (PacketPath ob a f) x" for a f x
      using that put(2,4) by (cases "PacketPath ob a f = PacketPath ob hop fl") (auto simp: waits_def)
    then show ?thesis using put by (auto simp: only_adds_def)
  qed (simp add: only_adds_refl)
qed

lemma route_message_adds:
  assumes E: "tmp_fresh E ob" and fin: "finite (dom fs)" and fits: "text_fits (passed_on E own x)" and run: "route_message E ob own routes x fs = (r, fs')"
  shows "only_adds ob fs fs' \<and> (is_ok r \<longrightarrow> routed E ob own routes fs' x)"
proof -
  obtain name p pm where x: "x = (name, p, pm)" by (cases x)
  show ?thesis
  proof (cases "for_others E own x")
    case False
    then show ?thesis using run by (auto simp: route_message_def x for_others_def routed_def only_adds_refl)
  next
    case True
    show ?thesis
    proof (cases "next_hop E routes x")
      case None
      then show ?thesis using run True by (auto simp: route_message_def x for_others_def next_hop_def only_adds_refl)
    next
      case (Some hop)
      obtain r' where q: "queue_mail E ob hop (route_flavour pm) (route_hdr E own hop) (passed_on E own x) fs = (r', fs')"
          "is_ok r \<longrightarrow> r' = Inr ()"
        using run True Some by (auto simp: route_message_def x for_others_def next_hop_def passed_on_def Let_def split: prod.splits sum.splits)
      have "Messages (route_hdr E own hop) = []" by (simp add: route_hdr_def)
      from queue_mail_adds [OF E fin fits this q(1)] show ?thesis using q(2) Some by (auto simp: routed_def x)
    qed
  qed
qed

lemma route_all_adds:
  assumes E: "tmp_fresh E ob" and fin: "finite (dom fs)" and fits: "\<forall>x \<in> set xs. text_fits (passed_on E own x)"
    and run: "route_all E ob own routes xs n fs = (r, fs')"
  shows "only_adds ob fs fs' \<and> (is_ok r \<longrightarrow> (\<forall>x \<in> set xs. routed E ob own routes fs' x))"
  using fin fits run
proof (induction xs arbitrary: n fs)
  case (Cons x xs)
  obtain q u where q: "route_message E ob own routes x fs = (q, u)" by fastforce
  have step: "only_adds ob fs u" "is_ok q \<longrightarrow> routed E ob own routes u x"
    using route_message_adds [OF E Cons.prems(1) _ q] Cons.prems(2) by auto
  then have fin: "finite (dom u)" using Cons.prems(1) by (simp add: only_adds_def)
  show ?case
  proof (cases q)
    case (Inr b)
    then have rest: "route_all E ob own routes xs (if b then n + 1 else n) u = (r, fs')" using Cons.prems(3) q by simp
    have IH: "only_adds ob u fs'" "is_ok r \<longrightarrow> (\<forall>x \<in> set xs. routed E ob own routes fs' x)"
      using Cons.IH [OF fin _ rest] Cons.prems(2) by auto
    then show ?thesis using step Inr only_adds_trans [OF step(1) IH(1)] routed_mono [OF IH(1)] by simp
  qed (use Cons.prems(3) q step in auto)
qed (auto simp: only_adds_refl)

lemma itoa_last: "last (s @ itoa i) \<noteq> CHR ''t''"
proof -
  have d: "is_digit (last (nat_digits n))" for n
    using nat_digits_digits [of n] by (simp add: list_all_iff)
  have t: "\<not> is_digit CHR ''t''" by (simp add: is_digit_def byte_val_def)
  have "last (nat_digits n) \<noteq> CHR ''t''" for n using d [of n] t by metis
  then show ?thesis using nat_digits_digits(2) by (simp add: itoa_def last_append)
qed

lemma route_dest_new: "u (route_dest E folder name u) = None \<or> (\<forall>a f. route_dest E folder name u \<noteq> PacketPath ob a f)"
proof (cases "u (path_Join [folder, path_Base name]) = None")
  case False
  then have "last (route_dest E folder name u) \<noteq> CHR ''t''"
    using itoa_last [of "path_Join [folder, path_Base name] @ ''.''" "fe_now E"] by (simp add: route_dest_def Let_def)
  then show ?thesis using PacketPath_last by metis
qed (simp add: route_dest_def Let_def)

lemma move_adds:
  assumes "\<forall>a f. name \<noteq> PacketPath ob a f"
  shows "waits u (PacketPath ob a f) x \<Longrightarrow> waits ((u(name := None))(route_dest E folder name u := v)) (PacketPath ob a f) x"
proof (cases "PacketPath ob a f = route_dest E folder name u")
  case True
  then have "u (route_dest E folder name u) = None" using route_dest_new [of u E folder name ob] by metis
  then show "waits u (PacketPath ob a f) x \<Longrightarrow> ?thesis" using True by (simp add: waits_def)
qed (use assms in \<open>auto simp: waits_def\<close>)

lemma routed_move:
  assumes "\<forall>a f. name \<noteq> PacketPath ob a f" "routed E ob own routes u x"
  shows "routed E ob own routes ((u(name := None))(route_dest E folder name u := v)) x"
  using assms(2) move_adds [OF assms(1)] unfolding routed_def by blast

text \<open>
  Claim C35. Netmail in transit is not lost. On a mail file in which no text that is passed on becomes longer than the 1 MB a
  packet may hold by its Via line, \<open>boar-ftn route\<close> either succeeds: then every netmail in it that is not for this
  system has a next hop and waits, with the Via line added and in the form packets have (names, subject and date clipped to
  their fields, NUL bytes removed), in a readable packet of the outbound for that hop, and the file itself is kept with
  the same bytes in the folder of routed files; or it fails: then the file is still where it was. In both cases what waited
  in the outbound before still does.
\<close>

theorem route_loses_nothing:
  assumes "tmp_fresh E ob" and "finite (dom fs)" and "\<forall>a f. name \<noteq> PacketPath ob a f" and "fs name = Some data" and "IsMailBundle (fe_lower E) name"
    and "\<forall>x \<in> set (route_list (snd (ReadPackets (fe_fold E) (fe_unzip E) name (Some data)))). text_fits (passed_on E own x)"
  shows "case route_file E ob own routes folder name fs of
      (Inl e, fs') \<Rightarrow> fs' name = Some data \<and> only_adds ob fs fs'
    | (Inr n, fs') \<Rightarrow> (\<exists>dest. prefix (path_Join [folder, path_Base name]) dest \<and> fs' dest = Some data) \<and>
        (\<forall>x \<in> set (route_list (snd (ReadPackets (fe_fold E) (fe_unzip E) name (Some data)))). routed E ob own routes fs' x) \<and>
        (\<forall>a f x. waits fs (PacketPath ob a f) x \<longrightarrow> waits fs' (PacketPath ob a f) x)"
proof -
  obtain e nps where rd: "ReadPackets (fe_fold E) (fe_unzip E) name (Some data) = (e, nps)" by fastforce
  obtain r u where run: "route_all E ob own routes (route_list nps) 0 fs = (r, u)" by fastforce
  have all: "only_adds ob fs u" "is_ok r \<longrightarrow> (\<forall>x \<in> set (route_list nps). routed E ob own routes u x)"
    using route_all_adds [OF assms(1,2) _ run] assms(6) rd by auto
  have u: "u name = Some data" using all(1) assms(3,4) by (simp add: only_adds_def)
  have dest: "prefix (path_Join [folder, path_Base name]) (route_dest E folder name u)" by (simp add: route_dest_def Let_def)
  show ?thesis
  proof (cases e)
    case None
    show ?thesis
    proof (cases r)
      case (Inr n)
      let ?v = "(u(name := None))(route_dest E folder name u := u name)"
      have "route_file E ob own routes folder name fs = (Inr n, ?v)" using assms(4,5) rd None run Inr by (simp add: route_file_def)
      moreover have "\<forall>x \<in> set (route_list nps). routed E ob own routes ?v x" using all(2) Inr routed_move [OF assms(3)] by simp
      moreover have "\<forall>a f x. waits fs (PacketPath ob a f) x \<longrightarrow> waits ?v (PacketPath ob a f) x"
      proof (intro allI impI)
        fix a f x assume "waits fs (PacketPath ob a f) x"
        then have "waits u (PacketPath ob a f) x" using all(1) by (simp add: only_adds_def)
        then show "waits ?v (PacketPath ob a f) x" by (rule move_adds [OF assms(3)])
      qed
      moreover have "?v (route_dest E folder name u) = Some data" using u by simp
      ultimately show ?thesis using dest rd by (simp only: prod.case sum.case snd_conv) blast
    qed (use assms(4,5) rd None run u all(1) in \<open>simp add: route_file_def\<close>)
  qed (use assms(4,5) rd in \<open>simp add: route_file_def only_adds_refl\<close>)
qed

definition demo_ftn :: ftn_env where
  "demo_ftn = \<lparr>fe_lower = id, fe_upper = id, fe_fold = id, fe_unzip = (\<lambda>_. None), fe_now = 0, fe_zone = 0, fe_pid = ''1'',
     fe_tmp = (\<lambda>fs. replicate (Suc (Max (insert 0 (length ` dom fs)))) CHR ''x''), fe_error = (\<lambda>_. [])\<rparr>"

lemma demo_outbound_hd: "hd (PacketPath demo_outbound a f) = CHR ''o''" "hd (bsy_path demo_outbound a) = CHR ''o''"
  by (auto simp: PacketPath_def bsy_path_def base_def demo_outbound_def Let_def)

lemma demo_tmp_fresh: "tmp_fresh demo_ftn demo_outbound"
  unfolding tmp_fresh_def
proof (intro allI impI)
  fix fs :: filesystem assume fin: "finite (dom fs)"
  have "fe_tmp demo_ftn fs \<notin> dom fs"
  proof
    assume "fe_tmp demo_ftn fs \<in> dom fs"
    then have "length (fe_tmp demo_ftn fs) \<le> Max (insert 0 (length ` dom fs))" using fin by (intro Max_ge) auto
    then show False by (simp add: demo_ftn_def)
  qed
  moreover have ne: "fe_tmp demo_ftn fs \<noteq> p" if "hd p = CHR ''o''" for p using that by (auto simp: demo_ftn_def)
  ultimately show "fs (fe_tmp demo_ftn fs) = None \<and> (\<forall>a f. fe_tmp demo_ftn fs \<noteq> PacketPath demo_outbound a f \<and> fe_tmp demo_ftn fs \<noteq> bsy_path demo_outbound a)"
    using ne demo_outbound_hd by (simp add: domIff)
qed

definition demo_mail :: string where
  "demo_mail = WriteTo id (0, 0) demo_packet"

lemma demo_packet_read: "ReadPacket demo_mail = (Some demo_packet, None)"
  using ReadPacket_WriteTo_canon [OF demo_packet_ok(1), of id "(0, 0)"] canon_packet_id [of id demo_packet "(0, 0)"] demo_packet_ok
  by (simp add: demo_mail_def)

lemma demo_mail_read: "ReadPackets (fe_fold demo_ftn) (fe_unzip demo_ftn) ''in/x.pkt'' (Some demo_mail) =
    (None, [\<lparr>np_name = ''x.pkt'', np_pkt = demo_packet\<rparr>])"
proof -
  have len: "58 \<le> length demo_mail" "length demo_mail \<le> 1000"
    by (simp_all add: demo_mail_def WriteTo_def header_length headerLen_def demo_packet_def encode_def demo_packed_def clip_def
        replace_NUL date_field_def copy_at_def le16_def maxNameLen_def maxSubjectLen_def)
  have "get16 demo_mail 0 = 9"
    using header_word(2) [of id "(0, 0)" demo_packet] header_length [of id "(0, 0)" demo_packet]
    by (simp add: demo_mail_def WriteTo_def get16_def nth_append headerLen_def) (simp add: demo_packet_def)
  moreover have "demo_mail ! i = zip_magic ! i" if "take 4 demo_mail = zip_magic" "i < 4" for i
    using that by (metis nth_take)
  ultimately have "take 4 demo_mail \<noteq> zip_magic" by (auto simp: get16_def zip_magic_def byte_val_def)
  moreover have "path_Base ''in/x.pkt'' = ''x.pkt''" by code_simp
  ultimately show ?thesis
    using demo_packet_read len by (simp add: ReadPackets_def EachPacket_def whole_packet_def maxBundleBytes_def maxPacketBytes_def)
qed

theorem route_loses_nothing_witness:
  "case route_file demo_ftn demo_outbound [pkFrom demo_packet] \<lparr>Direct = [Boss (pkTo demo_packet)], Via = zero_addr\<rparr> ''routed'' ''in/x.pkt''
      [''in/x.pkt'' \<mapsto> demo_mail] of
      (Inl e, fs') \<Rightarrow> fs' ''in/x.pkt'' = Some demo_mail \<and> only_adds demo_outbound [''in/x.pkt'' \<mapsto> demo_mail] fs'
    | (Inr n, fs') \<Rightarrow> (\<exists>dest. prefix (path_Join [''routed'', path_Base ''in/x.pkt'']) dest \<and> fs' dest = Some demo_mail) \<and>
        (\<forall>x \<in> set (route_list (snd (ReadPackets (fe_fold demo_ftn) (fe_unzip demo_ftn) ''in/x.pkt'' (Some demo_mail)))).
           routed demo_ftn demo_outbound [pkFrom demo_packet] \<lparr>Direct = [Boss (pkTo demo_packet)], Via = zero_addr\<rparr> fs' x) \<and>
        (\<forall>a f x. waits [''in/x.pkt'' \<mapsto> demo_mail] (PacketPath demo_outbound a f) x \<longrightarrow> waits fs' (PacketPath demo_outbound a f) x)"
proof (rule route_loses_nothing [OF demo_tmp_fresh])
  show "\<forall>a f. ''in/x.pkt'' \<noteq> PacketPath demo_outbound a f" using demo_outbound_hd(1) by (auto dest!: arg_cong [where f = hd])
  have lo: "fe_lower demo_ftn = id" by (simp add: demo_ftn_def)
  have ext: "path_Ext (path_Base ''in/x.pkt'') = ''.pkt''" by code_simp
  have "to_lower id ''.pkt'' = sql_lower ''.pkt''" by (rule to_lower_ascii) (simp add: is_ascii_def byte_val_def)
  also have "\<dots> = ''.pkt''" by code_simp
  finally have "IsMailBundle id ''in/x.pkt''" by (simp add: IsMailBundle_def ext)
  then show "IsMailBundle (fe_lower demo_ftn) ''in/x.pkt''" by (simp only: lo)
  have "via_stamp 0 = ''19700101.000000.UTC''" by code_simp
  moreover have "Addr_String (pkFrom demo_packet) = ''2:410/9''" by code_simp
  ultimately have "text_fits (AddVia (pkFrom demo_packet) 0 ''boar-ftn'' demo_packed)"
    by (simp add: AddVia_def text_fits_def demo_packed_def trim_right_bytes_def maxMessageText_def NUL_def)
  then have "text_fits (passed_on demo_ftn [pkFrom demo_packet] (''x.pkt'', demo_packet, demo_packed))"
    by (simp add: passed_on_def demo_ftn_def)
  then show "\<forall>x \<in> set (route_list (snd (ReadPackets (fe_fold demo_ftn) (fe_unzip demo_ftn) ''in/x.pkt'' (Some demo_mail)))).
      text_fits (passed_on demo_ftn [pkFrom demo_packet] x)"
    unfolding demo_mail_read by (simp add: route_list_def demo_packet_def)
qed simp_all

end
