(* ===== verification/Bbs_Conn.thy ===== *)
theory Bbs_Conn
  imports Bbs_Menu "HOL-Library.Word"
begin

text \<open>
  A caller's connection: \<open>serveCaller\<close> and the handlers of \<open>internal/bbs/server.go\<close>, with the SSH side of \<open>ssh.go\<close> and
  \<open>sshterm.go\<close>. The SSH protocol itself (x/crypto/ssh) is not in the repository: what it hands over are authentication
  attempts, channel types, requests and chunks of bytes. A connection's whole session runs without other callers in between.
\<close>

section \<open>The terminal of an SSH channel (sshterm.go)\<close>

text \<open>\<open>data\<close>: the chunks still to come, each with its time; after them the client has closed its side or the connection broke.\<close>

record sshTerm =
  st_data :: "(nanos \<times> string) list"
  st_readErr :: bool
  st_buf :: string
  st_idle :: nanos
  st_width :: int
  st_height :: int
  st_termType :: string
  st_userID :: int

definition newSSHTerm :: "(nanos \<times> string) list \<Rightarrow> bool \<Rightarrow> nanos \<Rightarrow> sshTerm" where
  "newSSHTerm data broken idle = \<lparr>st_data = data, st_readErr = broken, st_buf = [], st_idle = idle, st_width = 80, st_height = 24,
     st_termType = [], st_userID = 0\<rparr>"

datatype ssh_read = SshEOF | SshBroken | SshIdle

text \<open>\<open>next\<close>, called at the time \<open>now\<close>: the chunk and when it was there.\<close>

definition ssh_next :: "nanos \<Rightarrow> sshTerm \<Rightarrow> (ssh_read + string \<times> nanos) \<times> sshTerm" where
  "ssh_next now t = (case st_data t of
       [] \<Rightarrow> (Inl (if st_readErr t then SshBroken else SshEOF), t)
     | (at, chunk) # rest \<Rightarrow>
         if 0 < st_idle t \<and> now + st_idle t < at then (Inl SshIdle, t)
         else (Inr (chunk, max now at), t\<lparr>st_data := rest\<rparr>))"

text \<open>\<open>readLoop\<close> passes on no empty chunks.\<close>

definition ssh_ReadByte :: "nanos \<Rightarrow> sshTerm \<Rightarrow> (ssh_read + char \<times> nanos) \<times> sshTerm" where
  "ssh_ReadByte now t = (case st_buf t of
       b # bs \<Rightarrow> (Inr (b, now), t\<lparr>st_buf := bs\<rparr>)
     | [] \<Rightarrow> (case ssh_next now t of
           (Inl e, t') \<Rightarrow> (Inl e, t')
         | (Inr (chunk, now'), t') \<Rightarrow> (Inr (hd chunk, now'), t'\<lparr>st_buf := tl chunk\<rparr>)))"

definition setSize :: "32 word \<Rightarrow> 32 word \<Rightarrow> sshTerm \<Rightarrow> sshTerm" where
  "setSize cols rows t =
     (if cols = 0 \<or> rows = 0 then t
      else let (w, h) = clampSize (min (uint cols) maxTermWidth) (min (uint rows) maxTermHeight)
           in t\<lparr>st_width := w, st_height := h\<rparr>)"

text \<open>A request with its payload, \<open>None\<close> where \<open>ssh.Unmarshal\<close> fails.\<close>

datatype ssh_request = PtyReq "(string \<times> 32 word \<times> 32 word) option" | WindowChange "(32 word \<times> 32 word) option"
  | Shell | Env | OtherRequest

text \<open>One request: the answer, \<open>started\<close> and the terminal after it.\<close>

definition handleRequest :: "ssh_request \<Rightarrow> bool \<Rightarrow> sshTerm \<Rightarrow> bool \<times> bool \<times> sshTerm" where
  "handleRequest r started t = (case r of
       PtyReq None \<Rightarrow> (False, started, t)
     | PtyReq (Some (term, cols, rows)) \<Rightarrow> (True, started, setSize cols rows (t\<lparr>st_termType := term\<rparr>))
     | WindowChange None \<Rightarrow> (False, started, t)
     | WindowChange (Some (cols, rows)) \<Rightarrow> (True, started, setSize cols rows t)
     | Shell \<Rightarrow> (\<not> started, True, t)
     | Env \<Rightarrow> (True, started, t)
     | OtherRequest \<Rightarrow> (False, started, t))"

text \<open>The requests in their order: the answers, and how often \<open>ready\<close> was closed.\<close>

fun handleRequests :: "ssh_request list \<Rightarrow> bool \<Rightarrow> sshTerm \<Rightarrow> bool list \<times> nat \<times> sshTerm" where
  "handleRequests [] started t = ([], 0, t)"
| "handleRequests (r # rs) started t =
     (let (ok, started', t') = handleRequest r started t; (oks, n, t'') = handleRequests rs started' t'
      in (ok # oks, (if started' \<and> \<not> started then n + 1 else n), t''))"

text \<open>
  The shell starts at most once, so \<open>ready\<close> is never closed twice, which would panic; whatever sizes a client
  announces, the window keeps the bounds that the screens need.
\<close>

definition window_ok :: "sshTerm \<Rightarrow> bool" where
  "window_ok t \<longleftrightarrow> 20 \<le> st_width t \<and> st_width t \<le> 512 \<and> 5 \<le> st_height t \<and> st_height t \<le> 512"

lemma window_ok_setSize: "window_ok t \<Longrightarrow> window_ok (setSize c r t)"
  by (simp add: window_ok_def setSize_def clampSize_def minTermWidth_def maxTermWidth_def minTermHeight_def maxTermHeight_def)

lemma window_ok_new: "window_ok (newSSHTerm data broken idle)"
  by (simp add: window_ok_def newSSHTerm_def)

lemma window_ok_term [simp]: "window_ok (t\<lparr>st_termType := x\<rparr>) = window_ok t"
  by (simp add: window_ok_def)

lemma handleRequest_sound:
  assumes "handleRequest r started t = (ok, started', t')" and "window_ok t"
  shows "window_ok t'" "started \<Longrightarrow> started'"
  using assms by (auto simp: handleRequest_def window_ok_setSize split: ssh_request.splits option.splits)

theorem handleRequests_sound:
  assumes "handleRequests rs started t = (oks, n, t')" and "window_ok t"
  shows "window_ok t' \<and> n \<le> (if started then 0 else 1) \<and> length oks = length rs"
  using assms
proof (induction rs arbitrary: started t oks n t')
  case (Cons r rs)
  obtain ok s1 t1 where one: "handleRequest r started t = (ok, s1, t1)" by (metis prod_cases3)
  obtain oks' n' t2 where rest: "handleRequests rs s1 t1 = (oks', n', t2)" by (metis prod_cases3)
  show ?case
    using Cons.IH [OF rest handleRequest_sound(1) [OF one Cons.prems(2)]] Cons.prems rest one handleRequest_sound [OF one Cons.prems(2)]
    by (auto split: if_splits)
qed simp

text \<open>In one piece or in many, the bytes come in the order they were sent.\<close>

fun ssh_reads :: "nat \<Rightarrow> nanos \<Rightarrow> sshTerm \<Rightarrow> string" where
  "ssh_reads 0 now t = []"
| "ssh_reads (Suc k) now t = (case ssh_ReadByte now t of (Inl e, t') \<Rightarrow> [] | (Inr (b, now'), t') \<Rightarrow> b # ssh_reads k now' t')"

theorem ssh_reads_all:
  assumes "list_all (\<lambda>(at, chunk). chunk \<noteq> []) (st_data t)" and "st_idle t = 0"
  shows "ssh_reads k now t = take k (st_buf t @ concat (map snd (st_data t)))"
  using assms
proof (induction k arbitrary: now t)
  case (Suc k)
  show ?case
  proof (cases "st_buf t")
    case Nil
    show ?thesis
    proof (cases "st_data t")
      case (Cons x rest)
      obtain at chunk where x: "x = (at, chunk)" by fastforce
      then obtain b bs where "chunk = b # bs" using Suc.prems Cons by (cases chunk) auto
      then show ?thesis using Suc x Cons Nil by (simp add: ssh_ReadByte_def ssh_next_def)
    qed (simp add: Nil ssh_ReadByte_def ssh_next_def)
  qed (use Suc in \<open>simp add: ssh_ReadByte_def\<close>)
qed simp

section \<open>SSH authentication and channels (ssh.go)\<close>

datatype ssh_auth = NoneAuth | PublicKeyAuth string | KeyboardInteractive | PasswordAuth string

text \<open>
  The callbacks of \<open>ServeSSH\<close>: \<open>None\<close> is a refusal, otherwise the value of \<open>keyUserExtension\<close>, if it is set. A key is
  its fingerprint.
\<close>

definition ssh_authenticate :: "db \<Rightarrow> ssh_auth \<Rightarrow> string option option" where
  "ssh_authenticate d a = (case a of
       NoneAuth \<Rightarrow> None
     | PublicKeyAuth f \<Rightarrow> (case UserBySSHKey d f of Inl e \<Rightarrow> None | Inr u \<Rightarrow> Some (Some (itoa (u_id u))))
     | KeyboardInteractive \<Rightarrow> Some None
     | PasswordAuth p \<Rightarrow> Some None)"

text \<open>\<open>strconv.ParseInt\<close> of a missing extension gives 0, as for any text that is no number.\<close>

definition ssh_userID :: "string option \<Rightarrow> int" where
  "ssh_userID ext = (case ext of None \<Rightarrow> 0 | Some s \<Rightarrow> (case atoi s of None \<Rightarrow> 0 | Some i \<Rightarrow> i))"

text \<open>Only a registered key gives an account, and then the account the key is registered for.\<close>

theorem ssh_account:
  assumes "ssh_authenticate d a = Some ext" and "ssh_userID ext \<noteq> 0" and "\<forall>u \<in> set (t_users d). int_range (u_id u)"
  shows "\<exists>f u. a = PublicKeyAuth f \<and> UserBySSHKey d f = Inr u \<and> ssh_userID ext = u_id u"
proof -
  from assms(1,2) obtain f u where f: "a = PublicKeyAuth f" "UserBySSHKey d f = Inr u" "ext = Some (itoa (u_id u))"
    by (auto simp: ssh_authenticate_def ssh_userID_def split: ssh_auth.splits sum.splits)
  define found where "found = concat (map (\<lambda>k. if k_fingerprint k = trim_space f then filter (\<lambda>u. u_id u = k_user k) (t_users d) else [])
      (t_ssh_keys d))"
  obtain r rs where r: "found = r # rs" "u = user.truncate r"
    using f(2) unfolding UserBySSHKey_def found_def [symmetric] by (cases found) auto
  have "r \<in> set found" by (simp add: r(1))
  then have "r \<in> set (t_users d)" unfolding found_def by (auto split: if_splits)
  then have "int_range (u_id u)" using assms(3) by (simp add: r(2) user.defs)
  then show ?thesis using f by (simp add: ssh_userID_def atoi_itoa)
qed

datatype channel_answer = Accepted | UnknownChannelType | ResourceShortage

text \<open>The first session channel is served, when the client asks for a shell in time; the others are turned away.\<close>

fun answer_channels :: "string list \<Rightarrow> channel_answer list" where
  "answer_channels [] = []"
| "answer_channels (ty # tys) =
     (if ty \<noteq> ''session'' then UnknownChannelType # answer_channels tys
      else Accepted # map (\<lambda>_. ResourceShortage) tys)"

lemma one_channel: "length (filter (\<lambda>a. a = Accepted) (answer_channels tys)) \<le> 1"
  by (induction tys) auto

section \<open>A connection (server.go)\<close>

text \<open>What a transport knows when the session starts; \<open>tr_idle\<close>: the input ends because the caller is idle for too long.\<close>

record transport_end =
  tr_in :: "(nanos \<times> char) list"
  tr_idle :: bool
  tr_width :: int
  tr_height :: int
  tr_termType :: "string option"
  tr_key :: "int option"

definition newSession :: "nanos \<Rightarrow> transport_end \<Rightarrow> int \<Rightarrow> string \<Rightarrow> string \<Rightarrow> bool \<Rightarrow> server \<Rightarrow> caller" where
  "newSession now tr node ip ipKey secure sv =
     \<lparr>s_in = tr_in tr, s_now = now, s_broken = False, s_out = [], s_werr = False, s_width = tr_width tr, s_height = tr_height tr,
      s_cs = TermASCII, s_mode = NoColor, s_rend = NewRenderer NoColor, s_esc = escNone, s_lastCR = False, s_ubuf = [],
      c_srv = sv, c_node = node, c_ip = ip, c_ipKey = ipKey, c_secure = secure, c_start = now, c_user = no_user,
      c_loggedIn = False, c_keyAuth = False\<rparr>"

definition loginTimeout :: nanos where "loginTimeout = 5 * 60 * nanos_per_second"

text \<open>
  The timer closes the terminal of a caller who has not signed in by then. \<open>hurried\<close> is the session as it goes when
  nothing arrives after that; a caller who has signed in during it goes on as if there were no timer.
\<close>

definition timed_session :: "transport_end \<Rightarrow> caller \<Rightarrow> (unit outcome \<times> caller) \<times> bool" where
  "timed_session tr s =
     (let hurried = run_session (tr_termType tr) (tr_key tr) (s\<lparr>s_in := takeWhile (\<lambda>(at, b). at \<le> c_start s + loginTimeout) (s_in s)\<rparr>)
      in if c_loggedIn (snd hurried) then (run_session (tr_termType tr) (tr_key tr) s, tr_idle tr)
         else if list_all (\<lambda>(at, b). at \<le> c_start s + loginTimeout) (s_in s) then (hurried, tr_idle tr)
         else (hurried, False))"

definition hangUp_text :: "string \<Rightarrow> string" where
  "hangUp_text msg = mail_crlf @ msg @ mail_crlf"

definition node_error_text :: "node_error \<Rightarrow> string" where
  "node_error_text e = (case e of errNodesBusy \<Rightarrow> ''All nodes are busy. Please call back later.''
     | errShuttingDown \<Rightarrow> ''The system is going down. Call back soon!'')"

definition on_limit :: "(limits \<Rightarrow> limits) \<Rightarrow> server \<Rightarrow> server" where
  "on_limit f sv = sv\<lparr>sv_limit := f (sv_limit sv)\<rparr>"

text \<open>What the caller's terminal got last of all, the outcome of the session if there was one, and the server.\<close>

definition serveCaller ::
    "nanos \<Rightarrow> transport_end \<Rightarrow> string \<Rightarrow> string \<Rightarrow> bool \<Rightarrow> server \<Rightarrow> (string \<times> unit outcome option) \<times> server" where
  "serveCaller now tr ip ipKey secure sv =
     (let (stop, fails) = blocked now ipKey (lm_loginFailures (sv_limit sv));
          sv = on_limit (\<lambda>l. l\<lparr>lm_loginFailures := fails\<rparr>) sv
      in if stop then ((hangUp_text ''Too many failed logins from your address. Try again later.'', None), sv)
         else case acquire now secure (sv_nodes sv) of
             (Inl e, t) \<Rightarrow> ((hangUp_text (node_error_text e), None), sv\<lparr>sv_nodes := t\<rparr>)
           | (Inr n, t) \<Rightarrow>
               let ((q, s), idle) = timed_session tr (newSession now tr (nd_id n) ip ipKey secure (sv\<lparr>sv_nodes := t\<rparr>));
                   bye = (if q = Fail ReadErr \<and> idle then hangUp_text ''Idle too long, disconnecting.'' else [])
               in ((bye, Some q), (c_srv s)\<lparr>sv_nodes := release (nd_id n) (sv_nodes (c_srv s))\<rparr>))"

text \<open>One connection of \<open>acceptLoop\<close>; a panic of the session is recovered from, and its place is given back all the same.\<close>

definition handle_connection ::
    "nanos \<Rightarrow> transport_end \<Rightarrow> string \<Rightarrow> string \<Rightarrow> bool \<Rightarrow> server \<Rightarrow> (string \<times> unit outcome option) option \<times> server" where
  "handle_connection now tr ip ipKey secure sv =
     (let (ok, c) = conn_acquire ipKey (sv_conns sv)
      in if \<not> ok then (None, sv)
         else let (r, sv') = serveCaller now tr ip ipKey secure (sv\<lparr>sv_conns := c\<rparr>)
              in (Some r, sv'\<lparr>sv_conns := conn_release ipKey (sv_conns sv')\<rparr>))"

text \<open>
  A caller who is turned away leaves the database, the table of callers and the places as they were; after a session no
  node of its number is left, however it ended.
\<close>

theorem turned_away:
  assumes "serveCaller now tr ip ipKey secure sv = ((text, None), sv')"
  shows "sv_db sv' = sv_db sv \<and> sv_nodes sv' = sv_nodes sv \<and> sv_conns sv' = sv_conns sv \<and>
    prefix mail_crlf text"
  using assms
  by (auto simp: serveCaller_def on_limit_def hangUp_text_def acquire_def Let_def split: prod.splits sum.splits if_splits option.splits)

theorem node_given_back:
  assumes "serveCaller now tr ip ipKey secure sv = ((text, Some q), sv')" and "lowest_free (sv_nodes sv) = Some i"
  shows "i \<notin> set (map nd_id (nt_nodes (sv_nodes sv')))"
  using assms
  by (auto simp: serveCaller_def on_limit_def acquire_def release_def delete_where_def new_node_def Let_def
      split: prod.splits sum.splits if_splits)

end
