(* ===== verification/Boar_Cmd.thy ===== *)
theory Boar_Cmd
  imports Bbs_Conn Toss_Props Filelink
begin

text \<open>
  \<open>cmd/boar/main.go\<close> up to the running server, and the tosser it runs (\<open>internal/bbs/ftn.go\<close>): what a configuration
  must be, what becomes of it, and one pass over the inbounds. The flags are a record, as the package \<open>flag\<close> leaves them;
  listening, signals and the HTTP servers are not modelled.
\<close>

section \<open>Flags\<close>

definition maxNodesLimit :: int where "maxNodesLimit = 999"
definition mailQueueSize :: nat where "mailQueueSize = 256"

record options =
  o_telnetAddr :: string
  o_sshAddr :: string
  o_dataPath :: string
  o_artDir :: string
  o_doorsFile :: string
  o_doorsDir :: string
  o_name :: string
  o_sysop :: string
  o_maxNodes :: int
  o_maxSignups :: int
  o_idle :: nanos
  o_smtpHost :: string
  o_smtpPort :: int
  o_smtpFrom :: string
  o_publicAddr :: string
  o_ftnInbound :: string
  o_ftnInsecure :: string
  o_ftnAddress :: string
  o_ftnOutbound :: string
  o_ftnZone :: int
  o_ftnDirect :: string
  o_ftnVia :: string
  o_ftnSysop :: string
  o_files :: string
  o_filesWeb :: string
  o_filesURL :: string
  o_filesKey :: string
  o_filesLinkTTL :: nanos

datatype start_error = NodesOutOfRange | IdleTooShort | NoListener | NoSender | FilesFlags | BadAddress string | OutboundNeedsAddress
  | SysopError string error | DoorsError "door_error option" | KeyTooShort string | MailError

text \<open>\<open>if err != nil { return err }\<close>\<close>

definition checked :: "start_error + 'a \<Rightarrow> ('a \<Rightarrow> start_error + 'b) \<Rightarrow> start_error + 'b" where
  "checked r k = (case r of Inl e \<Rightarrow> Inl e | Inr v \<Rightarrow> k v)"

lemma checked_Inr: "checked m k = Inr y \<longleftrightarrow> (\<exists>x. m = Inr x \<and> k x = Inr y)"
  by (cases m) (auto simp: checked_def)

text \<open>What \<open>parseFlags\<close> checks and completes.\<close>

definition parseFlags :: "options \<Rightarrow> start_error + options" where
  "parseFlags opts =
     (if o_maxNodes opts < 1 \<or> maxNodesLimit < o_maxNodes opts then Inl NodesOutOfRange
      else if o_idle opts < minute then Inl IdleTooShort
      else if o_telnetAddr opts = [] \<and> o_sshAddr opts = [] then Inl NoListener
      else if o_smtpHost opts \<noteq> [] \<and> o_smtpFrom opts = [] then Inl NoSender
      else if (o_filesWeb opts \<noteq> [] \<or> o_filesURL opts \<noteq> []) \<and> (o_files opts = [] \<or> o_filesWeb opts = [] \<or> o_filesURL opts = [])
      then Inl FilesFlags
      else Inr (if o_filesKey opts = [] then opts\<lparr>o_filesKey := path_Join [path_Dir (o_dataPath opts), ''files.key'']\<rparr> else opts))"

definition ftnConfig :: "(rune \<Rightarrow> rune) \<Rightarrow> options \<Rightarrow> start_error + FTNConfig" where
  "ftnConfig lo opts = (case ParseAddrList lo (o_ftnAddress opts) of
       None \<Rightarrow> Inl (BadAddress ''-ftn-address'')
     | Some addrs \<Rightarrow> (case ParseAddrList lo (o_ftnDirect opts) of
           None \<Rightarrow> Inl (BadAddress ''-ftn-direct'')
         | Some direct \<Rightarrow> (case (if o_ftnVia opts \<noteq> [] then ParseAddr lo (o_ftnVia opts) else Some zero_addr) of
               None \<Rightarrow> Inl (BadAddress ''-ftn-via'')
             | Some via \<Rightarrow>
                 if o_ftnOutbound opts \<noteq> [] \<and> addrs = [] then Inl OutboundNeedsAddress
                 else Inr \<lparr>fc_Addresses = addrs,
                   fc_Outbound = (if o_ftnOutbound opts \<noteq> [] then \<lparr>Root = o_ftnOutbound opts, DefaultZone = o_ftnZone opts\<rparr>
                                  else \<lparr>Root = [], DefaultZone = 0\<rparr>),
                   fc_Routes = \<lparr>Direct = direct, Via = via\<rparr>, fc_SysopName = o_ftnSysop opts\<rparr>)))"

definition newMailQueue :: "(string \<Rightarrow> bool) \<Rightarrow> options \<Rightarrow> start_error + mail_queue" where
  "newMailQueue parse opts =
     (if NewSMTPSender parse \<lparr>smtp_Host = o_smtpHost opts, smtp_Port = o_smtpPort opts, smtp_From = o_smtpFrom opts, smtp_FromName = o_name opts\<rparr>
      then Inr (NewQueue mailQueueSize) else Inl MailError)"

section \<open>Starting\<close>

text \<open>What the machine provides: the files there are, JSON, random bytes, \<open>mail.ParseAddress\<close>.\<close>

record boar_env =
  be_store :: store_env
  be_file :: "string \<Rightarrow> string option"
  be_json :: "string \<Rightarrow> Door list option"
  be_random :: string
  be_address :: "string \<Rightarrow> bool"

definition promote :: "store_env \<Rightarrow> string \<Rightarrow> db \<Rightarrow> (start_error + unit) \<times> db" where
  "promote E handle d = (case BootstrapSysop E handle d of
       (Inl e, d') \<Rightarrow> (Inl (SysopError handle e), d') | (Inr u, d') \<Rightarrow> (Inr (), d'))"

text \<open>The key for links: none without a download server.\<close>

definition link_config :: "boar_env \<Rightarrow> options \<Rightarrow> start_error + FileLinkConfig" where
  "link_config B opts =
     (if o_filesWeb opts = [] then Inr \<lparr>fl_URL = [], fl_Key = [], fl_TTL = 0\<rparr>
      else case fst (LoadKey (be_file B (o_filesKey opts)) (be_random B)) of
          None \<Rightarrow> Inl (KeyTooShort (o_filesKey opts))
        | Some key \<Rightarrow> Inr \<lparr>fl_URL = o_filesURL opts, fl_Key = key, fl_TTL = o_filesLinkTTL opts\<rparr>)"

definition mail_config :: "boar_env \<Rightarrow> options \<Rightarrow> start_error + mail_queue option" where
  "mail_config B opts = (if o_smtpHost opts = [] then Inr None else checked (newMailQueue (be_address B) opts) (\<lambda>q. Inr (Some q)))"

text \<open>\<open>run\<close> after the flags, as far as \<open>bbs.New\<close>; \<open>given\<close> holds the parameters of the server.\<close>

definition start_server :: "nanos \<Rightarrow> boar_env \<Rightarrow> server \<Rightarrow> options \<Rightarrow> db \<Rightarrow> start_error + server" where
  "start_server now B given opts d =
     checked (case LoadConfig (be_json B) (be_file B (o_doorsFile opts)) of Inl e \<Rightarrow> Inl (DoorsError e) | Inr ds \<Rightarrow> Inr ds) (\<lambda>ds.
     checked (ftnConfig (se_lower (be_store B)) opts) (\<lambda>fc.
     checked (link_config B opts) (\<lambda>fl.
     checked (mail_config B opts) (\<lambda>q.
       Inr (New_server now (o_name opts) (o_maxNodes opts) (o_maxSignups opts)
         (given\<lparr>sv_db := d, sv_artDir := o_artDir opts, sv_publicAddress := o_publicAddr opts, sv_Doors := ds, sv_DoorsDir := o_doorsDir opts,
            sv_FTN := fc, sv_Files := o_files opts, sv_FileLinks := fl, sv_mail := q\<rparr>))))))"

text \<open>The error or the server, and the database that was opened.\<close>

definition start :: "nanos \<Rightarrow> boar_env \<Rightarrow> server \<Rightarrow> options \<Rightarrow> db \<Rightarrow> (start_error + server) \<times> db" where
  "start now B given opts0 d = (case parseFlags opts0 of
       Inl e \<Rightarrow> (Inl e, d)
     | Inr opts \<Rightarrow> (case (if o_sysop opts \<noteq> [] then promote (be_store B) (o_sysop opts) d else (Inr (), d)) of
           (Inl e, d') \<Rightarrow> (Inl e, d')
         | (Inr _, d') \<Rightarrow> (start_server now B given opts d', d')))"

section \<open>The tosser (ftn.go)\<close>

text \<open>One pass over the inbounds, each with what holds while it is read; a failed pass is logged and tried again later.\<close>

definition tossOnce :: "(string \<times> toss_env) list \<Rightarrow> server \<times> disk \<Rightarrow> server \<times> disk" where
  "tossOnce dirs x = (case x of (sv, fs) \<Rightarrow>
     let t = \<lparr>Own = fc_Addresses (sv_FTN sv), FileArea = (if sv_Files sv \<noteq> [] then Some \<lparr>fs_Root = sv_Files sv\<rparr> else None)\<rparr>;
         (e, s) = TossAll t dirs \<lparr>sp_db = sv_db sv, sp_disk = fs, sp_stats = no_stats\<rparr>
     in (sv\<lparr>sv_db := sp_db s\<rparr>, sp_disk s))"

text \<open>\<open>RunTosser\<close> over the passes there are before it is stopped; \<open>envs\<close> gives the circumstances of each.\<close>

definition RunTosser :: "string list \<Rightarrow> (string \<Rightarrow> toss_env) list \<Rightarrow> server \<times> disk \<Rightarrow> server \<times> disk" where
  "RunTosser inbounds envs x =
     (let dirs = filter (\<lambda>d. d \<noteq> []) inbounds
      in if dirs = [] then x else fold (\<lambda>T. tossOnce (map (\<lambda>d. (d, T d)) dirs)) envs x)"

section \<open>What a start gives\<close>

text \<open>
  A server that starts has room for its callers, nobody in it, and netmail exactly when an outbound is configured: the
  flag checks exclude that messages are queued for a system without an address. Its database is the one
  that was opened, with nothing but the promotion of \<open>-sysop\<close>.
\<close>

lemma ftnConfig_enabled: "ftnConfig lo opts = Inr fc \<Longrightarrow> ftn_enabled fc \<longleftrightarrow> o_ftnOutbound opts \<noteq> []"
  by (auto simp: ftnConfig_def ftn_enabled_def split: option.splits if_splits)

theorem start_sound:
  assumes "start now B given opts d = (Inr sv, d')" and "keyBytes \<le> length (be_random B)"
  shows "1 \<le> sv_maxNodes sv \<and> sv_maxNodes sv \<le> 999 \<and> nt_nodes (sv_nodes sv) = [] \<and> sv_db sv = d' \<and>
    (ftn_enabled (sv_FTN sv) \<longleftrightarrow> o_ftnOutbound opts \<noteq> []) \<and>
    (fl_URL (sv_FileLinks sv) \<noteq> [] \<longrightarrow> sv_Files sv \<noteq> [] \<and> keyBytes \<le> length (fl_Key (sv_FileLinks sv)))"
proof -
  obtain o1 where o1: "parseFlags opts = Inr o1" "start_server now B given o1 d' = Inr sv"
    using assms(1) by (auto simp: start_def split: sum.splits prod.splits if_splits)
  obtain ds fc fl q where c: "ftnConfig (se_lower (be_store B)) o1 = Inr fc" "link_config B o1 = Inr fl"
      "sv = New_server now (o_name o1) (o_maxNodes o1) (o_maxSignups o1)
         (given\<lparr>sv_db := d', sv_artDir := o_artDir o1, sv_publicAddress := o_publicAddr o1, sv_Doors := ds, sv_DoorsDir := o_doorsDir o1,
            sv_FTN := fc, sv_Files := o_files o1, sv_FileLinks := fl, sv_mail := q\<rparr>)"
    using o1(2) by (auto simp: start_server_def checked_Inr)
  have f: "1 \<le> o_maxNodes o1" "o_maxNodes o1 \<le> 999" "o_ftnOutbound o1 = o_ftnOutbound opts"
      "o_filesWeb o1 \<noteq> [] \<longrightarrow> o_files o1 \<noteq> []"
    using o1(1) by (auto simp: parseFlags_def maxNodesLimit_def split: if_splits)
  have "fl_URL fl \<noteq> [] \<longrightarrow> o_filesWeb o1 \<noteq> [] \<and> keyBytes \<le> length (fl_Key fl)"
    using c(2) assms(2) by (auto simp: link_config_def LoadKey_def split: if_splits option.splits)
  then show ?thesis
    using f ftnConfig_enabled [OF c(1)] by (auto simp: c(3) New_server_def newNodeTable_def Let_def)
qed

lemma start_reachable:
  assumes "start now B given opts d = (r, d')" and "reachable d"
  shows "reachable d'"
proof -
  have "reachable (snd (promote E h d))" for E h
    using reachable.call [OF assms(2) store_step.bootstrap, of E h] by (auto simp: promote_def split: prod.splits sum.splits)
  then show ?thesis using assms by (auto simp: start_def split: sum.splits prod.splits if_splits) (metis snd_conv)+
qed

lemma tossOnce_reachable:
  assumes "reachable (sv_db (fst x))" and "list_all (\<lambda>(_, T). fresh_rowids (te_store T)) dirs"
  shows "reachable (sv_db (fst (tossOnce dirs x)))"
  using TossAll_reachable [OF _ assms(2), of "\<lparr>sp_db = sv_db (fst x), sp_disk = snd x, sp_stats = no_stats\<rparr>"] assms(1)
  by (auto simp: tossOnce_def Let_def split: prod.splits) (metis snd_conv)+

theorem RunTosser_reachable:
  assumes "reachable (sv_db (fst x))" and "list_all (\<lambda>T. \<forall>d. fresh_rowids (te_store (T d))) envs"
  shows "reachable (sv_db (fst (RunTosser inbounds envs x)))"
proof -
  let ?dirs = "filter (\<lambda>d. d \<noteq> []) inbounds"
  have "reachable (sv_db (fst (fold (\<lambda>T. tossOnce (map (\<lambda>d. (d, T d)) ?dirs)) envs x)))"
    using assms
  proof (induction envs arbitrary: x)
    case (Cons T envs)
    then show ?case by (simp add: tossOnce_reachable list_all_iff)
  qed simp
  then show ?thesis using assms(1) by (simp add: RunTosser_def Let_def)
qed

end
