(* ===== verification/Spec2Isabelle.thy ===== *)
theory Spec2Isabelle
  imports Store_All Mail_Props Boards_Props Accounts_Props Email_Props Fido_Props Term_Render Term_Charset
    Bbs_Limits FTN_Message FTN_Outbound Filelink Telnet Web_Props Editor_Props Ftn_Cmd Boar_Cmd
begin

text \<open>
  Boar is a bulletin board system written in Go (\<open>src/\<close>). Callers reach it by Telnet and SSH and get a session of
  text screens: private mail, message boards, a wall, a chat room, FidoNet conferences and netmail, file areas, door
  games, their settings, and the sysop's menu. Sysops also have a web interface. Everything lives in one SQLite database
  (\<open>internal/store\<close>). FidoNet mail comes and goes as files in spool directories that the BBS shares with a mailer:
  a tosser reads the inbound, netmail is queued in the outbound. Files are handed out as signed links. New mail can be
  announced by e-mail through a queue in front of an SMTP relay. This library models these parts as functions of
  explicit state and proves what callers, sysops and FidoNet links rely on.

  \<^bold>\<open>Layers and theories.\<close>

  \<^item> Go's packages, as far as they are used: \<open>Prelude\<close> (results of fallible functions, SQL fragments, lists), \<open>Go_Text\<close>
    (UTF-8 and runes), \<open>Go_Strings\<close> (\<open>strings\<close>, \<open>bytes\<close>, \<open>strconv\<close>), \<open>Go_Time\<close> (instants, the calendar),
    \<open>Go_Path\<close> (\<open>path/filepath\<close>). A Go string is a list of bytes, a rune is its code point, a time is in nanoseconds.
  \<^item> \<open>internal/term\<close>: \<open>Term_Text\<close> (text.go), \<open>Term_Render\<close> (render.go), \<open>Term_Charset\<close> (charset.go), \<open>Term_Art\<close> (art.go).
  \<^item> \<open>internal/store\<close>: \<open>Store_DB\<close> (the tables of schema.go as the record \<open>db\<close>, the errors, \<open>tx\<close> of db.go),
    \<open>Store_Users\<close> and \<open>Users_Inv\<close> (users.go, blocks.go, validate.go, password.go), \<open>Store_Mail\<close> (messages.go),
    \<open>Store_Marks\<close> (read marks), \<open>Store_Boards\<close> (boards.go, community.go), \<open>Store_Email\<close> (email.go, sshkeys.go),
    \<open>Store_Log\<close> (events.go, throttle.go), \<open>Store_Fido\<close> (echo.go, netmail.go, files.go). A writing method is a function
    from the database to a result and the new database; an error leaves the database as it was. \<open>Accounts_Props\<close>,
    \<open>Mail_Props\<close>, \<open>Boards_Props\<close>, \<open>Email_Props\<close> and \<open>Fido_Props\<close> say what the parts promise; \<open>Store_All\<close> puts all
    writing methods into one step relation and shows that every database they can reach satisfies the whole invariant
    \<open>db_inv\<close>. \<open>Store_Demo\<close> is the concrete database of the witnesses.
  \<^item> \<open>internal/ftn\<close>: \<open>FTN_Addr\<close> (addr.go, route.go), \<open>FTN_Charset\<close> (charset.go), \<open>FTN_Packet\<close> (packet.go),
    \<open>FTN_Message\<close> (message.go), \<open>FTN_Outbound\<close> (bso.go), \<open>FTN_Inbound\<close> (inbound.go).
  \<^item> \<open>internal/ftntoss\<close>: \<open>FTN_Spool\<close> (directories), \<open>FTN_Tic\<close> (tic.go), \<open>FTN_Toss\<close> (toss.go), with \<open>Toss_Props\<close> and
    \<open>Tic_Props\<close>: from the insecure inbound only netmail enters, no bundle is lost, file echoes stay in their directory.
  \<^item> \<open>internal/bbs\<close>, the server: \<open>Bbs_Limits\<close> (limiter.go, backoff.go, connlimit.go), \<open>Bbs_Nodes\<close> (node.go), \<open>Bbs_Chat\<close>
    (chat.go), \<open>Bbs_Server\<close> (server.go: the record \<open>server\<close> that sessions and web requests share), \<open>Bbs_Admin\<close> (admin.go,
    email.go).
  \<^item> \<open>internal/bbs\<close>, the session: \<open>Bbs_Input\<close> (session.go, terminal.go: keys and line editing), \<open>Bbs_UI\<close> (ui.go,
    screens.go), \<open>Bbs_Login\<close> (login.go), \<open>Bbs_Screen\<close> (sequencing and loops), \<open>Bbs_Editor\<close> (editor.go), \<open>Bbs_Mail\<close>
    (compose.go, mail.go), \<open>Bbs_Community\<close> (community.go), \<open>Bbs_Boards\<close> (boards.go), \<open>Bbs_Settings\<close> (settings.go,
    sshkeys.go), \<open>Bbs_Sysop\<close> (sysop.go, sysop_users.go, approval.go, customart.go), \<open>Bbs_Fido\<close> (echo.go, netmail.go,
    files.go), \<open>Bbs_Doors\<close> (doors.go, chatui.go), \<open>Bbs_Menu\<close> (menu.go and \<open>run\<close>), \<open>Bbs_Conn\<close> (a whole connection:
    \<open>serveCaller\<close> of server.go, ssh.go, sshterm.go).
  \<^item> \<open>Telnet\<close> (\<open>internal/telnet\<close>), \<open>Doors\<close> (\<open>internal/doors\<close>), \<open>Filelink\<close> (\<open>internal/filelink\<close>), \<open>Mailer\<close>
    (\<open>internal/mailer\<close>), \<open>Web_Session\<close>, \<open>Web_Pages\<close> and \<open>Web_Ansi\<close> (\<open>internal/web\<close>), \<open>Ftn_Cmd\<close>
    (\<open>cmd/boar-ftn\<close>), \<open>Boar_Cmd\<close> (\<open>cmd/boar\<close>: the flags' checks and the server they give, and ftn.go's tosser).

  \<^bold>\<open>The session.\<close> An operation of a session is a function of the session (type \<open>io\<close> of \<open>Bbs_Input\<close>): it gives a value, an
  error that ends the session, or a panic, and the session after it. The bytes the caller has still to send are part of the
  session, each with the time it arrives. The session carries the server, so that what an operation does to the database
  is part of its result. \<open>Bbs_Frame\<close> and \<open>Bbs_Calls\<close> hold the rules for reasoning about such operations: the locale
  \<open>frame\<close> is the contract of a relation between the states before and after, \<open>calls\<close> adds an invariant and the rule for
  loops, that a body which goes round must have read a key. \<open>Bbs_Runs\<close> interprets them for the terminal and for
  the whole BBS and proves the rules for the operations every screen uses; each screen's theorem then is a composition
  of rules. \<open>acts_as u\<close> is one call of the store made on behalf of the account \<open>u\<close>.

  \<^bold>\<open>Interfaces as locales.\<close> \<open>frame\<close> and \<open>calls\<close> as above; \<open>hit_store\<close>, the limiter's storage, provided by the
  throttle table; \<open>read_marks\<close>, provided by boards, conferences and file areas; \<open>toss_keeps\<close>, what a property of databases
  needs to survive a pass of the tosser, for the reachable databases and for those that differ in netmail only.

  \<^bold>\<open>What is shown.\<close>

  \<^item> Database: every reachable database satisfies the invariant of all tables; sysop operations need a sysop; letters arrive,
    are read by the two correspondents only, and a refused one changes nothing.
  \<^item> Signing in: only the owner of an unlocked account gets in, with the right password the owner does get in, refusals look
    alike, guesses are bounded, a password is never echoed, limits survive a restart.
  \<^item> Session: whatever is typed, it ends without a panic; a caller without sysop rights changes only what is the caller's
    own, an unapproved one publishes nothing; the editor sends what was typed.
  \<^item> Terminal: text of other callers cannot put control bytes or codes on a terminal; cutting agrees with a description by
    tokens; Telnet's escaping reads back; the preview of art cannot leave its page.
  \<^item> Concurrency: the tables of callers, the chat hub, the mail queue and the web's sessions as step relations with invariants
    over all their reachable states; once the system goes down no caller is forgotten.
  \<^item> FidoNet: packets read back, whatever arrives is read within bounds, queueing is atomic for the mailer, the tosser and
    \<open>boar-ftn route\<close> lose nothing, links and their signatures cannot be forged and lead only below the root.

  \<^bold>\<open>Bounds, loops and fuel.\<close> Loops of the code that need a caller's keys are \<open>repeat_io\<close>: its termination comes from the
  bytes the caller has still to send, and a round that reads none is the outcome \<open>Fail Spins\<close>, which the theorem
  \<open>session_ends\<close> excludes. \<open>readMail_at\<close> has the depth of its recursion as a number: a message can open its thread in the
  same screen, each level has read a key, so the number of bytes still to come is enough, and running out would be
  \<open>Spins\<close> again. Queueing netmail from a session is tried as often as the code tries it (\<open>queue_loop\<close>). All other loops
  are over data or have a measure. Constants of the code (200 lines of a message, 16 KB of text, 2000 messages
  of a conference, 1 MB of a packed message and so on) are definitions under their Go names.

  \<^bold>\<open>Assumptions.\<close> What a method does under a lock, and a web request, is one step. So are some operations that are several
  in the code: a sysop's change of an account checks the sysop and updates the account in two statements, and a limiter
  writes its hits to the database after it has let go of its lock. Hanging up callers is not: the nodes chosen under the lock
  are hung up in steps of their own (\<open>Bbs_Nodes\<close>). An operation of a session runs without other callers in between, so
  that what callers do to each other is covered by the step relations, and by the theorems about sessions from every state of the
  server. A pass of the tosser reads the clock once, where the code reads it for each file it sets aside; instants and times to
  live are far from the limits of 64 bits; drop files can be written, and folders made and files renamed. SQLite gives row ids through \<open>se_rowid\<close>. Parameters stand for what is not
  under \<open>src/\<close> or is hidden in Go's library: SHA-256 and HMAC, PBKDF2, random numbers, archive/zip, the parsers of
  net, net/mail and of SSH keys, quoted-printable, the Unicode tables beyond ASCII, the ZMODEM transfer, door programs, the
  clock, the time zone, the embedded screens and the art folder. The window keeps its size during an operation and has at
  least 20 columns, as telnet and ssh allow; before signing in, the welcome screen pads a box of 61 columns and panics on
  windows narrower than that (\<open>welcome_narrow_panics\<close> of \<open>Login_Props\<close>).

  \<^bold>\<open>Not modelled.\<close> Failing disks and SQL errors; opening and migrating the database file (db.go); the goroutine that
  reads a connection (input.go) and the loops that accept connections and shut down (\<open>acceptLoop\<close>); the SSH protocol
  (x/crypto), its host key, and ZMODEM (zmodem.go, over a library); starting, connecting and killing door programs
  (process.go); the SMTP conversation; HTML templates, static files and response headers of the web interface; flag parsing,
  listening and signals (\<open>cmd/boar\<close>), and the example door (\<open>cmd/boar-door-example\<close>). These are I/O around
  libraries that are not in the repository, without decisions of their own beyond what is modelled. Log lines of the process
  are left out everywhere.
\<close>

end
